(* ===== verification/Prelude.thy ===== *)
theory Prelude
  imports Main "HOL-Library.AList" "HOL-Library.Multiset"
begin

text \<open>
  What every component shares: results with an error branch, Go maps as association lists,
  the two interfaces most components implement (a keyed store and a replay-safe operation),
  and the fact collections the component proofs use.
\<close>

section \<open>Fact collections\<close>

named_theorems go_defs \<open>definitions of the Go library models, unfolded to evaluate closed terms\<close>
named_theorems res_simps \<open>normal forms of results that succeeded\<close>

section \<open>Results\<close>

text \<open>
  A Go function that returns \<open>(T, error)\<close> is a function into \<open>'e + 'a\<close>: \<open>Inl e\<close> is the
  non-nil error, \<open>Inr x\<close> the value with a nil error. A panic is an error constructor of the
  component. \<open>rbind\<close> is the early return on an error.
\<close>

definition rbind :: "'e + 'a \<Rightarrow> ('a \<Rightarrow> 'e + 'b) \<Rightarrow> 'e + 'b" where
  "rbind m k = (case m of Inl e \<Rightarrow> Inl e | Inr x \<Rightarrow> k x)"

lemma rbind_simps [simp]:
  "rbind (Inl e) k = Inl e"
  "rbind (Inr x) k = k x"
  by (simp_all add: rbind_def)

lemma rbind_Inr_iff [res_simps]:
  "rbind m k = Inr y \<longleftrightarrow> (\<exists>x. m = Inr x \<and> k x = Inr y)"
  by (cases m) auto

lemma rbind_Inl_iff:
  "rbind m k = Inl e \<longleftrightarrow> m = Inl e \<or> (\<exists>x. m = Inr x \<and> k x = Inl e)"
  by (cases m) auto

lemma rbind_cong [fundef_cong]:
  "m = m' \<Longrightarrow> (\<And>x. m' = Inr x \<Longrightarrow> k x = k' x) \<Longrightarrow> rbind m k = rbind m' k'"
  by (cases m') auto

definition from_option :: "'e \<Rightarrow> 'a option \<Rightarrow> 'e + 'a" where
  "from_option e x = (case x of None \<Rightarrow> Inl e | Some y \<Rightarrow> Inr y)"

lemma from_option_simps [simp]:
  "from_option e None = Inl e"
  "from_option e (Some x) = Inr x"
  by (simp_all add: from_option_def)

lemma from_option_Inr_iff [res_simps]: "from_option e x = Inr y \<longleftrightarrow> x = Some y"
  by (cases x) auto

lemma if_Inr_iff [res_simps]:
  "(if b then Inl e else r) = Inr y \<longleftrightarrow> \<not> b \<and> r = Inr y"
  by simp

section \<open>Go maps\<close>

text \<open>
  A Go map is an association list with distinct keys; the order of the list is one of the
  iteration orders the runtime may choose. A loop \<open>for k, v := range m\<close> runs over the list,
  and the properties that involve such a loop do not depend on the order.
\<close>

type_synonym ('k, 'v) gomap = "('k \<times> 'v) list"

definition gget :: "('k, 'v) gomap \<Rightarrow> 'k \<Rightarrow> 'v option" where
  "gget m k = map_of m k"

definition gput :: "'k \<Rightarrow> 'v \<Rightarrow> ('k, 'v) gomap \<Rightarrow> ('k, 'v) gomap" where
  "gput k v m = AList.update k v m"

definition gdel :: "'k \<Rightarrow> ('k, 'v) gomap \<Rightarrow> ('k, 'v) gomap" where
  "gdel k m = AList.delete k m"

definition gvals :: "('k, 'v) gomap \<Rightarrow> 'v list" where
  "gvals m = map snd m"

definition gwf :: "('k, 'v) gomap \<Rightarrow> bool" where
  "gwf m \<longleftrightarrow> distinct (map fst m)"

lemma gget_empty [simp]: "gget [] k = None"
  by (simp add: gget_def)

lemma gwf_empty [simp]: "gwf []"
  by (simp add: gwf_def)

lemma gvals_empty [simp]: "gvals [] = []"
  by (simp add: gvals_def)

lemma gget_gput [simp]: "gget (gput k v m) k' = (if k' = k then Some v else gget m k')"
  by (simp add: gget_def gput_def update_conv)

lemma gget_gdel: "gwf m \<Longrightarrow> gget (gdel k m) k' = (if k' = k then None else gget m k')"
  by (simp add: gget_def gdel_def delete_conv)

lemma gwf_gput [simp]: "gwf m \<Longrightarrow> gwf (gput k v m)"
  by (simp add: gwf_def gput_def distinct_update)

lemma gwf_gdel [simp]: "gwf m \<Longrightarrow> gwf (gdel k m)"
  by (simp add: gwf_def gdel_def distinct_delete)

lemma gvals_mem: "gwf m \<Longrightarrow> v \<in> set (gvals m) \<longleftrightarrow> (\<exists>k. gget m k = Some v)"
  by (force simp: gvals_def gget_def gwf_def image_iff)

lemma gvals_memI: "gget m k = Some v \<Longrightarrow> v \<in> set (gvals m)"
  by (force simp: gvals_def gget_def dest: map_of_SomeD)

text \<open>Sums over the values of a map, the measure the ledger invariants are stated with.\<close>

definition gsum :: "('v \<Rightarrow> int) \<Rightarrow> ('k, 'v) gomap \<Rightarrow> int" where
  "gsum f m = sum_list (map f (gvals m))"

lemma gsum_empty [simp]: "gsum f [] = 0"
  by (simp add: gsum_def)

lemma gsum_gput:
  "gsum f (gput k v m) = gsum f m - (case gget m k of None \<Rightarrow> 0 | Some w \<Rightarrow> f w) + f v"
  by (induction m) (auto simp: gsum_def gput_def gget_def gvals_def)

lemma gsum_zero: "(\<And>k v. gget m k = Some v \<Longrightarrow> f v = 0) \<Longrightarrow> gwf m \<Longrightarrow> gsum f m = 0"
proof -
  assume "gwf m" and "\<And>k v. gget m k = Some v \<Longrightarrow> f v = 0"
  then have "map f (gvals m) = map (\<lambda>_. 0 :: int) (gvals m)"
    by (intro map_cong refl) (auto simp: gvals_mem)
  then show ?thesis by (simp only: gsum_def sum_list_0)
qed

lemma gsum_cong:
  "gwf m \<Longrightarrow> (\<And>k v. gget m k = Some v \<Longrightarrow> f v = g v) \<Longrightarrow> gsum f m = gsum g m"
  unfolding gsum_def by (intro arg_cong [where f = sum_list] map_cong refl) (auto simp: gvals_mem)

lemma mset_gomap: "gwf m \<Longrightarrow> gwf m' \<Longrightarrow> (\<And>k. gget m k = gget m' k) \<Longrightarrow> mset m = mset m'"
  unfolding gwf_def gget_def
  by (metis (no_types, lifting) distinct_map eq_key_imp_eq_value map_of_is_SomeI map_of_SomeD set_eq_iff_mset_eq_distinct subsetI subset_antisym surj_pair)

lemma gsum_ext: "gwf m \<Longrightarrow> gwf m' \<Longrightarrow> (\<And>k. gget m k = gget m' k) \<Longrightarrow> gsum f m = gsum f m'"
  using mset_gomap [of m m'] unfolding gsum_def gvals_def
  by (metis mset_map sum_mset_sum_list)

lemma gsum_nonneg_member:
  "gwf m \<Longrightarrow> (\<And>k v. gget m k = Some v \<Longrightarrow> 0 \<le> f v) \<Longrightarrow> gget m k = Some v \<Longrightarrow> f v \<le> gsum f m"
  unfolding gsum_def by (rule member_le_sum_list) (auto simp: gvals_mem dest: gvals_memI)

lemma gget_map_of: "gget m = map_of m"
  by (rule ext) (simp add: gget_def)

lemma finite_dom_gget [simp]: "finite (dom (gget m))"
  by (simp add: gget_map_of finite_dom_map_of)

lemma gsum_sum: "gwf m \<Longrightarrow> gsum f m = (\<Sum>k \<in> dom (gget m). f (the (gget m k)))"
proof (induction m)
  case (Cons p m)
  obtain k v where p: "p = (k, v)" by (cases p)
  have "gwf m" and new: "k \<notin> dom (gget m)" using Cons.prems by (force simp: gwf_def gget_map_of p dom_map_of_conv_image_fst)+
  moreover have "dom (gget (p # m)) = insert k (dom (gget m))" by (auto simp: gget_def p)
  moreover have "(\<Sum>j \<in> dom (gget m). f (the (gget (p # m) j))) = (\<Sum>j \<in> dom (gget m). f (the (gget m j)))"
    using new by (intro sum.cong refl) (auto simp: gget_def p)
  ultimately show ?case using Cons.IH by (simp add: gsum_def gvals_def) (simp add: gget_def p)
qed (simp add: gget_map_of)

section \<open>Replay-safe operations\<close>

text \<open>
  The contract of an idempotent operation. Many operations of the Engine are retried after a lost
  answer; the operation then answers a replay and changes nothing. \<open>settled q s\<close> says that request \<open>q\<close>
  has taken effect in state \<open>s\<close>, \<open>env\<close> is one step of any client, and \<open>timely\<close> is the part of the
  request's validation that depends on the clock.
\<close>

definition adapt :: "('b \<Rightarrow> 'c) \<Rightarrow> 's \<times> ('e + 'b \<times> bool) \<Rightarrow> 's \<times> ('e + 'c \<times> bool)" where
  "adapt f out = (fst out, map_sum id (map_prod f id) (snd out))"

lemma adapt_fst [simp]: "fst (adapt f out) = fst out"
  by (simp add: adapt_def)

lemma adapt_Inr_iff: "adapt f out = (s, Inr (a, b)) \<longleftrightarrow> (\<exists>x. out = (s, Inr (x, b)) \<and> a = f x)"
  by (cases out; cases "snd out") (auto simp: adapt_def)

locale replay_safe =
  fixes step :: "int \<Rightarrow> 'q \<Rightarrow> 's \<Rightarrow> 's \<times> ('e + 'a \<times> bool)"
    and inv :: "'s \<Rightarrow> bool"
    and env :: "'s \<Rightarrow> 's \<Rightarrow> bool"
    and settled :: "'q \<Rightarrow> 's \<Rightarrow> bool"
    and timely :: "int \<Rightarrow> 'q \<Rightarrow> bool"
  assumes step_settles: "inv s \<Longrightarrow> step now q s = (s', Inr (a, False)) \<Longrightarrow> settled q s'"
    and env_settled: "inv s \<Longrightarrow> settled q s \<Longrightarrow> env s s' \<Longrightarrow> settled q s'"
    and settled_replays: "inv s \<Longrightarrow> settled q s \<Longrightarrow> timely now q \<Longrightarrow> \<exists>a. step now q s = (s, Inr (a, True))"
    and step_inv: "inv s \<Longrightarrow> inv (fst (step now q s))"
    and env_inv: "inv s \<Longrightarrow> env s s' \<Longrightarrow> inv s'"
begin

lemma run_settled: "env\<^sup>*\<^sup>* s s' \<Longrightarrow> inv s \<Longrightarrow> settled q s \<Longrightarrow> inv s' \<and> settled q s'"
  by (induction rule: rtranclp_induct) (auto intro: env_settled env_inv)

lemma retry:
  assumes "inv s" "step now q s = (s', Inr (a, False))" "env\<^sup>*\<^sup>* s' s''" "timely now' q"
  shows "\<exists>a. step now' q s'' = (s'', Inr (a, True))"
proof -
  have "inv s'" using step_inv [OF assms(1), of now q] assms(2) by simp
  with run_settled [OF assms(3)] step_settles [OF assms(1,2)] settled_replays assms(4) show ?thesis by blast
qed

text \<open>An adapter that renames the request and projects the answer keeps the contract.\<close>

lemma adapted:
  "replay_safe (\<lambda>now q s. adapt f (step now (g q) s)) inv env (\<lambda>q. settled (g q)) (\<lambda>now q. timely now (g q))"
proof
  fix s s' now q a
  assume "inv s" "adapt f (step now (g q) s) = (s', Inr (a, False))"
  then show "settled (g q) s'" by (auto simp: adapt_Inr_iff intro: step_settles)
next
  fix s q now
  assume "inv s" "settled (g q) s" "timely now (g q)"
  then show "\<exists>a. adapt f (step now (g q) s) = (s, Inr (a, True))"
    using settled_replays by (fastforce simp: adapt_Inr_iff)
qed (auto intro: env_settled step_inv env_inv)

end

text \<open>
  The stronger contract: a retry gives the very answer of the first call. \<open>answered q a s\<close> says that the
  state records \<open>a\<close> as the answer of \<open>q\<close>.
\<close>

locale replay_exact = replay_safe step inv env settled timely
  for step :: "int \<Rightarrow> 'q \<Rightarrow> 's \<Rightarrow> 's \<times> ('e + 'a \<times> bool)" and inv env settled timely +
  fixes answered :: "'q \<Rightarrow> 'a \<Rightarrow> 's \<Rightarrow> bool"
  assumes step_answers: "inv s \<Longrightarrow> step now q s = (s', Inr (a, False)) \<Longrightarrow> answered q a s'"
    and env_answered: "inv s \<Longrightarrow> answered q a s \<Longrightarrow> env s s' \<Longrightarrow> answered q a s'"
    and answered_replays: "inv s \<Longrightarrow> answered q a s \<Longrightarrow> timely now q \<Longrightarrow> step now q s = (s, Inr (a, True))"
begin

lemma run_answered: "env\<^sup>*\<^sup>* s s' \<Longrightarrow> inv s \<Longrightarrow> answered q a s \<Longrightarrow> inv s' \<and> answered q a s'"
  by (induction rule: rtranclp_induct) (auto intro: env_answered env_inv)

lemma retry_exact:
  assumes "inv s" "step now q s = (s', Inr (a, False))" "env\<^sup>*\<^sup>* s' s''" "timely now' q"
  shows "step now' q s'' = (s'', Inr (a, True))"
proof -
  have "inv s'" using step_inv [OF assms(1), of now q] assms(2) by simp
  with run_answered [OF assms(3)] step_answers [OF assms(1,2)] answered_replays assms(4) show ?thesis by blast
qed

end

end
