(* ===== verification/Go_Lib.thy ===== *)
theory Go_Lib
  imports Prelude "HOL-Library.Char_ord" "HOL-Library.List_Lexorder" "HOL-Library.Sublist"
begin

text \<open>
  The part of the Go language and standard library the Engine uses: 64-bit signed arithmetic
  with wrap-around and division towards zero, \<open>time.Time\<close> and \<open>time.Duration\<close>, byte strings
  (\<open>strings.TrimSpace\<close>, \<open>ToLower\<close>, \<open>EqualFold\<close>, \<open>Compare\<close>, \<open>HasPrefix\<close>), hexadecimal and
  big-endian encodings, decimal printing, and \<open>slices.SortFunc\<close>.

  A Go string is the list of its bytes (\<open>char\<close> is a byte). Case mapping is the ASCII one: on
  strings with bytes above 127 Go applies the Unicode tables, which are not modelled.
\<close>

section \<open>int and int64\<close>

definition wrap64 :: "int \<Rightarrow> int" where
  "wrap64 x = (x + 2 ^ 63) mod 2 ^ 64 - 2 ^ 63"

definition int64_range :: "int \<Rightarrow> bool" where
  "int64_range x \<longleftrightarrow> - (2 ^ 63) \<le> x \<and> x < 2 ^ 63"

lemma wrap64_id [simp]: "int64_range x \<Longrightarrow> wrap64 x = x"
  by (simp add: wrap64_def int64_range_def)

lemma wrap64_range: "int64_range (wrap64 x)"
proof -
  have "0 \<le> (x + 2 ^ 63) mod 2 ^ 64" "(x + 2 ^ 63) mod 2 ^ 64 < 2 ^ 64"
    by simp_all
  then show ?thesis by (simp add: wrap64_def int64_range_def)
qed

text \<open>Go's \<open>/\<close> and \<open>%\<close> truncate towards zero.\<close>

definition go_div :: "int \<Rightarrow> int \<Rightarrow> int" where
  "go_div a b = sgn a * sgn b * (\<bar>a\<bar> div \<bar>b\<bar>)"

lemma go_div_nonneg: "0 \<le> a \<Longrightarrow> 0 < b \<Longrightarrow> go_div a b = a div b"
  by (cases "a = 0") (simp_all add: go_div_def)

definition clamp :: "int \<Rightarrow> int \<Rightarrow> int \<Rightarrow> int" where
  "clamp v lo hi = (if v < lo then lo else if v > hi then hi else v)"

section \<open>Time\<close>

text \<open>
  An instant is the number of nanoseconds since the zero \<open>time.Time{}\<close> (year 1, UTC), so the
  zero value is 0; a duration is a number of nanoseconds. \<open>Sub\<close> saturates at the bounds of
  \<open>Duration\<close>, as Go's does.
\<close>

type_synonym gotime = int
type_synonym duration = int

abbreviation second_ns :: duration where "second_ns \<equiv> 1000000000"
abbreviation minute_ns :: duration where "minute_ns \<equiv> 60 * second_ns"
abbreviation hour_ns :: duration where "hour_ns \<equiv> 60 * minute_ns"

definition time_sub :: "gotime \<Rightarrow> gotime \<Rightarrow> duration" where
  "time_sub a b = clamp (a - b) (- (2 ^ 63)) (2 ^ 63 - 1)"

section \<open>Strings\<close>

text \<open>\<open>unicode.IsSpace\<close>: the UTF-8 encodings of its code points.\<close>

definition go_spaces :: "string list" where
  "go_spaces = map (\<lambda>n. [char_of (n::nat)]) [9, 10, 11, 12, 13, 32] @
     map (map (char_of :: nat \<Rightarrow> char))
       ([[194, 133], [194, 160], [225, 154, 128]] @
        map (\<lambda>b. [226, 128, b]) [128, 129, 130, 131, 132, 133, 134, 135, 136, 137, 138, 168, 169, 175] @
        [[226, 129, 159], [227, 128, 128]])"

fun trim_with :: "nat \<Rightarrow> string list \<Rightarrow> string \<Rightarrow> string" where
  "trim_with 0 ws s = s"
| "trim_with (Suc n) ws s =
     (case List.find (\<lambda>w. take (length w) s = w) ws of
        None \<Rightarrow> s
      | Some w \<Rightarrow> trim_with n ws (drop (length w) s))"

text \<open>The fuel is the length of the string: every step removes at least one byte.\<close>

definition trim_left :: "string \<Rightarrow> string" where
  "trim_left s = trim_with (length s) go_spaces s"

definition trim_right :: "string \<Rightarrow> string" where
  "trim_right s = rev (trim_with (length s) (map rev go_spaces) (rev s))"

definition trim_space :: "string \<Rightarrow> string" where
  "trim_space s = trim_right (trim_left s)"

definition blank :: "string \<Rightarrow> bool" where
  "blank s \<longleftrightarrow> trim_space s = []"

text \<open>A string with a printable ASCII byte other than the space is not blank.\<close>

definition printable :: "char \<Rightarrow> bool" where
  "printable c \<longleftrightarrow> 33 \<le> (of_char c :: nat) \<and> (of_char c :: nat) < 127"

lemma go_spaces_unprintable: "w \<in> set go_spaces \<Longrightarrow> c \<in> set w \<Longrightarrow> \<not> printable c"
  by (auto simp: go_spaces_def printable_def)

lemma trim_with_keeps:
  assumes "\<forall>w \<in> set ws. \<forall>c \<in> set w. \<not> printable c" "printable c" "c \<in> set s"
  shows "c \<in> set (trim_with n ws s)"
  using assms(3)
proof (induction n arbitrary: s)
  case (Suc n)
  show ?case
  proof (cases "List.find (\<lambda>w. take (length w) s = w) ws")
    case (Some w)
    then have "w \<in> set ws" "take (length w) s = w" by (auto simp: find_Some_iff)
    then have "c \<notin> set (take (length w) s)" using assms(1,2) by metis
    with Suc.prems have "c \<in> set (drop (length w) s)"
      by (metis Un_iff append_take_drop_id set_append)
    then show ?thesis using Suc.IH Some by simp
  qed (use Suc.prems in simp)
qed simp

lemma not_blank: "c \<in> set s \<Longrightarrow> printable c \<Longrightarrow> \<not> blank s"
proof -
  assume c: "c \<in> set s" "printable c"
  have "c \<in> set (trim_left s)"
    unfolding trim_left_def using c by (intro trim_with_keeps) (auto dest: go_spaces_unprintable)
  then have "c \<in> set (trim_right (trim_left s))"
    using trim_with_keeps [of "map rev go_spaces" c "rev (trim_left s)"] c(2)
    by (auto simp: trim_right_def dest: go_spaces_unprintable)
  then show ?thesis by (auto simp: blank_def trim_space_def)
qed

lemma not_blank_Cons: "printable c \<Longrightarrow> \<not> blank (c # s)"
  by (rule not_blank) simp_all

definition char_lower :: "char \<Rightarrow> char" where
  "char_lower c = (let n = of_char c :: nat in
     if 65 \<le> n \<and> n \<le> 90 then char_of (n + 32) else c)"

definition to_lower :: "string \<Rightarrow> string" where
  "to_lower s = map char_lower s"

definition equal_fold :: "string \<Rightarrow> string \<Rightarrow> bool" where
  "equal_fold a b \<longleftrightarrow> to_lower a = to_lower b"

definition has_prefix :: "string \<Rightarrow> string \<Rightarrow> bool" where
  "has_prefix s p \<longleftrightarrow> take (length p) s = p"

text \<open>\<open>strings.Compare\<close>: lexicographic on bytes.\<close>

definition strcmp :: "string \<Rightarrow> string \<Rightarrow> int" where
  "strcmp a b = (if a = b then 0 else if a < b then -1 else 1)"

lemma strcmp_le [simp]: "strcmp a b \<le> 0 \<longleftrightarrow> a \<le> b"
  by (auto simp: strcmp_def)

lemma strcmp_refl [simp]: "strcmp a a = 0"
  by (simp add: strcmp_def)

lemma strcmp_eq0 [simp]: "strcmp a b = 0 \<longleftrightarrow> a = b"
  by (simp add: strcmp_def)

definition char_between :: "char \<Rightarrow> char \<Rightarrow> char \<Rightarrow> bool" where
  "char_between lo hi c \<longleftrightarrow> (of_char lo :: nat) \<le> of_char c \<and> (of_char c :: nat) \<le> of_char hi"

abbreviation is_digit :: "char \<Rightarrow> bool" where
  "is_digit \<equiv> char_between (CHR ''0'') (CHR ''9'')"

abbreviation is_lower :: "char \<Rightarrow> bool" where
  "is_lower \<equiv> char_between (CHR ''a'') (CHR ''z'')"

lemma trim_with_nil [simp]: "[] \<notin> set ws \<Longrightarrow> trim_with n ws [] = []"
proof (cases n)
  case (Suc m)
  assume ws: "[] \<notin> set ws"
  have "List.find (\<lambda>w. take (length w) [] = w) ws = None"
    using ws by (auto simp: find_None_iff)
  then show ?thesis by (simp add: Suc)
qed simp

lemma go_spaces_nonempty: "[] \<notin> set go_spaces"
  by (simp add: go_spaces_def image_iff)

lemma blank_empty [simp]: "blank []"
  by (simp add: blank_def trim_space_def trim_right_def trim_left_def)

section \<open>Encodings\<close>

definition hex_char :: "nat \<Rightarrow> char" where
  "hex_char n = (if n < 10 then char_of (48 + n) else char_of (87 + n))"

definition hex_encode :: "string \<Rightarrow> string" where
  "hex_encode bs = concat (map (\<lambda>b. let n = of_char b :: nat in [hex_char (n div 16), hex_char (n mod 16)]) bs)"

definition is_hex :: "char \<Rightarrow> bool" where
  "is_hex c \<longleftrightarrow> is_digit c \<or> char_between (CHR ''a'') (CHR ''f'') c \<or> char_between (CHR ''A'') (CHR ''F'') c"

text \<open>\<open>hex.DecodeString\<close> returns no error.\<close>

definition hex_decodable :: "string \<Rightarrow> bool" where
  "hex_decodable s \<longleftrightarrow> even (length s) \<and> list_all is_hex s"

text \<open>Big-endian bytes: \<open>binary.BigEndian.PutUint32\<close> (4 bytes) and \<open>PutUint64\<close> (8 bytes).\<close>

fun be_bytes :: "nat \<Rightarrow> nat \<Rightarrow> string" where
  "be_bytes 0 x = []"
| "be_bytes (Suc n) x = char_of ((x div 256 ^ n) mod 256) # be_bytes n x"

fun be_value :: "string \<Rightarrow> nat" where
  "be_value [] = 0"
| "be_value (c # cs) = of_char c * 256 ^ length cs + be_value cs"

lemma length_be_bytes [simp]: "length (be_bytes n x) = n"
  by (induction n) auto

lemma be_value_bytes: "be_value (be_bytes n x) = x mod 256 ^ n"
proof (induction n)
  case (Suc n)
  have "x mod (256 ^ n * 256) = 256 ^ n * (x div 256 ^ n mod 256) + x mod 256 ^ n"
    by (rule mod_mult2_eq)
  then show ?case using Suc by (simp add: mult.commute)
qed simp

lemma be_value_less: "be_value cs < 256 ^ length cs"
proof (induction cs)
  case (Cons c cs)
  have "(of_char c :: nat) \<le> 255" using nat_of_char_less_256 [of c] by linarith
  then have "(of_char c :: nat) * 256 ^ length cs \<le> 255 * 256 ^ length cs"
    by (rule mult_le_mono1)
  moreover have "(256::nat) * 256 ^ length cs = 255 * 256 ^ length cs + 256 ^ length cs"
    by simp
  ultimately have "of_char c * 256 ^ length cs + be_value cs < (256::nat) * 256 ^ length cs"
    using Cons by linarith
  then show ?case by simp
qed simp

lemma be_bytes_inject: "x < 256 ^ n \<Longrightarrow> y < 256 ^ n \<Longrightarrow> be_bytes n x = be_bytes n y \<longleftrightarrow> x = y"
  by (metis be_value_bytes mod_less)

section \<open>slices.SortFunc\<close>

text \<open>
  \<open>slices.SortFunc\<close> sorts by a comparison function. The library's algorithm is not stable; the
  model is a stable insertion sort. Where no two different elements compare as equal, the sorted
  permutation is unique (\<open>sort_unique\<close> below), so the choice of algorithm does not show.
\<close>

fun insert_by :: "('a \<Rightarrow> 'a \<Rightarrow> int) \<Rightarrow> 'a \<Rightarrow> 'a list \<Rightarrow> 'a list" where
  "insert_by cmp x [] = [x]"
| "insert_by cmp x (y # ys) = (if cmp x y \<le> 0 then x # y # ys else y # insert_by cmp x ys)"

definition sort_func :: "('a \<Rightarrow> 'a \<Rightarrow> int) \<Rightarrow> 'a list \<Rightarrow> 'a list" where
  "sort_func cmp xs = foldr (insert_by cmp) xs []"

lemma sort_func_simps [simp]:
  "sort_func cmp [] = []"
  "sort_func cmp (x # xs) = insert_by cmp x (sort_func cmp xs)"
  by (simp_all add: sort_func_def)

lemma mset_insert_by [simp]: "mset (insert_by cmp x xs) = add_mset x (mset xs)"
  by (induction xs) auto

lemma mset_sort_func [simp]: "mset (sort_func cmp xs) = mset xs"
  by (induction xs) auto

lemma set_sort_func [simp]: "set (sort_func cmp xs) = set xs"
  by (metis mset_sort_func set_mset_mset)

lemma length_sort_func [simp]: "length (sort_func cmp xs) = length xs"
  by (metis mset_sort_func size_mset)

lemma distinct_sort_func [simp]: "distinct (sort_func cmp xs) = distinct xs"
  by (metis mset_eq_imp_distinct_iff mset_sort_func)

lemma sort_func_eq_Nil [simp]: "sort_func cmp xs = [] \<longleftrightarrow> xs = []"
  by (metis length_0_conv length_sort_func)

text \<open>
  The contract \<open>slices.SortFunc\<close> puts on its comparison: a total preorder. Inside it the sort is
  correct, and unique on lists where the comparison separates the elements.
\<close>

locale comparator =
  fixes cmp :: "'a \<Rightarrow> 'a \<Rightarrow> int"
  assumes cmp_total: "cmp x y \<le> 0 \<or> cmp y x \<le> 0"
    and cmp_trans: "cmp x y \<le> 0 \<Longrightarrow> cmp y z \<le> 0 \<Longrightarrow> cmp x z \<le> 0"
begin

lemma sorted_insert_by:
  "sorted_wrt (\<lambda>x y. cmp x y \<le> 0) xs \<Longrightarrow> sorted_wrt (\<lambda>x y. cmp x y \<le> 0) (insert_by cmp x xs)"
proof (induction xs)
  case (Cons y ys)
  have set_ib: "set (insert_by cmp x ys) = insert x (set ys)"
    by (metis mset_insert_by set_mset_add_mset_insert set_mset_mset)
  from Cons show ?case
    using cmp_total [of x y] by (auto simp: set_ib intro: cmp_trans)
qed simp

lemma sorted_sort_func: "sorted_wrt (\<lambda>x y. cmp x y \<le> 0) (sort_func cmp xs)"
  by (induction xs) (auto intro: sorted_insert_by)

lemma sorted_unique:
  assumes "sorted_wrt (\<lambda>x y. cmp x y \<le> 0) xs" "sorted_wrt (\<lambda>x y. cmp x y \<le> 0) ys"
    and "mset xs = mset ys"
    and sep: "\<And>x y. x \<in> set xs \<Longrightarrow> y \<in> set xs \<Longrightarrow> cmp x y \<le> 0 \<Longrightarrow> cmp y x \<le> 0 \<Longrightarrow> x = y"
  shows "xs = ys"
  using assms
proof (induction xs arbitrary: ys)
  case (Cons x xs)
  from Cons.prems(3) obtain z zs where ys: "ys = z # zs"
    by (cases ys) auto
  have sets: "set (x # xs) = set (z # zs)"
    using Cons.prems(3) ys by (metis set_mset_mset)
  have refl: "cmp w w \<le> 0" for w using cmp_total [of w w] by simp
  have "z = x \<or> z \<in> set xs" and "x = z \<or> x \<in> set zs" using sets by auto
  then have "cmp x z \<le> 0" and "cmp z x \<le> 0"
    using Cons.prems(1,2) ys refl by auto
  then have "x = z" using Cons.prems(4) sets by auto
  moreover from this have "xs = zs"
    using Cons.prems ys by (intro Cons.IH) auto
  ultimately show ?case using ys by simp
qed simp

lemma sort_unique:
  assumes "mset xs = mset ys"
    and "\<And>x y. x \<in> set xs \<Longrightarrow> y \<in> set xs \<Longrightarrow> cmp x y \<le> 0 \<Longrightarrow> cmp y x \<le> 0 \<Longrightarrow> x = y"
  shows "sort_func cmp xs = sort_func cmp ys"
  using assms by (intro sorted_unique sorted_sort_func) auto

lemma sort_func_id:
  assumes "sorted_wrt (\<lambda>x y. cmp x y \<le> 0) xs"
  shows "sort_func cmp xs = xs"
  using assms
proof (induction xs)
  case (Cons x xs)
  then have "sort_func cmp xs = xs" by simp
  with Cons.prems show ?case by (cases xs) auto
qed simp

end

text \<open>Comparison by a string key, the comparison the Engine uses most.\<close>

definition key_cmp :: "('a \<Rightarrow> string) \<Rightarrow> 'a \<Rightarrow> 'a \<Rightarrow> int" where
  "key_cmp f x y = strcmp (f x) (f y)"

interpretation key: comparator "key_cmp f" for f
  by unfold_locales (auto simp: key_cmp_def)

end
