(* ===== verification/Money.thy ===== *)
theory Money
  imports Go_Lib
begin

text \<open>
  Amounts. Every component keeps amounts as decimal strings and computes with \<open>math/big\<close>:
  \<open>bigint_parse\<close> is \<open>new(big.Int).SetString(s, 10)\<close>, \<open>bigint_string\<close> is \<open>String()\<close>. Arithmetic on a
  string that does not parse would dereference a nil \<open>*big.Int\<close>: that panic is \<open>None\<close>.
\<close>

section \<open>Decimal strings\<close>

definition digit_val :: "char \<Rightarrow> nat" where
  "digit_val c = of_char c - 48"

definition nat_of_digits :: "string \<Rightarrow> nat" where
  "nat_of_digits s = foldl (\<lambda>a c. 10 * a + digit_val c) 0 s"

definition digits_parse :: "string \<Rightarrow> nat option" where
  "digits_parse s = (if s \<noteq> [] \<and> list_all is_digit s then Some (nat_of_digits s) else None)"

definition bigint_parse :: "string \<Rightarrow> int option" where
  "bigint_parse s = (case s of
     [] \<Rightarrow> None
   | c # cs \<Rightarrow>
       (if c = CHR ''-'' then map_option (\<lambda>n. - int n) (digits_parse cs)
        else if c = CHR ''+'' then map_option int (digits_parse cs)
        else map_option int (digits_parse s)))"

fun nat_string :: "nat \<Rightarrow> string" where
  "nat_string n = (if n < 10 then [char_of (48 + n)] else nat_string (n div 10) @ [char_of (48 + n mod 10)])"

declare nat_string.simps [simp del]

definition bigint_string :: "int \<Rightarrow> string" where
  "bigint_string i = (if i < 0 then CHR ''-'' # nat_string (nat (- i)) else nat_string (nat i))"

lemma char_of_48: "char_of (48 :: nat) = CHR ''0''"
  using char_of_char [of "CHR ''0''"] by simp

lemma of_char_digit: "n < 10 \<Longrightarrow> of_char (char_of (48 + n) :: char) = (48 + n :: nat)"
  by simp

lemma is_digit_char_of: "n < 10 \<Longrightarrow> is_digit (char_of (48 + n :: nat))"
  by (simp add: char_between_def)

lemma digit_val_char_of: "n < 10 \<Longrightarrow> digit_val (char_of (48 + n :: nat)) = n"
  by (simp add: digit_val_def)

lemma is_digit_val:
  assumes "is_digit c"
  shows "digit_val c < 10" "char_of (48 + digit_val c :: nat) = c"
proof -
  from assms have "48 \<le> (of_char c :: nat)" "(of_char c :: nat) \<le> 57"
    by (simp_all add: char_between_def)
  then show "digit_val c < 10" "char_of (48 + digit_val c :: nat) = c"
    by (simp_all add: digit_val_def)
qed

lemma nat_of_digits_snoc [simp]: "nat_of_digits (s @ [c]) = 10 * nat_of_digits s + digit_val c"
  by (simp add: nat_of_digits_def)

lemma nat_string_digits: "nat_string n \<noteq> [] \<and> list_all is_digit (nat_string n)"
proof (induction n rule: nat_string.induct)
  case (1 n)
  then show ?case
    by (subst (1 2) nat_string.simps) (auto simp: is_digit_char_of)
qed

lemmas nat_string_nonempty [simp] = nat_string_digits [THEN conjunct1]
lemmas nat_string_all_digits [simp] = nat_string_digits [THEN conjunct2]

lemma nat_of_digits_string [simp]: "nat_of_digits (nat_string n) = n"
proof (induction n rule: nat_string.induct)
  case (1 n)
  show ?case
  proof (cases "n < 10")
    case True
    then show ?thesis
      by (subst nat_string.simps) (simp add: nat_of_digits_def digit_val_char_of)
  next
    case False
    with 1 show ?thesis
      by (subst nat_string.simps) (simp add: digit_val_char_of)
  qed
qed

lemma digits_parse_string [simp]: "digits_parse (nat_string n) = Some n"
  by (simp add: digits_parse_def)

lemma hd_nat_string_digit: "is_digit (hd (nat_string n))"
  by (metis hd_in_set list_all_iff nat_string_digits)

lemma bigint_parse_nat_string [simp]: "bigint_parse (nat_string n) = Some (int n)"
proof -
  obtain c cs where s: "nat_string n = c # cs" by (cases "nat_string n") auto
  have "is_digit c" using hd_nat_string_digit [of n] s by simp
  then have "c \<noteq> CHR ''-''" "c \<noteq> CHR ''+''" by (auto simp: char_between_def)
  then have "bigint_parse (nat_string n) = map_option int (digits_parse (nat_string n))"
    unfolding s by (simp add: bigint_parse_def)
  then show ?thesis by simp
qed

text \<open>Printing and parsing a \<open>big.Int\<close> is the identity.\<close>

lemma bigint_roundtrip [simp]: "bigint_parse (bigint_string i) = Some i"
proof (cases "i < 0")
  case True
  then show ?thesis by (simp add: bigint_string_def bigint_parse_def)
next
  case False
  then show ?thesis by (simp add: bigint_string_def)
qed

lemma bigint_string_inject [simp]: "bigint_string i = bigint_string j \<longleftrightarrow> i = j"
  by (metis bigint_roundtrip option.inject)

lemma bigint_string_nonneg: "0 \<le> i \<Longrightarrow> bigint_string i = nat_string (nat i)"
  by (simp add: bigint_string_def)

lemma bigint_string_0 [simp]: "bigint_string 0 = ''0''"
  by (simp add: bigint_string_def nat_string.simps char_of_48)

section \<open>Canonical digit strings\<close>

definition canonical_digits :: "string \<Rightarrow> bool" where
  "canonical_digits s \<longleftrightarrow> s \<noteq> [] \<and> list_all is_digit s \<and> (s \<noteq> ''0'' \<longrightarrow> hd s \<noteq> CHR ''0'')"

lemma nat_of_digits_pos:
  "s \<noteq> [] \<Longrightarrow> list_all is_digit s \<Longrightarrow> hd s \<noteq> CHR ''0'' \<Longrightarrow> 0 < nat_of_digits s"
proof (induction s rule: rev_induct)
  case (snoc c s)
  show ?case
  proof (cases "s = []")
    case True
    with snoc.prems have "is_digit c" "c \<noteq> CHR ''0''" by auto
    then have "digit_val c \<noteq> 0"
      by (metis add_0_right char_of_48 is_digit_val(2))
    with True show ?thesis by (simp add: nat_of_digits_def)
  next
    case False
    with snoc show ?thesis by simp
  qed
qed simp

lemma nat_string_of_digits:
  "canonical_digits s \<Longrightarrow> nat_string (nat_of_digits s) = s"
proof (induction s rule: rev_induct)
  case (snoc c s)
  from snoc.prems have c: "is_digit c" by (simp add: canonical_digits_def)
  show ?case
  proof (cases "s = []")
    case True
    then show ?thesis using is_digit_val [OF c]
      by (subst nat_string.simps) (simp add: nat_of_digits_def)
  next
    case False
    with snoc.prems have hd: "hd s \<noteq> CHR ''0''" and dig: "list_all is_digit s"
      by (auto simp: canonical_digits_def hd_append)
    then have can: "canonical_digits s" using False by (simp add: canonical_digits_def)
    have "0 < nat_of_digits s" by (rule nat_of_digits_pos) (use False hd dig in auto)
    then show ?thesis
      using snoc.IH [OF can] is_digit_val [OF c]
      by (subst nat_string.simps) simp
  qed
qed (simp add: canonical_digits_def)

lemma canonical_nat_string: "canonical_digits (nat_string n)"
proof (induction n rule: nat_string.induct)
  case (1 n)
  show ?case
  proof (cases "n < 10")
    case True
    then show ?thesis
      by (subst nat_string.simps)
        (auto simp: canonical_digits_def is_digit_char_of dest!: arg_cong [where f = "of_char :: char \<Rightarrow> nat"])
  next
    case False
    then have "0 < n div 10" by simp
    have "nat_string (n div 10) \<noteq> ''0''"
    proof
      assume "nat_string (n div 10) = ''0''"
      then have "n div 10 = nat_of_digits ''0''" by (metis nat_of_digits_string)
      then show False using \<open>0 < n div 10\<close> by (simp add: nat_of_digits_def digit_val_def)
    qed
    then have hd: "hd (nat_string (n div 10)) \<noteq> CHR ''0''"
      using 1 False by (simp add: canonical_digits_def)
    show ?thesis
      by (subst nat_string.simps) (use False hd in \<open>auto simp: canonical_digits_def is_digit_char_of hd_append\<close>)
  qed
qed

lemma length_nat_string_le: "n < 10 ^ k \<Longrightarrow> 0 < k \<Longrightarrow> length (nat_string n) \<le> k"
proof (induction k arbitrary: n)
  case (Suc k)
  show ?case
  proof (cases "n < 10")
    case True
    then show ?thesis by (subst nat_string.simps) simp
  next
    case False
    with Suc.prems have "0 < k" by (cases k) auto
    moreover have "n div 10 < 10 ^ k" using Suc.prems by (simp add: less_mult_imp_div_less mult.commute)
    ultimately have "length (nat_string (n div 10)) \<le> k" by (intro Suc.IH)
    then show ?thesis using False by (subst nat_string.simps) simp
  qed
qed simp

lemma nat_of_digits_less: "list_all is_digit s \<Longrightarrow> nat_of_digits s < 10 ^ length s"
proof (induction s rule: rev_induct)
  case (snoc c s)
  then have "nat_of_digits s < 10 ^ length s" "digit_val c < 10"
    by (simp_all add: is_digit_val)
  then show ?case by simp
qed (simp add: nat_of_digits_def)

section \<open>Valid amounts\<close>

text \<open>
  \<open>validMoney\<close> of the funds package. The matching and the execution package hold the negated
  copy of the same function.
\<close>

definition valid_money :: "string \<Rightarrow> bool" where
  "valid_money v =
     (if v = [] \<or> length v > 78 \<or> (v \<noteq> ''0'' \<and> has_prefix v ''0'') then False
      else if \<not> list_all is_digit v then False
      else bigint_parse v \<noteq> None)"

definition positive_money :: "string \<Rightarrow> bool" where
  "positive_money v \<longleftrightarrow> valid_money v \<and> v \<noteq> ''0''"

lemma bigint_parse_digits:
  assumes "v \<noteq> []" "list_all is_digit v"
  shows "bigint_parse v = Some (int (nat_of_digits v))"
proof -
  obtain c cs where v: "v = c # cs" using assms(1) by (cases v) auto
  with assms have "c \<noteq> CHR ''-''" "c \<noteq> CHR ''+''" by (auto simp: char_between_def)
  with assms v show ?thesis by (simp add: bigint_parse_def digits_parse_def)
qed

lemma valid_money_canonical:
  "valid_money v \<longleftrightarrow> canonical_digits v \<and> length v \<le> 78"
  by (cases v) (auto simp: valid_money_def canonical_digits_def has_prefix_def bigint_parse_digits)

text \<open>The valid amounts are exactly the printed naturals below \<open>10 ^ 78\<close>.\<close>

lemma valid_money_iff: "valid_money v \<longleftrightarrow> (\<exists>n < 10 ^ 78. v = nat_string n)"
proof
  assume v: "valid_money v"
  then have c: "canonical_digits v" "length v \<le> 78" by (simp_all add: valid_money_canonical)
  then have "nat_of_digits v < 10 ^ length v"
    by (intro nat_of_digits_less) (simp add: canonical_digits_def)
  also have "\<dots> \<le> 10 ^ 78" using c(2) by (intro power_increasing) auto
  finally show "\<exists>n < 10 ^ 78. v = nat_string n"
    using nat_string_of_digits [OF c(1)] by metis
next
  assume "\<exists>n < 10 ^ 78. v = nat_string n"
  then obtain n where n: "n < 10 ^ 78" "v = nat_string n" by blast
  then show "valid_money v"
    using canonical_nat_string [of n] length_nat_string_le [OF n(1)]
    by (simp add: valid_money_canonical)
qed

lemma valid_money_zero [simp]: "valid_money ''0''"
  by (simp add: valid_money_canonical canonical_digits_def char_between_def)

section \<open>Arithmetic\<close>

definition money_int :: "string \<Rightarrow> int" where
  "money_int v = (case bigint_parse v of None \<Rightarrow> 0 | Some i \<Rightarrow> i)"

definition add_money :: "string \<Rightarrow> string \<Rightarrow> string option" where
  "add_money l r = (case bigint_parse l of None \<Rightarrow> None | Some a \<Rightarrow>
     (case bigint_parse r of None \<Rightarrow> None | Some b \<Rightarrow> Some (bigint_string (a + b))))"

definition subtract_money :: "string \<Rightarrow> string \<Rightarrow> string option" where
  "subtract_money l r = (case bigint_parse l of None \<Rightarrow> None | Some a \<Rightarrow>
     (case bigint_parse r of None \<Rightarrow> None | Some b \<Rightarrow> Some (bigint_string (a - b))))"

definition compare_money :: "string \<Rightarrow> string \<Rightarrow> int option" where
  "compare_money l r = (case bigint_parse l of None \<Rightarrow> None | Some a \<Rightarrow>
     (case bigint_parse r of None \<Rightarrow> None | Some b \<Rightarrow> Some (if a < b then -1 else if a = b then 0 else 1)))"

text \<open>\<open>is_amount\<close>: the string is a printed integer, the shape of every balance the ledger writes.\<close>

definition is_amount :: "string \<Rightarrow> bool" where
  "is_amount v \<longleftrightarrow> (case bigint_parse v of None \<Rightarrow> False | Some i \<Rightarrow> bigint_string i = v)"

lemma is_amount_string [simp]: "is_amount (bigint_string i)"
  by (simp add: is_amount_def)

lemma is_amountD: "is_amount v \<Longrightarrow> bigint_string (money_int v) = v"
  by (simp add: is_amount_def money_int_def split: option.splits)

lemma money_int_string [simp]: "money_int (bigint_string i) = i"
  by (simp add: money_int_def)

lemma money_int_zero [simp]: "money_int ''0'' = 0"
  using money_int_string [of 0] by simp

lemma is_amount_zero [simp]: "is_amount ''0''"
  using is_amount_string [of 0] by simp

lemma is_amount_inject: "is_amount a \<Longrightarrow> is_amount b \<Longrightarrow> a = b \<longleftrightarrow> money_int a = money_int b"
  by (metis is_amountD)

lemma is_amount_parse: "is_amount v \<Longrightarrow> bigint_parse v = Some (money_int v)"
  by (metis bigint_roundtrip is_amountD)

lemma valid_money_amount: "valid_money v \<Longrightarrow> is_amount v \<and> 0 \<le> money_int v \<and> money_int v < 10 ^ 78"
proof -
  assume "valid_money v"
  then obtain n where n: "n < 10 ^ 78" "v = nat_string n" by (auto simp: valid_money_iff)
  then have v: "v = bigint_string (int n)" by (simp add: bigint_string_def)
  have "int n < 10 ^ 78" using n(1) by (metis of_nat_less_iff of_nat_numeral of_nat_power)
  then show ?thesis by (simp add: v)
qed

lemmas valid_money_is_amount [intro] = valid_money_amount [THEN conjunct1]

lemma positive_money_amount: "positive_money v \<Longrightarrow> is_amount v \<and> 0 < money_int v"
  using valid_money_amount [of v] is_amount_inject [of v "''0''"]
  by (auto simp: positive_money_def order_less_le)

lemma add_money_amount:
  "is_amount l \<Longrightarrow> is_amount r \<Longrightarrow> add_money l r = Some (bigint_string (money_int l + money_int r))"
  by (simp add: add_money_def is_amount_parse)

lemma subtract_money_amount:
  "is_amount l \<Longrightarrow> is_amount r \<Longrightarrow> subtract_money l r = Some (bigint_string (money_int l - money_int r))"
  by (simp add: subtract_money_def is_amount_parse)

lemma compare_money_amount:
  "is_amount l \<Longrightarrow> is_amount r \<Longrightarrow>
   compare_money l r = Some (if money_int l < money_int r then -1 else if money_int l = money_int r then 0 else 1)"
  by (simp add: compare_money_def is_amount_parse)

end
