(* ===== verification/Digest.thy ===== *)
theory Digest
  imports Go_Lib
begin

text \<open>
  Content addressing. Identifiers are \<open>"sha256:" + hex(sha256(encoding of the parts))\<close>. SHA-256 is
  a parameter \<open>H\<close>, a function from bytes to bytes; the only facts used about it are the length of
  its output (32 bytes) and, where a property needs it, that it does not collide on the encodings
  compared. The encodings themselves are the code's, and this theory shows which of them are
  injective: the length-prefixed ones are, so two identifiers are equal exactly when their parts
  are, up to a collision of SHA-256.
\<close>

section \<open>Digest strings\<close>

definition sha_string :: "string \<Rightarrow> string" where
  "sha_string d = ''sha256:'' @ hex_encode d"

definition valid_digest :: "string \<Rightarrow> bool" where
  "valid_digest v =
     (if length v \<noteq> length ''sha256:'' + 32 * 2 \<or> \<not> has_prefix v ''sha256:'' then False
      else hex_decodable (drop (length ''sha256:'') v))"

lemma length_hex_encode [simp]: "length (hex_encode b) = 2 * length b"
  by (induction b) (auto simp: hex_encode_def Let_def)

lemma hex_char_of_char: "n < 16 \<Longrightarrow> (of_char (hex_char n) :: nat) = (if n < 10 then 48 + n else 87 + n)"
  by (simp add: hex_char_def)

lemma is_hex_hex_char: "n < 16 \<Longrightarrow> is_hex (hex_char n)"
  by (auto simp: is_hex_def char_between_def hex_char_of_char)

lemma hex_char_inject: "m < 16 \<Longrightarrow> n < 16 \<Longrightarrow> hex_char m = hex_char n \<longleftrightarrow> m = n"
  by (auto dest!: arg_cong [where f = "of_char :: char \<Rightarrow> nat"] simp: hex_char_of_char split: if_splits)

lemma nibbles_less: "(of_char (c::char) :: nat) div 16 < 16" "(of_char (c::char) :: nat) mod 16 < 16"
  using nat_of_char_less_256 [of c] by (simp_all add: less_mult_imp_div_less)

lemma hex_encode_Cons [simp]:
  "hex_encode (c # cs) = hex_char (of_char c div 16) # hex_char (of_char c mod 16) # hex_encode cs"
  by (simp add: hex_encode_def Let_def)

lemma hex_encode_Nil [simp]: "hex_encode [] = []"
  by (simp add: hex_encode_def)

lemma hex_encode_all_hex: "list_all is_hex (hex_encode b)"
  by (induction b) (auto simp: is_hex_hex_char nibbles_less)

lemma hex_encode_inject [simp]: "hex_encode a = hex_encode b \<longleftrightarrow> a = b"
proof (induction a arbitrary: b)
  case Nil
  then show ?case by (cases b) auto
next
  case (Cons c cs)
  show ?case
  proof (cases b)
    case (Cons d ds)
    have "(of_char c :: nat) = of_char d \<longleftrightarrow> of_char c div 16 = (of_char d :: nat) div 16 \<and> of_char c mod 16 = (of_char d :: nat) mod 16"
      by (metis div_mult_mod_eq)
    then show ?thesis
      using Cons Cons.IH [of ds] by (auto simp: hex_char_inject nibbles_less)
  qed simp
qed

lemma sha_string_inject [simp]: "sha_string a = sha_string b \<longleftrightarrow> a = b"
  by (simp add: sha_string_def)

lemma valid_digest_sha_string: "length d = 32 \<Longrightarrow> valid_digest (sha_string d)"
  by (simp add: valid_digest_def sha_string_def has_prefix_def hex_decodable_def hex_encode_all_hex)

lemma valid_digest_nonblank: "valid_digest v \<Longrightarrow> v \<noteq> []"
  by (auto simp: valid_digest_def)

section \<open>hex.DecodeString\<close>

definition hex_val :: "char \<Rightarrow> nat" where
  "hex_val c = (if is_digit c then of_char c - 48 else if is_lower c then of_char c - 87 else of_char c - 55)"

fun hex_decode :: "string \<Rightarrow> string option" where
  "hex_decode [] = Some []"
| "hex_decode [c] = None"
| "hex_decode (c # d # cs) =
     (if is_hex c \<and> is_hex d then map_option ((#) (char_of (16 * hex_val c + hex_val d))) (hex_decode cs) else None)"

lemma hex_val_hex_char: "n < 16 \<Longrightarrow> hex_val (hex_char n) = n"
  by (auto simp: hex_val_def char_between_def hex_char_of_char)

lemma hex_decode_encode [simp]: "hex_decode (hex_encode b) = Some b"
proof (induction b)
  case (Cons c b)
  have "16 * (of_char c div 16) + of_char c mod 16 = (of_char c :: nat)" by simp
  then show ?case using Cons by (simp add: is_hex_hex_char hex_val_hex_char nibbles_less)
qed simp

lemma hex_decodable_decode: "hex_decodable s \<longleftrightarrow> hex_decode s \<noteq> None"
  by (induction s rule: hex_decode.induct) (auto simp: hex_decodable_def)

section \<open>Encodings of a list of parts\<close>

text \<open>
  The interface of a part encoding: within its domain \<open>ok\<close>, the encoding of a part can be cut off
  the front of any byte string in one way only.
\<close>

locale part_encoding =
  fixes enc :: "string \<Rightarrow> string" and ok :: "string \<Rightarrow> bool"
  assumes enc_cut: "ok p \<Longrightarrow> ok q \<Longrightarrow> enc p @ r = enc q @ t \<Longrightarrow> p = q \<and> r = t"
    and enc_nonempty: "enc p \<noteq> []"
begin

lemma concat_cut:
  assumes "list_all ok ps" "list_all ok qs" "length ps = length qs"
    and "concat (map enc ps) @ r = concat (map enc qs) @ t"
  shows "ps = qs \<and> r = t"
  using assms
proof (induction ps arbitrary: qs)
  case (Cons p ps)
  then obtain q qs' where qs: "qs = q # qs'" by (cases qs) auto
  with Cons.prems have "enc p @ (concat (map enc ps) @ r) = enc q @ (concat (map enc qs') @ t)"
    by simp
  moreover have "ok p" "ok q" using Cons.prems(1,2) qs by auto
  ultimately have "p = q" "concat (map enc ps) @ r = concat (map enc qs') @ t"
    using enc_cut by blast+
  then show ?case using Cons.IH [of qs'] Cons.prems qs by simp
qed simp

lemma concat_inject:
  assumes "list_all ok ps" "list_all ok qs"
  shows "concat (map enc ps) = concat (map enc qs) \<longleftrightarrow> ps = qs"
  using assms
proof (induction ps arbitrary: qs)
  case Nil
  then show ?case by (cases qs) (auto simp: enc_nonempty)
next
  case step: (Cons p ps)
  show ?case
  proof (cases qs)
    case Nil
    then show ?thesis by (simp add: enc_nonempty)
  next
    case (Cons q qs')
    with step.prems have ok: "ok p" "ok q" "list_all ok ps" "list_all ok qs'" by auto
    show ?thesis
    proof
      assume "concat (map enc (p # ps)) = concat (map enc qs)"
      then have "enc p @ concat (map enc ps) = enc q @ concat (map enc qs')"
        by (simp add: Cons)
      from enc_cut [OF ok(1,2) this] show "p # ps = qs"
        using step.IH [OF ok(3,4)] Cons by simp
    qed simp
  qed
qed

end

text \<open>
  The length-prefixed field: \<open>n\<close> big-endian bytes of the length, then the bytes. The funds package
  and the matching package use 4 bytes (lengths are taken modulo \<open>2 ^ 32\<close>), the chain package 8.
\<close>

definition len_field :: "nat \<Rightarrow> string \<Rightarrow> string" where
  "len_field n p = be_bytes n (length p) @ p"

lemma len_field_cut:
  assumes "length p < 256 ^ n" "length q < 256 ^ n" "len_field n p @ r = len_field n q @ t"
  shows "p = q \<and> r = t"
proof -
  from assms(3) have "be_bytes n (length p) = be_bytes n (length q)" and *: "p @ r = q @ t"
    by (simp_all add: len_field_def append_eq_append_conv)
  then have "length p = length q" using be_bytes_inject assms(1,2) by blast
  with * show ?thesis by simp
qed

interpretation len4: part_encoding "len_field 4" "\<lambda>p. length p < 2 ^ 32"
proof unfold_locales
  fix p q r t :: string
  assume "length p < 2 ^ 32" "length q < 2 ^ 32" "len_field 4 p @ r = len_field 4 q @ t"
  moreover have "(256::nat) ^ 4 = 2 ^ 32" by simp
  ultimately show "p = q \<and> r = t" by (metis len_field_cut)
next
  fix p :: string
  have "length (len_field 4 p) \<noteq> 0" by (simp add: len_field_def)
  then show "len_field 4 p \<noteq> []" by auto
qed

section \<open>Stable identifiers\<close>

text \<open>\<open>stableID\<close> of the funds package and \<open>writeSeedField\<close> of the matching package.\<close>

definition stable_id :: "(string \<Rightarrow> string) \<Rightarrow> string list \<Rightarrow> string" where
  "stable_id H parts = sha_string (H (concat (map (len_field 4) parts)))"

definition write_seed_field :: "string \<Rightarrow> string" where
  "write_seed_field v = len_field 4 v"

lemma stable_id_valid: "length (H (concat (map (len_field 4) parts))) = 32 \<Longrightarrow> valid_digest (stable_id H parts)"
  by (simp add: stable_id_def valid_digest_sha_string)

text \<open>
  Equal identifiers have equal parts, unless SHA-256 collides: \<open>no_collision H x y\<close> says that the two
  byte strings are not a collision.
\<close>

definition no_collision :: "(string \<Rightarrow> string) \<Rightarrow> string \<Rightarrow> string \<Rightarrow> bool" where
  "no_collision H x y \<longleftrightarrow> H x = H y \<longrightarrow> x = y"

definition id_preimage :: "string list \<Rightarrow> string" where
  "id_preimage parts = concat (map (len_field 4) parts)"

lemma stable_id_inject:
  assumes "no_collision H (id_preimage ps) (id_preimage qs)"
    and "list_all (\<lambda>p. length p < 2 ^ 32) ps" "list_all (\<lambda>p. length p < 2 ^ 32) qs"
  shows "stable_id H ps = stable_id H qs \<longleftrightarrow> ps = qs"
  using assms len4.concat_inject [of ps qs]
  by (auto simp: stable_id_def no_collision_def id_preimage_def)

end
