(* ===== verification/Identity.thy ===== *)
theory Identity
  imports Go_Lib Digest
begin

text \<open>
  What the services share about callers and agents: the session of \<open>internal/auth/service.go\<close> (the fields the
  services read) and the capacity lease of \<open>internal/agent/service.go\<close>.
\<close>

record session =
  se_UserID :: string
  se_Wallet :: string
  se_Roles :: "string list"

record capacity_lease =
  le_ReservationID :: string
  le_AgentID :: string
  le_FencingToken :: int
  le_ExpiresAt :: gotime

definition is_wallet_address :: "string \<Rightarrow> bool" where
  "is_wallet_address v = (if length v \<noteq> 42 \<or> \<not> has_prefix v ''0x'' then False else hex_decode (drop 2 v) \<noteq> None)"

text \<open>\<open>Unix()\<close> and \<open>time.Unix(s, 0)\<close>.\<close>

abbreviation unix_epoch :: int where "unix_epoch \<equiv> 62135596800"

definition time_unix :: "gotime \<Rightarrow> int" where
  "time_unix t = t div second_ns - unix_epoch"

definition unix_time :: "int \<Rightarrow> gotime" where
  "unix_time s = (s + unix_epoch) * second_ns"

lemma time_unix_time [simp]: "time_unix (unix_time s) = s"
  by (simp add: time_unix_def unix_time_def)

lemma mult_le_div:
  assumes "0 < (c :: int)"
  shows "a * c \<le> t \<longleftrightarrow> a \<le> t div c"
proof
  assume "a * c \<le> t"
  then have "a * c div c \<le> t div c" by (rule zdiv_mono1) (rule assms)
  then show "a \<le> t div c" using assms by simp
next
  assume "a \<le> t div c"
  then have "a * c \<le> t div c * c" using assms by (intro mult_right_mono) auto
  also have "\<dots> \<le> t" using div_mult_mod_eq [of t c] pos_mod_sign [OF assms, of t] by linarith
  finally show "a * c \<le> t" .
qed

lemma unix_time_le: "unix_time s \<le> t \<longleftrightarrow> s \<le> time_unix t"
  using mult_le_div [of second_ns "s + unix_epoch" t] by (simp add: unix_time_def time_unix_def algebra_simps)

section \<open>Hexadecimal digits\<close>

lemma hex_decode_length: "hex_decode s = Some b \<Longrightarrow> length s = 2 * length b"
  by (induction s arbitrary: b rule: hex_decode.induct) (auto split: if_splits)

lemma hex_decode_digits: "hex_decode s = Some b \<Longrightarrow> list_all is_hex s"
  by (metis hex_decodable_decode hex_decodable_def option.distinct(1))

lemma hex_char_val: "is_hex c \<Longrightarrow> hex_val c < 16 \<and> hex_char (hex_val c) = char_lower c"
proof -
  assume h: "is_hex c"
  let ?n = "of_char c :: nat"
  have c: "char_of ?n = c" by simp
  from h consider "48 \<le> ?n" "?n \<le> 57" | "97 \<le> ?n" "?n \<le> 102" | "65 \<le> ?n" "?n \<le> 70" by (auto simp: is_hex_def char_between_def)
  then show ?thesis
  proof cases
    case 1
    then show ?thesis by (auto simp: hex_val_def hex_char_def char_lower_def char_between_def)
  next
    case 2
    then show ?thesis by (auto simp: hex_val_def hex_char_def char_lower_def char_between_def)
  next
    case 3
    then have "87 + (?n - 55) = ?n + 32" by simp
    with 3 show ?thesis by (auto simp: hex_val_def hex_char_def char_lower_def char_between_def)
  qed
qed

text \<open>Encoding what was decoded gives the digits in lower case.\<close>

lemma hex_encode_decode: "hex_decode s = Some b \<Longrightarrow> hex_encode b = to_lower s"
proof (induction s arbitrary: b rule: hex_decode.induct)
  case (3 c d cs)
  then obtain b' where b: "hex_decode cs = Some b'" "b = char_of (16 * hex_val c + hex_val d) # b'" "is_hex c" "is_hex d"
    by (auto split: if_splits)
  have "(of_char (char_of (16 * hex_val c + hex_val d) :: char) :: nat) = 16 * hex_val c + hex_val d"
    using hex_char_val [OF b(3)] hex_char_val [OF b(4)] by simp
  then show ?case using 3(1) b hex_char_val [OF b(3)] hex_char_val [OF b(4)] by (simp add: to_lower_def)
qed (simp_all add: to_lower_def)

lemma to_lower_append [simp]: "to_lower (a @ b) = to_lower a @ to_lower b"
  by (simp add: to_lower_def)

lemma length_to_lower [simp]: "length (to_lower a) = length a"
  by (simp add: to_lower_def)

lemma char_lower_idem [simp]: "char_lower (char_lower c) = char_lower c"
  by (auto simp: char_lower_def Let_def)

lemma to_lower_idem [simp]: "to_lower (to_lower a) = to_lower a"
  by (simp add: to_lower_def)

lemma to_lower_hex [simp]: "to_lower (hex_encode b) = hex_encode b"
  using hex_encode_decode [of "hex_encode b" b] by simp

end
