(* ===== verification/Execution_Types.thy ===== *)
theory Execution_Types
  imports Money Digest Identity
begin

text \<open>
  The execution package's data (\<open>internal/execution/types.go\<close>): a logical execution of an agent's work,
  its numbered attempts, the signed callback of the agent and the observation made by polling it. Structs are
  records with the source's field names behind a short prefix; pointers to structs and times are options.
  The JSON round trip of \<open>cloneExecution\<close> copies a struct and is the identity on values.
\<close>

section \<open>Constants and errors\<close>

abbreviation ProtocolVersion :: string where "ProtocolVersion \<equiv> ''agent-execution-v1''"
abbreviation StageOverview :: string where "StageOverview \<equiv> ''overview''"
abbreviation StageFormal :: string where "StageFormal \<equiv> ''formal''"
abbreviation ToolPolicyReadOnly :: string where "ToolPolicyReadOnly \<equiv> ''read_only''"
abbreviation ToolPolicyScoped :: string where "ToolPolicyScoped \<equiv> ''scoped''"

abbreviation ExecutionPending :: string where "ExecutionPending \<equiv> ''pending''"
abbreviation ExecutionRunning :: string where "ExecutionRunning \<equiv> ''running''"
abbreviation ExecutionCancelRequested :: string where "ExecutionCancelRequested \<equiv> ''cancel_requested''"
abbreviation ExecutionCancelled :: string where "ExecutionCancelled \<equiv> ''cancelled''"
abbreviation ExecutionSucceeded :: string where "ExecutionSucceeded \<equiv> ''succeeded''"
abbreviation ExecutionFailed :: string where "ExecutionFailed \<equiv> ''failed''"
abbreviation ExecutionCostStopped :: string where "ExecutionCostStopped \<equiv> ''cost_stopped''"

abbreviation AttemptPrepared :: string where "AttemptPrepared \<equiv> ''prepared''"
abbreviation AttemptActive :: string where "AttemptActive \<equiv> ''active''"
abbreviation AttemptCompleted :: string where "AttemptCompleted \<equiv> ''completed''"
abbreviation AttemptFailed :: string where "AttemptFailed \<equiv> ''failed''"
abbreviation AttemptExpired :: string where "AttemptExpired \<equiv> ''expired''"
abbreviation AttemptCancelled :: string where "AttemptCancelled \<equiv> ''cancelled''"

abbreviation CallbackSucceeded :: string where "CallbackSucceeded \<equiv> ''succeeded''"
abbreviation CallbackFailed :: string where "CallbackFailed \<equiv> ''failed''"
abbreviation CallbackAccepted :: string where "CallbackAccepted \<equiv> ''accepted''"
abbreviation CallbackLate :: string where "CallbackLate \<equiv> ''late''"
abbreviation CallbackStaleFence :: string where "CallbackStaleFence \<equiv> ''stale_fence''"
abbreviation CallbackCostStop :: string where "CallbackCostStop \<equiv> ''cost_stop''"

abbreviation ReconciliationAccepted :: string where "ReconciliationAccepted \<equiv> ''accepted''"
abbreviation ReconciliationAlreadyTerminal :: string where "ReconciliationAlreadyTerminal \<equiv> ''already_terminal''"
abbreviation ReconciliationLate :: string where "ReconciliationLate \<equiv> ''late''"
abbreviation ReconciliationStaleFence :: string where "ReconciliationStaleFence \<equiv> ''stale_fence''"
abbreviation ReconciliationCostStop :: string where "ReconciliationCostStop \<equiv> ''cost_stop''"

datatype exec_error =
    XErrInvalidInput
  | XErrNotFound
  | XErrInvalidState
  | XErrStaleFence
  | XErrInvalidCallback
  | XErrCallbackReplay
  | XErrContentConflict
  | XErrCostCapExceeded
  | XErrRemote string \<comment> \<open>an error of the agent, of the capacity service or of a library call\<close>
  | XPanic \<comment> \<open>a nil \<open>*big.Int\<close> dereferenced\<close>

section \<open>Structs\<close>

record tool_policy =
  tp_Mode :: string
  tp_AllowedTools :: "string list"

record overview_binding =
  ob_MatchRevision :: int
  ob_AllocationID :: string
  ob_QuoteHash :: string

record formal_binding =
  fb_AssignmentID :: string
  fb_Package :: string
  fb_Version :: int
  fb_AggregateVersion :: int
  fb_WorkNonce :: int
  fb_ScopeSpecHash :: string
  fb_ChangeOrderID :: string
  fb_Responsibility :: string

record spec =
  sp_LogicalExecutionID :: string
  sp_Stage :: string
  sp_TaskID :: string
  sp_TaskSpecHash :: string
  sp_InputRef :: string
  sp_InputHash :: string
  sp_AgentID :: string
  sp_AgentEndpoint :: string
  sp_ResponsibilityCode :: string
  sp_CostCap :: string
  sp_ToolPolicy :: tool_policy
  sp_Deadline :: gotime
  sp_IdempotencyKey :: string
  sp_Overview :: "overview_binding option"
  sp_Formal :: "formal_binding option"

record execution =
  ex_Spec :: spec
  ex_Status :: string
  ex_CurrentAttempt :: int
  ex_UsedCost :: string
  ex_ContentHash :: string
  ex_DeliverableRef :: string
  ex_CreatedAt :: gotime
  ex_UpdatedAt :: gotime
  ex_CancelledAt :: "gotime option"

record attempt =
  at_LogicalExecutionID :: string
  at_Number :: int
  at_AttemptID :: string
  at_ReservationID :: string
  at_Status :: string
  at_FencingToken :: int
  at_LeaseExpiresAt :: gotime
  at_CallbackNonceHash :: string
  at_NonceKeyVersion :: string
  at_DispatchCount :: int
  at_CreatedAt :: gotime
  at_UpdatedAt :: gotime
  at_TerminalAt :: "gotime option"

record envelope =
  nv_ProtocolVersion :: string
  nv_Operation :: string
  nv_Stage :: string
  nv_LogicalExecutionID :: string
  nv_AttemptID :: string
  nv_AgentID :: string
  nv_TaskID :: string
  nv_TaskSpecHash :: string
  nv_InputRef :: string
  nv_InputHash :: string
  nv_ResponsibilityCode :: string
  nv_CostCap :: string
  nv_ToolPolicy :: tool_policy
  nv_Deadline :: gotime
  nv_IdempotencyKey :: string
  nv_CallbackURL :: string
  nv_CallbackNonce :: string
  nv_FencingToken :: int
  nv_Overview :: "overview_binding option"
  nv_Formal :: "formal_binding option"

record create_response =
  rc_Accepted :: bool
  rc_Status :: string
  rc_Reason :: string

record status_response =
  rs_Status :: string
  rs_UsedCost :: string

record cancel_response =
  rx_Accepted :: bool

record deliverable_response =
  rd_ContentHash :: string
  rd_DeliverableRef :: string

record callback =
  cb_ProtocolVersion :: string
  cb_LogicalExecutionID :: string
  cb_AttemptID :: string
  cb_AgentID :: string
  cb_FencingToken :: int
  cb_Status :: string
  cb_UsedCost :: string
  cb_ContentHash :: string
  cb_DeliverableRef :: string
  cb_Timestamp :: gotime
  cb_Nonce :: string
  cb_KeyVersion :: string

record verified_callback =
  vc_Callback :: callback
  vc_NonceHash :: string
  vc_PayloadHash :: string

record callback_result =
  cr_Execution :: execution
  cr_Outcome :: string
  cr_Replay :: bool
  cr_ShouldCancel :: bool

record observation =
  to_LogicalExecutionID :: string
  to_AttemptID :: string
  to_AgentID :: string
  to_FencingToken :: int
  to_Status :: string
  to_UsedCost :: string
  to_ContentHash :: string
  to_DeliverableRef :: string

record verified_observation =
  vo_Observation :: observation
  vo_PayloadHash :: string

record reconciliation_result =
  rr_Execution :: execution
  rr_Outcome :: string
  rr_Replay :: bool
  rr_ShouldCancel :: bool

text \<open>The zero attempt, the answer of \<open>RequestCancel\<close> for an execution without attempts.\<close>

definition zero_attempt :: attempt where
  "zero_attempt = \<lparr>at_LogicalExecutionID = [], at_Number = 0, at_AttemptID = [], at_ReservationID = [], at_Status = [],
     at_FencingToken = 0, at_LeaseExpiresAt = 0, at_CallbackNonceHash = [], at_NonceKeyVersion = [], at_DispatchCount = 0,
     at_CreatedAt = 0, at_UpdatedAt = 0, at_TerminalAt = None\<rparr>"

end
