(* ===== verification/Sql_Ledger.thy ===== *)
theory Sql_Ledger
  imports Money Digest
begin

text \<open>
  The fund tables of the database (\<open>persistence/postgres/migrations/000010_funds_ledger.up.sql\<close>, with the account
  types of \<open>000013\<close>): accounts, journals and entries, as the PostgreSQL stores of the packages write them. An insert
  that breaks a key, a check or a trigger raises an error, and the transaction of the caller is rolled back. The
  balance of an account only changes through the trigger that runs after the insert of an entry.
\<close>

datatype sql_error = UniqueViolation | CheckViolation | ForeignKeyViolation | TriggerException

record account_row =
  fa_ID :: string
  fa_Class :: string
  fa_Type :: string
  fa_TaskID :: string
  fa_Reference :: string
  fa_Asset :: string
  fa_PrincipalOwnerID :: string
  fa_ResidualRecipientID :: string
  fa_RefundPolicyVersion :: string
  fa_State :: string
  fa_Balance :: int
  fa_CreatedAt :: gotime
  fa_UpdatedAt :: gotime

record journal_row =
  fj_ID :: string
  fj_IdempotencyKey :: string
  fj_Type :: string
  fj_TaskID :: string
  fj_ReversalOf :: string
  fj_SourceRef :: string
  fj_ReasonCode :: string
  fj_CreatedAt :: gotime

record entry_row =
  fe_JournalID :: string
  fe_Index :: int
  fe_AccountID :: string
  fe_AccountType :: string
  fe_Direction :: string
  fe_Amount :: int
  fe_Asset :: string
  fe_CreatedAt :: gotime

record sql_ledger =
  lg_accounts :: "(string, account_row) gomap"
  lg_journals :: "(string, journal_row) gomap"
  lg_entries :: "entry_row list"

section \<open>Accounts\<close>

definition same_reference :: "account_row \<Rightarrow> account_row \<Rightarrow> bool" where
  "same_reference a b \<longleftrightarrow> fa_Type a = fa_Type b \<and> fa_Reference a = fa_Reference b \<and> fa_Asset a = fa_Asset b"

definition account_of_reference :: "string \<Rightarrow> string \<Rightarrow> string \<Rightarrow> sql_ledger \<Rightarrow> account_row option" where
  "account_of_reference accountType reference asset L =
     find (\<lambda>a. fa_Type a = accountType \<and> fa_Reference a = reference \<and> fa_Asset a = asset) (gvals (lg_accounts L))"

definition insert_account :: "account_row \<Rightarrow> sql_ledger \<Rightarrow> sql_error + sql_ledger" where
  "insert_account a L =
     (if gget (lg_accounts L) (fa_ID a) \<noteq> None \<or> list_ex (same_reference a) (gvals (lg_accounts L)) then Inl UniqueViolation
      else Inr (L\<lparr>lg_accounts := gput (fa_ID a) a (lg_accounts L)\<rparr>))"

text \<open>\<open>ON CONFLICT (account_type,reference_id,asset_key) DO NOTHING\<close> covers that key only, not the primary key.\<close>

definition ensure_account :: "account_row \<Rightarrow> sql_ledger \<Rightarrow> sql_error + sql_ledger" where
  "ensure_account a L = (if list_ex (same_reference a) (gvals (lg_accounts L)) then Inr L else insert_account a L)"

definition system_account :: "string \<Rightarrow> string \<Rightarrow> string \<Rightarrow> string \<Rightarrow> gotime \<Rightarrow> account_row" where
  "system_account i accountType reference asset now =
     \<lparr>fa_ID = i, fa_Class = ''system'', fa_Type = accountType, fa_TaskID = [], fa_Reference = reference, fa_Asset = asset,
      fa_PrincipalOwnerID = [], fa_ResidualRecipientID = [], fa_RefundPolicyVersion = [], fa_State = ''open'', fa_Balance = 0,
      fa_CreatedAt = now, fa_UpdatedAt = now\<rparr>"

section \<open>Journals and entries\<close>

text \<open>\<open>ON CONFLICT (idempotency_key) DO NOTHING\<close>: the answer says whether a row was inserted.\<close>

definition insert_journal :: "journal_row \<Rightarrow> sql_ledger \<Rightarrow> sql_error + bool \<times> sql_ledger" where
  "insert_journal j L =
     (if list_ex (\<lambda>k. fj_IdempotencyKey k = fj_IdempotencyKey j) (gvals (lg_journals L)) then Inr (False, L)
      else if gget (lg_journals L) (fj_ID j) \<noteq> None then Inl UniqueViolation
      else Inr (True, L\<lparr>lg_journals := gput (fj_ID j) j (lg_journals L)\<rparr>))"

definition signed_amount :: "entry_row \<Rightarrow> int" where
  "signed_amount e = (if fe_Direction e = ''credit'' then fe_Amount e else - fe_Amount e)"

text \<open>\<open>apply_fund_entry_balance\<close>, with the check of the table that a business account keeps a balance of at least zero.\<close>

definition apply_entry_balance :: "entry_row \<Rightarrow> sql_ledger \<Rightarrow> sql_error + sql_ledger" where
  "apply_entry_balance e L =
     (case gget (lg_accounts L) (fe_AccountID e) of
        None \<Rightarrow> Inl TriggerException
      | Some a \<Rightarrow>
          if fa_Type a \<noteq> fe_AccountType e then Inl TriggerException
          else let a' = a\<lparr>fa_Balance := fa_Balance a + signed_amount e, fa_UpdatedAt := fe_CreatedAt e\<rparr> in
            if fa_Class a = ''business'' \<and> fa_Balance a' < 0 then Inl CheckViolation
            else Inr (L\<lparr>lg_accounts := gput (fe_AccountID e) a' (lg_accounts L)\<rparr>))"

definition insert_entry :: "entry_row \<Rightarrow> sql_ledger \<Rightarrow> sql_error + sql_ledger" where
  "insert_entry e L =
     (if fe_Amount e \<le> 0 then Inl CheckViolation
      else if list_ex (\<lambda>k. fe_JournalID k = fe_JournalID e \<and> fe_Index k = fe_Index e) (lg_entries L) then Inl UniqueViolation
      else if gget (lg_journals L) (fe_JournalID e) = None then Inl ForeignKeyViolation
      else case gget (lg_accounts L) (fe_AccountID e) of
        None \<Rightarrow> Inl ForeignKeyViolation
      | Some a \<Rightarrow>
          if fa_Asset a \<noteq> fe_Asset e then Inl ForeignKeyViolation
          else apply_entry_balance e (L\<lparr>lg_entries := lg_entries L @ [e]\<rparr>))"

fun insert_entries :: "entry_row list \<Rightarrow> sql_ledger \<Rightarrow> sql_error + sql_ledger" where
  "insert_entries [] L = Inr L"
| "insert_entries (e # es) L = rbind (insert_entry e L) (insert_entries es)"

text \<open>The deferred trigger \<open>assert_fund_journal_balanced\<close>, checked for a journal when the transaction commits.\<close>

definition entries_of :: "string \<Rightarrow> sql_ledger \<Rightarrow> entry_row list" where
  "entries_of j L = filter (\<lambda>e. fe_JournalID e = j) (lg_entries L)"

definition journal_balanced :: "string \<Rightarrow> sql_ledger \<Rightarrow> bool" where
  "journal_balanced j L \<longleftrightarrow> length (entries_of j L) \<ge> 2 \<and> length (remdups (map fe_Asset (entries_of j L))) = 1 \<and>
     sum_list (map signed_amount (entries_of j L)) = 0"

section \<open>Lemmas\<close>

definition ledger_total :: "string \<Rightarrow> sql_ledger \<Rightarrow> int" where
  "ledger_total asset L = gsum (\<lambda>a. if fa_Asset a = asset then fa_Balance a else 0) (lg_accounts L)"

text \<open>Every account keeps its key, and a business account is never overdrawn.\<close>

definition ledger_ok :: "sql_ledger \<Rightarrow> bool" where
  "ledger_ok L \<longleftrightarrow> gwf (lg_accounts L) \<and> gwf (lg_journals L) \<and>
     (\<forall>k a. gget (lg_accounts L) k = Some a \<longrightarrow> fa_ID a = k \<and> (fa_Class a = ''business'' \<longrightarrow> 0 \<le> fa_Balance a)) \<and>
     (\<forall>k j. gget (lg_journals L) k = Some j \<longrightarrow> fj_ID j = k) \<and>
     (\<forall>e \<in> set (lg_entries L). gget (lg_journals L) (fe_JournalID e) \<noteq> None)"

lemma account_of_referenceD:
  "account_of_reference t x asset L = Some a \<Longrightarrow> gwf (lg_accounts L) \<Longrightarrow>
     fa_Type a = t \<and> fa_Reference a = x \<and> fa_Asset a = asset \<and> (\<exists>k. gget (lg_accounts L) k = Some a)"
  unfolding account_of_reference_def by (auto simp: find_Some_iff gvals_mem [symmetric] dest: nth_mem)

lemma insert_account_ok:
  assumes "ledger_ok L" "insert_account a L = Inr L'" "fa_Class a = ''business'' \<longrightarrow> 0 \<le> fa_Balance a"
  shows "ledger_ok L'" "gget (lg_accounts L') k = (if k = fa_ID a then Some a else gget (lg_accounts L) k)"
    "lg_journals L' = lg_journals L" "lg_entries L' = lg_entries L" "ledger_total x L' = ledger_total x L + (if fa_Asset a = x then fa_Balance a else 0)"
  using assms by (auto simp: insert_account_def ledger_ok_def ledger_total_def gsum_gput split: if_splits)

lemma ensure_account_ok:
  assumes "ledger_ok L" "ensure_account a L = Inr L'" "fa_Balance a = 0"
  shows "ledger_ok L'" "gget (lg_accounts L) k = Some b \<Longrightarrow> gget (lg_accounts L') k = Some b"
    "lg_journals L' = lg_journals L" "lg_entries L' = lg_entries L" "ledger_total x L' = ledger_total x L"
  using assms insert_account_ok [of L a L'] by (auto simp: ensure_account_def insert_account_def split: if_splits)

lemma insert_journal_ok:
  assumes "ledger_ok L" "insert_journal j L = Inr (b, L')"
  shows "ledger_ok L'" "lg_accounts L' = lg_accounts L" "lg_entries L' = lg_entries L" "b \<Longrightarrow> gget (lg_journals L) (fj_ID j) = None"
    "b \<Longrightarrow> gget (lg_journals L') (fj_ID j) = Some j" "\<not> b \<Longrightarrow> L' = L"
    "gget (lg_journals L) k = Some x \<Longrightarrow> gget (lg_journals L') k = Some x"
  using assms by (auto simp: insert_journal_def ledger_ok_def split: if_splits)

lemma insert_entry_effect:
  "insert_entry e L = Inr L' \<longleftrightarrow> 0 < fe_Amount e \<and>
     \<not> list_ex (\<lambda>k. fe_JournalID k = fe_JournalID e \<and> fe_Index k = fe_Index e) (lg_entries L) \<and> gget (lg_journals L) (fe_JournalID e) \<noteq> None \<and>
     (\<exists>a. gget (lg_accounts L) (fe_AccountID e) = Some a \<and> fa_Asset a = fe_Asset e \<and> fa_Type a = fe_AccountType e \<and>
        (fa_Class a = ''business'' \<longrightarrow> 0 \<le> fa_Balance a + signed_amount e) \<and>
        L' = L\<lparr>lg_entries := lg_entries L @ [e],
               lg_accounts := gput (fe_AccountID e) (a\<lparr>fa_Balance := fa_Balance a + signed_amount e, fa_UpdatedAt := fe_CreatedAt e\<rparr>) (lg_accounts L)\<rparr>)"
  by (auto simp: insert_entry_def apply_entry_balance_def Let_def split: option.splits if_splits)

lemma insert_entry_ok:
  assumes "ledger_ok L" "insert_entry e L = Inr L'"
  shows "ledger_ok L'" "lg_journals L' = lg_journals L" "lg_entries L' = lg_entries L @ [e]"
    "ledger_total x L' = ledger_total x L + (if fe_Asset e = x then signed_amount e else 0)"
proof -
  from assms(2) obtain a where a: "gget (lg_accounts L) (fe_AccountID e) = Some a" "fa_Asset a = fe_Asset e"
    "fa_Class a = ''business'' \<longrightarrow> 0 \<le> fa_Balance a + signed_amount e" "gget (lg_journals L) (fe_JournalID e) \<noteq> None"
    and L': "L' = L\<lparr>lg_entries := lg_entries L @ [e],
      lg_accounts := gput (fe_AccountID e) (a\<lparr>fa_Balance := fa_Balance a + signed_amount e, fa_UpdatedAt := fe_CreatedAt e\<rparr>) (lg_accounts L)\<rparr>"
    unfolding insert_entry_effect by blast
  show "ledger_ok L'" using assms(1) a unfolding L' ledger_ok_def by (auto split: if_splits)
  show "lg_journals L' = lg_journals L" "lg_entries L' = lg_entries L @ [e]" by (simp_all add: L')
  show "ledger_total x L' = ledger_total x L + (if fe_Asset e = x then signed_amount e else 0)"
    using a by (simp add: L' ledger_total_def gsum_gput)
qed

lemma insert_entries_ok:
  assumes "ledger_ok L" "insert_entries es L = Inr L'"
  shows "ledger_ok L' \<and> lg_journals L' = lg_journals L \<and> lg_entries L' = lg_entries L @ es \<and>
    ledger_total x L' = ledger_total x L + sum_list (map (\<lambda>e. if fe_Asset e = x then signed_amount e else 0) es)"
  using assms
proof (induction es arbitrary: L)
  case (Cons e es)
  then obtain L1 where L1: "insert_entry e L = Inr L1" "insert_entries es L1 = Inr L'" by (auto simp: rbind_Inr_iff)
  note e = insert_entry_ok [OF Cons.prems(1) L1(1)]
  from Cons.IH [OF e(1) L1(2)] show ?case using e(2,3) e(4) [of x] by simp
qed simp

text \<open>The two entries of a transfer: the journal balances, and the money only moves.\<close>

lemma entries_of_new:
  assumes "ledger_ok L" "gget (lg_journals L) j = None"
  shows "entries_of j L = []"
  using assms unfolding ledger_ok_def entries_of_def by (force simp: filter_empty_conv)

end
