(* ===== verification/Delivery_Types.thy ===== *)
theory Delivery_Types
  imports Execution_Types Sql_Ledger "HOL-Library.Word"
begin

text \<open>The data of the delivery package and the decisions that need no database.\<close>

text \<open>
  The data of the delivery package (\<open>internal/delivery/types.go\<close>): the formal package of an assignment, its versions,
  the scope they are written for, the publisher's feedback, change orders and acceptances. Structs are records with
  the source's field names behind a short prefix, pointers are options. Criteria are kept as their JSON text.
\<close>

section \<open>Errors and constants\<close>

datatype delivery_error =
    DlErrForbidden
  | DlErrInvalidInput
  | DlErrNotFound
  | DlErrInvalidState
  | DlErrStaleVersion
  | DlErrContentConflict
  | DlErrDependencyPending
  | DlErrIdempotencyConflict \<comment> \<open>\<open>persistence.ErrIdempotencyConflict\<close>\<close>
  | DlErrDatabase sql_error \<comment> \<open>an error of the database that the store does not translate\<close>
  | DlErrJSON \<comment> \<open>the error of \<open>json.Unmarshal\<close>\<close>
  | DlErrNoRows \<comment> \<open>\<open>sql.ErrNoRows\<close> where the store does not translate it\<close>
  | DlPanic \<comment> \<open>a nil pointer dereferenced\<close>

abbreviation FormalProtocolVersion :: string where "FormalProtocolVersion \<equiv> ''formal-delivery-v1''"
abbreviation FeedbackVersion :: string where "FeedbackVersion \<equiv> ''formal-feedback-v1''"
abbreviation ProofVersion :: string where "ProofVersion \<equiv> ''formal-proof-v1''"
abbreviation StandardPackage :: string where "StandardPackage \<equiv> ''standard''"
abbreviation IncludedVersions :: int where "IncludedVersions \<equiv> 3"
abbreviation MaximumVersions :: int where "MaximumVersions \<equiv> 5"
abbreviation PackageActive :: string where "PackageActive \<equiv> ''active''"

abbreviation VersionAllocated :: string where "VersionAllocated \<equiv> ''allocated''"
abbreviation VersionGenerating :: string where "VersionGenerating \<equiv> ''generating''"
abbreviation VersionReview :: string where "VersionReview \<equiv> ''review''"
abbreviation VersionFailed :: string where "VersionFailed \<equiv> ''failed''"

abbreviation ResultSucceeded :: string where "ResultSucceeded \<equiv> ''succeeded''"
abbreviation ResultFailed :: string where "ResultFailed \<equiv> ''failed''"

abbreviation ResponsibilityPublisher :: string where "ResponsibilityPublisher \<equiv> ''publisher''"
abbreviation ResponsibilityAgent :: string where "ResponsibilityAgent \<equiv> ''agent''"
abbreviation ResponsibilityPlatform :: string where "ResponsibilityPlatform \<equiv> ''platform''"
abbreviation FundingPublisher :: string where "FundingPublisher \<equiv> ''publisher''"
abbreviation FundingAgentAbsorbed :: string where "FundingAgentAbsorbed \<equiv> ''agent_absorbed''"
abbreviation FundingPlatformIncident :: string where "FundingPlatformIncident \<equiv> ''platform_incident''"

abbreviation ChangeResponsibilityPending :: string where "ChangeResponsibilityPending \<equiv> ''responsibility_pending''"
abbreviation ChangeAwaitingAcceptance :: string where "ChangeAwaitingAcceptance \<equiv> ''awaiting_acceptance''"
abbreviation ChangeAwaitingFunding :: string where "ChangeAwaitingFunding \<equiv> ''awaiting_funding''"
abbreviation ChangeReady :: string where "ChangeReady \<equiv> ''ready_to_activate''"
abbreviation ChangeEffective :: string where "ChangeEffective \<equiv> ''effective''"
abbreviation ChangeConsumed :: string where "ChangeConsumed \<equiv> ''consumed''"

abbreviation AcceptanceIntentRecorded :: string where "AcceptanceIntentRecorded \<equiv> ''intent_recorded''"
abbreviation AcceptancePending :: string where "AcceptancePending \<equiv> ''pending_confirmation''"
abbreviation AcceptanceConfirmed :: string where "AcceptanceConfirmed \<equiv> ''confirmed''"
abbreviation AcceptanceOrphaned :: string where "AcceptanceOrphaned \<equiv> ''orphaned''"

type_synonym work_nonce = "64 word"

section \<open>Inputs\<close>

record acceptance_input =
  aq_PackageID :: string
  aq_ExpectedPackageVersion :: int
  aq_FormalVersion :: int
  aq_ContentHash :: string
  aq_ProofDigest :: string
  aq_WorkNonce :: work_nonce

record transition_input =
  tq_ExpectedVersion :: int
  tq_TransactionHash :: string

record revision_binding =
  rvb_ParentVersion :: int
  rvb_ParentContentHash :: string
  rvb_FeedbackSetID :: string
  rvb_FeedbackDigest :: string
  rvb_FeedbackAggregateVersion :: int

record feedback_item_input =
  fii_CriterionID :: string
  fii_Category :: string
  fii_Priority :: string
  fii_Target :: string
  fii_Description :: string
  fii_ExpectedOutcome :: string
  fii_ScopeClaim :: string

record feedback_input =
  fbq_PackageID :: string
  fbq_ExpectedPackageVersion :: int
  fbq_ParentVersion :: int
  fbq_ParentContentHash :: string
  fbq_Items :: "feedback_item_input list"

record start_input =
  stq_ExpectedPackageVersion :: int
  stq_WorkNonce :: work_nonce
  stq_Revision :: "revision_binding option"
  stq_ChangeOrderID :: string

record scope_difference =
  sdf_Path :: string
  sdf_Kind :: string
  sdf_BeforeHash :: string
  sdf_AfterHash :: string
  sdf_Description :: string
  sdf_WorkloadDeltaPercent :: int

record propose_input =
  prq_PackageID :: string
  prq_ExpectedPackageVersion :: int
  prq_TriggerVersion :: int
  prq_TriggerContentHash :: string
  prq_FeedbackSetID :: string
  prq_FeedbackDigest :: string
  prq_NewSpecHash :: string
  prq_Differences :: "scope_difference list"
  prq_RequestedPrice :: string
  prq_Deadline :: gotime

record decide_input =
  deq_ExpectedVersion :: int
  deq_Responsibility :: string
  deq_ReasonCode :: string
  deq_PublisherCompensationIrrevocable :: bool

record change_version_input =
  cvq_ExpectedVersion :: int

section \<open>Stored values\<close>

record settlement_eligibility =
  sty_Eligible :: bool
  sty_ReasonCode :: string

record acceptance_intent =
  aci_ID :: string
  aci_PackageID :: string
  aci_TaskID :: string
  aci_FormalVersion :: int
  aci_ContentHash :: string
  aci_ProofDigest :: string
  aci_WorkNonce :: work_nonce
  aci_PackageAggregateVersion :: int
  aci_AggregateVersion :: int
  aci_State :: string
  aci_TransactionHash :: string
  aci_ChainEventID :: string
  aci_ChainID :: string
  aci_ContractAddress :: string
  aci_PublisherWallet :: string
  aci_ChainTaskID :: string
  aci_Eligibility :: settlement_eligibility
  aci_CreatedAt :: gotime
  aci_UpdatedAt :: gotime

record feedback_item =
  fbi_ID :: string
  fbi_Ordinal :: int
  fbi_Input :: feedback_item_input

record feedback_set =
  fbs_ID :: string
  fbs_PackageID :: string
  fbs_ParentVersion :: int
  fbs_ParentContentHash :: string
  fbs_ScopeID :: string
  fbs_ScopeHash :: string
  fbs_Digest :: string
  fbs_PackageAggregateVersion :: int
  fbs_Items :: "feedback_item list"
  fbs_CreatedAt :: gotime

record feedback_response =
  fbr_FeedbackItemID :: string
  fbr_Disposition :: string
  fbr_Summary :: string

record version_change =
  vch_Path :: string
  vch_Kind :: string
  vch_BeforeHash :: string
  vch_AfterHash :: string

record delivery_proof =
  dp_Version :: string
  dp_TaskID :: string
  dp_AssignmentID :: string
  dp_DeliveryUnit :: string
  dp_PackageID :: string
  dp_ScopeHash :: string
  dp_FormalVersion :: int
  dp_PackageAggregateVersion :: int
  dp_WorkNonce :: work_nonce
  dp_AgentID :: string
  dp_ContentHash :: string
  dp_ParentContentHash :: string
  dp_FeedbackDigest :: string
  dp_ChangeOrderID :: string
  dp_AgentResponseHash :: string
  dp_ChangeSummaryHash :: string
  dp_PolicyHash :: string
  dp_Deadline :: int

record proof_record =
  pr_Proof :: delivery_proof
  pr_PayloadHash :: string
  pr_Digest :: string
  pr_Signature :: string

record change_order =
  cho_ID :: string
  cho_PackageID :: string
  cho_TaskID :: string
  cho_TargetVersion :: int
  cho_TriggerVersion :: int
  cho_TriggerContentHash :: string
  cho_FeedbackSetID :: string
  cho_FeedbackDigest :: string
  cho_BaseScopeID :: string
  cho_BaseScopeHash :: string
  cho_NewScopeID :: string
  cho_NewScopeHash :: string
  cho_NewScopeRevision :: int
  cho_NewSpecHash :: string
  cho_DifferenceDigest :: string
  cho_Differences :: "scope_difference list"
  cho_RequestedPrice :: string
  cho_AuthorizedPrice :: string
  cho_Responsibility :: string
  cho_ResponsibilityReasonCode :: string
  cho_FundingSource :: string
  cho_FundAccountID :: string
  cho_PrincipalOwnerID :: string
  cho_ResidualRecipientID :: string
  cho_PublisherCompensationIrrevocable :: bool
  cho_PackageAggregateVersion :: int
  cho_AggregateVersion :: int
  cho_Status :: string
  cho_Deadline :: gotime
  cho_AcceptedAt :: "gotime option"
  cho_EffectiveAt :: "gotime option"
  cho_ConsumedAt :: "gotime option"
  cho_CreatedAt :: gotime
  cho_UpdatedAt :: gotime

record formal_scope =
  fsc_ID :: string
  fsc_PackageID :: string
  fsc_Revision :: int
  fsc_ContentHash :: string
  fsc_TaskSpecHash :: string
  fsc_SelectedOverviewID :: string
  fsc_OverviewHash :: string
  fsc_OverviewRef :: string
  fsc_Inputs :: "string list"
  fsc_AcceptanceHash :: string
  fsc_AcceptanceCriteria :: string
  fsc_OutputFormat :: string
  fsc_OutputLanguage :: string
  fsc_AllowedTools :: "string list"
  fsc_ExternalCostCap :: string
  fsc_Exclusions :: "string list"
  fsc_ChangeOrderID :: string
  fsc_Differences :: "scope_difference list"
  fsc_CreatedAt :: gotime

record formal_package =
  fpk_ID :: string
  fpk_TaskID :: string
  fpk_AssignmentID :: string
  fpk_DeliveryUnit :: string
  fpk_Kind :: string
  fpk_ScopeID :: string
  fpk_ScopeRevision :: int
  fpk_AgentID :: string
  fpk_ProviderID :: string
  fpk_PublisherID :: string
  fpk_IncludedVersions :: int
  fpk_MaximumVersions :: int
  fpk_AllocatedVersion :: int
  fpk_AggregateVersion :: int
  fpk_Status :: string
  fpk_CreatedAt :: gotime
  fpk_UpdatedAt :: gotime

record formal_version =
  fvr_PackageID :: string
  fvr_Number :: int
  fvr_AggregateVersion :: int
  fvr_ScopeID :: string
  fvr_ScopeHash :: string
  fvr_WorkNonce :: work_nonce
  fvr_Revision :: "revision_binding option"
  fvr_ChangeOrderID :: string
  fvr_LogicalExecutionID :: string
  fvr_Status :: string
  fvr_ContentHash :: string
  fvr_DeliverableRef :: string
  fvr_UsedCost :: string
  fvr_FailureReasonCode :: string
  fvr_ResultHash :: string
  fvr_FeedbackResponses :: "feedback_response list"
  fvr_Changes :: "version_change list"
  fvr_Proof :: "proof_record option"
  fvr_CreatedAt :: gotime
  fvr_UpdatedAt :: gotime

record start_result =
  str_Package :: formal_package
  str_Scope :: formal_scope
  str_Version :: formal_version

record delivery_mutation =
  dmu_PublisherID :: string
  dmu_IdempotencyKey :: string
  dmu_RequestHash :: string

record execution_result =
  exr_LogicalExecutionID :: string
  exr_Status :: string
  exr_ContentHash :: string
  exr_DeliverableRef :: string
  exr_UsedCost :: string
  exr_FailureReasonCode :: string
  exr_FeedbackResponses :: "feedback_response list"
  exr_Changes :: "version_change list"

record proof_context =
  pcx_TaskID :: string
  pcx_AssignmentID :: string
  pcx_DeliveryUnit :: string
  pcx_PackageID :: string
  pcx_ScopeHash :: string
  pcx_Version :: int
  pcx_PackageAggregateVersion :: int
  pcx_WorkNonce :: work_nonce
  pcx_AgentID :: string
  pcx_ParentContentHash :: string
  pcx_FeedbackDigest :: string
  pcx_ChangeOrderID :: string
  pcx_FeedbackItemIDs :: "string list"
  pcx_PolicyHash :: string
  pcx_Deadline :: gotime

section \<open>Hashes\<close>

text \<open>The values the package hashes as JSON, one constructor for each struct it passes to \<open>json.Marshal\<close>.\<close>

datatype delivery_doc =
    DocStart string start_input
  | DocFeedbackItem string string int feedback_item_input
  | DocFeedbackSet string int string "feedback_item list"
  | DocFeedback string feedback_input
  | DocDifferences "scope_difference list"
  | DocProposal string propose_input
  | DocChangeOrder string string string int
  | DocDecision string string decide_input
  | DocChangeVersion string string change_version_input
  | DocAcceptance string acceptance_input
  | DocAcceptanceID string string string int work_nonce
  | DocTransition string string string transition_input
  | DocResponses "feedback_response list"
  | DocChanges "version_change list"
  | DocResult execution_result "proof_record option"
  | DocProof delivery_proof
  | DocScope formal_scope

record delivery_env =
  dl_sha :: "string \<Rightarrow> string"
  dl_json :: "delivery_doc \<Rightarrow> string"
  dl_criteria :: "string \<Rightarrow> string option" \<comment> \<open>\<open>json.Unmarshal\<close> of the acceptance criteria, printed again\<close>
  dl_sign :: "string \<Rightarrow> string" \<comment> \<open>the compact signature of a digest under the platform's key, 65 bytes\<close>

definition dl_digest :: "delivery_env \<Rightarrow> string \<Rightarrow> string" where
  "dl_digest E v = sha_string (dl_sha E v)"

definition dl_hash :: "delivery_env \<Rightarrow> delivery_doc \<Rightarrow> string" where
  "dl_hash E d = dl_digest E (dl_json E d)"

text \<open>
  The decisions of the delivery package that need no database: the number of the next version and the gate of a
  settlement (\<open>internal/delivery/state.go\<close>), and the checks of the inputs (\<open>internal/delivery/service.go\<close>).
\<close>

section \<open>Versions\<close>

definition next_included_version :: "formal_package \<Rightarrow> formal_version option \<Rightarrow> start_input \<Rightarrow> delivery_error + int \<times> int" where
  "next_included_version p previous q =
     (let expected = (if fpk_AllocatedVersion p = 0 then 0 else fpk_AggregateVersion p);
          nxt = fpk_AllocatedVersion p + 1
      in if stq_ExpectedPackageVersion q \<noteq> expected then Inl DlErrStaleVersion
         else if nxt < 1 \<or> nxt > fpk_MaximumVersions p \<or> nxt > MaximumVersions then Inl DlErrInvalidState
         else if nxt = 1 then
           (if previous \<noteq> None \<or> stq_Revision q \<noteq> None \<or> stq_WorkNonce q \<noteq> 1 \<or> stq_ChangeOrderID q \<noteq> [] then Inl DlErrInvalidState
            else Inr (nxt, fpk_AggregateVersion p + 1))
         else case (previous, stq_Revision q) of
             (Some v, Some r) \<Rightarrow>
               if fvr_Number v \<noteq> nxt - 1 \<or> rvb_ParentVersion r \<noteq> fvr_Number v \<or> fvr_Status v \<noteq> VersionReview \<or>
                  fvr_ContentHash v \<noteq> rvb_ParentContentHash r \<or> stq_WorkNonce q \<noteq> fvr_WorkNonce v + 1 then Inl DlErrInvalidState
               else if nxt \<le> fpk_IncludedVersions p \<and> stq_ChangeOrderID q \<noteq> [] \<or>
                       nxt > fpk_IncludedVersions p \<and> stq_ChangeOrderID q = [] then Inl DlErrInvalidState
               else Inr (nxt, fpk_AggregateVersion p + 1)
           | _ \<Rightarrow> Inl DlErrInvalidState)"

section \<open>Settlement\<close>

record settlement_snapshot =
  sts_IntentPackageAggregate :: int
  sts_CurrentPackageAggregate :: int
  sts_IntentFormalVersion :: int
  sts_CurrentFormalVersion :: int
  sts_VersionStatus :: string
  sts_IntentContentHash :: string
  sts_CurrentContentHash :: string
  sts_IntentProofDigest :: string
  sts_CurrentProofDigest :: string
  sts_IntentWorkNonce :: work_nonce
  sts_VersionWorkNonce :: work_nonce
  sts_CanonicalWorkNonce :: work_nonce
  sts_ChangeOrderReady :: bool

definition settlement_reason :: "settlement_snapshot \<Rightarrow> string" where
  "settlement_reason s =
     (if sts_IntentPackageAggregate s \<noteq> sts_CurrentPackageAggregate s then ''package_advanced''
      else if sts_IntentFormalVersion s \<noteq> sts_CurrentFormalVersion s then ''newer_version''
      else if sts_VersionStatus s \<noteq> VersionReview then ''version_not_reviewable''
      else if sts_IntentContentHash s \<noteq> sts_CurrentContentHash s \<or> sts_IntentProofDigest s \<noteq> sts_CurrentProofDigest s \<or>
              sts_IntentWorkNonce s \<noteq> sts_VersionWorkNonce s then ''proof_mismatch''
      else if sts_CanonicalWorkNonce s = 0 then ''chain_projection_pending''
      else if sts_IntentWorkNonce s \<noteq> sts_CanonicalWorkNonce s then ''work_nonce_advanced''
      else if sts_IntentFormalVersion s > IncludedVersions \<and> \<not> sts_ChangeOrderReady s then ''change_order_not_funded''
      else [])"

definition settlement_gate :: "settlement_snapshot \<Rightarrow> settlement_eligibility" where
  "settlement_gate s = (let r = settlement_reason s in \<lparr>sty_Eligible = (r = []), sty_ReasonCode = r\<rparr>)"

section \<open>Inputs\<close>

definition dl_valid_digest :: "string \<Rightarrow> bool" where
  "dl_valid_digest v = (if \<not> has_prefix v ''sha256:'' \<or> length v \<noteq> 71 then False else hex_decodable (drop 7 v))"

definition money_pattern :: "string \<Rightarrow> bool" where
  "money_pattern v \<longleftrightarrow> v = ''0'' \<or> v \<noteq> [] \<and> char_between CHR ''1'' CHR ''9'' (hd v) \<and> length v \<le> 78 \<and> list_all is_digit (tl v)"

definition valid_revision :: "revision_binding option \<Rightarrow> bool" where
  "valid_revision v =
     (case v of None \<Rightarrow> True
      | Some r \<Rightarrow> rvb_ParentVersion r > 0 \<and> rvb_FeedbackAggregateVersion r > 0 \<and> dl_valid_digest (rvb_ParentContentHash r) \<and>
          dl_valid_digest (rvb_FeedbackSetID r) \<and> dl_valid_digest (rvb_FeedbackDigest r))"

definition valid_mutation_key :: "string \<Rightarrow> bool" where
  "valid_mutation_key v \<longleftrightarrow> \<not> blank v \<and> length v \<le> 200"

definition change_kind_ok :: "string \<Rightarrow> string \<Rightarrow> string \<Rightarrow> bool" where
  "change_kind_ok kind before after \<longleftrightarrow>
     kind \<in> set [''added'', ''modified'', ''deleted''] \<and> (before = [] \<or> dl_valid_digest before) \<and> (after = [] \<or> dl_valid_digest after) \<and>
     \<not> (kind = ''added'' \<and> (before \<noteq> [] \<or> after = [])) \<and> \<not> (kind = ''deleted'' \<and> (before = [] \<or> after \<noteq> [])) \<and>
     \<not> (kind = ''modified'' \<and> (before = [] \<or> after = []))"

definition difference_ok :: "scope_difference \<Rightarrow> bool" where
  "difference_ok d \<longleftrightarrow> \<not> blank (sdf_Path d) \<and> length (sdf_Path d) \<le> 1000 \<and> \<not> blank (sdf_Description d) \<and> length (sdf_Description d) \<le> 4000 \<and>
     0 \<le> sdf_WorkloadDeltaPercent d \<and> sdf_WorkloadDeltaPercent d \<le> 10000 \<and> change_kind_ok (sdf_Kind d) (sdf_BeforeHash d) (sdf_AfterHash d)"

definition valid_change_proposal :: "propose_input \<Rightarrow> bool" where
  "valid_change_proposal q =
     (if \<not> dl_valid_digest (prq_PackageID q) \<or> prq_ExpectedPackageVersion q < 1 \<or> prq_TriggerVersion q < IncludedVersions \<or>
         prq_TriggerVersion q \<ge> MaximumVersions \<or> \<not> dl_valid_digest (prq_TriggerContentHash q) \<or> \<not> dl_valid_digest (prq_FeedbackSetID q) \<or>
         \<not> dl_valid_digest (prq_FeedbackDigest q) \<or> \<not> dl_valid_digest (prq_NewSpecHash q) \<or> \<not> money_pattern (prq_RequestedPrice q) \<or>
         prq_RequestedPrice q = ''0'' \<or> length (prq_Differences q) < 1 \<or> length (prq_Differences q) > 100 \<or> prq_Deadline q = 0 then False
      else list_all difference_ok (prq_Differences q) \<and> distinct (map sdf_Path (prq_Differences q)))"

definition feedback_item_ok :: "feedback_item_input \<Rightarrow> bool" where
  "feedback_item_ok i \<longleftrightarrow> \<not> blank (fii_CriterionID i) \<and> length (fii_CriterionID i) \<le> 200 \<and> \<not> blank (fii_Target i) \<and> length (fii_Target i) \<le> 500 \<and>
     \<not> blank (fii_Description i) \<and> length (fii_Description i) \<le> 4000 \<and> \<not> blank (fii_ExpectedOutcome i) \<and> length (fii_ExpectedOutcome i) \<le> 4000 \<and>
     fii_Category i \<in> set [''defect'', ''omission'', ''security'', ''runtime'', ''clarification''] \<and>
     fii_Priority i \<in> set [''low'', ''medium'', ''high'', ''blocker''] \<and> fii_ScopeClaim i \<in> set [''in_scope'', ''out_of_scope'', ''uncertain'']"

definition feedback_key :: "feedback_item_input \<Rightarrow> string" where
  "feedback_key i = fii_CriterionID i @ [CHR 0x00] @ fii_Target i"

definition valid_feedback_input :: "feedback_input \<Rightarrow> bool" where
  "valid_feedback_input q =
     (if \<not> dl_valid_digest (fbq_PackageID q) \<or> fbq_ExpectedPackageVersion q < 1 \<or> fbq_ParentVersion q < 1 \<or>
         \<not> dl_valid_digest (fbq_ParentContentHash q) \<or> length (fbq_Items q) < 1 \<or> length (fbq_Items q) > 100 then False
      else list_all feedback_item_ok (fbq_Items q) \<and> distinct (map feedback_key (fbq_Items q)))"

definition valid_responses :: "feedback_response list \<Rightarrow> bool" where
  "valid_responses rs \<longleftrightarrow>
     list_all (\<lambda>r. dl_valid_digest (fbr_FeedbackItemID r) \<and> fbr_Disposition r \<in> set [''resolved'', ''not_reproduced'', ''declined''] \<and>
       \<not> blank (fbr_Summary r) \<and> length (fbr_Summary r) \<le> 4000) rs \<and> distinct (map fbr_FeedbackItemID rs)"

definition valid_changes :: "version_change list \<Rightarrow> bool" where
  "valid_changes cs \<longleftrightarrow> length cs \<le> 500 \<and>
     list_all (\<lambda>c. \<not> blank (vch_Path c) \<and> length (vch_Path c) \<le> 1000 \<and> change_kind_ok (vch_Kind c) (vch_BeforeHash c) (vch_AfterHash c)) cs"

definition same_feedback_items :: "string list \<Rightarrow> feedback_response list \<Rightarrow> bool" where
  "same_feedback_items expected responses \<longleftrightarrow> length expected = length responses \<and>
     list_all (\<lambda>i. i \<in> set (map fbr_FeedbackItemID responses)) expected"

definition dl_valid_reason :: "string \<Rightarrow> bool" where
  "dl_valid_reason v \<longleftrightarrow> 1 \<le> length v \<and> length v \<le> 100 \<and> list_all (\<lambda>c. c = CHR ''_'' \<or> c = CHR ''-'' \<or> is_lower c \<or> is_digit c) v"

section \<open>Lemmas\<close>

lemma next_included_version_Inr:
  "next_included_version p previous q = Inr (n, a) \<longleftrightarrow> n = fpk_AllocatedVersion p + 1 \<and> a = fpk_AggregateVersion p + 1 \<and>
     stq_ExpectedPackageVersion q = (if fpk_AllocatedVersion p = 0 then 0 else fpk_AggregateVersion p) \<and>
     1 \<le> n \<and> n \<le> fpk_MaximumVersions p \<and> n \<le> MaximumVersions \<and>
     (if n = 1 then previous = None \<and> stq_Revision q = None \<and> stq_WorkNonce q = 1 \<and> stq_ChangeOrderID q = []
      else \<exists>v r. previous = Some v \<and> stq_Revision q = Some r \<and> fvr_Number v = n - 1 \<and> rvb_ParentVersion r = n - 1 \<and> fvr_Status v = VersionReview \<and>
        fvr_ContentHash v = rvb_ParentContentHash r \<and> stq_WorkNonce q = fvr_WorkNonce v + 1 \<and>
        (stq_ChangeOrderID q = [] \<longleftrightarrow> n \<le> fpk_IncludedVersions p))"
proof (cases "fpk_AllocatedVersion p + 1 = 1")
  case True
  then show ?thesis by (simp add: next_included_version_def Let_def res_simps split: if_splits) auto
next
  case False
  then show ?thesis
    by (cases previous; cases "stq_Revision q") (auto simp: next_included_version_def Let_def split: if_splits)
qed

text \<open>What an eligible settlement means.\<close>

lemma settlement_gate_eligible:
  "sty_Eligible (settlement_gate s) \<longleftrightarrow>
     sts_IntentPackageAggregate s = sts_CurrentPackageAggregate s \<and> sts_IntentFormalVersion s = sts_CurrentFormalVersion s \<and>
     sts_VersionStatus s = VersionReview \<and> sts_IntentContentHash s = sts_CurrentContentHash s \<and> sts_IntentProofDigest s = sts_CurrentProofDigest s \<and>
     sts_IntentWorkNonce s = sts_VersionWorkNonce s \<and> sts_CanonicalWorkNonce s \<noteq> 0 \<and> sts_IntentWorkNonce s = sts_CanonicalWorkNonce s \<and>
     (sts_IntentFormalVersion s > IncludedVersions \<longrightarrow> sts_ChangeOrderReady s)"
  by (auto simp: settlement_gate_def settlement_reason_def Let_def)

lemma settlement_reason_empty: "settlement_reason s = [] \<longleftrightarrow> sty_Eligible (settlement_gate s)"
  by (simp add: settlement_gate_def Let_def)

end
