(* ===== verification/Delivery_Store.thy ===== *)
theory Delivery_Store
  imports Delivery_Types
begin

text \<open>The delivery store: starting versions, feedback, the reports of the worker, and the views.\<close>

text \<open>
  The delivery store (\<open>internal/delivery/postgres/store.go\<close>) over its tables. A row is a record, a table a map by its
  primary key. What the store reads of the tables of other packages is kept as it reads it: the join of a task with
  its specification, assignment, overview and price is one row \<open>dd_sources\<close>, the reservation of an assignment one row
  \<open>dd_bindings\<close>, and \<open>dd_events\<close> are the events in canonical blocks.

  A transaction is a function to an error or to its answer and the new tables. On an error it is rolled back
  (\<open>run_tx\<close>). The transactions of one task take the same advisory lock or lock the row they change, so each is read
  as one step; it reads the clock once. A unique index over a digest can be broken only by a collision and is checked
  where the key is stored, not where it is part of the digest. The payloads of audit events are left out.
\<close>

section \<open>Tables\<close>

record task_row =
  tkr_PublisherID :: string
  tkr_Status :: string
  tkr_Deadline :: gotime
  tkr_AggregateVersion :: int
  tkr_UpdatedAt :: gotime

record scope_source =
  scs_TaskStatus :: string
  scs_TaskSpecHash :: string
  scs_AcceptanceHash :: string
  scs_AcceptanceJSON :: string
  scs_OverviewID :: string
  scs_OverviewHash :: string
  scs_OverviewRef :: string
  scs_DeliveryFormat :: string
  scs_Language :: string
  scs_CostCap :: string
  scs_AgentEndpoint :: string
  scs_AssignmentID :: string
  scs_AgentID :: string
  scs_ProviderID :: string
  scs_Inputs :: "string list"
  scs_AllowedTools :: "string list"
  scs_Exclusions :: "string list"
  scs_Deadline :: gotime
  scs_AssignmentWorkNonce :: work_nonce

record binding_row =
  bnd_ChainID :: string
  bnd_ContractAddress :: string
  bnd_PublisherWallet :: string
  bnd_ProofTaskID :: string
  bnd_PayoutAddress :: string
  bnd_FormalPayable :: string
  bnd_AgentController :: string

record chain_event_row =
  cer_ID :: string
  cer_ChainID :: string
  cer_ContractAddress :: string
  cer_Type :: string
  cer_TaskID :: string
  cer_AssignmentID :: string
  cer_WorkNonce :: work_nonce
  cer_TransactionHash :: string
  cer_Recipient :: string
  cer_Amount :: string
  cer_BlockTimestamp :: gotime

record version_event =
  vev_PackageID :: string
  vev_Number :: int
  vev_Sequence :: int
  vev_Type :: string
  vev_ReasonCode :: string
  vev_OccurredAt :: gotime

record change_event =
  chv_ChangeOrderID :: string
  chv_Sequence :: int
  chv_Type :: string
  chv_ActorID :: string
  chv_OccurredAt :: gotime

record billing_row =
  bil_Status :: string
  bil_ChargeAmount :: string
  bil_UsedCost :: string
  bil_ContentHash :: string

record acceptance_state =
  acs_IntentID :: string
  acs_AggregateVersion :: int
  acs_State :: string
  acs_TransactionHash :: string
  acs_ChainEventID :: string
  acs_OccurredAt :: gotime

record settlement_row =
  stl_ChangeOrderID :: string
  stl_IntentID :: string
  stl_ChainEventID :: string
  stl_JournalID :: string
  stl_ResidualJournalID :: string
  stl_Amount :: int
  stl_ResidualAmount :: int
  stl_ResidualRecipientID :: string

record delivery_db =
  dd_tasks :: "(string, task_row) gomap"
  dd_sources :: "(string, scope_source) gomap"
  dd_active :: "(string, string) gomap"
  dd_bindings :: "(string, binding_row) gomap"
  dd_events :: "chain_event_row list"
  dd_users :: "string list"
  dd_ledger :: sql_ledger
  dd_packages :: "(string, formal_package) gomap"
  dd_scopes :: "(string, formal_scope) gomap"
  dd_versions :: "(string \<times> int, formal_version) gomap"
  dd_versionEvents :: "version_event list"
  dd_feedback :: "(string, feedback_set) gomap"
  dd_responses :: "(string \<times> int, feedback_response list) gomap"
  dd_changes :: "(string \<times> int, version_change list) gomap"
  dd_proofs :: "(string \<times> int, proof_record) gomap"
  dd_billing :: "(string \<times> int, billing_row) gomap"
  dd_changeOrders :: "(string, change_order) gomap"
  dd_changeEvents :: "change_event list"
  dd_intents :: "(string, acceptance_intent) gomap"
  dd_states :: "acceptance_state list"
  dd_settlements :: "settlement_row list"
  dd_outbox :: "(string, spec) gomap"
  dd_startRequests :: "(string \<times> string, string \<times> start_result) gomap"
  dd_feedbackRequests :: "(string \<times> string, string \<times> feedback_set) gomap"
  dd_changeRequests :: "(string \<times> string, string \<times> string \<times> change_order) gomap"
  dd_acceptanceRequests :: "(string \<times> string, string \<times> string \<times> acceptance_intent) gomap"

type_synonym 'a delivery_tx = "delivery_db \<Rightarrow> delivery_error + 'a \<times> delivery_db"

definition run_tx :: "'a delivery_tx \<Rightarrow> delivery_db \<Rightarrow> delivery_db \<times> (delivery_error + 'a)" where
  "run_tx f d = (case f d of Inl e \<Rightarrow> (d, Inl e) | Inr (x, d') \<Rightarrow> (d', Inr x))"

definition sql_lift :: "sql_error + 'a \<Rightarrow> delivery_error + 'a" where
  "sql_lift x = map_sum DlErrDatabase id x"

text \<open>\<open>formalConflict\<close>: a broken unique key is reported as a conflict.\<close>

definition formal_conflict :: "sql_error + 'a \<Rightarrow> delivery_error + 'a" where
  "formal_conflict x = map_sum (\<lambda>e. if e = UniqueViolation then DlErrContentConflict else DlErrDatabase e) id x"

section \<open>Queries\<close>

definition package_of_task :: "string \<Rightarrow> string \<Rightarrow> delivery_db \<Rightarrow> formal_package option" where
  "package_of_task taskID publisherID d =
     find (\<lambda>p. fpk_TaskID p = taskID \<and> fpk_PublisherID p = publisherID) (gvals (dd_packages d))"

definition version_of_execution :: "string \<Rightarrow> delivery_db \<Rightarrow> formal_version option" where
  "version_of_execution i d = find (\<lambda>v. fvr_LogicalExecutionID v = i) (gvals (dd_versions d))"

definition load_scope_source :: "string \<Rightarrow> string \<Rightarrow> delivery_db \<Rightarrow> scope_source option" where
  "load_scope_source publisherID taskID d =
     (case (gget (dd_tasks d) taskID, gget (dd_sources d) taskID) of
        (Some t, Some s) \<Rightarrow>
          if tkr_PublisherID t = publisherID \<and> gget (dd_active d) taskID = Some (scs_AssignmentID s)
          then Some (s\<lparr>scs_TaskStatus := tkr_Status t, scs_Deadline := tkr_Deadline t\<rparr>) else None
      | _ \<Rightarrow> None)"

definition active_package_assignment :: "string \<Rightarrow> delivery_db \<Rightarrow> bool" where
  "active_package_assignment packageID d =
     (case gget (dd_packages d) packageID of None \<Rightarrow> False | Some p \<Rightarrow> gget (dd_active d) (fpk_TaskID p) = Some (fpk_AssignmentID p))"

definition active_version :: "string \<Rightarrow> delivery_db \<Rightarrow> bool" where
  "active_version packageID d \<longleftrightarrow>
     list_ex (\<lambda>v. fvr_PackageID v = packageID \<and> (fvr_Status v = VersionAllocated \<or> fvr_Status v = VersionGenerating)) (gvals (dd_versions d))"

text \<open>\<open>UPDATE tasks SET status = .. WHERE status IN (..)\<close>, with \<open>requireOne\<close>.\<close>

definition move_task :: "gotime \<Rightarrow> string \<Rightarrow> string list \<Rightarrow> string \<Rightarrow> delivery_db \<Rightarrow> delivery_error + delivery_db" where
  "move_task now taskID sources target d =
     (case gget (dd_tasks d) taskID of
        None \<Rightarrow> Inl DlErrInvalidState
      | Some t \<Rightarrow>
          if tkr_Status t \<notin> set sources then Inl DlErrInvalidState
          else Inr (d\<lparr>dd_tasks := gput taskID (t\<lparr>tkr_Status := target, tkr_AggregateVersion := tkr_AggregateVersion t + 1, tkr_UpdatedAt := now\<rparr>) (dd_tasks d)\<rparr>))"

definition put_package :: "formal_package \<Rightarrow> delivery_db \<Rightarrow> delivery_db" where
  "put_package p d = d\<lparr>dd_packages := gput (fpk_ID p) p (dd_packages d)\<rparr>"

text \<open>\<open>UPDATE formal_packages SET aggregate_version = ..\<close>\<close>

definition touch_package :: "gotime \<Rightarrow> formal_package \<Rightarrow> int \<Rightarrow> delivery_db \<Rightarrow> delivery_db" where
  "touch_package now p aggregate d = put_package (p\<lparr>fpk_AggregateVersion := aggregate, fpk_UpdatedAt := now\<rparr>) d"

text \<open>A row of \<open>formal_versions\<close> has no responses, changes or proof; those have tables of their own.\<close>

definition version_row :: "formal_version \<Rightarrow> formal_version" where
  "version_row v = v\<lparr>fvr_FeedbackResponses := [], fvr_Changes := [], fvr_Proof := None\<rparr>"

definition put_version :: "formal_version \<Rightarrow> delivery_db \<Rightarrow> delivery_db" where
  "put_version v d = d\<lparr>dd_versions := gput (fvr_PackageID v, fvr_Number v) (version_row v) (dd_versions d)\<rparr>"

definition insert_version :: "formal_version \<Rightarrow> delivery_db \<Rightarrow> delivery_error + delivery_db" where
  "insert_version v d =
     (if gget (dd_versions d) (fvr_PackageID v, fvr_Number v) \<noteq> None \<or> version_of_execution (fvr_LogicalExecutionID v) d \<noteq> None
      then Inl (DlErrDatabase UniqueViolation) else Inr (put_version v d))"

definition insert_version_event :: "formal_version \<Rightarrow> string \<Rightarrow> string \<Rightarrow> gotime \<Rightarrow> delivery_db \<Rightarrow> delivery_db" where
  "insert_version_event v eventType reason now d =
     d\<lparr>dd_versionEvents := dd_versionEvents d @
        [\<lparr>vev_PackageID = fvr_PackageID v, vev_Number = fvr_Number v,
          vev_Sequence = foldr (\<lambda>e m. if vev_PackageID e = fvr_PackageID v \<and> vev_Number e = fvr_Number v then max (vev_Sequence e) m else m)
            (dd_versionEvents d) 0 + 1,
          vev_Type = eventType, vev_ReasonCode = reason, vev_OccurredAt = now\<rparr>]\<rparr>"

definition insert_change_event :: "string \<Rightarrow> string \<Rightarrow> string \<Rightarrow> gotime \<Rightarrow> delivery_db \<Rightarrow> delivery_db" where
  "insert_change_event changeOrderID eventType actorID now d =
     d\<lparr>dd_changeEvents := dd_changeEvents d @
        [\<lparr>chv_ChangeOrderID = changeOrderID,
          chv_Sequence = foldr (\<lambda>e m. if chv_ChangeOrderID e = changeOrderID then max (chv_Sequence e) m else m) (dd_changeEvents d) 0 + 1,
          chv_Type = eventType, chv_ActorID = actorID, chv_OccurredAt = now\<rparr>]\<rparr>"

section \<open>The scope of a package\<close>

definition source_scope :: "scope_source \<Rightarrow> string \<Rightarrow> formal_scope" where
  "source_scope s criteria =
     \<lparr>fsc_ID = [], fsc_PackageID = [], fsc_Revision = 0, fsc_ContentHash = [], fsc_TaskSpecHash = scs_TaskSpecHash s,
      fsc_SelectedOverviewID = scs_OverviewID s, fsc_OverviewHash = scs_OverviewHash s, fsc_OverviewRef = scs_OverviewRef s,
      fsc_Inputs = scs_Inputs s, fsc_AcceptanceHash = scs_AcceptanceHash s, fsc_AcceptanceCriteria = criteria,
      fsc_OutputFormat = scs_DeliveryFormat s, fsc_OutputLanguage = scs_Language s, fsc_AllowedTools = scs_AllowedTools s,
      fsc_ExternalCostCap = scs_CostCap s, fsc_Exclusions = scs_Exclusions s, fsc_ChangeOrderID = [], fsc_Differences = [], fsc_CreatedAt = 0\<rparr>"

definition freeze_scope :: "delivery_env \<Rightarrow> string \<Rightarrow> scope_source \<Rightarrow> gotime \<Rightarrow> delivery_error + formal_scope" where
  "freeze_scope E packageID s now =
     rbind (from_option DlErrJSON (dl_criteria E (scs_AcceptanceJSON s))) (\<lambda>criteria.
     let draft = source_scope s criteria; contentHash = dl_hash E (DocScope draft) in
     Inr (draft\<lparr>fsc_ID := dl_digest E (''formal-scope:'' @ packageID @ '':'' @ contentHash), fsc_PackageID := packageID, fsc_Revision := 1,
       fsc_ContentHash := contentHash, fsc_CreatedAt := now\<rparr>))"

definition insert_scope :: "formal_scope \<Rightarrow> delivery_db \<Rightarrow> delivery_error + delivery_db" where
  "insert_scope s d =
     (if gget (dd_scopes d) (fsc_ID s) \<noteq> None \<or>
         list_ex (\<lambda>x. fsc_PackageID x = fsc_PackageID s \<and> (fsc_Revision x = fsc_Revision s \<or> fsc_ContentHash x = fsc_ContentHash s)) (gvals (dd_scopes d))
      then Inl (DlErrDatabase UniqueViolation) else Inr (d\<lparr>dd_scopes := gput (fsc_ID s) s (dd_scopes d)\<rparr>))"

section \<open>Authorisation of a revision\<close>

text \<open>The first query: the feedback the revision answers, and the time from which the work nonce must be advanced.\<close>

definition change_order_covers :: "start_input \<Rightarrow> formal_package \<Rightarrow> feedback_set \<Rightarrow> delivery_db \<Rightarrow> bool" where
  "change_order_covers q p f d =
     (case gget (dd_changeOrders d) (stq_ChangeOrderID q) of
        None \<Rightarrow> False
      | Some c \<Rightarrow> cho_PackageID c = fpk_ID p \<and> cho_FeedbackSetID c = fbs_ID f \<and> cho_FeedbackDigest c = fbs_Digest f \<and>
          cho_Status c = ChangeEffective \<and> cho_PackageAggregateVersion c = fpk_AggregateVersion p)"

definition in_scope_only :: "feedback_set \<Rightarrow> bool" where
  "in_scope_only f \<longleftrightarrow> list_all (\<lambda>i. fii_ScopeClaim (fbi_Input i) = ''in_scope'') (fbs_Items f)"

definition revision_valid :: "start_input \<Rightarrow> revision_binding \<Rightarrow> formal_package \<Rightarrow> feedback_set \<Rightarrow> delivery_db \<Rightarrow> bool" where
  "revision_valid q r p f d \<longleftrightarrow>
     fbs_ParentVersion f = rvb_ParentVersion r \<and> fbs_ParentContentHash f = rvb_ParentContentHash r \<and> fbs_Digest f = rvb_FeedbackDigest r \<and>
     map_option fvr_ScopeID (gget (dd_versions d) (fpk_ID p, rvb_ParentVersion r)) = Some (fbs_ScopeID f) \<and>
     (stq_ChangeOrderID q = [] \<and> fbs_PackageAggregateVersion f = rvb_FeedbackAggregateVersion r \<and>
        fpk_AggregateVersion p = rvb_FeedbackAggregateVersion r \<and> in_scope_only f \<or>
      stq_ChangeOrderID q \<noteq> [] \<and> change_order_covers q p f d)"

definition feedback_for :: "string \<Rightarrow> string \<Rightarrow> revision_binding \<Rightarrow> delivery_db \<Rightarrow> (formal_package \<times> feedback_set) option" where
  "feedback_for publisherID taskID r d =
     (case (package_of_task taskID publisherID d, gget (dd_feedback d) (rvb_FeedbackSetID r)) of
        (Some p, Some f) \<Rightarrow> if fbs_PackageID f = fpk_ID p \<and> fpk_AllocatedVersion p = rvb_ParentVersion r then Some (p, f) else None
      | _ \<Rightarrow> None)"

definition feedback_since :: "start_input \<Rightarrow> feedback_set \<Rightarrow> delivery_db \<Rightarrow> gotime" where
  "feedback_since q f d =
     (case gget (dd_changeOrders d) (stq_ChangeOrderID q) of
        Some c \<Rightarrow> (case cho_EffectiveAt c of Some t \<Rightarrow> max (fbs_CreatedAt f) t | None \<Rightarrow> fbs_CreatedAt f)
      | None \<Rightarrow> fbs_CreatedAt f)"

text \<open>The second query: the chain has advanced to the work nonce of the revision, after the feedback, and not further.\<close>

definition nonce_event :: "binding_row \<Rightarrow> chain_event_row \<Rightarrow> bool" where
  "nonce_event b e \<longleftrightarrow> cer_ChainID e = bnd_ChainID b \<and> cer_ContractAddress e = bnd_ContractAddress b \<and> cer_Type e = ''work_nonce_advanced'' \<and>
     cer_TaskID e = bnd_ProofTaskID b"

definition nonce_confirmed :: "formal_package \<Rightarrow> work_nonce \<Rightarrow> gotime \<Rightarrow> delivery_db \<Rightarrow> bool" where
  "nonce_confirmed p nonce since d =
     (case gget (dd_bindings d) (fpk_AssignmentID p) of
        None \<Rightarrow> False
      | Some b \<Rightarrow> list_ex (\<lambda>e. nonce_event b e \<and> cer_AssignmentID e = fpk_AssignmentID p \<and> cer_WorkNonce e = nonce \<and> cer_BlockTimestamp e \<ge> since \<and>
          \<not> list_ex (\<lambda>n. nonce_event b n \<and> cer_WorkNonce n > cer_WorkNonce e) (dd_events d)) (dd_events d))"

definition authorize_revision :: "string \<Rightarrow> string \<Rightarrow> start_input \<Rightarrow> delivery_db \<Rightarrow> delivery_error + unit" where
  "authorize_revision publisherID taskID q d =
     (case stq_Revision q of
        None \<Rightarrow> Inr ()
      | Some r \<Rightarrow>
          (case feedback_for publisherID taskID r d of
             None \<Rightarrow> Inl DlErrStaleVersion
           | Some (p, f) \<Rightarrow>
               if \<not> revision_valid q r p f d then Inl DlErrStaleVersion
               else if \<not> nonce_confirmed p (stq_WorkNonce q) (feedback_since q f d) d then Inl DlErrDependencyPending else Inr ()))"

section \<open>Start\<close>

definition new_package :: "delivery_env \<Rightarrow> gotime \<Rightarrow> string \<Rightarrow> string \<Rightarrow> scope_source \<Rightarrow> formal_scope \<Rightarrow> formal_package" where
  "new_package E now publisherID taskID s scope =
     \<lparr>fpk_ID = fsc_PackageID scope, fpk_TaskID = taskID, fpk_AssignmentID = scs_AssignmentID s, fpk_DeliveryUnit = ''default'',
      fpk_Kind = StandardPackage, fpk_ScopeID = fsc_ID scope, fpk_ScopeRevision = 1, fpk_AgentID = scs_AgentID s, fpk_ProviderID = scs_ProviderID s,
      fpk_PublisherID = publisherID, fpk_IncludedVersions = IncludedVersions, fpk_MaximumVersions = MaximumVersions, fpk_AllocatedVersion = 0,
      fpk_AggregateVersion = 1, fpk_Status = PackageActive, fpk_CreatedAt = now, fpk_UpdatedAt = now\<rparr>"

definition package_id :: "delivery_env \<Rightarrow> scope_source \<Rightarrow> string" where
  "package_id E s = dl_digest E (''formal-package:'' @ scs_AssignmentID s @ '':default:standard'')"

text \<open>The package of the task, created with its scope by the first start.\<close>

definition start_package ::
    "delivery_env \<Rightarrow> gotime \<Rightarrow> delivery_mutation \<Rightarrow> string \<Rightarrow> start_input \<Rightarrow> scope_source \<Rightarrow> (formal_package \<times> formal_scope) delivery_tx" where
  "start_package E now m taskID q s d =
     (case package_of_task taskID (dmu_PublisherID m) d of
        None \<Rightarrow>
          if stq_ExpectedPackageVersion q \<noteq> 0 \<or> stq_WorkNonce q \<noteq> scs_AssignmentWorkNonce s \<or> stq_WorkNonce q \<noteq> 1 \<or> stq_Revision q \<noteq> None \<or>
             scs_TaskStatus s \<noteq> ''assigned'' then Inl DlErrInvalidState
          else rbind (freeze_scope E (package_id E s) s now) (\<lambda>scope.
            rbind (insert_scope scope d) (\<lambda>d1.
            let p = new_package E now (dmu_PublisherID m) taskID s scope in
            if gget (dd_packages d1) (fpk_ID p) \<noteq> None \<or> list_ex (\<lambda>x. fpk_AssignmentID x = fpk_AssignmentID p \<or> fpk_TaskID x = taskID) (gvals (dd_packages d1))
            then Inl (DlErrDatabase UniqueViolation)
            else Inr ((p, scope), put_package p d1)))
      | Some p \<Rightarrow>
          if scs_AssignmentID s \<noteq> fpk_AssignmentID p then Inl DlErrInvalidState
          else if scs_TaskStatus s \<noteq> ''formal_review'' \<and> scs_TaskStatus s \<noteq> ''revision_requested'' then Inl DlErrInvalidState
          else rbind (from_option DlErrNoRows (gget (dd_scopes d) (fpk_ScopeID p))) (\<lambda>scope. Inr ((p, scope), d)))"

definition start_previous :: "formal_package \<Rightarrow> delivery_db \<Rightarrow> delivery_error + formal_version option" where
  "start_previous p d =
     (if fpk_AllocatedVersion p > 0
      then rbind (from_option DlErrNoRows (gget (dd_versions d) (fpk_ID p, fpk_AllocatedVersion p))) (\<lambda>v. Inr (Some v))
      else Inr None)"

text \<open>\<open>authorizeChangeOrder\<close> (\<open>change_order.go\<close>): the scope, the deadline and the responsibility of an effective change order.\<close>

definition authorize_change_order ::
    "gotime \<Rightarrow> string \<Rightarrow> string \<Rightarrow> formal_package \<Rightarrow> int \<Rightarrow> start_input \<Rightarrow> delivery_db \<Rightarrow> delivery_error + formal_scope \<times> gotime \<times> string" where
  "authorize_change_order now publisherID taskID p nxt q d =
     (case stq_Revision q of
        None \<Rightarrow> Inl DlPanic
      | Some r \<Rightarrow>
          (case gget (dd_changeOrders d) (stq_ChangeOrderID q) of
             None \<Rightarrow> Inl DlErrStaleVersion
           | Some c \<Rightarrow>
               if cho_PackageID c = fpk_ID p \<and> cho_TaskID c = taskID \<and> cho_TargetVersion c = nxt \<and> cho_Status c = ChangeEffective \<and>
                  cho_PackageAggregateVersion c = fpk_AggregateVersion p \<and> cho_FeedbackSetID c = rvb_FeedbackSetID r \<and>
                  cho_FeedbackDigest c = rvb_FeedbackDigest r \<and> cho_Deadline c > now \<and> fpk_PublisherID p = publisherID
               then rbind (from_option DlErrNoRows (gget (dd_scopes d) (cho_NewScopeID c))) (\<lambda>scope.
                      Inr (scope, cho_Deadline c, cho_Responsibility c))
               else Inl DlErrStaleVersion))"

definition start_terms ::
    "gotime \<Rightarrow> string \<Rightarrow> string \<Rightarrow> formal_package \<Rightarrow> formal_scope \<Rightarrow> scope_source \<Rightarrow> int \<Rightarrow> start_input \<Rightarrow> delivery_db \<Rightarrow>
     delivery_error + formal_scope \<times> gotime \<times> string" where
  "start_terms now publisherID taskID p scope s nxt q d =
     (if stq_ChangeOrderID q \<noteq> [] then authorize_change_order now publisherID taskID p nxt q d else Inr (scope, scs_Deadline s, []))"

definition consume_change_order :: "gotime \<Rightarrow> string \<Rightarrow> int \<Rightarrow> string \<Rightarrow> delivery_db \<Rightarrow> delivery_error + delivery_db" where
  "consume_change_order now publisherID aggregate i d =
     (if i = [] then Inr d
      else case gget (dd_changeOrders d) i of
        None \<Rightarrow> Inl DlErrInvalidState
      | Some c \<Rightarrow>
          if cho_Status c \<noteq> ChangeEffective then Inl DlErrInvalidState
          else Inr (insert_change_event i ''consumed'' publisherID now
            (d\<lparr>dd_changeOrders := gput i (c\<lparr>cho_Status := ChangeConsumed, cho_AggregateVersion := cho_AggregateVersion c + 1,
               cho_PackageAggregateVersion := aggregate, cho_ConsumedAt := Some now, cho_UpdatedAt := now\<rparr>) (dd_changeOrders d)\<rparr>)))"

definition allocated_version :: "delivery_env \<Rightarrow> gotime \<Rightarrow> formal_package \<Rightarrow> formal_scope \<Rightarrow> int \<Rightarrow> int \<Rightarrow> start_input \<Rightarrow> formal_version" where
  "allocated_version E now p scope nxt aggregate q =
     \<lparr>fvr_PackageID = fpk_ID p, fvr_Number = nxt, fvr_AggregateVersion = aggregate, fvr_ScopeID = fsc_ID scope, fvr_ScopeHash = fsc_ContentHash scope,
      fvr_WorkNonce = stq_WorkNonce q, fvr_Revision = stq_Revision q, fvr_ChangeOrderID = stq_ChangeOrderID q,
      fvr_LogicalExecutionID = dl_digest E (''formal-execution:'' @ fpk_ID p @ '':'' @ bigint_string nxt), fvr_Status = VersionAllocated,
      fvr_ContentHash = [], fvr_DeliverableRef = [], fvr_UsedCost = ''0'', fvr_FailureReasonCode = [], fvr_ResultHash = [],
      fvr_FeedbackResponses = [], fvr_Changes = [], fvr_Proof = None, fvr_CreatedAt = now, fvr_UpdatedAt = now\<rparr>"

definition formal_spec :: "string \<Rightarrow> scope_source \<Rightarrow> formal_package \<Rightarrow> formal_scope \<Rightarrow> formal_version \<Rightarrow> gotime \<Rightarrow> string \<Rightarrow> spec" where
  "formal_spec taskID s p scope v deadline responsibility =
     \<lparr>sp_LogicalExecutionID = fvr_LogicalExecutionID v, sp_Stage = StageFormal, sp_TaskID = taskID, sp_TaskSpecHash = scs_TaskSpecHash s,
      sp_InputRef = ''formal-scope://'' @ fsc_ID scope, sp_InputHash = fsc_ContentHash scope, sp_AgentID = scs_AgentID s,
      sp_AgentEndpoint = scs_AgentEndpoint s,
      sp_ResponsibilityCode = (if fvr_ChangeOrderID v \<noteq> [] then ''change_order_'' @ responsibility else ''included_package''),
      sp_CostCap = fsc_ExternalCostCap scope, sp_ToolPolicy = \<lparr>tp_Mode = ToolPolicyScoped, tp_AllowedTools = fsc_AllowedTools scope\<rparr>,
      sp_Deadline = deadline, sp_IdempotencyKey = fvr_LogicalExecutionID v, sp_Overview = None,
      sp_Formal = Some \<lparr>fb_AssignmentID = scs_AssignmentID s, fb_Package = fpk_ID p, fb_Version = fvr_Number v,
        fb_AggregateVersion = fvr_AggregateVersion v, fb_WorkNonce = sint (fvr_WorkNonce v), fb_ScopeSpecHash = fsc_TaskSpecHash scope,
        fb_ChangeOrderID = fvr_ChangeOrderID v, fb_Responsibility = responsibility\<rparr>\<rparr>"

text \<open>What \<open>Start\<close> writes once the version is authorised.\<close>

definition start_write ::
    "delivery_env \<Rightarrow> gotime \<Rightarrow> delivery_mutation \<Rightarrow> string \<Rightarrow> start_input \<Rightarrow> scope_source \<Rightarrow> formal_package \<Rightarrow> formal_scope \<Rightarrow> int \<Rightarrow> int \<Rightarrow>
     gotime \<Rightarrow> string \<Rightarrow> start_result delivery_tx" where
  "start_write E now m taskID q s p scope nxt aggregate deadline responsibility d =
     (let v = allocated_version E now p scope nxt aggregate q;
          p' = p\<lparr>fpk_AllocatedVersion := nxt, fpk_AggregateVersion := aggregate, fpk_UpdatedAt := now\<rparr>
      in rbind (insert_version v d) (\<lambda>d1.
         rbind (consume_change_order now (dmu_PublisherID m) aggregate (stq_ChangeOrderID q) (put_package p' d1)) (\<lambda>d2.
         rbind (move_task now taskID [''assigned'', ''formal_review'', ''revision_requested''] ''formal_generating'' d2) (\<lambda>d3.
         let result = \<lparr>str_Package = p', str_Scope = scope, str_Version = v\<rparr>;
             d4 = insert_version_event v ''allocated'' [] now d3
         in if gget (dd_outbox d4) (fvr_LogicalExecutionID v) \<noteq> None then Inl (DlErrDatabase UniqueViolation)
            else Inr (result, d4\<lparr>dd_outbox := gput (fvr_LogicalExecutionID v) (formal_spec taskID s p' scope v deadline responsibility) (dd_outbox d4),
              dd_startRequests := gput (dmu_PublisherID m, dmu_IdempotencyKey m) (dmu_RequestHash m, result) (dd_startRequests d4)\<rparr>)))))"

text \<open>The part after the replay: the checks in the order of the code.\<close>

definition start_fresh :: "delivery_env \<Rightarrow> gotime \<Rightarrow> delivery_mutation \<Rightarrow> string \<Rightarrow> start_input \<Rightarrow> start_result delivery_tx" where
  "start_fresh E now m taskID q d =
     (if map_option tkr_PublisherID (gget (dd_tasks d) taskID) \<noteq> Some (dmu_PublisherID m) then Inl DlErrNotFound
      else rbind (from_option DlErrInvalidState (load_scope_source (dmu_PublisherID m) taskID d)) (\<lambda>s.
        if \<not> scs_Deadline s > now \<or> scs_AgentEndpoint s = [] then Inl DlErrInvalidState
        else rbind (start_package E now m taskID q s d) (\<lambda>((p, scope), d1).
          rbind (authorize_revision (dmu_PublisherID m) taskID q d1) (\<lambda>_.
          rbind (start_previous p d1) (\<lambda>previous.
          rbind (next_included_version p previous q) (\<lambda>(nxt, aggregate).
          if active_version (fpk_ID p) d1 then Inl DlErrInvalidState
          else rbind (start_terms now (dmu_PublisherID m) taskID p scope s nxt q d1) (\<lambda>(scope', deadline, responsibility).
            start_write E now m taskID q s p scope' nxt aggregate deadline responsibility d1)))))))"

definition store_start :: "delivery_env \<Rightarrow> gotime \<Rightarrow> delivery_mutation \<Rightarrow> string \<Rightarrow> start_input \<Rightarrow> (start_result \<times> bool) delivery_tx" where
  "store_start E now m taskID q d =
     (case gget (dd_startRequests d) (dmu_PublisherID m, dmu_IdempotencyKey m) of
        Some (h, result) \<Rightarrow> if h \<noteq> dmu_RequestHash m then Inl DlErrIdempotencyConflict else Inr ((result, True), d)
      | None \<Rightarrow> rbind (start_fresh E now m taskID q d) (\<lambda>(result, d'). Inr ((result, False), d')))"

text \<open>
  The rest of the delivery store (\<open>internal/delivery/postgres/store.go\<close>): the publisher's feedback, the worker's reports
  about an execution, and the views.
\<close>

section \<open>SubmitFeedback\<close>

text \<open>The row and its unique keys; the digest of the set is its identifier.\<close>

definition insert_feedback :: "feedback_set \<Rightarrow> delivery_db \<Rightarrow> sql_error + delivery_db" where
  "insert_feedback f d =
     (if gget (dd_feedback d) (fbs_ID f) \<noteq> None \<or>
         list_ex (\<lambda>x. fbs_PackageID x = fbs_PackageID f \<and>
           (fbs_ParentVersion x = fbs_ParentVersion f \<or> fbs_PackageAggregateVersion x = fbs_PackageAggregateVersion f)) (gvals (dd_feedback d))
      then Inl UniqueViolation else Inr (d\<lparr>dd_feedback := gput (fbs_ID f) f (dd_feedback d)\<rparr>))"

definition task_status :: "string \<Rightarrow> delivery_db \<Rightarrow> delivery_error + string" where
  "task_status taskID d = from_option DlErrNoRows (map_option tkr_Status (gget (dd_tasks d) taskID))"

definition feedback_fresh :: "gotime \<Rightarrow> delivery_mutation \<Rightarrow> string \<Rightarrow> feedback_input \<Rightarrow> feedback_set \<Rightarrow> feedback_set delivery_tx" where
  "feedback_fresh now m taskID q draft d =
     rbind (from_option DlErrNotFound (package_of_task taskID (dmu_PublisherID m) d)) (\<lambda>p.
     if fbq_PackageID q \<noteq> fpk_ID p \<or> fbq_ExpectedPackageVersion q \<noteq> fpk_AggregateVersion p \<or> fbq_ParentVersion q \<noteq> fpk_AllocatedVersion p
     then Inl DlErrStaleVersion
     else rbind (from_option DlErrNoRows (gget (dd_versions d) (fpk_ID p, fbq_ParentVersion q))) (\<lambda>parent.
     if fvr_Status parent \<noteq> VersionReview \<or> fvr_ContentHash parent \<noteq> fbq_ParentContentHash q \<or> fpk_AllocatedVersion p \<ge> fpk_MaximumVersions p
     then Inl DlErrInvalidState
     else rbind (task_status taskID d) (\<lambda>status.
     if status \<noteq> ''formal_review'' then Inl DlErrInvalidState
     else let f = draft\<lparr>fbs_PackageID := fpk_ID p, fbs_ScopeID := fvr_ScopeID parent, fbs_ScopeHash := fvr_ScopeHash parent,
                fbs_PackageAggregateVersion := fpk_AggregateVersion p + 1, fbs_CreatedAt := now\<rparr>
       in rbind (formal_conflict (insert_feedback f d)) (\<lambda>d1.
          rbind (move_task now taskID [''formal_review''] ''revision_requested'' (touch_package now p (fbs_PackageAggregateVersion f) d1)) (\<lambda>d2.
          Inr (f, d2\<lparr>dd_feedbackRequests := gput (dmu_PublisherID m, dmu_IdempotencyKey m) (dmu_RequestHash m, f) (dd_feedbackRequests d2)\<rparr>))))))"

definition store_submit_feedback ::
    "gotime \<Rightarrow> delivery_mutation \<Rightarrow> string \<Rightarrow> feedback_input \<Rightarrow> feedback_set \<Rightarrow> (feedback_set \<times> bool) delivery_tx" where
  "store_submit_feedback now m taskID q draft d =
     (case gget (dd_feedbackRequests d) (dmu_PublisherID m, dmu_IdempotencyKey m) of
        Some (h, f) \<Rightarrow> if h \<noteq> dmu_RequestHash m then Inl DlErrIdempotencyConflict else Inr ((f, True), d)
      | None \<Rightarrow> rbind (feedback_fresh now m taskID q draft d) (\<lambda>(f, d'). Inr ((f, False), d')))"

section \<open>RecordDispatched\<close>

definition store_record_dispatched :: "gotime \<Rightarrow> string \<Rightarrow> (formal_version \<times> bool) delivery_tx" where
  "store_record_dispatched now i d =
     rbind (from_option DlErrNotFound (version_of_execution i d)) (\<lambda>v.
     if fvr_Status v = VersionGenerating then Inr ((v, True), d)
     else if fvr_Status v \<noteq> VersionAllocated then Inl DlErrInvalidState
     else if \<not> active_package_assignment (fvr_PackageID v) d then Inl DlErrInvalidState
     else let v' = v\<lparr>fvr_Status := VersionGenerating, fvr_UpdatedAt := now\<rparr> in
       Inr ((v', False), insert_version_event v' ''generating'' [] now (put_version v' d)))"

section \<open>RecordResult\<close>

definition duplicate_version_content :: "formal_version \<Rightarrow> string \<Rightarrow> delivery_db \<Rightarrow> bool" where
  "duplicate_version_content v contentHash d \<longleftrightarrow>
     list_ex (\<lambda>x. fvr_PackageID x = fvr_PackageID v \<and> fvr_Number x \<noteq> fvr_Number v \<and> fvr_Status x = VersionReview \<and> fvr_ContentHash x = contentHash)
       (gvals (dd_versions d))"

definition proof_matches :: "formal_version \<Rightarrow> execution_result \<Rightarrow> proof_record \<Rightarrow> bool" where
  "proof_matches v q r \<longleftrightarrow> dp_PackageID (pr_Proof r) = fvr_PackageID v \<and> dp_FormalVersion (pr_Proof r) = fvr_Number v \<and>
     dp_ContentHash (pr_Proof r) = exr_ContentHash q \<and> dp_PackageAggregateVersion (pr_Proof r) = fvr_AggregateVersion v \<and>
     dp_WorkNonce (pr_Proof r) = fvr_WorkNonce v"

text \<open>The charge of a reviewed version: nothing for the included ones, the authorised price for a change order.\<close>

definition version_charge :: "formal_version \<Rightarrow> delivery_db \<Rightarrow> delivery_error + string \<times> string" where
  "version_charge v d =
     (if fvr_ChangeOrderID v = [] then Inr (''included'', ''0'')
      else case gget (dd_changeOrders d) (fvr_ChangeOrderID v) of
        None \<Rightarrow> Inl DlErrNoRows
      | Some c \<Rightarrow> if cho_Status c = ChangeConsumed then Inr (''change_order'', cho_AuthorizedPrice c) else Inl DlErrNoRows)"

definition package_task :: "string \<Rightarrow> delivery_db \<Rightarrow> string" where
  "package_task packageID d = (case gget (dd_packages d) packageID of None \<Rightarrow> [] | Some p \<Rightarrow> fpk_TaskID p)"

definition reviewed_version :: "gotime \<Rightarrow> formal_version \<Rightarrow> execution_result \<Rightarrow> string \<Rightarrow> proof_record \<Rightarrow> formal_version" where
  "reviewed_version now v q resultHash r =
     v\<lparr>fvr_Status := VersionReview, fvr_ContentHash := exr_ContentHash q, fvr_DeliverableRef := exr_DeliverableRef q, fvr_UsedCost := exr_UsedCost q,
       fvr_ResultHash := resultHash, fvr_UpdatedAt := now, fvr_FeedbackResponses := exr_FeedbackResponses q, fvr_Changes := exr_Changes q,
       fvr_Proof := Some r\<rparr>"

definition record_review ::
    "gotime \<Rightarrow> formal_version \<Rightarrow> execution_result \<Rightarrow> string \<Rightarrow> proof_record option \<Rightarrow> formal_version delivery_tx" where
  "record_review now v q resultHash pr d =
     (case pr of
        None \<Rightarrow> Inl DlErrInvalidInput
      | Some r \<Rightarrow>
          if \<not> proof_matches v q r then Inl DlErrInvalidInput
          else rbind (version_charge v d) (\<lambda>(billing, charge).
            let v' = reviewed_version now v q resultHash r; key = (fvr_PackageID v, fvr_Number v);
                d1 = put_version v' (d\<lparr>dd_proofs := gput key r (dd_proofs d), dd_responses := gput key (exr_FeedbackResponses q) (dd_responses d),
                  dd_changes := gput key (exr_Changes q) (dd_changes d),
                  dd_billing := gput key \<lparr>bil_Status = billing, bil_ChargeAmount = charge, bil_UsedCost = exr_UsedCost q,
                    bil_ContentHash = exr_ContentHash q\<rparr> (dd_billing d)\<rparr>)
            in rbind (move_task now (package_task (fvr_PackageID v) d) [''formal_generating''] ''formal_review'' d1) (\<lambda>d2. Inr (v', d2))))"

text \<open>The check of the column \<open>failure_reason_code\<close>; the service allows a code that starts with a mark.\<close>

definition code_column_ok :: "string \<Rightarrow> bool" where
  "code_column_ok c \<longleftrightarrow> c \<noteq> [] \<and> length c \<le> 100 \<and> (is_lower (hd c) \<or> is_digit (hd c)) \<and>
     list_all (\<lambda>x. x = CHR ''_'' \<or> x = CHR ''-'' \<or> is_lower x \<or> is_digit x) c"

definition record_failure :: "gotime \<Rightarrow> formal_version \<Rightarrow> execution_result \<Rightarrow> string \<Rightarrow> string \<Rightarrow> formal_version delivery_tx" where
  "record_failure now v q resultHash reason d =
     (let code = (if reason = [] then ''execution_failed'' else reason);
          v' = v\<lparr>fvr_Status := VersionFailed, fvr_UsedCost := exr_UsedCost q, fvr_FailureReasonCode := code, fvr_ResultHash := resultHash,
                fvr_UpdatedAt := now\<rparr>
      in if \<not> code_column_ok code then Inl (DlErrDatabase CheckViolation)
         else rbind (move_task now (package_task (fvr_PackageID v) d) [''formal_generating''] ''failed'' (put_version v' d)) (\<lambda>d1. Inr (v', d1)))"

definition result_fresh :: "gotime \<Rightarrow> formal_version \<Rightarrow> execution_result \<Rightarrow> string \<Rightarrow> proof_record option \<Rightarrow> formal_version delivery_tx" where
  "result_fresh now v q resultHash pr d =
     (if fvr_Status v \<noteq> VersionAllocated \<and> fvr_Status v \<noteq> VersionGenerating then Inl DlErrInvalidState
      else if \<not> active_package_assignment (fvr_PackageID v) d then Inl DlErrInvalidState
      else rbind (if exr_Status q = ResultSucceeded then
             (if duplicate_version_content v (exr_ContentHash q) d then record_failure now v q resultHash ''duplicate_content'' d
              else record_review now v q resultHash pr d)
           else record_failure now v q resultHash (exr_FailureReasonCode q) d)
        (\<lambda>(v', d1). Inr (v', insert_version_event v' (fvr_Status v') (fvr_FailureReasonCode v') now d1)))"

definition store_record_result ::
    "delivery_env \<Rightarrow> gotime \<Rightarrow> execution_result \<Rightarrow> proof_record option \<Rightarrow> (formal_version \<times> bool) delivery_tx" where
  "store_record_result E now q pr d =
     (let resultHash = dl_hash E (DocResult q pr) in
      rbind (from_option DlErrNotFound (version_of_execution (exr_LogicalExecutionID q) d)) (\<lambda>v.
      if fvr_Status v = VersionReview \<or> fvr_Status v = VersionFailed then
        (if fvr_ResultHash v = resultHash then Inr ((v, True), d) else Inl DlErrContentConflict)
      else rbind (result_fresh now v q resultHash pr d) (\<lambda>(v', d'). Inr ((v', False), d'))))"

section \<open>Views\<close>

definition store_proof_context :: "string \<Rightarrow> delivery_db \<Rightarrow> delivery_error + proof_context" where
  "store_proof_context i d =
     rbind (from_option DlErrNotFound (version_of_execution i d)) (\<lambda>v.
     rbind (from_option DlErrNotFound (gget (dd_packages d) (fvr_PackageID v))) (\<lambda>p.
     rbind (from_option DlErrNotFound (gget (dd_tasks d) (fpk_TaskID p))) (\<lambda>t.
     Inr \<lparr>pcx_TaskID = fpk_TaskID p, pcx_AssignmentID = fpk_AssignmentID p, pcx_DeliveryUnit = fpk_DeliveryUnit p, pcx_PackageID = fvr_PackageID v,
       pcx_ScopeHash = fvr_ScopeHash v, pcx_Version = fvr_Number v, pcx_PackageAggregateVersion = fvr_AggregateVersion v,
       pcx_WorkNonce = fvr_WorkNonce v, pcx_AgentID = fpk_AgentID p,
       pcx_ParentContentHash = (case fvr_Revision v of None \<Rightarrow> [] | Some r \<Rightarrow> rvb_ParentContentHash r),
       pcx_FeedbackDigest = (case fvr_Revision v of None \<Rightarrow> [] | Some r \<Rightarrow> rvb_FeedbackDigest r),
       pcx_ChangeOrderID = fvr_ChangeOrderID v,
       pcx_FeedbackItemIDs = (case fvr_Revision v of None \<Rightarrow> []
         | Some r \<Rightarrow> (case gget (dd_feedback d) (rvb_FeedbackSetID r) of None \<Rightarrow> [] | Some f \<Rightarrow> map fbi_ID (fbs_Items f))),
       pcx_PolicyHash = fvr_ScopeHash v,
       pcx_Deadline = (case gget (dd_changeOrders d) (fvr_ChangeOrderID v) of Some c \<Rightarrow> cho_Deadline c | None \<Rightarrow> tkr_Deadline t)\<rparr>)))"

text \<open>\<open>loadVersionDetails\<close> adds what the other tables hold of a version.\<close>

definition version_details :: "delivery_db \<Rightarrow> formal_version \<Rightarrow> formal_version" where
  "version_details d v =
     (let key = (fvr_PackageID v, fvr_Number v) in
      v\<lparr>fvr_FeedbackResponses := (case gget (dd_responses d) key of None \<Rightarrow> []
          | Some rs \<Rightarrow> sort_func (key_cmp fbr_FeedbackItemID) rs),
        fvr_Changes := (case gget (dd_changes d) key of None \<Rightarrow> [] | Some cs \<Rightarrow> cs), fvr_Proof := gget (dd_proofs d) key\<rparr>)"

definition package_versions :: "string \<Rightarrow> delivery_db \<Rightarrow> formal_version list" where
  "package_versions packageID d = map (version_details d) (sort_func (\<lambda>v w. fvr_Number v - fvr_Number w)
     (filter (\<lambda>v. fvr_PackageID v = packageID) (gvals (dd_versions d))))"

definition load_feedback :: "string \<Rightarrow> delivery_db \<Rightarrow> feedback_set list" where
  "load_feedback packageID d = sort_func (\<lambda>f g. fbs_PackageAggregateVersion f - fbs_PackageAggregateVersion g)
     (filter (\<lambda>f. fbs_PackageID f = packageID) (gvals (dd_feedback d)))"

end
