(* ===== verification/Delivery_Change.thy ===== *)
theory Delivery_Change
  imports Delivery_Store
begin

text \<open>
  Change orders (\<open>internal/delivery/postgres/change_order.go\<close>): a version beyond the included ones is proposed by the
  publisher, an administrator decides who pays, the publisher accepts, the account is funded, and the activation
  freezes the account and a new scope.
\<close>

record store_config =
  scf_Asset :: string
  scf_PlatformIncidentID :: string

section \<open>Requests\<close>

text \<open>\<open>replayChange\<close>: \<open>None\<close> is no stored request.\<close>

definition replay_change :: "delivery_mutation \<Rightarrow> string \<Rightarrow> delivery_db \<Rightarrow> (delivery_error + change_order) option" where
  "replay_change m operation d =
     (case gget (dd_changeRequests d) (dmu_PublisherID m, dmu_IdempotencyKey m) of
        None \<Rightarrow> None
      | Some (h, op, c) \<Rightarrow> Some (if h \<noteq> dmu_RequestHash m \<or> op \<noteq> operation then Inl DlErrIdempotencyConflict else Inr c))"

definition store_change_request :: "delivery_mutation \<Rightarrow> string \<Rightarrow> change_order \<Rightarrow> delivery_db \<Rightarrow> delivery_db" where
  "store_change_request m operation c d =
     d\<lparr>dd_changeRequests := gput (dmu_PublisherID m, dmu_IdempotencyKey m) (dmu_RequestHash m, operation, c) (dd_changeRequests d)\<rparr>"

definition change_once :: "delivery_mutation \<Rightarrow> string \<Rightarrow> change_order delivery_tx \<Rightarrow> (change_order \<times> bool) delivery_tx" where
  "change_once m operation f d =
     (case replay_change m operation d of
        Some (Inl e) \<Rightarrow> Inl e
      | Some (Inr c) \<Rightarrow> Inr ((c, True), d)
      | None \<Rightarrow> rbind (f d) (\<lambda>(c, d'). Inr ((c, False), store_change_request m operation c d')))"

definition put_change_order :: "change_order \<Rightarrow> delivery_db \<Rightarrow> delivery_db" where
  "put_change_order c d = d\<lparr>dd_changeOrders := gput (cho_ID c) c (dd_changeOrders d)\<rparr>"

definition insert_change_order :: "change_order \<Rightarrow> delivery_db \<Rightarrow> sql_error + delivery_db" where
  "insert_change_order c d =
     (if gget (dd_changeOrders d) (cho_ID c) \<noteq> None \<or>
         list_ex (\<lambda>x. cho_FeedbackSetID x = cho_FeedbackSetID c \<or> cho_PackageID x = cho_PackageID c \<and>
           (cho_TargetVersion x = cho_TargetVersion c \<or> cho_PackageAggregateVersion x = cho_PackageAggregateVersion c)) (gvals (dd_changeOrders d))
      then Inl UniqueViolation else Inr (put_change_order c d))"

section \<open>ProposeChangeOrder\<close>

definition feedback_named :: "propose_input \<Rightarrow> formal_package \<Rightarrow> delivery_db \<Rightarrow> bool" where
  "feedback_named q p d =
     (case gget (dd_feedback d) (prq_FeedbackSetID q) of
        None \<Rightarrow> False
      | Some f \<Rightarrow> fbs_PackageID f = fpk_ID p \<and> fbs_ParentVersion f = prq_TriggerVersion q \<and> fbs_ParentContentHash f = prq_TriggerContentHash q \<and>
          fbs_Digest f = prq_FeedbackDigest q)"

text \<open>The update of the task has no condition on its status: the row was locked and read before.\<close>

definition set_task :: "gotime \<Rightarrow> string \<Rightarrow> string \<Rightarrow> delivery_db \<Rightarrow> delivery_db" where
  "set_task now taskID target d =
     (case gget (dd_tasks d) taskID of
        None \<Rightarrow> d
      | Some t \<Rightarrow> d\<lparr>dd_tasks := gput taskID (t\<lparr>tkr_Status := target, tkr_AggregateVersion := tkr_AggregateVersion t + 1, tkr_UpdatedAt := now\<rparr>) (dd_tasks d)\<rparr>)"

definition propose_fresh :: "gotime \<Rightarrow> delivery_mutation \<Rightarrow> string \<Rightarrow> propose_input \<Rightarrow> change_order \<Rightarrow> change_order delivery_tx" where
  "propose_fresh now m taskID q draft d =
     rbind (from_option DlErrNotFound (package_of_task taskID (dmu_PublisherID m) d)) (\<lambda>p.
     if fpk_ID p \<noteq> prq_PackageID q \<or> fpk_AggregateVersion p \<noteq> prq_ExpectedPackageVersion q \<or> fpk_AllocatedVersion p \<noteq> prq_TriggerVersion q \<or>
        prq_TriggerVersion q < IncludedVersions \<or> prq_TriggerVersion q \<ge> MaximumVersions then Inl DlErrStaleVersion
     else rbind (from_option DlErrNoRows (gget (dd_versions d) (fpk_ID p, prq_TriggerVersion q))) (\<lambda>parent.
     if fvr_Status parent \<noteq> VersionReview \<or> fvr_ContentHash parent \<noteq> prq_TriggerContentHash q then Inl DlErrInvalidState
     else if \<not> feedback_named q p d then Inl DlErrContentConflict
     else rbind (task_status taskID d) (\<lambda>status.
     if status \<noteq> ''revision_requested'' \<and> status \<noteq> ''formal_review'' then Inl DlErrInvalidState
     else if \<not> prq_Deadline q > now then Inl DlErrInvalidInput
     else let c = draft\<lparr>cho_BaseScopeID := fvr_ScopeID parent, cho_BaseScopeHash := fvr_ScopeHash parent,
                cho_PackageAggregateVersion := fpk_AggregateVersion p + 1, cho_CreatedAt := now, cho_UpdatedAt := now\<rparr>
       in rbind (formal_conflict (insert_change_order c d)) (\<lambda>d1.
          Inr (c, insert_change_event (cho_ID c) ''proposed'' (dmu_PublisherID m) now
            (set_task now taskID ''change_order_pending'' (touch_package now p (cho_PackageAggregateVersion c) d1)))))))"

definition store_propose :: "gotime \<Rightarrow> delivery_mutation \<Rightarrow> string \<Rightarrow> propose_input \<Rightarrow> change_order \<Rightarrow> (change_order \<times> bool) delivery_tx" where
  "store_propose now m taskID q draft = change_once m ''propose'' (propose_fresh now m taskID q draft)"

section \<open>DecideChangeOrder\<close>

record responsibility_policy =
  rpo_FundingSource :: string
  rpo_FundAccountID :: string
  rpo_PrincipalOwnerID :: string
  rpo_ResidualRecipientID :: string
  rpo_AuthorizedPrice :: string

definition change_account_id :: "delivery_env \<Rightarrow> change_order \<Rightarrow> string" where
  "change_account_id E c = dl_digest E (''change-order-account:'' @ cho_ID c)"

definition decide_policy ::
    "delivery_env \<Rightarrow> store_config \<Rightarrow> change_order \<Rightarrow> decide_input \<Rightarrow> string \<Rightarrow> string \<Rightarrow> delivery_error + responsibility_policy" where
  "decide_policy E C c q publisherID providerID =
     (if deq_Responsibility q = ResponsibilityPublisher then
        (if deq_PublisherCompensationIrrevocable q \<or> scf_Asset C = [] then Inl DlErrInvalidInput
         else Inr \<lparr>rpo_FundingSource = FundingPublisher, rpo_FundAccountID = change_account_id E c, rpo_PrincipalOwnerID = publisherID,
           rpo_ResidualRecipientID = publisherID, rpo_AuthorizedPrice = cho_RequestedPrice c\<rparr>)
      else if deq_Responsibility q = ResponsibilityAgent then
        (if deq_PublisherCompensationIrrevocable q then Inl DlErrInvalidInput
         else Inr \<lparr>rpo_FundingSource = FundingAgentAbsorbed, rpo_FundAccountID = [], rpo_PrincipalOwnerID = providerID,
           rpo_ResidualRecipientID = providerID, rpo_AuthorizedPrice = ''0''\<rparr>)
      else if deq_Responsibility q = ResponsibilityPlatform then
        (if scf_Asset C = [] \<or> scf_PlatformIncidentID C = [] then Inl DlErrDependencyPending
         else Inr \<lparr>rpo_FundingSource = FundingPlatformIncident, rpo_FundAccountID = change_account_id E c,
           rpo_PrincipalOwnerID = scf_PlatformIncidentID C,
           rpo_ResidualRecipientID = (if deq_PublisherCompensationIrrevocable q then publisherID else scf_PlatformIncidentID C),
           rpo_AuthorizedPrice = cho_RequestedPrice c\<rparr>)
      else Inl DlErrInvalidInput)"

definition change_account :: "store_config \<Rightarrow> gotime \<Rightarrow> string \<Rightarrow> change_order \<Rightarrow> responsibility_policy \<Rightarrow> account_row" where
  "change_account C now taskID c w =
     \<lparr>fa_ID = rpo_FundAccountID w, fa_Class = ''business'', fa_Type = ''change_order_escrow'', fa_TaskID = taskID, fa_Reference = cho_ID c,
      fa_Asset = scf_Asset C, fa_PrincipalOwnerID = rpo_PrincipalOwnerID w, fa_ResidualRecipientID = rpo_ResidualRecipientID w,
      fa_RefundPolicyVersion = ''change-order-responsibility-v1'', fa_State = ''open'', fa_Balance = 0, fa_CreatedAt = now, fa_UpdatedAt = now\<rparr>"

definition open_change_account :: "store_config \<Rightarrow> gotime \<Rightarrow> string \<Rightarrow> change_order \<Rightarrow> responsibility_policy \<Rightarrow> delivery_db \<Rightarrow> delivery_error + delivery_db" where
  "open_change_account C now taskID c w d =
     (if rpo_FundAccountID w = [] then Inr d
      else rbind (formal_conflict (insert_account (change_account C now taskID c w) (dd_ledger d))) (\<lambda>L. Inr (d\<lparr>dd_ledger := L\<rparr>)))"

definition decided_order :: "gotime \<Rightarrow> decide_input \<Rightarrow> responsibility_policy \<Rightarrow> int \<Rightarrow> change_order \<Rightarrow> change_order" where
  "decided_order now q w packageAggregate c =
     c\<lparr>cho_Responsibility := deq_Responsibility q, cho_ResponsibilityReasonCode := deq_ReasonCode q, cho_FundingSource := rpo_FundingSource w,
       cho_FundAccountID := rpo_FundAccountID w, cho_PrincipalOwnerID := rpo_PrincipalOwnerID w, cho_ResidualRecipientID := rpo_ResidualRecipientID w,
       cho_PublisherCompensationIrrevocable := deq_PublisherCompensationIrrevocable q, cho_AuthorizedPrice := rpo_AuthorizedPrice w,
       cho_AggregateVersion := deq_ExpectedVersion q + 1, cho_PackageAggregateVersion := packageAggregate + 1,
       cho_Status := ChangeAwaitingAcceptance, cho_UpdatedAt := now\<rparr>"

definition change_order_of :: "string \<Rightarrow> string \<Rightarrow> delivery_db \<Rightarrow> change_order option" where
  "change_order_of i taskID d = (case gget (dd_changeOrders d) i of None \<Rightarrow> None | Some c \<Rightarrow> if cho_TaskID c = taskID then Some c else None)"

definition decide_fresh ::
    "delivery_env \<Rightarrow> store_config \<Rightarrow> gotime \<Rightarrow> delivery_mutation \<Rightarrow> string \<Rightarrow> string \<Rightarrow> decide_input \<Rightarrow> change_order delivery_tx" where
  "decide_fresh E C now m taskID i q d =
     rbind (from_option DlErrNotFound (change_order_of i taskID d)) (\<lambda>c.
     if cho_Status c \<noteq> ChangeResponsibilityPending \<or> cho_AggregateVersion c \<noteq> deq_ExpectedVersion q then Inl DlErrStaleVersion
     else rbind (from_option DlErrNoRows (gget (dd_packages d) (cho_PackageID c))) (\<lambda>p.
     rbind (decide_policy E C c q (fpk_PublisherID p) (fpk_ProviderID p)) (\<lambda>w.
     if deq_Responsibility q = ResponsibilityPlatform \<and> scf_PlatformIncidentID C \<notin> set (dd_users d) then Inl DlErrDependencyPending
     else if \<not> cho_Deadline c > now then Inl DlErrInvalidState
     else rbind (open_change_account C now taskID c w d) (\<lambda>d1.
     let c' = decided_order now q w (fpk_AggregateVersion p) c in
     if \<not> code_column_ok (deq_ReasonCode q) then Inl (DlErrDatabase CheckViolation)
     else Inr (c', insert_change_event i ''responsibility_decided'' (dmu_PublisherID m) now
       (touch_package now p (cho_PackageAggregateVersion c') (put_change_order c' d1)))))))"

definition store_decide ::
    "delivery_env \<Rightarrow> store_config \<Rightarrow> gotime \<Rightarrow> delivery_mutation \<Rightarrow> bool \<Rightarrow> string \<Rightarrow> string \<Rightarrow> decide_input \<Rightarrow> (change_order \<times> bool) delivery_tx" where
  "store_decide E C now m isAdmin taskID i q d =
     (if \<not> isAdmin then Inl DlErrForbidden else change_once m ''decide'' (decide_fresh E C now m taskID i q) d)"

section \<open>AcceptChangeOrder and ActivateChangeOrder\<close>

definition accepted_order :: "gotime \<Rightarrow> int \<Rightarrow> change_order \<Rightarrow> change_order" where
  "accepted_order now packageAggregate c =
     c\<lparr>cho_Status := (if cho_FundAccountID c \<noteq> [] then ChangeAwaitingFunding else ChangeReady), cho_AcceptedAt := Some now,
       cho_AggregateVersion := cho_AggregateVersion c + 1, cho_PackageAggregateVersion := packageAggregate + 1, cho_UpdatedAt := now\<rparr>"

definition accept_write :: "gotime \<Rightarrow> delivery_mutation \<Rightarrow> formal_package \<Rightarrow> change_order \<Rightarrow> change_order delivery_tx" where
  "accept_write now m p c d =
     (if cho_Status c \<noteq> ChangeAwaitingAcceptance then Inl DlErrInvalidState
      else let c' = accepted_order now (fpk_AggregateVersion p) c
        in Inr (c', insert_change_event (cho_ID c) ''accepted'' (dmu_PublisherID m) now (put_change_order c' d)))"

text \<open>The escrow must hold the authorised price, and is frozen.\<close>

definition freeze_account :: "gotime \<Rightarrow> change_order \<Rightarrow> delivery_db \<Rightarrow> delivery_error + delivery_db" where
  "freeze_account now c d =
     (if cho_FundAccountID c = [] then Inr d
      else case gget (lg_accounts (dd_ledger d)) (cho_FundAccountID c) of
        None \<Rightarrow> Inl DlErrDependencyPending
      | Some a \<Rightarrow>
          if fa_State a \<noteq> ''open'' \<or> fa_Balance a < money_int (cho_AuthorizedPrice c) then Inl DlErrDependencyPending
          else Inr (d\<lparr>dd_ledger := (dd_ledger d)\<lparr>lg_accounts := gput (cho_FundAccountID c) (a\<lparr>fa_State := ''frozen'', fa_UpdatedAt := now\<rparr>)
                 (lg_accounts (dd_ledger d))\<rparr>\<rparr>))"

definition activated_scope :: "delivery_env \<Rightarrow> gotime \<Rightarrow> change_order \<Rightarrow> formal_scope \<Rightarrow> formal_scope" where
  "activated_scope E now c base =
     (let revision = fsc_Revision base + 1;
          contentHash = dl_digest E (''formal-change-scope:'' @ fsc_ContentHash base @ '':'' @ cho_NewSpecHash c @ '':'' @ cho_DifferenceDigest c @ '':'' @
            bigint_string revision)
      in base\<lparr>fsc_ID := dl_digest E (''formal-scope:'' @ cho_PackageID c @ '':'' @ contentHash), fsc_Revision := revision, fsc_ContentHash := contentHash,
           fsc_TaskSpecHash := cho_NewSpecHash c, fsc_ChangeOrderID := cho_ID c, fsc_Differences := cho_Differences c, fsc_CreatedAt := now\<rparr>)"

definition activate_scope :: "delivery_env \<Rightarrow> gotime \<Rightarrow> change_order \<Rightarrow> formal_scope delivery_tx" where
  "activate_scope E now c d =
     rbind (from_option DlErrNoRows (gget (dd_scopes d) (cho_BaseScopeID c))) (\<lambda>base.
     let scope = activated_scope E now c base in rbind (insert_scope scope d) (\<lambda>d1. Inr (scope, d1)))"

definition activated_order :: "gotime \<Rightarrow> int \<Rightarrow> formal_scope \<Rightarrow> change_order \<Rightarrow> change_order" where
  "activated_order now packageAggregate scope c =
     c\<lparr>cho_NewScopeID := fsc_ID scope, cho_NewScopeHash := fsc_ContentHash scope, cho_NewScopeRevision := fsc_Revision scope,
       cho_Status := ChangeEffective, cho_EffectiveAt := Some now, cho_UpdatedAt := now, cho_AggregateVersion := cho_AggregateVersion c + 1,
       cho_PackageAggregateVersion := packageAggregate + 1\<rparr>"

definition activate_write :: "delivery_env \<Rightarrow> gotime \<Rightarrow> delivery_mutation \<Rightarrow> string \<Rightarrow> formal_package \<Rightarrow> change_order \<Rightarrow> change_order delivery_tx" where
  "activate_write E now m taskID p c d =
     (if cho_Status c \<noteq> ChangeReady \<and> cho_Status c \<noteq> ChangeAwaitingFunding then Inl DlErrInvalidState
      else rbind (freeze_account now c d) (\<lambda>d1.
      if fpk_AllocatedVersion p + 1 \<noteq> cho_TargetVersion c then Inl DlErrStaleVersion
      else rbind (activate_scope E now c d1) (\<lambda>(scope, d2).
      let c' = activated_order now (fpk_AggregateVersion p) scope c in
      rbind (move_task now taskID [''change_order_pending''] ''revision_requested'' (put_change_order c' d2)) (\<lambda>d3.
      Inr (c', insert_change_event (cho_ID c) ''effective'' (dmu_PublisherID m) now d3)))))"

definition transition_fresh ::
    "delivery_env \<Rightarrow> gotime \<Rightarrow> delivery_mutation \<Rightarrow> bool \<Rightarrow> string \<Rightarrow> string \<Rightarrow> string \<Rightarrow> change_version_input \<Rightarrow> change_order delivery_tx" where
  "transition_fresh E now m isAdmin taskID i operation q d =
     rbind (from_option DlErrNotFound (change_order_of i taskID d)) (\<lambda>c.
     rbind (from_option DlErrNoRows (gget (dd_packages d) (cho_PackageID c))) (\<lambda>p.
     if \<not> isAdmin \<and> fpk_PublisherID p \<noteq> dmu_PublisherID m then Inl DlErrNotFound
     else if cho_AggregateVersion c \<noteq> cvq_ExpectedVersion q then Inl DlErrStaleVersion
     else if \<not> cho_Deadline c > now then Inl DlErrInvalidState
     else rbind (if operation = ''accept'' then accept_write now m p c d else activate_write E now m taskID p c d) (\<lambda>(c', d1).
     Inr (c', touch_package now p (cho_PackageAggregateVersion c') d1))))"

definition store_transition_change ::
    "delivery_env \<Rightarrow> gotime \<Rightarrow> delivery_mutation \<Rightarrow> bool \<Rightarrow> string \<Rightarrow> string \<Rightarrow> string \<Rightarrow> change_version_input \<Rightarrow> (change_order \<times> bool) delivery_tx" where
  "store_transition_change E now m isAdmin taskID i operation q =
     change_once m operation (transition_fresh E now m isAdmin taskID i operation q)"

definition load_change_orders :: "string \<Rightarrow> delivery_db \<Rightarrow> change_order list" where
  "load_change_orders packageID d = sort_func (\<lambda>x y. cho_TargetVersion x - cho_TargetVersion y)
     (filter (\<lambda>c. cho_PackageID c = packageID) (gvals (dd_changeOrders d)))"

end
