(* ===== verification/Delivery_Accept.thy ===== *)
theory Delivery_Accept
  imports Delivery_Change
begin

text \<open>
  Acceptance of a version (\<open>internal/delivery/postgres/acceptance.go\<close>): the publisher records an intent, names the
  transaction that releases the escrow, and reconciles it with the canonical chain; a change order is then paid from
  its account. The history of an intent is a list of states that only grows; its last state counts. The chain
  projection orphans a confirmed intent whose block is rewound (\<open>internal/chain/postgres/settlement.go\<close>).
\<close>

section \<open>Requests and states\<close>

definition replay_acceptance :: "delivery_mutation \<Rightarrow> string \<Rightarrow> delivery_db \<Rightarrow> (delivery_error + acceptance_intent) option" where
  "replay_acceptance m operation d =
     (case gget (dd_acceptanceRequests d) (dmu_PublisherID m, dmu_IdempotencyKey m) of
        None \<Rightarrow> None
      | Some (h, op, a) \<Rightarrow> Some (if h \<noteq> dmu_RequestHash m \<or> op \<noteq> operation then Inl DlErrIdempotencyConflict else Inr a))"

definition store_acceptance_request :: "delivery_mutation \<Rightarrow> string \<Rightarrow> acceptance_intent \<Rightarrow> delivery_db \<Rightarrow> delivery_db" where
  "store_acceptance_request m operation a d =
     d\<lparr>dd_acceptanceRequests := gput (dmu_PublisherID m, dmu_IdempotencyKey m) (dmu_RequestHash m, operation, a) (dd_acceptanceRequests d)\<rparr>"

definition acceptance_once :: "delivery_mutation \<Rightarrow> string \<Rightarrow> acceptance_intent delivery_tx \<Rightarrow> (acceptance_intent \<times> bool) delivery_tx" where
  "acceptance_once m operation f d =
     (case replay_acceptance m operation d of
        Some (Inl e) \<Rightarrow> Inl e
      | Some (Inr a) \<Rightarrow> Inr ((a, True), d)
      | None \<Rightarrow> rbind (f d) (\<lambda>(a, d'). Inr ((a, False), store_acceptance_request m operation a d')))"

text \<open>The keys of \<open>formal_acceptance_states\<close>: one row per version, one pending row per transaction, one confirmed row per event.\<close>

definition append_acceptance_state :: "acceptance_intent \<Rightarrow> string \<Rightarrow> string \<Rightarrow> string \<Rightarrow> gotime \<Rightarrow> delivery_db \<Rightarrow> sql_error + delivery_db" where
  "append_acceptance_state a state tx eventID now d =
     (if list_ex (\<lambda>s. acs_IntentID s = aci_ID a \<and> acs_AggregateVersion s = aci_AggregateVersion a \<or>
           state = AcceptancePending \<and> acs_State s = AcceptancePending \<and> acs_TransactionHash s = tx \<or>
           state = AcceptanceConfirmed \<and> acs_State s = AcceptanceConfirmed \<and> acs_ChainEventID s = eventID) (dd_states d)
      then Inl UniqueViolation
      else Inr (d\<lparr>dd_states := dd_states d @
        [\<lparr>acs_IntentID = aci_ID a, acs_AggregateVersion = aci_AggregateVersion a, acs_State = state, acs_TransactionHash = tx,
          acs_ChainEventID = eventID, acs_OccurredAt = now\<rparr>]\<rparr>))"

definition latest_state :: "string \<Rightarrow> delivery_db \<Rightarrow> acceptance_state option" where
  "latest_state i d =
     foldl (\<lambda>b s. case b of None \<Rightarrow> Some s | Some x \<Rightarrow> if acs_AggregateVersion s > acs_AggregateVersion x then Some s else b)
       None (filter (\<lambda>s. acs_IntentID s = i) (dd_states d))"

definition reservation_of :: "string \<Rightarrow> delivery_db \<Rightarrow> binding_row option" where
  "reservation_of packageID d =
     (case gget (dd_packages d) packageID of None \<Rightarrow> None | Some p \<Rightarrow> gget (dd_bindings d) (fpk_AssignmentID p))"

text \<open>\<open>loadAcceptance\<close> joins the intent with its last state and the reservation.\<close>

definition load_acceptance :: "string \<Rightarrow> string \<Rightarrow> string \<Rightarrow> delivery_db \<Rightarrow> acceptance_intent option" where
  "load_acceptance i taskID publisherID d =
     (case gget (dd_intents d) i of
        None \<Rightarrow> None
      | Some a \<Rightarrow>
          if aci_TaskID a \<noteq> taskID \<or> map_option fpk_PublisherID (gget (dd_packages d) (aci_PackageID a)) \<noteq> Some publisherID then None
          else (case (latest_state i d, reservation_of (aci_PackageID a) d) of
            (Some s, Some b) \<Rightarrow>
              Some (a\<lparr>aci_AggregateVersion := acs_AggregateVersion s, aci_State := acs_State s, aci_TransactionHash := acs_TransactionHash s,
                aci_ChainEventID := acs_ChainEventID s, aci_ChainID := bnd_ChainID b, aci_ContractAddress := bnd_ContractAddress b,
                aci_PublisherWallet := bnd_PublisherWallet b, aci_ChainTaskID := bnd_ProofTaskID b, aci_UpdatedAt := acs_OccurredAt s\<rparr>)
          | _ \<Rightarrow> None))"

section \<open>Eligibility\<close>

definition latest_nonce :: "string \<Rightarrow> delivery_db \<Rightarrow> work_nonce" where
  "latest_nonce packageID d =
     (case (gget (dd_packages d) packageID, reservation_of packageID d) of
        (Some p, Some b) \<Rightarrow>
          foldr (\<lambda>e m. if cer_ChainID e = bnd_ChainID b \<and> cer_ContractAddress e = bnd_ContractAddress b \<and>
                cer_Type e \<in> set [''selection_confirmed'', ''work_nonce_advanced''] \<and> cer_TaskID e = bnd_ProofTaskID b \<and>
                cer_AssignmentID e = fpk_AssignmentID p then max (cer_WorkNonce e) m else m) (dd_events d) 0
      | _ \<Rightarrow> 0)"

definition change_order_ready :: "string \<Rightarrow> int \<Rightarrow> delivery_db \<Rightarrow> bool" where
  "change_order_ready packageID n d =
     (if n \<le> IncludedVersions then True
      else case gget (dd_versions d) (packageID, n) of
        None \<Rightarrow> False
      | Some v \<Rightarrow>
          (case gget (dd_changeOrders d) (fvr_ChangeOrderID v) of
             None \<Rightarrow> False
           | Some c \<Rightarrow> cho_Status c = ChangeConsumed \<and> cho_TargetVersion c = fvr_Number v \<and>
               (cho_Responsibility c = ResponsibilityAgent \<or>
                (case gget (lg_accounts (dd_ledger d)) (cho_FundAccountID c) of
                   None \<Rightarrow> False
                 | Some a \<Rightarrow> fa_State a = ''frozen'' \<and> fa_Balance a \<ge> money_int (cho_AuthorizedPrice c)))))"

definition acceptance_snapshot :: "acceptance_intent \<Rightarrow> formal_package \<Rightarrow> formal_version \<Rightarrow> proof_record \<Rightarrow> delivery_db \<Rightarrow> settlement_snapshot" where
  "acceptance_snapshot a p v r d =
     \<lparr>sts_IntentPackageAggregate = aci_PackageAggregateVersion a, sts_CurrentPackageAggregate = fpk_AggregateVersion p,
      sts_IntentFormalVersion = aci_FormalVersion a, sts_CurrentFormalVersion = fpk_AllocatedVersion p, sts_VersionStatus = fvr_Status v,
      sts_IntentContentHash = aci_ContentHash a, sts_CurrentContentHash = fvr_ContentHash v,
      sts_IntentProofDigest = aci_ProofDigest a, sts_CurrentProofDigest = pr_Digest r,
      sts_IntentWorkNonce = aci_WorkNonce a, sts_VersionWorkNonce = fvr_WorkNonce v, sts_CanonicalWorkNonce = latest_nonce (fpk_ID p) d,
      sts_ChangeOrderReady = change_order_ready (fpk_ID p) (aci_FormalVersion a) d\<rparr>"

definition acceptance_eligibility :: "acceptance_intent \<Rightarrow> delivery_db \<Rightarrow> delivery_error + string" where
  "acceptance_eligibility a d =
     (case (gget (dd_packages d) (aci_PackageID a), gget (dd_versions d) (aci_PackageID a, aci_FormalVersion a),
            gget (dd_proofs d) (aci_PackageID a, aci_FormalVersion a)) of
        (Some p, Some v, Some r) \<Rightarrow>
          let reason = sty_ReasonCode (settlement_gate (acceptance_snapshot a p v r d)) in
          if reason = ''chain_projection_pending'' then Inl DlErrDependencyPending else Inr reason
      | _ \<Rightarrow> Inr ''proof_missing'')"

definition require_eligible :: "acceptance_intent \<Rightarrow> delivery_db \<Rightarrow> delivery_error + unit" where
  "require_eligible a d = rbind (acceptance_eligibility a d) (\<lambda>reason. if reason \<noteq> [] then Inl DlErrStaleVersion else Inr ())"

section \<open>CreateAcceptanceIntent\<close>

definition insert_intent :: "acceptance_intent \<Rightarrow> delivery_db \<Rightarrow> sql_error + delivery_db" where
  "insert_intent a d =
     (if gget (dd_intents d) (aci_ID a) \<noteq> None \<or>
         list_ex (\<lambda>x. aci_PackageID x = aci_PackageID a \<and> aci_FormalVersion x = aci_FormalVersion a \<and> aci_ProofDigest x = aci_ProofDigest a) (gvals (dd_intents d))
      then Inl UniqueViolation else Inr (d\<lparr>dd_intents := gput (aci_ID a) a (dd_intents d)\<rparr>))"

definition bound_intent :: "gotime \<Rightarrow> binding_row \<Rightarrow> acceptance_intent \<Rightarrow> acceptance_intent" where
  "bound_intent now b a = a\<lparr>aci_ChainID := bnd_ChainID b, aci_ContractAddress := bnd_ContractAddress b, aci_PublisherWallet := bnd_PublisherWallet b,
     aci_ChainTaskID := bnd_ProofTaskID b, aci_CreatedAt := now, aci_UpdatedAt := now\<rparr>"

definition intent_fresh :: "gotime \<Rightarrow> delivery_mutation \<Rightarrow> string \<Rightarrow> acceptance_input \<Rightarrow> acceptance_intent \<Rightarrow> acceptance_intent delivery_tx" where
  "intent_fresh now m taskID q draft d =
     (case (gget (dd_packages d) (aq_PackageID q), reservation_of (aq_PackageID q) d) of
        (Some p, Some b) \<Rightarrow>
          if fpk_TaskID p \<noteq> taskID \<or> fpk_PublisherID p \<noteq> dmu_PublisherID m then Inl DlErrNotFound
          else if fpk_AggregateVersion p \<noteq> aq_ExpectedPackageVersion q \<or> fpk_AllocatedVersion p \<noteq> aq_FormalVersion q then Inl DlErrStaleVersion
          else rbind (require_eligible draft d) (\<lambda>_.
            let a = bound_intent now b draft in
            rbind (formal_conflict (insert_intent a d)) (\<lambda>d1.
            rbind (sql_lift (append_acceptance_state a AcceptanceIntentRecorded [] [] now d1)) (\<lambda>d2. Inr (a, d2))))
      | _ \<Rightarrow> Inl DlErrNotFound)"

definition store_create_intent ::
    "gotime \<Rightarrow> delivery_mutation \<Rightarrow> string \<Rightarrow> acceptance_input \<Rightarrow> acceptance_intent \<Rightarrow> (acceptance_intent \<times> bool) delivery_tx" where
  "store_create_intent now m taskID q draft = acceptance_once m ''create'' (intent_fresh now m taskID q draft)"

section \<open>Payment of a change order\<close>

text \<open>The event that releases the escrow: the payable amount to the payout address of the reservation.\<close>

definition release_event :: "acceptance_intent \<Rightarrow> delivery_db \<Rightarrow> string option" where
  "release_event a d =
     (case reservation_of (aci_PackageID a) d of
        None \<Rightarrow> None
      | Some b \<Rightarrow> map_option cer_ID (find (\<lambda>e. cer_ChainID e = bnd_ChainID b \<and> cer_ContractAddress e = bnd_ContractAddress b \<and>
          cer_TransactionHash e = aci_TransactionHash a \<and> cer_Type e = ''funds_released'' \<and> cer_TaskID e = bnd_ProofTaskID b \<and>
          cer_Recipient e = bnd_PayoutAddress b \<and> cer_Amount e = bnd_FormalPayable b) (dd_events d)))"

text \<open>The strings of the identifiers are joined by NUL.\<close>

fun nul_joined :: "string list \<Rightarrow> string" where
  "nul_joined [] = []"
| "nul_joined [s] = s"
| "nul_joined (s # ss) = s @ [CHR 0x00] @ nul_joined ss"

definition system_account_id :: "delivery_env \<Rightarrow> string list \<Rightarrow> string" where
  "system_account_id E parts = dl_digest E (nul_joined (''fund-system-account'' # parts @ [''double-entry-v1'']))"

text \<open>\<open>INSERT .. ON CONFLICT DO NOTHING\<close>, then the identifier of the row with this reference.\<close>

definition resolve_account :: "string \<Rightarrow> string \<Rightarrow> string \<Rightarrow> string \<Rightarrow> gotime \<Rightarrow> sql_ledger \<Rightarrow> delivery_error + string \<times> sql_ledger" where
  "resolve_account i accountType reference asset now L =
     rbind (sql_lift (ensure_account (system_account i accountType reference asset now) L)) (\<lambda>L1.
     rbind (from_option DlErrNoRows (account_of_reference accountType reference asset L1)) (\<lambda>a. Inr (fa_ID a, L1)))"

definition change_journal :: "string \<Rightarrow> string \<Rightarrow> string \<Rightarrow> string \<Rightarrow> string \<Rightarrow> gotime \<Rightarrow> journal_row" where
  "change_journal i journalType taskID sourceRef reason now =
     \<lparr>fj_ID = i, fj_IdempotencyKey = ''acceptance:'' @ i, fj_Type = journalType, fj_TaskID = taskID, fj_ReversalOf = [], fj_SourceRef = sourceRef,
      fj_ReasonCode = reason, fj_CreatedAt = now\<rparr>"

definition transfer_entries :: "string \<Rightarrow> string \<Rightarrow> string \<Rightarrow> string \<Rightarrow> int \<Rightarrow> string \<Rightarrow> gotime \<Rightarrow> entry_row list" where
  "transfer_entries j source target targetType amount asset now =
     [\<lparr>fe_JournalID = j, fe_Index = 1, fe_AccountID = source, fe_AccountType = ''change_order_escrow'', fe_Direction = ''debit'', fe_Amount = amount,
       fe_Asset = asset, fe_CreatedAt = now\<rparr>,
      \<lparr>fe_JournalID = j, fe_Index = 2, fe_AccountID = target, fe_AccountType = targetType, fe_Direction = ''credit'', fe_Amount = amount,
       fe_Asset = asset, fe_CreatedAt = now\<rparr>]"

text \<open>What is left on the account goes back to the funding control account.\<close>

definition return_residual ::
    "delivery_env \<Rightarrow> gotime \<Rightarrow> acceptance_intent \<Rightarrow> change_order \<Rightarrow> string \<Rightarrow> string \<Rightarrow> int \<Rightarrow> sql_ledger \<Rightarrow> delivery_error + string \<times> sql_ledger" where
  "return_residual E now a c eventID asset residual L =
     (if residual = 0 then Inr ([], L)
      else rbind (resolve_account (system_account_id E [''funding_control'', asset]) ''funding_control'' ''funding'' asset now L) (\<lambda>(control, L1).
        let j = dl_digest E (''formal-change-order-residual:'' @ eventID @ '':'' @ cho_ID c) in
        rbind (sql_lift (insert_journal (change_journal j ''change_order_residual'' (aci_TaskID a) eventID ''change_order_residual_return'' now) L1)) (\<lambda>(fresh, L2).
        if \<not> fresh then Inl (DlErrDatabase UniqueViolation)
        else rbind (sql_lift (insert_entries (transfer_entries j (cho_FundAccountID c) control ''funding_control'' residual asset now) L2)) (\<lambda>L3. Inr (j, L3)))))"

definition settle_change_order ::
    "delivery_env \<Rightarrow> gotime \<Rightarrow> acceptance_intent \<Rightarrow> change_order \<Rightarrow> binding_row \<Rightarrow> string \<Rightarrow> delivery_db \<Rightarrow> delivery_error + delivery_db" where
  "settle_change_order E now a c b eventID d =
     (let amount = money_int (cho_AuthorizedPrice c);
          account = gget (lg_accounts (dd_ledger d)) (cho_FundAccountID c);
          balance = (case account of None \<Rightarrow> 0 | Some x \<Rightarrow> fa_Balance x);
          asset = (case account of None \<Rightarrow> [] | Some x \<Rightarrow> fa_Asset x);
          reference = bnd_AgentController b @ '':'' @ bnd_PayoutAddress b;
          j = dl_digest E (''formal-change-order-release:'' @ eventID @ '':'' @ cho_ID c)
      in rbind (resolve_account (system_account_id E [''formal_agent_receivable'', reference, asset]) ''formal_agent_receivable'' reference asset now
                 (dd_ledger d)) (\<lambda>(receivable, L1).
         rbind (sql_lift (insert_journal (change_journal j ''change_order_release'' (aci_TaskID a) eventID ''formal_change_order_accepted'' now) L1)) (\<lambda>(fresh, L2).
         if \<not> fresh then Inr (d\<lparr>dd_ledger := L2\<rparr>)
         else rbind (sql_lift (insert_entries (transfer_entries j (cho_FundAccountID c) receivable ''formal_agent_receivable'' amount asset now) L2)) (\<lambda>L3.
         if balance < amount then Inl DlErrInvalidState
         else rbind (return_residual E now a c eventID asset (balance - amount) L3) (\<lambda>(residualJournal, L4).
         if list_ex (\<lambda>s. stl_ChainEventID s = eventID \<or> stl_JournalID s = j) (dd_settlements d) then Inl (DlErrDatabase UniqueViolation)
         else Inr (d\<lparr>dd_ledger := L4, dd_settlements := dd_settlements d @
           [\<lparr>stl_ChangeOrderID = cho_ID c, stl_IntentID = aci_ID a, stl_ChainEventID = eventID, stl_JournalID = j, stl_ResidualJournalID = residualJournal,
             stl_Amount = amount, stl_ResidualAmount = balance - amount, stl_ResidualRecipientID = cho_ResidualRecipientID c\<rparr>]\<rparr>))))))"

definition settle_acceptance :: "delivery_env \<Rightarrow> gotime \<Rightarrow> acceptance_intent \<Rightarrow> string \<Rightarrow> delivery_db \<Rightarrow> delivery_error + delivery_db" where
  "settle_acceptance E now a eventID d =
     (case (gget (dd_versions d) (aci_PackageID a, aci_FormalVersion a), reservation_of (aci_PackageID a) d) of
        (Some v, Some b) \<Rightarrow>
          (case gget (dd_changeOrders d) (fvr_ChangeOrderID v) of
             None \<Rightarrow> Inr d
           | Some c \<Rightarrow> if cho_AuthorizedPrice c = ''0'' then Inr d else settle_change_order E now a c b eventID d)
      | _ \<Rightarrow> Inr d)"

section \<open>SubmitAcceptance and ReconcileAcceptance\<close>

definition submit_acceptance :: "gotime \<Rightarrow> acceptance_intent \<Rightarrow> transition_input \<Rightarrow> acceptance_intent delivery_tx" where
  "submit_acceptance now a q d =
     (if aci_State a \<noteq> AcceptanceIntentRecorded \<and> aci_State a \<noteq> AcceptanceOrphaned then Inl DlErrInvalidState
      else rbind (require_eligible a d) (\<lambda>_.
        let a' = a\<lparr>aci_AggregateVersion := aci_AggregateVersion a + 1, aci_State := AcceptancePending, aci_TransactionHash := tq_TransactionHash q,
                   aci_UpdatedAt := now\<rparr>
        in rbind (formal_conflict (append_acceptance_state a' AcceptancePending (tq_TransactionHash q) [] now d)) (\<lambda>d1. Inr (a', d1))))"

definition reconcile_acceptance :: "delivery_env \<Rightarrow> gotime \<Rightarrow> acceptance_intent \<Rightarrow> acceptance_intent delivery_tx" where
  "reconcile_acceptance E now a d =
     (if aci_State a \<noteq> AcceptancePending then Inl DlErrInvalidState
      else rbind (require_eligible a d) (\<lambda>_.
        rbind (from_option DlErrDependencyPending (release_event a d)) (\<lambda>eventID.
        let a' = a\<lparr>aci_AggregateVersion := aci_AggregateVersion a + 1, aci_State := AcceptanceConfirmed, aci_ChainEventID := eventID, aci_UpdatedAt := now\<rparr>
        in rbind (formal_conflict (append_acceptance_state a' AcceptanceConfirmed (aci_TransactionHash a) eventID now d)) (\<lambda>d1.
           rbind (settle_acceptance E now a' eventID d1) (\<lambda>d2. Inr (a', d2))))))"

definition acceptance_fresh ::
    "delivery_env \<Rightarrow> gotime \<Rightarrow> delivery_mutation \<Rightarrow> string \<Rightarrow> string \<Rightarrow> transition_input \<Rightarrow> bool \<Rightarrow> acceptance_intent delivery_tx" where
  "acceptance_fresh E now m taskID i q reconcile d =
     rbind (from_option DlErrNotFound (load_acceptance i taskID (dmu_PublisherID m) d)) (\<lambda>a.
     if aci_AggregateVersion a \<noteq> tq_ExpectedVersion q then Inl DlErrStaleVersion
     else rbind (if reconcile then reconcile_acceptance E now a d else submit_acceptance now a q d) (\<lambda>(a', d').
       Inr (a'\<lparr>aci_Eligibility := \<lparr>sty_Eligible = True, sty_ReasonCode = []\<rparr>\<rparr>, d')))"

definition store_transition_acceptance ::
    "delivery_env \<Rightarrow> gotime \<Rightarrow> delivery_mutation \<Rightarrow> string \<Rightarrow> string \<Rightarrow> transition_input \<Rightarrow> bool \<Rightarrow> (acceptance_intent \<times> bool) delivery_tx" where
  "store_transition_acceptance E now m taskID i q reconcile =
     acceptance_once m (if reconcile then ''reconcile'' else ''submit'') (acceptance_fresh E now m taskID i q reconcile)"

section \<open>Reorganisation of the chain\<close>

text \<open>The end of \<open>reverseSettlementBlock\<close>: an intent confirmed by an event of the block becomes orphaned.\<close>

definition orphan_state :: "gotime \<Rightarrow> string list \<Rightarrow> delivery_db \<Rightarrow> string \<Rightarrow> acceptance_state list" where
  "orphan_state now events d i =
     (case latest_state i d of
        None \<Rightarrow> []
      | Some s \<Rightarrow>
          if acs_State s = AcceptanceConfirmed \<and> acs_ChainEventID s \<in> set events
          then [s\<lparr>acs_AggregateVersion := acs_AggregateVersion s + 1, acs_State := AcceptanceOrphaned, acs_OccurredAt := now\<rparr>] else [])"

definition orphan_acceptances :: "gotime \<Rightarrow> string list \<Rightarrow> delivery_db \<Rightarrow> delivery_db" where
  "orphan_acceptances now events d = d\<lparr>dd_states := dd_states d @ concat (map (orphan_state now events d) (map fst (dd_intents d)))\<rparr>"

section \<open>The view of a task\<close>

record chain_binding =
  chb_ChainID :: string
  chb_ContractAddress :: string
  chb_PublisherWallet :: string
  chb_TaskID :: string
  chb_AssignmentID :: string
  chb_WorkNonce :: work_nonce

record delivery_view =
  dvw_Package :: formal_package
  dvw_Scope :: formal_scope
  dvw_Versions :: "formal_version list"
  dvw_Feedback :: "feedback_set list"
  dvw_ChangeOrders :: "change_order list"
  dvw_Acceptances :: "acceptance_intent list"
  dvw_Chain :: chain_binding

definition load_chain_binding :: "formal_package \<Rightarrow> delivery_db \<Rightarrow> delivery_error + chain_binding" where
  "load_chain_binding p d =
     rbind (from_option DlErrNoRows (reservation_of (fpk_ID p) d)) (\<lambda>b.
     Inr \<lparr>chb_ChainID = bnd_ChainID b, chb_ContractAddress = bnd_ContractAddress b, chb_PublisherWallet = bnd_PublisherWallet b,
       chb_TaskID = bnd_ProofTaskID b, chb_AssignmentID = fpk_AssignmentID p, chb_WorkNonce = latest_nonce (fpk_ID p) d\<rparr>)"

definition shown_eligibility :: "delivery_error + string \<Rightarrow> delivery_error + settlement_eligibility" where
  "shown_eligibility x =
     (case x of
        Inr reason \<Rightarrow> Inr \<lparr>sty_Eligible = (reason = []), sty_ReasonCode = reason\<rparr>
      | Inl e \<Rightarrow> if e = DlErrDependencyPending then Inr \<lparr>sty_Eligible = False, sty_ReasonCode = ''chain_projection_pending''\<rparr> else Inl e)"

fun load_acceptances :: "acceptance_intent list \<Rightarrow> delivery_db \<Rightarrow> delivery_error + acceptance_intent list" where
  "load_acceptances [] d = Inr []"
| "load_acceptances (a # as) d =
     rbind (shown_eligibility (acceptance_eligibility a d)) (\<lambda>x.
     rbind (load_acceptances as d) (\<lambda>rest. Inr (a\<lparr>aci_Eligibility := x\<rparr> # rest)))"

definition package_acceptances :: "formal_package \<Rightarrow> delivery_db \<Rightarrow> acceptance_intent list" where
  "package_acceptances p d =
     sort_func (\<lambda>x y. aci_CreatedAt x - aci_CreatedAt y)
       (concat (map (\<lambda>x. case load_acceptance (aci_ID x) (aci_TaskID x) (fpk_PublisherID p) d of None \<Rightarrow> [] | Some a \<Rightarrow> [a])
         (filter (\<lambda>x. aci_PackageID x = fpk_ID p) (gvals (dd_intents d)))))"

definition store_get :: "string \<Rightarrow> string \<Rightarrow> delivery_db \<Rightarrow> delivery_error + delivery_view" where
  "store_get publisherID taskID d =
     rbind (from_option DlErrNotFound (package_of_task taskID publisherID d)) (\<lambda>p.
     rbind (from_option DlErrNoRows (gget (dd_scopes d) (fpk_ScopeID p))) (\<lambda>scope.
     rbind (load_acceptances (package_acceptances p d) d) (\<lambda>acceptances.
     rbind (load_chain_binding p d) (\<lambda>chain.
     Inr \<lparr>dvw_Package = p, dvw_Scope = scope, dvw_Versions = package_versions (fpk_ID p) d, dvw_Feedback = load_feedback (fpk_ID p) d,
       dvw_ChangeOrders = load_change_orders (fpk_ID p) d, dvw_Acceptances = acceptances, dvw_Chain = chain\<rparr>))))"

end
