(* ===== verification/Delivery_Service.thy ===== *)
theory Delivery_Service
  imports Delivery_Accept Identity
begin

text \<open>
  The delivery service (\<open>internal/delivery/service.go\<close>) on its store, and the signer of the delivery proofs
  (\<open>internal/delivery/proof.go\<close>). The authoriser of revisions is the store, as the program wires it. Every operation
  checks the caller and the input, hashes the request, and runs one transaction.
\<close>

type_synonym 'a delivery_run = "delivery_db \<Rightarrow> delivery_db \<times> (delivery_error + 'a)"

definition refuse :: "delivery_error \<Rightarrow> 'a delivery_run" where
  "refuse e d = (d, Inl e)"

definition is_publisher :: "session \<Rightarrow> bool" where
  "is_publisher s \<longleftrightarrow> \<not> (se_UserID s = [] \<or> ''publisher'' \<notin> set (se_Roles s))"

definition is_admin :: "session \<Rightarrow> bool" where
  "is_admin s \<longleftrightarrow> ''admin'' \<in> set (se_Roles s) \<or> ''arbitrator'' \<in> set (se_Roles s)"

definition mutation_of :: "delivery_env \<Rightarrow> session \<Rightarrow> string \<Rightarrow> delivery_doc \<Rightarrow> delivery_mutation" where
  "mutation_of E s key request = \<lparr>dmu_PublisherID = se_UserID s, dmu_IdempotencyKey = key, dmu_RequestHash = dl_hash E request\<rparr>"

abbreviation MaxNonce :: work_nonce where "MaxNonce \<equiv> 9223372036854775807"

definition nonce_in_range :: "work_nonce \<Rightarrow> bool" where
  "nonce_in_range n \<longleftrightarrow> \<not> (n < 1 \<or> n > MaxNonce)"

section \<open>Versions and feedback\<close>

definition dl_start :: "delivery_env \<Rightarrow> gotime \<Rightarrow> session \<Rightarrow> string \<Rightarrow> string \<Rightarrow> start_input \<Rightarrow> (start_result \<times> bool) delivery_run" where
  "dl_start E now s key taskID q d =
     (if \<not> is_publisher s then refuse DlErrForbidden d
      else if blank taskID \<or> blank key \<or> length key > 200 \<or> stq_ExpectedPackageVersion q < 0 \<or> \<not> nonce_in_range (stq_WorkNonce q) \<or>
              \<not> valid_revision (stq_Revision q) \<or> stq_ChangeOrderID q \<noteq> [] \<and> \<not> dl_valid_digest (stq_ChangeOrderID q) then refuse DlErrInvalidInput d
      else case (if stq_Revision q \<noteq> None then authorize_revision (se_UserID s) taskID q d else Inr ()) of
        Inl e \<Rightarrow> refuse e d
      | Inr _ \<Rightarrow> run_tx (store_start E now (mutation_of E s key (DocStart taskID q)) taskID q) d)"

definition dl_get :: "session \<Rightarrow> string \<Rightarrow> delivery_db \<Rightarrow> delivery_error + delivery_view" where
  "dl_get s taskID d =
     (if \<not> is_publisher s then Inl DlErrForbidden else if blank taskID then Inl DlErrInvalidInput else store_get (se_UserID s) taskID d)"

definition canonical_items :: "delivery_env \<Rightarrow> feedback_input \<Rightarrow> feedback_item list" where
  "canonical_items E q = map (\<lambda>(k, i). \<lparr>fbi_ID = dl_hash E (DocFeedbackItem (fbq_PackageID q) (fbq_ParentContentHash q) (int k + 1) i),
     fbi_Ordinal = int k + 1, fbi_Input = i\<rparr>) (enumerate 0 (fbq_Items q))"

definition feedback_draft :: "delivery_env \<Rightarrow> feedback_input \<Rightarrow> feedback_set" where
  "feedback_draft E q =
     (let items = canonical_items E q;
          digest = dl_hash E (DocFeedbackSet (fbq_PackageID q) (fbq_ParentVersion q) (fbq_ParentContentHash q) items)
      in \<lparr>fbs_ID = digest, fbs_PackageID = fbq_PackageID q, fbs_ParentVersion = fbq_ParentVersion q, fbs_ParentContentHash = fbq_ParentContentHash q,
          fbs_ScopeID = [], fbs_ScopeHash = [], fbs_Digest = digest, fbs_PackageAggregateVersion = 0, fbs_Items = items, fbs_CreatedAt = 0\<rparr>)"

definition dl_submit_feedback ::
    "delivery_env \<Rightarrow> gotime \<Rightarrow> session \<Rightarrow> string \<Rightarrow> string \<Rightarrow> feedback_input \<Rightarrow> (feedback_set \<times> bool) delivery_run" where
  "dl_submit_feedback E now s key taskID q =
     (if \<not> is_publisher s then refuse DlErrForbidden
      else if blank taskID \<or> blank key \<or> length key > 200 \<or> \<not> valid_feedback_input q then refuse DlErrInvalidInput
      else run_tx (store_submit_feedback now (mutation_of E s key (DocFeedback taskID q)) taskID q (feedback_draft E q)))"

section \<open>Change orders\<close>

definition change_draft :: "delivery_env \<Rightarrow> string \<Rightarrow> propose_input \<Rightarrow> change_order" where
  "change_draft E taskID q =
     (let differenceDigest = dl_hash E (DocDifferences (prq_Differences q)) in
      \<lparr>cho_ID = dl_hash E (DocChangeOrder (prq_PackageID q) (prq_FeedbackSetID q) differenceDigest (prq_TriggerVersion q + 1)),
       cho_PackageID = prq_PackageID q, cho_TaskID = taskID, cho_TargetVersion = prq_TriggerVersion q + 1, cho_TriggerVersion = prq_TriggerVersion q,
       cho_TriggerContentHash = prq_TriggerContentHash q, cho_FeedbackSetID = prq_FeedbackSetID q, cho_FeedbackDigest = prq_FeedbackDigest q,
       cho_BaseScopeID = [], cho_BaseScopeHash = [], cho_NewScopeID = [], cho_NewScopeHash = [], cho_NewScopeRevision = 0,
       cho_NewSpecHash = prq_NewSpecHash q, cho_DifferenceDigest = differenceDigest, cho_Differences = prq_Differences q,
       cho_RequestedPrice = prq_RequestedPrice q, cho_AuthorizedPrice = ''0'', cho_Responsibility = [], cho_ResponsibilityReasonCode = [],
       cho_FundingSource = [], cho_FundAccountID = [], cho_PrincipalOwnerID = [], cho_ResidualRecipientID = [],
       cho_PublisherCompensationIrrevocable = False, cho_PackageAggregateVersion = 0, cho_AggregateVersion = 1, cho_Status = ChangeResponsibilityPending,
       cho_Deadline = prq_Deadline q, cho_AcceptedAt = None, cho_EffectiveAt = None, cho_ConsumedAt = None, cho_CreatedAt = 0, cho_UpdatedAt = 0\<rparr>)"

definition dl_propose :: "delivery_env \<Rightarrow> gotime \<Rightarrow> session \<Rightarrow> string \<Rightarrow> string \<Rightarrow> propose_input \<Rightarrow> (change_order \<times> bool) delivery_run" where
  "dl_propose E now s key taskID q =
     (if \<not> is_publisher s then refuse DlErrForbidden
      else if blank taskID \<or> \<not> valid_mutation_key key \<or> \<not> valid_change_proposal q then refuse DlErrInvalidInput
      else run_tx (store_propose now (mutation_of E s key (DocProposal taskID q)) taskID q (change_draft E taskID q)))"

definition dl_decide ::
    "delivery_env \<Rightarrow> store_config \<Rightarrow> gotime \<Rightarrow> session \<Rightarrow> string \<Rightarrow> string \<Rightarrow> string \<Rightarrow> decide_input \<Rightarrow> (change_order \<times> bool) delivery_run" where
  "dl_decide E C now s key taskID i q =
     (if se_UserID s = [] \<or> \<not> is_admin s then refuse DlErrForbidden
      else if blank taskID \<or> \<not> dl_valid_digest i \<or> \<not> valid_mutation_key key \<or> deq_ExpectedVersion q < 1 \<or>
              deq_Responsibility q \<notin> set [ResponsibilityPublisher, ResponsibilityAgent, ResponsibilityPlatform] \<or> \<not> dl_valid_reason (deq_ReasonCode q)
      then refuse DlErrInvalidInput
      else run_tx (store_decide E C now (mutation_of E s key (DocDecision taskID i q)) True taskID i q))"

definition dl_accept_change ::
    "delivery_env \<Rightarrow> gotime \<Rightarrow> session \<Rightarrow> string \<Rightarrow> string \<Rightarrow> string \<Rightarrow> change_version_input \<Rightarrow> (change_order \<times> bool) delivery_run" where
  "dl_accept_change E now s key taskID i q =
     (if \<not> is_publisher s then refuse DlErrForbidden
      else if blank taskID \<or> \<not> dl_valid_digest i \<or> \<not> valid_mutation_key key \<or> cvq_ExpectedVersion q < 1 then refuse DlErrInvalidInput
      else run_tx (store_transition_change E now (mutation_of E s key (DocChangeVersion taskID i q)) False taskID i ''accept'' q))"

definition dl_activate_change ::
    "delivery_env \<Rightarrow> gotime \<Rightarrow> session \<Rightarrow> string \<Rightarrow> string \<Rightarrow> string \<Rightarrow> change_version_input \<Rightarrow> (change_order \<times> bool) delivery_run" where
  "dl_activate_change E now s key taskID i q =
     (if se_UserID s = [] \<or> \<not> is_admin s \<and> ''publisher'' \<notin> set (se_Roles s) then refuse DlErrForbidden
      else if blank taskID \<or> \<not> dl_valid_digest i \<or> \<not> valid_mutation_key key \<or> cvq_ExpectedVersion q < 1 then refuse DlErrInvalidInput
      else run_tx (store_transition_change E now (mutation_of E s key (DocChangeVersion taskID i q)) (is_admin s) taskID i ''activate'' q))"

section \<open>Acceptance\<close>

definition intent_draft :: "delivery_env \<Rightarrow> string \<Rightarrow> acceptance_input \<Rightarrow> acceptance_intent" where
  "intent_draft E taskID q =
     \<lparr>aci_ID = dl_hash E (DocAcceptanceID (aq_PackageID q) (aq_ContentHash q) (aq_ProofDigest q) (aq_FormalVersion q) (aq_WorkNonce q)),
      aci_PackageID = aq_PackageID q, aci_TaskID = taskID, aci_FormalVersion = aq_FormalVersion q, aci_ContentHash = aq_ContentHash q,
      aci_ProofDigest = aq_ProofDigest q, aci_WorkNonce = aq_WorkNonce q, aci_PackageAggregateVersion = aq_ExpectedPackageVersion q,
      aci_AggregateVersion = 1, aci_State = AcceptanceIntentRecorded, aci_TransactionHash = [], aci_ChainEventID = [], aci_ChainID = [],
      aci_ContractAddress = [], aci_PublisherWallet = [], aci_ChainTaskID = [], aci_Eligibility = \<lparr>sty_Eligible = True, sty_ReasonCode = []\<rparr>,
      aci_CreatedAt = 0, aci_UpdatedAt = 0\<rparr>"

definition dl_create_intent ::
    "delivery_env \<Rightarrow> gotime \<Rightarrow> session \<Rightarrow> string \<Rightarrow> string \<Rightarrow> acceptance_input \<Rightarrow> (acceptance_intent \<times> bool) delivery_run" where
  "dl_create_intent E now s key taskID q =
     (if \<not> is_publisher s then refuse DlErrForbidden
      else if blank taskID \<or> \<not> valid_mutation_key key \<or> \<not> dl_valid_digest (aq_PackageID q) \<or> aq_ExpectedPackageVersion q < 1 \<or>
              aq_FormalVersion q < 1 \<or> aq_FormalVersion q > MaximumVersions \<or> \<not> dl_valid_digest (aq_ContentHash q) \<or>
              \<not> dl_valid_digest (aq_ProofDigest q) \<or> \<not> nonce_in_range (aq_WorkNonce q) then refuse DlErrInvalidInput
      else run_tx (store_create_intent now (mutation_of E s key (DocAcceptance taskID q)) taskID q (intent_draft E taskID q)))"

definition dl_transition_acceptance ::
    "delivery_env \<Rightarrow> gotime \<Rightarrow> session \<Rightarrow> string \<Rightarrow> string \<Rightarrow> string \<Rightarrow> transition_input \<Rightarrow> bool \<Rightarrow> (acceptance_intent \<times> bool) delivery_run" where
  "dl_transition_acceptance E now s key taskID i q reconcile =
     (let validTx = has_prefix (tq_TransactionHash q) ''0x'' \<and> length (tq_TransactionHash q) = 66;
          q' = (if validTx then q\<lparr>tq_TransactionHash := to_lower (tq_TransactionHash q)\<rparr> else q);
          operation = (if reconcile then ''reconcile'' else ''submit'')
      in if \<not> is_publisher s then refuse DlErrForbidden
         else if blank taskID \<or> \<not> dl_valid_digest i \<or> \<not> valid_mutation_key key \<or> tq_ExpectedVersion q < 1 \<or> \<not> reconcile \<and> \<not> validTx \<or>
                 reconcile \<and> tq_TransactionHash q \<noteq> [] then refuse DlErrInvalidInput
         else if validTx \<and> \<not> hex_decodable (drop 2 (tq_TransactionHash q)) then refuse DlErrInvalidInput
         else run_tx (store_transition_acceptance E now (mutation_of E s key (DocTransition taskID i operation q')) taskID i q' reconcile))"

section \<open>The worker\<close>

definition dl_record_dispatched :: "gotime \<Rightarrow> string \<Rightarrow> (formal_version \<times> bool) delivery_run" where
  "dl_record_dispatched now i = (if blank i then refuse DlErrInvalidInput else run_tx (store_record_dispatched now i))"

definition result_ok :: "execution_result \<Rightarrow> bool" where
  "result_ok q \<longleftrightarrow>
     \<not> blank (exr_LogicalExecutionID q) \<and> money_pattern (exr_UsedCost q) \<and>
     (if exr_Status q = ResultSucceeded then
        dl_valid_digest (exr_ContentHash q) \<and> \<not> blank (exr_DeliverableRef q) \<and> exr_FailureReasonCode q = [] \<and>
        valid_responses (exr_FeedbackResponses q) \<and> valid_changes (exr_Changes q)
      else if exr_Status q = ResultFailed then
        exr_ContentHash q = [] \<and> exr_DeliverableRef q = [] \<and> dl_valid_reason (exr_FailureReasonCode q)
      else False)"

text \<open>The responses in the order of the feedback items; the last response of an item counts, and they are distinct.\<close>

definition response_for :: "feedback_response list \<Rightarrow> string \<Rightarrow> feedback_response" where
  "response_for rs i =
     (case gget (foldl (\<lambda>m r. gput (fbr_FeedbackItemID r) r m) [] rs) i of
        None \<Rightarrow> \<lparr>fbr_FeedbackItemID = [], fbr_Disposition = [], fbr_Summary = []\<rparr> | Some r \<Rightarrow> r)"

definition ordered_result :: "proof_context \<Rightarrow> execution_result \<Rightarrow> execution_result" where
  "ordered_result x q = (if pcx_FeedbackItemIDs x \<noteq> []
     then q\<lparr>exr_FeedbackResponses := map (response_for (exr_FeedbackResponses q)) (pcx_FeedbackItemIDs x)\<rparr> else q)"

definition proof_of :: "delivery_env \<Rightarrow> proof_context \<Rightarrow> execution_result \<Rightarrow> delivery_proof" where
  "proof_of E x q =
     \<lparr>dp_Version = ProofVersion, dp_TaskID = pcx_TaskID x, dp_AssignmentID = pcx_AssignmentID x, dp_DeliveryUnit = pcx_DeliveryUnit x,
      dp_PackageID = pcx_PackageID x, dp_ScopeHash = pcx_ScopeHash x, dp_FormalVersion = pcx_Version x,
      dp_PackageAggregateVersion = pcx_PackageAggregateVersion x, dp_WorkNonce = pcx_WorkNonce x, dp_AgentID = pcx_AgentID x,
      dp_ContentHash = exr_ContentHash q, dp_ParentContentHash = pcx_ParentContentHash x, dp_FeedbackDigest = pcx_FeedbackDigest x,
      dp_ChangeOrderID = pcx_ChangeOrderID x, dp_AgentResponseHash = dl_hash E (DocResponses (exr_FeedbackResponses q)),
      dp_ChangeSummaryHash = dl_hash E (DocChanges (exr_Changes q)), dp_PolicyHash = pcx_PolicyHash x, dp_Deadline = time_unix (pcx_Deadline x)\<rparr>"

text \<open>\<open>ECDSAProofSigner.Sign\<close>: the signed digest covers the version of the proof and the hash of its payload.\<close>

definition sign_delivery_proof :: "delivery_env \<Rightarrow> delivery_proof \<Rightarrow> proof_record" where
  "sign_delivery_proof E p =
     (let payloadSum = dl_sha E (dl_json E (DocProof p)); digestSum = dl_sha E (ProofVersion @ [CHR 0x00] @ payloadSum); compact = dl_sign E digestSum
      in \<lparr>pr_Proof = p, pr_PayloadHash = sha_string payloadSum, pr_Digest = sha_string digestSum,
          pr_Signature = ''0x'' @ hex_encode (tl compact @ [hd compact])\<rparr>)"

definition dl_record_result :: "delivery_env \<Rightarrow> gotime \<Rightarrow> execution_result \<Rightarrow> (formal_version \<times> bool) delivery_run" where
  "dl_record_result E now q d =
     (if \<not> result_ok q then refuse DlErrInvalidInput d
      else if exr_Status q = ResultFailed then run_tx (store_record_result E now q None) d
      else case store_proof_context (exr_LogicalExecutionID q) d of
        Inl e \<Rightarrow> refuse e d
      | Inr x \<Rightarrow>
          if \<not> same_feedback_items (pcx_FeedbackItemIDs x) (exr_FeedbackResponses q) then refuse DlErrInvalidInput d
          else let q' = ordered_result x q
            in run_tx (store_record_result E now q' (Some (sign_delivery_proof E (proof_of E x q')))) d)"

section \<open>Calls\<close>

text \<open>The calls of the package, and what the rest of the program does to its tables.\<close>

datatype delivery_op =
    OpStart session string string start_input
  | OpFeedback session string string feedback_input
  | OpPropose session string string propose_input
  | OpDecide session string string string decide_input
  | OpAcceptChange session string string string change_version_input
  | OpActivateChange session string string string change_version_input
  | OpCreateIntent session string string acceptance_input
  | OpTransition session string string string transition_input bool
  | OpDispatched string
  | OpResult execution_result

definition delivery_exec :: "delivery_env \<Rightarrow> store_config \<Rightarrow> gotime \<Rightarrow> delivery_op \<Rightarrow> delivery_db \<Rightarrow> delivery_db" where
  "delivery_exec E C now c d =
     (case c of
        OpStart s k t q \<Rightarrow> fst (dl_start E now s k t q d)
      | OpFeedback s k t q \<Rightarrow> fst (dl_submit_feedback E now s k t q d)
      | OpPropose s k t q \<Rightarrow> fst (dl_propose E now s k t q d)
      | OpDecide s k t i q \<Rightarrow> fst (dl_decide E C now s k t i q d)
      | OpAcceptChange s k t i q \<Rightarrow> fst (dl_accept_change E now s k t i q d)
      | OpActivateChange s k t i q \<Rightarrow> fst (dl_activate_change E now s k t i q d)
      | OpCreateIntent s k t q \<Rightarrow> fst (dl_create_intent E now s k t q d)
      | OpTransition s k t i q b \<Rightarrow> fst (dl_transition_acceptance E now s k t i q b d)
      | OpDispatched i \<Rightarrow> fst (dl_record_dispatched now i d)
      | OpResult q \<Rightarrow> fst (dl_record_result E now q d))"

end
