(* ===== verification/Delivery_Machine.thy ===== *)
theory Delivery_Machine
  imports Delivery_Service
begin

text \<open>
  The abstract machine of the formal delivery: packages, versions, change orders and feedback sets, and the moves the
  package promises to make on them. The invariant is proved on the moves; \<open>Delivery_Refine\<close> shows that every call of
  the service makes one of them or none.
\<close>

type_synonym delivery_core =
  "(string, formal_package) gomap \<times> (string \<times> int, formal_version) gomap \<times> (string, change_order) gomap \<times> (string, feedback_set) gomap"

definition core_of :: "delivery_db \<Rightarrow> delivery_core" where
  "core_of d = (dd_packages d, dd_versions d, dd_changeOrders d, dd_feedback d)"

section \<open>The moves\<close>

definition touched :: "gotime \<Rightarrow> formal_package \<Rightarrow> formal_package" where
  "touched now p = p\<lparr>fpk_AggregateVersion := fpk_AggregateVersion p + 1, fpk_UpdatedAt := now\<rparr>"

definition advanced :: "gotime \<Rightarrow> formal_package \<Rightarrow> formal_package" where
  "advanced now p = p\<lparr>fpk_AllocatedVersion := fpk_AllocatedVersion p + 1, fpk_AggregateVersion := fpk_AggregateVersion p + 1, fpk_UpdatedAt := now\<rparr>"

definition is_reviewed :: "(string \<times> int, formal_version) gomap \<Rightarrow> formal_package \<Rightarrow> formal_version \<Rightarrow> bool" where
  "is_reviewed vs p v \<longleftrightarrow> gget vs (fpk_ID p, fpk_AllocatedVersion p) = Some v \<and> fvr_Status v = VersionReview"

definition new_version_ok :: "formal_package \<Rightarrow> work_nonce \<Rightarrow> formal_version \<Rightarrow> bool" where
  "new_version_ok p nonce v \<longleftrightarrow> fvr_PackageID v = fpk_ID p \<and> fvr_Number v = fpk_AllocatedVersion p + 1 \<and> fvr_WorkNonce v = nonce \<and>
     fvr_AggregateVersion v = fpk_AggregateVersion p + 1 \<and> fvr_Status v = VersionAllocated"

definition version_frame :: "formal_version \<Rightarrow> formal_version \<Rightarrow> bool" where
  "version_frame v w \<longleftrightarrow> fvr_PackageID w = fvr_PackageID v \<and> fvr_Number w = fvr_Number v \<and> fvr_WorkNonce w = fvr_WorkNonce v \<and>
     fvr_AggregateVersion w = fvr_AggregateVersion v \<and> fvr_ChangeOrderID w = fvr_ChangeOrderID v \<and> fvr_Revision w = fvr_Revision v \<and>
     fvr_LogicalExecutionID w = fvr_LogicalExecutionID v \<and> fvr_ScopeID w = fvr_ScopeID v \<and> fvr_ScopeHash w = fvr_ScopeHash v"

definition order_frame :: "change_order \<Rightarrow> change_order \<Rightarrow> bool" where
  "order_frame c e \<longleftrightarrow> cho_ID e = cho_ID c \<and> cho_PackageID e = cho_PackageID c \<and> cho_TaskID e = cho_TaskID c \<and>
     cho_TargetVersion e = cho_TargetVersion c \<and> cho_TriggerVersion e = cho_TriggerVersion c \<and> cho_FeedbackSetID e = cho_FeedbackSetID c \<and>
     cho_RequestedPrice e = cho_RequestedPrice c \<and> cho_Deadline e = cho_Deadline c \<and> cho_Differences e = cho_Differences c"

definition change_edge :: "string \<Rightarrow> string \<Rightarrow> bool" where
  "change_edge s t \<longleftrightarrow>
     s = ChangeResponsibilityPending \<and> t = ChangeAwaitingAcceptance \<or> s = ChangeAwaitingAcceptance \<and> (t = ChangeAwaitingFunding \<or> t = ChangeReady) \<or>
     (s = ChangeAwaitingFunding \<or> s = ChangeReady) \<and> t = ChangeEffective"

definition version_edge :: "string \<Rightarrow> string \<Rightarrow> bool" where
  "version_edge s t \<longleftrightarrow> s = VersionAllocated \<and> t = VersionGenerating \<or>
     (s = VersionAllocated \<or> s = VersionGenerating) \<and> (t = VersionReview \<or> t = VersionFailed)"

inductive delivery_move :: "delivery_core \<Rightarrow> delivery_core \<Rightarrow> bool" where
  first_move:
    "gget ps (fpk_ID p) = None \<Longrightarrow> gget vs (fpk_ID p, 1) = None \<Longrightarrow> fpk_AllocatedVersion p = 0 \<Longrightarrow> fpk_IncludedVersions p = IncludedVersions \<Longrightarrow>
     fpk_MaximumVersions p = MaximumVersions \<Longrightarrow> new_version_ok p 1 v \<Longrightarrow> fvr_ChangeOrderID v = [] \<Longrightarrow>
     delivery_move (ps, vs, cs, fs) (gput (fpk_ID p) (advanced t p) ps, gput (fpk_ID p, 1) v vs, cs, fs)"
| revision_move:
    "gget ps (fpk_ID p) = Some p \<Longrightarrow> is_reviewed vs p u \<Longrightarrow> gget vs (fpk_ID p, fpk_AllocatedVersion p + 1) = None \<Longrightarrow>
     fpk_AllocatedVersion p + 1 \<le> fpk_IncludedVersions p \<Longrightarrow> gget fs k = Some f \<Longrightarrow> fbs_PackageID f = fpk_ID p \<Longrightarrow>
     fbs_ParentVersion f = fpk_AllocatedVersion p \<Longrightarrow> in_scope_only f \<Longrightarrow> new_version_ok p (fvr_WorkNonce u + 1) v \<Longrightarrow> fvr_ChangeOrderID v = [] \<Longrightarrow>
     delivery_move (ps, vs, cs, fs) (gput (fpk_ID p) (advanced t p) ps, gput (fpk_ID p, fpk_AllocatedVersion p + 1) v vs, cs, fs)"
| extra_move:
    "gget ps (fpk_ID p) = Some p \<Longrightarrow> is_reviewed vs p u \<Longrightarrow> gget vs (fpk_ID p, fpk_AllocatedVersion p + 1) = None \<Longrightarrow>
     fpk_AllocatedVersion p + 1 > fpk_IncludedVersions p \<Longrightarrow> fpk_AllocatedVersion p + 1 \<le> fpk_MaximumVersions p \<Longrightarrow>
     gget cs (fvr_ChangeOrderID v) = Some c \<Longrightarrow> cho_Status c = ChangeEffective \<Longrightarrow> cho_PackageID c = fpk_ID p \<Longrightarrow>
     cho_TargetVersion c = fpk_AllocatedVersion p + 1 \<Longrightarrow> order_frame c e \<Longrightarrow> cho_Status e = ChangeConsumed \<Longrightarrow>
     new_version_ok p (fvr_WorkNonce u + 1) v \<Longrightarrow>
     delivery_move (ps, vs, cs, fs) (gput (fpk_ID p) (advanced t p) ps, gput (fpk_ID p, fpk_AllocatedVersion p + 1) v vs, gput (cho_ID c) e cs, fs)"
| worker_move:
    "gget vs (i, n) = Some v \<Longrightarrow> version_edge (fvr_Status v) (fvr_Status w) \<Longrightarrow> version_frame v w \<Longrightarrow>
     (fvr_Status w = VersionReview \<Longrightarrow> \<not> (\<exists>m u. m \<noteq> n \<and> gget vs (i, m) = Some u \<and> fvr_Status u = VersionReview \<and> fvr_ContentHash u = fvr_ContentHash w)) \<Longrightarrow>
     delivery_move (ps, vs, cs, fs) (ps, gput (i, n) w vs, cs, fs)"
| feedback_move:
    "gget ps (fpk_ID p) = Some p \<Longrightarrow> is_reviewed vs p u \<Longrightarrow> fpk_AllocatedVersion p < fpk_MaximumVersions p \<Longrightarrow> fbs_PackageID f = fpk_ID p \<Longrightarrow>
     fbs_ParentVersion f = fpk_AllocatedVersion p \<Longrightarrow> fbs_ParentContentHash f = fvr_ContentHash u \<Longrightarrow> gget fs (fbs_ID f) = None \<Longrightarrow>
     \<not> (\<exists>k g. gget fs k = Some g \<and> fbs_PackageID g = fbs_PackageID f \<and> fbs_ParentVersion g = fbs_ParentVersion f) \<Longrightarrow>
     delivery_move (ps, vs, cs, fs) (gput (fpk_ID p) (touched t p) ps, vs, cs, gput (fbs_ID f) f fs)"
| propose_move:
    "gget ps (fpk_ID p) = Some p \<Longrightarrow> is_reviewed vs p u \<Longrightarrow> IncludedVersions \<le> fpk_AllocatedVersion p \<Longrightarrow> fpk_AllocatedVersion p < MaximumVersions \<Longrightarrow>
     gget cs (cho_ID c) = None \<Longrightarrow> \<not> (\<exists>k e. gget cs k = Some e \<and> cho_PackageID e = cho_PackageID c \<and> cho_TargetVersion e = cho_TargetVersion c) \<Longrightarrow>
     cho_PackageID c = fpk_ID p \<Longrightarrow> cho_TargetVersion c = fpk_AllocatedVersion p + 1 \<Longrightarrow> cho_TriggerVersion c = fpk_AllocatedVersion p \<Longrightarrow>
     cho_Status c = ChangeResponsibilityPending \<Longrightarrow> gget fs (cho_FeedbackSetID c) = Some f \<Longrightarrow> fbs_PackageID f = fpk_ID p \<Longrightarrow>
     fbs_ParentVersion f = fpk_AllocatedVersion p \<Longrightarrow>
     delivery_move (ps, vs, cs, fs) (gput (fpk_ID p) (touched t p) ps, vs, gput (cho_ID c) c cs, fs)"
| order_move:
    "gget cs (cho_ID c) = Some c \<Longrightarrow> gget ps (fpk_ID p) = Some p \<Longrightarrow> cho_PackageID c = fpk_ID p \<Longrightarrow> change_edge (cho_Status c) (cho_Status e) \<Longrightarrow>
     order_frame c e \<Longrightarrow> delivery_move (ps, vs, cs, fs) (gput (fpk_ID p) (touched t p) ps, vs, gput (cho_ID c) e cs, fs)"

section \<open>The invariant\<close>

text \<open>The versions of a package are numbered from one, all but the last are reviewed, and one beyond the included ones has consumed a change order for it.\<close>

definition package_ok :: "delivery_core \<Rightarrow> string \<Rightarrow> formal_package \<Rightarrow> bool" where
  "package_ok k i p = (case k of (ps, vs, cs, fs) \<Rightarrow>
     fpk_ID p = i \<and> fpk_IncludedVersions p = IncludedVersions \<and> fpk_MaximumVersions p = MaximumVersions \<and>
     1 \<le> fpk_AllocatedVersion p \<and> fpk_AllocatedVersion p \<le> MaximumVersions \<and>
     list_all (\<lambda>n. gget vs (i, n) \<noteq> None) [1..fpk_AllocatedVersion p])"

definition paid_for :: "(string, change_order) gomap \<Rightarrow> formal_version \<Rightarrow> bool" where
  "paid_for cs v = (case gget cs (fvr_ChangeOrderID v) of None \<Rightarrow> False
     | Some c \<Rightarrow> cho_Status c = ChangeConsumed \<and> cho_PackageID c = fvr_PackageID v \<and> cho_TargetVersion c = fvr_Number v)"

definition version_ok :: "delivery_core \<Rightarrow> string \<Rightarrow> int \<Rightarrow> formal_version \<Rightarrow> bool" where
  "version_ok k i n v = (case k of (ps, vs, cs, fs) \<Rightarrow>
     fvr_PackageID v = i \<and> fvr_Number v = n \<and> fvr_WorkNonce v = of_int n \<and> 1 \<le> n \<and>
     fvr_Status v \<in> set [VersionAllocated, VersionGenerating, VersionReview, VersionFailed] \<and>
     (if n \<le> IncludedVersions then fvr_ChangeOrderID v = [] else paid_for cs v) \<and>
     (case gget ps i of None \<Rightarrow> False
      | Some p \<Rightarrow> n \<le> fpk_AllocatedVersion p \<and> fvr_AggregateVersion v \<le> fpk_AggregateVersion p \<and>
          (n < fpk_AllocatedVersion p \<longrightarrow> fvr_Status v = VersionReview)))"

definition order_ok :: "delivery_core \<Rightarrow> string \<Rightarrow> change_order \<Rightarrow> bool" where
  "order_ok k i c = (case k of (ps, vs, cs, fs) \<Rightarrow>
     cho_ID c = i \<and> cho_TargetVersion c = cho_TriggerVersion c + 1 \<and> IncludedVersions < cho_TargetVersion c \<and> cho_TargetVersion c \<le> MaximumVersions \<and>
     gget ps (cho_PackageID c) \<noteq> None \<and>
     (case gget fs (cho_FeedbackSetID c) of None \<Rightarrow> False
      | Some f \<Rightarrow> fbs_PackageID f = cho_PackageID c \<and> fbs_ParentVersion f = cho_TriggerVersion c))"

definition core_maps :: "delivery_core \<Rightarrow> bool" where
  "core_maps k = (case k of (ps, vs, cs, fs) \<Rightarrow> gwf ps \<and> gwf vs \<and> gwf cs \<and> gwf fs)"

definition contents_distinct :: "delivery_core \<Rightarrow> bool" where
  "contents_distinct k = (case k of (ps, vs, cs, fs) \<Rightarrow>
     \<forall>i m n v w. gget vs (i, m) = Some v \<and> gget vs (i, n) = Some w \<and> fvr_Status v = VersionReview \<and> fvr_Status w = VersionReview \<and>
       fvr_ContentHash v = fvr_ContentHash w \<longrightarrow> m = n)"

definition feedback_unique :: "delivery_core \<Rightarrow> bool" where
  "feedback_unique k = (case k of (ps, vs, cs, fs) \<Rightarrow>
     (\<forall>i f. gget fs i = Some f \<longrightarrow> fbs_ID f = i) \<and>
     (\<forall>i j f g. gget fs i = Some f \<and> gget fs j = Some g \<and> fbs_PackageID f = fbs_PackageID g \<and> fbs_ParentVersion f = fbs_ParentVersion g \<longrightarrow> i = j))"

definition core_ok :: "delivery_core \<Rightarrow> bool" where
  "core_ok k = (case k of (ps, vs, cs, fs) \<Rightarrow> core_maps k \<and> (\<forall>i p. gget ps i = Some p \<longrightarrow> package_ok k i p) \<and>
     (\<forall>i n v. gget vs (i, n) = Some v \<longrightarrow> version_ok k i n v) \<and> (\<forall>i c. gget cs i = Some c \<longrightarrow> order_ok k i c) \<and>
     contents_distinct k \<and> feedback_unique k)"

lemma core_ok_empty: "core_ok ([], [], [], [])"
  by (simp add: core_ok_def core_maps_def contents_distinct_def feedback_unique_def)

lemma core_okD:
  assumes "core_ok (ps, vs, cs, fs)"
  shows "gwf ps" "gwf vs" "gwf cs" "gwf fs" "gget ps i = Some p \<Longrightarrow> package_ok (ps, vs, cs, fs) i p"
    "gget vs (i, n) = Some v \<Longrightarrow> version_ok (ps, vs, cs, fs) i n v" "gget cs i = Some c \<Longrightarrow> order_ok (ps, vs, cs, fs) i c"
    "contents_distinct (ps, vs, cs, fs)" "feedback_unique (ps, vs, cs, fs)"
  using assms by (auto simp: core_ok_def core_maps_def)

section \<open>Every move keeps it\<close>

lemma advanced_simps [simp]:
  "fpk_ID (advanced t p) = fpk_ID p" "fpk_AllocatedVersion (advanced t p) = fpk_AllocatedVersion p + 1"
  "fpk_AggregateVersion (advanced t p) = fpk_AggregateVersion p + 1" "fpk_IncludedVersions (advanced t p) = fpk_IncludedVersions p"
  "fpk_MaximumVersions (advanced t p) = fpk_MaximumVersions p"
  "fpk_ID (touched t p) = fpk_ID p" "fpk_AllocatedVersion (touched t p) = fpk_AllocatedVersion p"
  "fpk_AggregateVersion (touched t p) = fpk_AggregateVersion p + 1" "fpk_IncludedVersions (touched t p) = fpk_IncludedVersions p"
  "fpk_MaximumVersions (touched t p) = fpk_MaximumVersions p"
  by (simp_all add: advanced_def touched_def)

lemma version_edgeD: "version_edge s t \<Longrightarrow> s \<noteq> VersionReview \<and> s \<noteq> VersionFailed \<and> t \<in> set [VersionGenerating, VersionReview, VersionFailed]"
  by (auto simp: version_edge_def)

lemma change_edgeD: "change_edge s t \<Longrightarrow> s \<noteq> ChangeConsumed \<and> s \<noteq> ChangeEffective \<and> t \<noteq> ChangeConsumed"
  by (auto simp: change_edge_def)

lemma paid_for_gput:
  "paid_for cs v \<Longrightarrow> (\<And>c. gget cs i = Some c \<Longrightarrow> cho_Status c \<noteq> ChangeConsumed) \<Longrightarrow> paid_for (gput i e cs) v"
  by (auto simp: paid_for_def split: option.splits)

lemma move_maps: "delivery_move k k' \<Longrightarrow> core_maps k \<Longrightarrow> core_maps k'"
  by (induction rule: delivery_move.induct) (auto simp: core_maps_def)

text \<open>A table that grows keeps what the invariant says of the rows of the other tables.\<close>

lemma package_ok_mono:
  assumes "package_ok (ps, vs, cs, fs) i p" "\<And>x. gget vs x \<noteq> None \<Longrightarrow> gget ws x \<noteq> None"
  shows "package_ok (qs, ws, ds, gs) i p"
  using assms by (auto simp: package_ok_def list_all_iff)

lemma version_ok_mono:
  assumes "version_ok (ps, vs, cs, fs) i n v" "\<And>x. paid_for cs x \<Longrightarrow> paid_for ds x"
    "\<And>p. gget ps i = Some p \<Longrightarrow> \<exists>q. gget qs i = Some q \<and> fpk_AllocatedVersion q \<ge> fpk_AllocatedVersion p \<and>
       fpk_AggregateVersion q \<ge> fpk_AggregateVersion p \<and> (fpk_AllocatedVersion q > fpk_AllocatedVersion p \<longrightarrow> n < fpk_AllocatedVersion q \<longrightarrow> fvr_Status v = VersionReview)"
  shows "version_ok (qs, ws, ds, gs) i n v"
  using assms unfolding version_ok_def by (force split: option.splits if_splits)

lemma order_ok_mono:
  assumes "order_ok (ps, vs, cs, fs) i c" "\<And>x. gget ps x \<noteq> None \<Longrightarrow> gget qs x \<noteq> None" "\<And>x y. gget fs x = Some y \<Longrightarrow> gget gs x = Some y"
  shows "order_ok (qs, ws, ds, gs) i c"
  using assms unfolding order_ok_def by (force split: option.splits)

lemma order_ok_frame: "order_ok (ps, vs, cs, fs) i c \<Longrightarrow> order_frame c e \<Longrightarrow> order_ok (ps, vs, cs, fs) i e"
  by (auto simp: order_ok_def order_frame_def split: option.splits)

lemma package_ok_advanced:
  assumes "package_ok (ps, vs, cs, fs) (fpk_ID p) p" "fpk_AllocatedVersion p + 1 \<le> MaximumVersions"
  shows "package_ok (qs, gput (fpk_ID p, fpk_AllocatedVersion p + 1) v vs, ds, gs) (fpk_ID p) (advanced t p)"
  using assms by (auto simp: package_ok_def list_all_iff)

lemma package_ok_touched: "package_ok (ps, vs, cs, fs) i p \<Longrightarrow> package_ok (qs, vs, ds, gs) i (touched t p)"
  by (auto simp: package_ok_def)

lemma package_ok_gput: "package_ok (ps, vs, cs, fs) i p \<Longrightarrow> package_ok (qs, gput x v vs, ds, gs) i p"
  by (erule package_ok_mono) simp

lemma move_packages:
  assumes "delivery_move (ps, vs, cs, fs) (ps', vs', cs', fs')" "core_ok (ps, vs, cs, fs)" "gget ps' i = Some p"
  shows "package_ok (ps', vs', cs', fs') i p"
  using assms(1)
proof cases
  case (first_move p0 v t)
  show ?thesis
  proof (cases "i = fpk_ID p0")
    case True
    then show ?thesis using assms(3) first_move by (auto simp: package_ok_def)
  next
    case False
    then show ?thesis using assms(3) package_ok_gput [OF core_okD(5) [OF assms(2)]] first_move by auto
  qed
next
  case (revision_move p0 u k f v t)
  have "fpk_AllocatedVersion p0 + 1 \<le> MaximumVersions"
    using core_okD(5) [OF assms(2) revision_move(5)] revision_move(8) by (simp add: package_ok_def)
  from package_ok_advanced [OF core_okD(5) [OF assms(2) revision_move(5)] this] show ?thesis
    using assms(3) package_ok_gput [OF core_okD(5) [OF assms(2)]] unfolding revision_move by (cases "i = fpk_ID p0") auto
next
  case (extra_move p0 u v c e t)
  have "fpk_AllocatedVersion p0 + 1 \<le> MaximumVersions"
    using core_okD(5) [OF assms(2) extra_move(5)] extra_move(9) by (simp add: package_ok_def)
  from package_ok_advanced [OF core_okD(5) [OF assms(2) extra_move(5)] this] show ?thesis
    using assms(3) package_ok_gput [OF core_okD(5) [OF assms(2)]] unfolding extra_move by (cases "i = fpk_ID p0") auto
next
  case (worker_move j n v w)
  then show ?thesis using assms(3) package_ok_gput [OF core_okD(5) [OF assms(2)]] by auto
next
  case (feedback_move p0 u f t)
  then show ?thesis using assms(3) package_ok_mono [OF core_okD(5) [OF assms(2)]] package_ok_touched [OF core_okD(5) [OF assms(2)]]
    by (auto split: if_splits)
next
  case (propose_move p0 u c f t)
  then show ?thesis using assms(3) package_ok_mono [OF core_okD(5) [OF assms(2)]] package_ok_touched [OF core_okD(5) [OF assms(2)]]
    by (auto split: if_splits)
next
  case (order_move c p0 e t)
  then show ?thesis using assms(3) package_ok_mono [OF core_okD(5) [OF assms(2)]] package_ok_touched [OF core_okD(5) [OF assms(2)]]
    by (auto split: if_splits)
qed

lemma move_versions:
  assumes "delivery_move (ps, vs, cs, fs) (ps', vs', cs', fs')" "core_ok (ps, vs, cs, fs)" "gget vs' (i, n) = Some v"
  shows "version_ok (ps', vs', cs', fs') i n v"
  using assms(1)
proof cases
  case (first_move p x t)
  show ?thesis
  proof (cases "(i, n) = (fpk_ID p, 1)")
    case True
    then show ?thesis using assms(3) first_move by (simp add: version_ok_def new_version_ok_def)
  next
    case False
    then have "gget vs (i, n) = Some v" using assms(3) first_move by auto
    from core_okD(6) [OF assms(2) this] show ?thesis
      unfolding first_move by (rule version_ok_mono) (use first_move in \<open>auto split: if_splits\<close>)
  qed
next
  case (revision_move p u k f x t)
  note p = core_okD(5) [OF assms(2) revision_move(5)]
  from revision_move(6) core_okD(6) [OF assms(2)] have u: "version_ok (ps, vs, cs, fs) (fpk_ID p) (fpk_AllocatedVersion p) u"
    "fvr_Status u = VersionReview" by (auto simp: is_reviewed_def)
  show ?thesis
  proof (cases "(i, n) = (fpk_ID p, fpk_AllocatedVersion p + 1)")
    case True
    then show ?thesis using assms(3) revision_move u p by (simp add: version_ok_def new_version_ok_def package_ok_def)
  next
    case False
    then have v: "gget vs (i, n) = Some v" using assms(3) revision_move by auto
    from core_okD(6) [OF assms(2) v] have "n \<le> fpk_AllocatedVersion p \<and> (n < fpk_AllocatedVersion p \<longrightarrow> fvr_Status v = VersionReview)" if "i = fpk_ID p"
      using revision_move(5) that by (simp add: version_ok_def)
    moreover have "fvr_Status v = VersionReview" if "i = fpk_ID p" "n = fpk_AllocatedVersion p"
      using revision_move(6) that v by (simp add: is_reviewed_def)
    ultimately have "i = fpk_ID p \<Longrightarrow> fvr_Status v = VersionReview" by fastforce
    with core_okD(6) [OF assms(2) v] show ?thesis
      unfolding revision_move by - (rule version_ok_mono, assumption, use revision_move in \<open>auto split: if_splits\<close>)
  qed
next
  case (extra_move p u x c e t)
  note p = core_okD(5) [OF assms(2) extra_move(5)]
  from extra_move(6) core_okD(6) [OF assms(2)] have u: "version_ok (ps, vs, cs, fs) (fpk_ID p) (fpk_AllocatedVersion p) u"
    "fvr_Status u = VersionReview" by (auto simp: is_reviewed_def)
  have c: "cho_ID c = fvr_ChangeOrderID x" using core_okD(7) [OF assms(2) extra_move(10)] by (simp add: order_ok_def)
  show ?thesis
  proof (cases "(i, n) = (fpk_ID p, fpk_AllocatedVersion p + 1)")
    case True
    then show ?thesis using assms(3) extra_move u p c by (simp add: version_ok_def new_version_ok_def package_ok_def paid_for_def order_frame_def)
  next
    case False
    then have v: "gget vs (i, n) = Some v" using assms(3) extra_move by auto
    from core_okD(6) [OF assms(2) v] have "n \<le> fpk_AllocatedVersion p \<and> (n < fpk_AllocatedVersion p \<longrightarrow> fvr_Status v = VersionReview)" if "i = fpk_ID p"
      using extra_move(5) that by (simp add: version_ok_def)
    moreover have "fvr_Status v = VersionReview" if "i = fpk_ID p" "n = fpk_AllocatedVersion p"
      using extra_move(6) that v by (simp add: is_reviewed_def)
    ultimately have "i = fpk_ID p \<Longrightarrow> fvr_Status v = VersionReview" by fastforce
    moreover have "\<And>y. paid_for cs y \<Longrightarrow> paid_for (gput (cho_ID c) e cs) y" using extra_move(10,11) c by (auto intro!: paid_for_gput)
    ultimately show ?thesis using core_okD(6) [OF assms(2) v]
      unfolding extra_move by - (rule version_ok_mono, assumption, use extra_move in \<open>auto split: if_splits\<close>)
  qed
next
  case (worker_move j m x w)
  show ?thesis
  proof (cases "(i, n) = (j, m)")
    case True
    then show ?thesis using assms(3) worker_move core_okD(6) [OF assms(2) worker_move(5)] version_edgeD [OF worker_move(6)]
      by (auto simp: version_ok_def version_frame_def paid_for_def split: option.splits if_splits)
  next
    case False
    then have "gget vs (i, n) = Some v" using assms(3) worker_move by auto
    from core_okD(6) [OF assms(2) this] show ?thesis unfolding worker_move by (rule version_ok_mono) auto
  qed
next
  case (feedback_move p u f t)
  with assms(3) have "gget vs (i, n) = Some v" by simp
  from core_okD(6) [OF assms(2) this] show ?thesis
    unfolding feedback_move by (rule version_ok_mono) (use feedback_move in \<open>auto split: if_splits\<close>)
next
  case (propose_move p u c f t)
  with assms(3) have "gget vs (i, n) = Some v" by simp
  moreover have "\<And>y. paid_for cs y \<Longrightarrow> paid_for (gput (cho_ID c) c cs) y" using propose_move by (auto intro!: paid_for_gput)
  ultimately show ?thesis using core_okD(6) [OF assms(2)]
    unfolding propose_move by - (rule version_ok_mono, blast, use propose_move in \<open>auto split: if_splits\<close>)
next
  case (order_move c p e t)
  with assms(3) have "gget vs (i, n) = Some v" by simp
  moreover have "\<And>y. paid_for cs y \<Longrightarrow> paid_for (gput (cho_ID c) e cs) y"
    using order_move change_edgeD [OF order_move(8)] by (auto intro!: paid_for_gput)
  ultimately show ?thesis using core_okD(6) [OF assms(2)]
    unfolding order_move by - (rule version_ok_mono, blast, use order_move in \<open>auto split: if_splits\<close>)
qed

lemma move_orders:
  assumes "delivery_move (ps, vs, cs, fs) (ps', vs', cs', fs')" "core_ok (ps, vs, cs, fs)" "gget cs' i = Some c"
  shows "order_ok (ps', vs', cs', fs') i c"
  using assms(1)
proof cases
  case (first_move p v t)
  then show ?thesis using assms(3) order_ok_mono [OF core_okD(7) [OF assms(2)]] by auto
next
  case (revision_move p u k f v t)
  then show ?thesis using assms(3) order_ok_mono [OF core_okD(7) [OF assms(2)]] by auto
next
  case (extra_move p u v c0 e t)
  have "cho_ID c0 = fvr_ChangeOrderID v" using core_okD(7) [OF assms(2) extra_move(10)] by (simp add: order_ok_def)
  then have "order_ok (ps, vs, cs, fs) (cho_ID c0) e" using order_ok_frame [OF core_okD(7) [OF assms(2) extra_move(10)] extra_move(14)] by simp
  then have "order_ok (ps, vs, cs, fs) i c"
    using assms(3) core_okD(7) [OF assms(2)] extra_move(3) by (cases "i = cho_ID c0") auto
  then show ?thesis unfolding extra_move by (rule order_ok_mono) auto
next
  case (worker_move j n v w)
  then show ?thesis using assms(3) order_ok_mono [OF core_okD(7) [OF assms(2)]] by auto
next
  case (feedback_move p u f t)
  with assms(3) have "gget cs i = Some c" by simp
  from core_okD(7) [OF assms(2) this] show ?thesis
    unfolding feedback_move by (rule order_ok_mono) (use feedback_move(11) in \<open>auto split: if_splits\<close>)
next
  case (propose_move p u c0 f t)
  show ?thesis
  proof (cases "i = cho_ID c0")
    case True
    then show ?thesis using assms(3) propose_move by (simp add: order_ok_def)
  next
    case False
    with assms(3) propose_move have "gget cs i = Some c" by simp
    from core_okD(7) [OF assms(2) this] show ?thesis unfolding propose_move by (rule order_ok_mono) auto
  qed
next
  case (order_move c0 p e t)
  have "order_ok (ps, vs, cs, fs) i c"
    using assms(3) core_okD(7) [OF assms(2)] order_ok_frame [OF core_okD(7) [OF assms(2) order_move(5)] order_move(9)] order_move(3)
    by (cases "i = cho_ID c0") auto
  then show ?thesis unfolding order_move by (rule order_ok_mono) auto
qed

lemma contents_distinctI:
  assumes "contents_distinct (ps, vs, cs, fs)"
    "fvr_Status w = VersionReview \<Longrightarrow> \<not> (\<exists>m u. m \<noteq> n \<and> gget vs (i, m) = Some u \<and> fvr_Status u = VersionReview \<and> fvr_ContentHash u = fvr_ContentHash w)"
  shows "contents_distinct (qs, gput (i, n) w vs, ds, gs)"
  using assms unfolding contents_distinct_def by (auto; metis)

lemma move_contents:
  assumes "delivery_move (ps, vs, cs, fs) (ps', vs', cs', fs')" "contents_distinct (ps, vs, cs, fs)"
  shows "contents_distinct (ps', vs', cs', fs')"
  using assms(1)
proof cases
  case (first_move p v t)
  show ?thesis unfolding first_move by (rule contents_distinctI [OF assms(2)]) (use first_move in \<open>simp add: new_version_ok_def\<close>)
next
  case (revision_move p u k f v t)
  show ?thesis unfolding revision_move by (rule contents_distinctI [OF assms(2)]) (use revision_move in \<open>simp add: new_version_ok_def\<close>)
next
  case (extra_move p u v c0 e t)
  show ?thesis unfolding extra_move by (rule contents_distinctI [OF assms(2)]) (use extra_move in \<open>simp add: new_version_ok_def\<close>)
next
  case (worker_move j n v w)
  show ?thesis unfolding worker_move by (rule contents_distinctI [OF assms(2)]) (use worker_move(8) in blast)
qed (use assms(2) in \<open>simp_all add: contents_distinct_def\<close>)

lemma feedback_uniqueI:
  assumes "feedback_unique (ps, vs, cs, fs)" "gget fs (fbs_ID f) = None"
    "\<not> (\<exists>k g. gget fs k = Some g \<and> fbs_PackageID g = fbs_PackageID f \<and> fbs_ParentVersion g = fbs_ParentVersion f)"
  shows "feedback_unique (qs, ws, ds, gput (fbs_ID f) f fs)"
  using assms unfolding feedback_unique_def by (auto split: if_splits) metis

lemma move_feedback:
  assumes "delivery_move (ps, vs, cs, fs) (ps', vs', cs', fs')" "feedback_unique (ps, vs, cs, fs)"
  shows "feedback_unique (ps', vs', cs', fs')"
  using assms(1)
proof cases
  case (feedback_move p u f t)
  show ?thesis unfolding feedback_move by (rule feedback_uniqueI [OF assms(2) feedback_move(11,12)])
qed (use assms(2) in \<open>simp_all add: feedback_unique_def\<close>)

lemma move_core_ok: "delivery_move k k' \<Longrightarrow> core_ok k \<Longrightarrow> core_ok k'"
proof (cases k; cases k')
  fix ps vs cs fs ps' vs' cs' fs'
  assume "delivery_move k k'" "core_ok k" "k = (ps, vs, cs, fs)" "k' = (ps', vs', cs', fs')"
  then show "core_ok k'"
    using move_maps [of k k'] move_packages [of ps vs cs fs ps' vs' cs' fs'] move_versions [of ps vs cs fs ps' vs' cs' fs']
      move_orders [of ps vs cs fs ps' vs' cs' fs'] move_contents [of ps vs cs fs ps' vs' cs' fs'] move_feedback [of ps vs cs fs ps' vs' cs' fs']
    by (simp add: core_ok_def)
qed

lemma core_moves_core_ok: "delivery_move\<^sup>*\<^sup>* k k' \<Longrightarrow> core_ok k \<Longrightarrow> core_ok k'"
  by (induction rule: rtranclp_induct) (auto intro: move_core_ok)

end
