(* ===== verification/Delivery_Refine.thy ===== *)
theory Delivery_Refine
  imports Delivery_Machine
begin

text \<open>
  The delivery service implements the machine of \<open>Delivery_Machine\<close>: every call leaves the packages, versions, change
  orders and feedback as they are or makes one move on them.
\<close>

lemma sql_Inr_iff [res_simps]: "formal_conflict x = Inr y \<longleftrightarrow> x = Inr y" "sql_lift x = Inr y \<longleftrightarrow> x = Inr y"
  by (cases x; simp add: formal_conflict_def sql_lift_def)+

section \<open>The tables a helper leaves alone\<close>

lemma move_task_core: "move_task now i ss target d = Inr d' \<Longrightarrow> core_of d' = core_of d"
  by (auto simp: move_task_def core_of_def split: option.splits if_splits)

lemma core_of_updates [simp]:
  "core_of (insert_version_event v s r now d) = core_of d"
  "core_of (insert_change_event i s actor now d) = core_of d"
  "core_of (set_task now i s d) = core_of d"
  "core_of (d\<lparr>dd_tasks := x1\<rparr>) = core_of d" "core_of (d\<lparr>dd_scopes := x2\<rparr>) = core_of d" "core_of (d\<lparr>dd_ledger := x3\<rparr>) = core_of d"
  "core_of (d\<lparr>dd_states := x4\<rparr>) = core_of d" "core_of (d\<lparr>dd_intents := x5\<rparr>) = core_of d" "core_of (d\<lparr>dd_settlements := x6\<rparr>) = core_of d"
  "core_of (d\<lparr>dd_startRequests := x7\<rparr>) = core_of d" "core_of (d\<lparr>dd_feedbackRequests := x8\<rparr>) = core_of d"
  "core_of (d\<lparr>dd_outbox := x9\<rparr>) = core_of d"
  "core_of (store_change_request m y1 c d) = core_of d" "core_of (store_acceptance_request m y2 a d) = core_of d"
  by (simp_all add: core_of_def insert_version_event_def insert_change_event_def set_task_def store_change_request_def
    store_acceptance_request_def split: option.splits)

lemma core_of_puts:
  "core_of d = (ps, vs, cs, fs) \<Longrightarrow> core_of (put_package p d) = (gput (fpk_ID p) p ps, vs, cs, fs)"
  "core_of d = (ps, vs, cs, fs) \<Longrightarrow> core_of (put_version v d) = (ps, gput (fvr_PackageID v, fvr_Number v) (version_row v) vs, cs, fs)"
  "core_of d = (ps, vs, cs, fs) \<Longrightarrow> core_of (put_change_order c d) = (ps, vs, gput (cho_ID c) c cs, fs)"
  by (auto simp: core_of_def put_package_def put_version_def put_change_order_def)

lemma core_of_eqD:
  "core_of d' = core_of d \<Longrightarrow> dd_packages d' = dd_packages d \<and> dd_versions d' = dd_versions d \<and> dd_changeOrders d' = dd_changeOrders d \<and> dd_feedback d' = dd_feedback d"
  by (simp add: core_of_def)

section \<open>Rows found by a query\<close>

lemma core_okD_db:
  assumes "core_ok (core_of d)"
  shows "gwf (dd_packages d)" "gwf (dd_versions d)" "gwf (dd_changeOrders d)" "gwf (dd_feedback d)"
    "gget (dd_packages d) i = Some p \<Longrightarrow> package_ok (core_of d) i p" "gget (dd_versions d) (i, n) = Some v \<Longrightarrow> version_ok (core_of d) i n v"
    "gget (dd_changeOrders d) i = Some c \<Longrightarrow> order_ok (core_of d) i c" "feedback_unique (core_of d)"
  using core_okD [of "dd_packages d" "dd_versions d" "dd_changeOrders d" "dd_feedback d"] assms by (auto simp: core_of_def)

lemma package_of_taskD:
  assumes "core_ok (core_of d)" "package_of_task taskID publisherID d = Some p"
  shows "gget (dd_packages d) (fpk_ID p) = Some p" "fpk_TaskID p = taskID" "fpk_PublisherID p = publisherID"
proof -
  from assms(2) have p: "p \<in> set (gvals (dd_packages d))" "fpk_TaskID p = taskID" "fpk_PublisherID p = publisherID"
    by (auto simp: package_of_task_def find_Some_iff)
  then obtain i where i: "gget (dd_packages d) i = Some p" using gvals_mem [OF core_okD_db(1) [OF assms(1)]] by blast
  from core_okD_db(5) [OF assms(1) i] have "fpk_ID p = i" by (simp add: package_ok_def core_of_def)
  with p i show "gget (dd_packages d) (fpk_ID p) = Some p" "fpk_TaskID p = taskID" "fpk_PublisherID p = publisherID" by simp_all
qed

lemma version_of_executionD:
  assumes "core_ok (core_of d)" "version_of_execution i d = Some v"
  shows "gget (dd_versions d) (fvr_PackageID v, fvr_Number v) = Some v" "fvr_LogicalExecutionID v = i"
proof -
  from assms(2) have v: "v \<in> set (gvals (dd_versions d))" "fvr_LogicalExecutionID v = i"
    by (auto simp: version_of_execution_def find_Some_iff)
  then obtain k n where k: "gget (dd_versions d) (k, n) = Some v" using gvals_mem [OF core_okD_db(2) [OF assms(1)]] by force
  from core_okD_db(6) [OF assms(1) k] have "fvr_PackageID v = k" "fvr_Number v = n" by (simp_all add: version_ok_def core_of_def)
  with v k show "gget (dd_versions d) (fvr_PackageID v, fvr_Number v) = Some v" "fvr_LogicalExecutionID v = i" by simp_all
qed

lemma change_order_ofD:
  assumes "core_ok (core_of d)" "change_order_of i taskID d = Some c"
  shows "gget (dd_changeOrders d) i = Some c" "cho_ID c = i" "cho_TaskID c = taskID"
  using assms(2) core_okD_db(7) [OF assms(1)] by (auto simp: change_order_of_def core_of_def order_ok_def split: option.splits if_splits)

section \<open>The worker\<close>

lemma version_row_frame [simp]:
  "version_frame v (version_row w) = version_frame v w" "fvr_Status (version_row w) = fvr_Status w" "fvr_ContentHash (version_row w) = fvr_ContentHash w"
  "fvr_PackageID (version_row w) = fvr_PackageID w" "fvr_Number (version_row w) = fvr_Number w"
  by (simp_all add: version_row_def version_frame_def)

lemma put_version_move:
  assumes "gget (dd_versions d) (fvr_PackageID v, fvr_Number v) = Some v" "version_edge (fvr_Status v) (fvr_Status w)" "version_frame v w"
    "fvr_Status w = VersionReview \<Longrightarrow> \<not> duplicate_version_content v (fvr_ContentHash w) d" "core_of d' = core_of (put_version w d)"
    "core_ok (core_of d)"
  shows "delivery_move (core_of d) (core_of d')"
proof -
  have "\<not> (\<exists>m u. m \<noteq> fvr_Number v \<and> gget (dd_versions d) (fvr_PackageID v, m) = Some u \<and> fvr_Status u = VersionReview \<and>
      fvr_ContentHash u = fvr_ContentHash (version_row w))" if review: "fvr_Status w = VersionReview"
  proof clarify
    fix m u
    assume u: "m \<noteq> fvr_Number v" "gget (dd_versions d) (fvr_PackageID v, m) = Some u" "fvr_Status u = VersionReview"
      "fvr_ContentHash u = fvr_ContentHash (version_row w)"
    then have "fvr_PackageID u = fvr_PackageID v" "fvr_Number u = m"
      using core_okD_db(6) [OF assms(6) u(2)] by (simp_all add: version_ok_def core_of_def)
    with u have "duplicate_version_content v (fvr_ContentHash w) d"
      unfolding duplicate_version_content_def list_ex_iff by (intro bexI [of _ u] gvals_memI [OF u(2)]) simp
    with assms(4) [OF review] show False by simp
  qed
  moreover have "core_of d' = (dd_packages d, gput (fvr_PackageID v, fvr_Number v) (version_row w) (dd_versions d), dd_changeOrders d, dd_feedback d)"
    using assms(3) unfolding assms(5) by (simp add: core_of_def put_version_def version_frame_def)
  ultimately show ?thesis
    using worker_move [of "dd_versions d" "fvr_PackageID v" "fvr_Number v" v "version_row w" "dd_packages d" "dd_changeOrders d" "dd_feedback d"]
      assms(1-3) by (simp add: core_of_def)
qed

lemma dispatched_move:
  assumes "core_ok (core_of d)" "store_record_dispatched now i d = Inr (r, d')"
  shows "core_of d' = core_of d \<or> delivery_move (core_of d) (core_of d')"
proof -
  from assms(2) obtain v where v: "version_of_execution i d = Some v" by (auto simp: store_record_dispatched_def res_simps)
  note row = version_of_executionD(1) [OF assms(1) v]
  show ?thesis
  proof (cases "fvr_Status v = VersionGenerating")
    case True
    then show ?thesis using assms(2) v by (simp add: store_record_dispatched_def)
  next
    case False
    let ?w = "v\<lparr>fvr_Status := VersionGenerating, fvr_UpdatedAt := now\<rparr>"
    from False assms(2) v have "fvr_Status v = VersionAllocated" "core_of d' = core_of (put_version ?w d)"
      by (auto simp: store_record_dispatched_def Let_def split: if_splits)
    then show ?thesis using put_version_move [OF row, of ?w d'] assms(1) by (simp add: version_edge_def version_frame_def)
  qed
qed

lemma record_review_core:
  assumes "record_review now v q h pr d = Inr (w, d')"
  obtains r where "pr = Some r" "proof_matches v q r" "w = reviewed_version now v q h r" "core_of d' = core_of (put_version w d)"
proof -
  from assms obtain r x where "pr = Some r" "proof_matches v q r" "version_charge v d = Inr x" "w = reviewed_version now v q h r"
    "core_of d' = core_of (put_version w d)"
    by (auto simp: record_review_def res_simps Let_def put_version_def core_of_def split: option.splits if_splits prod.splits dest!: move_task_core)
  with that show thesis by blast
qed

lemma record_failure_core:
  assumes "record_failure now v q h reason d = Inr (w, d')"
  shows "version_frame v w" "fvr_Status w = VersionFailed" "core_of d' = core_of (put_version w d)"
  using assms by (auto simp: record_failure_def res_simps Let_def version_frame_def split: if_splits dest!: move_task_core)

lemma result_fresh_move:
  assumes "core_ok (core_of d)" "gget (dd_versions d) (fvr_PackageID v, fvr_Number v) = Some v" "result_fresh now v q h pr d = Inr (w, d')"
  shows "delivery_move (core_of d) (core_of d')"
proof -
  from assms(3) have edge: "version_edge (fvr_Status v) s" if "s = VersionReview \<or> s = VersionFailed" for s
    using that by (auto simp: result_fresh_def version_edge_def split: if_splits)
  from assms(3) consider d1 reason where "record_failure now v q h reason d = Inr (w, d1)" "core_of d' = core_of d1"
    | d1 where "record_review now v q h pr d = Inr (w, d1)" "core_of d' = core_of d1" "\<not> duplicate_version_content v (exr_ContentHash q) d"
    by (auto simp: result_fresh_def res_simps split: if_splits)
  then show ?thesis
  proof cases
    case (1 d1 reason)
    note f = record_failure_core [OF this(1)]
    then show ?thesis using put_version_move [OF assms(2), of w d'] edge [of "fvr_Status w"] 1(2) assms(1) by simp
  next
    case (2 d1)
    from record_review_core [OF this(1)] obtain r where "w = reviewed_version now v q h r" "core_of d1 = core_of (put_version w d)" .
    then show ?thesis using put_version_move [OF assms(2), of w d'] edge [of "fvr_Status w"] 2(2,3) assms(1)
      by (simp add: reviewed_version_def version_frame_def)
  qed
qed

lemma result_move:
  assumes "core_ok (core_of d)" "store_record_result E now q pr d = Inr (r, d')"
  shows "core_of d' = core_of d \<or> delivery_move (core_of d) (core_of d')"
proof -
  from assms(2) obtain v where v: "version_of_execution (exr_LogicalExecutionID q) d = Some v"
    by (auto simp: store_record_result_def res_simps Let_def)
  with assms(2) version_of_executionD(1) [OF assms(1) v] show ?thesis
    by (auto simp: store_record_result_def res_simps Let_def split: if_splits dest!: result_fresh_move [OF assms(1)])
qed

section \<open>Feedback and change orders\<close>

lemma is_reviewedI:
  "gget (dd_versions d) (fpk_ID p, n) = Some v \<Longrightarrow> n = fpk_AllocatedVersion p \<Longrightarrow> fvr_Status v = VersionReview \<Longrightarrow> is_reviewed (dd_versions d) p v"
  by (simp add: is_reviewed_def)

lemma touch_package_core:
  "core_of (touch_package now p (fpk_AggregateVersion p + 1) d) = (gput (fpk_ID p) (touched now p) (dd_packages d), dd_versions d, dd_changeOrders d, dd_feedback d)"
  by (simp add: touch_package_def put_package_def touched_def core_of_def)

lemma feedback_move_call:
  assumes "core_ok (core_of d)" "feedback_fresh now m taskID q (feedback_draft E q) d = Inr (f, d')"
  shows "delivery_move (core_of d) (core_of d')"
proof -
  let ?f = "\<lambda>p v. (feedback_draft E q)\<lparr>fbs_PackageID := fpk_ID p, fbs_ScopeID := fvr_ScopeID v, fbs_ScopeHash := fvr_ScopeHash v,
    fbs_PackageAggregateVersion := fpk_AggregateVersion p + 1, fbs_CreatedAt := now\<rparr>"
  from assms(2) obtain p v d1 where p: "package_of_task taskID (dmu_PublisherID m) d = Some p" and v: "gget (dd_versions d) (fpk_ID p, fbq_ParentVersion q) = Some v"
    and eqs: "fbq_ParentVersion q = fpk_AllocatedVersion p" "fvr_Status v = VersionReview" "fvr_ContentHash v = fbq_ParentContentHash q"
      "fpk_AllocatedVersion p < fpk_MaximumVersions p" and ins: "insert_feedback (?f p v) d = Inr d1"
    and d': "core_of d' = core_of (touch_package now p (fpk_AggregateVersion p + 1) d1)"
    by (auto simp: feedback_fresh_def res_simps Let_def split: if_splits dest!: move_task_core)
  from ins have d1: "d1 = d\<lparr>dd_feedback := gput (fbs_ID (?f p v)) (?f p v) (dd_feedback d)\<rparr>" and none: "gget (dd_feedback d) (fbs_ID (?f p v)) = None"
    and fresh: "\<not> (\<exists>k g. gget (dd_feedback d) k = Some g \<and> fbs_PackageID g = fbs_PackageID (?f p v) \<and> fbs_ParentVersion g = fbs_ParentVersion (?f p v))"
    by (auto simp: insert_feedback_def list_ex_iff dest: gvals_memI split: if_splits)
  have pv: "fbs_ParentVersion (?f p v) = fpk_AllocatedVersion p" "fbs_ParentContentHash (?f p v) = fvr_ContentHash v" "fbs_PackageID (?f p v) = fpk_ID p"
    using eqs by (simp_all add: feedback_draft_def Let_def)
  from feedback_move [OF package_of_taskD(1) [OF assms(1) p] is_reviewedI [OF v eqs(1,2)] eqs(4) pv(3,1,2) none fresh, of "dd_changeOrders d" now]
  show ?thesis unfolding d' touch_package_core d1 by (simp add: core_of_def)
qed

lemma propose_move_call:
  assumes "core_ok (core_of d)" "propose_fresh now m taskID q (change_draft E taskID q) d = Inr (c, d')"
  shows "delivery_move (core_of d) (core_of d')"
proof -
  let ?c = "\<lambda>p v. (change_draft E taskID q)\<lparr>cho_BaseScopeID := fvr_ScopeID v, cho_BaseScopeHash := fvr_ScopeHash v,
    cho_PackageAggregateVersion := fpk_AggregateVersion p + 1, cho_CreatedAt := now, cho_UpdatedAt := now\<rparr>"
  from assms(2) obtain p v d1 where p: "package_of_task taskID (dmu_PublisherID m) d = Some p" and v: "gget (dd_versions d) (fpk_ID p, prq_TriggerVersion q) = Some v"
    and eqs: "prq_TriggerVersion q = fpk_AllocatedVersion p" "fvr_Status v = VersionReview" "IncludedVersions \<le> fpk_AllocatedVersion p"
      "fpk_AllocatedVersion p < MaximumVersions" "prq_PackageID q = fpk_ID p" and named: "feedback_named q p d" and ins: "insert_change_order (?c p v) d = Inr d1"
    and d': "core_of d' = core_of (touch_package now p (fpk_AggregateVersion p + 1) d1)"
    by (auto simp: propose_fresh_def res_simps Let_def split: if_splits)
  from ins have d1: "d1 = put_change_order (?c p v) d" and none: "gget (dd_changeOrders d) (cho_ID (?c p v)) = None"
    and fresh: "\<not> (\<exists>k e. gget (dd_changeOrders d) k = Some e \<and> cho_PackageID e = cho_PackageID (?c p v) \<and> cho_TargetVersion e = cho_TargetVersion (?c p v))"
    by (auto simp: insert_change_order_def list_ex_iff dest: gvals_memI split: if_splits)
  from named obtain f where f: "gget (dd_feedback d) (prq_FeedbackSetID q) = Some f" "fbs_PackageID f = fpk_ID p" "fbs_ParentVersion f = fpk_AllocatedVersion p"
    using eqs(1) by (auto simp: feedback_named_def split: option.splits)
  have cv: "cho_PackageID (?c p v) = fpk_ID p" "cho_TargetVersion (?c p v) = fpk_AllocatedVersion p + 1" "cho_TriggerVersion (?c p v) = fpk_AllocatedVersion p"
    "cho_Status (?c p v) = ChangeResponsibilityPending" "gget (dd_feedback d) (cho_FeedbackSetID (?c p v)) = Some f"
    using eqs f by (simp_all add: change_draft_def Let_def)
  from propose_move [OF package_of_taskD(1) [OF assms(1) p] is_reviewedI [OF v eqs(1,2)] eqs(3,4) none fresh cv f(2,3), of now]
  show ?thesis unfolding d' touch_package_core d1 by (simp add: core_of_def put_change_order_def)
qed

text \<open>The change orders of a package move along the edges, each time with the version of the package.\<close>

lemma order_move_call:
  assumes "core_ok (core_of d)" "gget (dd_changeOrders d) (cho_ID c) = Some c" "gget (dd_packages d) (cho_PackageID c) = Some p"
    "change_edge (cho_Status c) (cho_Status e)" "order_frame c e" "core_of d1 = core_of (put_change_order e d)"
    "core_of d' = core_of (touch_package now p (fpk_AggregateVersion p + 1) d1)"
  shows "delivery_move (core_of d) (core_of d')"
proof -
  have p: "fpk_ID p = cho_PackageID c" using core_okD_db(5) [OF assms(1,3)] by (simp add: package_ok_def core_of_def)
  have "cho_ID e = cho_ID c" using assms(5) by (simp add: order_frame_def)
  with core_of_eqD [OF assms(6)] have "core_of d' = (gput (fpk_ID p) (touched now p) (dd_packages d), dd_versions d, gput (cho_ID c) e (dd_changeOrders d), dd_feedback d)"
    unfolding assms(7) touch_package_core by (simp add: put_change_order_def)
  moreover have "gget (dd_packages d) (fpk_ID p) = Some p" "cho_PackageID c = fpk_ID p" using assms(3) p by simp_all
  ultimately show ?thesis using order_move [OF assms(2) _ _ assms(4,5)] core_of_def [of d] by metis
qed

lemma decide_move_call:
  assumes "core_ok (core_of d)" "decide_fresh E C now m taskID i q d = Inr (e, d')"
  shows "delivery_move (core_of d) (core_of d')"
proof -
  from assms(2) obtain c p w d1 where c: "change_order_of i taskID d = Some c" and p: "gget (dd_packages d) (cho_PackageID c) = Some p"
    and "cho_Status c = ChangeResponsibilityPending" and d1: "open_change_account C now taskID c w d = Inr d1"
    and e: "e = decided_order now q w (fpk_AggregateVersion p) c"
    and d': "core_of d' = core_of (touch_package now p (fpk_AggregateVersion p + 1) (put_change_order e d1))"
    by (auto simp: decide_fresh_def res_simps Let_def decided_order_def)
  moreover from d1 have "core_of (put_change_order e d1) = core_of (put_change_order e d)"
    by (auto simp: open_change_account_def res_simps core_of_def put_change_order_def split: if_splits)
  moreover have "change_edge ChangeResponsibilityPending (cho_Status e)" "order_frame c e"
    using e by (simp_all add: decided_order_def order_frame_def change_edge_def)
  ultimately show ?thesis
    using order_move_call [OF assms(1) _ p, of e "put_change_order e d1" d' now] change_order_ofD [OF assms(1) c] by simp
qed

lemma accept_write_core:
  assumes "accept_write now m p c d = Inr (e, d1)"
  shows "change_edge (cho_Status c) (cho_Status e)" "order_frame c e" "core_of d1 = core_of (put_change_order e d)"
    "cho_PackageAggregateVersion e = fpk_AggregateVersion p + 1"
  using assms by (auto simp: accept_write_def Let_def change_edge_def order_frame_def accepted_order_def split: if_splits)

lemma activate_write_core:
  assumes "activate_write E now m taskID p c d = Inr (e, d1)"
  shows "change_edge (cho_Status c) (cho_Status e)" "order_frame c e" "core_of d1 = core_of (put_change_order e d)"
    "cho_PackageAggregateVersion e = fpk_AggregateVersion p + 1"
proof -
  from assms obtain d0 d2 scope where "freeze_account now c d = Inr d0" "activate_scope E now c d0 = Inr (scope, d2)"
    and st: "cho_Status c = ChangeReady \<or> cho_Status c = ChangeAwaitingFunding" and e: "e = activated_order now (fpk_AggregateVersion p) scope c"
    and d1: "core_of d1 = core_of (put_change_order e d2)"
    by (auto simp: activate_write_def res_simps Let_def split: if_splits dest!: move_task_core)
  then have "core_of d2 = core_of d"
    by (auto simp: freeze_account_def activate_scope_def insert_scope_def res_simps Let_def split: if_splits option.splits)
  then show "core_of d1 = core_of (put_change_order e d)" using d1 by (simp add: core_of_def put_change_order_def)
  show "change_edge (cho_Status c) (cho_Status e)" "order_frame c e" "cho_PackageAggregateVersion e = fpk_AggregateVersion p + 1"
    using st e by (auto simp: activated_order_def order_frame_def change_edge_def)
qed

lemma transition_move_call:
  assumes "core_ok (core_of d)" "transition_fresh E now m isAdmin taskID i operation q d = Inr (e, d')"
  shows "delivery_move (core_of d) (core_of d')"
proof -
  from assms(2) obtain c p d1 where c: "change_order_of i taskID d = Some c" and p: "gget (dd_packages d) (cho_PackageID c) = Some p"
    and w: "(if operation = ''accept'' then accept_write now m p c d else activate_write E now m taskID p c d) = Inr (e, d1)"
    and d': "d' = touch_package now p (cho_PackageAggregateVersion e) d1"
    by (auto simp: transition_fresh_def res_simps)
  have "change_edge (cho_Status c) (cho_Status e)" "order_frame c e" "core_of d1 = core_of (put_change_order e d)"
    "cho_PackageAggregateVersion e = fpk_AggregateVersion p + 1"
    using w accept_write_core [of now m p c d e d1] activate_write_core [of E now m taskID p c d e d1] by (auto split: if_splits)
  then show ?thesis
    using order_move_call [OF assms(1) _ p, of e d1 d' now] change_order_ofD [OF assms(1) c] d' by simp
qed

section \<open>Start\<close>

lemma gput_gput: "gput k v (gput k w m) = gput k v m"
  by (induction m) (auto simp: gput_def)

definition consumed_order :: "gotime \<Rightarrow> int \<Rightarrow> change_order \<Rightarrow> change_order" where
  "consumed_order now aggregate c =
     c\<lparr>cho_Status := ChangeConsumed, cho_AggregateVersion := cho_AggregateVersion c + 1, cho_PackageAggregateVersion := aggregate,
       cho_ConsumedAt := Some now, cho_UpdatedAt := now\<rparr>"

lemma consumed_order_frame: "order_frame c (consumed_order now a c)" "cho_Status (consumed_order now a c) = ChangeConsumed"
  by (simp_all add: consumed_order_def order_frame_def)

lemma version_row_allocated [simp]: "version_row (allocated_version E now p scope n a q) = allocated_version E now p scope n a q"
  by (simp add: version_row_def allocated_version_def)

text \<open>What \<open>Start\<close> writes of the core, with the change orders it leaves.\<close>

definition started_core :: "gotime \<Rightarrow> formal_package \<Rightarrow> formal_version \<Rightarrow> (string, change_order) gomap \<Rightarrow> delivery_db \<Rightarrow> delivery_core" where
  "started_core now p v cs d =
     (gput (fpk_ID p) (advanced now p) (dd_packages d), gput (fpk_ID p, fpk_AllocatedVersion p + 1) v (dd_versions d), cs, dd_feedback d)"

lemma consume_change_order_core:
  assumes "consume_change_order now publisherID a i d = Inr d'"
  shows "i = [] \<and> d' = d \<or> i \<noteq> [] \<and> (\<exists>c. gget (dd_changeOrders d) i = Some c \<and> cho_Status c = ChangeEffective \<and>
    core_of d' = (dd_packages d, dd_versions d, gput i (consumed_order now a c) (dd_changeOrders d), dd_feedback d))"
  using assms by (auto simp: consume_change_order_def consumed_order_def insert_change_event_def core_of_def split: if_splits option.splits)

lemma start_write_core:
  assumes "start_write E now m taskID q s p scope (fpk_AllocatedVersion p + 1) (fpk_AggregateVersion p + 1) deadline resp d = Inr (r, d')"
    "v = allocated_version E now p scope (fpk_AllocatedVersion p + 1) (fpk_AggregateVersion p + 1) q"
  shows "gget (dd_versions d) (fpk_ID p, fpk_AllocatedVersion p + 1) = None"
    "stq_ChangeOrderID q = [] \<Longrightarrow> core_of d' = started_core now p v (dd_changeOrders d) d"
    "stq_ChangeOrderID q \<noteq> [] \<Longrightarrow> \<exists>c. gget (dd_changeOrders d) (stq_ChangeOrderID q) = Some c \<and> cho_Status c = ChangeEffective \<and>
       core_of d' = started_core now p v (gput (stq_ChangeOrderID q) (consumed_order now (fpk_AggregateVersion p + 1) c) (dd_changeOrders d)) d"
proof -
  have k: "fvr_PackageID v = fpk_ID p" "fvr_Number v = fpk_AllocatedVersion p + 1" by (simp_all add: assms(2) allocated_version_def)
  from assms obtain d1 d2 where d1: "insert_version v d = Inr d1"
    and d2: "consume_change_order now (dmu_PublisherID m) (fpk_AggregateVersion p + 1) (stq_ChangeOrderID q) (put_package (advanced now p) d1) = Inr d2"
    and d': "core_of d' = core_of d2"
    by (auto simp: start_write_def res_simps Let_def advanced_def dest!: move_task_core)
  from d1 k show "gget (dd_versions d) (fpk_ID p, fpk_AllocatedVersion p + 1) = None" by (auto simp: insert_version_def split: if_splits)
  have "version_row v = v" by (simp add: assms(2))
  with d1 k have "dd_packages d1 = dd_packages d" "dd_versions d1 = gput (fpk_ID p, fpk_AllocatedVersion p + 1) v (dd_versions d)"
    "dd_changeOrders d1 = dd_changeOrders d" "dd_feedback d1 = dd_feedback d" by (auto simp: insert_version_def put_version_def split: if_splits)
  with consume_change_order_core [OF d2] show
    "stq_ChangeOrderID q = [] \<Longrightarrow> core_of d' = started_core now p v (dd_changeOrders d) d"
    "stq_ChangeOrderID q \<noteq> [] \<Longrightarrow> \<exists>c. gget (dd_changeOrders d) (stq_ChangeOrderID q) = Some c \<and> cho_Status c = ChangeEffective \<and>
       core_of d' = started_core now p v (gput (stq_ChangeOrderID q) (consumed_order now (fpk_AggregateVersion p + 1) c) (dd_changeOrders d)) d"
    unfolding d' by (auto simp: put_package_def core_of_def started_core_def)
qed

lemma start_package_first:
  assumes "package_of_task taskID (dmu_PublisherID m) d = None" "start_package E now m taskID q s d = Inr ((p, scope), d1)"
  shows "p = new_package E now (dmu_PublisherID m) taskID s scope" "gget (dd_packages d) (fpk_ID p) = None"
    "core_of d1 = core_of (put_package p d)" "stq_Revision q = None"
  using assms by (auto simp: start_package_def res_simps Let_def insert_scope_def core_of_def put_package_def split: if_splits)

lemma start_package_next:
  assumes "package_of_task taskID (dmu_PublisherID m) d = Some p'" "start_package E now m taskID q s d = Inr ((p, scope), d1)"
  shows "p = p'" "d1 = d"
  using assms by (auto simp: start_package_def res_simps split: if_splits)

lemma start_first_move:
  assumes "package_of_task taskID (dmu_PublisherID m) d = None" "start_package E now m taskID q s d = Inr ((p, scope), d1)"
    "next_included_version p previous q = Inr (n, a)" "start_write E now m taskID q s p scope' n a deadline resp d1 = Inr (r, d')"
  shows "delivery_move (core_of d) (core_of d')"
proof -
  note p = start_package_first [OF assms(1,2)]
  have z: "fpk_AllocatedVersion p = 0" "fpk_IncludedVersions p = IncludedVersions" "fpk_MaximumVersions p = MaximumVersions"
    unfolding p(1) by (simp_all add: new_package_def)
  from assms(3) have q: "n = fpk_AllocatedVersion p + 1" "a = fpk_AggregateVersion p + 1" "stq_ChangeOrderID q = []" "stq_WorkNonce q = 1"
    unfolding next_included_version_Inr using z by auto
  define v where "v = allocated_version E now p scope' n a q"
  note w = start_write_core [OF assms(4) [unfolded q(1,2)], of v, folded q(1,2), OF v_def]
  have v: "new_version_ok p 1 v" "fvr_ChangeOrderID v = []" using q by (simp_all add: v_def new_version_ok_def allocated_version_def)
  have "gget (dd_versions d) (fpk_ID p, 1) = None" using w(1) z q p(3) by (simp add: core_of_def put_package_def)
  from first_move [OF p(2) this z v, of "dd_changeOrders d" "dd_feedback d" now]
  show ?thesis using w(2) [OF q(3)] p(3) z by (simp add: started_core_def core_of_def put_package_def gput_gput)
qed

lemma start_next_move:
  assumes "core_ok (core_of d)" "package_of_task taskID (dmu_PublisherID m) d = Some p" "authorize_revision (dmu_PublisherID m) taskID q d = Inr ()"
    "start_previous p d = Inr previous" "next_included_version p previous q = Inr (n, a)"
    "start_terms now (dmu_PublisherID m) taskID p scope s n q d = Inr (scope', deadline, resp)"
    "start_write E now m taskID q s p scope' n a deadline resp d = Inr (r, d')"
  shows "delivery_move (core_of d) (core_of d')"
proof -
  note gp = package_of_taskD [OF assms(1,2)]
  have pok: "package_ok (core_of d) (fpk_ID p) p" by (rule core_okD_db(5) [OF assms(1) gp(1)])
  then have z: "1 \<le> fpk_AllocatedVersion p" "fpk_IncludedVersions p = IncludedVersions" "fpk_MaximumVersions p = MaximumVersions"
    by (simp_all add: package_ok_def core_of_def)
  from assms(4) z have "map_option Some (gget (dd_versions d) (fpk_ID p, fpk_AllocatedVersion p)) = Some previous"
    by (auto simp: start_previous_def res_simps split: if_splits)
  moreover from assms(5) z obtain u b where n: "n = fpk_AllocatedVersion p + 1" "a = fpk_AggregateVersion p + 1" "n \<le> MaximumVersions"
    and u: "previous = Some u" "stq_Revision q = Some b" "rvb_ParentVersion b = fpk_AllocatedVersion p" "fvr_Status u = VersionReview"
    "stq_WorkNonce q = fvr_WorkNonce u + 1" "stq_ChangeOrderID q = [] \<longleftrightarrow> n \<le> IncludedVersions"
    unfolding next_included_version_Inr by (auto split: if_splits)
  ultimately have rev: "is_reviewed (dd_versions d) p u" by (auto simp: is_reviewed_def)
  from assms(3) u(2) gp obtain f where f: "gget (dd_feedback d) (rvb_FeedbackSetID b) = Some f" "fbs_PackageID f = fpk_ID p"
    "revision_valid q b p f d"
    using assms(2) by (auto simp: authorize_revision_def feedback_for_def split: option.splits if_splits)
  then have fp: "fbs_ParentVersion f = fpk_AllocatedVersion p" "stq_ChangeOrderID q = [] \<Longrightarrow> in_scope_only f" using u(3) by (auto simp: revision_valid_def)
  define v where "v = allocated_version E now p scope' n a q"
  note w = start_write_core [OF assms(7) [unfolded n(1,2)], of v, folded n(1,2), OF v_def]
  have v: "new_version_ok p (fvr_WorkNonce u + 1) v" "fvr_ChangeOrderID v = stq_ChangeOrderID q"
    using n u by (simp_all add: v_def new_version_ok_def allocated_version_def)
  show ?thesis
  proof (cases "stq_ChangeOrderID q = []")
    case True
    then show ?thesis
      using revision_move [OF gp(1) rev w(1) [unfolded n(1)] _ f(1,2) fp(1) fp(2) [OF True] v(1), of "dd_changeOrders d" now] w(2) u(6) n z v(2)
      by (simp add: started_core_def core_of_def)
  next
    case False
    with w(3) obtain c where c: "gget (dd_changeOrders d) (fvr_ChangeOrderID v) = Some c" "cho_Status c = ChangeEffective"
      and d': "core_of d' = started_core now p v (gput (stq_ChangeOrderID q) (consumed_order now a c) (dd_changeOrders d)) d" unfolding v(2) by blast
    have i: "cho_ID c = fvr_ChangeOrderID v" using core_okD_db(7) [OF assms(1) c(1)] by (simp add: order_ok_def core_of_def)
    from assms(6) False c(1) u(2) have "cho_PackageID c = fpk_ID p" "cho_TargetVersion c = n"
      by (auto simp: start_terms_def authorize_change_order_def v(2) split: if_splits)
    from extra_move [OF gp(1) rev w(1) [unfolded n(1)] _ _ c this [unfolded n(1)] consumed_order_frame v(1), of "dd_feedback d" now now a] show ?thesis
      using u(6) False n z i v(2) d' by (simp add: started_core_def core_of_def)
  qed
qed

lemma start_fresh_move:
  assumes "core_ok (core_of d)" "start_fresh E now m taskID q d = Inr (r, d')"
  shows "delivery_move (core_of d) (core_of d')"
proof -
  from assms(2) obtain s p scope d1 previous n a scope' deadline resp where sp: "start_package E now m taskID q s d = Inr ((p, scope), d1)"
    and st: "authorize_revision (dmu_PublisherID m) taskID q d1 = Inr ()" "start_previous p d1 = Inr previous"
      "next_included_version p previous q = Inr (n, a)" "start_terms now (dmu_PublisherID m) taskID p scope s n q d1 = Inr (scope', deadline, resp)"
      "start_write E now m taskID q s p scope' n a deadline resp d1 = Inr (r, d')"
    by (auto simp: start_fresh_def res_simps)
  show ?thesis
  proof (cases "package_of_task taskID (dmu_PublisherID m) d")
    case None
    then show ?thesis using start_first_move [OF None sp st(3,5)] by simp
  next
    case (Some p')
    note e = start_package_next [OF Some sp]
    from start_next_move [OF assms(1) Some [folded e(1)] st [unfolded e(2)]] show ?thesis .
  qed
qed

section \<open>Acceptance\<close>

lemma intent_fresh_core: "intent_fresh now m taskID q a d = Inr (r, d') \<Longrightarrow> core_of d' = core_of d"
  by (auto simp: intent_fresh_def res_simps Let_def insert_intent_def append_acceptance_state_def split: option.splits if_splits)

lemma settle_change_order_core: "settle_change_order E now a c b i d = Inr d' \<Longrightarrow> core_of d' = core_of d"
  by (auto simp: settle_change_order_def res_simps Let_def split: if_splits)

lemma settle_acceptance_core: "settle_acceptance E now a i d = Inr d' \<Longrightarrow> core_of d' = core_of d"
  by (auto simp: settle_acceptance_def dest: settle_change_order_core split: option.splits if_splits)

lemma append_acceptance_state_core: "append_acceptance_state a s t i now d = Inr d' \<Longrightarrow> core_of d' = core_of d"
  by (auto simp: append_acceptance_state_def split: if_splits)

lemma acceptance_fresh_core:
  assumes "acceptance_fresh E now m taskID i q b d = Inr (r, d')"
  shows "core_of d' = core_of d"
proof -
  from assms obtain a x where "(if b then reconcile_acceptance E now a d else submit_acceptance now a q d) = Inr (x, d')"
    by (auto simp: acceptance_fresh_def res_simps)
  then show ?thesis
    by (auto simp: reconcile_acceptance_def submit_acceptance_def res_simps Let_def dest!: settle_acceptance_core append_acceptance_state_core split: if_splits)
qed

section \<open>Every call\<close>

definition core_moves :: "delivery_db \<Rightarrow> delivery_db \<Rightarrow> bool" where
  "core_moves d d' \<longleftrightarrow> core_of d' = core_of d \<or> delivery_move (core_of d) (core_of d')"

lemma core_moves_refl [simp]: "core_moves d d" "core_moves d (fst (refuse e d))"
  by (simp_all add: core_moves_def refuse_def)

lemma core_moves_if [simp]:
  "core_moves d (fst ((if b then f else g) d)) \<longleftrightarrow> (if b then core_moves d (fst (f d)) else core_moves d (fst (g d)))"
  "core_moves d (fst (if b then x else y)) \<longleftrightarrow> (if b then core_moves d (fst x) else core_moves d (fst y))"
  by simp_all

lemma run_tx_moves [simp]: "(\<And>x d'. f d = Inr (x, d') \<Longrightarrow> core_moves d d') \<Longrightarrow> core_moves d (fst (run_tx f d))"
  by (cases "f d") (auto simp: run_tx_def)

lemma core_moves_core [simp]:
  "core_moves d (store_change_request m y1 c e) = core_moves d e" "core_moves d (store_acceptance_request m y2 a e) = core_moves d e"
  by (simp_all add: core_moves_def)

lemma core_movesI: "core_of d' = core_of d \<Longrightarrow> core_moves d d'" "delivery_move (core_of d) (core_of d') \<Longrightarrow> core_moves d d'"
    "core_of d' = core_of d \<or> delivery_move (core_of d) (core_of d') \<Longrightarrow> core_moves d d'"
  by (auto simp: core_moves_def)

lemma change_once_moves:
  assumes "change_once m op1 f d = Inr (x, d1)" "\<And>c d'. f d = Inr (c, d') \<Longrightarrow> core_moves d d'"
  shows "core_moves d d1"
  using assms by (auto simp: change_once_def res_simps split: option.splits sum.splits)

lemma acceptance_once_moves:
  assumes "acceptance_once m op1 f d = Inr (x, d1)" "\<And>c d'. f d = Inr (c, d') \<Longrightarrow> core_moves d d'"
  shows "core_moves d d1"
  using assms by (auto simp: acceptance_once_def res_simps split: option.splits sum.splits)

lemmas fresh_moves = start_fresh_move [THEN core_movesI(2)] feedback_move_call [THEN core_movesI(2)] propose_move_call [THEN core_movesI(2)]
  decide_move_call [THEN core_movesI(2)] transition_move_call [THEN core_movesI(2)] intent_fresh_core [THEN core_movesI(1)] acceptance_fresh_core [THEN core_movesI(1)]
  dispatched_move [THEN core_movesI(3)] result_move [THEN core_movesI(3)]

lemma store_start_moves: "core_ok (core_of d) \<Longrightarrow> store_start E now m t q d = Inr (x, d') \<Longrightarrow> core_moves d d'"
  by (auto simp: store_start_def res_simps intro: fresh_moves split: option.splits if_splits)

lemma store_submit_feedback_moves:
  "core_ok (core_of d) \<Longrightarrow> store_submit_feedback now m t q (feedback_draft E q) d = Inr (x, d') \<Longrightarrow> core_moves d d'"
  by (auto simp: store_submit_feedback_def res_simps intro: fresh_moves split: option.splits if_splits)

lemma start_moves: "core_ok (core_of d) \<Longrightarrow> core_moves d (fst (dl_start E now s key taskID q d))"
  by (auto simp: dl_start_def split: sum.splits intro!: run_tx_moves store_start_moves)

lemma feedback_moves: "core_ok (core_of d) \<Longrightarrow> core_moves d (fst (dl_submit_feedback E now s key taskID q d))"
  by (auto simp: dl_submit_feedback_def intro!: run_tx_moves store_submit_feedback_moves)

lemma propose_moves: "core_ok (core_of d) \<Longrightarrow> core_moves d (fst (dl_propose E now s key taskID q d))"
  by (auto simp: dl_propose_def store_propose_def intro!: run_tx_moves elim!: change_once_moves intro: fresh_moves)

lemma decide_moves: "core_ok (core_of d) \<Longrightarrow> core_moves d (fst (dl_decide E C now s key taskID i q d))"
  by (auto simp: dl_decide_def store_decide_def intro!: run_tx_moves elim!: change_once_moves intro: fresh_moves)

lemma change_moves:
  "core_ok (core_of d) \<Longrightarrow> core_moves d (fst (dl_accept_change E now s key taskID i q d))"
  "core_ok (core_of d) \<Longrightarrow> core_moves d (fst (dl_activate_change E now s key taskID i q d))"
  by (auto simp: dl_accept_change_def dl_activate_change_def store_transition_change_def
    intro!: run_tx_moves elim!: change_once_moves intro: fresh_moves)

lemma acceptance_moves:
  "core_moves d (fst (dl_create_intent E now s key taskID q1 d))"
  "core_moves d (fst (dl_transition_acceptance E now s key taskID i q2 b d))"
  by (auto simp: dl_create_intent_def dl_transition_acceptance_def store_create_intent_def store_transition_acceptance_def Let_def
    intro!: run_tx_moves elim!: acceptance_once_moves intro: fresh_moves)

lemma worker_moves:
  "core_ok (core_of d) \<Longrightarrow> core_moves d (fst (dl_record_dispatched now i d))"
  "core_ok (core_of d) \<Longrightarrow> core_moves d (fst (dl_record_result E now q d))"
  by (auto simp: dl_record_dispatched_def dl_record_result_def Let_def split: sum.splits
    intro!: run_tx_moves intro: fresh_moves)

lemma delivery_exec_moves: "core_ok (core_of d) \<Longrightarrow> core_moves d (delivery_exec E C now c d)"
  by (cases c) (simp_all only: delivery_exec_def delivery_op.case start_moves feedback_moves propose_moves decide_moves change_moves acceptance_moves worker_moves)

end
