(* ===== verification/Delivery_Replay.thy ===== *)
theory Delivery_Replay
  imports Delivery_Refine
begin

text \<open>
  Requests of the delivery service that are repeated. Every operation of a user stores its answer under the caller and
  the idempotency key; the calls of \<open>Delivery_Service\<close> meet the contract \<open>replay_exact\<close> of the prelude, except \<open>Start\<close> of
  a revision: the service asks for its authorisation again before the store can find the answer.
\<close>

datatype delivery_reply =
    ReplyStart start_result
  | ReplyFeedback feedback_set
  | ReplyChange change_order
  | ReplyAcceptance acceptance_intent
  | ReplyVersion formal_version

text \<open>The answer of a call, and whether it is a replay.\<close>

definition delivery_call ::
    "delivery_env \<Rightarrow> store_config \<Rightarrow> gotime \<Rightarrow> delivery_op \<Rightarrow> delivery_db \<Rightarrow> delivery_db \<times> (delivery_error + delivery_reply \<times> bool)" where
  "delivery_call E C now c d =
     (case c of
        OpStart s k t q \<Rightarrow> adapt ReplyStart (dl_start E now s k t q d)
      | OpFeedback s k t q \<Rightarrow> adapt ReplyFeedback (dl_submit_feedback E now s k t q d)
      | OpPropose s k t q \<Rightarrow> adapt ReplyChange (dl_propose E now s k t q d)
      | OpDecide s k t i q \<Rightarrow> adapt ReplyChange (dl_decide E C now s k t i q d)
      | OpAcceptChange s k t i q \<Rightarrow> adapt ReplyChange (dl_accept_change E now s k t i q d)
      | OpActivateChange s k t i q \<Rightarrow> adapt ReplyChange (dl_activate_change E now s k t i q d)
      | OpCreateIntent s k t q \<Rightarrow> adapt ReplyAcceptance (dl_create_intent E now s k t q d)
      | OpTransition s k t i q b \<Rightarrow> adapt ReplyAcceptance (dl_transition_acceptance E now s k t i q b d)
      | OpDispatched i \<Rightarrow> adapt ReplyVersion (dl_record_dispatched now i d)
      | OpResult q \<Rightarrow> adapt ReplyVersion (dl_record_result E now q d))"

lemma fst_delivery_call: "fst (delivery_call E C now c d) = delivery_exec E C now c d"
  by (cases c) (simp_all add: delivery_call_def delivery_exec_def)

fun replayable :: "delivery_op \<Rightarrow> bool" where
  "replayable (OpStart s k t q) \<longleftrightarrow> stq_Revision q = None"
| "replayable (OpDispatched i) \<longleftrightarrow> False"
| "replayable (OpResult q) \<longleftrightarrow> False"
| "replayable _ \<longleftrightarrow> True"

section \<open>The request tables\<close>

definition requests_of :: "delivery_db \<Rightarrow> (string \<times> string, string \<times> start_result) gomap \<times> (string \<times> string, string \<times> feedback_set) gomap \<times>
    (string \<times> string, string \<times> string \<times> change_order) gomap \<times> (string \<times> string, string \<times> string \<times> acceptance_intent) gomap" where
  "requests_of d = (dd_startRequests d, dd_feedbackRequests d, dd_changeRequests d, dd_acceptanceRequests d)"

lemma requests_of_updates [simp]:
  "requests_of (insert_version_event v s r now d) = requests_of d"
  "requests_of (insert_change_event i s actor now d) = requests_of d"
  "requests_of (set_task now i s d) = requests_of d"
  "requests_of (put_package p d) = requests_of d" "requests_of (touch_package now p n d) = requests_of d"
  "requests_of (put_version v d) = requests_of d" "requests_of (put_change_order c d) = requests_of d"
  "requests_of (d\<lparr>dd_tasks := x1\<rparr>) = requests_of d" "requests_of (d\<lparr>dd_scopes := x2\<rparr>) = requests_of d" "requests_of (d\<lparr>dd_ledger := x3\<rparr>) = requests_of d"
  "requests_of (d\<lparr>dd_states := x4\<rparr>) = requests_of d" "requests_of (d\<lparr>dd_intents := x5\<rparr>) = requests_of d"
  "requests_of (d\<lparr>dd_settlements := x6\<rparr>) = requests_of d" "requests_of (d\<lparr>dd_feedback := x7\<rparr>) = requests_of d"
  "requests_of (d\<lparr>dd_proofs := x8\<rparr>) = requests_of d" "requests_of (d\<lparr>dd_responses := x9\<rparr>) = requests_of d"
  "requests_of (d\<lparr>dd_changes := x10\<rparr>) = requests_of d" "requests_of (d\<lparr>dd_billing := x11\<rparr>) = requests_of d"
  "requests_of (d\<lparr>dd_outbox := x12\<rparr>) = requests_of d" "requests_of (d\<lparr>dd_changeOrders := x13\<rparr>) = requests_of d"
  by (simp_all add: requests_of_def insert_version_event_def insert_change_event_def set_task_def put_package_def put_version_def put_change_order_def
    touch_package_def split: option.splits)

lemma requests_of_results [dest!]:
  "move_task now i ss target d = Inr d' \<Longrightarrow> requests_of d' = requests_of d"
  "insert_version v d = Inr d' \<Longrightarrow> requests_of d' = requests_of d"
  "consume_change_order now pub a i d = Inr d' \<Longrightarrow> requests_of d' = requests_of d"
  "insert_scope scope d = Inr d' \<Longrightarrow> requests_of d' = requests_of d"
  "insert_feedback f d = Inr d' \<Longrightarrow> requests_of d' = requests_of d"
  "insert_change_order c d = Inr d' \<Longrightarrow> requests_of d' = requests_of d"
  "insert_intent a0 d = Inr d' \<Longrightarrow> requests_of d' = requests_of d"
  "append_acceptance_state a0 st t i now d = Inr d' \<Longrightarrow> requests_of d' = requests_of d"
  "open_change_account C now t c w d = Inr d' \<Longrightarrow> requests_of d' = requests_of d"
  "freeze_account now c d = Inr d' \<Longrightarrow> requests_of d' = requests_of d"
  by (auto simp: move_task_def insert_version_def consume_change_order_def insert_scope_def insert_feedback_def insert_change_order_def insert_intent_def
    append_acceptance_state_def open_change_account_def freeze_account_def res_simps split: option.splits if_splits)

text \<open>The tables as parts of \<open>requests_of\<close>, so that the frames above apply inside an update.\<close>

lemma request_tables:
  "requests_of (d\<lparr>dd_startRequests := x1\<rparr>) = (x1, snd (requests_of d))"
  "requests_of (d\<lparr>dd_feedbackRequests := x2\<rparr>) = (fst (requests_of d), x2, snd (snd (requests_of d)))"
  "requests_of (d\<lparr>dd_changeRequests := x3\<rparr>) = (fst (requests_of d), fst (snd (requests_of d)), x3, snd (snd (snd (requests_of d))))"
  "requests_of (d\<lparr>dd_acceptanceRequests := x4\<rparr>) = (fst (requests_of d), fst (snd (requests_of d)), fst (snd (snd (requests_of d))), x4)"
  "dd_startRequests d = fst (requests_of d)" "dd_feedbackRequests d = fst (snd (requests_of d))"
  "dd_changeRequests d = fst (snd (snd (requests_of d)))" "dd_acceptanceRequests d = snd (snd (snd (requests_of d)))"
  by (simp_all add: requests_of_def)

lemma start_fresh_requests:
  assumes "start_fresh E now m t q d = Inr (r, d')"
  shows "requests_of d' = (gput (dmu_PublisherID m, dmu_IdempotencyKey m) (dmu_RequestHash m, r) (dd_startRequests d), snd (requests_of d))"
proof -
  from assms obtain s p scope d1 n a scope' deadline resp where sp: "start_package E now m t q s d = Inr ((p, scope), d1)"
    and w: "start_write E now m t q s p scope' n a deadline resp d1 = Inr (r, d')"
    by (auto simp: start_fresh_def res_simps)
  from sp have "requests_of d1 = requests_of d"
    by (auto simp: start_package_def res_simps Let_def split: option.splits if_splits)
  with w show ?thesis by (auto simp: start_write_def res_simps Let_def request_tables)
qed

lemma feedback_fresh_requests:
  assumes "feedback_fresh now m t q f0 d = Inr (f, d')"
  shows "requests_of d' = (dd_startRequests d, gput (dmu_PublisherID m, dmu_IdempotencyKey m) (dmu_RequestHash m, f) (dd_feedbackRequests d), snd (snd (requests_of d)))"
  using assms by (auto simp: feedback_fresh_def res_simps Let_def request_tables)

lemma settle_change_order_requests: "settle_change_order E now a c b i d = Inr d' \<Longrightarrow> requests_of d' = requests_of d"
  by (auto simp: settle_change_order_def res_simps Let_def split: if_splits)

lemma settle_acceptance_requests: "settle_acceptance E now a i d = Inr d' \<Longrightarrow> requests_of d' = requests_of d"
  by (auto simp: settle_acceptance_def dest: settle_change_order_requests split: option.splits if_splits)

lemma change_requests:
  "propose_fresh now m t q c0 d = Inr (c, d') \<Longrightarrow> requests_of d' = requests_of d"
  "decide_fresh E C now m t i q1 d = Inr (c, d') \<Longrightarrow> requests_of d' = requests_of d"
  by (auto simp: propose_fresh_def decide_fresh_def res_simps Let_def)

lemma transition_requests:
  assumes "transition_fresh E now m adm t i operation q d = Inr (c, d')"
  shows "requests_of d' = requests_of d"
proof -
  from assms obtain c0 p d1 where w: "(if operation = ''accept'' then accept_write now m p c0 d else activate_write E now m t p c0 d) = Inr (c, d1)"
    and d': "requests_of d' = requests_of d1"
    by (auto simp: transition_fresh_def res_simps)
  from w have "requests_of d1 = requests_of d"
    by (auto simp: accept_write_def activate_write_def activate_scope_def res_simps Let_def split: if_splits)
  with d' show ?thesis by simp
qed

lemma acceptance_requests:
  assumes "acceptance_fresh E now m t i q b d = Inr (a, d')"
  shows "requests_of d' = requests_of d"
proof -
  from assms obtain a0 x where "(if b then reconcile_acceptance E now a0 d else submit_acceptance now a0 q d) = Inr (x, d')"
    by (auto simp: acceptance_fresh_def res_simps)
  then show ?thesis
    by (auto simp: reconcile_acceptance_def submit_acceptance_def res_simps Let_def dest!: settle_acceptance_requests split: if_splits)
qed

lemma intent_requests: "intent_fresh now m t q a0 d = Inr (a, d') \<Longrightarrow> requests_of d' = requests_of d"
  by (auto simp: intent_fresh_def res_simps Let_def split: option.splits if_splits)

lemma worker_requests:
  "store_record_dispatched now i d = Inr (x, d') \<Longrightarrow> requests_of d' = requests_of d"
  "store_record_result E now q pr d = Inr (x, d') \<Longrightarrow> requests_of d' = requests_of d"
  by (auto simp: store_record_dispatched_def store_record_result_def result_fresh_def record_review_def record_failure_def res_simps Let_def
    split: if_splits option.splits)

section \<open>Stored answers stay\<close>

definition answers_grow :: "delivery_db \<Rightarrow> delivery_db \<Rightarrow> bool" where
  "answers_grow d d' \<longleftrightarrow>
     (\<forall>k x. gget (dd_startRequests d) k = Some x \<longrightarrow> gget (dd_startRequests d') k = Some x) \<and>
     (\<forall>k x. gget (dd_feedbackRequests d) k = Some x \<longrightarrow> gget (dd_feedbackRequests d') k = Some x) \<and>
     (\<forall>k x. gget (dd_changeRequests d) k = Some x \<longrightarrow> gget (dd_changeRequests d') k = Some x) \<and>
     (\<forall>k x. gget (dd_acceptanceRequests d) k = Some x \<longrightarrow> gget (dd_acceptanceRequests d') k = Some x)"

lemma answers_growI: "requests_of d' = requests_of d \<Longrightarrow> answers_grow d d'"
  by (simp add: requests_of_def answers_grow_def)

lemma answers_grow_refl [simp]: "answers_grow d d"
  by (simp add: answers_growI)

lemma store_start_answer:
  assumes "store_start E now m t q d = Inr ((r, b), d')"
  shows "answers_grow d d'" "gget (dd_startRequests d') (dmu_PublisherID m, dmu_IdempotencyKey m) = Some (dmu_RequestHash m, r)"
  using assms by (auto simp: store_start_def res_simps answers_grow_def request_tables dest!: start_fresh_requests split: option.splits if_splits)

lemma store_submit_feedback_answer:
  assumes "store_submit_feedback now m t q f0 d = Inr ((f, b), d')"
  shows "answers_grow d d'" "gget (dd_feedbackRequests d') (dmu_PublisherID m, dmu_IdempotencyKey m) = Some (dmu_RequestHash m, f)"
  using assms by (auto simp: store_submit_feedback_def res_simps answers_grow_def request_tables dest!: feedback_fresh_requests split: option.splits if_splits)

lemma change_once_answer:
  assumes "change_once m operation f d = Inr ((c, b), d')" "\<And>c d'. f d = Inr (c, d') \<Longrightarrow> requests_of d' = requests_of d"
  shows "answers_grow d d'" "gget (dd_changeRequests d') (dmu_PublisherID m, dmu_IdempotencyKey m) = Some (dmu_RequestHash m, operation, c)"
  using assms by (auto simp: change_once_def replay_change_def store_change_request_def res_simps answers_grow_def request_tables
    split: option.splits sum.splits if_splits)

lemma acceptance_once_answer:
  assumes "acceptance_once m operation f d = Inr ((a, b), d')" "\<And>c d'. f d = Inr (c, d') \<Longrightarrow> requests_of d' = requests_of d"
  shows "answers_grow d d'" "gget (dd_acceptanceRequests d') (dmu_PublisherID m, dmu_IdempotencyKey m) = Some (dmu_RequestHash m, operation, a)"
  using assms by (auto simp: acceptance_once_def replay_acceptance_def store_acceptance_request_def res_simps answers_grow_def request_tables
    split: option.splits sum.splits if_splits)

lemma replays:
  "gget (dd_startRequests d) (dmu_PublisherID m, dmu_IdempotencyKey m) = Some (dmu_RequestHash m, r) \<Longrightarrow> run_tx (store_start E now m t q) d = (d, Inr (r, True))"
  "gget (dd_feedbackRequests d) (dmu_PublisherID m, dmu_IdempotencyKey m) = Some (dmu_RequestHash m, f) \<Longrightarrow>
     run_tx (store_submit_feedback now m t q1 f0) d = (d, Inr (f, True))"
  "gget (dd_changeRequests d) (dmu_PublisherID m, dmu_IdempotencyKey m) = Some (dmu_RequestHash m, operation, c) \<Longrightarrow>
     run_tx (change_once m operation g) d = (d, Inr (c, True))"
  "gget (dd_acceptanceRequests d) (dmu_PublisherID m, dmu_IdempotencyKey m) = Some (dmu_RequestHash m, operation, a) \<Longrightarrow>
     run_tx (acceptance_once m operation h) d = (d, Inr (a, True))"
  by (simp_all add: run_tx_def store_start_def store_submit_feedback_def change_once_def replay_change_def acceptance_once_def replay_acceptance_def)

text \<open>The stored answer of a request.\<close>

fun stored_answer :: "delivery_env \<Rightarrow> delivery_op \<Rightarrow> delivery_reply \<Rightarrow> delivery_db \<Rightarrow> bool" where
  "stored_answer E (OpStart s k t q) a d \<longleftrightarrow> (\<exists>r. a = ReplyStart r \<and> gget (dd_startRequests d) (se_UserID s, k) = Some (dl_hash E (DocStart t q), r))"
| "stored_answer E (OpFeedback s k t q) a d \<longleftrightarrow> (\<exists>r. a = ReplyFeedback r \<and> gget (dd_feedbackRequests d) (se_UserID s, k) = Some (dl_hash E (DocFeedback t q), r))"
| "stored_answer E (OpPropose s k t q) a d \<longleftrightarrow>
     (\<exists>r. a = ReplyChange r \<and> gget (dd_changeRequests d) (se_UserID s, k) = Some (dl_hash E (DocProposal t q), ''propose'', r))"
| "stored_answer E (OpDecide s k t i q) a d \<longleftrightarrow>
     (\<exists>r. a = ReplyChange r \<and> gget (dd_changeRequests d) (se_UserID s, k) = Some (dl_hash E (DocDecision t i q), ''decide'', r))"
| "stored_answer E (OpAcceptChange s k t i q) a d \<longleftrightarrow>
     (\<exists>r. a = ReplyChange r \<and> gget (dd_changeRequests d) (se_UserID s, k) = Some (dl_hash E (DocChangeVersion t i q), ''accept'', r))"
| "stored_answer E (OpActivateChange s k t i q) a d \<longleftrightarrow>
     (\<exists>r. a = ReplyChange r \<and> gget (dd_changeRequests d) (se_UserID s, k) = Some (dl_hash E (DocChangeVersion t i q), ''activate'', r))"
| "stored_answer E (OpCreateIntent s k t q) a d \<longleftrightarrow>
     (\<exists>r. a = ReplyAcceptance r \<and> gget (dd_acceptanceRequests d) (se_UserID s, k) = Some (dl_hash E (DocAcceptance t q), ''create'', r))"
| "stored_answer E (OpTransition s k t i q b) a d \<longleftrightarrow>
     (\<exists>r op. a = ReplyAcceptance r \<and> op = (if b then ''reconcile'' else ''submit'') \<and> gget (dd_acceptanceRequests d) (se_UserID s, k) =
        Some (dl_hash E (DocTransition t i op (if has_prefix (tq_TransactionHash q) ''0x'' \<and> length (tq_TransactionHash q) = 66
          then q\<lparr>tq_TransactionHash := to_lower (tq_TransactionHash q)\<rparr> else q)), op, r))"
| "stored_answer E _ a d \<longleftrightarrow> True"

section \<open>The calls meet the contract\<close>

lemma grows_if [simp]:
  "answers_grow d (fst ((if b then f else g) d)) \<longleftrightarrow> (if b then answers_grow d (fst (f d)) else answers_grow d (fst (g d)))"
  "answers_grow d (fst (if b then x else y)) \<longleftrightarrow> (if b then answers_grow d (fst x) else answers_grow d (fst y))"
  "answers_grow d (fst (refuse e d))"
  by (simp_all add: refuse_def)

lemma run_tx_grows: "(\<And>x b d'. f d = Inr ((x, b), d') \<Longrightarrow> answers_grow d d') \<Longrightarrow> answers_grow d (fst (run_tx f d))"
  by (cases "f d") (auto simp: run_tx_def)

lemmas growing = store_start_answer(1) store_submit_feedback_answer(1) worker_requests(1) [THEN answers_growI] worker_requests(2) [THEN answers_growI]
  change_once_answer(1) acceptance_once_answer(1)

lemmas asking = change_requests transition_requests intent_requests acceptance_requests

lemma exec_grows: "answers_grow d (delivery_exec E C now c d)"
proof (cases c)
  case (OpStart s k t q)
  then show ?thesis by (auto simp: delivery_exec_def dl_start_def intro!: run_tx_grows dest: store_start_answer(1) split: sum.splits)
next
  case (OpFeedback s k t q)
  then show ?thesis by (auto simp: delivery_exec_def dl_submit_feedback_def intro!: run_tx_grows dest: store_submit_feedback_answer(1))
next
  case (OpPropose s k t q)
  then show ?thesis by (auto simp: delivery_exec_def dl_propose_def store_propose_def intro!: run_tx_grows elim!: change_once_answer(1) dest: asking)
next
  case (OpDecide s k t i q)
  then show ?thesis by (auto simp: delivery_exec_def dl_decide_def store_decide_def intro!: run_tx_grows elim!: change_once_answer(1) dest: asking)
next
  case (OpAcceptChange s k t i q)
  then show ?thesis
    by (auto simp: delivery_exec_def dl_accept_change_def store_transition_change_def intro!: run_tx_grows elim!: change_once_answer(1) dest: asking)
next
  case (OpActivateChange s k t i q)
  then show ?thesis
    by (auto simp: delivery_exec_def dl_activate_change_def store_transition_change_def intro!: run_tx_grows elim!: change_once_answer(1) dest: asking)
next
  case (OpCreateIntent s k t q)
  then show ?thesis
    by (auto simp: delivery_exec_def dl_create_intent_def store_create_intent_def intro!: run_tx_grows elim!: acceptance_once_answer(1) dest: asking)
next
  case (OpTransition s k t i q b)
  then show ?thesis
    by (auto simp: delivery_exec_def dl_transition_acceptance_def store_transition_acceptance_def Let_def intro!: run_tx_grows
      elim!: acceptance_once_answer(1) dest: asking)
next
  case (OpDispatched i)
  then show ?thesis by (auto simp: delivery_exec_def dl_record_dispatched_def intro!: run_tx_grows dest: growing(3,4))
next
  case (OpResult q)
  then show ?thesis by (auto simp: delivery_exec_def dl_record_result_def Let_def intro!: run_tx_grows dest: growing(3,4) split: sum.splits)
qed

text \<open>
  A step of the system: a call at any time, or a change by the rest of the program, which writes other tables only
  (tasks, selection, chain projection, ledger) and never those of the packages or of the requests.
\<close>

inductive delivery_step :: "delivery_env \<Rightarrow> store_config \<Rightarrow> delivery_db \<Rightarrow> delivery_db \<Rightarrow> bool" for E C where
  delivery_called: "delivery_step E C d (delivery_exec E C now c d)"
| outside: "core_of d' = core_of d \<Longrightarrow> requests_of d' = requests_of d \<Longrightarrow> delivery_step E C d d'"

lemma step_grows: "delivery_step E C d d' \<Longrightarrow> answers_grow d d'"
  by (induction rule: delivery_step.induct) (auto intro: exec_grows answers_growI)

lemma step_moves: "delivery_step E C d d' \<Longrightarrow> core_ok (core_of d) \<Longrightarrow> core_moves d d'"
  by (induction rule: delivery_step.induct) (simp_all add: delivery_exec_moves core_movesI(1))

lemma core_moves_ok: "core_moves d d' \<Longrightarrow> core_ok (core_of d) \<Longrightarrow> core_ok (core_of d')"
  by (auto simp: core_moves_def dest: move_core_ok)

lemma steps_ok: "(delivery_step E C)\<^sup>*\<^sup>* d d' \<Longrightarrow> core_ok (core_of d) \<Longrightarrow> core_ok (core_of d') \<and> delivery_move\<^sup>*\<^sup>* (core_of d) (core_of d')"
proof (induction rule: rtranclp_induct)
  case (step d1 d2)
  then have "core_moves d1 d2" "core_ok (core_of d1)" by (auto intro: step_moves)
  with step show ?case by (auto simp: core_moves_def intro: rtranclp.rtrancl_into_rtrancl move_core_ok)
qed simp

lemma stored_answer_grows: "stored_answer E c a d \<Longrightarrow> answers_grow d d' \<Longrightarrow> stored_answer E c a d'"
  by (cases c) (auto simp: answers_grow_def)

lemma mutation_of_simps [simp]:
  "dmu_PublisherID (mutation_of E s k x) = se_UserID s" "dmu_IdempotencyKey (mutation_of E s k x) = k" "dmu_RequestHash (mutation_of E s k x) = dl_hash E x"
  by (simp_all add: mutation_of_def)

text \<open>The checks of the input passed once; they do not depend on the tables or the time.\<close>

definition admitted :: "delivery_env \<Rightarrow> store_config \<Rightarrow> delivery_op \<Rightarrow> bool" where
  "admitted E C c \<longleftrightarrow> (\<exists>now d d' x. delivery_call E C now c d = (d', Inr x))"

definition answered_call :: "delivery_env \<Rightarrow> store_config \<Rightarrow> delivery_op \<Rightarrow> delivery_reply \<Rightarrow> delivery_db \<Rightarrow> bool" where
  "answered_call E C c a d \<longleftrightarrow> replayable c \<longrightarrow> admitted E C c \<and> stored_answer E c a d"

lemma run_tx_Inr [simp]: "run_tx f d = (d', Inr x) \<longleftrightarrow> f d = Inr (x, d')"
  by (auto simp: run_tx_def split: sum.splits)

lemma refuse_Inr [simp]: "refuse e d = (d', Inr x) \<longleftrightarrow> False"
  by (simp add: refuse_def)

lemma if_call_Inr [simp]:
  "(if b then refuse e else f) d = (d', Inr x) \<longleftrightarrow> \<not> b \<and> f d = (d', Inr x)" "(if b then refuse e d else y) = (d', Inr x) \<longleftrightarrow> \<not> b \<and> y = (d', Inr x)"
  by simp_all

lemma call_answers:
  assumes "delivery_call E C now c d = (d', Inr (a, b))" "replayable c"
  shows "stored_answer E c a d'"
proof (cases c)
  case (OpStart s k t q)
  with assms show ?thesis by (auto simp: delivery_call_def adapt_Inr_iff dl_start_def dest: store_start_answer(2))
next
  case (OpFeedback s k t q)
  with assms show ?thesis by (auto simp: delivery_call_def adapt_Inr_iff dl_submit_feedback_def dest: store_submit_feedback_answer(2))
next
  case (OpPropose s k t q)
  with assms show ?thesis by (auto simp: delivery_call_def adapt_Inr_iff dl_propose_def store_propose_def dest!: change_once_answer(2) dest: asking)
next
  case (OpDecide s k t i q)
  with assms show ?thesis by (auto simp: delivery_call_def adapt_Inr_iff dl_decide_def store_decide_def dest!: change_once_answer(2) dest: asking)
next
  case (OpAcceptChange s k t i q)
  with assms show ?thesis
    by (auto simp: delivery_call_def adapt_Inr_iff dl_accept_change_def store_transition_change_def dest!: change_once_answer(2) dest: asking)
next
  case (OpActivateChange s k t i q)
  with assms show ?thesis
    by (auto simp: delivery_call_def adapt_Inr_iff dl_activate_change_def store_transition_change_def dest!: change_once_answer(2) dest: asking)
next
  case (OpCreateIntent s k t q)
  with assms show ?thesis by (auto simp: delivery_call_def adapt_Inr_iff dl_create_intent_def store_create_intent_def dest!: acceptance_once_answer(2) dest: asking)
next
  case (OpTransition s k t i q b)
  with assms show ?thesis
    by (auto simp: delivery_call_def adapt_Inr_iff dl_transition_acceptance_def store_transition_acceptance_def Let_def
      dest!: acceptance_once_answer(2) dest: asking)
qed simp_all

lemma stored_replays:
  assumes "replayable c" "admitted E C c" "stored_answer E c a d"
  shows "delivery_call E C now c d = (d, Inr (a, True))"
proof -
  from assms(2) obtain now0 d0 d1 x where ok: "delivery_call E C now0 c d0 = (d1, Inr x)" by (auto simp: admitted_def)
  show ?thesis
  proof (cases c)
    case (OpStart s k t q)
    with assms ok show ?thesis by (cases x) (auto simp: delivery_call_def adapt_Inr_iff dl_start_def replays [where m = "mutation_of E s k z" for z, simplified])
  next
    case (OpFeedback s k t q)
    with assms ok show ?thesis
      by (cases x) (auto simp: delivery_call_def adapt_Inr_iff dl_submit_feedback_def replays [where m = "mutation_of E s k z" for z, simplified])
  next
    case (OpPropose s k t q)
    with assms ok show ?thesis
      by (cases x) (auto simp: delivery_call_def adapt_Inr_iff dl_propose_def store_propose_def replays(3) [where m = "mutation_of E s k z" for z, simplified])
  next
    case (OpDecide s k t i q)
    with assms ok show ?thesis
      by (cases x) (auto simp: delivery_call_def adapt_Inr_iff dl_decide_def store_decide_def replays(3) [where m = "mutation_of E s k z" for z, simplified])
  next
    case (OpAcceptChange s k t i q)
    with assms ok show ?thesis
      by (cases x) (auto simp: delivery_call_def adapt_Inr_iff dl_accept_change_def store_transition_change_def
        replays(3) [where m = "mutation_of E s k z" for z, simplified])
  next
    case (OpActivateChange s k t i q)
    with assms ok show ?thesis
      by (cases x) (auto simp: delivery_call_def adapt_Inr_iff dl_activate_change_def store_transition_change_def
        replays(3) [where m = "mutation_of E s k z" for z, simplified])
  next
    case (OpCreateIntent s k t q)
    with assms ok show ?thesis
      by (cases x) (auto simp: delivery_call_def adapt_Inr_iff dl_create_intent_def store_create_intent_def
        replays(4) [where m = "mutation_of E s k z" for z, simplified])
  next
    case (OpTransition s k t i q b)
    with assms ok show ?thesis
      by (cases x) (auto simp: delivery_call_def adapt_Inr_iff dl_transition_acceptance_def store_transition_acceptance_def Let_def
        replays(4) [where m = "mutation_of E s k z" for z, simplified])
  qed (use assms(1) in simp_all)
qed

interpretation delivery_replay: replay_exact "delivery_call E C" "\<lambda>d. True" "delivery_step E C" "\<lambda>c d. \<exists>a. answered_call E C c a d"
    "\<lambda>now c. replayable c" "answered_call E C" for E C
proof
  fix now c d d' a
  assume "delivery_call E C now c d = (d', Inr (a, False))"
  then have "answered_call E C c a d'" using call_answers unfolding answered_call_def admitted_def by blast
  then show "answered_call E C c a d'" "\<exists>a. answered_call E C c a d'" by blast+
next
  fix c d d' a
  assume "answered_call E C c a d" "delivery_step E C d d'"
  then show "answered_call E C c a d'" by (auto simp: answered_call_def intro: stored_answer_grows step_grows)
qed (auto simp: answered_call_def intro: stored_replays stored_answer_grows step_grows)

end
