(* ===== verification/Delivery_Facts.thy ===== *)
theory Delivery_Facts
  imports Delivery_Replay
begin

text \<open>
  What the delivery properties rest on: the payment of a change order on the fund tables, the confirmation of an
  acceptance, and the states the service cannot leave.
\<close>

section \<open>Payment of a change order\<close>

lemma resolve_account_effect:
  assumes "ledger_ok L" "resolve_account i ty reference asset now L = Inr (k, L')"
  shows "ledger_ok L'" "\<exists>a. gget (lg_accounts L') k = Some a \<and> fa_Type a = ty \<and> fa_Reference a = reference \<and> fa_Asset a = asset"
    "\<And>j b. gget (lg_accounts L) j = Some b \<Longrightarrow> gget (lg_accounts L') j = Some b" "lg_journals L' = lg_journals L" "lg_entries L' = lg_entries L"
    "\<And>x. ledger_total x L' = ledger_total x L"
    "gget (lg_accounts L') k = Some a \<Longrightarrow> fa_Balance a = (case gget (lg_accounts L) k of None \<Rightarrow> 0 | Some b \<Rightarrow> fa_Balance b)"
proof -
  from assms(2) obtain a where e: "ensure_account (system_account i ty reference asset now) L = Inr L'"
    and a: "account_of_reference ty reference asset L' = Some a" "fa_ID a = k"
    by (auto simp: resolve_account_def res_simps sql_lift_def map_sum_def split: sum.splits)
  have "fa_Balance (system_account i ty reference asset now) = 0" by (simp add: system_account_def)
  note e' = ensure_account_ok [OF assms(1) e this]
  show "ledger_ok L'" "lg_journals L' = lg_journals L" "lg_entries L' = lg_entries L" "\<And>x. ledger_total x L' = ledger_total x L"
    "\<And>j b. gget (lg_accounts L) j = Some b \<Longrightarrow> gget (lg_accounts L') j = Some b" by (fact e'(1,3,4,5) e'(2))+
  from e'(1) have ok: "gwf (lg_accounts L')" "\<And>j b. gget (lg_accounts L') j = Some b \<Longrightarrow> fa_ID b = j" by (simp_all add: ledger_ok_def)
  from account_of_referenceD [OF a(1) ok(1)] a(2) ok(2)
  show "\<exists>a. gget (lg_accounts L') k = Some a \<and> fa_Type a = ty \<and> fa_Reference a = reference \<and> fa_Asset a = asset" by metis
  show "fa_Balance b = (case gget (lg_accounts L) k of None \<Rightarrow> 0 | Some b \<Rightarrow> fa_Balance b)" if "gget (lg_accounts L') k = Some b" for b
    using e that e'(2) [of k]
    by (cases "gget (lg_accounts L) k") (auto simp: ensure_account_def insert_account_def system_account_def split: if_splits)
qed

text \<open>Only the account that was resolved can be new.\<close>

lemma resolve_account_frame:
  assumes "ledger_ok L" "resolve_account i ty reference asset now L = Inr (k, L')" "h \<noteq> k"
  shows "gget (lg_accounts L') h = gget (lg_accounts L) h"
proof -
  let ?n = "system_account i ty reference asset now"
  from assms(2) obtain a where e: "ensure_account ?n L = Inr L'" and a: "account_of_reference ty reference asset L' = Some a" "fa_ID a = k"
    by (auto simp: resolve_account_def res_simps sql_lift_def map_sum_def split: sum.splits)
  show ?thesis
  proof (cases "list_ex (same_reference ?n) (gvals (lg_accounts L))")
    case True
    then show ?thesis using e by (simp add: ensure_account_def)
  next
    case False
    with e have L': "L' = L\<lparr>lg_accounts := gput (fa_ID ?n) ?n (lg_accounts L)\<rparr>"
      by (auto simp: ensure_account_def insert_account_def split: if_splits)
    have "ledger_ok L'" by (rule resolve_account_effect(1) [OF assms(1,2)])
    with account_of_referenceD [OF a(1)] obtain j where j: "gget (lg_accounts L') j = Some a" "fa_Type a = ty" "fa_Reference a = reference" "fa_Asset a = asset"
      by (auto simp: ledger_ok_def)
    have "j = fa_ID ?n"
    proof (rule ccontr)
      assume "j \<noteq> fa_ID ?n"
      with j(1) have "a \<in> set (gvals (lg_accounts L))" by (auto simp: L' intro: gvals_memI)
      with False j(2-4) show False by (auto simp: list_ex_iff same_reference_def system_account_def)
    qed
    with j(1) a(2) \<open>ledger_ok L'\<close> have "k = fa_ID ?n" by (auto simp: ledger_ok_def)
    with assms(3) show ?thesis by (simp add: L')
  qed
qed

definition moved_by :: "string \<Rightarrow> string \<Rightarrow> int \<Rightarrow> sql_ledger \<Rightarrow> sql_ledger \<Rightarrow> bool" where
  "moved_by source target amount L L' \<longleftrightarrow> source \<noteq> target \<and>
     (\<exists>s t s' t'. gget (lg_accounts L) source = Some s \<and> gget (lg_accounts L) target = Some t \<and> gget (lg_accounts L') source = Some s' \<and>
        gget (lg_accounts L') target = Some t' \<and> fa_Balance s' = fa_Balance s - amount \<and> fa_Balance t' = fa_Balance t + amount \<and>
        fa_Type s' = fa_Type s \<and> fa_Asset s' = fa_Asset s \<and>
        fa_Type t' = fa_Type t \<and> fa_Reference t' = fa_Reference t \<and> fa_Asset t' = fa_Asset t) \<and>
     (\<forall>k. k \<noteq> source \<longrightarrow> k \<noteq> target \<longrightarrow> gget (lg_accounts L') k = gget (lg_accounts L) k)"

text \<open>The two entries of a transfer move the amount and balance their journal.\<close>

lemma transfer_effect:
  assumes "ledger_ok L" "insert_entries (transfer_entries j source target ty amount asset now) L = Inr L'" "ty \<noteq> ''change_order_escrow''"
    "entries_of j L = []"
  shows "ledger_ok L'" "0 < amount" "moved_by source target amount L L'" "journal_balanced j L'" "ledger_total x L' = ledger_total x L"
    "lg_journals L' = lg_journals L" "k \<noteq> j \<Longrightarrow> entries_of k L' = entries_of k L"
    "\<exists>s. gget (lg_accounts L) source = Some s \<and> fa_Type s = ''change_order_escrow'' \<and> fa_Asset s = asset"
proof -
  let ?es = "transfer_entries j source target ty amount asset now"
  from insert_entries_ok [OF assms(1,2), of x] have ok: "ledger_ok L'" "lg_journals L' = lg_journals L" "lg_entries L' = lg_entries L @ ?es"
    "ledger_total x L' = ledger_total x L" by (simp_all add: transfer_entries_def signed_amount_def)
  then show "ledger_ok L'" "lg_journals L' = lg_journals L" "ledger_total x L' = ledger_total x L" by simp_all
  from ok(3) assms(4) show "journal_balanced j L'" by (simp add: journal_balanced_def entries_of_def transfer_entries_def signed_amount_def)
  from ok(3) show "k \<noteq> j \<Longrightarrow> entries_of k L' = entries_of k L" by (simp add: entries_of_def transfer_entries_def)
  from assms(2) obtain L1 where e: "insert_entry (?es ! 0) L = Inr L1" "insert_entry (?es ! 1) L1 = Inr L'"
    by (auto simp: transfer_entries_def res_simps)
  from e(1) obtain s where s: "gget (lg_accounts L) source = Some s" "fa_Type s = ''change_order_escrow''" "fa_Asset s = asset" "0 < amount"
    and L1: "lg_accounts L1 = gput source (s\<lparr>fa_Balance := fa_Balance s - amount, fa_UpdatedAt := now\<rparr>) (lg_accounts L)"
    unfolding insert_entry_effect by (auto simp: transfer_entries_def signed_amount_def)
  from e(2) obtain t where t: "gget (lg_accounts L1) target = Some t" "fa_Type t = ty"
    and L': "lg_accounts L' = gput target (t\<lparr>fa_Balance := fa_Balance t + amount, fa_UpdatedAt := now\<rparr>) (lg_accounts L1)"
    unfolding insert_entry_effect by (auto simp: transfer_entries_def signed_amount_def)
  have neq: "source \<noteq> target" using t L1 s assms(3) by auto
  show "0 < amount" "\<exists>s. gget (lg_accounts L) source = Some s \<and> fa_Type s = ''change_order_escrow'' \<and> fa_Asset s = asset" using s by simp_all
  show "moved_by source target amount L L'" using neq s t by (auto simp: moved_by_def L1 L')
qed

lemma return_residual_effect:
  assumes "ledger_ok L" "return_residual E now a c i asset residual L = Inr (j, L')" "residual \<noteq> 0"
  shows "ledger_ok L'" "ledger_total x L' = ledger_total x L" "journal_balanced j L'"
    "gget (lg_journals L) k \<noteq> None \<Longrightarrow> entries_of k L' = entries_of k L"
    "gget (lg_accounts L) (cho_FundAccountID c) = Some s \<Longrightarrow> \<exists>s'. gget (lg_accounts L') (cho_FundAccountID c) = Some s' \<and> fa_Balance s' = fa_Balance s - residual"
    "gget (lg_accounts L) h = Some t \<Longrightarrow> fa_Type t \<noteq> ''funding_control'' \<Longrightarrow> h \<noteq> cho_FundAccountID c \<Longrightarrow> gget (lg_accounts L') h = Some t"
proof -
  from assms(2,3) obtain control L1 L2 where r: "resolve_account (system_account_id E [''funding_control'', asset]) ''funding_control'' ''funding'' asset now L = Inr (control, L1)"
    and jn: "insert_journal (change_journal j ''change_order_residual'' (aci_TaskID a) i ''change_order_residual_return'' now) L1 = Inr (True, L2)"
    and en: "insert_entries (transfer_entries j (cho_FundAccountID c) control ''funding_control'' residual asset now) L2 = Inr L'"
    by (auto simp: return_residual_def res_simps Let_def)
  note r' = resolve_account_effect [OF assms(1) r]
  note j' = insert_journal_ok [OF r'(1) jn]
  have fresh: "gget (lg_journals L1) j = None" using j'(4) by (simp add: change_journal_def)
  have "entries_of j L2 = []" using entries_of_new [OF r'(1) fresh] j'(3) by (simp add: entries_of_def)
  note t' = transfer_effect [OF j'(1) en _ this, simplified]
  show "ledger_ok L'" "journal_balanced j L'" by (fact t'(1) t'(4))+
  show "ledger_total x L' = ledger_total x L" using t'(5) [of x] r'(6) [of x] j'(2) by (simp add: ledger_total_def)
  show "gget (lg_journals L) k \<noteq> None \<Longrightarrow> entries_of k L' = entries_of k L"
    using t'(7) [of k] fresh j'(3) r'(4,5) by (cases "k = j") (simp_all add: entries_of_def)
  from t'(3) show "gget (lg_accounts L) (cho_FundAccountID c) = Some s \<Longrightarrow>
      \<exists>s'. gget (lg_accounts L') (cho_FundAccountID c) = Some s' \<and> fa_Balance s' = fa_Balance s - residual"
    using r'(3) [of "cho_FundAccountID c"] j'(2) by (auto simp: moved_by_def)
  from r'(2) obtain ca where ca: "gget (lg_accounts L1) control = Some ca" "fa_Type ca = ''funding_control''" by blast
  show "gget (lg_accounts L) h = Some t \<Longrightarrow> fa_Type t \<noteq> ''funding_control'' \<Longrightarrow> h \<noteq> cho_FundAccountID c \<Longrightarrow> gget (lg_accounts L') h = Some t"
    using r'(3) [of h t] ca t'(3) j'(2) by (auto simp: moved_by_def)
qed

text \<open>The rest is credited to the funding control account, and only the two accounts of the transfer change.\<close>

lemma return_residual_control:
  assumes "ledger_ok L" "return_residual E now a c i asset residual L = Inr (j, L')" "residual \<noteq> 0"
  shows "\<exists>f. gget (lg_accounts L') (fa_ID f) = Some f \<and> fa_Type f = ''funding_control'' \<and> fa_Reference f = ''funding'' \<and> fa_Asset f = asset \<and>
    fa_ID f \<noteq> cho_FundAccountID c \<and>
    fa_Balance f = (case gget (lg_accounts L) (fa_ID f) of None \<Rightarrow> 0 | Some o0 \<Rightarrow> fa_Balance o0) + residual \<and>
    (\<forall>k. k \<noteq> cho_FundAccountID c \<longrightarrow> k \<noteq> fa_ID f \<longrightarrow> gget (lg_accounts L') k = gget (lg_accounts L) k)"
proof -
  from assms(2,3) obtain control L1 L2 where r: "resolve_account (system_account_id E [''funding_control'', asset]) ''funding_control'' ''funding'' asset now L = Inr (control, L1)"
    and jn: "insert_journal (change_journal j ''change_order_residual'' (aci_TaskID a) i ''change_order_residual_return'' now) L1 = Inr (True, L2)"
    and en: "insert_entries (transfer_entries j (cho_FundAccountID c) control ''funding_control'' residual asset now) L2 = Inr L'"
    by (auto simp: return_residual_def res_simps Let_def)
  note r' = resolve_account_effect [OF assms(1) r]
  note j' = insert_journal_ok [OF r'(1) jn]
  have "entries_of j L2 = []" using entries_of_new [OF r'(1), of j] j'(3,4) by (simp add: entries_of_def change_journal_def)
  note t' = transfer_effect [OF j'(1) en _ this, simplified]
  from r'(2) obtain t where t: "gget (lg_accounts L1) control = Some t" "fa_Type t = ''funding_control''" "fa_Reference t = ''funding''" "fa_Asset t = asset"
    by blast
  from t'(3) t j'(2) obtain f where f: "gget (lg_accounts L') control = Some f" "fa_Type f = ''funding_control''" "fa_Reference f = ''funding''"
      "fa_Asset f = asset" "fa_Balance f = fa_Balance t + residual" "cho_FundAccountID c \<noteq> control"
    and rest: "\<forall>k. k \<noteq> cho_FundAccountID c \<longrightarrow> k \<noteq> control \<longrightarrow> gget (lg_accounts L') k = gget (lg_accounts L1) k"
    by (auto simp: moved_by_def)
  have "fa_ID f = control" using t'(1) f(1) by (simp add: ledger_ok_def)
  with f rest r'(7) [OF t(1)] resolve_account_frame [OF assms(1) r] show ?thesis by (intro exI [of _ f]) simp
qed

definition residual_paid :: "string \<Rightarrow> string \<Rightarrow> string \<Rightarrow> int \<Rightarrow> sql_ledger \<Rightarrow> sql_ledger \<Rightarrow> bool" where
  "residual_paid escrow receivable asset residual L L' \<longleftrightarrow>
     (if residual = 0 then \<forall>k. k \<noteq> escrow \<longrightarrow> k \<noteq> receivable \<longrightarrow> gget (lg_accounts L') k = gget (lg_accounts L) k
      else \<exists>f. gget (lg_accounts L') (fa_ID f) = Some f \<and> fa_Type f = ''funding_control'' \<and> fa_Reference f = ''funding'' \<and> fa_Asset f = asset \<and>
        fa_Balance f = (case gget (lg_accounts L) (fa_ID f) of None \<Rightarrow> 0 | Some before \<Rightarrow> fa_Balance before) + residual \<and>
        (\<forall>k. k \<noteq> escrow \<longrightarrow> k \<noteq> receivable \<longrightarrow> k \<noteq> fa_ID f \<longrightarrow> gget (lg_accounts L') k = gget (lg_accounts L) k))"

lemma settle_change_order_parts:
  assumes "settle_change_order E now a c b i d = Inr d'" "dd_settlements d' \<noteq> dd_settlements d"
  obtains x receivable L1 j L2 L3 rj L4 where "x = (case gget (lg_accounts (dd_ledger d)) (cho_FundAccountID c) of None \<Rightarrow> 0 | Some x \<Rightarrow> fa_Balance x)"
    "j = dl_digest E (''formal-change-order-release:'' @ i @ '':'' @ cho_ID c)"
    "resolve_account (system_account_id E [''formal_agent_receivable'', bnd_AgentController b @ '':'' @ bnd_PayoutAddress b,
       case gget (lg_accounts (dd_ledger d)) (cho_FundAccountID c) of None \<Rightarrow> [] | Some x \<Rightarrow> fa_Asset x]) ''formal_agent_receivable''
       (bnd_AgentController b @ '':'' @ bnd_PayoutAddress b)
       (case gget (lg_accounts (dd_ledger d)) (cho_FundAccountID c) of None \<Rightarrow> [] | Some x \<Rightarrow> fa_Asset x) now (dd_ledger d) = Inr (receivable, L1)"
    "insert_journal (change_journal j ''change_order_release'' (aci_TaskID a) i ''formal_change_order_accepted'' now) L1 = Inr (True, L2)"
    "insert_entries (transfer_entries j (cho_FundAccountID c) receivable ''formal_agent_receivable'' (money_int (cho_AuthorizedPrice c))
       (case gget (lg_accounts (dd_ledger d)) (cho_FundAccountID c) of None \<Rightarrow> [] | Some x \<Rightarrow> fa_Asset x) now) L2 = Inr L3"
    "return_residual E now a c i (case gget (lg_accounts (dd_ledger d)) (cho_FundAccountID c) of None \<Rightarrow> [] | Some x \<Rightarrow> fa_Asset x)
       (x - money_int (cho_AuthorizedPrice c)) L3 = Inr (rj, L4)"
    "dd_ledger d' = L4" "dd_settlements d' = dd_settlements d @ [\<lparr>stl_ChangeOrderID = cho_ID c, stl_IntentID = aci_ID a, stl_ChainEventID = i, stl_JournalID = j,
       stl_ResidualJournalID = rj, stl_Amount = money_int (cho_AuthorizedPrice c), stl_ResidualAmount = x - money_int (cho_AuthorizedPrice c),
       stl_ResidualRecipientID = cho_ResidualRecipientID c\<rparr>]"
    "money_int (cho_AuthorizedPrice c) \<le> x"
  using assms by (auto simp: settle_change_order_def res_simps Let_def split: if_splits)

lemma change_order_settled:
  assumes "ledger_ok (dd_ledger d)" "settle_change_order E now a c b i d = Inr d'" "dd_settlements d' \<noteq> dd_settlements d"
  shows "\<exists>x x' r s. ledger_ok (dd_ledger d') \<and> (\<forall>asset. ledger_total asset (dd_ledger d') = ledger_total asset (dd_ledger d)) \<and>
    gget (lg_accounts (dd_ledger d)) (cho_FundAccountID c) = Some x \<and> gget (lg_accounts (dd_ledger d')) (cho_FundAccountID c) = Some x' \<and>
    fa_Balance x' = 0 \<and> dd_settlements d' = dd_settlements d @ [s] \<and> stl_Amount s = money_int (cho_AuthorizedPrice c) \<and> 0 < stl_Amount s \<and>
    stl_ResidualAmount s = fa_Balance x - stl_Amount s \<and> 0 \<le> stl_ResidualAmount s \<and>
    gget (lg_accounts (dd_ledger d')) (fa_ID r) = Some r \<and> fa_Type r = ''formal_agent_receivable'' \<and>
    fa_Reference r = bnd_AgentController b @ '':'' @ bnd_PayoutAddress b \<and> fa_Asset r = fa_Asset x \<and>
    fa_Balance r = (case gget (lg_accounts (dd_ledger d)) (fa_ID r) of None \<Rightarrow> 0 | Some o0 \<Rightarrow> fa_Balance o0) + stl_Amount s \<and>
    residual_paid (cho_FundAccountID c) (fa_ID r) (fa_Asset x) (stl_ResidualAmount s) (dd_ledger d) (dd_ledger d') \<and>
    journal_balanced (stl_JournalID s) (dd_ledger d') \<and> (stl_ResidualAmount s = 0 \<or> journal_balanced (stl_ResidualJournalID s) (dd_ledger d'))"
proof -
  let ?L = "dd_ledger d"
  let ?amount = "money_int (cho_AuthorizedPrice c)"
  from settle_change_order_parts [OF assms(2,3)] obtain x receivable L1 j L2 L3 rj L4 where
      x: "x = (case gget (lg_accounts ?L) (cho_FundAccountID c) of None \<Rightarrow> 0 | Some x \<Rightarrow> fa_Balance x)"
    and res: "resolve_account (system_account_id E [''formal_agent_receivable'', bnd_AgentController b @ '':'' @ bnd_PayoutAddress b,
       case gget (lg_accounts ?L) (cho_FundAccountID c) of None \<Rightarrow> [] | Some x \<Rightarrow> fa_Asset x]) ''formal_agent_receivable''
       (bnd_AgentController b @ '':'' @ bnd_PayoutAddress b) (case gget (lg_accounts ?L) (cho_FundAccountID c) of None \<Rightarrow> [] | Some x \<Rightarrow> fa_Asset x) now ?L
       = Inr (receivable, L1)"
    and jn: "insert_journal (change_journal j ''change_order_release'' (aci_TaskID a) i ''formal_change_order_accepted'' now) L1 = Inr (True, L2)"
    and en: "insert_entries (transfer_entries j (cho_FundAccountID c) receivable ''formal_agent_receivable'' ?amount
       (case gget (lg_accounts ?L) (cho_FundAccountID c) of None \<Rightarrow> [] | Some x \<Rightarrow> fa_Asset x) now) L2 = Inr L3"
    and rr: "return_residual E now a c i (case gget (lg_accounts ?L) (cho_FundAccountID c) of None \<Rightarrow> [] | Some x \<Rightarrow> fa_Asset x) (x - ?amount) L3 = Inr (rj, L4)"
    and d': "dd_ledger d' = L4" "dd_settlements d' = dd_settlements d @ [\<lparr>stl_ChangeOrderID = cho_ID c, stl_IntentID = aci_ID a, stl_ChainEventID = i,
       stl_JournalID = j, stl_ResidualJournalID = rj, stl_Amount = ?amount, stl_ResidualAmount = x - ?amount, stl_ResidualRecipientID = cho_ResidualRecipientID c\<rparr>]"
    and le: "?amount \<le> x" .
  note r = resolve_account_effect [OF assms(1) res]
  note j = insert_journal_ok [OF r(1) jn]
  have fresh: "gget (lg_journals L1) j = None" "gget (lg_journals L2) j \<noteq> None" using j(4,5) by (simp_all add: change_journal_def)
  have "entries_of j L2 = []" using entries_of_new [OF r(1) fresh(1)] j(3) by (simp add: entries_of_def)
  note t = transfer_effect [OF j(1) en _ this, simplified]
  from t(2) le x obtain xa where xa: "gget (lg_accounts ?L) (cho_FundAccountID c) = Some xa" by (cases "gget (lg_accounts ?L) (cho_FundAccountID c)") auto
  from r(2) xa obtain ra where ra: "gget (lg_accounts L1) receivable = Some ra" "fa_Type ra = ''formal_agent_receivable''"
    "fa_Reference ra = bnd_AgentController b @ '':'' @ bnd_PayoutAddress b" "fa_Asset ra = fa_Asset xa" by auto
  from t(3) ra(1) r(3) [OF xa] obtain s3 where s3: "gget (lg_accounts L3) (cho_FundAccountID c) = Some s3" "fa_Balance s3 = fa_Balance xa - ?amount"
    and neq: "cho_FundAccountID c \<noteq> receivable" by (auto simp: moved_by_def j(2))
  from en obtain r3 where r3: "gget (lg_accounts L3) receivable = Some r3" "r3 = ra\<lparr>fa_Balance := fa_Balance ra + ?amount, fa_UpdatedAt := now\<rparr>"
    using neq ra by (auto simp: transfer_entries_def res_simps insert_entry_effect signed_amount_def j(2))
  have bal: "fa_Balance ra = (case gget (lg_accounts ?L) receivable of None \<Rightarrow> 0 | Some o0 \<Rightarrow> fa_Balance o0)" by (rule r(7) [OF ra(1)])
  have "gget (lg_journals L3) j \<noteq> None" using t(6) fresh(2) by simp
  note q = return_residual_effect [OF t(1) rr]
  have "x = fa_Balance xa" using x xa by simp
  have final: "ledger_ok L4 \<and> (\<forall>asset. ledger_total asset L4 = ledger_total asset L3) \<and> gget (lg_accounts L4) receivable = Some r3 \<and>
      (\<exists>x'. gget (lg_accounts L4) (cho_FundAccountID c) = Some x' \<and> fa_Balance x' = 0) \<and> journal_balanced j L4 \<and> (x - ?amount = 0 \<or> journal_balanced rj L4)"
  proof (cases "x - ?amount = 0")
    case True
    with rr have "L4 = L3" by (simp add: return_residual_def)
    then show ?thesis using True t(1,4) r3(1) s3 \<open>x = fa_Balance xa\<close> by simp
  next
    case False
    have "fa_Type r3 \<noteq> ''funding_control''" using r3(2) ra(2) by simp
    then show ?thesis
      using q(1) [OF False] q(2,3) [OF False] q(4) [OF False \<open>gget (lg_journals L3) j \<noteq> None\<close>] q(5) [OF False s3(1)] q(6) [OF False r3(1)] neq False t(4)
        s3(2) \<open>x = fa_Balance xa\<close> by (auto simp: journal_balanced_def)
  qed
  have untouched: "gget (lg_accounts L3) k = gget (lg_accounts ?L) k" if "k \<noteq> cho_FundAccountID c" "k \<noteq> receivable" for k
    using t(3) that j(2) resolve_account_frame [OF assms(1) res that(2)] by (simp add: moved_by_def)
  have rest: "residual_paid (cho_FundAccountID c) receivable (fa_Asset xa) (x - ?amount) ?L L4"
  proof (cases "x - ?amount = 0")
    case True
    with rr have "L4 = L3" by (simp add: return_residual_def)
    then show ?thesis using True untouched by (simp add: residual_paid_def)
  next
    case False
    from return_residual_control [OF t(1) rr False] xa obtain f where f: "gget (lg_accounts L4) (fa_ID f) = Some f" "fa_Type f = ''funding_control''"
        "fa_Reference f = ''funding''" "fa_Asset f = fa_Asset xa" "fa_ID f \<noteq> cho_FundAccountID c"
        "fa_Balance f = (case gget (lg_accounts L3) (fa_ID f) of None \<Rightarrow> 0 | Some o0 \<Rightarrow> fa_Balance o0) + (x - ?amount)"
      and others: "\<And>k. k \<noteq> cho_FundAccountID c \<Longrightarrow> k \<noteq> fa_ID f \<Longrightarrow> gget (lg_accounts L4) k = gget (lg_accounts L3) k" by auto
    have "fa_ID f \<noteq> receivable" using final f(1,2) r3(2) ra(2) by auto
    with f others untouched False show ?thesis by (auto simp: residual_paid_def intro!: exI [of _ f])
  qed
  have total: "\<forall>asset. ledger_total asset L3 = ledger_total asset ?L" using t(5) r(6) j(2) by (simp add: ledger_total_def)
  have "fa_ID r3 = receivable" using t(1) r3(1) by (simp add: ledger_ok_def)
  moreover from final obtain x' where "gget (lg_accounts L4) (cho_FundAccountID c) = Some x'" "fa_Balance x' = 0" by blast
  ultimately show ?thesis
    by (intro exI [of _ xa] exI [of _ x'] exI [of _ r3] exI [of _ "\<lparr>stl_ChangeOrderID = cho_ID c, stl_IntentID = aci_ID a, stl_ChainEventID = i,
       stl_JournalID = j, stl_ResidualJournalID = rj, stl_Amount = ?amount, stl_ResidualAmount = x - ?amount, stl_ResidualRecipientID = cho_ResidualRecipientID c\<rparr>"])
      (use final rest total xa d' le t(2) bal r3(2) ra(2-4) \<open>x = fa_Balance xa\<close> in simp)
qed

section \<open>A confirmed acceptance\<close>

lemma require_eligible_Inr:
  assumes "require_eligible a d = Inr ()"
  obtains p v r where "gget (dd_packages d) (aci_PackageID a) = Some p" "gget (dd_versions d) (aci_PackageID a, aci_FormalVersion a) = Some v"
    "gget (dd_proofs d) (aci_PackageID a, aci_FormalVersion a) = Some r" "sty_Eligible (settlement_gate (acceptance_snapshot a p v r d))"
  using assms by (auto simp: require_eligible_def acceptance_eligibility_def res_simps Let_def settlement_gate_def split: option.splits if_splits)

lemma release_event_Some:
  assumes "release_event a d = Some i"
  obtains b e where "reservation_of (aci_PackageID a) d = Some b" "e \<in> set (dd_events d)" "cer_ID e = i" "cer_ChainID e = bnd_ChainID b"
    "cer_ContractAddress e = bnd_ContractAddress b" "cer_TransactionHash e = aci_TransactionHash a" "cer_Type e = ''funds_released''"
    "cer_TaskID e = bnd_ProofTaskID b" "cer_Recipient e = bnd_PayoutAddress b" "cer_Amount e = bnd_FormalPayable b"
  using assms by (auto simp: release_event_def find_Some_iff split: option.splits dest!: nth_mem)

definition transition_request :: "transition_input \<Rightarrow> transition_input" where
  "transition_request q = (if has_prefix (tq_TransactionHash q) ''0x'' \<and> length (tq_TransactionHash q) = 66
     then q\<lparr>tq_TransactionHash := to_lower (tq_TransactionHash q)\<rparr> else q)"

lemma transition_acceptance_fresh:
  assumes "dl_transition_acceptance E now s key taskID i q b d = (d', Inr (a, False))"
  shows "\<exists>a0 x d1. load_acceptance i taskID (se_UserID s) d = Some a0 \<and> a = x\<lparr>aci_Eligibility := \<lparr>sty_Eligible = True, sty_ReasonCode = []\<rparr>\<rparr> \<and>
    (if b then reconcile_acceptance E now a0 d else submit_acceptance now a0 (transition_request q) d) = Inr (x, d1)"
proof -
  let ?op = "if b then ''reconcile'' else ''submit''"
  let ?m = "mutation_of E s key (DocTransition taskID i ?op (transition_request q))"
  from assms have "acceptance_once ?m ?op (acceptance_fresh E now ?m taskID i (transition_request q) b) d = Inr ((a, False), d')"
    by (simp add: dl_transition_acceptance_def store_transition_acceptance_def Let_def transition_request_def)
  then obtain d2 where "acceptance_fresh E now ?m taskID i (transition_request q) b d = Inr (a, d2)"
    by (auto simp: acceptance_once_def res_simps split: option.splits sum.splits)
  then show ?thesis by (auto simp: acceptance_fresh_def res_simps)
qed

lemma reconcile_parts:
  assumes "reconcile_acceptance E now a d = Inr (x, d')"
  obtains i where "aci_State a = AcceptancePending" "require_eligible a d = Inr ()" "release_event a d = Some i"
    "x = a\<lparr>aci_AggregateVersion := aci_AggregateVersion a + 1, aci_State := AcceptanceConfirmed, aci_ChainEventID := i, aci_UpdatedAt := now\<rparr>"
    "\<not> list_ex (\<lambda>s. acs_State s = AcceptanceConfirmed \<and> acs_ChainEventID s = i) (dd_states d)"
  using assms by (auto simp: reconcile_acceptance_def res_simps Let_def append_acceptance_state_def list_ex_iff split: if_splits)

lemma confirmed_facts:
  assumes "dl_transition_acceptance E now s key taskID i q True d = (d', Inr (a, False))"
  shows "\<exists>p v r b e. gget (dd_packages d) (aci_PackageID a) = Some p \<and> gget (dd_versions d) (aci_PackageID a, aci_FormalVersion a) = Some v \<and>
    gget (dd_proofs d) (aci_PackageID a, aci_FormalVersion a) = Some r \<and> reservation_of (aci_PackageID a) d = Some b \<and> e \<in> set (dd_events d) \<and>
    sty_Eligible (settlement_gate (acceptance_snapshot a p v r d)) \<and> aci_State a = AcceptanceConfirmed \<and>
    cer_ID e = aci_ChainEventID a \<and> cer_ChainID e = bnd_ChainID b \<and> cer_ContractAddress e = bnd_ContractAddress b \<and>
    cer_TransactionHash e = aci_TransactionHash a \<and> cer_Type e = ''funds_released'' \<and> cer_TaskID e = bnd_ProofTaskID b \<and>
    cer_Recipient e = bnd_PayoutAddress b \<and> cer_Amount e = bnd_FormalPayable b \<and>
    \<not> list_ex (\<lambda>s. acs_State s = AcceptanceConfirmed \<and> acs_ChainEventID s = cer_ID e) (dd_states d)"
proof -
  from transition_acceptance_fresh [OF assms] obtain a0 x d1 where a: "a = x\<lparr>aci_Eligibility := \<lparr>sty_Eligible = True, sty_ReasonCode = []\<rparr>\<rparr>"
    and re: "reconcile_acceptance E now a0 d = Inr (x, d1)" by auto
  from reconcile_parts [OF re] obtain j where j: "require_eligible a0 d = Inr ()" "release_event a0 d = Some j"
    and x: "x = a0\<lparr>aci_AggregateVersion := aci_AggregateVersion a0 + 1, aci_State := AcceptanceConfirmed, aci_ChainEventID := j, aci_UpdatedAt := now\<rparr>"
    and new: "\<not> list_ex (\<lambda>s. acs_State s = AcceptanceConfirmed \<and> acs_ChainEventID s = j) (dd_states d)" .
  from require_eligible_Inr [OF j(1)] obtain p v r where "gget (dd_packages d) (aci_PackageID a0) = Some p"
    "gget (dd_versions d) (aci_PackageID a0, aci_FormalVersion a0) = Some v" "gget (dd_proofs d) (aci_PackageID a0, aci_FormalVersion a0) = Some r"
    "sty_Eligible (settlement_gate (acceptance_snapshot a0 p v r d))" .
  moreover from release_event_Some [OF j(2)] obtain b e where "reservation_of (aci_PackageID a0) d = Some b" "e \<in> set (dd_events d)" "cer_ID e = j"
    "cer_ChainID e = bnd_ChainID b" "cer_ContractAddress e = bnd_ContractAddress b" "cer_TransactionHash e = aci_TransactionHash a0"
    "cer_Type e = ''funds_released''" "cer_TaskID e = bnd_ProofTaskID b" "cer_Recipient e = bnd_PayoutAddress b" "cer_Amount e = bnd_FormalPayable b" .
  moreover have "acceptance_snapshot a p v r d = acceptance_snapshot a0 p v r d" for p v r by (simp add: acceptance_snapshot_def a x)
  ultimately show ?thesis using new by (intro exI [of _ p] exI [of _ v] exI [of _ r] exI [of _ b] exI [of _ e]) (simp add: a x)
qed

section \<open>States the service cannot leave\<close>

text \<open>A remark outside the scope, on a version before the last included one, leaves no way to another version.\<close>

definition revision_blocked :: "string \<Rightarrow> string \<Rightarrow> delivery_core \<Rightarrow> bool" where
  "revision_blocked i k c = (case c of (ps, vs, cs, fs) \<Rightarrow>
     (case (gget ps i, gget fs k) of
        (Some p, Some f) \<Rightarrow> fbs_PackageID f = i \<and> fbs_ParentVersion f = fpk_AllocatedVersion p \<and> fpk_AllocatedVersion p < IncludedVersions \<and> \<not> in_scope_only f
      | _ \<Rightarrow> False))"

lemma blocked_move:
  assumes "delivery_move (ps, vs, cs, fs) (ps', vs', cs', fs')" "core_ok (ps, vs, cs, fs)" "revision_blocked i k (ps, vs, cs, fs)"
  shows "revision_blocked i k (ps', vs', cs', fs') \<and> map_option fpk_AllocatedVersion (gget ps' i) = map_option fpk_AllocatedVersion (gget ps i)"
proof -
  from assms(3) obtain p0 f0 where b: "gget ps i = Some p0" "gget fs k = Some f0" "fbs_PackageID f0 = i" "fbs_ParentVersion f0 = fpk_AllocatedVersion p0"
    "fpk_AllocatedVersion p0 < IncludedVersions" "\<not> in_scope_only f0"
    by (auto simp: revision_blocked_def split: option.splits)
  note p0 = core_okD(5) [OF assms(2) b(1)]
  from assms(1) show ?thesis
  proof cases
    case (first_move p v t)
    then have "fpk_ID p \<noteq> i" using b(1) by auto
    then show ?thesis using first_move(1,4) b by (simp add: revision_blocked_def)
  next
    case (revision_move p u j f v t)
    have "fpk_ID p \<noteq> i"
    proof
      assume i: "fpk_ID p = i"
      with revision_move(5) b(1) have p: "p = p0" by simp
      have "j = k" using core_okD(9) [OF assms(2)] revision_move(9,10,11) b(2-4) i p by (simp add: feedback_unique_def)
      then have "f = f0" using revision_move(9) b(2) by simp
      with revision_move(12) b(6) show False by simp
    qed
    then show ?thesis using revision_move(1,4) b by (simp add: revision_blocked_def)
  next
    case (extra_move p u v c e t)
    have "fpk_ID p \<noteq> i"
    proof
      assume "fpk_ID p = i"
      with extra_move(5) b(1) have "p = p0" by simp
      with extra_move(8) b(5) p0 show False by (simp add: package_ok_def)
    qed
    then show ?thesis using extra_move(1,4) b by (simp add: revision_blocked_def)
  next
    case (worker_move j n v w)
    then show ?thesis using b by (simp add: revision_blocked_def)
  next
    case (feedback_move p u f t)
    have "fbs_ID f \<noteq> k" using feedback_move(11) b(2) by auto
    then show ?thesis using feedback_move(1,4,5) b by (cases "fpk_ID p = i") (simp_all add: revision_blocked_def)
  next
    case (propose_move p u c f t)
    then show ?thesis using propose_move(1,4,5) b by (cases "fpk_ID p = i") (simp_all add: revision_blocked_def)
  next
    case (order_move c p e t)
    then show ?thesis using order_move(1,4,6) b by (cases "fpk_ID p = i") (simp_all add: revision_blocked_def)
  qed
qed

lemma blocked_steps:
  assumes "(delivery_step E C)\<^sup>*\<^sup>* d d'" "core_ok (core_of d)" "revision_blocked i k (core_of d)"
  shows "core_ok (core_of d') \<and> revision_blocked i k (core_of d') \<and>
    map_option fpk_AllocatedVersion (gget (dd_packages d') i) = map_option fpk_AllocatedVersion (gget (dd_packages d) i)"
  using assms
proof (induction rule: rtranclp_induct)
  case (step d1 d2)
  then have IH: "core_ok (core_of d1)" "revision_blocked i k (core_of d1)" "map_option fpk_AllocatedVersion (gget (dd_packages d1) i) =
    map_option fpk_AllocatedVersion (gget (dd_packages d) i)" by simp_all
  from step_moves [OF step(2) IH(1)] consider "core_of d2 = core_of d1" | "delivery_move (core_of d1) (core_of d2)" by (auto simp: core_moves_def)
  then show ?case
  proof cases
    case 1
    then show ?thesis using IH core_of_eqD [OF 1] by simp
  next
    case 2
    then show ?thesis using IH blocked_move [OF 2 [unfolded core_of_def] IH(1) [unfolded core_of_def] IH(2) [unfolded core_of_def]] move_core_ok
      by (simp add: core_of_def)
  qed
qed simp

text \<open>A revision that was started is not answered again: its parent is no longer the last version.\<close>

lemma find_gput:
  assumes "find P (gvals m) = Some w" "\<And>k x. (k, x) \<in> set m \<Longrightarrow> f x = k" "P v"
  shows "find P (gvals (gput (f w) v m)) = Some v"
  using assms(1,2)
proof (induction m)
  case (Cons a m)
  obtain k x where a: "a = (k, x)" by (cases a)
  have k: "f x = k" using Cons.prems(2) by (simp add: a)
  show ?case
  proof (cases "P x")
    case True
    then show ?thesis using Cons.prems(1) k assms(3) by (simp add: a gput_def gvals_def)
  next
    case False
    then have w: "find P (gvals (gput (f w) v m)) = Some v" using Cons.IH Cons.prems by (simp add: a gvals_def)
    show ?thesis using w False assms(3) by (simp add: a gput_def gvals_def)
  qed
qed simp

lemma package_found_again:
  assumes "core_ok (core_of d)" "package_of_task taskID publisherID d = Some p" "dd_packages d' = gput (fpk_ID p) w (dd_packages d)"
    "fpk_TaskID w = taskID" "fpk_PublisherID w = publisherID"
  shows "package_of_task taskID publisherID d' = Some w"
proof -
  have "fpk_ID x = k" if "(k, x) \<in> set (dd_packages d)" for k x
    using core_okD_db(5) [OF assms(1), of k x] core_okD_db(1) [OF assms(1)] that
    by (simp add: gget_def gwf_def package_ok_def core_of_def)
  then show ?thesis using find_gput [OF assms(2) [unfolded package_of_task_def], of fpk_ID w] assms(3-5)
    by (simp add: package_of_task_def)
qed

lemma start_fresh_revision:
  assumes "core_ok (core_of d)" "start_fresh E now m taskID q d = Inr (r, d')" "stq_Revision q = Some b"
  obtains p where "package_of_task taskID (dmu_PublisherID m) d = Some p" "dd_packages d' = gput (fpk_ID p) (advanced now p) (dd_packages d)"
    "rvb_ParentVersion b = fpk_AllocatedVersion p"
proof -
  from assms(2) obtain s p scope d1 previous n a scope' deadline resp where sp: "start_package E now m taskID q s d = Inr ((p, scope), d1)"
    and st: "authorize_revision (dmu_PublisherID m) taskID q d1 = Inr ()" "next_included_version p previous q = Inr (n, a)"
      "start_write E now m taskID q s p scope' n a deadline resp d1 = Inr (r, d')"
    by (auto simp: start_fresh_def res_simps)
  from sp assms(3) start_package_first(4) [OF _ sp] obtain p' where p': "package_of_task taskID (dmu_PublisherID m) d = Some p'"
    by (cases "package_of_task taskID (dmu_PublisherID m) d") auto
  note e = start_package_next [OF p' sp]
  from st(1) assms(3) p' have b: "rvb_ParentVersion b = fpk_AllocatedVersion p"
    by (auto simp: authorize_revision_def feedback_for_def e split: option.splits if_splits)
  from st(2) have n: "n = fpk_AllocatedVersion p + 1" "a = fpk_AggregateVersion p + 1" unfolding next_included_version_Inr by simp_all
  note w = start_write_core [OF st(3) [unfolded n] refl]
  have "dd_packages d' = gput (fpk_ID p) (advanced now p) (dd_packages d)"
    using w(2,3) e(2) by (cases "stq_ChangeOrderID q = []") (auto simp: started_core_def core_of_def)
  with p' e(1) b show thesis by (intro that) simp_all
qed

lemma revision_retry_refused:
  assumes "core_ok (core_of d)" "dl_start E now s key taskID q d = (d', Inr (r, False))" "stq_Revision q = Some b"
  shows "dl_start E now' s key taskID q d' = (d', Inl DlErrStaleVersion)"
proof -
  let ?m = "mutation_of E s key (DocStart taskID q)"
  from assms(2,3) have adm: "is_publisher s" "\<not> blank taskID" "\<not> blank key" "\<not> length key > 200" "\<not> stq_ExpectedPackageVersion q < 0"
      "nonce_in_range (stq_WorkNonce q)" "valid_revision (stq_Revision q)" "\<not> (stq_ChangeOrderID q \<noteq> [] \<and> \<not> dl_valid_digest (stq_ChangeOrderID q))"
    and st: "store_start E now ?m taskID q d = Inr ((r, False), d')"
    by (auto simp: dl_start_def split: sum.splits)
  from st have "start_fresh E now ?m taskID q d = Inr (r, d')" by (auto simp: store_start_def res_simps split: option.splits if_splits)
  from start_fresh_revision [OF assms(1) this assms(3)] obtain p where p: "package_of_task taskID (se_UserID s) d = Some p"
    "dd_packages d' = gput (fpk_ID p) (advanced now p) (dd_packages d)" "rvb_ParentVersion b = fpk_AllocatedVersion p" by auto
  have "package_of_task taskID (se_UserID s) d' = Some (advanced now p)"
    using package_found_again [OF assms(1) p(1,2)] package_of_taskD [OF assms(1) p(1)] by (simp add: advanced_def)
  with p(3) have "feedback_for (se_UserID s) taskID b d' = None" by (simp add: feedback_for_def split: option.splits)
  then show ?thesis using adm assms(3) by (simp add: dl_start_def authorize_revision_def refuse_def)
qed

text \<open>A task whose change order was not activated before its deadline.\<close>

definition change_order_expired :: "gotime \<Rightarrow> string \<Rightarrow> delivery_db \<Rightarrow> bool" where
  "change_order_expired now taskID d \<longleftrightarrow> map_option tkr_Status (gget (dd_tasks d) taskID) = Some ''change_order_pending'' \<and>
     list_all (\<lambda>c. cho_TaskID c = taskID \<longrightarrow> cho_Deadline c \<le> now) (gvals (dd_changeOrders d))"

fun task_call :: "string \<Rightarrow> delivery_op \<Rightarrow> bool" where
  "task_call j (OpStart s k t q) \<longleftrightarrow> t = j"
| "task_call j (OpFeedback s k t q) \<longleftrightarrow> t = j"
| "task_call j (OpPropose s k t q) \<longleftrightarrow> t = j"
| "task_call j (OpDecide s k t i q) \<longleftrightarrow> t = j"
| "task_call j (OpAcceptChange s k t i q) \<longleftrightarrow> t = j"
| "task_call j (OpActivateChange s k t i q) \<longleftrightarrow> t = j"
| "task_call j _ \<longleftrightarrow> False"

lemma run_tx_stuck: "(\<And>x. f d = Inr x \<Longrightarrow> snd x = d) \<Longrightarrow> fst (run_tx f d) = d"
  by (cases "f d") (auto simp: run_tx_def)

lemma run_once_stuck: "(\<And>y. f d \<noteq> Inr y) \<Longrightarrow> fst (run_tx (change_once m op1 f) d) = d"
  by (rule run_tx_stuck) (auto simp: change_once_def res_simps split: option.splits sum.splits)

lemma store_decide_admin: "store_decide E C now m True j i q = change_once m ''decide'' (decide_fresh E C now m j i q)"
  by (rule ext) (simp add: store_decide_def)

lemma expired_fresh:
  assumes "change_order_expired now j d"
  shows "start_fresh E now m j q d \<noteq> Inr x" "feedback_fresh now m j fq f d \<noteq> Inr fx" "propose_fresh now m j pq c d \<noteq> Inr px"
    "decide_fresh E C now m j i dq d \<noteq> Inr dx" "transition_fresh E now m adm j i operation tq d \<noteq> Inr tx"
proof -
  from assms obtain w where w: "gget (dd_tasks d) j = Some w" "tkr_Status w = ''change_order_pending''" by (auto simp: change_order_expired_def)
  have st: "task_status j d = Inr ''change_order_pending''" using w by (simp add: task_status_def)
  have c: "change_order_of i j d = Some c \<Longrightarrow> \<not> now < cho_Deadline c" for i c
    using assms by (auto simp: change_order_of_def change_order_expired_def list_all_iff dest!: gvals_memI split: option.splits if_splits)
  show "start_fresh E now m j q d \<noteq> Inr x"
  proof
    assume "start_fresh E now m j q d = Inr x"
    then obtain s y where s: "load_scope_source (dmu_PublisherID m) j d = Some s" "start_package E now m j q s d = Inr y"
      by (cases x) (auto simp: start_fresh_def res_simps)
    from s(1) w have "scs_TaskStatus s = ''change_order_pending''" by (auto simp: load_scope_source_def split: option.splits if_splits)
    with s(2) show False by (auto simp: start_package_def split: option.splits if_splits)
  qed
  show "feedback_fresh now m j fq f d \<noteq> Inr fx" "propose_fresh now m j pq c0 d \<noteq> Inr px" for c0
    by (cases fx; auto simp: feedback_fresh_def res_simps st) (cases px; auto simp: propose_fresh_def res_simps st)
  show "decide_fresh E C now m j i dq d \<noteq> Inr dx" "transition_fresh E now m adm j i operation tq d \<noteq> Inr tx"
    by (cases dx; auto simp: decide_fresh_def res_simps dest: c) (cases tx; auto simp: transition_fresh_def res_simps dest: c)
qed

lemma expired_calls_refused:
  assumes "change_order_expired now j d" "task_call j c"
  shows "delivery_exec E C now c d = d"
proof -
  note f = expired_fresh [OF assms(1)]
  show ?thesis
  proof (cases c)
    case (OpStart s k t q)
    then show ?thesis using assms(2) f(1)
      by (auto simp: delivery_exec_def dl_start_def refuse_def store_start_def res_simps intro!: run_tx_stuck split: sum.splits option.splits if_splits)
  next
    case (OpFeedback s k t q)
    then show ?thesis using assms(2) f(2)
      by (auto simp: delivery_exec_def dl_submit_feedback_def refuse_def store_submit_feedback_def res_simps intro!: run_tx_stuck split: option.splits if_splits)
  next
    case (OpPropose s k t q)
    then show ?thesis using assms(2) f(3)
      by (auto simp: delivery_exec_def dl_propose_def refuse_def store_propose_def intro!: run_once_stuck)
  next
    case (OpDecide s k t i q)
    then show ?thesis using assms(2) f(4)
      by (auto simp: delivery_exec_def dl_decide_def refuse_def store_decide_admin intro!: run_once_stuck)
  next
    case (OpAcceptChange s k t i q)
    then show ?thesis using assms(2) f(5)
      by (auto simp: delivery_exec_def dl_accept_change_def refuse_def store_transition_change_def intro!: run_once_stuck)
  next
    case (OpActivateChange s k t i q)
    then show ?thesis using assms(2) f(5)
      by (auto simp: delivery_exec_def dl_activate_change_def refuse_def store_transition_change_def intro!: run_once_stuck)
  qed (use assms(2) in simp_all)
qed

end
