(* ===== verification/Delivery_Properties.thy ===== *)
theory Delivery_Properties
  imports Delivery_Facts
begin

text \<open>
  The properties of the formal delivery, and a small instance of its tables on which their hypotheses hold: one task
  with an assignment, first without a package, then with a first version under review.
\<close>

section \<open>A small instance\<close>

definition demo_hex :: string where
  "demo_hex = ''sha256:0000000000000000000000000000000000000000000000000000000000000000''"

definition demo_delivery_env :: delivery_env where
  "demo_delivery_env = \<lparr>dl_sha = (\<lambda>s. if s = [] then [] else [last s]), dl_json = (\<lambda>x. []), dl_criteria = Some, dl_sign = (\<lambda>s. s)\<rparr>"

definition demo_dconf :: store_config where
  "demo_dconf = \<lparr>scf_Asset = ''usdc'', scf_PlatformIncidentID = ''incident''\<rparr>"

definition demo_owner :: session where
  "demo_owner = \<lparr>se_UserID = ''u'', se_Wallet = ''w'', se_Roles = [''publisher'']\<rparr>"

definition demo_scope_source :: scope_source where
  "demo_scope_source = \<lparr>scs_TaskStatus = [], scs_TaskSpecHash = ''spec'', scs_AcceptanceHash = ''ah'', scs_AcceptanceJSON = ''[]'', scs_OverviewID = ''o'',
     scs_OverviewHash = ''oh'', scs_OverviewRef = ''or'', scs_DeliveryFormat = ''md'', scs_Language = ''en'', scs_CostCap = ''10'',
     scs_AgentEndpoint = ''https://a'', scs_AssignmentID = ''as'', scs_AgentID = ''ag'', scs_ProviderID = ''pr'', scs_Inputs = [], scs_AllowedTools = [],
     scs_Exclusions = [], scs_Deadline = 0, scs_AssignmentWorkNonce = 1\<rparr>"

definition demo_binding :: binding_row where
  "demo_binding = \<lparr>bnd_ChainID = ''1'', bnd_ContractAddress = ''0xc'', bnd_PublisherWallet = ''w'', bnd_ProofTaskID = ''ct'', bnd_PayoutAddress = ''0xp'',
     bnd_FormalPayable = ''90'', bnd_AgentController = ''0xa''\<rparr>"

definition demo_ddb :: delivery_db where
  "demo_ddb = \<lparr>dd_tasks = [(''t'', \<lparr>tkr_PublisherID = ''u'', tkr_Status = ''assigned'', tkr_Deadline = 100, tkr_AggregateVersion = 1, tkr_UpdatedAt = 1\<rparr>)],
     dd_sources = [(''t'', demo_scope_source)], dd_active = [(''t'', ''as'')], dd_bindings = [(''as'', demo_binding)], dd_events = [], dd_users = [],
     dd_ledger = \<lparr>lg_accounts = [], lg_journals = [], lg_entries = []\<rparr>, dd_packages = [], dd_scopes = [], dd_versions = [], dd_versionEvents = [],
     dd_feedback = [], dd_responses = [], dd_changes = [], dd_proofs = [], dd_billing = [], dd_changeOrders = [], dd_changeEvents = [], dd_intents = [],
     dd_states = [], dd_settlements = [], dd_outbox = [], dd_startRequests = [], dd_feedbackRequests = [], dd_changeRequests = [],
     dd_acceptanceRequests = []\<rparr>"

definition demo_start :: start_input where
  "demo_start = \<lparr>stq_ExpectedPackageVersion = 0, stq_WorkNonce = 1, stq_Revision = None, stq_ChangeOrderID = []\<rparr>"

definition demo_started :: delivery_db where
  "demo_started = delivery_exec demo_delivery_env demo_dconf 5 (OpStart demo_owner ''k'' ''t'' demo_start) demo_ddb"

text \<open>The first version under review, with feedback on it and the work nonce advanced on the chain.\<close>

definition demo_package :: formal_package where
  "demo_package = \<lparr>fpk_ID = demo_hex, fpk_TaskID = ''t'', fpk_AssignmentID = ''as'', fpk_DeliveryUnit = ''default'', fpk_Kind = StandardPackage,
     fpk_ScopeID = ''sc'', fpk_ScopeRevision = 1, fpk_AgentID = ''ag'', fpk_ProviderID = ''pr'', fpk_PublisherID = ''u'',
     fpk_IncludedVersions = IncludedVersions, fpk_MaximumVersions = MaximumVersions, fpk_AllocatedVersion = 1, fpk_AggregateVersion = 3,
     fpk_Status = PackageActive, fpk_CreatedAt = 1, fpk_UpdatedAt = 1\<rparr>"

definition demo_version :: formal_version where
  "demo_version = \<lparr>fvr_PackageID = demo_hex, fvr_Number = 1, fvr_AggregateVersion = 2, fvr_ScopeID = ''sc'', fvr_ScopeHash = ''sh'', fvr_WorkNonce = 1,
     fvr_Revision = None, fvr_ChangeOrderID = [], fvr_LogicalExecutionID = ''x1'', fvr_Status = VersionReview, fvr_ContentHash = demo_hex,
     fvr_DeliverableRef = ''r'', fvr_UsedCost = ''0'', fvr_FailureReasonCode = [], fvr_ResultHash = [], fvr_FeedbackResponses = [], fvr_Changes = [],
     fvr_Proof = None, fvr_CreatedAt = 1, fvr_UpdatedAt = 1\<rparr>"

definition demo_feedback :: "string \<Rightarrow> feedback_set" where
  "demo_feedback claim = \<lparr>fbs_ID = demo_hex, fbs_PackageID = demo_hex, fbs_ParentVersion = 1, fbs_ParentContentHash = demo_hex, fbs_ScopeID = ''sc'',
     fbs_ScopeHash = ''sh'', fbs_Digest = demo_hex, fbs_PackageAggregateVersion = 3,
     fbs_Items = [\<lparr>fbi_ID = ''i1'', fbi_Ordinal = 1, fbi_Input = \<lparr>fii_CriterionID = ''c1'', fii_Category = ''defect'', fii_Priority = ''high'', fii_Target = ''x'',
       fii_Description = ''d'', fii_ExpectedOutcome = ''e'', fii_ScopeClaim = claim\<rparr>\<rparr>], fbs_CreatedAt = 2\<rparr>"

definition demo_event :: "string \<Rightarrow> work_nonce \<Rightarrow> chain_event_row" where
  "demo_event kind nonce = \<lparr>cer_ID = kind, cer_ChainID = ''1'', cer_ContractAddress = ''0xc'', cer_Type = kind, cer_TaskID = ''ct'',
     cer_AssignmentID = ''as'', cer_WorkNonce = nonce, cer_TransactionHash = ''0x1'', cer_Recipient = ''0xp'', cer_Amount = ''90'', cer_BlockTimestamp = 3\<rparr>"

definition demo_review :: "string \<Rightarrow> delivery_db" where
  "demo_review claim = demo_ddb\<lparr>dd_tasks := [(''t'', \<lparr>tkr_PublisherID = ''u'', tkr_Status = ''revision_requested'', tkr_Deadline = 100, tkr_AggregateVersion = 4,
       tkr_UpdatedAt = 2\<rparr>)], dd_packages := [(demo_hex, demo_package)], dd_versions := [((demo_hex, 1), demo_version)],
     dd_feedback := [(demo_hex, demo_feedback claim)], dd_scopes := [(''sc'', source_scope demo_scope_source ''[]'')],
     dd_events := [demo_event ''work_nonce_advanced'' 2]\<rparr>"

definition demo_revision :: start_input where
  "demo_revision = \<lparr>stq_ExpectedPackageVersion = 3, stq_WorkNonce = 2, stq_Revision = Some \<lparr>rvb_ParentVersion = 1, rvb_ParentContentHash = demo_hex,
     rvb_FeedbackSetID = demo_hex, rvb_FeedbackDigest = demo_hex, rvb_FeedbackAggregateVersion = 3\<rparr>, stq_ChangeOrderID = []\<rparr>"

lemma demo_review_ok: "core_ok (core_of (demo_review claim))"
  by (auto simp: core_of_def demo_review_def core_ok_def core_maps_def package_ok_def version_ok_def contents_distinct_def feedback_unique_def
    demo_package_def demo_version_def demo_feedback_def demo_ddb_def gget_def gwf_def split: if_splits)

text \<open>A call was answered, and not from the stored requests.\<close>

definition fresh_answer :: "delivery_db \<times> (delivery_error + 'a \<times> bool) \<Rightarrow> bool" where
  "fresh_answer out = (case snd out of Inl e \<Rightarrow> False | Inr (x, b) \<Rightarrow> \<not> b)"

lemma fresh_answerD: "fresh_answer out \<Longrightarrow> \<exists>x. out = (fst out, Inr (x, False))"
  by (cases out) (auto simp: fresh_answer_def split: sum.splits)


lemma demo_delivery_not_blank: "\<not> blank ''t''" "\<not> blank ''k''" 
  by (rule not_blank [of "hd ''t''"]; simp add: printable_def) (rule not_blank [of "hd ''k''"]; simp add: printable_def)

lemma demo_ddb_fields [simp]:
  "dd_tasks demo_ddb = [(''t'', \<lparr>tkr_PublisherID = ''u'', tkr_Status = ''assigned'', tkr_Deadline = 100, tkr_AggregateVersion = 1, tkr_UpdatedAt = 1\<rparr>)]"
  "dd_sources demo_ddb = [(''t'', demo_scope_source)]" "dd_active demo_ddb = [(''t'', ''as'')]" "dd_bindings demo_ddb = [(''as'', demo_binding)]"
  "dd_packages demo_ddb = []" "dd_scopes demo_ddb = []" "dd_versions demo_ddb = []" "dd_changeOrders demo_ddb = []" "dd_outbox demo_ddb = []"
  "dd_startRequests demo_ddb = []" "dd_feedback demo_ddb = []" "dd_versionEvents demo_ddb = []" "dd_acceptanceRequests demo_ddb = []" "dd_states demo_ddb = []"
  by (simp_all add: demo_ddb_def)

lemma demo_scope_source_fields [simp]:
  "scs_AssignmentID demo_scope_source = ''as''" "scs_AgentEndpoint demo_scope_source = ''https://a''" "scs_AssignmentWorkNonce demo_scope_source = 1"
  "scs_AcceptanceJSON demo_scope_source = ''[]''"
  by (simp_all add: demo_scope_source_def)

lemma demo_input_fields [simp]:
  "se_UserID demo_owner = ''u''" "is_publisher demo_owner" "dl_criteria demo_delivery_env = Some" "dl_sha demo_delivery_env = (\<lambda>s. if s = [] then [] else [last s])"
  "stq_ExpectedPackageVersion demo_start = 0" "stq_WorkNonce demo_start = 1" "stq_Revision demo_start = None" "stq_ChangeOrderID demo_start = []"
  by (simp_all add: demo_owner_def demo_delivery_env_def demo_start_def is_publisher_def)

lemma demo_start_fresh: "fresh_answer (dl_start demo_delivery_env 5 demo_owner ''k'' ''t'' demo_start demo_ddb)"
proof -
  have s: "load_scope_source ''u'' ''t'' demo_ddb = Some (demo_scope_source\<lparr>scs_TaskStatus := ''assigned'', scs_Deadline := 100\<rparr>)"
    by (simp add: load_scope_source_def gget_def)
  let ?m = "mutation_of demo_delivery_env demo_owner ''k'' (DocStart ''t'' demo_start)"
  have "\<exists>r d'. start_fresh demo_delivery_env 5 ?m ''t'' demo_start demo_ddb = Inr (r, d')"
    by (simp add: start_fresh_def s start_package_def package_of_task_def freeze_scope_def insert_scope_def Let_def
      gget_def gput_def gvals_def authorize_revision_def start_previous_def next_included_version_def
      active_version_def start_terms_def start_write_def insert_version_def version_of_execution_def consume_change_order_def move_task_def
      new_package_def put_package_def put_version_def insert_version_event_def allocated_version_def source_scope_def)
  then show ?thesis
    by (auto simp add: fresh_answer_def dl_start_def nonce_in_range_def demo_delivery_not_blank valid_revision_def run_tx_def store_start_def gget_def)
qed

lemma demo_hex_valid [simp]: "dl_valid_digest demo_hex"
  by code_simp

lemma demo_review_fields [simp]:
  "dd_tasks (demo_review claim) = [(''t'', \<lparr>tkr_PublisherID = ''u'', tkr_Status = ''revision_requested'', tkr_Deadline = 100, tkr_AggregateVersion = 4, tkr_UpdatedAt = 2\<rparr>)]"
  "dd_sources (demo_review claim) = [(''t'', demo_scope_source)]" "dd_active (demo_review claim) = [(''t'', ''as'')]"
  "dd_bindings (demo_review claim) = [(''as'', demo_binding)]" "dd_packages (demo_review claim) = [(demo_hex, demo_package)]"
  "dd_versions (demo_review claim) = [((demo_hex, 1), demo_version)]" "dd_feedback (demo_review claim) = [(demo_hex, demo_feedback claim)]"
  "dd_scopes (demo_review claim) = [(''sc'', source_scope demo_scope_source ''[]'')]" "dd_events (demo_review claim) = [demo_event ''work_nonce_advanced'' 2]"
  "dd_changeOrders (demo_review claim) = []" "dd_outbox (demo_review claim) = []" "dd_startRequests (demo_review claim) = []"
  "dd_acceptanceRequests (demo_review claim) = []" "dd_states (demo_review claim) = []" "dd_versionEvents (demo_review claim) = []"
  by (simp_all add: demo_review_def)

lemma demo_package_fields [simp]:
  "fpk_ID demo_package = demo_hex" "fpk_TaskID demo_package = ''t''" "fpk_PublisherID demo_package = ''u''" "fpk_AssignmentID demo_package = ''as''"
  "fpk_AllocatedVersion demo_package = 1" "fpk_AggregateVersion demo_package = 3" "fpk_IncludedVersions demo_package = IncludedVersions"
  "fpk_MaximumVersions demo_package = MaximumVersions" "fpk_ScopeID demo_package = ''sc''"
  by (simp_all add: demo_package_def)

lemma demo_version_fields [simp]:
  "fvr_PackageID demo_version = demo_hex" "fvr_Number demo_version = 1" "fvr_Status demo_version = VersionReview" "fvr_ContentHash demo_version = demo_hex"
  "fvr_WorkNonce demo_version = 1" "fvr_ScopeID demo_version = ''sc''" "fvr_LogicalExecutionID demo_version = ''x1''" "fvr_ChangeOrderID demo_version = []"
  "fvr_AggregateVersion demo_version = 2"
  by (simp_all add: demo_version_def)

lemma demo_feedback_fields [simp]:
  "fbs_ID (demo_feedback claim) = demo_hex" "fbs_PackageID (demo_feedback claim) = demo_hex" "fbs_ParentVersion (demo_feedback claim) = 1"
  "fbs_ParentContentHash (demo_feedback claim) = demo_hex" "fbs_Digest (demo_feedback claim) = demo_hex" "fbs_ScopeID (demo_feedback claim) = ''sc''"
  "fbs_PackageAggregateVersion (demo_feedback claim) = 3" "fbs_CreatedAt (demo_feedback claim) = 2" "in_scope_only (demo_feedback claim) \<longleftrightarrow> claim = ''in_scope''"
  by (simp_all add: demo_feedback_def in_scope_only_def)

lemma demo_binding_fields [simp]:
  "bnd_ChainID demo_binding = ''1''" "bnd_ContractAddress demo_binding = ''0xc''" "bnd_ProofTaskID demo_binding = ''ct''"
  "bnd_PayoutAddress demo_binding = ''0xp''" "bnd_FormalPayable demo_binding = ''90''"
  by (simp_all add: demo_binding_def)

lemma demo_revision_fresh: "fresh_answer (dl_start demo_delivery_env 5 demo_owner ''k'' ''t'' demo_revision (demo_review ''in_scope''))"
proof -
  let ?d = "demo_review ''in_scope''"
  let ?m = "mutation_of demo_delivery_env demo_owner ''k'' (DocStart ''t'' demo_revision)"
  have s: "load_scope_source ''u'' ''t'' ?d = Some (demo_scope_source\<lparr>scs_TaskStatus := ''revision_requested'', scs_Deadline := 100\<rparr>)"
    by (simp add: load_scope_source_def gget_def)
  have p: "package_of_task ''t'' ''u'' ?d = Some demo_package" by (simp add: package_of_task_def gvals_def)
  have a: "authorize_revision ''u'' ''t'' demo_revision ?d = Inr ()"
    by (simp add: authorize_revision_def demo_revision_def feedback_for_def p gget_def revision_valid_def nonce_confirmed_def nonce_event_def demo_event_def
      feedback_since_def)
  have q: "stq_ExpectedPackageVersion demo_revision = 3" "stq_WorkNonce demo_revision = 2" "stq_ChangeOrderID demo_revision = []"
    "stq_Revision demo_revision = Some \<lparr>rvb_ParentVersion = 1, rvb_ParentContentHash = demo_hex,
     rvb_FeedbackSetID = demo_hex, rvb_FeedbackDigest = demo_hex, rvb_FeedbackAggregateVersion = 3\<rparr>" by (simp_all add: demo_revision_def)
  have "\<exists>r d'. start_fresh demo_delivery_env 5 ?m ''t'' demo_revision ?d = Inr (r, d')"
    by (simp add: start_fresh_def s start_package_def p a q Let_def
      gget_def gput_def gvals_def start_previous_def next_included_version_def active_version_def start_terms_def start_write_def insert_version_def
      version_of_execution_def consume_change_order_def move_task_def put_package_def put_version_def insert_version_event_def
      allocated_version_def dl_digest_def sha_string_def)
  then show ?thesis
    by (auto simp add: fresh_answer_def dl_start_def nonce_in_range_def demo_delivery_not_blank valid_revision_def run_tx_def store_start_def gget_def q a)
qed

lemma demo_step: "(delivery_step E C)\<^sup>*\<^sup>* d (delivery_exec E C now c d)"
  by (intro r_into_rtranclp delivery_called)

section \<open>Packages and versions\<close>

text \<open>
  C4: Refinement. After any steps of the system, calls of the service in any order and at any time with what the rest
  of the program writes in between, the packages, versions, change orders and feedback have made moves of the abstract
  machine, and only those.
\<close>
theorem delivery_refines_machine:
  assumes "(delivery_step E C)\<^sup>*\<^sup>* d d'" "core_ok (core_of d)"
  shows "delivery_move\<^sup>*\<^sup>* (core_of d) (core_of d')"
  using steps_ok [OF assms] by simp

theorem delivery_refines_machine_witness:
  "delivery_move\<^sup>*\<^sup>* (core_of (demo_review ''in_scope''))
     (core_of (delivery_exec demo_delivery_env demo_dconf 5 (OpStart demo_owner ''k'' ''t'' demo_revision) (demo_review ''in_scope'')))"
  by (rule delivery_refines_machine [OF demo_step demo_review_ok])

text \<open>
  C3: The invariant. Whatever the service is asked, in any order: a package has one to five versions, numbered from
  one, each with its number as work nonce; only the last may be in work or failed, all others are reviewed; the reviewed
  contents of a package are distinct; the first three versions cost nothing extra, and each later one has consumed a
  change order of its own for exactly this number; a version has at most one feedback set.
\<close>
theorem packages_well_formed:
  assumes "core_of d0 = ([], [], [], [])" "(delivery_step E C)\<^sup>*\<^sup>* d0 d"
  shows "core_ok (core_of d)"
  using steps_ok [OF assms(2)] assms(1) core_ok_empty by simp

theorem packages_well_formed_witness:
  "core_ok (core_of demo_started) \<and> fresh_answer (dl_start demo_delivery_env 5 demo_owner ''k'' ''t'' demo_start demo_ddb)"
proof -
  have "core_of demo_ddb = ([], [], [], [])" by (simp add: core_of_def demo_ddb_def)
  from packages_well_formed [OF this demo_step] demo_start_fresh show ?thesis unfolding demo_started_def by simp
qed

section \<open>Repeated requests\<close>

text \<open>
  C19: Idempotency. A call of a user that was answered is answered the same when it is repeated, at any time and after
  any steps in between, and the repetition changes nothing. It holds for all operations of users (the start of the first
  version, feedback, the operations on change orders, the acceptance) but the start of a revision, which \<open>replayable\<close>
  excludes together with the two reports of the execution engine.
\<close>
theorem delivery_answers_once:
  assumes "delivery_call E C now c d = (d', Inr (a, False))" "(delivery_step E C)\<^sup>*\<^sup>* d' d''" "replayable c"
  shows "delivery_call E C now' c d'' = (d'', Inr (a, True))"
  by (rule delivery_replay.retry_exact [OF TrueI assms])

theorem delivery_answers_once_witness:
  "\<exists>a. delivery_call demo_delivery_env demo_dconf 500 (OpStart demo_owner ''k'' ''t'' demo_start) demo_started = (demo_started, Inr (a, True))"
proof -
  let ?c = "OpStart demo_owner ''k'' ''t'' demo_start"
  have "demo_started = fst (dl_start demo_delivery_env 5 demo_owner ''k'' ''t'' demo_start demo_ddb)" by (simp add: demo_started_def delivery_exec_def)
  with fresh_answerD [OF demo_start_fresh] obtain x where "dl_start demo_delivery_env 5 demo_owner ''k'' ''t'' demo_start demo_ddb = (demo_started, Inr (x, False))" by metis
  then have "delivery_call demo_delivery_env demo_dconf 5 ?c demo_ddb = (demo_started, Inr (ReplyStart x, False))"
    by (auto simp: delivery_call_def adapt_Inr_iff)
  from delivery_answers_once [OF this rtranclp.rtrancl_refl, of 500] show ?thesis by (auto simp: demo_start_def)
qed

text \<open>
  C37: The start of a revision is not idempotent. When its answer is lost, the repetition with the same key is refused
  as stale: the service asks for the authorisation of the revision before the store looks for the stored answer, and
  the parent is then no longer the last version.
\<close>
theorem revision_start_not_retryable:
  assumes "core_ok (core_of d)" "dl_start E now s key taskID q d = (d', Inr (r, False))" "stq_Revision q \<noteq> None"
  shows "dl_start E now' s key taskID q d' = (d', Inl DlErrStaleVersion)"
  using revision_retry_refused [OF assms(1,2)] assms(3) by auto

theorem revision_start_not_retryable_witness:
  "\<exists>r d'. dl_start demo_delivery_env 5 demo_owner ''k'' ''t'' demo_revision (demo_review ''in_scope'') = (d', Inr (r, False)) \<and>
     dl_start demo_delivery_env 6 demo_owner ''k'' ''t'' demo_revision d' = (d', Inl DlErrStaleVersion)"
proof -
  from fresh_answerD [OF demo_revision_fresh] obtain r where
    r: "dl_start demo_delivery_env 5 demo_owner ''k'' ''t'' demo_revision (demo_review ''in_scope'') =
      (fst (dl_start demo_delivery_env 5 demo_owner ''k'' ''t'' demo_revision (demo_review ''in_scope'')), Inr (r, False))" by blast
  have "stq_Revision demo_revision \<noteq> None" by (simp add: demo_revision_def)
  from revision_start_not_retryable [OF demo_review_ok r this, of 6] r show ?thesis by blast
qed

section \<open>States without a way out\<close>

text \<open>
  C35: One remark outside the scope ends the revisions. Once a feedback set on the first or second version, the last of
  the package, has an item that is not claimed to be in scope, no steps of the system ever give the package another
  version: a revision needs the whole set in scope, a second set for the version is refused, and a change order needs
  three versions. (From the third version a change order is the way on; the theorem does not speak of it.)
\<close>
theorem outside_scope_blocks_revision:
  assumes "core_ok (core_of d)" "gget (dd_packages d) i = Some p" "gget (dd_feedback d) k = Some f" "fbs_PackageID f = i"
    "fbs_ParentVersion f = fpk_AllocatedVersion p" "fpk_AllocatedVersion p < IncludedVersions" "\<not> in_scope_only f"
    "(delivery_step E C)\<^sup>*\<^sup>* d d'"
  shows "map_option fpk_AllocatedVersion (gget (dd_packages d') i) = Some (fpk_AllocatedVersion p)"
proof -
  have "revision_blocked i k (core_of d)" using assms(2-7) by (simp add: revision_blocked_def core_of_def)
  from blocked_steps [OF assms(8,1) this] assms(2) show ?thesis by simp
qed

theorem outside_scope_blocks_revision_witness:
  "map_option fpk_AllocatedVersion (gget (dd_packages
     (delivery_exec demo_delivery_env demo_dconf 5 (OpStart demo_owner ''k'' ''t'' demo_revision) (demo_review ''out_of_scope''))) demo_hex) = Some 1"
proof -
  let ?d = "demo_review ''out_of_scope''"
  have p: "gget (dd_packages ?d) demo_hex = Some demo_package" and f: "gget (dd_feedback ?d) demo_hex = Some (demo_feedback ''out_of_scope'')"
    by (simp_all add: demo_review_def demo_ddb_def gget_def)
  have "fbs_PackageID (demo_feedback ''out_of_scope'') = demo_hex" "fbs_ParentVersion (demo_feedback ''out_of_scope'') = fpk_AllocatedVersion demo_package"
    "fpk_AllocatedVersion demo_package < IncludedVersions" "\<not> in_scope_only (demo_feedback ''out_of_scope'')"
    by (simp_all add: demo_feedback_def demo_package_def in_scope_only_def)
  from outside_scope_blocks_revision [OF demo_review_ok p f this demo_step] show ?thesis by (simp add: demo_package_def)
qed

section \<open>Acceptance and payment\<close>

definition demo_delivery_proof :: proof_record where
  "demo_delivery_proof = \<lparr>pr_Proof = \<lparr>dp_Version = ProofVersion, dp_TaskID = ''t'', dp_AssignmentID = ''as'', dp_DeliveryUnit = ''default'', dp_PackageID = demo_hex,
       dp_ScopeHash = ''sh'', dp_FormalVersion = 1, dp_PackageAggregateVersion = 2, dp_WorkNonce = 1, dp_AgentID = ''ag'', dp_ContentHash = demo_hex,
       dp_ParentContentHash = [], dp_FeedbackDigest = [], dp_ChangeOrderID = [], dp_AgentResponseHash = [], dp_ChangeSummaryHash = [], dp_PolicyHash = ''sh'',
       dp_Deadline = 0\<rparr>, pr_PayloadHash = demo_hex, pr_Digest = demo_hex, pr_Signature = ''0x''\<rparr>"

definition demo_intent :: acceptance_intent where
  "demo_intent = intent_draft demo_delivery_env ''t'' \<lparr>aq_PackageID = demo_hex, aq_ExpectedPackageVersion = 3, aq_FormalVersion = 1, aq_ContentHash = demo_hex,
     aq_ProofDigest = demo_hex, aq_WorkNonce = 1\<rparr>"

definition demo_pending :: delivery_db where
  "demo_pending = (demo_review ''in_scope'')\<lparr>dd_events := [demo_event ''selection_confirmed'' 1, demo_event ''funds_released'' 1],
     dd_proofs := [((demo_hex, 1), demo_delivery_proof)], dd_intents := [(demo_hex, demo_intent)],
     dd_states := [\<lparr>acs_IntentID = demo_hex, acs_AggregateVersion = 2, acs_State = AcceptancePending, acs_TransactionHash = ''0x1'', acs_ChainEventID = [],
       acs_OccurredAt = 4\<rparr>]\<rparr>"

lemma demo_intent_fields [simp]:
  "aci_PackageID demo_intent = demo_hex" "aci_TaskID demo_intent = ''t''" "aci_FormalVersion demo_intent = 1" "aci_ContentHash demo_intent = demo_hex"
  "aci_ProofDigest demo_intent = demo_hex" "aci_WorkNonce demo_intent = 1" "aci_PackageAggregateVersion demo_intent = 3"
  by (simp_all add: demo_intent_def intent_draft_def)

lemma demo_reconcile_fresh:
  "fresh_answer (dl_transition_acceptance demo_delivery_env 7 demo_owner ''k'' ''t'' demo_hex \<lparr>tq_ExpectedVersion = 2, tq_TransactionHash = []\<rparr> True demo_pending)"
proof -
  let ?q = "\<lparr>tq_ExpectedVersion = 2, tq_TransactionHash = []\<rparr>"
  have d: "dd_events demo_pending = [demo_event ''selection_confirmed'' 1, demo_event ''funds_released'' 1]" "dd_proofs demo_pending = [((demo_hex, 1), demo_delivery_proof)]"
    "dd_intents demo_pending = [(demo_hex, demo_intent)]" "dd_packages demo_pending = [(demo_hex, demo_package)]" "dd_acceptanceRequests demo_pending = []"
    "dd_versions demo_pending = [((demo_hex, 1), demo_version)]" "dd_bindings demo_pending = [(''as'', demo_binding)]" "dd_changeOrders demo_pending = []"
    "dd_states demo_pending = [\<lparr>acs_IntentID = demo_hex, acs_AggregateVersion = 2, acs_State = AcceptancePending, acs_TransactionHash = ''0x1'',
       acs_ChainEventID = [], acs_OccurredAt = 4\<rparr>]"
    by (simp_all add: demo_pending_def)
  have a: "load_acceptance demo_hex ''t'' ''u'' demo_pending = Some (demo_intent\<lparr>aci_AggregateVersion := 2, aci_State := AcceptancePending,
      aci_TransactionHash := ''0x1'', aci_ChainEventID := [], aci_ChainID := ''1'', aci_ContractAddress := ''0xc'', aci_PublisherWallet := bnd_PublisherWallet demo_binding,
      aci_ChainTaskID := ''ct'', aci_UpdatedAt := 4\<rparr>)" (is "_ = Some ?a")
    by (simp add: load_acceptance_def d gget_def latest_state_def reservation_of_def)
  have n: "latest_nonce demo_hex demo_pending = 1"
    by (simp add: latest_nonce_def reservation_of_def d gget_def demo_event_def)
  have e: "require_eligible ?a demo_pending = Inr ()"
    by (simp add: require_eligible_def acceptance_eligibility_def d gget_def settlement_gate_def settlement_reason_def
      acceptance_snapshot_def n demo_delivery_proof_def Let_def)
  have r: "release_event ?a demo_pending = Some ''funds_released''"
    by (simp add: release_event_def reservation_of_def d gget_def demo_event_def)
  let ?m = "mutation_of demo_delivery_env demo_owner ''k'' (DocTransition ''t'' demo_hex ''reconcile'' ?q)"
  have "\<exists>x d'. acceptance_fresh demo_delivery_env 7 ?m ''t'' demo_hex ?q True demo_pending = Inr (x, d')"
    by (simp add: acceptance_fresh_def a reconcile_acceptance_def e r append_acceptance_state_def d formal_conflict_def settle_acceptance_def
      gget_def reservation_of_def Let_def)
  then obtain x d' where "acceptance_fresh demo_delivery_env 7 ?m ''t'' demo_hex ?q True demo_pending = Inr (x, d')" by blast
  then show ?thesis
    by (simp add: dl_transition_acceptance_def demo_delivery_not_blank valid_mutation_key_def store_transition_acceptance_def acceptance_once_def replay_acceptance_def
      d gget_def run_tx_def fresh_answer_def Let_def has_prefix_def)
qed

text \<open>
  C21: Safety of the acceptance. An acceptance is confirmed only for the last version of the package, while it is under
  review with the content, proof and work nonce the publisher named, this nonce being the latest on the canonical
  chain, and a change order that is ready if the version needs one; and only by a canonical event of the named
  transaction that released the payable amount of the reservation to its payout address, which has confirmed nothing
  before.
\<close>
theorem confirmed_acceptance_on_chain:
  assumes "dl_transition_acceptance E now s key taskID i q True d = (d', Inr (a, False))"
  shows "\<exists>p v r b e. gget (dd_packages d) (aci_PackageID a) = Some p \<and> gget (dd_versions d) (aci_PackageID a, aci_FormalVersion a) = Some v \<and>
    gget (dd_proofs d) (aci_PackageID a, aci_FormalVersion a) = Some r \<and> aci_FormalVersion a = fpk_AllocatedVersion p \<and>
    aci_PackageAggregateVersion a = fpk_AggregateVersion p \<and> fvr_Status v = VersionReview \<and> aci_ContentHash a = fvr_ContentHash v \<and>
    aci_ProofDigest a = pr_Digest r \<and> aci_WorkNonce a = fvr_WorkNonce v \<and> aci_WorkNonce a = latest_nonce (fpk_ID p) d \<and>
    (IncludedVersions < aci_FormalVersion a \<longrightarrow> change_order_ready (fpk_ID p) (aci_FormalVersion a) d) \<and>
    reservation_of (aci_PackageID a) d = Some b \<and> e \<in> set (dd_events d) \<and> cer_ID e = aci_ChainEventID a \<and> cer_Type e = ''funds_released'' \<and>
    cer_ChainID e = bnd_ChainID b \<and> cer_ContractAddress e = bnd_ContractAddress b \<and> cer_TaskID e = bnd_ProofTaskID b \<and>
    cer_TransactionHash e = aci_TransactionHash a \<and> cer_Recipient e = bnd_PayoutAddress b \<and> cer_Amount e = bnd_FormalPayable b \<and>
    \<not> list_ex (\<lambda>s. acs_State s = AcceptanceConfirmed \<and> acs_ChainEventID s = cer_ID e) (dd_states d)"
  using confirmed_facts [OF assms] unfolding settlement_gate_eligible acceptance_snapshot_def settlement_snapshot.simps by blast

theorem confirmed_acceptance_on_chain_witness:
  "\<exists>a d' e. dl_transition_acceptance demo_delivery_env 7 demo_owner ''k'' ''t'' demo_hex \<lparr>tq_ExpectedVersion = 2, tq_TransactionHash = []\<rparr> True demo_pending =
     (d', Inr (a, False)) \<and> e \<in> set (dd_events demo_pending) \<and> cer_Type e = ''funds_released'' \<and> cer_ID e = aci_ChainEventID a"
proof -
  from fresh_answerD [OF demo_reconcile_fresh] obtain a d' where
    r: "dl_transition_acceptance demo_delivery_env 7 demo_owner ''k'' ''t'' demo_hex \<lparr>tq_ExpectedVersion = 2, tq_TransactionHash = []\<rparr> True demo_pending = (d', Inr (a, False))"
    by (metis prod.collapse)
  from confirmed_acceptance_on_chain [OF r] r show ?thesis by blast
qed

text \<open>
  C20: Payment of a change order. When the confirmed acceptance pays it, the fund tables stay well formed and the total of
  every asset is unchanged; the escrow account is emptied: the authorised price goes to the receivable of the agent's
  payout address, the rest, when there is one, to the funding control account of the asset, and no other account changes or appears;
  the journal of each of the two transfers balances, and the row of the settlement names both.
\<close>
theorem change_order_paid_out:
  assumes "ledger_ok (dd_ledger d)" "settle_change_order E now a c b i d = Inr d'" "dd_settlements d' \<noteq> dd_settlements d"
  shows "\<exists>x x' r s. ledger_ok (dd_ledger d') \<and> (\<forall>asset. ledger_total asset (dd_ledger d') = ledger_total asset (dd_ledger d)) \<and>
    gget (lg_accounts (dd_ledger d)) (cho_FundAccountID c) = Some x \<and> gget (lg_accounts (dd_ledger d')) (cho_FundAccountID c) = Some x' \<and>
    fa_Balance x' = 0 \<and> dd_settlements d' = dd_settlements d @ [s] \<and> stl_Amount s = money_int (cho_AuthorizedPrice c) \<and> 0 < stl_Amount s \<and>
    stl_ResidualAmount s = fa_Balance x - stl_Amount s \<and> 0 \<le> stl_ResidualAmount s \<and>
    gget (lg_accounts (dd_ledger d')) (fa_ID r) = Some r \<and> fa_Type r = ''formal_agent_receivable'' \<and>
    fa_Reference r = bnd_AgentController b @ '':'' @ bnd_PayoutAddress b \<and> fa_Asset r = fa_Asset x \<and>
    fa_Balance r = (case gget (lg_accounts (dd_ledger d)) (fa_ID r) of None \<Rightarrow> 0 | Some before \<Rightarrow> fa_Balance before) + stl_Amount s \<and>
    (if stl_ResidualAmount s = 0 then \<forall>k. k \<noteq> cho_FundAccountID c \<longrightarrow> k \<noteq> fa_ID r \<longrightarrow> gget (lg_accounts (dd_ledger d')) k = gget (lg_accounts (dd_ledger d)) k
     else \<exists>f. gget (lg_accounts (dd_ledger d')) (fa_ID f) = Some f \<and> fa_Type f = ''funding_control'' \<and> fa_Reference f = ''funding'' \<and>
       fa_Asset f = fa_Asset x \<and>
       fa_Balance f = (case gget (lg_accounts (dd_ledger d)) (fa_ID f) of None \<Rightarrow> 0 | Some before \<Rightarrow> fa_Balance before) + stl_ResidualAmount s \<and>
       (\<forall>k. k \<noteq> cho_FundAccountID c \<longrightarrow> k \<noteq> fa_ID r \<longrightarrow> k \<noteq> fa_ID f \<longrightarrow>
         gget (lg_accounts (dd_ledger d')) k = gget (lg_accounts (dd_ledger d)) k)) \<and>
    journal_balanced (stl_JournalID s) (dd_ledger d') \<and> (stl_ResidualAmount s = 0 \<or> journal_balanced (stl_ResidualJournalID s) (dd_ledger d'))"
  by (rule change_order_settled [OF assms, unfolded residual_paid_def])

definition demo_escrow :: account_row where
  "demo_escrow = \<lparr>fa_ID = ''esc'', fa_Class = ''business'', fa_Type = ''change_order_escrow'', fa_TaskID = ''t'', fa_Reference = ''co'', fa_Asset = ''usdc'',
     fa_PrincipalOwnerID = ''u'', fa_ResidualRecipientID = ''u'', fa_RefundPolicyVersion = [], fa_State = ''frozen'', fa_Balance = 12, fa_CreatedAt = 1,
     fa_UpdatedAt = 1\<rparr>"

definition demo_order :: change_order where
  "demo_order = (change_draft demo_delivery_env ''t'' \<lparr>prq_PackageID = demo_hex, prq_ExpectedPackageVersion = 8, prq_TriggerVersion = 3,
     prq_TriggerContentHash = demo_hex, prq_FeedbackSetID = demo_hex, prq_FeedbackDigest = demo_hex, prq_NewSpecHash = demo_hex, prq_Differences = [],
     prq_RequestedPrice = ''10'', prq_Deadline = 5\<rparr>)\<lparr>cho_ID := ''co'', cho_AuthorizedPrice := ''10'', cho_FundAccountID := ''esc''\<rparr>"

definition demo_escrow_db :: delivery_db where
  "demo_escrow_db = demo_ddb\<lparr>dd_ledger := \<lparr>lg_accounts = [(''esc'', demo_escrow)], lg_journals = [], lg_entries = []\<rparr>\<rparr>"

definition demo_paid :: "delivery_error + delivery_db" where
  "demo_paid = settle_change_order (demo_delivery_env\<lparr>dl_sha := (\<lambda>s. [s ! 22])\<rparr>) 7 demo_intent demo_order demo_binding ''ev'' demo_escrow_db"

lemma demo_paid_settles: "(case demo_paid of Inl e \<Rightarrow> False | Inr d \<Rightarrow> length (dd_settlements d) = 1)"
  by code_simp

theorem change_order_paid_out_witness:
  "\<exists>d' x'. demo_paid = Inr d' \<and> gget (lg_accounts (dd_ledger d')) ''esc'' = Some x' \<and> fa_Balance x' = 0 \<and> ledger_total ''usdc'' (dd_ledger d') = 12"
proof -
  obtain d' where d: "demo_paid = Inr d'" "length (dd_settlements d') = 1" using demo_paid_settles by (simp split: sum.splits)
  have e: "dd_settlements demo_escrow_db = []" "dd_ledger demo_escrow_db = \<lparr>lg_accounts = [(''esc'', demo_escrow)], lg_journals = [], lg_entries = []\<rparr>"
    by (simp_all add: demo_escrow_db_def demo_ddb_def)
  have ok: "ledger_ok (dd_ledger demo_escrow_db)" by (simp add: e ledger_ok_def gwf_def gget_def demo_escrow_def)
  have "dd_settlements d' \<noteq> dd_settlements demo_escrow_db" using d(2) e(1) by auto
  from change_order_paid_out [OF ok d(1) [unfolded demo_paid_def] this] obtain x' where
    "gget (lg_accounts (dd_ledger d')) (cho_FundAccountID demo_order) = Some x'" "fa_Balance x' = 0"
    "ledger_total ''usdc'' (dd_ledger d') = ledger_total ''usdc'' (dd_ledger demo_escrow_db)" by blast
  moreover have "cho_FundAccountID demo_order = ''esc''" "ledger_total ''usdc'' (dd_ledger demo_escrow_db) = 12"
    by (simp_all add: demo_order_def e ledger_total_def gsum_def gvals_def demo_escrow_def)
  ultimately show ?thesis using d(1) by metis
qed

end
