(* ===== verification/Funds_Types.thy ===== *)
theory Funds_Types
  imports Money Digest
begin

text \<open>
  The funds package's data (\<open>internal/funds/types.go\<close>) and its validation helpers
  (\<open>internal/funds/service.go\<close>). Structs are records with the source's field names behind a short
  prefix; string constants that the code compares are abbreviations for the string itself.
\<close>

section \<open>Errors and constants\<close>

datatype funds_error =
    FErrInvalidInput
  | FErrNotFound
  | FErrContentConflict
  | FErrInvalidState
  | FErrInsufficient
  | FPanic \<comment> \<open>nil \<open>*big.Int\<close>, from an amount that does not parse\<close>

abbreviation LedgerVersion :: string where "LedgerVersion \<equiv> ''double-entry-v1''"

abbreviation AccountDiscoveryPool :: string where "AccountDiscoveryPool \<equiv> ''discovery_pool''"
abbreviation AccountFormalEscrow :: string where "AccountFormalEscrow \<equiv> ''formal_escrow''"
abbreviation AccountChangeOrder :: string where "AccountChangeOrder \<equiv> ''change_order_escrow''"
abbreviation AccountDisputeFee :: string where "AccountDisputeFee \<equiv> ''dispute_fee_pool''"
abbreviation AccountFundingControl :: string where "AccountFundingControl \<equiv> ''funding_control''"
abbreviation AccountAgentReceivable :: string where "AccountAgentReceivable \<equiv> ''agent_receivable''"
abbreviation AccountExternalClearing :: string where "AccountExternalClearing \<equiv> ''external_cost_clearing''"

abbreviation AccountOpen :: string where "AccountOpen \<equiv> ''open''"

abbreviation AllocationAuthorized :: string where "AllocationAuthorized \<equiv> ''authorized''"
abbreviation AllocationCaptured :: string where "AllocationCaptured \<equiv> ''captured''"
abbreviation AllocationReleased :: string where "AllocationReleased \<equiv> ''released''"

abbreviation EntryDebit :: string where "EntryDebit \<equiv> ''debit''"
abbreviation EntryCredit :: string where "EntryCredit \<equiv> ''credit''"

section \<open>Structs\<close>

record account =
  acct_ID :: string
  acct_Type :: string
  acct_TaskID :: string
  acct_ReferenceID :: string
  acct_Asset :: string
  acct_PrincipalOwnerID :: string
  acct_ResidualRecipientID :: string
  acct_RefundPolicyVersion :: string
  acct_State :: string
  acct_Balance :: string
  acct_CreatedAt :: gotime
  acct_UpdatedAt :: gotime

definition zero_account :: account where
  "zero_account = \<lparr>acct_ID = [], acct_Type = [], acct_TaskID = [], acct_ReferenceID = [], acct_Asset = [],
     acct_PrincipalOwnerID = [], acct_ResidualRecipientID = [], acct_RefundPolicyVersion = [],
     acct_State = [], acct_Balance = [], acct_CreatedAt = 0, acct_UpdatedAt = 0\<rparr>"

record open_account_request =
  oar_Type :: string
  oar_TaskID :: string
  oar_ReferenceID :: string
  oar_Asset :: string
  oar_PrincipalOwnerID :: string
  oar_ResidualRecipientID :: string
  oar_RefundPolicyVersion :: string

record funding_request =
  fr_IdempotencyKey :: string
  fr_AccountID :: string
  fr_Amount :: string
  fr_ExternalRef :: string

record overview_authorization =
  oa_IdempotencyKey :: string
  oa_TaskID :: string
  oa_TaskSpecHash :: string
  oa_SnapshotID :: string
  oa_MatchRevision :: int
  oa_AgentID :: string
  oa_PriceVersion :: int
  oa_QuoteHash :: string
  oa_OverviewPrice :: string
  oa_ExternalCostCap :: string
  oa_Deadline :: gotime

record overview_capture =
  oc_TaskID :: string
  oc_TaskSpecHash :: string
  oc_MatchRevision :: int
  oc_LogicalExecutionID :: string
  oc_AgentID :: string
  oc_QuoteHash :: string
  oc_ContentHash :: string
  oc_OverviewAmount :: string
  oc_UsedCost :: string

record allocation =
  al_ID :: string
  al_IdempotencyKey :: string
  al_RequestHash :: string
  al_AccountID :: string
  al_Asset :: string
  al_TaskID :: string
  al_TaskSpecHash :: string
  al_SnapshotID :: string
  al_MatchRevision :: int
  al_AgentID :: string
  al_PriceVersion :: int
  al_QuoteHash :: string
  al_OverviewPrice :: string
  al_CostCap :: string
  al_ReserveAmount :: string
  al_Status :: string
  al_CaptureClaimHash :: string
  al_CapturedOverview :: string
  al_CapturedCost :: string
  al_CaptureJournalID :: string
  al_ReleaseReasonCode :: string
  al_Deadline :: gotime
  al_CreatedAt :: gotime
  al_UpdatedAt :: gotime

text \<open>\<open>CompatibleAuthorizationReplay\<close>.\<close>

definition compatible_authorization_replay :: "allocation \<Rightarrow> allocation \<Rightarrow> bool" where
  "compatible_authorization_replay existing draft \<longleftrightarrow>
     al_Status existing = AllocationAuthorized \<and>
     al_Status draft = AllocationAuthorized \<and>
     al_ID existing = al_ID draft \<and>
     al_IdempotencyKey existing = al_IdempotencyKey draft \<and>
     al_Asset existing = al_Asset draft \<and>
     al_TaskID existing = al_TaskID draft \<and>
     al_TaskSpecHash existing = al_TaskSpecHash draft \<and>
     al_SnapshotID existing = al_SnapshotID draft \<and>
     al_MatchRevision existing = al_MatchRevision draft \<and>
     al_AgentID existing = al_AgentID draft \<and>
     al_PriceVersion existing = al_PriceVersion draft \<and>
     al_QuoteHash existing = al_QuoteHash draft \<and>
     al_OverviewPrice existing = al_OverviewPrice draft \<and>
     al_CostCap existing = al_CostCap draft \<and>
     al_ReserveAmount existing = al_ReserveAmount draft \<and>
     \<not> (al_Deadline draft < al_Deadline existing)"

record entry =
  en_Index :: int
  en_AccountID :: string
  en_Direction :: string
  en_Amount :: string
  en_Asset :: string

record journal =
  jr_ID :: string
  jr_IdempotencyKey :: string
  jr_Type :: string
  jr_RequestHash :: string
  jr_TaskID :: string
  jr_AllocationID :: string
  jr_ReversalOf :: string
  jr_SourceRef :: string
  jr_ReasonCode :: string
  jr_Entries :: "entry list"
  jr_CreatedAt :: gotime

record reverse_request =
  rr_IdempotencyKey :: string
  rr_JournalID :: string
  rr_ReasonCode :: string

section \<open>Hashing\<close>

text \<open>
  The values the package passes to \<open>hashJSON\<close>. \<open>json.Marshal\<close> and SHA-256 are the two parameters of
  the package's model: \<open>fe_json\<close> is the JSON text of a payload, \<open>fe_sha\<close> the digest of bytes.
\<close>

datatype funds_payload =
    HFunding funding_request
  | HAuthorization overview_authorization
  | HCapture overview_capture
  | HRelease string string
  | HReverse reverse_request

record funds_env =
  fe_sha :: "string \<Rightarrow> string"
  fe_json :: "funds_payload \<Rightarrow> string"
  fe_asset :: string

definition hash_json :: "funds_env \<Rightarrow> funds_payload \<Rightarrow> string" where
  "hash_json E v = sha_string (fe_sha E (fe_json E v))"

section \<open>Validation helpers\<close>

definition business_account_type :: "string \<Rightarrow> bool" where
  "business_account_type v \<longleftrightarrow> v \<in> {AccountDiscoveryPool, AccountFormalEscrow, AccountChangeOrder, AccountDisputeFee}"

text \<open>\<open>safeCode\<close>: \<open>^[a-z0-9][a-z0-9_,.-]{0,255}$\<close>.\<close>

definition safe_code :: "string \<Rightarrow> bool" where
  "safe_code v = (case v of
     [] \<Rightarrow> False
   | c # cs \<Rightarrow> (is_lower c \<or> is_digit c) \<and> length cs \<le> 255 \<and>
       list_all (\<lambda>d. is_lower d \<or> is_digit d \<or> d \<in> set ''_,.-'') cs)"

text \<open>\<open>safeAsset\<close>: \<open>^[a-z0-9][a-z0-9:/._-]{0,127}$\<close>.\<close>

definition safe_asset :: "string \<Rightarrow> bool" where
  "safe_asset v = (case v of
     [] \<Rightarrow> False
   | c # cs \<Rightarrow> (is_lower c \<or> is_digit c) \<and> length cs \<le> 127 \<and>
       list_all (\<lambda>d. is_lower d \<or> is_digit d \<or> d \<in> set '':/._-'') cs)"

definition valid_asset :: "string \<Rightarrow> bool" where
  "valid_asset v \<longleftrightarrow> safe_asset v \<and> v = to_lower v"

definition new_service :: "bool \<Rightarrow> string \<Rightarrow> funds_error + unit" where
  "new_service repository_nil asset =
     (if repository_nil \<or> \<not> valid_asset asset then Inl FErrInvalidInput else Inr ())"

end
