(* ===== verification/Funds_Memory.thy ===== *)
theory Funds_Memory
  imports Funds_Types
begin

text \<open>
  The funds repository (\<open>internal/funds/memory.go\<close>): its five maps and one definition per method. The
  mutex makes every method one step, so a method is a function from the repository to the repository
  and the method's results. A method that fails may already have created a system account, so the
  repository is returned on the error branches too. The clock and the request hash are arguments.
\<close>

section \<open>State\<close>

record funds_repo =
  fm_accounts :: "(string, account) gomap"
  fm_allocations :: "(string, allocation) gomap"
  fm_journals :: "(string, journal) gomap"
  fm_journalKeys :: "(string, string) gomap"
  fm_reversals :: "(string, string) gomap"

definition new_memory_repository :: funds_repo where
  "new_memory_repository = \<lparr>fm_accounts = [], fm_allocations = [], fm_journals = [], fm_journalKeys = [], fm_reversals = []\<rparr>"

section \<open>Comparison of identities\<close>

definition same_account_identity :: "account \<Rightarrow> account \<Rightarrow> bool" where
  "same_account_identity left right \<longleftrightarrow>
     left\<lparr>acct_Balance := [], acct_State := [], acct_CreatedAt := 0, acct_UpdatedAt := 0\<rparr> =
     right\<lparr>acct_Balance := [], acct_State := [], acct_CreatedAt := 0, acct_UpdatedAt := 0\<rparr>"

definition allocation_identity :: "allocation \<Rightarrow> allocation" where
  "allocation_identity a = a\<lparr>al_AccountID := [], al_Status := [], al_CaptureClaimHash := [],
     al_CapturedOverview := [], al_CapturedCost := [], al_CaptureJournalID := [],
     al_ReleaseReasonCode := [], al_CreatedAt := 0, al_UpdatedAt := 0\<rparr>"

definition same_allocation_identity :: "allocation \<Rightarrow> allocation \<Rightarrow> bool" where
  "same_allocation_identity left right \<longleftrightarrow> allocation_identity left = allocation_identity right"

section \<open>Accounts\<close>

definition open_account :: "account \<Rightarrow> funds_repo \<Rightarrow> funds_repo \<times> (funds_error + account \<times> bool)" where
  "open_account draft r =
     (case gget (fm_accounts r) (acct_ID draft) of
        Some existing \<Rightarrow>
          if \<not> same_account_identity existing draft then (r, Inl FErrContentConflict)
          else (r, Inr (existing, True))
      | None \<Rightarrow>
          if list_ex (\<lambda>existing. acct_Type existing = acct_Type draft \<and>
                acct_ReferenceID existing = acct_ReferenceID draft \<and>
                acct_Asset existing = acct_Asset draft) (gvals (fm_accounts r))
          then (r, Inl FErrContentConflict)
          else (r\<lparr>fm_accounts := gput (acct_ID draft) draft (fm_accounts r)\<rparr>, Inr (draft, False)))"

definition get_account :: "string \<Rightarrow> funds_repo \<Rightarrow> funds_error + account" where
  "get_account accountID r = from_option FErrNotFound (gget (fm_accounts r) accountID)"

definition ensure_system_account ::
    "string \<Rightarrow> string \<Rightarrow> string \<Rightarrow> string \<Rightarrow> gotime \<Rightarrow> funds_repo \<Rightarrow> funds_repo" where
  "ensure_system_account sysID accountType referenceID asset now r =
     (case gget (fm_accounts r) sysID of
        Some _ \<Rightarrow> r
      | None \<Rightarrow> r\<lparr>fm_accounts := gput sysID
          (zero_account\<lparr>acct_ID := sysID, acct_Type := accountType, acct_ReferenceID := referenceID,
             acct_Asset := asset, acct_State := AccountOpen, acct_Balance := ''0'',
             acct_CreatedAt := now, acct_UpdatedAt := now\<rparr>) (fm_accounts r)\<rparr>)"

section \<open>Journals\<close>

text \<open>The first loop of \<open>postJournal\<close>: validate the entries and totalAmount both sides.\<close>

fun check_entries ::
    "(string, account) gomap \<Rightarrow> int \<Rightarrow> entry list \<Rightarrow> string \<Rightarrow> string \<Rightarrow> funds_error + string \<times> string" where
  "check_entries accounts index [] debits credits = Inr (debits, credits)"
| "check_entries accounts index (e # es) debits credits =
     (if en_Index e \<noteq> index + 1 \<or> \<not> positive_money (en_Amount e) \<or>
         (en_Direction e \<noteq> EntryDebit \<and> en_Direction e \<noteq> EntryCredit)
      then Inl FErrInvalidInput
      else case gget accounts (en_AccountID e) of
        None \<Rightarrow> Inl FErrContentConflict
      | Some account \<Rightarrow>
          if acct_Asset account \<noteq> en_Asset e then Inl FErrContentConflict
          else if en_Direction e = EntryDebit then
            rbind (from_option FPanic (add_money debits (en_Amount e)))
              (\<lambda>d. check_entries accounts (index + 1) es d credits)
          else
            rbind (from_option FPanic (add_money credits (en_Amount e)))
              (\<lambda>c. check_entries accounts (index + 1) es debits c))"

text \<open>The second loop: the changed accounts, in a map of their own.\<close>

definition apply_entry ::
    "(string, account) gomap \<Rightarrow> gotime \<Rightarrow> entry \<Rightarrow> (string, account) gomap \<Rightarrow> funds_error + (string, account) gomap" where
  "apply_entry accounts createdAt e updated =
     (let account0 = (case gget accounts (en_AccountID e) of None \<Rightarrow> zero_account | Some a \<Rightarrow> a);
          account = (case gget updated (en_AccountID e) of Some changed \<Rightarrow> changed | None \<Rightarrow> account0)
      in rbind (from_option FPanic
                 (if en_Direction e = EntryDebit then subtract_money (acct_Balance account) (en_Amount e)
                  else add_money (acct_Balance account) (en_Amount e)))
         (\<lambda>balance. rbind (from_option FPanic (compare_money balance ''0''))
           (\<lambda>sign. if business_account_type (acct_Type account) \<and> sign < 0 then Inl FErrInsufficient
              else Inr (gput (acct_ID account)
                     (account\<lparr>acct_Balance := balance, acct_UpdatedAt := createdAt\<rparr>) updated))))"

fun apply_entries ::
    "(string, account) gomap \<Rightarrow> gotime \<Rightarrow> entry list \<Rightarrow> (string, account) gomap \<Rightarrow> funds_error + (string, account) gomap" where
  "apply_entries accounts createdAt [] updated = Inr updated"
| "apply_entries accounts createdAt (e # es) updated =
     rbind (apply_entry accounts createdAt e updated) (apply_entries accounts createdAt es)"

definition put_all :: "(string, account) gomap \<Rightarrow> (string, account) gomap \<Rightarrow> (string, account) gomap" where
  "put_all updated accounts = foldl (\<lambda>m (k, account). gput k account m) accounts updated"

definition post_journal :: "journal \<Rightarrow> funds_repo \<Rightarrow> funds_error + funds_repo" where
  "post_journal journal r =
     (if length (jr_Entries journal) < 2 then Inl FErrInvalidInput
      else rbind (check_entries (fm_accounts r) 0 (jr_Entries journal) ''0'' ''0'')
        (\<lambda>(debits, credits).
          if debits \<noteq> credits then Inl FErrInvalidInput
          else rbind (apply_entries (fm_accounts r) (jr_CreatedAt journal) (jr_Entries journal) [])
            (\<lambda>updated. Inr (r\<lparr>fm_accounts := put_all updated (fm_accounts r),
               fm_journals := gput (jr_ID journal) journal (fm_journals r),
               fm_journalKeys := gput (jr_IdempotencyKey journal) (jr_ID journal) (fm_journalKeys r)\<rparr>))))"

text \<open>
  \<open>journalReplay\<close>. A key whose journal is missing reads the zero journal, whose identifier and hash
  are empty; \<open>Inr None\<close> is the answer "no replay".
\<close>

definition zero_journal :: journal where
  "zero_journal = \<lparr>jr_ID = [], jr_IdempotencyKey = [], jr_Type = [], jr_RequestHash = [], jr_TaskID = [],
     jr_AllocationID = [], jr_ReversalOf = [], jr_SourceRef = [], jr_ReasonCode = [], jr_Entries = [],
     jr_CreatedAt = 0\<rparr>"

definition journal_at :: "string \<Rightarrow> funds_repo \<Rightarrow> journal" where
  "journal_at jid r = (case gget (fm_journals r) jid of None \<Rightarrow> zero_journal | Some j \<Rightarrow> j)"

definition journal_replay :: "journal \<Rightarrow> funds_repo \<Rightarrow> funds_error + journal option" where
  "journal_replay draft r =
     (case gget (fm_journalKeys r) (jr_IdempotencyKey draft) of
        None \<Rightarrow> Inr None
      | Some jid \<Rightarrow>
          let existing = journal_at jid r in
          if jr_ID existing \<noteq> jr_ID draft \<or> jr_RequestHash existing \<noteq> jr_RequestHash draft
          then Inl FErrContentConflict else Inr (Some existing))"

definition post_funding ::
    "journal \<Rightarrow> funding_request \<Rightarrow> funds_repo \<Rightarrow> funds_repo \<times> (funds_error + journal \<times> bool)" where
  "post_funding journal request r =
     (case journal_replay journal r of
        Inl e \<Rightarrow> (r, Inl e)
      | Inr (Some existing) \<Rightarrow> (r, Inr (existing, True))
      | Inr None \<Rightarrow>
         (case gget (fm_accounts r) (fr_AccountID request) of
            None \<Rightarrow> (r, Inl FErrNotFound)
          | Some account \<Rightarrow>
             (case jr_Entries journal of
                e0 # e1 # _ \<Rightarrow>
                  if acct_State account \<noteq> AccountOpen \<or> \<not> business_account_type (acct_Type account) \<or>
                     acct_Asset account \<noteq> en_Asset e1
                  then (r, Inl FErrInvalidState)
                  else
                    let control = zero_account\<lparr>acct_ID := en_AccountID e0, acct_Type := AccountFundingControl,
                          acct_ReferenceID := acct_Asset account, acct_Asset := acct_Asset account,
                          acct_State := AccountOpen, acct_Balance := ''0'',
                          acct_CreatedAt := jr_CreatedAt journal, acct_UpdatedAt := jr_CreatedAt journal\<rparr>;
                        r' = (case gget (fm_accounts r) (acct_ID control) of
                                Some _ \<Rightarrow> r
                              | None \<Rightarrow> r\<lparr>fm_accounts := gput (acct_ID control) control (fm_accounts r)\<rparr>)
                    in (case post_journal journal r' of
                          Inl e \<Rightarrow> (r', Inl e)
                        | Inr r'' \<Rightarrow> (r'', Inr (journal, False)))
              | _ \<Rightarrow> (r, Inl FPanic))))" \<comment> \<open>index out of range on \<open>Entries[1]\<close>\<close>

definition reverse_journal :: "journal \<Rightarrow> funds_repo \<Rightarrow> funds_repo \<times> (funds_error + journal \<times> bool)" where
  "reverse_journal journal r =
     (case journal_replay journal r of
        Inl e \<Rightarrow> (r, Inl e)
      | Inr (Some existing) \<Rightarrow> (r, Inr (existing, True))
      | Inr None \<Rightarrow>
         (case gget (fm_reversals r) (jr_ReversalOf journal) of
            Some existingID \<Rightarrow>
              let existing = journal_at existingID r in
              if jr_RequestHash existing = jr_RequestHash journal then (r, Inr (existing, True))
              else (r, Inl FErrContentConflict)
          | None \<Rightarrow>
             (case gget (fm_journals r) (jr_ReversalOf journal) of
                None \<Rightarrow> (r, Inl FErrNotFound)
              | Some _ \<Rightarrow>
                 (case post_journal journal r of
                    Inl e \<Rightarrow> (r, Inl e)
                  | Inr r' \<Rightarrow> (r'\<lparr>fm_reversals := gput (jr_ReversalOf journal) (jr_ID journal) (fm_reversals r')\<rparr>,
                              Inr (journal, False))))))"

definition get_journal :: "string \<Rightarrow> funds_repo \<Rightarrow> funds_error + journal" where
  "get_journal journalID r = from_option FErrNotFound (gget (fm_journals r) journalID)"

section \<open>Allocations\<close>

text \<open>
  The account search of \<open>AuthorizeOverview\<close>: the loop keeps the account found last and fails on a
  second match, so it succeeds exactly when one account matches.
\<close>

fun find_pool :: "allocation \<Rightarrow> account list \<Rightarrow> account option \<Rightarrow> funds_error + account option" where
  "find_pool draft [] found = Inr found"
| "find_pool draft (account # rest) found =
     (if acct_Type account = AccountDiscoveryPool \<and> acct_TaskID account = al_TaskID draft \<and>
         acct_Asset account = al_Asset draft
      then (if found \<noteq> None then Inl FErrContentConflict else find_pool draft rest (Some account))
      else find_pool draft rest found)"

fun available_funds :: "string \<Rightarrow> allocation list \<Rightarrow> string \<Rightarrow> funds_error + string" where
  "available_funds accountID [] available = Inr available"
| "available_funds accountID (a # rest) available =
     (if al_AccountID a = accountID \<and> al_Status a = AllocationAuthorized
      then rbind (from_option FPanic (subtract_money available (al_ReserveAmount a)))
             (available_funds accountID rest)
      else available_funds accountID rest available)"

definition authorize_overview ::
    "allocation \<Rightarrow> funds_repo \<Rightarrow> funds_repo \<times> (funds_error + allocation \<times> bool)" where
  "authorize_overview draft r =
     (case gget (fm_allocations r) (al_ID draft) of
        Some existing \<Rightarrow>
          if \<not> same_allocation_identity existing draft \<and> \<not> compatible_authorization_replay existing draft
          then (r, Inl FErrContentConflict) else (r, Inr (existing, True))
      | None \<Rightarrow>
          if list_ex (\<lambda>existing. al_IdempotencyKey existing = al_IdempotencyKey draft) (gvals (fm_allocations r))
          then (r, Inl FErrContentConflict)
          else case find_pool draft (gvals (fm_accounts r)) None of
            Inl e \<Rightarrow> (r, Inl e)
          | Inr None \<Rightarrow> (r, Inl FErrNotFound)
          | Inr (Some source) \<Rightarrow>
              if acct_State source \<noteq> AccountOpen then (r, Inl FErrInvalidState)
              else case rbind (available_funds (acct_ID source) (gvals (fm_allocations r)) (acct_Balance source))
                     (\<lambda>available. from_option FPanic (compare_money available (al_ReserveAmount draft))) of
                Inl e \<Rightarrow> (r, Inl e)
              | Inr sign \<Rightarrow>
                  if sign < 0 then (r, Inl FErrInsufficient)
                  else let draft' = draft\<lparr>al_AccountID := acct_ID source\<rparr>
                       in (r\<lparr>fm_allocations := gput (al_ID draft') draft' (fm_allocations r)\<rparr>, Inr (draft', False)))"

text \<open>The journal of a capture, and the repository with the system accounts the entries credit.\<close>

definition agent_account_id :: "funds_env \<Rightarrow> allocation \<Rightarrow> overview_capture \<Rightarrow> string" where
  "agent_account_id E a claim = stable_id (fe_sha E)
     [''fund-system-account'', AccountAgentReceivable, oc_AgentID claim, al_Asset a, LedgerVersion]"

definition cost_account_id :: "funds_env \<Rightarrow> allocation \<Rightarrow> string" where
  "cost_account_id E a = stable_id (fe_sha E)
     [''fund-system-account'', AccountExternalClearing, al_ID a, al_Asset a, LedgerVersion]"

definition capture_entries :: "funds_env \<Rightarrow> allocation \<Rightarrow> overview_capture \<Rightarrow> string \<Rightarrow> entry list" where
  "capture_entries E a claim totalAmount =
     (let entries0 = [\<lparr>en_Index = 1, en_AccountID = al_AccountID a, en_Direction = EntryDebit,
                        en_Amount = totalAmount, en_Asset = al_Asset a\<rparr>];
          entries1 = (if oc_OverviewAmount claim \<noteq> ''0'' then
             entries0 @ [\<lparr>en_Index = int (length entries0) + 1, en_AccountID = agent_account_id E a claim,
               en_Direction = EntryCredit, en_Amount = oc_OverviewAmount claim, en_Asset = al_Asset a\<rparr>] else entries0)
      in if oc_UsedCost claim \<noteq> ''0'' then
           entries1 @ [\<lparr>en_Index = int (length entries1) + 1, en_AccountID = cost_account_id E a,
             en_Direction = EntryCredit, en_Amount = oc_UsedCost claim, en_Asset = al_Asset a\<rparr>] else entries1)"

definition capture_accounts :: "funds_env \<Rightarrow> allocation \<Rightarrow> overview_capture \<Rightarrow> funds_repo \<Rightarrow> funds_repo" where
  "capture_accounts E a claim r =
     (let r1 = (if oc_OverviewAmount claim \<noteq> ''0'' then
            ensure_system_account (agent_account_id E a claim) AccountAgentReceivable (oc_AgentID claim)
              (al_Asset a) (al_UpdatedAt a) r else r)
      in if oc_UsedCost claim \<noteq> ''0'' then
           ensure_system_account (cost_account_id E a) AccountExternalClearing (al_ID a)
             (al_Asset a) (al_UpdatedAt a) r1 else r1)"

definition capture_journal_id :: "funds_env \<Rightarrow> allocation \<Rightarrow> string \<Rightarrow> string" where
  "capture_journal_id E a claimHash = stable_id (fe_sha E) [''fund-capture-journal'', al_ID a, claimHash, LedgerVersion]"

definition capture_journal ::
    "funds_env \<Rightarrow> allocation \<Rightarrow> overview_capture \<Rightarrow> string \<Rightarrow> string \<Rightarrow> gotime \<Rightarrow> journal" where
  "capture_journal E a claim claimHash totalAmount now =
     \<lparr>jr_ID = capture_journal_id E a claimHash, jr_IdempotencyKey = ''capture:'' @ al_ID a,
      jr_Type = ''overview_capture'', jr_RequestHash = claimHash, jr_TaskID = al_TaskID a,
      jr_AllocationID = al_ID a, jr_ReversalOf = [], jr_SourceRef = oc_LogicalExecutionID claim,
      jr_ReasonCode = ''overview_valid'', jr_Entries = capture_entries E a claim totalAmount, jr_CreatedAt = now\<rparr>"

definition captured_allocation ::
    "allocation \<Rightarrow> overview_capture \<Rightarrow> string \<Rightarrow> string \<Rightarrow> gotime \<Rightarrow> allocation" where
  "captured_allocation a claim claimHash journalID now =
     a\<lparr>al_Status := AllocationCaptured, al_CaptureClaimHash := claimHash,
       al_CapturedOverview := oc_OverviewAmount claim, al_CapturedCost := oc_UsedCost claim,
       al_CaptureJournalID := journalID, al_UpdatedAt := now\<rparr>"

definition capture_mismatch :: "allocation \<Rightarrow> overview_capture \<Rightarrow> bool" where
  "capture_mismatch a claim \<longleftrightarrow>
     al_TaskID a \<noteq> oc_TaskID claim \<or> al_TaskSpecHash a \<noteq> oc_TaskSpecHash claim \<or>
     al_MatchRevision a \<noteq> oc_MatchRevision claim \<or> al_AgentID a \<noteq> oc_AgentID claim \<or>
     al_QuoteHash a \<noteq> oc_QuoteHash claim \<or> al_OverviewPrice a \<noteq> oc_OverviewAmount claim"

definition store_allocation :: "string \<Rightarrow> allocation \<Rightarrow> funds_repo \<Rightarrow> funds_repo" where
  "store_allocation allocationID a r = r\<lparr>fm_allocations := gput allocationID a (fm_allocations r)\<rparr>"

definition capture_overview ::
    "funds_env \<Rightarrow> gotime \<Rightarrow> string \<Rightarrow> overview_capture \<Rightarrow> string \<Rightarrow> funds_repo
      \<Rightarrow> funds_repo \<times> (funds_error + allocation \<times> bool)" where
  "capture_overview E now allocationID claim claimHash r =
     (case gget (fm_allocations r) allocationID of
        None \<Rightarrow> (r, Inl FErrNotFound)
      | Some a \<Rightarrow>
          if al_Status a = AllocationCaptured then
            (if al_CaptureClaimHash a \<noteq> claimHash then (r, Inl FErrContentConflict) else (r, Inr (a, True)))
          else if al_Status a \<noteq> AllocationAuthorized then (r, Inl FErrInvalidState)
          else if capture_mismatch a claim then (r, Inl FErrContentConflict)
          else case compare_money (oc_UsedCost claim) (al_CostCap a) of
            None \<Rightarrow> (r, Inl FPanic)
          | Some sign \<Rightarrow>
              if sign > 0 then (r, Inl FErrContentConflict)
              else case add_money (oc_OverviewAmount claim) (oc_UsedCost claim) of
                None \<Rightarrow> (r, Inl FPanic)
              | Some totalAmount \<Rightarrow>
                  if totalAmount \<noteq> ''0'' then
                    let r' = capture_accounts E a claim r in
                    (case post_journal (capture_journal E a claim claimHash totalAmount now) r' of
                       Inl e \<Rightarrow> (r', Inl e)
                     | Inr r'' \<Rightarrow>
                         let a' = captured_allocation a claim claimHash (capture_journal_id E a claimHash) now
                         in (store_allocation allocationID a' r'', Inr (a', False)))
                  else
                    let a' = captured_allocation a claim claimHash [] now
                    in (store_allocation allocationID a' r, Inr (a', False)))"

definition release_overview ::
    "funds_env \<Rightarrow> gotime \<Rightarrow> string \<Rightarrow> string \<Rightarrow> string \<Rightarrow> funds_repo
      \<Rightarrow> funds_repo \<times> (funds_error + allocation \<times> bool)" where
  "release_overview E now allocationID reasonCode requestHash r =
     (case gget (fm_allocations r) allocationID of
        None \<Rightarrow> (r, Inl FErrNotFound)
      | Some a \<Rightarrow>
          if al_Status a = AllocationReleased then
            (if hash_json E (HRelease allocationID (al_ReleaseReasonCode a)) \<noteq> requestHash
             then (r, Inl FErrContentConflict) else (r, Inr (a, True)))
          else if al_Status a \<noteq> AllocationAuthorized then (r, Inl FErrInvalidState)
          else let a' = a\<lparr>al_Status := AllocationReleased, al_ReleaseReasonCode := reasonCode, al_UpdatedAt := now\<rparr>
               in (store_allocation allocationID a' r, Inr (a', False)))"

definition get_allocation :: "string \<Rightarrow> funds_repo \<Rightarrow> funds_error + allocation" where
  "get_allocation allocationID r = from_option FErrNotFound (gget (fm_allocations r) allocationID)"

end
