(* ===== verification/Funds_Service.thy ===== *)
theory Funds_Service
  imports Funds_Memory
begin

text \<open>
  The funds service (\<open>internal/funds/service.go\<close>) over the repository: one definition per exported
  method, with the validation of the request, the identifiers and journals it derives, and the
  repository call. The clock is read once per call and passed as \<open>now\<close>.
\<close>

definition svc_open_account ::
    "funds_env \<Rightarrow> gotime \<Rightarrow> open_account_request \<Rightarrow> funds_repo \<Rightarrow> funds_repo \<times> (funds_error + account \<times> bool)" where
  "svc_open_account E now request r =
     (if \<not> business_account_type (oar_Type request) \<or> blank (oar_TaskID request) \<or>
         blank (oar_ReferenceID request) \<or> \<not> valid_asset (oar_Asset request) \<or>
         blank (oar_PrincipalOwnerID request) \<or> blank (oar_ResidualRecipientID request) \<or>
         \<not> safe_code (oar_RefundPolicyVersion request)
      then (r, Inl FErrInvalidInput)
      else open_account
        \<lparr>acct_ID = stable_id (fe_sha E) [''fund-account'', oar_Type request, oar_ReferenceID request,
           oar_Asset request, LedgerVersion],
         acct_Type = oar_Type request, acct_TaskID = oar_TaskID request,
         acct_ReferenceID = oar_ReferenceID request, acct_Asset = oar_Asset request,
         acct_PrincipalOwnerID = oar_PrincipalOwnerID request,
         acct_ResidualRecipientID = oar_ResidualRecipientID request,
         acct_RefundPolicyVersion = oar_RefundPolicyVersion request,
         acct_State = AccountOpen, acct_Balance = ''0'', acct_CreatedAt = now, acct_UpdatedAt = now\<rparr> r)"

definition funding_journal :: "funds_env \<Rightarrow> gotime \<Rightarrow> account \<Rightarrow> funding_request \<Rightarrow> journal" where
  "funding_journal E now account request =
     \<lparr>jr_ID = stable_id (fe_sha E) [''fund-journal'', fr_IdempotencyKey request, LedgerVersion],
      jr_IdempotencyKey = fr_IdempotencyKey request, jr_Type = ''funding'',
      jr_RequestHash = hash_json E (HFunding request), jr_TaskID = acct_TaskID account,
      jr_AllocationID = [], jr_ReversalOf = [], jr_SourceRef = fr_ExternalRef request,
      jr_ReasonCode = ''escrow_funded'',
      jr_Entries =
        [\<lparr>en_Index = 1,
          en_AccountID = stable_id (fe_sha E) [''fund-system-account'', AccountFundingControl, acct_Asset account, LedgerVersion],
          en_Direction = EntryDebit, en_Amount = fr_Amount request, en_Asset = acct_Asset account\<rparr>,
         \<lparr>en_Index = 2, en_AccountID = acct_ID account, en_Direction = EntryCredit,
          en_Amount = fr_Amount request, en_Asset = acct_Asset account\<rparr>],
      jr_CreatedAt = now\<rparr>"

definition svc_record_funding ::
    "funds_env \<Rightarrow> gotime \<Rightarrow> funding_request \<Rightarrow> funds_repo \<Rightarrow> funds_repo \<times> (funds_error + journal \<times> bool)" where
  "svc_record_funding E now request r =
     (if blank (fr_IdempotencyKey request) \<or> blank (fr_AccountID request) \<or>
         \<not> positive_money (fr_Amount request) \<or> blank (fr_ExternalRef request)
      then (r, Inl FErrInvalidInput)
      else case get_account (fr_AccountID request) r of
        Inl e \<Rightarrow> (r, Inl e)
      | Inr account \<Rightarrow> post_funding (funding_journal E now account request) request r)"

definition new_allocation :: "funds_env \<Rightarrow> gotime \<Rightarrow> overview_authorization \<Rightarrow> string \<Rightarrow> allocation" where
  "new_allocation E now request reserve =
     \<lparr>al_ID = stable_id (fe_sha E) [''fund-allocation'', oa_IdempotencyKey request, LedgerVersion],
      al_IdempotencyKey = oa_IdempotencyKey request, al_RequestHash = hash_json E (HAuthorization request),
      al_AccountID = [], al_Asset = fe_asset E, al_TaskID = oa_TaskID request,
      al_TaskSpecHash = oa_TaskSpecHash request, al_SnapshotID = oa_SnapshotID request,
      al_MatchRevision = oa_MatchRevision request, al_AgentID = oa_AgentID request,
      al_PriceVersion = oa_PriceVersion request, al_QuoteHash = oa_QuoteHash request,
      al_OverviewPrice = oa_OverviewPrice request, al_CostCap = oa_ExternalCostCap request,
      al_ReserveAmount = reserve, al_Status = AllocationAuthorized, al_CaptureClaimHash = [],
      al_CapturedOverview = ''0'', al_CapturedCost = ''0'', al_CaptureJournalID = [],
      al_ReleaseReasonCode = [], al_Deadline = oa_Deadline request, al_CreatedAt = now, al_UpdatedAt = now\<rparr>"

definition svc_authorize_overview ::
    "funds_env \<Rightarrow> gotime \<Rightarrow> overview_authorization \<Rightarrow> funds_repo \<Rightarrow> funds_repo \<times> (funds_error + allocation \<times> bool)" where
  "svc_authorize_overview E now request r =
     (if blank (oa_IdempotencyKey request) \<or> blank (oa_TaskID request) \<or>
         \<not> valid_digest (oa_TaskSpecHash request) \<or> \<not> valid_digest (oa_SnapshotID request) \<or>
         oa_MatchRevision request < 1 \<or> blank (oa_AgentID request) \<or> oa_PriceVersion request < 1 \<or>
         \<not> valid_digest (oa_QuoteHash request) \<or> \<not> valid_money (oa_OverviewPrice request) \<or>
         \<not> valid_money (oa_ExternalCostCap request) \<or> \<not> (oa_Deadline request > now)
      then (r, Inl FErrInvalidInput)
      else case add_money (oa_OverviewPrice request) (oa_ExternalCostCap request) of
        None \<Rightarrow> (r, Inl FPanic)
      | Some reserve \<Rightarrow> authorize_overview (new_allocation E now request reserve) r)"

definition svc_capture_overview ::
    "funds_env \<Rightarrow> gotime \<Rightarrow> string \<Rightarrow> overview_capture \<Rightarrow> funds_repo \<Rightarrow> funds_repo \<times> (funds_error + allocation \<times> bool)" where
  "svc_capture_overview E now allocationID claim r =
     (if blank allocationID \<or> blank (oc_TaskID claim) \<or> \<not> valid_digest (oc_TaskSpecHash claim) \<or>
         oc_MatchRevision claim < 1 \<or> blank (oc_LogicalExecutionID claim) \<or> blank (oc_AgentID claim) \<or>
         \<not> valid_digest (oc_QuoteHash claim) \<or> \<not> valid_digest (oc_ContentHash claim) \<or>
         \<not> valid_money (oc_OverviewAmount claim) \<or> \<not> valid_money (oc_UsedCost claim)
      then (r, Inl FErrInvalidInput)
      else capture_overview E now allocationID claim (hash_json E (HCapture claim)) r)"

definition svc_release_overview ::
    "funds_env \<Rightarrow> gotime \<Rightarrow> string \<Rightarrow> string \<Rightarrow> funds_repo \<Rightarrow> funds_repo \<times> (funds_error + allocation \<times> bool)" where
  "svc_release_overview E now allocationID reasonCode r =
     (if blank allocationID \<or> \<not> safe_code reasonCode then (r, Inl FErrInvalidInput)
      else release_overview E now allocationID reasonCode (hash_json E (HRelease allocationID reasonCode)) r)"

text \<open>The loop of \<open>ReverseJournal\<close>: the same entries with the two sides exchanged, renumbered.\<close>

fun reversed_entries :: "int \<Rightarrow> entry list \<Rightarrow> entry list" where
  "reversed_entries index [] = []"
| "reversed_entries index (e # es) =
     \<lparr>en_Index = index + 1, en_AccountID = en_AccountID e,
      en_Direction = (if en_Direction e = EntryCredit then EntryDebit else EntryCredit),
      en_Amount = en_Amount e, en_Asset = en_Asset e\<rparr> # reversed_entries (index + 1) es"

definition reversal_journal :: "funds_env \<Rightarrow> gotime \<Rightarrow> journal \<Rightarrow> reverse_request \<Rightarrow> journal" where
  "reversal_journal E now original request =
     \<lparr>jr_ID = stable_id (fe_sha E) [''fund-journal'', rr_IdempotencyKey request, LedgerVersion],
      jr_IdempotencyKey = rr_IdempotencyKey request, jr_Type = ''reversal'',
      jr_RequestHash = hash_json E (HReverse request), jr_TaskID = jr_TaskID original,
      jr_AllocationID = [], jr_ReversalOf = jr_ID original, jr_SourceRef = jr_ID original,
      jr_ReasonCode = rr_ReasonCode request, jr_Entries = reversed_entries 0 (jr_Entries original),
      jr_CreatedAt = now\<rparr>"

definition svc_reverse_journal ::
    "funds_env \<Rightarrow> gotime \<Rightarrow> reverse_request \<Rightarrow> funds_repo \<Rightarrow> funds_repo \<times> (funds_error + journal \<times> bool)" where
  "svc_reverse_journal E now request r =
     (if blank (rr_IdempotencyKey request) \<or> blank (rr_JournalID request) \<or> \<not> safe_code (rr_ReasonCode request)
      then (r, Inl FErrInvalidInput)
      else case get_journal (rr_JournalID request) r of
        Inl e \<Rightarrow> (r, Inl e)
      | Inr original \<Rightarrow> reverse_journal (reversal_journal E now original request) r)"

definition svc_get_allocation :: "string \<Rightarrow> funds_repo \<Rightarrow> funds_error + allocation" where
  "svc_get_allocation allocationID r = get_allocation allocationID r"

section \<open>The service as one state machine\<close>

datatype funds_cmd =
    COpen open_account_request
  | CFund funding_request
  | CAuthorize overview_authorization
  | CCapture string overview_capture
  | CRelease string string
  | CReverse reverse_request

fun funds_exec :: "funds_env \<Rightarrow> gotime \<Rightarrow> funds_cmd \<Rightarrow> funds_repo \<Rightarrow> funds_repo \<times> funds_error option" where
  "funds_exec E now (COpen q) r =
     (case svc_open_account E now q r of (r', Inl e) \<Rightarrow> (r', Some e) | (r', Inr _) \<Rightarrow> (r', None))"
| "funds_exec E now (CFund q) r =
     (case svc_record_funding E now q r of (r', Inl e) \<Rightarrow> (r', Some e) | (r', Inr _) \<Rightarrow> (r', None))"
| "funds_exec E now (CAuthorize q) r =
     (case svc_authorize_overview E now q r of (r', Inl e) \<Rightarrow> (r', Some e) | (r', Inr _) \<Rightarrow> (r', None))"
| "funds_exec E now (CCapture i q) r =
     (case svc_capture_overview E now i q r of (r', Inl e) \<Rightarrow> (r', Some e) | (r', Inr _) \<Rightarrow> (r', None))"
| "funds_exec E now (CRelease i c) r =
     (case svc_release_overview E now i c r of (r', Inl e) \<Rightarrow> (r', Some e) | (r', Inr _) \<Rightarrow> (r', None))"
| "funds_exec E now (CReverse q) r =
     (case svc_reverse_journal E now q r of (r', Inl e) \<Rightarrow> (r', Some e) | (r', Inr _) \<Rightarrow> (r', None))"

fun funds_run :: "funds_env \<Rightarrow> (gotime \<times> funds_cmd) list \<Rightarrow> funds_repo \<Rightarrow> funds_repo" where
  "funds_run E [] r = r"
| "funds_run E ((now, c) # cs) r = funds_run E cs (fst (funds_exec E now c r))"

text \<open>
  The reachable repositories: any sequence of service calls, at any times, from the empty repository.
  \<open>allowed\<close> restricts the commands, for the properties that hold without reversals only.
\<close>

inductive funds_reachable :: "funds_env \<Rightarrow> (funds_cmd \<Rightarrow> bool) \<Rightarrow> funds_repo \<Rightarrow> bool" for E allowed where
  funds_start: "funds_reachable E allowed new_memory_repository"
| funds_step: "funds_reachable E allowed r \<Longrightarrow> allowed c \<Longrightarrow> funds_reachable E allowed (fst (funds_exec E now c r))"

lemma funds_reachable_run:
  "funds_reachable E allowed r \<Longrightarrow> list_all (\<lambda>(now, c). allowed c) cs \<Longrightarrow> funds_reachable E allowed (funds_run E cs r)"
proof (induction cs arbitrary: r)
  case (Cons nc cs)
  then show ?case by (cases nc) (auto intro: funds_step)
qed simp

end
