(* ===== verification/Funds_Ledger.thy ===== *)
theory Funds_Ledger
  imports Funds_Service
begin

text \<open>
  The double-entry ledger the funds repository keeps. The abstract ledger is a balance per account;
  posting a journal adds to every balance the net amount of the journal's entries for that account
  (\<open>post_spec\<close>), and \<open>post_journal\<close> refines it. From this follow conservation (the balances of an
  asset sum to zero), the absence of overdrafts of business accounts and of nil panics.
\<close>

section \<open>The abstract ledger\<close>

definition entry_delta :: "entry \<Rightarrow> int" where
  "entry_delta e = (if en_Direction e = EntryDebit then - money_int (en_Amount e) else money_int (en_Amount e))"

definition account_delta :: "string \<Rightarrow> entry list \<Rightarrow> int" where
  "account_delta k es = sum_list (map (\<lambda>e. if en_AccountID e = k then entry_delta e else 0) es)"

definition balances :: "funds_repo \<Rightarrow> string \<Rightarrow> int option" where
  "balances r k = map_option (\<lambda>a. money_int (acct_Balance a)) (gget (fm_accounts r) k)"

definition post_spec :: "entry list \<Rightarrow> (string \<Rightarrow> int option) \<Rightarrow> string \<Rightarrow> int option" where
  "post_spec es B k = map_option (\<lambda>b. b + account_delta k es) (B k)"

definition asset_total :: "string \<Rightarrow> (string, account) gomap \<Rightarrow> int" where
  "asset_total s accounts = gsum (\<lambda>a. if acct_Asset a = s then money_int (acct_Balance a) else 0) accounts"

lemma account_delta_simps [simp]:
  "account_delta k [] = 0"
  "account_delta k (e # es) = (if en_AccountID e = k then entry_delta e else 0) + account_delta k es"
  by (simp_all add: account_delta_def)

section \<open>Well-formed accounts\<close>

definition account_ok :: "string \<Rightarrow> account \<Rightarrow> bool" where
  "account_ok k a \<longleftrightarrow> acct_ID a = k \<and> is_amount (acct_Balance a) \<and>
     (business_account_type (acct_Type a) \<longrightarrow> 0 \<le> money_int (acct_Balance a))"

definition accounts_ok :: "(string, account) gomap \<Rightarrow> bool" where
  "accounts_ok m \<longleftrightarrow> gwf m \<and> (\<forall>k a. gget m k = Some a \<longrightarrow> account_ok k a)"

text \<open>What a posting may change of an account: its balance and its update time.\<close>

definition rebalanced :: "account \<Rightarrow> account \<Rightarrow> bool" where
  "rebalanced a a' \<longleftrightarrow> a' = a\<lparr>acct_Balance := acct_Balance a', acct_UpdatedAt := acct_UpdatedAt a'\<rparr>"

lemma rebalanced_refl [simp]: "rebalanced a a"
  by (simp add: rebalanced_def)

lemma rebalanced_update: "rebalanced a b \<Longrightarrow> rebalanced a (b\<lparr>acct_Balance := v, acct_UpdatedAt := t\<rparr>)"
  by (cases a; cases b) (simp add: rebalanced_def)

lemma rebalanced_trans: "rebalanced a b \<Longrightarrow> rebalanced b c \<Longrightarrow> rebalanced a c"
  by (cases a; cases b; cases c) (simp add: rebalanced_def)

lemma rebalanced_same:
  assumes "rebalanced a b"
  shows "acct_ID b = acct_ID a" "acct_Type b = acct_Type a" "acct_Asset b = acct_Asset a"
    "acct_State b = acct_State a" "acct_TaskID b = acct_TaskID a" "acct_ReferenceID b = acct_ReferenceID a"
  using assms by (cases a; cases b; simp add: rebalanced_def)+

section \<open>Validation of the entries\<close>

definition entry_ok :: "(string, account) gomap \<Rightarrow> entry \<Rightarrow> bool" where
  "entry_ok m e \<longleftrightarrow> positive_money (en_Amount e) \<and> en_Direction e \<in> {EntryDebit, EntryCredit} \<and>
     (\<exists>a. gget m (en_AccountID e) = Some a \<and> acct_Asset a = en_Asset e)"

lemma check_entries_ok:
  "check_entries m index es d c = Inr (d', c') \<Longrightarrow> is_amount d \<Longrightarrow> is_amount c \<Longrightarrow>
   list_all (entry_ok m) es \<and> is_amount d' \<and> is_amount c' \<and>
   money_int c' - money_int d' = money_int c - money_int d + sum_list (map entry_delta es)"
proof (induction es arbitrary: index d c)
  case (Cons e es)
  from Cons.prems(1) have e: "positive_money (en_Amount e)" "entry_ok m e"
    by (auto simp: entry_ok_def split: if_splits option.splits)
  then have amt: "is_amount (en_Amount e)" by (simp add: positive_money_amount)
  show ?case
  proof (cases "en_Direction e = EntryDebit")
    case True
    with Cons.prems amt have "check_entries m (index + 1) es (bigint_string (money_int d + money_int (en_Amount e))) c = Inr (d', c')"
      by (auto simp: add_money_amount split: if_splits option.splits)
    from Cons.IH [OF this] Cons.prems e True show ?thesis by (simp add: entry_delta_def)
  next
    case False
    with Cons.prems amt have "check_entries m (index + 1) es d (bigint_string (money_int c + money_int (en_Amount e))) = Inr (d', c')"
      by (auto simp: add_money_amount split: if_splits option.splits)
    from Cons.IH [OF this] Cons.prems e False show ?thesis by (simp add: entry_delta_def)
  qed
qed simp

lemma check_entries_error:
  "check_entries m index es d c = Inl err \<Longrightarrow> is_amount d \<Longrightarrow> is_amount c \<Longrightarrow>
   err = FErrInvalidInput \<or> err = FErrContentConflict"
proof (induction es arbitrary: index d c)
  case (Cons e es)
  from Cons.prems show ?case
    by (auto simp: add_money_amount positive_money_amount split: if_splits option.splits dest!: Cons.IH)
qed simp

section \<open>Application of the entries\<close>

lemma gget_put_all: "gwf upd \<Longrightarrow> gget (put_all upd m) k = (case gget upd k of Some a \<Rightarrow> Some a | None \<Rightarrow> gget m k)"
proof (induction upd arbitrary: m)
  case (Cons p upd)
  obtain k0 a0 where p: "p = (k0, a0)" by (cases p)
  with Cons.prems have "gwf upd" "gget upd k0 = None"
    by (auto simp: gwf_def gget_def map_of_eq_None_iff)
  moreover have "put_all (p # upd) m = put_all upd (gput k0 a0 m)" by (simp add: put_all_def p)
  moreover have "gget (p # upd) k = (if k = k0 then Some a0 else gget upd k)" by (simp add: p gget_def)
  ultimately show ?case using Cons.IH [of "gput k0 a0 m"] by (auto split: option.splits)
qed (simp add: put_all_def)

lemma gwf_put_all: "gwf m \<Longrightarrow> gwf (put_all upd m)"
  by (induction upd arbitrary: m) (auto simp: put_all_def)

lemma apply_entry_cases:
  assumes "accounts_ok (put_all upd m)" "gwf upd" "entry_ok m e"
  obtains a where "gget (put_all upd m) (en_AccountID e) = Some a" "acct_Asset a = en_Asset e \<or> gget upd (en_AccountID e) \<noteq> None"
    and "apply_entry m t e upd = (if business_account_type (acct_Type a) \<and> money_int (acct_Balance a) + entry_delta e < 0
           then Inl FErrInsufficient
           else Inr (gput (en_AccountID e)
             (a\<lparr>acct_Balance := bigint_string (money_int (acct_Balance a) + entry_delta e), acct_UpdatedAt := t\<rparr>) upd))"
proof -
  from assms obtain a0 where a0: "gget m (en_AccountID e) = Some a0" "acct_Asset a0 = en_Asset e"
    and amt: "is_amount (en_Amount e)"
    by (auto simp: entry_ok_def positive_money_amount)
  define a where "a = (case gget upd (en_AccountID e) of Some changed \<Rightarrow> changed | None \<Rightarrow> a0)"
  have g: "gget (put_all upd m) (en_AccountID e) = Some a"
    using a0 assms(2) by (simp add: gget_put_all a_def split: option.splits)
  have acc: "(case gget upd (en_AccountID e) of None \<Rightarrow> a0 | Some changed \<Rightarrow> changed) = a"
    by (simp add: a_def)
  from g assms(1) have ok: "acct_ID a = en_AccountID e" "is_amount (acct_Balance a)"
    by (auto simp: accounts_ok_def account_ok_def)
  have "apply_entry m t e upd = (if business_account_type (acct_Type a) \<and> money_int (acct_Balance a) + entry_delta e < 0
           then Inl FErrInsufficient
           else Inr (gput (en_AccountID e)
             (a\<lparr>acct_Balance := bigint_string (money_int (acct_Balance a) + entry_delta e), acct_UpdatedAt := t\<rparr>) upd))"
    unfolding apply_entry_def Let_def a0(1) option.case acc
    using ok amt by (simp add: entry_delta_def subtract_money_amount add_money_amount compare_money_amount)
  with g that show thesis using a0 by (auto simp: a_def split: option.splits)
qed

lemma apply_entries_ok:
  assumes "apply_entries m t es upd = Inr upd'" "accounts_ok (put_all upd m)" "gwf m" "gwf upd"
    "list_all (entry_ok m) es"
  shows "gwf upd' \<and> accounts_ok (put_all upd' m) \<and>
    (\<forall>k. (case gget (put_all upd m) k of
        None \<Rightarrow> gget (put_all upd' m) k = None
      | Some a \<Rightarrow> \<exists>a'. gget (put_all upd' m) k = Some a' \<and> rebalanced a a' \<and>
          money_int (acct_Balance a') = money_int (acct_Balance a) + account_delta k es))"
  using assms
proof (induction es arbitrary: upd)
  case Nil
  then show ?case by (auto split: option.splits)
next
  case (Cons e es)
  from Cons.prems obtain a where a: "gget (put_all upd m) (en_AccountID e) = Some a"
    and step: "apply_entry m t e upd = (if business_account_type (acct_Type a) \<and> money_int (acct_Balance a) + entry_delta e < 0
           then Inl FErrInsufficient
           else Inr (gput (en_AccountID e)
             (a\<lparr>acct_Balance := bigint_string (money_int (acct_Balance a) + entry_delta e), acct_UpdatedAt := t\<rparr>) upd))"
    by (auto elim: apply_entry_cases)
  define b where "b = a\<lparr>acct_Balance := bigint_string (money_int (acct_Balance a) + entry_delta e), acct_UpdatedAt := t\<rparr>"
  define upd1 where "upd1 = gput (en_AccountID e) b upd"
  from Cons.prems(1) step have solvent: "\<not> (business_account_type (acct_Type a) \<and> money_int (acct_Balance a) + entry_delta e < 0)"
    and rest: "apply_entries m t es upd1 = Inr upd'"
    by (auto simp: upd1_def b_def split: if_splits)
  have wf1: "gwf upd1" using Cons.prems(4) by (simp add: upd1_def)
  have look: "gget (put_all upd1 m) k = (if k = en_AccountID e then Some b else gget (put_all upd m) k)" for k
    using Cons.prems(4) wf1 by (simp add: gget_put_all upd1_def)
  have "account_ok (en_AccountID e) a" using Cons.prems(2) a by (simp add: accounts_ok_def)
  then have "account_ok (en_AccountID e) b" using solvent by (auto simp: account_ok_def b_def)
  then have ok1: "accounts_ok (put_all upd1 m)"
    using Cons.prems(2) look gwf_put_all [OF Cons.prems(3)] by (auto simp: accounts_ok_def)
  have ab: "rebalanced a b" by (simp add: b_def rebalanced_update)
  from Cons.IH [OF rest ok1 Cons.prems(3) wf1] Cons.prems(5)
  have IH: "gwf upd'" "accounts_ok (put_all upd' m)"
    "\<And>k. case gget (put_all upd1 m) k of
        None \<Rightarrow> gget (put_all upd' m) k = None
      | Some a \<Rightarrow> \<exists>a'. gget (put_all upd' m) k = Some a' \<and> rebalanced a a' \<and>
          money_int (acct_Balance a') = money_int (acct_Balance a) + account_delta k es"
    by auto
  have "case gget (put_all upd m) k of
        None \<Rightarrow> gget (put_all upd' m) k = None
      | Some a \<Rightarrow> \<exists>a'. gget (put_all upd' m) k = Some a' \<and> rebalanced a a' \<and>
          money_int (acct_Balance a') = money_int (acct_Balance a) + account_delta k (e # es)" for k
    using IH(3) [of k] ab rebalanced_trans [OF ab] a
    by (cases "k = en_AccountID e") (auto simp: look b_def split: option.splits)
  with IH(1,2) show ?case by blast
qed

lemma apply_entries_error:
  assumes "apply_entries m t es upd = Inl err" "accounts_ok (put_all upd m)" "gwf m" "gwf upd"
    "list_all (entry_ok m) es"
  shows "err = FErrInsufficient"
  using assms
proof (induction es arbitrary: upd)
  case (Cons e es)
  show ?case
  proof (cases "apply_entry m t e upd")
    case (Inl x)
    have "x = FErrInsufficient"
      by (rule apply_entry_cases [OF Cons.prems(2,4), of e t]) (use Cons.prems(5) Inl in \<open>auto split: if_splits\<close>)
    with Inl Cons.prems(1) show ?thesis by simp
  next
    case (Inr upd1)
    with Cons.prems(5) have "apply_entries m t [e] upd = Inr upd1" "list_all (entry_ok m) [e]" by simp_all
    from apply_entries_ok [OF this(1) Cons.prems(2-4) this(2)] Cons.IH Cons.prems Inr show ?thesis by auto
  qed
qed simp

section \<open>Posting a journal\<close>

text \<open>Every journal the service posts moves one asset only.\<close>

definition single_asset :: "journal \<Rightarrow> bool" where
  "single_asset j \<longleftrightarrow> (\<exists>s. list_all (\<lambda>e. en_Asset e = s) (jr_Entries j))"

lemma post_journal_effect:
  assumes "post_journal j r = Inr r'" "accounts_ok (fm_accounts r)"
  shows "accounts_ok (fm_accounts r')"
    and "list_all (entry_ok (fm_accounts r)) (jr_Entries j)"
    and "sum_list (map entry_delta (jr_Entries j)) = 0"
    and "case gget (fm_accounts r) k of
           None \<Rightarrow> gget (fm_accounts r') k = None
         | Some a \<Rightarrow> \<exists>a'. gget (fm_accounts r') k = Some a' \<and> rebalanced a a' \<and>
             money_int (acct_Balance a') = money_int (acct_Balance a) + account_delta k (jr_Entries j)"
    and "fm_allocations r' = fm_allocations r" "fm_reversals r' = fm_reversals r"
    and "fm_journals r' = gput (jr_ID j) j (fm_journals r)"
    and "fm_journalKeys r' = gput (jr_IdempotencyKey j) (jr_ID j) (fm_journalKeys r)"
proof -
  from assms(1) obtain d upd where c: "check_entries (fm_accounts r) 0 (jr_Entries j) ''0'' ''0'' = Inr (d, d)"
    and a: "apply_entries (fm_accounts r) (jr_CreatedAt j) (jr_Entries j) [] = Inr upd"
    and r': "r' = r\<lparr>fm_accounts := put_all upd (fm_accounts r),
               fm_journals := gput (jr_ID j) j (fm_journals r),
               fm_journalKeys := gput (jr_IdempotencyKey j) (jr_ID j) (fm_journalKeys r)\<rparr>"
    by (auto simp: post_journal_def rbind_Inr_iff split: if_splits)
  from check_entries_ok [OF c] show es: "list_all (entry_ok (fm_accounts r)) (jr_Entries j)"
    and "sum_list (map entry_delta (jr_Entries j)) = 0" by simp_all
  have "put_all [] (fm_accounts r) = fm_accounts r" by (simp add: put_all_def)
  then have *: "accounts_ok (put_all upd (fm_accounts r))"
    "\<forall>k. (case gget (fm_accounts r) k of
        None \<Rightarrow> gget (put_all upd (fm_accounts r)) k = None
      | Some a \<Rightarrow> \<exists>a'. gget (put_all upd (fm_accounts r)) k = Some a' \<and> rebalanced a a' \<and>
          money_int (acct_Balance a') = money_int (acct_Balance a) + account_delta k (jr_Entries j))"
    using apply_entries_ok [OF a] assms(2) es by (simp_all add: accounts_ok_def)
  have acc: "fm_accounts r' = put_all upd (fm_accounts r)" by (simp add: r')
  from *(1) show "accounts_ok (fm_accounts r')" by (simp add: r')
  from *(2) [THEN spec, of k] show "case gget (fm_accounts r) k of
           None \<Rightarrow> gget (fm_accounts r') k = None
         | Some a \<Rightarrow> \<exists>a'. gget (fm_accounts r') k = Some a' \<and> rebalanced a a' \<and>
             money_int (acct_Balance a') = money_int (acct_Balance a) + account_delta k (jr_Entries j)"
    unfolding acc .
qed (use assms(1) in \<open>auto simp: post_journal_def rbind_Inr_iff split: if_splits\<close>)

lemma post_journal_dom: 
  assumes "post_journal j r = Inr r'" "accounts_ok (fm_accounts r)"
  shows "dom (gget (fm_accounts r')) = dom (gget (fm_accounts r))"
  using post_journal_effect(4) [OF assms] by (fastforce split: option.splits)

lemma post_journal_error:
  assumes "post_journal j r = Inl err" "accounts_ok (fm_accounts r)"
  shows "err \<in> {FErrInvalidInput, FErrContentConflict, FErrInsufficient}"
proof -
  have p: "put_all [] (fm_accounts r) = fm_accounts r" by (simp add: put_all_def)
  show ?thesis
    using assms check_entries_error [of "fm_accounts r" 0 "jr_Entries j" "''0''" "''0''" err]
    by (auto simp: post_journal_def rbind_Inl_iff p accounts_ok_def split: if_splits
        dest!: check_entries_ok apply_entries_error [where upd = "[]"])
qed

section \<open>Conservation\<close>

lemma sum_account_delta:
  assumes "finite D" "\<forall>e \<in> set es. en_AccountID e \<in> D \<and> asset (en_AccountID e) = en_Asset e"
  shows "(\<Sum>k \<in> D. if asset k = s then account_delta k es else 0) =
    sum_list (map (\<lambda>e. if en_Asset e = s then entry_delta e else 0) es)"
  using assms(2)
proof (induction es)
  case (Cons e es)
  have "(\<Sum>k \<in> D. if asset k = s then account_delta k (e # es) else 0) =
      (\<Sum>k \<in> D. (if k = en_AccountID e then (if en_Asset e = s then entry_delta e else 0) else 0)
        + (if asset k = s then account_delta k es else 0))"
    using Cons.prems by (intro sum.cong refl) auto
  then show ?case using Cons assms(1) by (simp add: sum.distrib)
qed (auto intro: sum.neutral)

lemma post_journal_total:
  assumes "post_journal j r = Inr r'" "accounts_ok (fm_accounts r)" "single_asset j"
  shows "asset_total s (fm_accounts r') = asset_total s (fm_accounts r)"
proof -
  let ?A = "fm_accounts r" and ?A' = "fm_accounts r'" and ?es = "jr_Entries j"
  let ?asset = "\<lambda>k. acct_Asset (the (gget ?A k))"
  note eff = post_journal_effect [OF assms(1,2)]
  have wf: "gwf ?A" "gwf ?A'" using assms(2) eff(1) by (simp_all add: accounts_ok_def)
  have each: "(if acct_Asset (the (gget ?A' k)) = s then money_int (acct_Balance (the (gget ?A' k))) else 0) =
      (if ?asset k = s then money_int (acct_Balance (the (gget ?A k))) else 0) +
      (if ?asset k = s then account_delta k ?es else 0)" if "k \<in> dom (gget ?A)" for k
    using eff(4) [of k] that by (auto dest!: rebalanced_same(3))
  have "asset_total s ?A' = asset_total s ?A + (\<Sum>k \<in> dom (gget ?A). if ?asset k = s then account_delta k ?es else 0)"
    unfolding asset_total_def gsum_sum [OF wf(1)] gsum_sum [OF wf(2)] post_journal_dom [OF assms(1,2)]
    using each by (simp add: sum.distrib [symmetric] cong: sum.cong)
  also have "(\<Sum>k \<in> dom (gget ?A). if ?asset k = s then account_delta k ?es else 0) =
      sum_list (map (\<lambda>e. if en_Asset e = s then entry_delta e else 0) ?es)"
    using eff(2) by (intro sum_account_delta) (auto simp: list_all_iff entry_ok_def)
  also have "\<dots> = 0"
  proof -
    obtain t where t: "\<forall>e \<in> set ?es. en_Asset e = t" using assms(3) by (auto simp: single_asset_def list_all_iff)
    then have "map (\<lambda>e. if en_Asset e = s then entry_delta e else 0) ?es = (if t = s then map entry_delta ?es else map (\<lambda>_. 0) ?es)"
      by (auto intro: map_cong)
    then show ?thesis using eff(3) by (simp only: sum_list_0 split: if_split) simp
  qed
  finally show ?thesis by simp
qed

end
