(* ===== verification/Funds_Invariant.thy ===== *)
theory Funds_Invariant
  imports Funds_Ledger
begin

text \<open>
  The invariant of the funds repository, preserved by every service call, and the steps a call may
  take on the accounts and allocations. The properties of the ledger and of the allocations are read
  off it.
\<close>

section \<open>The invariant\<close>

definition allocation_ok :: "(string, account) gomap \<Rightarrow> string \<Rightarrow> allocation \<Rightarrow> bool" where
  "allocation_ok accounts k al \<longleftrightarrow>
     al_ID al = k \<and> al_Status al \<in> {AllocationAuthorized, AllocationCaptured, AllocationReleased} \<and>
     valid_money (al_OverviewPrice al) \<and> valid_money (al_CostCap al) \<and>
     al_ReserveAmount al = bigint_string (money_int (al_OverviewPrice al) + money_int (al_CostCap al)) \<and>
     (\<exists>a. gget accounts (al_AccountID al) = Some a \<and> acct_Type a = AccountDiscoveryPool \<and> acct_Asset a = al_Asset al) \<and>
     valid_money (al_CapturedOverview al) \<and> valid_money (al_CapturedCost al) \<and>
     money_int (al_CapturedCost al) \<le> money_int (al_CostCap al) \<and>
     al_CapturedOverview al = (if al_Status al = AllocationCaptured then al_OverviewPrice al else ''0'')"

definition funds_inv :: "funds_repo \<Rightarrow> bool" where
  "funds_inv r \<longleftrightarrow> accounts_ok (fm_accounts r) \<and> gwf (fm_allocations r) \<and>
     (\<forall>k al. gget (fm_allocations r) k = Some al \<longrightarrow> allocation_ok (fm_accounts r) k al) \<and>
     (\<forall>k j. gget (fm_journals r) k = Some j \<longrightarrow> single_asset j) \<and>
     (\<forall>s. asset_total s (fm_accounts r) = 0)"

lemma funds_inv_start: "funds_inv new_memory_repository"
  by (simp add: funds_inv_def new_memory_repository_def accounts_ok_def asset_total_def)

text \<open>Accounts only gain members and change balances.\<close>

definition accounts_ext :: "(string, account) gomap \<Rightarrow> (string, account) gomap \<Rightarrow> bool" where
  "accounts_ext m m' \<longleftrightarrow> (\<forall>k a. gget m k = Some a \<longrightarrow> (\<exists>a'. gget m' k = Some a' \<and> rebalanced a a'))"

lemma accounts_ext_refl [simp]: "accounts_ext m m"
  by (simp add: accounts_ext_def)

lemma accounts_ext_trans: "accounts_ext m m' \<Longrightarrow> accounts_ext m' m'' \<Longrightarrow> accounts_ext m m''"
  unfolding accounts_ext_def by (meson rebalanced_trans)

lemma accounts_ext_new: "gget m k = None \<Longrightarrow> accounts_ext m (gput k a m)"
  by (auto simp: accounts_ext_def)

lemma allocation_ok_ext: "allocation_ok m k al \<Longrightarrow> accounts_ext m m' \<Longrightarrow> allocation_ok m' k al"
proof -
  assume al: "allocation_ok m k al" and "accounts_ext m m'"
  then obtain a a' where "gget m (al_AccountID al) = Some a" "acct_Type a = AccountDiscoveryPool" "acct_Asset a = al_Asset al"
    "gget m' (al_AccountID al) = Some a'" "rebalanced a a'"
    unfolding allocation_ok_def accounts_ext_def by blast
  with al show ?thesis by (simp add: allocation_ok_def rebalanced_same(2,3))
qed

lemma post_journal_ext:
  assumes "post_journal j r = Inr r'" "accounts_ok (fm_accounts r)"
  shows "accounts_ext (fm_accounts r) (fm_accounts r')"
  using post_journal_effect(4) [OF assms] unfolding accounts_ext_def by (fastforce split: option.splits)

section \<open>Building blocks\<close>

text \<open>A new account with a zero balance.\<close>

lemma new_account_inv:
  assumes "funds_inv r" "gget (fm_accounts r) k = None" "acct_ID a = k" "acct_Balance a = ''0''"
  shows "funds_inv (r\<lparr>fm_accounts := gput k a (fm_accounts r)\<rparr>)"
proof -
  have "accounts_ok (gput k a (fm_accounts r))"
    using assms by (auto simp: funds_inv_def accounts_ok_def account_ok_def)
  moreover have "asset_total s (gput k a (fm_accounts r)) = 0" for s
    using assms by (simp add: funds_inv_def asset_total_def gsum_gput)
  ultimately show ?thesis
    using assms allocation_ok_ext [OF _ accounts_ext_new [OF assms(2)]] by (simp add: funds_inv_def)
qed

lemma ensure_system_account_inv: "funds_inv r \<Longrightarrow> funds_inv (ensure_system_account i t ref asset now r)"
  by (auto simp: ensure_system_account_def zero_account_def split: option.splits intro!: new_account_inv)

lemma ensure_system_account_frame [simp]:
  "fm_allocations (ensure_system_account i t ref asset now r) = fm_allocations r"
  "fm_journals (ensure_system_account i t ref asset now r) = fm_journals r"
  "fm_journalKeys (ensure_system_account i t ref asset now r) = fm_journalKeys r"
  "fm_reversals (ensure_system_account i t ref asset now r) = fm_reversals r"
  by (simp_all add: ensure_system_account_def split: option.split)

lemma ensure_system_account_ext: "accounts_ext (fm_accounts r) (fm_accounts (ensure_system_account i t ref asset now r))"
  by (auto simp: ensure_system_account_def split: option.splits intro: accounts_ext_new)

lemma capture_accounts_inv: "funds_inv r \<Longrightarrow> funds_inv (capture_accounts E a claim r)"
  by (simp add: capture_accounts_def Let_def ensure_system_account_inv)

lemma capture_accounts_frame [simp]:
  "fm_allocations (capture_accounts E a claim r) = fm_allocations r"
  "fm_journals (capture_accounts E a claim r) = fm_journals r"
  "fm_journalKeys (capture_accounts E a claim r) = fm_journalKeys r"
  "fm_reversals (capture_accounts E a claim r) = fm_reversals r"
  by (simp_all add: capture_accounts_def Let_def)

lemma capture_accounts_ext: "accounts_ext (fm_accounts r) (fm_accounts (capture_accounts E a claim r))"
  by (auto simp: capture_accounts_def Let_def intro: ensure_system_account_ext accounts_ext_trans)

text \<open>A posted journal of one asset.\<close>

lemma post_journal_inv:
  assumes "post_journal j r = Inr r'" "funds_inv r" "single_asset j"
  shows "funds_inv r'"
proof -
  have ok: "accounts_ok (fm_accounts r)" using assms(2) by (simp add: funds_inv_def)
  note eff = post_journal_effect [OF assms(1) ok]
  have "asset_total s (fm_accounts r') = 0" for s
    using post_journal_total [OF assms(1) ok assms(3)] assms(2) by (simp add: funds_inv_def)
  with assms(2,3) eff(1,5,7) allocation_ok_ext [OF _ post_journal_ext [OF assms(1) ok]]
  show ?thesis by (simp add: funds_inv_def)
qed

lemma store_allocation_inv:
  "funds_inv r \<Longrightarrow> allocation_ok (fm_accounts r) k a \<Longrightarrow> funds_inv (store_allocation k a r)"
  by (simp add: funds_inv_def store_allocation_def)

lemma single_asset_capture: "single_asset (capture_journal E a claim h t now)"
  by (auto simp: single_asset_def capture_journal_def capture_entries_def Let_def)

lemma reversed_entries_asset:
  "list_all (\<lambda>e. en_Asset e = s) es \<Longrightarrow> list_all (\<lambda>e. en_Asset e = s) (reversed_entries n es)"
  by (induction n es rule: reversed_entries.induct) auto

lemma single_asset_reversal: "single_asset j \<Longrightarrow> single_asset (reversal_journal E now j q)"
  by (auto simp: single_asset_def reversal_journal_def intro: reversed_entries_asset)

section \<open>Every call keeps the invariant and never panics\<close>

definition safe_call :: "funds_repo \<times> (funds_error + 'a) \<Rightarrow> bool" where
  "safe_call out \<longleftrightarrow> funds_inv (fst out) \<and> snd out \<noteq> Inl FPanic"

lemma safe_callI [intro]: "funds_inv r \<Longrightarrow> res \<noteq> Inl FPanic \<Longrightarrow> safe_call (r, res)"
  by (simp add: safe_call_def)

lemma post_journal_no_panic: "funds_inv r \<Longrightarrow> post_journal j r \<noteq> Inl FPanic"
  using post_journal_error [of j r FPanic] by (auto simp: funds_inv_def)

lemma svc_open_account_safe: "funds_inv r \<Longrightarrow> safe_call (svc_open_account E now q r)"
  by (auto simp: svc_open_account_def open_account_def split: option.splits intro!: safe_callI new_account_inv)

lemma post_funding_eq:
  assumes "jr_Entries j = [e0, e1]"
  shows "post_funding j q r = (case journal_replay j r of
      Inl e \<Rightarrow> (r, Inl e)
    | Inr (Some existing) \<Rightarrow> (r, Inr (existing, True))
    | Inr None \<Rightarrow> (case gget (fm_accounts r) (fr_AccountID q) of
        None \<Rightarrow> (r, Inl FErrNotFound)
      | Some a \<Rightarrow>
          if acct_State a \<noteq> AccountOpen \<or> \<not> business_account_type (acct_Type a) \<or> acct_Asset a \<noteq> en_Asset e1
          then (r, Inl FErrInvalidState)
          else (let r' = ensure_system_account (en_AccountID e0) AccountFundingControl
                  (en_Asset e1) (en_Asset e1) (jr_CreatedAt j) r
                in case post_journal j r' of Inl e \<Rightarrow> (r', Inl e) | Inr r'' \<Rightarrow> (r'', Inr (j, False)))))"
proof (cases "journal_replay j r")
  case (Inr x)
  then show ?thesis
    using assms
    by (cases x; cases "gget (fm_accounts r) (fr_AccountID q)"; cases "gget (fm_accounts r) (en_AccountID e0)")
      (auto simp: post_funding_def Let_def ensure_system_account_def zero_account_def
        cong: option.case_cong sum.case_cong)
qed (simp add: post_funding_def)

lemma post_or_fail_safe:
  assumes "funds_inv r" "single_asset j" "\<And>r'. funds_inv r' \<Longrightarrow> safe_call (k r')"
  shows "safe_call (case post_journal j r of Inl e \<Rightarrow> (r, Inl e) | Inr r' \<Rightarrow> k r')"
  using assms post_journal_no_panic [OF assms(1), of j] post_journal_inv [OF _ assms(1,2)]
  by (auto split: sum.split)

lemma journal_replay_no_panic: "journal_replay j r \<noteq> Inl FPanic"
  by (simp add: journal_replay_def Let_def split: option.split)

lemma post_funding_safe:
  assumes "funds_inv r" "jr_Entries j = [e0, e1]" "en_Asset e0 = en_Asset e1"
  shows "safe_call (post_funding j q r)"
proof -
  have "single_asset j" using assms(2,3) by (simp add: single_asset_def)
  note post = post_or_fail_safe [OF ensure_system_account_inv [OF assms(1)] this]
  show ?thesis
    unfolding post_funding_eq [OF assms(2)]
    by (cases "journal_replay j r"; cases "gget (fm_accounts r) (fr_AccountID q)")
      (use assms(1) journal_replay_no_panic [of j r] in
        \<open>auto simp: Let_def split: option.split intro!: post\<close>)
qed

lemma svc_record_funding_safe: "funds_inv r \<Longrightarrow> safe_call (svc_record_funding E now q r)"
  by (auto simp: svc_record_funding_def get_account_def from_option_def funding_journal_def
      split: option.split intro!: post_funding_safe)

text \<open>The reserves a pool must cover.\<close>

definition reserve_of :: "string \<Rightarrow> allocation \<Rightarrow> int" where
  "reserve_of k al = (if al_AccountID al = k \<and> al_Status al = AllocationAuthorized
     then money_int (al_ReserveAmount al) else 0)"

definition reserved :: "string \<Rightarrow> funds_repo \<Rightarrow> int" where
  "reserved k r = gsum (reserve_of k) (fm_allocations r)"

lemma available_funds_value:
  assumes "list_all (\<lambda>al. is_amount (al_ReserveAmount al)) als" "is_amount v"
  shows "available_funds k als v = Inr (bigint_string (money_int v - sum_list (map (reserve_of k) als)))"
  using assms
  by (induction als arbitrary: v) (auto simp: reserve_of_def subtract_money_amount is_amountD algebra_simps)

lemma allocations_reserve_amount:
  "funds_inv r \<Longrightarrow> list_all (\<lambda>al. is_amount (al_ReserveAmount al)) (gvals (fm_allocations r))"
  by (auto simp: funds_inv_def list_all_iff gvals_mem allocation_ok_def)

lemma available_funds_reserved:
  assumes "funds_inv r" "is_amount v"
  shows "available_funds k (gvals (fm_allocations r)) v = Inr (bigint_string (money_int v - reserved k r))"
  using available_funds_value [OF allocations_reserve_amount [OF assms(1)] assms(2), of k]
  by (simp add: reserved_def gsum_def)

lemma find_pool_found:
  "find_pool draft as found = Inr (Some a) \<Longrightarrow>
   found = Some a \<or> (a \<in> set as \<and> acct_Type a = AccountDiscoveryPool \<and>
     acct_TaskID a = al_TaskID draft \<and> acct_Asset a = al_Asset draft)"
  by (induction as arbitrary: found) (auto split: if_splits)

lemma find_pool_source:
  assumes "find_pool draft (gvals (fm_accounts r)) None = Inr (Some a)" "funds_inv r"
  shows "gget (fm_accounts r) (acct_ID a) = Some a" "acct_Type a = AccountDiscoveryPool"
    "acct_TaskID a = al_TaskID draft" "acct_Asset a = al_Asset draft" "is_amount (acct_Balance a)"
  using find_pool_found [OF assms(1)] assms(2)
  by (auto simp: funds_inv_def accounts_ok_def account_ok_def gvals_mem)

lemma find_pool_error: "find_pool draft as found = Inl err \<Longrightarrow> err = FErrContentConflict"
  by (induction as arbitrary: found) (auto split: if_splits)

text \<open>\<open>AuthorizeOverview\<close> on a new allocation: what it answers, in terms of the reserves.\<close>

lemma authorize_overview_new:
  assumes "funds_inv r" "gget (fm_allocations r) (al_ID draft) = None" "is_amount (al_ReserveAmount draft)"
    and "authorize_overview draft r = (r', Inr (al, replay))"
  obtains a where "gget (fm_accounts r) (acct_ID a) = Some a" "acct_Type a = AccountDiscoveryPool"
    "acct_TaskID a = al_TaskID draft" "acct_Asset a = al_Asset draft" "acct_State a = AccountOpen"
    "al = draft\<lparr>al_AccountID := acct_ID a\<rparr>" "r' = store_allocation (al_ID draft) al r" "\<not> replay"
    "money_int (al_ReserveAmount draft) + reserved (acct_ID a) r \<le> money_int (acct_Balance a)"
    "\<forall>x \<in> set (gvals (fm_allocations r)). al_IdempotencyKey x \<noteq> al_IdempotencyKey draft"
proof -
  from assms(2,4) obtain a where p: "find_pool draft (gvals (fm_accounts r)) None = Inr (Some a)"
    by (auto simp: authorize_overview_def split: option.splits sum.splits if_splits)
  note a = find_pool_source [OF p assms(1)]
  show thesis
    using assms(2-4) p a
    by (intro that [of a])
      (auto simp: authorize_overview_def available_funds_reserved [OF assms(1)] compare_money_amount Let_def
        store_allocation_def list_ex_iff split: if_splits)
qed

lemma authorize_overview_error:
  assumes "funds_inv r" "is_amount (al_ReserveAmount draft)" "authorize_overview draft r = (r', Inl err)"
  shows "r' = r \<and> err \<noteq> FPanic"
  using assms(2,3) find_pool_source [OF _ assms(1), of draft] find_pool_error [of draft]
  by (fastforce simp: authorize_overview_def available_funds_reserved [OF assms(1)] compare_money_amount Let_def
      split: if_splits option.splits sum.splits)

lemma authorize_overview_replay:
  assumes "gget (fm_allocations r) (al_ID draft) = Some existing"
  shows "authorize_overview draft r =
    (r, if same_allocation_identity existing draft \<or> compatible_authorization_replay existing draft
        then Inr (existing, True) else Inl FErrContentConflict)"
  using assms by (simp add: authorize_overview_def)

lemma svc_authorize_overview_safe:
  assumes "funds_inv r"
  shows "safe_call (svc_authorize_overview E now q r)"
proof (cases "valid_money (oa_OverviewPrice q) \<and> valid_money (oa_ExternalCostCap q)")
  case True
  then have amt: "is_amount (oa_OverviewPrice q)" "is_amount (oa_ExternalCostCap q)" by (auto intro: valid_money_is_amount)
  let ?d = "new_allocation E now q (bigint_string (money_int (oa_OverviewPrice q) + money_int (oa_ExternalCostCap q)))"
  have d: "al_ReserveAmount ?d = bigint_string (money_int (oa_OverviewPrice q) + money_int (oa_ExternalCostCap q))"
    "al_ID (?d\<lparr>al_AccountID := x\<rparr>) = al_ID ?d" for x by (simp_all add: new_allocation_def)
  have "safe_call (authorize_overview ?d r)"
  proof (cases "gget (fm_allocations r) (al_ID ?d)")
    case (Some existing)
    then show ?thesis by (auto simp: authorize_overview_replay assms)
  next
    case None
    show ?thesis
    proof (cases "snd (authorize_overview ?d r)")
      case (Inl err)
      then obtain r' where *: "authorize_overview ?d r = (r', Inl err)" by (metis prod.collapse)
      with authorize_overview_error [OF assms _ this] d show ?thesis by (auto simp: assms)
    next
      case (Inr p)
      then obtain r' al rp where *: "authorize_overview ?d r = (r', Inr (al, rp))" by (metis prod.collapse)
      obtain a where a: "gget (fm_accounts r) (acct_ID a) = Some a" "acct_Type a = AccountDiscoveryPool"
        "acct_Asset a = al_Asset ?d" "al = ?d\<lparr>al_AccountID := acct_ID a\<rparr>" "r' = store_allocation (al_ID ?d) al r"
        by (rule authorize_overview_new [OF assms None _ *]) (auto simp: d)
      have "allocation_ok (fm_accounts r) (al_ID ?d) al"
        using a True amt by (auto simp: allocation_ok_def new_allocation_def valid_money_amount)
      from store_allocation_inv [OF assms this] show ?thesis by (auto simp: * a(5))
    qed
  qed
  then show ?thesis using amt assms by (auto simp: svc_authorize_overview_def add_money_amount)
next
  case False
  then show ?thesis using assms by (auto simp: svc_authorize_overview_def)
qed

text \<open>\<open>CaptureOverview\<close>: a replay, or the capture of an authorized allocation within its cost cap.\<close>

definition capture_claim_ok :: "overview_capture \<Rightarrow> bool" where
  "capture_claim_ok claim \<longleftrightarrow> valid_money (oc_OverviewAmount claim) \<and> valid_money (oc_UsedCost claim)"

definition capture_total :: "overview_capture \<Rightarrow> string" where
  "capture_total claim = bigint_string (money_int (oc_OverviewAmount claim) + money_int (oc_UsedCost claim))"

lemma capture_overview_authorized:
  assumes "funds_inv r" "capture_claim_ok claim" "gget (fm_allocations r) k = Some a" "al_Status a = AllocationAuthorized"
  shows "capture_overview E now k claim h r =
    (if capture_mismatch a claim \<or> money_int (al_CostCap a) < money_int (oc_UsedCost claim) then (r, Inl FErrContentConflict)
     else if capture_total claim = ''0''
     then (store_allocation k (captured_allocation a claim h [] now) r, Inr (captured_allocation a claim h [] now, False))
     else case post_journal (capture_journal E a claim h (capture_total claim) now) (capture_accounts E a claim r) of
       Inl e \<Rightarrow> (capture_accounts E a claim r, Inl e)
     | Inr r'' \<Rightarrow>
         (store_allocation k (captured_allocation a claim h (capture_journal_id E a h) now) r'',
          Inr (captured_allocation a claim h (capture_journal_id E a h) now, False)))"
proof -
  have "is_amount (oc_OverviewAmount claim)" "is_amount (oc_UsedCost claim)" "is_amount (al_CostCap a)"
    using assms(1-3) by (auto simp: capture_claim_ok_def funds_inv_def allocation_ok_def)
  then show ?thesis
    using assms(3,4) by (simp add: capture_overview_def Let_def compare_money_amount add_money_amount capture_total_def
        cong: sum.case_cong)
qed

lemma captured_allocation_ok:
  assumes "allocation_ok m k a" "\<not> capture_mismatch a claim" "money_int (oc_UsedCost claim) \<le> money_int (al_CostCap a)"
    "capture_claim_ok claim"
  shows "allocation_ok m k (captured_allocation a claim h jid now)"
  using assms by (auto simp: allocation_ok_def captured_allocation_def capture_mismatch_def capture_claim_ok_def)

lemma capture_overview_safe:
  assumes "funds_inv r" "capture_claim_ok claim"
  shows "safe_call (capture_overview E now k claim h r)"
proof (cases "\<exists>a. gget (fm_allocations r) k = Some a \<and> al_Status a = AllocationAuthorized")
  case True
  then obtain a where a: "gget (fm_allocations r) k = Some a" "al_Status a = AllocationAuthorized" by blast
  then have ok: "allocation_ok (fm_accounts r) k a" using assms(1) by (simp add: funds_inv_def)
  note inv' = capture_accounts_inv [OF assms(1), of E a claim]
  have ok': "allocation_ok (fm_accounts r'') k a"
    if "post_journal (capture_journal E a claim h (capture_total claim) now) (capture_accounts E a claim r) = Inr r''" for r''
    using allocation_ok_ext [OF ok accounts_ext_trans [OF capture_accounts_ext post_journal_ext [OF that]]] inv'
    by (simp add: funds_inv_def)
  show ?thesis
    unfolding capture_overview_authorized [OF assms a]
    using assms inv' post_journal_no_panic [OF inv'] post_journal_inv [OF _ inv' single_asset_capture] ok ok'
    by (auto split: sum.split intro!: store_allocation_inv captured_allocation_ok)
next
  case False
  then show ?thesis
    using assms(1) by (auto simp: capture_overview_def split: option.split)
qed

lemma svc_capture_overview_safe: "funds_inv r \<Longrightarrow> safe_call (svc_capture_overview E now k claim r)"
  by (auto simp: svc_capture_overview_def capture_claim_ok_def intro!: capture_overview_safe)

definition released_allocation :: "allocation \<Rightarrow> string \<Rightarrow> gotime \<Rightarrow> allocation" where
  "released_allocation a reasonCode now =
     a\<lparr>al_Status := AllocationReleased, al_ReleaseReasonCode := reasonCode, al_UpdatedAt := now\<rparr>"

lemma released_allocation_ok:
  "allocation_ok m k a \<Longrightarrow> al_Status a = AllocationAuthorized \<Longrightarrow> allocation_ok m k (released_allocation a c now)"
  by (simp add: allocation_ok_def released_allocation_def)

lemma release_overview_authorized:
  "gget (fm_allocations r) k = Some a \<Longrightarrow> al_Status a = AllocationAuthorized \<Longrightarrow>
   release_overview E now k c h r = (store_allocation k (released_allocation a c now) r, Inr (released_allocation a c now, False))"
  by (simp add: release_overview_def released_allocation_def Let_def)

lemma release_overview_safe:
  assumes "funds_inv r"
  shows "safe_call (release_overview E now k c h r)"
proof (cases "\<exists>a. gget (fm_allocations r) k = Some a \<and> al_Status a = AllocationAuthorized")
  case True
  then obtain a where a: "gget (fm_allocations r) k = Some a" "al_Status a = AllocationAuthorized" by blast
  with assms have "allocation_ok (fm_accounts r) k a" by (simp add: funds_inv_def)
  with a assms show ?thesis
    by (auto simp: release_overview_authorized intro!: store_allocation_inv released_allocation_ok)
qed (use assms in \<open>auto simp: release_overview_def split: option.split\<close>)

lemma svc_release_overview_safe: "funds_inv r \<Longrightarrow> safe_call (svc_release_overview E now k c r)"
  by (auto simp: svc_release_overview_def intro!: release_overview_safe)

lemma reverse_journal_safe:
  assumes "funds_inv r" "single_asset j"
  shows "safe_call (reverse_journal j r)"
proof -
  have rev: "funds_inv (r'\<lparr>fm_reversals := m\<rparr>)" if "funds_inv r'" for r' m
    using that by (simp add: funds_inv_def)
  show ?thesis
    unfolding reverse_journal_def Let_def
    using assms journal_replay_no_panic [of j r]
    by (auto split: option.split sum.split_asm sum.split dest: post_journal_inv post_journal_no_panic [of r j] intro: rev)
qed

lemma svc_reverse_journal_safe: "funds_inv r \<Longrightarrow> safe_call (svc_reverse_journal E now q r)"
  by (auto simp: svc_reverse_journal_def get_journal_def from_option_def funds_inv_def [of r]
      split: option.split intro!: reverse_journal_safe single_asset_reversal)

section \<open>Reachable repositories\<close>

lemmas svc_safe = svc_open_account_safe svc_record_funding_safe svc_authorize_overview_safe
  svc_capture_overview_safe svc_release_overview_safe svc_reverse_journal_safe

lemma safe_call_exec:
  "safe_call out \<Longrightarrow> funds_inv (fst (case out of (r', Inl e) \<Rightarrow> (r', Some e) | (r', Inr _) \<Rightarrow> (r', None)))"
  "safe_call out \<Longrightarrow> snd (case out of (r', Inl e) \<Rightarrow> (r', Some e) | (r', Inr _) \<Rightarrow> (r', None)) \<noteq> Some FPanic"
  by (auto simp: safe_call_def split: prod.split sum.split)

lemma funds_exec_safe: "funds_inv r \<Longrightarrow> funds_inv (fst (funds_exec E now c r)) \<and> snd (funds_exec E now c r) \<noteq> Some FPanic"
  by (cases c) (simp_all only: funds_exec.simps safe_call_exec svc_safe simp_thms)

lemma funds_reachable_inv: "funds_reachable E allowed r \<Longrightarrow> funds_inv r"
  by (induction rule: funds_reachable.induct) (simp_all add: funds_inv_start funds_exec_safe)

end
