(* ===== verification/Funds_Reserve.thy ===== *)
theory Funds_Reserve
  imports Funds_Invariant
begin

text \<open>
  The reserve discipline of discovery pools: in a history without reversals every pool holds at least
  the sum of its authorized reserves, so a capture never fails for lack of money. Reversals break the
  discipline, and the last section shows the history that does.
\<close>

section \<open>Posting succeeds when no prefix overdraws\<close>

lemma account_delta_append [simp]: "account_delta k (es @ fs) = account_delta k es + account_delta k fs"
  by (simp add: account_delta_def)

lemma apply_entries_solvent:
  assumes "accounts_ok (put_all upd m)" "gwf m" "gwf upd" "list_all (entry_ok m) es"
    and "\<And>n k a. n \<le> length es \<Longrightarrow> gget (put_all upd m) k = Some a \<Longrightarrow> business_account_type (acct_Type a) \<Longrightarrow>
           0 \<le> money_int (acct_Balance a) + account_delta k (take n es)"
  shows "\<exists>upd'. apply_entries m t es upd = Inr upd'"
  using assms
proof (induction es arbitrary: upd)
  case (Cons e es)
  obtain upd1 where step: "apply_entry m t e upd = Inr upd1"
  proof (rule apply_entry_cases [OF Cons.prems(1,3), of e t])
    show "entry_ok m e" using Cons.prems(4) by simp
  next
    fix a assume a: "gget (put_all upd m) (en_AccountID e) = Some a" and
      eq: "apply_entry m t e upd = (if business_account_type (acct_Type a) \<and> money_int (acct_Balance a) + entry_delta e < 0
           then Inl FErrInsufficient
           else Inr (gput (en_AccountID e)
             (a\<lparr>acct_Balance := bigint_string (money_int (acct_Balance a) + entry_delta e), acct_UpdatedAt := t\<rparr>) upd))"
    have "business_account_type (acct_Type a) \<Longrightarrow> 0 \<le> money_int (acct_Balance a) + entry_delta e"
      using Cons.prems(5) [of 1, OF _ a] by simp
    with eq that show thesis by (auto split: if_splits)
  qed
  from step Cons.prems(4) have one: "apply_entries m t [e] upd = Inr upd1" "list_all (entry_ok m) [e]" by simp_all
  note eff = apply_entries_ok [OF one(1) Cons.prems(1-3) one(2)]
  have "0 \<le> money_int (acct_Balance a) + account_delta k (take n es)"
    if n: "n \<le> length es" and a: "gget (put_all upd1 m) k = Some a" "business_account_type (acct_Type a)" for n k a
  proof -
    from eff a obtain a0 where a0: "gget (put_all upd m) k = Some a0" "rebalanced a0 a"
      "money_int (acct_Balance a) = money_int (acct_Balance a0) + account_delta k [e]"
      by (fastforce split: option.splits)
    then have "business_account_type (acct_Type a0)" using a(2) by (simp add: rebalanced_same(2))
    from Cons.prems(5) [of "Suc n", OF _ a0(1) this] n a0(3) show ?thesis by simp
  qed
  with Cons.IH [of upd1] eff Cons.prems(2,4) obtain upd' where "apply_entries m t es upd1 = Inr upd'" by auto
  with step show ?case by simp
qed simp

lemma post_journal_solvent:
  assumes "accounts_ok (fm_accounts r)"
    and "\<And>n k a. n \<le> length (jr_Entries j) \<Longrightarrow> gget (fm_accounts r) k = Some a \<Longrightarrow> business_account_type (acct_Type a) \<Longrightarrow>
           0 \<le> money_int (acct_Balance a) + account_delta k (take n (jr_Entries j))"
  shows "post_journal j r \<noteq> Inl FErrInsufficient"
proof
  assume "post_journal j r = Inl FErrInsufficient"
  then obtain d where c: "check_entries (fm_accounts r) 0 (jr_Entries j) ''0'' ''0'' = Inr (d, d)"
    and a: "apply_entries (fm_accounts r) (jr_CreatedAt j) (jr_Entries j) [] = Inl FErrInsufficient"
    using check_entries_error [of "fm_accounts r" 0 "jr_Entries j" "''0''" "''0''" FErrInsufficient]
    by (auto simp: post_journal_def rbind_Inl_iff split: if_splits)
  have p: "put_all [] (fm_accounts r) = fm_accounts r" by (simp add: put_all_def)
  have "\<exists>upd'. apply_entries (fm_accounts r) (jr_CreatedAt j) (jr_Entries j) [] = Inr upd'"
    by (rule apply_entries_solvent) (use assms check_entries_ok [OF c] in \<open>simp_all add: p accounts_ok_def\<close>)
  with a show False by simp
qed

section \<open>The entries of a capture\<close>

lemma capture_entries_shape:
  obtains cs where "capture_entries E a claim amt =
      \<lparr>en_Index = 1, en_AccountID = al_AccountID a, en_Direction = EntryDebit, en_Amount = amt, en_Asset = al_Asset a\<rparr> # cs"
    and "list_all (\<lambda>e. en_Direction e = EntryCredit \<and> en_Amount e \<in> {oc_OverviewAmount claim, oc_UsedCost claim}) cs"
  by (rule that [of "tl (capture_entries E a claim amt)"]) (simp_all add: capture_entries_def Let_def)

lemma account_delta_credits:
  "list_all (\<lambda>e. en_Direction e = EntryCredit \<and> 0 \<le> money_int (en_Amount e)) es \<Longrightarrow> 0 \<le> account_delta k es"
  by (induction es) (auto simp: entry_delta_def)

lemma capture_delta_bound:
  assumes "capture_claim_ok claim"
  shows "account_delta k (take n (capture_entries E a claim (capture_total claim))) \<ge>
    (if k = al_AccountID a then - money_int (capture_total claim) else 0)"
proof -
  obtain cs where cs: "capture_entries E a claim (capture_total claim) =
      \<lparr>en_Index = 1, en_AccountID = al_AccountID a, en_Direction = EntryDebit, en_Amount = capture_total claim, en_Asset = al_Asset a\<rparr> # cs"
    "list_all (\<lambda>e. en_Direction e = EntryCredit \<and> en_Amount e \<in> {oc_OverviewAmount claim, oc_UsedCost claim}) cs"
    by (rule capture_entries_shape)
  have amt: "0 \<le> money_int (oc_OverviewAmount claim)" "0 \<le> money_int (oc_UsedCost claim)"
    using assms by (auto simp: capture_claim_ok_def dest: valid_money_amount)
  then have "list_all (\<lambda>e. en_Direction e = EntryCredit \<and> 0 \<le> money_int (en_Amount e)) (take m cs)" for m
    using cs(2) by (auto simp: list_all_iff dest!: in_set_takeD)
  then have "0 \<le> account_delta k (take m cs)" for m by (rule account_delta_credits)
  with amt show ?thesis unfolding cs(1) by (cases n) (auto simp: entry_delta_def capture_total_def)
qed

section \<open>Coverage\<close>

definition covered :: "funds_repo \<Rightarrow> bool" where
  "covered r \<longleftrightarrow> (\<forall>k a. gget (fm_accounts r) k = Some a \<longrightarrow> acct_Type a = AccountDiscoveryPool \<longrightarrow>
     reserved k r \<le> money_int (acct_Balance a))"

lemma coveredD:
  "covered r \<Longrightarrow> gget (fm_accounts r) k = Some a \<Longrightarrow> acct_Type a = AccountDiscoveryPool \<Longrightarrow>
   reserved k r \<le> money_int (acct_Balance a)"
  by (auto simp: covered_def)

lemma reserve_of_nonneg: "allocation_ok m k al \<Longrightarrow> 0 \<le> reserve_of j al"
  by (auto simp: allocation_ok_def reserve_of_def dest!: valid_money_amount)

lemma reserved_store:
  "reserved k (store_allocation i al r) =
   reserved k r - (case gget (fm_allocations r) i of None \<Rightarrow> 0 | Some old \<Rightarrow> reserve_of k old) + reserve_of k al"
  by (simp add: reserved_def store_allocation_def gsum_gput)

lemma reserved_cong: "fm_allocations r' = fm_allocations r \<Longrightarrow> reserved k r' = reserved k r"
  by (simp add: reserved_def)

lemma reserved_accounts [simp]: "reserved k (r\<lparr>fm_accounts := m\<rparr>) = reserved k r"
  by (simp add: reserved_def)

lemma reserved_member:
  assumes "funds_inv r" "gget (fm_allocations r) i = Some al"
  shows "reserve_of k al \<le> reserved k r"
  unfolding reserved_def using assms
  by (intro gsum_nonneg_member) (auto simp: funds_inv_def intro: reserve_of_nonneg)

lemma reserved_new_account:
  assumes "funds_inv r" "gget (fm_accounts r) k = None"
  shows "reserved k r = 0"
  unfolding reserved_def
proof (rule gsum_zero)
  fix i al assume "gget (fm_allocations r) i = Some al"
  then have "allocation_ok (fm_accounts r) i al" using assms(1) by (simp add: funds_inv_def)
  then have "al_AccountID al \<noteq> k" using assms(2) by (auto simp: allocation_ok_def)
  then show "reserve_of k al = 0" by (simp add: reserve_of_def)
qed (use assms in \<open>simp add: funds_inv_def\<close>)

lemma covered_new_account:
  assumes "covered r" "funds_inv r" "gget (fm_accounts r) k = None" "acct_Balance a = ''0''"
  shows "covered (r\<lparr>fm_accounts := gput k a (fm_accounts r)\<rparr>)"
  using assms reserved_new_account [OF assms(2,3)] by (auto simp: covered_def)

lemma covered_ensure: "covered r \<Longrightarrow> funds_inv r \<Longrightarrow> covered (ensure_system_account i t ref asset now r)"
  by (auto simp: ensure_system_account_def zero_account_def split: option.split intro!: covered_new_account)

lemma covered_capture_accounts: "covered r \<Longrightarrow> funds_inv r \<Longrightarrow> covered (capture_accounts E a claim r)"
  by (simp add: capture_accounts_def Let_def covered_ensure ensure_system_account_inv)

text \<open>A posting keeps coverage when it takes nothing from pools.\<close>

lemma post_journal_pool:
  assumes "post_journal j r = Inr r'" "funds_inv r" "gget (fm_accounts r') k = Some a'"
  obtains a where "gget (fm_accounts r) k = Some a" "rebalanced a a'"
    "money_int (acct_Balance a') = money_int (acct_Balance a) + account_delta k (jr_Entries j)"
  using post_journal_effect(4) [OF assms(1), of k] assms(2,3) that
  by (fastforce simp: funds_inv_def split: option.splits)

lemma covered_store_less:
  assumes "covered r" "funds_inv r" "gget (fm_allocations r) i = Some old" "\<And>k. reserve_of k al \<le> reserve_of k old"
  shows "covered (store_allocation i al r)"
proof -
  have "reserved k (store_allocation i al r) \<le> reserved k r" for k
    using assms(3) assms(4) [of k] by (simp add: reserved_store)
  moreover have "fm_accounts (store_allocation i al r) = fm_accounts r" by (simp add: store_allocation_def)
  ultimately show ?thesis using assms(1) unfolding covered_def by (metis order_trans)
qed

lemma covered_capture:
  assumes "covered r" "funds_inv r" "gget (fm_allocations r) i = Some a" "al_Status a = AllocationAuthorized"
    and "post_journal (capture_journal E a claim h (capture_total claim) now) r = Inr r''"
    and "capture_claim_ok claim" "money_int (capture_total claim) \<le> money_int (al_ReserveAmount a)"
  shows "covered (store_allocation i (captured_allocation a claim h jid now) r'')"
  unfolding covered_def
proof (intro allI impI)
  fix k p'
  assume "gget (fm_accounts (store_allocation i (captured_allocation a claim h jid now) r'')) k = Some p'"
    and t: "acct_Type p' = AccountDiscoveryPool"
  then have "gget (fm_accounts r'') k = Some p'" by (simp add: store_allocation_def)
  from post_journal_pool [OF assms(5,2) this] obtain p where p: "gget (fm_accounts r) k = Some p" "rebalanced p p'"
    "money_int (acct_Balance p') = money_int (acct_Balance p) + account_delta k (capture_entries E a claim (capture_total claim))"
    by (auto simp: capture_journal_def)
  have fr: "fm_allocations r'' = fm_allocations r"
    using post_journal_effect(5) [OF assms(5)] assms(2) by (simp add: funds_inv_def)
  have "reserved k r \<le> money_int (acct_Balance p)"
    using coveredD [OF assms(1) p(1)] t rebalanced_same(2) [OF p(2)] by simp
  moreover have "(if k = al_AccountID a then - money_int (capture_total claim) else 0) \<le>
      account_delta k (capture_entries E a claim (capture_total claim))"
    using capture_delta_bound [OF assms(6), of k a "length (capture_entries E a claim (capture_total claim))" E] by simp
  moreover have "reserve_of k (captured_allocation a claim h jid now) = 0"
    by (simp add: reserve_of_def captured_allocation_def)
  moreover have "reserve_of k a = (if k = al_AccountID a then money_int (al_ReserveAmount a) else 0)"
    using assms(4) by (auto simp: reserve_of_def)
  ultimately show "reserved k (store_allocation i (captured_allocation a claim h jid now) r'') \<le> money_int (acct_Balance p')"
    using p(3) assms(3,7) reserved_cong [OF fr, of k] by (auto simp: reserved_store fr split: if_splits)
qed

section \<open>Histories without reversals\<close>

text \<open>
  \<open>account_key\<close> and \<open>control_key\<close> name the identifiers of a business account and of the control account
  funding debits. The commands allowed are those of any set \<open>Q\<close> of account requests, and no reversal;
  \<open>separate E Q\<close> says that SHA-256 does not map a business account of \<open>Q\<close> and a control account of an asset
  of \<open>Q\<close> to one identifier.
\<close>

definition account_key :: "funds_env \<Rightarrow> open_account_request \<Rightarrow> string" where
  "account_key E q = stable_id (fe_sha E) [''fund-account'', oar_Type q, oar_ReferenceID q, oar_Asset q, LedgerVersion]"

definition control_key :: "funds_env \<Rightarrow> string \<Rightarrow> string" where
  "control_key E asset = stable_id (fe_sha E) [''fund-system-account'', AccountFundingControl, asset, LedgerVersion]"

definition separate :: "funds_env \<Rightarrow> open_account_request set \<Rightarrow> bool" where
  "separate E Q \<longleftrightarrow> (\<forall>q \<in> Q. \<forall>p \<in> Q. no_collision (fe_sha E)
     (id_preimage [''fund-account'', oar_Type q, oar_ReferenceID q, oar_Asset q, LedgerVersion])
     (id_preimage [''fund-system-account'', AccountFundingControl, oar_Asset p, LedgerVersion]))"

fun without_reversal :: "open_account_request set \<Rightarrow> funds_cmd \<Rightarrow> bool" where
  "without_reversal Q (COpen q) = (q \<in> Q)"
| "without_reversal Q (CReverse q) = False"
| "without_reversal Q c = True"

lemma separate_keys:
  assumes "separate E Q" "q \<in> Q" "p \<in> Q"
  shows "account_key E q \<noteq> control_key E (oar_Asset p)"
proof
  assume "account_key E q = control_key E (oar_Asset p)"
  with assms have "id_preimage [''fund-account'', oar_Type q, oar_ReferenceID q, oar_Asset q, LedgerVersion] =
      id_preimage [''fund-system-account'', AccountFundingControl, oar_Asset p, LedgerVersion]"
    by (auto simp: separate_def no_collision_def account_key_def control_key_def stable_id_def id_preimage_def)
  then have "''fund-account'' = ''fund-system-account''"
    unfolding id_preimage_def list.map concat.simps by (rule len4.enc_cut [THEN conjunct1, rotated 2]) simp_all
  then show False by simp
qed

definition opened_from :: "funds_env \<Rightarrow> open_account_request set \<Rightarrow> funds_repo \<Rightarrow> bool" where
  "opened_from E Q r \<longleftrightarrow> (\<forall>k a. gget (fm_accounts r) k = Some a \<longrightarrow> business_account_type (acct_Type a) \<longrightarrow>
     (\<exists>q \<in> Q. k = account_key E q \<and> acct_Asset a = oar_Asset q))"

definition reserve_inv :: "funds_env \<Rightarrow> open_account_request set \<Rightarrow> funds_repo \<Rightarrow> bool" where
  "reserve_inv E Q r \<longleftrightarrow> funds_inv r \<and> covered r \<and> opened_from E Q r"

lemma opened_from_new:
  assumes "opened_from E Q r"
    and "business_account_type (acct_Type a) \<Longrightarrow> \<exists>q \<in> Q. k = account_key E q \<and> acct_Asset a = oar_Asset q"
  shows "opened_from E Q (r\<lparr>fm_accounts := gput k a (fm_accounts r)\<rparr>)"
  using assms by (auto simp: opened_from_def)

lemma opened_from_ensure:
  assumes "opened_from E Q r" "\<not> business_account_type t"
  shows "opened_from E Q (ensure_system_account i t ref asset now r)"
  using assms by (auto simp: ensure_system_account_def zero_account_def split: option.split intro!: opened_from_new)

lemma opened_from_capture_accounts: "opened_from E Q r \<Longrightarrow> opened_from E Q (capture_accounts E' a claim r)"
  by (simp add: capture_accounts_def Let_def opened_from_ensure business_account_type_def)

lemma opened_from_post:
  assumes "post_journal j r = Inr r'" "funds_inv r" "opened_from E Q r"
  shows "opened_from E Q r'"
  unfolding opened_from_def
proof (intro allI impI)
  fix k a' assume a': "gget (fm_accounts r') k = Some a'" and b: "business_account_type (acct_Type a')"
  from post_journal_pool [OF assms(1,2) a'] obtain a where "gget (fm_accounts r) k = Some a" "rebalanced a a'" by blast
  with assms(3) b show "\<exists>q \<in> Q. k = account_key E q \<and> acct_Asset a' = oar_Asset q"
    by (auto simp: opened_from_def rebalanced_same)
qed

lemma opened_from_store [simp]: "opened_from E Q (store_allocation i a r) = opened_from E Q r"
  by (simp add: opened_from_def store_allocation_def)

lemma reserve_open:
  assumes "reserve_inv E Q r" "q \<in> Q"
  shows "reserve_inv E Q (fst (svc_open_account E now q r))"
proof -
  have "funds_inv (fst (svc_open_account E now q r))"
    using svc_open_account_safe assms(1) by (auto simp: reserve_inv_def safe_call_def)
  then show ?thesis
    using assms
    by (auto simp: reserve_inv_def svc_open_account_def open_account_def account_key_def split: option.split
        intro!: covered_new_account opened_from_new)
qed

lemma covered_funding:
  assumes "post_journal j r = Inr r'" "funds_inv r" "covered r" "jr_Entries j = [e0, e1]"
    and "en_Direction e0 = EntryDebit" "en_Direction e1 = EntryCredit" "0 \<le> money_int (en_Amount e1)"
    and "\<And>a. gget (fm_accounts r) (en_AccountID e0) = Some a \<Longrightarrow> acct_Type a \<noteq> AccountDiscoveryPool"
  shows "covered r'"
  unfolding covered_def
proof (intro allI impI)
  fix k a' assume a': "gget (fm_accounts r') k = Some a'" and t: "acct_Type a' = AccountDiscoveryPool"
  from post_journal_pool [OF assms(1,2) a'] obtain a where a: "gget (fm_accounts r) k = Some a" "rebalanced a a'"
    "money_int (acct_Balance a') = money_int (acct_Balance a) + account_delta k (jr_Entries j)" .
  have fr: "fm_allocations r' = fm_allocations r"
    using post_journal_effect(5) [OF assms(1)] assms(2) by (simp add: funds_inv_def)
  have "acct_Type a = AccountDiscoveryPool" using t rebalanced_same(2) [OF a(2)] by simp
  then have "0 \<le> account_delta k (jr_Entries j)" "reserved k r \<le> money_int (acct_Balance a)"
    using a(1) assms(4-8) coveredD [OF assms(3)] by (auto simp: entry_delta_def)
  with a(3) reserved_cong [OF fr, of k] show "reserved k r' \<le> money_int (acct_Balance a')" by simp
qed

lemma reserve_funding:
  assumes "reserve_inv E Q r" "separate E Q"
  shows "reserve_inv E Q (fst (svc_record_funding E now q r))"
proof (cases "positive_money (fr_Amount q) \<and> (\<exists>a. gget (fm_accounts r) (fr_AccountID q) = Some a \<and> business_account_type (acct_Type a))")
  case True
  then obtain a where a: "gget (fm_accounts r) (fr_AccountID q) = Some a" "business_account_type (acct_Type a)"
    and amt: "0 \<le> money_int (fr_Amount q)" by (auto dest: positive_money_amount)
  from assms(1) a obtain p where p: "p \<in> Q" "acct_Asset a = oar_Asset p" by (auto simp: reserve_inv_def opened_from_def)
  let ?j = "funding_journal E now a q"
  let ?r = "ensure_system_account (control_key E (acct_Asset a)) AccountFundingControl (acct_Asset a) (acct_Asset a) now r"
  have inv: "funds_inv ?r" "covered ?r" "opened_from E Q ?r"
    using assms(1) by (auto simp: reserve_inv_def business_account_type_def
      intro: ensure_system_account_inv covered_ensure opened_from_ensure)
  have ctl: "acct_Type b \<noteq> AccountDiscoveryPool" if b: "gget (fm_accounts ?r) (control_key E (acct_Asset a)) = Some b" for b
  proof
    assume "acct_Type b = AccountDiscoveryPool"
    then have "business_account_type (acct_Type b)" by (simp add: business_account_type_def)
    with inv(3) b obtain q' where "q' \<in> Q" "control_key E (acct_Asset a) = account_key E q'"
      unfolding opened_from_def by blast
    with separate_keys [OF assms(2) _ p(1), of q'] p(2) show False by simp
  qed
  have "reserve_inv E Q r''" if "post_journal ?j ?r = Inr r''" for r''
    using post_journal_inv [OF that inv(1)] opened_from_post [OF that inv(1,3)]
      covered_funding [OF that inv(1,2)] ctl amt
    by (auto simp: reserve_inv_def funding_journal_def single_asset_def control_key_def)
  moreover have "reserve_inv E Q ?r" using inv by (simp add: reserve_inv_def)
  moreover have "jr_Entries ?j = [jr_Entries ?j ! 0, jr_Entries ?j ! 1]" "en_Asset (jr_Entries ?j ! 1) = acct_Asset a"
    "en_AccountID (jr_Entries ?j ! 0) = control_key E (acct_Asset a)" "jr_CreatedAt ?j = now"
    by (simp_all add: funding_journal_def control_key_def)
  ultimately have "reserve_inv E Q (fst (post_funding ?j q r))"
    using assms(1) a(1)
    by (subst post_funding_eq [of ?j "jr_Entries ?j ! 0" "jr_Entries ?j ! 1"])
      (auto simp: Let_def split: sum.split option.split)
  then show ?thesis using assms(1) a(1) by (simp add: svc_record_funding_def get_account_def)
next
  case False
  have "fst (post_funding (funding_journal E now a q) q r) = r"
    if "gget (fm_accounts r) (fr_AccountID q) = Some a" "\<not> business_account_type (acct_Type a)" for a
    using that by (simp add: post_funding_def funding_journal_def split: sum.split option.split)
  with False have "fst (svc_record_funding E now q r) = r"
    by (auto simp: svc_record_funding_def get_account_def from_option_def split: option.split)
  with assms(1) show ?thesis by simp
qed

lemma reserve_authorize:
  assumes "reserve_inv E Q r"
  shows "reserve_inv E Q (fst (svc_authorize_overview E now q r))"
proof -
  have inv: "funds_inv r" "covered r" using assms by (auto simp: reserve_inv_def)
  have safe: "funds_inv (fst (svc_authorize_overview E now q r))"
    using svc_authorize_overview_safe [OF inv(1)] by (auto simp: safe_call_def)
  have "reserve_inv E Q (fst (authorize_overview d r))"
    if d: "is_amount (al_ReserveAmount d)" "al_Status d = AllocationAuthorized" "funds_inv (fst (authorize_overview d r))" for d
  proof (cases "authorize_overview d r")
    case (Pair r' res)
    show ?thesis
    proof (cases res)
      case (Inl err)
      with authorize_overview_error [OF inv(1) d(1), of r' err] Pair assms show ?thesis by simp
    next
      case (Inr p)
      obtain al rp where p: "p = (al, rp)" by (cases p)
      note res = Pair [unfolded Inr p]
      show ?thesis
      proof (cases "gget (fm_allocations r) (al_ID d)")
        case (Some e)
        then show ?thesis using assms by (simp add: authorize_overview_replay)
      next
        case None
        then show ?thesis
        proof (rule authorize_overview_new [OF inv(1) _ d(1) res])
          fix a assume a: "gget (fm_accounts r) (acct_ID a) = Some a" "al = d\<lparr>al_AccountID := acct_ID a\<rparr>"
            "r' = store_allocation (al_ID d) al r"
            "money_int (al_ReserveAmount d) + reserved (acct_ID a) r \<le> money_int (acct_Balance a)"
          have "covered (store_allocation (al_ID d) al r)"
            unfolding covered_def
          proof (intro allI impI)
            fix k b assume "gget (fm_accounts (store_allocation (al_ID d) al r)) k = Some b" "acct_Type b = AccountDiscoveryPool"
            then have b: "gget (fm_accounts r) k = Some b" "acct_Type b = AccountDiscoveryPool" by (simp_all add: store_allocation_def)
            have "reserved k (store_allocation (al_ID d) al r) = reserved k r + reserve_of k al"
              using None by (simp add: reserved_store)
            with coveredD [OF inv(2) b] a b(1) show "reserved k (store_allocation (al_ID d) al r) \<le> money_int (acct_Balance b)"
              by (auto simp: reserve_of_def)
          qed
          with assms d(3) res a(3) show ?thesis by (simp add: reserve_inv_def)
        qed
      qed
    qed
  qed
  note auth = this
  show ?thesis
  proof (cases "fst (svc_authorize_overview E now q r) = r")
    case False
    then obtain reserve where e: "svc_authorize_overview E now q r = authorize_overview (new_allocation E now q reserve) r"
      "add_money (oa_OverviewPrice q) (oa_ExternalCostCap q) = Some reserve"
      by (auto simp: svc_authorize_overview_def split: if_splits option.splits)
    then have "is_amount reserve" by (auto simp: add_money_def split: option.splits)
    with auth [of "new_allocation E now q reserve"] e safe show ?thesis by (simp add: new_allocation_def)
  qed (use assms in simp)
qed

lemma capture_within_reserve:
  assumes "allocation_ok m k a" "\<not> capture_mismatch a claim" "money_int (oc_UsedCost claim) \<le> money_int (al_CostCap a)"
  shows "money_int (capture_total claim) \<le> money_int (al_ReserveAmount a)"
  using assms by (simp add: allocation_ok_def capture_mismatch_def capture_total_def)

lemma reserve_capture:
  assumes "reserve_inv E Q r" "capture_claim_ok claim"
  shows "reserve_inv E Q (fst (capture_overview E now k claim h r))"
proof (cases "\<exists>a. gget (fm_allocations r) k = Some a \<and> al_Status a = AllocationAuthorized")
  case True
  then obtain a where a: "gget (fm_allocations r) k = Some a" "al_Status a = AllocationAuthorized" by blast
  have inv: "funds_inv r" "covered r" "opened_from E Q r" using assms(1) by (auto simp: reserve_inv_def)
  then have ok: "allocation_ok (fm_accounts r) k a" using a by (simp add: funds_inv_def)
  let ?r = "capture_accounts E a claim r" and ?j = "capture_journal E a claim h (capture_total claim) now"
  have acc: "funds_inv ?r" "covered ?r" "opened_from E Q ?r"
    using inv by (simp_all add: capture_accounts_inv covered_capture_accounts opened_from_capture_accounts)
  have safe: "funds_inv (fst (capture_overview E now k claim h r))"
    using capture_overview_safe [OF inv(1) assms(2)] by (simp add: safe_call_def)
  have zero: "covered (store_allocation k (captured_allocation a claim h [] now) r)"
    using ok a by (intro covered_store_less [OF inv(2,1) a(1)])
      (auto simp: reserve_of_def captured_allocation_def dest: reserve_of_nonneg [of _ _ _ "al_AccountID a"])
  have post: "covered (store_allocation k (captured_allocation a claim h jid now) r'')" "opened_from E Q r''"
    if "post_journal ?j ?r = Inr r''" "\<not> capture_mismatch a claim" "\<not> money_int (al_CostCap a) < money_int (oc_UsedCost claim)" for r'' jid
    using that a covered_capture [OF acc(2,1) _ _ that(1) assms(2), of k jid] opened_from_post [OF that(1) acc(1,3)]
      capture_within_reserve [OF ok] by auto
  show ?thesis
    using safe acc assms(1) inv(3) zero post
    unfolding capture_overview_authorized [OF inv(1) assms(2) a]
    by (auto simp: reserve_inv_def split: sum.split)
next
  case False
  then have "fst (capture_overview E now k claim h r) = r"
    by (auto simp: capture_overview_def split: option.split)
  then show ?thesis using assms(1) by simp
qed

lemma reserve_release:
  assumes "reserve_inv E Q r"
  shows "reserve_inv E Q (fst (release_overview E now k c h r))"
proof (cases "\<exists>a. gget (fm_allocations r) k = Some a \<and> al_Status a = AllocationAuthorized")
  case True
  then obtain a where a: "gget (fm_allocations r) k = Some a" "al_Status a = AllocationAuthorized" by blast
  have inv: "funds_inv r" "covered r" "opened_from E Q r" using assms(1) by (auto simp: reserve_inv_def)
  then have ok: "allocation_ok (fm_accounts r) k a" using a by (simp add: funds_inv_def)
  have "covered (store_allocation k (released_allocation a c now) r)"
    using ok a by (intro covered_store_less [OF inv(2,1) a(1)])
      (auto simp: reserve_of_def released_allocation_def dest: reserve_of_nonneg [of _ _ _ "al_AccountID a"])
  moreover have "funds_inv (store_allocation k (released_allocation a c now) r)"
    using store_allocation_inv [OF inv(1) released_allocation_ok [OF ok a(2)]] .
  ultimately show ?thesis
    using inv(3) by (simp add: release_overview_authorized [OF a] reserve_inv_def)
next
  case False
  then have "fst (release_overview E now k c h r) = r"
    by (auto simp: release_overview_def split: option.split)
  then show ?thesis using assms by simp
qed

lemma exec_repo:
  "fst (case out of (r', Inl e) \<Rightarrow> (r', Some e) | (r', Inr _) \<Rightarrow> (r', None)) = fst out"
  by (auto split: prod.split sum.split)

lemma reserve_exec:
  assumes "reserve_inv E Q r" "separate E Q" "without_reversal Q c"
  shows "reserve_inv E Q (fst (funds_exec E now c r))"
proof (cases c)
  case (CCapture k claim)
  then show ?thesis
    using assms(1) reserve_capture [OF assms(1)]
    by (auto simp: exec_repo svc_capture_overview_def capture_claim_ok_def)
next
  case (CRelease k code)
  then show ?thesis
    using assms(1) reserve_release [OF assms(1)] by (auto simp: exec_repo svc_release_overview_def)
qed (use assms reserve_open reserve_funding reserve_authorize in \<open>auto simp: exec_repo\<close>)

lemma reserve_reachable:
  assumes "funds_reachable E (without_reversal Q) r" "separate E Q"
  shows "reserve_inv E Q r"
  using assms(1)
proof induction
  case funds_start
  show ?case
    using funds_inv_start by (simp add: reserve_inv_def covered_def opened_from_def new_memory_repository_def)
next
  case (funds_step r c now)
  then show ?case using reserve_exec assms(2) by blast
qed

section \<open>A capture of an authorized allocation\<close>

lemma capture_never_insufficient:
  assumes "funds_inv r" "covered r" "capture_claim_ok claim"
  shows "snd (capture_overview E now k claim h r) \<noteq> Inl FErrInsufficient"
proof (cases "\<exists>a. gget (fm_allocations r) k = Some a \<and> al_Status a = AllocationAuthorized")
  case True
  then obtain a where a: "gget (fm_allocations r) k = Some a" "al_Status a = AllocationAuthorized" by blast
  then have ok: "allocation_ok (fm_accounts r) k a" using assms(1) by (simp add: funds_inv_def)
  let ?r = "capture_accounts E a claim r" and ?j = "capture_journal E a claim h (capture_total claim) now"
  have acc: "funds_inv ?r" "covered ?r" using assms by (simp_all add: capture_accounts_inv covered_capture_accounts)
  obtain pool0 where pool0: "gget (fm_accounts ?r) (al_AccountID a) = Some pool0" "acct_Type pool0 = AccountDiscoveryPool"
    using allocation_ok_ext [OF ok capture_accounts_ext, of E a claim] unfolding allocation_ok_def by blast
  have "post_journal ?j ?r \<noteq> Inl FErrInsufficient"
    if m: "\<not> capture_mismatch a claim" "money_int (oc_UsedCost claim) \<le> money_int (al_CostCap a)"
  proof (rule post_journal_solvent)
    show "accounts_ok (fm_accounts ?r)" using acc(1) by (simp add: funds_inv_def)
    fix n j b assume b: "gget (fm_accounts ?r) j = Some b" "business_account_type (acct_Type b)"
    have "0 \<le> money_int (acct_Balance b)" using acc(1) b by (simp add: funds_inv_def accounts_ok_def account_ok_def)
    moreover have "money_int (capture_total claim) \<le> money_int (acct_Balance b)" if "j = al_AccountID a"
      using capture_within_reserve [OF ok m] reserved_member [OF acc(1), of k a j] a that pool0 b(1)
        coveredD [OF acc(2) b(1)] by (simp add: reserve_of_def)
    ultimately show "0 \<le> money_int (acct_Balance b) + account_delta j (take n (jr_Entries ?j))"
      using capture_delta_bound [OF assms(3), of j a n E] by (auto simp: capture_journal_def split: if_splits)
  qed
  then show ?thesis
    unfolding capture_overview_authorized [OF assms(1,3) a] by (auto split: sum.split)
qed (auto simp: capture_overview_def split: option.split)

text \<open>
  The remaining failures of a capture: amounts of 79 digits, which \<open>validMoney\<close> rejects, and a system
  account under a colliding identifier that holds another asset.
\<close>

definition system_accounts_fit :: "funds_env \<Rightarrow> allocation \<Rightarrow> overview_capture \<Rightarrow> funds_repo \<Rightarrow> bool" where
  "system_accounts_fit E a claim r \<longleftrightarrow> (\<forall>b. (gget (fm_accounts r) (agent_account_id E a claim) = Some b \<or>
     gget (fm_accounts r) (cost_account_id E a) = Some b) \<longrightarrow> acct_Asset b = al_Asset a)"

lemma ensure_system_account_get:
  "gget (fm_accounts (ensure_system_account i t ref asset now r)) k =
   (if k = i \<and> gget (fm_accounts r) i = None
    then Some (zero_account\<lparr>acct_ID := i, acct_Type := t, acct_ReferenceID := ref, acct_Asset := asset,
      acct_State := AccountOpen, acct_Balance := ''0'', acct_CreatedAt := now, acct_UpdatedAt := now\<rparr>)
    else gget (fm_accounts r) k)"
  by (auto simp: ensure_system_account_def split: option.split)

lemma capture_accounts_fit:
  assumes "system_accounts_fit E a claim r"
  shows "oc_OverviewAmount claim \<noteq> ''0'' \<Longrightarrow>
      \<exists>b. gget (fm_accounts (capture_accounts E a claim r)) (agent_account_id E a claim) = Some b \<and> acct_Asset b = al_Asset a"
    and "oc_UsedCost claim \<noteq> ''0'' \<Longrightarrow>
      \<exists>b. gget (fm_accounts (capture_accounts E a claim r)) (cost_account_id E a) = Some b \<and> acct_Asset b = al_Asset a"
  using assms
  by (auto simp: system_accounts_fit_def capture_accounts_def Let_def ensure_system_account_get zero_account_def)

lemma valid_money_bound: "0 \<le> i \<Longrightarrow> i < 10 ^ 78 \<Longrightarrow> valid_money (bigint_string i)"
  unfolding valid_money_iff bigint_string_def by (auto intro!: exI [of _ "nat i"])

lemma positive_money_bound: "0 < i \<Longrightarrow> i < 10 ^ 78 \<Longrightarrow> positive_money (bigint_string i)"
  using bigint_string_inject [of i 0] by (simp add: positive_money_def valid_money_bound del: bigint_string_inject)

lemma capture_entries_check:
  assumes "capture_claim_ok claim" "capture_total claim \<noteq> ''0''" "money_int (capture_total claim) < 10 ^ 78"
    and "gget m (al_AccountID a) = Some p" "acct_Asset p = al_Asset a"
    and "oc_OverviewAmount claim \<noteq> ''0'' \<Longrightarrow> \<exists>b. gget m (agent_account_id E a claim) = Some b \<and> acct_Asset b = al_Asset a"
    and "oc_UsedCost claim \<noteq> ''0'' \<Longrightarrow> \<exists>b. gget m (cost_account_id E a) = Some b \<and> acct_Asset b = al_Asset a"
  shows "check_entries m 0 (capture_entries E a claim (capture_total claim)) ''0'' ''0'' = Inr (capture_total claim, capture_total claim)"
proof -
  let ?t = "capture_total claim"
  have v: "valid_money (oc_OverviewAmount claim)" "valid_money (oc_UsedCost claim)"
    using assms(1) by (simp_all add: capture_claim_ok_def)
  then have amt: "is_amount (oc_OverviewAmount claim)" "is_amount (oc_UsedCost claim)" "is_amount ?t"
    "0 \<le> money_int (oc_OverviewAmount claim)" "0 \<le> money_int (oc_UsedCost claim)"
    by (auto dest: valid_money_amount simp: capture_total_def)
  have sums: "bigint_string (money_int ?t) = ?t" "bigint_string (money_int (oc_OverviewAmount claim)) = oc_OverviewAmount claim"
    "bigint_string (money_int (oc_UsedCost claim)) = oc_UsedCost claim"
    using amt by (simp_all add: is_amountD)
  have "0 \<le> money_int ?t" "money_int ?t \<noteq> 0"
    using amt assms(2) is_amount_inject [OF amt(3) is_amount_zero] by (simp_all add: capture_total_def)
  then have pos: "positive_money ?t" using positive_money_bound [of "money_int ?t"] assms(3) sums by simp
  show ?thesis
    using assms(4-7) pos v amt sums
    by (cases "oc_OverviewAmount claim = ''0''"; cases "oc_UsedCost claim = ''0''")
      (auto simp: capture_entries_def Let_def add_money_amount positive_money_def capture_total_def)
qed

lemma capture_authorized_succeeds:
  assumes "funds_inv r" "covered r" "capture_claim_ok claim"
    and a: "gget (fm_allocations r) k = Some a" "al_Status a = AllocationAuthorized"
    and m: "\<not> capture_mismatch a claim" "money_int (oc_UsedCost claim) \<le> money_int (al_CostCap a)"
    and "money_int (al_ReserveAmount a) < 10 ^ 78" "system_accounts_fit E a claim r"
  shows "\<exists>r' jid. capture_overview E now k claim h r = (r', Inr (captured_allocation a claim h jid now, False))"
proof (cases "capture_total claim = ''0''")
  case True
  then show ?thesis
    unfolding capture_overview_authorized [OF assms(1,3) a] using m by auto
next
  case False
  let ?r = "capture_accounts E a claim r" and ?j = "capture_journal E a claim h (capture_total claim) now"
  have ok: "allocation_ok (fm_accounts r) k a" using assms(1) a by (simp add: funds_inv_def)
  obtain p where p: "gget (fm_accounts ?r) (al_AccountID a) = Some p" "acct_Asset p = al_Asset a"
    using allocation_ok_ext [OF ok capture_accounts_ext, of E a claim] unfolding allocation_ok_def by blast
  have bound: "money_int (capture_total claim) < 10 ^ 78"
    using capture_within_reserve [OF ok m] assms(8) by simp
  have check: "check_entries (fm_accounts ?r) 0 (jr_Entries ?j) ''0'' ''0'' = Inr (capture_total claim, capture_total claim)"
    using capture_entries_check [OF assms(3) False bound p capture_accounts_fit [OF assms(9)]]
    by (simp add: capture_journal_def)
  have len: "\<not> length (jr_Entries ?j) < 2"
  proof -
    have "oc_OverviewAmount claim \<noteq> ''0'' \<or> oc_UsedCost claim \<noteq> ''0''"
      using False by (auto simp: capture_total_def)
    then show ?thesis by (auto simp: capture_journal_def capture_entries_def Let_def)
  qed
  have "accounts_ok (fm_accounts ?r)" using capture_accounts_inv [OF assms(1)] by (simp add: funds_inv_def)
  moreover have "put_all [] (fm_accounts ?r) = fm_accounts ?r" by (simp add: put_all_def)
  ultimately have err: "e = FErrInsufficient" if "apply_entries (fm_accounts ?r) (jr_CreatedAt ?j) (jr_Entries ?j) [] = Inl e" for e
    using apply_entries_error [OF that] check_entries_ok [OF check] by (simp add: accounts_ok_def)
  have "post_journal ?j ?r \<noteq> Inl FErrInsufficient"
    using capture_never_insufficient [OF assms(1-3), of E now k h] m False
    unfolding capture_overview_authorized [OF assms(1,3) a] by (auto split: sum.splits)
  with check len err obtain r' where "post_journal ?j ?r = Inr r'"
    unfolding post_journal_def by (cases "apply_entries (fm_accounts ?r) (jr_CreatedAt ?j) (jr_Entries ?j) []") auto
  then show ?thesis
    unfolding capture_overview_authorized [OF assms(1,3) a] using m False by auto
qed

end
