(* ===== verification/Funds_Lifecycle.thy ===== *)
theory Funds_Lifecycle
  imports Funds_Reserve
begin

text \<open>The life of an allocation, and the gateway through which the overview package uses the ledger.\<close>

text \<open>
  The life of an allocation as a step relation, and the retry contract of the three allocation calls:
  each is an instance of the replay-safe operation.
\<close>

section \<open>The steps of an allocation\<close>

inductive alloc_step :: "allocation \<Rightarrow> allocation \<Rightarrow> bool" where
  alloc_stays: "alloc_step a a"
| alloc_captured: "al_Status a = AllocationAuthorized \<Longrightarrow> \<not> capture_mismatch a claim \<Longrightarrow>
    money_int (oc_UsedCost claim) \<le> money_int (al_CostCap a) \<Longrightarrow>
    alloc_step a (captured_allocation a claim h jid now)"
| alloc_released: "al_Status a = AllocationAuthorized \<Longrightarrow> alloc_step a (released_allocation a c now)"

inductive_cases alloc_stepE: "alloc_step a b"

lemma alloc_step_final: "alloc_step a b \<Longrightarrow> al_Status a \<noteq> AllocationAuthorized \<Longrightarrow> b = a"
  by (erule alloc_stepE) auto

lemma alloc_step_identity: "alloc_step a b \<Longrightarrow> allocation_identity b = allocation_identity a"
  by (erule alloc_stepE) (simp_all add: allocation_identity_def captured_allocation_def released_allocation_def)

definition alloc_steps :: "funds_repo \<Rightarrow> funds_repo \<Rightarrow> bool" where
  "alloc_steps r r' \<longleftrightarrow> (\<forall>k a. gget (fm_allocations r) k = Some a \<longrightarrow>
     (\<exists>b. gget (fm_allocations r') k = Some b \<and> alloc_step a b))"

lemma alloc_steps_frame: "fm_allocations r' = fm_allocations r \<Longrightarrow> alloc_steps r r'"
  by (auto simp: alloc_steps_def intro: alloc_stays)

lemma alloc_steps_store:
  assumes "gget (fm_allocations r) k = None \<or> (\<exists>a. gget (fm_allocations r) k = Some a \<and> alloc_step a b)"
    and "fm_allocations r'' = fm_allocations r"
  shows "alloc_steps r (store_allocation k b r'')"
  using assms by (auto simp: alloc_steps_def store_allocation_def intro: alloc_stays)

lemma post_journal_allocations: "post_journal j r = Inr r' \<Longrightarrow> fm_allocations r' = fm_allocations r"
  by (auto simp: post_journal_def rbind_Inr_iff split: if_splits)

lemma open_account_allocations: "fm_allocations (fst (svc_open_account E now q r)) = fm_allocations r"
  by (simp add: svc_open_account_def open_account_def split: option.split)

lemma funding_allocations: "fm_allocations (fst (svc_record_funding E now q r)) = fm_allocations r"
  by (auto simp: svc_record_funding_def post_funding_def Let_def post_journal_allocations
      split: sum.split option.split list.split)

lemma reverse_allocations: "fm_allocations (fst (svc_reverse_journal E now q r)) = fm_allocations r"
  by (auto simp: svc_reverse_journal_def reverse_journal_def Let_def post_journal_allocations
      split: sum.split option.split)

lemma authorize_steps: "alloc_steps r (fst (svc_authorize_overview E now q r))"
  by (auto simp: svc_authorize_overview_def authorize_overview_def Let_def alloc_steps_def
      split: sum.split option.split intro: alloc_stays)

lemma capture_steps:
  assumes "funds_inv r" "capture_claim_ok claim"
  shows "alloc_steps r (fst (capture_overview E now k claim h r))"
proof (cases "\<exists>a. gget (fm_allocations r) k = Some a \<and> al_Status a = AllocationAuthorized")
  case True
  then obtain a where a: "gget (fm_allocations r) k = Some a" "al_Status a = AllocationAuthorized" by blast
  have "alloc_step a (captured_allocation a claim h jid now)"
    if "\<not> capture_mismatch a claim" "\<not> money_int (al_CostCap a) < money_int (oc_UsedCost claim)" for jid
    using that a(2) by (intro alloc_captured) auto
  then show ?thesis
    unfolding capture_overview_authorized [OF assms a] using a
    by (auto split: sum.split simp: post_journal_allocations intro!: alloc_steps_store intro: alloc_steps_frame)
qed (auto simp: capture_overview_def split: option.split intro: alloc_steps_frame)

lemma release_steps: "alloc_steps r (fst (release_overview E now k c h r))"
proof (cases "\<exists>a. gget (fm_allocations r) k = Some a \<and> al_Status a = AllocationAuthorized")
  case True
  then show ?thesis
    by (auto simp: release_overview_authorized intro!: alloc_steps_store alloc_released)
qed (auto simp: release_overview_def split: option.split intro: alloc_steps_frame)

lemma exec_steps: "funds_inv r \<Longrightarrow> alloc_steps r (fst (funds_exec E now c r))"
  by (cases c)
    (auto simp: exec_repo open_account_allocations funding_allocations reverse_allocations authorize_steps
      svc_capture_overview_def svc_release_overview_def capture_claim_ok_def
      intro: alloc_steps_frame capture_steps release_steps)

section \<open>Retries\<close>

lemma alloc_steps_identity:
  "alloc_steps r r' \<Longrightarrow> \<exists>a. gget (fm_allocations r) k = Some a \<and> allocation_identity a = x \<Longrightarrow>
   \<exists>a. gget (fm_allocations r') k = Some a \<and> allocation_identity a = x"
  using alloc_step_identity unfolding alloc_steps_def by blast

lemma store_allocation_get: "gget (fm_allocations (store_allocation k a r)) k = Some a"
  by (simp add: store_allocation_def)

text \<open>One step of any client: any service call at any time.\<close>

definition funds_env_step :: "funds_env \<Rightarrow> funds_repo \<Rightarrow> funds_repo \<Rightarrow> bool" where
  "funds_env_step E r r' \<longleftrightarrow> (\<exists>now c. r' = fst (funds_exec E now c r))"

lemma env_steps: "funds_inv r \<Longrightarrow> funds_env_step E r r' \<Longrightarrow> alloc_steps r r'"
  by (auto simp: funds_env_step_def intro: exec_steps)

lemma env_inv: "funds_inv r \<Longrightarrow> funds_env_step E r r' \<Longrightarrow> funds_inv r'"
  using funds_exec_safe by (auto simp: funds_env_step_def)

text \<open>The validation of a request that does not depend on the clock.\<close>

definition capture_request_ok :: "string \<Rightarrow> overview_capture \<Rightarrow> bool" where
  "capture_request_ok k claim \<longleftrightarrow> \<not> (blank k \<or> blank (oc_TaskID claim) \<or> \<not> valid_digest (oc_TaskSpecHash claim) \<or>
     oc_MatchRevision claim < 1 \<or> blank (oc_LogicalExecutionID claim) \<or> blank (oc_AgentID claim) \<or>
     \<not> valid_digest (oc_QuoteHash claim) \<or> \<not> valid_digest (oc_ContentHash claim) \<or>
     \<not> valid_money (oc_OverviewAmount claim) \<or> \<not> valid_money (oc_UsedCost claim))"

lemma svc_capture_overview_eq:
  "svc_capture_overview E now k claim r = (if capture_request_ok k claim
     then capture_overview E now k claim (hash_json E (HCapture claim)) r else (r, Inl FErrInvalidInput))"
  by (simp add: svc_capture_overview_def capture_request_ok_def)

lemma capture_request_claim: "capture_request_ok k claim \<Longrightarrow> capture_claim_ok claim"
  by (simp add: capture_request_ok_def capture_claim_ok_def)

definition capture_settled :: "funds_env \<Rightarrow> string \<times> overview_capture \<Rightarrow> funds_repo \<Rightarrow> bool" where
  "capture_settled E q r \<longleftrightarrow> capture_request_ok (fst q) (snd q) \<and>
     (\<exists>a. gget (fm_allocations r) (fst q) = Some a \<and> al_Status a = AllocationCaptured \<and>
        al_CaptureClaimHash a = hash_json E (HCapture (snd q)))"

lemma alloc_stays_final:
  assumes "alloc_steps r r'" "gget (fm_allocations r) k = Some a" "al_Status a \<noteq> AllocationAuthorized"
  shows "gget (fm_allocations r') k = Some a"
  using assms alloc_step_final unfolding alloc_steps_def by blast

lemma capture_overview_result:
  assumes "funds_inv r" "capture_claim_ok claim" "capture_overview E now k claim h r = (r', Inr (al, False))"
  shows "\<exists>a jid. gget (fm_allocations r) k = Some a \<and> al_Status a = AllocationAuthorized \<and>
    al = captured_allocation a claim h jid now \<and> gget (fm_allocations r') k = Some al"
proof (cases "\<exists>a. gget (fm_allocations r) k = Some a \<and> al_Status a = AllocationAuthorized")
  case True
  then obtain a where a: "gget (fm_allocations r) k = Some a" "al_Status a = AllocationAuthorized" by blast
  from assms(3) show ?thesis
    unfolding capture_overview_authorized [OF assms(1,2) a]
    using a by (auto simp: store_allocation_def split: if_splits sum.splits)
next
  case False
  with assms(3) show ?thesis by (auto simp: capture_overview_def split: option.splits if_splits)
qed

interpretation capture: replay_safe "\<lambda>now q. svc_capture_overview E now (fst q) (snd q)" funds_inv
    "funds_env_step E" "capture_settled E" "\<lambda>now q. True" for E
proof
  fix r r' now q a
  assume inv: "funds_inv r" and s: "svc_capture_overview E now (fst q) (snd q) r = (r', Inr (a, False))"
  then have ok: "capture_request_ok (fst q) (snd q)" by (auto simp: svc_capture_overview_eq split: if_splits)
  with s capture_overview_result [OF inv capture_request_claim [OF ok]] show "capture_settled E q r'"
    by (fastforce simp: svc_capture_overview_eq capture_settled_def captured_allocation_def)
next
  fix r r' q
  assume "funds_inv r" "capture_settled E q r" "funds_env_step E r r'"
  then show "capture_settled E q r'"
    using alloc_stays_final [OF env_steps] unfolding capture_settled_def by fastforce
next
  fix r now q
  assume "capture_settled E q r"
  then show "\<exists>a. svc_capture_overview E now (fst q) (snd q) r = (r, Inr (a, True))"
    by (auto simp: capture_settled_def svc_capture_overview_eq capture_overview_def)
next
  fix r now q assume "funds_inv r"
  then show "funds_inv (fst (svc_capture_overview E now (fst q) (snd q) r))"
    using svc_capture_overview_safe by (auto simp: safe_call_def)
qed (rule env_inv)

definition release_settled :: "funds_env \<Rightarrow> string \<times> string \<Rightarrow> funds_repo \<Rightarrow> bool" where
  "release_settled E q r \<longleftrightarrow> \<not> blank (fst q) \<and> safe_code (snd q) \<and>
     (\<exists>a. gget (fm_allocations r) (fst q) = Some a \<and> al_Status a = AllocationReleased \<and> al_ReleaseReasonCode a = snd q)"

interpretation release: replay_safe "\<lambda>now q. svc_release_overview E now (fst q) (snd q)" funds_inv
    "funds_env_step E" "release_settled E" "\<lambda>now q. True" for E
proof
  fix r r' now q a
  assume "svc_release_overview E now (fst q) (snd q) r = (r', Inr (a, False))"
  then show "release_settled E q r'"
    by (auto simp: svc_release_overview_def release_overview_def release_settled_def store_allocation_def Let_def
        split: if_splits option.splits)
next
  fix r r' q
  assume "funds_inv r" "release_settled E q r" "funds_env_step E r r'"
  then show "release_settled E q r'"
    using alloc_stays_final [OF env_steps] unfolding release_settled_def by fastforce
next
  fix r now q
  assume "release_settled E q r"
  then show "\<exists>a. svc_release_overview E now (fst q) (snd q) r = (r, Inr (a, True))"
    by (auto simp: release_settled_def svc_release_overview_def release_overview_def)
next
  fix r now q assume "funds_inv r"
  then show "funds_inv (fst (svc_release_overview E now (fst q) (snd q) r))"
    using svc_release_overview_safe by (auto simp: safe_call_def)
qed (rule env_inv)

definition authorize_request_ok :: "overview_authorization \<Rightarrow> bool" where
  "authorize_request_ok q \<longleftrightarrow> \<not> (blank (oa_IdempotencyKey q) \<or> blank (oa_TaskID q) \<or>
     \<not> valid_digest (oa_TaskSpecHash q) \<or> \<not> valid_digest (oa_SnapshotID q) \<or>
     oa_MatchRevision q < 1 \<or> blank (oa_AgentID q) \<or> oa_PriceVersion q < 1 \<or>
     \<not> valid_digest (oa_QuoteHash q) \<or> \<not> valid_money (oa_OverviewPrice q) \<or> \<not> valid_money (oa_ExternalCostCap q))"

definition reserve_amount :: "overview_authorization \<Rightarrow> string" where
  "reserve_amount q = bigint_string (money_int (oa_OverviewPrice q) + money_int (oa_ExternalCostCap q))"

lemma svc_authorize_overview_eq:
  "svc_authorize_overview E now q r = (if authorize_request_ok q \<and> oa_Deadline q > now
     then authorize_overview (new_allocation E now q (reserve_amount q)) r else (r, Inl FErrInvalidInput))"
  by (auto simp: svc_authorize_overview_def authorize_request_ok_def reserve_amount_def add_money_amount valid_money_is_amount)

definition authorize_settled :: "funds_env \<Rightarrow> overview_authorization \<Rightarrow> funds_repo \<Rightarrow> bool" where
  "authorize_settled E q r \<longleftrightarrow> authorize_request_ok q \<and>
     (\<exists>a. gget (fm_allocations r) (al_ID (new_allocation E 0 q (reserve_amount q))) = Some a \<and>
        allocation_identity a = allocation_identity (new_allocation E 0 q (reserve_amount q)))"

lemma new_allocation_at:
  "al_ID (new_allocation E now q v) = al_ID (new_allocation E 0 q v)"
  "allocation_identity (new_allocation E now q v) = allocation_identity (new_allocation E 0 q v)"
  by (simp_all add: new_allocation_def allocation_identity_def)

interpretation authorize: replay_safe "svc_authorize_overview E" funds_inv
    "funds_env_step E" "authorize_settled E" "\<lambda>now q. now < oa_Deadline q" for E
proof
  fix r r' now q a
  let ?d = "new_allocation E now q (reserve_amount q)"
  assume inv: "funds_inv r" and "svc_authorize_overview E now q r = (r', Inr (a, False))"
  then have ok: "authorize_request_ok q" and s: "authorize_overview ?d r = (r', Inr (a, False))"
    by (auto simp: svc_authorize_overview_eq split: if_splits)
  then have new: "gget (fm_allocations r) (al_ID ?d) = None"
    by (cases "gget (fm_allocations r) (al_ID ?d)") (auto simp: authorize_overview_replay split: if_splits)
  have "is_amount (al_ReserveAmount ?d)" by (simp add: new_allocation_def reserve_amount_def)
  then obtain x :: account where "a = ?d\<lparr>al_AccountID := acct_ID x\<rparr>" "r' = store_allocation (al_ID ?d) a r"
    by (rule authorize_overview_new [OF inv new _ s]) blast
  moreover have "allocation_identity (d\<lparr>al_AccountID := v\<rparr>) = allocation_identity d" for d v
    by (simp add: allocation_identity_def)
  ultimately have "gget (fm_allocations r') (al_ID ?d) = Some a" "allocation_identity a = allocation_identity ?d"
    by (simp_all only: store_allocation_get)
  with ok show "authorize_settled E q r'" by (simp add: authorize_settled_def new_allocation_at [of E now])
next
  fix r r' q
  assume "funds_inv r" "authorize_settled E q r" "funds_env_step E r r'"
  then show "authorize_settled E q r'"
    unfolding authorize_settled_def using alloc_steps_identity [OF env_steps] by blast
next
  fix r now q
  assume "authorize_settled E q r" "now < oa_Deadline q"
  then show "\<exists>a. svc_authorize_overview E now q r = (r, Inr (a, True))"
    by (auto simp: authorize_settled_def svc_authorize_overview_eq authorize_overview_replay same_allocation_identity_def
        new_allocation_at [of E now])
next
  fix r now q assume "funds_inv r"
  then show "funds_inv (fst (svc_authorize_overview E now q r))"
    using svc_authorize_overview_safe by (auto simp: safe_call_def)
qed (rule env_inv)

text \<open>
  The adapter between overview orchestration and the ledger (\<open>internal/funds/overview_gateway.go\<close>), with
  the three structs of \<open>internal/overview/types.go\<close> that cross the boundary. The interface there asks
  that authorize, capture and release are each replay-safe; the interpretations discharge it.
\<close>

record allocation_request =
  ar_IdempotencyKey :: string
  ar_TaskID :: string
  ar_TaskSpecHash :: string
  ar_SnapshotID :: string
  ar_MatchRevision :: int
  ar_AgentID :: string
  ar_PriceVersion :: int
  ar_QuoteHash :: string
  ar_OverviewPrice :: string
  ar_ExternalCostCap :: string
  ar_Deadline :: gotime

record overview_allocation =
  oal_ID :: string
  oal_CostCap :: string
  oal_Deadline :: gotime

record billing_claim =
  bc_TaskID :: string
  bc_TaskSpecHash :: string
  bc_MatchRevision :: int
  bc_LogicalExecutionID :: string
  bc_AgentID :: string
  bc_QuoteHash :: string
  bc_ContentHash :: string
  bc_Amount :: string
  bc_UsedCost :: string

definition to_authorization :: "allocation_request \<Rightarrow> overview_authorization" where
  "to_authorization q = \<lparr>oa_IdempotencyKey = ar_IdempotencyKey q, oa_TaskID = ar_TaskID q,
     oa_TaskSpecHash = ar_TaskSpecHash q, oa_SnapshotID = ar_SnapshotID q,
     oa_MatchRevision = ar_MatchRevision q, oa_AgentID = ar_AgentID q,
     oa_PriceVersion = ar_PriceVersion q, oa_QuoteHash = ar_QuoteHash q,
     oa_OverviewPrice = ar_OverviewPrice q, oa_ExternalCostCap = ar_ExternalCostCap q,
     oa_Deadline = ar_Deadline q\<rparr>"

definition to_capture :: "billing_claim \<Rightarrow> overview_capture" where
  "to_capture c = \<lparr>oc_TaskID = bc_TaskID c, oc_TaskSpecHash = bc_TaskSpecHash c,
     oc_MatchRevision = bc_MatchRevision c, oc_LogicalExecutionID = bc_LogicalExecutionID c,
     oc_AgentID = bc_AgentID c, oc_QuoteHash = bc_QuoteHash c, oc_ContentHash = bc_ContentHash c,
     oc_OverviewAmount = bc_Amount c, oc_UsedCost = bc_UsedCost c\<rparr>"

definition gateway_authorize ::
    "funds_env \<Rightarrow> gotime \<Rightarrow> allocation_request \<Rightarrow> funds_repo \<Rightarrow> funds_repo \<times> (funds_error + overview_allocation \<times> bool)" where
  "gateway_authorize E now q r =
     (case svc_authorize_overview E now (to_authorization q) r of
        (r', Inl e) \<Rightarrow> (r', Inl e)
      | (r', Inr (a, replay)) \<Rightarrow>
          (r', Inr (\<lparr>oal_ID = al_ID a, oal_CostCap = al_CostCap a, oal_Deadline = al_Deadline a\<rparr>, replay)))"

definition gateway_capture ::
    "funds_env \<Rightarrow> gotime \<Rightarrow> string \<Rightarrow> billing_claim \<Rightarrow> funds_repo \<Rightarrow> funds_repo \<times> (funds_error + unit \<times> bool)" where
  "gateway_capture E now allocationID claim r =
     (case svc_capture_overview E now allocationID (to_capture claim) r of
        (r', Inl e) \<Rightarrow> (r', Inl e)
      | (r', Inr (_, replay)) \<Rightarrow> (r', Inr ((), replay)))"

definition gateway_release ::
    "funds_env \<Rightarrow> gotime \<Rightarrow> string \<Rightarrow> string \<Rightarrow> funds_repo \<Rightarrow> funds_repo \<times> (funds_error + unit \<times> bool)" where
  "gateway_release E now allocationID reasonCode r =
     (case svc_release_overview E now allocationID reasonCode r of
        (r', Inl e) \<Rightarrow> (r', Inl e)
      | (r', Inr (_, replay)) \<Rightarrow> (r', Inr ((), replay)))"

text \<open>The three calls are adapters, so they inherit the contract.\<close>

lemma gateway_adapts:
  "gateway_authorize E now q r = adapt (\<lambda>a. \<lparr>oal_ID = al_ID a, oal_CostCap = al_CostCap a, oal_Deadline = al_Deadline a\<rparr>)
     (svc_authorize_overview E now (to_authorization q) r)"
  "gateway_capture E now k claim r = adapt (\<lambda>_. ()) (svc_capture_overview E now k (to_capture claim) r)"
  "gateway_release E now k c r = adapt (\<lambda>_. ()) (svc_release_overview E now k c r)"
  by (auto simp: gateway_authorize_def gateway_capture_def gateway_release_def adapt_def split: prod.split sum.split)

interpretation gw_authorize: replay_safe "gateway_authorize E" funds_inv "funds_env_step E"
    "\<lambda>q. authorize_settled E (to_authorization q)" "\<lambda>now q. now < ar_Deadline q" for E
  using authorize.adapted [of _ E to_authorization] by (simp add: gateway_adapts [abs_def] to_authorization_def)

interpretation gw_capture: replay_safe "\<lambda>now q. gateway_capture E now (fst q) (snd q)" funds_inv "funds_env_step E"
    "\<lambda>q. capture_settled E (fst q, to_capture (snd q))" "\<lambda>now q. True" for E
  using capture.adapted [of _ E "\<lambda>q. (fst q, to_capture (snd q))"] by (simp add: gateway_adapts [abs_def])

interpretation gw_release: replay_safe "\<lambda>now q. gateway_release E now (fst q) (snd q)" funds_inv "funds_env_step E"
    "release_settled E" "\<lambda>now q. True" for E
  using release.adapted [of _ E id] by (simp add: gateway_adapts [abs_def])

end
