(* ===== verification/Funds_Properties.thy ===== *)
theory Funds_Properties
  imports Funds_Lifecycle
begin

text \<open>The properties of the funds component, each with a concrete history that meets its hypotheses.\<close>

section \<open>A concrete history\<close>

definition demo_env :: funds_env where
  "demo_env = \<lparr>fe_sha = (\<lambda>s. s), fe_json = (\<lambda>p. case p of
      HFunding q \<Rightarrow> CHR ''F'' # fr_IdempotencyKey q
    | HAuthorization q \<Rightarrow> CHR ''A'' # oa_IdempotencyKey q
    | HCapture q \<Rightarrow> CHR ''C'' # oc_LogicalExecutionID q
    | HRelease i c \<Rightarrow> CHR ''R'' # c
    | HReverse q \<Rightarrow> CHR ''V'' # rr_IdempotencyKey q), fe_asset = ''usdc''\<rparr>"

definition demo_digest :: string where
  "demo_digest = ''sha256:'' @ replicate 64 CHR ''a''"

definition demo_open :: open_account_request where
  "demo_open = \<lparr>oar_Type = AccountDiscoveryPool, oar_TaskID = ''t1'', oar_ReferenceID = ''t1'', oar_Asset = ''usdc'',
     oar_PrincipalOwnerID = ''p'', oar_ResidualRecipientID = ''p'', oar_RefundPolicyVersion = ''v1''\<rparr>"

definition demo_fund :: funding_request where
  "demo_fund = \<lparr>fr_IdempotencyKey = ''k1'', fr_AccountID = account_key demo_env demo_open, fr_Amount = ''100'', fr_ExternalRef = ''x''\<rparr>"

definition demo_auth :: overview_authorization where
  "demo_auth = \<lparr>oa_IdempotencyKey = ''a1'', oa_TaskID = ''t1'', oa_TaskSpecHash = demo_digest, oa_SnapshotID = demo_digest,
     oa_MatchRevision = 1, oa_AgentID = ''g'', oa_PriceVersion = 1, oa_QuoteHash = demo_digest,
     oa_OverviewPrice = ''60'', oa_ExternalCostCap = ''20'', oa_Deadline = 1000\<rparr>"

definition demo_claim :: overview_capture where
  "demo_claim = \<lparr>oc_TaskID = ''t1'', oc_TaskSpecHash = demo_digest, oc_MatchRevision = 1, oc_LogicalExecutionID = ''e1'',
     oc_AgentID = ''g'', oc_QuoteHash = demo_digest, oc_ContentHash = demo_digest, oc_OverviewAmount = ''60'', oc_UsedCost = ''15''\<rparr>"

definition demo_alloc_id :: string where
  "demo_alloc_id = stable_id (fe_sha demo_env) [''fund-allocation'', ''a1'', LedgerVersion]"

definition demo_journal_id :: string where
  "demo_journal_id = stable_id (fe_sha demo_env) [''fund-journal'', ''k1'', LedgerVersion]"

definition demo_reverse :: reverse_request where
  "demo_reverse = \<lparr>rr_IdempotencyKey = ''k2'', rr_JournalID = demo_journal_id, rr_ReasonCode = ''refund''\<rparr>"

definition demo_history :: "(gotime \<times> funds_cmd) list" where
  "demo_history = [(1, COpen demo_open), (2, CFund demo_fund), (3, CAuthorize demo_auth)]"

definition demo_repo :: funds_repo where
  "demo_repo = funds_run demo_env demo_history new_memory_repository"

text \<open>Identifiers of the demo are equal exactly when their parts are.\<close>

lemma demo_id_inject:
  "list_all (\<lambda>p. length p < 2 ^ 32) ps \<Longrightarrow> list_all (\<lambda>p. length p < 2 ^ 32) qs \<Longrightarrow>
   stable_id (fe_sha demo_env) ps = stable_id (fe_sha demo_env) qs \<longleftrightarrow> ps = qs"
  by (rule stable_id_inject) (simp_all add: no_collision_def demo_env_def)

lemma length_demo_id: "length (stable_id (fe_sha demo_env) ps) = 7 + 2 * sum_list (map (\<lambda>p. 4 + length p) ps)"
proof -
  have "length (concat (map (len_field 4) ps)) = sum_list (map (\<lambda>p. 4 + length p) ps)"
    by (induction ps) (simp_all add: len_field_def)
  then show ?thesis by (simp add: stable_id_def demo_env_def sha_string_def length_hex_encode)
qed

lemma demo_id_nonblank: "\<not> blank (stable_id (fe_sha demo_env) ps)"
  by (simp add: stable_id_def sha_string_def not_blank_Cons printable_def)

lemma demo_strings:
  "\<not> blank ''t1''" "\<not> blank ''p''" "\<not> blank ''k1''" "\<not> blank ''k2''" "\<not> blank ''a1''" "\<not> blank ''e1''" "\<not> blank ''g''" "\<not> blank ''x''"
  by (simp_all add: not_blank_Cons printable_def)

lemma demo_codes: "safe_code ''v1''" "safe_code ''refund''" "valid_asset ''usdc''"
  by (simp_all add: safe_code_def valid_asset_def safe_asset_def char_between_def to_lower_def char_lower_def)

lemma demo_digest_valid: "valid_digest demo_digest"
  by (simp add: demo_digest_def valid_digest_def has_prefix_def hex_decodable_def is_hex_def char_between_def list_all_iff)

lemma demo_money: "positive_money ''100''" "valid_money ''60''" "valid_money ''20''" "valid_money ''15''"
  by (simp_all add: positive_money_def valid_money_canonical canonical_digits_def char_between_def)

lemma demo_parse: "bigint_parse ''0'' = Some 0" "bigint_parse ''100'' = Some 100" "bigint_parse ''60'' = Some 60"
  "bigint_parse ''20'' = Some 20" "bigint_parse ''15'' = Some 15"
  by (simp_all add: bigint_parse_def digits_parse_def nat_of_digits_def digit_val_def char_between_def)

lemma bigint_string_zero_iff: "bigint_string i = ''0'' \<longleftrightarrow> i = 0"
  using bigint_string_inject [of i 0] by (simp del: bigint_string_inject)

lemmas demo_eval = demo_strings demo_codes demo_digest_valid demo_money demo_parse demo_id_nonblank bigint_string_zero_iff

abbreviation demo_pool_id :: string where "demo_pool_id \<equiv> account_key demo_env demo_open"
abbreviation demo_control_id :: string where "demo_control_id \<equiv> control_key demo_env ''usdc''"

definition demo_pool :: "string \<Rightarrow> gotime \<Rightarrow> account" where
  "demo_pool balance updated = \<lparr>acct_ID = demo_pool_id, acct_Type = AccountDiscoveryPool, acct_TaskID = ''t1'',
     acct_ReferenceID = ''t1'', acct_Asset = ''usdc'', acct_PrincipalOwnerID = ''p'', acct_ResidualRecipientID = ''p'',
     acct_RefundPolicyVersion = ''v1'', acct_State = AccountOpen, acct_Balance = balance, acct_CreatedAt = 1, acct_UpdatedAt = updated\<rparr>"

lemma demo_pool_neq_control: "demo_pool_id \<noteq> demo_control_id" "demo_control_id \<noteq> demo_pool_id"
  by (simp_all add: account_key_def control_key_def demo_id_inject demo_open_def)

lemma demo_opened: "fst (funds_exec demo_env 1 (COpen demo_open) new_memory_repository) =
    new_memory_repository\<lparr>fm_accounts := [(demo_pool_id, demo_pool ''0'' 1)]\<rparr>"
  by (simp add: svc_open_account_def open_account_def demo_eval demo_open_def business_account_type_def
      new_memory_repository_def account_key_def demo_pool_def gput_def)

lemma demo_keys_nonblank: "\<not> blank (account_key demo_env q)" "\<not> blank demo_alloc_id" "\<not> blank demo_journal_id"
  by (simp_all add: account_key_def demo_alloc_id_def demo_journal_id_def demo_id_nonblank)

definition demo_control :: "string \<Rightarrow> account" where
  "demo_control balance = zero_account\<lparr>acct_ID := demo_control_id, acct_Type := AccountFundingControl,
     acct_ReferenceID := ''usdc'', acct_Asset := ''usdc'', acct_State := AccountOpen, acct_Balance := balance,
     acct_CreatedAt := 2, acct_UpdatedAt := 2\<rparr>"

definition demo_funded :: funds_repo where
  "demo_funded = \<lparr>fm_accounts = [(demo_pool_id, demo_pool (bigint_string 100) 2), (demo_control_id, demo_control (bigint_string (-100)))],
     fm_allocations = [], fm_journals = [(demo_journal_id, funding_journal demo_env 2 (demo_pool ''0'' 1) demo_fund)],
     fm_journalKeys = [(''k1'', demo_journal_id)], fm_reversals = []\<rparr>"

lemma demo_fund_step: "fst (funds_exec demo_env 2 (CFund demo_fund)
     (new_memory_repository\<lparr>fm_accounts := [(demo_pool_id, demo_pool ''0'' 1)]\<rparr>)) = demo_funded"
  by (simp add: svc_record_funding_def demo_fund_def demo_eval get_account_def gget_def post_funding_def journal_replay_def
      new_memory_repository_def demo_keys_nonblank funding_journal_def demo_funded_def demo_pool_def demo_control_def zero_account_def
      demo_pool_neq_control control_key_def [symmetric] business_account_type_def Let_def gput_def post_journal_def
      add_money_def subtract_money_def compare_money_def apply_entry_def put_all_def demo_journal_id_def)

definition demo_allocation :: allocation where
  "demo_allocation = (new_allocation demo_env 3 demo_auth (bigint_string 80))\<lparr>al_AccountID := demo_pool_id\<rparr>"

lemma demo_asset: "fe_asset demo_env = ''usdc''"
  by (simp add: demo_env_def)

lemma demo_repo_value: "demo_repo = demo_funded\<lparr>fm_allocations := [(demo_alloc_id, demo_allocation)]\<rparr>"
proof -
  have "demo_repo = fst (funds_exec demo_env 3 (CAuthorize demo_auth) demo_funded)"
    unfolding demo_repo_def demo_history_def funds_run.simps demo_opened demo_fund_step ..
  also have "\<dots> = demo_funded\<lparr>fm_allocations := [(demo_alloc_id, demo_allocation)]\<rparr>"
    by (simp add: svc_authorize_overview_def demo_auth_def demo_eval add_money_def authorize_overview_def new_allocation_def
        demo_funded_def demo_pool_def demo_control_def zero_account_def gvals_def compare_money_def
        demo_alloc_id_def [symmetric] demo_allocation_def gput_def demo_asset Let_def)
  finally show ?thesis .
qed

definition demo_reversed :: funds_repo where
  "demo_reversed = fst (funds_exec demo_env 4 (CReverse demo_reverse) demo_repo)"

lemma demo_reversed_accounts:
  "fm_accounts demo_reversed = [(demo_pool_id, demo_pool ''0'' 4), (demo_control_id, (demo_control ''0'')\<lparr>acct_UpdatedAt := 4\<rparr>)]"
  "fm_allocations demo_reversed = [(demo_alloc_id, demo_allocation)]"
  by (simp_all add: demo_reversed_def svc_reverse_journal_def demo_reverse_def demo_eval demo_keys_nonblank get_journal_def
      demo_repo_value demo_funded_def gget_def reverse_journal_def journal_replay_def reversal_journal_def
      post_journal_def funding_journal_def demo_fund_def demo_pool_def demo_control_def zero_account_def control_key_def [symmetric]
      demo_pool_neq_control add_money_def subtract_money_def compare_money_def apply_entry_def put_all_def
      business_account_type_def Let_def gput_def demo_journal_id_def [symmetric])

lemma demo_claim_ok: "capture_request_ok demo_alloc_id demo_claim"
  by (simp add: capture_request_ok_def demo_keys_nonblank demo_claim_def demo_eval)

lemma demo_inv: "funds_inv demo_repo" "funds_reachable demo_env (\<lambda>_. True) demo_repo" "funds_inv demo_reversed"
proof -
  show r: "funds_reachable demo_env (\<lambda>_. True) demo_repo"
    unfolding demo_repo_def by (intro funds_reachable_run funds_start) (simp add: demo_history_def)
  then show "funds_inv demo_repo" by (rule funds_reachable_inv)
  then show "funds_inv demo_reversed" unfolding demo_reversed_def using funds_exec_safe by blast
qed

lemma demo_allocation_facts:
  "al_Status demo_allocation = AllocationAuthorized" "\<not> capture_mismatch demo_allocation demo_claim"
  "al_CostCap demo_allocation = ''20''" "al_AccountID demo_allocation = demo_pool_id" "al_Asset demo_allocation = ''usdc''"
  "al_ID demo_allocation = demo_alloc_id" "al_ReserveAmount demo_allocation = bigint_string 80"
  "al_TaskID demo_allocation = ''t1''" "al_UpdatedAt demo_allocation = 3"
  by (simp_all add: demo_allocation_def new_allocation_def demo_auth_def demo_claim_def capture_mismatch_def demo_asset demo_alloc_id_def)

lemma demo_money_int: "money_int ''0'' = 0" "money_int ''100'' = 100" "money_int ''60'' = 60" "money_int ''20'' = 20" "money_int ''15'' = 15"
  by (simp_all add: money_int_def demo_parse)

abbreviation demo_agent_id :: string where "demo_agent_id \<equiv> agent_account_id demo_env demo_allocation demo_claim"
abbreviation demo_cost_id :: string where "demo_cost_id \<equiv> cost_account_id demo_env demo_allocation"

lemma demo_system_ids:
  "demo_agent_id \<noteq> demo_pool_id" "demo_agent_id \<noteq> demo_control_id" "demo_cost_id \<noteq> demo_pool_id"
  "demo_cost_id \<noteq> demo_control_id" "demo_cost_id \<noteq> demo_agent_id"
  by (simp_all add: agent_account_id_def cost_account_id_def account_key_def control_key_def demo_id_inject demo_allocation_facts
      demo_open_def demo_claim_def demo_alloc_id_def length_demo_id)

lemma demo_claim_amounts: "oc_OverviewAmount demo_claim = ''60''" "oc_UsedCost demo_claim = ''15''"
  by (simp_all add: demo_claim_def)

text \<open>After the reversal the pool is empty, and the capture of the authorized allocation fails.\<close>

lemma demo_capture_fails:
  "snd (svc_capture_overview demo_env 5 demo_alloc_id demo_claim demo_reversed) = Inl FErrInsufficient"
proof -
  have a: "gget (fm_allocations demo_reversed) demo_alloc_id = Some demo_allocation"
    by (simp add: demo_reversed_accounts gget_def)
  have "post_journal (capture_journal demo_env demo_allocation demo_claim h (capture_total demo_claim) 5)
      (capture_accounts demo_env demo_allocation demo_claim demo_reversed) = Inl FErrInsufficient" for h
    by (simp add: post_journal_def capture_journal_def capture_entries_def capture_accounts_def capture_total_def
        demo_claim_amounts demo_money_int ensure_system_account_def demo_reversed_accounts gget_def demo_system_ids demo_system_ids [THEN not_sym] Let_def zero_account_def
        gput_def demo_allocation_facts add_money_def demo_parse subtract_money_def compare_money_def apply_entry_def
        positive_money_bound demo_money demo_pool_def business_account_type_def positive_money_def valid_money_bound bigint_string_zero_iff)
  then show ?thesis
    unfolding svc_capture_overview_eq capture_overview_authorized [OF demo_inv(3) capture_request_claim [OF demo_claim_ok] a demo_allocation_facts(1)]
    using demo_claim_ok demo_allocation_facts
    by (simp add: demo_claim_amounts demo_money_int capture_total_def bigint_string_zero_iff)
qed

section \<open>The ledger\<close>

text \<open>
  C1: Double entry. After any sequence of service calls at any times, the balances of the accounts of
  an asset sum to zero: no call creates or destroys money, whether it succeeds or fails.
\<close>
theorem ledger_conserved:
  assumes "funds_reachable E allowed r"
  shows "asset_total s (fm_accounts r) = 0"
  using funds_reachable_inv [OF assms] by (simp add: funds_inv_def)

theorem ledger_conserved_witness:
  "asset_total ''usdc'' (fm_accounts demo_repo) = 0 \<and> balances demo_repo demo_pool_id = Some 100 \<and>
   balances demo_repo demo_control_id = Some (-100)"
  using ledger_conserved [OF demo_inv(2), of "''usdc''"]
  by (simp add: demo_repo_value demo_funded_def balances_def gget_def demo_pool_neq_control demo_pool_def demo_control_def zero_account_def)

text \<open>
  C22: No overdraft and no panic. In a reachable repository no business account is negative, and no
  service call panics on an amount that does not parse.
\<close>
theorem no_overdraft_no_panic:
  assumes "funds_reachable E allowed r"
  shows "(gget (fm_accounts r) k = Some a \<and> business_account_type (acct_Type a) \<longrightarrow> 0 \<le> money_int (acct_Balance a)) \<and>
    snd (funds_exec E now c r) \<noteq> Some FPanic"
  using funds_reachable_inv [OF assms] funds_exec_safe [of r E now c]
  by (auto simp: funds_inv_def accounts_ok_def account_ok_def)

theorem no_overdraft_no_panic_witness:
  "0 \<le> money_int (acct_Balance (demo_pool (bigint_string 100) 2)) \<and>
   snd (funds_exec demo_env 5 (CCapture demo_alloc_id demo_claim) demo_repo) \<noteq> Some FPanic"
  using no_overdraft_no_panic [OF demo_inv(2), of demo_pool_id "demo_pool (bigint_string 100) 2" 5 "CCapture demo_alloc_id demo_claim"]
  by (simp add: demo_repo_value demo_funded_def gget_def demo_pool_def business_account_type_def)

text \<open>
  C24: A posted journal adds to every account the net amount of the journal's entries for it, and
  changes the balance of no other account: \<open>postJournal\<close> refines the abstract ledger.
\<close>
theorem post_journal_refines:
  assumes "funds_reachable E allowed r" "post_journal j r = Inr r'"
  shows "balances r' = post_spec (jr_Entries j) (balances r)"
proof
  fix k
  have "accounts_ok (fm_accounts r)" using funds_reachable_inv [OF assms(1)] by (simp add: funds_inv_def)
  from post_journal_effect(4) [OF assms(2) this, of k] show "balances r' k = post_spec (jr_Entries j) (balances r) k"
    by (auto simp: balances_def post_spec_def split: option.splits)
qed

abbreviation demo_funding :: journal where
  "demo_funding \<equiv> funding_journal demo_env 2 (demo_pool ''0'' 1) demo_fund"

lemma demo_reversal_posts:
  "\<exists>r'. post_journal (reversal_journal demo_env 4 demo_funding demo_reverse) demo_repo = Inr r'"
  by (simp add: demo_reverse_def demo_repo_value demo_funded_def gget_def reversal_journal_def
      post_journal_def funding_journal_def demo_fund_def demo_pool_def demo_control_def zero_account_def control_key_def [symmetric]
      demo_pool_neq_control add_money_def subtract_money_def compare_money_def apply_entry_def put_all_def
      business_account_type_def Let_def gput_def demo_journal_id_def [symmetric] demo_eval)

theorem post_journal_refines_witness:
  "\<exists>r'. post_journal (reversal_journal demo_env 4 demo_funding demo_reverse) demo_repo = Inr r' \<and>
     balances r' demo_pool_id = Some 0"
proof -
  obtain r' where r': "post_journal (reversal_journal demo_env 4 demo_funding demo_reverse) demo_repo = Inr r'"
    using demo_reversal_posts by blast
  have "balances r' demo_pool_id = Some 0"
    unfolding post_journal_refines [OF demo_inv(2) r']
    by (simp add: post_spec_def balances_def demo_repo_value demo_funded_def gget_def demo_pool_neq_control demo_pool_def
        reversal_journal_def funding_journal_def demo_fund_def entry_delta_def control_key_def [symmetric] demo_money_int)
  with r' show ?thesis by blast
qed

section \<open>Reserves and captures\<close>

text \<open>
  C5: Reserve discipline. In a history without reversals every discovery pool holds at least the sum of
  the reserves of its authorized allocations.
\<close>
theorem pools_cover_reserves:
  assumes "funds_reachable E (without_reversal Q) r" "separate E Q"
    and "gget (fm_accounts r) k = Some a" "acct_Type a = AccountDiscoveryPool"
  shows "reserved k r \<le> money_int (acct_Balance a)"
  using reserve_reachable [OF assms(1,2)] assms(3,4) by (auto simp: reserve_inv_def dest: coveredD)

lemma demo_separate: "separate demo_env {demo_open}"
proof -
  have "no_collision (fe_sha demo_env) x y" for x y by (simp add: no_collision_def demo_env_def)
  then show ?thesis by (simp add: separate_def)
qed

lemma demo_without_reversal: "funds_reachable demo_env (without_reversal {demo_open}) demo_repo"
  unfolding demo_repo_def by (intro funds_reachable_run funds_start) (simp add: demo_history_def)

lemma demo_pool_at: "gget (fm_accounts demo_repo) demo_pool_id = Some (demo_pool (bigint_string 100) 2)"
  by (simp add: demo_repo_value demo_funded_def gget_def)

theorem pools_cover_reserves_witness:
  "reserved demo_pool_id demo_repo \<le> 100 \<and> reserved demo_pool_id demo_repo = 80"
  using pools_cover_reserves [OF demo_without_reversal demo_separate demo_pool_at]
  by (simp add: demo_pool_def reserved_def gsum_def gvals_def demo_repo_value reserve_of_def demo_allocation_facts)

text \<open>
  C23: A valid capture of an authorized allocation succeeds: in a history without reversals, a claim that
  repeats the allocation's terms and stays within its cost cap is captured, whatever other allocations
  the pool carries. The two side conditions rule out 79-digit amounts and a system account identifier
  that is already an account of another asset.
\<close>
theorem capture_succeeds:
  assumes "funds_reachable E (without_reversal Q) r" "separate E Q" "capture_request_ok k claim"
    and "gget (fm_allocations r) k = Some a" "al_Status a = AllocationAuthorized"
    and "\<not> capture_mismatch a claim" "money_int (oc_UsedCost claim) \<le> money_int (al_CostCap a)"
    and "money_int (al_ReserveAmount a) < 10 ^ 78" "system_accounts_fit E a claim r"
  shows "\<exists>r' jid. svc_capture_overview E now k claim r =
    (r', Inr (captured_allocation a claim (hash_json E (HCapture claim)) jid now, False))"
  using capture_authorized_succeeds [OF _ _ capture_request_claim [OF assms(3)] assms(4-9)]
    reserve_reachable [OF assms(1,2)] assms(3)
  by (simp add: svc_capture_overview_eq reserve_inv_def)

lemma demo_allocation_at: "gget (fm_allocations demo_repo) demo_alloc_id = Some demo_allocation"
  by (simp add: demo_repo_value gget_def)

lemma demo_fit: "system_accounts_fit demo_env demo_allocation demo_claim demo_repo"
  by (simp add: system_accounts_fit_def demo_repo_value demo_funded_def gget_def demo_system_ids)

theorem capture_succeeds_witness:
  "\<exists>r' jid. svc_capture_overview demo_env 5 demo_alloc_id demo_claim demo_repo =
     (r', Inr (captured_allocation demo_allocation demo_claim (hash_json demo_env (HCapture demo_claim)) jid 5, False))"
  by (rule capture_succeeds [OF demo_without_reversal demo_separate demo_claim_ok demo_allocation_at demo_allocation_facts(1,2) _ _ demo_fit])
    (simp_all add: demo_allocation_facts demo_claim_amounts demo_money_int)

text \<open>
  C33: Reversals ignore reserves. \<open>ReverseJournal\<close> takes the funding of a pool back although an
  authorized allocation is reserved against it, and the capture that was sure to succeed then fails
  with \<open>ErrInsufficient\<close>.
\<close>
theorem reversal_breaks_capture:
  "(\<exists>r' al. svc_capture_overview demo_env 5 demo_alloc_id demo_claim demo_repo = (r', Inr (al, False))) \<and>
   snd (funds_exec demo_env 4 (CReverse demo_reverse) demo_repo) = None \<and>
   reserved demo_pool_id demo_reversed = 80 \<and> balances demo_reversed demo_pool_id = Some 0 \<and>
   snd (svc_capture_overview demo_env 5 demo_alloc_id demo_claim demo_reversed) = Inl FErrInsufficient"
proof (intro conjI)
  show "\<exists>r' al. svc_capture_overview demo_env 5 demo_alloc_id demo_claim demo_repo = (r', Inr (al, False))"
    using capture_authorized_succeeds [OF _ _ capture_request_claim [OF demo_claim_ok] demo_allocation_at demo_allocation_facts(1,2) _ _ demo_fit]
      reserve_reachable [OF demo_without_reversal demo_separate] demo_claim_ok
    by (fastforce simp: svc_capture_overview_eq reserve_inv_def demo_allocation_facts demo_claim_amounts demo_money_int)
  show "snd (funds_exec demo_env 4 (CReverse demo_reverse) demo_repo) = None"
    by (simp add: svc_reverse_journal_def demo_reverse_def demo_eval demo_keys_nonblank get_journal_def
      demo_repo_value demo_funded_def gget_def reverse_journal_def journal_replay_def reversal_journal_def
      post_journal_def funding_journal_def demo_fund_def demo_pool_def demo_control_def zero_account_def control_key_def [symmetric]
      demo_pool_neq_control add_money_def subtract_money_def compare_money_def apply_entry_def put_all_def
      business_account_type_def Let_def gput_def demo_journal_id_def [symmetric])
  show "reserved demo_pool_id demo_reversed = 80"
    by (simp add: reserved_def gsum_def gvals_def demo_reversed_accounts reserve_of_def demo_allocation_facts)
  show "balances demo_reversed demo_pool_id = Some 0"
    by (simp add: balances_def gget_def demo_reversed_accounts demo_pool_def)
qed (rule demo_capture_fails)

section \<open>Lifecycle and retries\<close>

text \<open>
  The life of an allocation. One service call leaves an allocation as it is, captures it within its
  terms, or releases it; captured and released allocations never change, and none disappears.
\<close>
theorem allocation_lifecycle:
  assumes "funds_reachable E allowed r" "gget (fm_allocations r) k = Some a"
  shows "\<exists>b. gget (fm_allocations (fst (funds_exec E now c r))) k = Some b \<and> alloc_step a b \<and>
    allocation_identity b = allocation_identity a \<and> (al_Status a \<noteq> AllocationAuthorized \<longrightarrow> b = a)"
  using exec_steps [OF funds_reachable_inv [OF assms(1)], of E now c] assms(2)
    alloc_step_identity alloc_step_final unfolding alloc_steps_def by blast

theorem allocation_lifecycle_witness:
  "\<exists>b. gget (fm_allocations (fst (funds_exec demo_env 6 (CRelease demo_alloc_id ''refund'') demo_repo))) demo_alloc_id = Some b \<and>
     alloc_step demo_allocation b"
  using allocation_lifecycle [OF demo_inv(2) demo_allocation_at] by blast

text \<open>
  A capture is charged once. After a capture succeeded, the same claim repeated after any calls of
  any clients is answered as a replay and changes nothing, through the overview gateway as well.
\<close>
theorem capture_charged_once:
  assumes "funds_reachable E allowed r" "gateway_capture E now k claim r = (r', Inr ((), False))"
    and "(funds_env_step E)\<^sup>*\<^sup>* r' r''"
  shows "gateway_capture E now' k claim r'' = (r'', Inr ((), True))"
  using gw_capture.retry [OF funds_reachable_inv [OF assms(1)], of E now "(k, claim)"] assms(2,3) by simp

definition demo_billing :: billing_claim where
  "demo_billing = \<lparr>bc_TaskID = ''t1'', bc_TaskSpecHash = demo_digest, bc_MatchRevision = 1, bc_LogicalExecutionID = ''e1'',
     bc_AgentID = ''g'', bc_QuoteHash = demo_digest, bc_ContentHash = demo_digest, bc_Amount = ''60'', bc_UsedCost = ''15''\<rparr>"

lemma demo_billing_claim: "to_capture demo_billing = demo_claim"
  by (simp add: to_capture_def demo_billing_def demo_claim_def)

lemma demo_gateway_capture: "\<exists>r'. gateway_capture demo_env 5 demo_alloc_id demo_billing demo_repo = (r', Inr ((), False))"
proof -
  obtain r' al where "svc_capture_overview demo_env 5 demo_alloc_id demo_claim demo_repo = (r', Inr (al, False))"
    using capture_authorized_succeeds [OF _ _ capture_request_claim [OF demo_claim_ok] demo_allocation_at demo_allocation_facts(1,2) _ _ demo_fit]
      reserve_reachable [OF demo_without_reversal demo_separate] demo_claim_ok
    by (fastforce simp: svc_capture_overview_eq reserve_inv_def demo_allocation_facts demo_claim_amounts demo_money_int)
  then show ?thesis by (simp add: gateway_capture_def demo_billing_claim)
qed

theorem capture_charged_once_witness:
  "\<exists>r'. gateway_capture demo_env 5 demo_alloc_id demo_billing demo_repo = (r', Inr ((), False)) \<and>
     gateway_capture demo_env 9 demo_alloc_id demo_billing r' = (r', Inr ((), True))"
proof -
  from demo_gateway_capture obtain r' where "gateway_capture demo_env 5 demo_alloc_id demo_billing demo_repo = (r', Inr ((), False))" ..
  with capture_charged_once [OF demo_inv(2) this rtranclp.rtrancl_refl] show ?thesis by blast
qed

text \<open>
  An authorization is reserved once. After an authorization succeeded, the same request before its
  deadline is a replay that reserves nothing, whatever happened to the allocation in between.
\<close>
theorem authorization_reserved_once:
  assumes "funds_reachable E allowed r" "svc_authorize_overview E now q r = (r', Inr (a, False))"
    and "(funds_env_step E)\<^sup>*\<^sup>* r' r''" "now' < oa_Deadline q"
  shows "\<exists>b. svc_authorize_overview E now' q r'' = (r'', Inr (b, True))"
  by (rule authorize.retry [OF funds_reachable_inv [OF assms(1)] assms(2-4)])

lemma demo_authorizes: "svc_authorize_overview demo_env 3 demo_auth demo_funded = (demo_repo, Inr (demo_allocation, False))"
  by (simp add: svc_authorize_overview_def demo_auth_def demo_eval add_money_def authorize_overview_def new_allocation_def
      demo_funded_def demo_pool_def demo_control_def zero_account_def gvals_def compare_money_def demo_repo_value Let_def
      demo_alloc_id_def [symmetric] demo_allocation_def gput_def demo_asset)

lemma demo_funded_reachable: "funds_reachable demo_env (\<lambda>_. True) demo_funded"
proof -
  have "funds_reachable demo_env (\<lambda>_. True)
      (fst (funds_exec demo_env 2 (CFund demo_fund) (fst (funds_exec demo_env 1 (COpen demo_open) new_memory_repository))))"
    by (intro funds_step funds_start) simp_all
  then show ?thesis unfolding demo_opened demo_fund_step .
qed

theorem authorization_reserved_once_witness:
  "svc_authorize_overview demo_env 3 demo_auth demo_funded = (demo_repo, Inr (demo_allocation, False)) \<and>
   (\<exists>b. svc_authorize_overview demo_env 7 demo_auth (fst (funds_exec demo_env 6 (CRelease demo_alloc_id ''refund'') demo_repo)) =
      (fst (funds_exec demo_env 6 (CRelease demo_alloc_id ''refund'') demo_repo), Inr (b, True)))"
proof -
  have "(funds_env_step demo_env)\<^sup>*\<^sup>* demo_repo (fst (funds_exec demo_env 6 (CRelease demo_alloc_id ''refund'') demo_repo))"
    unfolding funds_env_step_def by (intro r_into_rtranclp) blast
  from authorization_reserved_once [OF demo_funded_reachable demo_authorizes this, of 7] demo_authorizes
  show ?thesis by (simp add: demo_auth_def)
qed

end
