(* ===== verification/Matching_Types.thy ===== *)
theory Matching_Types
  imports Money Digest
begin

text \<open>
  The matching package's data (\<open>internal/matching/types.go\<close>, the structs of \<open>shuffle.go\<close> and
  \<open>snapshot.go\<close>). A Go \<open>int\<close> is an \<open>int\<close>; the arithmetic that can leave 64 bits wraps explicitly
  where it is defined. A nil slice and an empty slice are the empty list.
\<close>

abbreviation ChannelDense :: string where "ChannelDense \<equiv> ''dense''"
abbreviation ChannelLexical :: string where "ChannelLexical \<equiv> ''lexical''"
abbreviation ChannelExact :: string where "ChannelExact \<equiv> ''exact''"

abbreviation MaxRecallPerChannel :: nat where "MaxRecallPerChannel \<equiv> 100"
abbreviation MaxScoredCandidates :: nat where "MaxScoredCandidates \<equiv> 100"
abbreviation MaxQualifiedPool :: nat where "MaxQualifiedPool \<equiv> 20"
abbreviation QualificationFloor :: int where "QualificationFloor \<equiv> 60"
abbreviation MaximumScoreGap :: int where "MaximumScoreGap \<equiv> 10"

record match_request =
  rq_TaskID :: string
  rq_PublisherID :: string
  rq_Category :: string
  rq_Language :: string
  rq_Terms :: "string list"
  rq_Tags :: "string list"
  rq_RequiredCapabilities :: "string list"
  rq_RequiredProtocolVersion :: string
  rq_RequiredVectorVersion :: string
  rq_OverviewBudget :: string
  rq_FormalBudget :: string
  rq_ExternalCostCap :: string
  rq_Deadline :: gotime
  rq_Now :: gotime

record reputation =
  rp_Quality :: int
  rp_Speed :: int
  rp_Reliability :: int
  rp_Communication :: int
  rp_Compliance :: int

record candidate =
  cd_AgentID :: string
  cd_ProviderID :: string
  cd_Status :: string
  cd_ApprovalStatus :: string
  cd_Health :: string
  cd_HealthCheckedAt :: "gotime option"
  cd_HealthValidUntil :: "gotime option"
  cd_MaxConcurrency :: int
  cd_ActiveCapacity :: int
  cd_Category :: string
  cd_Languages :: "string list"
  cd_Tags :: "string list"
  cd_Capabilities :: "string list"
  cd_ProtocolVersion :: string
  cd_RiskStatus :: string
  cd_PayoutAddress :: string
  cd_VectorVersion :: string
  cd_EstimatedDuration :: duration
  cd_OverviewPrice :: string
  cd_FormalPrice :: string
  cd_ExternalCostCap :: string
  cd_PriceVersion :: int
  cd_ExposureCount :: int
  cd_EffectiveSamples :: int
  cd_ReputationAvailable :: bool
  cd_Reputation :: reputation

record reason =
  rs_Code :: string
  rs_Message :: string

record exclusion =
  xc_AgentID :: string
  xc_Candidate :: candidate
  xc_Reasons :: "reason list"

record recall_hit =
  rh_AgentID :: string
  rh_Relevance :: int

text \<open>
  The two interfaces the service calls. An adapter's \<open>Recall\<close> and the adjuster's \<open>Adjust\<close> are
  functions of their arguments; the error value is not inspected by the code.
\<close>

record recall_evidence =
  re_Rank :: int
  re_Relevance :: int

record score_breakdown =
  sb_TagOverlap :: int
  sb_TaskMatch :: int
  sb_Reputation :: int
  sb_PriceTime :: int
  sb_Availability :: int
  sb_RuleScore :: int
  sb_ModelDelta :: int
  sb_RankingScore :: int

record recall_adapter =
  ad_Channel :: string
  ad_Recall :: "match_request \<Rightarrow> candidate list \<Rightarrow> nat \<Rightarrow> unit + recall_hit list"

type_synonym ranking_adjuster = "match_request \<Rightarrow> candidate \<Rightarrow> score_breakdown \<Rightarrow> unit + int"

type_synonym evidence = "(string, recall_evidence) gomap"

record scored_candidate =
  sc_Candidate :: candidate
  sc_Recall :: evidence
  sc_Score :: score_breakdown

record degradation =
  dg_Dependency :: string
  dg_Code :: string
  dg_Message :: string

record match_result =
  mr_Strategy :: string
  mr_Qualified :: "scored_candidate list"
  mr_Scored :: "scored_candidate list"
  mr_Excluded :: "exclusion list"
  mr_Degradations :: "degradation list"

abbreviation agent_id :: "scored_candidate \<Rightarrow> string" where
  "agent_id c \<equiv> cd_AgentID (sc_Candidate c)"

abbreviation provider_id :: "scored_candidate \<Rightarrow> string" where
  "provider_id c \<equiv> cd_ProviderID (sc_Candidate c)"

abbreviation ranking_score :: "scored_candidate \<Rightarrow> int" where
  "ranking_score c \<equiv> sb_RankingScore (sc_Score c)"

abbreviation rule_score_of :: "scored_candidate \<Rightarrow> int" where
  "rule_score_of c \<equiv> sb_RuleScore (sc_Score c)"

text \<open>The errors of the package, one constructor per message.\<close>

datatype match_error =
    MErrRequest
  | MErrDeadline
  | MErrBudget
  | MErrDuplicateEligible string
  | MErrSeedContext
  | MErrSecret
  | MErrPolicy
  | MErrPoolSize
  | MErrIdentity
  | MErrDuplicate string
  | MErrOutsidePool string
  | MErrCounters string
  | MErrAlgorithm
  | MErrSnapshotIdentity
  | MErrVersions
  | MErrLimits
  | MErrDuplicateScored string
  | MErrNotScored string
  | MErrScoredDiffers string
  | MErrStrategy
  | MErrNotCanonical
  | MErrExclusionIdentity string
  | MErrDuplicateExcluded string
  | MErrScoredAndExcluded string
  | MErrNoReasons string
  | MErrIncomplete
  | MErrOutsideQualified
  | MErrPosition
  | MErrDuplicatePosition
  | MErrExploration
  | MErrSnapshotNotFound
  | MErrLookup
  | MErrRepository
  | MPanic

end
