(* ===== verification/Matching_Score.thy ===== *)
theory Matching_Score
  imports Matching_Types
begin

text \<open>The gates (\<open>internal/matching/filter.go\<close>) and the rule score (\<open>internal/matching/score.go\<close>) of a candidate.\<close>

text \<open>
  The hard filter (\<open>internal/matching/filter.go\<close>): every gate of the code with its reason code, in
  order, and the partition of the candidates into eligible and excluded ones.
\<close>

section \<open>Gates\<close>

definition health_freshness :: duration where
  "health_freshness = 5 * minute_ns"

definition equal_fold_trim :: "string \<Rightarrow> string \<Rightarrow> bool" where
  "equal_fold_trim left right = equal_fold (trim_space left) (trim_space right)"

definition contains_fold :: "string list \<Rightarrow> string \<Rightarrow> bool" where
  "contains_fold values target = list_ex (\<lambda>v. equal_fold_trim v target) values"

definition contains_all_fold :: "string list \<Rightarrow> string list \<Rightarrow> bool" where
  "contains_all_fold values required = (\<not> list_ex (\<lambda>item. \<not> contains_fold values item) required)"

definition valid_reputation :: "reputation \<Rightarrow> bool" where
  "valid_reputation v = list_all (\<lambda>score. \<not> (score < 0 \<or> score > 100))
     [rp_Quality v, rp_Speed v, rp_Reliability v, rp_Communication v, rp_Compliance v]"

definition wallet_address :: "string \<Rightarrow> bool" where
  "wallet_address v = (if length v \<noteq> 42 \<or> \<not> has_prefix v ''0x'' then False
     else list_all (\<lambda>c. c \<in> set ''0123456789abcdefABCDEF'') (drop 2 v))"

definition invalid_money :: "string \<Rightarrow> bool" where
  "invalid_money v =
     (if v = [] \<or> length v > 78 \<or> (v \<noteq> ''0'' \<and> has_prefix v ''0'') then True
      else if \<not> list_all is_digit v then True
      else bigint_parse v = None)"

definition money_greater :: "string \<Rightarrow> string \<Rightarrow> bool" where
  "money_greater left right = (case (bigint_parse left, bigint_parse right) of
     (Some l, Some r) \<Rightarrow> l > r
   | _ \<Rightarrow> True)"

definition reason_messages :: "(string \<times> string) list" where
  "reason_messages =
   [(''self_provider'', ''A provider cannot match its own task.''),
    (''agent_identity_invalid'', ''Agent identity is invalid.''),
    (''status_not_active'', ''Agent is not active.''),
    (''approval_required'', ''Agent approval is not current.''),
    (''health_not_healthy'', ''Agent health is not healthy.''),
    (''health_check_stale'', ''Agent health check is stale.''),
    (''capacity_unavailable'', ''Agent has no remaining capacity.''),
    (''category_mismatch'', ''Agent category does not match the task.''),
    (''protocol_mismatch'', ''Agent protocol version is incompatible.''),
    (''overview_budget_exceeded'', ''Agent overview price exceeds the task budget.''),
    (''formal_budget_exceeded'', ''Agent formal price exceeds the task budget.''),
    (''external_cost_exceeded'', ''Agent external cost cap exceeds the task limit.''),
    (''deadline_unavailable'', ''Agent cannot finish before the task deadline.''),
    (''language_mismatch'', ''Agent does not support the task language.''),
    (''capability_missing'', ''Agent is missing a required capability.''),
    (''risk_not_eligible'', ''Agent is not eligible under the current risk policy.''),
    (''payout_address_invalid'', ''Agent payout address is invalid.''),
    (''vector_version_mismatch'', ''Agent vector version is incompatible.''),
    (''price_invalid'', ''Agent price metadata is invalid.''),
    (''reputation_unavailable'', ''Agent reputation is unavailable or invalid.'')]"

definition reason_of :: "string \<Rightarrow> reason" where
  "reason_of code = \<lparr>rs_Code = code,
     rs_Message = (case map_of reason_messages code of None \<Rightarrow> [] | Some t \<Rightarrow> t)\<rparr>"

definition health_stale :: "match_request \<Rightarrow> candidate \<Rightarrow> bool" where
  "health_stale request c =
     (case (cd_HealthCheckedAt c, cd_HealthValidUntil c) of
        (Some checkedAt, Some validUntil) \<Rightarrow>
          checkedAt < rq_Now request - health_freshness \<or> \<not> (validUntil > rq_Now request)
      | _ \<Rightarrow> True)"

definition filter_codes :: "match_request \<Rightarrow> candidate \<Rightarrow> bool \<Rightarrow> string list" where
  "filter_codes request c legacyMatchGates =
     (if blank (cd_AgentID c) \<or> blank (cd_ProviderID c) then [''agent_identity_invalid''] else []) @
     (if cd_ProviderID c = rq_PublisherID request then [''self_provider''] else []) @
     (if cd_Status c \<noteq> ''active'' then [''status_not_active''] else []) @
     (if cd_ApprovalStatus c \<noteq> ''approved'' then [''approval_required''] else []) @
     (if cd_Health c \<noteq> ''healthy'' then [''health_not_healthy''] else []) @
     (if health_stale request c then [''health_check_stale''] else []) @
     (if cd_MaxConcurrency c < 1 \<or> cd_ActiveCapacity c < 0 \<or> cd_ActiveCapacity c \<ge> cd_MaxConcurrency c
      then [''capacity_unavailable''] else []) @
     (if \<not> equal_fold_trim (cd_Category c) (rq_Category request) then [''category_mismatch''] else []) @
     (if cd_ProtocolVersion c \<noteq> rq_RequiredProtocolVersion request then [''protocol_mismatch''] else []) @
     (if legacyMatchGates then
        (if \<not> contains_fold (cd_Languages c) (rq_Language request) then [''language_mismatch''] else []) @
        (if \<not> contains_all_fold (cd_Capabilities c) (rq_RequiredCapabilities request) then [''capability_missing''] else [])
      else []) @
     (if cd_RiskStatus c \<noteq> ''eligible'' then [''risk_not_eligible''] else []) @
     (if \<not> cd_ReputationAvailable c \<or> \<not> valid_reputation (cd_Reputation c) then [''reputation_unavailable''] else []) @
     (if \<not> wallet_address (cd_PayoutAddress c) then [''payout_address_invalid''] else []) @
     (if legacyMatchGates then
        (if cd_VectorVersion c \<noteq> rq_RequiredVectorVersion request then [''vector_version_mismatch''] else [])
      else []) @
     (if cd_EstimatedDuration c \<le> 0 \<or> rq_Now request + cd_EstimatedDuration c > rq_Deadline request
      then [''deadline_unavailable''] else []) @
     (if invalid_money (cd_OverviewPrice c) \<or> invalid_money (cd_FormalPrice c) \<or> invalid_money (cd_ExternalCostCap c)
      then [''price_invalid'']
      else
        (if money_greater (cd_OverviewPrice c) (rq_OverviewBudget request) then [''overview_budget_exceeded''] else []) @
        (if money_greater (cd_FormalPrice c) (rq_FormalBudget request) then [''formal_budget_exceeded''] else []) @
        (if money_greater (cd_ExternalCostCap c) (rq_ExternalCostCap request) then [''external_cost_exceeded''] else []))"

definition filter_reasons :: "match_request \<Rightarrow> candidate \<Rightarrow> bool \<Rightarrow> reason list" where
  "filter_reasons request c legacyMatchGates = map reason_of (filter_codes request c legacyMatchGates)"

section \<open>The partition\<close>

fun filter_split ::
    "match_request \<Rightarrow> bool \<Rightarrow> candidate list \<Rightarrow> candidate list \<Rightarrow> exclusion list \<Rightarrow> candidate list \<times> exclusion list" where
  "filter_split request legacy [] eligible excluded = (eligible, excluded)"
| "filter_split request legacy (c # cs) eligible excluded =
     (let reasons = filter_reasons request c legacy in
      if reasons = [] then filter_split request legacy cs (eligible @ [c]) excluded
      else filter_split request legacy cs eligible
             (excluded @ [\<lparr>xc_AgentID = cd_AgentID c, xc_Candidate = c, xc_Reasons = reasons\<rparr>]))"

definition filter_candidates ::
    "match_request \<Rightarrow> candidate list \<Rightarrow> bool \<Rightarrow> candidate list \<times> exclusion list" where
  "filter_candidates request candidates legacy =
     (let (eligible, excluded) = filter_split request legacy candidates [] [] in
      (sort_func (key_cmp cd_AgentID) eligible, sort_func (key_cmp xc_AgentID) excluded))"

definition hard_filter :: "match_request \<Rightarrow> candidate list \<Rightarrow> candidate list \<times> exclusion list" where
  "hard_filter request candidates = filter_candidates request candidates True"

definition category_tags_filter :: "match_request \<Rightarrow> candidate list \<Rightarrow> candidate list \<times> exclusion list" where
  "category_tags_filter request candidates = filter_candidates request candidates False"

section \<open>Lemmas\<close>

definition exclusion_of :: "match_request \<Rightarrow> bool \<Rightarrow> candidate \<Rightarrow> exclusion" where
  "exclusion_of request legacy c =
     \<lparr>xc_AgentID = cd_AgentID c, xc_Candidate = c, xc_Reasons = filter_reasons request c legacy\<rparr>"

lemma filter_split_eq:
  "filter_split request legacy cs eligible excluded =
   (eligible @ filter (\<lambda>c. filter_reasons request c legacy = []) cs,
    excluded @ map (exclusion_of request legacy) (filter (\<lambda>c. filter_reasons request c legacy \<noteq> []) cs))"
  by (induction cs arbitrary: eligible excluded) (simp_all add: Let_def exclusion_of_def)

lemma filter_candidates_eq:
  "filter_candidates request cs legacy =
   (sort_func (key_cmp cd_AgentID) (filter (\<lambda>c. filter_reasons request c legacy = []) cs),
    sort_func (key_cmp xc_AgentID) (map (exclusion_of request legacy) (filter (\<lambda>c. filter_reasons request c legacy \<noteq> []) cs)))"
  by (simp add: filter_candidates_def filter_split_eq)

lemma filter_candidates_members:
  assumes "filter_candidates request cs legacy = (eligible, excluded)"
  shows "set eligible = {c \<in> set cs. filter_reasons request c legacy = []}"
    and "set excluded = exclusion_of request legacy ` {c \<in> set cs. filter_reasons request c legacy \<noteq> []}"
  using assms by (auto simp: filter_candidates_eq)

text \<open>The gates as one predicate: what an eligible candidate satisfies.\<close>

definition passes_gates :: "match_request \<Rightarrow> bool \<Rightarrow> candidate \<Rightarrow> bool" where
  "passes_gates request legacy c \<longleftrightarrow>
     \<not> blank (cd_AgentID c) \<and> \<not> blank (cd_ProviderID c) \<and> cd_ProviderID c \<noteq> rq_PublisherID request \<and>
     cd_Status c = ''active'' \<and> cd_ApprovalStatus c = ''approved'' \<and> cd_Health c = ''healthy'' \<and>
     (\<exists>checkedAt validUntil. cd_HealthCheckedAt c = Some checkedAt \<and> cd_HealthValidUntil c = Some validUntil \<and>
        rq_Now request - health_freshness \<le> checkedAt \<and> rq_Now request < validUntil) \<and>
     0 \<le> cd_ActiveCapacity c \<and> cd_ActiveCapacity c < cd_MaxConcurrency c \<and>
     equal_fold_trim (cd_Category c) (rq_Category request) \<and>
     cd_ProtocolVersion c = rq_RequiredProtocolVersion request \<and>
     (legacy \<longrightarrow> contains_fold (cd_Languages c) (rq_Language request) \<and>
        list_all (contains_fold (cd_Capabilities c)) (rq_RequiredCapabilities request) \<and>
        cd_VectorVersion c = rq_RequiredVectorVersion request) \<and>
     cd_RiskStatus c = ''eligible'' \<and> cd_ReputationAvailable c \<and> valid_reputation (cd_Reputation c) \<and>
     wallet_address (cd_PayoutAddress c) \<and>
     0 < cd_EstimatedDuration c \<and> rq_Now request + cd_EstimatedDuration c \<le> rq_Deadline request \<and>
     valid_money (cd_OverviewPrice c) \<and> valid_money (cd_FormalPrice c) \<and> valid_money (cd_ExternalCostCap c) \<and>
     \<not> money_greater (cd_OverviewPrice c) (rq_OverviewBudget request) \<and>
     \<not> money_greater (cd_FormalPrice c) (rq_FormalBudget request) \<and>
     \<not> money_greater (cd_ExternalCostCap c) (rq_ExternalCostCap request)"

lemma invalid_money_iff: "invalid_money v \<longleftrightarrow> \<not> valid_money v"
  by (simp add: invalid_money_def valid_money_def)

lemma filter_reasons_nil_iff: "filter_reasons request c legacy = [] \<longleftrightarrow> passes_gates request legacy c"
  unfolding filter_reasons_def filter_codes_def passes_gates_def invalid_money_iff contains_all_fold_def health_stale_def
  by (auto simp: list_ex_iff list_all_iff split: option.splits)

text \<open>
  The rule score (\<open>internal/matching/score.go\<close>). \<open>ratioScore\<close> is computed in Go's 64-bit \<open>int\<close>, so its
  intermediate product wraps; the bounds hold while the product fits, and the last section shows
  where it does not.
\<close>

section \<open>Definitions\<close>

definition weighted_relevance :: "int \<Rightarrow> int \<Rightarrow> int" where
  "weighted_relevance relevance maximum = go_div (clamp relevance 0 10000 * maximum) 10000"

definition reputation_score :: "reputation \<Rightarrow> int" where
  "reputation_score r = foldl (\<lambda>total v. total + go_div (clamp v 0 100 * 5) 100) 0
     [rp_Quality r, rp_Speed r, rp_Reliability r, rp_Communication r, rp_Compliance r]"

text \<open>\<open>big.Int.Div\<close> is Euclidean; on the values reached here it is \<open>div\<close>.\<close>

definition price_headroom_score :: "string \<Rightarrow> string \<Rightarrow> int" where
  "price_headroom_score price budget =
     (case (bigint_parse price, bigint_parse budget) of
        (Some p, Some b) \<Rightarrow>
          if p < 0 \<or> b < 0 \<or> p > b then 0
          else if b = 0 then 5
          else ((b - p) * 5) div b
      | _ \<Rightarrow> 0)"

definition ratio_score :: "int \<Rightarrow> int \<Rightarrow> int \<Rightarrow> int" where
  "ratio_score numerator denominator maximum =
     (if denominator \<le> 0 \<or> numerator \<le> 0 then 0
      else go_div (wrap64 (wrap64 (clamp numerator 0 denominator * maximum) + go_div denominator 2)) denominator)"

definition time_headroom_score :: "duration \<Rightarrow> duration \<Rightarrow> int" where
  "time_headroom_score dur available =
     (if dur \<le> 0 \<or> available \<le> 0 \<or> dur > available then 0
      else ratio_score (available - dur) available 5)"

definition evidence_relevance :: "evidence \<Rightarrow> string \<Rightarrow> int" where
  "evidence_relevance recall channel = (case gget recall channel of None \<Rightarrow> 0 | Some e \<Rightarrow> re_Relevance e)"

definition zero_breakdown :: score_breakdown where
  "zero_breakdown = \<lparr>sb_TagOverlap = 0, sb_TaskMatch = 0, sb_Reputation = 0, sb_PriceTime = 0,
     sb_Availability = 0, sb_RuleScore = 0, sb_ModelDelta = 0, sb_RankingScore = 0\<rparr>"

definition rule_score :: "match_request \<Rightarrow> candidate \<Rightarrow> evidence \<Rightarrow> score_breakdown" where
  "rule_score request c recall =
     (let taskMatch = weighted_relevance (evidence_relevance recall ChannelDense) 25 +
            weighted_relevance (evidence_relevance recall ChannelLexical) 15 +
            weighted_relevance (evidence_relevance recall ChannelExact) 20;
          reputation = reputation_score (cd_Reputation c);
          priceTime = price_headroom_score (cd_FormalPrice c) (rq_FormalBudget request) +
            time_headroom_score (cd_EstimatedDuration c) (time_sub (rq_Deadline request) (rq_Now request));
          availability = ratio_score (wrap64 (cd_MaxConcurrency c - cd_ActiveCapacity c)) (cd_MaxConcurrency c) 5
      in zero_breakdown\<lparr>sb_TaskMatch := taskMatch, sb_Reputation := reputation, sb_PriceTime := priceTime,
           sb_Availability := availability, sb_RuleScore := taskMatch + reputation + priceTime + availability\<rparr>)"

definition apply_model_delta :: "score_breakdown \<Rightarrow> int \<Rightarrow> score_breakdown" where
  "apply_model_delta score delta =
     (let score' = score\<lparr>sb_ModelDelta := clamp delta (-5) 5\<rparr>
      in score'\<lparr>sb_RankingScore := clamp (sb_RuleScore score' + sb_ModelDelta score') 0 100\<rparr>)"

section \<open>Bounds\<close>

lemma clamp_bounds: "lo \<le> hi \<Longrightarrow> lo \<le> clamp v lo hi \<and> clamp v lo hi \<le> hi"
  by (simp add: clamp_def)

lemma go_div_bounds:
  assumes "0 \<le> a" "a \<le> m * d" "0 < d" "0 \<le> m"
  shows "0 \<le> go_div a d \<and> go_div a d \<le> m"
proof -
  have "a div d \<le> m * d div d" using assms by (intro zdiv_mono1) auto
  with assms show ?thesis by (simp add: go_div_nonneg pos_imp_zdiv_nonneg_iff)
qed

lemma weighted_relevance_bounds: "0 \<le> m \<Longrightarrow> 0 \<le> weighted_relevance v m \<and> weighted_relevance v m \<le> m"
  unfolding weighted_relevance_def
  using clamp_bounds [of 0 10000 v]
  by (intro go_div_bounds) (auto simp: mult.commute intro: mult_left_mono)

lemma reputation_score_bounds: "0 \<le> reputation_score r \<and> reputation_score r \<le> 25"
proof -
  have "0 \<le> go_div (clamp v 0 100 * 5) 100 \<and> go_div (clamp v 0 100 * 5) 100 \<le> 5" for v
    using clamp_bounds [of 0 100 v] by (intro go_div_bounds) auto
  from this [of "rp_Quality r"] this [of "rp_Speed r"] this [of "rp_Reliability r"]
    this [of "rp_Communication r"] this [of "rp_Compliance r"]
  show ?thesis by (simp add: reputation_score_def)
qed

lemma price_headroom_bounds: "0 \<le> price_headroom_score p b \<and> price_headroom_score p b \<le> 5"
proof -
  have "0 \<le> (y - x) * 5 div y \<and> (y - x) * 5 div y \<le> 5" if "0 \<le> x" "x \<le> y" "0 < y" for x y :: int
  proof -
    have "(y - x) * 5 div y \<le> 5 * y div y" using that by (intro zdiv_mono1) auto
    then show ?thesis using that by (simp add: pos_imp_zdiv_nonneg_iff)
  qed
  then show ?thesis by (auto simp: price_headroom_score_def not_less split: option.split)
qed

text \<open>The ratio score is exact, and within its maximum, as long as the product fits in 64 bits.\<close>

definition ratio_fits :: "int \<Rightarrow> int \<Rightarrow> bool" where
  "ratio_fits denominator maximum \<longleftrightarrow> denominator * maximum + denominator div 2 < 2 ^ 63"

lemma ratio_score_exact:
  assumes "ratio_fits denominator maximum" "0 \<le> maximum" "0 < denominator" "0 < numerator"
  shows "ratio_score numerator denominator maximum =
    (min numerator denominator * maximum + denominator div 2) div denominator"
proof -
  let ?b = "min numerator denominator"
  have c: "clamp numerator 0 denominator = ?b" using assms(3,4) by (simp add: clamp_def min_def)
  have b: "0 \<le> ?b * maximum" "?b * maximum \<le> denominator * maximum" "0 \<le> denominator div 2"
    using assms(2-4) by (auto intro: mult_right_mono)
  have "int64_range (?b * maximum)" "int64_range (?b * maximum + denominator div 2)"
    using b assms(1) by (auto simp: int64_range_def ratio_fits_def)
  then show ?thesis
    using assms(2-4) b by (simp add: ratio_score_def c go_div_nonneg)
qed

lemma ratio_score_bounds:
  assumes "0 < denominator \<Longrightarrow> ratio_fits denominator maximum" "0 \<le> maximum"
  shows "0 \<le> ratio_score numerator denominator maximum \<and> ratio_score numerator denominator maximum \<le> maximum"
proof (cases "denominator \<le> 0 \<or> numerator \<le> 0")
  case True
  then show ?thesis using assms(2) by (simp add: ratio_score_def)
next
  case False
  let ?x = "min numerator denominator * maximum + denominator div 2"
  have "?x \<le> denominator * maximum + denominator div 2" "0 \<le> ?x"
    using False assms(2) by (auto intro: mult_right_mono)
  moreover have pos: "0 < denominator" using False by simp
  ultimately have "?x div denominator \<le> (denominator * maximum + denominator div 2) div denominator" "0 \<le> ?x div denominator"
    by (simp_all only: zdiv_mono1 pos_imp_zdiv_nonneg_iff)
  moreover have "(denominator * maximum + denominator div 2) div denominator = maximum"
  proof -
    have "denominator div 2 div denominator = 0" using False by (intro div_pos_pos_trivial) auto
    then show ?thesis using False by (simp add: add.commute)
  qed
  ultimately show ?thesis using False assms by (simp add: ratio_score_exact)
qed

lemma time_headroom_bounds:
  assumes "available < 2 ^ 60"
  shows "0 \<le> time_headroom_score dur available \<and> time_headroom_score dur available \<le> 5"
  using assms ratio_score_bounds [of available 5 "available - dur"]
  by (auto simp: time_headroom_score_def ratio_fits_def)

end
