(* ===== verification/Matching_Service.thy ===== *)
theory Matching_Service
  imports Matching_Score
begin

text \<open>Recall, the matching service, and lemmas about both.\<close>

text \<open>
  Recall (\<open>internal/matching/recall.go\<close>) and the matching service (\<open>internal/matching/service.go\<close>): the three
  recall channels, their fusion by reciprocal rank, the scoring loop with its degradations, and the
  qualified pool. Go's iteration order over a map is the order of the association list; every list
  built from such an iteration is sorted by a total order before it is used.
\<close>

section \<open>Recall channels\<close>

definition is_space_byte :: "char \<Rightarrow> bool" where
  "is_space_byte c \<longleftrightarrow> (of_char c :: nat) \<in> {9, 10, 11, 12, 13, 32}"

text \<open>\<open>unicode.IsPunct\<close> on ASCII; \<open>$+<=>^`|~\<close> are symbols, not punctuation.\<close>

definition is_punct_byte :: "char \<Rightarrow> bool" where
  "is_punct_byte c \<longleftrightarrow> (of_char c :: nat) \<in>
     {33, 34, 35, 37, 38, 39, 40, 41, 42, 44, 45, 46, 47, 58, 59, 63, 64, 91, 92, 93, 95, 123, 125}"

fun fields_func :: "(char \<Rightarrow> bool) \<Rightarrow> string \<Rightarrow> string \<Rightarrow> string list" where
  "fields_func sep [] current = (if current = [] then [] else [current])"
| "fields_func sep (c # cs) current =
     (if sep c then (if current = [] then [] else [current]) @ fields_func sep cs []
      else fields_func sep cs (current @ [c]))"

definition set_add :: "'a \<Rightarrow> 'a list \<Rightarrow> 'a list" where
  "set_add x xs = (if x \<in> set xs then xs else xs @ [x])"

definition tokens_of :: "string \<Rightarrow> string list" where
  "tokens_of v = fields_func (\<lambda>c. is_space_byte c \<or> is_punct_byte c) (to_lower v) []"

definition token_set :: "string list \<Rightarrow> string list" where
  "token_set values = foldl (\<lambda>acc v. foldl (\<lambda>acc t. if t \<noteq> [] then set_add t acc else acc) acc (tokens_of v)) [] values"

definition overlap_basis_points :: "string list \<Rightarrow> string list \<Rightarrow> int" where
  "overlap_basis_points left right =
     (if left = [] \<or> right = [] then 0
      else go_div (int (length (filter (\<lambda>t. t \<in> set right) left)) * 10000) (int (length left)))"

definition hit_cmp :: "recall_hit \<Rightarrow> recall_hit \<Rightarrow> int" where
  "hit_cmp l r = (if rh_Relevance l \<noteq> rh_Relevance r then rh_Relevance r - rh_Relevance l
     else strcmp (rh_AgentID l) (rh_AgentID r))"

definition sort_hits :: "recall_hit list \<Rightarrow> recall_hit list" where
  "sort_hits hits = sort_func hit_cmp hits"

definition exact_recall :: "match_request \<Rightarrow> candidate list \<Rightarrow> nat \<Rightarrow> unit + recall_hit list" where
  "exact_recall request candidates limit =
     Inr (map (\<lambda>c. \<lparr>rh_AgentID = cd_AgentID c, rh_Relevance = 10000\<rparr>) (take limit candidates))"

definition lexical_recall :: "match_request \<Rightarrow> candidate list \<Rightarrow> nat \<Rightarrow> unit + recall_hit list" where
  "lexical_recall request candidates limit =
     (let query = token_set (rq_Terms request @ rq_RequiredCapabilities request @ [rq_Category request]);
          scored = map (\<lambda>c. (c, overlap_basis_points query (token_set (cd_Tags c @ cd_Capabilities c @ [cd_Category c])))) candidates;
          hits = map (\<lambda>(c, relevance). \<lparr>rh_AgentID = cd_AgentID c, rh_Relevance = relevance\<rparr>) (filter (\<lambda>(c, relevance). relevance > 0) scored)
      in Inr (take limit (sort_hits hits)))"

definition unavailable_dense_recall :: "match_request \<Rightarrow> candidate list \<Rightarrow> nat \<Rightarrow> unit + recall_hit list" where
  "unavailable_dense_recall request candidates limit = Inl ()"

definition lexical_adapter :: recall_adapter where
  "lexical_adapter = \<lparr>ad_Channel = ChannelLexical, ad_Recall = lexical_recall\<rparr>"

definition exact_adapter :: recall_adapter where
  "exact_adapter = \<lparr>ad_Channel = ChannelExact, ad_Recall = exact_recall\<rparr>"

definition unavailable_dense_adapter :: recall_adapter where
  "unavailable_dense_adapter = \<lparr>ad_Channel = ChannelDense, ad_Recall = unavailable_dense_recall\<rparr>"

section \<open>Collecting the evidence\<close>

record match_service =
  ms_adapters :: "recall_adapter option list"
  ms_adjuster :: "ranking_adjuster option"

definition new_match_service :: "recall_adapter option \<Rightarrow> ranking_adjuster option \<Rightarrow> match_service" where
  "new_match_service dense adjuster =
     \<lparr>ms_adapters = (if dense = None then [] else [dense]) @ [Some lexical_adapter, Some exact_adapter],
      ms_adjuster = adjuster\<rparr>"

definition append_unique_degradation :: "degradation list \<Rightarrow> degradation \<Rightarrow> degradation list" where
  "append_unique_degradation existing item =
     (if list_ex (\<lambda>d. dg_Dependency d = dg_Dependency item \<and> dg_Code d = dg_Code item) existing then existing
      else existing @ [item])"

definition degrade :: "string \<Rightarrow> string \<Rightarrow> string \<Rightarrow> degradation list \<Rightarrow> degradation list" where
  "degrade dependency code message ds = append_unique_degradation ds
     \<lparr>dg_Dependency = dependency, dg_Code = code, dg_Message = message\<rparr>"

fun best_hits :: "recall_hit list \<Rightarrow> (string, candidate) gomap \<Rightarrow> (string, int) gomap \<Rightarrow> bool \<Rightarrow> (string, int) gomap \<times> bool" where
  "best_hits [] eligible best invalid = (best, invalid)"
| "best_hits (h # hs) eligible best invalid =
     (if gget eligible (rh_AgentID h) = None \<or> rh_Relevance h < 0 \<or> rh_Relevance h > 10000
      then best_hits hs eligible best True
      else best_hits hs eligible
        (case gget best (rh_AgentID h) of
           None \<Rightarrow> gput (rh_AgentID h) (rh_Relevance h) best
         | Some relevance \<Rightarrow> if rh_Relevance h > relevance then gput (rh_AgentID h) (rh_Relevance h) best else best) invalid)"

definition normalize_hits :: "recall_hit list \<Rightarrow> (string, candidate) gomap \<Rightarrow> recall_hit list \<times> bool" where
  "normalize_hits hits eligible =
     (let (best, invalid) = best_hits hits eligible [] False in
      (sort_hits (map (\<lambda>(agentID, relevance). \<lparr>rh_AgentID = agentID, rh_Relevance = relevance\<rparr>) best), invalid))"

text \<open>The loop that files the hits of one channel, in rank order.\<close>

fun file_hits :: "string \<Rightarrow> nat \<Rightarrow> recall_hit list \<Rightarrow> (string, evidence) gomap \<Rightarrow> (string, evidence) gomap" where
  "file_hits channel index [] ev = ev"
| "file_hits channel index (h # hs) ev =
     (let known = (case gget ev (rh_AgentID h) of None \<Rightarrow> [] | Some m \<Rightarrow> m)
      in file_hits channel (index + 1) hs
           (gput (rh_AgentID h) (gput channel \<lparr>re_Rank = int index + 1, re_Relevance = rh_Relevance h\<rparr> known) ev))"

text \<open>One turn of the adapter loop; the state is the evidence, the degradations and the seen channels.\<close>

type_synonym recall_state = "(string, evidence) gomap \<times> degradation list \<times> string list"

definition recall_step ::
    "match_request \<Rightarrow> candidate list \<Rightarrow> (string, candidate) gomap \<Rightarrow> recall_adapter option \<Rightarrow> recall_state \<Rightarrow> recall_state" where
  "recall_step request eligible byID adapter st =
     (case (adapter, st) of
        (None, _) \<Rightarrow> st
      | (Some a, (ev, ds, seen)) \<Rightarrow>
          let channel = ad_Channel a in
          if channel \<noteq> ChannelDense \<and> channel \<noteq> ChannelLexical \<and> channel \<noteq> ChannelExact then
            (ev, degrade channel ''unknown_recall_channel'' ''Unknown recall channel ignored.'' ds, seen)
          else if channel \<in> set seen then
            (ev, degrade channel ''duplicate_recall_channel'' ''Duplicate recall channel ignored.'' ds, seen)
          else
            (case ad_Recall a request eligible MaxRecallPerChannel of
               Inl _ \<Rightarrow> (ev, degrade channel ''recall_unavailable'' ''Recall channel unavailable; remaining channels used.'' ds, set_add channel seen)
             | Inr hits \<Rightarrow>
                 let (normalized, invalid) = normalize_hits hits byID;
                     ds' = (if invalid then degrade channel ''invalid_recall_hit'' ''Invalid or ineligible recall hits ignored.'' ds else ds)
                 in (file_hits channel 0 (take MaxRecallPerChannel normalized) ev, ds', set_add channel seen)))"

definition service_recall ::
    "match_service \<Rightarrow> match_request \<Rightarrow> candidate list \<Rightarrow> (string, candidate) gomap \<Rightarrow> (string, evidence) gomap \<times> degradation list" where
  "service_recall svc request eligible byID =
     (let (ev, ds, seen) = foldl (\<lambda>st a. recall_step request eligible byID a st) ([], [], []) (ms_adapters svc)
      in (ev, foldl (\<lambda>ds channel. if channel \<in> set seen then ds
            else degrade channel ''recall_not_configured'' ''Recall channel not configured; remaining channels used.'' ds)
          ds [ChannelDense, ChannelLexical, ChannelExact]))"

definition reciprocal_rank_score :: "evidence \<Rightarrow> int" where
  "reciprocal_rank_score ev = foldl (\<lambda>total item. if re_Rank item > 0 then total + go_div 1000000 (60 + re_Rank item) else total) 0 (gvals ev)"

definition evidence_of :: "(string, evidence) gomap \<Rightarrow> string \<Rightarrow> evidence" where
  "evidence_of ev agentID = (case gget ev agentID of None \<Rightarrow> [] | Some m \<Rightarrow> m)"

definition fused_cmp :: "(string, evidence) gomap \<Rightarrow> string \<Rightarrow> string \<Rightarrow> int" where
  "fused_cmp ev left right =
     (let leftScore = reciprocal_rank_score (evidence_of ev left); rightScore = reciprocal_rank_score (evidence_of ev right)
      in if leftScore \<noteq> rightScore then (if leftScore > rightScore then -1 else 1) else strcmp left right)"

definition fused_agent_ids :: "(string, evidence) gomap \<Rightarrow> string list" where
  "fused_agent_ids ev = take MaxScoredCandidates (sort_func (fused_cmp ev) (map fst ev))"

section \<open>Scoring and qualification\<close>

definition scored_cmp :: "scored_candidate \<Rightarrow> scored_candidate \<Rightarrow> int" where
  "scored_cmp l r =
     (if ranking_score l \<noteq> ranking_score r then ranking_score r - ranking_score l
      else if rule_score_of l \<noteq> rule_score_of r then rule_score_of r - rule_score_of l
      else strcmp (agent_id l) (agent_id r))"

definition sort_scored :: "scored_candidate list \<Rightarrow> scored_candidate list" where
  "sort_scored cs = sort_func scored_cmp cs"

definition degradation_cmp :: "degradation \<Rightarrow> degradation \<Rightarrow> int" where
  "degradation_cmp l r = (let c = strcmp (dg_Dependency l) (dg_Dependency r) in if c \<noteq> 0 then c else strcmp (dg_Code l) (dg_Code r))"

definition sort_degradations :: "degradation list \<Rightarrow> degradation list" where
  "sort_degradations ds = sort_func degradation_cmp ds"

fun qualify_loop :: "int \<Rightarrow> scored_candidate list \<Rightarrow> scored_candidate list \<Rightarrow> scored_candidate list" where
  "qualify_loop best [] qualified = qualified"
| "qualify_loop best (c # cs) qualified =
     (if rule_score_of c < QualificationFloor \<or> ranking_score c < QualificationFloor \<or> ranking_score c < best - MaximumScoreGap
      then qualify_loop best cs qualified
      else let qualified' = qualified @ [c] in
        if length qualified' = MaxQualifiedPool then qualified' else qualify_loop best cs qualified')"

definition qualify :: "scored_candidate list \<Rightarrow> scored_candidate list" where
  "qualify scored = (case scored of [] \<Rightarrow> [] | c # _ \<Rightarrow> qualify_loop (ranking_score c) scored [])"

definition validate_request :: "match_request \<Rightarrow> match_error + unit" where
  "validate_request q =
     (if blank (rq_TaskID q) \<or> blank (rq_PublisherID q) \<or> blank (rq_Category q) \<or> blank (rq_Language q) \<or>
         blank (rq_RequiredProtocolVersion q) \<or> blank (rq_RequiredVectorVersion q) then Inl MErrRequest
      else if rq_Now q = 0 \<or> \<not> (rq_Deadline q > rq_Now q) then Inl MErrDeadline
      else if list_ex invalid_money [rq_OverviewBudget q, rq_FormalBudget q, rq_ExternalCostCap q] then Inl MErrBudget
      else Inr ())"

fun index_by_id :: "candidate list \<Rightarrow> (string, candidate) gomap \<Rightarrow> match_error + (string, candidate) gomap" where
  "index_by_id [] byID = Inr byID"
| "index_by_id (c # cs) byID =
     (if gget byID (cd_AgentID c) \<noteq> None then Inl (MErrDuplicateEligible (cd_AgentID c))
      else index_by_id cs (gput (cd_AgentID c) c byID))"

text \<open>The adjuster's answer: the model delta, and the degradations.\<close>

definition model_delta :: "match_service \<Rightarrow> match_request \<Rightarrow> candidate \<Rightarrow> score_breakdown \<Rightarrow> degradation list \<Rightarrow> int \<times> degradation list" where
  "model_delta svc request c score ds =
     (case ms_adjuster svc of
        Some adjust \<Rightarrow> (case adjust request c score of
            Inl _ \<Rightarrow> (0, degrade ''ranking_model'' ''model_unavailable'' ''Ranking model unavailable; fixed ModelDelta=0 fallback applied.'' ds)
          | Inr adjusted \<Rightarrow> (adjusted, ds))
      | None \<Rightarrow> (0, degrade ''ranking_model'' ''model_disabled'' ''Ranking model disabled; fixed ModelDelta=0 fallback applied.'' ds))"

text \<open>The scoring loop over the fused identifiers. Every identifier is a key of \<open>byID\<close>
  (\<open>service_recall_keys\<close> below), so the missing branch is not taken.\<close>

fun score_loop ::
    "match_service \<Rightarrow> match_request \<Rightarrow> (string, candidate) gomap \<Rightarrow> (string, evidence) gomap \<Rightarrow> string list \<Rightarrow>
     scored_candidate list \<Rightarrow> degradation list \<Rightarrow> scored_candidate list \<times> degradation list" where
  "score_loop svc request byID ev [] scored ds = (scored, ds)"
| "score_loop svc request byID ev (i # ids) scored ds =
     (case gget byID i of
        None \<Rightarrow> score_loop svc request byID ev ids scored ds
      | Some c \<Rightarrow>
          let score = rule_score request c (evidence_of ev i);
              (delta, ds') = model_delta svc request c score ds
          in score_loop svc request byID ev ids
               (scored @ [\<lparr>sc_Candidate = c, sc_Recall = evidence_of ev i, sc_Score = apply_model_delta score delta\<rparr>]) ds')"

definition service_match :: "match_service \<Rightarrow> match_request \<Rightarrow> candidate list \<Rightarrow> match_error + match_result" where
  "service_match svc request candidates =
     rbind (validate_request request) (\<lambda>_.
       let (eligible, excluded) = hard_filter request candidates in
       rbind (index_by_id eligible []) (\<lambda>byID.
         let (ev, degradations) = service_recall svc request eligible byID;
             (scored, ds) = score_loop svc request byID ev (fused_agent_ids ev) [] degradations;
             sorted = sort_scored scored
         in Inr \<lparr>mr_Strategy = [], mr_Qualified = qualify sorted, mr_Scored = sorted, mr_Excluded = excluded,
              mr_Degradations = sort_degradations ds\<rparr>))"

text \<open>
  Lemmas on the matching service: the comparisons are total preorders that separate agents, the
  evidence names eligible candidates only, and the qualified pool is a prefix of the candidates above
  the floor and within the gap.
\<close>

section \<open>The comparisons\<close>

lemma strcmp_neg: "strcmp a b < 0 \<longleftrightarrow> a < b"
  by (auto simp: strcmp_def)

interpretation hits: comparator hit_cmp
  by unfold_locales (auto simp: hit_cmp_def split: if_splits)

interpretation fused: comparator "fused_cmp ev" for ev
  by unfold_locales (auto simp: fused_cmp_def Let_def split: if_splits)

interpretation scored: comparator scored_cmp
  by unfold_locales (auto simp: scored_cmp_def split: if_splits)

interpretation degradations: comparator degradation_cmp
  by unfold_locales (auto simp: degradation_cmp_def Let_def strcmp_def split: if_splits)

lemma hit_cmp_separates: "hit_cmp x y \<le> 0 \<Longrightarrow> hit_cmp y x \<le> 0 \<Longrightarrow> rh_AgentID x = rh_AgentID y \<and> rh_Relevance x = rh_Relevance y"
  by (auto simp: hit_cmp_def split: if_splits)

lemma scored_cmp_separates: "scored_cmp x y \<le> 0 \<Longrightarrow> scored_cmp y x \<le> 0 \<Longrightarrow> agent_id x = agent_id y"
  by (auto simp: scored_cmp_def split: if_splits)

lemma scored_cmp_ranking: "scored_cmp x y \<le> 0 \<Longrightarrow> ranking_score y \<le> ranking_score x"
  by (auto simp: scored_cmp_def split: if_splits)

section \<open>Evidence\<close>

text \<open>The keys are eligible agents, without repetition, and the relevances are fixed-point fractions.\<close>

definition evidence_ok :: "(string, candidate) gomap \<Rightarrow> (string, evidence) gomap \<Rightarrow> bool" where
  "evidence_ok byID ev \<longleftrightarrow> gwf ev \<and> set (map fst ev) \<subseteq> dom (gget byID)"

lemma gput_keys: "set (map fst (gput k v m)) = insert k (set (map fst m))"
  unfolding gput_def by (induction m) auto

lemma best_hits_ok:
  assumes "best_hits hs eligible best invalid = (best', invalid')" "gwf best" "set (map fst best) \<subseteq> dom (gget eligible)"
  shows "gwf best' \<and> set (map fst best') \<subseteq> dom (gget eligible)"
  using assms
proof (induction hs arbitrary: best invalid)
  case (Cons h hs)
  show ?case
  proof (cases "gget eligible (rh_AgentID h) = None \<or> rh_Relevance h < 0 \<or> rh_Relevance h > 10000")
    case True
    with Cons show ?thesis by simp
  next
    case False
    let ?b = "case gget best (rh_AgentID h) of None \<Rightarrow> gput (rh_AgentID h) (rh_Relevance h) best
         | Some relevance \<Rightarrow> if rh_Relevance h > relevance then gput (rh_AgentID h) (rh_Relevance h) best else best"
    have "gwf ?b" "set (map fst ?b) \<subseteq> dom (gget eligible)"
      using Cons.prems(2,3) False by (auto simp: gput_keys simp del: set_map split: option.split)
    with Cons.IH [of ?b invalid] Cons.prems(1) False show ?thesis by simp
  qed
qed simp

lemma normalize_hits_eligible:
  assumes "normalize_hits hits eligible = (normalized, invalid)"
  shows "\<forall>h \<in> set normalized. rh_AgentID h \<in> dom (gget eligible)"
proof -
  obtain best where b: "best_hits hits eligible [] False = (best, invalid)"
    and n: "normalized = sort_hits (map (\<lambda>(agentID, relevance). \<lparr>rh_AgentID = agentID, rh_Relevance = relevance\<rparr>) best)"
    using assms by (auto simp: normalize_hits_def split: prod.splits)
  from best_hits_ok [OF b] have "set (map fst best) \<subseteq> dom (gget eligible)" by simp
  then show ?thesis by (force simp: n sort_hits_def)
qed

lemma file_hits_ok:
  assumes "evidence_ok byID ev" "\<forall>h \<in> set hs. rh_AgentID h \<in> dom (gget byID)"
  shows "evidence_ok byID (file_hits channel n hs ev)"
  using assms
  by (induction channel n hs ev rule: file_hits.induct)
    (auto simp: Let_def evidence_ok_def gput_keys simp del: set_map)

lemma recall_step_ok:
  assumes "evidence_ok byID (fst st)"
  shows "evidence_ok byID (fst (recall_step request eligible byID a st))"
proof -
  obtain ev ds seen where st: "st = (ev, ds, seen)" by (cases st)
  have "evidence_ok byID (file_hits c 0 (take k n) ev)" if "normalize_hits hits byID = (n, i)" for c k n i hits
    using assms normalize_hits_eligible [OF that] unfolding st
    by (intro file_hits_ok) (auto dest: in_set_takeD)
  then show ?thesis
    using assms by (auto simp: recall_step_def st Let_def split: option.split sum.split prod.split)
qed

lemma foldl_keys: "foldl f a [] = a" "foldl f a (x # xs) = foldl f (f a x) xs"
  by simp_all

lemma service_recall_keys:
  assumes "service_recall svc request eligible byID = (ev, ds)"
  shows "evidence_ok byID ev"
proof -
  have "evidence_ok byID (fst (foldl (\<lambda>st a. recall_step request eligible byID a st) st as))"
    if "evidence_ok byID (fst st)" for st as
    using that by (induction as arbitrary: st) (simp_all only: foldl_keys recall_step_ok)
  from this [of "([], [], [])" "ms_adapters svc"] assms show ?thesis
    by (auto simp: service_recall_def evidence_ok_def split: prod.splits)
qed

lemma fused_agent_ids_facts:
  assumes "evidence_ok byID ev"
  shows "distinct (fused_agent_ids ev)" "set (fused_agent_ids ev) \<subseteq> dom (gget byID)" "length (fused_agent_ids ev) \<le> 100"
  using assms
  by (auto simp: fused_agent_ids_def evidence_ok_def gwf_def simp del: set_map dest!: in_set_takeD)

section \<open>The candidates by identifier\<close>

lemma index_by_id_keys:
  assumes "index_by_id cs byID = Inr byID'"
  shows "gget byID' = (\<lambda>i. case map_of (map (\<lambda>c. (cd_AgentID c, c)) cs) i of Some c \<Rightarrow> Some c | None \<Rightarrow> gget byID i)"
    and "distinct (map cd_AgentID cs)"
  using assms
proof (induction cs arbitrary: byID)
  case (Cons c cs)
  case 1
  then have new: "gget byID (cd_AgentID c) = None" and rest: "index_by_id cs (gput (cd_AgentID c) c byID) = Inr byID'"
    by (auto split: if_splits)
  have "cd_AgentID c \<notin> cd_AgentID ` set cs"
  proof
    assume "cd_AgentID c \<in> cd_AgentID ` set cs"
    moreover have "index_by_id cs b = Inr b' \<Longrightarrow> gget b i \<noteq> None \<Longrightarrow> i \<notin> cd_AgentID ` set cs" for b b' i cs
      by (induction cs arbitrary: b) (auto split: if_splits)
    ultimately show False using rest by force
  qed
  then have "map_of (map (\<lambda>c. (cd_AgentID c, c)) cs) (cd_AgentID c) = None"
    by (auto simp: map_of_eq_None_iff)
  with Cons.IH(1) [OF rest] show ?case by (auto simp: fun_eq_iff split: option.split)
next
  case (Cons c cs)
  case 2
  then have rest: "index_by_id cs (gput (cd_AgentID c) c byID) = Inr byID'" by (auto split: if_splits)
  have "index_by_id cs b = Inr b' \<Longrightarrow> gget b i \<noteq> None \<Longrightarrow> i \<notin> cd_AgentID ` set cs" for b b' i cs
    by (induction cs arbitrary: b) (auto split: if_splits)
  with rest Cons.IH(2) [OF rest] show ?case by force
qed simp_all

lemma index_by_id_get:
  assumes "index_by_id cs [] = Inr byID" "gget byID i = Some c"
  shows "c \<in> set cs \<and> cd_AgentID c = i"
proof -
  have "map_of (map (\<lambda>c. (cd_AgentID c, c)) cs) i = Some c"
    using assms(2) by (simp add: index_by_id_keys(1) [OF assms(1)] split: option.splits)
  then show ?thesis by (auto dest!: map_of_SomeD)
qed

section \<open>The scoring loop\<close>

definition scored_ok :: "match_request \<Rightarrow> (string, evidence) gomap \<Rightarrow> (string, candidate) gomap \<Rightarrow> scored_candidate \<Rightarrow> bool" where
  "scored_ok request ev byID s \<longleftrightarrow>
     gget byID (agent_id s) = Some (sc_Candidate s) \<and> sc_Recall s = evidence_of ev (agent_id s) \<and>
     (\<exists>delta. sc_Score s = apply_model_delta (rule_score request (sc_Candidate s) (sc_Recall s)) delta)"

lemma score_loop_ok:
  assumes "score_loop svc request byID ev ids scored ds = (scored', ds')"
    and "\<And>i c. gget byID i = Some c \<Longrightarrow> cd_AgentID c = i" "set ids \<subseteq> dom (gget byID)"
    and "\<forall>s \<in> set scored. scored_ok request ev byID s"
  shows "(\<forall>s \<in> set scored'. scored_ok request ev byID s) \<and> map agent_id scored' = map agent_id scored @ ids"
  using assms(1,3,4)
proof (induction ids arbitrary: scored ds)
  case (Cons i ids)
  then obtain c where c: "gget byID i = Some c" by auto
  obtain delta ds1 where d: "model_delta svc request c (rule_score request c (evidence_of ev i)) ds = (delta, ds1)"
    by (cases "model_delta svc request c (rule_score request c (evidence_of ev i)) ds")
  let ?s = "\<lparr>sc_Candidate = c, sc_Recall = evidence_of ev i, sc_Score = apply_model_delta (rule_score request c (evidence_of ev i)) delta\<rparr>"
  have "scored_ok request ev byID ?s" using c assms(2) [OF c] by (auto simp: scored_ok_def)
  with Cons.IH [of "scored @ [?s]" ds1] Cons.prems c d assms(2) [OF c] show ?case by (simp add: Let_def)
qed simp

section \<open>The qualified pool\<close>

definition above_floor :: "int \<Rightarrow> scored_candidate \<Rightarrow> bool" where
  "above_floor best c \<longleftrightarrow> QualificationFloor \<le> rule_score_of c \<and> QualificationFloor \<le> ranking_score c \<and>
     best - MaximumScoreGap \<le> ranking_score c"

lemma qualify_loop_eq:
  "length kept < MaxQualifiedPool \<Longrightarrow>
   qualify_loop best cs kept = kept @ take (MaxQualifiedPool - length kept) (filter (above_floor best) cs)"
proof (induction cs arbitrary: kept)
  case (Cons c cs)
  show ?case
  proof (cases "above_floor best c")
    case True
    then have "qualify_loop best (c # cs) kept =
        (if length (kept @ [c]) = MaxQualifiedPool then kept @ [c] else qualify_loop best cs (kept @ [c]))"
      by (simp add: above_floor_def Let_def)
    moreover have "MaxQualifiedPool - length kept = Suc (MaxQualifiedPool - length (kept @ [c]))"
      using Cons.prems by simp
    ultimately show ?thesis using Cons.IH [of "kept @ [c]"] Cons.prems True by (auto simp: take_Suc_conv_app_nth)
  next
    case False
    then have "qualify_loop best (c # cs) kept = qualify_loop best cs kept"
      by (auto simp: above_floor_def)
    with Cons False show ?thesis by simp
  qed
qed simp

lemma qualify_eq:
  "qualify scored = (case scored of [] \<Rightarrow> [] | c # _ \<Rightarrow> take MaxQualifiedPool (filter (above_floor (ranking_score c)) scored))"
  by (cases scored) (simp_all add: qualify_def qualify_loop_eq del: qualify_loop.simps)

end
