(* ===== verification/Matching_Shuffle.thy ===== *)
theory Matching_Shuffle
  imports Matching_Service "HOL-Library.Word"
begin

text \<open>
  The fair shuffle (\<open>internal/matching/shuffle.go\<close>). HMAC-SHA256 and SHA-256 are parameters. The draw
  loop rejects words below a threshold and may run for ever, so it is a partial function: \<open>None\<close> is a
  loop that never accepts. Everything above it returns an optional result.
\<close>

section \<open>Data\<close>

abbreviation FairShuffleAlgorithmVersion :: string where "FairShuffleAlgorithmVersion \<equiv> ''fair-shuffle-v1''"
abbreviation DefaultSelectionLimit :: int where "DefaultSelectionLimit \<equiv> 3"
abbreviation ExplorationExposureLimit :: int where "ExplorationExposureLimit \<equiv> 100"
abbreviation ExplorationSampleLimit :: int where "ExplorationSampleLimit \<equiv> 20"

record match_env =
  me_sha :: "string \<Rightarrow> string"
  me_hmac :: "string \<Rightarrow> string \<Rightarrow> string"

record seed_context =
  sx_TaskID :: string
  sx_TaskSpecHash :: string
  sx_MatchRevision :: int
  sx_AlgorithmVersion :: string

record shuffle_policy =
  sp_SeedKeyVersion :: string
  sp_SeedSecret :: string
  sp_ExplorationBasisPoints :: int
  sp_ProviderCap :: int
  sp_SelectionLimit :: int

record selection =
  sel_Candidate :: scored_candidate
  sel_Position :: int
  sel_Weight :: int
  sel_ProbabilityNumerator :: int
  sel_ProbabilityDenominator :: int
  sel_RandomDraw :: "64 word"
  sel_Exploration :: bool

record shuffle_result =
  shr_AlgorithmVersion :: string
  shr_SeedDigest :: string
  shr_SeedKeyVersion :: string
  shr_ExplorationTriggered :: bool
  shr_Selections :: "selection list"

definition default_shuffle_policy :: "string \<Rightarrow> string \<Rightarrow> shuffle_policy" where
  "default_shuffle_policy seedKeyVersion seedSecret =
     \<lparr>sp_SeedKeyVersion = seedKeyVersion, sp_SeedSecret = seedSecret, sp_ExplorationBasisPoints = 1500,
      sp_ProviderCap = 1, sp_SelectionLimit = DefaultSelectionLimit\<rparr>"

section \<open>Validation\<close>

fun validate_pool :: "int \<Rightarrow> string list \<Rightarrow> scored_candidate list \<Rightarrow> match_error + unit" where
  "validate_pool best seen [] = Inr ()"
| "validate_pool best seen (c # cs) =
     (if blank (agent_id c) \<or> blank (provider_id c) then Inl MErrIdentity
      else if agent_id c \<in> set seen then Inl (MErrDuplicate (agent_id c))
      else if rule_score_of c < QualificationFloor \<or> ranking_score c < QualificationFloor \<or> ranking_score c < best - MaximumScoreGap
      then Inl (MErrOutsidePool (agent_id c))
      else if cd_ExposureCount (sc_Candidate c) < 0 \<or> cd_EffectiveSamples (sc_Candidate c) < 0
      then Inl (MErrCounters (agent_id c))
      else validate_pool best (agent_id c # seen) cs)"

definition best_ranking :: "scored_candidate list \<Rightarrow> int" where
  "best_ranking pool = foldl (\<lambda>best c. if ranking_score c > best then ranking_score c else best) 0 pool"

definition validate_shuffle_input :: "scored_candidate list \<Rightarrow> seed_context \<Rightarrow> shuffle_policy \<Rightarrow> match_error + unit" where
  "validate_shuffle_input pool sx policy =
     (if blank (sx_TaskID sx) \<or> \<not> valid_digest (sx_TaskSpecHash sx) \<or> sx_MatchRevision sx < 1 \<or>
         sx_AlgorithmVersion sx \<noteq> FairShuffleAlgorithmVersion then Inl MErrSeedContext
      else if blank (sp_SeedKeyVersion policy) \<or> length (sp_SeedSecret policy) < 32 then Inl MErrSecret
      else if sp_ExplorationBasisPoints policy < 0 \<or> sp_ExplorationBasisPoints policy > 10000 \<or>
              sp_ProviderCap policy < 1 \<or> sp_SelectionLimit policy < 1 \<or>
              sp_SelectionLimit policy > DefaultSelectionLimit then Inl MErrPolicy
      else if length pool > MaxQualifiedPool then Inl MErrPoolSize
      else validate_pool (best_ranking pool) [] pool)"

section \<open>Drawing\<close>

definition derive_seed :: "match_env \<Rightarrow> seed_context \<Rightarrow> shuffle_policy \<Rightarrow> string" where
  "derive_seed E sx policy = me_hmac E (sp_SeedSecret policy)
     (write_seed_field (sx_TaskID sx) @ write_seed_field (sx_TaskSpecHash sx) @
      be_bytes 8 (nat (sx_MatchRevision sx mod 2 ^ 64)) @
      write_seed_field (sx_AlgorithmVersion sx) @ write_seed_field (sp_SeedKeyVersion policy))"

definition draw_value :: "match_env \<Rightarrow> string \<Rightarrow> string \<Rightarrow> 64 word \<Rightarrow> 64 word" where
  "draw_value E seed domain counter =
     of_nat (be_value (take 8 (me_hmac E seed (write_seed_field domain @ be_bytes 8 (unat counter)))))"

partial_function (option) draw_loop ::
    "match_env \<Rightarrow> string \<Rightarrow> string \<Rightarrow> 64 word \<Rightarrow> 64 word \<Rightarrow> 64 word \<Rightarrow> 64 word option" where
  "draw_loop E seed domain bound threshold counter =
     (let v = draw_value E seed domain counter in
      if v \<ge> threshold then Some (v mod bound)
      else draw_loop E seed domain bound threshold (counter + 1))"

definition draw_threshold :: "64 word \<Rightarrow> 64 word" where
  "draw_threshold bound = (- bound) mod bound"

definition deterministic_draw :: "match_env \<Rightarrow> string \<Rightarrow> string \<Rightarrow> 64 word \<Rightarrow> (match_error + 64 word) option" where
  "deterministic_draw E seed domain bound =
     (if bound = 0 then Some (Inl MPanic)
      else map_option Inr (draw_loop E seed domain bound (draw_threshold bound) 0))"

definition selection_weight :: "int \<Rightarrow> int" where
  "selection_weight rankingScore = max 1 (rankingScore - QualificationFloor + 1)"

abbreviation weight_of :: "scored_candidate \<Rightarrow> int" where
  "weight_of c \<equiv> selection_weight (ranking_score c)"

definition total_weight :: "scored_candidate list \<Rightarrow> int" where
  "total_weight pool = foldl (\<lambda>t c. t + weight_of c) 0 pool"

fun pick :: "64 word \<Rightarrow> 64 word \<Rightarrow> scored_candidate list \<Rightarrow> scored_candidate option" where
  "pick draw cursor [] = None"
| "pick draw cursor (c # cs) =
     (let cursor' = cursor + word_of_int (weight_of c) in
      if draw < cursor' then Some c else pick draw cursor' cs)"

definition weighted_draw ::
    "match_env \<Rightarrow> string \<Rightarrow> string \<Rightarrow> scored_candidate list \<Rightarrow> (match_error + scored_candidate \<times> 64 word \<times> int) option" where
  "weighted_draw E seed domain pool =
     (let stable = sort_func (key_cmp agent_id) pool; totalW = total_weight stable in
      case deterministic_draw E seed domain (word_of_int totalW) of
        None \<Rightarrow> None
      | Some (Inl e) \<Rightarrow> Some (Inl e)
      | Some (Inr draw) \<Rightarrow>
          (case pick draw 0 stable of
             None \<Rightarrow> Some (Inl MPanic)
           | Some c \<Rightarrow> Some (Inr (c, draw, totalW))))"

section \<open>The shuffle\<close>

definition selected_count :: "(string, int) gomap \<Rightarrow> string \<Rightarrow> int" where
  "selected_count m p = (case gget m p of None \<Rightarrow> 0 | Some n \<Rightarrow> n)"

definition provider_eligible :: "scored_candidate list \<Rightarrow> (string, int) gomap \<Rightarrow> int \<Rightarrow> scored_candidate list" where
  "provider_eligible pool selected cap = filter (\<lambda>c. \<not> (selected_count selected (provider_id c) \<ge> cap)) pool"

definition is_exploration_candidate :: "candidate \<Rightarrow> bool" where
  "is_exploration_candidate c \<longleftrightarrow> cd_ExposureCount c < ExplorationExposureLimit \<or> cd_EffectiveSamples c < ExplorationSampleLimit"

definition draw_domain :: "int \<Rightarrow> bool \<Rightarrow> string" where
  "draw_domain position exploration =
     ''position:'' @ bigint_string position @ '':exploration:'' @ (if exploration then ''true'' else ''false'')"

text \<open>The pool of a draw, and whether it is the exploration pool.\<close>

definition draw_pool :: "bool \<Rightarrow> int \<Rightarrow> scored_candidate list \<Rightarrow> scored_candidate list \<times> bool" where
  "draw_pool triggered position available =
     (if position = 3 \<and> triggered then
        (let explorationPool = filter (\<lambda>c. is_exploration_candidate (sc_Candidate c)) available
         in if explorationPool \<noteq> [] then (explorationPool, True) else (available, False))
      else (available, False))"

fun shuffle_loop ::
    "match_env \<Rightarrow> string \<Rightarrow> bool \<Rightarrow> int \<Rightarrow> int list \<Rightarrow> scored_candidate list \<Rightarrow> (string, int) gomap \<Rightarrow> selection list \<Rightarrow>
     (match_error + selection list) option" where
  "shuffle_loop E seed triggered cap [] remaining selected selections = Some (Inr selections)"
| "shuffle_loop E seed triggered cap (position # positions) remaining selected selections =
     (let available = provider_eligible remaining selected cap in
      if available = [] then Some (Inr selections)
      else
        let (pool, exploration) = draw_pool triggered position available in
        case weighted_draw E seed (draw_domain position exploration) pool of
          None \<Rightarrow> None
        | Some (Inl e) \<Rightarrow> Some (Inl e)
        | Some (Inr (c, draw, totalW)) \<Rightarrow>
            shuffle_loop E seed triggered cap positions
              (filter (\<lambda>d. agent_id d \<noteq> agent_id c) remaining)
              (gput (provider_id c) (selected_count selected (provider_id c) + 1) selected)
              (selections @ [\<lparr>sel_Candidate = c, sel_Position = position, sel_Weight = weight_of c,
                 sel_ProbabilityNumerator = weight_of c, sel_ProbabilityDenominator = totalW,
                 sel_RandomDraw = draw, sel_Exploration = exploration\<rparr>]))"

definition fair_shuffle ::
    "match_env \<Rightarrow> scored_candidate list \<Rightarrow> seed_context \<Rightarrow> shuffle_policy \<Rightarrow> (match_error + shuffle_result) option" where
  "fair_shuffle E pool sx policy =
     (case validate_shuffle_input pool sx policy of
        Inl e \<Rightarrow> Some (Inl e)
      | Inr _ \<Rightarrow>
          let seed = derive_seed E sx policy in
          (case deterministic_draw E seed ''exploration'' 10000 of
             None \<Rightarrow> None
           | Some (Inl e) \<Rightarrow> Some (Inl e)
           | Some (Inr d) \<Rightarrow>
               let triggered = d < word_of_int (sp_ExplorationBasisPoints policy) in
               (case shuffle_loop E seed triggered (sp_ProviderCap policy) [1..sp_SelectionLimit policy] pool [] [] of
                  None \<Rightarrow> None
                | Some (Inl e) \<Rightarrow> Some (Inl e)
                | Some (Inr selections) \<Rightarrow> Some (Inr
                    \<lparr>shr_AlgorithmVersion = sx_AlgorithmVersion sx, shr_SeedDigest = sha_string (me_sha E seed),
                     shr_SeedKeyVersion = sp_SeedKeyVersion policy, shr_ExplorationTriggered = triggered,
                     shr_Selections = selections\<rparr>))))"

end
