(* ===== verification/Matching_Fair.thy ===== *)
theory Matching_Fair
  imports Matching_Shuffle
begin

text \<open>The draw of one candidate and the fairness of the shuffle of a pool.\<close>

text \<open>
  The fairness of a draw. The rejection threshold leaves a number of words divisible by the bound, so
  every residue is hit by the same number of accepted words; a candidate owns as many residues as its
  weight. Together: among the accepted words, exactly \<open>weight * (2 ^ 64 div total)\<close> select a candidate.
\<close>

section \<open>Accepted words\<close>

lemma residue_block:
  fixes b r s :: nat
  assumes "r < b"
  shows "card {w \<in> {s..<s + b}. w mod b = r} = 1"
proof -
  have "\<exists>!w. w \<in> {s..<s + b} \<and> w mod b = r"
  proof
    let ?w = "s + (r + (b - s mod b)) mod b"
    have "(s + (r + (b - s mod b)) mod b) mod b = (s mod b + (r + (b - s mod b))) mod b"
      by (simp add: mod_simps)
    also have "s mod b + (r + (b - s mod b)) = r + b"
      using mod_less_divisor [of b s] assms by linarith
    finally show "?w \<in> {s..<s + b} \<and> ?w mod b = r" using assms by simp
  next
    fix w assume w: "w \<in> {s..<s + b} \<and> w mod b = r"
    show "w = s + (r + (b - s mod b)) mod b"
    proof -
      let ?v = "s + (r + (b - s mod b)) mod b"
      have "?v mod b = (s mod b + (r + (b - s mod b))) mod b" by (simp add: mod_simps)
      also have "s mod b + (r + (b - s mod b)) = r + b"
        using mod_less_divisor [of b s] assms by linarith
      finally have m: "?v mod b = w mod b" using assms w by simp
      have v: "s \<le> ?v" "?v < s + b" "s \<le> w" "w < s + b" using assms w by auto
      show ?thesis
      proof (cases "w \<le> ?v")
        case True
        then have "b dvd ?v - w" using m by (simp add: mod_eq_dvd_iff_nat)
        moreover have "?v - w < b" using v by linarith
        ultimately have "?v - w = 0" using nat_dvd_not_less by blast
        then show ?thesis using True by linarith
      next
        case False
        then have "b dvd w - ?v" using m [symmetric] by (simp add: mod_eq_dvd_iff_nat)
        moreover have "w - ?v < b" using v by linarith
        ultimately have "w - ?v = 0" using nat_dvd_not_less by blast
        then show ?thesis using False by linarith
      qed
    qed
  qed
  then obtain w where "{w \<in> {s..<s + b}. w mod b = r} = {w}" by blast
  then show ?thesis by simp
qed

lemma residue_count:
  fixes b r s k :: nat
  assumes "r < b"
  shows "card {w \<in> {s..<s + b * k}. w mod b = r} = k"
proof (induction k)
  case (Suc k)
  have "{w \<in> {s..<s + b * Suc k}. w mod b = r} =
      {w \<in> {s..<s + b * k}. w mod b = r} \<union> {w \<in> {s + b * k..<s + b * k + b}. w mod b = r}"
    by auto
  moreover have "card (\<dots>) = card {w \<in> {s..<s + b * k}. w mod b = r} + card {w \<in> {s + b * k..<s + b * k + b}. w mod b = r}"
    by (intro card_Un_disjoint) auto
  ultimately show ?case using Suc residue_block [OF assms] by simp
qed simp

definition accepted :: "64 word \<Rightarrow> 64 word \<Rightarrow> bool" where
  "accepted bound w \<longleftrightarrow> draw_threshold bound \<le> w"

lemma draw_threshold_value:
  assumes "bound \<noteq> 0"
  shows "unat (draw_threshold bound) = 2 ^ 64 mod unat bound"
proof -
  have u: "unat (- bound) = 2 ^ 64 - unat bound"
    using assms unat_sub_if_size [of 0 bound] by (simp add: word_size unat_gt_0)
  have "unat bound < 2 ^ 64" using unsigned_less [where 'a = nat, of bound] by simp
  then have "(2 ^ 64 - unat bound) mod unat bound = 2 ^ 64 mod unat bound"
    by (simp add: le_mod_geq)
  then show ?thesis by (simp add: draw_threshold_def unat_mod u)
qed

lemma word_set_card: "card {w :: 64 word. P (unat w)} = card {n \<in> {0..<2 ^ 64}. P n}"
proof -
  have "bij_betw unat {w :: 64 word. P (unat w)} {n \<in> {0..<2 ^ 64}. P n}"
  proof (rule bij_betw_byWitness [where f' = of_nat])
    show "\<forall>n \<in> {n \<in> {0..<2 ^ 64}. P n}. unat (of_nat n :: 64 word) = n"
      by (auto simp: unat_of_nat)
    show "of_nat ` {n \<in> {0..<2 ^ 64}. P n} \<subseteq> {w :: 64 word. P (unat w)}"
      by (auto simp: unat_of_nat)
    show "unat ` {w :: 64 word. P (unat w)} \<subseteq> {n \<in> {0..<2 ^ 64}. P n}"
      using unsigned_less [where 'a = nat and 'b = 64] by auto
  qed simp
  then show ?thesis by (rule bij_betw_same_card)
qed

lemma accepted_residues:
  assumes "bound \<noteq> 0" "r < bound"
  shows "card {w :: 64 word. accepted bound w \<and> w mod bound = r} = 2 ^ 64 div unat bound"
proof -
  let ?b = "unat bound" and ?t = "2 ^ 64 mod unat bound"
  have "{w :: 64 word. accepted bound w \<and> w mod bound = r} = {w. ?t \<le> unat w \<and> unat w mod ?b = unat r}"
    by (simp add: accepted_def word_le_nat_alt draw_threshold_value [OF assms(1)] unat_mod [symmetric] word_unat_eq_iff)
  also have "card \<dots> = card {n \<in> {0..<2 ^ 64}. ?t \<le> n \<and> n mod ?b = unat r}"
    using word_set_card [of "\<lambda>n. ?t \<le> n \<and> n mod ?b = unat r"] by simp
  also have "{n \<in> {0..<2 ^ 64}. ?t \<le> n \<and> n mod ?b = unat r} = {n \<in> {?t..<?t + ?b * (2 ^ 64 div ?b)}. n mod ?b = unat r}"
    by (auto simp: mod_mult_div_eq)
  also have "card \<dots> = 2 ^ 64 div ?b"
    using assms(2) by (intro residue_count) (simp add: word_less_nat_alt)
  finally show ?thesis .
qed

section \<open>The draw loop\<close>

lemma draw_loop_result:
  assumes "draw_loop E seed domain bound threshold counter = Some v"
  shows "\<exists>c. threshold \<le> draw_value E seed domain c \<and> v = draw_value E seed domain c mod bound"
  by (rule draw_loop.raw_induct [OF _ assms]) (auto simp: Let_def split: if_splits)

lemma draw_loop_returns:
  assumes "threshold \<le> draw_value E seed domain (counter + of_nat n)"
  shows "draw_loop E seed domain bound threshold counter \<noteq> None"
  using assms
proof (induction n arbitrary: counter)
  case 0
  then show ?case by (subst draw_loop.simps) (simp add: Let_def)
next
  case (Suc n)
  have "draw_loop E seed domain bound threshold (counter + 1) \<noteq> None"
    using Suc.prems by (intro Suc.IH) (simp add: algebra_simps)
  then show ?case by (subst draw_loop.simps) (simp add: Let_def)
qed

text \<open>Some counter is accepted: what the code relies on for the loop to end.\<close>

definition draw_returns :: "match_env \<Rightarrow> string \<Rightarrow> bool" where
  "draw_returns E seed \<longleftrightarrow> (\<forall>domain bound. \<exists>c. accepted bound (draw_value E seed domain c))"

lemma deterministic_draw_returns:
  assumes "\<exists>c. accepted bound (draw_value E seed domain c)" "bound \<noteq> 0"
  shows "\<exists>v. deterministic_draw E seed domain bound = Some (Inr v) \<and> v < bound"
proof -
  from assms(1) obtain c where c: "draw_threshold bound \<le> draw_value E seed domain c" by (auto simp: accepted_def)
  have "draw_loop E seed domain bound (draw_threshold bound) 0 \<noteq> None"
    by (rule draw_loop_returns [where n = "unat c"]) (simp add: c)
  then obtain v where v: "draw_loop E seed domain bound (draw_threshold bound) 0 = Some v" by blast
  from draw_loop_result [OF this] have "v < bound"
    using assms(2) by (auto simp: word_mod_less_divisor word_neq_0_conv)
  with v assms(2) show ?thesis by (simp add: deterministic_draw_def)
qed

lemma deterministic_draw_bound:
  assumes "deterministic_draw E seed domain bound = Some (Inr v)"
  shows "v < bound"
  using assms draw_loop_result [of E seed domain bound "draw_threshold bound" 0 v]
  by (auto simp: deterministic_draw_def word_mod_less_divisor word_neq_0_conv split: if_splits)

lemma deterministic_draw_error:
  "deterministic_draw E seed domain bound = Some (Inl e) \<Longrightarrow> bound = 0"
  by (auto simp: deterministic_draw_def split: if_splits)

text \<open>
  The weighted draw gives every candidate its weight, and the shuffle's result: distinct agents,
  the provider cap, consecutive positions, exploration at the third position only, maximality, and
  independence of the order of the pool.
\<close>

section \<open>The owner of a residue\<close>

fun owner :: "int \<Rightarrow> scored_candidate list \<Rightarrow> scored_candidate option" where
  "owner d [] = None"
| "owner d (c # cs) = (if d < weight_of c then Some c else owner (d - weight_of c) cs)"

lemma weight_pos [simp]: "1 \<le> weight_of c" "0 < weight_of c" "0 \<le> weight_of c"
  by (simp_all add: selection_weight_def)

lemma total_weight_Cons: "total_weight (c # cs) = weight_of c + total_weight cs"
proof -
  have "foldl (\<lambda>t c. t + weight_of c) (a + b) cs = a + foldl (\<lambda>t c. t + weight_of c) b cs" for a b cs
    by (induction cs arbitrary: b) (simp_all add: add.assoc)
  from this [of "weight_of c" 0 cs] show ?thesis by (simp add: total_weight_def)
qed

lemma total_weight_Nil [simp]: "total_weight [] = 0"
  by (simp add: total_weight_def)

lemma total_weight_sum: "total_weight cs = sum_list (map weight_of cs)"
  by (induction cs) (simp_all add: total_weight_Cons)

lemma total_weight_mset: "mset cs = mset ds \<Longrightarrow> total_weight cs = total_weight ds"
  by (metis mset_map sum_mset_sum_list total_weight_sum)

lemma total_weight_nonneg: "0 \<le> total_weight cs"
  by (induction cs) (auto simp: total_weight_Cons intro: add_nonneg_nonneg less_imp_le)

lemma total_weight_pos: "cs \<noteq> [] \<Longrightarrow> 0 < total_weight cs"
  by (cases cs) (auto simp: total_weight_Cons intro: add_pos_nonneg total_weight_nonneg)

lemma owner_range: "owner d cs = Some c \<Longrightarrow> c \<in> set cs \<and> d < total_weight cs"
proof (induction cs arbitrary: d)
  case (Cons a cs)
  show ?case
  proof (cases "d < weight_of a")
    case True
    then show ?thesis using Cons.prems total_weight_nonneg [of cs] by (auto simp: total_weight_Cons)
  next
    case False
    then show ?thesis using Cons.prems Cons.IH [of "d - weight_of a"] by (auto simp: total_weight_Cons)
  qed
qed simp

lemma owner_total: "0 \<le> d \<Longrightarrow> d < total_weight cs \<Longrightarrow> owner d cs \<noteq> None"
  by (induction cs arbitrary: d) (auto simp: total_weight_Cons)

lemma owner_count:
  assumes "distinct cs" "c \<in> set cs"
  shows "card {d :: nat. owner (int d) cs = Some c} = nat (weight_of c)"
  using assms
proof (induction cs)
  case (Cons a cs)
  obtain n where n: "weight_of a = int n" using weight_pos(2) [of a] by (meson less_imp_le zero_le_imp_eq_int)
  show ?case
  proof (cases "a = c")
    case True
    have "owner (int d - weight_of a) cs \<noteq> Some c" for d
      using owner_range [of "int d - weight_of a" cs c] Cons.prems(1) True by auto
    then have "{d. owner (int d) (a # cs) = Some c} = {d. int d < weight_of a}" using True by auto
    then show ?thesis using n True by simp
  next
    case False
    have "owner (int d) (a # cs) = Some c \<longleftrightarrow> n \<le> d \<and> owner (int (d - n)) cs = Some c" for d
      using False n by (cases "n \<le> d") (simp_all add: of_nat_diff)
    moreover have "{d. n \<le> d \<and> P (d - n)} = (+) n ` {d. P d}" for P
    proof
      show "{d. n \<le> d \<and> P (d - n)} \<subseteq> (+) n ` {d. P d}"
      proof
        fix d assume "d \<in> {d. n \<le> d \<and> P (d - n)}"
        then show "d \<in> (+) n ` {d. P d}" by (intro image_eqI [of _ _ "d - n"]) simp_all
      qed
    qed auto
    ultimately have "{d. owner (int d) (a # cs) = Some c} = (+) n ` {d. owner (int d) cs = Some c}"
      by (simp only:)
    then show ?thesis using Cons False by (simp add: card_image)
  qed
qed simp

lemma pick_owner:
  assumes "uint cursor + total_weight cs < 2 ^ 64" "uint cursor \<le> uint draw"
  shows "pick draw cursor cs = owner (uint draw - uint cursor) cs"
  using assms
proof (induction cs arbitrary: cursor)
  case (Cons c cs)
  have w: "0 < weight_of c" "uint cursor + weight_of c < 2 ^ 64"
    using Cons.prems(1) total_weight_nonneg [of cs] by (simp_all add: total_weight_Cons)
  have u: "uint (cursor + word_of_int (weight_of c)) = uint cursor + weight_of c"
  proof -
    have "0 \<le> uint cursor" by simp
    with w have "weight_of c < 2 ^ 64" "0 \<le> uint cursor + weight_of c" by linarith+
    moreover from this w have "weight_of c mod 2 ^ 64 = weight_of c"
      by (intro mod_pos_pos_trivial) simp_all
    ultimately show ?thesis using w by (simp add: uint_word_ariths uint_word_of_int)
  qed
  have "draw < cursor + word_of_int (weight_of c) \<longleftrightarrow> uint draw - uint cursor < weight_of c"
    by (auto simp: word_less_def u)
  moreover have "pick draw (cursor + word_of_int (weight_of c)) cs = owner (uint draw - (uint cursor + weight_of c)) cs"
    if "\<not> uint draw - uint cursor < weight_of c"
    using Cons.IH [of "cursor + word_of_int (weight_of c)"] Cons.prems(1) that
    by (simp add: u total_weight_Cons algebra_simps)
  ultimately show ?case by (auto simp: Let_def algebra_simps)
qed simp

section \<open>The weighted draw\<close>

definition small_pool :: "scored_candidate list \<Rightarrow> bool" where
  "small_pool pool \<longleftrightarrow> length pool \<le> MaxQualifiedPool \<and> (\<forall>c \<in> set pool. ranking_score c \<le> 100)"

lemma small_pool_total: "small_pool pool \<Longrightarrow> total_weight pool \<le> 820"
proof -
  have "\<forall>c \<in> set pool. ranking_score c \<le> 100 \<Longrightarrow> total_weight pool \<le> 41 * int (length pool)" for pool
    by (induction pool) (auto simp: total_weight_Cons selection_weight_def)
  then show "small_pool pool \<Longrightarrow> total_weight pool \<le> 820"
    by (fastforce simp: small_pool_def)
qed

lemma small_pool_subset: "small_pool pool \<Longrightarrow> set xs \<subseteq> set pool \<Longrightarrow> length xs \<le> length pool \<Longrightarrow> small_pool xs"
  by (auto simp: small_pool_def)

abbreviation by_agent :: "scored_candidate list \<Rightarrow> scored_candidate list" where
  "by_agent \<equiv> sort_func (key_cmp agent_id)"

lemma total_by_agent [simp]: "total_weight (by_agent pool) = total_weight pool"
  by (rule total_weight_mset) simp

lemma pick_by_agent:
  assumes "small_pool pool"
  shows "pick draw 0 (by_agent pool) = owner (uint draw) (by_agent pool)"
  using pick_owner [of 0 "by_agent pool" draw] small_pool_total [OF assms] by simp

lemma weighted_draw_result:
  assumes "weighted_draw E seed domain pool = Some (Inr (c, draw, t))"
  shows "c \<in> set pool \<and> t = total_weight pool \<and> deterministic_draw E seed domain (word_of_int t) = Some (Inr draw)"
proof -
  have pick_mem: "pick d k cs = Some c \<Longrightarrow> c \<in> set cs" for d k cs
    by (induction cs arbitrary: k) (auto simp: Let_def split: if_splits)
  from assms have "pick draw 0 (by_agent pool) = Some c" "t = total_weight pool"
    "deterministic_draw E seed domain (word_of_int t) = Some (Inr draw)"
    by (auto simp: weighted_draw_def Let_def split: option.splits sum.splits)
  with pick_mem show ?thesis by fastforce
qed

lemma weighted_draw_no_error:
  assumes "small_pool pool" "pool \<noteq> []"
  shows "weighted_draw E seed domain pool \<noteq> Some (Inl e)"
proof
  assume w: "weighted_draw E seed domain pool = Some (Inl e)"
  let ?B = "word_of_int (total_weight pool) :: 64 word"
  have t: "0 < total_weight pool" "total_weight pool \<le> 820"
    using total_weight_pos [OF assms(2)] small_pool_total [OF assms(1)] by simp_all
  then have u: "uint ?B = total_weight pool" by (simp add: uint_word_of_int)
  then have "?B \<noteq> 0" using t by auto
  with w obtain draw where d: "deterministic_draw E seed domain ?B = Some (Inr draw)" and p: "pick draw 0 (by_agent pool) = None"
    by (auto simp: weighted_draw_def Let_def dest: deterministic_draw_error split: option.splits sum.splits)
  from deterministic_draw_bound [OF d] have "uint draw < total_weight pool" by (simp add: word_less_def u)
  then have "owner (uint draw) (by_agent pool) \<noteq> None" by (intro owner_total) simp_all
  with p pick_by_agent [OF assms(1)] show False by simp
qed

text \<open>Among the accepted words, each candidate is selected by its weight's share.\<close>

lemma weighted_draw_share:
  assumes "small_pool pool" "distinct pool" "c \<in> set pool"
  defines "B \<equiv> word_of_int (total_weight pool) :: 64 word"
  shows "card {w. accepted B w \<and> pick (w mod B) 0 (by_agent pool) = Some c} =
    nat (weight_of c) * (2 ^ 64 div nat (total_weight pool))"
proof -
  have t: "0 < total_weight pool" "total_weight pool \<le> 820"
    using total_weight_pos [of pool] small_pool_total [OF assms(1)] assms(3) by (auto dest: length_pos_if_in_set)
  then have u: "uint B = total_weight pool" by (simp add: B_def uint_word_of_int)
  then have B: "B \<noteq> 0" "unat B = nat (total_weight pool)" using t by (auto simp: unat_eq_nat_uint)
  define R where "R = {r :: 64 word. owner (uint r) (by_agent pool) = Some c}"
  have R_less: "r < B" if "r \<in> R" for r
    using that owner_range [of "uint r" "by_agent pool" c] by (simp add: R_def word_less_def u)
  have "bij_betw unat R {d. owner (int d) (by_agent pool) = Some c}"
  proof (rule bij_betw_byWitness [where f' = of_nat])
    show "\<forall>d \<in> {d. owner (int d) (by_agent pool) = Some c}. unat (of_nat d :: 64 word) = d"
      using owner_range [of _ "by_agent pool" c] t(2) by (fastforce simp: unat_of_nat)
    then show "of_nat ` {d. owner (int d) (by_agent pool) = Some c} \<subseteq> R"
      by (auto simp: R_def) (metis int_ops(8) mem_Collect_eq of_nat_unat)
    show "unat ` R \<subseteq> {d. owner (int d) (by_agent pool) = Some c}" by (auto simp: R_def)
  qed simp
  then have "card R = nat (weight_of c)"
    using owner_count [of "by_agent pool" c] assms(2,3) by (simp add: bij_betw_same_card)
  moreover have "{w. accepted B w \<and> pick (w mod B) 0 (by_agent pool) = Some c} = (\<Union>r \<in> R. {w. accepted B w \<and> w mod B = r})"
    by (auto simp: R_def pick_by_agent [OF assms(1)])
  moreover have "card (\<Union>r \<in> R. {w. accepted B w \<and> w mod B = r}) = (\<Sum>r \<in> R. card {w. accepted B w \<and> w mod B = r})"
    by (intro card_UN_disjoint) auto
  moreover have "(\<Sum>r \<in> R. card {w. accepted B w \<and> w mod B = r}) = (\<Sum>r \<in> R. 2 ^ 64 div nat (total_weight pool))"
    using accepted_residues [OF B(1)] R_less by (intro sum.cong) (auto simp: B(2))
  ultimately show ?thesis by simp
qed

end
