(* ===== verification/Matching_Selection.thy ===== *)
theory Matching_Selection
  imports Matching_Fair
begin

text \<open>
  The specification of the shuffle's result, selection by selection, and the facts that follow from it.
\<close>

section \<open>The specification\<close>

definition chosen :: "selection list \<Rightarrow> string set" where
  "chosen sels = (\<lambda>s. agent_id (sel_Candidate s)) ` set sels"

definition provider_count :: "string \<Rightarrow> selection list \<Rightarrow> int" where
  "provider_count p sels = int (length (filter (\<lambda>s. provider_id (sel_Candidate s) = p) sels))"

definition left_over :: "scored_candidate list \<Rightarrow> selection list \<Rightarrow> scored_candidate list" where
  "left_over pool sels = filter (\<lambda>c. agent_id c \<notin> chosen sels) pool"

text \<open>Who may be drawn after some selections: not drawn yet, and its provider below the cap.\<close>

definition available_after :: "scored_candidate list \<Rightarrow> int \<Rightarrow> selection list \<Rightarrow> scored_candidate list" where
  "available_after pool cap sels = filter (\<lambda>c. provider_count (provider_id c) sels < cap) (left_over pool sels)"

definition step_ok :: "match_env \<Rightarrow> string \<Rightarrow> bool \<Rightarrow> scored_candidate list \<Rightarrow> int \<Rightarrow> selection list \<Rightarrow> selection \<Rightarrow> bool" where
  "step_ok E seed triggered pool cap before s \<longleftrightarrow>
     (let position = int (length before) + 1;
          (P, exploration) = draw_pool triggered position (available_after pool cap before)
      in sel_Candidate s \<in> set P \<and> sel_Position s = position \<and> sel_Exploration s = exploration \<and>
         sel_Weight s = weight_of (sel_Candidate s) \<and> sel_ProbabilityNumerator s = weight_of (sel_Candidate s) \<and>
         sel_ProbabilityDenominator s = total_weight P \<and>
         weighted_draw E seed (draw_domain position exploration) P = Some (Inr (sel_Candidate s, sel_RandomDraw s, total_weight P)))"

definition shuffle_spec :: "match_env \<Rightarrow> string \<Rightarrow> bool \<Rightarrow> scored_candidate list \<Rightarrow> int \<Rightarrow> int \<Rightarrow> selection list \<Rightarrow> bool" where
  "shuffle_spec E seed triggered pool cap limit sels \<longleftrightarrow>
     int (length sels) \<le> limit \<and>
     (\<forall>i < length sels. step_ok E seed triggered pool cap (take i sels) (sels ! i)) \<and>
     (int (length sels) < limit \<longrightarrow> available_after pool cap sels = [])"

section \<open>The loop meets the specification\<close>

lemma chosen_simps [simp]: "chosen [] = {}" "chosen (sels @ [s]) = insert (agent_id (sel_Candidate s)) (chosen sels)"
  by (auto simp: chosen_def)

lemma provider_count_simps [simp]:
  "provider_count p [] = 0"
  "provider_count p (sels @ [s]) = provider_count p sels + (if provider_id (sel_Candidate s) = p then 1 else 0)"
  by (simp_all add: provider_count_def)

lemma left_over_nil [simp]: "left_over pool [] = pool"
  by (simp add: left_over_def)

lemma left_over_snoc:
  "left_over pool (sels @ [s]) = filter (\<lambda>d. agent_id d \<noteq> agent_id (sel_Candidate s)) (left_over pool sels)"
  by (auto simp: left_over_def intro: filter_cong)

lemma provider_eligible_after:
  assumes "\<And>p. selected_count selected p = provider_count p sels"
  shows "provider_eligible (left_over pool sels) selected cap = available_after pool cap sels"
  by (simp add: provider_eligible_def available_after_def assms not_le)

lemma selected_count_gput:
  "selected_count (gput q n m) p = (if q = p then n else selected_count m p)"
  by (simp add: selected_count_def)

lemma step_okI:
  assumes "draw_pool triggered (int (length sels) + 1) (available_after pool cap sels) = (P, exploration)"
    and "weighted_draw E seed (draw_domain (int (length sels) + 1) exploration) P = Some (Inr (c, draw, t))"
  shows "step_ok E seed triggered pool cap sels
    \<lparr>sel_Candidate = c, sel_Position = int (length sels) + 1, sel_Weight = weight_of c, sel_ProbabilityNumerator = weight_of c,
     sel_ProbabilityDenominator = t, sel_RandomDraw = draw, sel_Exploration = exploration\<rparr>"
  using assms weighted_draw_result [OF assms(2)] by (simp add: step_ok_def)

lemma shuffle_loop_spec:
  assumes "shuffle_loop E seed triggered cap [int (length sels) + 1..limit] (left_over pool sels) selected sels = Some (Inr out)"
    and "\<And>p. selected_count selected p = provider_count p sels"
    and "int (length sels) \<le> limit" "\<forall>i < length sels. step_ok E seed triggered pool cap (take i sels) (sels ! i)"
  shows "shuffle_spec E seed triggered pool cap limit out"
  using assms
proof (induction "nat (limit - int (length sels))" arbitrary: sels selected)
  case 0
  then have "[int (length sels) + 1..limit] = []" "int (length sels) = limit" by auto
  with 0 show ?case by (simp add: shuffle_spec_def)
next
  case (Suc n)
  let ?pos = "int (length sels) + 1"
  have lt: "int (length sels) < limit" using Suc.hyps(2) by linarith
  then have pos: "[?pos..limit] = ?pos # [?pos + 1..limit]" by (simp add: upto_rec1)
  note eq = provider_eligible_after [OF Suc.prems(2), of pool cap]
  show ?case
  proof (cases "available_after pool cap sels = []")
    case True
    with Suc.prems(1) have "out = sels" by (simp add: pos eq)
    with Suc.prems(3,4) True show ?thesis by (simp add: shuffle_spec_def)
  next
    case False
    obtain P exploration where dp: "draw_pool triggered ?pos (available_after pool cap sels) = (P, exploration)" by fastforce
    from Suc.prems(1) False obtain c draw t where
      wd: "weighted_draw E seed (draw_domain ?pos exploration) P = Some (Inr (c, draw, t))"
      by (auto simp: pos eq dp Let_def split: option.splits sum.splits)
    define s where "s = \<lparr>sel_Candidate = c, sel_Position = ?pos, sel_Weight = weight_of c, sel_ProbabilityNumerator = weight_of c,
     sel_ProbabilityDenominator = t, sel_RandomDraw = draw, sel_Exploration = exploration\<rparr>"
    have ok: "step_ok E seed triggered pool cap sels s" unfolding s_def by (rule step_okI [OF dp wd])
    let ?selected = "gput (provider_id c) (selected_count selected (provider_id c) + 1) selected"
    have "shuffle_loop E seed triggered cap [int (length (sels @ [s])) + 1..limit] (left_over pool (sels @ [s])) ?selected (sels @ [s]) = Some (Inr out)"
    proof -
      have "int (length (sels @ [s])) + 1 = ?pos + 1" by simp
      moreover have "left_over pool (sels @ [s]) = filter (\<lambda>d. agent_id d \<noteq> agent_id c) (left_over pool sels)"
        by (simp add: left_over_snoc s_def)
      ultimately show ?thesis
        using Suc.prems(1) False unfolding s_def by (simp only:) (simp add: pos eq dp wd Let_def)
    qed
    moreover have "selected_count ?selected p = provider_count p (sels @ [s])" for p
      using Suc.prems(2) by (simp add: selected_count_gput s_def)
    moreover have "\<forall>i < length (sels @ [s]). step_ok E seed triggered pool cap (take i (sels @ [s])) ((sels @ [s]) ! i)"
      using Suc.prems(4) ok by (auto simp: nth_append less_Suc_eq)
    ultimately show ?thesis
      using Suc.hyps lt by (intro Suc.hyps(1) [of "sels @ [s]" ?selected]) auto
  qed
qed

lemma fair_shuffle_result:
  assumes "fair_shuffle E pool sx policy = Some (Inr res)"
  shows "validate_shuffle_input pool sx policy = Inr ()"
    and "shuffle_spec E (derive_seed E sx policy) (shr_ExplorationTriggered res) pool (sp_ProviderCap policy)
           (sp_SelectionLimit policy) (shr_Selections res)"
proof -
  from assms show v: "validate_shuffle_input pool sx policy = Inr ()"
    by (auto simp: fair_shuffle_def split: sum.splits)
  from assms have "shuffle_loop E (derive_seed E sx policy) (shr_ExplorationTriggered res) (sp_ProviderCap policy)
      [int (length ([] :: selection list)) + 1..sp_SelectionLimit policy] (left_over pool []) [] [] = Some (Inr (shr_Selections res))"
    by (auto simp: fair_shuffle_def Let_def split: sum.splits option.splits)
  moreover have "1 \<le> sp_SelectionLimit policy" using v by (auto simp: validate_shuffle_input_def split: if_splits)
  ultimately show "shuffle_spec E (derive_seed E sx policy) (shr_ExplorationTriggered res) pool (sp_ProviderCap policy)
           (sp_SelectionLimit policy) (shr_Selections res)"
    by (intro shuffle_loop_spec [where sels = "[]" and selected = "[]"]) (simp_all add: selected_count_def)
qed

section \<open>Consequences\<close>

lemma draw_pool_facts:
  assumes "draw_pool triggered position available = (P, exploration)"
  shows "set P \<subseteq> set available" "length P \<le> length available" "available \<noteq> [] \<Longrightarrow> P \<noteq> []"
    "exploration \<Longrightarrow> position = 3 \<and> triggered \<and> (\<forall>c \<in> set P. is_exploration_candidate (sc_Candidate c))"
  using assms by (auto simp: draw_pool_def Let_def split: if_splits)

lemma step_ok_available:
  assumes "step_ok E seed triggered pool cap before s"
  shows "sel_Candidate s \<in> set (available_after pool cap before)"
  using assms draw_pool_facts(1) by (fastforce simp: step_ok_def Let_def split: prod.splits)

lemma available_after_facts:
  "c \<in> set (available_after pool cap before) \<Longrightarrow>
   c \<in> set pool \<and> agent_id c \<notin> chosen before \<and> provider_count (provider_id c) before < cap"
  by (auto simp: available_after_def left_over_def)

lemma shuffle_prefixes:
  assumes "\<forall>i < length sels. step_ok E seed triggered pool cap (take i sels) (sels ! i)" "0 \<le> cap"
  shows "distinct (map (\<lambda>s. agent_id (sel_Candidate s)) sels) \<and> (\<forall>p. provider_count p sels \<le> cap) \<and>
    (\<forall>s \<in> set sels. sel_Candidate s \<in> set pool) \<and> map sel_Position sels = map (\<lambda>i. int i + 1) [0..<length sels]"
  using assms(1)
proof (induction sels rule: rev_induct)
  case Nil
  then show ?case using assms(2) by simp
next
  case (snoc s sels)
  have "\<forall>i < length sels. step_ok E seed triggered pool cap (take i sels) (sels ! i)"
  proof (intro allI impI)
    fix i assume "i < length sels"
    with snoc.prems [rule_format, of i] show "step_ok E seed triggered pool cap (take i sels) (sels ! i)"
      by (simp add: nth_append)
  qed
  note IH = snoc.IH [OF this]
  have ok: "step_ok E seed triggered pool cap sels s" using snoc.prems [rule_format, of "length sels"] by simp
  then have "sel_Position s = int (length sels) + 1" by (auto simp: step_ok_def Let_def split: prod.splits)
  with IH available_after_facts [OF step_ok_available [OF ok]] show ?case
    by (auto simp: chosen_def)
qed

section \<open>Order independence\<close>

lemma key_sort_perm:
  assumes "mset P = mset Q" "distinct (map agent_id P)"
  shows "by_agent P = by_agent Q"
proof (rule key.sort_unique [OF assms(1)])
  fix x y assume "x \<in> set P" "y \<in> set P" "key_cmp agent_id x y \<le> 0" "key_cmp agent_id y x \<le> 0"
  then show "x = y" using assms(2) by (auto simp: key_cmp_def distinct_map dest: inj_onD)
qed

lemma weighted_draw_perm:
  "mset P = mset Q \<Longrightarrow> distinct (map agent_id P) \<Longrightarrow> weighted_draw E seed domain P = weighted_draw E seed domain Q"
  by (simp add: weighted_draw_def key_sort_perm)

lemma distinct_filter_map: "distinct (map f xs) \<Longrightarrow> distinct (map f (filter p xs))"
  by (rule distinct_map_filter)

lemma mset_nil_iff: "mset P = mset Q \<Longrightarrow> P = [] \<longleftrightarrow> Q = []"
  by (metis mset_zero_iff)

lemma draw_pool_perm:
  assumes "mset A = mset B" "distinct (map agent_id A)"
  shows "snd (draw_pool triggered position A) = snd (draw_pool triggered position B)"
    and "mset (fst (draw_pool triggered position A)) = mset (fst (draw_pool triggered position B))"
    and "distinct (map agent_id (fst (draw_pool triggered position A)))"
proof -
  have f: "mset (filter p A) = mset (filter p B)" for p using assms(1) by simp
  show "snd (draw_pool triggered position A) = snd (draw_pool triggered position B)"
    and "mset (fst (draw_pool triggered position A)) = mset (fst (draw_pool triggered position B))"
    and "distinct (map agent_id (fst (draw_pool triggered position A)))"
    using assms mset_nil_iff [OF f]
    by (auto simp: draw_pool_def Let_def distinct_filter_map)
qed

lemma shuffle_loop_perm:
  assumes "mset A = mset B" "distinct (map agent_id A)"
  shows "shuffle_loop E seed triggered cap ps A selected sels = shuffle_loop E seed triggered cap ps B selected sels"
  using assms
proof (induction ps arbitrary: A B selected sels)
  case (Cons p ps)
  let ?A = "provider_eligible A selected cap" and ?B = "provider_eligible B selected cap"
  have e: "mset ?A = mset ?B" "distinct (map agent_id ?A)"
    using Cons.prems by (simp_all add: provider_eligible_def distinct_filter_map)
  note dp = draw_pool_perm [OF e, of triggered p]
  obtain P x where P: "draw_pool triggered p ?A = (P, x)" by fastforce
  obtain Q y where Q: "draw_pool triggered p ?B = (Q, y)" by fastforce
  have x: "draw_pool triggered p ?A = (P, x)" "draw_pool triggered p ?B = (Q, x)" using dp(1) P Q by simp_all
  then have "weighted_draw E seed d P = weighted_draw E seed d Q" for d
    using dp(2,3) by (intro weighted_draw_perm) auto
  moreover have "shuffle_loop E seed triggered cap ps (filter f A) sl ss = shuffle_loop E seed triggered cap ps (filter f B) sl ss" for f sl ss
    using Cons.prems by (intro Cons.IH) (simp_all add: distinct_filter_map)
  ultimately show ?case
    using mset_nil_iff [OF e(1)] by (simp add: x Let_def cong: option.case_cong sum.case_cong)
qed simp

end
