(* ===== verification/Matching_Snapshot.thy ===== *)
theory Matching_Snapshot
  imports Matching_Selection
begin

text \<open>The category-tags strategy, and the snapshots of a match.\<close>

text \<open>
  The category-tags strategy (\<open>internal/matching/category_tags.go\<close>): category as a hard gate, the overlap
  of normalized tags as the only ranking signal, and a deterministic selection of the first three. The
  request context is taken as not cancelled. A set (\<open>map[string]struct{}\<close>) is a list without repetition;
  only its size and membership are used.
\<close>

abbreviation CategoryTagsAlgorithmVersion :: string where "CategoryTagsAlgorithmVersion \<equiv> ''category-tags-v1''"
abbreviation CategoryTagsStrategy :: string where "CategoryTagsStrategy \<equiv> ''category-tags''"

definition validate_category_tags_request :: "match_request \<Rightarrow> match_error + unit" where
  "validate_category_tags_request q =
     (if blank (rq_TaskID q) \<or> blank (rq_PublisherID q) \<or> blank (rq_Category q) \<or> blank (rq_RequiredProtocolVersion q)
      then Inl MErrRequest
      else if rq_Now q = 0 \<or> \<not> (rq_Deadline q > rq_Now q) then Inl MErrDeadline
      else if list_ex invalid_money [rq_OverviewBudget q, rq_FormalBudget q, rq_ExternalCostCap q] then Inl MErrBudget
      else Inr ())"

definition normalized_set :: "string list \<Rightarrow> string list" where
  "normalized_set vs = foldl (\<lambda>acc v. let normalized = to_lower (trim_space v) in
     if normalized \<noteq> [] then set_add normalized acc else acc) [] vs"

definition set_overlap :: "string list \<Rightarrow> string list \<Rightarrow> int" where
  "set_overlap left right = int (length (filter (\<lambda>v. v \<in> set right) left))"

definition tag_match_score :: "int \<Rightarrow> int \<Rightarrow> int" where
  "tag_match_score overlap taskTagCount = (if taskTagCount = 0 then 0 else go_div (overlap * 40) taskTagCount)"

abbreviation tag_overlap :: "scored_candidate \<Rightarrow> int" where
  "tag_overlap c \<equiv> sb_TagOverlap (sc_Score c)"

definition tags_cmp :: "scored_candidate \<Rightarrow> scored_candidate \<Rightarrow> int" where
  "tags_cmp l r = (if tag_overlap l \<noteq> tag_overlap r then tag_overlap r - tag_overlap l else strcmp (agent_id l) (agent_id r))"

definition sort_category_tags :: "scored_candidate list \<Rightarrow> scored_candidate list" where
  "sort_category_tags cs = sort_func tags_cmp cs"

definition qualify_category_tags :: "scored_candidate list \<Rightarrow> scored_candidate list" where
  "qualify_category_tags scored = take MaxQualifiedPool scored"

definition score_by_tags :: "string list \<Rightarrow> candidate \<Rightarrow> scored_candidate" where
  "score_by_tags requestTags c =
     (let overlap = set_overlap requestTags (normalized_set (cd_Tags c));
          tagScore = tag_match_score overlap (int (length requestTags))
      in \<lparr>sc_Candidate = c, sc_Recall = [], sc_Score = zero_breakdown\<lparr>sb_TagOverlap := overlap, sb_TaskMatch := tagScore,
            sb_RuleScore := QualificationFloor + tagScore, sb_RankingScore := QualificationFloor + tagScore\<rparr>\<rparr>)"

fun score_tags_loop :: "string list \<Rightarrow> string list \<Rightarrow> candidate list \<Rightarrow> scored_candidate list \<Rightarrow> match_error + scored_candidate list" where
  "score_tags_loop requestTags seen [] scored = Inr scored"
| "score_tags_loop requestTags seen (c # cs) scored =
     (if cd_AgentID c \<in> set seen then Inl (MErrDuplicateEligible (cd_AgentID c))
      else score_tags_loop requestTags (cd_AgentID c # seen) cs (scored @ [score_by_tags requestTags c]))"

definition match_category_tags :: "match_request \<Rightarrow> candidate list \<Rightarrow> match_error + match_result" where
  "match_category_tags request candidates =
     rbind (validate_category_tags_request request) (\<lambda>_.
       let (eligible, excluded) = category_tags_filter request candidates in
       rbind (score_tags_loop (normalized_set (rq_Tags request)) [] eligible []) (\<lambda>scored.
         let sorted = take MaxScoredCandidates (sort_category_tags scored) in
         Inr \<lparr>mr_Strategy = CategoryTagsStrategy, mr_Qualified = qualify_category_tags sorted, mr_Scored = sorted,
              mr_Excluded = excluded, mr_Degradations = []\<rparr>))"

text \<open>The loop of \<open>categoryTagsSelections\<close> that checks the candidates and collects the digest's fields.\<close>

fun tags_digest_loop :: "string list \<Rightarrow> scored_candidate list \<Rightarrow> string \<Rightarrow> match_error + string" where
  "tags_digest_loop seen [] acc = Inr acc"
| "tags_digest_loop seen (c # cs) acc =
     (if blank (agent_id c) \<or> blank (provider_id c) then Inl MErrIdentity
      else if agent_id c \<in> set seen then Inl (MErrDuplicate (agent_id c))
      else tags_digest_loop (agent_id c # seen) cs (acc @ write_seed_field (agent_id c)))"

fun tags_selections :: "int \<Rightarrow> scored_candidate list \<Rightarrow> selection list" where
  "tags_selections index [] = []"
| "tags_selections index (c # cs) =
     \<lparr>sel_Candidate = c, sel_Position = index + 1, sel_Weight = tag_overlap c + 1, sel_ProbabilityNumerator = 1,
      sel_ProbabilityDenominator = 1, sel_RandomDraw = 0, sel_Exploration = False\<rparr> # tags_selections (index + 1) cs"

definition category_tags_selections :: "match_env \<Rightarrow> scored_candidate list \<Rightarrow> seed_context \<Rightarrow> match_error + shuffle_result" where
  "category_tags_selections E pool sx =
     (if blank (sx_TaskID sx) \<or> \<not> valid_digest (sx_TaskSpecHash sx) \<or> sx_MatchRevision sx < 1 \<or>
         sx_AlgorithmVersion sx \<noteq> CategoryTagsAlgorithmVersion then Inl MErrSeedContext
      else if length pool > MaxQualifiedPool then Inl MErrPoolSize
      else let stable = sort_category_tags pool in
        rbind (tags_digest_loop [] stable (write_seed_field (sx_TaskID sx) @ write_seed_field (sx_TaskSpecHash sx) @
                 write_seed_field (sx_AlgorithmVersion sx))) (\<lambda>bytes.
          Inr \<lparr>shr_AlgorithmVersion = sx_AlgorithmVersion sx, shr_SeedDigest = sha_string (me_sha E bytes),
               shr_SeedKeyVersion = ''not-used'', shr_ExplorationTriggered = False,
               shr_Selections = tags_selections 0 (take (nat DefaultSelectionLimit) stable)\<rparr>))"

definition category_tags_policy_hash :: "match_env \<Rightarrow> string" where
  "category_tags_policy_hash E = sha_string (me_sha E
     (CategoryTagsAlgorithmVersion @ [CHR 0x00] @ ''category-exact'' @ [CHR 0x00] @ ''tag-overlap-desc'' @ [CHR 0x00] @
      ''agent-id-asc'' @ [CHR 0x00] @ ''selection-limit:3''))"

section \<open>Lemmas\<close>

interpretation tags: comparator tags_cmp
  by unfold_locales (auto simp: tags_cmp_def split: if_splits)

lemma tags_cmp_separates: "tags_cmp x y \<le> 0 \<Longrightarrow> tags_cmp y x \<le> 0 \<Longrightarrow> agent_id x = agent_id y"
  by (auto simp: tags_cmp_def split: if_splits)

lemma tags_cmp_overlap: "tags_cmp x y \<le> 0 \<Longrightarrow> tag_overlap y \<le> tag_overlap x"
  by (auto simp: tags_cmp_def split: if_splits)

lemma score_tags_loop_eq:
  "score_tags_loop tags seen cs scored = Inr out \<Longrightarrow>
   out = scored @ map (score_by_tags tags) cs \<and> distinct (map cd_AgentID cs) \<and> set seen \<inter> cd_AgentID ` set cs = {}"
proof (induction cs arbitrary: seen scored)
  case (Cons c cs)
  then have rest: "score_tags_loop tags (cd_AgentID c # seen) cs (scored @ [score_by_tags tags c]) = Inr out"
    and new: "cd_AgentID c \<notin> set seen" by (auto split: if_splits)
  from Cons.IH [OF rest] new show ?case by auto
qed simp

lemma score_by_tags_candidate [simp]: "sc_Candidate (score_by_tags tags c) = c"
  by (simp add: score_by_tags_def Let_def)

lemma tags_selections_simps [simp]:
  "map sel_Candidate (tags_selections n cs) = cs" "length (tags_selections n cs) = length cs"
  by (induction n cs rule: tags_selections.induct) auto

lemma set_add_set [simp]: "set (set_add x xs) = insert x (set xs)"
  by (auto simp: set_add_def)

lemma distinct_set_add [simp]: "distinct xs \<Longrightarrow> distinct (set_add x xs)"
  by (simp add: set_add_def)

lemma normalized_set_facts:
  "distinct (normalized_set vs) \<and> set (normalized_set vs) = {to_lower (trim_space v) | v. v \<in> set vs} - {[]}"
proof -
  let ?f = "\<lambda>acc v. let normalized = to_lower (trim_space v) in if normalized \<noteq> [] then set_add normalized acc else acc"
  have "distinct acc \<Longrightarrow> distinct (foldl ?f acc vs) \<and>
      set (foldl ?f acc vs) = set acc \<union> ({to_lower (trim_space v) | v. v \<in> set vs} - {[]})" for acc
    by (induction vs arbitrary: acc) (auto simp: Let_def)
  from this [of "[]"] show ?thesis by (simp add: normalized_set_def)
qed

lemma tag_score_bounds:
  assumes "0 \<le> overlap" "overlap \<le> n"
  shows "0 \<le> tag_match_score overlap n \<and> tag_match_score overlap n \<le> 40"
proof (cases "n = 0")
  case False
  with assms have "0 < n" by simp
  with assms show ?thesis
    using go_div_bounds [of "overlap * 40" 40 n] by (simp add: tag_match_score_def)
qed (simp add: tag_match_score_def)

lemma score_by_tags_bounds:
  "0 \<le> tag_overlap (score_by_tags tags c) \<and> tag_overlap (score_by_tags tags c) \<le> int (length tags) \<and>
   60 \<le> ranking_score (score_by_tags tags c) \<and> ranking_score (score_by_tags tags c) \<le> 100"
proof -
  let ?o = "set_overlap tags (normalized_set (cd_Tags c))"
  have "0 \<le> ?o" "?o \<le> int (length tags)" by (simp_all add: set_overlap_def)
  with tag_score_bounds [OF this] show ?thesis by (simp add: score_by_tags_def Let_def zero_breakdown_def)
qed

text \<open>
  Immutable matching snapshots (\<open>internal/matching/snapshot.go\<close>) and their memory repository
  (\<open>internal/matching/snapshot_memory.go\<close>). \<open>json.Marshal\<close> of a key is a parameter; cloning a value
  through JSON is the identity of the model. The repository's clock is the argument \<open>now\<close>.
\<close>

section \<open>Data\<close>

record snapshot_key =
  sk_TaskID :: string
  sk_TaskSpecHash :: string
  sk_AlgorithmVersion :: string
  sk_EffectiveInputHash :: string

record snapshot_draft =
  sd_Key :: snapshot_key
  sd_RuleVersion :: string
  sd_ModelVersion :: string
  sd_Result :: match_result

record snapshot =
  sn_ID :: string
  sn_TaskID :: string
  sn_TaskSpecHash :: string
  sn_MatchRevision :: int
  sn_EffectiveInputHash :: string
  sn_AlgorithmVersion :: string
  sn_RuleVersion :: string
  sn_ModelVersion :: string
  sn_SeedDigest :: string
  sn_SeedKeyVersion :: string
  sn_PolicyHash :: string
  sn_ExplorationTriggered :: bool
  sn_Result :: match_result
  sn_Selections :: "selection list"
  sn_CreatedAt :: gotime

record snapshot_repo =
  sr_byTask :: "(string, snapshot list) gomap"
  sr_byIdentity :: "(string, snapshot) gomap"

definition new_snapshot_repository :: snapshot_repo where
  "new_snapshot_repository = \<lparr>sr_byTask = [], sr_byIdentity = []\<rparr>"

section \<open>Validation\<close>

fun scored_by_id :: "scored_candidate list \<Rightarrow> (string, scored_candidate) gomap \<Rightarrow> match_error + (string, scored_candidate) gomap" where
  "scored_by_id [] m = Inr m"
| "scored_by_id (c # cs) m =
     (if gget m (agent_id c) \<noteq> None then Inl (MErrDuplicateScored (agent_id c))
      else scored_by_id cs (gput (agent_id c) c m))"

fun check_qualified :: "(string, scored_candidate) gomap \<Rightarrow> scored_candidate list \<Rightarrow> match_error + unit" where
  "check_qualified m [] = Inr ()"
| "check_qualified m (c # cs) =
     (case gget m (agent_id c) of
        None \<Rightarrow> Inl (MErrNotScored (agent_id c))
      | Some s \<Rightarrow> if s \<noteq> c then Inl (MErrScoredDiffers (agent_id c)) else check_qualified m cs)"

fun check_excluded :: "(string, scored_candidate) gomap \<Rightarrow> string list \<Rightarrow> exclusion list \<Rightarrow> match_error + unit" where
  "check_excluded m seen [] = Inr ()"
| "check_excluded m seen (x # xs) =
     (if xc_AgentID x \<noteq> cd_AgentID (xc_Candidate x) then Inl (MErrExclusionIdentity (xc_AgentID x))
      else if xc_AgentID x \<in> set seen then Inl (MErrDuplicateExcluded (xc_AgentID x))
      else if gget m (xc_AgentID x) \<noteq> None then Inl (MErrScoredAndExcluded (xc_AgentID x))
      else if xc_Reasons x = [] then Inl (MErrNoReasons (xc_AgentID x))
      else check_excluded m (xc_AgentID x # seen) xs)"

definition validate_snapshot_draft :: "snapshot_draft \<Rightarrow> match_error + unit" where
  "validate_snapshot_draft draft =
     (let key = sd_Key draft; result = sd_Result draft in
      if blank (sk_TaskID key) \<or> \<not> valid_digest (sk_TaskSpecHash key) \<or>
         sk_AlgorithmVersion key \<notin> {FairShuffleAlgorithmVersion, CategoryTagsAlgorithmVersion} \<or>
         \<not> valid_digest (sk_EffectiveInputHash key) then Inl MErrSnapshotIdentity
      else if blank (sd_RuleVersion draft) \<or> blank (sd_ModelVersion draft) then Inl MErrVersions
      else if length (mr_Qualified result) > MaxQualifiedPool \<or> length (mr_Scored result) > MaxScoredCandidates then Inl MErrLimits
      else rbind (scored_by_id (mr_Scored result) []) (\<lambda>scored.
        rbind (check_qualified scored (mr_Qualified result)) (\<lambda>_.
          if sk_AlgorithmVersion key = CategoryTagsAlgorithmVersion then
            (if mr_Strategy result \<noteq> CategoryTagsStrategy then Inl MErrStrategy
             else if sort_category_tags (mr_Scored result) \<noteq> mr_Scored result \<or>
               qualify_category_tags (sort_category_tags (mr_Scored result)) \<noteq> mr_Qualified result then Inl MErrNotCanonical
             else check_excluded scored [] (mr_Excluded result))
          else
            (if mr_Strategy result \<noteq> [] then Inl MErrStrategy
             else if sort_scored (mr_Scored result) \<noteq> mr_Scored result \<or>
               qualify (sort_scored (mr_Scored result)) \<noteq> mr_Qualified result then Inl MErrNotCanonical
             else check_excluded scored [] (mr_Excluded result)))))"

fun check_selections :: "string list \<Rightarrow> int list \<Rightarrow> selection list \<Rightarrow> match_error + unit" where
  "check_selections qualifiedIDs positions [] = Inr ()"
| "check_selections qualifiedIDs positions (s # ss) =
     (if agent_id (sel_Candidate s) \<notin> set qualifiedIDs then Inl MErrOutsideQualified
      else if sel_Position s < 1 \<or> sel_Position s > DefaultSelectionLimit then Inl MErrPosition
      else if sel_Position s \<in> set positions then Inl MErrDuplicatePosition
      else if sel_Exploration s \<and> sel_Position s \<noteq> 3 then Inl MErrExploration
      else check_selections qualifiedIDs (sel_Position s # positions) ss)"

definition validate_snapshot :: "snapshot \<Rightarrow> match_error + unit" where
  "validate_snapshot s =
     (if \<not> valid_digest (sn_ID s) \<or> sn_MatchRevision s < 1 \<or> \<not> valid_digest (sn_SeedDigest s) \<or> \<not> valid_digest (sn_PolicyHash s)
      then Inl MErrIncomplete
      else check_selections (map agent_id (mr_Qualified (sn_Result s))) [] (sn_Selections s))"

definition validate_shuffle_policy :: "shuffle_policy \<Rightarrow> match_error + unit" where
  "validate_shuffle_policy policy = validate_shuffle_input []
     \<lparr>sx_TaskID = ''policy-validation'', sx_TaskSpecHash = ''sha256:'' @ replicate 64 (CHR ''0''), sx_MatchRevision = 1,
      sx_AlgorithmVersion = FairShuffleAlgorithmVersion\<rparr> policy"

definition new_snapshot_service :: "bool \<Rightarrow> shuffle_policy \<Rightarrow> match_error + shuffle_policy" where
  "new_snapshot_service repository_nil policy =
     (if repository_nil then Inl MErrRepository else rbind (validate_shuffle_policy policy) (\<lambda>_. Inr policy))"

section \<open>Identifiers\<close>

definition snapshot_id :: "match_env \<Rightarrow> snapshot_key \<Rightarrow> int \<Rightarrow> string" where
  "snapshot_id E key revision = sha_string (me_sha E
     (write_seed_field (sk_TaskID key) @ write_seed_field (sk_TaskSpecHash key) @
      write_seed_field (sk_AlgorithmVersion key) @ write_seed_field (bigint_string revision)))"

definition shuffle_policy_hash :: "match_env \<Rightarrow> string \<Rightarrow> shuffle_policy \<Rightarrow> string" where
  "shuffle_policy_hash E algorithmVersion policy = sha_string (me_sha E
     (algorithmVersion @ [CHR 0x00] @ sp_SeedKeyVersion policy @ [CHR 0x00] @ bigint_string (sp_ExplorationBasisPoints policy) @
      [CHR 0x00] @ bigint_string (sp_ProviderCap policy) @ [CHR 0x00] @ bigint_string (sp_SelectionLimit policy) @
      [CHR 0x00] @ bigint_string ExplorationExposureLimit @ [CHR 0x00] @ bigint_string ExplorationSampleLimit))"

text \<open>\<open>HashEffectiveInput\<close> of a value whose JSON encoding is given, or failed.\<close>

definition hash_effective_input :: "match_env \<Rightarrow> string option \<Rightarrow> string option" where
  "hash_effective_input E encoded = map_option (\<lambda>b. sha_string (me_sha E b)) encoded"

section \<open>Operations\<close>

text \<open>The builder: the snapshot of a draft at a revision.\<close>

definition build_snapshot ::
    "match_env \<Rightarrow> shuffle_policy \<Rightarrow> snapshot_draft \<Rightarrow> int \<Rightarrow> (match_error + snapshot) option" where
  "build_snapshot E policy draft revision =
     (let key = sd_Key draft;
          sx = \<lparr>sx_TaskID = sk_TaskID key, sx_TaskSpecHash = sk_TaskSpecHash key, sx_MatchRevision = revision,
                sx_AlgorithmVersion = sk_AlgorithmVersion key\<rparr>;
          (shuffle, policyHash) =
            (if sk_AlgorithmVersion key = FairShuffleAlgorithmVersion then
               (fair_shuffle E (mr_Qualified (sd_Result draft)) sx policy, shuffle_policy_hash E (sk_AlgorithmVersion key) policy)
             else if sk_AlgorithmVersion key = CategoryTagsAlgorithmVersion then
               (Some (category_tags_selections E (mr_Qualified (sd_Result draft)) sx), category_tags_policy_hash E)
             else (Some (Inl MErrAlgorithm), []))
      in case shuffle of
           None \<Rightarrow> None
         | Some (Inl e) \<Rightarrow> Some (Inl e)
         | Some (Inr sh) \<Rightarrow>
             let s = \<lparr>sn_ID = snapshot_id E key revision, sn_TaskID = sk_TaskID key, sn_TaskSpecHash = sk_TaskSpecHash key,
                   sn_MatchRevision = revision, sn_EffectiveInputHash = sk_EffectiveInputHash key,
                   sn_AlgorithmVersion = sk_AlgorithmVersion key, sn_RuleVersion = sd_RuleVersion draft,
                   sn_ModelVersion = sd_ModelVersion draft, sn_SeedDigest = shr_SeedDigest sh,
                   sn_SeedKeyVersion = shr_SeedKeyVersion sh, sn_PolicyHash = policyHash,
                   sn_ExplorationTriggered = shr_ExplorationTriggered sh, sn_Result = sd_Result draft,
                   sn_Selections = shr_Selections sh, sn_CreatedAt = 0\<rparr>
             in Some (rbind (validate_snapshot s) (\<lambda>_. Inr s)))"

definition task_snapshots :: "snapshot_repo \<Rightarrow> string \<Rightarrow> snapshot list" where
  "task_snapshots r taskID = (case gget (sr_byTask r) taskID of None \<Rightarrow> [] | Some items \<Rightarrow> items)"

definition repo_create_revision ::
    "(snapshot_key \<Rightarrow> string) \<Rightarrow> gotime \<Rightarrow> snapshot_key \<Rightarrow> (int \<Rightarrow> (match_error + snapshot) option) \<Rightarrow> snapshot_repo \<Rightarrow>
     (snapshot_repo \<times> (match_error + snapshot \<times> bool)) option" where
  "repo_create_revision K now key builder r =
     (case gget (sr_byIdentity r) (K key) of
        Some existing \<Rightarrow> Some (r, Inr (existing, True))
      | None \<Rightarrow>
          (case builder (int (length (task_snapshots r (sk_TaskID key))) + 1) of
             None \<Rightarrow> None
           | Some (Inl e) \<Rightarrow> Some (r, Inl e)
           | Some (Inr s) \<Rightarrow>
               let created = s\<lparr>sn_CreatedAt := now\<rparr> in
               Some (\<lparr>sr_byTask = gput (sk_TaskID key) (task_snapshots r (sk_TaskID key) @ [created]) (sr_byTask r),
                      sr_byIdentity = gput (K key) created (sr_byIdentity r)\<rparr>, Inr (created, False))))"

definition create_revision ::
    "match_env \<Rightarrow> (snapshot_key \<Rightarrow> string) \<Rightarrow> shuffle_policy \<Rightarrow> gotime \<Rightarrow> snapshot_draft \<Rightarrow> snapshot_repo \<Rightarrow>
     (snapshot_repo \<times> (match_error + snapshot \<times> bool)) option" where
  "create_revision E K policy now draft r =
     (case validate_snapshot_draft draft of
        Inl e \<Rightarrow> Some (r, Inl e)
      | Inr _ \<Rightarrow> repo_create_revision K now (sd_Key draft) (build_snapshot E policy draft) r)"

definition repo_latest :: "string \<Rightarrow> string \<Rightarrow> string \<Rightarrow> snapshot_repo \<Rightarrow> match_error + snapshot" where
  "repo_latest taskID taskSpecHash algorithmVersion r = from_option MErrSnapshotNotFound
     (List.find (\<lambda>s. sn_TaskSpecHash s = taskSpecHash \<and> sn_AlgorithmVersion s = algorithmVersion) (rev (task_snapshots r taskID)))"

definition snapshot_latest :: "string \<Rightarrow> string \<Rightarrow> string \<Rightarrow> snapshot_repo \<Rightarrow> match_error + snapshot" where
  "snapshot_latest taskID taskSpecHash algorithmVersion r =
     (if blank taskID \<or> \<not> valid_digest taskSpecHash \<or> blank algorithmVersion then Inl MErrLookup
      else repo_latest taskID taskSpecHash algorithmVersion r)"

section \<open>Reachable repositories\<close>

inductive snapshots_reachable :: "match_env \<Rightarrow> (snapshot_key \<Rightarrow> string) \<Rightarrow> shuffle_policy \<Rightarrow> snapshot_repo \<Rightarrow> bool" for E K policy where
  snapshots_start: "snapshots_reachable E K policy new_snapshot_repository"
| snapshots_step: "snapshots_reachable E K policy r \<Longrightarrow> create_revision E K policy now draft r = Some (r', res) \<Longrightarrow>
    snapshots_reachable E K policy r'"

end
