(* ===== verification/Matching_Repository.thy ===== *)
theory Matching_Repository
  imports Matching_Snapshot
begin

text \<open>From a match to its snapshot: what the snapshot service accepts, and what its repository stores.\<close>

text \<open>
  What a successful match returns, and why the snapshot service accepts it: the checks of
  \<open>validateSnapshotDraft\<close>, \<open>validateShuffleInput\<close> and \<open>validateSnapshot\<close> hold of the service's own output.
\<close>

section \<open>A successful match\<close>

lemma service_match_facts:
  assumes "service_match svc q cs = Inr res"
  obtains byID ev where
    "validate_request q = Inr ()" "mr_Strategy res = []"
    "index_by_id (fst (hard_filter q cs)) [] = Inr byID"
    "mr_Excluded res = snd (hard_filter q cs)"
    "mr_Scored res = sort_scored (mr_Scored res)"
    "mr_Qualified res = qualify (mr_Scored res)"
    "\<forall>s \<in> set (mr_Scored res). scored_ok q ev byID s"
    "distinct (map agent_id (mr_Scored res))" "length (mr_Scored res) \<le> MaxScoredCandidates"
proof -
  obtain eligible excluded where hf: "hard_filter q cs = (eligible, excluded)" by fastforce
  from assms obtain byID where v: "validate_request q = Inr ()" and ix: "index_by_id eligible [] = Inr byID"
    by (auto simp: service_match_def rbind_Inr_iff hf)
  obtain ev ds where ev: "service_recall svc q eligible byID = (ev, ds)" by fastforce
  obtain scored ds' where sl: "score_loop svc q byID ev (fused_agent_ids ev) [] ds = (scored, ds')" by fastforce
  have res: "res = \<lparr>mr_Strategy = [], mr_Qualified = qualify (sort_scored scored), mr_Scored = sort_scored scored,
      mr_Excluded = excluded, mr_Degradations = sort_degradations ds'\<rparr>"
    using assms by (simp add: service_match_def v hf ix ev sl Let_def)
  note keys = fused_agent_ids_facts [OF service_recall_keys [OF ev]]
  have ids: "gget byID i = Some c \<Longrightarrow> cd_AgentID c = i" for i c
    using index_by_id_get [OF ix] by blast
  from score_loop_ok [OF sl ids keys(2)] have ok: "\<forall>s \<in> set scored. scored_ok q ev byID s"
    and m: "map agent_id scored = fused_agent_ids ev" by auto
  have ms: "mset (map agent_id (sort_scored scored)) = mset (map agent_id scored)"
    by (simp add: sort_scored_def)
  then have "distinct (map agent_id (sort_scored scored))"
    using keys(1) m by (metis mset_eq_imp_distinct_iff)
  moreover have "length (sort_scored scored) \<le> MaxScoredCandidates"
    using keys(3) m by (metis length_map length_sort_func sort_scored_def)
  moreover have "sort_scored (sort_scored scored) = sort_scored scored"
    unfolding sort_scored_def by (intro scored.sort_func_id scored.sorted_sort_func)
  ultimately show thesis
    using that [of byID ev] v ix hf ok by (simp add: res sort_scored_def)
qed

lemma scored_passes:
  assumes "service_match svc q cs = Inr res" "s \<in> set (mr_Scored res)"
  shows "sc_Candidate s \<in> set cs \<and> passes_gates q True (sc_Candidate s) \<and>
    (\<exists>delta. sc_Score s = apply_model_delta (rule_score q (sc_Candidate s) (sc_Recall s)) delta)"
proof (rule service_match_facts [OF assms(1)])
  fix byID ev
  assume ix: "index_by_id (fst (hard_filter q cs)) [] = Inr byID" and ok: "\<forall>s \<in> set (mr_Scored res). scored_ok q ev byID s"
  from ok assms(2) have s: "scored_ok q ev byID s" by blast
  then have "sc_Candidate s \<in> set (fst (hard_filter q cs))"
    using index_by_id_get [OF ix] by (auto simp: scored_ok_def)
  then show ?thesis
    using s by (auto simp: hard_filter_def filter_candidates_eq filter_reasons_nil_iff scored_ok_def)
qed

lemma qualified_facts:
  assumes "mr_Scored res = sort_scored (mr_Scored res)" "mr_Qualified res = qualify (mr_Scored res)" "c \<in> set (mr_Qualified res)"
  shows "c \<in> set (mr_Scored res)" "QualificationFloor \<le> rule_score_of c" "QualificationFloor \<le> ranking_score c"
    "\<forall>d \<in> set (mr_Scored res). ranking_score d - MaximumScoreGap \<le> ranking_score c"
proof -
  obtain h t where s: "mr_Scored res = h # t" using assms(2,3) by (cases "mr_Scored res") (auto simp: qualify_def)
  have "c \<in> set (take MaxQualifiedPool (filter (above_floor (ranking_score h)) (h # t)))"
    using assms(2,3) by (simp only: s qualify_eq list.case)
  then have "c \<in> set (filter (above_floor (ranking_score h)) (h # t))" by (rule in_set_takeD)
  then have c: "c \<in> set (h # t)" "above_floor (ranking_score h) c" by (simp_all only: set_filter mem_Collect_eq)
  then show "c \<in> set (mr_Scored res)" "QualificationFloor \<le> rule_score_of c" "QualificationFloor \<le> ranking_score c"
    by (simp_all add: s above_floor_def)
  have "sorted_wrt (\<lambda>x y. scored_cmp x y \<le> 0) (h # t)"
    using scored.sorted_sort_func [of "h # t"] assms(1) by (simp add: s sort_scored_def)
  then have "\<forall>d \<in> set (h # t). ranking_score d \<le> ranking_score h"
    using scored_cmp_ranking by auto
  with c show "\<forall>d \<in> set (mr_Scored res). ranking_score d - MaximumScoreGap \<le> ranking_score c"
    by (fastforce simp: s above_floor_def)
qed

lemma distinct_take_filter: "distinct (map f xs) \<Longrightarrow> distinct (map f (take n (filter p xs)))"
  by (simp add: take_map [symmetric] distinct_map_filter)

lemma qualify_sub: "length (qualify xs) \<le> MaxQualifiedPool" "distinct (map agent_id xs) \<Longrightarrow> distinct (map agent_id (qualify xs))"
proof -
  show "length (qualify xs) \<le> MaxQualifiedPool" by (cases xs) (simp_all add: qualify_eq)
  show "distinct (map agent_id xs) \<Longrightarrow> distinct (map agent_id (qualify xs))"
    by (cases xs) (simp_all only: qualify_eq list.case distinct_take_filter list.map distinct.simps simp_thms)
qed

section \<open>The draft is accepted\<close>

lemma scored_by_id_ok:
  assumes "distinct (map agent_id cs)" "agent_id ` set cs \<inter> dom (gget m) = {}"
  shows "\<exists>m'. scored_by_id cs m = Inr m' \<and> dom (gget m') = dom (gget m) \<union> agent_id ` set cs \<and>
    (\<forall>i c. gget m' i = Some c \<longleftrightarrow> gget m i = Some c \<or> (c \<in> set cs \<and> agent_id c = i))"
  using assms
proof (induction cs arbitrary: m)
  case (Cons c cs)
  have dom_gput: "dom (gget (gput (agent_id c) c m)) = insert (agent_id c) (dom (gget m))"
    by (auto split: if_splits)
  have "gget m (agent_id c) = None" using Cons.prems(2) by auto
  moreover have disj: "agent_id ` set cs \<inter> dom (gget (gput (agent_id c) c m)) = {}"
    unfolding dom_gput using Cons.prems by auto
  ultimately obtain m' where "scored_by_id cs (gput (agent_id c) c m) = Inr m'"
    and "dom (gget m') = dom (gget (gput (agent_id c) c m)) \<union> agent_id ` set cs"
    and "\<forall>i d. gget m' i = Some d \<longleftrightarrow> gget (gput (agent_id c) c m) i = Some d \<or> (d \<in> set cs \<and> agent_id d = i)"
    using Cons.IH [OF _ disj] Cons.prems(1) unfolding list.map distinct.simps by blast
  then show ?case
    using \<open>gget m (agent_id c) = None\<close> Cons.prems(1) by (auto simp: dom_gput split: if_splits)
qed auto

lemma check_qualified_ok:
  "\<forall>c \<in> set cs. gget m (agent_id c) = Some c \<Longrightarrow> check_qualified m cs = Inr ()"
  by (induction cs) auto

lemma check_excluded_ok:
  assumes "\<forall>x \<in> set xs. cd_AgentID (xc_Candidate x) = xc_AgentID x \<and> xc_Reasons x \<noteq> [] \<and> gget m (xc_AgentID x) = None"
    and "distinct (map xc_AgentID xs)" "set seen \<inter> xc_AgentID ` set xs = {}"
  shows "check_excluded m seen xs = Inr ()"
  using assms by (induction xs arbitrary: seen) auto

lemma excluded_distinct:
  assumes "distinct (map cd_AgentID cs)"
  shows "distinct (map xc_AgentID (snd (hard_filter q cs)))"
proof -
  have m: "map xc_AgentID (map (exclusion_of q True) ds) = map cd_AgentID ds" for ds by (simp add: exclusion_of_def)
  have "mset (map xc_AgentID (snd (hard_filter q cs))) =
      mset (map cd_AgentID (filter (\<lambda>c. filter_reasons q c True \<noteq> []) cs))"
    by (simp only: hard_filter_def filter_candidates_eq snd_conv mset_map mset_sort_func m [symmetric])
  then show ?thesis
    using assms by (metis distinct_filter_map mset_eq_imp_distinct_iff)
qed

definition draft_key_ok :: "snapshot_draft \<Rightarrow> bool" where
  "draft_key_ok draft \<longleftrightarrow> \<not> blank (sk_TaskID (sd_Key draft)) \<and> valid_digest (sk_TaskSpecHash (sd_Key draft)) \<and>
     valid_digest (sk_EffectiveInputHash (sd_Key draft)) \<and> \<not> blank (sd_RuleVersion draft) \<and> \<not> blank (sd_ModelVersion draft)"

lemma match_draft_valid:
  assumes "service_match svc q cs = Inr (sd_Result draft)" "distinct (map cd_AgentID cs)"
    and "draft_key_ok draft" "sk_AlgorithmVersion (sd_Key draft) = FairShuffleAlgorithmVersion"
  shows "validate_snapshot_draft draft = Inr ()"
proof (rule service_match_facts [OF assms(1)])
  let ?res = "sd_Result draft"
  fix byID ev
  assume f: "mr_Strategy ?res = []" "index_by_id (fst (hard_filter q cs)) [] = Inr byID" "mr_Excluded ?res = snd (hard_filter q cs)"
    "mr_Scored ?res = sort_scored (mr_Scored ?res)" "mr_Qualified ?res = qualify (mr_Scored ?res)"
    "distinct (map agent_id (mr_Scored ?res))" "length (mr_Scored ?res) \<le> MaxScoredCandidates"
  obtain m where m: "scored_by_id (mr_Scored ?res) [] = Inr m"
    and get: "\<And>i c. gget m i = Some c \<longleftrightarrow> c \<in> set (mr_Scored ?res) \<and> agent_id c = i"
    using scored_by_id_ok [OF f(6), of "[]"] by (auto simp: dom_def)
  have cq: "check_qualified m (mr_Qualified ?res) = Inr ()"
    using qualified_facts(1) [OF f(4,5)] get by (intro check_qualified_ok) blast
  have "gget m (xc_AgentID x) = None \<and> cd_AgentID (xc_Candidate x) = xc_AgentID x \<and> xc_Reasons x \<noteq> []"
    if x: "x \<in> set (mr_Excluded ?res)" for x
  proof -
    from x obtain c where c: "c \<in> set cs" "filter_reasons q c True \<noteq> []" "x = exclusion_of q True c"
      by (auto simp: f(3) hard_filter_def filter_candidates_eq)
    have "gget m (cd_AgentID c) = None"
    proof (rule ccontr)
      assume "gget m (cd_AgentID c) \<noteq> None"
      then obtain s where s: "s \<in> set (mr_Scored ?res)" "agent_id s = cd_AgentID c" using get by blast
      from scored_passes [OF assms(1) s(1)] have "sc_Candidate s \<in> set cs" "filter_reasons q (sc_Candidate s) True = []"
        by (auto simp: filter_reasons_nil_iff)
      with s(2) c assms(2) show False by (auto simp: distinct_map dest: inj_onD)
    qed
    with c show ?thesis by (simp add: exclusion_of_def)
  qed
  then have "check_excluded m [] (mr_Excluded ?res) = Inr ()"
    using excluded_distinct [OF assms(2), of q] f(3) by (intro check_excluded_ok) auto
  then show ?thesis
    using assms(3,4) f m cq qualify_sub(1) [of "mr_Scored ?res"]
    by (simp add: validate_snapshot_draft_def draft_key_ok_def Let_def)
qed

section \<open>The shuffle accepts the qualified pool\<close>

lemma validate_pool_ok:
  assumes "distinct (map agent_id cs)" "set seen \<inter> agent_id ` set cs = {}"
    and "\<forall>c \<in> set cs. \<not> blank (agent_id c) \<and> \<not> blank (provider_id c) \<and> QualificationFloor \<le> rule_score_of c \<and>
      QualificationFloor \<le> ranking_score c \<and> best - MaximumScoreGap \<le> ranking_score c \<and>
      0 \<le> cd_ExposureCount (sc_Candidate c) \<and> 0 \<le> cd_EffectiveSamples (sc_Candidate c)"
  shows "validate_pool best seen cs = Inr ()"
  using assms by (induction cs arbitrary: seen) auto

lemma best_ranking_le:
  "\<forall>c \<in> set pool. ranking_score c \<le> b \<Longrightarrow> 0 \<le> b \<Longrightarrow> best_ranking pool \<le> b"
proof -
  assume b: "\<forall>c \<in> set pool. ranking_score c \<le> b" "0 \<le> b"
  have "x \<le> b \<Longrightarrow> \<forall>c \<in> set pool. ranking_score c \<le> b \<Longrightarrow>
      foldl (\<lambda>best c. if ranking_score c > best then ranking_score c else best) x pool \<le> b" for x pool
    by (induction pool arbitrary: x) auto
  with b show ?thesis by (simp add: best_ranking_def)
qed

lemma apply_model_delta_ranking: "0 \<le> sb_RankingScore (apply_model_delta s d) \<and> sb_RankingScore (apply_model_delta s d) \<le> 100"
  by (simp add: apply_model_delta_def Let_def clamp_def)

lemma match_pool_valid:
  assumes "service_match svc q cs = Inr res" "validate_shuffle_policy policy = Inr ()"
    and "\<forall>c \<in> set cs. 0 \<le> cd_ExposureCount c \<and> 0 \<le> cd_EffectiveSamples c"
    and "\<not> blank (sx_TaskID sx)" "valid_digest (sx_TaskSpecHash sx)" "1 \<le> sx_MatchRevision sx"
    "sx_AlgorithmVersion sx = FairShuffleAlgorithmVersion"
  shows "validate_shuffle_input (mr_Qualified res) sx policy = Inr () \<and> small_pool (mr_Qualified res) \<and>
    distinct (map agent_id (mr_Qualified res))"
proof (rule service_match_facts [OF assms(1)])
  let ?Q = "mr_Qualified res"
  assume f: "mr_Scored res = sort_scored (mr_Scored res)" "?Q = qualify (mr_Scored res)" "distinct (map agent_id (mr_Scored res))"
  note qf = qualified_facts [OF f(1,2)]
  have d: "distinct (map agent_id ?Q)" "length ?Q \<le> MaxQualifiedPool" using qualify_sub f by simp_all
  have gates: "passes_gates q True (sc_Candidate c)" "sc_Candidate c \<in> set cs" "0 \<le> ranking_score c" "ranking_score c \<le> 100" if "c \<in> set ?Q" for c
    using scored_passes [OF assms(1) qf(1) [OF that]] apply_model_delta_ranking by auto
  have "best_ranking ?Q - MaximumScoreGap \<le> ranking_score c" if c: "c \<in> set ?Q" for c
  proof -
    have "best_ranking ?Q \<le> ranking_score c + MaximumScoreGap"
      using qf(1,4) c gates(3) [OF c] by (intro best_ranking_le) force+
    then show ?thesis by simp
  qed
  then have "validate_pool (best_ranking ?Q) [] ?Q = Inr ()"
    using d(1) gates qf assms(3) by (intro validate_pool_ok) (auto simp: passes_gates_def)
  then show ?thesis
    using assms(2,4-7) d gates
    by (auto simp: validate_shuffle_input_def validate_shuffle_policy_def small_pool_def split: if_splits)
qed

text \<open>
  The snapshot repository over time (\<open>internal/matching/snapshot_memory.go\<close>): the numbering of a task's
  revisions, the replay of a stored identity, and the totality of a match, a shuffle and a snapshot.
\<close>

section \<open>The repository invariant\<close>

definition snapshots_inv :: "snapshot_repo \<Rightarrow> bool" where
  "snapshots_inv r \<longleftrightarrow>
     (\<forall>t. map sn_MatchRevision (task_snapshots r t) = [1..int (length (task_snapshots r t))] \<and>
        list_all (\<lambda>s. sn_TaskID s = t \<and> validate_snapshot s = Inr ()) (task_snapshots r t))"

lemma build_snapshot_facts:
  assumes "build_snapshot E policy draft revision = Some (Inr s)"
  shows "sn_TaskID s = sk_TaskID (sd_Key draft) \<and> sn_MatchRevision s = revision \<and> validate_snapshot s = Inr ()"
  using assms by (auto simp: build_snapshot_def Let_def rbind_Inr_iff split: option.splits sum.splits if_splits)

lemma validate_snapshot_created [simp]: "validate_snapshot (s\<lparr>sn_CreatedAt := now\<rparr>) = validate_snapshot s"
  by (simp add: validate_snapshot_def)

lemma task_snapshots_gput [simp]:
  "task_snapshots \<lparr>sr_byTask = gput t xs m, sr_byIdentity = i\<rparr> u =
     (if t = u then xs else task_snapshots \<lparr>sr_byTask = m, sr_byIdentity = i\<rparr> u)"
  by (simp add: task_snapshots_def)

lemma task_snapshots_identity: "task_snapshots \<lparr>sr_byTask = sr_byTask r, sr_byIdentity = i\<rparr> u = task_snapshots r u"
  by (simp add: task_snapshots_def)

lemma create_revision_cases:
  assumes "create_revision E K policy now draft r = Some (r', res)"
  obtains (same) "r' = r"
  | (created) s where "validate_snapshot_draft draft = Inr ()" "gget (sr_byIdentity r) (K (sd_Key draft)) = None"
      "build_snapshot E policy draft (int (length (task_snapshots r (sk_TaskID (sd_Key draft)))) + 1) = Some (Inr s)"
      "res = Inr (s\<lparr>sn_CreatedAt := now\<rparr>, False)"
      "gget (sr_byIdentity r') = (gget (sr_byIdentity r))(K (sd_Key draft) \<mapsto> s\<lparr>sn_CreatedAt := now\<rparr>)"
      "task_snapshots r' = (task_snapshots r)(sk_TaskID (sd_Key draft) := task_snapshots r (sk_TaskID (sd_Key draft)) @ [s\<lparr>sn_CreatedAt := now\<rparr>])"
  using assms
  by (force simp: create_revision_def repo_create_revision_def Let_def task_snapshots_identity split: sum.splits option.splits)

lemma create_revision_inv:
  assumes "snapshots_inv r" "create_revision E K policy now draft r = Some (r', res)"
  shows "snapshots_inv r'"
  using assms(2)
proof (cases rule: create_revision_cases)
  case same
  then show ?thesis using assms(1) by simp
next
  case (created s)
  let ?t = "sk_TaskID (sd_Key draft)"
  let ?n = "int (length (task_snapshots r ?t))"
  have "[1..?n + 1] = [1..?n] @ [?n + 1]" using upto_rec2 [of 1 "?n + 1"] by simp
  with created assms(1) build_snapshot_facts [OF created(3)] show ?thesis
    by (auto simp: snapshots_inv_def add.commute)
qed

lemma snapshots_inv_new: "snapshots_inv new_snapshot_repository"
  by (simp add: snapshots_inv_def new_snapshot_repository_def task_snapshots_def)

lemma snapshots_reachable_inv: "snapshots_reachable E K policy r \<Longrightarrow> snapshots_inv r"
  by (induction rule: snapshots_reachable.induct) (auto intro: create_revision_inv snapshots_inv_new)

section \<open>Append only\<close>

definition snapshots_env_step :: "match_env \<Rightarrow> (snapshot_key \<Rightarrow> string) \<Rightarrow> shuffle_policy \<Rightarrow> snapshot_repo \<Rightarrow> snapshot_repo \<Rightarrow> bool" where
  "snapshots_env_step E K policy r r' \<longleftrightarrow> (\<exists>now draft res. create_revision E K policy now draft r = Some (r', res))"

text \<open>What the clients' calls keep: stored identities, and the revisions of every task as a prefix.\<close>

definition snapshots_extend :: "snapshot_repo \<Rightarrow> snapshot_repo \<Rightarrow> bool" where
  "snapshots_extend r r' \<longleftrightarrow> gget (sr_byIdentity r) \<subseteq>\<^sub>m gget (sr_byIdentity r') \<and>
     (\<forall>t. \<exists>later. task_snapshots r' t = task_snapshots r t @ later)"

lemma snapshots_extend_refl: "snapshots_extend r r"
  by (simp add: snapshots_extend_def)

lemma snapshots_extend_trans: "snapshots_extend a b \<Longrightarrow> snapshots_extend b c \<Longrightarrow> snapshots_extend a c"
  unfolding snapshots_extend_def by (metis append.assoc map_le_trans)

lemma env_step_extends:
  assumes "snapshots_env_step E K policy r r'"
  shows "snapshots_extend r r'"
proof -
  from assms obtain now draft res where "create_revision E K policy now draft r = Some (r', res)"
    by (auto simp: snapshots_env_step_def)
  then show ?thesis
    by (cases rule: create_revision_cases) (auto simp: snapshots_extend_refl snapshots_extend_def map_le_def)
qed

lemma env_extends: "(snapshots_env_step E K policy)\<^sup>*\<^sup>* r r' \<Longrightarrow> snapshots_extend r r'"
  by (induction rule: rtranclp_induct) (auto intro: snapshots_extend_refl snapshots_extend_trans env_step_extends)

section \<open>The latest revision\<close>

lemma find_rev_last:
  "List.find P (rev xs) = Some x \<Longrightarrow> \<exists>ys zs. xs = ys @ x # zs \<and> P x \<and> list_all (\<lambda>z. \<not> P z) zs"
proof (induction xs rule: rev_induct)
  case (snoc y xs)
  show ?case
  proof (cases "P y")
    case True
    with snoc.prems have "y = x" by simp
    with True show ?thesis by (intro exI [of _ xs] exI [of _ "[]"]) simp
  next
    case False
    with snoc obtain ys zs where "xs = ys @ x # zs" "P x" "list_all (\<lambda>z. \<not> P z) zs" by auto
    then show ?thesis using False by (intro exI [of _ ys] exI [of _ "zs @ [y]"]) simp
  qed
qed simp

lemma snapshot_latest_facts:
  assumes "snapshots_inv r" "snapshot_latest t h a r = Inr s"
  shows "s \<in> set (task_snapshots r t) \<and> sn_TaskSpecHash s = h \<and> sn_AlgorithmVersion s = a \<and>
    (\<forall>z \<in> set (task_snapshots r t). sn_TaskSpecHash z = h \<and> sn_AlgorithmVersion z = a \<longrightarrow> sn_MatchRevision z \<le> sn_MatchRevision s)"
proof -
  let ?P = "\<lambda>s. sn_TaskSpecHash s = h \<and> sn_AlgorithmVersion s = a"
  from assms(2) obtain ys zs where xs: "task_snapshots r t = ys @ s # zs" and s: "?P s" and n: "list_all (\<lambda>z. \<not> ?P z) zs"
    by (auto simp: snapshot_latest_def repo_latest_def from_option_def split: if_splits option.splits dest!: find_rev_last)
  have "sorted_wrt (<) (map sn_MatchRevision (task_snapshots r t))"
    using assms(1) by (metis snapshots_inv_def sorted_wrt_upto)
  then have "\<forall>y \<in> set ys. sn_MatchRevision y < sn_MatchRevision s"
    by (simp add: xs sorted_wrt_append)
  with xs s n show ?thesis by (auto simp: list_all_iff)
qed

section \<open>The calls return\<close>

lemma word_of_int_small_neq_0:
  assumes "0 < n" "n < 2 ^ 64"
  shows "(word_of_int n :: 64 word) \<noteq> 0"
proof -
  have "uint (word_of_int n :: 64 word) = n" using assms by (simp add: uint_word_of_int)
  with assms(1) show ?thesis by auto
qed

lemma weighted_draw_total:
  assumes "small_pool pool" "pool \<noteq> []" "draw_returns E seed"
  shows "\<exists>c draw. weighted_draw E seed domain pool = Some (Inr (c, draw, total_weight pool))"
proof -
  let ?B = "word_of_int (total_weight pool) :: 64 word"
  have "0 < total_weight pool" "total_weight pool \<le> 820"
    using total_weight_pos [OF assms(2)] small_pool_total [OF assms(1)] by simp_all
  then have "?B \<noteq> 0" by (intro word_of_int_small_neq_0) auto
  then obtain v where "deterministic_draw E seed domain ?B = Some (Inr v)"
    using assms(3) deterministic_draw_returns by (metis draw_returns_def)
  moreover have "weighted_draw E seed domain pool \<noteq> Some (Inl e)" for e
    by (rule weighted_draw_no_error [OF assms(1,2)])
  ultimately show ?thesis
    by (cases "pick v 0 (by_agent pool)") (auto simp: weighted_draw_def Let_def)
qed

lemma shuffle_loop_total:
  assumes "small_pool remaining" "draw_returns E seed"
  shows "\<exists>out. shuffle_loop E seed triggered cap positions remaining selected selections = Some (Inr out)"
  using assms(1)
proof (induction positions arbitrary: remaining selected selections)
  case (Cons p ps)
  let ?A = "provider_eligible remaining selected cap"
  obtain P x where dp: "draw_pool triggered p ?A = (P, x)" by fastforce
  show ?case
  proof (cases "?A = []")
    case False
    have "small_pool ?A"
      using Cons.prems by (auto simp: provider_eligible_def intro: small_pool_subset)
    then have "small_pool P" "P \<noteq> []"
      using draw_pool_facts [OF dp] False by (auto intro: small_pool_subset)
    then obtain c d t where w: "weighted_draw E seed (draw_domain p x) P = Some (Inr (c, d, t))"
      using weighted_draw_total assms(2) by blast
    have "small_pool (filter f remaining)" for f
      using Cons.prems by (auto intro: small_pool_subset)
    from Cons.IH [OF this] show ?thesis using False by (simp add: dp w Let_def)
  qed simp
qed simp

lemma fair_shuffle_total:
  assumes "validate_shuffle_input pool sx policy = Inr ()" "small_pool pool" "draw_returns E (derive_seed E sx policy)"
  shows "\<exists>res. fair_shuffle E pool sx policy = Some (Inr res)"
proof -
  let ?seed = "derive_seed E sx policy"
  obtain d where d: "deterministic_draw E ?seed ''exploration'' 10000 = Some (Inr d)"
    using assms(3) deterministic_draw_returns [where E = E and seed = ?seed and bound = 10000 and domain = "''exploration''"]
    by (auto simp: draw_returns_def)
  obtain out where "shuffle_loop E ?seed (d < word_of_int (sp_ExplorationBasisPoints policy)) (sp_ProviderCap policy)
      [1..sp_SelectionLimit policy] pool [] [] = Some (Inr out)"
    using shuffle_loop_total [OF assms(2,3)] by blast
  with d show ?thesis by (simp add: fair_shuffle_def assms(1) Let_def)
qed

lemma service_match_total:
  assumes "validate_request q = Inr ()" "distinct (map cd_AgentID cs)"
  shows "\<exists>res. service_match svc q cs = Inr res"
proof -
  obtain eligible excluded where hf: "hard_filter q cs = (eligible, excluded)" by fastforce
  have index_ok: "distinct (map cd_AgentID ds) \<Longrightarrow> cd_AgentID ` set ds \<inter> dom (gget m) = {} \<Longrightarrow> \<exists>m'. index_by_id ds m = Inr m'" for ds m
  proof (induction ds arbitrary: m)
    case (Cons d ds)
    have "dom (gget (gput (cd_AgentID d) d m)) = insert (cd_AgentID d) (dom (gget m))" by (auto split: if_splits)
    then show ?case using Cons by auto
  qed simp
  have "mset (map cd_AgentID eligible) = mset (map cd_AgentID (filter (\<lambda>c. filter_reasons q c True = []) cs))"
    using hf by (auto simp: hard_filter_def filter_candidates_eq)
  then have "distinct (map cd_AgentID eligible)"
    using assms(2) by (metis distinct_filter_map mset_eq_imp_distinct_iff)
  then obtain byID where "index_by_id eligible [] = Inr byID" using index_ok [of eligible "[]"] by (auto simp: dom_def)
  then show ?thesis by (simp add: service_match_def assms(1) hf Let_def split: prod.split)
qed

end
