(* ===== verification/Matching_Laws.thy ===== *)
theory Matching_Laws
  imports Matching_Repository
begin

text \<open>Laws of the matching components that the properties rest on: the range of the rule score,
  independence of the shuffle from the order of the pool, and the three candidates category-tags selects.\<close>

section \<open>The range of the rule score\<close>

lemma capacity_score_bounds:
  assumes "0 \<le> cd_ActiveCapacity c" "cd_ActiveCapacity c < cd_MaxConcurrency c" "cd_MaxConcurrency c < 2 ^ 60"
  shows "0 \<le> ratio_score (wrap64 (cd_MaxConcurrency c - cd_ActiveCapacity c)) (cd_MaxConcurrency c) 5 \<and>
    ratio_score (wrap64 (cd_MaxConcurrency c - cd_ActiveCapacity c)) (cd_MaxConcurrency c) 5 \<le> 5"
  using assms by (intro ratio_score_bounds) (auto simp: ratio_fits_def)

lemma rule_score_range:
  fixes ev :: evidence
  assumes "0 \<le> cd_ActiveCapacity c" "cd_ActiveCapacity c < cd_MaxConcurrency c" "cd_MaxConcurrency c < 2 ^ 60"
    and "rq_Deadline q - rq_Now q < 2 ^ 60"
  defines "s \<equiv> rule_score q c ev"
  shows "0 \<le> sb_TaskMatch s \<and> sb_TaskMatch s \<le> 60" "0 \<le> sb_Reputation s \<and> sb_Reputation s \<le> 25"
    "0 \<le> sb_PriceTime s \<and> sb_PriceTime s \<le> 10" "0 \<le> sb_Availability s \<and> sb_Availability s \<le> 5"
    "sb_RuleScore s = sb_TaskMatch s + sb_Reputation s + sb_PriceTime s + sb_Availability s"
proof -
  let ?w = "\<lambda>ch. weighted_relevance (evidence_relevance ev ch)"
  have "0 \<le> ?w ch 25 \<and> ?w ch 25 \<le> 25" "0 \<le> ?w ch 15 \<and> ?w ch 15 \<le> 15" "0 \<le> ?w ch 20 \<and> ?w ch 20 \<le> 20" for ch
    using weighted_relevance_bounds by auto
  from this(1) [of ChannelDense] this(2) [of ChannelLexical] this(3) [of ChannelExact]
  show "0 \<le> sb_TaskMatch s \<and> sb_TaskMatch s \<le> 60" by (simp add: s_def rule_score_def Let_def)
  have "time_sub (rq_Deadline q) (rq_Now q) < 2 ^ 60" using assms(4) by (simp add: time_sub_def clamp_def)
  from time_headroom_bounds [OF this, of "cd_EstimatedDuration c"] price_headroom_bounds [of "cd_FormalPrice c" "rq_FormalBudget q"]
  show "0 \<le> sb_PriceTime s \<and> sb_PriceTime s \<le> 10" by (simp add: s_def rule_score_def Let_def)
  show "0 \<le> sb_Reputation s \<and> sb_Reputation s \<le> 25" "0 \<le> sb_Availability s \<and> sb_Availability s \<le> 5"
    "sb_RuleScore s = sb_TaskMatch s + sb_Reputation s + sb_PriceTime s + sb_Availability s"
    using reputation_score_bounds capacity_score_bounds [OF assms(1-3)] by (simp_all add: s_def rule_score_def Let_def)
qed

section \<open>Order independence\<close>

lemma validate_pool_iff:
  "validate_pool best seen cs = Inr () \<longleftrightarrow>
     distinct (map agent_id cs) \<and> set seen \<inter> agent_id ` set cs = {} \<and>
     (\<forall>c \<in> set cs. \<not> blank (agent_id c) \<and> \<not> blank (provider_id c) \<and> QualificationFloor \<le> rule_score_of c \<and>
      QualificationFloor \<le> ranking_score c \<and> best - MaximumScoreGap \<le> ranking_score c \<and>
      0 \<le> cd_ExposureCount (sc_Candidate c) \<and> 0 \<le> cd_EffectiveSamples (sc_Candidate c))"
  by (induction cs arbitrary: seen) (auto simp: not_less)

lemma best_ranking_max: "best_ranking pool = Max (insert 0 (ranking_score ` set pool))"
proof -
  have "foldl (\<lambda>best c. if ranking_score c > best then ranking_score c else best) b cs = fold max (map ranking_score cs) b" for b cs
    by (induction cs arbitrary: b) (auto simp: max_def not_less)
  moreover have "Max (insert 0 (set (map ranking_score pool))) = fold max (map ranking_score pool) 0"
    using Max.set_eq_fold [of 0 "map ranking_score pool"] by simp
  ultimately show ?thesis by (simp add: best_ranking_def)
qed

lemma best_ranking_mset: "mset P = mset Q \<Longrightarrow> best_ranking P = best_ranking Q"
  unfolding best_ranking_max by (metis mset_eq_setD)

lemma validate_shuffle_input_perm:
  assumes "mset P = mset Q" "validate_shuffle_input P sx policy = Inr ()"
  shows "validate_shuffle_input Q sx policy = Inr () \<and> distinct (map agent_id P)"
proof -
  have eq: "set P = set Q" "length P = length Q" "best_ranking P = best_ranking Q"
    using mset_eq_setD [OF assms(1)] mset_eq_length [OF assms(1)] best_ranking_mset [OF assms(1)] .
  have d: "distinct (map agent_id P) \<longleftrightarrow> distinct (map agent_id Q)"
    using assms(1) by (intro mset_eq_imp_distinct_iff) simp
  have P: "validate_pool (best_ranking Q) [] P = Inr ()"
    using assms(2) unfolding validate_shuffle_input_def eq(3) by (simp split: if_splits)
  then have "validate_pool (best_ranking Q) [] Q = Inr ()"
    unfolding validate_pool_iff eq(1) d .
  moreover from P have "distinct (map agent_id P)" unfolding validate_pool_iff by (rule conjunct1)
  ultimately show ?thesis
    using assms(2) unfolding validate_shuffle_input_def eq(2,3) by (simp split: if_splits)
qed

lemma fair_shuffle_perm:
  assumes "mset P = mset Q" "validate_shuffle_input P sx policy = Inr ()"
  shows "fair_shuffle E P sx policy = fair_shuffle E Q sx policy"
proof -
  note v = validate_shuffle_input_perm [OF assms]
  have l: "shuffle_loop E seed triggered cap ps P selected sels = shuffle_loop E seed triggered cap ps Q selected sels" for seed triggered cap ps selected sels
    using assms(1) v by (intro shuffle_loop_perm) simp_all
  show ?thesis unfolding fair_shuffle_def l assms(2) conjunct1 [OF v] ..
qed

section \<open>The draw and the byte stream\<close>

lemma weighted_draw_stream:
  assumes "weighted_draw E seed domain pool = Some (Inr (c, draw, t))"
  shows "\<exists>counter. accepted (word_of_int t) (draw_value E seed domain counter) \<and>
    draw = draw_value E seed domain counter mod word_of_int t \<and> pick draw 0 (by_agent pool) = Some c"
proof -
  from assms have p: "pick draw 0 (by_agent pool) = Some c" and d: "deterministic_draw E seed domain (word_of_int t) = Some (Inr draw)"
    by (auto simp: weighted_draw_def Let_def split: option.splits sum.splits)
  from d obtain v where "draw_loop E seed domain (word_of_int t) (draw_threshold (word_of_int t)) 0 = Some draw"
    by (auto simp: deterministic_draw_def split: if_splits)
  from draw_loop_result [OF this] p show ?thesis by (auto simp: accepted_def)
qed

section \<open>A match is recorded\<close>

lemma check_selections_ok:
  assumes "\<forall>s \<in> set ss. agent_id (sel_Candidate s) \<in> set ids \<and> 1 \<le> sel_Position s \<and> sel_Position s \<le> 3 \<and>
      (sel_Exploration s \<longrightarrow> sel_Position s = 3)"
    and "distinct (map sel_Position ss)" "set positions \<inter> sel_Position ` set ss = {}"
  shows "check_selections ids positions ss = Inr ()"
  using assms by (induction ss arbitrary: positions) auto

lemma step_ok_exploration:
  assumes "step_ok E seed triggered pool cap before s" "sel_Exploration s"
  shows "sel_Position s = 3 \<and> triggered \<and> is_exploration_candidate (sc_Candidate (sel_Candidate s))"
  using assms draw_pool_facts(4) by (fastforce simp: step_ok_def Let_def split: prod.splits)

lemma fair_shuffle_selections_ok:
  assumes "fair_shuffle E pool sx policy = Some (Inr res)"
  shows "check_selections (map agent_id pool) [] (shr_Selections res) = Inr ()"
proof -
  let ?sels = "shr_Selections res" and ?cap = "sp_ProviderCap policy"
  note spec = fair_shuffle_result(2) [OF assms, unfolded shuffle_spec_def]
  have v: "0 \<le> ?cap" "sp_SelectionLimit policy \<le> 3"
    using fair_shuffle_result(1) [OF assms] by (simp_all add: validate_shuffle_input_def split: if_splits)
  have steps: "\<forall>i < length ?sels. step_ok E (derive_seed E sx policy) (shr_ExplorationTriggered res) pool ?cap (take i ?sels) (?sels ! i)"
    using spec by blast
  note p = shuffle_prefixes [OF steps v(1)]
  have len: "length ?sels \<le> 3" using spec v(2) by linarith
  have pos: "sel_Position s = int i + 1" if "i < length ?sels" "?sels ! i = s" for i s
    using p that by (metis (no_types, lifting) add.left_neutral diff_zero length_map length_upt nth_map nth_upt)
  have "agent_id (sel_Candidate s) \<in> set (map agent_id pool) \<and> 1 \<le> sel_Position s \<and> sel_Position s \<le> 3 \<and>
      (sel_Exploration s \<longrightarrow> sel_Position s = 3)" if s: "s \<in> set ?sels" for s
  proof -
    from s obtain i where i: "i < length ?sels" "?sels ! i = s" by (auto simp: in_set_conv_nth)
    with steps have "step_ok E (derive_seed E sx policy) (shr_ExplorationTriggered res) pool ?cap (take i ?sels) s" by blast
    with step_ok_exploration pos [OF i] i(1) len s p show ?thesis by auto
  qed
  moreover have "distinct (map sel_Position ?sels)"
    using p by (simp add: distinct_map inj_on_def)
  ultimately show ?thesis by (intro check_selections_ok) auto
qed

lemma build_fair_snapshot:
  assumes "validate_shuffle_input (mr_Qualified (sd_Result draft))
      \<lparr>sx_TaskID = sk_TaskID (sd_Key draft), sx_TaskSpecHash = sk_TaskSpecHash (sd_Key draft), sx_MatchRevision = revision,
       sx_AlgorithmVersion = sk_AlgorithmVersion (sd_Key draft)\<rparr> policy = Inr ()"
    and "small_pool (mr_Qualified (sd_Result draft))" "\<And>seed. draw_returns E seed" "\<And>x. length (me_sha E x) = 32"
  shows "\<exists>s. build_snapshot E policy draft revision = Some (Inr s) \<and> sn_Result s = sd_Result draft \<and>
    sn_TaskSpecHash s = sk_TaskSpecHash (sd_Key draft) \<and> sn_AlgorithmVersion s = sk_AlgorithmVersion (sd_Key draft)"
proof -
  have alg: "sk_AlgorithmVersion (sd_Key draft) = FairShuffleAlgorithmVersion" and rev: "1 \<le> revision"
    using assms(1) by (simp_all add: validate_shuffle_input_def split: if_splits)
  from fair_shuffle_total [OF assms(1,2,3)] obtain res where res: "fair_shuffle E (mr_Qualified (sd_Result draft))
      \<lparr>sx_TaskID = sk_TaskID (sd_Key draft), sx_TaskSpecHash = sk_TaskSpecHash (sd_Key draft), sx_MatchRevision = revision,
       sx_AlgorithmVersion = sk_AlgorithmVersion (sd_Key draft)\<rparr> policy = Some (Inr res)" by blast
  then have "\<exists>x. shr_SeedDigest res = sha_string (me_sha E x)"
    by (auto simp: fair_shuffle_def Let_def split: sum.splits option.splits)
  with assms(4) have "valid_digest (shr_SeedDigest res)" by (auto simp: valid_digest_sha_string)
  with fair_shuffle_selections_ok [OF res] rev assms(4) show ?thesis
    by (auto simp: build_snapshot_def Let_def alg res [unfolded alg] validate_snapshot_def snapshot_id_def
        shuffle_policy_hash_def valid_digest_sha_string)
qed

lemma match_recorded:
  assumes "validate_request q = Inr ()" "distinct (map cd_AgentID cs)"
    and "list_all (\<lambda>c. 0 \<le> cd_ExposureCount c \<and> 0 \<le> cd_EffectiveSamples c) cs"
    and "validate_shuffle_policy policy = Inr ()" "draft_key_ok draft" "sk_AlgorithmVersion (sd_Key draft) = FairShuffleAlgorithmVersion"
    and "\<forall>seed. draw_returns E seed" "\<forall>x. length (me_sha E x) = 32"
    and "gget (sr_byIdentity r) (K (sd_Key draft)) = None"
  shows "\<exists>res sn r'. service_match svc q cs = Inr res \<and>
    create_revision E K policy now (draft\<lparr>sd_Result := res\<rparr>) r = Some (r', Inr (sn, False)) \<and>
    sn_Result sn = res \<and> sn_MatchRevision sn = int (length (task_snapshots r (sk_TaskID (sd_Key draft)))) + 1 \<and>
    snapshot_latest (sk_TaskID (sd_Key draft)) (sk_TaskSpecHash (sd_Key draft)) FairShuffleAlgorithmVersion r' = Inr sn \<and>
    (\<forall>c \<in> set (mr_Qualified res). sc_Candidate c \<in> set cs \<and> passes_gates q True (sc_Candidate c) \<and>
       QualificationFloor \<le> rule_score_of c \<and> QualificationFloor \<le> ranking_score c)"
proof -
  obtain res where res: "service_match svc q cs = Inr res" using service_match_total [OF assms(1,2)] by blast
  let ?draft = "draft\<lparr>sd_Result := res\<rparr>" and ?t = "sk_TaskID (sd_Key draft)"
  let ?rev = "int (length (task_snapshots r ?t)) + 1"
  have "validate_snapshot_draft ?draft = Inr ()"
    using res assms(2,5,6) by (intro match_draft_valid [of svc q cs]) (simp_all add: draft_key_ok_def)
  moreover have pool: "validate_shuffle_input (mr_Qualified res)
      \<lparr>sx_TaskID = ?t, sx_TaskSpecHash = sk_TaskSpecHash (sd_Key draft), sx_MatchRevision = ?rev,
       sx_AlgorithmVersion = sk_AlgorithmVersion (sd_Key draft)\<rparr> policy = Inr () \<and> small_pool (mr_Qualified res)"
    using match_pool_valid [OF res assms(4), where sx = "\<lparr>sx_TaskID = ?t, sx_TaskSpecHash = sk_TaskSpecHash (sd_Key draft),
      sx_MatchRevision = ?rev, sx_AlgorithmVersion = sk_AlgorithmVersion (sd_Key draft)\<rparr>"] assms(3,5,6)
    by (simp add: list_all_iff draft_key_ok_def)
  obtain s where s: "build_snapshot E policy ?draft ?rev = Some (Inr s)" "sn_Result s = res"
    "sn_TaskSpecHash s = sk_TaskSpecHash (sd_Key draft)" "sn_AlgorithmVersion s = FairShuffleAlgorithmVersion"
    using build_fair_snapshot [of ?draft ?rev policy E] pool assms(6-8) by auto
  ultimately obtain r' where r': "create_revision E K policy now ?draft r = Some (r', Inr (s\<lparr>sn_CreatedAt := now\<rparr>, False))"
      "task_snapshots r' ?t = task_snapshots r ?t @ [s\<lparr>sn_CreatedAt := now\<rparr>]"
    using assms(9) by (simp add: create_revision_def repo_create_revision_def Let_def)
  moreover have "\<not> blank ''fair-shuffle-v1''" by (rule not_blank_Cons) (simp add: printable_def)
  then have "snapshot_latest ?t (sk_TaskSpecHash (sd_Key draft)) FairShuffleAlgorithmVersion r' = Inr (s\<lparr>sn_CreatedAt := now\<rparr>)"
    using assms(5) by (simp add: snapshot_latest_def repo_latest_def r'(2) s(3,4) from_option_def draft_key_ok_def)
  moreover have "\<forall>c \<in> set (mr_Qualified res). sc_Candidate c \<in> set cs \<and> passes_gates q True (sc_Candidate c) \<and>
       QualificationFloor \<le> rule_score_of c \<and> QualificationFloor \<le> ranking_score c"
    by (rule service_match_facts [OF res]) (metis qualified_facts(1-3) scored_passes [OF res])
  ultimately show ?thesis
    using res s(2) build_snapshot_facts [OF s(1)] by (intro exI [of _ res] exI [of _ "s\<lparr>sn_CreatedAt := now\<rparr>"] exI [of _ r']) simp
qed

section \<open>Category tags\<close>

lemma sorted_prefix_top:
  assumes "sorted_wrt P xs" "x \<in> set (take n xs)" "y \<in> set xs" "y \<notin> set (take n xs)"
  shows "P x y"
proof -
  have "y \<in> set (drop n xs)" using assms(3,4) by (metis Un_iff append_take_drop_id set_append)
  moreover have "sorted_wrt P (take n xs @ drop n xs)" using assms(1) by simp
  ultimately show ?thesis using assms(2) unfolding sorted_wrt_append by blast
qed

lemma match_category_tags_facts:
  assumes "match_category_tags q cs = Inr res"
  shows "mr_Qualified res = take MaxQualifiedPool (sort_category_tags (map (score_by_tags (normalized_set (rq_Tags q))) (fst (category_tags_filter q cs))))"
proof -
  obtain eligible excluded where f: "category_tags_filter q cs = (eligible, excluded)" by fastforce
  from assms obtain scored where "score_tags_loop (normalized_set (rq_Tags q)) [] eligible [] = Inr scored"
    and "mr_Qualified res = take MaxQualifiedPool (take MaxScoredCandidates (sort_category_tags scored))"
    by (auto simp: match_category_tags_def rbind_Inr_iff f Let_def qualify_category_tags_def)
  with score_tags_loop_eq [of "normalized_set (rq_Tags q)" "[]" eligible "[]" scored] show ?thesis by (simp add: f)
qed

lemma category_tags_candidates:
  assumes "category_tags_selections E pool sx = Inr sh"
  shows "map sel_Candidate (shr_Selections sh) = take 3 (sort_category_tags pool)"
  using assms by (auto simp: category_tags_selections_def Let_def rbind_Inr_iff split: if_splits)

lemma category_tags_top:
  assumes "match_category_tags q cs = Inr res" "category_tags_selections E (mr_Qualified res) sx = Inr sh"
  shows "map sel_Candidate (shr_Selections sh) =
    take 3 (sort_category_tags (map (score_by_tags (normalized_set (rq_Tags q))) (fst (category_tags_filter q cs))))"
proof -
  let ?s = "sort_category_tags (map (score_by_tags (normalized_set (rq_Tags q))) (fst (category_tags_filter q cs)))"
  have "sorted_wrt (\<lambda>x y. tags_cmp x y \<le> 0) ?s"
    unfolding sort_category_tags_def by (rule tags.sorted_sort_func)
  then have "sort_category_tags (take MaxQualifiedPool ?s) = take MaxQualifiedPool ?s"
    unfolding sort_category_tags_def by (intro tags.sort_func_id sorted_wrt_take)
  then show ?thesis
    using category_tags_candidates [OF assms(2)] match_category_tags_facts [OF assms(1)] by simp
qed

lemma match_category_tags_total:
  assumes "validate_category_tags_request q = Inr ()" "distinct (map cd_AgentID cs)"
  shows "\<exists>res. match_category_tags q cs = Inr res"
proof -
  obtain eligible excluded where f: "filter_candidates q cs False = (eligible, excluded)" by fastforce
  have loop: "distinct (map cd_AgentID ds) \<Longrightarrow> set seen \<inter> cd_AgentID ` set ds = {} \<Longrightarrow> \<exists>out. score_tags_loop tags seen ds scored = Inr out" for tags seen ds scored
    by (induction ds arbitrary: seen scored) auto
  have "mset (map cd_AgentID eligible) = mset (map cd_AgentID (filter (\<lambda>c. filter_reasons q c False = []) cs))"
    using f by (auto simp: filter_candidates_eq)
  then have "distinct (map cd_AgentID eligible)"
    using assms(2) by (metis distinct_filter_map mset_eq_imp_distinct_iff)
  from loop [OF this, of "[]" "normalized_set (rq_Tags q)" "[]"] show ?thesis
    by (auto simp: match_category_tags_def assms(1) category_tags_filter_def f Let_def)
qed

lemma category_tags_selections_total:
  assumes "\<not> blank (sx_TaskID sx)" "valid_digest (sx_TaskSpecHash sx)" "1 \<le> sx_MatchRevision sx"
    "sx_AlgorithmVersion sx = CategoryTagsAlgorithmVersion" "length pool \<le> MaxQualifiedPool" "distinct (map agent_id pool)"
    "\<forall>c \<in> set pool. \<not> blank (agent_id c) \<and> \<not> blank (provider_id c)"
  shows "\<exists>sh. category_tags_selections E pool sx = Inr sh"
proof -
  have loop: "distinct (map agent_id cs) \<Longrightarrow> set seen \<inter> agent_id ` set cs = {} \<Longrightarrow>
      \<forall>c \<in> set cs. \<not> blank (agent_id c) \<and> \<not> blank (provider_id c) \<Longrightarrow> \<exists>out. tags_digest_loop seen cs acc = Inr out" for seen cs acc
    by (induction cs arbitrary: seen acc) auto
  have "mset (map agent_id (sort_category_tags pool)) = mset (map agent_id pool)" by (simp add: sort_category_tags_def)
  then have "distinct (map agent_id (sort_category_tags pool))" using assms(6) by (metis mset_eq_imp_distinct_iff)
  moreover have "set (sort_category_tags pool) = set pool" by (simp add: sort_category_tags_def)
  ultimately obtain out where "tags_digest_loop [] (sort_category_tags pool)
      (write_seed_field (sx_TaskID sx) @ write_seed_field (sx_TaskSpecHash sx) @ write_seed_field (sx_AlgorithmVersion sx)) = Inr out"
    using loop [of "sort_category_tags pool" "[]"] assms(7) by fastforce
  then show ?thesis using assms(1-5) by (simp add: category_tags_selections_def Let_def)
qed

lemma distinct_map_sort: "distinct (map f (sort_func cmp xs)) = distinct (map f xs)"
  by (rule mset_eq_imp_distinct_iff) simp

lemma category_tags_pool:
  assumes "match_category_tags q cs = Inr res" "distinct (map cd_AgentID cs)"
  shows "length (mr_Qualified res) \<le> MaxQualifiedPool \<and> distinct (map agent_id (mr_Qualified res)) \<and>
    (\<forall>c \<in> set (mr_Qualified res). \<not> blank (agent_id c) \<and> \<not> blank (provider_id c))"
proof -
  let ?f = "score_by_tags (normalized_set (rq_Tags q))"
  obtain eligible excluded where f: "filter_candidates q cs False = (eligible, excluded)" by fastforce
  have pool: "mr_Qualified res = take MaxQualifiedPool (sort_category_tags (map ?f eligible))"
    using match_category_tags_facts [OF assms(1)] f by (simp add: category_tags_filter_def)
  have m: "mset eligible = mset (filter (passes_gates q False) cs)"
    using f by (auto simp: filter_candidates_eq filter_reasons_nil_iff)
  have "mset (map cd_AgentID eligible) = mset (map cd_AgentID (filter (passes_gates q False) cs))" using m by simp
  then have "distinct (map cd_AgentID eligible)"
    using assms(2) by (metis distinct_filter_map mset_eq_imp_distinct_iff)
  moreover have "map cd_AgentID eligible = map agent_id (map ?f eligible)" by simp
  ultimately have "distinct (map agent_id (sort_category_tags (map ?f eligible)))"
    unfolding sort_category_tags_def by (metis distinct_map_sort)
  then have "distinct (map agent_id (mr_Qualified res))" by (simp add: pool take_map [symmetric])
  moreover have "passes_gates q False (sc_Candidate c)" if c: "c \<in> set (mr_Qualified res)" for c
  proof -
    from c have "c \<in> ?f ` set eligible" unfolding pool sort_category_tags_def by (auto dest: in_set_takeD)
    then show ?thesis unfolding mset_eq_setD [OF m] by auto
  qed
  ultimately show ?thesis by (simp add: pool passes_gates_def)
qed

end
