(* ===== verification/Matching_Properties.thy ===== *)
theory Matching_Properties
  imports Matching_Laws
begin

text \<open>The properties of the matching package, after the concrete values their witnesses evaluate.\<close>

text \<open>Concrete inputs for the witnesses of the matching properties: a request, two candidates of two
  providers, a policy, and hashes with fixed results.\<close>

section \<open>Values\<close>

definition demo_menv :: match_env where
  "demo_menv = \<lparr>me_sha = \<lambda>_. replicate 32 (CHR 0x00), me_hmac = \<lambda>_ _. replicate 32 (CHR 0xFF)\<rparr>"

definition demo_req :: match_request where
  "demo_req = \<lparr>rq_TaskID = ''t1'', rq_PublisherID = ''u1'', rq_Category = ''go'', rq_Language = ''en'', rq_Terms = [], rq_Tags = [''api''],
     rq_RequiredCapabilities = [], rq_RequiredProtocolVersion = ''v1'', rq_RequiredVectorVersion = ''e1'', rq_OverviewBudget = ''5'',
     rq_FormalBudget = ''9'', rq_ExternalCostCap = ''0'', rq_Deadline = 24 * hour_ns, rq_Now = 1\<rparr>"

definition demo_cand :: "string \<Rightarrow> string \<Rightarrow> candidate" where
  "demo_cand i p = \<lparr>cd_AgentID = i, cd_ProviderID = p, cd_Status = ''active'', cd_ApprovalStatus = ''approved'', cd_Health = ''healthy'',
     cd_HealthCheckedAt = Some 1, cd_HealthValidUntil = Some 2, cd_MaxConcurrency = 4, cd_ActiveCapacity = 1, cd_Category = ''go'',
     cd_Languages = [''en''], cd_Tags = [''api''], cd_Capabilities = [], cd_ProtocolVersion = ''v1'', cd_RiskStatus = ''eligible'',
     cd_PayoutAddress = ''0x'' @ replicate 40 (CHR ''1''), cd_VectorVersion = ''e1'', cd_EstimatedDuration = hour_ns,
     cd_OverviewPrice = ''1'', cd_FormalPrice = ''2'', cd_ExternalCostCap = ''0'', cd_PriceVersion = 1, cd_ExposureCount = 0,
     cd_EffectiveSamples = 0, cd_ReputationAvailable = True,
     cd_Reputation = \<lparr>rp_Quality = 80, rp_Speed = 80, rp_Reliability = 80, rp_Communication = 80, rp_Compliance = 80\<rparr>\<rparr>"

definition demo_cands :: "candidate list" where
  "demo_cands = [demo_cand ''a1'' ''p1'', demo_cand ''a2'' ''p2'']"

definition demo_scored :: "string \<Rightarrow> string \<Rightarrow> int \<Rightarrow> scored_candidate" where
  "demo_scored i p n = \<lparr>sc_Candidate = demo_cand i p, sc_Recall = [],
     sc_Score = zero_breakdown\<lparr>sb_RuleScore := n, sb_RankingScore := n\<rparr>\<rparr>"

definition demo_match_pool :: "scored_candidate list" where
  "demo_match_pool = [demo_scored ''a1'' ''p1'' 65, demo_scored ''a2'' ''p2'' 60]"

definition demo_spec_hash :: string where
  "demo_spec_hash = sha_string (replicate 32 (CHR 0x00))"

definition demo_policy :: shuffle_policy where
  "demo_policy = default_shuffle_policy ''k1'' (replicate 32 (CHR ''s''))"

definition demo_draft :: "string \<Rightarrow> string \<Rightarrow> snapshot_draft" where
  "demo_draft t algorithm = \<lparr>sd_Key = \<lparr>sk_TaskID = t, sk_TaskSpecHash = demo_spec_hash, sk_AlgorithmVersion = algorithm, sk_EffectiveInputHash = demo_spec_hash\<rparr>,
     sd_RuleVersion = ''r1'', sd_ModelVersion = ''m1'',
     sd_Result = \<lparr>mr_Strategy = [], mr_Qualified = [], mr_Scored = [], mr_Excluded = [], mr_Degradations = []\<rparr>\<rparr>"

definition demo_sx :: "string \<Rightarrow> seed_context" where
  "demo_sx algorithm = \<lparr>sx_TaskID = ''t1'', sx_TaskSpecHash = demo_spec_hash, sx_MatchRevision = 1, sx_AlgorithmVersion = algorithm\<rparr>"

section \<open>Their evaluation\<close>

lemma demo_nonblank [simp]:
  "\<not> blank ''t1''" "\<not> blank ''t2''" "\<not> blank ''u1''" "\<not> blank ''go''" "\<not> blank ''en''" "\<not> blank ''v1''" "\<not> blank ''e1''" "\<not> blank ''a1''"
  "\<not> blank ''a2''" "\<not> blank ''p1''" "\<not> blank ''p2''" "\<not> blank ''k1''" "\<not> blank ''r1''" "\<not> blank ''m1''" "\<not> blank ''policy-validation''"
  by (rule not_blank_Cons, simp add: printable_def)+

lemma demo_spec_hash_valid [simp]: "valid_digest demo_spec_hash"
  by (simp add: demo_spec_hash_def valid_digest_sha_string)

lemma demo_match_money [simp]: "valid_money ''0''" "valid_money ''1''" "valid_money ''2''" "valid_money ''5''" "valid_money ''9''"
  by (simp_all add: valid_money_def bigint_parse_def digits_parse_def has_prefix_def char_between_def)

lemma demo_match_parse [simp]: "bigint_parse ''0'' = Some 0" "bigint_parse ''1'' = Some 1" "bigint_parse ''2'' = Some 2"
  "bigint_parse ''5'' = Some 5" "bigint_parse ''9'' = Some 9"
  by (simp_all add: bigint_parse_def digits_parse_def has_prefix_def char_between_def nat_of_digits_def digit_val_def)

lemma equal_fold_trim_refl [simp]: "equal_fold_trim a a"
  by (simp add: equal_fold_trim_def equal_fold_def)

lemma demo_request_ok: "validate_request demo_req = Inr ()" "validate_category_tags_request demo_req = Inr ()"
  by (simp_all add: validate_request_def validate_category_tags_request_def demo_req_def invalid_money_iff)

lemma demo_cand_gates: "\<not> blank i \<Longrightarrow> \<not> blank p \<Longrightarrow> p \<noteq> ''u1'' \<Longrightarrow> passes_gates demo_req legacy (demo_cand i p)"
  by (simp add: passes_gates_def demo_req_def demo_cand_def contains_fold_def health_freshness_def wallet_address_def
      has_prefix_def valid_reputation_def money_greater_def list_all_iff)

lemma demo_policy_ok: "validate_shuffle_policy demo_policy = Inr ()"
proof -
  have "valid_digest (''sha256:'' @ replicate 64 (CHR ''0''))"
    by (simp add: valid_digest_def has_prefix_def hex_decodable_def is_hex_def char_between_def list_all_iff)
  then show ?thesis
    by (simp add: validate_shuffle_policy_def demo_policy_def default_shuffle_policy_def validate_shuffle_input_def best_ranking_def)
qed

lemma demo_sha_length: "length (me_sha demo_menv x) = 32"
  by (simp add: demo_menv_def)

lemma demo_draw_returns: "draw_returns demo_menv seed"
proof -
  have "be_value (replicate n (CHR 0xFF)) = 256 ^ n - 1" for n by (induction n) (auto simp: diff_mult_distrib2)
  then have "draw_value demo_menv seed domain c = of_nat (256 ^ 8 - 1)" for domain c
    by (simp add: draw_value_def demo_menv_def)
  moreover have "of_nat (256 ^ 8 - 1) = (- 1 :: 64 word)" by simp
  ultimately have "draw_value demo_menv seed domain c = - 1" for domain c by simp
  then show ?thesis by (simp add: draw_returns_def accepted_def)
qed

lemma demo_pool_ok: "validate_shuffle_input demo_match_pool (demo_sx FairShuffleAlgorithmVersion) demo_policy = Inr ()"
  by (simp add: validate_shuffle_input_def demo_sx_def demo_policy_def default_shuffle_policy_def demo_match_pool_def demo_scored_def
      demo_cand_def zero_breakdown_def best_ranking_def)

lemma demo_pool_small: "small_pool demo_match_pool" "distinct demo_match_pool"
  by (simp_all add: small_pool_def demo_match_pool_def demo_scored_def zero_breakdown_def)

lemma demo_draft_ok: "\<not> blank t \<Longrightarrow> draft_key_ok (demo_draft t algorithm)"
  by (simp add: draft_key_ok_def demo_draft_def)

lemma demo_cands_ok: "distinct (map cd_AgentID demo_cands)"
  "list_all (\<lambda>c. 0 \<le> cd_ExposureCount c \<and> 0 \<le> cd_EffectiveSamples c) demo_cands"
  by (simp_all add: demo_cands_def demo_cand_def)

section \<open>A recorded match\<close>

text \<open>The match of the demo request, recorded for a task in a repository without that task's key.\<close>

lemma demo_recorded:
  assumes "gget (sr_byIdentity r) t = None" "\<not> blank t"
  obtains res sn r' where "service_match (new_match_service None None) demo_req demo_cands = Inr res"
    "create_revision demo_menv sk_TaskID demo_policy now ((demo_draft t FairShuffleAlgorithmVersion)\<lparr>sd_Result := res\<rparr>) r = Some (r', Inr (sn, False))"
    "sn_MatchRevision sn = int (length (task_snapshots r t)) + 1"
    "snapshot_latest t demo_spec_hash FairShuffleAlgorithmVersion r' = Inr sn"
  using match_recorded [where K = sk_TaskID and draft = "demo_draft t FairShuffleAlgorithmVersion" and r = r and now = now
      and svc = "new_match_service None None" and E = demo_menv, OF demo_request_ok(1) demo_cands_ok demo_policy_ok demo_draft_ok [OF assms(2)]]
    assms(1) demo_draw_returns demo_sha_length
  by (auto simp: demo_draft_def)

text \<open>
  The properties of matching: the hard filter, the rule score, the weighted draw and the fair shuffle,
  the pipeline from a match to its stored snapshot, and the category-tags strategy. Each is followed by
  its witness where it has hypotheses.
\<close>

section \<open>The hard filter\<close>

text \<open>
  C31: The hard filter splits the candidates by the gates. For both strategies the eligible list is a
  permutation of the candidates that pass every gate, the excluded list of the others, each with its
  candidate and a non-empty list of reasons, and both lists are sorted by agent.
\<close>
theorem filter_partitions_by_gates:
  "case filter_candidates q cs legacy of (eligible, excluded) \<Rightarrow>
     mset eligible = mset (filter (passes_gates q legacy) cs) \<and>
     mset (map xc_Candidate excluded) = mset (filter (\<lambda>c. \<not> passes_gates q legacy c) cs) \<and>
     list_all (\<lambda>x. xc_AgentID x = cd_AgentID (xc_Candidate x) \<and> xc_Reasons x = filter_reasons q (xc_Candidate x) legacy \<and>
       xc_Reasons x \<noteq> []) excluded \<and>
     sorted (map cd_AgentID eligible) \<and> sorted (map xc_AgentID excluded)"
proof -
  obtain eligible excluded where f: "filter_candidates q cs legacy = (eligible, excluded)" by fastforce
  have m: "map xc_Candidate (map (exclusion_of q legacy) ds) = ds" for ds by (induction ds) (simp_all add: exclusion_of_def)
  have e: "mset excluded = mset (map (exclusion_of q legacy) (filter (\<lambda>c. \<not> passes_gates q legacy c) cs))"
    using f by (auto simp: filter_candidates_eq filter_reasons_nil_iff)
  then have "mset (map xc_Candidate excluded) = mset (filter (\<lambda>c. \<not> passes_gates q legacy c) cs)"
    by (metis m mset_map)
  moreover have "mset eligible = mset (filter (passes_gates q legacy) cs)"
    using f by (auto simp: filter_candidates_eq filter_reasons_nil_iff)
  moreover have "sorted (map cd_AgentID eligible)" "sorted (map xc_AgentID excluded)"
    using f key.sorted_sort_func [of cd_AgentID] key.sorted_sort_func [of xc_AgentID]
    by (auto simp: filter_candidates_eq sorted_map key_cmp_def)
  moreover have "list_all (\<lambda>x. xc_AgentID x = cd_AgentID (xc_Candidate x) \<and> xc_Reasons x = filter_reasons q (xc_Candidate x) legacy \<and>
      xc_Reasons x \<noteq> []) excluded"
    using filter_candidates_members(2) [OF f] by (auto simp: list_all_iff exclusion_of_def)
  ultimately show ?thesis by (simp add: f)
qed

section \<open>The rule score\<close>

text \<open>
  C32: A rule score is a score out of 100. For a candidate that passes the gates, with fewer than 2^60
  slots and a deadline less than 2^60 nanoseconds (36 years) away, the four parts are within 60, 25, 10
  and 5, the rule score is their sum, and the ranking score stays between 0 and 100 and within 5 of the
  rule score whatever the ranking model answers.
\<close>
theorem rule_score_out_of_100:
  assumes "passes_gates q legacy c" "cd_MaxConcurrency c < 2 ^ 60" "rq_Deadline q - rq_Now q < 2 ^ 60"
  shows "let s = rule_score q c ev; r = apply_model_delta s delta in
    0 \<le> sb_TaskMatch s \<and> sb_TaskMatch s \<le> 60 \<and> 0 \<le> sb_Reputation s \<and> sb_Reputation s \<le> 25 \<and>
    0 \<le> sb_PriceTime s \<and> sb_PriceTime s \<le> 10 \<and> 0 \<le> sb_Availability s \<and> sb_Availability s \<le> 5 \<and>
    sb_RuleScore s = sb_TaskMatch s + sb_Reputation s + sb_PriceTime s + sb_Availability s \<and>
    0 \<le> sb_RankingScore r \<and> sb_RankingScore r \<le> 100 \<and> sb_RuleScore r = sb_RuleScore s \<and>
    \<bar>sb_RankingScore r - sb_RuleScore s\<bar> \<le> 5"
proof -
  have "0 \<le> cd_ActiveCapacity c" "cd_ActiveCapacity c < cd_MaxConcurrency c" using assms(1) by (simp_all add: passes_gates_def)
  note r = rule_score_range [OF this assms(2,3), of ev]
  have a: "\<bar>sb_RankingScore (apply_model_delta s delta) - sb_RuleScore s\<bar> \<le> 5"
    if "0 \<le> sb_RuleScore s" "sb_RuleScore s \<le> 100" for s
    using that by (auto simp: apply_model_delta_def Let_def clamp_def abs_le_iff)
  have "sb_RuleScore (apply_model_delta s delta) = sb_RuleScore s" for s
    by (simp add: apply_model_delta_def Let_def)
  moreover have "0 \<le> sb_RuleScore (rule_score q c ev)" "sb_RuleScore (rule_score q c ev) \<le> 100"
    using r by linarith+
  ultimately show ?thesis
    using r apply_model_delta_ranking a unfolding Let_def by blast
qed

theorem rule_score_out_of_100_witness:
  "passes_gates demo_req True (demo_cand ''a1'' ''p1'') \<and>
   (\<forall>ev. sb_RankingScore (apply_model_delta (rule_score demo_req (demo_cand ''a1'' ''p1'') ev) 1000) \<le>
     sb_RuleScore (rule_score demo_req (demo_cand ''a1'' ''p1'') ev) + 5)"
proof (intro conjI allI)
  show "passes_gates demo_req True (demo_cand ''a1'' ''p1'')"
    by (rule demo_cand_gates) (simp_all add: not_blank_Cons printable_def)
next
  fix ev
  show "sb_RankingScore (apply_model_delta (rule_score demo_req (demo_cand ''a1'' ''p1'') ev) 1000) \<le>
     sb_RuleScore (rule_score demo_req (demo_cand ''a1'' ''p1'') ev) + 5"
    using rule_score_out_of_100 [of demo_req True "demo_cand ''a1'' ''p1''" ev 1000] demo_cand_gates [of "''a1''" "''p1''"]
    by (auto simp: demo_cand_def demo_req_def Let_def)
qed

text \<open>
  Beyond that window the score is wrong. With a deadline 2^61 nanoseconds (73 years) away an estimate
  of one hour scores -2 for its time headroom instead of the full 5: the product of the 64-bit duration
  and the maximum wraps around.
\<close>
theorem far_deadline_wraps:
  "time_headroom_score hour_ns (2 ^ 60) = 5 \<and> time_headroom_score hour_ns (2 ^ 61) = -2"
  by (simp add: time_headroom_score_def ratio_score_def clamp_def wrap64_def go_div_def)

section \<open>The draw\<close>

text \<open>
  C18: The weighted draw is exactly proportional. The draw takes the first 64-bit value of its byte stream
  that it accepts, and among the accepted values exactly weight times floor(2^64 / total) select each
  candidate of the pool, so that no candidate gains from the reduction modulo the total weight.
\<close>
theorem weighted_draw_proportional:
  assumes "small_pool pool" "distinct pool" "c \<in> set pool"
  shows "card {w. accepted (word_of_int (total_weight pool)) w \<and> pick (w mod word_of_int (total_weight pool)) 0 (by_agent pool) = Some c} =
      nat (weight_of c) * (2 ^ 64 div nat (total_weight pool)) \<and>
    (weighted_draw E seed domain pool = Some (Inr (d, draw, t)) \<longrightarrow>
      t = total_weight pool \<and>
      (\<exists>counter. accepted (word_of_int t) (draw_value E seed domain counter) \<and>
         draw = draw_value E seed domain counter mod word_of_int t \<and> pick draw 0 (by_agent pool) = Some d))"
  using weighted_draw_share [OF assms] weighted_draw_result [of E seed domain pool d draw t]
    weighted_draw_stream [of E seed domain pool d draw t] by blast

theorem weighted_draw_proportional_witness:
  "card {w :: 64 word. accepted 7 w \<and> pick (w mod 7) 0 (by_agent demo_match_pool) = Some (demo_scored ''a1'' ''p1'' 65)} = 6 * (2 ^ 64 div 7)"
proof -
  have "total_weight demo_match_pool = 7" "weight_of (demo_scored ''a1'' ''p1'' 65) = 6"
    by (simp_all add: demo_match_pool_def total_weight_def selection_weight_def demo_scored_def)
  with weighted_draw_proportional [OF demo_pool_small, of "demo_scored ''a1'' ''p1'' 65" undefined undefined undefined undefined undefined undefined]
  show ?thesis by (simp add: demo_match_pool_def)
qed

text \<open>
  C17: A fair shuffle returns and is fair. For a valid pool and policy, if the keyed hash eventually yields
  an accepted value, the shuffle returns selections at positions 1, 2, .. of distinct agents of the pool,
  at most cap of a provider, at most the limit, each drawn by weight among all that were still available;
  it stops early only when every remaining provider is at its cap, and explores only at position 3,
  only when triggered and only among exploration candidates.
\<close>
theorem fair_shuffle_fair:
  assumes "validate_shuffle_input pool sx policy = Inr ()" "small_pool pool" "draw_returns E (derive_seed E sx policy)"
  shows "\<exists>res. fair_shuffle E pool sx policy = Some (Inr res) \<and>
    (let sels = shr_Selections res; cap = sp_ProviderCap policy in
      map sel_Position sels = map (\<lambda>i. int i + 1) [0..<length sels] \<and>
      distinct (map (\<lambda>s. agent_id (sel_Candidate s)) sels) \<and>
      (\<forall>s \<in> set sels. sel_Candidate s \<in> set pool) \<and>
      (\<forall>p. provider_count p sels \<le> cap) \<and>
      int (length sels) \<le> sp_SelectionLimit policy \<and>
      (int (length sels) < sp_SelectionLimit policy \<longrightarrow>
        (\<forall>c \<in> set pool. agent_id c \<in> chosen sels \<or> cap \<le> provider_count (provider_id c) sels)) \<and>
      (\<forall>i < length sels. step_ok E (derive_seed E sx policy) (shr_ExplorationTriggered res) pool cap (take i sels) (sels ! i)) \<and>
      (\<forall>s \<in> set sels. sel_Exploration s \<longrightarrow> sel_Position s = 3 \<and> shr_ExplorationTriggered res \<and>
         is_exploration_candidate (sc_Candidate (sel_Candidate s))))"
proof -
  obtain res where res: "fair_shuffle E pool sx policy = Some (Inr res)" using fair_shuffle_total [OF assms] by blast
  let ?sels = "shr_Selections res" and ?cap = "sp_ProviderCap policy"
  have spec: "shuffle_spec E (derive_seed E sx policy) (shr_ExplorationTriggered res) pool ?cap (sp_SelectionLimit policy) ?sels"
    by (rule fair_shuffle_result(2) [OF res])
  then have steps: "\<forall>i < length ?sels. step_ok E (derive_seed E sx policy) (shr_ExplorationTriggered res) pool ?cap (take i ?sels) (?sels ! i)"
    by (simp add: shuffle_spec_def)
  have "0 \<le> ?cap" using assms(1) by (simp add: validate_shuffle_input_def split: if_splits)
  note prefixes = shuffle_prefixes [OF steps this]
  have explores: "sel_Position s = 3 \<and> shr_ExplorationTriggered res \<and> is_exploration_candidate (sc_Candidate (sel_Candidate s))"
    if "s \<in> set ?sels" "sel_Exploration s" for s
    using steps that step_ok_exploration by (metis in_set_conv_nth)
  have "agent_id c \<in> chosen ?sels \<or> ?cap \<le> provider_count (provider_id c) ?sels"
    if "int (length ?sels) < sp_SelectionLimit policy" "c \<in> set pool" for c
    using spec that by (auto simp: shuffle_spec_def available_after_def left_over_def filter_empty_conv not_less)
  with res prefixes steps explores spec show ?thesis by (auto simp: shuffle_spec_def Let_def)
qed

theorem fair_shuffle_fair_witness:
  "\<exists>res. fair_shuffle demo_menv demo_match_pool (demo_sx FairShuffleAlgorithmVersion) demo_policy = Some (Inr res) \<and>
     chosen (shr_Selections res) = {''a1'', ''a2''} \<and> map sel_Position (shr_Selections res) = [1, 2]"
proof -
  from fair_shuffle_fair [OF demo_pool_ok demo_pool_small(1) demo_draw_returns] obtain res where
    res: "fair_shuffle demo_menv demo_match_pool (demo_sx FairShuffleAlgorithmVersion) demo_policy = Some (Inr res)"
    and pos: "map sel_Position (shr_Selections res) = map (\<lambda>i. int i + 1) [0..<length (shr_Selections res)]"
    and d: "distinct (map (\<lambda>s. agent_id (sel_Candidate s)) (shr_Selections res))"
    and sub: "\<forall>s \<in> set (shr_Selections res). sel_Candidate s \<in> set demo_match_pool"
    and stop: "int (length (shr_Selections res)) < sp_SelectionLimit demo_policy \<longrightarrow>
        (\<forall>c \<in> set demo_match_pool. agent_id c \<in> chosen (shr_Selections res) \<or> sp_ProviderCap demo_policy \<le> provider_count (provider_id c) (shr_Selections res))"
    by (auto simp: Let_def)
  let ?C = "chosen (shr_Selections res)"
  have sub_C: "?C \<subseteq> {''a1'', ''a2''}" using sub by (auto simp: chosen_def demo_match_pool_def demo_scored_def demo_cand_def)
  have "card ?C = length (shr_Selections res)" using distinct_card [OF d] by (simp add: chosen_def)
  moreover have "card ?C \<le> 2" using card_mono [OF _ sub_C] by simp
  ultimately have len: "length (shr_Selections res) = card ?C" "length (shr_Selections res) \<le> 2" by simp_all
  have "agent_id c \<in> ?C" if c: "c \<in> set demo_match_pool" for c
  proof (rule ccontr)
    assume "agent_id c \<notin> ?C"
    with stop c len(2) have "1 \<le> provider_count (provider_id c) (shr_Selections res)"
      by (auto simp: demo_policy_def default_shuffle_policy_def)
    then have "filter (\<lambda>s. provider_id (sel_Candidate s) = provider_id c) (shr_Selections res) \<noteq> []" by (auto simp: provider_count_def)
    then obtain s where s: "s \<in> set (shr_Selections res)" "provider_id (sel_Candidate s) = provider_id c" by (auto simp: filter_empty_conv)
    with sub c have "agent_id (sel_Candidate s) = agent_id c" by (auto simp: demo_match_pool_def demo_scored_def demo_cand_def)
    with s(1) have "agent_id c \<in> ?C" unfolding chosen_def by (metis imageI)
    with \<open>agent_id c \<notin> ?C\<close> show False ..
  qed
  then have "\<forall>c \<in> set demo_match_pool. agent_id c \<in> ?C" by blast
  then have "{''a1'', ''a2''} \<subseteq> ?C" by (simp add: demo_match_pool_def demo_scored_def demo_cand_def)
  with sub_C have "?C = {''a1'', ''a2''}" by (rule subset_antisym)
  with len have "length (shr_Selections res) = 2" "?C = {''a1'', ''a2''}" by simp_all
  with res pos show ?thesis by (simp add: upt_rec)
qed

text \<open>
  The order in which the pool was collected does not matter: two permutations of a valid pool give the
  same shuffle, so a provider gains nothing from being listed first.
\<close>
theorem fair_shuffle_order_free:
  assumes "mset pool = mset pool'" "validate_shuffle_input pool sx policy = Inr ()"
  shows "fair_shuffle E pool sx policy = fair_shuffle E pool' sx policy"
  by (rule fair_shuffle_perm [OF assms])

theorem fair_shuffle_order_free_witness:
  "validate_shuffle_input demo_match_pool (demo_sx FairShuffleAlgorithmVersion) demo_policy = Inr () \<and> rev demo_match_pool \<noteq> demo_match_pool \<and>
   fair_shuffle demo_menv demo_match_pool (demo_sx FairShuffleAlgorithmVersion) demo_policy = fair_shuffle demo_menv (rev demo_match_pool) (demo_sx FairShuffleAlgorithmVersion) demo_policy"
  using fair_shuffle_order_free [of demo_match_pool "rev demo_match_pool", OF _ demo_pool_ok] demo_pool_ok
  by (simp add: demo_match_pool_def demo_scored_def demo_cand_def)

section \<open>Snapshots\<close>

text \<open>
  A match is recorded. For a valid request on candidates with distinct identifiers and sane counters
  and a valid policy, the match succeeds, every qualified candidate is one of the candidates, passes every
  gate and scores at least the floor, and the snapshot service accepts the result as a new revision of
  the task, which the lookup then returns.
\<close>
theorem match_is_recorded:
  assumes "validate_request q = Inr ()" "distinct (map cd_AgentID cs)"
    and "list_all (\<lambda>c. 0 \<le> cd_ExposureCount c \<and> 0 \<le> cd_EffectiveSamples c) cs"
    and "validate_shuffle_policy policy = Inr ()" "draft_key_ok draft" "sk_AlgorithmVersion (sd_Key draft) = FairShuffleAlgorithmVersion"
    and "\<forall>seed. draw_returns E seed" "\<forall>x. length (me_sha E x) = 32"
    and "gget (sr_byIdentity r) (K (sd_Key draft)) = None"
  shows "\<exists>res sn r'. service_match svc q cs = Inr res \<and>
    create_revision E K policy now (draft\<lparr>sd_Result := res\<rparr>) r = Some (r', Inr (sn, False)) \<and>
    sn_Result sn = res \<and> sn_MatchRevision sn = int (length (task_snapshots r (sk_TaskID (sd_Key draft)))) + 1 \<and>
    snapshot_latest (sk_TaskID (sd_Key draft)) (sk_TaskSpecHash (sd_Key draft)) FairShuffleAlgorithmVersion r' = Inr sn \<and>
    (\<forall>c \<in> set (mr_Qualified res). sc_Candidate c \<in> set cs \<and> passes_gates q True (sc_Candidate c) \<and>
       QualificationFloor \<le> rule_score_of c \<and> QualificationFloor \<le> ranking_score c)"
  by (rule match_recorded [where K = K and draft = draft, OF assms])

theorem match_is_recorded_witness:
  "\<exists>res sn r'. service_match (new_match_service None None) demo_req demo_cands = Inr res \<and>
     create_revision demo_menv sk_TaskID demo_policy 5 ((demo_draft ''t1'' FairShuffleAlgorithmVersion)\<lparr>sd_Result := res\<rparr>) new_snapshot_repository =
       Some (r', Inr (sn, False)) \<and> sn_MatchRevision sn = 1"
  using match_is_recorded [where K = sk_TaskID and draft = "demo_draft ''t1'' FairShuffleAlgorithmVersion" and r = new_snapshot_repository
      and now = 5 and svc = "new_match_service None None" and E = demo_menv, OF demo_request_ok(1) demo_cands_ok demo_policy_ok demo_draft_ok]
    demo_draw_returns demo_sha_length
  by (auto simp: demo_draft_def new_snapshot_repository_def task_snapshots_def gget_def)

text \<open>
  A task's revisions are numbered 1, 2, .. without gaps, every stored snapshot belongs to its task
  and is a complete snapshot, and the lookup returns the greatest revision of the specification and
  algorithm asked for.
\<close>
theorem snapshots_numbered:
  assumes "snapshots_reachable E K policy r"
  shows "map sn_MatchRevision (task_snapshots r t) = [1..int (length (task_snapshots r t))] \<and>
    list_all (\<lambda>s. sn_TaskID s = t \<and> validate_snapshot s = Inr ()) (task_snapshots r t) \<and>
    (snapshot_latest t h a r = Inr s \<longrightarrow> s \<in> set (task_snapshots r t) \<and> sn_TaskSpecHash s = h \<and> sn_AlgorithmVersion s = a \<and>
      (\<forall>z \<in> set (task_snapshots r t). sn_TaskSpecHash z = h \<and> sn_AlgorithmVersion z = a \<longrightarrow> sn_MatchRevision z \<le> sn_MatchRevision s))"
  using snapshots_reachable_inv [OF assms] snapshot_latest_facts [OF snapshots_reachable_inv [OF assms]]
  by (auto simp: snapshots_inv_def)

theorem snapshots_numbered_witness:
  "\<exists>r' sn. snapshots_reachable demo_menv sk_TaskID demo_policy r' \<and> snapshot_latest ''t1'' demo_spec_hash FairShuffleAlgorithmVersion r' = Inr sn \<and>
     map sn_MatchRevision (task_snapshots r' ''t1'') = [1..int (length (task_snapshots r' ''t1''))] \<and> sn \<in> set (task_snapshots r' ''t1'')"
proof -
  have "gget (sr_byIdentity new_snapshot_repository) ''t1'' = None" by (simp add: new_snapshot_repository_def)
  from demo_recorded [OF this demo_nonblank(1), of 5] obtain res sn r' where
    c: "create_revision demo_menv sk_TaskID demo_policy 5 ((demo_draft ''t1'' FairShuffleAlgorithmVersion)\<lparr>sd_Result := res\<rparr>) new_snapshot_repository =
      Some (r', Inr (sn, False))" and l: "snapshot_latest ''t1'' demo_spec_hash FairShuffleAlgorithmVersion r' = Inr sn" by blast
  have "snapshots_reachable demo_menv sk_TaskID demo_policy r'" by (rule snapshots_step [OF snapshots_start c])
  from snapshots_numbered [OF this, of "''t1''" demo_spec_hash FairShuffleAlgorithmVersion sn] this l show ?thesis by blast
qed

text \<open>
  A snapshot is drawn once. After a revision was created, the same draft is answered with that very
  snapshot, without a new draw and without a change of the repository, whatever other revisions were
  created in between; and no later call rewrites the revisions a task already has.
\<close>
theorem snapshot_drawn_once:
  assumes "create_revision E K policy now draft r = Some (r', Inr (sn, False))" "(snapshots_env_step E K policy)\<^sup>*\<^sup>* r' r''"
  shows "create_revision E K policy now' draft r'' = Some (r'', Inr (sn, True)) \<and>
    (\<exists>later. task_snapshots r'' t = task_snapshots r' t @ later)"
proof -
  from assms(1) have "validate_snapshot_draft draft = Inr ()" "gget (sr_byIdentity r') (K (sd_Key draft)) = Some sn"
    by (auto simp: create_revision_def repo_create_revision_def Let_def split: sum.splits option.splits)
  moreover have "snapshots_extend r' r''" by (rule env_extends [OF assms(2)])
  ultimately show ?thesis
    by (auto simp: snapshots_extend_def map_le_def create_revision_def repo_create_revision_def dom_def)
qed

theorem snapshot_drawn_once_witness:
  "\<exists>res r' sn r''. snapshots_env_step demo_menv sk_TaskID demo_policy r' r'' \<and> task_snapshots r'' ''t2'' \<noteq> task_snapshots r' ''t2'' \<and>
     create_revision demo_menv sk_TaskID demo_policy 9 ((demo_draft ''t1'' FairShuffleAlgorithmVersion)\<lparr>sd_Result := res\<rparr>) r'' =
       Some (r'', Inr (sn, True))"
proof -
  have "gget (sr_byIdentity new_snapshot_repository) ''t1'' = None" by (simp add: new_snapshot_repository_def)
  from demo_recorded [OF this demo_nonblank(1), of 5] obtain res sn r' where
    c: "create_revision demo_menv sk_TaskID demo_policy 5 ((demo_draft ''t1'' FairShuffleAlgorithmVersion)\<lparr>sd_Result := res\<rparr>) new_snapshot_repository =
      Some (r', Inr (sn, False))" by blast
  have new: "gget (sr_byIdentity r') ''t2'' = None \<and> task_snapshots r' ''t2'' = []"
    using c by (cases rule: create_revision_cases) (auto simp: new_snapshot_repository_def task_snapshots_def demo_draft_def)
  then obtain res2 sn2 r'' where
    c2: "create_revision demo_menv sk_TaskID demo_policy 7 ((demo_draft ''t2'' FairShuffleAlgorithmVersion)\<lparr>sd_Result := res2\<rparr>) r' =
      Some (r'', Inr (sn2, False))" and l2: "snapshot_latest ''t2'' demo_spec_hash FairShuffleAlgorithmVersion r'' = Inr sn2"
    using demo_recorded [of r' "''t2''" 7] by (metis demo_nonblank(2))
  have step: "snapshots_env_step demo_menv sk_TaskID demo_policy r' r''" using c2 by (auto simp: snapshots_env_step_def)
  have "snapshots_inv r''" by (rule snapshots_reachable_inv [OF snapshots_step [OF snapshots_step [OF snapshots_start c] c2]])
  from snapshot_latest_facts [OF this l2] new have "task_snapshots r'' ''t2'' \<noteq> task_snapshots r' ''t2''" by auto
  with step snapshot_drawn_once [OF c r_into_rtranclp [of "snapshots_env_step demo_menv sk_TaskID demo_policy", OF step], of 9]
  show ?thesis by blast
qed

section \<open>Category tags\<close>

text \<open>
  Category-tags selects the best overlaps. The selections of a category-tags match are, in order, the
  first three of the eligible candidates by tag overlap and agent: no eligible candidate left out has a
  greater overlap than a selected one, nor the same overlap and a smaller agent identifier.
\<close>
theorem category_tags_best_overlap:
  assumes "match_category_tags q cs = Inr res" "category_tags_selections E (mr_Qualified res) sx = Inr sh"
  shows "let chosen_ones = map sel_Candidate (shr_Selections sh); scored = score_by_tags (normalized_set (rq_Tags q)) in
    length chosen_ones = min 3 (length (filter (passes_gates q False) cs)) \<and>
    (\<forall>x \<in> set chosen_ones. sc_Candidate x \<in> set cs \<and> passes_gates q False (sc_Candidate x) \<and> x = scored (sc_Candidate x) \<and>
      (\<forall>c \<in> set cs. passes_gates q False c \<longrightarrow> scored c \<in> set chosen_ones \<or> tags_cmp x (scored c) \<le> 0))"
proof -
  let ?f = "score_by_tags (normalized_set (rq_Tags q))"
  let ?xs = "sort_category_tags (map ?f (fst (category_tags_filter q cs)))"
  note top = category_tags_top [OF assms]
  obtain eligible excluded where f: "filter_candidates q cs False = (eligible, excluded)" by fastforce
  then have e: "fst (category_tags_filter q cs) = eligible" by (simp add: category_tags_filter_def)
  have m: "mset eligible = mset (filter (passes_gates q False) cs)"
    using f by (auto simp: filter_candidates_eq filter_reasons_nil_iff)
  have len: "length eligible = length (filter (passes_gates q False) cs)" using mset_eq_length [OF m] .
  have se: "set eligible = {c \<in> set cs. passes_gates q False c}" using mset_eq_setD [OF m] by simp
  have sx: "set ?xs = ?f ` {c \<in> set cs. passes_gates q False c}" by (simp add: sort_category_tags_def e se)
  have sorted: "sorted_wrt (\<lambda>x y. tags_cmp x y \<le> 0) ?xs"
    unfolding sort_category_tags_def by (rule tags.sorted_sort_func)
  have "tags_cmp x (?f c) \<le> 0" if "x \<in> set (take 3 ?xs)" "c \<in> set cs" "passes_gates q False c" "?f c \<notin> set (take 3 ?xs)" for x c
    using sorted_prefix_top [OF sorted that(1) _ that(4)] that(2,3) sx by blast
  moreover have "sc_Candidate x \<in> set cs \<and> passes_gates q False (sc_Candidate x) \<and> x = ?f (sc_Candidate x)" if "x \<in> set (take 3 ?xs)" for x
    using in_set_takeD [OF that] unfolding sx by auto
  moreover have "length (take 3 ?xs) = min 3 (length (filter (passes_gates q False) cs))"
    by (simp add: sort_category_tags_def e len min.commute)
  ultimately show ?thesis unfolding Let_def top by blast
qed

theorem category_tags_best_overlap_witness:
  "\<exists>res sh. match_category_tags demo_req demo_cands = Inr res \<and>
     category_tags_selections demo_menv (mr_Qualified res) (demo_sx CategoryTagsAlgorithmVersion) = Inr sh \<and> length (shr_Selections sh) = 2"
proof -
  obtain res where res: "match_category_tags demo_req demo_cands = Inr res"
    using match_category_tags_total [OF demo_request_ok(2) demo_cands_ok(1)] by blast
  have "\<exists>sh. category_tags_selections demo_menv (mr_Qualified res) (demo_sx CategoryTagsAlgorithmVersion) = Inr sh"
    using category_tags_pool [OF res demo_cands_ok(1)] by (intro category_tags_selections_total) (simp_all add: demo_sx_def)
  then obtain sh where sh: "category_tags_selections demo_menv (mr_Qualified res) (demo_sx CategoryTagsAlgorithmVersion) = Inr sh" by blast
  have "length (map sel_Candidate (shr_Selections sh)) = 2"
    using category_tags_best_overlap [OF res sh] demo_cand_gates [of _ _ False] by (simp add: Let_def demo_cands_def)
  with res sh show ?thesis by auto
qed

end
