(* ===== verification/Dispute_Types.thy ===== *)
theory Dispute_Types
  imports Money Digest
begin

text \<open>
  The dispute package's data (\<open>internal/dispute/types.go\<close>). Structs are records with the source's
  field names behind a short prefix; a \<open>*time.Time\<close> is a \<open>gotime option\<close>; a \<open>Command\<close>, a kind with an
  input of any type, is a datatype with one constructor for each kind the code builds and \<open>DOther\<close> for
  the rest. The JSON round trip \<open>clone\<close> copies a view and is the identity on values.
\<close>

section \<open>Constants and errors\<close>

abbreviation PolicyVersion :: string where "PolicyVersion \<equiv> ''platform-dispute-v1''"
abbreviation StateSoftLock :: string where "StateSoftLock \<equiv> ''soft_lock_pending''"
abbreviation StateFrozen :: string where "StateFrozen \<equiv> ''frozen''"
abbreviation StateEvidence :: string where "StateEvidence \<equiv> ''evidence''"
abbreviation StateDecided :: string where "StateDecided \<equiv> ''decided''"
abbreviation StateFinal :: string where "StateFinal \<equiv> ''final''"
abbreviation StateOrphaned :: string where "StateOrphaned \<equiv> ''orphaned''"

datatype dispute_error =
    DErrInvalidInput
  | DErrForbidden
  | DErrNotFound
  | DErrInvalidState
  | DErrConflict
  | DErrPending
  | DErrEvidenceIncomplete
  | DPanic \<comment> \<open>a nil case dereferenced\<close>

section \<open>Structs\<close>

record mutation =
  mu_ActorID :: string
  mu_IdempotencyKey :: string
  mu_RequestHash :: string

record dispute_context =
  dx_TaskID :: string
  dx_AssignmentID :: string
  dx_DeliveryUnitID :: string
  dx_PublisherID :: string
  dx_AgentProviderID :: string
  dx_ChainID :: string
  dx_ContractAddress :: string
  dx_ChainTaskID :: string
  dx_PublisherWallet :: string
  dx_AgentController :: string
  dx_AgentPayout :: string
  dx_DisputeResolver :: string
  dx_FrozenAmount :: string
  dx_Asset :: string
  dx_FeeCap :: string
  dx_Eligible :: bool
  dx_ReasonCode :: string
  dx_DisputeDeadline :: gotime

record dispute_claim =
  cl_ID :: string
  cl_Side :: string
  cl_Kind :: string
  cl_ReasonCode :: string
  cl_StatementHash :: string
  cl_CreatedAt :: gotime

record dispute_evidence =
  ev_ID :: string
  ev_ClaimID :: string
  ev_Category :: string
  ev_ObjectKey :: string
  ev_CiphertextDigest :: string
  ev_EnvelopeKeyReference :: string
  ev_ObjectVersionID :: string
  ev_RetentionMode :: string
  ev_RetainUntil :: gotime
  ev_CreatedAt :: gotime
  ev_SubmittedBy :: string

record access_grant =
  ag_ID :: string
  ag_EvidenceID :: string
  ag_PrincipalID :: string
  ag_Purpose :: string
  ag_ExpiresAt :: gotime
  ag_CreatedAt :: gotime

record dispute_assignment =
  as_ID :: string
  as_Stage :: string
  as_AssigneeID :: string
  as_ConflictCheckedAt :: gotime
  as_AssignedAt :: gotime

record dispute_decision =
  de_ID :: string
  de_Kind :: string
  de_DecidedBy :: string
  de_ReasonCode :: string
  de_EvidenceRoot :: string
  de_PublisherBPS :: int
  de_CreatedAt :: gotime

record frozen_leaf =
  fl_Index :: int
  fl_Owner :: string
  fl_Account :: string
  fl_Cap :: string
  fl_Kind :: string

record admin_operation =
  ao_ID :: string
  ao_Kind :: string
  ao_ResourceType :: string
  ao_ResourceID :: string
  ao_ReasonCode :: string
  ao_PayloadHash :: string
  ao_ActorID :: string
  ao_Status :: string
  ao_CreatedAt :: gotime

record dispute_case =
  dc_ID :: string
  dc_TaskID :: string
  dc_AssignmentID :: string
  dc_DeliveryUnitID :: string
  dc_PolicyVersion :: string
  dc_PublisherID :: string
  dc_AgentProviderID :: string
  dc_State :: string
  dc_AggregateVersion :: int
  dc_SoftLockedAt :: "gotime option"
  dc_FreezeSubmittedAt :: "gotime option"
  dc_FrozenAt :: "gotime option"
  dc_FreezeTransactionHash :: string
  dc_FreezeEventID :: string
  dc_FreezeRoot :: string
  dc_FrozenAmount :: string
  dc_Asset :: string
  dc_EvidenceDeadline :: gotime
  dc_DecisionDeadline :: gotime
  dc_ReviewDeadline :: gotime
  dc_Claims :: "dispute_claim list"
  dc_Evidence :: "dispute_evidence list"
  dc_Assignments :: "dispute_assignment list"
  dc_Decisions :: "dispute_decision list"
  dc_Leaves :: "frozen_leaf list"
  dc_ReputationPending :: bool
  dc_FinalizedAt :: "gotime option"
  dc_CreatedAt :: gotime
  dc_UpdatedAt :: gotime

record dispute_view =
  vw_Case :: dispute_case
  vw_Context :: dispute_context
  vw_AccessGrants :: "access_grant list"
  vw_AdminOperations :: "admin_operation list"

text \<open>The zero values of the structs.\<close>

definition zero_dispute_context :: dispute_context where
  "zero_dispute_context = \<lparr>dx_TaskID = [], dx_AssignmentID = [], dx_DeliveryUnitID = [], dx_PublisherID = [], dx_AgentProviderID = [],
     dx_ChainID = [], dx_ContractAddress = [], dx_ChainTaskID = [], dx_PublisherWallet = [], dx_AgentController = [], dx_AgentPayout = [],
     dx_DisputeResolver = [], dx_FrozenAmount = [], dx_Asset = [], dx_FeeCap = [], dx_Eligible = False, dx_ReasonCode = [],
     dx_DisputeDeadline = 0\<rparr>"

definition zero_case :: dispute_case where
  "zero_case = \<lparr>dc_ID = [], dc_TaskID = [], dc_AssignmentID = [], dc_DeliveryUnitID = [], dc_PolicyVersion = [], dc_PublisherID = [],
     dc_AgentProviderID = [], dc_State = [], dc_AggregateVersion = 0, dc_SoftLockedAt = None, dc_FreezeSubmittedAt = None,
     dc_FrozenAt = None, dc_FreezeTransactionHash = [], dc_FreezeEventID = [], dc_FreezeRoot = [], dc_FrozenAmount = [], dc_Asset = [],
     dc_EvidenceDeadline = 0, dc_DecisionDeadline = 0, dc_ReviewDeadline = 0, dc_Claims = [], dc_Evidence = [], dc_Assignments = [],
     dc_Decisions = [], dc_Leaves = [], dc_ReputationPending = False, dc_FinalizedAt = None, dc_CreatedAt = 0, dc_UpdatedAt = 0\<rparr>"

definition zero_view :: dispute_view where
  "zero_view = \<lparr>vw_Case = zero_case, vw_Context = zero_dispute_context, vw_AccessGrants = [], vw_AdminOperations = []\<rparr>"

section \<open>Inputs and commands\<close>

record open_input =
  oi_DeliveryUnitID :: string
  oi_Kind :: string
  oi_ReasonCode :: string
  oi_StatementHash :: string

record claim_input =
  ci_Kind :: string
  ci_ReasonCode :: string
  ci_StatementHash :: string

record freeze_input =
  zi_TransactionHash :: string

record evidence_input =
  ei_ClaimID :: string
  ei_Category :: string
  ei_ObjectKey :: string
  ei_CiphertextDigest :: string
  ei_EnvelopeKeyReference :: string
  ei_ObjectVersionID :: string
  ei_RetentionMode :: string
  ei_RetainUntil :: gotime

record access_input =
  ai_EvidenceID :: string
  ai_Purpose :: string
  ai_TTLSeconds :: int

record assign_input =
  gi_AssigneeID :: string
  gi_Stage :: string
  gi_ConflictPartyIDs :: "string list"

record decision_input =
  di_PublisherBPS :: int
  di_ReasonCode :: string
  di_EvidenceRoot :: string

record settlement_input =
  si_PublisherBPS :: int
  si_ReasonCode :: string
  si_EvidenceRoot :: string
  si_AgreementHash :: string
  si_PublisherSignature :: string
  si_AgentSignature :: string
  si_Verified :: bool

record review_input =
  ri_AssigneeID :: string
  ri_FeeAuthorized :: bool
  ri_ReasonCode :: string
  ri_EvidenceRoot :: string
  ri_PublisherBPS :: int

text \<open>The payload of an administrative command is an arbitrary JSON object; the code only reads its
  JSON text, so the field is that text.\<close>

record admin_input =
  mi_Kind :: string
  mi_ResourceType :: string
  mi_ResourceID :: string
  mi_ReasonCode :: string
  mi_Payload :: string

datatype dispute_command =
    DOpen open_input
  | DClaim claim_input
  | DFreezeSubmit freeze_input
  | DFreezeConfirm freeze_input
  | DEvidence evidence_input
  | DAssign assign_input
  | DDecision decision_input
  | DSettlement settlement_input
  | DReview review_input
  | DFinalize
  | DAccess access_input
  | DAdmin admin_input
  | DOther string

text \<open>
  What the package calls and does not define: SHA-256, the JSON text of a list of strings and of a
  request, and the signature verifier (\<open>True\<close> for a nil error).
\<close>

record dispute_env =
  dn_sha :: "string \<Rightarrow> string"
  dn_json_strings :: "string list \<Rightarrow> string"
  dn_json_request :: "string \<Rightarrow> dispute_command \<Rightarrow> string"
  dn_verify :: "string \<Rightarrow> string \<Rightarrow> string \<Rightarrow> bool"

text \<open>\<open>strings.Join(parts, "\x00")\<close>, and the digest over it.\<close>

fun join_nul :: "string list \<Rightarrow> string" where
  "join_nul [] = []"
| "join_nul [p] = p"
| "join_nul (p # ps) = p @ [CHR 0x00] @ join_nul ps"

definition dispute_digest :: "dispute_env \<Rightarrow> string list \<Rightarrow> string" where
  "dispute_digest E parts = sha_string (dn_sha E (join_nul parts))"

end
