(* ===== verification/Dispute_State.thy ===== *)
theory Dispute_State
  imports Dispute_Types
begin

text \<open>The state machine of a dispute case, and the repository of cases.\<close>

text \<open>
  The transition function of a dispute case, \<open>Apply\<close> and its helpers (\<open>internal/dispute/state.go\<close>).
\<close>

section \<open>Helpers\<close>

definition required_evidence :: "string list" where
  "required_evidence = [''specification'', ''overview'', ''acceptance'', ''formal_versions'', ''feedback'', ''change_orders'',
     ''executions'', ''usage'', ''messages'', ''callbacks'', ''fees'', ''policy'']"

definition finish_case :: "dispute_case \<Rightarrow> gotime \<Rightarrow> dispute_case" where
  "finish_case c now = c\<lparr>dc_State := StateFinal, dc_FinalizedAt := Some now, dc_ReputationPending := False\<rparr>"

definition side_for :: "dispute_context \<Rightarrow> string \<Rightarrow> string" where
  "side_for x actor = (if actor = dx_PublisherID x then ''publisher'' else if actor = dx_AgentProviderID x then ''agent'' else [])"

definition owns_side :: "dispute_context \<Rightarrow> string \<Rightarrow> string \<Rightarrow> bool" where
  "owns_side x actor side \<longleftrightarrow> side_for x actor = side"

definition find_claim :: "dispute_claim list \<Rightarrow> string \<Rightarrow> dispute_claim option" where
  "find_claim vs i = List.find (\<lambda>c. cl_ID c = i) vs"

definition assigned :: "dispute_assignment list \<Rightarrow> string \<Rightarrow> string \<Rightarrow> bool" where
  "assigned vs stage actor = list_ex (\<lambda>v. as_Stage v = stage \<and> as_AssigneeID v = actor) vs"

definition find_decision :: "dispute_decision list \<Rightarrow> string \<Rightarrow> dispute_decision option" where
  "find_decision vs kind = List.find (\<lambda>d. de_Kind d = kind) (rev vs)"

definition award_tier :: "int \<Rightarrow> bool" where
  "award_tier v \<longleftrightarrow> v \<in> set [0, 2500, 5000, 7500, 10000]"

definition complete_evidence :: "dispute_evidence list \<Rightarrow> bool" where
  "complete_evidence vs = list_all (\<lambda>category. list_ex (\<lambda>v. ev_Category v = category) vs) required_evidence"

definition evidence_root :: "dispute_env \<Rightarrow> dispute_evidence list \<Rightarrow> string" where
  "evidence_root E vs = sha_string (dn_sha E (dn_json_strings E (map ev_CiphertextDigest vs)))"

section \<open>Opening a case\<close>

definition new_claim :: "dispute_env \<Rightarrow> string \<Rightarrow> string \<Rightarrow> string \<Rightarrow> string \<Rightarrow> string \<Rightarrow> gotime \<Rightarrow> dispute_claim" where
  "new_claim E scope side kind reasonCode statementHash now =
     \<lparr>cl_ID = dispute_digest E [''claim'', scope, side, kind], cl_Side = side, cl_Kind = kind, cl_ReasonCode = reasonCode,
      cl_StatementHash = statementHash, cl_CreatedAt = now\<rparr>"

definition open_view :: "dispute_env \<Rightarrow> dispute_context \<Rightarrow> dispute_claim \<Rightarrow> gotime \<Rightarrow> dispute_view" where
  "open_view E x claim now =
     \<lparr>vw_Case = zero_case\<lparr>dc_ID := dispute_digest E [''case'', dx_AssignmentID x, dx_DeliveryUnitID x], dc_TaskID := dx_TaskID x,
        dc_AssignmentID := dx_AssignmentID x, dc_DeliveryUnitID := dx_DeliveryUnitID x, dc_PolicyVersion := PolicyVersion,
        dc_PublisherID := dx_PublisherID x, dc_AgentProviderID := dx_AgentProviderID x, dc_State := StateSoftLock,
        dc_AggregateVersion := 1, dc_SoftLockedAt := Some now, dc_FrozenAmount := dx_FrozenAmount x, dc_Asset := dx_Asset x,
        dc_Claims := [claim], dc_ReputationPending := True, dc_CreatedAt := now, dc_UpdatedAt := now\<rparr>,
      vw_Context = x, vw_AccessGrants = [], vw_AdminOperations = []\<rparr>"

definition apply_open :: "dispute_env \<Rightarrow> dispute_context \<Rightarrow> string \<Rightarrow> open_input \<Rightarrow> gotime \<Rightarrow> dispute_error + dispute_view" where
  "apply_open E x actor q now =
     (if \<not> dx_Eligible x \<or> now > dx_DisputeDeadline x then Inl DErrInvalidState
      else if side_for x actor = [] then Inl DErrForbidden
      else Inr (open_view E x (new_claim E (dx_TaskID x) (side_for x actor) (oi_Kind q) (oi_ReasonCode q) (oi_StatementHash q) now) now))"

section \<open>Commands on a case\<close>

text \<open>One definition per branch of the switch; the case passed in is the copy the code works on.\<close>

definition apply_claim :: "dispute_env \<Rightarrow> dispute_context \<Rightarrow> string \<Rightarrow> claim_input \<Rightarrow> gotime \<Rightarrow> dispute_case \<Rightarrow> dispute_error + dispute_case" where
  "apply_claim E x actor q now c =
     (if dc_State c \<notin> set [StateSoftLock, StateFrozen, StateEvidence, StateOrphaned] then Inl DErrInvalidState
      else let side = side_for x actor in
        if side = [] then Inl DErrForbidden
        else if list_ex (\<lambda>claim. cl_Side claim = side \<and> cl_Kind claim = ci_Kind q) (dc_Claims c) then Inl DErrConflict
        else Inr (c\<lparr>dc_Claims := dc_Claims c @ [new_claim E (dc_ID c) side (ci_Kind q) (ci_ReasonCode q) (ci_StatementHash q) now]\<rparr>))"

definition apply_freeze_submit :: "freeze_input \<Rightarrow> gotime \<Rightarrow> dispute_case \<Rightarrow> dispute_error + dispute_case" where
  "apply_freeze_submit q now c =
     (if dc_State c \<noteq> StateSoftLock \<and> dc_State c \<noteq> StateOrphaned then Inl DErrInvalidState
      else Inr (c\<lparr>dc_FreezeTransactionHash := zi_TransactionHash q, dc_FreezeSubmittedAt := Some now\<rparr>))"

definition frozen_leaves :: "dispute_context \<Rightarrow> frozen_leaf list" where
  "frozen_leaves x =
     [\<lparr>fl_Index = 0, fl_Owner = dx_PublisherWallet x, fl_Account = ''publisher_refund'', fl_Cap = dx_FrozenAmount x, fl_Kind = ''principal''\<rparr>,
      \<lparr>fl_Index = 1, fl_Owner = dx_AgentPayout x, fl_Account = ''agent_receivable'', fl_Cap = dx_FrozenAmount x, fl_Kind = ''principal''\<rparr>]"

definition apply_freeze_confirm ::
    "dispute_env \<Rightarrow> dispute_context \<Rightarrow> freeze_input \<Rightarrow> gotime \<Rightarrow> dispute_case \<Rightarrow> dispute_error + dispute_case" where
  "apply_freeze_confirm E x q now c =
     (if dc_State c \<notin> set [StateSoftLock, StateOrphaned] \<or> dc_FreezeTransactionHash c = [] then Inl DErrInvalidState
      else if zi_TransactionHash q \<noteq> dc_FreezeTransactionHash c then Inl DErrConflict
      else Inr (c\<lparr>dc_State := StateFrozen,
                  dc_FreezeEventID := dispute_digest E [''freeze-event'', zi_TransactionHash q],
                  dc_FreezeRoot := dispute_digest E [''freeze-root'', dc_ID c, dx_FrozenAmount x],
                  dc_FrozenAt := Some now,
                  dc_EvidenceDeadline := now + 72 * hour_ns,
                  dc_DecisionDeadline := now + 72 * hour_ns + 72 * hour_ns,
                  dc_ReviewDeadline := now + 72 * hour_ns + 72 * hour_ns + 48 * hour_ns,
                  dc_Leaves := frozen_leaves x\<rparr>))"

definition new_evidence :: "dispute_env \<Rightarrow> dispute_case \<Rightarrow> string \<Rightarrow> evidence_input \<Rightarrow> gotime \<Rightarrow> dispute_evidence" where
  "new_evidence E c actor q now =
     \<lparr>ev_ID = dispute_digest E [''evidence'', dc_ID c, ei_ObjectKey q, ei_CiphertextDigest q], ev_ClaimID = ei_ClaimID q,
      ev_Category = ei_Category q, ev_ObjectKey = ei_ObjectKey q, ev_CiphertextDigest = ei_CiphertextDigest q,
      ev_EnvelopeKeyReference = ei_EnvelopeKeyReference q, ev_ObjectVersionID = ei_ObjectVersionID q,
      ev_RetentionMode = ei_RetentionMode q, ev_RetainUntil = ei_RetainUntil q, ev_CreatedAt = now, ev_SubmittedBy = actor\<rparr>"

definition apply_evidence :: "dispute_env \<Rightarrow> dispute_context \<Rightarrow> string \<Rightarrow> evidence_input \<Rightarrow> gotime \<Rightarrow> dispute_case \<Rightarrow> dispute_error + dispute_case" where
  "apply_evidence E x actor q now c =
     (if dc_State c \<notin> set [StateFrozen, StateEvidence] \<or> now > dc_EvidenceDeadline c then Inl DErrInvalidState
      else case find_claim (dc_Claims c) (ei_ClaimID q) of
          None \<Rightarrow> Inl DErrForbidden
        | Some claim \<Rightarrow>
            if \<not> owns_side x actor (cl_Side claim) then Inl DErrForbidden
            else if list_ex (\<lambda>item. ev_ObjectKey item = ei_ObjectKey q \<or> ev_CiphertextDigest item = ei_CiphertextDigest q) (dc_Evidence c)
            then Inl DErrConflict
            else Inr (c\<lparr>dc_State := StateEvidence, dc_Evidence := dc_Evidence c @ [new_evidence E c actor q now]\<rparr>))"

definition new_assignment :: "dispute_env \<Rightarrow> dispute_case \<Rightarrow> assign_input \<Rightarrow> gotime \<Rightarrow> dispute_assignment" where
  "new_assignment E c q now =
     \<lparr>as_ID = dispute_digest E [''assignment'', dc_ID c, gi_Stage q, gi_AssigneeID q], as_Stage = gi_Stage q,
      as_AssigneeID = gi_AssigneeID q, as_ConflictCheckedAt = now, as_AssignedAt = now\<rparr>"

definition apply_assign :: "dispute_env \<Rightarrow> dispute_context \<Rightarrow> assign_input \<Rightarrow> gotime \<Rightarrow> dispute_case \<Rightarrow> dispute_error + dispute_case" where
  "apply_assign E x q now c =
     (if gi_AssigneeID q = dx_PublisherID x \<or> gi_AssigneeID q = dx_AgentProviderID x then Inl DErrConflict
      else if list_ex (\<lambda>a. as_Stage a = gi_Stage q) (dc_Assignments c) then Inl DErrConflict
      else Inr (c\<lparr>dc_Assignments := dc_Assignments c @ [new_assignment E c q now]\<rparr>))"

definition new_decision :: "dispute_env \<Rightarrow> dispute_case \<Rightarrow> string \<Rightarrow> string \<Rightarrow> string \<Rightarrow> string \<Rightarrow> int \<Rightarrow> gotime \<Rightarrow> dispute_decision" where
  "new_decision E c kind by reasonCode root bps now =
     \<lparr>de_ID = dispute_digest E [''decision'', dc_ID c, kind], de_Kind = kind, de_DecidedBy = by, de_ReasonCode = reasonCode,
      de_EvidenceRoot = root, de_PublisherBPS = bps, de_CreatedAt = now\<rparr>"

definition apply_decision :: "dispute_env \<Rightarrow> string \<Rightarrow> decision_input \<Rightarrow> gotime \<Rightarrow> dispute_case \<Rightarrow> dispute_error + dispute_case" where
  "apply_decision E actor q now c =
     (if now < dc_EvidenceDeadline c \<or> now > dc_DecisionDeadline c \<or> \<not> assigned (dc_Assignments c) ''initial'' actor
      then Inl DErrInvalidState
      else if \<not> complete_evidence (dc_Evidence c) \<or> \<not> award_tier (di_PublisherBPS q) then Inl DErrEvidenceIncomplete
      else Inr (c\<lparr>dc_Decisions := dc_Decisions c @
          [new_decision E c ''initial'' actor (di_ReasonCode q) (di_EvidenceRoot q) (di_PublisherBPS q) now],
          dc_State := StateDecided\<rparr>))"

definition apply_settlement :: "dispute_env \<Rightarrow> settlement_input \<Rightarrow> gotime \<Rightarrow> dispute_case \<Rightarrow> dispute_error + dispute_case" where
  "apply_settlement E q now c =
     (if dc_State c \<notin> set [StateFrozen, StateEvidence, StateDecided] \<or> \<not> si_Verified q then Inl DErrInvalidState
      else Inr (finish_case (c\<lparr>dc_Decisions := dc_Decisions c @
          [new_decision E c ''settlement'' ''parties'' (si_ReasonCode q) (si_EvidenceRoot q) (si_PublisherBPS q) now]\<rparr>) now))"

definition apply_review :: "dispute_env \<Rightarrow> string \<Rightarrow> review_input \<Rightarrow> gotime \<Rightarrow> dispute_case \<Rightarrow> dispute_error + dispute_case" where
  "apply_review E actor q now c =
     (let rejected = (case find_decision (dc_Decisions c) ''initial'' of
            None \<Rightarrow> True
          | Some initial \<Rightarrow> now > dc_ReviewDeadline c \<or> \<not> ri_FeeAuthorized q \<or> ri_AssigneeID q = de_DecidedBy initial \<or>
              actor \<noteq> ri_AssigneeID q \<or> \<not> assigned (dc_Assignments c) ''review'' actor \<or> \<not> award_tier (ri_PublisherBPS q))
      in if dc_State c \<noteq> StateDecided \<or> rejected then Inl DErrInvalidState
      else if find_decision (dc_Decisions c) ''review'' \<noteq> None then Inl DErrConflict
      else Inr (finish_case (c\<lparr>dc_Decisions := dc_Decisions c @
          [new_decision E c ''review'' actor (ri_ReasonCode q) (ri_EvidenceRoot q) (ri_PublisherBPS q) now]\<rparr>) now))"

definition apply_finalize :: "gotime \<Rightarrow> dispute_case \<Rightarrow> dispute_error + dispute_case" where
  "apply_finalize now c =
     (if dc_State c \<noteq> StateDecided \<or> now < dc_ReviewDeadline c then Inl DErrInvalidState else Inr (finish_case c now))"

fun apply_case :: "dispute_env \<Rightarrow> dispute_context \<Rightarrow> string \<Rightarrow> dispute_command \<Rightarrow> gotime \<Rightarrow> dispute_case \<Rightarrow> dispute_error + dispute_case" where
  "apply_case E x actor (DClaim q) now c = apply_claim E x actor q now c"
| "apply_case E x actor (DFreezeSubmit q) now c = apply_freeze_submit q now c"
| "apply_case E x actor (DFreezeConfirm q) now c = apply_freeze_confirm E x q now c"
| "apply_case E x actor (DEvidence q) now c = apply_evidence E x actor q now c"
| "apply_case E x actor (DAssign q) now c = apply_assign E x q now c"
| "apply_case E x actor (DDecision q) now c = apply_decision E actor q now c"
| "apply_case E x actor (DSettlement q) now c = apply_settlement E q now c"
| "apply_case E x actor (DReview q) now c = apply_review E actor q now c"
| "apply_case E x actor DFinalize now c = apply_finalize now c"
| "apply_case E x actor _ now c = Inl DErrInvalidInput"

section \<open>Apply\<close>

definition dispute_apply ::
    "dispute_env \<Rightarrow> dispute_view option \<Rightarrow> dispute_context \<Rightarrow> string \<Rightarrow> dispute_command \<Rightarrow> gotime \<Rightarrow> dispute_error + dispute_view" where
  "dispute_apply E current x actor command now =
     (case current of
        None \<Rightarrow> (case command of DOpen q \<Rightarrow> apply_open E x actor q now | _ \<Rightarrow> Inl DErrNotFound)
      | Some v \<Rightarrow>
          rbind (apply_case E x actor command now (vw_Case v)) (\<lambda>c.
            Inr (v\<lparr>vw_Context := x, vw_Case := c\<lparr>dc_AggregateVersion := dc_AggregateVersion c + 1, dc_UpdatedAt := now\<rparr>\<rparr>)))"

text \<open>
  The memory repository of the dispute package (\<open>internal/dispute/memory.go\<close>). The mutex makes every
  method atomic, so a method is a function from the state to the state and its result. \<open>time.Now\<close> is the
  argument \<open>now\<close>.
\<close>

record dispute_request =
  dq_hash :: string
  dq_view :: dispute_view

record dispute_repo =
  dr_contexts :: "(string, dispute_context) gomap"
  dr_cases :: "(string, dispute_view) gomap"
  dr_requests :: "(string, dispute_request) gomap"
  dr_receipts :: "(string, evidence_input) gomap"
  dr_conflicts :: "(string, (string, bool) gomap) gomap"
  dr_reviewFees :: "(string, (string, bool) gomap) gomap"
  dr_accessDenials :: int

definition new_dispute_repository :: "dispute_context list \<Rightarrow> dispute_repo" where
  "new_dispute_repository contexts =
     \<lparr>dr_contexts = foldl (\<lambda>m c. gput (dx_TaskID c) c m) [] contexts, dr_cases = [], dr_requests = [], dr_receipts = [],
      dr_conflicts = [], dr_reviewFees = [], dr_accessDenials = 0\<rparr>"

text \<open>A map of maps: reading an absent entry gives false, writing creates the inner map.\<close>

definition flag :: "(string, (string, bool) gomap) gomap \<Rightarrow> string \<Rightarrow> string \<Rightarrow> bool" where
  "flag m i j = (case gget m i of None \<Rightarrow> False | Some inner \<Rightarrow> (case gget inner j of None \<Rightarrow> False | Some b \<Rightarrow> b))"

definition set_flag :: "(string, (string, bool) gomap) gomap \<Rightarrow> string \<Rightarrow> string \<Rightarrow> (string, (string, bool) gomap) gomap" where
  "set_flag m i j = gput i (gput j True (case gget m i of None \<Rightarrow> [] | Some inner \<Rightarrow> inner)) m"

lemma flag_set [simp]: "flag (set_flag m i j) i' j' \<longleftrightarrow> (i' = i \<and> j' = j) \<or> flag m i' j'"
  by (auto simp: flag_def set_flag_def split: option.splits)

definition declare_conflict :: "string \<Rightarrow> string \<Rightarrow> dispute_repo \<Rightarrow> dispute_repo" where
  "declare_conflict caseID assigneeID r = r\<lparr>dr_conflicts := set_flag (dr_conflicts r) caseID assigneeID\<rparr>"

definition has_conflict :: "string \<Rightarrow> string \<Rightarrow> dispute_repo \<Rightarrow> bool" where
  "has_conflict caseID assigneeID r = flag (dr_conflicts r) caseID assigneeID"

definition authorize_review_fee :: "string \<Rightarrow> string \<Rightarrow> dispute_repo \<Rightarrow> dispute_repo" where
  "authorize_review_fee caseID assigneeID r = r\<lparr>dr_reviewFees := set_flag (dr_reviewFees r) caseID assigneeID\<rparr>"

definition has_review_fee_authorization :: "string \<Rightarrow> string \<Rightarrow> dispute_repo \<Rightarrow> bool" where
  "has_review_fee_authorization caseID assigneeID r = flag (dr_reviewFees r) caseID assigneeID"

definition audit_access_denial :: "dispute_repo \<Rightarrow> dispute_repo" where
  "audit_access_denial r = r\<lparr>dr_accessDenials := dr_accessDenials r + 1\<rparr>"

definition record_evidence_receipt :: "evidence_input \<Rightarrow> dispute_repo \<Rightarrow> dispute_repo" where
  "record_evidence_receipt q r = r\<lparr>dr_receipts := gput (ei_ObjectKey q) q (dr_receipts r)\<rparr>"

definition verify_evidence :: "evidence_input \<Rightarrow> dispute_repo \<Rightarrow> dispute_error + unit" where
  "verify_evidence q r =
     (case gget (dr_receipts r) (ei_ObjectKey q) of
        None \<Rightarrow> Inl DErrInvalidState
      | Some v \<Rightarrow>
          if ei_CiphertextDigest v \<noteq> ei_CiphertextDigest q \<or> ei_ObjectVersionID v \<noteq> ei_ObjectVersionID q \<or>
             ei_RetentionMode v \<noteq> ''COMPLIANCE'' \<or> ei_RetainUntil v < ei_RetainUntil q then Inl DErrInvalidState
          else Inr ())"

definition get_context :: "string \<Rightarrow> dispute_repo \<Rightarrow> dispute_error + dispute_context" where
  "get_context taskID r = from_option DErrNotFound (gget (dr_contexts r) taskID)"

section \<open>Execute\<close>

definition request_key :: "mutation \<Rightarrow> string" where
  "request_key m = mu_ActorID m @ '':'' @ mu_IdempotencyKey m"

definition store_view :: "mutation \<Rightarrow> string \<Rightarrow> dispute_view \<Rightarrow> dispute_repo \<Rightarrow> dispute_repo" where
  "store_view m caseID v r =
     r\<lparr>dr_cases := gput caseID v (dr_cases r),
       dr_requests := gput (request_key m) \<lparr>dq_hash = mu_RequestHash m, dq_view = v\<rparr> (dr_requests r)\<rparr>"

definition execute_access :: "dispute_env \<Rightarrow> gotime \<Rightarrow> mutation \<Rightarrow> string \<Rightarrow> access_input \<Rightarrow> dispute_view \<Rightarrow> dispute_error + dispute_view" where
  "execute_access E now m caseID q v =
     (if \<not> list_ex (\<lambda>e. ev_ID e = ai_EvidenceID q) (dc_Evidence (vw_Case v)) then Inl DErrNotFound
      else
        let grant = \<lparr>ag_ID = dispute_digest E [''access'', caseID, ai_EvidenceID q, mu_ActorID m, mu_IdempotencyKey m],
              ag_EvidenceID = ai_EvidenceID q, ag_PrincipalID = mu_ActorID m, ag_Purpose = ai_Purpose q,
              ag_ExpiresAt = now + ai_TTLSeconds q * second_ns, ag_CreatedAt = now\<rparr>
        in Inr (v\<lparr>vw_AccessGrants := vw_AccessGrants v @ [grant],
                  vw_Case := (vw_Case v)\<lparr>dc_AggregateVersion := dc_AggregateVersion (vw_Case v) + 1, dc_UpdatedAt := now\<rparr>\<rparr>))"

definition execute_admin :: "dispute_env \<Rightarrow> gotime \<Rightarrow> mutation \<Rightarrow> admin_input \<Rightarrow> dispute_repo \<Rightarrow> dispute_repo \<times> dispute_view" where
  "execute_admin E now m q r =
     (let v = (case gget (dr_cases r) (mi_ResourceID q) of None \<Rightarrow> zero_view | Some existing \<Rightarrow> existing);
          op = \<lparr>ao_ID = dispute_digest E [''admin'', mu_ActorID m, mu_IdempotencyKey m], ao_Kind = mi_Kind q,
                ao_ResourceType = mi_ResourceType q, ao_ResourceID = mi_ResourceID q, ao_ReasonCode = mi_ReasonCode q,
                ao_PayloadHash = mu_RequestHash m, ao_ActorID = mu_ActorID m, ao_Status = ''recorded'', ao_CreatedAt = now\<rparr>;
          v' = v\<lparr>vw_AdminOperations := vw_AdminOperations v @ [op]\<rparr>
      in (r\<lparr>dr_requests := gput (request_key m) \<lparr>dq_hash = mu_RequestHash m, dq_view = v'\<rparr> (dr_requests r)\<rparr>, v'))"

text \<open>The current case: none for an empty identifier, when the task has no case that is not final.\<close>

definition current_case :: "string \<Rightarrow> dispute_context \<Rightarrow> dispute_repo \<Rightarrow> dispute_error + dispute_view option" where
  "current_case caseID x r =
     (if caseID \<noteq> [] then rbind (from_option DErrNotFound (gget (dr_cases r) caseID)) (\<lambda>v. Inr (Some v))
      else if list_ex (\<lambda>v. dc_TaskID (vw_Case v) = dx_TaskID x \<and> dc_State (vw_Case v) \<noteq> StateFinal) (gvals (dr_cases r))
      then Inl DErrConflict
      else Inr None)"

text \<open>The conflict check of the three commands that name an assignee, and the fee check of a review.\<close>

definition assignee_of :: "mutation \<Rightarrow> dispute_command \<Rightarrow> string option" where
  "assignee_of m command =
     (case command of DAssign q \<Rightarrow> Some (gi_AssigneeID q) | DDecision q \<Rightarrow> Some (mu_ActorID m) | DReview q \<Rightarrow> Some (mu_ActorID m) | _ \<Rightarrow> None)"

definition guard_command :: "mutation \<Rightarrow> string \<Rightarrow> dispute_command \<Rightarrow> dispute_repo \<Rightarrow> dispute_error + dispute_command" where
  "guard_command m caseID command r =
     (if (case assignee_of m command of None \<Rightarrow> False | Some a \<Rightarrow> flag (dr_conflicts r) caseID a) then Inl DErrConflict
      else case command of
          DReview q \<Rightarrow> if \<not> flag (dr_reviewFees r) caseID (mu_ActorID m) then Inl DErrForbidden else Inr (DReview (q\<lparr>ri_FeeAuthorized := True\<rparr>))
        | _ \<Rightarrow> Inr command)"

definition execute ::
    "dispute_env \<Rightarrow> gotime \<Rightarrow> mutation \<Rightarrow> dispute_context \<Rightarrow> string \<Rightarrow> dispute_command \<Rightarrow> dispute_repo \<Rightarrow>
     dispute_repo \<times> (dispute_error + dispute_view \<times> bool)" where
  "execute E now m x caseID command r =
     (case gget (dr_requests r) (request_key m) of
        Some prior \<Rightarrow> if dq_hash prior \<noteq> mu_RequestHash m then (r, Inl DErrConflict) else (r, Inr (dq_view prior, True))
      | None \<Rightarrow>
          (case current_case caseID x r of
             Inl e \<Rightarrow> (r, Inl e)
           | Inr current \<Rightarrow>
               (case command of
                  DAccess q \<Rightarrow>
                    (case current of
                       None \<Rightarrow> (r, Inl DPanic)
                     | Some v \<Rightarrow>
                         (case execute_access E now m caseID q v of
                            Inl e \<Rightarrow> (r, Inl e)
                          | Inr v' \<Rightarrow> (store_view m caseID v' r, Inr (v', False))))
                | DAdmin q \<Rightarrow> (case execute_admin E now m q r of (r', v') \<Rightarrow> (r', Inr (v', False)))
                | _ \<Rightarrow>
                    (case rbind (guard_command m caseID command r) (\<lambda>cmd. dispute_apply E current x (mu_ActorID m) cmd now) of
                       Inl e \<Rightarrow> (r, Inl e)
                     | Inr v' \<Rightarrow> (store_view m (dc_ID (vw_Case v')) v' r, Inr (v', False))))))"

section \<open>Reading\<close>

definition repo_get :: "string \<Rightarrow> dispute_repo \<Rightarrow> dispute_error + dispute_view" where
  "repo_get caseID r = from_option DErrNotFound (gget (dr_cases r) caseID)"

definition assigned_to_case :: "dispute_assignment list \<Rightarrow> string \<Rightarrow> bool" where
  "assigned_to_case vs actor = list_ex (\<lambda>v. as_AssigneeID v = actor) vs"

definition repo_list :: "string \<Rightarrow> string list \<Rightarrow> dispute_repo \<Rightarrow> dispute_view list" where
  "repo_list actor roles r =
     (let admin = ''admin'' \<in> set roles; arbitrator = ''arbitrator'' \<in> set roles in
      filter (\<lambda>v. admin \<or> actor = dc_PublisherID (vw_Case v) \<or> actor = dc_AgentProviderID (vw_Case v) \<or>
        (arbitrator \<and> assigned_to_case (dc_Assignments (vw_Case v)) actor)) (gvals (dr_cases r)))"

end
