(* ===== verification/Dispute_Service.thy ===== *)
theory Dispute_Service
  imports Dispute_State Identity
begin

text \<open>
  The dispute service over the memory repository (\<open>internal/dispute/service.go\<close>). A repository call that
  fails for a reason of its storage is not modelled: the memory repository has none.

  A service call is not atomic: it makes several repository calls, each under the repository's lock, and any
  other call can run between two of them. Every definition below therefore takes two arguments: the \<open>reads\<close>, which
  hold the repository as it was at each of the call's earlier repository calls, and the repository at its last
  one, \<open>Execute\<close>, which is the only one that changes it.
\<close>

text \<open>
  The reads of one call, in their order: the time \<open>AppendEvidence\<close> compares the retention with; the
  repository at the first call (\<open>Context\<close>, \<open>VerifyEvidence\<close>, or the \<open>Get\<close> of \<open>Decide\<close>, \<open>Settle\<close> and
  \<open>Review\<close>), at \<open>HasConflict\<close>, at \<open>HasReviewFeeAuthorization\<close>, and at the \<open>Get\<close> of \<open>forCase\<close>. A call
  that does not make one of these ignores its field.
\<close>

record dispute_reads =
  rd_Now :: gotime
  rd_First :: dispute_repo
  rd_Conflict :: dispute_repo
  rd_Fee :: dispute_repo
  rd_Case :: dispute_repo

text \<open>A call that nothing interrupts reads one repository throughout.\<close>

definition reads_at :: "gotime \<Rightarrow> dispute_repo \<Rightarrow> dispute_reads" where
  "reads_at now r = \<lparr>rd_Now = now, rd_First = r, rd_Conflict = r, rd_Fee = r, rd_Case = r\<rparr>"

section \<open>Validation\<close>

definition is_lower_hex :: "char \<Rightarrow> bool" where
  "is_lower_hex c \<longleftrightarrow> is_digit c \<or> char_between (CHR ''a'') (CHR ''f'') c"

definition digest_pattern :: "string \<Rightarrow> bool" where
  "digest_pattern v \<longleftrightarrow> has_prefix v ''sha256:'' \<and> length v = 71 \<and> list_all is_lower_hex (drop 7 v)"

definition hex_pattern :: "nat \<Rightarrow> string \<Rightarrow> bool" where
  "hex_pattern n v \<longleftrightarrow> has_prefix v ''0x'' \<and> length v = 2 + n \<and> list_all is_hex (drop 2 v)"

definition tx_pattern :: "string \<Rightarrow> bool" where
  "tx_pattern v = hex_pattern 64 v"

definition signature_pattern :: "string \<Rightarrow> bool" where
  "signature_pattern v = hex_pattern 130 v"

definition reason_pattern :: "string \<Rightarrow> bool" where
  "reason_pattern v \<longleftrightarrow>
     (case v of
        [] \<Rightarrow> False
      | c # cs \<Rightarrow> (is_lower c \<or> is_digit c) \<and> 1 \<le> length cs \<and> length cs \<le> 99 \<and>
          list_all (\<lambda>d. is_lower d \<or> is_digit d \<or> d = CHR ''_'' \<or> d = CHR ''-'') cs)"

definition go_contains :: "string \<Rightarrow> string \<Rightarrow> bool" where
  "go_contains s t = list_ex (\<lambda>i. take (length t) (drop i s) = t) [0..<length s + 1]"

definition has_role :: "session \<Rightarrow> string \<Rightarrow> bool" where
  "has_role s role \<longleftrightarrow> role \<in> set (se_Roles s)"

definition party :: "session \<Rightarrow> bool" where
  "party s \<longleftrightarrow> se_UserID s \<noteq> [] \<and> (has_role s ''publisher'' \<or> has_role s ''agent_provider'')"

definition key_ok :: "string \<Rightarrow> bool" where
  "key_ok v \<longleftrightarrow> \<not> blank v \<and> length v \<le> 200"

definition can_read :: "dispute_view \<Rightarrow> session \<Rightarrow> bool" where
  "can_read v s \<longleftrightarrow> se_UserID s = dc_PublisherID (vw_Case v) \<or> se_UserID s = dc_AgentProviderID (vw_Case v) \<or>
     has_role s ''admin'' \<or> (has_role s ''arbitrator'' \<and> assigned_to_case (dc_Assignments (vw_Case v)) (se_UserID s))"

definition contains_forbidden :: "string \<Rightarrow> bool" where
  "contains_forbidden payload = list_ex (\<lambda>token. go_contains (to_lower payload) token)
     [''privatekey'', ''private_key'', ''secret'', ''credential'', ''signature'', ''signedtransaction'', ''rawtransaction'']"

section \<open>Dispatch\<close>

type_synonym dispute_result = "dispute_repo \<times> (dispute_error + dispute_view \<times> bool)"

definition svc_execute ::
    "dispute_env \<Rightarrow> gotime \<Rightarrow> string \<Rightarrow> string \<Rightarrow> dispute_context \<Rightarrow> string \<Rightarrow> dispute_command \<Rightarrow> dispute_repo \<Rightarrow> dispute_result" where
  "svc_execute E now actor key x caseID command r =
     execute E now \<lparr>mu_ActorID = actor, mu_IdempotencyKey = key,
       mu_RequestHash = sha_string (dn_sha E (dn_json_request E caseID command))\<rparr> x caseID command r"

definition for_case :: "dispute_env \<Rightarrow> gotime \<Rightarrow> session \<Rightarrow> string \<Rightarrow> string \<Rightarrow> dispute_command \<Rightarrow> dispute_reads \<Rightarrow>
    dispute_repo \<Rightarrow> dispute_result" where
  "for_case E now s key caseID command w r =
     (case repo_get caseID (rd_Case w) of
        Inl e \<Rightarrow> (r, Inl e)
      | Inr v \<Rightarrow> if \<not> can_read v s then (r, Inl DErrForbidden)
                 else svc_execute E now (se_UserID s) key (vw_Context v) caseID command r)"

definition svc_get :: "session \<Rightarrow> string \<Rightarrow> dispute_repo \<Rightarrow> dispute_error + dispute_view" where
  "svc_get s caseID r =
     (if se_UserID s = [] \<or> caseID = [] then Inl DErrForbidden
      else rbind (repo_get caseID r) (\<lambda>v. if \<not> can_read v s then Inl DErrForbidden else Inr v))"

definition svc_list :: "session \<Rightarrow> dispute_repo \<Rightarrow> dispute_error + dispute_view list" where
  "svc_list s r =
     (if se_UserID s = [] then Inl DErrForbidden
      else Inr (filter (\<lambda>v. can_read v s) (repo_list (se_UserID s) (se_Roles s) r)))"

section \<open>The parties' operations\<close>

definition svc_open :: "dispute_env \<Rightarrow> gotime \<Rightarrow> session \<Rightarrow> string \<Rightarrow> string \<Rightarrow> open_input \<Rightarrow>
    dispute_reads \<Rightarrow> dispute_repo \<Rightarrow> dispute_result" where
  "svc_open E now s key taskID q w r =
     (if \<not> party s \<or> \<not> key_ok key \<or> blank taskID \<or> blank (oi_DeliveryUnitID q) \<or> \<not> reason_pattern (oi_Kind q) \<or>
         \<not> reason_pattern (oi_ReasonCode q) \<or> \<not> digest_pattern (oi_StatementHash q) then (r, Inl DErrInvalidInput)
      else case get_context taskID (rd_First w) of
          Inl e \<Rightarrow> (r, Inl e)
        | Inr x \<Rightarrow>
            if side_for x (se_UserID s) = [] then (r, Inl DErrForbidden)
            else if oi_DeliveryUnitID q \<noteq> dx_DeliveryUnitID x then (r, Inl DErrConflict)
            else svc_execute E now (se_UserID s) key x [] (DOpen q) r)"

definition svc_add_claim :: "dispute_env \<Rightarrow> gotime \<Rightarrow> session \<Rightarrow> string \<Rightarrow> string \<Rightarrow> claim_input \<Rightarrow>
    dispute_reads \<Rightarrow> dispute_repo \<Rightarrow> dispute_result" where
  "svc_add_claim E now s key caseID q w r =
     (if \<not> party s \<or> \<not> key_ok key \<or> caseID = [] \<or> \<not> reason_pattern (ci_Kind q) \<or> \<not> reason_pattern (ci_ReasonCode q) \<or>
         \<not> digest_pattern (ci_StatementHash q) then (r, Inl DErrInvalidInput)
      else for_case E now s key caseID (DClaim q) w r)"

definition svc_submit_freeze :: "dispute_env \<Rightarrow> gotime \<Rightarrow> session \<Rightarrow> string \<Rightarrow> string \<Rightarrow> freeze_input \<Rightarrow>
    dispute_reads \<Rightarrow> dispute_repo \<Rightarrow> dispute_result" where
  "svc_submit_freeze E now s key caseID q w r =
     (if \<not> party s \<or> \<not> key_ok key \<or> \<not> tx_pattern (zi_TransactionHash q) then (r, Inl DErrInvalidInput)
      else for_case E now s key caseID (DFreezeSubmit q) w r)"

definition svc_reconcile_freeze :: "dispute_env \<Rightarrow> gotime \<Rightarrow> session \<Rightarrow> string \<Rightarrow> string \<Rightarrow> freeze_input \<Rightarrow>
    dispute_reads \<Rightarrow> dispute_repo \<Rightarrow> dispute_result" where
  "svc_reconcile_freeze E now s key caseID q w r =
     (if \<not> party s \<or> \<not> key_ok key \<or> \<not> tx_pattern (zi_TransactionHash q) then (r, Inl DErrInvalidInput)
      else for_case E now s key caseID (DFreezeConfirm q) w r)"

definition svc_append_evidence :: "dispute_env \<Rightarrow> gotime \<Rightarrow> session \<Rightarrow> string \<Rightarrow> string \<Rightarrow> evidence_input \<Rightarrow>
    dispute_reads \<Rightarrow> dispute_repo \<Rightarrow> dispute_result" where
  "svc_append_evidence E now s key caseID q w r =
     (if \<not> party s \<or> \<not> key_ok key \<or> \<not> digest_pattern (ei_ClaimID q) \<or> ei_Category q \<notin> set required_evidence \<or> blank (ei_ObjectKey q) \<or>
         \<not> digest_pattern (ei_CiphertextDigest q) \<or> blank (ei_EnvelopeKeyReference q) \<or>
         go_contains (to_lower (ei_EnvelopeKeyReference q)) ''plaintext'' \<or> ei_ObjectVersionID q = [] \<or>
         ei_RetentionMode q \<noteq> ''COMPLIANCE'' \<or> ei_RetainUntil q < rd_Now w + 24 * hour_ns then (r, Inl DErrInvalidInput)
      else case verify_evidence q (rd_First w) of
          Inl e \<Rightarrow> (r, Inl e)
        | Inr _ \<Rightarrow> for_case E now s key caseID (DEvidence q) w r)"

text \<open>The message both parties sign: the lines of the agreement, separated by line feeds.\<close>

definition settlement_message :: "string \<Rightarrow> settlement_input \<Rightarrow> string" where
  "settlement_message caseID q =
     ''AgentTaskDisputeSettlement'' @ [CHR 0x0A] @ ''Case ID: '' @ caseID @ [CHR 0x0A] @ ''Agreement Hash: '' @ si_AgreementHash q @
     [CHR 0x0A] @ ''Evidence Root: '' @ si_EvidenceRoot q @ [CHR 0x0A] @ ''Publisher BPS: '' @ bigint_string (si_PublisherBPS q)"

definition svc_settle :: "dispute_env \<Rightarrow> gotime \<Rightarrow> session \<Rightarrow> string \<Rightarrow> string \<Rightarrow> settlement_input \<Rightarrow>
    dispute_reads \<Rightarrow> dispute_repo \<Rightarrow> dispute_result" where
  "svc_settle E now s key caseID q w r =
     (if \<not> party s \<or> \<not> key_ok key \<or> si_PublisherBPS q < 0 \<or> si_PublisherBPS q > 10000 \<or> \<not> reason_pattern (si_ReasonCode q) \<or>
         \<not> digest_pattern (si_EvidenceRoot q) \<or> \<not> digest_pattern (si_AgreementHash q) \<or> \<not> signature_pattern (si_PublisherSignature q) \<or>
         \<not> signature_pattern (si_AgentSignature q) \<or> si_PublisherSignature q = si_AgentSignature q then (r, Inl DErrInvalidInput)
      else case svc_get s caseID (rd_First w) of
          Inl e \<Rightarrow> (r, Inl e)
        | Inr v \<Rightarrow>
            if si_EvidenceRoot q \<noteq> evidence_root E (dc_Evidence (vw_Case v)) then (r, Inl DErrConflict)
            else if \<not> dn_verify E (settlement_message caseID q) (si_PublisherSignature q) (dx_PublisherWallet (vw_Context v)) \<or>
                    \<not> dn_verify E (settlement_message caseID q) (si_AgentSignature q) (dx_AgentController (vw_Context v))
            then (r, Inl DErrForbidden)
            else for_case E now s key caseID
              (DSettlement (q\<lparr>si_PublisherSignature := [], si_AgentSignature := [], si_Verified := True\<rparr>)) w r)"

section \<open>The platform's operations\<close>

definition svc_assign :: "dispute_env \<Rightarrow> gotime \<Rightarrow> session \<Rightarrow> string \<Rightarrow> string \<Rightarrow> assign_input \<Rightarrow>
    dispute_reads \<Rightarrow> dispute_repo \<Rightarrow> dispute_result" where
  "svc_assign E now s key caseID q w r =
     (if \<not> has_role s ''admin'' \<or> \<not> key_ok key \<or> gi_AssigneeID q = [] \<or> gi_Stage q \<notin> set [''initial'', ''review''] then (r, Inl DErrForbidden)
      else if has_conflict caseID (gi_AssigneeID q) (rd_Conflict w) then (r, Inl DErrConflict)
      else for_case E now s key caseID (DAssign q) w r)"

definition svc_decide :: "dispute_env \<Rightarrow> gotime \<Rightarrow> session \<Rightarrow> string \<Rightarrow> string \<Rightarrow> decision_input \<Rightarrow>
    dispute_reads \<Rightarrow> dispute_repo \<Rightarrow> dispute_result" where
  "svc_decide E now s key caseID q w r =
     (if \<not> has_role s ''arbitrator'' \<or> \<not> key_ok key \<or> \<not> reason_pattern (di_ReasonCode q) \<or> \<not> digest_pattern (di_EvidenceRoot q)
      then (r, Inl DErrForbidden)
      else case svc_get s caseID (rd_First w) of
          Inl e \<Rightarrow> (r, Inl e)
        | Inr v \<Rightarrow>
            if di_EvidenceRoot q \<noteq> evidence_root E (dc_Evidence (vw_Case v)) then (r, Inl DErrConflict)
            else if has_conflict caseID (se_UserID s) (rd_Conflict w) then (r, Inl DErrConflict)
            else for_case E now s key caseID (DDecision q) w r)"

definition svc_review :: "dispute_env \<Rightarrow> gotime \<Rightarrow> session \<Rightarrow> string \<Rightarrow> string \<Rightarrow> review_input \<Rightarrow>
    dispute_reads \<Rightarrow> dispute_repo \<Rightarrow> dispute_result" where
  "svc_review E now s key caseID q w r =
     (if \<not> has_role s ''arbitrator'' \<or> \<not> key_ok key \<or> ri_AssigneeID q \<noteq> se_UserID s \<or> \<not> reason_pattern (ri_ReasonCode q) \<or>
         \<not> digest_pattern (ri_EvidenceRoot q) then (r, Inl DErrForbidden)
      else case svc_get s caseID (rd_First w) of
          Inl e \<Rightarrow> (r, Inl e)
        | Inr v \<Rightarrow>
            if ri_EvidenceRoot q \<noteq> evidence_root E (dc_Evidence (vw_Case v)) then (r, Inl DErrConflict)
            else if has_conflict caseID (se_UserID s) (rd_Conflict w) then (r, Inl DErrConflict)
            else if \<not> has_review_fee_authorization caseID (se_UserID s) (rd_Fee w) then (r, Inl DErrForbidden)
            else for_case E now s key caseID (DReview (q\<lparr>ri_FeeAuthorized := True\<rparr>)) w r)"

definition svc_finalize :: "dispute_env \<Rightarrow> gotime \<Rightarrow> session \<Rightarrow> string \<Rightarrow> string \<Rightarrow> dispute_reads \<Rightarrow> dispute_repo \<Rightarrow> dispute_result" where
  "svc_finalize E now s key caseID w r =
     (if \<not> has_role s ''admin'' \<or> \<not> key_ok key then (r, Inl DErrForbidden) else for_case E now s key caseID DFinalize w r)"

definition svc_grant_access :: "dispute_env \<Rightarrow> gotime \<Rightarrow> session \<Rightarrow> string \<Rightarrow> string \<Rightarrow> access_input \<Rightarrow>
    dispute_reads \<Rightarrow> dispute_repo \<Rightarrow> dispute_result" where
  "svc_grant_access E now s key caseID q w r =
     (if se_UserID s = [] \<or> \<not> key_ok key \<or> \<not> digest_pattern (ai_EvidenceID q) \<or> ai_TTLSeconds q < 60 \<or> ai_TTLSeconds q > 900 \<or>
         \<not> reason_pattern (ai_Purpose q) then (r, Inl DErrInvalidInput)
      else case repo_get caseID (rd_Case w) of
          Inl e \<Rightarrow> (r, Inl e)
        | Inr v \<Rightarrow>
            if \<not> can_read v s then (audit_access_denial r, Inl DErrForbidden)
            else svc_execute E now (se_UserID s) key (vw_Context v) caseID (DAccess q) r)"

definition svc_admin :: "dispute_env \<Rightarrow> gotime \<Rightarrow> session \<Rightarrow> string \<Rightarrow> admin_input \<Rightarrow> dispute_repo \<Rightarrow> dispute_result" where
  "svc_admin E now s key q r =
     (if \<not> has_role s ''admin'' \<or> \<not> key_ok key \<or>
         mi_Kind q \<notin> set [''dlq_replay'', ''ledger_reversal'', ''reconciliation_repair'', ''state_migration''] \<or>
         \<not> reason_pattern (mi_ReasonCode q) \<or> contains_forbidden (mi_Payload q) then (r, Inl DErrForbidden)
      else svc_execute E now (se_UserID s) key (zero_dispute_context\<lparr>dx_TaskID := mi_ResourceID q\<rparr>) [] (DAdmin q) r)"

section \<open>The calls of a client\<close>

text \<open>
  Every way the environment changes the repository: the service's operations, and the three records that
  other parts of the platform write.
\<close>

datatype dispute_call =
    KOpen session string string open_input
  | KClaim session string string claim_input
  | KSubmitFreeze session string string freeze_input
  | KReconcileFreeze session string string freeze_input
  | KEvidence session string string evidence_input
  | KAssign session string string assign_input
  | KDecide session string string decision_input
  | KSettle session string string settlement_input
  | KReview session string string review_input
  | KFinalize session string string
  | KAccess session string string access_input
  | KAdmin session string admin_input
  | KDeclareConflict string string
  | KAuthorizeFee string string
  | KReceipt evidence_input

fun dispute_exec :: "dispute_env \<Rightarrow> gotime \<Rightarrow> dispute_call \<Rightarrow> dispute_reads \<Rightarrow> dispute_repo \<Rightarrow> dispute_repo" where
  "dispute_exec E now (KOpen s k t q) w r = fst (svc_open E now s k t q w r)"
| "dispute_exec E now (KClaim s k c q) w r = fst (svc_add_claim E now s k c q w r)"
| "dispute_exec E now (KSubmitFreeze s k c q) w r = fst (svc_submit_freeze E now s k c q w r)"
| "dispute_exec E now (KReconcileFreeze s k c q) w r = fst (svc_reconcile_freeze E now s k c q w r)"
| "dispute_exec E now (KEvidence s k c q) w r = fst (svc_append_evidence E now s k c q w r)"
| "dispute_exec E now (KAssign s k c q) w r = fst (svc_assign E now s k c q w r)"
| "dispute_exec E now (KDecide s k c q) w r = fst (svc_decide E now s k c q w r)"
| "dispute_exec E now (KSettle s k c q) w r = fst (svc_settle E now s k c q w r)"
| "dispute_exec E now (KReview s k c q) w r = fst (svc_review E now s k c q w r)"
| "dispute_exec E now (KFinalize s k c) w r = fst (svc_finalize E now s k c w r)"
| "dispute_exec E now (KAccess s k c q) w r = fst (svc_grant_access E now s k c q w r)"
| "dispute_exec E now (KAdmin s k q) w r = fst (svc_admin E now s k q r)"
| "dispute_exec E now (KDeclareConflict c a) w r = declare_conflict c a r"
| "dispute_exec E now (KAuthorizeFee c a) w r = authorize_review_fee c a r"
| "dispute_exec E now (KReceipt q) w r = record_evidence_receipt q r"

text \<open>
  Runs. A run is the list of the repository's states, the latest first. A step completes one call: its reads
  are earlier states of the run in the order the call made them, its last step runs on the latest state. Two
  contexts of the platform never have the same case identifier, the SHA-256 digest of the assignment and the delivery
  unit: \<open>Execute\<close> writes back the context that \<open>forCase\<close> read, so two contexts that shared an identifier
  could be mixed up.
\<close>

definition case_id :: "dispute_env \<Rightarrow> dispute_context \<Rightarrow> string" where
  "case_id E x = dispute_digest E [''case'', dx_AssignmentID x, dx_DeliveryUnitID x]"

definition separate_contexts :: "dispute_env \<Rightarrow> (string, dispute_context) gomap \<Rightarrow> bool" where
  "separate_contexts E m \<longleftrightarrow> (\<forall>x \<in> set (gvals m). \<forall>y \<in> set (gvals m). case_id E x = case_id E y \<longrightarrow> x = y)"

definition reads_from :: "dispute_repo list \<Rightarrow> gotime \<Rightarrow> dispute_reads \<Rightarrow> bool" where
  "reads_from h now w \<longleftrightarrow> rd_Now w \<le> now \<and> (\<exists>a b c d. a \<le> b \<and> b \<le> c \<and> c \<le> d \<and> d < length h \<and>
     rd_Case w = h ! a \<and> rd_Fee w = h ! b \<and> rd_Conflict w = h ! c \<and> rd_First w = h ! d)"

inductive disputes_run :: "dispute_env \<Rightarrow> dispute_repo list \<Rightarrow> bool" for E where
  run_start: "separate_contexts E (dr_contexts (new_dispute_repository contexts)) \<Longrightarrow> disputes_run E [new_dispute_repository contexts]"
| run_step: "disputes_run E (r # h) \<Longrightarrow> reads_from (r # h) now w \<Longrightarrow> disputes_run E (dispute_exec E now call w r # r # h)"

definition disputes_reachable :: "dispute_env \<Rightarrow> dispute_repo \<Rightarrow> bool" where
  "disputes_reachable E r \<longleftrightarrow> (\<exists>h. disputes_run E (r # h))"

lemma reads_at_from: "reads_from (r # h) now (reads_at now r)"
  unfolding reads_from_def reads_at_def by (intro conjI exI [of _ 0]) simp_all

lemma reads_at_simps [simp]: "rd_Now (reads_at now r) = now" "rd_First (reads_at now r) = r" "rd_Conflict (reads_at now r) = r"
    "rd_Fee (reads_at now r) = r" "rd_Case (reads_at now r) = r"
  by (simp_all add: reads_at_def)

lemma reads_from_mem: "reads_from h now w \<Longrightarrow> rd_Case w \<in> set h \<and> rd_First w \<in> set h"
  unfolding reads_from_def by fastforce

end
