(* ===== verification/Dispute_Invariant.thy ===== *)
theory Dispute_Invariant
  imports Dispute_Service
begin

text \<open>
  The well-formedness of a stored case, and its preservation by every command and every call.
\<close>

section \<open>The invariant of a case\<close>

definition claims_ok :: "dispute_case \<Rightarrow> bool" where
  "claims_ok c \<longleftrightarrow> dc_Claims c \<noteq> [] \<and> distinct (map (\<lambda>k. (cl_Side k, cl_Kind k)) (dc_Claims c)) \<and>
     (\<forall>k \<in> set (dc_Claims c). cl_Side k \<in> {''publisher'', ''agent''})"

definition manifest_ok :: "dispute_context \<Rightarrow> dispute_case \<Rightarrow> bool" where
  "manifest_ok x c \<longleftrightarrow> distinct (map ev_ObjectKey (dc_Evidence c)) \<and> distinct (map ev_CiphertextDigest (dc_Evidence c)) \<and>
     (\<forall>e \<in> set (dc_Evidence c). \<exists>k \<in> set (dc_Claims c). cl_ID k = ev_ClaimID e \<and> side_for x (ev_SubmittedBy e) = cl_Side k)"

definition assignments_ok :: "dispute_context \<Rightarrow> dispute_case \<Rightarrow> bool" where
  "assignments_ok x c \<longleftrightarrow> distinct (map as_Stage (dc_Assignments c)) \<and>
     (\<forall>a \<in> set (dc_Assignments c). as_AssigneeID a \<noteq> dx_PublisherID x \<and> as_AssigneeID a \<noteq> dx_AgentProviderID x)"

definition decision_ok :: "dispute_case \<Rightarrow> dispute_decision \<Rightarrow> bool" where
  "decision_ok c d \<longleftrightarrow>
     de_Kind d = ''initial'' \<and> award_tier (de_PublisherBPS d) \<and> assigned (dc_Assignments c) ''initial'' (de_DecidedBy d) \<or>
     de_Kind d = ''review'' \<and> award_tier (de_PublisherBPS d) \<and> assigned (dc_Assignments c) ''review'' (de_DecidedBy d) \<and>
       (\<exists>e \<in> set (dc_Decisions c). de_Kind e = ''initial'') \<and>
       (\<forall>e \<in> set (dc_Decisions c). de_Kind e = ''initial'' \<longrightarrow> de_DecidedBy e \<noteq> de_DecidedBy d) \<or>
     de_Kind d = ''settlement'' \<and> de_DecidedBy d = ''parties''"

definition decisions_ok :: "dispute_case \<Rightarrow> bool" where
  "decisions_ok c \<longleftrightarrow> (\<forall>d \<in> set (dc_Decisions c). decision_ok c d) \<and>
     length (filter (\<lambda>d. de_Kind d = ''review'') (dc_Decisions c)) \<le> 1"

definition timeline_ok :: "dispute_case \<Rightarrow> bool" where
  "timeline_ok c \<longleftrightarrow>
     (case dc_FrozenAt c of
        None \<Rightarrow> dc_State c \<in> {StateSoftLock, StateOrphaned} \<and> dc_Evidence c = []
      | Some t \<Rightarrow> dc_EvidenceDeadline c = t + 72 * hour_ns \<and> dc_DecisionDeadline c = t + 144 * hour_ns \<and>
          dc_ReviewDeadline c = t + 192 * hour_ns) \<and>
     (dc_State c = StateFinal \<longrightarrow> dc_FinalizedAt c \<noteq> None \<and> \<not> dc_ReputationPending c)"

definition case_ok :: "dispute_context \<Rightarrow> dispute_case \<Rightarrow> bool" where
  "case_ok x c \<longleftrightarrow> dx_PublisherID x = dc_PublisherID c \<and> dx_AgentProviderID x = dc_AgentProviderID c \<and>
     claims_ok c \<and> manifest_ok x c \<and> assignments_ok x c \<and> decisions_ok c \<and> timeline_ok c"

lemmas case_ok_defs = case_ok_def claims_ok_def manifest_ok_def assignments_ok_def decisions_ok_def timeline_ok_def

section \<open>Commands preserve it\<close>

text \<open>The part of a case each condition depends on.\<close>

lemma claims_ok_frame [simp]:
  "claims_ok (dc_State_update f1 c) = claims_ok c"
  "claims_ok (dc_FreezeTransactionHash_update f2 c) = claims_ok c"
  "claims_ok (dc_FreezeSubmittedAt_update f3 c) = claims_ok c"
  "claims_ok (dc_FreezeEventID_update f4 c) = claims_ok c"
  "claims_ok (dc_FreezeRoot_update f5 c) = claims_ok c"
  "claims_ok (dc_FrozenAt_update f6 c) = claims_ok c"
  "claims_ok (dc_EvidenceDeadline_update f7 c) = claims_ok c"
  "claims_ok (dc_DecisionDeadline_update f8 c) = claims_ok c"
  "claims_ok (dc_ReviewDeadline_update f9 c) = claims_ok c"
  "claims_ok (dc_Leaves_update f10 c) = claims_ok c"
  "claims_ok (dc_FinalizedAt_update f11 c) = claims_ok c"
  "claims_ok (dc_ReputationPending_update f12 c) = claims_ok c"
  "claims_ok (dc_AggregateVersion_update f13 c) = claims_ok c"
  "claims_ok (dc_UpdatedAt_update f14 c) = claims_ok c"
  "claims_ok (dc_Evidence_update f15 c) = claims_ok c"
  "claims_ok (dc_Assignments_update f16 c) = claims_ok c"
  "claims_ok (dc_Decisions_update f17 c) = claims_ok c"
  by (simp_all add: claims_ok_def)

lemma manifest_ok_frame [simp]:
  "manifest_ok x (dc_State_update f18 c) = manifest_ok x c"
  "manifest_ok x (dc_FreezeTransactionHash_update f19 c) = manifest_ok x c"
  "manifest_ok x (dc_FreezeSubmittedAt_update f20 c) = manifest_ok x c"
  "manifest_ok x (dc_FreezeEventID_update f21 c) = manifest_ok x c"
  "manifest_ok x (dc_FreezeRoot_update f22 c) = manifest_ok x c"
  "manifest_ok x (dc_FrozenAt_update f23 c) = manifest_ok x c"
  "manifest_ok x (dc_EvidenceDeadline_update f24 c) = manifest_ok x c"
  "manifest_ok x (dc_DecisionDeadline_update f25 c) = manifest_ok x c"
  "manifest_ok x (dc_ReviewDeadline_update f26 c) = manifest_ok x c"
  "manifest_ok x (dc_Leaves_update f27 c) = manifest_ok x c"
  "manifest_ok x (dc_FinalizedAt_update f28 c) = manifest_ok x c"
  "manifest_ok x (dc_ReputationPending_update f29 c) = manifest_ok x c"
  "manifest_ok x (dc_AggregateVersion_update f30 c) = manifest_ok x c"
  "manifest_ok x (dc_UpdatedAt_update f31 c) = manifest_ok x c"
  "manifest_ok x (dc_Assignments_update f32 c) = manifest_ok x c"
  "manifest_ok x (dc_Decisions_update f33 c) = manifest_ok x c"
  by (simp_all add: manifest_ok_def)

lemma assignments_ok_frame [simp]:
  "assignments_ok x (dc_State_update f34 c) = assignments_ok x c"
  "assignments_ok x (dc_FreezeTransactionHash_update f35 c) = assignments_ok x c"
  "assignments_ok x (dc_FreezeSubmittedAt_update f36 c) = assignments_ok x c"
  "assignments_ok x (dc_FreezeEventID_update f37 c) = assignments_ok x c"
  "assignments_ok x (dc_FreezeRoot_update f38 c) = assignments_ok x c"
  "assignments_ok x (dc_FrozenAt_update f39 c) = assignments_ok x c"
  "assignments_ok x (dc_EvidenceDeadline_update f40 c) = assignments_ok x c"
  "assignments_ok x (dc_DecisionDeadline_update f41 c) = assignments_ok x c"
  "assignments_ok x (dc_ReviewDeadline_update f42 c) = assignments_ok x c"
  "assignments_ok x (dc_Leaves_update f43 c) = assignments_ok x c"
  "assignments_ok x (dc_FinalizedAt_update f44 c) = assignments_ok x c"
  "assignments_ok x (dc_ReputationPending_update f45 c) = assignments_ok x c"
  "assignments_ok x (dc_AggregateVersion_update f46 c) = assignments_ok x c"
  "assignments_ok x (dc_UpdatedAt_update f47 c) = assignments_ok x c"
  "assignments_ok x (dc_Claims_update f48 c) = assignments_ok x c"
  "assignments_ok x (dc_Evidence_update f49 c) = assignments_ok x c"
  "assignments_ok x (dc_Decisions_update f50 c) = assignments_ok x c"
  by (simp_all add: assignments_ok_def)

lemma decisions_ok_frame [simp]:
  "decisions_ok (dc_State_update f51 c) = decisions_ok c"
  "decisions_ok (dc_FreezeTransactionHash_update f52 c) = decisions_ok c"
  "decisions_ok (dc_FreezeSubmittedAt_update f53 c) = decisions_ok c"
  "decisions_ok (dc_FreezeEventID_update f54 c) = decisions_ok c"
  "decisions_ok (dc_FreezeRoot_update f55 c) = decisions_ok c"
  "decisions_ok (dc_FrozenAt_update f56 c) = decisions_ok c"
  "decisions_ok (dc_EvidenceDeadline_update f57 c) = decisions_ok c"
  "decisions_ok (dc_DecisionDeadline_update f58 c) = decisions_ok c"
  "decisions_ok (dc_ReviewDeadline_update f59 c) = decisions_ok c"
  "decisions_ok (dc_Leaves_update f60 c) = decisions_ok c"
  "decisions_ok (dc_FinalizedAt_update f61 c) = decisions_ok c"
  "decisions_ok (dc_ReputationPending_update f62 c) = decisions_ok c"
  "decisions_ok (dc_AggregateVersion_update f63 c) = decisions_ok c"
  "decisions_ok (dc_UpdatedAt_update f64 c) = decisions_ok c"
  "decisions_ok (dc_Claims_update f65 c) = decisions_ok c"
  "decisions_ok (dc_Evidence_update f66 c) = decisions_ok c"
  by (simp_all add: decisions_ok_def decision_ok_def)

lemma timeline_ok_frame [simp]:
  "timeline_ok (dc_FreezeTransactionHash_update f67 c) = timeline_ok c"
  "timeline_ok (dc_FreezeSubmittedAt_update f68 c) = timeline_ok c"
  "timeline_ok (dc_FreezeEventID_update f69 c) = timeline_ok c"
  "timeline_ok (dc_FreezeRoot_update f70 c) = timeline_ok c"
  "timeline_ok (dc_Leaves_update f71 c) = timeline_ok c"
  "timeline_ok (dc_AggregateVersion_update f72 c) = timeline_ok c"
  "timeline_ok (dc_UpdatedAt_update f73 c) = timeline_ok c"
  "timeline_ok (dc_Claims_update f74 c) = timeline_ok c"
  "timeline_ok (dc_Assignments_update f75 c) = timeline_ok c"
  "timeline_ok (dc_Decisions_update f76 c) = timeline_ok c"
  by (simp_all add: timeline_ok_def cong: option.case_cong)

lemma side_for_side: "side_for x actor \<noteq> [] \<Longrightarrow> side_for x actor \<in> {''publisher'', ''agent''}"
  by (simp add: side_for_def split: if_splits)

lemma find_claim_mem: "find_claim cs i = Some k \<Longrightarrow> k \<in> set cs \<and> cl_ID k = i"
  by (auto simp: find_claim_def find_Some_iff)

lemma find_decision_Some: "find_decision ds kind = Some d \<Longrightarrow> d \<in> set ds \<and> de_Kind d = kind"
  by (auto simp: find_decision_def find_Some_iff rev_nth)

lemma find_decision_None: "find_decision ds kind = None \<longleftrightarrow> (\<forall>d \<in> set ds. de_Kind d \<noteq> kind)"
  by (auto simp: find_decision_def find_None_iff)

lemma assigned_unique:
  assumes "distinct (map as_Stage as)" "assigned as stage a" "assigned as stage b"
  shows "a = b"
  using assms by (auto simp: assigned_def list_ex_iff distinct_map inj_on_def)

lemma apply_claim_ok:
  assumes "case_ok x c" "apply_claim E x actor q now c = Inr c'"
  shows "case_ok x c'"
proof -
  from assms(2) have side: "side_for x actor \<noteq> []"
    and new: "\<forall>k \<in> set (dc_Claims c). \<not> (cl_Side k = side_for x actor \<and> cl_Kind k = ci_Kind q)"
    and c': "c' = c\<lparr>dc_Claims := dc_Claims c @ [new_claim E (dc_ID c) (side_for x actor) (ci_Kind q) (ci_ReasonCode q) (ci_StatementHash q) now]\<rparr>"
    by (auto simp: apply_claim_def Let_def list_ex_iff split: if_splits)
  have "claims_ok c'"
    using assms(1) new side_for_side [OF side] unfolding case_ok_def claims_ok_def c' by (auto simp: new_claim_def)
  moreover have "manifest_ok x c'" using assms(1) unfolding case_ok_def manifest_ok_def c' by fastforce
  ultimately show ?thesis
    using assms(1) by (simp add: c' case_ok_def)
qed

lemma apply_freeze_submit_ok:
  assumes "case_ok x c" "apply_freeze_submit q now c = Inr c'"
  shows "case_ok x c'"
proof -
  from assms(2) have "c' = c\<lparr>dc_FreezeTransactionHash := zi_TransactionHash q, dc_FreezeSubmittedAt := Some now\<rparr>"
    by (simp add: apply_freeze_submit_def split: if_splits)
  with assms(1) show ?thesis
    by (simp add: case_ok_def)
qed

lemma apply_freeze_confirm_ok:
  assumes "case_ok x c" "apply_freeze_confirm E x q now c = Inr c'"
  shows "case_ok x c'"
proof -
  let ?c = "\<lambda>a b e. c\<lparr>dc_State := StateFrozen, dc_FreezeEventID := a, dc_FreezeRoot := b, dc_FrozenAt := Some now,
      dc_EvidenceDeadline := now + 72 * hour_ns, dc_DecisionDeadline := now + 72 * hour_ns + 72 * hour_ns,
      dc_ReviewDeadline := now + 72 * hour_ns + 72 * hour_ns + 48 * hour_ns, dc_Leaves := e\<rparr>"
  from assms(2) have "\<exists>a b e. c' = ?c a b e"
    unfolding apply_freeze_confirm_def by (auto split: if_splits)
  then obtain a b e where c': "c' = ?c a b e" by blast
  with assms(1) show ?thesis
    by (simp add: case_ok_def timeline_ok_def)
qed

lemma apply_evidence_ok:
  assumes "case_ok x c" "apply_evidence E x actor q now c = Inr c'"
  shows "case_ok x c'"
proof -
  let ?e = "new_evidence E c actor q now"
  from assms(2) obtain k where k: "find_claim (dc_Claims c) (ei_ClaimID q) = Some k" "side_for x actor = cl_Side k"
    and st: "dc_State c \<in> {StateFrozen, StateEvidence}"
    and new: "\<forall>e \<in> set (dc_Evidence c). ev_ObjectKey e \<noteq> ei_ObjectKey q \<and> ev_CiphertextDigest e \<noteq> ei_CiphertextDigest q"
    and c': "c' = c\<lparr>dc_State := StateEvidence, dc_Evidence := dc_Evidence c @ [?e]\<rparr>"
    by (auto simp: apply_evidence_def owns_side_def list_ex_iff split: if_splits option.splits)
  have "ev_ObjectKey ?e = ei_ObjectKey q" "ev_CiphertextDigest ?e = ei_CiphertextDigest q" "ev_ClaimID ?e = ei_ClaimID q"
      "ev_SubmittedBy ?e = actor" by (simp_all add: new_evidence_def)
  then have "manifest_ok x c'"
    using assms(1) new k(2) find_claim_mem [OF k(1)] by (auto simp: c' case_ok_def manifest_ok_def)
  moreover have "timeline_ok c'"
    using assms(1) st by (auto simp: case_ok_def timeline_ok_def c' split: option.splits)
  ultimately show ?thesis
    using assms(1) by (simp add: c' case_ok_def)
qed

lemma assigned_append: "assigned as stage a \<Longrightarrow> assigned (as @ bs) stage a"
  by (simp add: assigned_def)

lemma apply_assign_ok:
  assumes "case_ok x c" "apply_assign E x q now c = Inr c'"
  shows "case_ok x c'"
proof -
  let ?a = "new_assignment E c q now"
  from assms(2) have a: "c' = c\<lparr>dc_Assignments := dc_Assignments c @ [?a]\<rparr>" "as_Stage ?a = gi_Stage q"
      "as_AssigneeID ?a = gi_AssigneeID q" "gi_AssigneeID q \<noteq> dx_PublisherID x" "gi_AssigneeID q \<noteq> dx_AgentProviderID x"
      "\<forall>b \<in> set (dc_Assignments c). as_Stage b \<noteq> gi_Stage q"
    by (auto simp: apply_assign_def list_ex_iff new_assignment_def split: if_splits)
  have "assignments_ok x c'" using assms(1) a by (auto simp: case_ok_def assignments_ok_def)
  moreover have "decisions_ok c'"
    using assms(1) by (auto simp: case_ok_def decisions_ok_def decision_ok_def a(1) intro: assigned_append)
  ultimately show ?thesis
    using assms(1) by (simp add: a(1) case_ok_def)
qed

text \<open>Adding a decision that is no review: the other decisions keep their conditions.\<close>

lemma decisions_ok_append:
  assumes "decisions_ok c" "distinct (map as_Stage (dc_Assignments c))" "de_Kind d \<noteq> ''review''"
    and "decision_ok (c\<lparr>dc_Decisions := dc_Decisions c @ [d]\<rparr>) d"
  shows "decisions_ok (c\<lparr>dc_Decisions := dc_Decisions c @ [d]\<rparr>)"
proof -
  have "decision_ok (c\<lparr>dc_Decisions := dc_Decisions c @ [d]\<rparr>) e" if e: "e \<in> set (dc_Decisions c)" for e
  proof (cases "de_Kind d = ''initial''")
    case True
    have "assigned (dc_Assignments c) ''initial'' (de_DecidedBy d)" using assms(4) True by (simp add: decision_ok_def)
    moreover from assms(1) e have "decision_ok c e" by (simp add: decisions_ok_def)
    moreover have "de_DecidedBy f = de_DecidedBy d" if "f \<in> set (dc_Decisions c)" "de_Kind f = ''initial''" for f
      using assms(1,2) that calculation(1) by (auto simp: decisions_ok_def decision_ok_def intro: assigned_unique)
    ultimately show ?thesis using True by (auto simp: decision_ok_def)
  next
    case False
    with assms(1) e show ?thesis by (auto simp: decisions_ok_def decision_ok_def)
  qed
  with assms(1,3,4) show ?thesis by (auto simp: decisions_ok_def)
qed

lemma apply_decision_ok:
  assumes "case_ok x c" "apply_decision E actor q now c = Inr c'"
  shows "case_ok x c'"
proof -
  let ?d = "new_decision E c ''initial'' actor (di_ReasonCode q) (di_EvidenceRoot q) (di_PublisherBPS q) now"
  from assms(2) have c': "c' = c\<lparr>dc_Decisions := dc_Decisions c @ [?d], dc_State := StateDecided\<rparr>"
    and "assigned (dc_Assignments c) ''initial'' actor" "award_tier (di_PublisherBPS q)" and ev: "complete_evidence (dc_Evidence c)"
    by (auto simp: apply_decision_def split: if_splits)
  then have "decisions_ok (c\<lparr>dc_Decisions := dc_Decisions c @ [?d]\<rparr>)"
    using assms(1) by (intro decisions_ok_append) (auto simp: case_ok_def assignments_ok_def decision_ok_def new_decision_def)
  then have "decisions_ok c'" by (simp add: c')
  moreover have "dc_Evidence c \<noteq> []" using ev by (auto simp: complete_evidence_def required_evidence_def)
  then have "timeline_ok c'" using assms(1) by (auto simp: c' case_ok_def timeline_ok_def split: option.splits)
  ultimately show ?thesis
    using assms(1) by (simp add: c' case_ok_def)
qed

lemma finish_case_ok:
  assumes "case_ok x c" "dc_State c \<noteq> StateSoftLock" "dc_State c \<noteq> StateOrphaned"
  shows "case_ok x (finish_case c now)"
  using assms by (auto simp: finish_case_def case_ok_def timeline_ok_def split: option.splits)

lemma apply_settlement_ok:
  assumes "case_ok x c" "apply_settlement E q now c = Inr c'"
  shows "case_ok x c'"
proof -
  let ?d = "new_decision E c ''settlement'' ''parties'' (si_ReasonCode q) (si_EvidenceRoot q) (si_PublisherBPS q) now"
  from assms(2) have c': "c' = finish_case (c\<lparr>dc_Decisions := dc_Decisions c @ [?d]\<rparr>) now"
    and st: "dc_State c \<in> {StateFrozen, StateEvidence, StateDecided}"
    by (auto simp: apply_settlement_def split: if_splits)
  have "decisions_ok (c\<lparr>dc_Decisions := dc_Decisions c @ [?d]\<rparr>)"
    using assms(1) by (intro decisions_ok_append) (auto simp: case_ok_def assignments_ok_def decision_ok_def new_decision_def)
  then have "case_ok x (c\<lparr>dc_Decisions := dc_Decisions c @ [?d]\<rparr>)"
    using assms(1) by (simp add: case_ok_def)
  then show ?thesis unfolding c' using st by (intro finish_case_ok) auto
qed

lemma apply_review_ok:
  assumes "case_ok x c" "apply_review E actor q now c = Inr c'"
  shows "case_ok x c'"
proof -
  let ?d = "new_decision E c ''review'' actor (ri_ReasonCode q) (ri_EvidenceRoot q) (ri_PublisherBPS q) now"
  from assms(2) obtain d where d: "find_decision (dc_Decisions c) ''initial'' = Some d" "actor \<noteq> de_DecidedBy d"
    and none: "\<forall>d \<in> set (dc_Decisions c). de_Kind d \<noteq> ''review''" and st: "dc_State c = StateDecided"
    and a: "assigned (dc_Assignments c) ''review'' actor" "award_tier (ri_PublisherBPS q)"
    and c': "c' = finish_case (c\<lparr>dc_Decisions := dc_Decisions c @ [?d]\<rparr>) now"
    by (auto simp: apply_review_def Let_def find_decision_None split: if_splits option.splits)
  have di: "d \<in> set (dc_Decisions c)" "de_Kind d = ''initial''" using find_decision_Some [OF d(1)] by simp_all
  have dist: "distinct (map as_Stage (dc_Assignments c))" and dok: "\<forall>e \<in> set (dc_Decisions c). decision_ok c e"
    using assms(1) by (simp_all add: case_ok_def assignments_ok_def decisions_ok_def)
  have same: "de_DecidedBy e = de_DecidedBy d" if "e \<in> set (dc_Decisions c)" "de_Kind e = ''initial''" for e
  proof (rule assigned_unique [OF dist])
    show "assigned (dc_Assignments c) ''initial'' (de_DecidedBy e)" "assigned (dc_Assignments c) ''initial'' (de_DecidedBy d)"
      using dok di that by (auto simp: decision_ok_def)
  qed
  have "decision_ok (c\<lparr>dc_Decisions := dc_Decisions c @ [?d]\<rparr>) e" if "e \<in> set (dc_Decisions c)" for e
    using dok none that by (auto simp: decision_ok_def)
  moreover have "decision_ok (c\<lparr>dc_Decisions := dc_Decisions c @ [?d]\<rparr>) ?d"
  proof -
    have n: "de_Kind ?d = ''review''" "de_DecidedBy ?d = actor" "de_PublisherBPS ?d = ri_PublisherBPS q" by (simp_all add: new_decision_def)
    have "de_DecidedBy e \<noteq> actor" if "e \<in> set (dc_Decisions c @ [?d])" "de_Kind e = ''initial''" for e
      using that same d(2) n(1) by auto
    moreover have "\<exists>e \<in> set (dc_Decisions c @ [?d]). de_Kind e = ''initial''" using di by auto
    ultimately show ?thesis unfolding decision_ok_def n using a by simp
  qed
  moreover have "filter (\<lambda>d. de_Kind d = ''review'') (dc_Decisions c) = []" using none by (simp add: filter_empty_conv)
  ultimately have "decisions_ok (c\<lparr>dc_Decisions := dc_Decisions c @ [?d]\<rparr>)" by (simp add: decisions_ok_def)
  then have "case_ok x (c\<lparr>dc_Decisions := dc_Decisions c @ [?d]\<rparr>)"
    using assms(1) by (simp add: case_ok_def)
  then show ?thesis unfolding c' using st by (intro finish_case_ok) auto
qed

lemma apply_case_ok:
  assumes "case_ok x c" "apply_case E x actor cmd now c = Inr c'"
  shows "case_ok x c'"
  using assms
  by (cases cmd) (auto intro: apply_claim_ok apply_freeze_submit_ok apply_freeze_confirm_ok apply_evidence_ok apply_assign_ok apply_decision_ok apply_settlement_ok
      apply_review_ok simp: apply_finalize_def split: if_splits intro!: finish_case_ok)

lemma apply_open_ok:
  assumes "apply_open E x actor q now = Inr v"
  shows "case_ok x (vw_Case v) \<and> vw_Context v = x \<and> dc_AggregateVersion (vw_Case v) = 1 \<and> dc_State (vw_Case v) = StateSoftLock"
proof -
  from assms have side: "side_for x actor \<noteq> []" and v: "v = open_view E x (new_claim E (dx_TaskID x) (side_for x actor) (oi_Kind q) (oi_ReasonCode q) (oi_StatementHash q) now) now"
    by (auto simp: apply_open_def split: if_splits)
  show ?thesis using side_for_side [OF side]
    by (auto simp: v open_view_def zero_case_def case_ok_defs new_claim_def)
qed

end
