(* ===== verification/Dispute_Facts.thy ===== *)
theory Dispute_Facts
  imports Dispute_Invariant
begin

text \<open>
  What a call does to the repository: how \<open>Execute\<close> changes the stored cases, the invariant of reachable
  repositories, the transitions of a case, and the contract of repeated requests.
\<close>

section \<open>What a command keeps, and how it moves the state\<close>

definition case_identity :: "dispute_case \<Rightarrow> string \<times> string \<times> string \<times> string \<times> string \<times> string \<times> int" where
  "case_identity c = (dc_ID c, dc_TaskID c, dc_AssignmentID c, dc_DeliveryUnitID c, dc_PublisherID c, dc_AgentProviderID c, dc_AggregateVersion c)"

lemma finish_case_identity: "case_identity (finish_case c now) = case_identity c"
  by (simp add: finish_case_def case_identity_def)

lemma apply_case_identity:
  assumes "apply_case E x actor cmd now c = Inr c'"
  shows "case_identity c' = case_identity c"
proof -
  have i: "case_identity (dc_State_update f1 c) = case_identity c" "case_identity (dc_Claims_update f2 c) = case_identity c"
    "case_identity (dc_Evidence_update f3 c) = case_identity c" "case_identity (dc_Assignments_update f4 c) = case_identity c"
    "case_identity (dc_Decisions_update f5 c) = case_identity c" for c f1 f2 f3 f4 f5 by (simp_all add: case_identity_def)
  show ?thesis
  proof (cases cmd)
    case (DFreezeConfirm q)
    then show ?thesis using assms by (auto simp: apply_freeze_confirm_def case_identity_def split: if_splits)
  next
    case (DFreezeSubmit q)
    then show ?thesis using assms by (auto simp: apply_freeze_submit_def case_identity_def split: if_splits)
  next
    case (DReview q)
    then show ?thesis using assms by (auto simp: apply_review_def Let_def finish_case_identity i split: if_splits option.splits)
  qed (use assms in \<open>auto simp: apply_claim_def apply_evidence_def apply_assign_def apply_decision_def apply_settlement_def
      apply_finalize_def Let_def finish_case_identity i split: if_splits option.splits\<close>)
qed

text \<open>The edges of the state machine, with the guards of each on the case before.\<close>

definition dispute_edge :: "gotime \<Rightarrow> dispute_case \<Rightarrow> dispute_case \<Rightarrow> bool" where
  "dispute_edge now c c' \<longleftrightarrow>
     dc_State c' = dc_State c \<and> dc_Decisions c' = dc_Decisions c \<or>
     dc_State c \<in> {StateSoftLock, StateOrphaned} \<and> dc_State c' = StateFrozen \<and> dc_FreezeTransactionHash c \<noteq> [] \<and>
       dc_FrozenAt c' = Some now \<or>
     dc_State c \<in> {StateFrozen, StateEvidence} \<and> dc_State c' = StateEvidence \<and> dc_Decisions c' = dc_Decisions c \<and> now \<le> dc_EvidenceDeadline c \<or>
     dc_State c' = StateDecided \<and> dc_EvidenceDeadline c \<le> now \<and> now \<le> dc_DecisionDeadline c \<and> complete_evidence (dc_Evidence c) \<or>
     dc_State c \<in> {StateFrozen, StateEvidence, StateDecided} \<and> dc_State c' = StateFinal"

lemma dispute_edgeI:
  "dc_State c' = dc_State c \<Longrightarrow> dc_Decisions c' = dc_Decisions c \<Longrightarrow> dispute_edge now c c'"
  "dc_State c \<in> {StateSoftLock, StateOrphaned} \<Longrightarrow> dc_State c' = StateFrozen \<Longrightarrow> dc_FreezeTransactionHash c \<noteq> [] \<Longrightarrow>
     dc_FrozenAt c' = Some now \<Longrightarrow> dispute_edge now c c'"
  "dc_State c \<in> {StateFrozen, StateEvidence} \<Longrightarrow> dc_State c' = StateEvidence \<Longrightarrow> dc_Decisions c' = dc_Decisions c \<Longrightarrow>
     now \<le> dc_EvidenceDeadline c \<Longrightarrow> dispute_edge now c c'"
  "dc_State c' = StateDecided \<Longrightarrow> dc_EvidenceDeadline c \<le> now \<Longrightarrow> now \<le> dc_DecisionDeadline c \<Longrightarrow>
     complete_evidence (dc_Evidence c) \<Longrightarrow> dispute_edge now c c'"
  "dc_State c \<in> {StateFrozen, StateEvidence, StateDecided} \<Longrightarrow> dc_State c' = StateFinal \<Longrightarrow> dispute_edge now c c'"
  unfolding dispute_edge_def by (simp_all only: insert_iff empty_iff simp_thms)

lemma finish_case_simps [simp]: "dc_State (finish_case c now) = StateFinal" "dc_Decisions (finish_case c now) = dc_Decisions c"
  by (simp_all add: finish_case_def)

lemma apply_case_edge:
  assumes "apply_case E x actor cmd now c = Inr c'"
  shows "dispute_edge now c c'"
proof (cases cmd)
  case (DClaim q)
  with assms have "dc_State c' = dc_State c" "dc_Decisions c' = dc_Decisions c"
    by (auto simp: apply_claim_def Let_def split: if_splits)
  then show ?thesis by (rule dispute_edgeI(1))
next
  case (DFreezeSubmit q)
  with assms have "dc_State c' = dc_State c" "dc_Decisions c' = dc_Decisions c"
    by (auto simp: apply_freeze_submit_def split: if_splits)
  then show ?thesis by (rule dispute_edgeI(1))
next
  case (DFreezeConfirm q)
  with assms have "dc_State c \<in> {StateSoftLock, StateOrphaned}" "dc_State c' = StateFrozen" "dc_FreezeTransactionHash c \<noteq> []"
    "dc_FrozenAt c' = Some now" by (auto simp: apply_freeze_confirm_def split: if_splits)
  then show ?thesis by (rule dispute_edgeI(2))
next
  case (DEvidence q)
  with assms have "dc_State c \<in> {StateFrozen, StateEvidence}" "dc_State c' = StateEvidence" "dc_Decisions c' = dc_Decisions c"
     "now \<le> dc_EvidenceDeadline c" by (auto simp: apply_evidence_def split: if_splits option.splits)
  then show ?thesis by (rule dispute_edgeI(3))
next
  case (DAssign q)
  with assms have "dc_State c' = dc_State c" "dc_Decisions c' = dc_Decisions c"
    by (auto simp: apply_assign_def split: if_splits)
  then show ?thesis by (rule dispute_edgeI(1))
next
  case (DDecision q)
  with assms have "dc_State c' = StateDecided" "dc_EvidenceDeadline c \<le> now" "now \<le> dc_DecisionDeadline c"
    "complete_evidence (dc_Evidence c)" by (auto simp: apply_decision_def split: if_splits)
  then show ?thesis by (rule dispute_edgeI(4))
next
  case (DSettlement q)
  with assms have "dc_State c \<in> {StateFrozen, StateEvidence, StateDecided}" "dc_State c' = StateFinal"
    by (auto simp: apply_settlement_def split: if_splits)
  then show ?thesis by (rule dispute_edgeI(5))
next
  case (DReview q)
  with assms have "dc_State c \<in> {StateFrozen, StateEvidence, StateDecided}" "dc_State c' = StateFinal"
    by (auto simp: apply_review_def Let_def split: if_splits option.splits)
  then show ?thesis by (rule dispute_edgeI(5))
next
  case DFinalize
  with assms have "dc_State c \<in> {StateFrozen, StateEvidence, StateDecided}" "dc_State c' = StateFinal"
    by (auto simp: apply_finalize_def split: if_splits)
  then show ?thesis by (rule dispute_edgeI(5))
qed (use assms in simp_all)

section \<open>What Execute stores\<close>

definition bump :: "dispute_context \<Rightarrow> gotime \<Rightarrow> dispute_view \<Rightarrow> dispute_case \<Rightarrow> dispute_view" where
  "bump x now v c = v\<lparr>vw_Context := x, vw_Case := c\<lparr>dc_AggregateVersion := dc_AggregateVersion c + 1, dc_UpdatedAt := now\<rparr>\<rparr>"

inductive case_change :: "dispute_env \<Rightarrow> gotime \<Rightarrow> mutation \<Rightarrow> dispute_context \<Rightarrow> string \<Rightarrow> dispute_command \<Rightarrow> dispute_repo \<Rightarrow> string \<Rightarrow> dispute_view \<Rightarrow> bool"
  for E now m x i cmd r where
  opened: "cmd = DOpen q \<Longrightarrow> i = [] \<Longrightarrow> apply_open E x (mu_ActorID m) q now = Inr v \<Longrightarrow>
    \<not> list_ex (\<lambda>v. dc_TaskID (vw_Case v) = dx_TaskID x \<and> dc_State (vw_Case v) \<noteq> StateFinal) (gvals (dr_cases r)) \<Longrightarrow>
    case_change E now m x i cmd r (dc_ID (vw_Case v)) v"
| applied: "i \<noteq> [] \<Longrightarrow> gget (dr_cases r) i = Some v \<Longrightarrow> guard_command m i cmd r = Inr cmd' \<Longrightarrow>
    apply_case E x (mu_ActorID m) cmd' now (vw_Case v) = Inr c \<Longrightarrow> case_change E now m x i cmd r (dc_ID c) (bump x now v c)"
| granted: "i \<noteq> [] \<Longrightarrow> cmd = DAccess q \<Longrightarrow> gget (dr_cases r) i = Some v \<Longrightarrow> execute_access E now m i q v = Inr v' \<Longrightarrow>
    case_change E now m x i cmd r i v'"

lemma current_case_facts:
  "current_case i x r = Inr (Some v) \<Longrightarrow> i \<noteq> [] \<and> gget (dr_cases r) i = Some v"
  "current_case i x r = Inr None \<Longrightarrow> i = [] \<and>
     \<not> list_ex (\<lambda>v. dc_TaskID (vw_Case v) = dx_TaskID x \<and> dc_State (vw_Case v) \<noteq> StateFinal) (gvals (dr_cases r))"
  by (auto simp: current_case_def rbind_Inr_iff from_option_Inr_iff split: if_splits)

lemma guard_command_open: "guard_command m i cmd r = Inr (DOpen q) \<Longrightarrow> cmd = DOpen q"
  by (cases cmd) (auto simp: guard_command_def split: if_splits)

text \<open>The outcome of a request that is not a replay: nothing stored, an operation of an administrator recorded
  as a request only, or one case changed and its request recorded with the answer.\<close>

lemma execute_cases:
  assumes "execute E now m x i cmd r = (r', res)"
  obtains (same) "r' = r" "\<And>v. res \<noteq> Inr (v, False)"
  | (recorded) q v where "cmd = DAdmin q" "res = Inr (v, False)" "gget (dr_requests r) (request_key m) = None"
      "r' = r\<lparr>dr_requests := gput (request_key m) \<lparr>dq_hash = mu_RequestHash m, dq_view = v\<rparr> (dr_requests r)\<rparr>"
  | (stored) j v where "case_change E now m x i cmd r j v" "r' = store_view m j v r" "res = Inr (v, False)"
      "gget (dr_requests r) (request_key m) = None"
proof (cases "gget (dr_requests r) (request_key m)")
  case (Some prior)
  then show ?thesis using assms by (intro same) (auto simp: execute_def split: if_splits)
next
  case None
  show ?thesis
  proof (cases "current_case i x r")
    case (Inl e)
    then show ?thesis using assms None by (intro same) (auto simp: execute_def)
  next
    case (Inr current)
    let ?apply = "rbind (guard_command m i cmd r) (\<lambda>cmd. dispute_apply E current x (mu_ActorID m) cmd now)"
    have general: thesis
      if e: "(case ?apply of Inl e \<Rightarrow> (r, Inl e) | Inr v \<Rightarrow> (store_view m (dc_ID (vw_Case v)) v r, Inr (v, False))) = (r', res)"
    proof (cases ?apply)
      case (Inl e)
      then show ?thesis using that by (intro same) auto
    next
      case (Inr v)
      then obtain cmd' where g: "guard_command m i cmd r = Inr cmd'" and a: "dispute_apply E current x (mu_ActorID m) cmd' now = Inr v"
        by (auto simp: rbind_Inr_iff)
      have "case_change E now m x i cmd r (dc_ID (vw_Case v)) v"
      proof (cases current)
        case None
        with a obtain q where q: "cmd' = DOpen q" "apply_open E x (mu_ActorID m) q now = Inr v"
          by (auto simp: dispute_apply_def split: dispute_command.splits)
        with None g current_case_facts(2) [of i x r] \<open>current_case i x r = Inr current\<close> show ?thesis
          using guard_command_open by (intro opened) auto
      next
        case (Some u)
        with a obtain c where c: "apply_case E x (mu_ActorID m) cmd' now (vw_Case u) = Inr c" "v = bump x now u c"
          by (auto simp: dispute_apply_def rbind_Inr_iff bump_def)
        have "case_change E now m x i cmd r (dc_ID c) (bump x now u c)"
          using current_case_facts(1) [of i x r u] \<open>current_case i x r = Inr current\<close> Some c(1) g by (intro applied) auto
        then show ?thesis by (simp add: c(2) bump_def)
      qed
      then show ?thesis using that Inr None by (intro stored) auto
    qed
    show ?thesis
    proof (cases cmd)
      case (DAccess q)
      show ?thesis
      proof (cases current)
        case None
        then show ?thesis using assms DAccess Inr \<open>gget _ _ = None\<close> by (intro same) (auto simp: execute_def)
      next
        case (Some v)
        show ?thesis
        proof (cases "execute_access E now m i q v")
          case (Inl e)
          then show ?thesis using assms DAccess Some \<open>current_case i x r = Inr current\<close> None by (intro same) (auto simp: execute_def)
        next
          case (Inr v')
          have "case_change E now m x i cmd r i v'"
            using current_case_facts(1) [of i x r v] \<open>current_case i x r = Inr current\<close> Some DAccess Inr by (intro granted) auto
          then show ?thesis using assms DAccess Some Inr \<open>current_case i x r = Inr current\<close> None
            by (intro stored) (auto simp: execute_def)
        qed
      qed
    next
      case (DAdmin q)
      then show ?thesis using assms Inr None by (intro recorded) (auto simp: execute_def execute_admin_def Let_def)
    qed (use general assms Inr None in \<open>auto simp: execute_def\<close>)
  qed
qed

section \<open>What a service call stores\<close>

text \<open>A call either leaves the cases alone or is one request to the repository: for an existing case with the
  context that case had when the call read it, or for a new case with a context the call read.\<close>

definition request_read :: "dispute_reads \<Rightarrow> string \<Rightarrow> dispute_context \<Rightarrow> dispute_command \<Rightarrow> bool" where
  "request_read w i x cmd \<longleftrightarrow> (if i = [] then \<forall>q. cmd = DOpen q \<longrightarrow> x \<in> set (gvals (dr_contexts (rd_First w)))
     else \<exists>v. gget (dr_cases (rd_Case w)) i = Some v \<and> x = vw_Context v)"

definition call_request :: "dispute_env \<Rightarrow> gotime \<Rightarrow> dispute_reads \<Rightarrow> dispute_repo \<Rightarrow> dispute_repo \<Rightarrow> bool" where
  "call_request E now w r r' \<longleftrightarrow> (\<exists>m x i cmd res. execute E now m x i cmd r = (r', res) \<and> request_read w i x cmd)"

lemma svc_execute_request:
  assumes "request_read w i x cmd"
  shows "call_request E now w r (fst (svc_execute E now actor key x i cmd r))"
  unfolding call_request_def svc_execute_def using assms by (metis prod.collapse)

definition quiet_or_request :: "dispute_env \<Rightarrow> gotime \<Rightarrow> dispute_reads \<Rightarrow> dispute_repo \<Rightarrow> dispute_repo \<Rightarrow> bool" where
  "quiet_or_request E now w r r' \<longleftrightarrow>
     dr_cases r' = dr_cases r \<and> dr_requests r' = dr_requests r \<and> dr_contexts r' = dr_contexts r \<or> call_request E now w r r'"

lemma quiet_refl [simp]: "quiet_or_request E now w r r"
  by (simp add: quiet_or_request_def)

lemma for_case_request [simp]:
  assumes "\<And>q. cmd \<noteq> DOpen q"
  shows "quiet_or_request E now w r (fst (for_case E now s key i cmd w r))"
  unfolding for_case_def repo_get_def quiet_or_request_def
  by (cases "gget (dr_cases (rd_Case w)) i") (auto simp: request_read_def assms intro: svc_execute_request)

lemma svc_execute_quiet: "request_read w i x cmd \<Longrightarrow> quiet_or_request E now w r (fst (svc_execute E now actor key x i cmd r))"
  by (auto simp: quiet_or_request_def intro: svc_execute_request)

lemma get_context_read: "get_context taskID r = Inr x \<Longrightarrow> x \<in> set (gvals (dr_contexts r))"
  by (auto simp: get_context_def from_option_Inr_iff intro: gvals_memI)

lemma dispute_exec_request: "quiet_or_request E now w r (dispute_exec E now call w r)"
proof (cases call)
  case (KOpen s k t q)
  show ?thesis
    by (cases "get_context t (rd_First w)")
      (auto simp: KOpen svc_open_def request_read_def dest: get_context_read intro!: svc_execute_quiet)
next
  case (KAccess s k i q)
  then show ?thesis
    by (cases "gget (dr_cases (rd_Case w)) i")
      (auto simp: svc_grant_access_def repo_get_def audit_access_denial_def quiet_or_request_def request_read_def
        intro: svc_execute_request)
qed (simp_all add: svc_admin_def svc_add_claim_def svc_submit_freeze_def svc_reconcile_freeze_def svc_append_evidence_def
    svc_assign_def svc_decide_def svc_settle_def svc_review_def svc_finalize_def svc_execute_quiet request_read_def split: sum.split,
    simp_all add: quiet_or_request_def declare_conflict_def authorize_review_fee_def record_evidence_receipt_def)

section \<open>The invariant of the repository\<close>

definition disputes_inv :: "dispute_env \<Rightarrow> dispute_repo \<Rightarrow> bool" where
  "disputes_inv E r \<longleftrightarrow> separate_contexts E (dr_contexts r) \<and> (\<forall>i v. gget (dr_cases r) i = Some v \<longrightarrow>
     dc_ID (vw_Case v) = i \<and> case_ok (vw_Context v) (vw_Case v) \<and> 1 \<le> dc_AggregateVersion (vw_Case v) \<and>
     vw_Context v \<in> set (gvals (dr_contexts r)) \<and> case_id E (vw_Context v) = i)"

lemma disputes_invD:
  assumes "disputes_inv E r" "gget (dr_cases r) i = Some v"
  shows "dc_ID (vw_Case v) = i" "case_ok (vw_Context v) (vw_Case v)" "1 \<le> dc_AggregateVersion (vw_Case v)"
    "vw_Context v \<in> set (gvals (dr_contexts r))" "case_id E (vw_Context v) = i"
  using assms by (auto simp: disputes_inv_def)

lemma separate_contextsD:
  "separate_contexts E m \<Longrightarrow> x \<in> set (gvals m) \<Longrightarrow> y \<in> set (gvals m) \<Longrightarrow> case_id E x = case_id E y \<Longrightarrow> x = y"
  by (simp add: separate_contexts_def)

text \<open>An earlier state of a run: every case it stores is still stored, with the same context.\<close>

definition precedes :: "dispute_repo \<Rightarrow> dispute_repo \<Rightarrow> bool" where
  "precedes r r' \<longleftrightarrow> dr_contexts r' = dr_contexts r \<and>
     (\<forall>i v. gget (dr_cases r) i = Some v \<longrightarrow> (\<exists>v'. gget (dr_cases r') i = Some v' \<and> vw_Context v' = vw_Context v))"

lemma precedes_refl [simp]: "precedes r r"
  by (simp add: precedes_def)

lemma precedes_trans: "precedes r r' \<Longrightarrow> precedes r' r'' \<Longrightarrow> precedes r r''"
  unfolding precedes_def by metis

lemma execute_access_facts:
  "execute_access E now m i q v = Inr v' \<Longrightarrow> vw_Context v' = vw_Context v \<and>
     vw_Case v' = (vw_Case v)\<lparr>dc_AggregateVersion := dc_AggregateVersion (vw_Case v) + 1, dc_UpdatedAt := now\<rparr>"
  by (auto simp: execute_access_def Let_def split: if_splits)

text \<open>The reads of a call, seen from the state its last step runs on.\<close>

definition reads_fit :: "dispute_reads \<Rightarrow> dispute_repo \<Rightarrow> bool" where
  "reads_fit w r \<longleftrightarrow> precedes (rd_First w) r \<and> precedes (rd_Case w) r"

lemma request_context:
  assumes "request_read w i x cmd" "reads_fit w r" "i \<noteq> []" "gget (dr_cases r) i = Some u"
  shows "x = vw_Context u"
  using assms by (fastforce simp: request_read_def reads_fit_def precedes_def)

lemma case_change_facts:
  assumes "case_change E now m x i cmd r j v" "disputes_inv E r" "request_read w i x cmd" "reads_fit w r"
  shows "dc_ID (vw_Case v) = j \<and> case_ok (vw_Context v) (vw_Case v) \<and> 1 \<le> dc_AggregateVersion (vw_Case v) \<and>
    vw_Context v \<in> set (gvals (dr_contexts r)) \<and> case_id E (vw_Context v) = j"
  using assms(1)
proof cases
  case (opened q)
  have "x \<in> set (gvals (dr_contexts r))"
    using assms(3,4) opened(2,3) by (simp add: request_read_def reads_fit_def precedes_def)
  moreover have "dc_ID (vw_Case v) = case_id E x"
    using opened(4) by (auto simp: apply_open_def open_view_def case_id_def split: if_splits)
  ultimately show ?thesis using apply_open_ok [OF opened(4)] opened(1) by simp
next
  case (applied u cmd' c)
  note u = disputes_invD [OF assms(2) applied(4)]
  have x: "x = vw_Context u" by (rule request_context [OF assms(3,4) applied(3,4)])
  with u have "case_ok x (vw_Case u)" by simp
  then have "case_ok x c" by (rule apply_case_ok [OF _ applied(6)])
  with applied u x apply_case_identity [OF applied(6)] show ?thesis
    by (simp add: bump_def case_identity_def case_ok_def)
next
  case (granted q u)
  note u = disputes_invD [OF assms(2) granted(4)]
  from execute_access_facts [OF granted(5)] have "vw_Context v = vw_Context u"
    "vw_Case v = (vw_Case u)\<lparr>dc_AggregateVersion := dc_AggregateVersion (vw_Case u) + 1, dc_UpdatedAt := now\<rparr>" by simp_all
  with u granted(1) show ?thesis by (simp add: case_ok_def)
qed

lemma case_change_context:
  assumes "case_change E now m x i cmd r j v" "disputes_inv E r" "request_read w i x cmd" "reads_fit w r" "gget (dr_cases r) j = Some u"
  shows "vw_Context v = vw_Context u"
proof (rule separate_contextsD)
  show "separate_contexts E (dr_contexts r)" using assms(2) by (simp add: disputes_inv_def)
qed (use case_change_facts [OF assms(1-4)] disputes_invD [OF assms(2,5)] in simp_all)

lemma call_request_inv:
  assumes "call_request E now w r r'" "disputes_inv E r" "reads_fit w r"
  shows "disputes_inv E r' \<and> precedes r r'"
proof -
  from assms(1) obtain m x i cmd res where e: "execute E now m x i cmd r = (r', res)" and x: "request_read w i x cmd"
    by (auto simp: call_request_def)
  from e show ?thesis
  proof (cases rule: execute_cases)
    case (stored j v)
    with case_change_facts [OF stored(1) assms(2) x assms(3)] case_change_context [OF stored(1) assms(2) x assms(3)] assms(2) show ?thesis
      by (simp add: disputes_inv_def precedes_def store_view_def)
  qed (use assms(2) in \<open>simp_all add: disputes_inv_def precedes_def\<close>)
qed

lemma dispute_exec_inv:
  assumes "disputes_inv E r" "reads_fit w r"
  shows "disputes_inv E (dispute_exec E now call w r) \<and> precedes r (dispute_exec E now call w r)"
proof (cases "call_request E now w r (dispute_exec E now call w r)")
  case True
  then show ?thesis by (rule call_request_inv [OF _ assms])
next
  case False
  with dispute_exec_request [of E now w r call] assms(1) show ?thesis
    by (simp add: quiet_or_request_def disputes_inv_def precedes_def)
qed

lemma reads_from_fit: "reads_from h now w \<Longrightarrow> \<forall>u \<in> set h. precedes u r \<Longrightarrow> reads_fit w r"
  by (auto simp: reads_fit_def dest: reads_from_mem)

lemma disputes_run_inv: "disputes_run E h \<Longrightarrow> h \<noteq> [] \<and> disputes_inv E (hd h) \<and> (\<forall>u \<in> set h. precedes u (hd h))"
proof (induction rule: disputes_run.induct)
  case (run_start contexts)
  then show ?case by (simp add: disputes_inv_def new_dispute_repository_def)
next
  case (run_step r h now w call)
  then have "reads_fit w r" by (intro reads_from_fit [OF run_step.hyps(2)]) simp
  with run_step.IH dispute_exec_inv [of E r w now call]
  have "disputes_inv E (dispute_exec E now call w r)" "precedes r (dispute_exec E now call w r)" by simp_all
  with run_step.IH show ?case by (auto intro: precedes_trans)
qed

lemma disputes_run_head:
  assumes "disputes_run E (r # h)"
  shows "disputes_inv E r" "reads_from (r # h) now w \<Longrightarrow> reads_fit w r"
  using disputes_run_inv [OF assms] reads_from_fit [of "r # h" now w r] by simp_all

lemma disputes_reachable_inv: "disputes_reachable E r \<Longrightarrow> disputes_inv E r"
  by (auto simp: disputes_reachable_def dest: disputes_run_head(1))

section \<open>How a stored case changes\<close>

text \<open>A call leaves a stored case, moves it along an edge, or replaces a final case by a new one.\<close>

definition reopened :: "dispute_view \<Rightarrow> dispute_view \<Rightarrow> bool" where
  "reopened v v' \<longleftrightarrow> dc_State (vw_Case v') = StateSoftLock \<and> dc_AggregateVersion (vw_Case v') = 1 \<and>
     (dc_TaskID (vw_Case v) = dc_TaskID (vw_Case v') \<longrightarrow> dc_State (vw_Case v) = StateFinal)"

lemma case_change_edge:
  assumes "case_change E now m x i cmd r j v'" "disputes_inv E r" "gget (dr_cases r) j = Some v"
  shows "reopened v v' \<or> dc_AggregateVersion (vw_Case v') = dc_AggregateVersion (vw_Case v) + 1 \<and> dispute_edge now (vw_Case v) (vw_Case v')"
  using assms(1)
proof cases
  case (opened q)
  have "dc_TaskID (vw_Case v') = dx_TaskID x" using opened(4) by (auto simp: apply_open_def open_view_def split: if_splits)
  moreover have "v \<in> set (gvals (dr_cases r))" using assms(3) by (rule gvals_memI)
  ultimately show ?thesis using opened(5) apply_open_ok [OF opened(4)] by (auto simp: reopened_def list_ex_iff)
next
  case (applied u cmd' c)
  have "dc_ID c = dc_ID (vw_Case u)" "dc_AggregateVersion c = dc_AggregateVersion (vw_Case u)"
    using apply_case_identity [OF applied(6)] by (simp_all add: case_identity_def)
  moreover have "dc_ID (vw_Case u) = i" using applied(4) assms(2) by (auto simp: disputes_inv_def)
  ultimately have "v = u" using applied assms(3) by simp
  have "dispute_edge now (vw_Case u) c" by (rule apply_case_edge [OF applied(6)])
  then have "dispute_edge now (vw_Case u) (vw_Case v')" by (simp add: applied(2) bump_def dispute_edge_def)
  then show ?thesis using applied(2) \<open>v = u\<close> \<open>dc_AggregateVersion c = _\<close> by (simp add: bump_def)
next
  case (granted q u)
  then have "v = u" using assms(3) by simp
  with execute_access_facts [OF granted(5)] show ?thesis by (simp add: dispute_edge_def)
qed

section \<open>Repeated requests\<close>

lemma execute_requests:
  assumes "execute E now m x i cmd r = (r', res)"
  shows "gget (dr_requests r) \<subseteq>\<^sub>m gget (dr_requests r')"
  using assms by (cases rule: execute_cases) (auto simp: store_view_def map_le_def)

lemma execute_answer:
  assumes "execute E now m x i cmd r = (r', Inr (v, False))"
  shows "gget (dr_requests r') (request_key m) = Some \<lparr>dq_hash = mu_RequestHash m, dq_view = v\<rparr>"
  using assms by (cases rule: execute_cases) (auto simp: store_view_def)

lemma execute_replay:
  "gget (dr_requests r) (request_key m) = Some \<lparr>dq_hash = mu_RequestHash m, dq_view = v\<rparr> \<Longrightarrow> execute E now m x i cmd r = (r, Inr (v, True))"
  by (simp add: execute_def)

definition dispute_env_step :: "dispute_env \<Rightarrow> dispute_repo \<Rightarrow> dispute_repo \<Rightarrow> bool" where
  "dispute_env_step E r r' \<longleftrightarrow> (\<exists>now call w. r' = dispute_exec E now call w r)"

lemma env_requests:
  assumes "dispute_env_step E r r'"
  shows "gget (dr_requests r) \<subseteq>\<^sub>m gget (dr_requests r')"
proof -
  from assms obtain now call w where r': "r' = dispute_exec E now call w r" by (auto simp: dispute_env_step_def)
  show ?thesis
  proof (cases "call_request E now w r r'")
    case True
    then show ?thesis using execute_requests by (auto simp: call_request_def)
  next
    case False
    then show ?thesis using dispute_exec_request [of E now w r call] r' by (simp add: quiet_or_request_def)
  qed
qed

definition request_of :: "dispute_env \<Rightarrow> string \<Rightarrow> string \<Rightarrow> string \<Rightarrow> dispute_command \<Rightarrow> mutation" where
  "request_of E actor key i cmd = \<lparr>mu_ActorID = actor, mu_IdempotencyKey = key, mu_RequestHash = sha_string (dn_sha E (dn_json_request E i cmd))\<rparr>"

lemma svc_execute_request_of: "svc_execute E now actor key x i cmd r = execute E now (request_of E actor key i cmd) x i cmd r"
  by (simp add: svc_execute_def request_of_def)

text \<open>A request to the repository as the service makes it, and the answer recorded for it.\<close>

type_synonym dispute_job = "string \<times> string \<times> dispute_context \<times> string \<times> dispute_command"

definition run_job :: "dispute_env \<Rightarrow> gotime \<Rightarrow> dispute_job \<Rightarrow> dispute_repo \<Rightarrow> dispute_result" where
  "run_job E now q r = (case q of (actor, key, x, i, cmd) \<Rightarrow> svc_execute E now actor key x i cmd r)"

definition job_answered :: "dispute_env \<Rightarrow> dispute_job \<Rightarrow> dispute_view \<Rightarrow> dispute_repo \<Rightarrow> bool" where
  "job_answered E q v r \<longleftrightarrow> (case q of (actor, key, x, i, cmd) \<Rightarrow>
     gget (dr_requests r) (request_key (request_of E actor key i cmd)) =
       Some \<lparr>dq_hash = mu_RequestHash (request_of E actor key i cmd), dq_view = v\<rparr>)"

lemma run_job_answers: "run_job E now q r = (r', Inr (v, False)) \<Longrightarrow> job_answered E q v r'"
  by (cases q) (auto simp: run_job_def job_answered_def svc_execute_request_of dest: execute_answer)

lemma job_answered_step: "job_answered E q v r \<Longrightarrow> dispute_env_step E r r' \<Longrightarrow> job_answered E q v r'"
  by (cases q) (force simp: job_answered_def map_le_def dest: env_requests)

lemma job_answered_replays: "job_answered E q v r \<Longrightarrow> run_job E now q r = (r, Inr (v, True))"
  by (cases q) (auto simp: run_job_def job_answered_def svc_execute_request_of intro: execute_replay)

interpretation dispute_replay: replay_exact "run_job E" "\<lambda>r. True" "dispute_env_step E" "\<lambda>q r. \<exists>v. job_answered E q v r"
  "\<lambda>now q. True" "job_answered E" for E
  by unfold_locales (auto dest: run_job_answers job_answered_step intro: job_answered_replays)

end
