(* ===== verification/Dispute_Properties.thy ===== *)
theory Dispute_Properties
  imports Dispute_Facts
begin

text \<open>The properties of the dispute package, after the concrete values their witnesses evaluate.\<close>

text \<open>Concrete inputs for the witnesses of the dispute properties: a case opened by its publisher, and a case
  in evidence with all categories and an assigned arbitrator.\<close>

section \<open>Values\<close>

definition demo_denv :: dispute_env where
  "demo_denv = \<lparr>dn_sha = \<lambda>_. replicate 32 (CHR 0x00), dn_json_strings = \<lambda>_. [], dn_json_request = \<lambda>_ _. [], dn_verify = \<lambda>_ _ _. True\<rparr>"

definition demo_case_digest :: string where
  "demo_case_digest = sha_string (replicate 32 (CHR 0x00))"

definition demo_dx :: dispute_context where
  "demo_dx = zero_dispute_context\<lparr>dx_TaskID := ''t1'', dx_AssignmentID := ''as1'', dx_DeliveryUnitID := ''u1'', dx_PublisherID := ''pub'',
     dx_AgentProviderID := ''agt'', dx_FrozenAmount := ''100'', dx_Eligible := True, dx_DisputeDeadline := 1000\<rparr>"

definition demo_session :: "string \<Rightarrow> string \<Rightarrow> session" where
  "demo_session u role = \<lparr>se_UserID = u, se_Wallet = [], se_Roles = [role]\<rparr>"

definition demo_open_input :: open_input where
  "demo_open_input = \<lparr>oi_DeliveryUnitID = ''u1'', oi_Kind = ''quality'', oi_ReasonCode = ''late'', oi_StatementHash = demo_case_digest\<rparr>"

definition demo_drepo0 :: dispute_repo where
  "demo_drepo0 = new_dispute_repository [demo_dx]"

definition demo_opened_view :: dispute_view where
  "demo_opened_view = open_view demo_denv demo_dx (new_claim demo_denv ''t1'' ''publisher'' ''quality'' ''late'' demo_case_digest 5) 5"

definition demo_open_call :: dispute_call where
  "demo_open_call = KOpen (demo_session ''pub'' ''publisher'') ''k1'' ''t1'' demo_open_input"

definition demo_drepo1 :: dispute_repo where
  "demo_drepo1 = dispute_exec demo_denv 5 demo_open_call (reads_at 5 demo_drepo0) demo_drepo0"

definition demo_evidence :: "string \<Rightarrow> dispute_evidence" where
  "demo_evidence category = \<lparr>ev_ID = category, ev_ClaimID = ''c1'', ev_Category = category, ev_ObjectKey = category,
     ev_CiphertextDigest = category, ev_EnvelopeKeyReference = ''kms'', ev_ObjectVersionID = ''1'', ev_RetentionMode = ''COMPLIANCE'',
     ev_RetainUntil = 0, ev_CreatedAt = 1, ev_SubmittedBy = ''pub''\<rparr>"

definition demo_case :: dispute_case where
  "demo_case = zero_case\<lparr>dc_ID := demo_case_digest, dc_TaskID := ''t1'', dc_PublisherID := ''pub'', dc_AgentProviderID := ''agt'',
     dc_State := StateEvidence, dc_AggregateVersion := 20, dc_EvidenceDeadline := 10, dc_DecisionDeadline := 20, dc_ReviewDeadline := 30,
     dc_Evidence := map demo_evidence required_evidence,
     dc_Assignments := [\<lparr>as_ID = ''a1'', as_Stage = ''initial'', as_AssigneeID = ''arb'', as_ConflictCheckedAt = 1, as_AssignedAt = 1\<rparr>]\<rparr>"

definition demo_dview :: dispute_view where
  "demo_dview = \<lparr>vw_Case = demo_case, vw_Context = demo_dx, vw_AccessGrants = [], vw_AdminOperations = []\<rparr>"

definition demo_drepo :: dispute_repo where
  "demo_drepo = demo_drepo0\<lparr>dr_cases := [(demo_case_digest, demo_dview)]\<rparr>"

definition demo_decision_input :: decision_input where
  "demo_decision_input = \<lparr>di_PublisherBPS = 2500, di_ReasonCode = ''ok'', di_EvidenceRoot = demo_case_digest\<rparr>"

definition demo_settlement :: settlement_input where
  "demo_settlement = \<lparr>si_PublisherBPS = 1234, si_ReasonCode = ''ok'', si_EvidenceRoot = demo_case_digest, si_AgreementHash = demo_case_digest,
     si_PublisherSignature = ''0x'' @ replicate 130 (CHR ''1''), si_AgentSignature = ''0x'' @ replicate 130 (CHR ''2''), si_Verified = False\<rparr>"

section \<open>Their evaluation\<close>

lemma is_lower_hex_hex_char: "n < 16 \<Longrightarrow> is_lower_hex (hex_char n)"
  by (auto simp: is_lower_hex_def char_between_def hex_char_of_char)

lemma hex_encode_lower: "list_all is_lower_hex (hex_encode d)"
  by (induction d) (auto simp: hex_encode_def Let_def intro!: is_lower_hex_hex_char nibbles_less)

lemma digest_pattern_sha_string: "length d = 32 \<Longrightarrow> digest_pattern (sha_string d)"
  by (simp add: digest_pattern_def sha_string_def has_prefix_def hex_encode_lower)

lemma demo_digest_ok [simp]: "digest_pattern demo_case_digest" "demo_case_digest \<noteq> []"
  by (simp_all add: demo_case_digest_def digest_pattern_sha_string) (simp add: sha_string_def)

lemma demo_reasons [simp]: "reason_pattern ''quality''" "reason_pattern ''late''" "reason_pattern ''ok''"
  by (simp_all add: reason_pattern_def char_between_def)

lemma demo_keys [simp]: "key_ok ''k1''" "key_ok ''k2''" "\<not> blank ''t1''" "\<not> blank ''u1''"
proof -
  show "\<not> blank ''t1''" "\<not> blank ''u1''" by (rule not_blank_Cons, simp add: printable_def)+
  have "\<not> blank ''k1''" "\<not> blank ''k2''" by (rule not_blank_Cons, simp add: printable_def)+
  then show "key_ok ''k1''" "key_ok ''k2''" by (simp_all add: key_ok_def)
qed

lemma demo_signatures [simp]: "signature_pattern (''0x'' @ replicate 130 (CHR ''1''))" "signature_pattern (''0x'' @ replicate 130 (CHR ''2''))"
  by (simp_all add: signature_pattern_def hex_pattern_def has_prefix_def list_all_iff is_hex_def char_between_def)

lemma demo_dispute_digest [simp]: "dispute_digest demo_denv parts = demo_case_digest" "evidence_root demo_denv vs = demo_case_digest"
  by (simp_all add: dispute_digest_def evidence_root_def demo_case_digest_def demo_denv_def)

lemma demo_dispute_opened: "gget (dr_cases demo_drepo1) demo_case_digest = Some demo_opened_view"
  by (simp add: demo_drepo1_def demo_open_call_def svc_open_def demo_open_input_def demo_session_def party_def has_role_def get_context_def demo_drepo0_def
      new_dispute_repository_def demo_dx_def side_for_def svc_execute_def execute_def current_case_def guard_command_def assignee_of_def
      dispute_apply_def apply_open_def store_view_def demo_opened_view_def open_view_def)

lemma demo_opened_run: "disputes_run demo_denv [demo_drepo1, demo_drepo0]"
proof -
  have "separate_contexts demo_denv (dr_contexts (new_dispute_repository [demo_dx]))"
    by (simp add: separate_contexts_def new_dispute_repository_def gput_def gvals_def)
  then have "disputes_run demo_denv [demo_drepo0]" unfolding demo_drepo0_def by (rule run_start)
  from run_step [OF this reads_at_from, of 5 demo_open_call] show ?thesis by (simp add: demo_drepo1_def)
qed

lemma demo_opened_reachable: "disputes_reachable demo_denv demo_drepo1"
  unfolding disputes_reachable_def using demo_opened_run by blast

lemma demo_complete: "complete_evidence (dc_Evidence demo_case)"
  by (simp add: complete_evidence_def demo_case_def demo_evidence_def required_evidence_def)

lemma demo_drepo_get [simp]: "gget (dr_cases demo_drepo) demo_case_digest = Some demo_dview"
  by (simp add: demo_drepo_def gget_def)

text \<open>
  The properties of disputes: the invariant of the stored cases, the state machine, who may decide and
  settle, repeated requests and outsiders, and a decision that reopens a closed case.
\<close>

section \<open>Lemmas on successful calls\<close>

lemma guard_command_facts:
  assumes "guard_command m i cmd r = Inr cmd'"
  shows "(case assignee_of m cmd of None \<Rightarrow> True | Some a \<Rightarrow> \<not> flag (dr_conflicts r) i a) \<and>
    (case cmd of DReview q \<Rightarrow> flag (dr_reviewFees r) i (mu_ActorID m) \<and> cmd' = DReview (q\<lparr>ri_FeeAuthorized := True\<rparr>) | _ \<Rightarrow> cmd' = cmd)"
  using assms by (cases cmd) (auto simp: guard_command_def assignee_of_def split: if_splits)

lemma for_case_stored:
  assumes "for_case E now s key i cmd w r = (r', Inr (v', False))" "\<And>q. cmd \<noteq> DAccess q" "\<And>q. cmd \<noteq> DAdmin q" "\<And>q. cmd \<noteq> DOpen q"
  obtains u v cmd' c where "gget (dr_cases (rd_Case w)) i = Some u" "can_read u s" "gget (dr_cases r) i = Some v"
    "guard_command (request_of E (se_UserID s) key i cmd) i cmd r = Inr cmd'"
    "apply_case E (vw_Context u) (se_UserID s) cmd' now (vw_Case v) = Inr c" "v' = bump (vw_Context u) now v c"
    "gget (dr_cases r') (dc_ID c) = Some v'"
proof -
  from assms(1) obtain u where u: "gget (dr_cases (rd_Case w)) i = Some u" "can_read u s"
    and e: "execute E now (request_of E (se_UserID s) key i cmd) (vw_Context u) i cmd r = (r', Inr (v', False))"
    by (auto simp: for_case_def repo_get_def svc_execute_request_of from_option_def split: if_splits option.splits)
  from e show thesis
  proof (cases rule: execute_cases)
    case (stored j x)
    from stored(1) show thesis
    proof cases
      case (applied v cmd' c)
      with stored u show thesis using that [of u v cmd' c] by (simp add: store_view_def request_of_def)
    qed (use assms(2-4) in auto)
  qed (use assms(3) in auto)
qed

lemma for_case_stores:
  assumes "for_case E now s key i cmd w r = (r', Inr (v', False))" "\<And>q. cmd \<noteq> DAccess q" "\<And>q. cmd \<noteq> DAdmin q" "\<And>q. cmd \<noteq> DOpen q"
  shows "i \<noteq> [] \<and> r' = store_view (request_of E (se_UserID s) key i cmd) (dc_ID (vw_Case v')) v' r \<and>
    gget (dr_requests r) (request_key (request_of E (se_UserID s) key i cmd)) = None"
proof -
  from assms(1) obtain x where e: "execute E now (request_of E (se_UserID s) key i cmd) x i cmd r = (r', Inr (v', False))"
    by (auto simp: for_case_def repo_get_def svc_execute_request_of split: if_splits sum.splits)
  from e show ?thesis
  proof (cases rule: execute_cases)
    case (stored j u)
    from stored(1) have "i \<noteq> [] \<and> j = dc_ID (vw_Case u)"
      using assms(2-4) by cases (auto simp: bump_def)
    with stored show ?thesis by simp
  qed (use assms(3) in auto)
qed

section \<open>The stored cases\<close>

text \<open>
  C15: Stored cases are well formed. In every reachable repository, whatever calls interleave (over contexts
  of which no two have the same case identifier), a case is stored under its identifier;
  it has at least one claim and no two claims of the same side and kind, no evidence object or digest twice
  and only evidence of the side that made the claim, at most one assignee for each stage and never a party; initial
  decisions and reviews are at an award tier and by the assignee of their stage, there is at most one
  review and it is by another arbitrator than the initial decision; a frozen case has the deadlines 72,
  144 and 192 hours after the freeze; and a final case is marked finalised with its reputation released.
\<close>
theorem stored_cases_well_formed:
  assumes "disputes_reachable E r" "gget (dr_cases r) i = Some v"
  shows "dc_ID (vw_Case v) = i \<and> case_ok (vw_Context v) (vw_Case v) \<and> 1 \<le> dc_AggregateVersion (vw_Case v)"
  using disputes_reachable_inv [OF assms(1)] assms(2) by (simp add: disputes_inv_def)

theorem stored_cases_well_formed_witness:
  "gget (dr_cases demo_drepo1) demo_case_digest = Some demo_opened_view \<and>
   case_ok (vw_Context demo_opened_view) (vw_Case demo_opened_view) \<and> dc_ID (vw_Case demo_opened_view) = demo_case_digest"
  using stored_cases_well_formed [OF demo_opened_reachable demo_dispute_opened] demo_dispute_opened by blast

text \<open>
  The state machine. A service call leaves a stored case as it is, or increments its version and moves
  it along an edge (a freeze confirmed, evidence before its deadline, a decision within its window, a
  settlement, a review or the finalisation), or replaces it by a newly opened case, which for the same
  task is possible only once the case was final. A stored case is never removed.
\<close>
theorem case_transitions:
  assumes "disputes_run E (r # h)" "reads_from (r # h) now w" "gget (dr_cases r) i = Some v"
  shows "\<exists>v'. gget (dr_cases (dispute_exec E now call w r)) i = Some v' \<and> vw_Context v' = vw_Context v \<and>
    (v' = v \<or> reopened v v' \<or>
     dc_AggregateVersion (vw_Case v') = dc_AggregateVersion (vw_Case v) + 1 \<and> dispute_edge now (vw_Case v) (vw_Case v'))"
proof (cases "call_request E now w r (dispute_exec E now call w r)")
  case True
  then obtain m x j cmd res where e: "execute E now m x j cmd r = (dispute_exec E now call w r, res)" and q: "request_read w j x cmd"
    by (auto simp: call_request_def)
  note inv = disputes_run_head(1) [OF assms(1)] and fit = disputes_run_head(2) [OF assms(1,2)]
  from e show ?thesis
  proof (cases rule: execute_cases)
    case (stored k u)
    show ?thesis
    proof (cases "k = i")
      case True
      with case_change_edge [OF stored(1) inv, of v] case_change_context [OF stored(1) inv q fit, of v] assms(3) stored(2)
      show ?thesis by (simp add: store_view_def)
    qed (use stored(2) assms(3) in \<open>simp add: store_view_def\<close>)
  qed (use assms(3) in simp_all)
next
  case False
  then show ?thesis using dispute_exec_request [of E now w r call] assms(3) by (simp add: quiet_or_request_def)
qed

theorem case_transitions_witness:
  "\<exists>v'. gget (dr_cases (dispute_exec demo_denv 9 (KSubmitFreeze (demo_session ''pub'' ''publisher'') ''k2'' demo_case_digest
     \<lparr>zi_TransactionHash = ''0x'' @ replicate 64 (CHR ''1'')\<rparr>) (reads_at 9 demo_drepo1) demo_drepo1)) demo_case_digest = Some v' \<and>
     (v' = demo_opened_view \<or> reopened demo_opened_view v' \<or>
      dc_AggregateVersion (vw_Case v') = 2 \<and> dispute_edge 9 (vw_Case demo_opened_view) (vw_Case v'))"
proof -
  have "dc_AggregateVersion (vw_Case demo_opened_view) + 1 = 2" by (simp add: demo_opened_view_def open_view_def)
  with case_transitions [OF demo_opened_run reads_at_from demo_dispute_opened, of 9] show ?thesis by metis
qed

section \<open>Decisions\<close>

text \<open>
  C27: Only the assigned arbitrator decides. When \<open>Decide\<close> succeeds as a new request, whatever other calls ran
  between its reads and its \<open>Execute\<close>: the caller is an arbitrator; at the \<open>Get\<close> the caller could read the
  case and the evidence root signed off was the root of the evidence stored then; no conflict of the caller was
  declared at \<open>HasConflict\<close> nor at \<open>Execute\<close>; and in the case as \<open>Execute\<close> finds it, the caller is assigned to
  the initial stage, the evidence window is over and the decision window open, all twelve categories of evidence
  are present, the award is a tier, and the stored case is decided with exactly this decision added. That the root
  is still that of the stored evidence at \<open>Execute\<close> is not part of it: nothing checks it there.
\<close>
theorem decision_authorized:
  assumes "svc_decide E now s key i q w r = (r', Inr (v', False))"
  shows "has_role s ''arbitrator'' \<and>
    (\<exists>u. gget (dr_cases (rd_First w)) i = Some u \<and> can_read u s \<and> di_EvidenceRoot q = evidence_root E (dc_Evidence (vw_Case u))) \<and>
    \<not> has_conflict i (se_UserID s) (rd_Conflict w) \<and> \<not> has_conflict i (se_UserID s) r \<and>
    (\<exists>v. gget (dr_cases r) i = Some v \<and> assigned (dc_Assignments (vw_Case v)) ''initial'' (se_UserID s) \<and>
      dc_EvidenceDeadline (vw_Case v) \<le> now \<and> now \<le> dc_DecisionDeadline (vw_Case v) \<and>
      (\<forall>category \<in> set required_evidence. \<exists>e \<in> set (dc_Evidence (vw_Case v)). ev_Category e = category) \<and>
      di_PublisherBPS q \<in> {0, 2500, 5000, 7500, 10000} \<and>
      gget (dr_cases r') (dc_ID (vw_Case v)) = Some v' \<and> dc_State (vw_Case v') = StateDecided \<and>
      dc_Evidence (vw_Case v') = dc_Evidence (vw_Case v) \<and>
      dc_Decisions (vw_Case v') = dc_Decisions (vw_Case v) @
        [new_decision E (vw_Case v) ''initial'' (se_UserID s) (di_ReasonCode q) (di_EvidenceRoot q) (di_PublisherBPS q) now])"
proof -
  from assms have pre: "has_role s ''arbitrator''" "\<not> has_conflict i (se_UserID s) (rd_Conflict w)"
    and f: "for_case E now s key i (DDecision q) w r = (r', Inr (v', False))"
    and root: "\<exists>u. gget (dr_cases (rd_First w)) i = Some u \<and> can_read u s \<and> di_EvidenceRoot q = evidence_root E (dc_Evidence (vw_Case u))"
    by (auto simp: svc_decide_def svc_get_def repo_get_def rbind_Inr_iff from_option_def split: if_splits sum.splits option.splits)
  from f obtain u v cmd' c where "gget (dr_cases (rd_Case w)) i = Some u" "can_read u s" and v: "gget (dr_cases r) i = Some v"
    and g: "guard_command (request_of E (se_UserID s) key i (DDecision q)) i (DDecision q) r = Inr cmd'"
    and a: "apply_case E (vw_Context u) (se_UserID s) cmd' now (vw_Case v) = Inr c" and v': "v' = bump (vw_Context u) now v c"
    and st: "gget (dr_cases r') (dc_ID c) = Some v'" by (rule for_case_stored) simp_all
  from guard_command_facts [OF g] have "cmd' = DDecision q" and free: "\<not> has_conflict i (se_UserID s) r"
    by (simp_all add: assignee_of_def request_of_def has_conflict_def)
  with a have d: "apply_decision E (se_UserID s) q now (vw_Case v) = Inr c" by simp
  have "dc_ID c = dc_ID (vw_Case v)" using apply_case_identity [OF a] by (simp add: case_identity_def)
  with d st v' have "assigned (dc_Assignments (vw_Case v)) ''initial'' (se_UserID s) \<and>
      dc_EvidenceDeadline (vw_Case v) \<le> now \<and> now \<le> dc_DecisionDeadline (vw_Case v) \<and>
      (\<forall>category \<in> set required_evidence. \<exists>e \<in> set (dc_Evidence (vw_Case v)). ev_Category e = category) \<and>
      di_PublisherBPS q \<in> {0, 2500, 5000, 7500, 10000} \<and>
      gget (dr_cases r') (dc_ID (vw_Case v)) = Some v' \<and> dc_State (vw_Case v') = StateDecided \<and>
      dc_Evidence (vw_Case v') = dc_Evidence (vw_Case v) \<and>
      dc_Decisions (vw_Case v') = dc_Decisions (vw_Case v) @
        [new_decision E (vw_Case v) ''initial'' (se_UserID s) (di_ReasonCode q) (di_EvidenceRoot q) (di_PublisherBPS q) now]"
    by (auto simp: apply_decision_def bump_def complete_evidence_def list_all_iff list_ex_iff award_tier_def split: if_splits)
  with pre root free v show ?thesis by blast
qed

theorem decision_authorized_witness:
  "\<exists>r' v'. svc_decide demo_denv 15 (demo_session ''arb'' ''arbitrator'') ''k1'' demo_case_digest demo_decision_input (reads_at 15 demo_drepo) demo_drepo =
       (r', Inr (v', False)) \<and>
     dc_State (vw_Case v') = StateDecided \<and> length (dc_Decisions (vw_Case v')) = 1"
proof -
  have "\<exists>r' v'. svc_decide demo_denv 15 (demo_session ''arb'' ''arbitrator'') ''k1'' demo_case_digest demo_decision_input (reads_at 15 demo_drepo) demo_drepo = (r', Inr (v', False))"
    using demo_complete
    by (simp add: svc_decide_def demo_session_def has_role_def demo_decision_input_def svc_get_def repo_get_def can_read_def
        demo_dview_def assigned_to_case_def has_conflict_def flag_def for_case_def svc_execute_def execute_def current_case_def
        guard_command_def assignee_of_def dispute_apply_def apply_decision_def assigned_def award_tier_def demo_case_def
        demo_drepo_def demo_drepo0_def new_dispute_repository_def gget_def)
  then obtain r' v' where d: "svc_decide demo_denv 15 (demo_session ''arb'' ''arbitrator'') ''k1'' demo_case_digest demo_decision_input (reads_at 15 demo_drepo) demo_drepo = (r', Inr (v', False))"
    by blast
  have n: "dc_Decisions demo_case = []" by (simp add: demo_case_def zero_case_def)
  from decision_authorized [OF d] obtain v where "gget (dr_cases demo_drepo) demo_case_digest = Some v" "dc_State (vw_Case v') = StateDecided"
    "\<exists>x. dc_Decisions (vw_Case v') = dc_Decisions (vw_Case v) @ [x]" by blast
  with d n show ?thesis by (auto simp: demo_dview_def)
qed

text \<open>
  C28: A settlement needs both signatures. When \<open>Settle\<close> succeeds as a new request, whatever other calls ran
  between its \<open>Get\<close> and its \<open>Execute\<close>: the verifier accepted two different signatures, those of the publisher's wallet
  and of the agent's controller in the case as the \<open>Get\<close> found it, over the message that names the case, the
  agreement, the award and the root of the evidence stored at the \<open>Get\<close>; and the case as \<open>Execute\<close> found it was
  frozen, in evidence or decided, and is final with exactly this settlement added.
\<close>
theorem settlement_needs_both_parties:
  assumes "svc_settle E now s key i q w r = (r', Inr (v', False))"
  shows "si_PublisherSignature q \<noteq> si_AgentSignature q \<and>
    (\<exists>u. gget (dr_cases (rd_First w)) i = Some u \<and> can_read u s \<and> si_EvidenceRoot q = evidence_root E (dc_Evidence (vw_Case u)) \<and>
      dn_verify E (settlement_message i q) (si_PublisherSignature q) (dx_PublisherWallet (vw_Context u)) \<and>
      dn_verify E (settlement_message i q) (si_AgentSignature q) (dx_AgentController (vw_Context u))) \<and>
    (\<exists>v. gget (dr_cases r) i = Some v \<and> dc_State (vw_Case v) \<in> {StateFrozen, StateEvidence, StateDecided} \<and>
      gget (dr_cases r') (dc_ID (vw_Case v)) = Some v' \<and> dc_State (vw_Case v') = StateFinal \<and> dc_FinalizedAt (vw_Case v') = Some now \<and>
      dc_Evidence (vw_Case v') = dc_Evidence (vw_Case v) \<and>
      dc_Decisions (vw_Case v') = dc_Decisions (vw_Case v) @
        [new_decision E (vw_Case v) ''settlement'' ''parties'' (si_ReasonCode q) (si_EvidenceRoot q) (si_PublisherBPS q) now])"
proof -
  let ?q = "q\<lparr>si_PublisherSignature := [], si_AgentSignature := [], si_Verified := True\<rparr>"
  from assms have f: "for_case E now s key i (DSettlement ?q) w r = (r', Inr (v', False))"
    and sig: "si_PublisherSignature q \<noteq> si_AgentSignature q"
    and pre: "\<exists>u. gget (dr_cases (rd_First w)) i = Some u \<and> can_read u s \<and> si_EvidenceRoot q = evidence_root E (dc_Evidence (vw_Case u)) \<and>
      dn_verify E (settlement_message i q) (si_PublisherSignature q) (dx_PublisherWallet (vw_Context u)) \<and>
      dn_verify E (settlement_message i q) (si_AgentSignature q) (dx_AgentController (vw_Context u))"
    by (auto simp: svc_settle_def svc_get_def repo_get_def rbind_Inr_iff from_option_def split: if_splits sum.splits option.splits)
  from f obtain u v cmd' c where "gget (dr_cases (rd_Case w)) i = Some u" "can_read u s" and v: "gget (dr_cases r) i = Some v"
    and g: "guard_command (request_of E (se_UserID s) key i (DSettlement ?q)) i (DSettlement ?q) r = Inr cmd'"
    and a: "apply_case E (vw_Context u) (se_UserID s) cmd' now (vw_Case v) = Inr c" and v': "v' = bump (vw_Context u) now v c"
    and st: "gget (dr_cases r') (dc_ID c) = Some v'" by (rule for_case_stored) simp_all
  from guard_command_facts [OF g] have "cmd' = DSettlement ?q" by simp
  with a have d: "apply_settlement E ?q now (vw_Case v) = Inr c" by simp
  then have "dc_State (vw_Case v) \<in> {StateFrozen, StateEvidence, StateDecided}"
    and c: "c = finish_case ((vw_Case v)\<lparr>dc_Decisions := dc_Decisions (vw_Case v) @
      [new_decision E (vw_Case v) ''settlement'' ''parties'' (si_ReasonCode q) (si_EvidenceRoot q) (si_PublisherBPS q) now]\<rparr>) now"
    by (auto simp: apply_settlement_def split: if_splits)
  moreover have "dc_ID c = dc_ID (vw_Case v)" using apply_case_identity [OF a] by (simp add: case_identity_def)
  ultimately show ?thesis
    using pre sig v st v' by (simp add: bump_def finish_case_def)
qed

theorem settlement_needs_both_parties_witness:
  "\<exists>r' v'. svc_settle demo_denv 15 (demo_session ''pub'' ''publisher'') ''k1'' demo_case_digest demo_settlement (reads_at 15 demo_drepo) demo_drepo =
       (r', Inr (v', False)) \<and>
     dc_State (vw_Case v') = StateFinal \<and> dc_FinalizedAt (vw_Case v') = Some 15"
proof -
  have "\<exists>r' v'. svc_settle demo_denv 15 (demo_session ''pub'' ''publisher'') ''k1'' demo_case_digest demo_settlement (reads_at 15 demo_drepo) demo_drepo = (r', Inr (v', False))"
    by (simp add: svc_settle_def demo_session_def party_def has_role_def demo_settlement_def svc_get_def repo_get_def can_read_def
        demo_dview_def for_case_def svc_execute_def execute_def current_case_def guard_command_def assignee_of_def
        dispute_apply_def apply_settlement_def demo_case_def demo_drepo_def demo_drepo0_def new_dispute_repository_def gget_def
        demo_signatures [simplified] demo_denv_def [THEN arg_cong, of dn_verify] from_option_def)
  then obtain r' v' where d: "svc_settle demo_denv 15 (demo_session ''pub'' ''publisher'') ''k1'' demo_case_digest demo_settlement (reads_at 15 demo_drepo) demo_drepo = (r', Inr (v', False))"
    by blast
  from settlement_needs_both_parties [OF d] d show ?thesis by blast
qed

section \<open>A run with evidence between the check and the settlement\<close>

text \<open>An environment whose digest of no evidence differs from every other one.\<close>

definition race_env :: dispute_env where
  "race_env = demo_denv\<lparr>dn_sha := \<lambda>b. replicate 32 (if b = [] then CHR 0x01 else CHR 0x00), dn_json_strings := concat\<rparr>"

definition race_tx :: string where
  "race_tx = ''0x'' @ replicate 64 (CHR ''1'')"

definition race_evidence :: evidence_input where
  "race_evidence = \<lparr>ei_ClaimID = demo_case_digest, ei_Category = ''fees'', ei_ObjectKey = ''o'', ei_CiphertextDigest = demo_case_digest,
     ei_EnvelopeKeyReference = ''kms'', ei_ObjectVersionID = ''1'', ei_RetentionMode = ''COMPLIANCE'', ei_RetainUntil = 25 * hour_ns\<rparr>"

definition race_settlement :: settlement_input where
  "race_settlement = demo_settlement\<lparr>si_EvidenceRoot := evidence_root race_env []\<rparr>"

definition race_calls :: "dispute_call list" where
  "race_calls = [demo_open_call, KSubmitFreeze (demo_session ''pub'' ''publisher'') ''k2'' demo_case_digest \<lparr>zi_TransactionHash = race_tx\<rparr>,
     KReconcileFreeze (demo_session ''pub'' ''publisher'') ''k3'' demo_case_digest \<lparr>zi_TransactionHash = race_tx\<rparr>, KReceipt race_evidence]"

definition race_repo :: dispute_repo where
  "race_repo = fold (\<lambda>call r. dispute_exec race_env 5 call (reads_at 5 r) r) race_calls demo_drepo0"

lemma race_digests [simp]:
  "dispute_digest race_env (a # b # vs) = demo_case_digest"
  "evidence_root race_env [] = sha_string (replicate 32 (CHR 0x01))"
  by (simp_all add: dispute_digest_def demo_case_digest_def race_env_def evidence_root_def)

lemma race_tx_ok [simp]: "tx_pattern race_tx" "race_tx \<noteq> []"
  by (simp_all add: race_tx_def tx_pattern_def hex_pattern_def has_prefix_def list_all_iff is_hex_def char_between_def)


definition race_view1 :: dispute_view where
  "race_view1 = open_view race_env demo_dx (new_claim race_env ''t1'' ''publisher'' ''quality'' ''late'' demo_case_digest 5) 5"

definition race_view2 :: dispute_view where
  "race_view2 = bump demo_dx 5 race_view1 ((vw_Case race_view1)\<lparr>dc_FreezeTransactionHash := race_tx, dc_FreezeSubmittedAt := Some 5\<rparr>)"

definition race_view3 :: dispute_view where
  "race_view3 = (case apply_freeze_confirm race_env demo_dx \<lparr>zi_TransactionHash = race_tx\<rparr> 5 (vw_Case race_view2) of
     Inl _ \<Rightarrow> race_view2 | Inr c \<Rightarrow> bump demo_dx 5 race_view2 c)"

lemma race_keys [simp]: "key_ok ''k3''" "key_ok ''k4''" "key_ok ''k5''"
proof -
  have "\<not> blank ''k3''" "\<not> blank ''k4''" "\<not> blank ''k5''" by (rule not_blank_Cons, simp add: printable_def)+
  then show "key_ok ''k3''" "key_ok ''k4''" "key_ok ''k5''" by (simp_all add: key_ok_def)
qed

lemmas race_exec = demo_session_def party_def has_role_def for_case_def repo_get_def can_read_def svc_execute_request_of execute_def
  current_case_def guard_command_def assignee_of_def dispute_apply_def request_of_def request_key_def

lemma race_opened:
  "dispute_exec race_env 5 demo_open_call (reads_at 5 demo_drepo0) demo_drepo0 =
     store_view (request_of race_env ''pub'' ''k1'' [] (DOpen demo_open_input)) demo_case_digest race_view1 demo_drepo0"
  by (simp add: demo_open_call_def svc_open_def demo_open_input_def get_context_def demo_drepo0_def new_dispute_repository_def demo_dx_def
      side_for_def apply_open_def race_view1_def open_view_def race_exec)

lemma race_view_facts [simp]:
  "vw_Context race_view1 = demo_dx" "vw_Context race_view2 = demo_dx"
  "dc_PublisherID (vw_Case race_view1) = ''pub''" "dc_PublisherID (vw_Case race_view2) = ''pub''"
  "dc_ID (vw_Case race_view1) = demo_case_digest" "dc_ID (vw_Case race_view2) = demo_case_digest"
  "dc_State (vw_Case race_view1) = StateSoftLock" "dc_State (vw_Case race_view2) = StateSoftLock"
  "dc_FreezeTransactionHash (vw_Case race_view2) = race_tx"
  by (simp_all add: race_view1_def race_view2_def open_view_def bump_def demo_dx_def)

lemma race_submitted:
  assumes "gget (dr_cases r) demo_case_digest = Some race_view1" "gget (dr_requests r) ''pub:k2'' = None"
  shows "dispute_exec race_env 5 (KSubmitFreeze (demo_session ''pub'' ''publisher'') ''k2'' demo_case_digest \<lparr>zi_TransactionHash = race_tx\<rparr>) (reads_at 5 r) r =
     store_view (request_of race_env ''pub'' ''k2'' demo_case_digest (DFreezeSubmit \<lparr>zi_TransactionHash = race_tx\<rparr>)) demo_case_digest race_view2 r"
  using assms by (simp add: svc_submit_freeze_def apply_freeze_submit_def race_exec) (simp add: race_view2_def bump_def)

lemma race_frozen:
  assumes "gget (dr_cases r) demo_case_digest = Some race_view2" "gget (dr_requests r) ''pub:k3'' = None"
  shows "dispute_exec race_env 5 (KReconcileFreeze (demo_session ''pub'' ''publisher'') ''k3'' demo_case_digest \<lparr>zi_TransactionHash = race_tx\<rparr>) (reads_at 5 r) r =
     store_view (request_of race_env ''pub'' ''k3'' demo_case_digest (DFreezeConfirm \<lparr>zi_TransactionHash = race_tx\<rparr>)) demo_case_digest race_view3 r"
  using assms by (simp add: svc_reconcile_freeze_def apply_freeze_confirm_def race_exec) (simp add: race_view3_def apply_freeze_confirm_def bump_def)

lemma race_start [simp]: "dr_cases demo_drepo0 = []" "dr_requests demo_drepo0 = []" "dr_receipts demo_drepo0 = []"
  by (simp_all add: demo_drepo0_def new_dispute_repository_def)

lemma race_store [simp]:
  "dr_cases (store_view m i v r) = gput i v (dr_cases r)" "dr_receipts (store_view m i v r) = dr_receipts r"
  "dr_requests (store_view m i v r) = gput (request_key m) \<lparr>dq_hash = mu_RequestHash m, dq_view = v\<rparr> (dr_requests r)"
  by (simp_all add: store_view_def)

lemma race_repo_eq:
  "race_repo = record_evidence_receipt race_evidence (store_view (request_of race_env ''pub'' ''k3'' demo_case_digest (DFreezeConfirm \<lparr>zi_TransactionHash = race_tx\<rparr>)) demo_case_digest race_view3
     (store_view (request_of race_env ''pub'' ''k2'' demo_case_digest (DFreezeSubmit \<lparr>zi_TransactionHash = race_tx\<rparr>)) demo_case_digest race_view2
       (store_view (request_of race_env ''pub'' ''k1'' [] (DOpen demo_open_input)) demo_case_digest race_view1 demo_drepo0)))"
  by (simp add: race_repo_def race_calls_def race_opened race_submitted race_frozen request_key_def request_of_def del: dispute_exec.simps(1-4))

lemma race_repo_facts:
  "gget (dr_cases race_repo) demo_case_digest = Some race_view3" "gget (dr_requests race_repo) ''pub:k4'' = None"
  "gget (dr_requests race_repo) ''pub:k5'' = None" "gget (dr_receipts race_repo) ''o'' = Some race_evidence"
  by (simp_all add: race_repo_eq record_evidence_receipt_def request_key_def request_of_def race_evidence_def)

lemma race_view3_facts:
  "vw_Context race_view3 = demo_dx" "dc_PublisherID (vw_Case race_view3) = ''pub''" "dc_ID (vw_Case race_view3) = demo_case_digest"
  "dc_State (vw_Case race_view3) = StateFrozen" "dc_Evidence (vw_Case race_view3) = []" "dc_EvidenceDeadline (vw_Case race_view3) = 5 + 72 * hour_ns"
  "find_claim (dc_Claims (vw_Case race_view3)) demo_case_digest = Some (new_claim race_env ''t1'' ''publisher'' ''quality'' ''late'' demo_case_digest 5)"
  by (simp_all add: race_view3_def apply_freeze_confirm_def bump_def)
    (simp_all add: race_view2_def race_view1_def bump_def open_view_def zero_case_def find_claim_def new_claim_def demo_dx_def)

lemma race_run: "\<exists>h. disputes_run race_env (race_repo # h)"
proof -
  have step: "\<exists>h. disputes_run race_env (dispute_exec race_env 5 call (reads_at 5 r) r # h)" if "\<exists>h. disputes_run race_env (r # h)" for call r
    using that run_step [OF _ reads_at_from] by blast
  have "separate_contexts race_env (dr_contexts (new_dispute_repository [demo_dx]))"
    by (simp add: separate_contexts_def new_dispute_repository_def gput_def gvals_def)
  then have "\<exists>h. disputes_run race_env (demo_drepo0 # h)" unfolding demo_drepo0_def by (blast intro: run_start)
  then show ?thesis by (simp add: race_repo_def race_calls_def step del: dispute_exec.simps)
qed

lemma race_settles:
  "\<exists>r1 v1. svc_settle race_env 7 (demo_session ''pub'' ''publisher'') ''k4'' demo_case_digest race_settlement (reads_at 7 race_repo) race_repo =
     (r1, Inr (v1, False))"
  by (simp add: svc_settle_def race_settlement_def demo_settlement_def svc_get_def race_repo_facts race_view3_facts
      digest_pattern_sha_string demo_signatures [simplified] race_env_def [THEN arg_cong, of dn_verify] demo_denv_def
      apply_settlement_def race_exec)


lemma race_appends:
  "\<exists>r u. svc_append_evidence race_env 6 (demo_session ''pub'' ''publisher'') ''k5'' demo_case_digest race_evidence (reads_at 6 race_repo) race_repo =
     (r, Inr (u, False))"
proof -
  have "\<not> blank ''o''" "\<not> blank ''kms''" by (rule not_blank_Cons, simp add: printable_def)+
  moreover have "\<not> go_contains (to_lower ''kms'') ''plaintext''" by code_simp
  moreover have "verify_evidence race_evidence race_repo = Inr ()"
    using race_repo_facts(4) by (simp add: verify_evidence_def race_evidence_def)
  ultimately show ?thesis
    by (simp add: svc_append_evidence_def race_repo_facts race_view3_facts apply_evidence_def race_exec)
      (simp add: race_evidence_def required_evidence_def race_view3_facts owns_side_def new_claim_def side_for_def demo_dx_def)
qed

section \<open>Two calls that were between check and Execute\<close>

text \<open>
  C36: Evidence can land between the check of a settlement and its \<open>Execute\<close>. Take a settlement that would succeed
  if nothing interrupted it, and an appended evidence that completes after the settlement's \<open>Get\<close> and before its
  \<open>Execute\<close>. The settlement still succeeds and closes the case: it is recorded with the root of the evidence
  without the new item, although the new item is stored in the case. The parties' signatures cover other evidence
  than the final case holds.
\<close>
theorem settlement_root_can_be_stale:
  assumes "svc_settle E now s key i q (reads_at now r0) r0 = (r1, Inr (v1, False))"
    and "svc_append_evidence E t p key' i e w r0 = (r, Inr (u, False))"
    and "gget (dr_cases r0) i = Some v" "dc_ID (vw_Case v) = i" "se_UserID p @ '':'' @ key' \<noteq> se_UserID s @ '':'' @ key"
  shows "\<exists>r' v'. svc_settle E now s key i q (reads_at now r0) r = (r', Inr (v', False)) \<and>
    gget (dr_cases r') i = Some v' \<and> dc_State (vw_Case v') = StateFinal \<and>
    de_EvidenceRoot (last (dc_Decisions (vw_Case v'))) = evidence_root E (dc_Evidence (vw_Case v)) \<and>
    dc_Evidence (vw_Case v') = dc_Evidence (vw_Case v) @ [new_evidence E (vw_Case v) (se_UserID p) e t]"
proof -
  let ?q = "q\<lparr>si_PublisherSignature := [], si_AgentSignature := [], si_Verified := True\<rparr>"
  let ?m = "request_of E (se_UserID s) key i (DSettlement ?q)"
  have settle: "svc_settle E now s key i q (reads_at now r0) z = for_case E now s key i (DSettlement ?q) (reads_at now r0) z" for z
    using assms(1) by (auto simp: svc_settle_def split: if_splits sum.splits)
  have root: "si_EvidenceRoot q = evidence_root E (dc_Evidence (vw_Case v))"
    using assms(1,3) by (auto simp: svc_settle_def svc_get_def repo_get_def split: if_splits sum.splits)
  from assms(1) have f: "for_case E now s key i (DSettlement ?q) (reads_at now r0) r0 = (r1, Inr (v1, False))" by (simp add: settle)
  then have read: "can_read v s" using assms(3) by (auto simp: for_case_def repo_get_def split: if_splits)
  from for_case_stores [OF f] have i: "i \<noteq> []" and new: "gget (dr_requests r0) (request_key ?m) = None" by simp_all
  from assms(2) have g: "for_case E t p key' i (DEvidence e) w r0 = (r, Inr (u, False))"
    by (auto simp: svc_append_evidence_def split: if_splits sum.splits)
  from for_case_stores [OF g]
  have r: "r = store_view (request_of E (se_UserID p) key' i (DEvidence e)) (dc_ID (vw_Case u)) u r0" by simp
  from g obtain a b cmd' c where "gget (dr_cases (rd_Case w)) i = Some a" "can_read a p" and b: "gget (dr_cases r0) i = Some b"
    and gc: "guard_command (request_of E (se_UserID p) key' i (DEvidence e)) i (DEvidence e) r0 = Inr cmd'"
    and ap: "apply_case E (vw_Context a) (se_UserID p) cmd' t (vw_Case b) = Inr c" and u: "u = bump (vw_Context a) t b c"
    and "gget (dr_cases r) (dc_ID c) = Some u" by (rule for_case_stored) simp_all
  have "b = v" using b assms(3) by simp
  moreover have "cmd' = DEvidence e" using guard_command_facts [OF gc] by simp
  ultimately have "dc_State c = StateEvidence \<and> dc_ID c = i \<and> dc_Evidence c = dc_Evidence (vw_Case v) @ [new_evidence E (vw_Case v) (se_UserID p) e t]"
    using ap assms(4) by (auto simp: apply_evidence_def split: if_splits option.splits)
  then have u': "dc_State (vw_Case u) = StateEvidence" "dc_ID (vw_Case u) = i"
      "dc_Evidence (vw_Case u) = dc_Evidence (vw_Case v) @ [new_evidence E (vw_Case v) (se_UserID p) e t]"
    by (simp_all add: u bump_def)
  have "gget (dr_requests r) (request_key ?m) = None" using new assms(5) by (simp add: r store_view_def request_key_def request_of_def)
  moreover have "gget (dr_cases r) i = Some u" using u'(2) by (simp add: r store_view_def)
  ultimately show ?thesis
    using read u' i assms(3) root
    by (simp add: settle for_case_def repo_get_def svc_execute_request_of execute_def current_case_def guard_command_def assignee_of_def
        dispute_apply_def apply_settlement_def finish_case_def store_view_def new_decision_def)
qed


theorem settlement_root_can_be_stale_witness:
  "(\<exists>h. disputes_run race_env (race_repo # h)) \<and>
   (\<exists>r u r' v'. svc_append_evidence race_env 6 (demo_session ''pub'' ''publisher'') ''k5'' demo_case_digest race_evidence (reads_at 6 race_repo) race_repo = (r, Inr (u, False)) \<and>
     svc_settle race_env 7 (demo_session ''pub'' ''publisher'') ''k4'' demo_case_digest race_settlement (reads_at 7 race_repo) r = (r', Inr (v', False)) \<and>
     dc_State (vw_Case v') = StateFinal \<and> length (dc_Evidence (vw_Case v')) = 1 \<and>
     de_EvidenceRoot (last (dc_Decisions (vw_Case v'))) \<noteq> evidence_root race_env (dc_Evidence (vw_Case v')))"
proof -
  obtain r1 v1 where s: "svc_settle race_env 7 (demo_session ''pub'' ''publisher'') ''k4'' demo_case_digest race_settlement (reads_at 7 race_repo) race_repo = (r1, Inr (v1, False))"
    using race_settles by blast
  obtain r u where e: "svc_append_evidence race_env 6 (demo_session ''pub'' ''publisher'') ''k5'' demo_case_digest race_evidence (reads_at 6 race_repo) race_repo = (r, Inr (u, False))"
    using race_appends by blast
  have k: "se_UserID (demo_session ''pub'' ''publisher'') @ '':'' @ ''k5'' \<noteq> se_UserID (demo_session ''pub'' ''publisher'') @ '':'' @ ''k4''"
    by (simp add: demo_session_def)
  have root: "evidence_root race_env [new_evidence race_env c a race_evidence t] \<noteq> evidence_root race_env []" for c a t
    unfolding evidence_root_def sha_string_inject
    by (simp add: race_env_def new_evidence_def race_evidence_def demo_case_digest_def sha_string_def)
  from settlement_root_can_be_stale [OF s e race_repo_facts(1) race_view3_facts(3) k] e root race_run show ?thesis
    by (fastforce simp: race_view3_facts)
qed

text \<open>
  C40: A decision reopens a closed case. The decision command does not look at the state: when the parties
  settled a case within the decision window, the initial arbitrator's later decision succeeds on the final
  case, sets it back to decided, although it stays marked as finalised, and the award that counts can then change.
\<close>
theorem decision_reopens_settled:
  assumes "apply_settlement E q now c = Inr c'" "assigned (dc_Assignments c) ''initial'' actor" "complete_evidence (dc_Evidence c)"
    and "dc_EvidenceDeadline c \<le> now'" "now' \<le> dc_DecisionDeadline c" "award_tier (di_PublisherBPS d)"
  shows "dc_State c' = StateFinal \<and> (\<exists>c''. apply_decision E actor d now' c' = Inr c'' \<and> dc_State c'' = StateDecided \<and>
    dc_FinalizedAt c'' = Some now \<and> \<not> dc_ReputationPending c'')"
proof -
  from assms(1) have "dc_State c' = StateFinal" "dc_FinalizedAt c' = Some now" "\<not> dc_ReputationPending c'"
    "dc_Assignments c' = dc_Assignments c" "dc_Evidence c' = dc_Evidence c"
    "dc_EvidenceDeadline c' = dc_EvidenceDeadline c" "dc_DecisionDeadline c' = dc_DecisionDeadline c"
    by (auto simp: apply_settlement_def finish_case_def split: if_splits)
  with assms(2-6) show ?thesis by (simp add: apply_decision_def)
qed

theorem decision_reopens_settled_witness:
  "\<exists>c' c''. apply_settlement demo_denv (demo_settlement\<lparr>si_Verified := True\<rparr>) 8 demo_case = Inr c' \<and> dc_State c' = StateFinal \<and>
     apply_decision demo_denv ''arb'' demo_decision_input 15 c' = Inr c'' \<and> dc_State c'' = StateDecided"
proof -
  obtain c' where c': "apply_settlement demo_denv (demo_settlement\<lparr>si_Verified := True\<rparr>) 8 demo_case = Inr c'"
    by (simp add: apply_settlement_def demo_case_def)
  have a: "assigned (dc_Assignments demo_case) ''initial'' ''arb''" "dc_EvidenceDeadline demo_case \<le> 15" "15 \<le> dc_DecisionDeadline demo_case"
    "award_tier (di_PublisherBPS demo_decision_input)"
    by (simp_all add: demo_case_def assigned_def award_tier_def demo_decision_input_def)
  from decision_reopens_settled [OF c' a(1) demo_complete a(2-4)] c' show ?thesis by blast
qed

section \<open>Requests\<close>

text \<open>
  A request takes effect once. After a request succeeded, the same request (actor, key, case and
  command) is answered with the very same view and changes nothing, whatever calls and records came in
  between.
\<close>
theorem dispute_request_once:
  assumes "svc_execute E now actor key x i cmd r = (r', Inr (v, False))" "(dispute_env_step E)\<^sup>*\<^sup>* r' r''"
  shows "svc_execute E now' actor key x i cmd r'' = (r'', Inr (v, True))"
  using dispute_replay.retry_exact [of E now "(actor, key, x, i, cmd)" r r' v r'' now'] assms by (simp add: run_job_def)

theorem dispute_request_once_witness:
  "\<exists>r' v. svc_execute demo_denv 5 ''pub'' ''k1'' demo_dx [] (DOpen demo_open_input) demo_drepo0 = (r', Inr (v, False)) \<and>
     svc_execute demo_denv 9 ''pub'' ''k1'' demo_dx [] (DOpen demo_open_input) (declare_conflict demo_case_digest ''arb'' r') =
       (declare_conflict demo_case_digest ''arb'' r', Inr (v, True))"
proof -
  have "\<exists>r' v. svc_execute demo_denv 5 ''pub'' ''k1'' demo_dx [] (DOpen demo_open_input) demo_drepo0 = (r', Inr (v, False))"
    by (simp add: svc_execute_def execute_def demo_drepo0_def new_dispute_repository_def current_case_def guard_command_def
        assignee_of_def dispute_apply_def apply_open_def side_for_def demo_dx_def)
  then obtain r' v where e: "svc_execute demo_denv 5 ''pub'' ''k1'' demo_dx [] (DOpen demo_open_input) demo_drepo0 = (r', Inr (v, False))" by blast
  have "dispute_env_step demo_denv r' (dispute_exec demo_denv 7 (KDeclareConflict demo_case_digest ''arb'') (reads_at 7 r') r')"
    unfolding dispute_env_step_def by blast
  then have "(dispute_env_step demo_denv)\<^sup>*\<^sup>* r' (declare_conflict demo_case_digest ''arb'' r')" by (simp add: r_into_rtranclp)
  from dispute_request_once [OF e this, where now' = 9] e show ?thesis by blast
qed

text \<open>The session and the case a call names.\<close>

fun call_case :: "dispute_call \<Rightarrow> (session \<times> string) option" where
  "call_case (KClaim s k i q) = Some (s, i)"
| "call_case (KSubmitFreeze s k i q) = Some (s, i)"
| "call_case (KReconcileFreeze s k i q) = Some (s, i)"
| "call_case (KEvidence s k i q) = Some (s, i)"
| "call_case (KAssign s k i q) = Some (s, i)"
| "call_case (KDecide s k i q) = Some (s, i)"
| "call_case (KSettle s k i q) = Some (s, i)"
| "call_case (KReview s k i q) = Some (s, i)"
| "call_case (KFinalize s k i) = Some (s, i)"
| "call_case (KAccess s k i q) = Some (s, i)"
| "call_case _ = None"

lemma for_case_outsider:
  "gget (dr_cases (rd_Case w)) i = Some v \<Longrightarrow> \<not> can_read v s \<Longrightarrow> for_case E now s key i cmd w r = (r, Inl DErrForbidden)"
  by (simp add: for_case_def repo_get_def)

text \<open>
  An outsider is turned away. A call on a case by a session that, when the call reads the case, is neither a party
  of it, nor an administrator, nor an arbitrator assigned to it, changes nothing but the count of denied accesses; and
  a listing shows a session only the cases it may read.
\<close>
theorem outsiders_turned_away:
  assumes "call_case call = Some (s, i)" "gget (dr_cases (rd_Case w)) i = Some v" "\<not> can_read v s"
  shows "dispute_exec E now call w r = r\<lparr>dr_accessDenials := dr_accessDenials (dispute_exec E now call w r)\<rparr> \<and>
    (svc_list s (rd_Case w) = Inr vs \<longrightarrow> v \<notin> set vs)"
proof -
  have "dispute_exec E now call w r = r \<or> dispute_exec E now call w r = audit_access_denial r"
    using assms
    by (cases call) (auto simp: svc_add_claim_def svc_submit_freeze_def svc_reconcile_freeze_def svc_append_evidence_def svc_assign_def
        svc_decide_def svc_settle_def svc_review_def svc_finalize_def svc_grant_access_def for_case_outsider repo_get_def
        split: sum.splits)
  moreover have "r = r\<lparr>dr_accessDenials := dr_accessDenials r\<rparr>" by simp
  ultimately show ?thesis using assms(3) by (auto simp: audit_access_denial_def svc_list_def split: if_splits)
qed

theorem outsiders_turned_away_witness:
  "\<not> can_read demo_dview (demo_session ''eve'' ''publisher'') \<and>
   dr_cases (dispute_exec demo_denv 9 (KFinalize (demo_session ''eve'' ''publisher'') ''k1'' demo_case_digest) (reads_at 9 demo_drepo) demo_drepo) = dr_cases demo_drepo"
proof -
  have n: "\<not> can_read demo_dview (demo_session ''eve'' ''publisher'')"
    by (simp add: can_read_def demo_dview_def demo_case_def zero_case_def demo_session_def has_role_def)
  have "call_case (KFinalize (demo_session ''eve'' ''publisher'') ''k1'' demo_case_digest) = Some (demo_session ''eve'' ''publisher'', demo_case_digest)" by simp
  moreover have "gget (dr_cases (rd_Case (reads_at 9 demo_drepo))) demo_case_digest = Some demo_dview" by simp
  ultimately show ?thesis using outsiders_turned_away [where E = demo_denv and now = 9 and r = demo_drepo] n
    by (metis (no_types, lifting) dispute_repo.select_convs(2) dispute_repo.surjective dispute_repo.update_convs(7))
qed

end
