(* ===== verification/Execution_Protocol.thy ===== *)
theory Execution_Protocol
  imports Execution_Types
begin

text \<open>
  The protocol of the execution package (\<open>internal/execution/protocol.go\<close>): validation of a
  specification, the envelope sent to the agent, and the signed callback.

  The environment record holds what the package calls and does not define: SHA-256 and HMAC-SHA-256
  (the key, then the message), \<open>url.Parse\<close> and \<open>url.JoinPath\<close> (\<open>None\<close> for an error), the JSON text
  of a callback and of an observation (\<open>None\<close> for an error), and the provider of callback keys.
\<close>

record url_parts =
  ur_Scheme :: string
  ur_Host :: string
  ur_User :: bool
  ur_RawQuery :: string
  ur_Fragment :: string
  ur_Path :: string

record exec_env =
  xe_sha :: "string \<Rightarrow> string"
  xe_hmac :: "string \<Rightarrow> string \<Rightarrow> string"
  xe_url :: "string \<Rightarrow> url_parts option"
  xe_join :: "string \<Rightarrow> string list \<Rightarrow> string option"
  xe_json_callback :: "callback \<Rightarrow> string option"
  xe_json_observation :: "observation \<Rightarrow> string option"
  xe_key :: "string \<Rightarrow> string \<Rightarrow> string option"

section \<open>Amounts and lists\<close>

definition exec_invalid_money :: "string \<Rightarrow> bool" where
  "exec_invalid_money v =
     (if v = [] \<or> length v > 78 \<or> v \<noteq> ''0'' \<and> has_prefix v ''0'' then True
      else if \<not> list_all is_digit v then True
      else bigint_parse v = None)"

lemma exec_invalid_money [simp]: "exec_invalid_money v \<longleftrightarrow> \<not> valid_money v"
  by (auto simp: exec_invalid_money_def valid_money_def)

text \<open>\<open>hasBlankOrDuplicate\<close> sorts a copy and compares neighbours.\<close>

fun blank_or_repeated :: "string option \<Rightarrow> string list \<Rightarrow> bool" where
  "blank_or_repeated previous [] = False"
| "blank_or_repeated previous (v # vs) = (blank v \<or> previous = Some v \<or> blank_or_repeated (Some v) vs)"

definition has_blank_or_duplicate :: "string list \<Rightarrow> bool" where
  "has_blank_or_duplicate values = blank_or_repeated None (sort_func strcmp values)"

interpretation strings: comparator strcmp
  by unfold_locales auto

lemma blank_or_repeated_sorted:
  assumes "sorted_wrt (\<lambda>x y. strcmp x y \<le> 0) vs" "case p of None \<Rightarrow> True | Some x \<Rightarrow> \<forall>v \<in> set vs. strcmp x v \<le> 0"
  shows "blank_or_repeated p vs \<longleftrightarrow> (\<exists>v \<in> set vs. blank v) \<or> \<not> distinct vs \<or> (\<exists>x. p = Some x \<and> x \<in> set vs)"
  using assms
proof (induction vs arbitrary: p)
  case (Cons v vs)
  then have "blank_or_repeated (Some v) vs \<longleftrightarrow> (\<exists>v \<in> set vs. blank v) \<or> \<not> distinct vs \<or> v \<in> set vs" by simp
  moreover have "x = v" if "p = Some x" "x \<in> set vs" for x using Cons.prems that by auto
  ultimately show ?case by auto
qed simp

lemma has_blank_or_duplicate_iff: "has_blank_or_duplicate vs \<longleftrightarrow> (\<exists>v \<in> set vs. blank v) \<or> \<not> distinct vs"
  using blank_or_repeated_sorted [OF strings.sorted_sort_func [of vs], of None] by (simp add: has_blank_or_duplicate_def)

section \<open>ValidateSpec\<close>

definition invalid_endpoint :: "exec_env \<Rightarrow> string \<Rightarrow> bool" where
  "invalid_endpoint E raw =
     (case xe_url E raw of
        None \<Rightarrow> True
      | Some u \<Rightarrow> ur_Scheme u \<noteq> ''https'' \<or> ur_Host u = [] \<or> ur_User u \<or> ur_RawQuery u \<noteq> [] \<or> ur_Fragment u \<noteq> [] \<or>
          ur_Path u \<noteq> [] \<and> ur_Path u \<noteq> ''/'')"

definition validate_overview :: "spec \<Rightarrow> exec_error + unit" where
  "validate_overview s =
     (case sp_Overview s of
        None \<Rightarrow> Inl XErrInvalidInput
      | Some b \<Rightarrow>
          if sp_Formal s \<noteq> None \<or> tp_Mode (sp_ToolPolicy s) \<noteq> ToolPolicyReadOnly \<or> ob_MatchRevision b < 1 \<or>
             blank (ob_AllocationID b) \<or> \<not> valid_digest (ob_QuoteHash b)
          then Inl XErrInvalidInput else Inr ())"

definition validate_formal :: "spec \<Rightarrow> exec_error + unit" where
  "validate_formal s =
     (case sp_Formal s of
        None \<Rightarrow> Inl XErrInvalidInput
      | Some b \<Rightarrow>
          if sp_Overview s \<noteq> None \<or> blank (fb_AssignmentID b) \<or> blank (fb_Package b) \<or> fb_Version b < 1 \<or>
             fb_AggregateVersion b < 1 \<or> fb_WorkNonce b < 1
          then Inl XErrInvalidInput
          else if fb_ChangeOrderID b \<noteq> [] \<and>
             (\<not> valid_digest (fb_ChangeOrderID b) \<or> \<not> valid_digest (fb_ScopeSpecHash b) \<or>
              fb_Responsibility b \<notin> {''publisher'', ''agent'', ''platform''})
          then Inl XErrInvalidInput else Inr ())"

definition validate_spec :: "exec_env \<Rightarrow> spec \<Rightarrow> gotime \<Rightarrow> exec_error + unit" where
  "validate_spec E s now =
     (if blank (sp_LogicalExecutionID s) \<or> blank (sp_TaskID s) \<or> \<not> valid_digest (sp_TaskSpecHash s) \<or> blank (sp_InputRef s) \<or>
         \<not> valid_digest (sp_InputHash s) \<or> blank (sp_AgentID s) \<or> blank (sp_ResponsibilityCode s) \<or> blank (sp_IdempotencyKey s)
      then Inl XErrInvalidInput
      else if invalid_endpoint E (sp_AgentEndpoint s) then Inl XErrInvalidInput
      else if exec_invalid_money (sp_CostCap s) \<or> \<not> sp_Deadline s > now \<or> length (sp_IdempotencyKey s) > 200
      then Inl XErrInvalidInput
      else if tp_Mode (sp_ToolPolicy s) \<noteq> ToolPolicyReadOnly \<and> tp_Mode (sp_ToolPolicy s) \<noteq> ToolPolicyScoped
      then Inl XErrInvalidInput
      else if length (tp_AllowedTools (sp_ToolPolicy s)) > 50 \<or> has_blank_or_duplicate (tp_AllowedTools (sp_ToolPolicy s))
      then Inl XErrInvalidInput
      else if sp_Stage s = StageOverview then validate_overview s
      else if sp_Stage s = StageFormal then validate_formal s
      else Inl XErrInvalidInput)"

section \<open>BuildEnvelope\<close>

definition build_envelope :: "exec_env \<Rightarrow> execution \<Rightarrow> attempt \<Rightarrow> string \<Rightarrow> string \<Rightarrow> string \<Rightarrow> exec_error + envelope" where
  "build_envelope E x a operation callbackURL callbackNonce =
     (if at_LogicalExecutionID a \<noteq> sp_LogicalExecutionID (ex_Spec x) \<or> at_FencingToken a < 1 \<or> at_AttemptID a = [] \<or> callbackNonce = []
      then Inl XErrInvalidInput
      else case xe_url E callbackURL of
        None \<Rightarrow> Inl XErrInvalidInput
      | Some u \<Rightarrow>
          if ur_Scheme u \<noteq> ''https'' \<or> ur_Host u = [] \<or> ur_User u \<or> ur_Fragment u \<noteq> [] then Inl XErrInvalidInput
          else if operation \<noteq> ''create'' \<and> operation \<noteq> ''status'' \<and> operation \<noteq> ''cancel'' \<and> operation \<noteq> ''deliverable''
          then Inl XErrInvalidInput
          else let s = ex_Spec x in
            Inr \<lparr>nv_ProtocolVersion = ProtocolVersion, nv_Operation = operation, nv_Stage = sp_Stage s,
              nv_LogicalExecutionID = sp_LogicalExecutionID s, nv_AttemptID = at_AttemptID a, nv_AgentID = sp_AgentID s,
              nv_TaskID = sp_TaskID s, nv_TaskSpecHash = sp_TaskSpecHash s, nv_InputRef = sp_InputRef s, nv_InputHash = sp_InputHash s,
              nv_ResponsibilityCode = sp_ResponsibilityCode s, nv_CostCap = sp_CostCap s, nv_ToolPolicy = sp_ToolPolicy s,
              nv_Deadline = sp_Deadline s, nv_IdempotencyKey = sp_IdempotencyKey s, nv_CallbackURL = callbackURL,
              nv_CallbackNonce = callbackNonce, nv_FencingToken = at_FencingToken a, nv_Overview = sp_Overview s, nv_Formal = sp_Formal s\<rparr>)"

lemma build_envelope_unfenced: "at_FencingToken a < 1 \<Longrightarrow> build_envelope E x a operation url nonce = Inl XErrInvalidInput"
  by (simp add: build_envelope_def)

section \<open>Callbacks\<close>

definition validate_callback :: "callback \<Rightarrow> gotime \<Rightarrow> duration \<Rightarrow> exec_error + unit" where
  "validate_callback c now maxSkew =
     (if cb_ProtocolVersion c \<noteq> ProtocolVersion \<or> blank (cb_LogicalExecutionID c) \<or> blank (cb_AttemptID c) \<or> blank (cb_AgentID c) \<or>
         cb_FencingToken c < 1 \<or> cb_Nonce c = [] \<or> length (cb_Nonce c) > 256 \<or> cb_KeyVersion c = [] \<or> length (cb_KeyVersion c) > 128 \<or>
         exec_invalid_money (cb_UsedCost c)
      then Inl XErrInvalidCallback
      else if cb_Timestamp c < now - maxSkew \<or> cb_Timestamp c > now + maxSkew then Inl XErrInvalidCallback
      else if cb_Status c \<noteq> CallbackSucceeded \<and> cb_Status c \<noteq> CallbackFailed then Inl XErrInvalidCallback
      else if cb_Status c = CallbackSucceeded \<and> (\<not> valid_digest (cb_ContentHash c) \<or> blank (cb_DeliverableRef c))
      then Inl XErrInvalidCallback
      else if cb_Status c \<noteq> CallbackSucceeded \<and> (cb_ContentHash c \<noteq> [] \<or> cb_DeliverableRef c \<noteq> []) then Inl XErrInvalidCallback
      else Inr ())"

definition callback_payload :: "exec_env \<Rightarrow> callback \<Rightarrow> exec_error + string" where
  "callback_payload E c = from_option (XErrRemote ''json'') (xe_json_callback E c)"

definition signature_prefix :: string where
  "signature_prefix = ''hmac-sha256=''"

definition decode_signature :: "string \<Rightarrow> exec_error + string" where
  "decode_signature value =
     (if \<not> has_prefix value signature_prefix then Inl XErrInvalidCallback
      else case hex_decode (drop (length signature_prefix) value) of
        None \<Rightarrow> Inl XErrInvalidCallback
      | Some decoded \<Rightarrow> if length decoded \<noteq> 32 then Inl XErrInvalidCallback else Inr decoded)"

definition new_callback_verifier :: "duration \<Rightarrow> exec_error + duration" where
  "new_callback_verifier maxSkew = (if maxSkew \<le> 0 \<or> maxSkew > 15 * minute_ns then Inl XErrInvalidInput else Inr maxSkew)"

definition verify_callback :: "exec_env \<Rightarrow> duration \<Rightarrow> gotime \<Rightarrow> callback \<Rightarrow> string \<Rightarrow> exec_error + verified_callback" where
  "verify_callback E maxSkew now c signature =
     rbind (validate_callback c now maxSkew) (\<lambda>_.
       case xe_key E (cb_AgentID c) (cb_KeyVersion c) of
         None \<Rightarrow> Inl XErrInvalidCallback
       | Some key \<Rightarrow>
           if length key < 32 then Inl XErrInvalidCallback
           else case callback_payload E c of
             Inl _ \<Rightarrow> Inl XErrInvalidCallback
           | Inr payload \<Rightarrow>
               (case decode_signature signature of
                  Inl _ \<Rightarrow> Inl XErrInvalidCallback
                | Inr provided \<Rightarrow>
                    if provided \<noteq> xe_hmac E key payload then Inl XErrInvalidCallback
                    else Inr \<lparr>vc_Callback = c, vc_NonceHash = sha_string (xe_sha E (cb_Nonce c)),
                           vc_PayloadHash = sha_string (xe_sha E payload)\<rparr>))"

definition sign_callback :: "exec_env \<Rightarrow> callback \<Rightarrow> string \<Rightarrow> exec_error + string" where
  "sign_callback E c key =
     (if length key < 32 then Inl XErrInvalidInput
      else rbind (callback_payload E c) (\<lambda>payload. Inr (signature_prefix @ hex_encode (xe_hmac E key payload))))"

definition hash_value :: "exec_env \<Rightarrow> string \<Rightarrow> string" where
  "hash_value E v = sha_string (xe_sha E v)"

lemma decode_signature_iff:
  "decode_signature s = Inr d \<longleftrightarrow> (\<exists>h. s = signature_prefix @ h \<and> hex_decode h = Some d) \<and> length d = 32"
proof -
  have "has_prefix s signature_prefix \<longleftrightarrow> (\<exists>h. s = signature_prefix @ h)"
    by (metis append_eq_conv_conj append_take_drop_id has_prefix_def)
  then show ?thesis by (auto simp: decode_signature_def split: option.splits)
qed

lemma decode_signature_sign: "length d = 32 \<Longrightarrow> decode_signature (signature_prefix @ hex_encode d) = Inr d"
  by (simp add: decode_signature_iff)

text \<open>What \<open>Verify\<close> accepts.\<close>

lemma verify_callback_iff:
  "verify_callback E maxSkew now c signature = Inr v \<longleftrightarrow>
     (\<exists>key payload h. validate_callback c now maxSkew = Inr () \<and> xe_key E (cb_AgentID c) (cb_KeyVersion c) = Some key \<and> 32 \<le> length key \<and>
        xe_json_callback E c = Some payload \<and> signature = signature_prefix @ h \<and> hex_decode h = Some (xe_hmac E key payload) \<and>
        length (xe_hmac E key payload) = 32 \<and>
        v = \<lparr>vc_Callback = c, vc_NonceHash = hash_value E (cb_Nonce c), vc_PayloadHash = hash_value E payload\<rparr>)"
proof -
  have s: "(case decode_signature signature of Inl _ \<Rightarrow> Inl XErrInvalidCallback
       | Inr provided \<Rightarrow> if provided \<noteq> d then Inl XErrInvalidCallback else Inr w) = Inr v \<longleftrightarrow> decode_signature signature = Inr d \<and> v = w" for d w
    by (auto split: sum.splits)
  show ?thesis
    unfolding verify_callback_def rbind_Inr_iff
    by (auto simp: s callback_payload_def from_option_def hash_value_def decode_signature_iff split: option.splits if_splits)
qed

lemma validate_callback_facts:
  "validate_callback c now maxSkew = Inr () \<Longrightarrow> valid_money (cb_UsedCost c) \<and> 1 \<le> cb_FencingToken c \<and>
     (cb_Status c = CallbackSucceeded \<and> valid_digest (cb_ContentHash c) \<and> \<not> blank (cb_DeliverableRef c) \<or>
      cb_Status c = CallbackFailed \<and> cb_ContentHash c = [] \<and> cb_DeliverableRef c = [])"
  by (auto simp: validate_callback_def split: if_splits)

lemma verify_callback_facts:
  "verify_callback E maxSkew now c signature = Inr v \<Longrightarrow> vc_Callback v = c \<and> vc_NonceHash v = hash_value E (cb_Nonce c) \<and>
     validate_callback c now maxSkew = Inr ()"
  by (auto simp: verify_callback_iff)

lemma validate_spec_facts:
  "validate_spec E s now = Inr () \<Longrightarrow> valid_money (sp_CostCap s) \<and> now < sp_Deadline s \<and> \<not> blank (sp_LogicalExecutionID s) \<and>
     \<not> invalid_endpoint E (sp_AgentEndpoint s) \<and> distinct (tp_AllowedTools (sp_ToolPolicy s)) \<and>
     (sp_Stage s = StageOverview \<and> validate_overview s = Inr () \<or> sp_Stage s = StageFormal \<and> validate_formal s = Inr ())"
  by (auto simp: validate_spec_def has_blank_or_duplicate_iff split: if_splits)

end
