(* ===== verification/Execution_Memory.thy ===== *)
theory Execution_Memory
  imports Execution_Protocol
begin

text \<open>
  The memory repository of the execution package (\<open>internal/execution/memory.go\<close>). The mutex makes
  every method atomic: a method is a function from the clock, its arguments and the repository to the
  repository and its results. On an error the repository is the one the code leaves behind.
\<close>

record callback_record =
  kr_payloadHash :: string
  kr_result :: callback_result

record reconciliation_record =
  nr_payloadHash :: string
  nr_result :: reconciliation_result

record exec_repo =
  er_executions :: "(string, execution) gomap"
  er_attempts :: "(string, attempt list) gomap"
  er_idempotency :: "(string, string) gomap"
  er_callbacks :: "(string, callback_record) gomap"
  er_reconciled :: "(string, reconciliation_record) gomap"

definition new_exec_repository :: exec_repo where
  "new_exec_repository = \<lparr>er_executions = [], er_attempts = [], er_idempotency = [], er_callbacks = [], er_reconciled = []\<rparr>"

text \<open>Reading the attempts of an unknown execution gives the nil slice.\<close>

definition attempts_of :: "exec_repo \<Rightarrow> string \<Rightarrow> attempt list" where
  "attempts_of r i = (case gget (er_attempts r) i of None \<Rightarrow> [] | Some items \<Rightarrow> items)"

definition put_execution :: "string \<Rightarrow> execution \<Rightarrow> exec_repo \<Rightarrow> exec_repo" where
  "put_execution i x r = r\<lparr>er_executions := gput i x (er_executions r)\<rparr>"

definition put_attempts :: "string \<Rightarrow> attempt list \<Rightarrow> exec_repo \<Rightarrow> exec_repo" where
  "put_attempts i items r = r\<lparr>er_attempts := gput i items (er_attempts r)\<rparr>"

lemma put_execution_simps [simp]:
  "er_executions (put_execution i x r) = gput i x (er_executions r)"
  "er_attempts (put_execution i x r) = er_attempts r"
  "er_idempotency (put_execution i x r) = er_idempotency r"
  "er_callbacks (put_execution i x r) = er_callbacks r"
  "er_reconciled (put_execution i x r) = er_reconciled r"
  "attempts_of (put_execution i x r) j = attempts_of r j"
  by (simp_all add: put_execution_def attempts_of_def)

lemma put_attempts_simps [simp]:
  "er_executions (put_attempts i items r) = er_executions r"
  "er_attempts (put_attempts i items r) = gput i items (er_attempts r)"
  "er_idempotency (put_attempts i items r) = er_idempotency r"
  "er_callbacks (put_attempts i items r) = er_callbacks r"
  "er_reconciled (put_attempts i items r) = er_reconciled r"
  "attempts_of (put_attempts i items r) j = (if j = i then items else attempts_of r j)"
  by (simp_all add: put_attempts_def attempts_of_def)

section \<open>Executions\<close>

definition get_or_create :: "gotime \<Rightarrow> spec \<Rightarrow> exec_repo \<Rightarrow> exec_repo \<times> (exec_error + execution \<times> bool)" where
  "get_or_create now s r =
     (if (case gget (er_idempotency r) (sp_IdempotencyKey s) of None \<Rightarrow> False | Some existingID \<Rightarrow> existingID \<noteq> sp_LogicalExecutionID s)
      then (r, Inl XErrContentConflict)
      else case gget (er_executions r) (sp_LogicalExecutionID s) of
        Some existing \<Rightarrow> if ex_Spec existing \<noteq> s then (r, Inl XErrContentConflict) else (r, Inr (existing, True))
      | None \<Rightarrow>
          let created = \<lparr>ex_Spec = s, ex_Status = ExecutionPending, ex_CurrentAttempt = 0, ex_UsedCost = ''0'', ex_ContentHash = [],
                ex_DeliverableRef = [], ex_CreatedAt = now, ex_UpdatedAt = now, ex_CancelledAt = None\<rparr>
          in ((put_execution (sp_LogicalExecutionID s) created r)
                \<lparr>er_idempotency := gput (sp_IdempotencyKey s) (sp_LogicalExecutionID s) (er_idempotency r)\<rparr>,
              Inr (created, False)))"

definition get_execution :: "string \<Rightarrow> exec_repo \<Rightarrow> exec_error + execution" where
  "get_execution i r = from_option XErrNotFound (gget (er_executions r) i)"

definition current_attempt :: "string \<Rightarrow> exec_repo \<Rightarrow> exec_error + attempt" where
  "current_attempt i r = (if attempts_of r i = [] then Inl XErrNotFound else Inr (last (attempts_of r i)))"

section \<open>Attempts\<close>

definition attempt_id :: "string \<Rightarrow> nat \<Rightarrow> string" where
  "attempt_id i n = i @ '':attempt:'' @ nat_string n"

definition new_attempt :: "string \<Rightarrow> nat \<Rightarrow> gotime \<Rightarrow> attempt" where
  "new_attempt i n now = zero_attempt\<lparr>at_LogicalExecutionID := i, at_Number := int n, at_AttemptID := attempt_id i n,
     at_ReservationID := attempt_id i n, at_Status := AttemptPrepared, at_CreatedAt := now, at_UpdatedAt := now\<rparr>"

text \<open>An active last attempt whose lease is over is marked as expired.\<close>

definition expire_last :: "gotime \<Rightarrow> attempt list \<Rightarrow> attempt list" where
  "expire_last now items =
     (if items \<noteq> [] \<and> at_Status (last items) = AttemptActive \<and> \<not> at_LeaseExpiresAt (last items) > now
      then items[length items - 1 := (last items)\<lparr>at_Status := AttemptExpired, at_TerminalAt := Some now, at_UpdatedAt := now\<rparr>]
      else items)"

definition prepare_attempt :: "gotime \<Rightarrow> string \<Rightarrow> exec_repo \<Rightarrow> exec_repo \<times> (exec_error + execution \<times> attempt \<times> bool)" where
  "prepare_attempt now i r =
     (case gget (er_executions r) i of
        None \<Rightarrow> (r, Inl XErrNotFound)
      | Some x \<Rightarrow>
          if ex_Status x \<in> {ExecutionSucceeded, ExecutionCancelled, ExecutionCancelRequested, ExecutionCostStopped}
          then (r, Inl XErrInvalidState)
          else
            let items = attempts_of r i in
            if items \<noteq> [] \<and> (at_Status (last items) = AttemptPrepared \<or>
                at_Status (last items) = AttemptActive \<and> at_LeaseExpiresAt (last items) > now)
            then (r, Inr (x, last items, True))
            else
              let items' = expire_last now items;
                  n = length items + 1;
                  a = new_attempt i n now;
                  x' = x\<lparr>ex_Status := ExecutionPending, ex_CurrentAttempt := int n, ex_UpdatedAt := now\<rparr>
              in (put_execution i x' (put_attempts i (items' @ [a]) r), Inr (x', a, False)))"

definition locked_attempt :: "string \<Rightarrow> int \<Rightarrow> exec_repo \<Rightarrow> exec_error + execution \<times> attempt" where
  "locked_attempt i n r =
     (case gget (er_executions r) i of
        None \<Rightarrow> Inl XErrNotFound
      | Some x \<Rightarrow>
          if n < 1 \<or> n > int (length (attempts_of r i)) \<or> ex_CurrentAttempt x \<noteq> n then Inl XErrStaleFence
          else Inr (x, attempts_of r i ! nat (n - 1)))"

text \<open>Writing the attempt back at its index, \<open>number - 1\<close>.\<close>

definition put_attempt :: "string \<Rightarrow> int \<Rightarrow> attempt \<Rightarrow> exec_repo \<Rightarrow> exec_repo" where
  "put_attempt i n a r = put_attempts i ((attempts_of r i)[nat (n - 1) := a]) r"

definition activate_attempt ::
    "gotime \<Rightarrow> string \<Rightarrow> int \<Rightarrow> capacity_lease \<Rightarrow> string \<Rightarrow> string \<Rightarrow> exec_repo \<Rightarrow> exec_repo \<times> (exec_error + execution \<times> attempt)" where
  "activate_attempt now i n lease nonceHash nonceKeyVersion r =
     (case locked_attempt i n r of
        Inl e \<Rightarrow> (r, Inl e)
      | Inr (x, a) \<Rightarrow>
          if le_AgentID lease \<noteq> sp_AgentID (ex_Spec x) \<or> le_ReservationID lease \<noteq> at_ReservationID a \<or> le_FencingToken lease < 1 \<or>
             \<not> le_ExpiresAt lease > now \<or> \<not> valid_digest nonceHash \<or> nonceKeyVersion = []
          then (r, Inl XErrInvalidInput)
          else if at_Status a = AttemptActive then
            if at_FencingToken a \<noteq> le_FencingToken lease \<or> at_CallbackNonceHash a \<noteq> nonceHash \<or> at_NonceKeyVersion a \<noteq> nonceKeyVersion
            then (r, Inl XErrStaleFence) else (r, Inr (x, a))
          else if at_Status a \<noteq> AttemptPrepared then (r, Inl XErrInvalidState)
          else
            let a' = a\<lparr>at_Status := AttemptActive, at_FencingToken := le_FencingToken lease, at_LeaseExpiresAt := le_ExpiresAt lease,
                  at_CallbackNonceHash := nonceHash, at_NonceKeyVersion := nonceKeyVersion, at_UpdatedAt := now\<rparr>;
                x' = x\<lparr>ex_Status := ExecutionRunning, ex_UpdatedAt := now\<rparr>
            in (put_execution i x' (put_attempt i n a' r), Inr (x', a')))"

definition record_dispatch :: "gotime \<Rightarrow> string \<Rightarrow> int \<Rightarrow> exec_repo \<Rightarrow> exec_repo \<times> (exec_error + unit)" where
  "record_dispatch now i n r =
     (case locked_attempt i n r of
        Inl e \<Rightarrow> (r, Inl e)
      | Inr (x, a) \<Rightarrow>
          if at_Status a \<noteq> AttemptActive then (r, Inl XErrInvalidState)
          else (put_attempt i n (a\<lparr>at_DispatchCount := wrap64 (at_DispatchCount a + 1), at_UpdatedAt := now\<rparr>) r, Inr ()))"

definition fail_attempt :: "gotime \<Rightarrow> string \<Rightarrow> int \<Rightarrow> int \<Rightarrow> exec_repo \<Rightarrow> exec_repo \<times> (exec_error + unit)" where
  "fail_attempt now i n fencingToken r =
     (case locked_attempt i n r of
        Inl e \<Rightarrow> (r, Inl e)
      | Inr (x, a) \<Rightarrow>
          if at_FencingToken a \<noteq> fencingToken then (r, Inl XErrStaleFence)
          else if at_Status a = AttemptFailed then (r, Inr ())
          else if at_Status a \<noteq> AttemptActive then (r, Inl XErrInvalidState)
          else (put_execution i (x\<lparr>ex_Status := ExecutionFailed, ex_UpdatedAt := now\<rparr>)
                  (put_attempt i n (a\<lparr>at_Status := AttemptFailed, at_UpdatedAt := now, at_TerminalAt := Some now\<rparr>) r), Inr ()))"

section \<open>Cancellation\<close>

definition request_cancel :: "gotime \<Rightarrow> string \<Rightarrow> exec_repo \<Rightarrow> exec_repo \<times> (exec_error + execution \<times> attempt \<times> bool)" where
  "request_cancel now i r =
     (case gget (er_executions r) i of
        None \<Rightarrow> (r, Inl XErrNotFound)
      | Some x \<Rightarrow>
          if ex_Status x = ExecutionSucceeded \<or> ex_Status x = ExecutionCostStopped then (r, Inl XErrInvalidState)
          else
            let items = attempts_of r i;
                a = (if items \<noteq> [] then last items else zero_attempt)
            in if ex_Status x = ExecutionCancelled then (r, Inr (x, a, True))
               else
                 let replay = (ex_Status x = ExecutionCancelRequested);
                     x' = x\<lparr>ex_Status := ExecutionCancelRequested, ex_UpdatedAt := now\<rparr>
                 in (put_execution i x' r, Inr (x', a, replay)))"

definition cancelled_execution :: "gotime \<Rightarrow> execution \<Rightarrow> execution" where
  "cancelled_execution now x = x\<lparr>ex_Status := ExecutionCancelled, ex_UpdatedAt := now, ex_CancelledAt := Some now\<rparr>"

definition complete_cancel :: "gotime \<Rightarrow> string \<Rightarrow> int \<Rightarrow> int \<Rightarrow> exec_repo \<Rightarrow> exec_repo \<times> (exec_error + execution)" where
  "complete_cancel now i n fencingToken r =
     (case gget (er_executions r) i of
        None \<Rightarrow> (r, Inl XErrNotFound)
      | Some x \<Rightarrow>
          if ex_Status x = ExecutionCancelled then (r, Inr x)
          else if ex_Status x \<noteq> ExecutionCancelRequested then (r, Inl XErrInvalidState)
          else if n > 0 then
            (case locked_attempt i n r of
               Inl e \<Rightarrow> (r, Inl e)
             | Inr (_, a) \<Rightarrow>
                 if ex_CurrentAttempt x \<noteq> n \<or> at_FencingToken a \<noteq> fencingToken then (r, Inl XErrStaleFence)
                 else if at_Status a \<noteq> AttemptActive \<and> at_Status a \<noteq> AttemptPrepared \<and> at_Status a \<noteq> AttemptCancelled
                 then (r, Inl XErrInvalidState)
                 else (put_execution i (cancelled_execution now x)
                         (put_attempt i n (a\<lparr>at_Status := AttemptCancelled, at_UpdatedAt := now, at_TerminalAt := Some now\<rparr>) r),
                       Inr (cancelled_execution now x)))
          else (put_execution i (cancelled_execution now x) r, Inr (cancelled_execution now x)))"

section \<open>Usage\<close>

text \<open>The attempt and the execution when the cost cap is exceeded.\<close>

definition cost_stopped_execution :: "gotime \<Rightarrow> execution \<Rightarrow> execution" where
  "cost_stopped_execution now x =
     x\<lparr>ex_UsedCost := sp_CostCap (ex_Spec x), ex_UpdatedAt := now, ex_Status := ExecutionCostStopped\<rparr>"

definition closed_attempt :: "gotime \<Rightarrow> string \<Rightarrow> attempt \<Rightarrow> attempt" where
  "closed_attempt now status a = a\<lparr>at_Status := status, at_UpdatedAt := now, at_TerminalAt := Some now\<rparr>"

definition record_usage ::
    "gotime \<Rightarrow> string \<Rightarrow> int \<Rightarrow> int \<Rightarrow> string \<Rightarrow> exec_repo \<Rightarrow> exec_repo \<times> (exec_error + execution \<times> bool)" where
  "record_usage now i n fencingToken usedCost r =
     (case locked_attempt i n r of
        Inl e \<Rightarrow> (r, Inl e)
      | Inr (x, a) \<Rightarrow>
          if exec_invalid_money usedCost then (r, Inl XErrInvalidInput)
          else if ex_CurrentAttempt x \<noteq> n \<or> at_FencingToken a \<noteq> fencingToken \<or> at_Status a \<noteq> AttemptActive then (r, Inl XErrStaleFence)
          else case compare_money usedCost (ex_UsedCost x) of
            None \<Rightarrow> (r, Inl XPanic)
          | Some rise \<Rightarrow>
              if rise < 0 then (r, Inl XErrInvalidInput)
              else case compare_money usedCost (sp_CostCap (ex_Spec x)) of
                None \<Rightarrow> (r, Inl XPanic)
              | Some excess \<Rightarrow>
                  if excess > 0 then
                    (put_execution i (cost_stopped_execution now x) (put_attempt i n (closed_attempt now AttemptFailed a) r),
                     Inr (cost_stopped_execution now x, True))
                  else
                    let x' = x\<lparr>ex_UsedCost := usedCost, ex_UpdatedAt := now\<rparr> in (put_execution i x' r, Inr (x', False)))"

section \<open>Terminal reports\<close>

definition find_attempt :: "attempt list \<Rightarrow> string \<Rightarrow> nat option" where
  "find_attempt items attemptID = List.find (\<lambda>k. at_AttemptID (items ! k) = attemptID) [0..<length items]"

text \<open>
  The branch common to \<open>ApplyCallback\<close> and \<open>ApplyTerminalObservation\<close> that ends the active attempt: the
  execution and the attempt when the used cost is within the cap.
\<close>

definition finished_execution :: "gotime \<Rightarrow> string \<Rightarrow> bool \<Rightarrow> string \<Rightarrow> string \<Rightarrow> execution \<Rightarrow> execution" where
  "finished_execution now usedCost success contentHash deliverableRef x =
     (if success
      then x\<lparr>ex_UsedCost := usedCost, ex_UpdatedAt := now, ex_Status := ExecutionSucceeded, ex_ContentHash := contentHash,
             ex_DeliverableRef := deliverableRef\<rparr>
      else x\<lparr>ex_UsedCost := usedCost, ex_UpdatedAt := now, ex_Status := ExecutionFailed\<rparr>)"

definition record_callback :: "verified_callback \<Rightarrow> callback_result \<Rightarrow> exec_repo \<Rightarrow> exec_repo" where
  "record_callback v result r =
     r\<lparr>er_callbacks := gput (vc_NonceHash v) \<lparr>kr_payloadHash = vc_PayloadHash v, kr_result = result\<rparr> (er_callbacks r)\<rparr>"

lemma record_callback_simps [simp]:
  "er_executions (record_callback v a r) = er_executions r"
  "er_attempts (record_callback v a r) = er_attempts r"
  "er_idempotency (record_callback v a r) = er_idempotency r"
  "er_callbacks (record_callback v a r) = gput (vc_NonceHash v) \<lparr>kr_payloadHash = vc_PayloadHash v, kr_result = a\<rparr> (er_callbacks r)"
  "er_reconciled (record_callback v a r) = er_reconciled r"
  "attempts_of (record_callback v a r) j = attempts_of r j"
  by (simp_all add: record_callback_def attempts_of_def)

text \<open>A report for the active attempt, after the guards: the new execution, attempt, outcome and stop flag.\<close>

definition callback_effect ::
    "gotime \<Rightarrow> callback \<Rightarrow> execution \<Rightarrow> attempt \<Rightarrow> exec_error + execution \<times> attempt \<times> string \<times> bool" where
  "callback_effect now c x a =
     (case compare_money (cb_UsedCost c) (ex_UsedCost x) of
        None \<Rightarrow> Inl XPanic
      | Some rise \<Rightarrow>
          if rise < 0 then Inl XErrInvalidCallback
          else case compare_money (cb_UsedCost c) (sp_CostCap (ex_Spec x)) of
            None \<Rightarrow> Inl XPanic
          | Some excess \<Rightarrow>
              if excess > 0 then Inr (cost_stopped_execution now x, closed_attempt now AttemptFailed a, CallbackCostStop, True)
              else if cb_Status c = CallbackSucceeded then
                if ex_ContentHash x \<noteq> [] \<and> ex_ContentHash x \<noteq> cb_ContentHash c then Inl XErrContentConflict
                else Inr (finished_execution now (cb_UsedCost c) True (cb_ContentHash c) (cb_DeliverableRef c) x,
                       closed_attempt now AttemptCompleted a, CallbackAccepted, False)
              else Inr (finished_execution now (cb_UsedCost c) False (cb_ContentHash c) (cb_DeliverableRef c) x,
                     closed_attempt now AttemptFailed a, CallbackAccepted, False))"

definition apply_callback :: "gotime \<Rightarrow> verified_callback \<Rightarrow> exec_repo \<Rightarrow> exec_repo \<times> (exec_error + callback_result)" where
  "apply_callback now v r =
     (case gget (er_callbacks r) (vc_NonceHash v) of
        Some previous \<Rightarrow>
          if kr_payloadHash previous \<noteq> vc_PayloadHash v then (r, Inl XErrContentConflict)
          else (r, Inr ((kr_result previous)\<lparr>cr_Replay := True\<rparr>))
      | None \<Rightarrow>
        let c = vc_Callback v; i = cb_LogicalExecutionID c in
        (case gget (er_executions r) i of
           None \<Rightarrow> (r, Inl XErrNotFound)
         | Some x \<Rightarrow>
           let items = attempts_of r i in
           (case find_attempt items (cb_AttemptID c) of
              None \<Rightarrow> (r, Inl XErrInvalidCallback)
            | Some k \<Rightarrow>
                if cb_AgentID c \<noteq> sp_AgentID (ex_Spec x) then (r, Inl XErrInvalidCallback)
                else
                  let a = items ! k;
                      result = \<lparr>cr_Execution = x, cr_Outcome = CallbackAccepted, cr_Replay = False, cr_ShouldCancel = False\<rparr> in
                  if at_CallbackNonceHash a \<noteq> vc_NonceHash v then (r, Inl XErrCallbackReplay)
                  else if at_FencingToken a \<noteq> cb_FencingToken c \<or> k \<noteq> length items - 1 \<or> \<not> at_LeaseExpiresAt a > now then
                    let late = result\<lparr>cr_Outcome := CallbackStaleFence\<rparr> in (record_callback v late r, Inr late)
                  else if ex_Status x = ExecutionCancelRequested \<or> ex_Status x = ExecutionCancelled \<or> ex_Status x = ExecutionCostStopped \<or>
                     at_Status a \<noteq> AttemptActive then
                    let late = result\<lparr>cr_Outcome := CallbackLate\<rparr> in (record_callback v late r, Inr late)
                  else case callback_effect now c x a of
                    Inl e \<Rightarrow> (r, Inl e)
                  | Inr (x', a', outcome, stop) \<Rightarrow>
                      let done = result\<lparr>cr_Execution := x', cr_Outcome := outcome, cr_ShouldCancel := stop\<rparr>
                      in (record_callback v done (put_attempts i (items[k := a']) (put_execution i x' r)), Inr done))))"

definition terminal_execution :: "string \<Rightarrow> bool" where
  "terminal_execution status \<longleftrightarrow> status = ExecutionSucceeded \<or> status = ExecutionFailed \<or> status = ExecutionCancelled \<or> status = ExecutionCostStopped"

definition observation_matches_execution :: "observation \<Rightarrow> execution \<Rightarrow> bool" where
  "observation_matches_execution ob x =
     (if to_Status ob = ExecutionSucceeded then
        ex_Status x = ExecutionSucceeded \<and> ex_ContentHash x = to_ContentHash ob \<and> ex_DeliverableRef x = to_DeliverableRef ob \<and>
        ex_UsedCost x = to_UsedCost ob
      else (to_Status ob = ExecutionFailed \<or> to_Status ob = ExecutionCancelled) \<and> ex_Status x = ExecutionFailed \<and> ex_UsedCost x = to_UsedCost ob)"

definition record_observation :: "verified_observation \<Rightarrow> reconciliation_result \<Rightarrow> exec_repo \<Rightarrow> exec_repo" where
  "record_observation v result r =
     r\<lparr>er_reconciled := gput (to_AttemptID (vo_Observation v)) \<lparr>nr_payloadHash = vo_PayloadHash v, nr_result = result\<rparr> (er_reconciled r)\<rparr>"

lemma record_observation_simps [simp]:
  "er_executions (record_observation v b r) = er_executions r"
  "er_attempts (record_observation v b r) = er_attempts r"
  "er_idempotency (record_observation v b r) = er_idempotency r"
  "er_callbacks (record_observation v b r) = er_callbacks r"
  "er_reconciled (record_observation v b r) =
     gput (to_AttemptID (vo_Observation v)) \<lparr>nr_payloadHash = vo_PayloadHash v, nr_result = b\<rparr> (er_reconciled r)"
  "attempts_of (record_observation v b r) j = attempts_of r j"
  by (simp_all add: record_observation_def attempts_of_def)

definition observation_effect ::
    "gotime \<Rightarrow> observation \<Rightarrow> execution \<Rightarrow> attempt \<Rightarrow> exec_error + execution \<times> attempt \<times> string \<times> bool" where
  "observation_effect now ob x a =
     (case compare_money (to_UsedCost ob) (sp_CostCap (ex_Spec x)) of
        None \<Rightarrow> Inl XPanic
      | Some excess \<Rightarrow>
          if excess > 0 then Inr (cost_stopped_execution now x, closed_attempt now AttemptFailed a, ReconciliationCostStop, True)
          else if to_Status ob = ExecutionSucceeded then
            Inr (finished_execution now (to_UsedCost ob) True (to_ContentHash ob) (to_DeliverableRef ob) x,
                 closed_attempt now AttemptCompleted a, ReconciliationAccepted, False)
          else
            Inr (finished_execution now (to_UsedCost ob) False (to_ContentHash ob) (to_DeliverableRef ob) x,
                 closed_attempt now AttemptFailed a, ReconciliationAccepted, False))"

definition apply_terminal_observation ::
    "gotime \<Rightarrow> verified_observation \<Rightarrow> exec_repo \<Rightarrow> exec_repo \<times> (exec_error + reconciliation_result)" where
  "apply_terminal_observation now v r =
     (let ob = vo_Observation v in
      case gget (er_reconciled r) (to_AttemptID ob) of
        Some previous \<Rightarrow>
          if nr_payloadHash previous \<noteq> vo_PayloadHash v then (r, Inl XErrContentConflict)
          else (r, Inr ((nr_result previous)\<lparr>rr_Replay := True\<rparr>))
      | None \<Rightarrow>
        let i = to_LogicalExecutionID ob in
        (case gget (er_executions r) i of
           None \<Rightarrow> (r, Inl XErrNotFound)
         | Some x \<Rightarrow>
           let items = attempts_of r i in
           (case find_attempt items (to_AttemptID ob) of
              None \<Rightarrow> (r, Inl XErrInvalidInput)
            | Some k \<Rightarrow>
                if to_AgentID ob \<noteq> sp_AgentID (ex_Spec x) then (r, Inl XErrInvalidInput)
                else
                  let a = items ! k;
                      result = \<lparr>rr_Execution = x, rr_Outcome = ReconciliationAccepted, rr_Replay = False, rr_ShouldCancel = False\<rparr>;
                      settle = (\<lambda>outcome. let b = result\<lparr>rr_Outcome := outcome\<rparr> in (record_observation v b r, Inr b)) in
                  if at_FencingToken a \<noteq> to_FencingToken ob \<or> k \<noteq> length items - 1 \<or> ex_CurrentAttempt x \<noteq> at_Number a
                  then settle ReconciliationStaleFence
                  else if terminal_execution (ex_Status x) \<or> at_Status a \<noteq> AttemptActive then
                    if \<not> observation_matches_execution ob x then (r, Inl XErrContentConflict)
                    else settle ReconciliationAlreadyTerminal
                  else if ex_Status x = ExecutionCancelRequested then settle ReconciliationLate
                  else case compare_money (to_UsedCost ob) (ex_UsedCost x) of
                    None \<Rightarrow> (r, Inl XPanic)
                  | Some rise \<Rightarrow>
                      if rise < 0 then (r, Inl XErrInvalidInput)
                      else case observation_effect now ob x a of
                        Inl e \<Rightarrow> (r, Inl e)
                      | Inr (x', a', outcome, stop) \<Rightarrow>
                          let b = result\<lparr>rr_Execution := x', rr_Outcome := outcome, rr_ShouldCancel := stop\<rparr>
                          in (record_observation v b (put_attempts i (items[k := a']) (put_execution i x' r)), Inr b))))"

end
