(* ===== verification/Execution_Service.thy ===== *)
theory Execution_Service
  imports Execution_Memory
begin

text \<open>
  The execution service (\<open>internal/execution/service.go\<close>). A service call alternates repository methods,
  which are atomic, with calls to the agent and to the capacity service. While such a call is under way
  other requests run: a remote call is a function of the whole state, the repository and the state \<open>'w\<close>
  of the remote world, and may change both. A call uses one value \<open>now\<close> of the clock.

  The results of a Go function that returns values beside a non-nil error are a tuple with an error option.
\<close>

type_synonym 'w exec_world = "exec_repo \<times> 'w"

record exec_config =
  xc_CallbackBaseURL :: string
  xc_NonceKeyVersion :: string
  xc_NonceSecret :: string
  xc_LeaseTTL :: duration
  xc_MaxSkew :: duration

text \<open>\<open>CapacityLeaser\<close> and \<open>Client\<close>.\<close>

record 'w exec_peers =
  pe_reserve :: "string \<Rightarrow> string \<Rightarrow> duration \<Rightarrow> 'w exec_world \<Rightarrow> 'w exec_world \<times> (exec_error + capacity_lease)"
  pe_release :: "string \<Rightarrow> int \<Rightarrow> 'w exec_world \<Rightarrow> 'w exec_world"
  pe_create :: "string \<Rightarrow> envelope \<Rightarrow> 'w exec_world \<Rightarrow> 'w exec_world \<times> (exec_error + create_response)"
  pe_status :: "string \<Rightarrow> envelope \<Rightarrow> 'w exec_world \<Rightarrow> 'w exec_world \<times> (exec_error + status_response)"
  pe_cancel :: "string \<Rightarrow> envelope \<Rightarrow> 'w exec_world \<Rightarrow> 'w exec_world \<times> (exec_error + cancel_response)"
  pe_deliverable :: "string \<Rightarrow> envelope \<Rightarrow> 'w exec_world \<Rightarrow> 'w exec_world \<times> (exec_error + deliverable_response)"

definition on_repo :: "(exec_repo \<Rightarrow> exec_repo \<times> 'a) \<Rightarrow> 'w exec_world \<Rightarrow> 'w exec_world \<times> 'a" where
  "on_repo f s = (case f (fst s) of (r, a) \<Rightarrow> ((r, snd s), a))"

lemma on_repo_eq: "on_repo f (r, w) = ((fst (f r), w), snd (f r))"
  by (simp add: on_repo_def split: prod.splits)

definition zero_execution :: execution where
  "zero_execution = \<lparr>ex_Spec = \<lparr>sp_LogicalExecutionID = [], sp_Stage = [], sp_TaskID = [], sp_TaskSpecHash = [], sp_InputRef = [],
       sp_InputHash = [], sp_AgentID = [], sp_AgentEndpoint = [], sp_ResponsibilityCode = [], sp_CostCap = [],
       sp_ToolPolicy = \<lparr>tp_Mode = [], tp_AllowedTools = []\<rparr>, sp_Deadline = 0, sp_IdempotencyKey = [], sp_Overview = None,
       sp_Formal = None\<rparr>,
     ex_Status = [], ex_CurrentAttempt = 0, ex_UsedCost = [], ex_ContentHash = [], ex_DeliverableRef = [], ex_CreatedAt = 0,
     ex_UpdatedAt = 0, ex_CancelledAt = None\<rparr>"

definition zero_status_response :: status_response where
  "zero_status_response = \<lparr>rs_Status = [], rs_UsedCost = []\<rparr>"

definition new_exec_service :: "exec_env \<Rightarrow> exec_config \<Rightarrow> exec_error + exec_config" where
  "new_exec_service E C =
     (case xe_url E (xc_CallbackBaseURL C) of
        None \<Rightarrow> Inl XErrInvalidInput
      | Some u \<Rightarrow>
          if ur_Scheme u \<noteq> ''https'' \<or> ur_Host u = [] \<or> ur_User u \<or> ur_RawQuery u \<noteq> [] \<or> ur_Fragment u \<noteq> [] \<or>
             xc_NonceKeyVersion C = [] \<or> length (xc_NonceSecret C) < 32 \<or> xc_LeaseTTL C \<le> 0 \<or> xc_LeaseTTL C > hour_ns
          then Inl XErrInvalidInput else Inr C)"

section \<open>Nonces and envelopes\<close>

definition nonce_message :: "attempt \<Rightarrow> string" where
  "nonce_message a = ProtocolVersion @ [CHR 0x00] @ at_LogicalExecutionID a @ [CHR 0x00] @ at_AttemptID a @
     be_bytes 8 (nat (at_Number a mod 2 ^ 64))"

definition callback_nonce :: "exec_env \<Rightarrow> exec_config \<Rightarrow> attempt \<Rightarrow> string" where
  "callback_nonce E C a = hex_encode (xe_hmac E (xc_NonceSecret C) (nonce_message a))"

definition svc_envelope :: "exec_env \<Rightarrow> exec_config \<Rightarrow> execution \<Rightarrow> attempt \<Rightarrow> string \<Rightarrow> string \<Rightarrow> exec_error + envelope" where
  "svc_envelope E C x a operation nonce =
     (case xe_join E (xc_CallbackBaseURL C) [sp_LogicalExecutionID (ex_Spec x), at_AttemptID a] of
        None \<Rightarrow> Inl (XErrRemote ''url'')
      | Some callbackURL \<Rightarrow> build_envelope E x a operation callbackURL nonce)"

definition operation_envelope ::
    "exec_env \<Rightarrow> exec_config \<Rightarrow> string \<Rightarrow> string \<Rightarrow> exec_repo \<Rightarrow> exec_error + execution \<times> attempt \<times> string \<times> envelope" where
  "operation_envelope E C i operation r =
     rbind (get_execution i r) (\<lambda>x. rbind (current_attempt i r) (\<lambda>a.
       let nonce = callback_nonce E C a in rbind (svc_envelope E C x a operation nonce) (\<lambda>v. Inr (x, a, nonce, v))))"

text \<open>\<open>activateAttempt\<close>; on an error the attempt is the zero attempt.\<close>

definition svc_activate_attempt ::
    "exec_env \<Rightarrow> exec_config \<Rightarrow> gotime \<Rightarrow> execution \<Rightarrow> attempt \<Rightarrow> capacity_lease \<Rightarrow> string \<Rightarrow> exec_repo \<Rightarrow>
     exec_repo \<times> (exec_error + attempt)" where
  "svc_activate_attempt E C now x a lease nonce r =
     (case activate_attempt now (sp_LogicalExecutionID (ex_Spec x)) (at_Number a) lease (hash_value E nonce) (xc_NonceKeyVersion C) r of
        (r', Inl e) \<Rightarrow> (r', Inl e)
      | (r', Inr (_, activated)) \<Rightarrow> (r', Inr activated))"

text \<open>\<open>stopRemote\<close>; its error is discarded by every caller.\<close>

definition stop_remote :: "exec_env \<Rightarrow> exec_config \<Rightarrow> 'w exec_peers \<Rightarrow> execution \<Rightarrow> attempt \<Rightarrow> 'w exec_world \<Rightarrow> 'w exec_world" where
  "stop_remote E C P x a s =
     (case svc_envelope E C x a ''cancel'' (callback_nonce E C a) of
        Inl e \<Rightarrow> s
      | Inr v \<Rightarrow> pe_release P (at_ReservationID a) (at_FencingToken a) (fst (pe_cancel P (sp_AgentEndpoint (ex_Spec x)) v s)))"

section \<open>Create, Get and Dispatch\<close>

definition svc_create :: "exec_env \<Rightarrow> gotime \<Rightarrow> spec \<Rightarrow> exec_repo \<Rightarrow> exec_repo \<times> (exec_error + execution \<times> bool)" where
  "svc_create E now s r =
     (case validate_spec E s now of Inl e \<Rightarrow> (r, Inl e) | Inr _ \<Rightarrow> get_or_create now s r)"

definition svc_get_execution :: "string \<Rightarrow> exec_repo \<Rightarrow> exec_error + execution" where
  "svc_get_execution i r = (if i = [] then Inl XErrInvalidInput else get_execution i r)"

definition dispatch_answer ::
    "gotime \<Rightarrow> 'w exec_peers \<Rightarrow> string \<Rightarrow> execution \<Rightarrow> attempt \<Rightarrow> bool \<Rightarrow> create_response \<Rightarrow> 'w exec_world \<Rightarrow>
     'w exec_world \<times> exec_error option \<times> execution \<times> attempt \<times> bool" where
  "dispatch_answer now P i x a replay response s =
     (if \<not> rc_Accepted response \<or> rc_Status response \<noteq> ExecutionRunning \<and> rc_Status response \<noteq> ExecutionPending then
        (case on_repo (fail_attempt now i (at_Number a) (at_FencingToken a)) s of
           (s1, Inl e) \<Rightarrow> (s1, Some e, x, a, replay)
         | (s1, Inr _) \<Rightarrow> (pe_release P (at_ReservationID a) (at_FencingToken a) s1, Some XErrInvalidState, x, a, replay))
      else case get_execution i (fst s) of
        Inl e \<Rightarrow> (s, Some e, zero_execution, a, replay)
      | Inr updated \<Rightarrow> (s, None, updated, a, replay))"

definition svc_dispatch ::
    "exec_env \<Rightarrow> exec_config \<Rightarrow> 'w exec_peers \<Rightarrow> gotime \<Rightarrow> string \<Rightarrow> 'w exec_world \<Rightarrow>
     'w exec_world \<times> exec_error option \<times> execution \<times> attempt \<times> bool" where
  "svc_dispatch E C P now i s =
     (case on_repo (prepare_attempt now i) s of
        (s1, Inl e) \<Rightarrow> (s1, Some e, zero_execution, zero_attempt, False)
      | (s1, Inr (x, a0, replay)) \<Rightarrow>
        (case pe_reserve P (sp_AgentID (ex_Spec x)) (at_ReservationID a0) (xc_LeaseTTL C) s1 of
           (s2, Inl e) \<Rightarrow> (s2, Some e, x, a0, replay)
         | (s2, Inr lease) \<Rightarrow>
           let nonce = callback_nonce E C a0 in
           (case on_repo (svc_activate_attempt E C now x a0 lease nonce) s2 of
              (s3, Inl e) \<Rightarrow> (pe_release P (le_ReservationID lease) (le_FencingToken lease) s3, Some e, x, zero_attempt, replay)
            | (s3, Inr a) \<Rightarrow>
              (case svc_envelope E C x a ''create'' nonce of
                 Inl e \<Rightarrow> (s3, Some e, x, a, replay)
               | Inr v \<Rightarrow>
                 (case pe_create P (sp_AgentEndpoint (ex_Spec x)) v s3 of
                    (s4, answer) \<Rightarrow>
                    (case on_repo (record_dispatch now i (at_Number a)) s4 of
                       (s5, recorded) \<Rightarrow>
                       (case answer of
                          Inl e \<Rightarrow> (s5, Some e, x, a, replay)
                        | Inr response \<Rightarrow>
                            (case recorded of
                               Inl e \<Rightarrow> (s5, Some e, x, a, replay)
                             | Inr _ \<Rightarrow> dispatch_answer now P i x a replay response s5))))))))"

section \<open>Cancel and Deliverable\<close>

definition svc_cancel ::
    "exec_env \<Rightarrow> exec_config \<Rightarrow> 'w exec_peers \<Rightarrow> gotime \<Rightarrow> string \<Rightarrow> 'w exec_world \<Rightarrow> 'w exec_world \<times> exec_error option \<times> execution" where
  "svc_cancel E C P now i s =
     (case on_repo (request_cancel now i) s of
        (s1, Inl e) \<Rightarrow> (s1, Some e, zero_execution)
      | (s1, Inr (x, a, _)) \<Rightarrow>
          let finish = (\<lambda>release s2. case on_repo (complete_cancel now i (at_Number a) (at_FencingToken a)) s2 of
                (s3, Inl e) \<Rightarrow> (s3, Some e, zero_execution)
              | (s3, Inr cancelled) \<Rightarrow>
                  ((if release then pe_release P (at_ReservationID a) (at_FencingToken a) s3 else s3), None, cancelled))
          in if at_Number a = 0 then
               (case on_repo (complete_cancel now i 0 0) s1 of
                  (s2, Inl e) \<Rightarrow> (s2, Some e, zero_execution)
                | (s2, Inr cancelled) \<Rightarrow> (s2, None, cancelled))
             else case svc_envelope E C x a ''cancel'' (callback_nonce E C a) of
               Inl e \<Rightarrow> (s1, Some e, zero_execution)
             | Inr v \<Rightarrow>
                 if ex_Status x \<noteq> ExecutionCancelled then
                   (case pe_cancel P (sp_AgentEndpoint (ex_Spec x)) v s1 of
                      (s2, Inl e) \<Rightarrow> (s2, Some e, x)
                    | (s2, Inr response) \<Rightarrow>
                        if \<not> rx_Accepted response then (s2, Some XErrInvalidState, x) else finish True s2)
                 else finish True s1)"

definition svc_deliverable ::
    "exec_env \<Rightarrow> exec_config \<Rightarrow> 'w exec_peers \<Rightarrow> string \<Rightarrow> 'w exec_world \<Rightarrow> 'w exec_world \<times> (exec_error + deliverable_response)" where
  "svc_deliverable E C P i s =
     (case operation_envelope E C i ''deliverable'' (fst s) of
        Inl e \<Rightarrow> (s, Inl e)
      | Inr (x, a, nonce, v) \<Rightarrow>
          if ex_Status x \<noteq> ExecutionSucceeded then (s, Inl XErrInvalidState)
          else case pe_deliverable P (sp_AgentEndpoint (ex_Spec x)) v s of
            (s1, Inl e) \<Rightarrow> (s1, Inl e)
          | (s1, Inr response) \<Rightarrow>
              if rd_ContentHash response \<noteq> ex_ContentHash x \<or> rd_DeliverableRef response \<noteq> ex_DeliverableRef x
              then (s1, Inl XErrContentConflict) else (s1, Inr response))"

section \<open>Callbacks\<close>

definition svc_handle_callback ::
    "exec_env \<Rightarrow> exec_config \<Rightarrow> 'w exec_peers \<Rightarrow> gotime \<Rightarrow> callback \<Rightarrow> string \<Rightarrow> 'w exec_world \<Rightarrow>
     'w exec_world \<times> (exec_error + callback_result)" where
  "svc_handle_callback E C P now c signature s =
     (case verify_callback E (xc_MaxSkew C) now c signature of
        Inl e \<Rightarrow> (s, Inl e)
      | Inr v \<Rightarrow>
        (case on_repo (apply_callback now v) s of
           (s1, Inl e) \<Rightarrow> (s1, Inl e)
         | (s1, Inr result) \<Rightarrow>
             if cr_Replay result \<or> cr_Outcome result = CallbackStaleFence \<or> cr_Outcome result = CallbackLate then (s1, Inr result)
             else case current_attempt (cb_LogicalExecutionID c) (fst s1) of
               Inl _ \<Rightarrow> (s1, Inr result)
             | Inr a \<Rightarrow>
                 if at_AttemptID a \<noteq> cb_AttemptID c then (s1, Inr result)
                 else
                   let s2 = (if cr_ShouldCancel result then stop_remote E C P (cr_Execution result) a s1 else s1)
                   in (pe_release P (at_ReservationID a) (at_FencingToken a) s2, Inr result)))"

section \<open>Poll\<close>

definition poll_status_ok :: "status_response \<Rightarrow> bool" where
  "poll_status_ok response \<longleftrightarrow> \<not> exec_invalid_money (rs_UsedCost response) \<and>
     rs_Status response \<in> {ExecutionRunning, ExecutionSucceeded, ExecutionFailed, ExecutionCancelled}"

definition poll_observation :: "string \<Rightarrow> execution \<Rightarrow> attempt \<Rightarrow> status_response \<Rightarrow> observation" where
  "poll_observation i x a response = \<lparr>to_LogicalExecutionID = i, to_AttemptID = at_AttemptID a, to_AgentID = sp_AgentID (ex_Spec x),
     to_FencingToken = at_FencingToken a, to_Status = rs_Status response, to_UsedCost = rs_UsedCost response, to_ContentHash = [],
     to_DeliverableRef = []\<rparr>"

text \<open>The end of \<open>Poll\<close>: the observation is hashed and applied.\<close>

definition poll_reconcile ::
    "exec_env \<Rightarrow> exec_config \<Rightarrow> 'w exec_peers \<Rightarrow> gotime \<Rightarrow> attempt \<Rightarrow> status_response \<Rightarrow> observation \<Rightarrow> 'w exec_world \<Rightarrow>
     'w exec_world \<times> exec_error option \<times> status_response" where
  "poll_reconcile E C P now a response ob s =
     (case xe_json_observation E ob of
        None \<Rightarrow> (s, Some (XErrRemote ''json''), zero_status_response)
      | Some payload \<Rightarrow>
        (case on_repo (apply_terminal_observation now \<lparr>vo_Observation = ob, vo_PayloadHash = hash_value E payload\<rparr>) s of
           (s1, Inl e) \<Rightarrow> (s1, Some e, zero_status_response)
         | (s1, Inr result) \<Rightarrow>
             if \<not> rr_Replay result \<and> rr_Outcome result \<noteq> ReconciliationStaleFence \<and> rr_Outcome result \<noteq> ReconciliationLate \<and>
                rr_Outcome result \<noteq> ReconciliationAlreadyTerminal
             then
               ((if rr_ShouldCancel result then stop_remote E C P (rr_Execution result) a s1
                 else pe_release P (at_ReservationID a) (at_FencingToken a) s1), None, response)
             else (s1, None, response)))"

definition poll_terminal ::
    "exec_env \<Rightarrow> exec_config \<Rightarrow> 'w exec_peers \<Rightarrow> gotime \<Rightarrow> string \<Rightarrow> execution \<Rightarrow> attempt \<Rightarrow> status_response \<Rightarrow> 'w exec_world \<Rightarrow>
     'w exec_world \<times> exec_error option \<times> status_response" where
  "poll_terminal E C P now i x a response s =
     (let ob = poll_observation i x a response in
      if rs_Status response = ExecutionSucceeded then
        (case svc_envelope E C x a ''deliverable'' (callback_nonce E C a) of
           Inl e \<Rightarrow> (s, Some e, zero_status_response)
         | Inr v \<Rightarrow>
           (case pe_deliverable P (sp_AgentEndpoint (ex_Spec x)) v s of
              (s1, Inl e) \<Rightarrow> (s1, Some e, zero_status_response)
            | (s1, Inr d) \<Rightarrow>
                if \<not> valid_digest (rd_ContentHash d) \<or> blank (rd_DeliverableRef d) then (s1, Some XErrInvalidInput, zero_status_response)
                else poll_reconcile E C P now a response
                  (ob\<lparr>to_ContentHash := rd_ContentHash d, to_DeliverableRef := rd_DeliverableRef d\<rparr>) s1))
      else poll_reconcile E C P now a response ob s)"

definition svc_poll ::
    "exec_env \<Rightarrow> exec_config \<Rightarrow> 'w exec_peers \<Rightarrow> gotime \<Rightarrow> string \<Rightarrow> 'w exec_world \<Rightarrow> 'w exec_world \<times> exec_error option \<times> status_response" where
  "svc_poll E C P now i s =
     (case operation_envelope E C i ''status'' (fst s) of
        Inl e \<Rightarrow> (s, Some e, zero_status_response)
      | Inr (x, a, nonce, v) \<Rightarrow>
        (case pe_status P (sp_AgentEndpoint (ex_Spec x)) v s of
           (s1, Inl e) \<Rightarrow> (s1, Some e, zero_status_response)
         | (s1, Inr response) \<Rightarrow>
             if \<not> poll_status_ok response then (s1, Some XErrInvalidInput, zero_status_response)
             else case on_repo (record_usage now i (at_Number a) (at_FencingToken a) (rs_UsedCost response)) s1 of
               (s2, Inl e) \<Rightarrow>
                 if e = XErrStaleFence \<and> (case get_execution i (fst s2) of Inl _ \<Rightarrow> False | Inr current \<Rightarrow> terminal_execution (ex_Status current))
                 then (s2, None, response) else (s2, Some e, zero_status_response)
             | (s2, Inr (_, shouldStop)) \<Rightarrow>
                 if shouldStop then (stop_remote E C P x a s2, Some XErrCostCapExceeded, response)
                 else if rs_Status response = ExecutionRunning then (s2, None, response)
                 else poll_terminal E C P now i x a response s2))"

end
