(* ===== verification/Execution_Machine.thy ===== *)
theory Execution_Machine
  imports Execution_Service
begin

text \<open>The abstract machine of an execution and its invariant, which every move preserves.\<close>

text \<open>
  The state machine of one execution, as an abstract specification: \<open>exec_move now i x items x' items'\<close>
  is one legal change of an execution and its attempts. The invariant of an execution is preserved by
  every move; \<open>Execution_Refine\<close> shows that the repository's methods make no other change.
\<close>

section \<open>Moves\<close>

definition lease_open :: "gotime \<Rightarrow> attempt \<Rightarrow> bool" where
  "lease_open now a \<longleftrightarrow> at_Status a = AttemptPrepared \<or> at_Status a = AttemptActive \<and> at_LeaseExpiresAt a > now"

definition report_ok :: "bool \<Rightarrow> string \<Rightarrow> string \<Rightarrow> bool" where
  "report_ok success contentHash deliverableRef \<longleftrightarrow>
     (if success then valid_digest contentHash \<and> \<not> blank deliverableRef else contentHash = [] \<and> deliverableRef = [])"

inductive exec_move :: "gotime \<Rightarrow> string \<Rightarrow> execution \<Rightarrow> attempt list \<Rightarrow> execution \<Rightarrow> attempt list \<Rightarrow> bool"
  for now :: gotime and i :: string where
  prepare: "ex_Status x \<in> {ExecutionPending, ExecutionRunning, ExecutionFailed} \<Longrightarrow> items = [] \<or> \<not> lease_open now (last items) \<Longrightarrow>
    exec_move now i x items (x\<lparr>ex_Status := ExecutionPending, ex_CurrentAttempt := int (length items + 1), ex_UpdatedAt := now\<rparr>)
      (expire_last now items @ [new_attempt i (length items + 1) now])"
| activate: "at_Status a = AttemptPrepared \<Longrightarrow> 1 \<le> token \<Longrightarrow> valid_digest nonceHash \<Longrightarrow>
    exec_move now i x (before @ [a]) (x\<lparr>ex_Status := ExecutionRunning, ex_UpdatedAt := now\<rparr>)
      (before @ [a\<lparr>at_Status := AttemptActive, at_FencingToken := token, at_LeaseExpiresAt := expires, at_CallbackNonceHash := nonceHash,
         at_NonceKeyVersion := nonceKeyVersion, at_UpdatedAt := now\<rparr>])"
| dispatched: "at_Status a = AttemptActive \<Longrightarrow>
    exec_move now i x (before @ [a]) x (before @ [a\<lparr>at_DispatchCount := wrap64 (at_DispatchCount a + 1), at_UpdatedAt := now\<rparr>])"
| fail: "at_Status a = AttemptActive \<Longrightarrow>
    exec_move now i x (before @ [a]) (x\<lparr>ex_Status := ExecutionFailed, ex_UpdatedAt := now\<rparr>) (before @ [closed_attempt now AttemptFailed a])"
| request: "ex_Status x \<notin> {ExecutionSucceeded, ExecutionCostStopped, ExecutionCancelled} \<Longrightarrow>
    exec_move now i x items (x\<lparr>ex_Status := ExecutionCancelRequested, ex_UpdatedAt := now\<rparr>) items"
| cancel_idle: "ex_Status x = ExecutionCancelRequested \<Longrightarrow> exec_move now i x [] (cancelled_execution now x) []"
| cancel: "ex_Status x = ExecutionCancelRequested \<Longrightarrow> at_Status a \<in> {AttemptActive, AttemptPrepared} \<Longrightarrow>
    exec_move now i x (before @ [a]) (cancelled_execution now x) (before @ [closed_attempt now AttemptCancelled a])"
| usage: "at_Status a = AttemptActive \<Longrightarrow> valid_money used \<Longrightarrow> money_int (ex_UsedCost x) \<le> money_int used \<Longrightarrow>
    money_int used \<le> money_int (sp_CostCap (ex_Spec x)) \<Longrightarrow>
    exec_move now i x (before @ [a]) (x\<lparr>ex_UsedCost := used, ex_UpdatedAt := now\<rparr>) (before @ [a])"
| cost_stop: "at_Status a = AttemptActive \<Longrightarrow>
    exec_move now i x (before @ [a]) (cost_stopped_execution now x) (before @ [closed_attempt now AttemptFailed a])"
| finish: "at_Status a = AttemptActive \<Longrightarrow> ex_Status x = ExecutionRunning \<Longrightarrow> valid_money used \<Longrightarrow>
    money_int (ex_UsedCost x) \<le> money_int used \<Longrightarrow> money_int used \<le> money_int (sp_CostCap (ex_Spec x)) \<Longrightarrow>
    report_ok success contentHash deliverableRef \<Longrightarrow>
    exec_move now i x (before @ [a]) (finished_execution now used success contentHash deliverableRef x)
      (before @ [closed_attempt now (if success then AttemptCompleted else AttemptFailed) a])"

section \<open>The invariant of an execution\<close>

definition numbered :: "string \<Rightarrow> attempt list \<Rightarrow> bool" where
  "numbered i items \<longleftrightarrow> (\<forall>k < length items. at_LogicalExecutionID (items ! k) = i \<and> at_Number (items ! k) = int k + 1 \<and>
     at_AttemptID (items ! k) = attempt_id i (k + 1) \<and> at_ReservationID (items ! k) = attempt_id i (k + 1))"

definition superseded :: "attempt list \<Rightarrow> bool" where
  "superseded items \<longleftrightarrow> (\<forall>a \<in> set (butlast items). at_Status a \<in> {AttemptExpired, AttemptFailed})"

definition fenced :: "attempt \<Rightarrow> bool" where
  "fenced a \<longleftrightarrow> (at_Status a = AttemptPrepared \<longrightarrow> at_FencingToken a = 0 \<and> at_CallbackNonceHash a = []) \<and>
     (at_Status a = AttemptActive \<longrightarrow> 1 \<le> at_FencingToken a \<and> valid_digest (at_CallbackNonceHash a))"

text \<open>The status of an execution and of its last attempt.\<close>

definition status_pairs :: "(string \<times> string) set" where
  "status_pairs = {(ExecutionPending, AttemptPrepared), (ExecutionRunning, AttemptActive), (ExecutionSucceeded, AttemptCompleted),
     (ExecutionFailed, AttemptFailed), (ExecutionCostStopped, AttemptFailed), (ExecutionCancelled, AttemptCancelled),
     (ExecutionCancelRequested, AttemptPrepared), (ExecutionCancelRequested, AttemptActive), (ExecutionCancelRequested, AttemptFailed)}"

definition status_ok :: "string \<Rightarrow> attempt list \<Rightarrow> bool" where
  "status_ok status items \<longleftrightarrow>
     (if items = [] then status \<in> {ExecutionPending, ExecutionCancelRequested, ExecutionCancelled}
      else (status, at_Status (last items)) \<in> status_pairs)"

definition cost_ok :: "execution \<Rightarrow> bool" where
  "cost_ok x \<longleftrightarrow> valid_money (ex_UsedCost x) \<and> valid_money (sp_CostCap (ex_Spec x)) \<and>
     money_int (ex_UsedCost x) \<le> money_int (sp_CostCap (ex_Spec x))"

definition content_ok :: "execution \<Rightarrow> bool" where
  "content_ok x \<longleftrightarrow> report_ok (ex_Status x = ExecutionSucceeded) (ex_ContentHash x) (ex_DeliverableRef x)"

definition exec_ok :: "string \<Rightarrow> execution \<Rightarrow> attempt list \<Rightarrow> bool" where
  "exec_ok i x items \<longleftrightarrow> sp_LogicalExecutionID (ex_Spec x) = i \<and> ex_CurrentAttempt x = int (length items) \<and> numbered i items \<and>
     superseded items \<and> (items \<noteq> [] \<longrightarrow> fenced (last items)) \<and> status_ok (ex_Status x) items \<and> cost_ok x \<and> content_ok x"

section \<open>Moves preserve it\<close>

lemma numbered_snoc: "numbered i (items @ [a]) \<longleftrightarrow> numbered i items \<and> at_LogicalExecutionID a = i \<and> at_Number a = int (length items) + 1 \<and>
    at_AttemptID a = attempt_id i (length items + 1) \<and> at_ReservationID a = attempt_id i (length items + 1)"
  by (auto simp: numbered_def nth_append less_Suc_eq)

lemma superseded_snoc [simp]: "superseded (items @ [a]) \<longleftrightarrow> (\<forall>b \<in> set items. at_Status b \<in> {AttemptExpired, AttemptFailed})"
  by (simp add: superseded_def)

lemma status_ok_snoc [simp]: "status_ok status (items @ [a]) \<longleftrightarrow> (status, at_Status a) \<in> status_pairs"
  by (simp add: status_ok_def)

lemma closed_attempt_simps [simp]:
  "at_LogicalExecutionID (closed_attempt now st a) = at_LogicalExecutionID a"
  "at_Number (closed_attempt now st a) = at_Number a"
  "at_AttemptID (closed_attempt now st a) = at_AttemptID a"
  "at_ReservationID (closed_attempt now st a) = at_ReservationID a"
  "at_Status (closed_attempt now st a) = st"
  by (simp_all add: closed_attempt_def)

lemma exec_ok_snoc:
  "exec_ok i x (before @ [a]) \<longleftrightarrow> sp_LogicalExecutionID (ex_Spec x) = i \<and> ex_CurrentAttempt x = int (length before) + 1 \<and>
     numbered i (before @ [a]) \<and> (\<forall>b \<in> set before. at_Status b \<in> {AttemptExpired, AttemptFailed}) \<and> fenced a \<and>
     (ex_Status x, at_Status a) \<in> status_pairs \<and> cost_ok x \<and> content_ok x"
  by (auto simp: exec_ok_def)

lemma expire_last_snoc:
  "expire_last now (before @ [a]) =
     before @ [if at_Status a = AttemptActive \<and> \<not> at_LeaseExpiresAt a > now then closed_attempt now AttemptExpired a else a]"
  by (simp add: expire_last_def closed_attempt_def)

lemma expire_last_nil [simp]: "expire_last now [] = []"
  by (simp add: expire_last_def)

lemma length_expire_last [simp]: "length (expire_last now items) = length items"
  by (simp add: expire_last_def)

lemma numbered_expire_last: "numbered i items \<Longrightarrow> numbered i (expire_last now items)"
  by (cases items rule: rev_cases) (auto simp: expire_last_snoc numbered_snoc)

lemma expire_last_superseded:
  assumes "exec_ok i x items" "ex_Status x \<in> {ExecutionPending, ExecutionRunning, ExecutionFailed}" "items = [] \<or> \<not> lease_open now (last items)"
  shows "\<forall>b \<in> set (expire_last now items). at_Status b \<in> {AttemptExpired, AttemptFailed}"
proof (cases items rule: rev_cases)
  case (snoc before a)
  with assms have "(ex_Status x, at_Status a) \<in> status_pairs" "\<forall>b \<in> set before. at_Status b \<in> {AttemptExpired, AttemptFailed}"
    by (auto simp: exec_ok_snoc)
  with assms(2,3) snoc show ?thesis
    by (auto simp: expire_last_snoc lease_open_def status_pairs_def)
qed simp

lemma new_attempt_simps [simp]:
  "at_LogicalExecutionID (new_attempt i n now) = i" "at_Number (new_attempt i n now) = int n"
  "at_AttemptID (new_attempt i n now) = attempt_id i n" "at_ReservationID (new_attempt i n now) = attempt_id i n"
  "at_Status (new_attempt i n now) = AttemptPrepared" "fenced (new_attempt i n now)"
  by (simp_all add: new_attempt_def fenced_def zero_attempt_def)

lemma fenced_closed: "st \<noteq> AttemptPrepared \<Longrightarrow> st \<noteq> AttemptActive \<Longrightarrow> fenced (closed_attempt now st a)"
  by (simp add: fenced_def)

lemma active_pairs: "(s, AttemptActive) \<in> status_pairs \<longleftrightarrow> s \<in> {ExecutionRunning, ExecutionCancelRequested}"
  by (auto simp: status_pairs_def)

lemma prepared_pairs: "(s, AttemptPrepared) \<in> status_pairs \<longleftrightarrow> s \<in> {ExecutionPending, ExecutionCancelRequested}"
  by (auto simp: status_pairs_def)

theorem exec_move_ok:
  assumes "exec_move now i x items x' items'" "exec_ok i x items"
  shows "exec_ok i x' items'"
  using assms
proof (induction rule: exec_move.induct)
  case (prepare x items)
  have "content_ok x" "ex_Status x \<noteq> ExecutionSucceeded" using prepare by (auto simp: exec_ok_def)
  with prepare show ?case
    unfolding exec_ok_snoc using expire_last_superseded [OF prepare(3,1,2)] numbered_expire_last [of i items now]
    by (auto simp: exec_ok_def numbered_snoc cost_ok_def content_ok_def prepared_pairs)
next
  case (activate a token nonceHash x before expires nonceKeyVersion)
  then show ?case
    unfolding exec_ok_snoc by (auto simp: numbered_snoc cost_ok_def content_ok_def prepared_pairs active_pairs fenced_def)
next
  case (dispatched a x before)
  then show ?case unfolding exec_ok_snoc by (auto simp: numbered_snoc fenced_def)
next
  case (fail a x before)
  then show ?case
    unfolding exec_ok_snoc by (auto simp: numbered_snoc fenced_closed cost_ok_def content_ok_def active_pairs status_pairs_def)
next
  case (request x items)
  then show ?case
    by (auto simp: exec_ok_def cost_ok_def content_ok_def status_ok_def status_pairs_def)
next
  case (cancel_idle x)
  then show ?case by (auto simp: exec_ok_def cost_ok_def content_ok_def status_ok_def cancelled_execution_def)
next
  case (cancel x a before)
  then show ?case
    unfolding exec_ok_snoc
    by (auto simp: numbered_snoc fenced_closed cost_ok_def content_ok_def cancelled_execution_def status_pairs_def)
next
  case (usage a used x before)
  then show ?case unfolding exec_ok_snoc by (auto simp: cost_ok_def content_ok_def)
next
  case (cost_stop a x before)
  then show ?case
    unfolding exec_ok_snoc
    by (auto simp: numbered_snoc fenced_closed cost_ok_def content_ok_def cost_stopped_execution_def active_pairs status_pairs_def)
next
  case (finish a x used success contentHash deliverableRef before)
  then show ?case
    unfolding exec_ok_snoc
    by (auto simp: numbered_snoc fenced_closed cost_ok_def content_ok_def finished_execution_def status_pairs_def report_ok_def)
qed

text \<open>
  The methods of the repository refine the state machine: under the invariant every method leaves the
  executions as they are, creates one, or performs one move. \<open>exec_step\<close> is one method call by any
  request, with the arguments the service has validated; \<open>exec_reachable\<close> closes the empty repository
  under it, so it covers every interleaving of service calls.
\<close>

section \<open>Steps\<close>

text \<open>The observations \<open>Poll\<close> submits.\<close>

definition observation_ok :: "observation \<Rightarrow> bool" where
  "observation_ok ob \<longleftrightarrow> valid_money (to_UsedCost ob) \<and> to_Status ob \<in> {ExecutionSucceeded, ExecutionFailed, ExecutionCancelled} \<and>
     report_ok (to_Status ob = ExecutionSucceeded) (to_ContentHash ob) (to_DeliverableRef ob)"

inductive exec_step :: "exec_env \<Rightarrow> exec_repo \<Rightarrow> exec_repo \<Rightarrow> bool" for E :: exec_env where
  create: "validate_spec E s now = Inr () \<Longrightarrow> exec_step E r (fst (get_or_create now s r))"
| prepare: "exec_step E r (fst (prepare_attempt now i r))"
| activate: "exec_step E r (fst (activate_attempt now i n lease nonceHash nonceKeyVersion r))"
| dispatched: "exec_step E r (fst (record_dispatch now i n r))"
| fail: "exec_step E r (fst (fail_attempt now i n fencingToken r))"
| request: "exec_step E r (fst (request_cancel now i r))"
| complete: "n > 0 \<or> attempts_of r i = [] \<Longrightarrow> exec_step E r (fst (complete_cancel now i n fencingToken r))"
| usage: "exec_step E r (fst (record_usage now i n fencingToken used r))"
| callback: "verify_callback E maxSkew now c signature = Inr v \<Longrightarrow> exec_step E r (fst (apply_callback now' v r))"
| observe: "observation_ok (vo_Observation v) \<Longrightarrow> exec_step E r (fst (apply_terminal_observation now v r))"

abbreviation exec_steps :: "exec_env \<Rightarrow> exec_repo \<Rightarrow> exec_repo \<Rightarrow> bool" where
  "exec_steps E \<equiv> (exec_step E)\<^sup>*\<^sup>*"

definition exec_reachable :: "exec_env \<Rightarrow> exec_repo \<Rightarrow> bool" where
  "exec_reachable E r \<longleftrightarrow> exec_steps E new_exec_repository r"

section \<open>The invariant of the repository\<close>

definition exec_inv :: "exec_repo \<Rightarrow> bool" where
  "exec_inv r \<longleftrightarrow>
     (\<forall>i x. gget (er_executions r) i = Some x \<longrightarrow> exec_ok i x (attempts_of r i) \<and>
        gget (er_idempotency r) (sp_IdempotencyKey (ex_Spec x)) = Some i) \<and>
     (\<forall>i. gget (er_executions r) i = None \<longrightarrow> attempts_of r i = []) \<and>
     (\<forall>k i. gget (er_idempotency r) k = Some i \<longrightarrow> (\<exists>x. gget (er_executions r) i = Some x \<and> sp_IdempotencyKey (ex_Spec x) = k))"

lemma exec_inv_get: "exec_inv r \<Longrightarrow> gget (er_executions r) i = Some x \<Longrightarrow> exec_ok i x (attempts_of r i)"
  by (simp add: exec_inv_def)

lemma exec_inv_idempotency: "exec_inv r \<Longrightarrow> gget (er_executions r) i = Some x \<Longrightarrow> gget (er_idempotency r) (sp_IdempotencyKey (ex_Spec x)) = Some i"
  by (simp add: exec_inv_def)

lemma exec_inv_key:
  "exec_inv r \<Longrightarrow> gget (er_idempotency r) k = Some i \<Longrightarrow> \<exists>x. gget (er_executions r) i = Some x \<and> sp_IdempotencyKey (ex_Spec x) = k"
  unfolding exec_inv_def by blast

lemma exec_inv_new: "exec_inv new_exec_repository"
  by (simp add: exec_inv_def new_exec_repository_def attempts_of_def)

section \<open>What a method may do\<close>

definition same_executions :: "exec_repo \<Rightarrow> exec_repo \<Rightarrow> bool" where
  "same_executions r r' \<longleftrightarrow> er_executions r' = er_executions r \<and> er_attempts r' = er_attempts r \<and> er_idempotency r' = er_idempotency r"

definition fresh_execution :: "gotime \<Rightarrow> spec \<Rightarrow> execution" where
  "fresh_execution now s = \<lparr>ex_Spec = s, ex_Status = ExecutionPending, ex_CurrentAttempt = 0, ex_UsedCost = ''0'', ex_ContentHash = [],
     ex_DeliverableRef = [], ex_CreatedAt = now, ex_UpdatedAt = now, ex_CancelledAt = None\<rparr>"

definition creates :: "exec_env \<Rightarrow> exec_repo \<Rightarrow> exec_repo \<Rightarrow> bool" where
  "creates E r r' \<longleftrightarrow> (\<exists>now s. validate_spec E s now = Inr () \<and> gget (er_executions r) (sp_LogicalExecutionID s) = None \<and>
     gget (er_idempotency r) (sp_IdempotencyKey s) \<in> {None, Some (sp_LogicalExecutionID s)} \<and>
     er_executions r' = gput (sp_LogicalExecutionID s) (fresh_execution now s) (er_executions r) \<and> er_attempts r' = er_attempts r \<and>
     er_idempotency r' = gput (sp_IdempotencyKey s) (sp_LogicalExecutionID s) (er_idempotency r))"

definition moves :: "exec_repo \<Rightarrow> exec_repo \<Rightarrow> bool" where
  "moves r r' \<longleftrightarrow> (\<exists>now i x x' items'. gget (er_executions r) i = Some x \<and> exec_move now i x (attempts_of r i) x' items' \<and>
     (\<forall>j. gget (er_executions r') j = (if j = i then Some x' else gget (er_executions r) j)) \<and>
     (\<forall>j. attempts_of r' j = (if j = i then items' else attempts_of r j)) \<and> er_idempotency r' = er_idempotency r)"

lemma movesI:
  assumes "gget (er_executions r) i = Some x" "exec_move now i x (attempts_of r i) x' items'"
    and "\<And>j. gget (er_executions r') j = (if j = i then Some x' else gget (er_executions r) j)"
    and "\<And>j. attempts_of r' j = (if j = i then items' else attempts_of r j)" "er_idempotency r' = er_idempotency r"
  shows "moves r r'"
  unfolding moves_def using assms by metis

lemma same_executions_refl [simp]: "same_executions r r"
  by (simp add: same_executions_def)

lemma same_executions_record [simp]: "same_executions r (record_callback v a r)" "same_executions r (record_observation w b r)"
  by (simp_all add: same_executions_def)

lemma attempts_of_same: "same_executions r r' \<Longrightarrow> attempts_of r' i = attempts_of r i"
  by (simp add: same_executions_def attempts_of_def)

section \<open>The invariant is inductive\<close>

lemma same_executions_inv: "same_executions r r' \<Longrightarrow> exec_inv r \<Longrightarrow> exec_inv r'"
  unfolding exec_inv_def by (simp add: attempts_of_same) (simp add: same_executions_def)

lemma fresh_execution_ok: "validate_spec E s now = Inr () \<Longrightarrow> exec_ok (sp_LogicalExecutionID s) (fresh_execution now' s) []"
  using validate_spec_facts [of E s now] valid_money_amount [of "sp_CostCap s"]
  by (auto simp: exec_ok_def fresh_execution_def numbered_def superseded_def status_ok_def cost_ok_def content_ok_def report_ok_def)

lemma creates_inv:
  assumes "creates E r r'" "exec_inv r"
  shows "exec_inv r'"
proof -
  from assms(1) obtain now s where s: "validate_spec E s now = Inr ()" "gget (er_executions r) (sp_LogicalExecutionID s) = None"
    "gget (er_idempotency r) (sp_IdempotencyKey s) \<in> {None, Some (sp_LogicalExecutionID s)}"
    "er_executions r' = gput (sp_LogicalExecutionID s) (fresh_execution now s) (er_executions r)" "er_attempts r' = er_attempts r"
    "er_idempotency r' = gput (sp_IdempotencyKey s) (sp_LogicalExecutionID s) (er_idempotency r)"
    by (auto simp: creates_def)
  have items: "attempts_of r' j = attempts_of r j" for j using s(5) by (simp add: attempts_of_def)
  have none: "attempts_of r (sp_LogicalExecutionID s) = []" using assms(2) s(2) by (simp add: exec_inv_def)
  have spec: "ex_Spec (fresh_execution now s) = s" by (simp add: fresh_execution_def)
  have unused: "gget (er_idempotency r) (sp_IdempotencyKey s) = None"
    using s(2,3) exec_inv_key [OF assms(2), of "sp_IdempotencyKey s"] by auto
  show ?thesis
    unfolding exec_inv_def
  proof (intro conjI allI impI)
    fix i x assume g: "gget (er_executions r') i = Some x"
    show "exec_ok i x (attempts_of r' i)"
      using g s(4) fresh_execution_ok [OF s(1)] assms(2) none by (auto simp: items exec_inv_def split: if_splits)
    show "gget (er_idempotency r') (sp_IdempotencyKey (ex_Spec x)) = Some i"
      using g s(4,6) spec exec_inv_idempotency [OF assms(2), of i x] unused by (auto split: if_splits)
  next
    fix i assume "gget (er_executions r') i = None"
    then show "attempts_of r' i = []" using s(4) assms(2) by (auto simp: items exec_inv_def split: if_splits)
  next
    fix k i assume g: "gget (er_idempotency r') k = Some i"
    show "\<exists>x. gget (er_executions r') i = Some x \<and> sp_IdempotencyKey (ex_Spec x) = k"
    proof (cases "k = sp_IdempotencyKey s")
      case True
      then show ?thesis using g s(4,6) spec by simp
    next
      case False
      then obtain x where "gget (er_executions r) i = Some x" "sp_IdempotencyKey (ex_Spec x) = k"
        using g s(6) exec_inv_key [OF assms(2), of k i] by auto
      then show ?thesis using s(2,4) by auto
    qed
  qed
qed

lemma exec_move_spec: "exec_move now i x items x' items' \<Longrightarrow> ex_Spec x' = ex_Spec x"
  by (induction rule: exec_move.induct) (auto simp: cancelled_execution_def cost_stopped_execution_def finished_execution_def)

lemma moves_inv:
  assumes "moves r r'" "exec_inv r"
  shows "exec_inv r'"
proof -
  from assms(1) obtain now i x x' items' where m: "gget (er_executions r) i = Some x" "exec_move now i x (attempts_of r i) x' items'"
    "\<And>j. gget (er_executions r') j = (if j = i then Some x' else gget (er_executions r) j)"
    "\<And>j. attempts_of r' j = (if j = i then items' else attempts_of r j)" "er_idempotency r' = er_idempotency r"
    by (auto simp: moves_def)
  have ok: "exec_ok i x' items'" using exec_move_ok [OF m(2)] assms(2) m(1) by (simp add: exec_inv_def)
  have spec: "ex_Spec x' = ex_Spec x" by (rule exec_move_spec [OF m(2)])
  show ?thesis
    unfolding exec_inv_def
  proof (intro conjI allI impI)
    fix j y assume g: "gget (er_executions r') j = Some y"
    show "exec_ok j y (attempts_of r' j)" using g m(3,4) ok assms(2) by (auto simp: exec_inv_def split: if_splits)
    show "gget (er_idempotency r') (sp_IdempotencyKey (ex_Spec y)) = Some j"
      using g m(1,3,5) spec assms(2) by (auto simp: exec_inv_def split: if_splits)
  next
    fix j assume "gget (er_executions r') j = None"
    then show "attempts_of r' j = []" using m(3,4) assms(2) by (auto simp: exec_inv_def split: if_splits)
  next
    fix k j assume "gget (er_idempotency r') k = Some j"
    then obtain y where y: "gget (er_executions r) j = Some y" "sp_IdempotencyKey (ex_Spec y) = k"
      using exec_inv_key [OF assms(2), of k j] m(5) by auto
    then show "\<exists>y. gget (er_executions r') j = Some y \<and> sp_IdempotencyKey (ex_Spec y) = k"
      using m(1,3) spec by (cases "j = i") auto
  qed
qed

end
