(* ===== verification/Execution_Refine.thy ===== *)
theory Execution_Refine
  imports Execution_Machine
begin

text \<open>
  Every method of the repository refines the state machine, and so does every call of the service: the
  repository after a service call is reached by steps from the repository before it, when the remote
  calls it makes leave the repository to steps of other requests.
\<close>

section \<open>Looking up an attempt\<close>

lemma locked_attempt_last:
  assumes "exec_inv r" "locked_attempt i n r = Inr (x, a)"
  shows "gget (er_executions r) i = Some x \<and> (\<exists>before. attempts_of r i = before @ [a] \<and> n = int (length before) + 1 \<and>
    (\<forall>b. put_attempt i n b r = put_attempts i (before @ [b]) r)) \<and> ex_CurrentAttempt x = n"
proof -
  from assms(2) have x: "gget (er_executions r) i = Some x" and n: "1 \<le> n" "n \<le> int (length (attempts_of r i))" "ex_CurrentAttempt x = n"
    and a: "a = attempts_of r i ! nat (n - 1)" by (auto simp: locked_attempt_def split: option.splits if_splits)
  have "n = int (length (attempts_of r i))" using exec_inv_get [OF assms(1) x] n(3) by (simp add: exec_ok_def)
  moreover from this n(1) obtain before b where "attempts_of r i = before @ [b]" by (cases "attempts_of r i" rule: rev_cases) auto
  moreover from calculation have "nat (n - 1) = length before" by simp
  ultimately show ?thesis using x n(3) a by (auto simp: put_attempt_def)
qed

lemma attempt_id_inject: "attempt_id i m = attempt_id i n \<longleftrightarrow> m = n"
proof -
  have "nat_string m = nat_string n \<longleftrightarrow> m = n" by (metis nat_of_digits_string)
  then show ?thesis by (simp add: attempt_id_def)
qed

lemma find_attempt_at: "find_attempt items d = Some k \<Longrightarrow> k < length items \<and> at_AttemptID (items ! k) = d"
  by (auto simp: find_attempt_def find_Some_iff)

lemma last_index: "k < length items \<Longrightarrow> k = length items - 1 \<Longrightarrow> \<exists>before. items = before @ [items ! k] \<and> k = length before"
  by (cases items rule: rev_cases) auto

section \<open>The methods\<close>

lemma get_or_create_shape:
  "validate_spec E s now = Inr () \<Longrightarrow> same_executions r (fst (get_or_create now s r)) \<or> creates E r (fst (get_or_create now s r))"
  unfolding get_or_create_def creates_def fresh_execution_def
  by (auto simp: put_execution_def Let_def split: option.splits if_splits)

lemma prepare_attempt_shape:
  assumes "exec_inv r"
  shows "same_executions r (fst (prepare_attempt now i r)) \<or> moves r (fst (prepare_attempt now i r))"
proof (cases "fst (prepare_attempt now i r) = r")
  case False
  then obtain x where x: "gget (er_executions r) i = Some x"
    and st: "ex_Status x \<notin> {ExecutionSucceeded, ExecutionCancelled, ExecutionCancelRequested, ExecutionCostStopped}"
    and closed: "attempts_of r i = [] \<or> \<not> lease_open now (last (attempts_of r i))"
    and r': "fst (prepare_attempt now i r) =
      put_execution i (x\<lparr>ex_Status := ExecutionPending, ex_CurrentAttempt := int (length (attempts_of r i) + 1), ex_UpdatedAt := now\<rparr>)
        (put_attempts i (expire_last now (attempts_of r i) @ [new_attempt i (length (attempts_of r i) + 1) now]) r)"
    by (auto simp: prepare_attempt_def lease_open_def Let_def split: option.splits if_splits)
  have "ex_Status x \<in> {ExecutionPending, ExecutionRunning, ExecutionFailed}"
    using exec_inv_get [OF assms x] st by (auto simp: exec_ok_def status_ok_def status_pairs_def split: if_splits)
  then have "moves r (fst (prepare_attempt now i r))"
    unfolding r' by (intro movesI [OF x exec_move.prepare [OF _ closed]]) auto
  then show ?thesis ..
qed simp

lemma activate_attempt_shape:
  assumes "exec_inv r"
  shows "same_executions r (fst (activate_attempt now i n lease h kv r)) \<or> moves r (fst (activate_attempt now i n lease h kv r))"
proof (cases "fst (activate_attempt now i n lease h kv r) = r")
  case False
  then obtain x a where l: "locked_attempt i n r = Inr (x, a)" and g: "at_Status a = AttemptPrepared" "1 \<le> le_FencingToken lease" "valid_digest h"
    and r': "fst (activate_attempt now i n lease h kv r) = put_execution i (x\<lparr>ex_Status := ExecutionRunning, ex_UpdatedAt := now\<rparr>)
      (put_attempt i n (a\<lparr>at_Status := AttemptActive, at_FencingToken := le_FencingToken lease, at_LeaseExpiresAt := le_ExpiresAt lease,
         at_CallbackNonceHash := h, at_NonceKeyVersion := kv, at_UpdatedAt := now\<rparr>) r)"
    by (auto simp: activate_attempt_def Let_def split: sum.splits if_splits)
  from locked_attempt_last [OF assms l] obtain before where x: "gget (er_executions r) i = Some x" "attempts_of r i = before @ [a]"
    "\<And>b. put_attempt i n b r = put_attempts i (before @ [b]) r" by blast
  have "moves r (fst (activate_attempt now i n lease h kv r))"
    unfolding r' x(3) by (rule movesI [OF x(1)], unfold x(2), rule exec_move.activate [OF g]) auto
  then show ?thesis ..
qed simp

lemma record_dispatch_shape:
  assumes "exec_inv r"
  shows "same_executions r (fst (record_dispatch now i n r)) \<or> moves r (fst (record_dispatch now i n r))"
proof (cases "fst (record_dispatch now i n r) = r")
  case False
  then obtain x a where l: "locked_attempt i n r = Inr (x, a)" and g: "at_Status a = AttemptActive"
    and r': "fst (record_dispatch now i n r) = put_attempt i n (a\<lparr>at_DispatchCount := wrap64 (at_DispatchCount a + 1), at_UpdatedAt := now\<rparr>) r"
    by (auto simp: record_dispatch_def split: sum.splits if_splits)
  from locked_attempt_last [OF assms l] obtain before where x: "gget (er_executions r) i = Some x" "attempts_of r i = before @ [a]"
    "\<And>b. put_attempt i n b r = put_attempts i (before @ [b]) r" by blast
  have "moves r (fst (record_dispatch now i n r))"
    unfolding r' x(3) by (rule movesI [OF x(1)], unfold x(2), rule exec_move.dispatched [OF g]) (auto simp: x(1))
  then show ?thesis ..
qed simp

lemma fail_attempt_shape:
  assumes "exec_inv r"
  shows "same_executions r (fst (fail_attempt now i n token r)) \<or> moves r (fst (fail_attempt now i n token r))"
proof (cases "fst (fail_attempt now i n token r) = r")
  case False
  then obtain x a where l: "locked_attempt i n r = Inr (x, a)" and g: "at_Status a = AttemptActive"
    and r': "fst (fail_attempt now i n token r) = put_execution i (x\<lparr>ex_Status := ExecutionFailed, ex_UpdatedAt := now\<rparr>)
      (put_attempt i n (closed_attempt now AttemptFailed a) r)"
    by (auto simp: fail_attempt_def closed_attempt_def split: sum.splits if_splits)
  from locked_attempt_last [OF assms l] obtain before where x: "gget (er_executions r) i = Some x" "attempts_of r i = before @ [a]"
    "\<And>b. put_attempt i n b r = put_attempts i (before @ [b]) r" by blast
  have "moves r (fst (fail_attempt now i n token r))"
    unfolding r' x(3) by (rule movesI [OF x(1)], unfold x(2), rule exec_move.fail [OF g]) auto
  then show ?thesis ..
qed simp

lemma request_cancel_shape:
  "same_executions r (fst (request_cancel now i r)) \<or> moves r (fst (request_cancel now i r))"
proof (cases "fst (request_cancel now i r) = r")
  case False
  then obtain x where x: "gget (er_executions r) i = Some x"
    and st: "ex_Status x \<notin> {ExecutionSucceeded, ExecutionCostStopped, ExecutionCancelled}"
    and r': "fst (request_cancel now i r) = put_execution i (x\<lparr>ex_Status := ExecutionCancelRequested, ex_UpdatedAt := now\<rparr>) r"
    by (auto simp: request_cancel_def Let_def split: option.splits if_splits)
  have "moves r (fst (request_cancel now i r))"
    unfolding r' by (rule movesI [OF x exec_move.request [OF st]]) auto
  then show ?thesis ..
qed simp

lemma complete_cancel_shape:
  assumes "exec_inv r" "n > 0 \<or> attempts_of r i = []"
  shows "same_executions r (fst (complete_cancel now i n token r)) \<or> moves r (fst (complete_cancel now i n token r))"
proof (cases "fst (complete_cancel now i n token r) = r")
  case False
  then obtain x where x: "gget (er_executions r) i = Some x" and st: "ex_Status x = ExecutionCancelRequested"
    by (auto simp: complete_cancel_def split: option.splits if_splits)
  show ?thesis
  proof (cases "n > 0")
    case True
    with False x st obtain y a where l: "locked_attempt i n r = Inr (y, a)"
      and g: "at_Status a \<in> {AttemptActive, AttemptPrepared, AttemptCancelled}"
      and r': "fst (complete_cancel now i n token r) = put_execution i (cancelled_execution now x)
        (put_attempt i n (closed_attempt now AttemptCancelled a) r)"
      by (auto simp: complete_cancel_def closed_attempt_def split: sum.splits if_splits)
    from locked_attempt_last [OF assms(1) l] obtain before where y: "gget (er_executions r) i = Some y" "attempts_of r i = before @ [a]"
      "\<And>b. put_attempt i n b r = put_attempts i (before @ [b]) r" by blast
    have "(ex_Status x, at_Status a) \<in> status_pairs" using exec_inv_get [OF assms(1) x] y(2) by (simp add: exec_ok_snoc)
    with g st have g': "at_Status a \<in> {AttemptActive, AttemptPrepared}" by (auto simp: status_pairs_def)
    have "moves r (fst (complete_cancel now i n token r))"
      unfolding r' y(3) by (rule movesI [OF x], unfold y(2), rule exec_move.cancel [OF st g']) auto
    then show ?thesis ..
  next
    case n: False
    then have r': "fst (complete_cancel now i n token r) = put_execution i (cancelled_execution now x) r"
      using x st by (simp add: complete_cancel_def)
    have none: "attempts_of r i = []" using n assms(2) by simp
    have "moves r (fst (complete_cancel now i n token r))"
      unfolding r' by (rule movesI [OF x], unfold none, rule exec_move.cancel_idle [OF st]) (use none in auto)
    then show ?thesis ..
  qed
qed simp

lemma record_usage_shape:
  assumes "exec_inv r"
  shows "same_executions r (fst (record_usage now i n token used r)) \<or> moves r (fst (record_usage now i n token used r))"
proof (cases "fst (record_usage now i n token used r) = r")
  case False
  then obtain x a where l: "locked_attempt i n r = Inr (x, a)" and g: "at_Status a = AttemptActive" and v: "valid_money used"
    by (auto simp: record_usage_def split: sum.splits if_splits)
  from locked_attempt_last [OF assms l] obtain before where x: "gget (er_executions r) i = Some x" "attempts_of r i = before @ [a]"
    "\<And>b. put_attempt i n b r = put_attempts i (before @ [b]) r" by blast
  have c: "is_amount (ex_UsedCost x)" "is_amount (sp_CostCap (ex_Spec x))" "is_amount used"
    using exec_inv_get [OF assms x(1)] v by (auto simp: exec_ok_def cost_ok_def)
  note cmp = compare_money_amount [OF c(3,1)] compare_money_amount [OF c(3,2)]
  show ?thesis
  proof (cases "money_int (sp_CostCap (ex_Spec x)) < money_int used")
    case True
    with False l have r': "fst (record_usage now i n token used r) =
        put_execution i (cost_stopped_execution now x) (put_attempt i n (closed_attempt now AttemptFailed a) r)"
      by (auto simp: record_usage_def cmp split: if_splits)
    have "moves r (fst (record_usage now i n token used r))"
      unfolding r' x(3) by (rule movesI [OF x(1)], unfold x(2), rule exec_move.cost_stop [OF g]) auto
    then show ?thesis ..
  next
    case within: False
    with False l have r': "fst (record_usage now i n token used r) = put_execution i (x\<lparr>ex_UsedCost := used, ex_UpdatedAt := now\<rparr>) r"
      and u: "money_int (ex_UsedCost x) \<le> money_int used"
      by (auto simp: record_usage_def cmp Let_def split: if_splits)
    have "moves r (fst (record_usage now i n token used r))"
      unfolding r' by (rule movesI [OF x(1)], unfold x(2), rule exec_move.usage [OF g v u]) (use within x(2) in auto)
    then show ?thesis ..
  qed
qed simp

section \<open>Terminal reports\<close>

lemma callback_effect_move:
  assumes "exec_ok i x (before @ [a])" "at_Status a = AttemptActive" "ex_Status x = ExecutionRunning" "validate_callback c t skew = Inr ()"
    and "callback_effect now c x a = Inr (x', a', outcome, stop)"
  shows "exec_move now i x (before @ [a]) x' (before @ [a'])"
proof -
  have amounts: "is_amount (ex_UsedCost x)" "is_amount (sp_CostCap (ex_Spec x))" "is_amount (cb_UsedCost c)" "valid_money (cb_UsedCost c)"
    using assms(1) validate_callback_facts [OF assms(4)] by (auto simp: exec_ok_def cost_ok_def)
  note cmp = compare_money_amount [OF amounts(3,1)] compare_money_amount [OF amounts(3,2)]
  have le: "money_int (ex_UsedCost x) \<le> money_int (cb_UsedCost c)" using assms(5) by (auto simp: callback_effect_def cmp split: if_splits)
  show ?thesis
  proof (cases "money_int (sp_CostCap (ex_Spec x)) < money_int (cb_UsedCost c)")
    case True
    with assms(5) le have "x' = cost_stopped_execution now x" "a' = closed_attempt now AttemptFailed a"
      by (auto simp: callback_effect_def cmp split: if_splits)
    then show ?thesis using exec_move.cost_stop [OF assms(2)] by simp
  next
    case False
    let ?ok = "cb_Status c = CallbackSucceeded"
    from False assms(5) le have "x' = finished_execution now (cb_UsedCost c) ?ok (cb_ContentHash c) (cb_DeliverableRef c) x"
      "a' = closed_attempt now (if ?ok then AttemptCompleted else AttemptFailed) a"
      by (auto simp: callback_effect_def cmp split: if_splits)
    moreover have "report_ok ?ok (cb_ContentHash c) (cb_DeliverableRef c)"
      using validate_callback_facts [OF assms(4)] by (auto simp: report_ok_def)
    ultimately show ?thesis using exec_move.finish [OF assms(2,3) amounts(4) le, of ?ok] False by simp
  qed
qed

text \<open>What an applied callback does: replayed, refused, recorded as late or stale, or it ends the active attempt.\<close>

lemma apply_callback_cases:
  obtains (kept) "fst (apply_callback now v r) = r" "\<forall>a. snd (apply_callback now v r) = Inr a \<longrightarrow> cr_Replay a"
  | (late) result where "gget (er_callbacks r) (vc_NonceHash v) = None" "fst (apply_callback now v r) = record_callback v result r"
      "snd (apply_callback now v r) = Inr result" "cr_Replay result = False" "cr_Outcome result \<in> {CallbackStaleFence, CallbackLate}"
  | (ended) x before a x' a' outcome stop result where "gget (er_callbacks r) (vc_NonceHash v) = None"
      "gget (er_executions r) (cb_LogicalExecutionID (vc_Callback v)) = Some x"
      "attempts_of r (cb_LogicalExecutionID (vc_Callback v)) = before @ [a]" "at_AttemptID a = cb_AttemptID (vc_Callback v)"
      "cb_AgentID (vc_Callback v) = sp_AgentID (ex_Spec x)" "at_CallbackNonceHash a = vc_NonceHash v"
      "at_FencingToken a = cb_FencingToken (vc_Callback v)" "at_LeaseExpiresAt a > now" "at_Status a = AttemptActive"
      "ex_Status x \<notin> {ExecutionCancelRequested, ExecutionCancelled, ExecutionCostStopped}"
      "callback_effect now (vc_Callback v) x a = Inr (x', a', outcome, stop)"
      "fst (apply_callback now v r) = record_callback v result
         (put_attempts (cb_LogicalExecutionID (vc_Callback v)) (before @ [a'])
           (put_execution (cb_LogicalExecutionID (vc_Callback v)) x' r))"
      "snd (apply_callback now v r) = Inr result"
      "result = \<lparr>cr_Execution = x', cr_Outcome = outcome, cr_Replay = False, cr_ShouldCancel = stop\<rparr>"
proof (cases "gget (er_callbacks r) (vc_NonceHash v)")
  case None
  let ?c = "vc_Callback v"
  let ?i = "cb_LogicalExecutionID ?c"
  show thesis
  proof (cases "gget (er_executions r) ?i")
    case None': None
    then show thesis by (intro kept) (simp_all add: apply_callback_def None Let_def)
  next
    case (Some x)
    show thesis
    proof (cases "find_attempt (attempts_of r ?i) (cb_AttemptID ?c)")
      case None'': None
      then show thesis by (intro kept) (simp_all add: apply_callback_def None Some Let_def)
    next
      case k: (Some k)
      let ?a = "attempts_of r ?i ! k"
      let ?res = "\<lparr>cr_Execution = x, cr_Outcome = CallbackAccepted, cr_Replay = False, cr_ShouldCancel = False\<rparr>"
      have eq: "apply_callback now v r =
        (if cb_AgentID ?c \<noteq> sp_AgentID (ex_Spec x) then (r, Inl XErrInvalidCallback)
         else if at_CallbackNonceHash ?a \<noteq> vc_NonceHash v then (r, Inl XErrCallbackReplay)
         else if at_FencingToken ?a \<noteq> cb_FencingToken ?c \<or> k \<noteq> length (attempts_of r ?i) - 1 \<or> \<not> at_LeaseExpiresAt ?a > now
         then (record_callback v (?res\<lparr>cr_Outcome := CallbackStaleFence\<rparr>) r, Inr (?res\<lparr>cr_Outcome := CallbackStaleFence\<rparr>))
         else if ex_Status x = ExecutionCancelRequested \<or> ex_Status x = ExecutionCancelled \<or> ex_Status x = ExecutionCostStopped \<or>
             at_Status ?a \<noteq> AttemptActive
         then (record_callback v (?res\<lparr>cr_Outcome := CallbackLate\<rparr>) r, Inr (?res\<lparr>cr_Outcome := CallbackLate\<rparr>))
         else case callback_effect now ?c x ?a of
            Inl e \<Rightarrow> (r, Inl e)
          | Inr (x', a', outcome, stop) \<Rightarrow>
              (record_callback v (?res\<lparr>cr_Execution := x', cr_Outcome := outcome, cr_ShouldCancel := stop\<rparr>)
                 (put_attempts ?i ((attempts_of r ?i)[k := a']) (put_execution ?i x' r)),
               Inr (?res\<lparr>cr_Execution := x', cr_Outcome := outcome, cr_ShouldCancel := stop\<rparr>)))"
        unfolding apply_callback_def None option.case Let_def Some k by (simp split: sum.splits prod.splits)
      show thesis
      proof (cases "\<exists>e. apply_callback now v r = (r, Inl e)")
        case True then show thesis by (intro kept) auto
      next
        case ch: False
        show thesis
        proof (cases "at_FencingToken ?a \<noteq> cb_FencingToken ?c \<or> k \<noteq> length (attempts_of r ?i) - 1 \<or> \<not> at_LeaseExpiresAt ?a > now")
          case True
          with ch eq show thesis by (intro late [of "?res\<lparr>cr_Outcome := CallbackStaleFence\<rparr>"]) (auto simp: None split: if_splits)
        next
          case fence: False
          show thesis
          proof (cases "ex_Status x = ExecutionCancelRequested \<or> ex_Status x = ExecutionCancelled \<or> ex_Status x = ExecutionCostStopped \<or>
             at_Status ?a \<noteq> AttemptActive")
            case True
            with ch eq fence show thesis by (intro late [of "?res\<lparr>cr_Outcome := CallbackLate\<rparr>"]) (auto simp: None split: if_splits)
          next
            case live: False
            from find_attempt_at [OF k] fence obtain before where b: "attempts_of r ?i = before @ [?a]" "k = length before"
              and id: "at_AttemptID ?a = cb_AttemptID ?c"
              using last_index by blast
            have upd: "(attempts_of r ?i)[k := z] = before @ [z]" for z by (subst b(1)) (simp add: b(2))
            from ch eq fence live obtain x' a' outcome stop where eff: "callback_effect now ?c x ?a = Inr (x', a', outcome, stop)"
              by (auto split: if_splits sum.splits prod.splits)
            from ch eq fence live have g: "cb_AgentID ?c = sp_AgentID (ex_Spec x)" "at_CallbackNonceHash ?a = vc_NonceHash v"
              by (auto split: if_splits)
            show thesis
              by (rule ended [OF None Some b(1) id g _ _ _ _ eff, where result = "?res\<lparr>cr_Execution := x', cr_Outcome := outcome, cr_ShouldCancel := stop\<rparr>"])
                (use fence live g eq eff upd in simp_all)
          qed
        qed
      qed
    qed
  qed
next
  case (Some p)
  then show thesis by (intro kept) (simp_all add: apply_callback_def)
qed

end
