(* ===== verification/Execution_Reports.thy ===== *)
theory Execution_Reports
  imports Execution_Refine
begin

text \<open>Reports about executions, and the calls of the service as sequences of repository steps.\<close>

text \<open>
  Observations, the step theorem (every method call leaves the executions, creates one or makes one move),
  and the record of answered callbacks and observations, which only grows.
\<close>

section \<open>Observations\<close>

lemma observation_effect_move:
  assumes "exec_ok i x (before @ [a])" "at_Status a = AttemptActive" "ex_Status x = ExecutionRunning" "observation_ok ob"
    and "money_int (ex_UsedCost x) \<le> money_int (to_UsedCost ob)" "observation_effect now ob x a = Inr (x', a', outcome, stop)"
  shows "exec_move now i x (before @ [a]) x' (before @ [a'])"
proof -
  have amounts: "is_amount (sp_CostCap (ex_Spec x))" "is_amount (to_UsedCost ob)" "valid_money (to_UsedCost ob)"
    using assms(1,4) by (auto simp: exec_ok_def cost_ok_def observation_ok_def)
  note cmp = compare_money_amount [OF amounts(2,1)]
  show ?thesis
  proof (cases "money_int (sp_CostCap (ex_Spec x)) < money_int (to_UsedCost ob)")
    case True
    with assms(6) have "x' = cost_stopped_execution now x" "a' = closed_attempt now AttemptFailed a"
      by (auto simp: observation_effect_def cmp split: if_splits)
    then show ?thesis using exec_move.cost_stop [OF assms(2)] by simp
  next
    case False
    let ?ok = "to_Status ob = ExecutionSucceeded"
    from False assms(6) have "x' = finished_execution now (to_UsedCost ob) ?ok (to_ContentHash ob) (to_DeliverableRef ob) x"
      "a' = closed_attempt now (if ?ok then AttemptCompleted else AttemptFailed) a"
      by (auto simp: observation_effect_def cmp split: if_splits)
    moreover have "report_ok ?ok (to_ContentHash ob) (to_DeliverableRef ob)" using assms(4) by (simp add: observation_ok_def)
    ultimately show ?thesis using exec_move.finish [OF assms(2,3) amounts(3) assms(5), of ?ok] False by simp
  qed
qed

lemma apply_terminal_observation_cases:
  obtains (kept) "fst (apply_terminal_observation now v r) = r" "\<forall>a. snd (apply_terminal_observation now v r) = Inr a \<longrightarrow> rr_Replay a"
  | (settled) result where "gget (er_reconciled r) (to_AttemptID (vo_Observation v)) = None"
      "fst (apply_terminal_observation now v r) = record_observation v result r" "snd (apply_terminal_observation now v r) = Inr result"
      "rr_Replay result = False"
  | (ended) x before a x' a' outcome stop result rise where "gget (er_reconciled r) (to_AttemptID (vo_Observation v)) = None"
      "gget (er_executions r) (to_LogicalExecutionID (vo_Observation v)) = Some x"
      "attempts_of r (to_LogicalExecutionID (vo_Observation v)) = before @ [a]" "at_FencingToken a = to_FencingToken (vo_Observation v)"
      "at_Status a = AttemptActive" "\<not> terminal_execution (ex_Status x)" "ex_Status x \<noteq> ExecutionCancelRequested"
      "compare_money (to_UsedCost (vo_Observation v)) (ex_UsedCost x) = Some rise" "\<not> rise < 0"
      "observation_effect now (vo_Observation v) x a = Inr (x', a', outcome, stop)"
      "fst (apply_terminal_observation now v r) = record_observation v result
         (put_attempts (to_LogicalExecutionID (vo_Observation v)) (before @ [a'])
           (put_execution (to_LogicalExecutionID (vo_Observation v)) x' r))"
      "snd (apply_terminal_observation now v r) = Inr result" "rr_Replay result = False"
proof (cases "\<exists>p. gget (er_reconciled r) (to_AttemptID (vo_Observation v)) = Some p \<or> (\<exists>e. apply_terminal_observation now v r = (r, Inl e))")
  case True
  then show thesis by (intro kept) (auto simp: apply_terminal_observation_def Let_def split: if_splits)
next
  case False
  let ?o = "vo_Observation v"
  let ?i = "to_LogicalExecutionID ?o"
  from False have none: "gget (er_reconciled r) (to_AttemptID ?o) = None" and ch: "\<And>e. apply_terminal_observation now v r \<noteq> (r, Inl e)"
    by auto
  have not_found: "gget (er_executions r) ?i = None \<Longrightarrow> apply_terminal_observation now v r = (r, Inl XErrNotFound)"
    by (simp add: apply_terminal_observation_def none Let_def)
  with ch obtain x where x: "gget (er_executions r) ?i = Some x" by blast
  have unknown: "find_attempt (attempts_of r ?i) (to_AttemptID ?o) = None \<or> to_AgentID ?o \<noteq> sp_AgentID (ex_Spec x) \<Longrightarrow>
      apply_terminal_observation now v r = (r, Inl XErrInvalidInput)"
    by (auto simp: apply_terminal_observation_def none x Let_def split: option.splits)
  with ch [of XErrInvalidInput] obtain k where k: "find_attempt (attempts_of r ?i) (to_AttemptID ?o) = Some k" "to_AgentID ?o = sp_AgentID (ex_Spec x)"
    by (cases "find_attempt (attempts_of r ?i) (to_AttemptID ?o)") blast+
  let ?a = "attempts_of r ?i ! k"
  let ?res = "\<lparr>rr_Execution = x, rr_Outcome = ReconciliationAccepted, rr_Replay = False, rr_ShouldCancel = False\<rparr>"
  let ?settle = "\<lambda>outcome. (record_observation v (?res\<lparr>rr_Outcome := outcome\<rparr>) r, Inr (?res\<lparr>rr_Outcome := outcome\<rparr>))"
  let ?stale = "at_FencingToken ?a \<noteq> to_FencingToken ?o \<or> k \<noteq> length (attempts_of r ?i) - 1 \<or> ex_CurrentAttempt x \<noteq> at_Number ?a"
  have eq: "apply_terminal_observation now v r =
    (if ?stale then ?settle ReconciliationStaleFence
     else if terminal_execution (ex_Status x) \<or> at_Status ?a \<noteq> AttemptActive then
       if \<not> observation_matches_execution ?o x then (r, Inl XErrContentConflict) else ?settle ReconciliationAlreadyTerminal
     else if ex_Status x = ExecutionCancelRequested then ?settle ReconciliationLate
     else case compare_money (to_UsedCost ?o) (ex_UsedCost x) of
       None \<Rightarrow> (r, Inl XPanic)
     | Some rise \<Rightarrow>
         if rise < 0 then (r, Inl XErrInvalidInput)
         else case observation_effect now ?o x ?a of
           Inl e \<Rightarrow> (r, Inl e)
         | Inr (x', a', outcome, stop) \<Rightarrow>
             (record_observation v (?res\<lparr>rr_Execution := x', rr_Outcome := outcome, rr_ShouldCancel := stop\<rparr>)
                (put_attempts ?i ((attempts_of r ?i)[k := a']) (put_execution ?i x' r)),
              Inr (?res\<lparr>rr_Execution := x', rr_Outcome := outcome, rr_ShouldCancel := stop\<rparr>)))"
    unfolding apply_terminal_observation_def none option.case Let_def x k(1) using k(2) by (simp split: sum.splits prod.splits option.splits)
  show thesis
  proof (cases "?stale \<or> terminal_execution (ex_Status x) \<or> at_Status ?a \<noteq> AttemptActive \<or> ex_Status x = ExecutionCancelRequested")
    case True
    with ch [of XErrContentConflict] have "\<exists>outcome. apply_terminal_observation now v r = ?settle outcome" unfolding eq by (auto split: if_splits)
    then obtain outcome where "apply_terminal_observation now v r = ?settle outcome" by blast
    then show thesis by (intro settled [OF none]) auto
  next
    case live: False
    from find_attempt_at [OF k(1)] live obtain before where b: "attempts_of r ?i = before @ [?a]" "k = length before"
      using last_index by blast
    have upd: "(attempts_of r ?i)[k := z] = before @ [z]" for z by (subst b(1)) (simp add: b(2))
    from live have st: "?stale = False" "(terminal_execution (ex_Status x) \<or> at_Status ?a \<noteq> AttemptActive) = False"
      "(ex_Status x = ExecutionCancelRequested) = False" by blast+
    note eq = eq [unfolded st if_False]
    have "compare_money (to_UsedCost ?o) (ex_UsedCost x) = None \<Longrightarrow> apply_terminal_observation now v r = (r, Inl XPanic)"
      unfolding eq by simp
    with ch [of XPanic] obtain rise where c1: "compare_money (to_UsedCost ?o) (ex_UsedCost x) = Some rise" by blast
    note eq = eq [unfolded c1 option.case]
    have "rise < 0 \<Longrightarrow> apply_terminal_observation now v r = (r, Inl XErrInvalidInput)"
      "observation_effect now ?o x ?a = Inl e \<Longrightarrow> \<not> rise < 0 \<Longrightarrow> apply_terminal_observation now v r = (r, Inl e)" for e
      unfolding eq by simp_all
    with ch obtain x' a' outcome stop where c: "compare_money (to_UsedCost ?o) (ex_UsedCost x) = Some rise" "\<not> rise < 0"
      and eff: "observation_effect now ?o x ?a = Inr (x', a', outcome, stop)"
      using c1 by (cases "observation_effect now ?o x ?a") auto
    let ?done = "?res\<lparr>rr_Execution := x', rr_Outcome := outcome, rr_ShouldCancel := stop\<rparr>"
    have "apply_terminal_observation now v r =
      (record_observation v ?done (put_attempts ?i (before @ [a']) (put_execution ?i x' r)), Inr ?done)"
      unfolding eq eff sum.case prod.case upd using c(2) by simp
    then show thesis
      by (intro ended [OF none x b(1) _ _ _ _ c eff, where result = ?done]) (use live in auto)
  qed
qed

section \<open>The step theorem\<close>

lemma live_status_running: "exec_ok i x (before @ [a]) \<Longrightarrow> at_Status a = AttemptActive \<Longrightarrow> ex_Status x \<noteq> ExecutionCancelRequested \<Longrightarrow> ex_Status x = ExecutionRunning"
  by (auto simp: exec_ok_snoc active_pairs)

lemma apply_callback_shape:
  assumes "exec_inv r" "verify_callback E skew t c signature = Inr v"
  shows "same_executions r (fst (apply_callback now v r)) \<or> moves r (fst (apply_callback now v r))"
proof (cases rule: apply_callback_cases [where now = now and v = v and r = r])
  case (ended x before a x' a' outcome stop result)
  have ok: "exec_ok (cb_LogicalExecutionID (vc_Callback v)) x (before @ [a])" using exec_inv_get [OF assms(1) ended(2)] ended(3) by simp
  have "validate_callback (vc_Callback v) t skew = Inr ()" using verify_callback_facts [OF assms(2)] by simp
  with ended live_status_running [OF ok]
  have "exec_move now (cb_LogicalExecutionID (vc_Callback v)) x (before @ [a]) x' (before @ [a'])"
    by (intro callback_effect_move [OF ok]) auto
  with ended show ?thesis by (intro disjI2 movesI [OF ended(2)]) auto
qed simp_all

lemma apply_terminal_observation_shape:
  assumes "exec_inv r" "observation_ok (vo_Observation v)"
  shows "same_executions r (fst (apply_terminal_observation now v r)) \<or> moves r (fst (apply_terminal_observation now v r))"
proof (cases rule: apply_terminal_observation_cases [where now = now and v = v and r = r])
  case (ended x before a x' a' outcome stop result rise)
  have ok: "exec_ok (to_LogicalExecutionID (vo_Observation v)) x (before @ [a])" using exec_inv_get [OF assms(1) ended(2)] ended(3) by simp
  have "is_amount (ex_UsedCost x)" "is_amount (to_UsedCost (vo_Observation v))"
    using ok assms(2) by (auto simp: exec_ok_def cost_ok_def observation_ok_def)
  with ended(8,9) have "money_int (ex_UsedCost x) \<le> money_int (to_UsedCost (vo_Observation v))"
    by (auto simp: compare_money_amount split: if_splits)
  with ended live_status_running [OF ok] assms(2)
  have "exec_move now (to_LogicalExecutionID (vo_Observation v)) x (before @ [a]) x' (before @ [a'])"
    by (intro observation_effect_move [OF ok]) auto
  with ended show ?thesis by (intro disjI2 movesI [OF ended(2)]) auto
qed simp_all

lemma exec_step_shape:
  assumes "exec_step E r r'" "exec_inv r"
  shows "same_executions r r' \<or> creates E r r' \<or> moves r r'"
  using assms
  by (induction rule: exec_step.induct)
    (metis get_or_create_shape prepare_attempt_shape activate_attempt_shape record_dispatch_shape fail_attempt_shape request_cancel_shape
      complete_cancel_shape record_usage_shape apply_callback_shape apply_terminal_observation_shape)+

lemma exec_step_inv: "exec_step E r r' \<Longrightarrow> exec_inv r \<Longrightarrow> exec_inv r'"
  using exec_step_shape same_executions_inv creates_inv moves_inv by metis

lemma exec_steps_inv: "exec_steps E r r' \<Longrightarrow> exec_inv r \<Longrightarrow> exec_inv r'"
  by (induction rule: rtranclp_induct) (auto intro: exec_step_inv)

lemma exec_reachable_inv: "exec_reachable E r \<Longrightarrow> exec_inv r"
  unfolding exec_reachable_def by (rule exec_steps_inv [OF _ exec_inv_new])

lemma exec_reachable_steps: "exec_reachable E r \<Longrightarrow> exec_steps E r r' \<Longrightarrow> exec_reachable E r'"
  unfolding exec_reachable_def by (rule rtranclp_trans)

section \<open>Answers are recorded for good\<close>

definition answers_kept :: "exec_repo \<Rightarrow> exec_repo \<Rightarrow> bool" where
  "answers_kept r r' \<longleftrightarrow> (\<forall>h k. gget (er_callbacks r) h = Some k \<longrightarrow> gget (er_callbacks r') h = Some k) \<and>
     (\<forall>d k. gget (er_reconciled r) d = Some k \<longrightarrow> gget (er_reconciled r') d = Some k)"

lemma answers_kept_refl [simp]: "answers_kept r r"
  by (simp add: answers_kept_def)

lemma answers_keptI: "er_callbacks r' = er_callbacks r \<Longrightarrow> er_reconciled r' = er_reconciled r \<Longrightarrow> answers_kept r r'"
  by (simp add: answers_kept_def)

lemma method_answers:
  "er_callbacks (fst (get_or_create now s r)) = er_callbacks r" "er_reconciled (fst (get_or_create now s r)) = er_reconciled r"
  "er_callbacks (fst (prepare_attempt now i r)) = er_callbacks r" "er_reconciled (fst (prepare_attempt now i r)) = er_reconciled r"
  "er_callbacks (fst (activate_attempt now i n lease h kv r)) = er_callbacks r" "er_reconciled (fst (activate_attempt now i n lease h kv r)) = er_reconciled r"
  "er_callbacks (fst (record_dispatch now i n r)) = er_callbacks r" "er_reconciled (fst (record_dispatch now i n r)) = er_reconciled r"
  "er_callbacks (fst (fail_attempt now i n token r)) = er_callbacks r" "er_reconciled (fst (fail_attempt now i n token r)) = er_reconciled r"
  "er_callbacks (fst (request_cancel now i r)) = er_callbacks r" "er_reconciled (fst (request_cancel now i r)) = er_reconciled r"
  "er_callbacks (fst (complete_cancel now i n token r)) = er_callbacks r" "er_reconciled (fst (complete_cancel now i n token r)) = er_reconciled r"
  "er_callbacks (fst (record_usage now i n token used r)) = er_callbacks r" "er_reconciled (fst (record_usage now i n token used r)) = er_reconciled r"
  by (simp_all add: get_or_create_def prepare_attempt_def activate_attempt_def record_dispatch_def fail_attempt_def request_cancel_def
      complete_cancel_def record_usage_def put_attempt_def Let_def split: option.splits sum.splits prod.splits)

lemma apply_callback_answers: "answers_kept r (fst (apply_callback now v r))"
  by (cases rule: apply_callback_cases [where now = now and v = v and r = r]) (auto simp: answers_kept_def)

lemma apply_terminal_observation_answers: "answers_kept r (fst (apply_terminal_observation now v r))"
  by (cases rule: apply_terminal_observation_cases [where now = now and v = v and r = r]) (auto simp: answers_kept_def)

lemma exec_step_answers: "exec_step E r r' \<Longrightarrow> answers_kept r r'"
  by (induction rule: exec_step.induct)
    (auto intro: answers_keptI apply_callback_answers apply_terminal_observation_answers simp: method_answers)

text \<open>
  Every call of the service is a sequence of repository steps. \<open>peers_fair\<close> says that a remote call
  leaves the repository to steps of other requests; then so does every service call, whatever the peers
  answer.
\<close>

definition peers_fair :: "exec_env \<Rightarrow> 'w exec_peers \<Rightarrow> bool" where
  "peers_fair E P \<longleftrightarrow>
     (\<forall>agent res ttl s. exec_steps E (fst s) (fst (fst (pe_reserve P agent res ttl s)))) \<and>
     (\<forall>res token s. exec_steps E (fst s) (fst (pe_release P res token s))) \<and>
     (\<forall>url v s. exec_steps E (fst s) (fst (fst (pe_create P url v s)))) \<and>
     (\<forall>url v s. exec_steps E (fst s) (fst (fst (pe_status P url v s)))) \<and>
     (\<forall>url v s. exec_steps E (fst s) (fst (fst (pe_cancel P url v s)))) \<and>
     (\<forall>url v s. exec_steps E (fst s) (fst (fst (pe_deliverable P url v s))))"

lemma peers_fairD:
  assumes "peers_fair E P"
  shows "pe_reserve P agent res ttl s = (s', a1) \<Longrightarrow> exec_steps E (fst s) (fst s')"
    "exec_steps E (fst s) (fst (pe_release P res token s))"
    "pe_create P url v s = (s', a2) \<Longrightarrow> exec_steps E (fst s) (fst s')"
    "pe_status P url v s = (s', a3) \<Longrightarrow> exec_steps E (fst s) (fst s')"
    "pe_cancel P url v s = (s', a4) \<Longrightarrow> exec_steps E (fst s) (fst s')"
    "pe_deliverable P url v s = (s', a5) \<Longrightarrow> exec_steps E (fst s) (fst s')"
  using assms unfolding peers_fair_def by (metis fst_conv)+

lemma on_repo_step: "on_repo f s = (s', a) \<Longrightarrow> exec_step E (fst s) (fst (f (fst s))) \<Longrightarrow> exec_steps E (fst s) (fst s')"
  by (auto simp: on_repo_def split: prod.splits)

lemma on_repo_eqD: "on_repo f s = (s', a) \<Longrightarrow> f (fst s) = (fst s', a)"
  by (auto simp: on_repo_def split: prod.splits)

lemma steps_trans: "exec_steps E r r' \<Longrightarrow> exec_steps E r' r'' \<Longrightarrow> exec_steps E r r''"
  by (rule rtranclp_trans)

lemma method_steps:
  "on_repo (prepare_attempt now i) s = (s', a1) \<Longrightarrow> exec_steps E (fst s) (fst s')"
  "on_repo (record_dispatch now i n) s = (s', a2) \<Longrightarrow> exec_steps E (fst s) (fst s')"
  "on_repo (fail_attempt now i n token) s = (s', a2) \<Longrightarrow> exec_steps E (fst s) (fst s')"
  "on_repo (request_cancel now i) s = (s', a1) \<Longrightarrow> exec_steps E (fst s) (fst s')"
  "0 < n \<or> attempts_of (fst s) i = [] \<Longrightarrow> on_repo (complete_cancel now i n token) s = (s', a3) \<Longrightarrow> exec_steps E (fst s) (fst s')"
  "on_repo (record_usage now i n token used) s = (s', a4) \<Longrightarrow> exec_steps E (fst s) (fst s')"
  "verify_callback E skew t c signature = Inr v \<Longrightarrow> on_repo (apply_callback now v) s = (s', a5) \<Longrightarrow> exec_steps E (fst s) (fst s')"
  "observation_ok (vo_Observation w) \<Longrightarrow> on_repo (apply_terminal_observation now w) s = (s', a6) \<Longrightarrow> exec_steps E (fst s) (fst s')"
  by (erule on_repo_step, rule exec_step.intros, assumption?)+

section \<open>The helpers\<close>

lemma svc_activate_attempt_fst:
  "fst (svc_activate_attempt E C now x a lease nonce r) =
     fst (activate_attempt now (sp_LogicalExecutionID (ex_Spec x)) (at_Number a) lease (hash_value E nonce) (xc_NonceKeyVersion C) r)"
  by (auto simp: svc_activate_attempt_def split: prod.splits sum.splits)

lemma stop_remote_steps: "peers_fair E P \<Longrightarrow> exec_steps E (fst s) (fst (stop_remote E C P x a s))"
  by (auto simp: stop_remote_def split: sum.splits intro: steps_trans peers_fairD(2) peers_fairD(5) [OF _ prod.collapse [symmetric]])

lemma svc_create_steps: "exec_steps E r (fst (svc_create E now s r))"
  by (auto simp: svc_create_def split: sum.splits intro: exec_step.create)

lemma dispatch_answer_steps:
  assumes "peers_fair E P"
  shows "exec_steps E (fst s) (fst (fst (dispatch_answer now P i x a replay response s)))"
  unfolding dispatch_answer_def
  by (auto split: sum.splits prod.splits intro: steps_trans method_steps(3) peers_fairD(2) [OF assms])

lemma svc_dispatch_steps:
  assumes "peers_fair E P"
  shows "exec_steps E (fst s) (fst (fst (svc_dispatch E C P now i s)))"
proof -
  have act: "on_repo (svc_activate_attempt E C now x a lease nonce) t = (t', b) \<Longrightarrow> exec_steps E (fst t) (fst t')" for x a lease nonce t t' b
    by (erule on_repo_step) (simp add: svc_activate_attempt_fst exec_step.activate)
  note step = method_steps(1,2) peers_fairD(1-3) [OF assms] act dispatch_answer_steps [OF assms]
  show ?thesis
    unfolding svc_dispatch_def Let_def
    apply (split prod.split sum.split)+
    apply (intro conjI allI impI; simp)
    by (meson step steps_trans)+
qed

section \<open>Cancel, Deliverable, callbacks and Poll\<close>

lemma request_cancel_attempt:
  assumes "exec_inv r" "request_cancel now i r = (r', Inr (x, a, replay))"
  shows "(at_Number a = 0 \<and> attempts_of r' i = [] \<or> 0 < at_Number a) \<and> (attempts_of r i \<noteq> [] \<longrightarrow> a = last (attempts_of r i))"
proof -
  from assms(2) have r': "attempts_of r' i = attempts_of r i" and a: "a = (if attempts_of r i \<noteq> [] then last (attempts_of r i) else zero_attempt)"
    by (auto simp: request_cancel_def Let_def split: option.splits if_splits)
  show ?thesis
  proof (cases "attempts_of r i" rule: rev_cases)
    case Nil
    then show ?thesis using r' a by (simp add: zero_attempt_def)
  next
    case (snoc before b)
    obtain y where "gget (er_executions r) i = Some y" using assms(2) by (auto simp: request_cancel_def split: option.splits)
    then have "exec_ok i y (before @ [b])" using exec_inv_get [OF assms(1)] snoc by metis
    then show ?thesis using snoc a by (simp add: exec_ok_snoc numbered_snoc)
  qed
qed

lemma svc_cancel_steps:
  assumes "peers_fair E P" "exec_inv (fst s)"
  shows "exec_steps E (fst s) (fst (fst (svc_cancel E C P now i s)))"
proof (cases "on_repo (request_cancel now i) s")
  case (Pair s1 res)
  have r: "exec_steps E (fst s) (fst s1)" by (rule method_steps(4) [OF Pair])
  show ?thesis
  proof (cases res)
    case (Inl e)
    with r show ?thesis by (simp add: svc_cancel_def Pair)
  next
    case (Inr p)
    obtain x a replay where p: "p = (x, a, replay)" by (cases p)
    have a: "at_Number a = 0 \<and> attempts_of (fst s1) i = [] \<or> 0 < at_Number a"
      using request_cancel_attempt [OF assms(2)] on_repo_eqD [OF Pair] by (simp add: Inr p)
    define finish where "finish release s2 = (case on_repo (complete_cancel now i (at_Number a) (at_FencingToken a)) s2 of
                (s3, Inl e) \<Rightarrow> (s3, Some e, zero_execution)
              | (s3, Inr cancelled) \<Rightarrow>
                  ((if release then pe_release P (at_ReservationID a) (at_FencingToken a) s3 else s3), None, cancelled))" for release s2
    have f: "exec_steps E (fst s2) (fst (fst (finish release s2)))" if "0 < at_Number a" for release s2
      unfolding finish_def using method_steps(5) [of "at_Number a" s2 i now "at_FencingToken a"] that peers_fairD(2) [OF assms(1)]
      by (split prod.split sum.split)+ (intro conjI allI impI; simp; meson steps_trans)
    have z: "on_repo (complete_cancel now i 0 0) s1 = (s2, b) \<Longrightarrow> at_Number a = 0 \<Longrightarrow> exec_steps E (fst s1) (fst s2)" for s2 b
      using method_steps(5) [of 0 s1 i now 0] a by simp
    show ?thesis
      unfolding svc_cancel_def Pair Inr p prod.case sum.case Let_def finish_def [symmetric]
      apply (split if_split prod.split sum.split)+
      apply (intro conjI allI impI; simp)
      using a f z r peers_fairD(5) [OF assms(1)] by (meson steps_trans less_irrefl)+
  qed
qed

lemma svc_deliverable_steps: "peers_fair E P \<Longrightarrow> exec_steps E (fst s) (fst (fst (svc_deliverable E C P i s)))"
  unfolding svc_deliverable_def by (auto split: prod.split sum.split dest: peers_fairD(6))

lemma svc_handle_callback_steps:
  assumes "peers_fair E P"
  shows "exec_steps E (fst s) (fst (fst (svc_handle_callback E C P now c signature s)))"
  unfolding svc_handle_callback_def Let_def
  by (split prod.split sum.split)+
    (intro conjI allI impI; simp; meson stop_remote_steps [OF assms] peers_fairD(2) [OF assms] method_steps(7) steps_trans)

lemma poll_reconcile_steps:
  assumes "peers_fair E P" "observation_ok ob"
  shows "exec_steps E (fst s) (fst (fst (poll_reconcile E C P now a response ob s)))"
proof -
  have ob: "on_repo (apply_terminal_observation now \<lparr>vo_Observation = ob, vo_PayloadHash = h\<rparr>) s = (s', b) \<Longrightarrow> exec_steps E (fst s) (fst s')" for h s' b
    by (rule method_steps(8)) (simp_all add: assms(2))
  show ?thesis
    unfolding poll_reconcile_def
    by (split prod.split sum.split option.split)+
      (intro conjI allI impI; simp; meson stop_remote_steps [OF assms(1)] peers_fairD(2) [OF assms(1)] ob steps_trans)
qed

lemma poll_terminal_steps:
  assumes "peers_fair E P" "poll_status_ok response" "rs_Status response \<noteq> ExecutionRunning"
  shows "exec_steps E (fst s) (fst (fst (poll_terminal E C P now i x a response s)))"
proof (cases "rs_Status response = ExecutionSucceeded")
  case True
  have r: "exec_steps E (fst t) (fst (fst (poll_reconcile E C P now a response
      ((poll_observation i x a response)\<lparr>to_ContentHash := h, to_DeliverableRef := d\<rparr>) t)))" if "valid_digest h" "\<not> blank d" for h d t
    using assms(2) that True
    by (intro poll_reconcile_steps [OF assms(1)]) (simp add: poll_observation_def observation_ok_def report_ok_def poll_status_ok_def)
  show ?thesis
  proof (cases "svc_envelope E C x a ''deliverable'' (callback_nonce E C a)")
    case (Inl e)
    then show ?thesis by (simp add: poll_terminal_def True Let_def)
  next
    case (Inr v)
    obtain s1 d where d: "pe_deliverable P (sp_AgentEndpoint (ex_Spec x)) v s = (s1, d)" by fastforce
    have "exec_steps E (fst s) (fst s1)" by (rule peers_fairD(6) [OF assms(1) d])
    then show ?thesis
      using r steps_trans by (cases d) (auto simp: poll_terminal_def True Let_def Inr d)
  qed
next
  case False
  then have "observation_ok (poll_observation i x a response)"
    using assms(2,3) by (auto simp: poll_observation_def observation_ok_def report_ok_def poll_status_ok_def)
  then show ?thesis
    unfolding poll_terminal_def Let_def using False poll_reconcile_steps [OF assms(1)] by simp
qed

lemma svc_poll_steps:
  assumes "peers_fair E P"
  shows "exec_steps E (fst s) (fst (fst (svc_poll E C P now i s)))"
  unfolding svc_poll_def
  by (split prod.split sum.split)+
    (intro conjI allI impI; simp; meson stop_remote_steps [OF assms] peers_fairD(4) [OF assms] method_steps(6) poll_terminal_steps [OF assms] steps_trans)

end
