(* ===== verification/Execution_Facts.thy ===== *)
theory Execution_Facts
  imports Execution_Reports
begin

text \<open>Consequences of the machine of executions, and what a cancellation does.\<close>

text \<open>
  Consequences of the state machine: finished executions do not move, costs and attempts only grow; and
  the two report methods as replay-safe operations.
\<close>

section \<open>What a move keeps\<close>

definition final_status :: "string \<Rightarrow> bool" where
  "final_status status \<longleftrightarrow> status \<in> {ExecutionSucceeded, ExecutionCancelled, ExecutionCostStopped}"

lemma final_no_move:
  assumes "exec_ok i x items" "final_status (ex_Status x)" "exec_move now i x items x' items'"
  shows False
  using assms(3,1,2)
  by cases (auto simp: exec_ok_snoc final_status_def prepared_pairs active_pairs)

lemma move_cost_grows:
  assumes "exec_move now i x items x' items'" "exec_ok i x items"
  shows "money_int (ex_UsedCost x) \<le> money_int (ex_UsedCost x') \<and> length items \<le> length items'"
  using assms
  by (induction rule: exec_move.induct)
    (auto simp: exec_ok_def cost_ok_def cancelled_execution_def cost_stopped_execution_def finished_execution_def)

text \<open>The steps between two repositories, seen from one execution.\<close>

lemma step_execution:
  assumes "exec_step E r r'" "exec_inv r" "gget (er_executions r) i = Some x"
  obtains (same) "gget (er_executions r') i = Some x" "attempts_of r' i = attempts_of r i"
  | (move) now x' where "exec_move now i x (attempts_of r i) x' (attempts_of r' i)" "gget (er_executions r') i = Some x'"
  using exec_step_shape [OF assms(1,2)]
proof (elim disjE)
  assume s: "same_executions r r'"
  then have "gget (er_executions r') i = Some x" using assms(3) by (simp add: same_executions_def)
  then show thesis using attempts_of_same [OF s] by (rule same)
next
  assume c: "creates E r r'"
  then have "gget (er_executions r') i = Some x" "attempts_of r' i = attempts_of r i"
    using assms(3) by (auto simp: creates_def attempts_of_def)
  then show thesis by (rule same)
next
  assume "moves r r'"
  then obtain now j y y' items' where m: "gget (er_executions r) j = Some y" "exec_move now j y (attempts_of r j) y' items'"
    "\<And>k. gget (er_executions r') k = (if k = j then Some y' else gget (er_executions r) k)"
    "\<And>k. attempts_of r' k = (if k = j then items' else attempts_of r k)" unfolding moves_def by blast
  show thesis
  proof (cases "i = j")
    case True
    with m assms(3) show thesis by (intro move [of now y']) auto
  next
    case False
    with m assms(3) show thesis by (intro same) auto
  qed
qed

lemma steps_final:
  assumes "exec_steps E r r'" "exec_inv r" "gget (er_executions r) i = Some x" "final_status (ex_Status x)"
  shows "gget (er_executions r') i = Some x \<and> attempts_of r' i = attempts_of r i"
  using assms(1)
proof (induction rule: rtranclp_induct)
  case (step u w)
  have inv: "exec_inv u" by (rule exec_steps_inv [OF step(1) assms(2)])
  from step(3) have u: "gget (er_executions u) i = Some x" by simp
  from step(2) inv u show ?case
  proof (cases rule: step_execution)
    case (move now x')
    with final_no_move [OF exec_inv_get [OF inv u] assms(4)] show ?thesis by blast
  qed (use step in simp)
qed (use assms in simp)

lemma steps_execution:
  assumes "exec_steps E r r'" "exec_inv r" "gget (er_executions r) i = Some x"
  shows "\<exists>x'. gget (er_executions r') i = Some x' \<and> ex_Spec x' = ex_Spec x \<and> money_int (ex_UsedCost x) \<le> money_int (ex_UsedCost x') \<and>
    length (attempts_of r i) \<le> length (attempts_of r' i)"
  using assms(1)
proof (induction rule: rtranclp_induct)
  case (step u w)
  have inv: "exec_inv u" by (rule exec_steps_inv [OF step(1) assms(2)])
  from step(3) obtain y where y: "gget (er_executions u) i = Some y" "ex_Spec y = ex_Spec x"
    "money_int (ex_UsedCost x) \<le> money_int (ex_UsedCost y)" "length (attempts_of r i) \<le> length (attempts_of u i)" by blast
  from step(2) inv y(1) show ?case
  proof (cases rule: step_execution)
    case (move now z)
    with move_cost_grows [OF move(1) exec_inv_get [OF inv y(1)]] exec_move_spec [OF move(1)] y show ?thesis by auto
  qed (use y in auto)
qed (use assms in auto)

section \<open>Reports are answered once\<close>

text \<open>The replay flag of an answer is the flag of the operation.\<close>

definition callback_op :: "gotime \<Rightarrow> verified_callback \<Rightarrow> exec_repo \<Rightarrow> exec_repo \<times> (exec_error + callback_result \<times> bool)" where
  "callback_op now v r = (case apply_callback now v r of
     (r', Inl e) \<Rightarrow> (r', Inl e) | (r', Inr a) \<Rightarrow> (r', Inr (a\<lparr>cr_Replay := False\<rparr>, cr_Replay a)))"

definition observation_op :: "gotime \<Rightarrow> verified_observation \<Rightarrow> exec_repo \<Rightarrow> exec_repo \<times> (exec_error + reconciliation_result \<times> bool)" where
  "observation_op now v r = (case apply_terminal_observation now v r of
     (r', Inl e) \<Rightarrow> (r', Inl e) | (r', Inr a) \<Rightarrow> (r', Inr (a\<lparr>rr_Replay := False\<rparr>, rr_Replay a)))"

definition callback_answered :: "verified_callback \<Rightarrow> callback_result \<Rightarrow> exec_repo \<Rightarrow> bool" where
  "callback_answered v a r \<longleftrightarrow> gget (er_callbacks r) (vc_NonceHash v) = Some \<lparr>kr_payloadHash = vc_PayloadHash v, kr_result = a\<rparr> \<and> \<not> cr_Replay a"

definition observation_answered :: "verified_observation \<Rightarrow> reconciliation_result \<Rightarrow> exec_repo \<Rightarrow> bool" where
  "observation_answered v a r \<longleftrightarrow>
     gget (er_reconciled r) (to_AttemptID (vo_Observation v)) = Some \<lparr>nr_payloadHash = vo_PayloadHash v, nr_result = a\<rparr> \<and> \<not> rr_Replay a"

lemma callback_op_first:
  assumes "callback_op now v r = (r', Inr (a, False))"
  shows "callback_answered v a r'"
proof (cases rule: apply_callback_cases [where now = now and v = v and r = r])
  case kept
  with assms show ?thesis by (auto simp: callback_op_def split: prod.splits sum.splits)
next
  case (late result)
  with assms show ?thesis by (auto simp: callback_op_def callback_answered_def split: prod.splits)
next
  case (ended x before a x' a' outcome stop result)
  with assms show ?thesis by (auto simp: callback_op_def callback_answered_def split: prod.splits)
qed

lemma observation_op_first:
  assumes "observation_op now v r = (r', Inr (a, False))"
  shows "observation_answered v a r'"
proof (cases rule: apply_terminal_observation_cases [where now = now and v = v and r = r])
  case kept
  with assms show ?thesis by (auto simp: observation_op_def split: prod.splits sum.splits)
next
  case (settled result)
  with assms show ?thesis by (auto simp: observation_op_def observation_answered_def split: prod.splits)
next
  case (ended x before b x' a' outcome stop result rise)
  with assms show ?thesis by (auto simp: observation_op_def observation_answered_def split: prod.splits)
qed

lemma callback_answered_replays: "callback_answered v a r \<Longrightarrow> callback_op now v r = (r, Inr (a, True))"
  by (simp add: callback_answered_def callback_op_def apply_callback_def)

lemma observation_answered_replays: "observation_answered v a r \<Longrightarrow> observation_op now v r = (r, Inr (a, True))"
  by (simp add: observation_answered_def observation_op_def apply_terminal_observation_def Let_def)

lemma callback_op_fst: "fst (callback_op now v r) = fst (apply_callback now v r)"
  by (simp add: callback_op_def split: prod.split sum.split)

lemma observation_op_fst: "fst (observation_op now v r) = fst (apply_terminal_observation now v r)"
  by (simp add: observation_op_def split: prod.split sum.split)

text \<open>The environment of a report: any step, or a report of any kind, verified or not.\<close>

interpretation callback_replay: replay_exact callback_op "\<lambda>r. True" answers_kept
  "\<lambda>v r. \<exists>a. callback_answered v a r" "\<lambda>now v. True" callback_answered
proof
  fix r r' now v a assume "callback_op now v r = (r', Inr (a, False))"
  then show "callback_answered v a r'" "\<exists>a. callback_answered v a r'" by (auto dest: callback_op_first)
next
  fix r r' v assume "\<exists>a. callback_answered v a r" "answers_kept r r'"
  then show "\<exists>a. callback_answered v a r'" by (auto simp: callback_answered_def answers_kept_def)
next
  fix r r' v a assume "callback_answered v a r" "answers_kept r r'"
  then show "callback_answered v a r'" by (simp add: callback_answered_def answers_kept_def)
next
  fix r now v assume "\<exists>a. callback_answered v a r"
  then show "\<exists>a. callback_op now v r = (r, Inr (a, True))" by (auto dest: callback_answered_replays)
qed (auto dest: callback_answered_replays)

interpretation observation_replay: replay_exact observation_op "\<lambda>r. True" answers_kept
  "\<lambda>v r. \<exists>a. observation_answered v a r" "\<lambda>now v. True" observation_answered
proof
  fix r r' now v a assume "observation_op now v r = (r', Inr (a, False))"
  then show "observation_answered v a r'" "\<exists>a. observation_answered v a r'" by (auto dest: observation_op_first)
next
  fix r r' v assume "\<exists>a. observation_answered v a r" "answers_kept r r'"
  then show "\<exists>a. observation_answered v a r'" by (auto simp: observation_answered_def answers_kept_def)
next
  fix r r' v a assume "observation_answered v a r" "answers_kept r r'"
  then show "observation_answered v a r'" by (simp add: observation_answered_def answers_kept_def)
next
  fix r now v assume "\<exists>a. observation_answered v a r"
  then show "\<exists>a. observation_op now v r = (r, Inr (a, True))" by (auto dest: observation_answered_replays)
qed (auto dest: observation_answered_replays)

lemma steps_answers: "exec_steps E r r' \<Longrightarrow> answers_kept\<^sup>*\<^sup>* r r'"
  by (induction rule: rtranclp_induct) (auto dest: exec_step_answers)

text \<open>A first answer, repeated after any steps.\<close>

lemma callback_repeated:
  assumes "apply_callback now v r = (r', Inr a)" "\<not> cr_Replay a" "exec_steps E r' r''"
  shows "apply_callback now' v r'' = (r'', Inr (a\<lparr>cr_Replay := True\<rparr>))"
proof -
  have "callback_op now v r = (r', Inr (a, False))" using assms(1,2) by (cases a) (simp add: callback_op_def)
  from callback_replay.run_answered [OF steps_answers [OF assms(3)] _ callback_op_first [OF this]]
  show ?thesis by (simp add: callback_answered_def apply_callback_def)
qed

lemma observation_repeated:
  assumes "apply_terminal_observation now v r = (r', Inr a)" "\<not> rr_Replay a" "exec_steps E r' r''"
  shows "apply_terminal_observation now' v r'' = (r'', Inr (a\<lparr>rr_Replay := True\<rparr>))"
proof -
  have "observation_op now v r = (r', Inr (a, False))" using assms(1,2) by (cases a) (simp add: observation_op_def)
  from observation_replay.run_answered [OF steps_answers [OF assms(3)] _ observation_op_first [OF this]]
  show ?thesis by (simp add: observation_answered_def apply_terminal_observation_def Let_def)
qed

section \<open>Errors change nothing\<close>

lemma method_errors:
  "snd (get_or_create now s r) = Inl e1 \<Longrightarrow> fst (get_or_create now s r) = r"
  "snd (prepare_attempt now i r) = Inl e2 \<Longrightarrow> fst (prepare_attempt now i r) = r"
  "snd (activate_attempt now i n lease h kv r) = Inl e3 \<Longrightarrow> fst (activate_attempt now i n lease h kv r) = r"
  "snd (record_dispatch now i n r) = Inl e4 \<Longrightarrow> fst (record_dispatch now i n r) = r"
  "snd (fail_attempt now i n token r) = Inl e5 \<Longrightarrow> fst (fail_attempt now i n token r) = r"
  "snd (request_cancel now i r) = Inl e6 \<Longrightarrow> fst (request_cancel now i r) = r"
  "snd (complete_cancel now i n token r) = Inl e7 \<Longrightarrow> fst (complete_cancel now i n token r) = r"
  "snd (record_usage now i n token used r) = Inl e8 \<Longrightarrow> fst (record_usage now i n token used r) = r"
  by (auto simp: get_or_create_def prepare_attempt_def activate_attempt_def record_dispatch_def fail_attempt_def request_cancel_def
      complete_cancel_def record_usage_def Let_def split: option.splits sum.splits if_splits)

lemma report_errors:
  "snd (apply_callback now v r) = Inl e9 \<Longrightarrow> fst (apply_callback now v r) = r"
  "snd (apply_terminal_observation now w r) = Inl e10 \<Longrightarrow> fst (apply_terminal_observation now w r) = r"
  by (cases rule: apply_callback_cases [where now = now and v = v and r = r], simp_all)
    (cases rule: apply_terminal_observation_cases [where now = now and v = w and r = r], simp_all)

text \<open>Dispatch and cancellation step by step: what is sent twice, and what a cancellation leaves behind.\<close>

section \<open>Redelivery\<close>

text \<open>Peers that log the envelopes of \<open>Create\<close>, grant one lease, and during whose calls no other request runs.\<close>

definition log_peers :: "capacity_lease \<Rightarrow> exec_error + create_response \<Rightarrow> envelope list exec_peers" where
  "log_peers lease answer = \<lparr>pe_reserve = (\<lambda>_ _ _ s. (s, Inr lease)), pe_release = (\<lambda>_ _ s. s),
     pe_create = (\<lambda>_ v s. ((fst s, snd s @ [v]), answer)), pe_status = (\<lambda>_ _ s. (s, Inl (XErrRemote []))),
     pe_cancel = (\<lambda>_ _ s. (s, Inl (XErrRemote []))), pe_deliverable = (\<lambda>_ _ s. (s, Inl (XErrRemote [])))\<rparr>"

lemma callback_nonce_cong:
  "at_LogicalExecutionID a = at_LogicalExecutionID b \<Longrightarrow> at_AttemptID a = at_AttemptID b \<Longrightarrow> at_Number a = at_Number b \<Longrightarrow>
   callback_nonce E C a = callback_nonce E C b"
  by (simp add: callback_nonce_def nonce_message_def)

lemma svc_envelope_cong:
  "ex_Spec x = ex_Spec y \<Longrightarrow> at_LogicalExecutionID a = at_LogicalExecutionID b \<Longrightarrow> at_AttemptID a = at_AttemptID b \<Longrightarrow>
   at_FencingToken a = at_FencingToken b \<Longrightarrow> svc_envelope E C x a operation nonce = svc_envelope E C y b operation nonce"
  by (simp add: svc_envelope_def build_envelope_def split: option.split)

text \<open>The attempt that a lease activates.\<close>

definition leased :: "exec_env \<Rightarrow> exec_config \<Rightarrow> capacity_lease \<Rightarrow> attempt \<Rightarrow> bool" where
  "leased E C lease a \<longleftrightarrow> at_Status a = AttemptActive \<and> at_FencingToken a = le_FencingToken lease \<and> at_LeaseExpiresAt a = le_ExpiresAt lease \<and>
     at_CallbackNonceHash a = hash_value E (callback_nonce E C a) \<and> at_NonceKeyVersion a = xc_NonceKeyVersion C"

definition lease_fits :: "exec_env \<Rightarrow> exec_config \<Rightarrow> gotime \<Rightarrow> execution \<Rightarrow> string \<Rightarrow> capacity_lease \<Rightarrow> bool" where
  "lease_fits E C now x reservation lease \<longleftrightarrow> le_AgentID lease = sp_AgentID (ex_Spec x) \<and> le_ReservationID lease = reservation \<and>
     1 \<le> le_FencingToken lease \<and> now < le_ExpiresAt lease \<and> xc_NonceKeyVersion C \<noteq> [] \<and> (\<forall>m. length (xe_sha E m) = 32)"

lemma hash_value_valid: "length (xe_sha E v) = 32 \<Longrightarrow> valid_digest (hash_value E v)"
  by (simp add: hash_value_def valid_digest_sha_string)

text \<open>A dispatch whose attempt is (or becomes) leased sends the envelope of that attempt.\<close>

lemma dispatch_sends:
  assumes p: "prepare_attempt now i r = (r1, Inr (x, a0, replay))" "sp_LogicalExecutionID (ex_Spec x) = i"
    and a: "activate_attempt now i (at_Number a0) lease (hash_value E (callback_nonce E C a0)) (xc_NonceKeyVersion C) r1 = (r2, Inr (y, a))"
    and v: "svc_envelope E C x a ''create'' (callback_nonce E C a0) = Inr v"
  shows "snd (fst (svc_dispatch E C (log_peers lease answer) now i (r, log))) = log @ [v]"
    and "snd (snd (snd (snd (svc_dispatch E C (log_peers lease answer) now i (r, log))))) = replay"
    and "answer = Inl e \<Longrightarrow> svc_dispatch E C (log_peers lease answer) now i (r, log) =
      ((fst (record_dispatch now i (at_Number a) r2), log @ [v]), Some e, x, a, replay)"
proof -
  have act: "svc_activate_attempt E C now x a0 lease (callback_nonce E C a0) r1 = (r2, Inr a)"
    using a p(2) by (simp add: svc_activate_attempt_def)
  have eq: "svc_dispatch E C (log_peers lease answer) now i (r, log) =
    (case (answer, snd (record_dispatch now i (at_Number a) r2)) of
       (Inl e, _) \<Rightarrow> ((fst (record_dispatch now i (at_Number a) r2), log @ [v]), Some e, x, a, replay)
     | (Inr response, Inl e) \<Rightarrow> ((fst (record_dispatch now i (at_Number a) r2), log @ [v]), Some e, x, a, replay)
     | (Inr response, Inr _) \<Rightarrow> dispatch_answer now (log_peers lease answer) i x a replay response
         (fst (record_dispatch now i (at_Number a) r2), log @ [v]))"
    by (simp add: svc_dispatch_def on_repo_eq p(1) log_peers_def Let_def act v split: sum.split)
  have d: "snd (fst (dispatch_answer now (log_peers lease answer) i x a replay response (r', w))) = w \<and>
      snd (snd (snd (snd (dispatch_answer now (log_peers lease answer) i x a replay response (r', w))))) = replay" for response r' w
    by (auto simp: dispatch_answer_def on_repo_eq log_peers_def split: sum.split)
  show "snd (fst (svc_dispatch E C (log_peers lease answer) now i (r, log))) = log @ [v]"
    "snd (snd (snd (snd (svc_dispatch E C (log_peers lease answer) now i (r, log))))) = replay"
    unfolding eq using d by (auto split: sum.split)
  assume "answer = Inl e"
  then show "svc_dispatch E C (log_peers lease answer) now i (r, log) =
      ((fst (record_dispatch now i (at_Number a) r2), log @ [v]), Some e, x, a, replay)"
    unfolding eq by simp
qed

text \<open>The first dispatch of an execution without attempts.\<close>

lemma first_dispatch:
  assumes "gget (er_executions r) i = Some x" "attempts_of r i = []" "ex_Status x = ExecutionPending"
    and "lease_fits E C now x (attempt_id i 1) lease"
  shows "\<exists>r1 x1 r2 x2 a. prepare_attempt now i r = (r1, Inr (x1, new_attempt i 1 now, False)) \<and> ex_Spec x1 = ex_Spec x \<and>
    activate_attempt now i 1 lease (hash_value E (callback_nonce E C (new_attempt i 1 now))) (xc_NonceKeyVersion C) r1 = (r2, Inr (x2, a)) \<and>
    at_LogicalExecutionID a = i \<and> at_AttemptID a = attempt_id i 1 \<and> at_Number a = 1 \<and> leased E C lease a \<and>
    (\<exists>y b. gget (er_executions (fst (record_dispatch now i 1 r2))) i = Some y \<and> ex_Status y = ExecutionRunning \<and> ex_CurrentAttempt y = 1 \<and>
       ex_Spec y = ex_Spec x \<and> attempts_of (fst (record_dispatch now i 1 r2)) i = [b] \<and> at_LogicalExecutionID b = i \<and>
       at_AttemptID b = attempt_id i 1 \<and> at_Number b = 1 \<and> at_ReservationID b = attempt_id i 1 \<and> leased E C lease b)"
proof -
  let ?fresh = "new_attempt i 1 now"
  let ?h = "hash_value E (callback_nonce E C ?fresh)"
  let ?pending = "x\<lparr>ex_Status := ExecutionPending, ex_CurrentAttempt := 1, ex_UpdatedAt := now\<rparr>"
  let ?prepared = "put_execution i ?pending (put_attempts i [?fresh] r)"
  let ?a = "?fresh\<lparr>at_Status := AttemptActive, at_FencingToken := le_FencingToken lease, at_LeaseExpiresAt := le_ExpiresAt lease,
      at_CallbackNonceHash := ?h, at_NonceKeyVersion := xc_NonceKeyVersion C, at_UpdatedAt := now\<rparr>"
  let ?running = "?pending\<lparr>ex_Status := ExecutionRunning, ex_UpdatedAt := now\<rparr>"
  let ?activated = "put_execution i ?running (put_attempt i 1 ?a ?prepared)"
  have p: "prepare_attempt now i r = (?prepared, Inr (?pending, ?fresh, False))"
    using assms(1-3) by (simp add: prepare_attempt_def Let_def)
  have h: "valid_digest ?h" using assms(4) by (simp add: lease_fits_def hash_value_valid)
  have "locked_attempt i 1 ?prepared = Inr (?pending, ?fresh)" by (simp add: locked_attempt_def)
  then have a: "activate_attempt now i 1 lease ?h (xc_NonceKeyVersion C) ?prepared = (?activated, Inr (?running, ?a))"
    using assms(4) h by (simp add: activate_attempt_def lease_fits_def Let_def)
  have n: "callback_nonce E C (b\<lparr>at_Status := s, at_FencingToken := t, at_LeaseExpiresAt := l, at_CallbackNonceHash := c, at_NonceKeyVersion := k,
      at_UpdatedAt := u\<rparr>) = callback_nonce E C b" for b s t l c k u by (rule callback_nonce_cong) simp_all
  have n': "callback_nonce E C (b\<lparr>at_DispatchCount := d, at_UpdatedAt := u\<rparr>) = callback_nonce E C b" for b d u by (rule callback_nonce_cong) simp_all
  have la: "leased E C lease ?a" by (simp add: leased_def n)
  have l2: "locked_attempt i 1 ?activated = Inr (?running, ?a)" by (simp add: locked_attempt_def put_attempt_def)
  let ?b = "?a\<lparr>at_DispatchCount := wrap64 (at_DispatchCount ?a + 1), at_UpdatedAt := now\<rparr>"
  have "leased E C lease ?b" using la unfolding leased_def n' by simp
  moreover have "fst (record_dispatch now i 1 ?activated) = put_attempt i 1 ?b ?activated" unfolding record_dispatch_def l2 by simp
  ultimately have "\<exists>y b. gget (er_executions (fst (record_dispatch now i 1 ?activated))) i = Some y \<and> ex_Status y = ExecutionRunning \<and>
      ex_CurrentAttempt y = 1 \<and> ex_Spec y = ex_Spec x \<and> attempts_of (fst (record_dispatch now i 1 ?activated)) i = [b] \<and>
      at_LogicalExecutionID b = i \<and> at_AttemptID b = attempt_id i 1 \<and> at_Number b = 1 \<and> at_ReservationID b = attempt_id i 1 \<and> leased E C lease b"
    by (intro exI [of _ ?running] exI [of _ ?b]) (simp add: put_attempt_def)
  moreover have "ex_Spec ?pending = ex_Spec x" "at_LogicalExecutionID ?a = i" "at_AttemptID ?a = attempt_id i 1" "at_Number ?a = 1" by simp_all
  ultimately show ?thesis using p a la by blast
qed

text \<open>A later dispatch while the lease is open, when the capacity service answers with the same lease.\<close>

lemma again_dispatch:
  assumes "gget (er_executions r) i = Some x" "ex_Status x = ExecutionRunning" "ex_CurrentAttempt x = 1" "attempts_of r i = [a]"
    and "at_ReservationID a = attempt_id i 1" "leased E C lease a" "lease_fits E C now x (attempt_id i 1) lease"
  shows "prepare_attempt now i r = (r, Inr (x, a, True))"
    and "activate_attempt now i 1 lease (hash_value E (callback_nonce E C a)) (xc_NonceKeyVersion C) r = (r, Inr (x, a))"
proof -
  have a: "at_Status a = AttemptActive" "at_LeaseExpiresAt a > now" using assms(6,7) by (simp_all add: leased_def lease_fits_def)
  show "prepare_attempt now i r = (r, Inr (x, a, True))" using assms(1,2,4) a by (simp add: prepare_attempt_def)
  have "valid_digest (hash_value E (callback_nonce E C a))" using assms(7) by (simp add: lease_fits_def hash_value_valid)
  moreover have "locked_attempt i 1 r = Inr (x, a)" using assms(1,3,4) by (simp add: locked_attempt_def)
  ultimately show "activate_attempt now i 1 lease (hash_value E (callback_nonce E C a)) (xc_NonceKeyVersion C) r = (r, Inr (x, a))"
    using assms(5-7) by (simp add: activate_attempt_def lease_fits_def leased_def)
qed

section \<open>Cancelling a prepared attempt\<close>

lemma svc_envelope_unfenced: "at_FencingToken a < 1 \<Longrightarrow> \<exists>e. svc_envelope E C x a operation nonce = Inl e"
  by (simp add: svc_envelope_def build_envelope_unfenced split: option.split)

lemma cancel_prepared:
  assumes "exec_inv r" "gget (er_executions r) i = Some x" "attempts_of r i = before @ [a]" "at_Status a = AttemptPrepared"
  shows "\<exists>e. svc_cancel E C P now i (r, w) =
    ((put_execution i (x\<lparr>ex_Status := ExecutionCancelRequested, ex_UpdatedAt := now\<rparr>) r, w), Some e, zero_execution)"
proof -
  let ?x = "x\<lparr>ex_Status := ExecutionCancelRequested, ex_UpdatedAt := now\<rparr>"
  have ok: "exec_ok i x (before @ [a])" using exec_inv_get [OF assms(1,2)] assms(3) by simp
  then have st: "ex_Status x \<in> {ExecutionPending, ExecutionCancelRequested}" and n: "at_Number a \<noteq> 0" and f: "at_FencingToken a < 1"
    using assms(4) by (auto simp: exec_ok_snoc prepared_pairs numbered_snoc fenced_def)
  have q: "request_cancel now i r = (put_execution i ?x r, Inr (?x, a, ex_Status x = ExecutionCancelRequested))"
    using assms(2,3) st by (auto simp: request_cancel_def Let_def)
  obtain e where "svc_envelope E C ?x a ''cancel'' (callback_nonce E C a) = Inl e" using svc_envelope_unfenced [OF f] by blast
  then show ?thesis using n by (simp add: svc_cancel_def on_repo_eq q Let_def)
qed

lemma put_execution_inv:
  assumes "exec_inv r" "gget (er_executions r) i = Some x" "exec_move now i x (attempts_of r i) x' (attempts_of r i)"
  shows "exec_inv (put_execution i x' r)"
  by (rule moves_inv [OF movesI [OF assms(2,3)] assms(1)]) simp_all

lemma dispatch_refused:
  assumes "gget (er_executions r) i = Some x" "ex_Status x = ExecutionCancelRequested"
  shows "svc_dispatch E C P now i (r, w) = ((r, w), Some XErrInvalidState, zero_execution, zero_attempt, False)"
  using assms by (simp add: svc_dispatch_def on_repo_eq prepare_attempt_def)

section \<open>Cancelling a failed execution\<close>

lemma cancel_requested_failed_stays:
  assumes "exec_steps E r r'" "exec_inv r" "gget (er_executions r) i = Some x" "ex_Status x = ExecutionCancelRequested"
    and "attempts_of r i = before @ [a]" "at_Status a = AttemptFailed"
  shows "\<exists>x'. gget (er_executions r') i = Some x' \<and> ex_Status x' = ExecutionCancelRequested \<and> attempts_of r' i = attempts_of r i"
  using assms(1)
proof (induction rule: rtranclp_induct)
  case (step u v)
  have inv: "exec_inv u" by (rule exec_steps_inv [OF step(1) assms(2)])
  from step(3) obtain y where y: "gget (er_executions u) i = Some y" "ex_Status y = ExecutionCancelRequested" "attempts_of u i = before @ [a]"
    using assms(5) by auto
  from step(2) inv y(1) show ?case
  proof (cases rule: step_execution)
    case (move now z)
    from move(1) y(2,3) assms(6) have "ex_Status z = ExecutionCancelRequested \<and> attempts_of v i = before @ [a]"
      by (cases rule: exec_move.cases) auto
    with move(2) assms(5) show ?thesis by simp
  qed (use y assms(5) in auto)
qed (use assms in auto)

end
