(* ===== verification/Execution_Properties.thy ===== *)
theory Execution_Properties
  imports Execution_Facts
begin

text \<open>The properties of the execution package, after the concrete values their witnesses evaluate.\<close>

text \<open>A concrete environment and execution, for the witnesses of the properties.\<close>

definition demo_xenv :: exec_env where
  "demo_xenv = \<lparr>xe_sha = (\<lambda>_. replicate 32 (CHR 0x01)), xe_hmac = (\<lambda>_ _. replicate 32 (CHR 0x02)),
     xe_url = (\<lambda>_. Some \<lparr>ur_Scheme = ''https'', ur_Host = ''host'', ur_User = False, ur_RawQuery = [], ur_Fragment = [], ur_Path = []\<rparr>),
     xe_join = (\<lambda>base _. Some base), xe_json_callback = (\<lambda>_. Some ''{}''), xe_json_observation = (\<lambda>_. Some ''{}''),
     xe_key = (\<lambda>_ _. Some (replicate 32 (CHR ''k'')))\<rparr>"

definition demo_hash :: string where
  "demo_hash = sha_string (replicate 32 (CHR 0x01))"

definition demo_xconfig :: exec_config where
  "demo_xconfig = \<lparr>xc_CallbackBaseURL = ''https://host'', xc_NonceKeyVersion = ''v1'', xc_NonceSecret = replicate 32 (CHR ''s''),
     xc_LeaseTTL = minute_ns, xc_MaxSkew = minute_ns\<rparr>"

definition demo_spec :: spec where
  "demo_spec = \<lparr>sp_LogicalExecutionID = ''x'', sp_Stage = StageOverview, sp_TaskID = ''t'', sp_TaskSpecHash = demo_hash, sp_InputRef = ''i'',
     sp_InputHash = demo_hash, sp_AgentID = ''a'', sp_AgentEndpoint = ''https://agent'', sp_ResponsibilityCode = ''r'', sp_CostCap = ''5'',
     sp_ToolPolicy = \<lparr>tp_Mode = ToolPolicyReadOnly, tp_AllowedTools = [''b'', ''c'']\<rparr>, sp_Deadline = 1000, sp_IdempotencyKey = ''k'',
     sp_Overview = Some \<lparr>ob_MatchRevision = 1, ob_AllocationID = ''al'', ob_QuoteHash = demo_hash\<rparr>, sp_Formal = None\<rparr>"

definition demo_lease :: capacity_lease where
  "demo_lease = \<lparr>le_ReservationID = attempt_id ''x'' 1, le_AgentID = ''a'', le_FencingToken = 7, le_ExpiresAt = 100\<rparr>"

definition demo_callback :: callback where
  "demo_callback = \<lparr>cb_ProtocolVersion = ProtocolVersion, cb_LogicalExecutionID = ''x'', cb_AttemptID = attempt_id ''x'' 1, cb_AgentID = ''a'',
     cb_FencingToken = 7, cb_Status = CallbackSucceeded, cb_UsedCost = ''2'', cb_ContentHash = demo_hash, cb_DeliverableRef = ''d'',
     cb_Timestamp = 10, cb_Nonce = ''n'', cb_KeyVersion = ''v1''\<rparr>"

lemma demo_hash_valid [simp]: "valid_digest demo_hash"
  unfolding demo_hash_def by (rule valid_digest_sha_string) simp

lemma demo_xmoney [simp]: "valid_money ''5''" "valid_money ''2''" "bigint_parse ''5'' = Some 5" "bigint_parse ''2'' = Some 2" "bigint_parse ''0'' = Some 0"
  by (simp_all add: valid_money_canonical canonical_digits_def char_between_def bigint_parse_def digits_parse_def nat_of_digits_def digit_val_def)

lemma demo_not_blank: "\<not> blank ''x''" "\<not> blank ''t''" "\<not> blank ''i''" "\<not> blank ''a''" "\<not> blank ''r''" "\<not> blank ''k''" "\<not> blank ''al''"
  "\<not> blank ''b''" "\<not> blank ''c''" "\<not> blank ''d''" "\<not> blank (attempt_id ''x'' n)"
  by (simp_all add: not_blank_Cons printable_def attempt_id_def)

lemma demo_spec_valid: "validate_spec demo_xenv demo_spec 5 = Inr ()"
  by (simp add: validate_spec_def demo_spec_def demo_not_blank invalid_endpoint_def demo_xenv_def has_blank_or_duplicate_iff validate_overview_def)

section \<open>Its history\<close>

definition demo_x1 :: exec_repo where
  "demo_x1 = fst (get_or_create 5 demo_spec new_exec_repository)"

definition demo_x2 :: exec_repo where
  "demo_x2 = fst (prepare_attempt 6 ''x'' demo_x1)"

definition demo_x3 :: exec_repo where
  "demo_x3 = fst (activate_attempt 7 ''x'' 1 demo_lease demo_hash ''v1'' demo_x2)"

definition demo_verified :: verified_callback where
  "demo_verified = \<lparr>vc_Callback = demo_callback, vc_NonceHash = demo_hash, vc_PayloadHash = demo_hash\<rparr>"

definition demo_x4 :: exec_repo where
  "demo_x4 = fst (apply_callback 12 demo_verified demo_x3)"

lemma demo_signed: "verify_callback demo_xenv minute_ns 11 demo_callback (signature_prefix @ hex_encode (replicate 32 (CHR 0x02))) = Inr demo_verified"
proof -
  have "validate_callback demo_callback 11 minute_ns = Inr ()"
    by (simp add: validate_callback_def demo_callback_def demo_not_blank)
  then show ?thesis
    unfolding verify_callback_iff
    by (auto simp: demo_xenv_def hash_value_def demo_hash_def demo_verified_def demo_callback_def intro!: exI [of _ "hex_encode (replicate 32 (CHR 0x02))"])
qed

lemma demo_reachable: "exec_reachable demo_xenv demo_x1" "exec_reachable demo_xenv demo_x2" "exec_reachable demo_xenv demo_x3"
  "exec_reachable demo_xenv demo_x4"
proof -
  show 1: "exec_reachable demo_xenv demo_x1"
    unfolding exec_reachable_def demo_x1_def by (intro r_into_rtranclp exec_step.create [OF demo_spec_valid])
  show 2: "exec_reachable demo_xenv demo_x2"
    by (rule exec_reachable_steps [OF 1], unfold demo_x2_def, intro r_into_rtranclp exec_step.prepare)
  show 3: "exec_reachable demo_xenv demo_x3"
    by (rule exec_reachable_steps [OF 2], unfold demo_x3_def, intro r_into_rtranclp exec_step.activate)
  show "exec_reachable demo_xenv demo_x4"
    by (rule exec_reachable_steps [OF 3], unfold demo_x4_def, intro r_into_rtranclp exec_step.callback [OF demo_signed])
qed

lemma demo_x1_get: "gget (er_executions demo_x1) ''x'' = Some (fresh_execution 5 demo_spec)" "attempts_of demo_x1 ''x'' = []"
  by (simp_all add: demo_x1_def get_or_create_def new_exec_repository_def Let_def fresh_execution_def demo_spec_def put_execution_def attempts_of_def)

definition demo_running :: execution where
  "demo_running = (fresh_execution 5 demo_spec)\<lparr>ex_Status := ExecutionRunning, ex_CurrentAttempt := 1, ex_UpdatedAt := 7\<rparr>"

definition demo_attempt :: attempt where
  "demo_attempt = (new_attempt ''x'' 1 6)\<lparr>at_Status := AttemptActive, at_FencingToken := 7, at_LeaseExpiresAt := 100,
     at_CallbackNonceHash := demo_hash, at_NonceKeyVersion := ''v1'', at_UpdatedAt := 7\<rparr>"

lemma demo_x2_get:
  "gget (er_executions demo_x2) ''x'' = Some ((fresh_execution 5 demo_spec)\<lparr>ex_CurrentAttempt := 1, ex_UpdatedAt := 6\<rparr>)"
  "attempts_of demo_x2 ''x'' = [new_attempt ''x'' 1 6]"
  by (simp_all add: demo_x2_def prepare_attempt_def demo_x1_get Let_def) (simp_all add: fresh_execution_def)

lemma demo_x3_unanswered: "er_callbacks demo_x3 = []"
  by (simp add: demo_x3_def demo_x2_def demo_x1_def method_answers new_exec_repository_def)

lemma demo_x3_get: "gget (er_executions demo_x3) ''x'' = Some demo_running" "attempts_of demo_x3 ''x'' = [demo_attempt]"
  by (simp_all add: demo_x3_def activate_attempt_def locked_attempt_def demo_x2_get Let_def demo_lease_def put_attempt_def)
    (simp_all add: fresh_execution_def demo_spec_def demo_running_def demo_attempt_def)

text \<open>
  The properties of executions: the invariant, the refinement of the state machine by the repository and
  the service, what an execution never does, reports and their signatures, redelivery, and two ways in
  which a cancellation gets stuck.
\<close>

section \<open>The stored executions\<close>

text \<open>
  C13: Stored executions are well formed. In every reachable repository an execution is stored under its
  identifier and found under its idempotency key, its attempts are numbered 1 to the current attempt with
  derived identifiers, every attempt but the last is expired or failed, the last attempt's status fits the
  execution's, an active attempt has a fencing token of at least 1, the used cost is a valid amount within
  the cap, and there is content exactly when the execution succeeded.
\<close>
theorem executions_well_formed:
  assumes "exec_reachable E r" "gget (er_executions r) i = Some x"
  shows "sp_LogicalExecutionID (ex_Spec x) = i \<and> gget (er_idempotency r) (sp_IdempotencyKey (ex_Spec x)) = Some i \<and>
    ex_CurrentAttempt x = int (length (attempts_of r i)) \<and>
    (\<forall>k < length (attempts_of r i). at_Number (attempts_of r i ! k) = int k + 1 \<and> at_AttemptID (attempts_of r i ! k) = attempt_id i (k + 1) \<and>
       (k + 1 < length (attempts_of r i) \<longrightarrow> at_Status (attempts_of r i ! k) \<in> {AttemptExpired, AttemptFailed})) \<and>
    status_ok (ex_Status x) (attempts_of r i) \<and>
    (\<forall>a \<in> set (attempts_of r i). at_Status a = AttemptActive \<longrightarrow> 1 \<le> at_FencingToken a) \<and>
    valid_money (ex_UsedCost x) \<and> money_int (ex_UsedCost x) \<le> money_int (sp_CostCap (ex_Spec x)) \<and>
    (ex_Status x = ExecutionSucceeded \<longleftrightarrow> ex_ContentHash x \<noteq> [])"
proof -
  note inv = exec_reachable_inv [OF assms(1)]
  note ok = exec_inv_get [OF inv assms(2)] 
  have "at_Status (attempts_of r i ! k) \<in> {AttemptExpired, AttemptFailed}" if "k + 1 < length (attempts_of r i)" for k
  proof -
    have "butlast (attempts_of r i) ! k \<in> set (butlast (attempts_of r i))" using that by (intro nth_mem) simp
    then show ?thesis using ok that by (simp add: exec_ok_def superseded_def nth_butlast)
  qed
  moreover have "1 \<le> at_FencingToken a" if "a \<in> set (attempts_of r i)" "at_Status a = AttemptActive" for a
  proof (cases "attempts_of r i" rule: rev_cases)
    case (snoc before b)
    with ok have "exec_ok i x (before @ [b])" by simp
    with that snoc show ?thesis by (auto simp: exec_ok_snoc fenced_def)
  qed (use that in simp)
  moreover have "ex_Status x = ExecutionSucceeded \<longleftrightarrow> ex_ContentHash x \<noteq> []"
    using ok valid_digest_nonblank by (auto simp: exec_ok_def content_ok_def report_ok_def split: if_splits)
  ultimately show ?thesis
    using ok exec_inv_idempotency [OF inv assms(2)] by (simp add: exec_ok_def numbered_def cost_ok_def)
qed

theorem executions_well_formed_witness:
  "exec_reachable demo_xenv demo_x3 \<and> gget (er_executions demo_x3) ''x'' = Some demo_running \<and> ex_CurrentAttempt demo_running = 1 \<and>
   money_int (ex_UsedCost demo_running) \<le> money_int (sp_CostCap (ex_Spec demo_running))"
  using executions_well_formed [OF demo_reachable(3) demo_x3_get(1)] demo_reachable(3) demo_x3_get by simp

text \<open>
  C14: The repository implements the state machine. A method call on a reachable repository leaves the
  executions as they are, creates an execution from a validated specification, or performs one move of the
  state machine on one execution; and whatever the peers answer and whichever requests run during the
  remote calls, every service call is a sequence of such method calls.
\<close>
theorem repository_refines_machine:
  assumes "exec_reachable E (fst s)" "peers_fair E P"
  shows "(exec_step E (fst s) r' \<longrightarrow> same_executions (fst s) r' \<or> creates E (fst s) r' \<or> moves (fst s) r') \<and>
    exec_steps E (fst s) (fst (svc_create E now sp (fst s))) \<and>
    exec_steps E (fst s) (fst (fst (svc_dispatch E C P now i s))) \<and>
    exec_steps E (fst s) (fst (fst (svc_poll E C P now i s))) \<and>
    exec_steps E (fst s) (fst (fst (svc_cancel E C P now i s))) \<and>
    exec_steps E (fst s) (fst (fst (svc_deliverable E C P i s))) \<and>
    exec_steps E (fst s) (fst (fst (svc_handle_callback E C P now c signature s)))"
  using exec_step_shape [OF _ exec_reachable_inv [OF assms(1)]] svc_create_steps svc_dispatch_steps [OF assms(2)]
    svc_poll_steps [OF assms(2)] svc_cancel_steps [OF assms(2) exec_reachable_inv [OF assms(1)]] svc_deliverable_steps [OF assms(2)]
    svc_handle_callback_steps [OF assms(2)]
  by simp

text \<open>Peers during whose calls no other request runs: they grant the lease, run a create, and refuse the rest.\<close>

definition demo_peers :: "unit exec_peers" where
  "demo_peers = \<lparr>pe_reserve = (\<lambda>_ _ _ s. (s, Inr demo_lease)), pe_release = (\<lambda>_ _ s. s),
     pe_create = (\<lambda>_ _ s. (s, Inr \<lparr>rc_Accepted = True, rc_Status = ExecutionRunning, rc_Reason = []\<rparr>)),
     pe_status = (\<lambda>_ _ s. (s, Inl (XErrRemote []))), pe_cancel = (\<lambda>_ _ s. (s, Inr \<lparr>rx_Accepted = True\<rparr>)),
     pe_deliverable = (\<lambda>_ _ s. (s, Inl (XErrRemote [])))\<rparr>"

lemma demo_peers_fair: "peers_fair demo_xenv demo_peers"
  by (simp add: peers_fair_def demo_peers_def)

theorem repository_refines_machine_witness:
  "exec_steps demo_xenv demo_x3 (fst (fst (svc_cancel demo_xenv demo_xconfig demo_peers 9 ''x'' (demo_x3, ()))))"
  using repository_refines_machine [of demo_xenv "(demo_x3, ())" demo_peers, simplified, OF demo_reachable(3) demo_peers_fair] by blast

text \<open>
  Executions only advance. Along any steps of any requests an execution stays stored with its
  specification, its used cost and the number of its attempts do not decrease and the cost stays within the
  cap; and an execution that succeeded, was cancelled or was stopped for its cost stays exactly as it is,
  with all its attempts.
\<close>
theorem executions_only_advance:
  assumes "exec_reachable E r" "exec_steps E r r'" "gget (er_executions r) i = Some x"
  shows "\<exists>x'. gget (er_executions r') i = Some x' \<and> ex_Spec x' = ex_Spec x \<and>
    money_int (ex_UsedCost x) \<le> money_int (ex_UsedCost x') \<and> money_int (ex_UsedCost x') \<le> money_int (sp_CostCap (ex_Spec x)) \<and>
    length (attempts_of r i) \<le> length (attempts_of r' i) \<and>
    (ex_Status x \<in> {ExecutionSucceeded, ExecutionCancelled, ExecutionCostStopped} \<longrightarrow> x' = x \<and> attempts_of r' i = attempts_of r i)"
proof -
  note inv = exec_reachable_inv [OF assms(1)]
  from steps_execution [OF assms(2) inv assms(3)] obtain x' where x': "gget (er_executions r') i = Some x'" "ex_Spec x' = ex_Spec x"
    "money_int (ex_UsedCost x) \<le> money_int (ex_UsedCost x')" "length (attempts_of r i) \<le> length (attempts_of r' i)" by blast
  have "exec_ok i x' (attempts_of r' i)" by (rule exec_inv_get [OF exec_steps_inv [OF assms(2) inv] x'(1)])
  then have "money_int (ex_UsedCost x') \<le> money_int (sp_CostCap (ex_Spec x))" using x'(2) by (simp add: exec_ok_def cost_ok_def)
  then show ?thesis using x' steps_final [OF assms(2) inv assms(3)] by (auto simp: final_status_def)
qed

theorem executions_only_advance_witness:
  "\<exists>x'. gget (er_executions demo_x4) ''x'' = Some x' \<and> ex_Spec x' = demo_spec \<and> money_int (ex_UsedCost x') \<le> money_int ''5''"
proof -
  have "exec_steps demo_xenv demo_x3 demo_x4" unfolding demo_x4_def by (intro r_into_rtranclp exec_step.callback [OF demo_signed])
  from executions_only_advance [OF demo_reachable(3) this demo_x3_get(1)] show ?thesis
    by (auto simp: demo_running_def fresh_execution_def demo_spec_def)
qed

section \<open>Reports\<close>

text \<open>
  C25: A report is answered once. A callback, or an observation, that was accepted and is delivered again
  after any steps of any requests gets the very answer of the first delivery, marked as a replay, and
  changes nothing.
\<close>
theorem reports_answered_once:
  assumes "exec_steps E r' r''"
  shows "(apply_callback now v r = (r', Inr a) \<and> \<not> cr_Replay a \<longrightarrow> apply_callback now' v r'' = (r'', Inr (a\<lparr>cr_Replay := True\<rparr>))) \<and>
    (apply_terminal_observation now w r = (r', Inr b) \<and> \<not> rr_Replay b \<longrightarrow>
       apply_terminal_observation now' w r'' = (r'', Inr (b\<lparr>rr_Replay := True\<rparr>)))"
  using callback_repeated [OF _ _ assms] observation_repeated [OF _ _ assms] by blast

definition demo_answer :: callback_result where
  "demo_answer = \<lparr>cr_Execution = finished_execution 12 ''2'' True demo_hash ''d'' demo_running, cr_Outcome = CallbackAccepted,
     cr_Replay = False, cr_ShouldCancel = False\<rparr>"

lemma demo_applied: "apply_callback 12 demo_verified demo_x3 = (demo_x4, Inr demo_answer)"
proof -
  have cb: "cb_LogicalExecutionID demo_callback = ''x''" "cb_AttemptID demo_callback = attempt_id ''x'' 1" "cb_AgentID demo_callback = ''a''"
    "cb_FencingToken demo_callback = 7" by (simp_all add: demo_callback_def)
  have x: "sp_AgentID (ex_Spec demo_running) = ''a''" "ex_Status demo_running = ExecutionRunning"
    by (simp_all add: demo_running_def fresh_execution_def demo_spec_def)
  have a: "at_FencingToken demo_attempt = 7" "at_LeaseExpiresAt demo_attempt = 100" "at_Status demo_attempt = AttemptActive"
    "at_CallbackNonceHash demo_attempt = demo_hash" by (simp_all add: demo_attempt_def)
  have f: "find_attempt [demo_attempt] (attempt_id ''x'' 1) = Some 0" by (simp add: find_attempt_def demo_attempt_def)
  have "callback_effect 12 demo_callback demo_running demo_attempt =
      Inr (finished_execution 12 ''2'' True demo_hash ''d'' demo_running, closed_attempt 12 AttemptCompleted demo_attempt, CallbackAccepted, False)"
    by (simp add: callback_effect_def compare_money_def demo_callback_def demo_running_def fresh_execution_def demo_spec_def)
  then have "snd (apply_callback 12 demo_verified demo_x3) = Inr demo_answer"
    unfolding apply_callback_def demo_verified_def verified_callback.simps demo_x3_unanswered gget_empty option.case Let_def cb demo_x3_get f
    by (simp add: x a demo_answer_def)
  then show ?thesis unfolding demo_x4_def by (metis prod.collapse)
qed

theorem reports_answered_once_witness:
  "apply_callback 20 demo_verified (fst (request_cancel 15 ''y'' demo_x4)) =
     (fst (request_cancel 15 ''y'' demo_x4), Inr (demo_answer\<lparr>cr_Replay := True\<rparr>))"
proof -
  have "\<not> cr_Replay demo_answer" by (simp add: demo_answer_def)
  moreover have "exec_steps demo_xenv demo_x4 (fst (request_cancel 15 ''y'' demo_x4))" by (rule r_into_rtranclp, rule exec_step.request)
  ultimately show ?thesis using demo_applied reports_answered_once by blast
qed

text \<open>
  C26: Only the holder of the lease reports. When a callback changes a stored execution or an attempt, it
  was signed with the key of the agent, who is the agent of the execution, and it names the last attempt,
  which is active, its fencing token and its nonce; the lease has not expired and the execution is running.
  Nothing but that execution changes.
\<close>
theorem only_lease_holder_reports:
  assumes "exec_reachable E r" "verify_callback E skew t c signature = Inr v"
    and "er_executions (fst (apply_callback now v r)) \<noteq> er_executions r \<or> er_attempts (fst (apply_callback now v r)) \<noteq> er_attempts r"
  shows "\<exists>x key payload h before a. gget (er_executions r) (cb_LogicalExecutionID c) = Some x \<and> ex_Status x = ExecutionRunning \<and>
    sp_AgentID (ex_Spec x) = cb_AgentID c \<and> xe_key E (cb_AgentID c) (cb_KeyVersion c) = Some key \<and> xe_json_callback E c = Some payload \<and>
    signature = signature_prefix @ h \<and> hex_decode h = Some (xe_hmac E key payload) \<and>
    attempts_of r (cb_LogicalExecutionID c) = before @ [a] \<and> at_AttemptID a = cb_AttemptID c \<and> at_Status a = AttemptActive \<and>
    at_FencingToken a = cb_FencingToken c \<and> at_CallbackNonceHash a = hash_value E (cb_Nonce c) \<and> now < at_LeaseExpiresAt a \<and>
    (\<forall>j. j \<noteq> cb_LogicalExecutionID c \<longrightarrow> gget (er_executions (fst (apply_callback now v r))) j = gget (er_executions r) j \<and>
       attempts_of (fst (apply_callback now v r)) j = attempts_of r j)"
proof -
  note v = verify_callback_facts [OF assms(2)]
  show ?thesis
  proof (cases rule: apply_callback_cases [where now = now and v = v and r = r])
    case (ended x before a x' a' outcome stop result)
    have "exec_ok (cb_LogicalExecutionID c) x (before @ [a])"
      using exec_inv_get [OF exec_reachable_inv [OF assms(1)] ended(2)] ended(3) v by simp
    then have run: "ex_Status x = ExecutionRunning" using ended(9,10) live_status_running by blast
    from assms(2) obtain key payload h where "xe_key E (cb_AgentID c) (cb_KeyVersion c) = Some key" "xe_json_callback E c = Some payload"
      "signature = signature_prefix @ h" "hex_decode h = Some (xe_hmac E key payload)" by (auto simp: verify_callback_iff)
    with ended run v show ?thesis by (intro exI [of _ x] exI [of _ key] exI [of _ payload] exI [of _ h] exI [of _ before] exI [of _ a]) auto
  qed (use assms(3) in simp_all)
qed

theorem only_lease_holder_reports_witness:
  "er_executions demo_x4 \<noteq> er_executions demo_x3 \<and>
   (\<exists>x. gget (er_executions demo_x3) ''x'' = Some x \<and> ex_Status x = ExecutionRunning \<and> sp_AgentID (ex_Spec x) = ''a'')"
proof -
  have "attempts_of demo_x4 ''x'' \<noteq> attempts_of demo_x3 ''x'' \<or> gget (er_executions demo_x4) ''x'' \<noteq> gget (er_executions demo_x3) ''x''"
    and ch: "er_executions demo_x4 \<noteq> er_executions demo_x3"
  proof -
    have "cr_Execution demo_answer \<noteq> demo_running"
      by (simp add: demo_answer_def finished_execution_def demo_running_def fresh_execution_def)
    moreover have "gget (er_executions demo_x4) ''x'' = Some (cr_Execution demo_answer)"
    proof (cases rule: apply_callback_cases [where now = 12 and v = demo_verified and r = demo_x3])
      case (ended x before a x' a' outcome stop result)
      have "cb_LogicalExecutionID (vc_Callback demo_verified) = ''x''" by (simp add: demo_verified_def demo_callback_def)
      then have "gget (er_executions (fst (apply_callback 12 demo_verified demo_x3))) ''x'' = Some (cr_Execution result)"
        unfolding ended(12) by (simp add: ended(14))
      then show ?thesis using ended(13) demo_applied by simp
    qed (use demo_applied in \<open>auto simp: demo_answer_def\<close>)
    ultimately show "attempts_of demo_x4 ''x'' \<noteq> attempts_of demo_x3 ''x'' \<or> gget (er_executions demo_x4) ''x'' \<noteq> gget (er_executions demo_x3) ''x''"
      "er_executions demo_x4 \<noteq> er_executions demo_x3" using demo_x3_get(1) by auto
  qed
  have "cb_LogicalExecutionID demo_callback = ''x''" "cb_AgentID demo_callback = ''a''" by (simp_all add: demo_callback_def)
  with only_lease_holder_reports [OF demo_reachable(3) demo_signed, of 12] ch show ?thesis
    unfolding demo_x4_def [symmetric] by metis
qed

text \<open>
  Signing and verifying agree. A callback that passes validation and is signed with the agent's key is
  verified, with the digests of its nonce and payload; and a signature that is verified decodes to exactly
  the MAC that signing produces, so a verified callback carries the signature of \<open>SignCallback\<close> up to the
  case of its hexadecimal digits.
\<close>
theorem callback_signature_roundtrip:
  assumes "xe_key E (cb_AgentID c) (cb_KeyVersion c) = Some key" "\<And>m. length (xe_hmac E key m) = 32"
    and "validate_callback c now skew = Inr ()" "sign_callback E c key = Inr signature"
  shows "(\<exists>payload. xe_json_callback E c = Some payload \<and> verify_callback E skew now c signature =
      Inr \<lparr>vc_Callback = c, vc_NonceHash = hash_value E (cb_Nonce c), vc_PayloadHash = hash_value E payload\<rparr>) \<and>
    (\<forall>other v. verify_callback E skew now c other = Inr v \<longrightarrow> decode_signature other = decode_signature signature)"
proof -
  from assms(4) obtain payload where p: "xe_json_callback E c = Some payload" "32 \<le> length key"
    "signature = signature_prefix @ hex_encode (xe_hmac E key payload)"
    by (auto simp: sign_callback_def callback_payload_def from_option_def rbind_Inr_iff split: if_splits option.splits)
  then have "verify_callback E skew now c signature =
      Inr \<lparr>vc_Callback = c, vc_NonceHash = hash_value E (cb_Nonce c), vc_PayloadHash = hash_value E payload\<rparr>"
    unfolding verify_callback_iff using assms(1-3) by auto
  moreover have "decode_signature other = decode_signature signature" if "verify_callback E skew now c other = Inr v" for other v
  proof -
    from that assms(1) p(1) obtain h where "other = signature_prefix @ h" "hex_decode h = Some (xe_hmac E key payload)"
      unfolding verify_callback_iff by auto
    then have "decode_signature other = Inr (xe_hmac E key payload)" using assms(2) by (simp add: decode_signature_iff)
    then show ?thesis using p(3) decode_signature_sign [OF assms(2)] by simp
  qed
  ultimately show ?thesis using p(1) by blast
qed

theorem callback_signature_roundtrip_witness:
  "sign_callback demo_xenv demo_callback (replicate 32 (CHR ''k'')) = Inr (signature_prefix @ hex_encode (replicate 32 (CHR 0x02))) \<and>
   (\<exists>v. verify_callback demo_xenv minute_ns 11 demo_callback (signature_prefix @ hex_encode (replicate 32 (CHR 0x02))) = Inr v)"
proof -
  have k: "xe_key demo_xenv (cb_AgentID demo_callback) (cb_KeyVersion demo_callback) = Some (replicate 32 (CHR ''k''))"
    "\<And>m. length (xe_hmac demo_xenv (replicate 32 (CHR ''k'')) m) = 32" by (simp_all add: demo_xenv_def)
  have v: "validate_callback demo_callback 11 minute_ns = Inr ()" using verify_callback_facts [OF demo_signed] by simp
  have s: "sign_callback demo_xenv demo_callback (replicate 32 (CHR ''k'')) = Inr (signature_prefix @ hex_encode (replicate 32 (CHR 0x02)))"
    by (simp add: sign_callback_def callback_payload_def demo_xenv_def)
  from callback_signature_roundtrip [OF k v s] s show ?thesis by blast
qed

section \<open>Dispatch and cancellation\<close>

text \<open>
  A lost dispatch is redelivered unchanged. When the agent's answer to the first dispatch of an execution
  is lost (any error of the call), a later dispatch while the lease is open sends the very same envelope:
  the same attempt, fencing token, callback nonce and idempotency key. There is one attempt after both.
\<close>
theorem dispatch_redelivers:
  assumes "gget (er_executions r) i = Some x" "sp_LogicalExecutionID (ex_Spec x) = i" "attempts_of r i = []" "ex_Status x = ExecutionPending"
    and "lease_fits E C now x (attempt_id i 1) lease" "now' < le_ExpiresAt lease"
    and "xe_join E (xc_CallbackBaseURL C) [i, attempt_id i 1] = Some url" "xe_url E url = Some u" "ur_Scheme u = ''https''" "ur_Host u \<noteq> []"
      "\<not> ur_User u" "ur_Fragment u = []" "\<And>m. xe_hmac E (xc_NonceSecret C) m \<noteq> []"
  shows "\<exists>v r1 y a. svc_dispatch E C (log_peers lease (Inl e)) now i (r, []) = ((r1, [v]), Some e, y, a, False) \<and>
    nv_AttemptID v = attempt_id i 1 \<and> nv_FencingToken v = le_FencingToken lease \<and> nv_IdempotencyKey v = sp_IdempotencyKey (ex_Spec x) \<and>
    snd (fst (svc_dispatch E C (log_peers lease answer) now' i (r1, [v]))) = [v, v] \<and> length (attempts_of r1 i) = 1 \<and>
    snd (snd (snd (snd (svc_dispatch E C (log_peers lease answer) now' i (r1, [v]))))) = True"
proof -
  let ?nonce = "callback_nonce E C (new_attempt i 1 now)"
  from first_dispatch [OF assms(1,3,4,5)] obtain r0 x0 r2 x2 a y b where
    p: "prepare_attempt now i r = (r0, Inr (x0, new_attempt i 1 now, False))" "ex_Spec x0 = ex_Spec x"
    and a: "activate_attempt now i 1 lease (hash_value E ?nonce) (xc_NonceKeyVersion C) r0 = (r2, Inr (x2, a))"
      "at_LogicalExecutionID a = i" "at_AttemptID a = attempt_id i 1" "at_Number a = 1" "leased E C lease a"
    and y: "gget (er_executions (fst (record_dispatch now i 1 r2))) i = Some y" "ex_Status y = ExecutionRunning" "ex_CurrentAttempt y = 1"
      "ex_Spec y = ex_Spec x" "attempts_of (fst (record_dispatch now i 1 r2)) i = [b]" "at_LogicalExecutionID b = i"
      "at_AttemptID b = attempt_id i 1" "at_Number b = 1" "at_ReservationID b = attempt_id i 1" "leased E C lease b" by blast
  let ?r1 = "fst (record_dispatch now i 1 r2)"
  have fence: "at_FencingToken a = le_FencingToken lease" "1 \<le> le_FencingToken lease"
    using a(5) assms(5) by (simp_all add: leased_def lease_fits_def)
  have nonce: "?nonce \<noteq> []"
    using assms(13) [of "nonce_message (new_attempt i 1 now)"] by (cases "xe_hmac E (xc_NonceSecret C) (nonce_message (new_attempt i 1 now))") (simp_all add: callback_nonce_def)
  have "attempt_id i 1 \<noteq> []" by (simp add: attempt_id_def)
  then obtain v where v: "svc_envelope E C x0 a ''create'' ?nonce = Inr v" "nv_AttemptID v = attempt_id i 1"
    "nv_FencingToken v = le_FencingToken lease" "nv_IdempotencyKey v = sp_IdempotencyKey (ex_Spec x)"
    using assms(2,7-12) a(2,3) p(2) fence nonce by (simp add: svc_envelope_def build_envelope_def Let_def)
  have first: "svc_dispatch E C (log_peers lease (Inl e)) now i (r, []) = ((?r1, [v]), Some e, x0, a, False)"
    using dispatch_sends(3) [OF p(1) _ _ v(1), where lease = lease and ?r2.0 = r2 and y = x2 and answer = "Inl e" and e = e and log = "[]"] a(1,4) p(2) assms(2) by simp
  have "lease_fits E C now' y (attempt_id i 1) lease" using assms(5,6) y(4) by (simp add: lease_fits_def)
  note again = again_dispatch [OF y(1,2,3,5,9,10) this]
  have same: "callback_nonce E C b = ?nonce" by (rule callback_nonce_cong) (simp_all add: y)
  have "svc_envelope E C y b ''create'' (callback_nonce E C b) = Inr v"
    unfolding same v(1) [symmetric] using y(4,6,7,10) a(2,3) p(2) fence(1) by (intro svc_envelope_cong) (simp_all add: leased_def)
  with dispatch_sends(1,2) [OF again(1), where E = E and C = C and lease = lease and ?r2.0 = ?r1 and y = y and a = b and v = v and answer = answer and log = "[v]"] again(2) y(4,8) assms(2) first v(2-4) y(5) show ?thesis by auto
qed

theorem dispatch_redelivers_witness:
  "\<exists>v r1 y a. svc_dispatch demo_xenv demo_xconfig (log_peers demo_lease (Inl (XErrRemote ''timeout''))) 6 ''x'' (demo_x1, []) =
       ((r1, [v]), Some (XErrRemote ''timeout''), y, a, False) \<and> nv_FencingToken v = 7 \<and>
     snd (fst (svc_dispatch demo_xenv demo_xconfig (log_peers demo_lease (Inl (XErrRemote ''timeout''))) 60 ''x'' (r1, [v]))) = [v, v]"
proof -
  have x: "sp_LogicalExecutionID (ex_Spec (fresh_execution 5 demo_spec)) = ''x''" "ex_Status (fresh_execution 5 demo_spec) = ExecutionPending"
    by (simp_all add: fresh_execution_def demo_spec_def)
  have l: "lease_fits demo_xenv demo_xconfig 6 (fresh_execution 5 demo_spec) (attempt_id ''x'' 1) demo_lease" "60 < le_ExpiresAt demo_lease"
    "le_FencingToken demo_lease = 7"
    by (simp_all add: lease_fits_def demo_lease_def fresh_execution_def demo_spec_def demo_xconfig_def demo_xenv_def)
  have u: "xe_join demo_xenv (xc_CallbackBaseURL demo_xconfig) [''x'', attempt_id ''x'' 1] = Some (xc_CallbackBaseURL demo_xconfig)"
    "xe_url demo_xenv (xc_CallbackBaseURL demo_xconfig) =
       Some \<lparr>ur_Scheme = ''https'', ur_Host = ''host'', ur_User = False, ur_RawQuery = [], ur_Fragment = [], ur_Path = []\<rparr>"
    "\<And>m. xe_hmac demo_xenv (xc_NonceSecret demo_xconfig) m \<noteq> []"
    by (simp_all add: demo_xenv_def)
  from dispatch_redelivers [OF demo_x1_get(1) x(1) demo_x1_get(2) x(2) l(1,2) u(1,2) _ _ _ _ u(3)] show ?thesis unfolding l(3) by fastforce
qed

text \<open>
  C39: A prepared attempt cannot be cancelled. When the last attempt of an execution is prepared (its
  capacity was not reserved, or is being reserved), \<open>Cancel\<close> marks the execution as cancel requested and
  then always fails, without asking the agent: the envelope of an attempt without a fencing token is
  refused. Repeating it fails again and \<open>Dispatch\<close> is refused; and a dispatch that was under way
  overwrites the request when it activates the attempt, after which completing the cancellation is refused.
\<close>
theorem prepared_not_cancelled:
  assumes "exec_reachable E r" "gget (er_executions r) i = Some x" "attempts_of r i = before @ [a]" "at_Status a = AttemptPrepared"
  shows "\<exists>r1 x1 e1 e2. svc_cancel E C P now i (r, w) = ((r1, w), Some e1, zero_execution) \<and>
    gget (er_executions r1) i = Some x1 \<and> ex_Status x1 = ExecutionCancelRequested \<and>
    fst (snd (svc_cancel E C P now' i (r1, w))) = Some e2 \<and> fst (snd (svc_dispatch E C P now' i (r1, w))) = Some XErrInvalidState \<and>
    (activate_attempt now' i (at_Number a) lease h kv r1 = (r2, Inr (x2, a2)) \<longrightarrow>
       ex_Status x2 = ExecutionRunning \<and> complete_cancel now' i n token r2 = (r2, Inl XErrInvalidState))"
proof -
  note inv = exec_reachable_inv [OF assms(1)]
  let ?x1 = "x\<lparr>ex_Status := ExecutionCancelRequested, ex_UpdatedAt := now\<rparr>"
  let ?r1 = "put_execution i ?x1 r"
  have ok: "exec_ok i x (before @ [a])" using exec_inv_get [OF inv assms(2)] assms(3) by simp
  then have "ex_Status x \<in> {ExecutionPending, ExecutionCancelRequested}" using assms(4) by (simp add: exec_ok_snoc prepared_pairs)
  then have "exec_move now i x (attempts_of r i) ?x1 (attempts_of r i)" by (intro exec_move.request) auto
  then have inv1: "exec_inv ?r1" by (rule put_execution_inv [OF inv assms(2)])
  have g1: "gget (er_executions ?r1) i = Some ?x1" "attempts_of ?r1 i = before @ [a]" using assms(3) by simp_all
  from cancel_prepared [OF inv assms(2-4), where E = E and C = C and P = P and now = now and w = w] obtain e1 where c1: "svc_cancel E C P now i (r, w) = ((?r1, w), Some e1, zero_execution)" by blast
  from cancel_prepared [OF inv1 g1 assms(4), where E = E and C = C and P = P and now = now' and w = w] obtain e2 where c2: "fst (snd (svc_cancel E C P now' i (?r1, w))) = Some e2" by fastforce
  have d: "fst (snd (svc_dispatch E C P now' i (?r1, w))) = Some XErrInvalidState" by (simp add: dispatch_refused [OF g1(1)])
  have "ex_Status x2 = ExecutionRunning \<and> complete_cancel now' i n token r2 = (r2, Inl XErrInvalidState)"
    if act: "activate_attempt now' i (at_Number a) lease h kv ?r1 = (r2, Inr (x2, a2))"
  proof -
    have "locked_attempt i (at_Number a) ?r1 = Inr (?x1, a)"
      using ok g1 by (simp add: locked_attempt_def exec_ok_snoc numbered_snoc nth_append)
    with act assms(4) have "ex_Status x2 = ExecutionRunning" "gget (er_executions r2) i = Some x2"
      by (auto simp: activate_attempt_def Let_def split: if_splits)
    then show ?thesis by (simp add: complete_cancel_def)
  qed
  with c1 g1 c2 d show ?thesis by fastforce
qed

theorem prepared_not_cancelled_witness:
  "\<exists>r1 x1 e1. svc_cancel demo_xenv demo_xconfig demo_peers 9 ''x'' (demo_x2, ()) = ((r1, ()), Some e1, zero_execution) \<and>
     gget (er_executions r1) ''x'' = Some x1 \<and> ex_Status x1 = ExecutionCancelRequested"
proof -
  have "attempts_of demo_x2 ''x'' = [] @ [new_attempt ''x'' 1 6]" by (simp add: demo_x2_get)
  from prepared_not_cancelled [OF demo_reachable(2) demo_x2_get(1) this] show ?thesis by fastforce
qed

text \<open>
  A failed execution that is cancelled is stuck. \<open>RequestCancel\<close> accepts an execution whose last
  attempt failed and marks it as cancel requested; from then on, whatever requests run, it stays so: every
  completion of the cancellation is refused, because the attempt has failed, and so is every new attempt,
  although the failed execution could have been dispatched again.
\<close>
theorem failed_cancel_stuck:
  assumes "exec_reachable E r" "gget (er_executions r) i = Some x" "ex_Status x = ExecutionFailed"
    and "exec_steps E (fst (request_cancel now i r)) r'" "0 < n"
  shows "\<exists>x' e. gget (er_executions r') i = Some x' \<and> ex_Status x' = ExecutionCancelRequested \<and>
    complete_cancel now' i n token r' = (r', Inl e) \<and> prepare_attempt now' i r' = (r', Inl XErrInvalidState)"
proof -
  note inv = exec_reachable_inv [OF assms(1)]
  from exec_inv_get [OF inv assms(2)] obtain before a where a: "attempts_of r i = before @ [a]" "at_Status a = AttemptFailed"
    using assms(3) by (cases "attempts_of r i" rule: rev_cases) (auto simp: exec_ok_def status_ok_def status_pairs_def)
  let ?x1 = "x\<lparr>ex_Status := ExecutionCancelRequested, ex_UpdatedAt := now\<rparr>"
  have r1: "fst (request_cancel now i r) = put_execution i ?x1 r" using assms(2,3) by (simp add: request_cancel_def Let_def)
  have "exec_move now i x (attempts_of r i) ?x1 (attempts_of r i)" using assms(3) by (intro exec_move.request) auto
  then have inv1: "exec_inv (put_execution i ?x1 r)" by (rule put_execution_inv [OF inv assms(2)])
  from cancel_requested_failed_stays [OF assms(4) [unfolded r1] inv1, of i ?x1 before a] obtain x' where
    x': "gget (er_executions r') i = Some x'" "ex_Status x' = ExecutionCancelRequested" "attempts_of r' i = before @ [a]" using a by auto
  have inv': "exec_inv r'" by (rule exec_steps_inv [OF assms(4) [unfolded r1] inv1])
  have "\<exists>e. complete_cancel now' i n token r' = (r', Inl e)"
  proof (cases "locked_attempt i n r'")
    case (Inr p)
    obtain y b where p: "p = (y, b)" by (cases p)
    from locked_attempt_last [OF inv'] Inr p x'(3) have "b = a" by fastforce
    with Inr p x' a(2) assms(5) show ?thesis by (simp add: complete_cancel_def)
  qed (use x' assms(5) in \<open>simp add: complete_cancel_def\<close>)
  moreover have "prepare_attempt now' i r' = (r', Inl XErrInvalidState)" using x' by (simp add: prepare_attempt_def)
  ultimately show ?thesis using x' by blast
qed

definition demo_failed :: exec_repo where
  "demo_failed = fst (fail_attempt 8 ''x'' 1 7 demo_x3)"

theorem failed_cancel_stuck_witness:
  "\<exists>x'. gget (er_executions (fst (request_cancel 9 ''x'' demo_failed))) ''x'' = Some x' \<and> ex_Status x' = ExecutionCancelRequested \<and>
     prepare_attempt 10 ''x'' (fst (request_cancel 9 ''x'' demo_failed)) = (fst (request_cancel 9 ''x'' demo_failed), Inl XErrInvalidState)"
proof -
  have reach: "exec_reachable demo_xenv demo_failed"
    by (rule exec_reachable_steps [OF demo_reachable(3)], unfold demo_failed_def, intro r_into_rtranclp exec_step.fail)
  have "locked_attempt ''x'' 1 demo_x3 = Inr (demo_running, demo_attempt)"
    by (simp add: locked_attempt_def demo_x3_get) (simp add: demo_running_def)
  then have "\<exists>x. gget (er_executions demo_failed) ''x'' = Some x \<and> ex_Status x = ExecutionFailed"
    by (simp add: demo_failed_def fail_attempt_def demo_attempt_def)
  then obtain x where "gget (er_executions demo_failed) ''x'' = Some x" "ex_Status x = ExecutionFailed" by blast
  from failed_cancel_stuck [OF reach this rtranclp.rtrancl_refl, of 1 9 10] show ?thesis by auto
qed

end
