(* ===== verification/Execution_Transport.thy ===== *)
theory Execution_Transport
  imports Execution_Facts
begin

text \<open>
  The transport of the execution package: the credentials of the agents
  (\<open>internal/execution/runtime_credentials.go\<close>), the client that calls them (\<open>http_client.go\<close>) and the
  handler of their callbacks (\<open>callback_handler.go\<close>). JSON and base64 decoding, \<open>http.Client.Do\<close> and the
  reading of a body are parameters. A decoder of a whole body gives \<open>None\<close> for invalid JSON, unknown
  fields or trailing data. A set of headers is a map.
\<close>

section \<open>Runtime credentials\<close>

record runtime_credential =
  ru_BearerToken :: string
  ru_CallbackKey :: string
  ru_CallbackKeyVersion :: string

record runtime_credential_json =
  rj_BearerToken :: string
  rj_CallbackKeyBase64 :: string
  rj_CallbackKeyVersion :: string

record cred_env =
  ce_json :: "string \<Rightarrow> runtime_credential_json option"
  ce_json_map :: "string \<Rightarrow> (string, runtime_credential_json) gomap option"
  ce_base64 :: "string \<Rightarrow> string option"
  ce_agent :: "string \<Rightarrow> string option"

type_synonym credentials = "(string, runtime_credential) gomap"

fun decode_credentials :: "cred_env \<Rightarrow> (string \<times> runtime_credential_json) list \<Rightarrow> credentials \<Rightarrow> exec_error + credentials" where
  "decode_credentials D [] credentials = Inr credentials"
| "decode_credentials D ((agentID, v) # vs) credentials =
     (case ce_base64 D (rj_CallbackKeyBase64 v) of
        None \<Rightarrow> Inl (XErrRemote ''base64'')
      | Some key \<Rightarrow> decode_credentials D vs (gput agentID \<lparr>ru_BearerToken = rj_BearerToken v, ru_CallbackKey = key,
          ru_CallbackKeyVersion = rj_CallbackKeyVersion v\<rparr> credentials))"

definition decode_runtime_credentials_json :: "cred_env \<Rightarrow> string \<Rightarrow> exec_error + credentials" where
  "decode_runtime_credentials_json D encoded =
     (case ce_json_map D encoded of None \<Rightarrow> Inl (XErrRemote ''json'') | Some vs \<Rightarrow> decode_credentials D vs [])"

definition has_line_break :: "string \<Rightarrow> bool" where
  "has_line_break s \<longleftrightarrow> list_ex (\<lambda>c. c = CHR 0x0D \<or> c = CHR 0x0A) s"

definition bad_credential :: "runtime_credential \<Rightarrow> bool" where
  "bad_credential v \<longleftrightarrow> blank (ru_BearerToken v) \<or> length (ru_BearerToken v) > 4096 \<or> has_line_break (ru_BearerToken v) \<or>
     length (ru_CallbackKey v) \<noteq> 32 \<or> blank (ru_CallbackKeyVersion v) \<or> length (ru_CallbackKeyVersion v) > 128"

fun check_credentials :: "(string \<times> runtime_credential) list \<Rightarrow> string list \<Rightarrow> credentials \<Rightarrow> exec_error + credentials" where
  "check_credentials [] seen accepted = Inr accepted"
| "check_credentials ((agentID, v) # vs) seen accepted =
     (if blank agentID \<or> length agentID > 200 \<or> bad_credential v then Inl XErrInvalidInput
      else if ru_BearerToken v \<in> set seen then Inl XErrInvalidInput
      else check_credentials vs (ru_BearerToken v # seen) (gput agentID v accepted))"

definition new_credential_provider :: "credentials \<Rightarrow> exec_error + credentials" where
  "new_credential_provider cs = check_credentials cs [] []"

definition decode_protocol_bundle :: "cred_env \<Rightarrow> string \<Rightarrow> exec_error + runtime_credential" where
  "decode_protocol_bundle D v =
     (case ce_json D v of
        None \<Rightarrow> Inl XErrInvalidInput
      | Some raw \<Rightarrow>
        (case ce_base64 D (rj_CallbackKeyBase64 raw) of
           None \<Rightarrow> Inl XErrInvalidInput
         | Some key \<Rightarrow>
             let c = \<lparr>ru_BearerToken = rj_BearerToken raw, ru_CallbackKey = key, ru_CallbackKeyVersion = rj_CallbackKeyVersion raw\<rparr>
             in if bad_credential c then Inl XErrInvalidInput else Inr c))"

definition token_taken :: "string \<Rightarrow> runtime_credential \<Rightarrow> credentials \<Rightarrow> bool" where
  "token_taken agentID c p \<longleftrightarrow> list_ex (\<lambda>(currentID, current). currentID \<noteq> agentID \<and> ru_BearerToken current = ru_BearerToken c) p"

definition validate_protocol_bundle :: "cred_env \<Rightarrow> string \<Rightarrow> string \<Rightarrow> credentials \<Rightarrow> exec_error + unit" where
  "validate_protocol_bundle D agentID v p =
     (case decode_protocol_bundle D v of
        Inl _ \<Rightarrow> Inl XErrInvalidInput
      | Inr c \<Rightarrow> if blank agentID \<or> token_taken agentID c p then Inl XErrInvalidInput else Inr ())"

definition update_protocol_bundle :: "cred_env \<Rightarrow> string \<Rightarrow> string \<Rightarrow> credentials \<Rightarrow> credentials \<times> (exec_error + unit)" where
  "update_protocol_bundle D agentID v p =
     (case decode_protocol_bundle D v of
        Inl _ \<Rightarrow> (p, Inl XErrInvalidInput)
      | Inr c \<Rightarrow> if blank agentID \<or> token_taken agentID c p then (p, Inl XErrInvalidInput) else (gput agentID c p, Inr ()))"

definition bearer_prefix :: string where
  "bearer_prefix = ''Bearer ''"

text \<open>The loop over the map returns the first agent with the token; the map's order is any order.\<close>

definition agent_for_authorization :: "string \<Rightarrow> credentials \<Rightarrow> exec_error + string" where
  "agent_for_authorization header p =
     (if \<not> has_prefix header bearer_prefix then Inl XErrInvalidCallback
      else
        let token = drop (length bearer_prefix) header in
        if token = [] then Inl XErrInvalidCallback
        else from_option XErrInvalidCallback (map_option fst (List.find (\<lambda>(agentID, c). token = ru_BearerToken c) p)))"

definition authorize_agent :: "string \<Rightarrow> credentials \<Rightarrow> (string, string) gomap \<Rightarrow> exec_error + (string, string) gomap" where
  "authorize_agent agentID p headers =
     (case gget p agentID of
        None \<Rightarrow> Inl (XErrRemote ''execution Agent credential is unavailable'')
      | Some c \<Rightarrow> Inr (gput ''authorization'' (bearer_prefix @ ru_BearerToken c) headers))"

definition authorize_body :: "cred_env \<Rightarrow> string \<Rightarrow> credentials \<Rightarrow> (string, string) gomap \<Rightarrow> exec_error + (string, string) gomap" where
  "authorize_body D body p headers =
     (if body = [] then Inl XErrInvalidInput
      else case ce_agent D body of
        None \<Rightarrow> Inl (XErrRemote ''execution envelope cannot be authorized'')
      | Some agentID \<Rightarrow> authorize_agent agentID p headers)"

definition callback_key :: "string \<Rightarrow> string \<Rightarrow> credentials \<Rightarrow> exec_error + string" where
  "callback_key agentID version p =
     (case gget p agentID of
        None \<Rightarrow> Inl XErrInvalidCallback
      | Some c \<Rightarrow> if version \<noteq> ru_CallbackKeyVersion c then Inl XErrInvalidCallback else Inr (ru_CallbackKey c))"

subsection \<open>No two agents share a token\<close>

definition tokens_distinct :: "credentials \<Rightarrow> bool" where
  "tokens_distinct p \<longleftrightarrow> gwf p \<and> (\<forall>i c. gget p i = Some c \<longrightarrow> \<not> blank i \<and> \<not> bad_credential c) \<and>
     (\<forall>i j c d. gget p i = Some c \<and> gget p j = Some d \<and> ru_BearerToken c = ru_BearerToken d \<longrightarrow> i = j)"

lemma check_credentials_distinct:
  assumes "check_credentials vs seen accepted = Inr p" "tokens_distinct accepted" "\<forall>i c. gget accepted i = Some c \<longrightarrow> ru_BearerToken c \<in> set seen"
  shows "tokens_distinct p"
  using assms
proof (induction vs seen accepted rule: check_credentials.induct)
  case (2 agentID v vs seen accepted)
  from 2(2) have g: "\<not> blank agentID" "\<not> bad_credential v" "ru_BearerToken v \<notin> set seen"
    and r: "check_credentials vs (ru_BearerToken v # seen) (gput agentID v accepted) = Inr p" by (auto split: if_splits)
  have "tokens_distinct (gput agentID v accepted)"
    using 2(3,4) g unfolding tokens_distinct_def by (auto split: if_splits) metis+
  then show ?case using 2(1) [OF _ _ r] g 2(2,4) by (auto split: if_splits)
qed simp

lemma new_provider_distinct: "new_credential_provider cs = Inr p \<Longrightarrow> tokens_distinct p"
  unfolding new_credential_provider_def by (erule check_credentials_distinct) (simp_all add: tokens_distinct_def)

lemma token_taken_iff: "gwf p \<Longrightarrow> token_taken i c p \<longleftrightarrow> (\<exists>j d. j \<noteq> i \<and> gget p j = Some d \<and> ru_BearerToken d = ru_BearerToken c)"
  by (force simp: token_taken_def list_ex_iff gget_map_of gwf_def)

lemma update_distinct: "tokens_distinct p \<Longrightarrow> tokens_distinct (fst (update_protocol_bundle D i v p))"
proof (cases "fst (update_protocol_bundle D i v p) = p")
  case False
  assume p: "tokens_distinct p"
  from False obtain c where c: "decode_protocol_bundle D v = Inr c" "\<not> blank i" "\<not> token_taken i c p"
    "fst (update_protocol_bundle D i v p) = gput i c p" by (auto simp: update_protocol_bundle_def split: sum.splits if_splits)
  have "\<not> bad_credential c" using c(1) by (auto simp: decode_protocol_bundle_def Let_def split: option.splits if_splits)
  with p c(2,3) show ?thesis
    unfolding c(4) tokens_distinct_def using token_taken_iff [of p i c] by (auto split: if_splits)
qed simp

section \<open>The client\<close>

record http_request =
  hq_url :: string
  hq_headers :: "(string, string) gomap"
  hq_body :: string

record http_response =
  hp_status :: int
  hp_body :: string

text \<open>\<open>http.Client.Do\<close> with redirects refused, on the state of the world.\<close>

type_synonym 'w transport = "http_request \<Rightarrow> 'w \<Rightarrow> 'w \<times> (exec_error + http_response)"

definition client_call ::
    "exec_env \<Rightarrow> cred_env \<Rightarrow> credentials \<Rightarrow> 'w transport \<Rightarrow> (envelope \<Rightarrow> string option) \<Rightarrow> (string \<Rightarrow> 'a option) \<Rightarrow>
     string \<Rightarrow> string \<Rightarrow> envelope \<Rightarrow> 'w \<Rightarrow> 'w \<times> (exec_error + 'a)" where
  "client_call E D p transport marshal unmarshal endpoint path v s =
     (if invalid_endpoint E endpoint then (s, Inl XErrInvalidInput)
      else case xe_join E endpoint [path] of
        None \<Rightarrow> (s, Inl XErrInvalidInput)
      | Some target \<Rightarrow>
        (case marshal v of
           None \<Rightarrow> (s, Inl (XErrRemote ''json''))
         | Some body \<Rightarrow>
             let headers = gput ''x-agent-protocol-version'' ProtocolVersion (gput ''idempotency-key'' (nv_IdempotencyKey v)
                   (gput ''content-type'' ''application/json'' (gput ''accept'' ''application/json'' [])))
             in (case authorize_body D body p headers of
                   Inl _ \<Rightarrow> (s, Inl (XErrRemote ''Agent request authorization failed''))
                 | Inr authorized \<Rightarrow>
                   (case transport \<lparr>hq_url = target, hq_headers = authorized, hq_body = body\<rparr> s of
                      (s', Inl e) \<Rightarrow> (s', Inl e)
                    | (s', Inr response) \<Rightarrow>
                        if hp_status response < 200 \<or> hp_status response \<ge> 300 then (s', Inl (XErrRemote ''Agent protocol returned status''))
                        else if length (hp_body response) > 64 * 1024 then (s', Inl (XErrRemote ''Agent protocol response is too large''))
                        else case unmarshal (hp_body response) of
                          None \<Rightarrow> (s', Inl (XErrRemote ''Agent protocol returned invalid JSON''))
                        | Some result \<Rightarrow> (s', Inr result)))))"

section \<open>The handler of callbacks\<close>

datatype callback_reply =
    CallbackOK callback_result
  | CallbackRefused int string \<comment> \<open>status and code\<close>

definition max_callback_request_bytes :: nat where
  "max_callback_request_bytes = 64 * 1024"

definition callback_error_reply :: "exec_error \<Rightarrow> callback_reply" where
  "callback_error_reply e =
     (if e = XErrInvalidCallback \<or> e = XErrCallbackReplay then CallbackRefused 401 ''invalid_callback_authentication''
      else if e = XErrContentConflict \<or> e = XErrStaleFence \<or> e = XErrInvalidState then CallbackRefused 409 ''callback_conflict''
      else if e = XErrNotFound then CallbackRefused 404 ''execution_not_found''
      else CallbackRefused 500 ''callback_processing_failed'')"

text \<open>The path values, the signature header and the body of the request; the processor is the service.\<close>

definition callback_handler ::
    "(string \<Rightarrow> callback option) \<Rightarrow> (callback \<Rightarrow> string \<Rightarrow> 'w exec_world \<Rightarrow> 'w exec_world \<times> (exec_error + callback_result)) \<Rightarrow>
     string \<Rightarrow> string \<Rightarrow> string \<Rightarrow> string \<Rightarrow> 'w exec_world \<Rightarrow> 'w exec_world \<times> callback_reply" where
  "callback_handler decode processor pathExecution pathAttempt signature body s =
     (if length body > max_callback_request_bytes then (s, CallbackRefused 400 ''invalid_callback_body'')
      else case decode body of
        None \<Rightarrow> (s, CallbackRefused 400 ''invalid_callback_body'')
      | Some c \<Rightarrow>
          if cb_LogicalExecutionID c \<noteq> pathExecution \<or> cb_AttemptID c \<noteq> pathAttempt then (s, CallbackRefused 400 ''callback_identity_mismatch'')
          else case processor c signature s of
            (s', Inl e) \<Rightarrow> (s', callback_error_reply e)
          | (s', Inr result) \<Rightarrow> (s', CallbackOK result))"

section \<open>Authentication of agents\<close>

text \<open>The provider as it may be after start and any rotations of credentials.\<close>

inductive credentials_reachable :: "cred_env \<Rightarrow> credentials \<Rightarrow> bool" for D :: cred_env where
  start: "new_credential_provider cs = Inr p \<Longrightarrow> credentials_reachable D p"
| rotate: "credentials_reachable D p \<Longrightarrow> credentials_reachable D (fst (update_protocol_bundle D i v p))"

lemma credentials_reachable_distinct: "credentials_reachable D p \<Longrightarrow> tokens_distinct p"
  by (induction rule: credentials_reachable.induct) (auto intro: new_provider_distinct update_distinct)

lemma agent_for_token:
  assumes "tokens_distinct p" "gget p i = Some c" "mset p' = mset p"
  shows "agent_for_authorization (bearer_prefix @ ru_BearerToken c) p' = Inr i"
proof -
  have mem: "(i, c) \<in> set p'" using assms(2,3) by (metis gget_map_of map_of_SomeD set_mset_mset)
  have uniq: "(j, d) \<in> set p' \<Longrightarrow> ru_BearerToken c = ru_BearerToken d \<Longrightarrow> j = i" for j d
    using assms by (metis gget_map_of gwf_def map_of_eq_Some_iff set_mset_mset tokens_distinct_def)
  have "List.find (\<lambda>(agentID, d). ru_BearerToken c = ru_BearerToken d) p' \<noteq> None"
    using mem by (auto simp: find_None_iff)
  then obtain j d where f: "List.find (\<lambda>(agentID, d). ru_BearerToken c = ru_BearerToken d) p' = Some (j, d)" by (auto)
  then have "(j, d) \<in> set p' \<and> ru_BearerToken c = ru_BearerToken d" by (auto simp: find_Some_iff) (metis nth_mem)
  then have "j = i" using uniq by blast
  moreover have "ru_BearerToken c \<noteq> []"
    using assms(1,2) unfolding tokens_distinct_def bad_credential_def by (metis blank_empty)
  ultimately show ?thesis using f by (simp add: agent_for_authorization_def has_prefix_def)
qed

text \<open>
  A bearer token identifies its agent. With the credentials the provider may hold after its start and
  any rotations, the header that \<open>AuthorizeAgent\<close> sets for an agent is resolved to that agent, whatever the
  order in which the map is traversed.
\<close>
theorem bearer_token_roundtrip:
  assumes "credentials_reachable D p" "authorize_agent i p headers = Inr authorized" "mset p' = mset p"
  shows "\<exists>header. gget authorized ''authorization'' = Some header \<and> agent_for_authorization header p' = Inr i"
proof -
  from assms(2) obtain c where c: "gget p i = Some c" "authorized = gput ''authorization'' (bearer_prefix @ ru_BearerToken c) headers"
    by (auto simp: authorize_agent_def split: option.splits)
  then show ?thesis using agent_for_token [OF credentials_reachable_distinct [OF assms(1)] c(1) assms(3)] by simp
qed

definition demo_credentials :: credentials where
  "demo_credentials = [(''b'', \<lparr>ru_BearerToken = ''u'', ru_CallbackKey = replicate 32 (CHR ''k''), ru_CallbackKeyVersion = ''v''\<rparr>),
     (''a'', \<lparr>ru_BearerToken = ''t'', ru_CallbackKey = replicate 32 (CHR ''k''), ru_CallbackKeyVersion = ''v''\<rparr>)]"

theorem bearer_token_roundtrip_witness:
  "new_credential_provider (rev demo_credentials) = Inr (rev demo_credentials) \<and>
   (\<exists>header. gget [(''authorization'', bearer_prefix @ ''t'')] ''authorization'' = Some header \<and>
      agent_for_authorization header (rev demo_credentials) = Inr ''a'')"
proof -
  have n: "\<not> blank ''a''" "\<not> blank ''b''" "\<not> blank ''t''" "\<not> blank ''u''" "\<not> blank ''v''"
    by (simp_all add: not_blank_Cons printable_def)
  have p: "new_credential_provider (rev demo_credentials) = Inr (rev demo_credentials)"
    by (simp add: new_credential_provider_def demo_credentials_def n bad_credential_def has_line_break_def gput_def)
  have a: "authorize_agent ''a'' (rev demo_credentials) [] = Inr [(''authorization'', bearer_prefix @ ''t'')]"
    by (simp add: authorize_agent_def demo_credentials_def gget_def gput_def)
  from bearer_token_roundtrip [OF credentials_reachable.start [OF p] a refl] p show ?thesis by blast
qed

end
