(* ===== verification/Selection_Types.thy ===== *)
theory Selection_Types
  imports Money Identity "HOL-Library.Word"
begin

text \<open>The data of the selection package, and the proofs it signs.\<close>

text \<open>
  The data of the selection package (\<open>internal/selection/types.go\<close>): what makes an agent eligible, the proof a
  publisher submits to the escrow contract, reservations and assignments, and the result the projection of the
  chain reports. A \<open>uint64\<close> is a \<open>64 word\<close>; \<open>uint\<close> has 64 bits.
\<close>

type_synonym uint64 = "64 word"

abbreviation ChainPending :: string where "ChainPending \<equiv> ''pending''"
abbreviation ChainConfirmed :: string where "ChainConfirmed \<equiv> ''confirmed''"
abbreviation ChainFailed :: string where "ChainFailed \<equiv> ''failed''"

abbreviation StatusReserved :: string where "StatusReserved \<equiv> ''reserved''"
abbreviation StatusSubmitted :: string where "StatusSubmitted \<equiv> ''submitted''"
abbreviation StatusConfirmed :: string where "StatusConfirmed \<equiv> ''confirmed''"
abbreviation StatusFailed :: string where "StatusFailed \<equiv> ''failed''"
abbreviation StatusExpired :: string where "StatusExpired \<equiv> ''expired''"

datatype selection_error =
    SErrForbidden
  | SErrInvalidInput
  | SErrNotFound
  | SErrInvalidState
  | SErrContentConflict
  | SErrProofMismatch
  | SErrDependencyPending
  | SErrCapacityUnavailable
  | SErrIdempotencyConflict \<comment> \<open>\<open>persistence.ErrIdempotencyConflict\<close>\<close>
  | SErrAgentCapacity \<comment> \<open>\<open>agent.ErrCapacityUnavailable\<close>\<close>
  | SErrAgentNotFound \<comment> \<open>\<open>agent.ErrNotFound\<close>\<close>
  | SErrRecovery \<comment> \<open>a recovery id Ethereum does not know\<close>
  | SErrOther string
  | SErrPanic \<comment> \<open>a panic of \<open>math/big\<close>\<close>

record reserve_request =
  rq_BatchID :: string
  rq_SlotID :: string

record sel_mutation =
  sm_PublisherID :: string
  sm_IdempotencyKey :: string
  sm_RequestHash :: string
  sm_Now :: gotime

record eligibility =
  el_TaskID :: string
  el_ChainTaskID :: string
  el_ChainID :: string
  el_ContractAddress :: string
  el_TaskDeadline :: gotime
  el_SnapshotID :: string
  el_TaskSpecHash :: string
  el_MatchRevision :: uint64
  el_PolicyHash :: string
  el_BatchID :: string
  el_SlotID :: string
  el_AgentID :: string
  el_ProviderID :: string
  el_AgentController :: string
  el_Payout :: string
  el_PriceVersion :: uint64
  el_QuoteHash :: string
  el_AllocationID :: string
  el_OverviewPrice :: string
  el_FormalGrossPrice :: string

record selection_proof =
  pf_TaskID :: string
  pf_AssignmentID :: string
  pf_AgentController :: string
  pf_Payout :: string
  pf_OverviewID :: string
  pf_AllocationID :: string
  pf_QuoteHash :: string
  pf_TaskSpecHash :: string
  pf_MatchRevision :: uint64
  pf_PriceVersion :: uint64
  pf_OverviewPrice :: string
  pf_FormalGrossPrice :: string
  pf_OverviewCredit :: string
  pf_PolicyHash :: string
  pf_Nonce :: string
  pf_Deadline :: uint64

record reservation =
  rv_ID :: string
  rv_PublisherID :: string
  rv_PublisherWallet :: string
  rv_TaskID :: string
  rv_BatchID :: string
  rv_SlotID :: string
  rv_SnapshotID :: string
  rv_AgentID :: string
  rv_ProviderID :: string
  rv_ChainID :: string
  rv_ContractAddress :: string
  rv_Proof :: selection_proof
  rv_ProofPayloadHash :: string
  rv_ProofDigest :: string
  rv_FormalPayable :: string
  rv_CapacityFencingToken :: int
  rv_CapacityExpiresAt :: gotime
  rv_Status :: string
  rv_TransactionHash :: string
  rv_FailureReasonCode :: string
  rv_CreatedAt :: gotime
  rv_UpdatedAt :: gotime

record intent =
  in_Reservation :: reservation
  in_PlatformSignature :: string

record assignment =
  as_ID :: string
  as_TaskID :: string
  as_ReservationID :: string
  as_AgentID :: string
  as_ProviderID :: string
  as_FormalPayable :: string
  as_OverviewCredit :: string
  as_WorkNonce :: uint64
  as_TransactionHash :: string
  as_ConfirmedAt :: gotime

record chain_result =
  hr_Status :: string
  hr_TransactionHash :: string
  hr_BlockNumber :: uint64
  hr_LogIndex :: uint64
  hr_Proof :: selection_proof
  hr_FormalPayable :: string
  hr_WorkNonce :: uint64
  hr_FailureReasonCode :: string

definition zero_proof :: selection_proof where
  "zero_proof = \<lparr>pf_TaskID = [], pf_AssignmentID = [], pf_AgentController = [], pf_Payout = [], pf_OverviewID = [], pf_AllocationID = [],
     pf_QuoteHash = [], pf_TaskSpecHash = [], pf_MatchRevision = 0, pf_PriceVersion = 0, pf_OverviewPrice = [], pf_FormalGrossPrice = [],
     pf_OverviewCredit = [], pf_PolicyHash = [], pf_Nonce = [], pf_Deadline = 0\<rparr>"

definition zero_chain_result :: chain_result where
  "zero_chain_result = \<lparr>hr_Status = [], hr_TransactionHash = [], hr_BlockNumber = 0, hr_LogIndex = 0, hr_Proof = zero_proof,
     hr_FormalPayable = [], hr_WorkNonce = 0, hr_FailureReasonCode = []\<rparr>"

definition zero_reservation :: reservation where
  "zero_reservation = \<lparr>rv_ID = [], rv_PublisherID = [], rv_PublisherWallet = [], rv_TaskID = [], rv_BatchID = [], rv_SlotID = [], rv_SnapshotID = [],
     rv_AgentID = [], rv_ProviderID = [], rv_ChainID = [], rv_ContractAddress = [], rv_Proof = zero_proof, rv_ProofPayloadHash = [], rv_ProofDigest = [],
     rv_FormalPayable = [], rv_CapacityFencingToken = 0, rv_CapacityExpiresAt = 0, rv_Status = [], rv_TransactionHash = [], rv_FailureReasonCode = [],
     rv_CreatedAt = 0, rv_UpdatedAt = 0\<rparr>"

definition zero_assignment :: assignment where
  "zero_assignment = \<lparr>as_ID = [], as_TaskID = [], as_ReservationID = [], as_AgentID = [], as_ProviderID = [], as_FormalPayable = [],
     as_OverviewCredit = [], as_WorkNonce = 0, as_TransactionHash = [], as_ConfirmedAt = 0\<rparr>"

text \<open>
  The platform's signature (\<open>internal/selection/proof.go\<close>): the ABI encoding of a proof, word by word, and the
  EIP-712 signer. Keccak-256, the order of the curve, the scalar of a key and the compact signature are
  parameters: \<open>pe_sign key digest\<close> is \<open>SignCompact(privateKey, digest, false)\<close>.
\<close>

record proof_env =
  pe_keccak :: "string \<Rightarrow> string"
  pe_order :: nat
  pe_serialize :: "string \<Rightarrow> string"
  pe_sign :: "string \<Rightarrow> string \<Rightarrow> string"

section \<open>Words\<close>

definition bytes32_word :: "string \<Rightarrow> selection_error + string" where
  "bytes32_word v =
     (if length v \<noteq> 66 \<or> \<not> has_prefix v ''0x'' then Inl SErrInvalidInput
      else case hex_decode (drop 2 v) of
        None \<Rightarrow> Inl SErrInvalidInput
      | Some word \<Rightarrow> if length word \<noteq> 32 then Inl SErrInvalidInput else Inr word)"

definition auth_address :: "string \<Rightarrow> bool" where
  "auth_address v = (if v \<noteq> to_lower v \<or> length v \<noteq> 42 \<or> \<not> has_prefix v ''0x'' then False else hex_decode (drop 2 v) \<noteq> None)"

definition strip_prefix :: "string \<Rightarrow> string \<Rightarrow> string" where
  "strip_prefix v p = (if has_prefix v p then drop (length p) v else v)"

definition address_word :: "string \<Rightarrow> selection_error + string" where
  "address_word v =
     (if \<not> auth_address v then Inl SErrInvalidInput
      else case hex_decode (strip_prefix (to_lower v) ''0x'') of
        None \<Rightarrow> Inl SErrInvalidInput
      | Some raw \<Rightarrow> if length raw \<noteq> 20 then Inl SErrInvalidInput else Inr (replicate 12 (char_of (0 :: nat)) @ raw))"

text \<open>\<open>FillBytes\<close> of a number that fits; it panics on a larger one.\<close>

definition uint_word :: "nat \<Rightarrow> string" where
  "uint_word n = be_bytes 32 n"

definition uint64_word :: "uint64 \<Rightarrow> string" where
  "uint64_word n = uint_word (unat n)"

text \<open>The check on a price in \<open>encodeProof\<close>.\<close>

definition price_word :: "string \<Rightarrow> selection_error + string" where
  "price_word v =
     (case bigint_parse v of
        None \<Rightarrow> Inl SErrInvalidInput
      | Some n \<Rightarrow> if n < 0 \<or> n \<ge> 2 ^ 256 \<or> bigint_string n \<noteq> v then Inl SErrInvalidInput else Inr (uint_word (nat n)))"

fun collect_words :: "(selection_error + string) list \<Rightarrow> selection_error + string list" where
  "collect_words [] = Inr []"
| "collect_words (w # ws) = rbind w (\<lambda>x. rbind (collect_words ws) (\<lambda>xs. Inr (x # xs)))"

definition proof_words :: "selection_proof \<Rightarrow> (selection_error + string) list" where
  "proof_words p =
     [bytes32_word (pf_TaskID p), bytes32_word (pf_AssignmentID p), address_word (pf_AgentController p), address_word (pf_Payout p),
      bytes32_word (pf_OverviewID p), bytes32_word (pf_AllocationID p), bytes32_word (pf_QuoteHash p), bytes32_word (pf_TaskSpecHash p),
      Inr (uint64_word (pf_MatchRevision p)), Inr (uint64_word (pf_PriceVersion p)),
      price_word (pf_OverviewPrice p), price_word (pf_FormalGrossPrice p), price_word (pf_OverviewCredit p),
      bytes32_word (pf_PolicyHash p), bytes32_word (pf_Nonce p), Inr (uint64_word (pf_Deadline p))]"

definition encode_proof :: "selection_proof \<Rightarrow> selection_error + string" where
  "encode_proof p = rbind (collect_words (proof_words p)) (\<lambda>ws. Inr (concat ws))"

section \<open>The signer\<close>

definition hex32 :: "string \<Rightarrow> string" where
  "hex32 v = ''0x'' @ hex_encode v"

definition sel_valid_unsigned :: "string \<Rightarrow> bool" where
  "sel_valid_unsigned v =
     (case bigint_parse v of None \<Rightarrow> False | Some n \<Rightarrow> n > 0 \<and> bigint_string n = v \<and> length v \<le> 78)"

record proof_signer =
  sg_key :: string
  sg_domain :: string

definition proof_type_hash :: "proof_env \<Rightarrow> string" where
  "proof_type_hash E = pe_keccak E ''SelectionProof(bytes32 payloadHash)''"

definition domain_prefix :: "proof_env \<Rightarrow> string" where
  "domain_prefix E = pe_keccak E ''EIP712Domain(string name,string version,uint256 chainId,address verifyingContract)'' @
     pe_keccak E ''AgentTaskEscrow'' @ pe_keccak E ''1''"

text \<open>
  \<open>NewEIP712Signer\<close>. A chain identifier of 78 digits passes the validation and may exceed 256 bits:
  \<open>FillBytes\<close> then panics.
\<close>

definition new_signer :: "proof_env \<Rightarrow> string \<Rightarrow> string \<Rightarrow> string \<Rightarrow> selection_error + proof_signer" where
  "new_signer E privateKeyHex chainID contract =
     (case hex_decode (strip_prefix privateKeyHex ''0x'') of
        None \<Rightarrow> Inl SErrInvalidInput
      | Some raw \<Rightarrow>
          if length raw \<noteq> 32 \<or> \<not> sel_valid_unsigned chainID \<or> \<not> auth_address contract then Inl SErrInvalidInput
          else if be_value raw = 0 \<or> be_value raw \<ge> pe_order E then Inl SErrInvalidInput
          else if pe_serialize E raw \<noteq> raw then Inl SErrInvalidInput
          else if money_int chainID \<ge> 2 ^ 256 then Inl SErrPanic
          else rbind (address_word (to_lower contract)) (\<lambda>word.
            Inr \<lparr>sg_key = raw, sg_domain = pe_keccak E (domain_prefix E @ uint_word (nat (money_int chainID)) @ word)\<rparr>))"

definition proof_digest :: "proof_env \<Rightarrow> proof_signer \<Rightarrow> string \<Rightarrow> string" where
  "proof_digest E g payload =
     pe_keccak E ([char_of (0x19 :: nat), char_of (0x01 :: nat)] @ sg_domain g @ pe_keccak E (proof_type_hash E @ pe_keccak E payload))"

definition sign_proof :: "proof_env \<Rightarrow> proof_signer \<Rightarrow> selection_proof \<Rightarrow> selection_error + string \<times> string \<times> string" where
  "sign_proof E g p =
     rbind (encode_proof p) (\<lambda>payload.
       let digest = proof_digest E g payload; compact = pe_sign E (sg_key g) digest in
       if length compact \<noteq> 65 \<or> (of_char (compact ! 0) :: nat) < 27 \<or> (of_char (compact ! 0) :: nat) > 28 then Inl SErrRecovery
       else Inr (hex32 (pe_keccak E payload), hex32 digest, ''0x'' @ hex_encode (drop 1 compact @ [compact ! 0])))"

section \<open>Reading the words back\<close>

lemma collect_words_Inr: "collect_words xs = Inr ws \<longleftrightarrow> xs = map Inr ws"
  by (induction xs arbitrary: ws) (auto simp: rbind_Inr_iff Cons_eq_map_conv)

lemma bytes32_word_Inr:
  "bytes32_word v = Inr w \<Longrightarrow> length w = 32 \<and> ''0x'' @ hex_encode w = to_lower v"
proof -
  assume b: "bytes32_word v = Inr w"
  then have w: "length w = 32" "hex_decode (drop 2 v) = Some w" "has_prefix v ''0x''"
    by (auto simp: bytes32_word_def split: if_splits option.splits)
  then have "v = ''0x'' @ drop 2 v" by (metis append_take_drop_id has_prefix_def length_Cons list.size(3) numeral_2_eq_2)
  then have "to_lower v = to_lower ''0x'' @ to_lower (drop 2 v)" by (metis to_lower_append)
  then show ?thesis using w hex_encode_decode [OF w(2)] by (simp add: to_lower_def char_lower_def)
qed

lemma address_word_Inr:
  "address_word v = Inr w \<Longrightarrow> length w = 32 \<and> ''0x'' @ hex_encode (drop 12 w) = v"
proof -
  assume b: "address_word v = Inr w"
  then obtain raw where a: "v = to_lower v" "has_prefix v ''0x''" "hex_decode (drop 2 v) = Some raw" "length raw = 20"
    "w = replicate 12 (char_of (0 :: nat)) @ raw"
    by (auto simp: address_word_def auth_address_def strip_prefix_def numeral_2_eq_2 split: if_splits option.splits)
  have "v = ''0x'' @ drop 2 v" using a(2) by (metis append_take_drop_id has_prefix_def length_Cons list.size(3) numeral_2_eq_2)
  moreover have "hex_encode raw = drop 2 v" using hex_encode_decode [OF a(3)] a(1) by (simp add: to_lower_def drop_map [symmetric])
  ultimately show ?thesis using a(4,5) by simp
qed

lemma length_uint_word [simp]: "length (uint_word n) = 32"
  by (simp add: uint_word_def)

lemma be_value_uint_word: "n < 2 ^ 256 \<Longrightarrow> be_value (uint_word n) = n"
  by (simp add: uint_word_def be_value_bytes)

lemma price_word_Inr: "price_word v = Inr w \<Longrightarrow> length w = 32 \<and> bigint_string (int (be_value w)) = v"
  by (auto simp: price_word_def be_value_uint_word nat_less_iff split: if_splits option.splits)

lemma uint64_word_value: "be_value (uint64_word n) = unat n"
proof -
  have "unat n < 2 ^ 64" using unsigned_less [of n] by simp
  then show ?thesis by (simp add: uint64_word_def be_value_uint_word)
qed

end
