(* ===== verification/Chain_Decoder.thy ===== *)
theory Chain_Decoder
  imports Selection_Types
begin

text \<open>The data of the chain package, and the decoding of logs and calldata.\<close>

text \<open>
  The data of the chain package (\<open>internal/chain/types.go\<close>), and its helpers on scopes, addresses, hashes and
  identifiers (the end of \<open>projector.go\<close>). The payload of an event is a map from names to values of three types.
\<close>

abbreviation StateCanonical :: string where "StateCanonical \<equiv> ''canonical''"
abbreviation StateOrphanedBlock :: string where "StateOrphanedBlock \<equiv> ''orphaned''"
abbreviation TxSucceeded :: string where "TxSucceeded \<equiv> ''succeeded''"
abbreviation TxFailed :: string where "TxFailed \<equiv> ''failed''"

abbreviation EventTaskCreated :: string where "EventTaskCreated \<equiv> ''task_created''"
abbreviation EventSelection :: string where "EventSelection \<equiv> ''selection_confirmed''"
abbreviation EventWorkNonce :: string where "EventWorkNonce \<equiv> ''work_nonce_advanced''"
abbreviation EventReleased :: string where "EventReleased \<equiv> ''funds_released''"
abbreviation EventRefunded :: string where "EventRefunded \<equiv> ''funds_refunded''"
abbreviation EventEarnings :: string where "EventEarnings \<equiv> ''earnings_accrued''"
abbreviation EventWithdrawal :: string where "EventWithdrawal \<equiv> ''earnings_withdrawn''"
abbreviation EventYield :: string where "EventYield \<equiv> ''yield_eligibility_changed''"
abbreviation EventDisputeOpen :: string where "EventDisputeOpen \<equiv> ''dispute_opened''"
abbreviation EventDisputeDone :: string where "EventDisputeDone \<equiv> ''dispute_resolved''"
abbreviation EventDisputeFreeze :: string where "EventDisputeFreeze \<equiv> ''dispute_frozen''"
abbreviation EventDisputeAlloc :: string where "EventDisputeAlloc \<equiv> ''dispute_allocation_finalized''"

datatype chain_error =
    HErrInvalidInput
  | HErrGap
  | HErrReorgTooDeep
  | HErrPending
  | HErrConflict \<comment> \<open>"reconciliation content conflict"\<close>
  | HErrSelectionInput \<comment> \<open>the selection package's \<open>ErrInvalidInput\<close>\<close>
  | HErrSource string \<comment> \<open>an error of the RPC source\<close>

record scope =
  so_ChainID :: string
  so_Contract :: string
  so_StartBlock :: uint64
  so_Confirmations :: uint64
  so_MaxReorgDepth :: uint64

record cursor =
  cu_Height :: uint64
  cu_Hash :: string
  cu_Set :: bool

record chain_log =
  lg_Index :: uint64
  lg_Address :: string
  lg_Topics :: "string list"
  lg_Data :: string

record transaction =
  tr_Hash :: string
  tr_To :: string
  tr_Input :: string
  tr_Status :: string
  tr_Logs :: "chain_log list"

record block =
  bl_Number :: uint64
  bl_Hash :: string
  bl_ParentHash :: string
  bl_Timestamp :: gotime
  bl_Transactions :: "transaction list"

datatype payload = PText string | PNumber uint64 | PFlag bool

record event =
  ve_ID :: string
  ve_Type :: string
  ve_BlockNumber :: uint64
  ve_BlockHash :: string
  ve_TransactionHash :: string
  ve_LogIndex :: uint64
  ve_TaskID :: string
  ve_AssignmentID :: string
  ve_Payload :: "(string, payload) gomap"
  ve_Selection :: "chain_result option"

record difference =
  df_Category :: string
  df_ResourceID :: string
  df_ExpectedValue :: string
  df_ObservedValue :: string
  df_Severity :: string

record reconciliation_run =
  rn_ID :: string
  rn_Scope :: scope
  rn_SafeHeight :: uint64
  rn_Status :: string
  rn_Differences :: "difference list"
  rn_StartedAt :: gotime
  rn_FinishedAt :: gotime

definition zero_cursor :: cursor where
  "zero_cursor = \<lparr>cu_Height = 0, cu_Hash = [], cu_Set = False\<rparr>"

section \<open>Helpers\<close>

definition chain_valid_unsigned :: "string \<Rightarrow> bool" where
  "chain_valid_unsigned v = (if v = [] \<or> v = ''0'' \<or> hd v = CHR ''0'' then False else list_all is_digit v)"

definition valid_hex :: "string \<Rightarrow> nat \<Rightarrow> bool" where
  "valid_hex v n = (case hex_decode v of None \<Rightarrow> False | Some decoded \<Rightarrow> length decoded = n \<and> v = to_lower v)"

definition valid_address :: "string \<Rightarrow> bool" where
  "valid_address v \<longleftrightarrow> length v = 42 \<and> has_prefix v ''0x'' \<and> valid_hex (drop 2 v) 20"

definition valid_hash :: "string \<Rightarrow> bool" where
  "valid_hash v \<longleftrightarrow> length v = 66 \<and> has_prefix v ''0x'' \<and> valid_hex (drop 2 v) 32"

definition valid_scope :: "scope \<Rightarrow> bool" where
  "valid_scope s \<longleftrightarrow> chain_valid_unsigned (so_ChainID s) \<and> valid_address (to_lower (so_Contract s)) \<and> so_Confirmations s > 0 \<and> so_MaxReorgDepth s > 0"

definition normalize_scope :: "scope \<Rightarrow> scope" where
  "normalize_scope s = s\<lparr>so_Contract := to_lower (so_Contract s)\<rparr>"

text \<open>\<open>stableID\<close> of the chain package: 8-byte length prefixes.\<close>

definition chain_stable_id :: "(string \<Rightarrow> string) \<Rightarrow> string list \<Rightarrow> string" where
  "chain_stable_id H parts = sha_string (H (concat (map (len_field 8) parts)))"

text \<open>\<open>fmt.Sprint\<close> of an unsigned number.\<close>

definition sprint_word :: "uint64 \<Rightarrow> string" where
  "sprint_word n = nat_string (unat n)"

text \<open>
  The decoder of escrow events (\<open>internal/chain/decoder.go\<close>). The identifiers of the contract's events and the
  selector of \<open>selectAgent\<close> come from the generated bindings; they and SHA-256 are parameters.
\<close>

record decoder_env =
  dv_sha :: "string \<Rightarrow> string"
  dv_event_id :: "string \<Rightarrow> string"
  dv_selector :: string

definition event_signatures :: "decoder_env \<Rightarrow> (string, string) gomap" where
  "event_signatures D = foldl (\<lambda>m (name, kind). gput (dv_event_id D name) kind m) []
     [(''TaskCreated'', EventTaskCreated), (''SelectionConfirmed'', EventSelection), (''WorkNonceAdvanced'', EventWorkNonce),
      (''FundsReleased'', EventReleased), (''FundsRefunded'', EventRefunded), (''EarningsAccrued'', EventEarnings),
      (''EarningsWithdrawn'', EventWithdrawal), (''YieldEligibilityChanged'', EventYield), (''DisputeOpened'', EventDisputeOpen),
      (''DisputeResolved'', EventDisputeDone), (''DisputeFrozen'', EventDisputeFreeze), (''DisputeAllocationFinalized'', EventDisputeAlloc)]"

definition is_selection_input :: "decoder_env \<Rightarrow> string \<Rightarrow> bool" where
  "is_selection_input D input \<longleftrightarrow> length input \<ge> 10 \<and> equal_fold (take 10 input) (dv_selector D)"

section \<open>Words\<close>

fun chunks :: "nat \<Rightarrow> string \<Rightarrow> string list" where
  "chunks 0 raw = []"
| "chunks (Suc n) raw = take 32 raw # chunks n (drop 32 raw)"

definition data_words :: "string \<Rightarrow> chain_error + string list" where
  "data_words v =
     (if \<not> has_prefix v ''0x'' then Inl HErrInvalidInput
      else case hex_decode (drop 2 v) of
        None \<Rightarrow> Inl HErrInvalidInput
      | Some raw \<Rightarrow> if length raw mod 32 \<noteq> 0 then Inl HErrInvalidInput else Inr (chunks (length raw div 32) raw))"

definition hash_topic :: "string \<Rightarrow> string" where
  "hash_topic v = (if \<not> valid_hash (to_lower v) then [] else to_lower v)"

definition hash_word :: "string \<Rightarrow> string" where
  "hash_word v = ''0x'' @ hex_encode v"

definition word_address :: "string \<Rightarrow> string" where
  "word_address v = (if length v \<noteq> 32 then [] else ''0x'' @ hex_encode (drop 12 v))"

definition trim_prefix :: "string \<Rightarrow> string \<Rightarrow> string" where
  "trim_prefix v p = (if has_prefix v p then drop (length p) v else v)"

definition address_topic :: "string \<Rightarrow> string" where
  "address_topic v =
     (case hex_decode (trim_prefix v ''0x'') of
        None \<Rightarrow> []
      | Some raw \<Rightarrow> if length raw \<noteq> 32 then [] else word_address raw)"

text \<open>\<open>new(big.Int).SetBytes\<close> is \<open>be_value\<close>.\<close>

definition word_number :: "string \<Rightarrow> string" where
  "word_number v = bigint_string (int (be_value v))"

definition uint64_number :: "string \<Rightarrow> uint64" where
  "uint64_number v = (if be_value v \<ge> 2 ^ 64 then 0 else of_nat (be_value v))"

definition chain_subtract :: "string \<Rightarrow> string \<Rightarrow> string" where
  "chain_subtract left right =
     (case (bigint_parse left, bigint_parse right) of
        (Some l, Some r) \<Rightarrow> if l < r then [] else bigint_string (l - r)
      | _ \<Rightarrow> [])"

section \<open>Calldata\<close>

definition decode_selection_input :: "decoder_env \<Rightarrow> string \<Rightarrow> chain_error + selection_proof" where
  "decode_selection_input D input0 =
     (let input = to_lower input0 in
      if \<not> has_prefix input (dv_selector D) then Inl HErrInvalidInput
      else case hex_decode (drop 10 input) of
        None \<Rightarrow> Inl HErrInvalidInput
      | Some raw \<Rightarrow>
          if length raw < 17 * 32 then Inl HErrInvalidInput
          else
            let w = (\<lambda>index. take 32 (drop (index * 32) raw));
                proof = \<lparr>pf_TaskID = hash_word (w 0), pf_AssignmentID = hash_word (w 1), pf_AgentController = word_address (w 2),
                  pf_Payout = word_address (w 3), pf_OverviewID = hash_word (w 4), pf_AllocationID = hash_word (w 5),
                  pf_QuoteHash = hash_word (w 6), pf_TaskSpecHash = hash_word (w 7), pf_MatchRevision = uint64_number (w 8),
                  pf_PriceVersion = uint64_number (w 9), pf_OverviewPrice = word_number (w 10), pf_FormalGrossPrice = word_number (w 11),
                  pf_OverviewCredit = word_number (w 12), pf_PolicyHash = hash_word (w 13), pf_Nonce = hash_word (w 14),
                  pf_Deadline = uint64_number (w 15)\<rparr>;
                offset = be_value (w 16)
            in if \<not> offset < 2 ^ 64 \<or> offset \<noteq> 17 * 32 \<or> pf_MatchRevision proof = 0 \<or> pf_PriceVersion proof = 0 \<or> pf_Deadline proof = 0
               then Inl HErrInvalidInput else Inr proof)"

section \<open>Events\<close>

definition base_event :: "decoder_env \<Rightarrow> block \<Rightarrow> transaction \<Rightarrow> chain_log \<Rightarrow> string \<Rightarrow> event" where
  "base_event D b t l kind =
     \<lparr>ve_ID = chain_stable_id (dv_sha D) [''chain-event'', bl_Hash b, tr_Hash t, sprint_word (lg_Index l)], ve_Type = kind,
      ve_BlockNumber = bl_Number b, ve_BlockHash = bl_Hash b, ve_TransactionHash = tr_Hash t, ve_LogIndex = lg_Index l,
      ve_TaskID = [], ve_AssignmentID = [], ve_Payload = [], ve_Selection = None\<rparr>"

definition selection_mismatch :: "event \<Rightarrow> string \<Rightarrow> string list \<Rightarrow> selection_proof \<Rightarrow> bool" where
  "selection_mismatch v controller d p \<longleftrightarrow>
     ve_TaskID v \<noteq> pf_TaskID p \<or> ve_AssignmentID v \<noteq> pf_AssignmentID p \<or> controller \<noteq> pf_AgentController p \<or>
     word_address (d ! 0) \<noteq> pf_Payout p \<or> hash_word (d ! 1) \<noteq> pf_OverviewID p \<or> hash_word (d ! 2) \<noteq> pf_AllocationID p \<or>
     word_number (d ! 3) \<noteq> pf_FormalGrossPrice p \<or> word_number (d ! 4) \<noteq> pf_OverviewCredit p \<or>
     chain_subtract (pf_FormalGrossPrice p) (pf_OverviewCredit p) \<noteq> word_number (d ! 5) \<or> uint64_number (d ! 7) \<noteq> 1"

definition decode_selection_event :: "block \<Rightarrow> transaction \<Rightarrow> chain_log \<Rightarrow> string list \<Rightarrow> selection_proof option \<Rightarrow> event \<Rightarrow> chain_error + event" where
  "decode_selection_event b t l d p v0 =
     (case p of
        None \<Rightarrow> Inl HErrInvalidInput
      | Some proof \<Rightarrow>
          if length (lg_Topics l) \<noteq> 4 \<or> length d \<noteq> 8 then Inl HErrInvalidInput
          else
            let v = v0\<lparr>ve_TaskID := hash_topic (lg_Topics l ! 1), ve_AssignmentID := hash_topic (lg_Topics l ! 2)\<rparr>;
                formalPayable = word_number (d ! 5); workNonce = uint64_number (d ! 7)
            in if selection_mismatch v (address_topic (lg_Topics l ! 3)) d proof then Inl HErrInvalidInput
               else Inr (v\<lparr>ve_Payload := [(''payout'', PText (pf_Payout proof)), (''overviewId'', PText (pf_OverviewID proof)),
                        (''allocationId'', PText (pf_AllocationID proof)), (''formalGrossPrice'', PText (pf_FormalGrossPrice proof)),
                        (''overviewCredit'', PText (pf_OverviewCredit proof)), (''formalPayable'', PText formalPayable),
                        (''excessRefunded'', PText (word_number (d ! 6))), (''workNonce'', PNumber workNonce)],
                      ve_Selection := Some \<lparr>hr_Status = ChainConfirmed, hr_TransactionHash = tr_Hash t, hr_BlockNumber = bl_Number b,
                        hr_LogIndex = lg_Index l, hr_Proof = proof, hr_FormalPayable = formalPayable, hr_WorkNonce = workNonce,
                        hr_FailureReasonCode = []\<rparr>\<rparr>))"

definition decode_event :: "decoder_env \<Rightarrow> block \<Rightarrow> transaction \<Rightarrow> chain_log \<Rightarrow> string \<Rightarrow> selection_proof option \<Rightarrow> chain_error + event" where
  "decode_event D b t l kind p =
     rbind (data_words (lg_Data l)) (\<lambda>d.
       let v = base_event D b t l kind; topics = lg_Topics l;
           task = hash_topic (topics ! 1);
           shape = (\<lambda>n k. length topics = n \<and> length d = k) in
       if kind = EventTaskCreated then
         if \<not> shape 3 1 then Inl HErrInvalidInput
         else Inr (v\<lparr>ve_TaskID := task, ve_Payload := [(''publisher'', PText (address_topic (topics ! 2))), (''amount'', PText (word_number (d ! 0)))]\<rparr>)
       else if kind = EventSelection then decode_selection_event b t l d p v
       else if kind = EventWorkNonce then
         if \<not> shape 3 1 then Inl HErrInvalidInput
         else Inr (v\<lparr>ve_TaskID := task, ve_AssignmentID := hash_topic (topics ! 2), ve_Payload := [(''workNonce'', PNumber (uint64_number (d ! 0)))]\<rparr>)
       else if kind = EventReleased \<or> kind = EventRefunded then
         if \<not> shape 3 1 then Inl HErrInvalidInput
         else Inr (v\<lparr>ve_TaskID := task, ve_Payload := [(''recipient'', PText (address_topic (topics ! 2))), (''amount'', PText (word_number (d ! 0)))]\<rparr>)
       else if kind = EventEarnings then
         if \<not> shape 4 2 then Inl HErrInvalidInput
         else Inr (v\<lparr>ve_TaskID := task, ve_AssignmentID := hash_topic (topics ! 2),
                ve_Payload := [(''agentController'', PText (address_topic (topics ! 3))), (''payout'', PText (word_address (d ! 0))),
                  (''amount'', PText (word_number (d ! 1)))]\<rparr>)
       else if kind = EventWithdrawal then
         if \<not> shape 3 1 then Inl HErrInvalidInput
         else Inr (v\<lparr>ve_Payload := [(''agentController'', PText (address_topic (topics ! 1))), (''payout'', PText (address_topic (topics ! 2))),
                  (''amount'', PText (word_number (d ! 0)))]\<rparr>)
       else if kind = EventYield then
         if \<not> shape 2 2 \<or> (word_number (d ! 1) \<noteq> ''0'' \<and> word_number (d ! 1) \<noteq> ''1'') then Inl HErrInvalidInput
         else Inr (v\<lparr>ve_TaskID := task, ve_Payload := [(''amount'', PText (word_number (d ! 0))), (''eligible'', PFlag (word_number (d ! 1) = ''1''))]\<rparr>)
       else if kind = EventDisputeOpen then
         if \<not> shape 3 0 then Inl HErrInvalidInput
         else Inr (v\<lparr>ve_TaskID := task, ve_Payload := [(''openedBy'', PText (address_topic (topics ! 2)))]\<rparr>)
       else if kind = EventDisputeDone then
         if \<not> shape 3 1 then Inl HErrInvalidInput
         else Inr (v\<lparr>ve_TaskID := task, ve_Payload := [(''recipient'', PText (address_topic (topics ! 2))), (''amount'', PText (word_number (d ! 0)))]\<rparr>)
       else if kind = EventDisputeFreeze then
         if \<not> shape 3 4 then Inl HErrInvalidInput
         else Inr (v\<lparr>ve_TaskID := task, ve_Payload := [(''root'', PText (hash_topic (topics ! 2))), (''leafCount'', PNumber (uint64_number (d ! 0))),
                  (''amount'', PText (word_number (d ! 1))), (''feeCap'', PText (word_number (d ! 2))), (''finalizeAfter'', PNumber (uint64_number (d ! 3)))]\<rparr>)
       else if kind = EventDisputeAlloc then
         if \<not> shape 3 3 then Inl HErrInvalidInput
         else Inr (v\<lparr>ve_TaskID := task, ve_Payload := [(''root'', PText (hash_topic (topics ! 2))), (''publisherAmount'', PText (word_number (d ! 0))),
                  (''agentAmount'', PText (word_number (d ! 1))), (''feeAmount'', PText (word_number (d ! 2)))]\<rparr>)
       else Inr v)"

section \<open>Blocks\<close>

text \<open>The loop over the logs: the events and the number of selection events.\<close>

fun decode_logs ::
    "decoder_env \<Rightarrow> scope \<Rightarrow> block \<Rightarrow> transaction \<Rightarrow> selection_proof option \<Rightarrow> chain_log list \<Rightarrow> event list \<Rightarrow> nat \<Rightarrow> chain_error + event list \<times> nat" where
  "decode_logs D s b t p [] result selections = Inr (result, selections)"
| "decode_logs D s b t p (l # ls) result selections =
     (if to_lower (lg_Address l) \<noteq> so_Contract s \<or> lg_Topics l = [] then decode_logs D s b t p ls result selections
      else case gget (event_signatures D) (to_lower (hd (lg_Topics l))) of
        None \<Rightarrow> decode_logs D s b t p ls result selections
      | Some kind \<Rightarrow>
          rbind (decode_event D b t l kind p) (\<lambda>v.
            decode_logs D s b t p ls (result @ [v]) (if kind = EventSelection then selections + 1 else selections)))"

definition transaction_proof :: "decoder_env \<Rightarrow> transaction \<Rightarrow> chain_error + selection_proof option" where
  "transaction_proof D t =
     (if has_prefix (to_lower (tr_Input t)) (dv_selector D) then
        (case decode_selection_input D (tr_Input t) of
           Inl e \<Rightarrow> if tr_Status t = TxSucceeded then Inl e else Inr None
         | Inr p \<Rightarrow> Inr (Some p))
      else Inr None)"

fun decode_transactions :: "decoder_env \<Rightarrow> scope \<Rightarrow> block \<Rightarrow> transaction list \<Rightarrow> event list \<Rightarrow> chain_error + event list" where
  "decode_transactions D s b [] result = Inr result"
| "decode_transactions D s b (t # ts) result =
     (if to_lower (tr_To t) \<noteq> so_Contract s then decode_transactions D s b ts result
      else if tr_Status t \<noteq> TxSucceeded \<and> tr_Status t \<noteq> TxFailed then Inl HErrInvalidInput
      else rbind (transaction_proof D t) (\<lambda>p.
        rbind (decode_logs D s b t p (tr_Logs t) result 0) (\<lambda>(result', selections).
          if has_prefix (to_lower (tr_Input t)) (dv_selector D) \<and>
             (tr_Status t = TxSucceeded \<and> selections \<noteq> 1 \<or> tr_Status t = TxFailed \<and> selections \<noteq> 0)
          then Inl HErrInvalidInput
          else decode_transactions D s b ts result')))"

definition event_cmp :: "event \<Rightarrow> event \<Rightarrow> int" where
  "event_cmp v w = (if ve_LogIndex v < ve_LogIndex w then -1 else if ve_LogIndex v = ve_LogIndex w then 0 else 1)"

definition decode_block :: "decoder_env \<Rightarrow> scope \<Rightarrow> block \<Rightarrow> chain_error + event list" where
  "decode_block D s b = rbind (decode_transactions D s b (bl_Transactions b) []) (\<lambda>result. Inr (sort_func event_cmp result))"

interpretation event_order: comparator event_cmp
  by unfold_locales (auto simp: event_cmp_def split: if_splits)

end
