(* ===== verification/Chain_Projector.thy ===== *)
theory Chain_Projector
  imports Chain_Decoder
begin

text \<open>
  The projection of the chain (\<open>internal/chain/memory.go\<close> and \<open>projector.go\<close>). The blocks of a height are a list
  of pointers that methods update in place; the model is the list of their contents. The RPC source is a
  function of the state \<open>'w\<close> of the world, so its answers may change between calls.
\<close>

record memory_block =
  mb_block :: block
  mb_state :: string
  mb_events :: "event list"

record chain_repo =
  ch_blocks :: "(uint64, memory_block list) gomap"
  ch_cursor :: cursor
  ch_reconciliations :: "(string, reconciliation_run) gomap"
  ch_expected :: "(string, string) gomap"

definition new_chain_repository :: chain_repo where
  "new_chain_repository = \<lparr>ch_blocks = [], ch_cursor = zero_cursor, ch_reconciliations = [], ch_expected = []\<rparr>"

section \<open>The memory repository\<close>

definition blocks_at :: "chain_repo \<Rightarrow> uint64 \<Rightarrow> memory_block list" where
  "blocks_at r h = (case gget (ch_blocks r) h of None \<Rightarrow> [] | Some bs \<Rightarrow> bs)"

definition is_canonical :: "memory_block \<Rightarrow> bool" where
  "is_canonical m \<longleftrightarrow> mb_state m = StateCanonical"

definition canonical_at :: "chain_repo \<Rightarrow> uint64 \<Rightarrow> memory_block option" where
  "canonical_at r h = List.find is_canonical (blocks_at r h)"

definition canonical_hash :: "uint64 \<Rightarrow> chain_repo \<Rightarrow> string option" where
  "canonical_hash h r = map_option (\<lambda>m. bl_Hash (mb_block m)) (canonical_at r h)"

definition block_cursor :: "block \<Rightarrow> cursor" where
  "block_cursor b = \<lparr>cu_Height = bl_Number b, cu_Hash = bl_Hash b, cu_Set = True\<rparr>"

text \<open>The loop of \<open>ApplyBlock\<close> ends at the first block of the height that has the hash or is canonical.\<close>

fun place_block :: "block \<Rightarrow> event list \<Rightarrow> memory_block list \<Rightarrow> chain_error + memory_block list" where
  "place_block b evs [] = Inr [\<lparr>mb_block = b, mb_state = StateCanonical, mb_events = evs\<rparr>]"
| "place_block b evs (m # ms) =
     (if bl_Hash (mb_block m) = bl_Hash b then Inr (m\<lparr>mb_state := StateCanonical\<rparr> # ms)
      else if is_canonical m then Inl HErrGap
      else rbind (place_block b evs ms) (\<lambda>ms'. Inr (m # ms')))"

definition apply_block :: "block \<Rightarrow> event list \<Rightarrow> chain_repo \<Rightarrow> chain_error + chain_repo" where
  "apply_block b evs r =
     (if cu_Set (ch_cursor r) \<and> (bl_Number b \<noteq> cu_Height (ch_cursor r) + 1 \<or> bl_ParentHash b \<noteq> cu_Hash (ch_cursor r)) then Inl HErrGap
      else rbind (place_block b evs (blocks_at r (bl_Number b)))
        (\<lambda>ms. Inr (r\<lparr>ch_blocks := gput (bl_Number b) ms (ch_blocks r), ch_cursor := block_cursor b\<rparr>)))"

definition orphan :: "memory_block \<Rightarrow> memory_block" where
  "orphan m = (if is_canonical m then m\<lparr>mb_state := StateOrphanedBlock\<rparr> else m)"

definition orphan_above :: "uint64 \<Rightarrow> chain_repo \<Rightarrow> chain_repo" where
  "orphan_above ancestor r =
     r\<lparr>ch_blocks := map (\<lambda>(height, ms). (height, if height > ancestor then map orphan ms else ms)) (ch_blocks r)\<rparr>"

definition rewind :: "uint64 \<Rightarrow> chain_repo \<Rightarrow> chain_repo \<times> (chain_error + unit)" where
  "rewind ancestor r =
     (let r' = orphan_above ancestor r in
      case canonical_at r' ancestor of
        Some m \<Rightarrow> (r'\<lparr>ch_cursor := \<lparr>cu_Height = ancestor, cu_Hash = bl_Hash (mb_block m), cu_Set = True\<rparr>\<rparr>, Inr ())
      | None \<Rightarrow> if ancestor = 0 then (r'\<lparr>ch_cursor := zero_cursor\<rparr>, Inr ()) else (r', Inl HErrGap))"

text \<open>
  \<open>SelectionResult\<close> looks through the canonical blocks in the map's order: first the events of a block, then
  its failed selection calls.
\<close>

definition block_selection :: "decoder_env \<Rightarrow> string \<Rightarrow> memory_block \<Rightarrow> chain_result option" where
  "block_selection D h m =
     (if \<not> is_canonical m then None
      else case List.find (\<lambda>v. ve_TransactionHash v = h \<and> ve_Selection v \<noteq> None) (mb_events m) of
        Some v \<Rightarrow> ve_Selection v
      | None \<Rightarrow>
          if list_ex (\<lambda>t. tr_Hash t = h \<and> has_prefix (to_lower (tr_Input t)) (dv_selector D) \<and> tr_Status t = TxFailed)
               (bl_Transactions (mb_block m))
          then Some (zero_chain_result\<lparr>hr_Status := ChainFailed, hr_TransactionHash := h, hr_FailureReasonCode := ''chain_transaction_failed''\<rparr>)
          else None)"

definition selection_result :: "decoder_env \<Rightarrow> string \<Rightarrow> chain_repo \<Rightarrow> chain_result option" where
  "selection_result D h r =
     (case List.find (\<lambda>m. block_selection D h m \<noteq> None) (concat (gvals (ch_blocks r))) of
        None \<Rightarrow> None | Some m \<Rightarrow> block_selection D h m)"

definition set_expected_inventory :: "(string, string) gomap \<Rightarrow> chain_repo \<Rightarrow> chain_repo" where
  "set_expected_inventory v r = r\<lparr>ch_expected := v\<rparr>"

definition record_reconciliation :: "reconciliation_run \<Rightarrow> chain_repo \<Rightarrow> chain_error + chain_repo" where
  "record_reconciliation run r =
     (if (case gget (ch_reconciliations r) (rn_ID run) of None \<Rightarrow> False | Some existing \<Rightarrow> rn_Status existing \<noteq> rn_Status run)
      then Inl HErrConflict
      else Inr (r\<lparr>ch_reconciliations := gput (rn_ID run) run (ch_reconciliations r)\<rparr>))"

text \<open>\<open>CanonicalHeights\<close>, sorted.\<close>

definition canonical_heights :: "chain_repo \<Rightarrow> uint64 list" where
  "canonical_heights r = sort (map fst (filter (\<lambda>(height, ms). list_ex is_canonical ms) (ch_blocks r)))"

section \<open>The projector\<close>

record 'w chain_source =
  cs_chain_id :: "'w \<Rightarrow> 'w \<times> (chain_error + string)"
  cs_head :: "'w \<Rightarrow> 'w \<times> (chain_error + uint64)"
  cs_block :: "uint64 \<Rightarrow> 'w \<Rightarrow> 'w \<times> (chain_error + block)"

definition new_projector :: "scope \<Rightarrow> chain_error + scope" where
  "new_projector s = (if \<not> valid_scope s then Inl HErrInvalidInput else Inr (normalize_scope s))"

lemma unat_pred_less: "(h :: uint64) \<noteq> 0 \<Longrightarrow> unat (h - 1) < unat h"
  using unat_gt_0 [of h] by (simp add: unat_minus_one)

text \<open>The loop of \<open>commonAncestor\<close>, from \<open>height\<close> down to \<open>lowest\<close> or 0.\<close>

function ancestor_from :: "'w chain_source \<Rightarrow> uint64 \<Rightarrow> uint64 \<Rightarrow> chain_repo \<Rightarrow> 'w \<Rightarrow> 'w \<times> (chain_error + uint64)" where
  "ancestor_from src lowest height r w =
     (case cs_block src height w of
        (w', Inl e) \<Rightarrow> (w', Inl e)
      | (w', Inr candidate) \<Rightarrow>
          if canonical_hash height r = Some (bl_Hash candidate) then (w', Inr height)
          else if height = lowest \<or> height = 0 then (w', Inl HErrReorgTooDeep)
          else ancestor_from src lowest (height - 1) r w')"
  by pat_completeness auto

termination
  by (relation "measure (\<lambda>(src, lowest, height, r, w). unat height)") (auto simp: unat_pred_less)

declare ancestor_from.simps [simp del]

definition common_ancestor :: "scope \<Rightarrow> 'w chain_source \<Rightarrow> cursor \<Rightarrow> chain_repo \<Rightarrow> 'w \<Rightarrow> 'w \<times> (chain_error + uint64)" where
  "common_ancestor s src c r w =
     (let lowest = (if cu_Height c > so_MaxReorgDepth s then cu_Height c - so_MaxReorgDepth s else 0)
      in ancestor_from src lowest (cu_Height c) r w)"

text \<open>
  The loop of \<open>SyncOnce\<close>. A source whose answers change for ever can keep it running, so it is a partial
  function: \<open>None\<close> is a call that does not return.
\<close>

definition next_height :: "scope \<Rightarrow> cursor \<Rightarrow> uint64" where
  "next_height s c = (if cu_Set c then cu_Height c + 1 else so_StartBlock s)"

definition bad_block :: "uint64 \<Rightarrow> block \<Rightarrow> bool" where
  "bad_block nxt b \<longleftrightarrow> bl_Number b \<noteq> nxt \<or> \<not> valid_hash (bl_Hash b) \<or> (nxt > 0 \<and> \<not> valid_hash (bl_ParentHash b))"

partial_function (option) sync_loop ::
    "decoder_env \<Rightarrow> scope \<Rightarrow> 'w chain_source \<Rightarrow> uint64 \<Rightarrow> chain_repo \<Rightarrow> 'w \<Rightarrow> (chain_repo \<times> 'w \<times> cursor \<times> chain_error option) option" where
  "sync_loop D s src safeHead r w =
     (let c = ch_cursor r in
      if cu_Set c \<and> cu_Height c \<ge> safeHead then Some (r, w, c, None)
      else if next_height s c > safeHead then Some (r, w, c, None)
      else case cs_block src (next_height s c) w of
        (w1, Inl e) \<Rightarrow> Some (r, w1, c, Some e)
      | (w1, Inr b) \<Rightarrow>
          if bad_block (next_height s c) b then Some (r, w1, c, Some HErrGap)
          else if cu_Set c \<and> bl_ParentHash b \<noteq> cu_Hash c then
            (case common_ancestor s src c r w1 of
               (w2, Inl e) \<Rightarrow> Some (r, w2, c, Some e)
             | (w2, Inr ancestor) \<Rightarrow>
                 (case rewind ancestor r of
                    (r', Inl e) \<Rightarrow> Some (r', w2, c, Some e)
                  | (r', Inr _) \<Rightarrow> sync_loop D s src safeHead r' w2))
          else case decode_block D s b of
            Inl e \<Rightarrow> Some (r, w1, c, Some e)
          | Inr evs \<Rightarrow>
              (case apply_block b evs r of
                 Inl e \<Rightarrow> Some (r, w1, c, Some e)
               | Inr r' \<Rightarrow> sync_loop D s src safeHead r' w1))"

definition sync_once ::
    "decoder_env \<Rightarrow> scope \<Rightarrow> 'w chain_source \<Rightarrow> chain_repo \<Rightarrow> 'w \<Rightarrow> (chain_repo \<times> 'w \<times> cursor \<times> chain_error option) option" where
  "sync_once D s src r w =
     (case cs_chain_id src w of
        (w1, Inl e) \<Rightarrow> Some (r, w1, zero_cursor, Some e)
      | (w1, Inr chainID) \<Rightarrow>
          if chainID \<noteq> so_ChainID s then Some (r, w1, zero_cursor, Some HErrInvalidInput)
          else case cs_head src w1 of
            (w2, Inl e) \<Rightarrow> Some (r, w2, zero_cursor, Some e)
          | (w2, Inr head) \<Rightarrow>
              if head + 1 < so_Confirmations s then Some (r, w2, ch_cursor r, None)
              else sync_loop D s src (head - (so_Confirmations s - 1)) r w2)"

section \<open>The verifier and the reconciler\<close>

definition verify_selection :: "decoder_env \<Rightarrow> string \<Rightarrow> chain_repo \<Rightarrow> chain_error + chain_result" where
  "verify_selection D h r =
     (if \<not> valid_hash (to_lower h) then Inl HErrSelectionInput
      else case selection_result D (to_lower h) r of
        None \<Rightarrow> Inr (zero_chain_result\<lparr>hr_Status := ChainPending, hr_TransactionHash := to_lower h\<rparr>)
      | Some result \<Rightarrow> Inr result)"

definition inventory_value :: "(string, string) gomap \<Rightarrow> string \<Rightarrow> string" where
  "inventory_value m k = (case gget m k of None \<Rightarrow> [] | Some v \<Rightarrow> v)"

text \<open>\<open>strings.Cut(key, ":")\<close>.\<close>

definition cut_key :: "string \<Rightarrow> string \<times> string" where
  "cut_key key = (if CHR '':'' \<in> set key then (takeWhile (\<lambda>c. c \<noteq> CHR '':'') key, tl (dropWhile (\<lambda>c. c \<noteq> CHR '':'') key)) else (''unknown'', key))"

definition compare_inventory :: "(string, string) gomap \<Rightarrow> (string, string) gomap \<Rightarrow> difference list" where
  "compare_inventory expected observed =
     (let ordered = sort_func strcmp (remdups (map fst expected @ map fst observed)) in
      map (\<lambda>key. \<lparr>df_Category = fst (cut_key key), df_ResourceID = snd (cut_key key), df_ExpectedValue = inventory_value expected key,
             df_ObservedValue = inventory_value observed key, df_Severity = ''critical''\<rparr>)
        (filter (\<lambda>key. inventory_value expected key \<noteq> inventory_value observed key) ordered))"

definition inventory_fingerprint :: "(string \<Rightarrow> string) \<Rightarrow> (string, string) gomap \<Rightarrow> (string, string) gomap \<Rightarrow> string" where
  "inventory_fingerprint H expected observed =
     chain_stable_id H (sort_func strcmp (map (\<lambda>(key, v). ''expected:'' @ key @ ''='' @ v) expected @ map (\<lambda>(key, v). ''observed:'' @ key @ ''='' @ v) observed))"

text \<open>\<open>Reconciler.Run\<close>; the inventory source is a function of the scope, the height and the expected inventory.\<close>

definition reconciler_run ::
    "decoder_env \<Rightarrow> scope \<Rightarrow> (scope \<Rightarrow> uint64 \<Rightarrow> (string, string) gomap \<Rightarrow> chain_error + (string, string) gomap) \<Rightarrow> gotime \<Rightarrow> chain_repo \<Rightarrow>
     chain_repo \<times> (chain_error + reconciliation_run)" where
  "reconciler_run D s inventory now r =
     (if \<not> cu_Set (ch_cursor r) then (r, Inl HErrPending)
      else
        let height = cu_Height (ch_cursor r); expected = ch_expected r in
        (case inventory s height expected of
           Inl e \<Rightarrow> (r, Inl e)
         | Inr observed \<Rightarrow>
             let differences = compare_inventory expected observed;
                 run = \<lparr>rn_ID = chain_stable_id (dv_sha D) [''chain-reconciliation'', so_ChainID s, so_Contract s, sprint_word height,
                          inventory_fingerprint (dv_sha D) expected observed],
                        rn_Scope = s, rn_SafeHeight = height, rn_Status = (if differences \<noteq> [] then ''difference_detected'' else ''matched''),
                        rn_Differences = differences, rn_StartedAt = now, rn_FinishedAt = now\<rparr>
             in (case record_reconciliation run r of Inl e \<Rightarrow> (r, Inl e) | Inr r' \<Rightarrow> (r', Inr run))))"

end
