(* ===== verification/Chain_Invariant.thy ===== *)
theory Chain_Invariant
  imports Chain_Projector
begin

text \<open>
  The invariant of the projection: the canonical blocks are one hash-linked chain from the start block to the
  cursor. A block hash commits to the block's parent: \<open>K\<close> gives the parent hash of a block hash, and a
  step applies only blocks that agree with it.
\<close>

section \<open>Steps\<close>

inductive chain_step :: "decoder_env \<Rightarrow> scope \<Rightarrow> (string \<Rightarrow> string) \<Rightarrow> chain_repo \<Rightarrow> chain_repo \<Rightarrow> bool"
  for D :: decoder_env and s :: scope and K :: "string \<Rightarrow> string" where
  applied: "bl_Number b = next_height s (ch_cursor r) \<Longrightarrow> (cu_Set (ch_cursor r) \<longrightarrow> cu_Height (ch_cursor r) < bl_Number b) \<Longrightarrow>
    bl_ParentHash b = K (bl_Hash b) \<Longrightarrow> decode_block D s b = Inr evs \<Longrightarrow> apply_block b evs r = Inr r' \<Longrightarrow> chain_step D s K r r'"
| rewound: "canonical_at r ancestor \<noteq> None \<Longrightarrow> chain_step D s K r (fst (rewind ancestor r))"
| reconciled: "chain_step D s K r (fst (reconciler_run D s inventory now r))"
| expected: "chain_step D s K r (set_expected_inventory v r)"

definition chain_reachable :: "decoder_env \<Rightarrow> scope \<Rightarrow> (string \<Rightarrow> string) \<Rightarrow> chain_repo \<Rightarrow> bool" where
  "chain_reachable D s K r \<longleftrightarrow> (chain_step D s K)\<^sup>*\<^sup>* new_chain_repository r"

section \<open>The invariant\<close>

definition stored_ok :: "decoder_env \<Rightarrow> scope \<Rightarrow> (string \<Rightarrow> string) \<Rightarrow> uint64 \<Rightarrow> memory_block \<Rightarrow> bool" where
  "stored_ok D s K h m \<longleftrightarrow> bl_Number (mb_block m) = h \<and> bl_ParentHash (mb_block m) = K (bl_Hash (mb_block m)) \<and>
     decode_block D s (mb_block m) = Inr (mb_events m)"

definition linked :: "scope \<Rightarrow> (string \<Rightarrow> string) \<Rightarrow> chain_repo \<Rightarrow> bool" where
  "linked s K r \<longleftrightarrow>
     (if cu_Set (ch_cursor r) then
        so_StartBlock s \<le> cu_Height (ch_cursor r) \<and>
        (\<forall>h. canonical_at r h \<noteq> None \<longleftrightarrow> so_StartBlock s \<le> h \<and> h \<le> cu_Height (ch_cursor r)) \<and>
        canonical_hash (cu_Height (ch_cursor r)) r = Some (cu_Hash (ch_cursor r)) \<and>
        (\<forall>h d. so_StartBlock s < h \<and> canonical_hash h r = Some d \<longrightarrow> canonical_hash (h - 1) r = Some (K d))
      else \<forall>h. canonical_at r h = None)"

definition chain_inv :: "decoder_env \<Rightarrow> scope \<Rightarrow> (string \<Rightarrow> string) \<Rightarrow> chain_repo \<Rightarrow> bool" where
  "chain_inv D s K r \<longleftrightarrow> gwf (ch_blocks r) \<and> (\<forall>h. \<forall>m \<in> set (blocks_at r h). stored_ok D s K h m) \<and>
     (\<forall>h. length (filter is_canonical (blocks_at r h)) \<le> 1) \<and> linked s K r"

lemma canonical_at_Some: "canonical_at r h = Some m \<Longrightarrow> m \<in> set (blocks_at r h) \<and> is_canonical m"
  by (auto simp: canonical_at_def find_Some_iff)

lemma canonical_at_None: "canonical_at r h = None \<longleftrightarrow> (\<forall>m \<in> set (blocks_at r h). \<not> is_canonical m)"
  by (auto simp: canonical_at_def find_None_iff)

lemma canonical_hash_None [simp]: "canonical_hash h r = None \<longleftrightarrow> canonical_at r h = None"
  by (simp add: canonical_hash_def)

lemma chain_inv_new: "chain_inv D s K new_chain_repository"
  by (simp add: chain_inv_def new_chain_repository_def blocks_at_def linked_def zero_cursor_def canonical_at_def)

section \<open>Heights\<close>

lemma height_succ:
  fixes H :: uint64
  assumes "H < H + 1"
  shows "h \<le> H + 1 \<longleftrightarrow> h \<le> H \<or> h = H + 1" "H + 1 - 1 = H"
proof -
  have "H + 1 \<noteq> 0" using assms by auto
  then have "unat (H + 1) = Suc (unat H)" using unatSuc [of H] by (simp add: add.commute)
  then show "h \<le> H + 1 \<longleftrightarrow> h \<le> H \<or> h = H + 1" by (auto simp: word_le_nat_alt word_unat_eq_iff)
qed simp

lemma height_pred: "(a :: uint64) < h \<Longrightarrow> a \<le> h - 1 \<and> h - 1 < h"
proof -
  assume a: "a < h"
  then have "h \<noteq> 0" by auto
  then have "unat (h - 1) = unat h - 1" by (simp add: unat_minus_one)
  with a show ?thesis by (auto simp: word_le_nat_alt word_less_nat_alt)
qed

section \<open>Applying a block\<close>

lemma place_block_fresh:
  assumes "\<forall>m \<in> set ms. \<not> is_canonical m"
  obtains ms' m where "place_block b evs ms = Inr ms'" "List.find is_canonical ms' = Some m" "bl_Hash (mb_block m) = bl_Hash b"
    "length (filter is_canonical ms') \<le> 1"
    "\<forall>n \<in> set ms'. mb_block n = b \<and> mb_events n = evs \<or> (\<exists>old \<in> set ms. mb_block n = mb_block old \<and> mb_events n = mb_events old)"
  using assms
proof (induction ms arbitrary: thesis)
  case Nil
  show ?case by (rule Nil(1) [of "[\<lparr>mb_block = b, mb_state = StateCanonical, mb_events = evs\<rparr>]"
      "\<lparr>mb_block = b, mb_state = StateCanonical, mb_events = evs\<rparr>"]) (simp_all add: is_canonical_def)
next
  case (Cons c ms)
  show ?case
  proof (cases "bl_Hash (mb_block c) = bl_Hash b")
    case True
    have none: "filter is_canonical ms = []" using Cons(3) by (simp add: filter_empty_conv)
    show ?thesis using True none by (intro Cons(2) [of "c\<lparr>mb_state := StateCanonical\<rparr> # ms" "c\<lparr>mb_state := StateCanonical\<rparr>"])
        (auto simp: is_canonical_def [abs_def])
  next
    case False
    from Cons(3) have "\<forall>m \<in> set ms. \<not> is_canonical m" by simp
    from Cons(1) [OF _ this] obtain ms' m where ih: "place_block b evs ms = Inr ms'" "List.find is_canonical ms' = Some m"
      "bl_Hash (mb_block m) = bl_Hash b" "length (filter is_canonical ms') \<le> 1"
      "\<forall>n \<in> set ms'. mb_block n = b \<and> mb_events n = evs \<or> (\<exists>old \<in> set ms. mb_block n = mb_block old \<and> mb_events n = mb_events old)" by blast
    show ?thesis using ih False Cons(3) by (intro Cons(2) [of "c # ms'" m]) auto
  qed
qed

lemma blocks_at_put [simp]: "blocks_at (r\<lparr>ch_blocks := gput n ms (ch_blocks r), ch_cursor := c\<rparr>) h = (if h = n then ms else blocks_at r h)"
  by (simp add: blocks_at_def)

lemma apply_block_ok:
  assumes "chain_inv D s K r" "bl_Number b = next_height s (ch_cursor r)" "cu_Set (ch_cursor r) \<longrightarrow> cu_Height (ch_cursor r) < bl_Number b"
    "bl_ParentHash b = K (bl_Hash b)" "decode_block D s b = Inr evs" "cu_Set (ch_cursor r) \<longrightarrow> bl_ParentHash b = cu_Hash (ch_cursor r)"
  shows "\<exists>r'. apply_block b evs r = Inr r' \<and> chain_inv D s K r' \<and> ch_cursor r' = block_cursor b \<and>
    (\<forall>h. canonical_hash h r' = (if h = bl_Number b then Some (bl_Hash b) else canonical_hash h r))"
proof -
  let ?n = "bl_Number b"
  let ?H = "cu_Height (ch_cursor r)"
  from assms(1) have st: "\<And>h m. m \<in> set (blocks_at r h) \<Longrightarrow> stored_ok D s K h m" and one: "\<And>h. length (filter is_canonical (blocks_at r h)) \<le> 1"
    and li: "linked s K r" by (auto simp: chain_inv_def)
  have succ: "?n = ?H + 1" "?H < ?H + 1" if "cu_Set (ch_cursor r)" using assms(2,3) that by (simp_all add: next_height_def)
  have none: "canonical_at r ?n = None"
  proof (cases "cu_Set (ch_cursor r)")
    case True
    then have "canonical_at r ?n \<noteq> None \<longleftrightarrow> so_StartBlock s \<le> ?n \<and> ?n \<le> ?H" using li by (simp add: linked_def)
    with succ [OF True] show ?thesis by auto
  qed (use li in \<open>simp add: linked_def\<close>)
  then have "\<forall>m \<in> set (blocks_at r ?n). \<not> is_canonical m" by (simp add: canonical_at_None)
  then obtain ms' m where p: "place_block b evs (blocks_at r ?n) = Inr ms'" "List.find is_canonical ms' = Some m"
    "bl_Hash (mb_block m) = bl_Hash b" "length (filter is_canonical ms') \<le> 1"
    "\<forall>n \<in> set ms'. mb_block n = b \<and> mb_events n = evs \<or> (\<exists>old \<in> set (blocks_at r ?n). mb_block n = mb_block old \<and> mb_events n = mb_events old)"
    by (rule place_block_fresh)
  let ?r = "r\<lparr>ch_blocks := gput ?n ms' (ch_blocks r), ch_cursor := block_cursor b\<rparr>"
  have app: "apply_block b evs r = Inr ?r" using p(1) assms(2,6) by (simp add: apply_block_def next_height_def)
  have can: "canonical_hash h ?r = (if h = ?n then Some (bl_Hash b) else canonical_hash h r)" for h
    using p(2,3) by (simp add: canonical_hash_def canonical_at_def)
  have stored: "stored_ok D s K h m" if "m \<in> set (blocks_at ?r h)" for h m
  proof (cases "h = ?n")
    case True
    with that have "m \<in> set ms'" by simp
    with p(5) consider "mb_block m = b" "mb_events m = evs" | old where "old \<in> set (blocks_at r ?n)" "mb_block m = mb_block old" "mb_events m = mb_events old" by blast
    then show ?thesis
    proof cases
      case 1
      then show ?thesis using True assms(4,5) by (simp add: stored_ok_def)
    next
      case (2 old)
      then show ?thesis using st [OF 2(1)] True by (simp add: stored_ok_def)
    qed
  qed (use that st in simp)
  have "linked s K ?r"
  proof (cases "cu_Set (ch_cursor r)")
    case True
    note n = succ [OF True]
    from True li have l: "so_StartBlock s \<le> ?H" "\<And>h. canonical_at r h \<noteq> None \<longleftrightarrow> so_StartBlock s \<le> h \<and> h \<le> ?H"
      "canonical_hash ?H r = Some (cu_Hash (ch_cursor r))"
      "\<And>h d. so_StartBlock s < h \<Longrightarrow> canonical_hash h r = Some d \<Longrightarrow> canonical_hash (h - 1) r = Some (K d)" by (auto simp: linked_def)
    have "canonical_at ?r h \<noteq> None \<longleftrightarrow> so_StartBlock s \<le> h \<and> h \<le> ?n" for h
    proof -
      have "canonical_at ?r h \<noteq> None \<longleftrightarrow> h = ?n \<or> canonical_at r h \<noteq> None"
        using can [of h] canonical_hash_None [of h ?r] canonical_hash_None [of h r] by (metis option.distinct(1))
      moreover have "h \<le> ?n \<longleftrightarrow> h \<le> ?H \<or> h = ?n" using height_succ(1) [OF n(2), of h] unfolding n(1) .
      moreover have "so_StartBlock s \<le> ?n" using l(1) n(2) unfolding n(1) by simp
      ultimately show ?thesis using l(2) [of h] by blast
    qed
    moreover have "canonical_hash (h - 1) ?r = Some (K d)" if "so_StartBlock s < h" "canonical_hash h ?r = Some d" for h d
    proof (cases "h = ?n")
      case True
      have "h - 1 = ?H" "?H \<noteq> ?n" using True n by auto
      moreover have "d = bl_Hash b" using that(2) True can by simp
      moreover have "K (bl_Hash b) = cu_Hash (ch_cursor r)" using assms(4,6) \<open>cu_Set (ch_cursor r)\<close> by simp
      ultimately show ?thesis using l(3) can [of "h - 1"] by simp
    next
      case False
      with that can have d: "canonical_hash h r = Some d" by simp
      then have "h \<le> ?H" using l(2) [of h] by (metis canonical_hash_None option.distinct(1))
      moreover have "?H < ?n" using n by simp
      ultimately have "h - 1 \<noteq> ?n" using height_pred [OF that(1)] by auto
      then show ?thesis using l(4) [OF that(1) d] can by simp
    qed
    moreover have "canonical_hash ?n ?r = Some (bl_Hash b)" using can [of ?n] by simp
    moreover have "so_StartBlock s \<le> ?n" using l(1) n(2) unfolding n(1) by simp
    ultimately show ?thesis unfolding linked_def by (simp add: block_cursor_def)
  next
    case False
    with li have e: "\<And>h. canonical_at r h = None" by (simp add: linked_def)
    have n: "?n = so_StartBlock s" using assms(2) False by (simp add: next_height_def)
    have eq: "canonical_at ?r h \<noteq> None \<longleftrightarrow> h = ?n" for h
      using can [of h] canonical_hash_None [of h ?r] canonical_hash_None [of h r] e by (metis option.distinct(1))
    have "so_StartBlock s < h \<Longrightarrow> canonical_hash h ?r = Some d \<Longrightarrow> canonical_hash (h - 1) ?r = Some (K d)" for h d
      using eq [of h] n by (auto simp: canonical_hash_def)
    moreover have "canonical_at ?r h \<noteq> None \<longleftrightarrow> ?n \<le> h \<and> h \<le> ?n" for h using eq [of h] by auto
    moreover have "canonical_hash ?n ?r = Some (bl_Hash b)" using can [of ?n] by simp
    ultimately show ?thesis using n unfolding linked_def by (simp add: block_cursor_def)
  qed
  moreover have "length (filter is_canonical (blocks_at ?r h)) \<le> 1" for h using one p(4) by simp
  moreover have "gwf (ch_blocks ?r)" using assms(1) by (simp add: chain_inv_def)
  ultimately have "chain_inv D s K ?r" using stored by (simp add: chain_inv_def)
  then show ?thesis using app can by auto
qed

section \<open>Rewinding\<close>

lemma blocks_at_orphan: "blocks_at (orphan_above a r) h = (if h > a then map orphan (blocks_at r h) else blocks_at r h)"
proof -
  have "map_of (map (\<lambda>(height, ms). (height, if height > a then map orphan ms else ms)) bs) h =
      map_option (\<lambda>ms. if h > a then map orphan ms else ms) (map_of bs h)" for bs
    by (induction bs) auto
  then show ?thesis by (auto simp: blocks_at_def orphan_above_def gget_map_of split: option.split)
qed

lemma gwf_orphan: "gwf (ch_blocks r) \<Longrightarrow> gwf (ch_blocks (orphan_above a r))"
proof -
  have "map fst (map (\<lambda>(height, ms). (height, if height > a then map orphan ms else ms)) bs) = map fst bs" for bs
    by (induction bs) auto
  then show "gwf (ch_blocks r) \<Longrightarrow> gwf (ch_blocks (orphan_above a r))" by (simp add: gwf_def orphan_above_def del: map_map)
qed

lemma orphan_not_canonical [simp]: "\<not> is_canonical (orphan m)" "mb_block (orphan m) = mb_block m" "mb_events (orphan m) = mb_events m"
  by (auto simp: orphan_def is_canonical_def)

lemma canonical_at_orphan: "canonical_at (orphan_above a r) h = (if h > a then None else canonical_at r h)"
  by (auto simp: canonical_at_def blocks_at_orphan find_None_iff)

lemma rewind_ok:
  assumes "chain_inv D s K r" "canonical_hash a r = Some d"
  shows "snd (rewind a r) = Inr ()" "chain_inv D s K (fst (rewind a r))" "ch_cursor (fst (rewind a r)) = \<lparr>cu_Height = a, cu_Hash = d, cu_Set = True\<rparr>"
    "\<And>h. canonical_hash h (fst (rewind a r)) = (if h > a then None else canonical_hash h r)"
proof -
  from assms(2) obtain m where m: "canonical_at r a = Some m" "bl_Hash (mb_block m) = d" by (auto simp: canonical_hash_def)
  let ?r = "(orphan_above a r)\<lparr>ch_cursor := \<lparr>cu_Height = a, cu_Hash = d, cu_Set = True\<rparr>\<rparr>"
  have rw: "rewind a r = (?r, Inr ())" using m by (simp add: rewind_def canonical_at_orphan)
  have at: "blocks_at ?r h = blocks_at (orphan_above a r) h" "canonical_at ?r h = canonical_at (orphan_above a r) h" for h
    by (simp_all add: blocks_at_def canonical_at_def)
  have can: "canonical_hash h ?r = (if h > a then None else canonical_hash h r)" for h
    by (simp add: canonical_hash_def at canonical_at_orphan)
  from assms(1) have st: "\<And>h m. m \<in> set (blocks_at r h) \<Longrightarrow> stored_ok D s K h m" and one: "\<And>h. length (filter is_canonical (blocks_at r h)) \<le> 1"
    and li: "linked s K r" by (auto simp: chain_inv_def)
  have set: "cu_Set (ch_cursor r)" using li m(1) by (auto simp: linked_def split: if_splits)
  with li m(1) have l: "so_StartBlock s \<le> a" "a \<le> cu_Height (ch_cursor r)"
    "\<And>h. canonical_at r h \<noteq> None \<longleftrightarrow> so_StartBlock s \<le> h \<and> h \<le> cu_Height (ch_cursor r)"
    "\<And>h d. so_StartBlock s < h \<Longrightarrow> canonical_hash h r = Some d \<Longrightarrow> canonical_hash (h - 1) r = Some (K d)" by (auto simp: linked_def)
  have "canonical_at ?r h \<noteq> None \<longleftrightarrow> so_StartBlock s \<le> h \<and> h \<le> a" for h
    using l(2,3) by (auto simp: at canonical_at_orphan)
  moreover have "canonical_hash (h - 1) ?r = Some (K e)" if "so_StartBlock s < h" "canonical_hash h ?r = Some e" for h e
  proof -
    from that(2) can have "\<not> h > a" "canonical_hash h r = Some e" by (auto split: if_splits)
    moreover have "\<not> h - 1 > a" using height_pred [OF that(1)] \<open>\<not> h > a\<close> by auto
    ultimately show ?thesis using l(4) [OF that(1)] can by simp
  qed
  ultimately have "linked s K ?r" using l(1) can [of a] assms(2) by (auto simp: linked_def)
  moreover have "stored_ok D s K h m" if "m \<in> set (blocks_at ?r h)" for h m
    using that st [of _ h] by (auto simp: at blocks_at_orphan stored_ok_def split: if_splits)
  moreover have "length (filter is_canonical (blocks_at ?r h)) \<le> 1" for h
    using one [of h] by (simp add: at blocks_at_orphan filter_map o_def)
  moreover have "gwf (ch_blocks ?r)" using assms(1) by (simp add: chain_inv_def gwf_orphan)
  ultimately have "chain_inv D s K ?r" by (simp add: chain_inv_def)
  then show "snd (rewind a r) = Inr ()" "chain_inv D s K (fst (rewind a r))"
    "ch_cursor (fst (rewind a r)) = \<lparr>cu_Height = a, cu_Hash = d, cu_Set = True\<rparr>"
    "\<And>h. canonical_hash h (fst (rewind a r)) = (if h > a then None else canonical_hash h r)"
    by (simp_all add: rw can)
qed

section \<open>Every step\<close>

lemma chain_inv_frame: "ch_blocks r' = ch_blocks r \<Longrightarrow> ch_cursor r' = ch_cursor r \<Longrightarrow> chain_inv D s K r' = chain_inv D s K r"
  by (simp add: chain_inv_def linked_def canonical_hash_def canonical_at_def blocks_at_def)

lemma reconciler_run_frame: "ch_blocks (fst (reconciler_run D s inventory now r)) = ch_blocks r \<and> ch_cursor (fst (reconciler_run D s inventory now r)) = ch_cursor r"
  by (auto simp: reconciler_run_def record_reconciliation_def Let_def split: sum.splits)

lemma chain_step_inv: "chain_step D s K r r' \<Longrightarrow> chain_inv D s K r \<Longrightarrow> chain_inv D s K r'"
proof (induction rule: chain_step.induct)
  case (applied b r evs r')
  have "cu_Set (ch_cursor r) \<longrightarrow> bl_ParentHash b = cu_Hash (ch_cursor r)" using applied(5) by (auto simp: apply_block_def split: if_splits)
  with apply_block_ok [OF applied(6,1,2,3,4)] applied(5) show ?case by auto
next
  case (rewound r ancestor)
  then obtain d where "canonical_hash ancestor r = Some d" by (auto simp: canonical_hash_def)
  then show ?case using rewind_ok(2) [OF rewound(2)] by blast
next
  case (reconciled r inventory now)
  then show ?case using reconciler_run_frame chain_inv_frame by metis
next
  case (expected r v)
  then show ?case by (simp add: set_expected_inventory_def cong: chain_inv_frame)
qed

lemma chain_reachable_inv: "chain_reachable D s K r \<Longrightarrow> chain_inv D s K r"
  unfolding chain_reachable_def by (induction rule: rtranclp_induct) (auto intro: chain_inv_new chain_step_inv)

end
