(* ===== verification/Chain_Sync.thy ===== *)
theory Chain_Sync
  imports Chain_Invariant
begin

text \<open>
  \<open>SyncOnce\<close>: it moves the repository only by the steps of the invariant, and against a source that serves
  one chain it returns, at the safe head, with exactly that chain.
\<close>

lemma below_succ: "(h :: uint64) < n \<Longrightarrow> h < h + 1 \<and> h + 1 \<le> n \<and> unat (h + 1) = Suc (unat h)"
proof -
  assume lt: "h < n"
  then have "h \<noteq> - 1" by (metis not_less word_order.extremum)
  then have "h + 1 \<noteq> 0" by (metis add.commute add_eq_0_iff)
  then have "unat (h + 1) = Suc (unat h)" using unatSuc [of h] by (simp add: add.commute)
  with lt show ?thesis by (simp add: word_less_nat_alt word_le_nat_alt)
qed

section \<open>Only steps\<close>

text \<open>A block hash commits to the parent hash: whatever blocks a source serves agree on the parent of a hash.\<close>

definition commits :: "(string \<Rightarrow> string) \<Rightarrow> 'w chain_source \<Rightarrow> bool" where
  "commits K src \<longleftrightarrow> (\<forall>h w w' b. cs_block src h w = (w', Inr b) \<longrightarrow> bl_ParentHash b = K (bl_Hash b))"

lemma ancestor_from_canonical: "ancestor_from src lowest h r w = (w', Inr a) \<Longrightarrow> canonical_at r a \<noteq> None"
proof (induction src lowest h r w arbitrary: w' a rule: ancestor_from.induct)
  case (1 src lowest h r w)
  obtain v res where b: "cs_block src h w = (v, res)" by (cases "cs_block src h w")
  show ?case
  proof (cases res)
    case (Inr c)
    show ?thesis
    proof (cases "canonical_hash h r = Some (bl_Hash c)")
      case True
      then show ?thesis using 1(2) b Inr by (auto simp: ancestor_from.simps [of src lowest h] canonical_hash_def)
    next
      case False
      note no = this
      show ?thesis
      proof (cases "h = lowest \<or> h = 0")
        case False
        have "ancestor_from src lowest (h - 1) r v = (w', Inr a)" using 1(2) b Inr no False by (simp add: ancestor_from.simps [of src lowest h])
        then show ?thesis using 1(1) [OF b [symmetric] Inr no False] by blast
      qed (use 1(2) b Inr no in \<open>auto simp: ancestor_from.simps [of src lowest h]\<close>)
    qed
  qed (use 1(2) b in \<open>simp add: ancestor_from.simps [of src lowest h]\<close>)
qed

lemma common_ancestor_canonical: "common_ancestor s src c r w = (w', Inr a) \<Longrightarrow> canonical_at r a \<noteq> None"
  by (auto simp: common_ancestor_def Let_def dest: ancestor_from_canonical)

lemma sync_loop_steps:
  "sync_loop D s src safeHead r w = Some y \<Longrightarrow> commits K src \<longrightarrow> (chain_step D s K)\<^sup>*\<^sup>* r (fst y)"
proof (induction rule: sync_loop.raw_induct [where P = "\<lambda>D s src safeHead r w y. commits K src \<longrightarrow> (chain_step D s K)\<^sup>*\<^sup>* r (fst y)", rotated, consumes 1, case_names 1])
  case (1 loop D s src safeHead r w y)
  show ?case
  proof
    assume com: "commits K src"
    let ?c = "ch_cursor r"
    let ?n = "next_height s ?c"
    note ih = 1(1) [THEN mp, OF _ com]
    note body = 1(2) [unfolded Let_def]
    have stay: "fst y = r \<Longrightarrow> ?thesis" by simp
    show "(chain_step D s K)\<^sup>*\<^sup>* r (fst y)"
    proof (cases "(cu_Set ?c \<and> cu_Height ?c \<ge> safeHead) \<or> ?n > safeHead")
      case True
      then show ?thesis using body by (auto split: if_splits)
    next
      case False
      obtain w1 res where src: "cs_block src ?n w = (w1, res)" by (cases "cs_block src ?n w")
      note body = body [unfolded src prod.case]
      show ?thesis
      proof (cases res)
        case (Inl e)
        then show ?thesis using body False by (auto split: if_splits)
      next
        case (Inr b)
        then have K: "bl_ParentHash b = K (bl_Hash b)" using com src by (auto simp: commits_def)
        note body = body [unfolded Inr sum.case]
        show ?thesis
        proof (cases "bad_block ?n b")
          case True
          then show ?thesis using body False by (auto split: if_splits)
        next
          case good: False
          show ?thesis
          proof (cases "cu_Set ?c \<and> bl_ParentHash b \<noteq> cu_Hash ?c")
            case True
            obtain w2 res2 where anc: "common_ancestor s src ?c r w1 = (w2, res2)" by (cases "common_ancestor s src ?c r w1")
            show ?thesis
            proof (cases res2)
              case (Inl e)
              then show ?thesis using body False good True anc by (auto split: if_splits)
            next
              case (Inr a)
              have st: "chain_step D s K r (fst (rewind a r))"
                by (rule chain_step.rewound) (rule common_ancestor_canonical [OF anc [unfolded Inr]])
              obtain r' res3 where rw: "rewind a r = (r', res3)" by (cases "rewind a r")
              show ?thesis
              proof (cases res3)
                case (Inl e)
                then have "y = (r', w2, ?c, Some e)" using body False good True anc rw \<open>res2 = Inr a\<close> by (auto split: if_splits)
                then show ?thesis using st rw by auto
              next
                case (Inr u)
                then have run: "loop D s src safeHead r' w2 = Some y" using body False good True anc rw \<open>res2 = Inr a\<close> by (auto split: if_splits)
                have "(chain_step D s K)\<^sup>*\<^sup>* r' (fst y)" by (rule ih [OF run])
                moreover have "chain_step D s K r r'" using st rw by simp
                ultimately show ?thesis by (rule converse_rtranclp_into_rtranclp [rotated])
              qed
            qed
          next
            case fits: False
            show ?thesis
            proof (cases "decode_block D s b")
              case (Inl e)
              then show ?thesis using body False good fits by (auto split: if_splits)
            next
              case (Inr evs)
              note dec = this
              show ?thesis
              proof (cases "apply_block b evs r")
                case (Inl e)
                then show ?thesis using body False good fits dec by (auto split: if_splits)
              next
                case (Inr r')
                then have "loop D s src safeHead r' w1 = Some y" using body False good fits dec by (auto split: if_splits)
                moreover have "chain_step D s K r r'"
                  using False good K dec Inr by (intro chain_step.applied [of b]) (auto simp: bad_block_def next_height_def below_succ not_le)
                ultimately show ?thesis using ih by (metis converse_rtranclp_into_rtranclp)
              qed
            qed
          qed
        qed
      qed
    qed
  qed
qed

lemma sync_once_steps:
  assumes "sync_once D s src r w = Some y" "commits K src"
  shows "(chain_step D s K)\<^sup>*\<^sup>* r (fst y)"
  using assms by (auto simp: sync_once_def dest: sync_loop_steps split: prod.splits sum.splits if_splits)

section \<open>Against one chain\<close>

text \<open>
  A source serves the chain \<open>C\<close> up to a height: its blocks carry their heights and hashes, each names the hash
  of the one before it, \<open>K\<close> is the parent of a hash, and the decoder accepts them.
\<close>

definition serves :: "decoder_env \<Rightarrow> scope \<Rightarrow> (string \<Rightarrow> string) \<Rightarrow> 'w chain_source \<Rightarrow> (uint64 \<Rightarrow> block) \<Rightarrow> uint64 \<Rightarrow> bool" where
  "serves D s K src C n \<longleftrightarrow> (\<forall>h \<le> n. (\<forall>w. cs_block src h w = (w, Inr (C h))) \<and> bl_Number (C h) = h \<and> valid_hash (bl_Hash (C h)) \<and>
     bl_ParentHash (C h) = K (bl_Hash (C h)) \<and> (h > 0 \<longrightarrow> valid_hash (bl_ParentHash (C h)) \<and> bl_ParentHash (C h) = bl_Hash (C (h - 1))) \<and>
     (\<exists>evs. decode_block D s (C h) = Inr evs))"

definition agrees :: "scope \<Rightarrow> (uint64 \<Rightarrow> block) \<Rightarrow> uint64 \<Rightarrow> chain_repo \<Rightarrow> bool" where
  "agrees s C n r \<longleftrightarrow> (\<forall>h. canonical_hash h r = (if so_StartBlock s \<le> h \<and> h \<le> n then Some (bl_Hash (C h)) else None))"

text \<open>Hash links carry agreement down from one height to every lower one.\<close>

lemma agrees_below:
  assumes inv: "chain_inv D s K r" and srv: "serves D s K src C n" and a: "canonical_hash a r = Some (bl_Hash (C a))" "a \<le> n"
    and h: "so_StartBlock s \<le> h" "h \<le> a"
  shows "canonical_hash h r = Some (bl_Hash (C h))"
  using a h(2)
proof (induction "unat a" arbitrary: a rule: less_induct)
  case less
  show ?case
  proof (cases "h = a")
    case False
    with less(4) h have lt: "so_StartBlock s < a" "h \<le> a - 1" using height_pred [of h a] by auto
    have set: "cu_Set (ch_cursor r)" using inv less(2) by (auto simp: chain_inv_def linked_def canonical_hash_def split: if_splits)
    then have "canonical_hash (a - 1) r = Some (K (bl_Hash (C a)))" using inv lt(1) less(2) by (auto simp: chain_inv_def linked_def)
    also have "K (bl_Hash (C a)) = bl_Hash (C (a - 1))"
      using srv less(3) lt(1) unfolding serves_def by (metis leD le_neq_trans word_zero_le)
    finally have pr: "canonical_hash (a - 1) r = Some (bl_Hash (C (a - 1)))" .
    have "a \<noteq> 0" using lt(1) by auto
    then have "unat (a - 1) < unat a" by (rule unat_pred_less)
    moreover have "a - 1 \<le> n" using height_pred [OF lt(1)] less(3) by (meson order.strict_implies_order order.trans)
    ultimately show ?thesis using less(1) pr lt(2) by blast
  qed (use less in simp)
qed

lemma agrees_cursor:
  assumes "chain_inv D s K r" "serves D s K src C n" "cu_Set (ch_cursor r)" "cu_Height (ch_cursor r) \<le> n" "cu_Hash (ch_cursor r) = bl_Hash (C (cu_Height (ch_cursor r)))"
  shows "agrees s C (cu_Height (ch_cursor r)) r"
proof -
  have l: "canonical_hash (cu_Height (ch_cursor r)) r = Some (cu_Hash (ch_cursor r))"
    "\<And>h. canonical_at r h \<noteq> None \<longleftrightarrow> so_StartBlock s \<le> h \<and> h \<le> cu_Height (ch_cursor r)"
    using assms(1,3) by (auto simp: chain_inv_def linked_def)
  show ?thesis unfolding agrees_def
  proof
    fix h
    show "canonical_hash h r = (if so_StartBlock s \<le> h \<and> h \<le> cu_Height (ch_cursor r) then Some (bl_Hash (C h)) else None)"
      using agrees_below [OF assms(1,2) _ assms(4), of h] l(1) l(2) [of h] assms(5) canonical_hash_None [of h r] by (auto simp del: canonical_hash_None)
  qed
qed

text \<open>The converged repository.\<close>

definition converged :: "decoder_env \<Rightarrow> scope \<Rightarrow> (string \<Rightarrow> string) \<Rightarrow> (uint64 \<Rightarrow> block) \<Rightarrow> uint64 \<Rightarrow> chain_repo \<Rightarrow> bool" where
  "converged D s K C n r \<longleftrightarrow> chain_inv D s K r \<and> ch_cursor r = block_cursor (C n) \<and> agrees s C n r"

lemma sync_extends:
  assumes srv: "serves D s K src C n"
    and inv: "chain_inv D s K r"
    and here: "if cu_Set (ch_cursor r) then cu_Height (ch_cursor r) \<le> n \<and> cu_Hash (ch_cursor r) = bl_Hash (C (cu_Height (ch_cursor r)))
      else so_StartBlock s \<le> n"
  shows "\<exists>r'. sync_loop D s src n r w = Some (r', w, block_cursor (C n), None) \<and> converged D s K C n r'"
  using inv here
proof (induction "if cu_Set (ch_cursor r) then unat n - unat (cu_Height (ch_cursor r)) else Suc (unat n - unat (so_StartBlock s))"
    arbitrary: r rule: less_induct)
  case less
  let ?c = "ch_cursor r"
  let ?n = "next_height s ?c"
  show ?case
  proof (cases "cu_Set ?c \<and> cu_Height ?c = n")
    case True
    then have "cu_Hash ?c = bl_Hash (C n)" "bl_Number (C n) = n" using less(3) srv by (auto simp: serves_def)
    then have "ch_cursor r = block_cursor (C n)" using True by (simp add: block_cursor_def)
    moreover have "agrees s C n r" using agrees_cursor [OF less(2) srv] True less(3) by simp
    ultimately show ?thesis using True less(2) by (auto simp: sync_loop.simps [of D s] converged_def Let_def)
  next
    case False
    have lt: "cu_Height ?c < n" if "cu_Set ?c" using less(3) that False by auto
    have nn: "?n \<le> n" using lt below_succ less(3) by (auto simp: next_height_def split: if_splits)
    have C: "cs_block src ?n w = (w, Inr (C ?n))" "bl_Number (C ?n) = ?n" "valid_hash (bl_Hash (C ?n))" "bl_ParentHash (C ?n) = K (bl_Hash (C ?n))"
      "?n > 0 \<Longrightarrow> valid_hash (bl_ParentHash (C ?n))" "?n > 0 \<Longrightarrow> bl_ParentHash (C ?n) = bl_Hash (C (?n - 1))"
      using srv nn unfolding serves_def by blast+
    from srv nn obtain evs where dec: "decode_block D s (C ?n) = Inr evs" unfolding serves_def by blast
    have up: "cu_Height ?c < ?n" "?n > 0" "?n - 1 = cu_Height ?c" if "cu_Set ?c"
    proof -
      have "cu_Height ?c < cu_Height ?c + 1" using below_succ [OF lt [OF that]] by simp
      moreover from this have "0 < cu_Height ?c + 1" by (rule le_less_trans [OF word_zero_le])
      ultimately show "cu_Height ?c < ?n" "?n > 0" "?n - 1 = cu_Height ?c" using that by (simp_all add: next_height_def)
    qed
    have link: "bl_ParentHash (C ?n) = cu_Hash ?c" if "cu_Set ?c" using up [OF that] C(6) less(3) that by simp
    from apply_block_ok [OF less(2) C(2) _ C(4) dec] up(1) link C(2) obtain r' where r': "apply_block (C ?n) evs r = Inr r'" "chain_inv D s K r'"
      "ch_cursor r' = block_cursor (C ?n)" by auto
    have smaller: "(if cu_Set (ch_cursor r') then unat n - unat (cu_Height (ch_cursor r')) else Suc (unat n - unat (so_StartBlock s)))
        < (if cu_Set ?c then unat n - unat (cu_Height ?c) else Suc (unat n - unat (so_StartBlock s)))"
    proof (cases "cu_Set ?c")
      case True
      have "unat ?n = Suc (unat (cu_Height ?c))" "unat (cu_Height ?c) < unat n"
        using True below_succ [OF lt [OF True]] lt [OF True] by (simp_all add: next_height_def word_less_nat_alt)
      then show ?thesis using True r'(3) C(2) by (simp add: block_cursor_def)
    qed (use r'(3) C(2) in \<open>simp add: block_cursor_def next_height_def\<close>)
    have ok: "if cu_Set (ch_cursor r') then cu_Height (ch_cursor r') \<le> n \<and> cu_Hash (ch_cursor r') = bl_Hash (C (cu_Height (ch_cursor r'))) else so_StartBlock s \<le> n"
      using r'(3) C(2) nn by (simp add: block_cursor_def)
    have "\<not> bad_block ?n (C ?n)" using C(2,3,5) by (simp add: bad_block_def)
    then have "sync_loop D s src n r w = sync_loop D s src n r' w"
      using lt nn link C(1) dec r'(1) by (auto simp: sync_loop.simps [of D s src n r] Let_def)
    with less(1) [OF smaller r'(2) ok] show ?thesis by simp
  qed
qed

text \<open>The ancestor search of a source that serves one chain: the highest agreement in reach, or none.\<close>

lemma ancestor_from_serves:
  assumes "serves D s K src C n" "h \<le> n" "lowest \<le> h"
  shows "if \<exists>a. lowest \<le> a \<and> a \<le> h \<and> canonical_hash a r = Some (bl_Hash (C a))
    then \<exists>a. lowest \<le> a \<and> a \<le> h \<and> canonical_hash a r = Some (bl_Hash (C a)) \<and> ancestor_from src lowest h r w = (w, Inr a)
    else ancestor_from src lowest h r w = (w, Inl HErrReorgTooDeep)"
  using assms(2,3)
proof (induction "unat h" arbitrary: h rule: less_induct)
  case less
  have b: "cs_block src h w = (w, Inr (C h))" using assms(1) less(2) by (simp add: serves_def)
  show ?case
  proof (cases "canonical_hash h r = Some (bl_Hash (C h))")
    case True
    then have "ancestor_from src lowest h r w = (w, Inr h)" by (simp add: ancestor_from.simps [of src lowest h] b)
    then show ?thesis using True less(3) by (metis order.refl)
  next
    case False
    show ?thesis
    proof (cases "h = lowest \<or> h = 0")
      case True
      then have "ancestor_from src lowest h r w = (w, Inl HErrReorgTooDeep)" using False by (simp add: ancestor_from.simps [of src lowest h] b)
      moreover have "\<not> (\<exists>a. lowest \<le> a \<and> a \<le> h \<and> canonical_hash a r = Some (bl_Hash (C a)))"
        using True False less(3) by (metis order.antisym word_coorder.extremum_unique)
      ultimately show ?thesis by simp
    next
      case go: False
      then have lt: "lowest < h" using less(3) by auto
      note pr = height_pred [OF lt]
      have "h - 1 \<le> n" using pr less(2) by (meson order.strict_implies_order order.trans)
      moreover have "unat (h - 1) < unat h" using go by (intro unat_pred_less) simp
      ultimately have ih: "if \<exists>a. lowest \<le> a \<and> a \<le> h - 1 \<and> canonical_hash a r = Some (bl_Hash (C a))
        then \<exists>a. lowest \<le> a \<and> a \<le> h - 1 \<and> canonical_hash a r = Some (bl_Hash (C a)) \<and> ancestor_from src lowest (h - 1) r w = (w, Inr a)
        else ancestor_from src lowest (h - 1) r w = (w, Inl HErrReorgTooDeep)" using less(1) pr by blast
      have eq: "ancestor_from src lowest h r w = ancestor_from src lowest (h - 1) r w"
        using False go by (simp add: ancestor_from.simps [of src lowest h] b)
      have "a \<le> h \<longleftrightarrow> a = h \<or> a \<le> h - 1" for a
      proof -
        have "h - 1 < h - 1 + 1" using pr by simp
        from height_succ(1) [OF this, of a] show ?thesis by auto
      qed
      then show ?thesis using ih eq False by metis
    qed
  qed
qed

definition reach_floor :: "scope \<Rightarrow> chain_repo \<Rightarrow> uint64" where
  "reach_floor s r = (let H = cu_Height (ch_cursor r) in if H > so_MaxReorgDepth s then H - so_MaxReorgDepth s else 0)"

lemma reach_floor_le: "reach_floor s r \<le> cu_Height (ch_cursor r)"
  by (auto simp: reach_floor_def Let_def word_le_nat_alt word_less_nat_alt unat_sub)

definition forked_within :: "scope \<Rightarrow> (uint64 \<Rightarrow> block) \<Rightarrow> chain_repo \<Rightarrow> bool" where
  "forked_within s C r \<longleftrightarrow> (\<exists>a. reach_floor s r \<le> a \<and> a \<le> cu_Height (ch_cursor r) \<and> canonical_hash a r = Some (bl_Hash (C a)))"

lemma sync_loop_forked:
  assumes srv: "serves D s K src C n" and inv: "chain_inv D s K r" and cur: "cu_Set (ch_cursor r)" "cu_Height (ch_cursor r) < n"
    and fork: "cu_Hash (ch_cursor r) \<noteq> bl_Hash (C (cu_Height (ch_cursor r)))"
  shows "if forked_within s C r
    then \<exists>a. a \<le> cu_Height (ch_cursor r) \<and> canonical_hash a r = Some (bl_Hash (C a)) \<and> sync_loop D s src n r w = sync_loop D s src n (fst (rewind a r)) w
    else sync_loop D s src n r w = Some (r, w, ch_cursor r, Some HErrReorgTooDeep)"
proof -
  let ?c = "ch_cursor r"
  let ?n = "next_height s ?c"
  have n: "?n = cu_Height ?c + 1" "?n \<le> n" "cu_Height ?c < ?n" using below_succ [OF cur(2)] cur(1) by (auto simp: next_height_def)
  have pos: "?n > 0" using n(3) by (rule le_less_trans [OF word_zero_le])
  have C: "cs_block src ?n w = (w, Inr (C ?n))" "bl_Number (C ?n) = ?n" "valid_hash (bl_Hash (C ?n))" "valid_hash (bl_ParentHash (C ?n))"
    "bl_ParentHash (C ?n) = bl_Hash (C (?n - 1))"
    using srv n(2) pos unfolding serves_def by blast+
  have "\<not> bad_block ?n (C ?n)" using C by (simp add: bad_block_def)
  moreover have "bl_ParentHash (C ?n) \<noteq> cu_Hash ?c" using C(5) n(1) fork by simp
  ultimately have step: "sync_loop D s src n r w =
      (case common_ancestor s src ?c r w of
         (w2, Inl e) \<Rightarrow> Some (r, w2, ?c, Some e)
       | (w2, Inr ancestor) \<Rightarrow> (case rewind ancestor r of (r', Inl e) \<Rightarrow> Some (r', w2, ?c, Some e) | (r', Inr _) \<Rightarrow> sync_loop D s src n r' w2))"
    using cur n C(1) by (subst sync_loop.simps) (auto simp: Let_def)
  have anc: "common_ancestor s src ?c r w = ancestor_from src (reach_floor s r) (cu_Height ?c) r w"
    by (simp add: common_ancestor_def reach_floor_def Let_def)
  have "cu_Height ?c \<le> n" using cur(2) by simp
  note search = ancestor_from_serves [OF srv this reach_floor_le [of s r], where r = r and w = w, folded forked_within_def]
  show ?thesis
  proof (cases "forked_within s C r")
    case True
    with search obtain a where a: "a \<le> cu_Height ?c"
      "canonical_hash a r = Some (bl_Hash (C a))" "ancestor_from src (reach_floor s r) (cu_Height ?c) r w = (w, Inr a)"
      by auto
    have "snd (rewind a r) = Inr ()" by (rule rewind_ok(1) [OF inv a(2)])
    then have "sync_loop D s src n r w = sync_loop D s src n (fst (rewind a r)) w" using step anc a(3) by (cases "rewind a r") simp
    then show ?thesis using True a by auto
  next
    case False
    then have "ancestor_from src (reach_floor s r) (cu_Height ?c) r w = (w, Inl HErrReorgTooDeep)"
      using search by simp
    then show ?thesis using False step anc by simp
  qed
qed

lemma sync_loop_converges:
  assumes srv: "serves D s K src C n" and inv: "chain_inv D s K r"
    and cur: "if cu_Set (ch_cursor r) then cu_Height (ch_cursor r) < n \<and> forked_within s C r else so_StartBlock s \<le> n"
  shows "\<exists>r'. sync_loop D s src n r w = Some (r', w, block_cursor (C n), None) \<and> converged D s K C n r'"
proof (cases "cu_Set (ch_cursor r) \<and> cu_Hash (ch_cursor r) \<noteq> bl_Hash (C (cu_Height (ch_cursor r)))")
  case True
  with sync_loop_forked [OF srv inv _ _, where w = w] cur obtain a where a: "a \<le> cu_Height (ch_cursor r)" "canonical_hash a r = Some (bl_Hash (C a))"
    "sync_loop D s src n r w = sync_loop D s src n (fst (rewind a r)) w" by auto
  have "a \<le> n" using a(1) cur True by auto
  then have "\<exists>r'. sync_loop D s src n (fst (rewind a r)) w = Some (r', w, block_cursor (C n), None) \<and> converged D s K C n r'"
    by (intro sync_extends [OF srv rewind_ok(2) [OF inv a(2)]]) (simp add: rewind_ok(3) [OF inv a(2)])
  then show ?thesis using a(3) by simp
next
  case False
  then show ?thesis using cur by (intro sync_extends [OF srv inv]) auto
qed

end
