(* ===== verification/Chain_Selected.thy ===== *)
theory Chain_Selected
  imports Chain_Sync
begin

text \<open>
  What a confirmed selection rests on: the decoder makes a selection event only from a successful call of the
  escrow contract whose calldata and log agree, and the verifier reports only events of canonical blocks.
\<close>

definition backs :: "decoder_env \<Rightarrow> scope \<Rightarrow> transaction \<Rightarrow> chain_result \<Rightarrow> bool" where
  "backs D s t res \<longleftrightarrow> to_lower (tr_To t) = so_Contract s \<and> tr_Status t = TxSucceeded \<and> decode_selection_input D (tr_Input t) = Inr (hr_Proof res) \<and>
     hr_TransactionHash res = tr_Hash t \<and> hr_Status res = ChainConfirmed \<and> hr_WorkNonce res = 1 \<and>
     chain_subtract (pf_FormalGrossPrice (hr_Proof res)) (pf_OverviewCredit (hr_Proof res)) = hr_FormalPayable res"

text \<open>What holds of the answer of every branch.\<close>

definition answers :: "('a \<Rightarrow> bool) \<Rightarrow> 'e + 'a \<Rightarrow> bool" where
  "answers Q r \<longleftrightarrow> (\<forall>v. r = Inr v \<longrightarrow> Q v)"

lemma answers_simps [simp]: "answers Q (Inl e)" "answers Q (Inr v) = Q v"
  by (simp_all add: answers_def)

lemma answers_if: "answers Q x \<Longrightarrow> answers Q y \<Longrightarrow> answers Q (if c then x else y)"
  by simp

lemma selection_event_hash: "decode_selection_event b t l d p v0 = Inr v \<Longrightarrow> ve_TransactionHash v = ve_TransactionHash v0"
  by (auto simp: decode_selection_event_def Let_def split: if_splits option.splits)

lemma decode_event_answer:
  assumes "decode_event D b t l kind p = Inr v"
  shows "ve_TransactionHash v = tr_Hash t" "kind \<noteq> EventSelection \<Longrightarrow> ve_Selection v = None"
proof -
  let ?v0 = "base_event D b t l kind"
  have base: "ve_TransactionHash ?v0 = tr_Hash t" "ve_Selection ?v0 = None" by (simp_all add: base_event_def)
  from assms obtain d where d: "data_words (lg_Data l) = Inr d" by (auto simp: decode_event_def res_simps)
  have sel: "answers (\<lambda>v. ve_TransactionHash v = tr_Hash t) (decode_selection_event b t l d p ?v0)"
    by (simp add: answers_def) (metis base(1) selection_event_hash)
  have "answers (\<lambda>v. ve_TransactionHash v = tr_Hash t) (decode_event D b t l kind p)"
    unfolding decode_event_def d rbind_simps Let_def by (intro answers_if sel) (simp_all add: base)
  then show "ve_TransactionHash v = tr_Hash t" using assms by (simp add: answers_def)
  assume "kind \<noteq> EventSelection"
  note no = eq_False [THEN iffD2, OF this]
  have "answers (\<lambda>v. ve_Selection v = None) (decode_event D b t l kind p)"
    unfolding decode_event_def d rbind_simps Let_def no if_False by (intro answers_if) (simp_all add: base)
  then show "ve_Selection v = None" using assms by (simp add: answers_def)
qed

lemma decode_event_selection:
  assumes "decode_event D b t l kind p = Inr v" "ve_Selection v = Some res"
  shows "kind = EventSelection \<and> p = Some (hr_Proof res) \<and> hr_TransactionHash res = tr_Hash t \<and> hr_Status res = ChainConfirmed \<and>
      hr_BlockNumber res = bl_Number b \<and> hr_WorkNonce res = 1 \<and>
      chain_subtract (pf_FormalGrossPrice (hr_Proof res)) (pf_OverviewCredit (hr_Proof res)) = hr_FormalPayable res"
proof -
  from assms(1) obtain d where d: "data_words (lg_Data l) = Inr d" by (auto simp: decode_event_def res_simps)
  have kind: "kind = EventSelection" using decode_event_answer(2) [OF assms(1)] assms(2) by auto
  then have "decode_selection_event b t l d p (base_event D b t l kind) = Inr v" using assms(1) by (simp add: decode_event_def d Let_def)
  then show ?thesis using kind assms(2)
    by (auto simp: decode_selection_event_def selection_mismatch_def Let_def base_event_def split: option.splits if_splits)
qed

text \<open>The selection events a list of logs adds, counted.\<close>

lemma decode_logs_selection:
  "decode_logs D s b t p ls result k = Inr (result', k') \<Longrightarrow>
   k \<le> k' \<and> (\<forall>v \<in> set result'. v \<in> set result \<or> ve_TransactionHash v = tr_Hash t \<and>
     (\<forall>res. ve_Selection v = Some res \<longrightarrow> k < k' \<and> p = Some (hr_Proof res) \<and> hr_TransactionHash res = tr_Hash t \<and> hr_Status res = ChainConfirmed \<and>
       hr_BlockNumber res = bl_Number b \<and> hr_WorkNonce res = 1 \<and>
       chain_subtract (pf_FormalGrossPrice (hr_Proof res)) (pf_OverviewCredit (hr_Proof res)) = hr_FormalPayable res))"
proof (induction ls arbitrary: result k)
  case (Cons l ls)
  show ?case
  proof (cases "to_lower (lg_Address l) \<noteq> so_Contract s \<or> lg_Topics l = []")
    case True
    then show ?thesis using Cons by simp
  next
    case False
    show ?thesis
    proof (cases "gget (event_signatures D) (to_lower (hd (lg_Topics l)))")
      case None
      then show ?thesis using Cons False by simp
    next
      case (Some kind)
      let ?k = "if kind = EventSelection then k + 1 else k"
      from Cons(2) False Some obtain v where v: "decode_event D b t l kind p = Inr v"
        and rest: "decode_logs D s b t p ls (result @ [v]) ?k = Inr (result', k')" by (auto simp: res_simps)
      note ih = Cons(1) [OF rest]
      have "k < k'" if "ve_Selection v = Some res" for res
        using ih decode_event_selection [OF v that] by simp
      moreover have "k \<le> k'" using ih by (simp split: if_splits)
      moreover have "k < k'" if "?k < k'" using that by (simp split: if_splits)
      ultimately show ?thesis using ih decode_event_answer(1) [OF v] decode_event_selection [OF v]
        by (simp only: set_append list.set Un_iff insert_iff empty_iff simp_thms ball_Un) blast
    qed
  qed
qed simp

lemma decode_transactions_backed:
  "decode_transactions D s b ts result = Inr evs \<Longrightarrow> v \<in> set evs \<Longrightarrow>
   v \<in> set result \<or> (\<exists>t \<in> set ts. ve_TransactionHash v = tr_Hash t \<and>
     (\<forall>res. ve_Selection v = Some res \<longrightarrow> backs D s t res \<and> hr_BlockNumber res = bl_Number b))"
proof (induction ts arbitrary: result)
  case (Cons t ts)
  show ?case
  proof (cases "to_lower (tr_To t) \<noteq> so_Contract s")
    case True
    then show ?thesis using Cons by auto
  next
    case False
    with Cons(2) obtain p result' k where p: "tr_Status t = TxSucceeded \<or> tr_Status t = TxFailed" "transaction_proof D t = Inr p"
      "decode_logs D s b t p (tr_Logs t) result 0 = Inr (result', k)"
      "\<not> (has_prefix (to_lower (tr_Input t)) (dv_selector D) \<and>
           (tr_Status t = TxSucceeded \<and> k \<noteq> 1 \<or> tr_Status t = TxFailed \<and> k \<noteq> 0))"
      "decode_transactions D s b ts result' = Inr evs"
      by (auto simp: res_simps split: if_splits)
    have new: "ve_TransactionHash v = tr_Hash t \<and> (\<forall>res. ve_Selection v = Some res \<longrightarrow> backs D s t res \<and> hr_BlockNumber res = bl_Number b)"
      if "v \<in> set result'" "v \<notin> set result"
    proof -
      from decode_logs_selection [OF p(3)] that have l: "ve_TransactionHash v = tr_Hash t"
        "\<And>res. ve_Selection v = Some res \<Longrightarrow> 0 < k \<and> p = Some (hr_Proof res) \<and> hr_TransactionHash res = tr_Hash t \<and> hr_Status res = ChainConfirmed \<and>
         hr_BlockNumber res = bl_Number b \<and> hr_WorkNonce res = 1 \<and>
         chain_subtract (pf_FormalGrossPrice (hr_Proof res)) (pf_OverviewCredit (hr_Proof res)) = hr_FormalPayable res" by blast+
      have "backs D s t res" if "ve_Selection v = Some res" for res
      proof -
        note r = l(2) [OF that]
        then have call: "has_prefix (to_lower (tr_Input t)) (dv_selector D)" "decode_selection_input D (tr_Input t) = Inr (hr_Proof res)"
          using p(2) by (auto simp: transaction_proof_def split: if_splits sum.splits)
        then show ?thesis using r p(1,4) False by (auto simp: backs_def)
      qed
      then show ?thesis using l by blast
    qed
    from Cons(1) [OF p(5) Cons(3)] show ?thesis using new by auto
  qed
qed simp

lemma decode_block_backed:
  assumes "decode_block D s b = Inr evs" "v \<in> set evs"
  shows "\<exists>t \<in> set (bl_Transactions b). ve_TransactionHash v = tr_Hash t \<and>
    (\<forall>res. ve_Selection v = Some res \<longrightarrow> backs D s t res \<and> hr_BlockNumber res = bl_Number b)"
proof -
  from assms(1) obtain result where r: "decode_transactions D s b (bl_Transactions b) [] = Inr result" "evs = sort_func event_cmp result"
    by (auto simp: decode_block_def res_simps)
  then show ?thesis using decode_transactions_backed [OF r(1), of v] assms(2) by simp
qed

lemma canonical_unique:
  assumes "chain_inv D s K r" "m \<in> set (blocks_at r h)" "is_canonical m"
  shows "canonical_at r h = Some m"
proof -
  have "length (filter is_canonical (blocks_at r h)) \<le> 1" using assms(1) by (simp add: chain_inv_def)
  moreover have "m \<in> set (filter is_canonical (blocks_at r h))" using assms(2,3) by simp
  ultimately have only: "filter is_canonical (blocks_at r h) = [m]" by (cases "filter is_canonical (blocks_at r h)") auto
  obtain c where "canonical_at r h = Some c" using assms(2,3) canonical_at_None [of r h] by (cases "canonical_at r h") auto
  moreover from canonical_at_Some [OF this] have "c \<in> set (filter is_canonical (blocks_at r h))" by simp
  ultimately show ?thesis using only by simp
qed

lemma find_SomeD: "List.find P xs = Some x \<Longrightarrow> x \<in> set xs \<and> P x"
  by (metis find_Some_iff nth_mem)

lemma selection_result_backed:
  assumes inv: "chain_inv D s K r" and res: "selection_result D h r = Some res" and ok: "hr_Status res = ChainConfirmed"
  shows "\<exists>m t. canonical_at r (hr_BlockNumber res) = Some m \<and> t \<in> set (bl_Transactions (mb_block m)) \<and> tr_Hash t = h \<and> backs D s t res"
proof -
  from res obtain m where f: "List.find (\<lambda>m. block_selection D h m \<noteq> None) (concat (gvals (ch_blocks r))) = Some m"
    and m2: "block_selection D h m = Some res" by (auto simp: selection_result_def split: option.splits)
  from f have m1: "m \<in> set (concat (gvals (ch_blocks r)))" by (blast dest: find_SomeD)
  note m = m1 m2
  from m(1) obtain ms where ms: "ms \<in> set (gvals (ch_blocks r))" "m \<in> set ms" by auto
  then obtain n where "gget (ch_blocks r) n = Some ms" using inv by (auto simp: chain_inv_def gvals_mem)
  with ms(2) have n: "m \<in> set (blocks_at r n)" by (simp add: blocks_at_def)
  from m(2) have can: "is_canonical m" by (auto simp: block_selection_def split: if_splits)
  from m(2) can ok obtain v where v: "v \<in> set (mb_events m)" "ve_TransactionHash v = h" "ve_Selection v = Some res"
    by (auto simp: block_selection_def dest!: find_SomeD split: option.splits if_splits)
  have st: "bl_Number (mb_block m) = n" "decode_block D s (mb_block m) = Inr (mb_events m)"
    using inv n by (auto simp: chain_inv_def stored_ok_def)
  from decode_block_backed [OF st(2) v(1)] v st(1) canonical_unique [OF inv n can] show ?thesis by auto
qed

section \<open>Inventories\<close>

text \<open>The differences are exactly the keys whose values differ, in the order of the keys, each once.\<close>

lemma cut_key_split: "CHR '':'' \<in> set key \<Longrightarrow> fst (cut_key key) @ '':'' @ snd (cut_key key) = key"
proof -
  assume c: "CHR '':'' \<in> set key"
  then have "dropWhile (\<lambda>c. c \<noteq> CHR '':'') key \<noteq> []" by (simp add: dropWhile_eq_Nil_conv)
  then obtain cs where "dropWhile (\<lambda>c. c \<noteq> CHR '':'') key = CHR '':'' # cs"
    using hd_dropWhile [of "\<lambda>c. c \<noteq> CHR '':''" key] by (cases "dropWhile (\<lambda>c. c \<noteq> CHR '':'') key") auto
  with takeWhile_dropWhile_id [of "\<lambda>c. c \<noteq> CHR '':''" key] c show ?thesis by (simp add: cut_key_def)
qed

lemma inventory_value_gget: "inventory_value m k = (case gget m k of None \<Rightarrow> [] | Some v \<Rightarrow> v)"
  by (simp add: inventory_value_def)

lemma compare_inventory_keys:
  "{k. inventory_value expected k \<noteq> inventory_value observed k} =
   set (filter (\<lambda>key. inventory_value expected key \<noteq> inventory_value observed key) (sort_func strcmp (remdups (map fst expected @ map fst observed))))"
  by (force simp: inventory_value_def gget_def map_of_eq_None_iff split: option.splits dest: map_of_SomeD)

end
