(* ===== verification/Chain_Honest.thy ===== *)
theory Chain_Honest
  imports Chain_Selected Selection_Types
begin

text \<open>The words of an encoded proof, and the receipt of an honest selection: calldata and logs decode to the proof.\<close>

text \<open>
  The two ends of a selection proof: what the selection package encodes and signs (\<open>encodeProof\<close>), the chain
  package decodes from the calldata (\<open>decodeSelectionInput\<close>).
\<close>

text \<open>The words of a concatenation.\<close>

lemma word_at_concat:
  "list_all (\<lambda>w. length w = 32) ws \<Longrightarrow> i < length ws \<Longrightarrow> take 32 (drop (i * 32) (concat ws @ rest)) = ws ! i"
proof (induction ws arbitrary: i)
  case (Cons w ws)
  then show ?case by (cases i) (simp_all add: add.commute)
qed simp

lemma length_concat_words: "list_all (\<lambda>w. length w = 32) ws \<Longrightarrow> length (concat ws) = 32 * length ws"
  by (induction ws) auto

text \<open>The calldata of \<open>selectAgent\<close>: the selector, the proof, the offset of the signature and the rest.\<close>

definition select_calldata :: "string \<Rightarrow> string \<Rightarrow> string \<Rightarrow> string" where
  "select_calldata selector payload rest = selector @ hex_encode (payload @ uint_word (17 * 32) @ rest)"

text \<open>\<open>bytes32Word\<close> accepts upper-case digits; the decoder prints lower case.\<close>

definition lower_proof :: "selection_proof \<Rightarrow> selection_proof" where
  "lower_proof p = p\<lparr>pf_TaskID := to_lower (pf_TaskID p), pf_AssignmentID := to_lower (pf_AssignmentID p),
     pf_OverviewID := to_lower (pf_OverviewID p), pf_AllocationID := to_lower (pf_AllocationID p), pf_QuoteHash := to_lower (pf_QuoteHash p),
     pf_TaskSpecHash := to_lower (pf_TaskSpecHash p), pf_PolicyHash := to_lower (pf_PolicyHash p), pf_Nonce := to_lower (pf_Nonce p)\<rparr>"

lemma uint64_number_word [simp]: "uint64_number (uint64_word n) = n"
proof -
  have "unat n < 2 ^ 64" using unsigned_less [of n] by simp
  then show ?thesis by (simp add: uint64_number_def uint64_word_value)
qed

lemma word_address_word: "length w = 32 \<Longrightarrow> word_address w = ''0x'' @ hex_encode (drop 12 w)"
  by (simp add: word_address_def)

lemma decode_calldata:
  assumes enc: "encode_proof p = Inr payload" and sel: "length (dv_selector D) = 10" "to_lower (dv_selector D) = dv_selector D"
    and pos: "pf_MatchRevision p \<noteq> 0" "pf_PriceVersion p \<noteq> 0" "pf_Deadline p \<noteq> 0"
  shows "decode_selection_input D (select_calldata (dv_selector D) payload rest) = Inr (lower_proof p)"
proof -
  from enc obtain ws where ws: "proof_words p = map Inr ws" "payload = concat ws"
    by (auto simp: encode_proof_def rbind_Inr_iff collect_words_Inr)
  have len: "length ws = 16" using arg_cong [OF ws(1), of length] by (simp add: proof_words_def)
  have at: "proof_words p ! i = Inr (ws ! i)" if "i < 16" for i using ws(1) len that by simp
  have b: "bytes32_word (pf_TaskID p) = Inr (ws ! 0)" "bytes32_word (pf_AssignmentID p) = Inr (ws ! 1)"
    "address_word (pf_AgentController p) = Inr (ws ! 2)" "address_word (pf_Payout p) = Inr (ws ! 3)"
    "bytes32_word (pf_OverviewID p) = Inr (ws ! 4)" "bytes32_word (pf_AllocationID p) = Inr (ws ! 5)"
    "bytes32_word (pf_QuoteHash p) = Inr (ws ! 6)" "bytes32_word (pf_TaskSpecHash p) = Inr (ws ! 7)"
    "ws ! 8 = uint64_word (pf_MatchRevision p)" "ws ! 9 = uint64_word (pf_PriceVersion p)"
    "price_word (pf_OverviewPrice p) = Inr (ws ! 10)" "price_word (pf_FormalGrossPrice p) = Inr (ws ! 11)"
    "price_word (pf_OverviewCredit p) = Inr (ws ! 12)" "bytes32_word (pf_PolicyHash p) = Inr (ws ! 13)"
    "bytes32_word (pf_Nonce p) = Inr (ws ! 14)" "ws ! 15 = uint64_word (pf_Deadline p)"
    using at [of 0] at [of 1] at [of 2] at [of 3] at [of 4] at [of 5] at [of 6] at [of 7] at [of 8] at [of 9] at [of 10] at [of 11]
      at [of 12] at [of 13] at [of 14] at [of 15] by (simp_all add: proof_words_def)
  have "list_all (\<lambda>x. \<forall>w. x = Inr w \<longrightarrow> length w = 32) (proof_words p)"
    by (auto simp: proof_words_def uint64_word_def dest: bytes32_word_Inr address_word_Inr price_word_Inr)
  then have all: "list_all (\<lambda>w. length w = 32) ws" by (simp add: ws(1) list_all_iff)
  let ?raw = "concat (ws @ [uint_word (17 * 32)]) @ rest"
  have all': "list_all (\<lambda>w. length w = 32) (ws @ [uint_word (17 * 32)])" using all by simp
  have word: "take 32 (drop (i * 32) ?raw) = (ws @ [uint_word (17 * 32)]) ! i" if "i < 17" for i
    by (rule word_at_concat [OF all']) (use that len in simp)
  let ?in = "select_calldata (dv_selector D) payload rest"
  have input: "to_lower ?in = dv_selector D @ hex_encode ?raw" using sel by (simp add: select_calldata_def ws(2))
  have raw: "hex_decode (drop 10 (to_lower ?in)) = Some ?raw" unfolding input using sel(1) by simp
  have pre: "has_prefix (to_lower ?in) (dv_selector D)" unfolding input by (simp add: has_prefix_def)
  have long: "\<not> length ?raw < 17 * 32" using length_concat_words [OF all'] len by simp
  have w: "take 32 (drop (0 * 32) ?raw) = ws ! 0" "take 32 (drop (1 * 32) ?raw) = ws ! 1" "take 32 (drop (2 * 32) ?raw) = ws ! 2"
    "take 32 (drop (3 * 32) ?raw) = ws ! 3" "take 32 (drop (4 * 32) ?raw) = ws ! 4" "take 32 (drop (5 * 32) ?raw) = ws ! 5"
    "take 32 (drop (6 * 32) ?raw) = ws ! 6" "take 32 (drop (7 * 32) ?raw) = ws ! 7" "take 32 (drop (8 * 32) ?raw) = ws ! 8"
    "take 32 (drop (9 * 32) ?raw) = ws ! 9" "take 32 (drop (10 * 32) ?raw) = ws ! 10" "take 32 (drop (11 * 32) ?raw) = ws ! 11"
    "take 32 (drop (12 * 32) ?raw) = ws ! 12" "take 32 (drop (13 * 32) ?raw) = ws ! 13" "take 32 (drop (14 * 32) ?raw) = ws ! 14"
    "take 32 (drop (15 * 32) ?raw) = ws ! 15" "take 32 (drop (16 * 32) ?raw) = uint_word (17 * 32)"
    by (subst word; simp add: nth_append len)+
  have off: "be_value (uint_word (17 * 32)) = 17 * 32" by (rule be_value_uint_word) simp
  have hw: "hash_word (ws ! 0) = to_lower (pf_TaskID p)" "hash_word (ws ! 1) = to_lower (pf_AssignmentID p)"
    "hash_word (ws ! 4) = to_lower (pf_OverviewID p)" "hash_word (ws ! 5) = to_lower (pf_AllocationID p)"
    "hash_word (ws ! 6) = to_lower (pf_QuoteHash p)" "hash_word (ws ! 7) = to_lower (pf_TaskSpecHash p)"
    "hash_word (ws ! 13) = to_lower (pf_PolicyHash p)" "hash_word (ws ! 14) = to_lower (pf_Nonce p)"
    using b(1,2,5,6,7,8,14,15) [THEN bytes32_word_Inr] by (simp_all add: hash_word_def)
  have aw: "word_address (ws ! 2) = pf_AgentController p" "word_address (ws ! 3) = pf_Payout p"
    using address_word_Inr [OF b(3)] address_word_Inr [OF b(4)] by (simp_all add: word_address_word)
  have nw: "word_number (ws ! 10) = pf_OverviewPrice p" "word_number (ws ! 11) = pf_FormalGrossPrice p" "word_number (ws ! 12) = pf_OverviewCredit p"
    using price_word_Inr [OF b(11)] price_word_Inr [OF b(12)] price_word_Inr [OF b(13)] by (simp_all add: word_number_def)
  show ?thesis
    unfolding decode_selection_input_def Let_def raw option.case
    using pre long pos by (simp only: not_not if_True if_False simp_thms w off hw aw nw b(9,10,16) uint64_number_word)
      (simp add: lower_proof_def)
qed

text \<open>
  The receipt of a successful \<open>selectAgent\<close> call: the calldata of a signed proof and the two logs the escrow
  contract emits for it (\<open>contracts/escrow/src/TaskEscrow.sol\<close>), decoded.
\<close>

definition event_names :: "string list" where
  "event_names = [''TaskCreated'', ''SelectionConfirmed'', ''WorkNonceAdvanced'', ''FundsReleased'', ''FundsRefunded'', ''EarningsAccrued'',
     ''EarningsWithdrawn'', ''YieldEligibilityChanged'', ''DisputeOpened'', ''DisputeResolved'', ''DisputeFrozen'', ''DisputeAllocationFinalized'']"

text \<open>What the generated bindings provide: lower-case identifiers, all different, and a selector of four bytes.\<close>

definition bindings_ok :: "decoder_env \<Rightarrow> bool" where
  "bindings_ok D \<longleftrightarrow> inj_on (dv_event_id D) (set event_names) \<and> (\<forall>n \<in> set event_names. to_lower (dv_event_id D n) = dv_event_id D n) \<and>
     length (dv_selector D) = 10 \<and> to_lower (dv_selector D) = dv_selector D"

definition the_word :: "selection_error + string \<Rightarrow> string" where
  "the_word w = (case w of Inl _ \<Rightarrow> [] | Inr x \<Rightarrow> x)"

definition proof_payable :: "selection_proof \<Rightarrow> int" where
  "proof_payable p = money_int (pf_FormalGrossPrice p) - money_int (pf_OverviewCredit p)"

definition words_data :: "string list \<Rightarrow> string" where
  "words_data ws = ''0x'' @ hex_encode (concat ws)"

definition selection_log :: "decoder_env \<Rightarrow> scope \<Rightarrow> uint64 \<Rightarrow> nat \<Rightarrow> selection_proof \<Rightarrow> chain_log" where
  "selection_log D s n excess p =
     \<lparr>lg_Index = n, lg_Address = so_Contract s,
      lg_Topics = [dv_event_id D ''SelectionConfirmed'', pf_TaskID p, pf_AssignmentID p, hex32 (the_word (address_word (pf_AgentController p)))],
      lg_Data = words_data [the_word (address_word (pf_Payout p)), the_word (bytes32_word (pf_OverviewID p)), the_word (bytes32_word (pf_AllocationID p)),
        the_word (price_word (pf_FormalGrossPrice p)), the_word (price_word (pf_OverviewCredit p)), uint_word (nat (proof_payable p)),
        uint_word excess, uint_word 1]\<rparr>"

definition yield_log :: "decoder_env \<Rightarrow> scope \<Rightarrow> uint64 \<Rightarrow> selection_proof \<Rightarrow> chain_log" where
  "yield_log D s n p =
     \<lparr>lg_Index = n, lg_Address = so_Contract s, lg_Topics = [dv_event_id D ''YieldEligibilityChanged'', pf_TaskID p],
      lg_Data = words_data [uint_word (nat (proof_payable p)), uint_word 1]\<rparr>"

lemma event_kind:
  assumes "bindings_ok D"
  shows "gget (event_signatures D) (to_lower (dv_event_id D ''SelectionConfirmed'')) = Some EventSelection"
    "gget (event_signatures D) (to_lower (dv_event_id D ''YieldEligibilityChanged'')) = Some EventYield"
proof -
  have eq: "dv_event_id D a = dv_event_id D b \<longleftrightarrow> a = b" if "a \<in> set event_names" "b \<in> set event_names" for a b
    using assms that by (auto simp: bindings_ok_def inj_on_eq_iff)
  have low: "to_lower (dv_event_id D a) = dv_event_id D a" if "a \<in> set event_names" for a
    using assms that by (simp add: bindings_ok_def)
  show "gget (event_signatures D) (to_lower (dv_event_id D ''SelectionConfirmed'')) = Some EventSelection"
    "gget (event_signatures D) (to_lower (dv_event_id D ''YieldEligibilityChanged'')) = Some EventYield"
    by (simp_all add: low event_signatures_def eq event_names_def)
qed

lemma chunks_concat: "list_all (\<lambda>w. length w = 32) ws \<Longrightarrow> chunks (length ws) (concat ws) = ws"
  by (induction ws) auto

lemma data_words_concat: "list_all (\<lambda>w. length w = 32) ws \<Longrightarrow> data_words (words_data ws) = Inr ws"
  by (simp add: data_words_def words_data_def has_prefix_def length_concat_words chunks_concat)

lemma address_topic_word: "length w = 32 \<Longrightarrow> address_topic (hex32 w) = word_address w"
  by (simp add: address_topic_def trim_prefix_def has_prefix_def hex32_def)

lemma hash_topic_word: "bytes32_word v = Inr w \<Longrightarrow> to_lower v = v \<Longrightarrow> hash_topic v = v"
  by (auto simp: hash_topic_def valid_hash_def valid_hex_def bytes32_word_def to_lower_def drop_map [symmetric] split: if_splits option.splits)

lemma decode_logs_filter:
  "decode_logs D s b t p ls result k = decode_logs D s b t p (filter (\<lambda>l. to_lower (lg_Address l) = so_Contract s) ls) result k"
  by (induction ls arbitrary: result k) (auto split: option.splits intro: rbind_cong)

lemma decode_transactions_filter:
  "decode_transactions D s b ts result = decode_transactions D s b (filter (\<lambda>t. to_lower (tr_To t) = so_Contract s) ts) result"
  by (induction ts arbitrary: result) (auto simp: rbind_def split: sum.splits)

section \<open>The two logs\<close>

text \<open>A proof the signer encodes, in lower case, whose credit does not exceed its price.\<close>

definition honest_proof :: "selection_proof \<Rightarrow> bool" where
  "honest_proof p \<longleftrightarrow> (\<exists>payload. encode_proof p = Inr payload) \<and> lower_proof p = p \<and> pf_MatchRevision p \<noteq> 0 \<and> pf_PriceVersion p \<noteq> 0 \<and>
     pf_Deadline p \<noteq> 0 \<and> 0 \<le> proof_payable p"

lemma honest_words:
  assumes "honest_proof p"
  obtains tw aw cw pw ow lw gw kw where "bytes32_word (pf_TaskID p) = Inr tw" "bytes32_word (pf_AssignmentID p) = Inr aw"
    "address_word (pf_AgentController p) = Inr cw" "address_word (pf_Payout p) = Inr pw" "bytes32_word (pf_OverviewID p) = Inr ow"
    "bytes32_word (pf_AllocationID p) = Inr lw" "price_word (pf_FormalGrossPrice p) = Inr gw" "price_word (pf_OverviewCredit p) = Inr kw"
  using assms by (auto simp: honest_proof_def encode_proof_def rbind_Inr_iff collect_words_Inr proof_words_def Cons_eq_map_conv)

lemma honest_lower:
  "honest_proof p \<Longrightarrow> to_lower (pf_TaskID p) = pf_TaskID p \<and> to_lower (pf_AssignmentID p) = pf_AssignmentID p \<and>
   to_lower (pf_OverviewID p) = pf_OverviewID p \<and> to_lower (pf_AllocationID p) = pf_AllocationID p"
  by (cases p) (simp add: honest_proof_def lower_proof_def)

lemma price_word_money: "price_word v = Inr w \<Longrightarrow> bigint_parse v = Some (money_int v) \<and> 0 \<le> money_int v \<and> money_int v < 2 ^ 256"
  by (auto simp: price_word_def money_int_def split: if_splits option.splits)

definition selection_of :: "decoder_env \<Rightarrow> block \<Rightarrow> transaction \<Rightarrow> uint64 \<Rightarrow> selection_proof \<Rightarrow> chain_result" where
  "selection_of D b t n p =
     \<lparr>hr_Status = ChainConfirmed, hr_TransactionHash = tr_Hash t, hr_BlockNumber = bl_Number b, hr_LogIndex = n, hr_Proof = p,
      hr_FormalPayable = bigint_string (proof_payable p), hr_WorkNonce = 1, hr_FailureReasonCode = []\<rparr>"

lemma decode_selection_log:
  assumes p: "honest_proof p" and ex: "excess < 2 ^ 256"
  shows "\<exists>e. decode_event D b t (selection_log D s n excess p) EventSelection (Some p) = Inr e \<and>
    ve_Selection e = Some (selection_of D b t n p) \<and> ve_LogIndex e = n \<and> ve_TransactionHash e = tr_Hash t"
proof -
  from honest_words [OF p] obtain tw aw cw pw ow lw gw kw where w: "bytes32_word (pf_TaskID p) = Inr tw" "bytes32_word (pf_AssignmentID p) = Inr aw"
    "address_word (pf_AgentController p) = Inr cw" "address_word (pf_Payout p) = Inr pw" "bytes32_word (pf_OverviewID p) = Inr ow"
    "bytes32_word (pf_AllocationID p) = Inr lw" "price_word (pf_FormalGrossPrice p) = Inr gw" "price_word (pf_OverviewCredit p) = Inr kw" .
  note low = honest_lower [OF p]
  let ?q = "uint_word (nat (proof_payable p))"
  let ?ws = "[pw, ow, lw, gw, kw, ?q, uint_word excess, uint_word (Suc 0)]"
  note lens = w(1,2,5,6) [THEN bytes32_word_Inr] w(3,4) [THEN address_word_Inr] w(7,8) [THEN price_word_Inr]
  have dw: "data_words (lg_Data (selection_log D s n excess p)) = Inr ?ws"
    unfolding selection_log_def chain_log.select_convs the_word_def w sum.case One_nat_def by (rule data_words_concat) (simp add: lens)
  have pay: "0 \<le> proof_payable p" "proof_payable p < 2 ^ 256" using p price_word_money [OF w(7)] price_word_money [OF w(8)]
    by (auto simp: honest_proof_def proof_payable_def)
  then have qn: "be_value ?q = nat (proof_payable p)" by (intro be_value_uint_word) (simp add: nat_less_iff)
  have one: "uint64_number (uint_word (Suc 0)) = 1" using uint64_number_word [of 1, unfolded uint64_word_def] by simp
  have sub: "chain_subtract (pf_FormalGrossPrice p) (pf_OverviewCredit p) = word_number ?q"
    using price_word_money [OF w(7)] price_word_money [OF w(8)] pay(1) qn by (simp add: chain_subtract_def word_number_def proof_payable_def)
  have num: "word_number ?q = bigint_string (proof_payable p)" using qn pay(1) by (simp add: word_number_def)
  have top: "hash_topic (pf_TaskID p) = pf_TaskID p" "hash_topic (pf_AssignmentID p) = pf_AssignmentID p"
    "address_topic (hex32 cw) = pf_AgentController p" "word_address pw = pf_Payout p" "hash_word ow = pf_OverviewID p" "hash_word lw = pf_AllocationID p"
    "word_number gw = pf_FormalGrossPrice p" "word_number kw = pf_OverviewCredit p"
    using hash_topic_word [OF w(1)] hash_topic_word [OF w(2)] low lens by (simp_all add: address_topic_word word_address_word hash_word_def word_number_def)
  let ?l = "selection_log D s n excess p"
  have tops: "lg_Topics ?l = [dv_event_id D ''SelectionConfirmed'', pf_TaskID p, pf_AssignmentID p, hex32 cw]" "lg_Index ?l = n"
    by (simp_all add: selection_log_def the_word_def w)
  let ?v = "base_event D b t ?l EventSelection"
  have ok: "\<not> selection_mismatch (?v\<lparr>ve_TaskID := pf_TaskID p, ve_AssignmentID := pf_AssignmentID p\<rparr>) (pf_AgentController p) ?ws p"
    by (simp add: selection_mismatch_def top sub one)
  have "\<exists>e. decode_selection_event b t ?l ?ws (Some p) ?v = Inr e \<and> ve_Selection e = Some (selection_of D b t n p) \<and> ve_LogIndex e = n \<and>
      ve_TransactionHash e = tr_Hash t"
    unfolding decode_selection_event_def option.case Let_def tops
    by (simp add: top ok one num selection_of_def) (simp add: base_event_def tops)
  then show ?thesis unfolding decode_event_def dw rbind_simps Let_def by simp
qed

lemma decode_yield_log:
  assumes p: "honest_proof p"
  shows "\<exists>e. decode_event D b t (yield_log D s n p) EventYield q = Inr e \<and> ve_Selection e = None \<and> ve_LogIndex e = n"
proof -
  let ?ws = "[uint_word (nat (proof_payable p)), uint_word 1]"
  have dw: "data_words (lg_Data (yield_log D s n p)) = Inr ?ws"
    unfolding yield_log_def chain_log.select_convs by (rule data_words_concat) simp
  have one: "word_number (uint_word (Suc 0)) = ''1''" using char_of_char [of "CHR ''1''"] by (simp add: word_number_def be_value_uint_word bigint_string_def nat_string.simps)
  show ?thesis unfolding decode_event_def dw rbind_simps Let_def by (simp add: one) (simp add: yield_log_def base_event_def)
qed

section \<open>The block\<close>

text \<open>The receipt: a successful call whose escrow logs are the two the contract emits, in this order.\<close>

definition honest_receipt :: "decoder_env \<Rightarrow> scope \<Rightarrow> transaction \<Rightarrow> selection_proof \<Rightarrow> uint64 \<Rightarrow> bool" where
  "honest_receipt D s t p n \<longleftrightarrow> to_lower (tr_To t) = so_Contract s \<and> tr_Status t = TxSucceeded \<and>
     (\<exists>payload rest. encode_proof p = Inr payload \<and> tr_Input t = select_calldata (dv_selector D) payload rest) \<and>
     (\<exists>m excess. excess < 2 ^ 256 \<and> n < m \<and>
       filter (\<lambda>l. to_lower (lg_Address l) = so_Contract s) (tr_Logs t) = [selection_log D s n excess p, yield_log D s m p])"

text \<open>The call adds its two events to those of the transactions before it.\<close>

lemma decode_honest_transaction:
  assumes D: "bindings_ok D" and s: "to_lower (so_Contract s) = so_Contract s" and p: "honest_proof p" and t: "honest_receipt D s t p n"
  obtains e y where "transaction_proof D t = Inr (Some p)" "has_prefix (to_lower (tr_Input t)) (dv_selector D)"
    "\<And>result. decode_logs D s b t (Some p) (tr_Logs t) result 0 = Inr (result @ [e, y], 1)"
    "ve_Selection e = Some (selection_of D b t n p)" "ve_TransactionHash e = tr_Hash t" "ve_Selection y = None" "ve_LogIndex e < ve_LogIndex y"
proof -
  from t obtain payload rest m excess where r: "encode_proof p = Inr payload"
    "tr_Input t = select_calldata (dv_selector D) payload rest" "excess < 2 ^ 256" "n < m"
    "filter (\<lambda>l. to_lower (lg_Address l) = so_Contract s) (tr_Logs t) = [selection_log D s n excess p, yield_log D s m p]"
    unfolding honest_receipt_def by blast
  have sel: "length (dv_selector D) = 10" "to_lower (dv_selector D) = dv_selector D" using D by (simp_all add: bindings_ok_def)
  have dec: "decode_selection_input D (tr_Input t) = Inr p"
    unfolding r(2) using decode_calldata [OF r(1) sel] p by (simp add: honest_proof_def)
  have call: "has_prefix (to_lower (tr_Input t)) (dv_selector D)" by (simp add: r(2) select_calldata_def sel has_prefix_def)
  have tp: "transaction_proof D t = Inr (Some p)" by (simp add: transaction_proof_def call dec)
  from decode_selection_log [OF p r(3)] obtain e where e: "decode_event D b t (selection_log D s n excess p) EventSelection (Some p) = Inr e"
    "ve_Selection e = Some (selection_of D b t n p)" "ve_LogIndex e = n" "ve_TransactionHash e = tr_Hash t" by blast
  from decode_yield_log [OF p] obtain y where y: "decode_event D b t (yield_log D s m p) EventYield (Some p) = Inr y"
    "ve_Selection y = None" "ve_LogIndex y = m" by blast
  have at: "lg_Address (selection_log D s n excess p) = so_Contract s" "lg_Address (yield_log D s m p) = so_Contract s"
    "lg_Topics (selection_log D s n excess p) \<noteq> []" "lg_Topics (yield_log D s m p) \<noteq> []"
    "hd (lg_Topics (selection_log D s n excess p)) = dv_event_id D ''SelectionConfirmed''"
    "hd (lg_Topics (yield_log D s m p)) = dv_event_id D ''YieldEligibilityChanged''"
    by (simp_all add: selection_log_def yield_log_def)
  have "decode_logs D s b t (Some p) (tr_Logs t) result 0 = Inr (result @ [e, y], 1)" for result
    unfolding decode_logs_filter [of _ _ _ _ _ "tr_Logs t"] r(5)
    by (simp add: at s event_kind [OF D] e(1) y(1))
  then show thesis using that tp call e(2-4) y(2,3) r(4) by metis
qed

lemma decode_honest_block:
  assumes D: "bindings_ok D" and s: "to_lower (so_Contract s) = so_Contract s" and p: "honest_proof p" and t: "honest_receipt D s t p n"
    and b: "filter (\<lambda>t. to_lower (tr_To t) = so_Contract s) (bl_Transactions b) = [t]"
  shows "\<exists>e y. decode_block D s b = Inr [e, y] \<and> ve_Selection e = Some (selection_of D b t n p) \<and> ve_TransactionHash e = tr_Hash t"
proof -
  from t have r: "to_lower (tr_To t) = so_Contract s" "tr_Status t = TxSucceeded" unfolding honest_receipt_def by blast+
  from decode_honest_transaction [OF D s p t, of b] obtain e y where d: "transaction_proof D t = Inr (Some p)"
    "has_prefix (to_lower (tr_Input t)) (dv_selector D)" "\<And>result. decode_logs D s b t (Some p) (tr_Logs t) result 0 = Inr (result @ [e, y], 1)"
    "ve_Selection e = Some (selection_of D b t n p)" "ve_TransactionHash e = tr_Hash t" "ve_LogIndex e < ve_LogIndex y" by blast
  have "decode_transactions D s b (bl_Transactions b) [] = Inr [e, y]"
    unfolding decode_transactions_filter [of _ _ _ "bl_Transactions b"] b by (simp add: r d(1-3))
  moreover have "sort_func event_cmp [e, y] = [e, y]" using d(6) by (simp add: event_cmp_def)
  ultimately have "decode_block D s b = Inr [e, y]" by (simp add: decode_block_def)
  then show ?thesis using d(4,5) by blast
qed

section \<open>A block with other calls\<close>

text \<open>Every event of a decoded block was added by one of its escrow transactions, and every escrow transaction added its own.\<close>

definition adds_event :: "decoder_env \<Rightarrow> scope \<Rightarrow> block \<Rightarrow> transaction \<Rightarrow> event \<Rightarrow> bool" where
  "adds_event D s b t v \<longleftrightarrow> to_lower (tr_To t) = so_Contract s \<and> (\<exists>p before later k. transaction_proof D t = Inr p \<and>
     decode_logs D s b t p (tr_Logs t) before 0 = Inr (later, k) \<and> v \<in> set later \<and> v \<notin> set before)"

lemma decode_logs_grows: "decode_logs D s b t p ls result k = Inr (result', k') \<Longrightarrow> set result \<subseteq> set result'"
proof (induction ls arbitrary: result k)
  case (Cons l ls)
  then show ?case by (fastforce simp: res_simps split: if_splits option.splits)
qed simp

lemma decode_transactions_grows: "decode_transactions D s b ts result = Inr evs \<Longrightarrow> set result \<subseteq> set evs"
proof (induction ts arbitrary: result)
  case (Cons t ts)
  then show ?case by (fastforce simp: res_simps dest: decode_logs_grows split: if_splits)
qed simp

lemma decode_transactions_adds:
  "decode_transactions D s b ts result = Inr evs \<Longrightarrow> v \<in> set evs \<Longrightarrow> v \<in> set result \<or> (\<exists>t \<in> set ts. adds_event D s b t v)"
proof (induction ts arbitrary: result)
  case (Cons t ts)
  show ?case
  proof (cases "to_lower (tr_To t) \<noteq> so_Contract s")
    case True
    then show ?thesis using Cons by auto
  next
    case False
    with Cons(2) obtain p result' k where p: "transaction_proof D t = Inr p"
      "decode_logs D s b t p (tr_Logs t) result 0 = Inr (result', k)" "decode_transactions D s b ts result' = Inr evs"
      by (auto simp: res_simps split: if_splits)
    from Cons(1) [OF p(3) Cons(3)] show ?thesis using p(1,2) False by (auto simp: adds_event_def)
  qed
qed simp

lemma decode_transactions_all:
  "decode_transactions D s b ts result = Inr evs \<Longrightarrow> t \<in> set ts \<Longrightarrow> to_lower (tr_To t) = so_Contract s \<Longrightarrow>
   \<exists>p before later k. transaction_proof D t = Inr p \<and> decode_logs D s b t p (tr_Logs t) before 0 = Inr (later, k) \<and> set later \<subseteq> set evs"
proof (induction ts arbitrary: result)
  case (Cons u ts)
  show ?case
  proof (cases "t = u")
    case True
    with Cons(2,4) obtain p result' k where p: "transaction_proof D t = Inr p"
      "decode_logs D s b t p (tr_Logs t) result 0 = Inr (result', k)" "decode_transactions D s b ts result' = Inr evs"
      by (auto simp: res_simps split: if_splits)
    with decode_transactions_grows [OF p(3)] show ?thesis by blast
  next
    case False
    then have "t \<in> set ts" using Cons(3) by simp
    moreover from Cons(2) obtain result' where "decode_transactions D s b ts result' = Inr evs"
      by (auto simp: res_simps split: if_splits)
    ultimately show ?thesis using Cons(1,4) by blast
  qed
qed simp

text \<open>
  An honest call in a decoded block, whatever the other transactions of the block: the first selection event with the
  hash of the call is its own, when no other transaction of the block has this hash.
\<close>

lemma decode_honest_among:
  assumes D: "bindings_ok D" and s: "to_lower (so_Contract s) = so_Contract s" and p: "honest_proof p" and t: "honest_receipt D s t p n"
    and b: "decode_block D s b = Inr evs" "t \<in> set (bl_Transactions b)" "\<forall>u \<in> set (bl_Transactions b). tr_Hash u = tr_Hash t \<longrightarrow> u = t"
  shows "\<exists>v. List.find (\<lambda>v. ve_TransactionHash v = tr_Hash t \<and> ve_Selection v \<noteq> None) evs = Some v \<and> ve_Selection v = Some (selection_of D b t n p)"
proof -
  let ?P = "\<lambda>v. ve_TransactionHash v = tr_Hash t \<and> ve_Selection v \<noteq> None"
  from t have r: "to_lower (tr_To t) = so_Contract s" unfolding honest_receipt_def by blast
  from b(1) obtain result where dt: "decode_transactions D s b (bl_Transactions b) [] = Inr result" "evs = sort_func event_cmp result"
    by (auto simp: decode_block_def res_simps)
  from decode_honest_transaction [OF D s p t, of b] obtain e y where d: "transaction_proof D t = Inr (Some p)"
    "\<And>result. decode_logs D s b t (Some p) (tr_Logs t) result 0 = Inr (result @ [e, y], 1)"
    "ve_Selection e = Some (selection_of D b t n p)" "ve_TransactionHash e = tr_Hash t" "ve_Selection y = None" by blast
  from decode_transactions_all [OF dt(1) b(2) r] d(1,2) have "e \<in> set evs" by (auto simp: dt(2))
  then obtain v where v: "List.find ?P evs = Some v" using d(3,4) by (cases "List.find ?P evs") (auto simp: find_None_iff)
  then have v': "v \<in> set evs" "ve_TransactionHash v = tr_Hash t" "ve_Selection v \<noteq> None" by (auto dest: find_SomeD)
  from decode_transactions_adds [OF dt(1), of v] v'(1) obtain u where u: "u \<in> set (bl_Transactions b)" "adds_event D s b u v" by (auto simp: dt(2))
  then obtain q before later k where a: "transaction_proof D u = Inr q" "decode_logs D s b u q (tr_Logs u) before 0 = Inr (later, k)"
    "v \<in> set later" "v \<notin> set before" by (auto simp: adds_event_def)
  from decode_logs_selection [OF a(2)] a(3,4) have "ve_TransactionHash v = tr_Hash u" by blast
  with b(3) u(1) v'(2) have "u = t" by auto
  with a d(1,2) v'(3) d(5) have "v = e" by auto
  with v d(3) show ?thesis by simp
qed

end
