(* ===== verification/Selection_Service.thy ===== *)
theory Selection_Service
  imports Selection_Types
begin

text \<open>The reservations of the selection package and its service.\<close>

text \<open>
  The reservations (\<open>internal/selection/memory.go\<close>): the memory repository, one function per method. The clock of
  the repository and the clock of the service are one argument. Keys joined with a zero byte are the same strings
  as in the code.
\<close>

record sel_record =
  sr_reservation :: reservation
  sr_key :: string
  sr_requestHash :: string

record sel_repo =
  se_eligibility :: "(string, eligibility) gomap"
  se_records :: "(string, sel_record) gomap"
  se_requestIndex :: "(string, string) gomap"
  se_activeTasks :: "(string, string) gomap"
  se_assignments :: "(string, assignment) gomap"

definition new_sel_repository :: sel_repo where
  "new_sel_repository = \<lparr>se_eligibility = [], se_records = [], se_requestIndex = [], se_activeTasks = [], se_assignments = []\<rparr>"

abbreviation nul :: string where "nul \<equiv> [char_of (0 :: nat)]"

definition eligibility_key :: "string \<Rightarrow> string \<Rightarrow> string \<Rightarrow> string \<Rightarrow> string" where
  "eligibility_key publisherID taskID batchID slotID = publisherID @ nul @ taskID @ nul @ batchID @ nul @ slotID"

definition sel_request_key :: "string \<Rightarrow> string \<Rightarrow> string" where
  "sel_request_key publisherID key = publisherID @ nul @ key"

section \<open>Digests\<close>

definition sel_valid_digest :: "string \<Rightarrow> bool" where
  "sel_valid_digest v = (if length v \<noteq> 71 \<or> \<not> has_prefix v ''sha256:'' then False else hex_decode (drop 7 v) \<noteq> None)"

definition digest_to_bytes32 :: "string \<Rightarrow> string" where
  "digest_to_bytes32 v = (if \<not> sel_valid_digest v then [] else ''0x'' @ drop 7 v)"

section \<open>Eligibility\<close>

definition set_eligibility :: "string \<Rightarrow> eligibility \<Rightarrow> sel_repo \<Rightarrow> sel_repo" where
  "set_eligibility publisherID v r =
     r\<lparr>se_eligibility := gput (eligibility_key publisherID (el_TaskID v) (el_BatchID v) (el_SlotID v)) v (se_eligibility r)\<rparr>"

definition clear_eligibility :: "string \<Rightarrow> eligibility \<Rightarrow> sel_repo \<Rightarrow> sel_repo" where
  "clear_eligibility publisherID v r =
     r\<lparr>se_eligibility := gdel (eligibility_key publisherID (el_TaskID v) (el_BatchID v) (el_SlotID v)) (se_eligibility r)\<rparr>"

definition get_eligibility :: "string \<Rightarrow> string \<Rightarrow> string \<Rightarrow> string \<Rightarrow> sel_repo \<Rightarrow> selection_error + eligibility" where
  "get_eligibility publisherID taskID batchID slotID r =
     from_option SErrInvalidState (gget (se_eligibility r) (eligibility_key publisherID taskID batchID slotID))"

definition reservation_matches_eligibility :: "reservation \<Rightarrow> eligibility \<Rightarrow> bool" where
  "reservation_matches_eligibility v e \<longleftrightarrow>
     rv_TaskID v = el_TaskID e \<and> rv_BatchID v = el_BatchID e \<and> rv_SlotID v = el_SlotID e \<and> rv_SnapshotID v = el_SnapshotID e \<and>
     rv_AgentID v = el_AgentID e \<and> rv_ProviderID v = el_ProviderID e \<and> pf_AgentController (rv_Proof v) = el_AgentController e \<and>
     pf_Payout (rv_Proof v) = el_Payout e \<and> pf_MatchRevision (rv_Proof v) = el_MatchRevision e \<and>
     pf_PriceVersion (rv_Proof v) = el_PriceVersion e \<and> pf_OverviewPrice (rv_Proof v) = el_OverviewPrice e \<and>
     pf_FormalGrossPrice (rv_Proof v) = el_FormalGrossPrice e \<and> pf_OverviewCredit (rv_Proof v) = el_OverviewPrice e \<and>
     pf_QuoteHash (rv_Proof v) = digest_to_bytes32 (el_QuoteHash e) \<and> pf_TaskSpecHash (rv_Proof v) = digest_to_bytes32 (el_TaskSpecHash e) \<and>
     pf_PolicyHash (rv_Proof v) = digest_to_bytes32 (el_PolicyHash e) \<and> pf_AllocationID (rv_Proof v) = digest_to_bytes32 (el_AllocationID e) \<and>
     pf_OverviewID (rv_Proof v) = digest_to_bytes32 (el_SlotID e)"

section \<open>Reservations\<close>

text \<open>A missing key of a Go map reads as the zero value.\<close>

definition record_at :: "sel_repo \<Rightarrow> string \<Rightarrow> sel_record" where
  "record_at r i = (case gget (se_records r) i of None \<Rightarrow> \<lparr>sr_reservation = zero_reservation, sr_key = [], sr_requestHash = []\<rparr> | Some x \<Rightarrow> x)"

definition sel_replay :: "string \<Rightarrow> string \<Rightarrow> string \<Rightarrow> sel_repo \<Rightarrow> selection_error + reservation option" where
  "sel_replay publisherID key requestHash r =
     (case gget (se_requestIndex r) (sel_request_key publisherID key) of
        None \<Rightarrow> Inr None
      | Some i \<Rightarrow> if sr_requestHash (record_at r i) \<noteq> requestHash then Inl SErrIdempotencyConflict
                  else Inr (Some (sr_reservation (record_at r i))))"

definition sel_prepare :: "sel_mutation \<Rightarrow> reservation \<Rightarrow> sel_repo \<Rightarrow> sel_repo \<times> (selection_error + reservation \<times> bool)" where
  "sel_prepare m draft r =
     (case gget (se_eligibility r) (eligibility_key (sm_PublisherID m) (rv_TaskID draft) (rv_BatchID draft) (rv_SlotID draft)) of
        None \<Rightarrow> (r, Inl SErrInvalidState)
      | Some e \<Rightarrow>
          let key = sel_request_key (sm_PublisherID m) (sm_IdempotencyKey m) in
          (case gget (se_requestIndex r) key of
             Some i \<Rightarrow> if sr_requestHash (record_at r i) \<noteq> sm_RequestHash m then (r, Inl SErrIdempotencyConflict)
                       else (r, Inr (sr_reservation (record_at r i), True))
           | None \<Rightarrow>
               if \<not> reservation_matches_eligibility draft e then (r, Inl SErrContentConflict)
               else if gget (se_activeTasks r) (rv_TaskID draft) \<noteq> None then (r, Inl SErrInvalidState)
               else if gget (se_records r) (rv_ID draft) \<noteq> None then (r, Inl SErrContentConflict)
               else
                 let v = draft\<lparr>rv_CreatedAt := sm_Now m, rv_UpdatedAt := sm_Now m, rv_Status := StatusReserved\<rparr> in
                 (r\<lparr>se_records := gput (rv_ID v) \<lparr>sr_reservation = v, sr_key = sm_IdempotencyKey m, sr_requestHash = sm_RequestHash m\<rparr> (se_records r),
                    se_requestIndex := gput key (rv_ID v) (se_requestIndex r),
                    se_activeTasks := gput (rv_TaskID v) (rv_ID v) (se_activeTasks r)\<rparr>,
                  Inr (v, False))))"

definition sel_get :: "string \<Rightarrow> string \<Rightarrow> sel_repo \<Rightarrow> selection_error + reservation" where
  "sel_get publisherID i r =
     (case gget (se_records r) i of
        None \<Rightarrow> Inl SErrNotFound
      | Some x \<Rightarrow> if rv_PublisherID (sr_reservation x) \<noteq> publisherID then Inl SErrNotFound else Inr (sr_reservation x))"

definition put_reservation :: "string \<Rightarrow> sel_record \<Rightarrow> reservation \<Rightarrow> sel_repo \<Rightarrow> sel_repo" where
  "put_reservation i x v r = r\<lparr>se_records := gput i (x\<lparr>sr_reservation := v\<rparr>) (se_records r)\<rparr>"

definition record_submitted :: "gotime \<Rightarrow> string \<Rightarrow> string \<Rightarrow> sel_repo \<Rightarrow> sel_repo \<times> (selection_error + reservation)" where
  "record_submitted now i transactionHash r =
     (case gget (se_records r) i of
        None \<Rightarrow> (r, Inl SErrNotFound)
      | Some x \<Rightarrow>
          let v = sr_reservation x in
          if rv_Status v = StatusSubmitted \<and> rv_TransactionHash v = transactionHash then (r, Inr v)
          else if rv_Status v \<noteq> StatusReserved \<or> rv_TransactionHash v \<noteq> [] \<and> rv_TransactionHash v \<noteq> transactionHash
          then (r, Inl SErrInvalidState)
          else
            let v' = v\<lparr>rv_Status := StatusSubmitted, rv_TransactionHash := transactionHash, rv_UpdatedAt := now\<rparr>
            in (put_reservation i x v' r, Inr v'))"

text \<open>\<open>int64(value.Proof.Deadline)\<close> of a \<open>uint64\<close>.\<close>

definition proof_deadline :: "selection_proof \<Rightarrow> gotime" where
  "proof_deadline p = unix_time (wrap64 (uint (pf_Deadline p)))"

definition sel_confirm :: "gotime \<Rightarrow> string \<Rightarrow> chain_result \<Rightarrow> sel_repo \<Rightarrow> sel_repo \<times> (selection_error + reservation \<times> assignment \<times> bool)" where
  "sel_confirm now i res r =
     (case gget (se_records r) i of
        None \<Rightarrow> (r, Inl SErrNotFound)
      | Some x \<Rightarrow>
          let v = sr_reservation x in
          if rv_Status v = StatusConfirmed then
            let a = (case gget (se_assignments r) (pf_AssignmentID (rv_Proof v)) of None \<Rightarrow> zero_assignment | Some a \<Rightarrow> a) in
            if as_TransactionHash a \<noteq> hr_TransactionHash res then (r, Inl SErrContentConflict) else (r, Inr (v, a, True))
          else if (rv_Status v \<noteq> StatusReserved \<and> rv_Status v \<noteq> StatusSubmitted) \<or>
                  rv_TransactionHash v \<noteq> [] \<and> rv_TransactionHash v \<noteq> hr_TransactionHash res \<or>
                  rv_Proof v \<noteq> hr_Proof res \<or> hr_FormalPayable res \<noteq> rv_FormalPayable v \<or> hr_WorkNonce res \<noteq> 1
          then (r, Inl SErrProofMismatch)
          else if now > proof_deadline (rv_Proof v) then (r, Inl SErrInvalidState)
          else if gget (se_assignments r) (pf_AssignmentID (rv_Proof v)) \<noteq> None then (r, Inl SErrContentConflict)
          else
            let a = \<lparr>as_ID = pf_AssignmentID (rv_Proof v), as_TaskID = rv_TaskID v, as_ReservationID = rv_ID v, as_AgentID = rv_AgentID v,
                      as_ProviderID = rv_ProviderID v, as_FormalPayable = rv_FormalPayable v, as_OverviewCredit = pf_OverviewCredit (rv_Proof v),
                      as_WorkNonce = 1, as_TransactionHash = hr_TransactionHash res, as_ConfirmedAt = now\<rparr>;
                v' = v\<lparr>rv_Status := StatusConfirmed, rv_TransactionHash := hr_TransactionHash res, rv_UpdatedAt := now\<rparr>
            in ((put_reservation i x v' r)\<lparr>se_assignments := gput (as_ID a) a (se_assignments r)\<rparr>, Inr (v', a, False)))"

definition sel_terminate :: "gotime \<Rightarrow> string \<Rightarrow> string \<Rightarrow> string \<Rightarrow> string \<Rightarrow> bool \<Rightarrow> sel_repo \<Rightarrow> sel_repo \<times> (selection_error + reservation \<times> bool)" where
  "sel_terminate now i transactionHash reason status requireExpiry r =
     (case gget (se_records r) i of
        None \<Rightarrow> (r, Inl SErrNotFound)
      | Some x \<Rightarrow>
          let v = sr_reservation x in
          if rv_Status v = status then (r, Inr (v, False))
          else if rv_Status v \<noteq> StatusReserved \<and> rv_Status v \<noteq> StatusSubmitted then (r, Inl SErrInvalidState)
          else if rv_TransactionHash v \<noteq> [] \<and> transactionHash \<noteq> [] \<and> rv_TransactionHash v \<noteq> transactionHash then (r, Inl SErrContentConflict)
          else if requireExpiry \<and> now < proof_deadline (rv_Proof v) then (r, Inl SErrInvalidState)
          else
            let v1 = v\<lparr>rv_Status := status, rv_FailureReasonCode := reason, rv_UpdatedAt := now\<rparr>;
                v' = (if transactionHash \<noteq> [] then v1\<lparr>rv_TransactionHash := transactionHash\<rparr> else v1)
            in ((put_reservation i x v' r)\<lparr>se_activeTasks := gdel (rv_TaskID v') (se_activeTasks r)\<rparr>, Inr (v', True)))"

definition sel_fail :: "gotime \<Rightarrow> string \<Rightarrow> string \<Rightarrow> string \<Rightarrow> sel_repo \<Rightarrow> sel_repo \<times> (selection_error + reservation \<times> bool)" where
  "sel_fail now i transactionHash reason r = sel_terminate now i transactionHash reason StatusFailed False r"

definition sel_expire :: "gotime \<Rightarrow> string \<Rightarrow> sel_repo \<Rightarrow> sel_repo \<times> (selection_error + reservation \<times> bool)" where
  "sel_expire now i r = sel_terminate now i [] ''reservation_expired'' StatusExpired True r"

text \<open>
  The selection service (\<open>internal/selection/service.go\<close>). The capacity gateway and the verifier of the chain
  are functions of the whole world, the repository and the rest, so other requests may run during a call to them.
  SHA-256 and the JSON encoding of a request are parameters. One call reads the clock once.
\<close>

record sel_config =
  sc_ChainID :: string
  sc_ContractAddress :: string
  sc_ReservationTTL :: duration

record 'w sel_world =
  sw_repo :: sel_repo
  sw_rest :: 'w

record 'w sel_peers =
  sp_sha :: "string \<Rightarrow> string"
  sp_json :: "string \<Rightarrow> reserve_request \<Rightarrow> string"
  sp_signer :: "selection_proof \<Rightarrow> selection_error + string \<times> string \<times> string"
  sp_reserve :: "string \<Rightarrow> string \<Rightarrow> duration \<Rightarrow> 'w sel_world \<Rightarrow> 'w sel_world \<times> (selection_error + capacity_lease)"
  sp_release :: "string \<Rightarrow> int \<Rightarrow> 'w sel_world \<Rightarrow> 'w sel_world \<times> selection_error option"
  sp_verify :: "string \<Rightarrow> 'w sel_world \<Rightarrow> 'w sel_world \<times> (selection_error + chain_result)"

text \<open>\<open>PendingChainVerifier\<close>, for a deployment without a projection.\<close>

definition pending_chain_verifier :: "string \<Rightarrow> 'w sel_world \<Rightarrow> 'w sel_world \<times> (selection_error + chain_result)" where
  "pending_chain_verifier h s = (s, Inl SErrDependencyPending)"

definition new_sel_service :: "sel_config \<Rightarrow> selection_error + sel_config" where
  "new_sel_service C =
     (if \<not> sel_valid_unsigned (sc_ChainID C) \<or> \<not> is_wallet_address (to_lower (sc_ContractAddress C)) \<or> sc_ReservationTTL C \<le> 0 \<or>
         sc_ReservationTTL C > hour_ns then Inl SErrInvalidInput
      else Inr (C\<lparr>sc_ContractAddress := to_lower (sc_ContractAddress C)\<rparr>))"

definition publisher_authorized :: "session \<Rightarrow> bool" where
  "publisher_authorized s \<longleftrightarrow> se_UserID s \<noteq> [] \<and> is_wallet_address (to_lower (se_Wallet s)) \<and> ''publisher'' \<in> set (se_Roles s)"

definition sel_stable_digest :: "(string \<Rightarrow> string) \<Rightarrow> string list \<Rightarrow> string" where
  "sel_stable_digest H parts = sha_string (H (concat (map (len_field 8) parts)))"

definition bytes32_id :: "(string \<Rightarrow> string) \<Rightarrow> string list \<Rightarrow> string" where
  "bytes32_id H parts = digest_to_bytes32 (sel_stable_digest H parts)"

definition task_chain_id :: "(string \<Rightarrow> string) \<Rightarrow> string \<Rightarrow> string" where
  "task_chain_id H taskID = (if blank taskID then [] else bytes32_id H [''task'', taskID])"

definition sel_subtract :: "string \<Rightarrow> string \<Rightarrow> string option" where
  "sel_subtract gross credit =
     (case (bigint_parse gross, bigint_parse credit) of
        (Some g, Some c) \<Rightarrow>
          if g < 0 \<or> c < 0 \<or> g < c \<or> bigint_string g \<noteq> gross \<or> bigint_string c \<noteq> credit then None else Some (bigint_string (g - c))
      | _ \<Rightarrow> None)"

definition valid_transaction_hash :: "string \<Rightarrow> bool" where
  "valid_transaction_hash v = (if length v \<noteq> 66 \<or> \<not> has_prefix v ''0x'' then False else hex_decode (drop 2 v) \<noteq> None)"

definition sel_stable_reason :: "string \<Rightarrow> string \<Rightarrow> string" where
  "sel_stable_reason v0 fallback =
     (let v = trim_space v0 in
      if v = [] \<or> length v > 100 then fallback
      else if list_all (\<lambda>c. c = CHR ''_'' \<or> c = CHR ''-'' \<or> is_lower c \<or> is_digit c) v then v else fallback)"

section \<open>Intents\<close>

text \<open>\<open>intent\<close>: the signature is only given while the proof can be submitted.\<close>

definition sel_intent :: "'w sel_peers \<Rightarrow> gotime \<Rightarrow> reservation \<Rightarrow> bool \<Rightarrow> selection_error + intent \<times> bool" where
  "sel_intent P now v replay =
     rbind (sp_signer P (rv_Proof v)) (\<lambda>(payloadHash, digest, signature).
       if payloadHash \<noteq> rv_ProofPayloadHash v \<or> digest \<noteq> rv_ProofDigest v then Inl SErrContentConflict
       else Inr (\<lparr>in_Reservation = v,
                  in_PlatformSignature =
                    (if (rv_Status v \<noteq> StatusReserved \<and> rv_Status v \<noteq> StatusSubmitted) \<or> pf_Deadline (rv_Proof v) \<le> word_of_int (time_unix now)
                     then [] else signature)\<rparr>, replay))"

section \<open>Reserve\<close>

definition reserve_deadline :: "sel_config \<Rightarrow> gotime \<Rightarrow> eligibility \<Rightarrow> gotime" where
  "reserve_deadline C now e = (let d = now + sc_ReservationTTL C in if el_TaskDeadline e < d then el_TaskDeadline e else d)"

definition reserve_proof :: "'w sel_peers \<Rightarrow> gotime \<Rightarrow> string \<Rightarrow> eligibility \<Rightarrow> selection_proof" where
  "reserve_proof P deadline reservationID e =
     \<lparr>pf_TaskID = el_ChainTaskID e, pf_AssignmentID = bytes32_id (sp_sha P) [''assignment'', reservationID],
      pf_AgentController = to_lower (el_AgentController e), pf_Payout = to_lower (el_Payout e),
      pf_OverviewID = digest_to_bytes32 (el_SlotID e), pf_AllocationID = digest_to_bytes32 (el_AllocationID e),
      pf_QuoteHash = digest_to_bytes32 (el_QuoteHash e), pf_TaskSpecHash = digest_to_bytes32 (el_TaskSpecHash e),
      pf_MatchRevision = el_MatchRevision e, pf_PriceVersion = el_PriceVersion e,
      pf_OverviewPrice = el_OverviewPrice e, pf_FormalGrossPrice = el_FormalGrossPrice e,
      pf_OverviewCredit = el_OverviewPrice e, pf_PolicyHash = digest_to_bytes32 (el_PolicyHash e),
      pf_Nonce = bytes32_id (sp_sha P) [''selection-nonce'', reservationID], pf_Deadline = word_of_int (time_unix deadline)\<rparr>"

definition reserve_draft ::
    "sel_config \<Rightarrow> gotime \<Rightarrow> session \<Rightarrow> string \<Rightarrow> string \<Rightarrow> eligibility \<Rightarrow> selection_proof \<Rightarrow> string \<times> string \<Rightarrow> string \<Rightarrow> capacity_lease \<Rightarrow> reservation" where
  "reserve_draft C now session taskID reservationID e p hashes formalPayable lease =
     \<lparr>rv_ID = reservationID, rv_PublisherID = se_UserID session, rv_PublisherWallet = to_lower (se_Wallet session), rv_TaskID = taskID,
      rv_BatchID = el_BatchID e, rv_SlotID = el_SlotID e, rv_SnapshotID = el_SnapshotID e, rv_AgentID = el_AgentID e, rv_ProviderID = el_ProviderID e,
      rv_ChainID = sc_ChainID C, rv_ContractAddress = sc_ContractAddress C, rv_Proof = p, rv_ProofPayloadHash = fst hashes,
      rv_ProofDigest = snd hashes, rv_FormalPayable = formalPayable, rv_CapacityFencingToken = le_FencingToken lease,
      rv_CapacityExpiresAt = le_ExpiresAt lease, rv_Status = StatusReserved, rv_TransactionHash = [], rv_FailureReasonCode = [],
      rv_CreatedAt = now, rv_UpdatedAt = now\<rparr>"

text \<open>The end of \<open>Reserve\<close>: the capacity is held while the reservation is stored, and given back when it is not.\<close>

definition reserve_store ::
    "sel_config \<Rightarrow> 'w sel_peers \<Rightarrow> gotime \<Rightarrow> session \<Rightarrow> string \<Rightarrow> string \<Rightarrow> string \<Rightarrow> string \<Rightarrow> eligibility \<Rightarrow> selection_proof \<Rightarrow> string \<times> string \<Rightarrow>
     string \<Rightarrow> gotime \<Rightarrow> 'w sel_world \<Rightarrow> 'w sel_world \<times> (selection_error + intent \<times> bool)" where
  "reserve_store C P now session key requestHash taskID reservationID e p hashes formalPayable deadline s =
     (case sp_reserve P (el_AgentID e) reservationID (time_sub deadline now) s of
        (s1, Inl SErrAgentCapacity) \<Rightarrow> (s1, Inl SErrCapacityUnavailable)
      | (s1, Inl err) \<Rightarrow> (s1, Inl err)
      | (s1, Inr lease) \<Rightarrow>
          let m = \<lparr>sm_PublisherID = se_UserID session, sm_IdempotencyKey = key, sm_RequestHash = requestHash, sm_Now = now\<rparr>;
              draft = reserve_draft C now session taskID reservationID e p hashes formalPayable lease in
          (case sel_prepare m draft (sw_repo s1) of
             (r, Inl err) \<Rightarrow> (fst (sp_release P reservationID (le_FencingToken lease) (s1\<lparr>sw_repo := r\<rparr>)), Inl err)
           | (r, Inr (stored, replay)) \<Rightarrow> (s1\<lparr>sw_repo := r\<rparr>, sel_intent P now stored replay)))"

definition svc_reserve ::
    "sel_config \<Rightarrow> 'w sel_peers \<Rightarrow> gotime \<Rightarrow> session \<Rightarrow> string \<Rightarrow> string \<Rightarrow> reserve_request \<Rightarrow> 'w sel_world \<Rightarrow> 'w sel_world \<times> (selection_error + intent \<times> bool)" where
  "svc_reserve C P now session key taskID q s =
     (if \<not> publisher_authorized session then (s, Inl SErrForbidden)
      else if taskID = [] \<or> \<not> sel_valid_digest (rq_BatchID q) \<or> \<not> sel_valid_digest (rq_SlotID q) \<or> key = [] \<or> length key > 200
      then (s, Inl SErrInvalidInput)
      else
        let requestHash = sha_string (sp_sha P (sp_json P taskID q)) in
        (case get_eligibility (se_UserID session) taskID (rq_BatchID q) (rq_SlotID q) (sw_repo s) of
           Inl err \<Rightarrow> (s, Inl err)
         | Inr e \<Rightarrow>
             (case sel_replay (se_UserID session) key requestHash (sw_repo s) of
                Inl err \<Rightarrow> (s, Inl err)
              | Inr (Some existing) \<Rightarrow> (s, sel_intent P now existing True)
              | Inr None \<Rightarrow>
                  let deadline = reserve_deadline C now e;
                      reservationID = sel_stable_digest (sp_sha P) [''selection-reservation'', se_UserID session, key, requestHash];
                      p = reserve_proof P deadline reservationID e in
                  if \<not> deadline > now then (s, Inl SErrInvalidState)
                  else case sel_subtract (el_FormalGrossPrice e) (el_OverviewPrice e) of
                    None \<Rightarrow> (s, Inl SErrContentConflict)
                  | Some formalPayable \<Rightarrow>
                      if el_ChainTaskID e = [] \<or> el_ChainID e \<noteq> sc_ChainID C \<or> to_lower (el_ContractAddress e) \<noteq> sc_ContractAddress C
                      then (s, Inl SErrInvalidState)
                      else case sp_signer P p of
                        Inl err \<Rightarrow> (s, Inl err)
                      | Inr (payloadHash, digest, _) \<Rightarrow>
                          reserve_store C P now session key requestHash taskID reservationID e p (payloadHash, digest) formalPayable deadline s)))"

section \<open>The other calls\<close>

definition unfinished :: "reservation \<Rightarrow> bool" where
  "unfinished v \<longleftrightarrow> rv_Status v = StatusReserved \<or> rv_Status v = StatusSubmitted"

text \<open>The reservation a caller may act on: its own, of the task, and still eligible while unfinished.\<close>

definition own_reservation :: "session \<Rightarrow> string \<Rightarrow> string \<Rightarrow> sel_repo \<Rightarrow> selection_error + reservation" where
  "own_reservation session taskID i r =
     rbind (sel_get (se_UserID session) i r) (\<lambda>v.
       if rv_TaskID v \<noteq> taskID then Inl SErrNotFound
       else if unfinished v \<and> isl (get_eligibility (se_UserID session) taskID (rv_BatchID v) (rv_SlotID v) r) then Inl SErrInvalidState
       else Inr v)"

definition svc_get_reservation :: "'w sel_peers \<Rightarrow> gotime \<Rightarrow> session \<Rightarrow> string \<Rightarrow> string \<Rightarrow> 'w sel_world \<Rightarrow> selection_error + intent" where
  "svc_get_reservation P now session taskID i s =
     (if \<not> publisher_authorized session then Inl SErrForbidden
      else if taskID = [] \<or> i = [] then Inl SErrInvalidInput
      else rbind (own_reservation session taskID i (sw_repo s)) (\<lambda>v. rbind (sel_intent P now v False) (\<lambda>(x, _). Inr x)))"

definition on_sel_repo :: "(sel_repo \<Rightarrow> sel_repo \<times> 'a) \<Rightarrow> 'w sel_world \<Rightarrow> 'w sel_world \<times> 'a" where
  "on_sel_repo f s = (case f (sw_repo s) of (r, x) \<Rightarrow> (s\<lparr>sw_repo := r\<rparr>, x))"

text \<open>A release error other than "no such lease".\<close>

definition release_error :: "selection_error option \<Rightarrow> selection_error option" where
  "release_error e = (if e = Some SErrAgentNotFound then None else e)"

text \<open>\<open>Reconcile\<close> after the verifier answered; a failed release after a confirmation comes with the confirmed values.\<close>

definition reconcile_result ::
    "'w sel_peers \<Rightarrow> gotime \<Rightarrow> reservation \<Rightarrow> string \<Rightarrow> chain_result \<Rightarrow> 'w sel_world \<Rightarrow>
     'w sel_world \<times> selection_error option \<times> reservation \<times> assignment option" where
  "reconcile_result P now v h res s =
     (if hr_TransactionHash res \<noteq> [] \<and> to_lower (hr_TransactionHash res) \<noteq> h then (s, Some SErrProofMismatch, zero_reservation, None)
      else if hr_Status res = ChainPending then
        (case on_sel_repo (record_submitted now (rv_ID v) h) s of
           (s', Inl e) \<Rightarrow> (s', Some e, zero_reservation, None)
         | (s', Inr updated) \<Rightarrow> (s', None, updated, None))
      else if hr_Status res = ChainFailed then
        (case sp_release P (rv_ID v) (rv_CapacityFencingToken v) s of
           (s1, err) \<Rightarrow>
             (case release_error err of
                Some e \<Rightarrow> (s1, Some e, zero_reservation, None)
              | None \<Rightarrow>
                  (case on_sel_repo (sel_fail now (rv_ID v) h (sel_stable_reason (hr_FailureReasonCode res) ''chain_transaction_failed'')) s1 of
                     (s2, Inl e) \<Rightarrow> (s2, Some e, zero_reservation, None)
                   | (s2, Inr (updated, _)) \<Rightarrow> (s2, None, updated, None))))
      else if hr_Status res = ChainConfirmed then
        if rv_Proof v \<noteq> hr_Proof res \<or> hr_FormalPayable res \<noteq> rv_FormalPayable v \<or> hr_WorkNonce res \<noteq> 1
        then (s, Some SErrProofMismatch, zero_reservation, None)
        else
          (case on_sel_repo (sel_confirm now (rv_ID v) res) s of
             (s1, Inl e) \<Rightarrow> (s1, Some e, zero_reservation, None)
           | (s1, Inr (updated, a, _)) \<Rightarrow>
               (case sp_release P (rv_ID v) (rv_CapacityFencingToken v) s1 of (s2, err) \<Rightarrow> (s2, release_error err, updated, Some a)))
      else (s, Some SErrInvalidInput, zero_reservation, None))"

definition svc_reconcile ::
    "'w sel_peers \<Rightarrow> gotime \<Rightarrow> session \<Rightarrow> string \<Rightarrow> string \<Rightarrow> string \<Rightarrow> 'w sel_world \<Rightarrow>
     'w sel_world \<times> selection_error option \<times> reservation \<times> assignment option" where
  "svc_reconcile P now session taskID i transactionHash s =
     (if \<not> publisher_authorized session then (s, Some SErrForbidden, zero_reservation, None)
      else if taskID = [] \<or> i = [] \<or> \<not> valid_transaction_hash transactionHash then (s, Some SErrInvalidInput, zero_reservation, None)
      else case own_reservation session taskID i (sw_repo s) of
        Inl e \<Rightarrow> (s, Some e, zero_reservation, None)
      | Inr v \<Rightarrow>
          let h = to_lower transactionHash in
          (case sp_verify P h s of
             (s1, Inl SErrDependencyPending) \<Rightarrow>
               (case on_sel_repo (record_submitted now (rv_ID v) h) s1 of
                  (s2, Inl e) \<Rightarrow> (s2, Some e, zero_reservation, None)
                | (s2, Inr _) \<Rightarrow> (s2, Some SErrDependencyPending, zero_reservation, None))
           | (s1, Inl e) \<Rightarrow> (s1, Some e, zero_reservation, None)
           | (s1, Inr res) \<Rightarrow> reconcile_result P now v h res s1))"

definition svc_expire :: "'w sel_peers \<Rightarrow> gotime \<Rightarrow> string \<Rightarrow> 'w sel_world \<Rightarrow> 'w sel_world \<times> selection_error option \<times> reservation \<times> bool" where
  "svc_expire P now i s =
     (case on_sel_repo (sel_expire now i) s of
        (s1, Inl e) \<Rightarrow> (s1, Some e, zero_reservation, False)
      | (s1, Inr (v, False)) \<Rightarrow> (s1, None, v, False)
      | (s1, Inr (v, True)) \<Rightarrow> (case sp_release P (rv_ID v) (rv_CapacityFencingToken v) s1 of (s2, err) \<Rightarrow> (s2, release_error err, v, True)))"

end
