(* ===== verification/Selection_Invariant.thy ===== *)
theory Selection_Invariant
  imports Selection_Service
begin

text \<open>
  The invariant of the reservations, the steps of the repository, and the lemma that every call of the service
  moves the repository only by steps when its peers do.
\<close>

definition live :: "reservation \<Rightarrow> bool" where
  "live v \<longleftrightarrow> rv_Status v = StatusReserved \<or> rv_Status v = StatusSubmitted \<or> rv_Status v = StatusConfirmed"

definition has_assignment :: "sel_repo \<Rightarrow> reservation \<Rightarrow> bool" where
  "has_assignment r v \<longleftrightarrow> (\<exists>a. gget (se_assignments r) (pf_AssignmentID (rv_Proof v)) = Some a \<and> as_ReservationID a = rv_ID v \<and>
     as_TaskID a = rv_TaskID v \<and> as_AgentID a = rv_AgentID v \<and> as_FormalPayable a = rv_FormalPayable v \<and>
     as_TransactionHash a = rv_TransactionHash v \<and> as_WorkNonce a = 1)"

definition sel_inv :: "sel_repo \<Rightarrow> bool" where
  "sel_inv r \<longleftrightarrow> gwf (se_activeTasks r) \<and>
     (\<forall>i x. gget (se_records r) i = Some x \<longrightarrow> rv_ID (sr_reservation x) = i \<and>
        rv_Status (sr_reservation x) \<in> {StatusReserved, StatusSubmitted, StatusConfirmed, StatusFailed, StatusExpired} \<and>
        (live (sr_reservation x) \<longrightarrow> gget (se_activeTasks r) (rv_TaskID (sr_reservation x)) = Some i) \<and>
        (rv_Status (sr_reservation x) = StatusConfirmed \<longrightarrow> has_assignment r (sr_reservation x))) \<and>
     (\<forall>t i. gget (se_activeTasks r) t = Some i \<longrightarrow> (\<exists>x. gget (se_records r) i = Some x \<and> rv_TaskID (sr_reservation x) = t \<and> live (sr_reservation x))) \<and>
     (\<forall>k a. gget (se_assignments r) k = Some a \<longrightarrow> (\<exists>x. gget (se_records r) (as_ReservationID a) = Some x \<and>
        rv_Status (sr_reservation x) = StatusConfirmed \<and> pf_AssignmentID (rv_Proof (sr_reservation x)) = k)) \<and>
     (\<forall>k i. gget (se_requestIndex r) k = Some i \<longrightarrow> gget (se_records r) i \<noteq> None)"

lemma sel_inv_new: "sel_inv new_sel_repository"
  by (simp add: sel_inv_def new_sel_repository_def)

lemma sel_invD:
  assumes "sel_inv r" "gget (se_records r) i = Some x"
  shows "rv_ID (sr_reservation x) = i" "live (sr_reservation x) \<Longrightarrow> gget (se_activeTasks r) (rv_TaskID (sr_reservation x)) = Some i"
    "rv_Status (sr_reservation x) = StatusConfirmed \<Longrightarrow> has_assignment r (sr_reservation x)"
    "rv_Status (sr_reservation x) \<in> {StatusReserved, StatusSubmitted, StatusConfirmed, StatusFailed, StatusExpired}"
  using assms unfolding sel_inv_def by blast+

section \<open>Steps\<close>

inductive sel_step :: "sel_repo \<Rightarrow> sel_repo \<Rightarrow> bool" where
  eligible: "sel_step r (set_eligibility u e r)"
| ineligible: "sel_step r (clear_eligibility u e r)"
| prepared: "sel_step r (fst (sel_prepare m draft r))"
| submitted: "sel_step r (fst (record_submitted now i h r))"
| confirmed: "sel_step r (fst (sel_confirm now i res r))"
| failed: "sel_step r (fst (sel_fail now i h reason r))"
| expired: "sel_step r (fst (sel_expire now i r))"

lemma sel_inv_eligibility [simp]: "sel_inv (r\<lparr>se_eligibility := e\<rparr>) = sel_inv r"
  by (simp add: sel_inv_def has_assignment_def)

text \<open>The update of one reservation: what every transition has to respect.\<close>

lemma put_reservation_inv:
  assumes inv: "sel_inv r" and x: "gget (se_records r) i = Some x"
    and v: "rv_ID v = i" "rv_TaskID v = rv_TaskID (sr_reservation x)" "rv_Proof v = rv_Proof (sr_reservation x)"
    and st: "unfinished (sr_reservation x)"
    and new: "rv_Status v = StatusSubmitted"
  shows "sel_inv (put_reservation i x v r)"
proof -
  let ?r = "put_reservation i x v r"
  have lv: "live (sr_reservation x)" "live v" using st new by (auto simp: unfinished_def live_def)
  have get: "gget (se_records ?r) j = (if j = i then Some (x\<lparr>sr_reservation := v\<rparr>) else gget (se_records r) j)" for j
    by (simp add: put_reservation_def)
  have same: "se_activeTasks ?r = se_activeTasks r" "se_assignments ?r = se_assignments r" "se_requestIndex ?r = se_requestIndex r"
    by (simp_all add: put_reservation_def)
  have no: "rv_Status (sr_reservation x) \<noteq> StatusConfirmed" "rv_Status v \<noteq> StatusConfirmed" using st new by (auto simp: unfinished_def)
  show ?thesis
    unfolding sel_inv_def same get
  proof (intro conjI allI impI, goal_cases)
    case 1
    then show ?case using inv by (simp add: sel_inv_def)
  next
    case (2 j y)
    then show ?case using v(1) sel_invD(1) [OF inv] by (auto split: if_splits)
  next
    case (3 j y)
    then show ?case using new sel_invD(4) [OF inv] by (auto split: if_splits)
  next
    case (4 j y)
    then show ?case using v(2) sel_invD(2) [OF inv] x lv by (auto split: if_splits)
  next
    case (5 j y)
    then show ?case using no sel_invD(3) [OF inv] by (auto simp: has_assignment_def same split: if_splits)
  next
    case (6 t j)
    then obtain y where "gget (se_records r) j = Some y" "rv_TaskID (sr_reservation y) = t" "live (sr_reservation y)"
      using inv unfolding sel_inv_def by blast
    then show ?case using x v(2) lv by auto
  next
    case (7 k a)
    then obtain y where "gget (se_records r) (as_ReservationID a) = Some y" "rv_Status (sr_reservation y) = StatusConfirmed"
      "pf_AssignmentID (rv_Proof (sr_reservation y)) = k" using inv unfolding sel_inv_def by blast
    then show ?case using x no by auto
  next
    case (8 k j)
    then show ?case using inv unfolding sel_inv_def by auto
  qed
qed

lemma sel_inv_unfold:
  "sel_inv r \<longleftrightarrow> gwf (se_activeTasks r) \<and>
     (\<forall>i x. gget (se_records r) i = Some x \<longrightarrow> rv_ID (sr_reservation x) = i) \<and>
     (\<forall>i x. gget (se_records r) i = Some x \<longrightarrow> rv_Status (sr_reservation x) \<in> {StatusReserved, StatusSubmitted, StatusConfirmed, StatusFailed, StatusExpired}) \<and>
     (\<forall>i x. gget (se_records r) i = Some x \<longrightarrow> live (sr_reservation x) \<longrightarrow> gget (se_activeTasks r) (rv_TaskID (sr_reservation x)) = Some i) \<and>
     (\<forall>i x. gget (se_records r) i = Some x \<longrightarrow> rv_Status (sr_reservation x) = StatusConfirmed \<longrightarrow> has_assignment r (sr_reservation x)) \<and>
     (\<forall>t i. gget (se_activeTasks r) t = Some i \<longrightarrow> (\<exists>x. gget (se_records r) i = Some x \<and> rv_TaskID (sr_reservation x) = t \<and> live (sr_reservation x))) \<and>
     (\<forall>k a. gget (se_assignments r) k = Some a \<longrightarrow> (\<exists>x. gget (se_records r) (as_ReservationID a) = Some x \<and>
        rv_Status (sr_reservation x) = StatusConfirmed \<and> pf_AssignmentID (rv_Proof (sr_reservation x)) = k)) \<and>
     (\<forall>k i. gget (se_requestIndex r) k = Some i \<longrightarrow> gget (se_records r) i \<noteq> None)"
  unfolding sel_inv_def by blast

lemma sel_active:
  "sel_inv r \<Longrightarrow> gget (se_activeTasks r) t = Some i \<Longrightarrow> \<exists>x. gget (se_records r) i = Some x \<and> rv_TaskID (sr_reservation x) = t \<and> live (sr_reservation x)"
  unfolding sel_inv_def by blast

lemma sel_assignment:
  "sel_inv r \<Longrightarrow> gget (se_assignments r) k = Some a \<Longrightarrow> \<exists>x. gget (se_records r) (as_ReservationID a) = Some x \<and>
    rv_Status (sr_reservation x) = StatusConfirmed \<and> pf_AssignmentID (rv_Proof (sr_reservation x)) = k"
  unfolding sel_inv_def by blast

lemma add_reservation_inv:
  assumes inv: "sel_inv r" and v: "rv_ID v = i" "rv_Status v = StatusReserved"
    and fresh: "gget (se_records r) i = None" "gget (se_activeTasks r) (rv_TaskID v) = None"
  shows "sel_inv (r\<lparr>se_records := gput i \<lparr>sr_reservation = v, sr_key = k, sr_requestHash = h\<rparr> (se_records r),
    se_requestIndex := gput q i (se_requestIndex r), se_activeTasks := gput (rv_TaskID v) i (se_activeTasks r)\<rparr>)" (is "sel_inv ?r")
proof -
  have lv: "live v" using v by (simp add: live_def)
  show ?thesis
    unfolding sel_inv_unfold
  proof (intro conjI allI impI, goal_cases)
    case 1
    then show ?case using inv by (simp add: sel_inv_def)
  next
    case (2 j y)
    then show ?case using v(1) sel_invD(1) [OF inv] by (auto split: if_splits)
  next
    case (3 j y)
    then show ?case using v(2) sel_invD(4) [OF inv] by (auto split: if_splits)
  next
    case (4 j y)
    show ?case
    proof (cases "j = i")
      case False
      then have "gget (se_activeTasks r) (rv_TaskID (sr_reservation y)) = Some j" using 4 sel_invD(2) [OF inv] by simp
      moreover from this fresh(2) have "rv_TaskID (sr_reservation y) \<noteq> rv_TaskID v" by auto
      ultimately show ?thesis by simp
    qed (use 4 in auto)
  next
    case (5 j y)
    then show ?case using v(2) sel_invD(3) [OF inv] by (auto simp: has_assignment_def split: if_splits)
  next
    case (6 t j)
    show ?case
    proof (cases "t = rv_TaskID v")
      case False
      then obtain y where y: "gget (se_records r) j = Some y" "rv_TaskID (sr_reservation y) = t" "live (sr_reservation y)"
        using 6 sel_active [OF inv] by auto
      then show ?thesis using fresh(1) by auto
    qed (use 6 lv in auto)
  next
    case (7 k' a)
    then obtain y where "gget (se_records r) (as_ReservationID a) = Some y" "rv_Status (sr_reservation y) = StatusConfirmed"
      "pf_AssignmentID (rv_Proof (sr_reservation y)) = k'" using sel_assignment [OF inv] by auto
    then show ?case using fresh(1) by auto
  next
    case (8 k' j)
    then show ?case using inv unfolding sel_inv_def by (auto split: if_splits)
  qed
qed

lemma confirm_reservation_inv:
  assumes inv: "sel_inv r" and x: "gget (se_records r) i = Some x" and st: "unfinished (sr_reservation x)"
    and v: "rv_ID v = rv_ID (sr_reservation x)" "rv_TaskID v = rv_TaskID (sr_reservation x)" "rv_Proof v = rv_Proof (sr_reservation x)"
      "rv_Status v = StatusConfirmed"
    and a: "as_ReservationID a = rv_ID v" "as_TaskID a = rv_TaskID v" "as_AgentID a = rv_AgentID v" "as_FormalPayable a = rv_FormalPayable v"
      "as_TransactionHash a = rv_TransactionHash v" "as_WorkNonce a = 1"
    and fresh: "gget (se_assignments r) (pf_AssignmentID (rv_Proof v)) = None"
  shows "sel_inv ((put_reservation i x v r)\<lparr>se_assignments := gput (pf_AssignmentID (rv_Proof v)) a (se_assignments r)\<rparr>)" (is "sel_inv ?r")
proof -
  note id = sel_invD(1) [OF inv x]
  have lv: "live (sr_reservation x)" "live v" using st v(4) by (auto simp: unfinished_def live_def)
  have no: "rv_Status (sr_reservation x) \<noteq> StatusConfirmed" using st by (auto simp: unfinished_def)
  have get: "gget (se_records ?r) j = (if j = i then Some (x\<lparr>sr_reservation := v\<rparr>) else gget (se_records r) j)" for j
    by (simp add: put_reservation_def)
  have same: "se_activeTasks ?r = se_activeTasks r" "se_requestIndex ?r = se_requestIndex r"
    by (simp_all add: put_reservation_def)
  show ?thesis
    unfolding sel_inv_unfold get same
  proof (intro conjI allI impI, goal_cases)
    case 1
    then show ?case using inv by (simp add: sel_inv_def)
  next
    case (2 j y)
    then show ?case using v(1) id sel_invD(1) [OF inv] by (auto split: if_splits)
  next
    case (3 j y)
    then show ?case using v(4) sel_invD(4) [OF inv] by (auto split: if_splits)
  next
    case (4 j y)
    then show ?case using v(2) sel_invD(2) [OF inv] x lv by (auto split: if_splits)
  next
    case (5 j y)
    show ?case
    proof (cases "j = i")
      case True
      then have "sr_reservation y = v" using 5 by auto
      then show ?thesis using a by (simp add: has_assignment_def)
    next
      case False
      then have "has_assignment r (sr_reservation y)" using 5 sel_invD(3) [OF inv] by simp
      moreover from this fresh have "pf_AssignmentID (rv_Proof (sr_reservation y)) \<noteq> pf_AssignmentID (rv_Proof v)" by (auto simp: has_assignment_def)
      ultimately show ?thesis by (simp add: has_assignment_def)
    qed
  next
    case (6 t j)
    then obtain y where "gget (se_records r) j = Some y" "rv_TaskID (sr_reservation y) = t" "live (sr_reservation y)"
      using sel_active [OF inv] by blast
    then show ?case using x v(2) lv by auto
  next
    case (7 k b)
    show ?case
    proof (cases "k = pf_AssignmentID (rv_Proof v)")
      case True
      then have "b = a" using 7 by simp
      then show ?thesis using True v(1,4) id a(1) by auto
    next
      case False
      then obtain y where "gget (se_records r) (as_ReservationID b) = Some y" "rv_Status (sr_reservation y) = StatusConfirmed"
        "pf_AssignmentID (rv_Proof (sr_reservation y)) = k" using 7 sel_assignment [OF inv] by auto
      then show ?thesis using x no by auto
    qed
  next
    case (8 k j)
    then show ?case using inv unfolding sel_inv_def by auto
  qed
qed

lemma end_reservation_inv:
  assumes inv: "sel_inv r" and x: "gget (se_records r) i = Some x" and st: "unfinished (sr_reservation x)"
    and v: "rv_ID v = rv_ID (sr_reservation x)" "rv_TaskID v = rv_TaskID (sr_reservation x)" "rv_Status v \<in> {StatusFailed, StatusExpired}"
  shows "sel_inv ((put_reservation i x v r)\<lparr>se_activeTasks := gdel (rv_TaskID v) (se_activeTasks r)\<rparr>)" (is "sel_inv ?r")
proof -
  note id = sel_invD(1) [OF inv x]
  have wf: "gwf (se_activeTasks r)" using inv by (simp add: sel_inv_def)
  have lv: "live (sr_reservation x)" "\<not> live v" using st v(3) by (auto simp: unfinished_def live_def)
  have act: "gget (se_activeTasks r) (rv_TaskID v) = Some i" using sel_invD(2) [OF inv x] lv v(2) by simp
  have no: "rv_Status (sr_reservation x) \<noteq> StatusConfirmed" "rv_Status v \<noteq> StatusConfirmed" using st v(3) by (auto simp: unfinished_def)
  have get: "gget (se_records ?r) j = (if j = i then Some (x\<lparr>sr_reservation := v\<rparr>) else gget (se_records r) j)" for j
    by (simp add: put_reservation_def)
  have same: "se_assignments ?r = se_assignments r" "se_requestIndex ?r = se_requestIndex r"
    "gget (se_activeTasks ?r) t = (if t = rv_TaskID v then None else gget (se_activeTasks r) t)" for t
    by (simp_all add: put_reservation_def gget_gdel wf)
  show ?thesis
    unfolding sel_inv_unfold get same
  proof (intro conjI allI impI, goal_cases)
    case 1
    then show ?case using wf by simp
  next
    case (2 j y)
    then show ?case using v(1) id sel_invD(1) [OF inv] by (auto split: if_splits)
  next
    case (3 j y)
    then show ?case using v(3) sel_invD(4) [OF inv] by (auto split: if_splits)
  next
    case (4 j y)
    then have j: "j \<noteq> i" "gget (se_records r) j = Some y" using lv by (auto split: if_splits)
    from sel_invD(2) [OF inv j(2) 4(2)] show ?case using act j(1) by auto
  next
    case (5 j y)
    then show ?case using no sel_invD(3) [OF inv] by (auto simp: has_assignment_def same split: if_splits)
  next
    case (6 t j)
    then have t: "t \<noteq> rv_TaskID v" "gget (se_activeTasks r) t = Some j" by (auto split: if_splits)
    then obtain y where y: "gget (se_records r) j = Some y" "rv_TaskID (sr_reservation y) = t" "live (sr_reservation y)"
      using sel_active [OF inv] by blast
    moreover have "j \<noteq> i" using y t(1) x v(2) by auto
    ultimately show ?case by simp
  next
    case (7 k b)
    then obtain y where "gget (se_records r) (as_ReservationID b) = Some y" "rv_Status (sr_reservation y) = StatusConfirmed"
      "pf_AssignmentID (rv_Proof (sr_reservation y)) = k" using sel_assignment [OF inv] by auto
    then show ?case using x no by auto
  next
    case (8 k j)
    then show ?case using inv unfolding sel_inv_def by auto
  qed
qed

section \<open>Every step keeps the invariant\<close>

lemma sel_prepare_inv:
  assumes inv: "sel_inv r"
  shows "sel_inv (fst (sel_prepare m draft r))"
proof -
  let ?v = "draft\<lparr>rv_CreatedAt := sm_Now m, rv_UpdatedAt := sm_Now m, rv_Status := StatusReserved\<rparr>"
  have "sel_inv (r\<lparr>se_records := gput (rv_ID ?v) \<lparr>sr_reservation = ?v, sr_key = k, sr_requestHash = h\<rparr> (se_records r),
      se_requestIndex := gput q (rv_ID ?v) (se_requestIndex r), se_activeTasks := gput (rv_TaskID ?v) (rv_ID ?v) (se_activeTasks r)\<rparr>)"
    if "gget (se_records r) (rv_ID draft) = None" "gget (se_activeTasks r) (rv_TaskID draft) = None" for k h q
    using that by (intro add_reservation_inv [OF inv]) simp_all
  then show ?thesis using inv by (auto simp: sel_prepare_def Let_def split: option.splits)
qed

lemma record_submitted_inv: "sel_inv r \<Longrightarrow> sel_inv (fst (record_submitted now i h r))"
  by (auto simp: record_submitted_def Let_def unfinished_def split: option.splits intro!: put_reservation_inv dest: sel_invD(1))

lemma sel_confirm_inv: "sel_inv r \<Longrightarrow> sel_inv (fst (sel_confirm now i res r))"
proof -
  assume inv: "sel_inv r"
  show ?thesis
  proof (cases "gget (se_records r) i")
    case (Some x)
    let ?v = "sr_reservation x"
    let ?v' = "?v\<lparr>rv_Status := StatusConfirmed, rv_TransactionHash := hr_TransactionHash res, rv_UpdatedAt := now\<rparr>"
    let ?a = "\<lparr>as_ID = pf_AssignmentID (rv_Proof ?v), as_TaskID = rv_TaskID ?v, as_ReservationID = rv_ID ?v, as_AgentID = rv_AgentID ?v,
      as_ProviderID = rv_ProviderID ?v, as_FormalPayable = rv_FormalPayable ?v, as_OverviewCredit = pf_OverviewCredit (rv_Proof ?v),
      as_WorkNonce = 1, as_TransactionHash = hr_TransactionHash res, as_ConfirmedAt = now\<rparr>"
    have "sel_inv ((put_reservation i x ?v' r)\<lparr>se_assignments := gput (pf_AssignmentID (rv_Proof ?v')) ?a (se_assignments r)\<rparr>)"
      if "unfinished ?v" "gget (se_assignments r) (pf_AssignmentID (rv_Proof ?v)) = None"
      using that by (intro confirm_reservation_inv [OF inv Some]) simp_all
    then show ?thesis using inv Some by (auto simp: sel_confirm_def Let_def unfinished_def)
  qed (use inv in \<open>simp add: sel_confirm_def\<close>)
qed

lemma sel_terminate_inv:
  assumes "sel_inv r" "status \<in> {StatusFailed, StatusExpired}"
  shows "sel_inv (fst (sel_terminate now i h reason status req r))"
proof (cases "gget (se_records r) i")
  case (Some x)
  have "sel_inv ((put_reservation i x v r)\<lparr>se_activeTasks := gdel (rv_TaskID v) (se_activeTasks r)\<rparr>)"
    if "unfinished (sr_reservation x)" "rv_ID v = rv_ID (sr_reservation x)" "rv_TaskID v = rv_TaskID (sr_reservation x)" "rv_Status v = status" for v
    using that assms(2) by (intro end_reservation_inv [OF assms(1) Some]) simp_all
  then show ?thesis using assms(1) Some by (auto simp: sel_terminate_def Let_def unfinished_def)
qed (use assms in \<open>simp add: sel_terminate_def\<close>)

lemma sel_step_inv: "sel_step r r' \<Longrightarrow> sel_inv r \<Longrightarrow> sel_inv r'"
  by (induction rule: sel_step.induct)
    (simp_all add: set_eligibility_def clear_eligibility_def sel_prepare_inv record_submitted_inv sel_confirm_inv sel_fail_def sel_expire_def sel_terminate_inv)

definition sel_reachable :: "sel_repo \<Rightarrow> bool" where
  "sel_reachable r \<longleftrightarrow> sel_step\<^sup>*\<^sup>* new_sel_repository r"

lemma sel_steps_inv: "sel_step\<^sup>*\<^sup>* r r' \<Longrightarrow> sel_inv r \<Longrightarrow> sel_inv r'"
  by (induction rule: rtranclp_induct) (auto intro: sel_step_inv)

lemma sel_reachable_inv: "sel_reachable r \<Longrightarrow> sel_inv r"
  unfolding sel_reachable_def by (erule sel_steps_inv) (rule sel_inv_new)

end
