(* ===== verification/Selection_Facts.thy ===== *)
theory Selection_Facts
  imports Selection_Invariant
begin

text \<open>Lemmas about the calls of the selection service, \<open>Reconcile\<close> last.\<close>

text \<open>
  The calls of the service as moves of the world: whatever runs during a call to a peer moves the repository by
  steps, and then so does the call. And what is settled by a reservation for its later replays.
\<close>

abbreviation sel_moves :: "sel_repo \<Rightarrow> sel_repo \<Rightarrow> bool" where
  "sel_moves \<equiv> sel_step\<^sup>*\<^sup>*"

definition sel_peers_ok :: "'w sel_peers \<Rightarrow> bool" where
  "sel_peers_ok P \<longleftrightarrow>
     (\<forall>agent i ttl s. sel_moves (sw_repo s) (sw_repo (fst (sp_reserve P agent i ttl s)))) \<and>
     (\<forall>i token s. sel_moves (sw_repo s) (sw_repo (fst (sp_release P i token s)))) \<and>
     (\<forall>h s. sel_moves (sw_repo s) (sw_repo (fst (sp_verify P h s))))"

lemma peers_move:
  assumes "sel_peers_ok P"
  shows "sp_reserve P agent i ttl s = (s1, x) \<Longrightarrow> sel_moves (sw_repo s) (sw_repo s1)"
    "sp_release P i token s = (s2, y) \<Longrightarrow> sel_moves (sw_repo s) (sw_repo s2)"
    "sp_verify P h s = (s3, z) \<Longrightarrow> sel_moves (sw_repo s) (sw_repo s3)"
  using assms unfolding sel_peers_ok_def by (metis fst_conv)+

lemma release_moves: "sel_peers_ok P \<Longrightarrow> sel_moves (sw_repo s) (sw_repo (fst (sp_release P i token s)))"
  by (simp add: sel_peers_ok_def)

lemma on_sel_repo_moves:
  assumes "\<And>r. sel_step r (fst (f r))" "on_sel_repo f s = (s', x)"
  shows "sel_moves (sw_repo s) (sw_repo s')"
  using assms(1) [of "sw_repo s"] assms(2) by (auto simp: on_sel_repo_def split: prod.splits)

lemmas repo_moves =
  on_sel_repo_moves [of "record_submitted now i h" for now i h, OF sel_step.submitted]
  on_sel_repo_moves [of "sel_confirm now i res" for now i res, OF sel_step.confirmed]
  on_sel_repo_moves [of "sel_fail now i h reason" for now i h reason, OF sel_step.failed]
  on_sel_repo_moves [of "sel_expire now i" for now i, OF sel_step.expired]

lemma reserve_store_moves:
  assumes ok: "sel_peers_ok P"
  shows "sel_moves (sw_repo s) (sw_repo (fst (reserve_store C P now session key h taskID i e p hs pay d s)))"
proof -
  obtain s1 x where a: "sp_reserve P (el_AgentID e) i (time_sub d now) s = (s1, x)"
    by (cases "sp_reserve P (el_AgentID e) i (time_sub d now) s")
  note m = peers_move(1) [OF ok a]
  show ?thesis
  proof (cases x)
    case (Inl err)
    then show ?thesis using a m by (cases err) (auto simp: reserve_store_def)
  next
    case (Inr lease)
    let ?m = "\<lparr>sm_PublisherID = se_UserID session, sm_IdempotencyKey = key, sm_RequestHash = h, sm_Now = now\<rparr>"
    let ?draft = "reserve_draft C now session taskID i e p hs pay lease"
    obtain r y where p: "sel_prepare ?m ?draft (sw_repo s1) = (r, y)" by (cases "sel_prepare ?m ?draft (sw_repo s1)")
    have st: "sel_moves (sw_repo s) r" using m sel_step.prepared [of "sw_repo s1" ?m ?draft] p by (metis fst_conv rtranclp.rtrancl_into_rtrancl)
    show ?thesis
    proof (cases y)
      case l: (Inl err)
      have "sel_moves r (sw_repo (fst (sp_release P i (le_FencingToken lease) (s1\<lparr>sw_repo := r\<rparr>))))"
        using release_moves [OF ok, of "s1\<lparr>sw_repo := r\<rparr>"] by simp
      with st have "sel_moves (sw_repo s) (sw_repo (fst (sp_release P i (le_FencingToken lease) (s1\<lparr>sw_repo := r\<rparr>))))" by (rule rtranclp_trans)
      then show ?thesis using a Inr p l by (simp add: reserve_store_def Let_def)
    next
      case rr: (Inr z)
      then show ?thesis using a Inr p st by (cases z) (simp add: reserve_store_def Let_def)
    qed
  qed
qed

lemma svc_reserve_moves: "sel_peers_ok P \<Longrightarrow> sel_moves (sw_repo s) (sw_repo (fst (svc_reserve C P now session key taskID q s)))"
  unfolding svc_reserve_def Let_def
  by (auto split: sum.splits option.splits prod.splits simp: reserve_store_moves [simplified])

lemma reconcile_result_moves:
  assumes ok: "sel_peers_ok P"
  shows "sel_moves (sw_repo s) (sw_repo (fst (reconcile_result P now v h res s)))"
proof -
  consider (miss) "hr_TransactionHash res \<noteq> [] \<and> to_lower (hr_TransactionHash res) \<noteq> h"
    | (pend) "\<not> (hr_TransactionHash res \<noteq> [] \<and> to_lower (hr_TransactionHash res) \<noteq> h)" "hr_Status res = ChainPending"
    | (fail) "\<not> (hr_TransactionHash res \<noteq> [] \<and> to_lower (hr_TransactionHash res) \<noteq> h)" "hr_Status res = ChainFailed"
    | (conf) "\<not> (hr_TransactionHash res \<noteq> [] \<and> to_lower (hr_TransactionHash res) \<noteq> h)" "hr_Status res = ChainConfirmed"
    | (other) "hr_Status res \<noteq> ChainPending" "hr_Status res \<noteq> ChainFailed" "hr_Status res \<noteq> ChainConfirmed"
    by blast
  then show ?thesis
  proof cases
    case pend
    then show ?thesis by (auto simp: reconcile_result_def split: prod.split sum.split dest: repo_moves(1))
  next
    case fail
    obtain s1 e where a: "sp_release P (rv_ID v) (rv_CapacityFencingToken v) s = (s1, e)"
      by (cases "sp_release P (rv_ID v) (rv_CapacityFencingToken v) s")
    note m = peers_move(2) [OF ok a]
    show ?thesis using fail a m
      by (auto simp: reconcile_result_def split: prod.split sum.split option.split dest!: repo_moves(3) elim: rtranclp_trans)
  next
    case conf
    obtain s1 y where a: "on_sel_repo (sel_confirm now (rv_ID v) res) s = (s1, y)" by (cases "on_sel_repo (sel_confirm now (rv_ID v) res) s")
    note m = repo_moves(2) [OF a]
    obtain s2 e where b: "sp_release P (rv_ID v) (rv_CapacityFencingToken v) s1 = (s2, e)"
      by (cases "sp_release P (rv_ID v) (rv_CapacityFencingToken v) s1")
    have "sel_moves (sw_repo s) (sw_repo s2)" using m peers_move(2) [OF ok b] by (rule rtranclp_trans)
    then show ?thesis using conf a b m by (auto simp: reconcile_result_def split: sum.split)
  qed (simp_all add: reconcile_result_def)
qed

lemma svc_reconcile_moves:
  assumes ok: "sel_peers_ok P"
  shows "sel_moves (sw_repo s) (sw_repo (fst (svc_reconcile P now session taskID i h s)))"
proof (cases "\<not> publisher_authorized session \<or> taskID = [] \<or> i = [] \<or> \<not> valid_transaction_hash h")
  case False
  show ?thesis
  proof (cases "own_reservation session taskID i (sw_repo s)")
    case (Inr v)
    obtain s1 x where a: "sp_verify P (to_lower h) s = (s1, x)" by (cases "sp_verify P (to_lower h) s")
    note m = peers_move(3) [OF ok a]
    show ?thesis
    proof (cases x)
      case l: (Inl e)
      show ?thesis
      proof (cases "e = SErrDependencyPending")
        case True
        then show ?thesis using False Inr a l m
          by (auto simp: svc_reconcile_def Let_def split: prod.split sum.split dest!: repo_moves(1) elim: rtranclp_trans)
      next
        case e: False
        then have "fst (svc_reconcile P now session taskID i h s) = s1" using False Inr a l by (cases e) (simp_all add: svc_reconcile_def Let_def)
        then show ?thesis using m by simp
      qed
    next
      case rr: (Inr res)
      have "sel_moves (sw_repo s1) (sw_repo (fst (reconcile_result P now v (to_lower h) res s1)))" by (rule reconcile_result_moves [OF ok])
      with m have "sel_moves (sw_repo s) (sw_repo (fst (reconcile_result P now v (to_lower h) res s1)))" by (rule rtranclp_trans)
      then show ?thesis using False Inr a rr by (simp add: svc_reconcile_def Let_def)
    qed
  qed (use False in \<open>simp add: svc_reconcile_def\<close>)
qed (auto simp: svc_reconcile_def)

lemma svc_expire_moves:
  assumes ok: "sel_peers_ok P"
  shows "sel_moves (sw_repo s) (sw_repo (fst (svc_expire P now i s)))"
proof -
  obtain s1 x where a: "on_sel_repo (sel_expire now i) s = (s1, x)" by (cases "on_sel_repo (sel_expire now i) s")
  note m = repo_moves(4) [OF a]
  show ?thesis
  proof (cases x)
    case (Inr y)
    obtain v c where y: "y = (v, c)" by (cases y)
    obtain s2 e where b: "sp_release P (rv_ID v) (rv_CapacityFencingToken v) s1 = (s2, e)"
      by (cases "sp_release P (rv_ID v) (rv_CapacityFencingToken v) s1")
    have "sel_moves (sw_repo s) (sw_repo s2)" using m peers_move(2) [OF ok b] by (rule rtranclp_trans)
    then show ?thesis using a Inr y b m by (cases c) (simp_all add: svc_expire_def)
  qed (use a m in \<open>simp add: svc_expire_def\<close>)
qed

section \<open>The calls\<close>

datatype sel_call =
    SReserve session string string reserve_request
  | SReconcile session string string string
  | SExpire string

fun sel_exec :: "sel_config \<Rightarrow> 'w sel_peers \<Rightarrow> gotime \<Rightarrow> sel_call \<Rightarrow> 'w sel_world \<Rightarrow> 'w sel_world" where
  "sel_exec C P now (SReserve session key taskID q) s = fst (svc_reserve C P now session key taskID q s)"
| "sel_exec C P now (SReconcile session taskID i h) s = fst (svc_reconcile P now session taskID i h s)"
| "sel_exec C P now (SExpire i) s = fst (svc_expire P now i s)"

lemma sel_exec_moves: "sel_peers_ok P \<Longrightarrow> sel_moves (sw_repo s) (sw_repo (sel_exec C P now c s))"
  by (cases c) (simp_all add: svc_reserve_moves svc_reconcile_moves svc_expire_moves)

lemma sel_exec_reachable: "sel_reachable (sw_repo s) \<Longrightarrow> sel_peers_ok P \<Longrightarrow> sel_reachable (sw_repo (sel_exec C P now c s))"
  unfolding sel_reachable_def using sel_exec_moves by (meson rtranclp_trans)

section \<open>What a reservation settles\<close>

text \<open>Everything but the progress of a reservation is fixed when it is stored.\<close>

definition same_terms :: "reservation \<Rightarrow> reservation \<Rightarrow> bool" where
  "same_terms v w \<longleftrightarrow> w = v\<lparr>rv_Status := rv_Status w, rv_TransactionHash := rv_TransactionHash w, rv_FailureReasonCode := rv_FailureReasonCode w,
     rv_UpdatedAt := rv_UpdatedAt w\<rparr>"

lemma same_terms_refl [simp]: "same_terms v v"
  by (simp add: same_terms_def)

lemma same_terms_trans: "same_terms u v \<Longrightarrow> same_terms v w \<Longrightarrow> same_terms u w"
  by (cases u; cases v; cases w) (simp add: same_terms_def)

lemma same_terms_update:
  "same_terms u v \<Longrightarrow> same_terms u (v\<lparr>rv_Status := a, rv_TransactionHash := b, rv_UpdatedAt := c\<rparr>)"
  "same_terms u v \<Longrightarrow> same_terms u (v\<lparr>rv_Status := a, rv_FailureReasonCode := d, rv_UpdatedAt := c\<rparr>)"
  "same_terms u v \<Longrightarrow> same_terms u (v\<lparr>rv_Status := a, rv_FailureReasonCode := d, rv_UpdatedAt := c, rv_TransactionHash := b\<rparr>)"
  by (cases u; cases v; simp add: same_terms_def)+

lemma same_terms_fields:
  "same_terms v w \<Longrightarrow> rv_Proof w = rv_Proof v \<and> rv_ProofPayloadHash w = rv_ProofPayloadHash v \<and> rv_ProofDigest w = rv_ProofDigest v \<and>
   rv_ID w = rv_ID v \<and> rv_TaskID w = rv_TaskID v"
  by (cases v; cases w) (simp add: same_terms_def)

definition kept :: "string \<Rightarrow> string \<Rightarrow> reservation \<Rightarrow> sel_repo \<Rightarrow> bool" where
  "kept q h v r \<longleftrightarrow> gget (se_requestIndex r) q = Some (rv_ID v) \<and>
     (\<exists>x. gget (se_records r) (rv_ID v) = Some x \<and> sr_requestHash x = h \<and> same_terms v (sr_reservation x))"

lemma kept_put:
  "kept q h v r \<Longrightarrow> gget (se_records r) i = Some x \<Longrightarrow> (\<And>u. same_terms u (sr_reservation x) \<Longrightarrow> same_terms u w) \<Longrightarrow> kept q h v (put_reservation i x w r)"
  by (auto simp: kept_def put_reservation_def)

lemma kept_frames [simp]:
  "kept q h v (r\<lparr>se_assignments := m\<rparr>) = kept q h v r" "kept q h v (r\<lparr>se_activeTasks := t\<rparr>) = kept q h v r"
  "kept q h v (r\<lparr>se_eligibility := e\<rparr>) = kept q h v r"
  by (simp_all add: kept_def)

lemma kept_step: "sel_step r r' \<Longrightarrow> kept q h v r \<Longrightarrow> kept q h v r'"
proof (induction rule: sel_step.induct)
  case (prepared r m draft)
  then show ?case by (auto simp: sel_prepare_def Let_def kept_def split: option.split)
next
  case (submitted r now i t)
  then show ?case
    by (auto simp: record_submitted_def Let_def split: option.split intro!: kept_put same_terms_update)
next
  case (confirmed r now i res)
  then show ?case
    by (auto simp: sel_confirm_def Let_def split: option.split intro!: kept_put same_terms_update)
next
  case (failed r now i t reason)
  then show ?case
    by (auto simp: sel_fail_def sel_terminate_def Let_def split: option.split intro!: kept_put same_terms_update)
next
  case (expired r now i)
  then show ?case
    by (auto simp: sel_expire_def sel_terminate_def Let_def split: option.split intro!: kept_put same_terms_update)
qed (auto simp: set_eligibility_def clear_eligibility_def)

lemma kept_moves: "sel_moves r r' \<Longrightarrow> kept q h v r \<Longrightarrow> kept q h v r'"
  by (induction rule: rtranclp_induct) (auto intro: kept_step)

text \<open>A first successful call of \<open>Reserve\<close>.\<close>

lemma reserve_store_new:
  assumes "reserve_store C P now session key h taskID i e p hs pay d s = (s', Inr (x, False))"
  shows "kept (sel_request_key (se_UserID session) key) h (in_Reservation x) (sw_repo s') \<and>
    (\<exists>lease s1. sp_reserve P (el_AgentID e) i (time_sub d now) s = (s1, Inr lease) \<and>
      in_Reservation x = reserve_draft C now session taskID i e p hs pay lease) \<and> sel_intent P now (in_Reservation x) False = Inr (x, False)"
proof -
  obtain s1 a where a: "sp_reserve P (el_AgentID e) i (time_sub d now) s = (s1, a)"
    by (cases "sp_reserve P (el_AgentID e) i (time_sub d now) s")
  obtain lease where l: "a = Inr lease" using assms a by (cases a) (auto simp: reserve_store_def split: selection_error.splits)
  let ?m = "\<lparr>sm_PublisherID = se_UserID session, sm_IdempotencyKey = key, sm_RequestHash = h, sm_Now = now\<rparr>"
  let ?draft = "reserve_draft C now session taskID i e p hs pay lease"
  obtain r y where p: "sel_prepare ?m ?draft (sw_repo s1) = (r, y)" by (cases "sel_prepare ?m ?draft (sw_repo s1)")
  with assms a l obtain stored replay where y: "y = Inr (stored, replay)" "s' = s1\<lparr>sw_repo := r\<rparr>" "sel_intent P now stored replay = Inr (x, False)"
    by (cases y) (auto simp: reserve_store_def Let_def)
  from y(3) have x: "in_Reservation x = stored" "\<not> replay" by (auto simp: sel_intent_def rbind_Inr_iff split: if_splits)
  have upd: "?draft\<lparr>rv_CreatedAt := now, rv_UpdatedAt := now, rv_Status := StatusReserved\<rparr> = ?draft" by (simp add: reserve_draft_def)
  with p y(1) x have st: "stored = ?draft" "kept (sel_request_key (se_UserID session) key) h stored r"
    by (auto simp: sel_prepare_def Let_def kept_def split: option.splits if_splits)
  then show ?thesis using a l x y by simp
qed

lemma svc_reserve_new:
  assumes "svc_reserve C P now session key taskID q s = (s', Inr (x, False))"
  shows "publisher_authorized session \<and> \<not> (taskID = [] \<or> \<not> sel_valid_digest (rq_BatchID q) \<or> \<not> sel_valid_digest (rq_SlotID q) \<or> key = [] \<or> length key > 200) \<and>
    kept (sel_request_key (se_UserID session) key) (sha_string (sp_sha P (sp_json P taskID q))) (in_Reservation x) (sw_repo s') \<and>
    sel_intent P now (in_Reservation x) False = Inr (x, False)"
proof -
  let ?h = "sha_string (sp_sha P (sp_json P taskID q))"
  have ok: "publisher_authorized session" "\<not> (taskID = [] \<or> \<not> sel_valid_digest (rq_BatchID q) \<or> \<not> sel_valid_digest (rq_SlotID q) \<or> key = [] \<or> length key > 200)"
    using assms by (auto simp: svc_reserve_def split: if_splits)
  note e1 = assms [unfolded svc_reserve_def Let_def]
  obtain e where e: "get_eligibility (se_UserID session) taskID (rq_BatchID q) (rq_SlotID q) (sw_repo s) = Inr e"
    using e1 ok by (auto split: sum.splits if_splits)
  have rp: "sel_replay (se_UserID session) key ?h (sw_repo s) = Inr None"
    using e1 ok e by (auto simp: sel_intent_def rbind_Inr_iff split: sum.splits option.splits if_splits)
  from e1 ok e rp obtain p hs pay i d where "reserve_store C P now session key ?h taskID i e p hs pay d s = (s', Inr (x, False))"
    by (auto split: sum.splits option.splits if_splits prod.splits)
  then show ?thesis using ok reserve_store_new by blast
qed

lemma sel_intent_again:
  assumes "sel_intent P now v False = Inr (x, False)" "same_terms v w"
  shows "\<exists>y. sel_intent P now' w True = Inr (y, True) \<and> in_Reservation y = w"
proof -
  from assms(1) obtain g where g: "sp_signer P (rv_Proof v) = Inr (rv_ProofPayloadHash v, rv_ProofDigest v, g)"
    by (auto simp: sel_intent_def rbind_Inr_iff split: if_splits)
  then show ?thesis using same_terms_fields [OF assms(2)] by (simp add: sel_intent_def)
qed

lemma svc_reserve_again:
  assumes ok: "publisher_authorized session" "\<not> (taskID = [] \<or> \<not> sel_valid_digest (rq_BatchID q) \<or> \<not> sel_valid_digest (rq_SlotID q) \<or> key = [] \<or> length key > 200)"
    and k: "kept (sel_request_key (se_UserID session) key) (sha_string (sp_sha P (sp_json P taskID q))) v (sw_repo s)"
    and i: "sel_intent P now v False = Inr (x, False)"
    and e: "get_eligibility (se_UserID session) taskID (rq_BatchID q) (rq_SlotID q) (sw_repo s) = Inr e"
  shows "\<exists>y. svc_reserve C P now' session key taskID q s = (s, Inr (y, True)) \<and> same_terms v (in_Reservation y)"
proof -
  from k obtain w where w: "sel_replay (se_UserID session) key (sha_string (sp_sha P (sp_json P taskID q))) (sw_repo s) = Inr (Some w)" "same_terms v w"
    by (auto simp: kept_def sel_replay_def record_at_def)
  from sel_intent_again [OF i w(2)] obtain y where "sel_intent P now' w True = Inr (y, True)" "in_Reservation y = w" by blast
  then show ?thesis using ok w e by (simp add: svc_reserve_def Let_def)
qed

text \<open>What \<open>Reconcile\<close> does with the answer of the chain, branch by branch.\<close>

text \<open>The answer says that the submitted proof of the reservation was executed.\<close>

definition proves :: "chain_result \<Rightarrow> reservation \<Rightarrow> bool" where
  "proves res v \<longleftrightarrow> hr_Status res = ChainConfirmed \<and> hr_Proof res = rv_Proof v \<and> hr_FormalPayable res = rv_FormalPayable v \<and> hr_WorkNonce res = 1"

lemma sel_confirm_assignment:
  assumes "sel_confirm now i res r = (r', Inr (v, a, b))"
  shows "as_TransactionHash a = hr_TransactionHash res \<and> rv_Status v = StatusConfirmed"
  using assms by (auto simp: sel_confirm_def Let_def split: option.splits if_splits)

lemma reconcile_result_assignment:
  assumes "reconcile_result P now v h res s = (s', e, v', Some a)"
  shows "proves res v \<and> (hr_TransactionHash res = [] \<or> to_lower (hr_TransactionHash res) = h) \<and>
    as_TransactionHash a = hr_TransactionHash res \<and> rv_Status v' = StatusConfirmed \<and>
    (\<exists>r' b. sel_confirm now (rv_ID v) res (sw_repo s) = (r', Inr (v', a, b)))"
proof -
  have hash: "\<not> (hr_TransactionHash res \<noteq> [] \<and> to_lower (hr_TransactionHash res) \<noteq> h)"
  proof
    assume "hr_TransactionHash res \<noteq> [] \<and> to_lower (hr_TransactionHash res) \<noteq> h"
    then have "reconcile_result P now v h res s = (s, Some SErrProofMismatch, zero_reservation, None)" by (simp add: reconcile_result_def)
    then show False using assms by simp
  qed
  note e = assms [unfolded reconcile_result_def eq_False [THEN iffD2, OF hash] if_False]
  have st: "hr_Status res = ChainConfirmed"
    using e by (auto split: if_splits prod.splits sum.splits option.splits)
  with e have pr: "proves res v" by (auto simp: proves_def split: if_splits)
  obtain s1 y where c: "on_sel_repo (sel_confirm now (rv_ID v) res) s = (s1, y)" by (cases "on_sel_repo (sel_confirm now (rv_ID v) res) s")
  from e st pr c obtain b where y: "y = Inr (v', a, b)" by (auto simp: proves_def split: sum.splits prod.splits)
  from c y obtain r' where "sel_confirm now (rv_ID v) res (sw_repo s) = (r', Inr (v', a, b))" by (auto simp: on_sel_repo_def split: prod.splits)
  then show ?thesis using hash pr sel_confirm_assignment by blast
qed

lemma svc_reconcile_assignment:
  assumes "svc_reconcile P now session taskID i h s = (s', e, v', Some a)"
  shows "\<exists>v s1 res. own_reservation session taskID i (sw_repo s) = Inr v \<and> sp_verify P (to_lower h) s = (s1, Inr res) \<and> proves res v \<and>
    (hr_TransactionHash res = [] \<or> to_lower (hr_TransactionHash res) = to_lower h) \<and> as_TransactionHash a = hr_TransactionHash res \<and>
    rv_Status v' = StatusConfirmed"
proof -
  from assms obtain v where v: "own_reservation session taskID i (sw_repo s) = Inr v"
    by (auto simp: svc_reconcile_def split: if_splits sum.splits)
  obtain s1 x where x: "sp_verify P (to_lower h) s = (s1, x)" by (cases "sp_verify P (to_lower h) s")
  have ok: "\<not> (taskID = [] \<or> i = [] \<or> \<not> valid_transaction_hash h)" "publisher_authorized session"
    using assms by (auto simp: svc_reconcile_def split: if_splits)
  note e = assms [unfolded svc_reconcile_def Let_def v x prod.case sum.case]
  obtain res where res: "x = Inr res" using e ok by (auto split: sum.splits selection_error.splits prod.splits)
  with e ok have "reconcile_result P now v (to_lower h) res s1 = (s', e, v', Some a)" by simp
  from reconcile_result_assignment [OF this] v x res show ?thesis by blast
qed

lemma own_reservationD:
  assumes "own_reservation session taskID i r = Inr v" "sel_inv r"
  shows "rv_ID v = i \<and> rv_TaskID v = taskID \<and> rv_PublisherID v = se_UserID session \<and> (\<exists>x. gget (se_records r) i = Some x \<and> sr_reservation x = v)"
proof -
  from assms(1) obtain x where "gget (se_records r) i = Some x" "sr_reservation x = v" "rv_TaskID v = taskID" "rv_PublisherID v = se_UserID session"
    by (auto simp: own_reservation_def sel_get_def rbind_Inr_iff split: option.splits if_splits)
  then show ?thesis using sel_invD(1) [OF assms(2)] by auto
qed

lemma svc_reconcile_run:
  assumes "publisher_authorized session" "taskID \<noteq> []" "i \<noteq> []" "valid_transaction_hash h"
    and "own_reservation session taskID i (sw_repo s) = Inr v" "sp_verify P (to_lower h) s = (s1, Inr res)"
  shows "svc_reconcile P now session taskID i h s = reconcile_result P now v (to_lower h) res s1"
  using assms by (simp add: svc_reconcile_def Let_def)

text \<open>A proof found in time is recorded.\<close>

lemma sel_confirm_new:
  assumes inv: "sel_inv r" and x: "gget (se_records r) i = Some x" "sr_reservation x = v" and st: "unfinished v"
    and h: "rv_TransactionHash v = [] \<or> rv_TransactionHash v = hr_TransactionHash res"
    and p: "proves res v" and t: "now \<le> proof_deadline (rv_Proof v)"
    and own: "\<And>j y. gget (se_records r) j = Some y \<Longrightarrow> pf_AssignmentID (rv_Proof (sr_reservation y)) = pf_AssignmentID (rv_Proof v) \<Longrightarrow> j = i"
  shows "\<exists>r' v' a. sel_confirm now i res r = (r', Inr (v', a, False)) \<and> rv_Status v' = StatusConfirmed \<and> same_terms v v' \<and>
    as_ID a = pf_AssignmentID (rv_Proof v) \<and> as_TransactionHash a = hr_TransactionHash res \<and> as_FormalPayable a = rv_FormalPayable v"
proof -
  have "gget (se_assignments r) (pf_AssignmentID (rv_Proof v)) = None"
  proof (rule ccontr)
    assume "gget (se_assignments r) (pf_AssignmentID (rv_Proof v)) \<noteq> None"
    then obtain a where "gget (se_assignments r) (pf_AssignmentID (rv_Proof v)) = Some a" by auto
    from sel_assignment [OF inv this] obtain y where y: "gget (se_records r) (as_ReservationID a) = Some y"
      "rv_Status (sr_reservation y) = StatusConfirmed" "pf_AssignmentID (rv_Proof (sr_reservation y)) = pf_AssignmentID (rv_Proof v)" by blast
    from own [OF y(1,3)] y x st show False by (auto simp: unfinished_def)
  qed
  moreover have "rv_Status v \<noteq> StatusConfirmed" using st by (auto simp: unfinished_def)
  moreover have "same_terms v (v\<lparr>rv_Status := StatusConfirmed, rv_TransactionHash := hr_TransactionHash res, rv_UpdatedAt := now\<rparr>)"
    by (rule same_terms_update) simp
  ultimately show ?thesis using x st h p t by (auto simp: sel_confirm_def Let_def proves_def unfinished_def)
qed

end
