(* ===== verification/Selection_Properties.thy ===== *)
theory Selection_Properties
  imports Selection_Facts
begin

text \<open>The properties of the selection package, after the concrete values their witnesses evaluate.\<close>

text \<open>A concrete reservation, for the witnesses.\<close>

definition demo_bytes :: "char \<Rightarrow> string" where
  "demo_bytes c = replicate 32 c"

lemma length_demo_bytes [simp]: "length (demo_bytes c) = 32"
  by (simp add: demo_bytes_def)

definition demo_addr :: "char \<Rightarrow> string" where
  "demo_addr c = ''0x'' @ hex_encode (replicate 20 c)"

lemma demo_addr_simps [simp]:
  "to_lower (demo_addr c) = demo_addr c" "is_wallet_address (demo_addr c)" "auth_address (demo_addr c)"
  "address_word (demo_addr c) = Inr (replicate 12 (char_of (0 :: nat)) @ replicate 20 c)"
proof -
  show low: "to_lower (demo_addr c) = demo_addr c" unfolding demo_addr_def to_lower_append to_lower_hex by (simp add: to_lower_def char_lower_def)
  show "is_wallet_address (demo_addr c)" by (simp add: demo_addr_def is_wallet_address_def has_prefix_def)
  show auth: "auth_address (demo_addr c)" using low by (simp add: auth_address_def) (simp add: demo_addr_def has_prefix_def)
  show "address_word (demo_addr c) = Inr (replicate 12 (char_of (0 :: nat)) @ replicate 20 c)"
    unfolding address_word_def using auth low by (simp add: strip_prefix_def) (simp add: demo_addr_def has_prefix_def)
qed

lemma sel_valid_digest_sha [simp]: "length d = 32 \<Longrightarrow> sel_valid_digest (sha_string d)"
  by (simp add: sel_valid_digest_def sha_string_def has_prefix_def)

lemma digest_to_bytes32_sha [simp]: "length d = 32 \<Longrightarrow> digest_to_bytes32 (sha_string d) = hex32 d"
  by (simp add: digest_to_bytes32_def) (simp add: sha_string_def hex32_def)

definition demo_publisher :: session where
  "demo_publisher = \<lparr>se_UserID = ''pub'', se_Wallet = demo_addr CHR ''w'', se_Roles = [''publisher'']\<rparr>"

definition demo_eligibility :: eligibility where
  "demo_eligibility = \<lparr>el_TaskID = ''t1'', el_ChainTaskID = hex32 (demo_bytes CHR ''t''), el_ChainID = ''1'', el_ContractAddress = demo_addr CHR ''k'',
     el_TaskDeadline = unix_time 9000, el_SnapshotID = ''snap'', el_TaskSpecHash = sha_string (demo_bytes CHR ''s''), el_MatchRevision = 1,
     el_PolicyHash = sha_string (demo_bytes CHR ''p''), el_BatchID = sha_string (demo_bytes CHR ''b''), el_SlotID = sha_string (demo_bytes CHR ''l''),
     el_AgentID = ''agent'', el_ProviderID = ''prov'', el_AgentController = demo_addr CHR ''c'', el_Payout = demo_addr CHR ''y'', el_PriceVersion = 1,
     el_QuoteHash = sha_string (demo_bytes CHR ''q''), el_AllocationID = sha_string (demo_bytes CHR ''a''), el_OverviewPrice = ''10'',
     el_FormalGrossPrice = ''100''\<rparr>"

definition demo_sel_config :: sel_config where
  "demo_sel_config = \<lparr>sc_ChainID = ''1'', sc_ContractAddress = demo_addr CHR ''k'', sc_ReservationTTL = minute_ns\<rparr>"

definition demo_slot_request :: reserve_request where
  "demo_slot_request = \<lparr>rq_BatchID = sha_string (demo_bytes CHR ''b''), rq_SlotID = sha_string (demo_bytes CHR ''l'')\<rparr>"

text \<open>Peers around a verifier; the rest of the world counts the released leases.\<close>

definition demo_sel_peers :: "(string \<Rightarrow> nat sel_world \<Rightarrow> nat sel_world \<times> (selection_error + chain_result)) \<Rightarrow> nat sel_peers" where
  "demo_sel_peers verify =
     \<lparr>sp_sha = (\<lambda>_. demo_bytes CHR ''h''), sp_json = (\<lambda>t q. t), sp_signer = (\<lambda>p. Inr (''payload'', ''digest'', ''signature'')),
      sp_reserve = (\<lambda>agent i ttl s. (s, Inr \<lparr>le_ReservationID = i, le_AgentID = agent, le_FencingToken = 7, le_ExpiresAt = unix_time 1060\<rparr>)),
      sp_release = (\<lambda>i token s. (s\<lparr>sw_rest := sw_rest s + 1\<rparr>, None)), sp_verify = verify\<rparr>"

definition demo_sel_world :: "nat sel_world" where
  "demo_sel_world = \<lparr>sw_repo = set_eligibility ''pub'' demo_eligibility new_sel_repository, sw_rest = 0\<rparr>"

definition demo_proof :: selection_proof where
  "demo_proof = \<lparr>pf_TaskID = hex32 (demo_bytes CHR ''t''), pf_AssignmentID = hex32 (demo_bytes CHR ''h''), pf_AgentController = demo_addr CHR ''c'',
     pf_Payout = demo_addr CHR ''y'', pf_OverviewID = hex32 (demo_bytes CHR ''l''), pf_AllocationID = hex32 (demo_bytes CHR ''a''),
     pf_QuoteHash = hex32 (demo_bytes CHR ''q''), pf_TaskSpecHash = hex32 (demo_bytes CHR ''s''), pf_MatchRevision = 1, pf_PriceVersion = 1,
     pf_OverviewPrice = ''10'', pf_FormalGrossPrice = ''100'', pf_OverviewCredit = ''10'', pf_PolicyHash = hex32 (demo_bytes CHR ''p''),
     pf_Nonce = hex32 (demo_bytes CHR ''h''), pf_Deadline = 1060\<rparr>"

definition demo_reservation :: reservation where
  "demo_reservation = \<lparr>rv_ID = sha_string (demo_bytes CHR ''h''), rv_PublisherID = ''pub'', rv_PublisherWallet = demo_addr CHR ''w'', rv_TaskID = ''t1'',
     rv_BatchID = sha_string (demo_bytes CHR ''b''), rv_SlotID = sha_string (demo_bytes CHR ''l''), rv_SnapshotID = ''snap'', rv_AgentID = ''agent'',
     rv_ProviderID = ''prov'', rv_ChainID = ''1'', rv_ContractAddress = demo_addr CHR ''k'', rv_Proof = demo_proof, rv_ProofPayloadHash = ''payload'',
     rv_ProofDigest = ''digest'', rv_FormalPayable = ''90'', rv_CapacityFencingToken = 7, rv_CapacityExpiresAt = unix_time 1060, rv_Status = StatusReserved,
     rv_TransactionHash = [], rv_FailureReasonCode = [], rv_CreatedAt = unix_time 1000, rv_UpdatedAt = unix_time 1000\<rparr>"

lemma demo_digits [simp]:
  "bigint_parse ''10'' = Some 10" "bigint_parse ''100'' = Some 100" "bigint_string 10 = ''10''" "bigint_string 100 = ''100''" "bigint_string 90 = ''90''"
proof -
  show a: "bigint_string 10 = ''10''" "bigint_string 100 = ''100''" "bigint_string 90 = ''90''"
    by code_simp+
  show "bigint_parse ''10'' = Some 10" "bigint_parse ''100'' = Some 100" by (metis a bigint_roundtrip)+
qed

lemma demo_subtract [simp]: "sel_subtract ''100'' ''10'' = Some ''90''"
  by (simp add: sel_subtract_def)

lemma demo_deadline: "reserve_deadline demo_sel_config (unix_time 1000) demo_eligibility = unix_time 1060"
  by (simp add: reserve_deadline_def demo_sel_config_def demo_eligibility_def unix_time_def)

lemma demo_reserve_proof: "reserve_proof (demo_sel_peers V) (unix_time 1060) i demo_eligibility = demo_proof"
  by (simp add: reserve_proof_def demo_sel_peers_def demo_eligibility_def demo_proof_def bytes32_id_def sel_stable_digest_def)

definition demo_stored :: "sel_repo" where
  "demo_stored = fst (sel_prepare \<lparr>sm_PublisherID = ''pub'', sm_IdempotencyKey = ''k'', sm_RequestHash = sha_string (demo_bytes CHR ''h''), sm_Now = unix_time 1000\<rparr>
     demo_reservation (sw_repo demo_sel_world))"

text \<open>The call that stores it.\<close>

lemma demo_publisher_ok [simp]: "publisher_authorized demo_publisher" "se_UserID demo_publisher = ''pub''"
  by (simp_all add: publisher_authorized_def demo_publisher_def)

lemma demo_slots_valid [simp]: "sel_valid_digest (rq_BatchID demo_slot_request)" "sel_valid_digest (rq_SlotID demo_slot_request)"
  by (simp_all add: demo_slot_request_def)

lemma demo_eligible: "get_eligibility ''pub'' ''t1'' (rq_BatchID demo_slot_request) (rq_SlotID demo_slot_request) (sw_repo demo_sel_world) = Inr demo_eligibility"
  by (simp add: get_eligibility_def demo_sel_world_def set_eligibility_def demo_slot_request_def) (simp add: demo_eligibility_def)

lemma demo_sel_hash: "sha_string (sp_sha (demo_sel_peers V) x) = sha_string (demo_bytes CHR ''h'')"
  "sel_stable_digest (sp_sha (demo_sel_peers V)) xs = sha_string (demo_bytes CHR ''h'')"
  by (simp_all add: demo_sel_peers_def sel_stable_digest_def)

lemma demo_prepare:
  "sel_prepare \<lparr>sm_PublisherID = ''pub'', sm_IdempotencyKey = ''k'', sm_RequestHash = sha_string (demo_bytes CHR ''h''), sm_Now = unix_time 1000\<rparr>
     demo_reservation (sw_repo demo_sel_world) = (demo_stored, Inr (demo_reservation, False))" (is ?prepared)
  "demo_stored = (sw_repo demo_sel_world)\<lparr>
     se_records := [(rv_ID demo_reservation, \<lparr>sr_reservation = demo_reservation, sr_key = ''k'', sr_requestHash = sha_string (demo_bytes CHR ''h'')\<rparr>)],
     se_requestIndex := [(sel_request_key ''pub'' ''k'', rv_ID demo_reservation)], se_activeTasks := [(rv_TaskID demo_reservation, rv_ID demo_reservation)]\<rparr>" (is ?stored)
proof -
  have e: "gget (se_eligibility (sw_repo demo_sel_world)) (eligibility_key ''pub'' (rv_TaskID demo_reservation) (rv_BatchID demo_reservation)
      (rv_SlotID demo_reservation)) = Some demo_eligibility"
    by (simp add: demo_sel_world_def set_eligibility_def demo_reservation_def) (simp add: demo_eligibility_def)
  have m: "reservation_matches_eligibility demo_reservation demo_eligibility"
    by (simp add: reservation_matches_eligibility_def demo_reservation_def demo_eligibility_def demo_proof_def)
  have n: "se_requestIndex (sw_repo demo_sel_world) = []" "se_activeTasks (sw_repo demo_sel_world) = []" "se_records (sw_repo demo_sel_world) = []"
    by (simp_all add: demo_sel_world_def set_eligibility_def new_sel_repository_def)
  have u: "demo_reservation\<lparr>rv_CreatedAt := unix_time 1000, rv_UpdatedAt := unix_time 1000, rv_Status := StatusReserved\<rparr> = demo_reservation"
    by (simp add: demo_reservation_def)
  show ?prepared ?stored unfolding demo_stored_def by (simp_all add: sel_prepare_def e m n Let_def u) (simp add: gput_def)
qed

lemma demo_reserve_draft:
  "reserve_draft demo_sel_config (unix_time 1000) demo_publisher ''t1'' (sha_string (demo_bytes CHR ''h'')) demo_eligibility demo_proof
     (''payload'', ''digest'') ''90'' \<lparr>le_ReservationID = i, le_AgentID = ''agent'', le_FencingToken = 7, le_ExpiresAt = unix_time 1060\<rparr> = demo_reservation"
  by (simp add: reserve_draft_def demo_publisher_def demo_eligibility_def demo_sel_config_def demo_reservation_def)

lemma demo_reserve:
  "\<exists>x. svc_reserve demo_sel_config (demo_sel_peers V) (unix_time 1000) demo_publisher ''k'' ''t1'' demo_slot_request demo_sel_world =
     (demo_sel_world\<lparr>sw_repo := demo_stored\<rparr>, Inr (x, False)) \<and> in_Reservation x = demo_reservation"
proof -
  let ?P = "demo_sel_peers V"
  have r: "sel_replay ''pub'' ''k'' h (sw_repo demo_sel_world) = Inr None" for h
    by (simp add: sel_replay_def demo_sel_world_def set_eligibility_def new_sel_repository_def)
  have f: "el_FormalGrossPrice demo_eligibility = ''100''" "el_OverviewPrice demo_eligibility = ''10''" "el_ChainTaskID demo_eligibility \<noteq> []"
    "el_ChainID demo_eligibility = sc_ChainID demo_sel_config" "to_lower (el_ContractAddress demo_eligibility) = sc_ContractAddress demo_sel_config"
    "el_AgentID demo_eligibility = ''agent''"
    by (simp_all add: demo_eligibility_def demo_sel_config_def hex32_def)
  have late: "unix_time 1060 > unix_time 1000" by (simp add: unix_time_def)
  have sig: "sp_signer ?P p = Inr (''payload'', ''digest'', ''signature'')" for p by (simp add: demo_sel_peers_def)
  have res: "sp_reserve ?P a i ttl w = (w, Inr \<lparr>le_ReservationID = i, le_AgentID = a, le_FencingToken = 7, le_ExpiresAt = unix_time 1060\<rparr>)" for a i ttl w
    by (simp add: demo_sel_peers_def)
  have "\<exists>x. sel_intent ?P (unix_time 1000) demo_reservation False = Inr (x, False) \<and> in_Reservation x = demo_reservation"
    by (simp add: sel_intent_def sig) (simp add: demo_reservation_def)
  then show ?thesis
    using demo_eligible unfolding svc_reserve_def reserve_store_def Let_def
    by (simp add: r f demo_sel_hash demo_deadline demo_reserve_proof late sig res demo_reserve_draft demo_prepare(1))
qed

definition demo_res :: "string \<Rightarrow> chain_result" where
  "demo_res h = \<lparr>hr_Status = ChainConfirmed, hr_TransactionHash = h, hr_BlockNumber = 9, hr_LogIndex = 0, hr_Proof = demo_proof, hr_FormalPayable = ''90'',
     hr_WorkNonce = 1, hr_FailureReasonCode = []\<rparr>"

definition demo_tx :: "char \<Rightarrow> string" where
  "demo_tx c = hex32 (demo_bytes c)"

lemma demo_tx_simps [simp]: "to_lower (demo_tx c) = demo_tx c" "valid_transaction_hash (demo_tx c)" "demo_tx c \<noteq> []"
proof -
  show "to_lower (demo_tx c) = demo_tx c" unfolding demo_tx_def hex32_def to_lower_append to_lower_hex by (simp add: to_lower_def char_lower_def)
  show "valid_transaction_hash (demo_tx c)" "demo_tx c \<noteq> []" by (simp_all add: valid_transaction_hash_def demo_tx_def hex32_def has_prefix_def)
qed

text \<open>The properties of the selection of an agent.\<close>

lemma demo_selection_reachable: "sel_reachable demo_stored"
proof -
  let ?m = "\<lparr>sm_PublisherID = ''pub'', sm_IdempotencyKey = ''k'', sm_RequestHash = sha_string (demo_bytes CHR ''h''), sm_Now = unix_time 1000\<rparr>"
  have "sel_step new_sel_repository (sw_repo demo_sel_world)" using sel_step.eligible by (simp add: demo_sel_world_def)
  moreover have "sel_step (sw_repo demo_sel_world) demo_stored" unfolding demo_stored_def by (rule sel_step.prepared)
  ultimately show ?thesis unfolding sel_reachable_def by (meson converse_rtranclp_into_rtranclp rtranclp.rtrancl_refl)
qed

lemma demo_peers_ok: "sel_peers_ok (demo_sel_peers (\<lambda>h s. (s, Inr res)))"
  by (simp add: sel_peers_ok_def demo_sel_peers_def)

lemma demo_record: "gget (se_records demo_stored) (rv_ID demo_reservation) =
    Some \<lparr>sr_reservation = demo_reservation, sr_key = ''k'', sr_requestHash = sha_string (demo_bytes CHR ''h'')\<rparr>"
  "se_eligibility demo_stored = se_eligibility (sw_repo demo_sel_world)" "se_assignments demo_stored = []"
  "gget (se_records demo_stored) j \<noteq> None \<Longrightarrow> j = rv_ID demo_reservation"
  by (auto simp: demo_prepare(2) gget_def demo_sel_world_def set_eligibility_def new_sel_repository_def split: if_splits)

lemma demo_own: "own_reservation demo_publisher ''t1'' (rv_ID demo_reservation) demo_stored = Inr demo_reservation"
proof -
  have e: "get_eligibility ''pub'' ''t1'' (rv_BatchID demo_reservation) (rv_SlotID demo_reservation) demo_stored = Inr demo_eligibility"
    using demo_eligible by (simp add: get_eligibility_def demo_record(2)) (simp add: demo_slot_request_def demo_reservation_def)
  have "rv_PublisherID demo_reservation = ''pub''" "rv_TaskID demo_reservation = ''t1''" by (simp_all add: demo_reservation_def)
  then show ?thesis by (simp add: own_reservation_def sel_get_def demo_record(1) e)
qed

text \<open>
  C8: One reservation per task. After any call, whatever runs while the call waits for its peers, no two live
  (reserved, submitted or confirmed) reservations are of the same task; every confirmed reservation has its
  assignment, with the same agent, amount and transaction; and every assignment belongs to a confirmed reservation.
\<close>

theorem one_reservation_per_task:
  assumes "sel_reachable (sw_repo s)" "sel_peers_ok P"
  shows "(\<forall>i j x y. gget (se_records (sw_repo (sel_exec C P now c s))) i = Some x \<longrightarrow> gget (se_records (sw_repo (sel_exec C P now c s))) j = Some y \<longrightarrow>
      live (sr_reservation x) \<longrightarrow> live (sr_reservation y) \<longrightarrow> rv_TaskID (sr_reservation x) = rv_TaskID (sr_reservation y) \<longrightarrow> i = j) \<and>
    (\<forall>i x. gget (se_records (sw_repo (sel_exec C P now c s))) i = Some x \<longrightarrow> rv_Status (sr_reservation x) = StatusConfirmed \<longrightarrow>
      has_assignment (sw_repo (sel_exec C P now c s)) (sr_reservation x)) \<and>
    (\<forall>k a. gget (se_assignments (sw_repo (sel_exec C P now c s))) k = Some a \<longrightarrow>
      (\<exists>x. gget (se_records (sw_repo (sel_exec C P now c s))) (as_ReservationID a) = Some x \<and> rv_Status (sr_reservation x) = StatusConfirmed \<and>
         pf_AssignmentID (rv_Proof (sr_reservation x)) = k))"
proof -
  have inv: "sel_inv (sw_repo (sel_exec C P now c s))" by (rule sel_reachable_inv [OF sel_exec_reachable [OF assms]])
  show ?thesis
  proof (intro conjI allI impI)
    fix i j x y
    assume "gget (se_records (sw_repo (sel_exec C P now c s))) i = Some x" "gget (se_records (sw_repo (sel_exec C P now c s))) j = Some y"
      "live (sr_reservation x)" "live (sr_reservation y)" "rv_TaskID (sr_reservation x) = rv_TaskID (sr_reservation y)"
    then show "i = j" using sel_invD(2) [OF inv] by (metis option.inject)
  qed (use sel_invD(3) [OF inv] sel_assignment [OF inv] in blast)+
qed

definition demo_final :: "nat sel_world" where
  "demo_final = sel_exec demo_sel_config (demo_sel_peers (\<lambda>h s. (s, Inr (demo_res h)))) (unix_time 1010)
     (SReconcile demo_publisher ''t1'' (rv_ID demo_reservation) (demo_tx CHR ''x'')) (demo_sel_world\<lparr>sw_repo := demo_stored\<rparr>)"

theorem one_reservation_per_task_witness:
  "sel_reachable demo_stored \<and> gget (se_records demo_stored) (rv_ID demo_reservation) \<noteq> None \<and>
   \<not> (\<exists>i j x y. i \<noteq> j \<and> gget (se_records (sw_repo demo_final)) i = Some x \<and> gget (se_records (sw_repo demo_final)) j = Some y \<and>
      live (sr_reservation x) \<and> live (sr_reservation y) \<and> rv_TaskID (sr_reservation x) = rv_TaskID (sr_reservation y))"
proof -
  have "sel_reachable (sw_repo (demo_sel_world\<lparr>sw_repo := demo_stored\<rparr>))" using demo_selection_reachable by simp
  moreover have "sel_peers_ok (demo_sel_peers (\<lambda>h s. (s, Inr (demo_res h))))" by (simp add: sel_peers_ok_def demo_sel_peers_def)
  ultimately have "\<forall>i j x y. gget (se_records (sw_repo demo_final)) i = Some x \<longrightarrow> gget (se_records (sw_repo demo_final)) j = Some y \<longrightarrow>
      live (sr_reservation x) \<longrightarrow> live (sr_reservation y) \<longrightarrow> rv_TaskID (sr_reservation x) = rv_TaskID (sr_reservation y) \<longrightarrow> i = j"
    unfolding demo_final_def by (rule one_reservation_per_task [THEN conjunct1])
  then show ?thesis using demo_selection_reachable demo_record(1) by blast
qed

text \<open>
  A lost answer to \<open>Reserve\<close> costs nothing. When a call stored a reservation, the same call made again, after
  any steps of the repository and at any time, changes nothing and answers with the same reservation (its
  progress apart), as long as the agent is still eligible.
\<close>

theorem reserve_replays:
  assumes "svc_reserve C P now session key taskID q s = (s1, Inr (x, False))" "sel_moves (sw_repo s1) (sw_repo s2)"
    and "get_eligibility (se_UserID session) taskID (rq_BatchID q) (rq_SlotID q) (sw_repo s2) = Inr e"
  shows "\<exists>y. svc_reserve C P now' session key taskID q s2 = (s2, Inr (y, True)) \<and> same_terms (in_Reservation x) (in_Reservation y)"
proof -
  from svc_reserve_new [OF assms(1)] have n: "publisher_authorized session"
    "\<not> (taskID = [] \<or> \<not> sel_valid_digest (rq_BatchID q) \<or> \<not> sel_valid_digest (rq_SlotID q) \<or> key = [] \<or> length key > 200)"
    "kept (sel_request_key (se_UserID session) key) (sha_string (sp_sha P (sp_json P taskID q))) (in_Reservation x) (sw_repo s1)"
    "sel_intent P now (in_Reservation x) False = Inr (x, False)" by blast+
  from svc_reserve_again [OF n(1,2) kept_moves [OF assms(2) n(3)] n(4) assms(3)] show ?thesis .
qed

theorem reserve_replays_witness:
  "\<exists>y. svc_reserve demo_sel_config (demo_sel_peers (\<lambda>h s. (s, Inr (demo_res h)))) (unix_time 1050) demo_publisher ''k'' ''t1'' demo_slot_request
     (demo_sel_world\<lparr>sw_repo := fst (record_submitted (unix_time 1010) (rv_ID demo_reservation) (demo_tx CHR ''x'') demo_stored)\<rparr>) =
     (demo_sel_world\<lparr>sw_repo := fst (record_submitted (unix_time 1010) (rv_ID demo_reservation) (demo_tx CHR ''x'') demo_stored)\<rparr>, Inr (y, True)) \<and>
     same_terms demo_reservation (in_Reservation y)"
proof -
  let ?V = "\<lambda>h s. (s, Inr (demo_res h))"
  let ?r = "fst (record_submitted (unix_time 1010) (rv_ID demo_reservation) (demo_tx CHR ''x'') demo_stored)"
  from demo_reserve [of ?V] obtain x where x: "svc_reserve demo_sel_config (demo_sel_peers ?V) (unix_time 1000) demo_publisher ''k'' ''t1'' demo_slot_request demo_sel_world =
     (demo_sel_world\<lparr>sw_repo := demo_stored\<rparr>, Inr (x, False))" "in_Reservation x = demo_reservation" by blast
  have m: "sel_moves (sw_repo (demo_sel_world\<lparr>sw_repo := demo_stored\<rparr>)) (sw_repo (demo_sel_world\<lparr>sw_repo := ?r\<rparr>))"
    using sel_step.submitted by auto
  have "se_eligibility ?r = se_eligibility (sw_repo demo_sel_world)"
    by (simp add: record_submitted_def demo_record(1,2) Let_def put_reservation_def)
  then have e: "get_eligibility (se_UserID demo_publisher) ''t1'' (rq_BatchID demo_slot_request) (rq_SlotID demo_slot_request) (sw_repo (demo_sel_world\<lparr>sw_repo := ?r\<rparr>)) =
     Inr demo_eligibility" using demo_eligible by (simp add: get_eligibility_def)
  from reserve_replays [OF x(1) m e, of "unix_time 1050"] x(2) show ?thesis by simp
qed

text \<open>
  An assignment needs the chain. \<open>Reconcile\<close> returns an assignment only when the verifier confirmed a
  transaction whose proof is the one the platform signed for this reservation, with its amount and work nonce 1, and
  the transaction is the one the caller named.
\<close>

theorem assignment_needs_proof:
  assumes "svc_reconcile P now session taskID i h s = (s', e, v', Some a)"
  shows "\<exists>v s1 res. own_reservation session taskID i (sw_repo s) = Inr v \<and> sp_verify P (to_lower h) s = (s1, Inr res) \<and> proves res v \<and>
    (hr_TransactionHash res = [] \<or> to_lower (hr_TransactionHash res) = to_lower h) \<and> as_TransactionHash a = hr_TransactionHash res \<and>
    rv_Status v' = StatusConfirmed"
  by (rule svc_reconcile_assignment [OF assms])

lemma demo_confirmed:
  "\<exists>v' a. snd (svc_reconcile (demo_sel_peers (\<lambda>h s. (s, Inr (demo_res h)))) (unix_time 1010) demo_publisher ''t1'' (rv_ID demo_reservation) (demo_tx CHR ''x'')
     (demo_sel_world\<lparr>sw_repo := demo_stored\<rparr>)) = (None, v', Some a)"
proof -
  let ?P = "demo_sel_peers (\<lambda>h s. (s, Inr (demo_res h)))"
  let ?w = "demo_sel_world\<lparr>sw_repo := demo_stored\<rparr>"
  have p: "proves (demo_res (demo_tx CHR ''x'')) demo_reservation" by (simp add: proves_def demo_res_def demo_reservation_def)
  have t: "unix_time 1010 \<le> proof_deadline (rv_Proof demo_reservation)"
    by (simp add: proof_deadline_def demo_reservation_def demo_proof_def unix_time_def int64_range_def)
  have "\<exists>r' v' a. sel_confirm (unix_time 1010) (rv_ID demo_reservation) (demo_res (demo_tx CHR ''x'')) demo_stored = (r', Inr (v', a, False)) \<and>
      rv_Status v' = StatusConfirmed \<and> same_terms demo_reservation v' \<and> as_ID a = pf_AssignmentID (rv_Proof demo_reservation) \<and>
      as_TransactionHash a = hr_TransactionHash (demo_res (demo_tx CHR ''x'')) \<and> as_FormalPayable a = rv_FormalPayable demo_reservation"
    by (rule sel_confirm_new [OF sel_reachable_inv [OF demo_selection_reachable] demo_record(1) _ _ _ p t])
      (simp_all add: unfinished_def demo_reservation_def, metis demo_record(4) demo_reservation_def option.distinct(1) reservation.select_convs(1))
  then obtain r' v' a where c: "sel_confirm (unix_time 1010) (rv_ID demo_reservation) (demo_res (demo_tx CHR ''x'')) demo_stored = (r', Inr (v', a, False))" by blast
  have v: "sp_verify ?P (to_lower (demo_tx CHR ''x'')) ?w = (?w, Inr (demo_res (demo_tx CHR ''x'')))" by (simp add: demo_sel_peers_def)
  have "svc_reconcile ?P (unix_time 1010) demo_publisher ''t1'' (rv_ID demo_reservation) (demo_tx CHR ''x'') ?w =
      reconcile_result ?P (unix_time 1010) demo_reservation (demo_tx CHR ''x'') (demo_res (demo_tx CHR ''x'')) ?w"
    using svc_reconcile_run [OF _ _ _ _ _ v] demo_own by (simp add: demo_reservation_def sha_string_def)
  moreover have "snd (reconcile_result ?P (unix_time 1010) demo_reservation (demo_tx CHR ''x'') (demo_res (demo_tx CHR ''x'')) ?w) = (None, v', Some a)"
    using c p by (simp add: reconcile_result_def proves_def on_sel_repo_def) (simp add: demo_res_def demo_sel_peers_def release_error_def)
  ultimately show ?thesis by auto
qed

theorem assignment_needs_proof_witness:
  "\<exists>a. as_TransactionHash a = demo_tx CHR ''x'' \<and>
    (\<exists>s' v'. svc_reconcile (demo_sel_peers (\<lambda>h s. (s, Inr (demo_res h)))) (unix_time 1010) demo_publisher ''t1'' (rv_ID demo_reservation) (demo_tx CHR ''x'')
     (demo_sel_world\<lparr>sw_repo := demo_stored\<rparr>) = (s', None, v', Some a) \<and> rv_Status v' = StatusConfirmed)"
proof -
  let ?call = "svc_reconcile (demo_sel_peers (\<lambda>h s. (s, Inr (demo_res h)))) (unix_time 1010) demo_publisher ''t1'' (rv_ID demo_reservation) (demo_tx CHR ''x'')
     (demo_sel_world\<lparr>sw_repo := demo_stored\<rparr>)"
  from demo_confirmed obtain v' a where "snd ?call = (None, v', Some a)" by blast
  then obtain s' where c: "?call = (s', None, v', Some a)" by (cases ?call) simp
  from assignment_needs_proof [OF c] have "as_TransactionHash a = demo_tx CHR ''x''" "rv_Status v' = StatusConfirmed"
    by (auto simp: demo_sel_peers_def demo_res_def)
  then show ?thesis using c by blast
qed

text \<open>
  C34: A failed transaction of somebody else frees the agent. While a reservation is submitted under one
  transaction, \<open>Reconcile\<close> with another one that failed releases the reserved capacity and then answers with a
  content conflict: the reservation stays submitted without the capacity it was made for.
\<close>

theorem unrelated_failure_releases_capacity:
  assumes "publisher_authorized session" "taskID \<noteq> []" "i \<noteq> []" "valid_transaction_hash h"
    and "own_reservation session taskID i (sw_repo s) = Inr v" "rv_Status v = StatusSubmitted" "rv_TransactionHash v \<noteq> []"
    and "rv_TransactionHash v \<noteq> to_lower h" "rv_ID v = i"
    and "sp_verify P (to_lower h) s = (s1, Inr res)" "hr_Status res = ChainFailed" "hr_TransactionHash res = to_lower h" "sw_repo s1 = sw_repo s"
    and "sp_release P i (rv_CapacityFencingToken v) s1 = (s2, None)" "sw_repo s2 = sw_repo s"
  shows "svc_reconcile P now session taskID i h s = (s2, Some SErrContentConflict, zero_reservation, None)"
proof -
  from assms(5) have g: "\<exists>x. gget (se_records (sw_repo s)) i = Some x \<and> sr_reservation x = v"
    by (auto simp: own_reservation_def sel_get_def rbind_Inr_iff split: option.splits if_splits)
  have h: "to_lower h \<noteq> []" using assms(4) by (auto simp: valid_transaction_hash_def to_lower_def split: if_splits)
  have "sel_fail now i (to_lower h) reason (sw_repo s) = (sw_repo s, Inl SErrContentConflict)" for reason
    using g assms(6,7,8) h by (auto simp: sel_fail_def sel_terminate_def Let_def)
  then have "reconcile_result P now v (to_lower h) res s1 = (s2, Some SErrContentConflict, zero_reservation, None)"
    using assms(9-15) by (simp add: reconcile_result_def release_error_def on_sel_repo_def)
  then show ?thesis using svc_reconcile_run [OF assms(1-5,10)] by simp
qed

definition demo_submitted :: sel_repo where
  "demo_submitted = fst (record_submitted (unix_time 1010) (rv_ID demo_reservation) (demo_tx CHR ''x'') demo_stored)"

definition demo_failed_result :: "string \<Rightarrow> chain_result" where
  "demo_failed_result h = zero_chain_result\<lparr>hr_Status := ChainFailed, hr_TransactionHash := h\<rparr>"

lemma demo_own_submitted:
  "own_reservation demo_publisher ''t1'' (rv_ID demo_reservation) demo_submitted =
     Inr (demo_reservation\<lparr>rv_Status := StatusSubmitted, rv_TransactionHash := demo_tx CHR ''x'', rv_UpdatedAt := unix_time 1010\<rparr>)"
proof -
  let ?v = "demo_reservation\<lparr>rv_Status := StatusSubmitted, rv_TransactionHash := demo_tx CHR ''x'', rv_UpdatedAt := unix_time 1010\<rparr>"
  have st: "rv_Status demo_reservation = StatusReserved" "rv_TransactionHash demo_reservation = []" "rv_PublisherID demo_reservation = ''pub''"
    "rv_TaskID demo_reservation = ''t1''" "rv_BatchID demo_reservation = rq_BatchID demo_slot_request" "rv_SlotID demo_reservation = rq_SlotID demo_slot_request"
    by (simp_all add: demo_reservation_def demo_slot_request_def)
  then have r: "demo_submitted = put_reservation (rv_ID demo_reservation)
      \<lparr>sr_reservation = demo_reservation, sr_key = ''k'', sr_requestHash = sha_string (demo_bytes CHR ''h'')\<rparr> ?v demo_stored"
    by (simp add: demo_submitted_def record_submitted_def demo_record(1) Let_def)
  have "get_eligibility ''pub'' ''t1'' (rq_BatchID demo_slot_request) (rq_SlotID demo_slot_request) demo_submitted = Inr demo_eligibility"
    using demo_eligible by (simp add: get_eligibility_def r put_reservation_def demo_record(2))
  moreover have "sel_get ''pub'' (rv_ID demo_reservation) demo_submitted = Inr ?v" by (simp add: sel_get_def r put_reservation_def st)
  ultimately show ?thesis by (simp add: own_reservation_def st)
qed

theorem unrelated_failure_releases_capacity_witness:
  "svc_reconcile (demo_sel_peers (\<lambda>h s. (s, Inr (demo_failed_result h)))) (unix_time 1020) demo_publisher ''t1'' (rv_ID demo_reservation) (demo_tx CHR ''z'')
     \<lparr>sw_repo = demo_submitted, sw_rest = 0\<rparr> = (\<lparr>sw_repo = demo_submitted, sw_rest = 1\<rparr>, Some SErrContentConflict, zero_reservation, None)"
proof -
  have ne: "demo_tx CHR ''x'' \<noteq> demo_tx CHR ''z''" by (simp add: demo_tx_def hex32_def demo_bytes_def)
  have ids: "rv_ID demo_reservation \<noteq> []" by (simp add: demo_reservation_def sha_string_def)
  show ?thesis
    by (rule unrelated_failure_releases_capacity [OF _ _ ids _, where ?s1.0 = "\<lparr>sw_repo = demo_submitted, sw_rest = 0\<rparr>" and res = "demo_failed_result (demo_tx CHR ''z'')"
        and v = "demo_reservation\<lparr>rv_Status := StatusSubmitted, rv_TransactionHash := demo_tx CHR ''x'', rv_UpdatedAt := unix_time 1010\<rparr>"])
      (use ne demo_own_submitted in \<open>simp_all add: demo_failed_result_def demo_sel_peers_def\<close>)
qed

end
