(* ===== verification/Chain_Properties.thy ===== *)
theory Chain_Properties
  imports Chain_Honest Selection_Properties
begin

text \<open>The properties of the chain package, after the concrete values their witnesses evaluate.\<close>

text \<open>Two chains that fork after block 6, and a source that serves one of them, for the witnesses.\<close>

definition fork_hash :: "char \<Rightarrow> uint64 \<Rightarrow> string" where
  "fork_hash c h = ''0x'' @ hex_encode (replicate 31 (if h \<le> 6 then CHR ''a'' else c) @ [char_of (unat h)])"

lemma fork_hash_valid [simp]: "valid_hash (fork_hash c h)"
  by (simp add: fork_hash_def valid_hash_def valid_hex_def has_prefix_def)

lemma fork_hash_eq:
  assumes "h \<le> 200" "k \<le> 200"
  shows "fork_hash c h = fork_hash d k \<longleftrightarrow> h = k \<and> (h \<le> 6 \<or> c = d)"
proof -
  have "unat h \<le> 200" "unat k \<le> 200" using assms by (simp_all add: word_le_nat_alt)
  then have "(char_of (unat h) :: char) = char_of (unat k) \<longleftrightarrow> h = k" by (auto simp: word_unat_eq_iff dest!: arg_cong [where f = "of_char :: char \<Rightarrow> nat"])
  then show ?thesis by (auto simp: fork_hash_def)
qed

text \<open>The parent of a hash.\<close>

definition fork_parent :: "string \<Rightarrow> string" where
  "fork_parent d = (case hex_decode (drop 2 d) of
     None \<Rightarrow> []
   | Some raw \<Rightarrow> fork_hash (hd raw) (of_nat (of_char (last raw) :: nat) - 1))"

lemma fork_parent_hash:
  assumes "0 < h" "h \<le> 200"
  shows "fork_parent (fork_hash c h) = fork_hash c (h - 1)"
proof -
  have n: "unat h \<le> 200" using assms(2) by (simp add: word_le_nat_alt)
  have d: "hex_decode (drop 2 (fork_hash c h)) = Some (replicate 31 (if h \<le> 6 then CHR ''a'' else c) @ [char_of (unat h)])"
    by (simp add: fork_hash_def)
  have "fork_parent (fork_hash c h) = fork_hash (if h \<le> 6 then CHR ''a'' else c) (h - 1)"
    unfolding fork_parent_def d option.case using n by simp
  moreover have "h - 1 \<le> 6" if "h \<le> 6" using height_pred [OF assms(1)] that by simp
  ultimately show ?thesis by (simp add: fork_hash_def)
qed

definition demo_block :: "transaction list \<Rightarrow> char \<Rightarrow> uint64 \<Rightarrow> block" where
  "demo_block ts c h = \<lparr>bl_Number = h, bl_Hash = fork_hash c h, bl_ParentHash = fork_parent (fork_hash c h), bl_Timestamp = 0, bl_Transactions = (if h = 8 then ts else [])\<rparr>"

definition demo_scope :: scope where
  "demo_scope = \<lparr>so_ChainID = ''1'', so_Contract = demo_addr CHR ''k'', so_StartBlock = 5, so_Confirmations = 1, so_MaxReorgDepth = 3\<rparr>"

definition demo_decoder :: decoder_env where
  "demo_decoder = \<lparr>dv_sha = (\<lambda>x. x), dv_event_id = (\<lambda>n. ''0x'' @ hex_encode n), dv_selector = ''0x12345678''\<rparr>"

text \<open>The source answers from one chain; the state of the world is its head.\<close>

definition demo_source :: "(uint64 \<Rightarrow> block) \<Rightarrow> uint64 chain_source" where
  "demo_source C = \<lparr>cs_chain_id = (\<lambda>w. (w, Inr ''1'')), cs_head = (\<lambda>w. (w, Inr w)), cs_block = (\<lambda>h w. (w, Inr (C h)))\<rparr>"

lemma demo_bindings: "bindings_ok demo_decoder"
proof -
  have "to_lower (''0x'' @ hex_encode n) = ''0x'' @ hex_encode n" for n
    unfolding to_lower_append to_lower_hex by (simp add: to_lower_def char_lower_def)
  then show ?thesis unfolding bindings_ok_def demo_decoder_def
    by (simp add: inj_on_def) (simp add: to_lower_def char_lower_def)
qed

lemma demo_serves:
  assumes "n \<le> 200" "\<And>h. h \<le> n \<Longrightarrow> \<exists>evs. decode_block demo_decoder demo_scope (demo_block ts c h) = Inr evs"
  shows "serves demo_decoder demo_scope fork_parent (demo_source (demo_block ts c)) (demo_block ts c) n"
  unfolding serves_def
proof (intro allI impI conjI, goal_cases)
  case (5 h)
  then have "0 < h" "h \<le> 200" using assms(1) by auto
  then show ?case by (simp add: demo_block_def fork_parent_hash)
next
  case (6 h)
  then have "0 < h" "h \<le> 200" using assms(1) by auto
  then show ?case by (simp add: demo_block_def fork_parent_hash)
qed (use assms(2) in \<open>simp_all add: demo_source_def demo_block_def\<close>)

section \<open>A selection on the chain\<close>

lemma bytes32_word_hex [simp]: "length w = 32 \<Longrightarrow> bytes32_word (hex32 w) = Inr w"
  by (simp add: bytes32_word_def hex32_def has_prefix_def)

lemma hex32_lower [simp]: "to_lower (hex32 w) = hex32 w"
  unfolding hex32_def to_lower_append to_lower_hex by (simp add: to_lower_def char_lower_def)

lemma demo_price_money [simp]: "money_int ''10'' = 10" "money_int ''100'' = 100"
  by (simp_all add: money_int_def)

lemma demo_proof_honest: "honest_proof demo_proof"
proof -
  have "price_word ''10'' = Inr (uint_word 10)" "price_word ''100'' = Inr (uint_word 100)"
    by (simp_all add: price_word_def)
  then have "\<exists>payload. encode_proof demo_proof = Inr payload"
    by (simp add: encode_proof_def proof_words_def) (simp add: demo_proof_def)
  moreover have "lower_proof demo_proof = demo_proof" by (simp add: lower_proof_def demo_proof_def)
  ultimately show ?thesis by (simp add: honest_proof_def proof_payable_def) (simp add: demo_proof_def)
qed

definition demo_select_tx :: transaction where
  "demo_select_tx = \<lparr>tr_Hash = demo_tx CHR ''x'', tr_To = demo_addr CHR ''k'',
     tr_Input = select_calldata (dv_selector demo_decoder) (the_word (encode_proof demo_proof)) [], tr_Status = TxSucceeded,
     tr_Logs = [selection_log demo_decoder demo_scope 3 0 demo_proof, yield_log demo_decoder demo_scope 4 demo_proof]\<rparr>"

lemma demo_receipt: "honest_receipt demo_decoder demo_scope demo_select_tx demo_proof 3"
proof -
  from demo_proof_honest obtain payload where "encode_proof demo_proof = Inr payload" by (auto simp: honest_proof_def)
  then show ?thesis unfolding honest_receipt_def
    by (auto simp: demo_select_tx_def the_word_def demo_scope_def selection_log_def yield_log_def intro!: exI [of _ "[]"] exI [of _ 4] exI [of _ 0])
qed

lemma demo_decodes: "\<exists>evs. decode_block demo_decoder demo_scope (demo_block [demo_select_tx] c h) = Inr evs"
proof (cases "h = 8")
  case True
  have s: "to_lower (so_Contract demo_scope) = so_Contract demo_scope" by (simp add: demo_scope_def)
  have "filter (\<lambda>t. to_lower (tr_To t) = so_Contract demo_scope) (bl_Transactions (demo_block [demo_select_tx] c h)) = [demo_select_tx]"
    using True by (simp add: demo_block_def demo_select_tx_def demo_scope_def)
  from decode_honest_block [OF demo_bindings s demo_proof_honest demo_receipt this] show ?thesis by blast
qed (simp add: decode_block_def demo_block_def)

lemma demo_chain_serves: "n \<le> 200 \<Longrightarrow> serves demo_decoder demo_scope fork_parent (demo_source (demo_block [demo_select_tx] c)) (demo_block [demo_select_tx] c) n"
  by (rule demo_serves) (simp_all add: demo_decodes)

lemma demo_commits: "commits fork_parent (demo_source (demo_block ts c))"
  by (simp add: commits_def demo_source_def demo_block_def)

text \<open>The properties of the projection of the chain.\<close>

text \<open>
  C2: The canonical blocks are one chain. After any number of synchronisations and reconciliations, against any
  source whose block hashes commit to their parents (\<open>K\<close> gives the parent of a hash), the repository holds a
  canonical block exactly at the heights from the start block to the cursor, one at each; the last is the
  cursor's; each links to the one below by its parent hash; and the events of every block are those the decoder
  gives for it.
\<close>

theorem canonical_chain_linked:
  assumes "chain_reachable D s K r" "commits K src" "sync_once D s src r w = Some (r', w', c, e)"
  shows "(if cu_Set (ch_cursor r') then so_StartBlock s \<le> cu_Height (ch_cursor r') \<and>
      (\<forall>h. canonical_at r' h \<noteq> None \<longleftrightarrow> so_StartBlock s \<le> h \<and> h \<le> cu_Height (ch_cursor r')) \<and>
      canonical_hash (cu_Height (ch_cursor r')) r' = Some (cu_Hash (ch_cursor r')) \<and>
      (\<forall>h d. so_StartBlock s < h \<and> canonical_hash h r' = Some d \<longrightarrow> canonical_hash (h - 1) r' = Some (K d))
      else \<forall>h. canonical_at r' h = None) \<and>
    (\<forall>h. length (filter is_canonical (blocks_at r' h)) \<le> 1) \<and>
    (\<forall>h. \<forall>m \<in> set (blocks_at r' h). bl_Number (mb_block m) = h \<and> bl_ParentHash (mb_block m) = K (bl_Hash (mb_block m)) \<and>
       decode_block D s (mb_block m) = Inr (mb_events m)) \<and> chain_reachable D s K r'"
proof -
  have "(chain_step D s K)\<^sup>*\<^sup>* r r'" using sync_once_steps [OF assms(3,2)] by simp
  then have reach: "chain_reachable D s K r'" using assms(1) unfolding chain_reachable_def by (meson rtranclp_trans)
  then have "chain_inv D s K r'" by (rule chain_reachable_inv)
  then have inv: "linked s K r'" "\<And>h. length (filter is_canonical (blocks_at r' h)) \<le> 1" "\<And>h m. m \<in> set (blocks_at r' h) \<Longrightarrow> stored_ok D s K h m"
    by (simp_all add: chain_inv_def)
  show ?thesis using inv(1) [unfolded linked_def] inv(2) inv(3) [unfolded stored_ok_def] reach by blast
qed

text \<open>
  C9: \<open>SyncOnce\<close> returns, and converges. Against a source that serves one chain up to the safe head (the head less
  the confirmations), a call that starts behind the safe head returns. If the canonical chain and the
  source's have a common block within the allowed depth, it ends with no error, the cursor at the safe head and
  the canonical hashes exactly the source's from the start block on, whatever had to be rewound. If the fork is
  deeper, it returns the error for that and has changed nothing.
\<close>

theorem sync_converges:
  assumes "chain_reachable D s K r" "serves D s K src C (head - (so_Confirmations s - 1))"
    and "cs_chain_id src w = (w1, Inr (so_ChainID s))" "cs_head src w1 = (w2, Inr head)" "\<not> head + 1 < so_Confirmations s"
    and "next_height s (ch_cursor r) \<le> head - (so_Confirmations s - 1)" "cu_Set (ch_cursor r) \<longrightarrow> cu_Height (ch_cursor r) < head - (so_Confirmations s - 1)"
  shows "if cu_Set (ch_cursor r) \<longrightarrow> forked_within s C r
    then \<exists>r'. sync_once D s src r w = Some (r', w2, block_cursor (C (head - (so_Confirmations s - 1))), None) \<and>
      ch_cursor r' = block_cursor (C (head - (so_Confirmations s - 1))) \<and> agrees s C (head - (so_Confirmations s - 1)) r'
    else sync_once D s src r w = Some (r, w2, ch_cursor r, Some HErrReorgTooDeep)"
proof -
  let ?n = "head - (so_Confirmations s - 1)"
  have inv: "chain_inv D s K r" by (rule chain_reachable_inv [OF assms(1)])
  have run: "sync_once D s src r w = sync_loop D s src ?n r w2" using assms(3-5) by (simp add: sync_once_def)
  show ?thesis
  proof (cases "cu_Set (ch_cursor r) \<longrightarrow> forked_within s C r")
    case True
    then have "if cu_Set (ch_cursor r) then cu_Height (ch_cursor r) < ?n \<and> forked_within s C r else so_StartBlock s \<le> ?n"
      using assms(6,7) by (simp add: next_height_def split: if_splits)
    from sync_loop_converges [OF assms(2) inv this, of w2] True show ?thesis unfolding run by (auto simp: converged_def)
  next
    case False
    then have set: "cu_Set (ch_cursor r)" and no: "\<not> forked_within s C r" by simp_all
    have "canonical_hash (cu_Height (ch_cursor r)) r = Some (cu_Hash (ch_cursor r))" using inv set by (simp add: chain_inv_def linked_def)
    then have "cu_Hash (ch_cursor r) \<noteq> bl_Hash (C (cu_Height (ch_cursor r)))"
      using no reach_floor_le [of s r] unfolding forked_within_def by auto
    from sync_loop_forked [OF assms(2) inv set _ this, of w2] set no assms(7) show ?thesis unfolding run by simp
  qed
qed

text \<open>
  C29: A confirmed selection is on the chain. When the verifier reports a transaction as confirmed, the canonical
  block at the reported height holds that transaction: a successful call of the escrow contract whose calldata
  decodes to the reported proof, with work nonce 1 and the amount payable that follows from the proof.
\<close>

theorem confirmed_is_on_chain:
  assumes "chain_reachable D s K r" "verify_selection D h r = Inr res" "hr_Status res = ChainConfirmed"
  shows "\<exists>m t. canonical_at r (hr_BlockNumber res) = Some m \<and> t \<in> set (bl_Transactions (mb_block m)) \<and> tr_Hash t = to_lower h \<and> backs D s t res"
proof -
  from assms(2,3) have "selection_result D (to_lower h) r = Some res"
    by (auto simp: verify_selection_def zero_chain_result_def split: if_splits option.splits)
  from selection_result_backed [OF chain_reachable_inv [OF assms(1)] this assms(3)] show ?thesis .
qed

text \<open>
  C30: What the platform signs is what the chain reports. The calldata of a proof the signer encodes, executed
  successfully by the escrow contract with the two logs it emits, decodes to one selection event with exactly that
  proof, the amount payable and the position of the log, in a block with other transactions around it.
\<close>

theorem signed_proof_comes_back:
  assumes "bindings_ok D" "to_lower (so_Contract s) = so_Contract s" "honest_proof p" "honest_receipt D s t p n"
    and "filter (\<lambda>t. to_lower (tr_To t) = so_Contract s) (bl_Transactions b) = [t]"
  shows "\<exists>e y. decode_block D s b = Inr [e, y] \<and> ve_TransactionHash e = tr_Hash t \<and>
    ve_Selection e = Some \<lparr>hr_Status = ChainConfirmed, hr_TransactionHash = tr_Hash t, hr_BlockNumber = bl_Number b, hr_LogIndex = n, hr_Proof = p,
      hr_FormalPayable = bigint_string (proof_payable p), hr_WorkNonce = 1, hr_FailureReasonCode = []\<rparr>"
  using decode_honest_block [OF assms] by (auto simp: selection_of_def)

section \<open>Witnesses\<close>

definition demo_chain :: "char \<Rightarrow> uint64 \<Rightarrow> block" where
  "demo_chain c = demo_block [demo_select_tx] c"

text \<open>A first synchronisation of the new repository up to a head.\<close>

lemma demo_first_sync:
  assumes "5 \<le> n" "n \<le> 200"
  shows "\<exists>r. sync_once demo_decoder demo_scope (demo_source (demo_chain c)) new_chain_repository n = Some (r, n, block_cursor (demo_chain c n), None) \<and>
    ch_cursor r = block_cursor (demo_chain c n) \<and> agrees demo_scope (demo_chain c) n r \<and> chain_reachable demo_decoder demo_scope fork_parent r"
proof -
  have srv: "serves demo_decoder demo_scope fork_parent (demo_source (demo_chain c)) (demo_chain c) n"
    unfolding demo_chain_def by (rule demo_chain_serves [OF assms(2)])
  have new: "chain_reachable demo_decoder demo_scope fork_parent new_chain_repository" by (simp add: chain_reachable_def)
  have cur: "if cu_Set (ch_cursor new_chain_repository) then cu_Height (ch_cursor new_chain_repository) < n \<and> forked_within demo_scope (demo_chain c) new_chain_repository
      else so_StartBlock demo_scope \<le> n" using assms(1) by (simp add: new_chain_repository_def zero_cursor_def demo_scope_def)
  from sync_loop_converges [OF srv chain_reachable_inv [OF new] cur, of n] obtain r where
    r: "sync_loop demo_decoder demo_scope (demo_source (demo_chain c)) n new_chain_repository n = Some (r, n, block_cursor (demo_chain c n), None)"
    "converged demo_decoder demo_scope fork_parent (demo_chain c) n r" by blast
  have ne: "\<not> n + 1 < 1"
  proof -
    have "n < 201" using assms(2) by (rule le_less_trans) simp
    from below_succ [OF this] have "n < n + 1" by simp
    then show ?thesis by (metis leD word_less_1 word_zero_le not_less_iff_gr_or_eq order.strict_trans2)
  qed
  have run: "sync_once demo_decoder demo_scope (demo_source (demo_chain c)) new_chain_repository n = Some (r, n, block_cursor (demo_chain c n), None)"
    using r(1) ne by (simp add: sync_once_def demo_source_def demo_scope_def)
  have "(chain_step demo_decoder demo_scope fork_parent)\<^sup>*\<^sup>* new_chain_repository r"
    using sync_once_steps [OF run] demo_commits by (simp add: demo_chain_def)
  then show ?thesis using run r(2) by (auto simp: converged_def chain_reachable_def)
qed

theorem canonical_chain_linked_witness:
  "\<exists>r. sync_once demo_decoder demo_scope (demo_source (demo_chain CHR ''b'')) new_chain_repository 8 = Some (r, 8, block_cursor (demo_chain CHR ''b'' 8), None) \<and>
    canonical_at r 5 \<noteq> None \<and> canonical_at r 4 = None \<and> canonical_at r 9 = None"
proof -
  from demo_first_sync [of 8 "CHR ''b''"] obtain r where
    r: "sync_once demo_decoder demo_scope (demo_source (demo_chain CHR ''b'')) new_chain_repository 8 = Some (r, 8, block_cursor (demo_chain CHR ''b'' 8), None)"
      "ch_cursor r = block_cursor (demo_chain CHR ''b'' 8)" by auto
  have new: "chain_reachable demo_decoder demo_scope fork_parent new_chain_repository" by (simp add: chain_reachable_def)
  have com: "commits fork_parent (demo_source (demo_chain CHR ''b''))" using demo_commits by (simp add: demo_chain_def)
  from canonical_chain_linked [OF new com r(1)] have "canonical_at r h \<noteq> None \<longleftrightarrow> 5 \<le> h \<and> h \<le> 8" for h
    using r(2) by (simp add: block_cursor_def demo_chain_def demo_block_def demo_scope_def)
  from this [of 5] this [of 4] this [of 9] r(1) show ?thesis by simp
qed

theorem sync_converges_witness:
  "\<exists>r. ch_cursor r = block_cursor (demo_chain CHR ''b'' 8) \<and>
    (\<exists>r'. sync_once demo_decoder demo_scope (demo_source (demo_chain CHR ''c'')) r 9 = Some (r', 9, block_cursor (demo_chain CHR ''c'' 9), None) \<and>
      agrees demo_scope (demo_chain CHR ''c'') 9 r')"
proof -
  from demo_first_sync [of 8 "CHR ''b''"] obtain r where r: "ch_cursor r = block_cursor (demo_chain CHR ''b'' 8)"
    "agrees demo_scope (demo_chain CHR ''b'') 8 r" "chain_reachable demo_decoder demo_scope fork_parent r" by auto
  have cur: "cu_Set (ch_cursor r)" "cu_Height (ch_cursor r) = 8" by (simp_all add: r(1) block_cursor_def demo_chain_def demo_block_def)
  have fork: "forked_within demo_scope (demo_chain CHR ''c'') r"
    unfolding forked_within_def using cur r(2)
    by (intro exI [of _ 6]) (simp add: reach_floor_def agrees_def demo_scope_def demo_chain_def demo_block_def fork_hash_def)
  have srv: "serves demo_decoder demo_scope fork_parent (demo_source (demo_chain CHR ''c'')) (demo_chain CHR ''c'') (9 - (so_Confirmations demo_scope - 1))"
    unfolding demo_chain_def by (rule demo_chain_serves) (simp add: demo_scope_def)
  have "if cu_Set (ch_cursor r) \<longrightarrow> forked_within demo_scope (demo_chain CHR ''c'') r
    then \<exists>r'. sync_once demo_decoder demo_scope (demo_source (demo_chain CHR ''c'')) r 9 =
        Some (r', 9, block_cursor (demo_chain CHR ''c'' (9 - (so_Confirmations demo_scope - 1))), None) \<and>
      ch_cursor r' = block_cursor (demo_chain CHR ''c'' (9 - (so_Confirmations demo_scope - 1))) \<and>
      agrees demo_scope (demo_chain CHR ''c'') (9 - (so_Confirmations demo_scope - 1)) r'
    else sync_once demo_decoder demo_scope (demo_source (demo_chain CHR ''c'')) r 9 = Some (r, 9, ch_cursor r, Some HErrReorgTooDeep)"
    by (rule sync_converges [OF r(3) srv, where w = 9 and ?w1.0 = 9])
      (simp_all add: demo_source_def demo_scope_def next_height_def cur)
  then show ?thesis using fork r(1) by (auto simp: demo_scope_def)
qed

text \<open>A repository with the one block of the selection.\<close>

definition demo_scope8 :: scope where
  "demo_scope8 = demo_scope\<lparr>so_StartBlock := 8\<rparr>"

definition demo_projection :: chain_repo where
  "demo_projection = (case decode_block demo_decoder demo_scope8 (demo_chain CHR ''b'' 8) of
     Inl e \<Rightarrow> new_chain_repository
   | Inr evs \<Rightarrow> (case apply_block (demo_chain CHR ''b'' 8) evs new_chain_repository of Inl e \<Rightarrow> new_chain_repository | Inr r \<Rightarrow> r))"

lemma demo_receipt8: "honest_receipt demo_decoder demo_scope8 demo_select_tx demo_proof 3"
  using demo_receipt by (simp add: honest_receipt_def demo_scope8_def selection_log_def yield_log_def)

lemma demo_block8:
  "to_lower (so_Contract demo_scope8) = so_Contract demo_scope8"
  "filter (\<lambda>t. to_lower (tr_To t) = so_Contract demo_scope8) (bl_Transactions (demo_chain c 8)) = [demo_select_tx]"
  by (simp_all add: demo_scope8_def demo_scope_def demo_chain_def demo_block_def demo_select_tx_def)

lemma demo_projection_is:
  "\<exists>e y. decode_block demo_decoder demo_scope8 (demo_chain CHR ''b'' 8) = Inr [e, y] \<and>
    ve_Selection e = Some (selection_of demo_decoder (demo_chain CHR ''b'' 8) demo_select_tx 3 demo_proof) \<and> ve_TransactionHash e = demo_tx CHR ''x'' \<and>
    demo_projection = \<lparr>ch_blocks = [(8, [\<lparr>mb_block = demo_chain CHR ''b'' 8, mb_state = StateCanonical, mb_events = [e, y]\<rparr>])],
      ch_cursor = block_cursor (demo_chain CHR ''b'' 8), ch_reconciliations = [], ch_expected = []\<rparr>"
proof -
  from decode_honest_block [OF demo_bindings demo_block8(1) demo_proof_honest demo_receipt8 demo_block8(2) [of "CHR ''b''"]] obtain e y where
    d: "decode_block demo_decoder demo_scope8 (demo_chain CHR ''b'' 8) = Inr [e, y]"
    "ve_Selection e = Some (selection_of demo_decoder (demo_chain CHR ''b'' 8) demo_select_tx 3 demo_proof)" "ve_TransactionHash e = tr_Hash demo_select_tx" by blast
  have "bl_Number (demo_chain CHR ''b'' 8) = 8" by (simp add: demo_chain_def demo_block_def)
  then have "demo_projection = \<lparr>ch_blocks = [(8, [\<lparr>mb_block = demo_chain CHR ''b'' 8, mb_state = StateCanonical, mb_events = [e, y]\<rparr>])],
      ch_cursor = block_cursor (demo_chain CHR ''b'' 8), ch_reconciliations = [], ch_expected = []\<rparr>"
    by (simp add: demo_projection_def d(1) apply_block_def new_chain_repository_def zero_cursor_def blocks_at_def gput_def)
  then show ?thesis using d by (simp add: demo_select_tx_def)
qed

lemma demo_projection_reachable: "chain_reachable demo_decoder demo_scope8 fork_parent demo_projection"
proof -
  from demo_projection_is obtain e y where d: "decode_block demo_decoder demo_scope8 (demo_chain CHR ''b'' 8) = Inr [e, y]"
    "demo_projection = \<lparr>ch_blocks = [(8, [\<lparr>mb_block = demo_chain CHR ''b'' 8, mb_state = StateCanonical, mb_events = [e, y]\<rparr>])],
      ch_cursor = block_cursor (demo_chain CHR ''b'' 8), ch_reconciliations = [], ch_expected = []\<rparr>" by blast
  have "chain_step demo_decoder demo_scope8 fork_parent new_chain_repository demo_projection"
    by (rule chain_step.applied [of "demo_chain CHR ''b'' 8", OF _ _ _ d(1)])
      (simp_all add: d(2) new_chain_repository_def zero_cursor_def next_height_def demo_chain_def demo_block_def demo_scope8_def apply_block_def blocks_at_def gput_def)
  then show ?thesis by (simp add: chain_reachable_def)
qed

lemma demo_chain_verified:
  "verify_selection demo_decoder (demo_tx CHR ''x'') demo_projection =
    Inr (selection_of demo_decoder (demo_chain CHR ''b'' 8) demo_select_tx 3 demo_proof)"
proof -
  from demo_projection_is obtain e y where d: "ve_Selection e = Some (selection_of demo_decoder (demo_chain CHR ''b'' 8) demo_select_tx 3 demo_proof)"
    "ve_TransactionHash e = demo_tx CHR ''x''"
    "demo_projection = \<lparr>ch_blocks = [(8, [\<lparr>mb_block = demo_chain CHR ''b'' 8, mb_state = StateCanonical, mb_events = [e, y]\<rparr>])],
      ch_cursor = block_cursor (demo_chain CHR ''b'' 8), ch_reconciliations = [], ch_expected = []\<rparr>" by blast
  have v: "valid_hash (demo_tx CHR ''x'')" unfolding demo_tx_def hex32_def
    by (simp add: valid_hash_def valid_hex_def has_prefix_def)
  show ?thesis
    by (simp add: verify_selection_def v selection_result_def d block_selection_def is_canonical_def gvals_def)
qed

theorem confirmed_is_on_chain_witness:
  "verify_selection demo_decoder (demo_tx CHR ''x'') demo_projection =
    Inr (selection_of demo_decoder (demo_chain CHR ''b'' 8) demo_select_tx 3 demo_proof) \<and>
   (\<exists>m t. canonical_at demo_projection 8 = Some m \<and> t \<in> set (bl_Transactions (mb_block m)) \<and> tr_Hash t = demo_tx CHR ''x'')"
proof -
  have "hr_Status (selection_of demo_decoder (demo_chain CHR ''b'' 8) demo_select_tx 3 demo_proof) = ChainConfirmed"
    "hr_BlockNumber (selection_of demo_decoder (demo_chain CHR ''b'' 8) demo_select_tx 3 demo_proof) = 8"
    by (simp_all add: selection_of_def demo_chain_def demo_block_def)
  with confirmed_is_on_chain [OF demo_projection_reachable demo_chain_verified] demo_chain_verified show ?thesis by auto
qed

theorem signed_proof_comes_back_witness:
  "\<exists>e y. decode_block demo_decoder demo_scope8 (demo_chain CHR ''b'' 8) = Inr [e, y] \<and>
    (case ve_Selection e of None \<Rightarrow> False | Some res \<Rightarrow> hr_Proof res = demo_proof \<and> hr_FormalPayable res = ''90'')"
proof -
  have "proof_payable demo_proof = 90" by (simp add: proof_payable_def) (simp add: demo_proof_def)
  with signed_proof_comes_back [OF demo_bindings demo_block8(1) demo_proof_honest demo_receipt8 demo_block8(2) [of "CHR ''b''"]]
  show ?thesis by fastforce
qed

end
