(* ===== verification/Selection_Chain.thy ===== *)
theory Selection_Chain
  imports Chain_Properties Selection_Properties
begin

text \<open>The selection service with the projection of the chain as its verifier.\<close>

definition chain_verifier :: "decoder_env \<Rightarrow> string \<Rightarrow> chain_repo sel_world \<Rightarrow> chain_repo sel_world \<times> (selection_error + chain_result)" where
  "chain_verifier D h s = (s, case verify_selection D h (sw_rest s) of Inl _ \<Rightarrow> Inl SErrInvalidInput | Inr res \<Rightarrow> Inr res)"

text \<open>A transaction is in one canonical block only, the one of height \<open>n\<close>.\<close>

definition only_at :: "chain_repo \<Rightarrow> string \<Rightarrow> uint64 \<Rightarrow> bool" where
  "only_at r h n \<longleftrightarrow> (\<forall>k m t. canonical_at r k = Some m \<longrightarrow> t \<in> set (bl_Transactions (mb_block m)) \<longrightarrow> tr_Hash t = h \<longrightarrow> k = n)"

lemma block_selection_mentions:
  assumes "decode_block D s (mb_block m) = Inr (mb_events m)" "block_selection D h m \<noteq> None"
  shows "is_canonical m \<and> (\<exists>t \<in> set (bl_Transactions (mb_block m)). tr_Hash t = h)"
proof -
  have can: "is_canonical m" using assms(2) by (auto simp: block_selection_def split: if_splits)
  show ?thesis
  proof (cases "List.find (\<lambda>v. ve_TransactionHash v = h \<and> ve_Selection v \<noteq> None) (mb_events m)")
    case None
    then have "list_ex (\<lambda>t. tr_Hash t = h \<and> has_prefix (to_lower (tr_Input t)) (dv_selector D) \<and> tr_Status t = TxFailed) (bl_Transactions (mb_block m))"
      using assms(2) can by (auto simp: block_selection_def split: if_splits)
    then show ?thesis using can by (auto simp: list_ex_iff)
  next
    case (Some v)
    then have "v \<in> set (mb_events m)" "ve_TransactionHash v = h" by (auto dest: find_SomeD)
    from decode_block_backed [OF assms(1) this(1)] this(2) show ?thesis using can by auto
  qed
qed

lemma verify_honest:
  assumes inv: "chain_inv D s K r" and D: "bindings_ok D" and c: "to_lower (so_Contract s) = so_Contract s" and p: "honest_proof p"
    and t: "honest_receipt D s t p k" and m: "canonical_at r n = Some m" and b: "t \<in> set (bl_Transactions (mb_block m))"
      "\<forall>u \<in> set (bl_Transactions (mb_block m)). tr_Hash u = tr_Hash t \<longrightarrow> u = t"
    and only: "only_at r (tr_Hash t) n" and h: "to_lower h = tr_Hash t" "valid_hash (tr_Hash t)"
  shows "verify_selection D h r = Inr (selection_of D (mb_block m) t k p)"
proof -
  have st: "stored_ok D s K j x" if "x \<in> set (blocks_at r j)" for j x using inv that by (simp add: chain_inv_def)
  from canonical_at_Some [OF m] have mb: "m \<in> set (blocks_at r n)" "is_canonical m" by auto
  have dm: "decode_block D s (mb_block m) = Inr (mb_events m)" using st [OF mb(1)] by (simp add: stored_ok_def)
  from decode_honest_among [OF D c p t dm b] mb(2) have bs: "block_selection D (tr_Hash t) m = Some (selection_of D (mb_block m) t k p)"
    by (auto simp: block_selection_def)
  have same: "x = m" if "x \<in> set (concat (gvals (ch_blocks r)))" "block_selection D (tr_Hash t) x \<noteq> None" for x
  proof -
    from that(1) obtain xs where xs: "xs \<in> set (gvals (ch_blocks r))" "x \<in> set xs" by auto
    then obtain j where "gget (ch_blocks r) j = Some xs" using inv by (auto simp: chain_inv_def gvals_mem)
    with xs have x: "x \<in> set (blocks_at r j)" by (simp add: blocks_at_def)
    from block_selection_mentions [OF _ that(2)] st [OF x] obtain t' where t': "is_canonical x" "t' \<in> set (bl_Transactions (mb_block x))" "tr_Hash t' = tr_Hash t"
      by (auto simp: stored_ok_def)
    from canonical_unique [OF inv x t'(1)] have "canonical_at r j = Some x" .
    with only t'(2,3) have "j = n" by (auto simp: only_at_def)
    with \<open>canonical_at r j = Some x\<close> m show ?thesis by simp
  qed
  have "m \<in> set (concat (gvals (ch_blocks r)))"
  proof -
    obtain ms where "gget (ch_blocks r) n = Some ms" "m \<in> set ms" using mb(1) by (cases "gget (ch_blocks r) n") (auto simp: blocks_at_def)
    then show ?thesis by (auto dest: gvals_memI)
  qed
  then obtain x where "List.find (\<lambda>x. block_selection D (tr_Hash t) x \<noteq> None) (concat (gvals (ch_blocks r))) = Some x"
    using bs by (cases "List.find (\<lambda>x. block_selection D (tr_Hash t) x \<noteq> None) (concat (gvals (ch_blocks r)))") (auto simp: find_None_iff)
  moreover from this same have "x = m" by (blast dest: find_SomeD)
  ultimately have "selection_result D (tr_Hash t) r = Some (selection_of D (mb_block m) t k p)" using bs by (simp add: selection_result_def)
  then show ?thesis using h by (simp add: verify_selection_def)
qed

section \<open>An honest selection\<close>

lemma honest_confirmed:
  assumes "sp_verify P = chain_verifier D" "chain_reachable D S K (sw_rest s)" "sel_reachable (sw_repo s)"
    and "publisher_authorized session" "taskID \<noteq> []" "i \<noteq> []" "valid_transaction_hash h" "own_reservation session taskID i (sw_repo s) = Inr v"
    and "unfinished v" "rv_TransactionHash v \<in> {[], to_lower h}" "rv_FormalPayable v = bigint_string (proof_payable (rv_Proof v))"
    and "now \<le> proof_deadline (rv_Proof v)"
    and "\<forall>j y. gget (se_records (sw_repo s)) j = Some y \<longrightarrow> pf_AssignmentID (rv_Proof (sr_reservation y)) = pf_AssignmentID (rv_Proof v) \<longrightarrow> j = i"
    and "bindings_ok D" "to_lower (so_Contract S) = so_Contract S" "honest_proof (rv_Proof v)" "honest_receipt D S t (rv_Proof v) k"
    and "canonical_at (sw_rest s) n = Some m" "t \<in> set (bl_Transactions (mb_block m))"
      "\<forall>u \<in> set (bl_Transactions (mb_block m)). tr_Hash u = tr_Hash t \<longrightarrow> u = t"
    and "tr_Hash t = to_lower h" "valid_hash (tr_Hash t)" "only_at (sw_rest s) (tr_Hash t) n"
  shows "\<exists>s' e v' a. svc_reconcile P now session taskID i h s = (s', e, v', Some a) \<and> rv_Status v' = StatusConfirmed \<and> same_terms v v' \<and>
    as_ID a = pf_AssignmentID (rv_Proof v) \<and> as_TransactionHash a = to_lower h \<and> as_FormalPayable a = rv_FormalPayable v"
proof -
  let ?res = "selection_of D (mb_block m) t k (rv_Proof v)"
  have inv: "sel_inv (sw_repo s)" by (rule sel_reachable_inv [OF assms(3)])
  have lh: "to_lower (to_lower h) = tr_Hash t" by (simp add: assms(21))
  have "verify_selection D (to_lower h) (sw_rest s) = Inr ?res"
    by (rule verify_honest [OF chain_reachable_inv [OF assms(2)] assms(14-20) assms(23) lh assms(22)])
  then have ver: "sp_verify P (to_lower h) s = (s, Inr ?res)" by (simp add: assms(1) chain_verifier_def)
  have pr: "proves ?res v" using assms(11) by (simp add: proves_def selection_of_def)
  have hh: "hr_TransactionHash ?res = to_lower h" by (simp add: selection_of_def assms(21))
  from own_reservationD [OF assms(8) inv] obtain x where x: "gget (se_records (sw_repo s)) i = Some x" "sr_reservation x = v" "rv_ID v = i" by blast
  have "\<exists>r' v' a. sel_confirm now i ?res (sw_repo s) = (r', Inr (v', a, False)) \<and> rv_Status v' = StatusConfirmed \<and> same_terms v v' \<and>
      as_ID a = pf_AssignmentID (rv_Proof v) \<and> as_TransactionHash a = hr_TransactionHash ?res \<and> as_FormalPayable a = rv_FormalPayable v"
    by (rule sel_confirm_new [OF inv x(1,2) assms(9) _ pr assms(12)]) (use assms(10,13) hh in auto)
  then obtain r' v' a where c: "sel_confirm now i ?res (sw_repo s) = (r', Inr (v', a, False))" "rv_Status v' = StatusConfirmed" "same_terms v v'"
    "as_ID a = pf_AssignmentID (rv_Proof v)" "as_TransactionHash a = to_lower h" "as_FormalPayable a = rv_FormalPayable v" using hh by auto
  obtain s2 err where rel: "sp_release P i (rv_CapacityFencingToken v) (s\<lparr>sw_repo := r'\<rparr>) = (s2, err)"
    by (cases "sp_release P i (rv_CapacityFencingToken v) (s\<lparr>sw_repo := r'\<rparr>)")
  have "reconcile_result P now v (to_lower h) ?res s = (s2, release_error err, v', Some a)"
    using c(1) pr hh rel x(3) by (simp add: reconcile_result_def proves_def on_sel_repo_def)
  then have "svc_reconcile P now session taskID i h s = (s2, release_error err, v', Some a)"
    using svc_reconcile_run [OF assms(4-8) ver] by simp
  then show ?thesis using c by blast
qed

definition demo_joint :: "chain_repo sel_world" where
  "demo_joint = \<lparr>sw_repo = demo_stored, sw_rest = demo_projection\<rparr>"

definition demo_joint_peers :: "chain_repo sel_peers" where
  "demo_joint_peers =
     \<lparr>sp_sha = (\<lambda>_. demo_bytes CHR ''h''), sp_json = (\<lambda>t q. t), sp_signer = (\<lambda>p. Inr (''payload'', ''digest'', ''signature'')),
      sp_reserve = (\<lambda>agent i ttl s. (s, Inl SErrAgentCapacity)), sp_release = (\<lambda>i token s. (s, None)), sp_verify = chain_verifier demo_decoder\<rparr>"

definition demo_stored_block :: memory_block where
  "demo_stored_block = \<lparr>mb_block = demo_chain CHR ''b'' 8, mb_state = StateCanonical,
     mb_events = (case decode_block demo_decoder demo_scope8 (demo_chain CHR ''b'' 8) of Inl e \<Rightarrow> [] | Inr evs \<Rightarrow> evs)\<rparr>"

lemma demo_joint_canonical: "canonical_at (sw_rest demo_joint) k = (if k = 8 then Some demo_stored_block else None)"
proof -
  from demo_projection_is obtain e y where proj: "decode_block demo_decoder demo_scope8 (demo_chain CHR ''b'' 8) = Inr [e, y]"
    "demo_projection = \<lparr>ch_blocks = [(8, [\<lparr>mb_block = demo_chain CHR ''b'' 8, mb_state = StateCanonical, mb_events = [e, y]\<rparr>])],
      ch_cursor = block_cursor (demo_chain CHR ''b'' 8), ch_reconciliations = [], ch_expected = []\<rparr>" by blast
  show ?thesis by (simp add: demo_joint_def demo_stored_block_def proj canonical_at_def blocks_at_def gget_def is_canonical_def)
qed

text \<open>Every condition of an honest selection holds there.\<close>

lemma demo_joint_conditions:
  "sp_verify demo_joint_peers = chain_verifier demo_decoder" "chain_reachable demo_decoder demo_scope8 fork_parent (sw_rest demo_joint)"
  "sel_reachable (sw_repo demo_joint)" "publisher_authorized demo_publisher" "''t1'' \<noteq> []" "rv_ID demo_reservation \<noteq> []"
  "valid_transaction_hash (demo_tx CHR ''x'')"
  "own_reservation demo_publisher ''t1'' (rv_ID demo_reservation) (sw_repo demo_joint) = Inr demo_reservation"
  "unfinished demo_reservation" "rv_TransactionHash demo_reservation \<in> {[], to_lower (demo_tx CHR ''x'')}"
  "rv_FormalPayable demo_reservation = bigint_string (proof_payable (rv_Proof demo_reservation))"
  "unix_time 1010 \<le> proof_deadline (rv_Proof demo_reservation)"
  "\<forall>j y. gget (se_records (sw_repo demo_joint)) j = Some y \<longrightarrow>
     pf_AssignmentID (rv_Proof (sr_reservation y)) = pf_AssignmentID (rv_Proof demo_reservation) \<longrightarrow> j = rv_ID demo_reservation"
  "bindings_ok demo_decoder" "to_lower (so_Contract demo_scope8) = so_Contract demo_scope8" "honest_proof (rv_Proof demo_reservation)"
  "honest_receipt demo_decoder demo_scope8 demo_select_tx (rv_Proof demo_reservation) 3"
  "canonical_at (sw_rest demo_joint) 8 = Some demo_stored_block"
  "demo_select_tx \<in> set (bl_Transactions (mb_block demo_stored_block))"
  "\<forall>u \<in> set (bl_Transactions (mb_block demo_stored_block)). tr_Hash u = tr_Hash demo_select_tx \<longrightarrow> u = demo_select_tx"
  "tr_Hash demo_select_tx = to_lower (demo_tx CHR ''x'')" "valid_hash (tr_Hash demo_select_tx)"
  "only_at (sw_rest demo_joint) (tr_Hash demo_select_tx) 8"
proof -
  have v: "rv_Proof demo_reservation = demo_proof" "rv_Status demo_reservation = StatusReserved" "rv_TransactionHash demo_reservation = []"
    "rv_FormalPayable demo_reservation = ''90''" "rv_ID demo_reservation \<noteq> []"
    by (simp_all add: demo_reservation_def sha_string_def)
  have pay: "bigint_string (proof_payable demo_proof) = ''90''" by (simp add: proof_payable_def) (simp add: demo_proof_def)
  have hash: "tr_Hash demo_select_tx = demo_tx CHR ''x''" by (simp add: demo_select_tx_def)
  show "rv_FormalPayable demo_reservation = bigint_string (proof_payable (rv_Proof demo_reservation))" using v pay by simp
  show "unix_time 1010 \<le> proof_deadline (rv_Proof demo_reservation)"
    unfolding v by (simp add: proof_deadline_def demo_proof_def unix_time_def int64_range_def)
  show "valid_hash (tr_Hash demo_select_tx)" unfolding hash demo_tx_def hex32_def by (simp add: valid_hash_def valid_hex_def has_prefix_def)
  show "\<forall>j y. gget (se_records (sw_repo demo_joint)) j = Some y \<longrightarrow>
     pf_AssignmentID (rv_Proof (sr_reservation y)) = pf_AssignmentID (rv_Proof demo_reservation) \<longrightarrow> j = rv_ID demo_reservation"
    using demo_record(4) by (auto simp: demo_joint_def)
  show "canonical_at (sw_rest demo_joint) 8 = Some demo_stored_block" "only_at (sw_rest demo_joint) (tr_Hash demo_select_tx) 8"
    by (simp_all add: demo_joint_canonical only_at_def)
  show "sp_verify demo_joint_peers = chain_verifier demo_decoder" by (simp add: demo_joint_peers_def)
  show "chain_reachable demo_decoder demo_scope8 fork_parent (sw_rest demo_joint)" "sel_reachable (sw_repo demo_joint)"
    "own_reservation demo_publisher ''t1'' (rv_ID demo_reservation) (sw_repo demo_joint) = Inr demo_reservation"
    using demo_projection_reachable demo_selection_reachable demo_own by (simp_all add: demo_joint_def)
  show "demo_select_tx \<in> set (bl_Transactions (mb_block demo_stored_block))"
    "\<forall>u \<in> set (bl_Transactions (mb_block demo_stored_block)). tr_Hash u = tr_Hash demo_select_tx \<longrightarrow> u = demo_select_tx"
    by (simp_all add: demo_stored_block_def demo_chain_def demo_block_def)
  show "honest_proof (rv_Proof demo_reservation)" "honest_receipt demo_decoder demo_scope8 demo_select_tx (rv_Proof demo_reservation) 3"
    "unfinished demo_reservation" "rv_TransactionHash demo_reservation \<in> {[], to_lower (demo_tx CHR ''x'')}" "rv_ID demo_reservation \<noteq> []"
    "tr_Hash demo_select_tx = to_lower (demo_tx CHR ''x'')"
    using v hash demo_proof_honest demo_receipt8 by (simp_all add: unfinished_def)
qed (use demo_block8(1) demo_bindings in simp_all)

lemma demo_joint_run:
  "\<exists>s' e v' a. svc_reconcile demo_joint_peers (unix_time 1010) demo_publisher ''t1'' (rv_ID demo_reservation) (demo_tx CHR ''x'') demo_joint = (s', e, v', Some a)"
  using honest_confirmed [OF demo_joint_conditions] by blast

end
