(* ===== verification/Go_State.thy ===== *)
theory Go_State
  imports Go_Lib Digest
begin

text \<open>
  Service calls that thread a world through calls of other services. A Go function \<open>(T, error)\<close> that may change
  the world \<open>'s\<close> is a function \<open>'s \<Rightarrow> 's \<times> ('e + 'a)\<close>; \<open>sbind\<close> is the sequence with the early return on an error, which
  keeps what has been changed so far. \<open>run_ok R P m Q\<close> is the rely-guarantee triple of such a call: from a world
  with \<open>P\<close> it moves by steps \<open>R\<close> and ends with \<open>Q\<close> of its answer and the world.
\<close>

type_synonym ('s, 'e, 'a) call = "'s \<Rightarrow> 's \<times> ('e + 'a)"

definition sret :: "'a \<Rightarrow> ('s, 'e, 'a) call" where
  "sret x s = (s, Inr x)"

definition sfail :: "'e \<Rightarrow> ('s, 'e, 'a) call" where
  "sfail e s = (s, Inl e)"

definition slift :: "'e + 'a \<Rightarrow> ('s, 'e, 'a) call" where
  "slift x s = (s, x)"

definition sbind :: "('s, 'e, 'a) call \<Rightarrow> ('a \<Rightarrow> ('s, 'e, 'b) call) \<Rightarrow> ('s, 'e, 'b) call" where
  "sbind m k s = (case m s of (s', Inl e) \<Rightarrow> (s', Inl e) | (s', Inr x) \<Rightarrow> k x s')"

text \<open>\<open>stry\<close> hands the error to the caller: \<open>x, err := call()\<close> without an early return.\<close>

definition stry :: "('s, 'e, 'a) call \<Rightarrow> ('s, 'e, 'e + 'a) call" where
  "stry m s = (case m s of (s', r) \<Rightarrow> (s', Inr r))"

definition srequire :: "bool \<Rightarrow> 'e \<Rightarrow> ('s, 'e, unit) call" where
  "srequire b e = (if b then sret () else sfail e)"

definition sread :: "('s \<Rightarrow> 'a) \<Rightarrow> ('s, 'e, 'a) call" where
  "sread f s = (s, Inr (f s))"

text \<open>Values beside a non-nil error are carried by the error.\<close>

definition smap_err :: "('e \<Rightarrow> 'f) \<Rightarrow> ('s, 'e, 'a) call \<Rightarrow> ('s, 'f, 'a) call" where
  "smap_err f m s = (case m s of (s', Inl e) \<Rightarrow> (s', Inl (f e)) | (s', Inr x) \<Rightarrow> (s', Inr x))"

lemma sbind_simps [simp]:
  "sbind (sret x) k = k x" "sbind (sfail e) k = sfail e" "sbind (slift (Inl e)) k = sfail e" "sbind (slift (Inr x)) k = k x"
  by (simp_all add: sbind_def sret_def sfail_def slift_def fun_eq_iff)

lemma sbind_eq:
  "m s = (s', Inl e) \<Longrightarrow> sbind m k s = (s', Inl e)"
  "m s = (s', Inr x) \<Longrightarrow> sbind m k s = k x s'"
  by (simp_all add: sbind_def)

lemma stry_eq: "m s = (s', r) \<Longrightarrow> stry m s = (s', Inr r)"
  by (simp add: stry_def)

lemma srequire_simps [simp]: "srequire True e = sret ()" "srequire False e = sfail e"
  by (simp_all add: srequire_def)

lemma sbind_Inr:
  "sbind m k s = (s2, Inr y) \<longleftrightarrow> (\<exists>s1 x. m s = (s1, Inr x) \<and> k x s1 = (s2, Inr y))"
  by (auto simp: sbind_def split: prod.splits sum.splits)

lemma require_eq: "srequire b e s = (s', r) \<longleftrightarrow> s' = s \<and> r = (if b then Inr () else Inl e)"
  by (auto simp: sret_def sfail_def srequire_def)

lemma return_eqs:
  "sret x s = (s', r) \<longleftrightarrow> s' = s \<and> r = Inr x" "sfail e s = (s', r) \<longleftrightarrow> s' = s \<and> r = Inl e" "slift y s = (s', r) \<longleftrightarrow> s' = s \<and> r = y"
  "sread f s = (s', r) \<longleftrightarrow> s' = s \<and> r = Inr (f s)"
  by (auto simp: sret_def sfail_def slift_def sread_def)

lemmas call_eqs = return_eqs require_eq

section \<open>Triples\<close>

named_theorems triples \<open>rules that decompose the triple of a composed call\<close>

definition run_ok :: "('s \<Rightarrow> 's \<Rightarrow> bool) \<Rightarrow> ('s \<Rightarrow> bool) \<Rightarrow> ('s, 'e, 'a) call \<Rightarrow> ('e + 'a \<Rightarrow> 's \<Rightarrow> bool) \<Rightarrow> bool" where
  "run_ok R P m Q \<longleftrightarrow> (\<forall>s. P s \<longrightarrow> R\<^sup>*\<^sup>* s (fst (m s)) \<and> Q (snd (m s)) (fst (m s)))"

lemma run_okI: "(\<And>s s' r. P s \<Longrightarrow> m s = (s', r) \<Longrightarrow> R\<^sup>*\<^sup>* s s' \<and> Q r s') \<Longrightarrow> run_ok R P m Q"
  unfolding run_ok_def by (metis prod.collapse)

lemma run_okD: "run_ok R P m Q \<Longrightarrow> P s \<Longrightarrow> m s = (s', r) \<Longrightarrow> R\<^sup>*\<^sup>* s s' \<and> Q r s'"
  unfolding run_ok_def by (metis fst_conv snd_conv)

lemma run_ok_weaken:
  "run_ok R P m Q \<Longrightarrow> (\<And>s. P' s \<Longrightarrow> P s) \<Longrightarrow> (\<And>r s. Q r s \<Longrightarrow> Q' r s) \<Longrightarrow> run_ok R P' m Q'"
  by (simp add: run_ok_def)

lemma run_ok_ret [triples]: "(\<And>s. P s \<Longrightarrow> Q (Inr x) s) \<Longrightarrow> run_ok R P (sret x) Q"
  by (simp add: run_ok_def sret_def)

lemma run_ok_fail [triples]: "(\<And>s. P s \<Longrightarrow> Q (Inl e) s) \<Longrightarrow> run_ok R P (sfail e) Q"
  by (simp add: run_ok_def sfail_def)

lemma run_ok_lift [triples]: "(\<And>s. P s \<Longrightarrow> Q x s) \<Longrightarrow> run_ok R P (slift x) Q"
  by (simp add: run_ok_def slift_def)

lemma run_ok_read [triples]: "(\<And>s. P s \<Longrightarrow> Q (Inr (f s)) s) \<Longrightarrow> run_ok R P (sread f) Q"
  by (simp add: run_ok_def sread_def)

lemma run_ok_require [triples]:
  "(\<And>s. P s \<Longrightarrow> b \<Longrightarrow> Q (Inr ()) s) \<Longrightarrow> (\<And>s. P s \<Longrightarrow> \<not> b \<Longrightarrow> Q (Inl e) s) \<Longrightarrow> run_ok R P (srequire b e) Q"
  by (simp add: run_ok_def srequire_def sret_def sfail_def)

lemma run_ok_bind:
  assumes "run_ok R P m M" "\<And>x. run_ok R (M (Inr x)) (k x) Q" "\<And>e s. M (Inl e) s \<Longrightarrow> Q (Inl e) s"
  shows "run_ok R P (sbind m k) Q"
proof (rule run_okI)
  fix s s' r
  assume p: "P s" and r: "sbind m k s = (s', r)"
  obtain s1 x where m: "m s = (s1, x)" by (cases "m s")
  note d = run_okD [OF assms(1) p m]
  show "R\<^sup>*\<^sup>* s s' \<and> Q r s'"
  proof (cases x)
    case (Inl e)
    then show ?thesis using m r d assms(3) by (auto simp: sbind_def)
  next
    case (Inr y)
    then have "k y s1 = (s', r)" "M (Inr y) s1" using m r d by (simp_all add: sbind_def)
    then have "R\<^sup>*\<^sup>* s1 s' \<and> Q r s'" using run_okD [OF assms(2)] by blast
    then show ?thesis using d by (meson rtranclp_trans)
  qed
qed

lemma run_ok_try: "run_ok R P m Q \<Longrightarrow> run_ok R P (stry m) (\<lambda>r s. case r of Inl _ \<Rightarrow> False | Inr x \<Rightarrow> Q x s)"
  unfolding run_ok_def stry_def by (auto split: prod.splits)

lemma run_ok_map_err:
  "run_ok R P m (\<lambda>r s. Q (case r of Inl e \<Rightarrow> Inl (f e) | Inr x \<Rightarrow> Inr x) s) \<Longrightarrow> run_ok R P (smap_err f m) Q"
  unfolding run_ok_def smap_err_def by (auto split: prod.splits sum.splits)

lemma run_ok_if [triples]:
  "(b \<Longrightarrow> run_ok R P m Q) \<Longrightarrow> (\<not> b \<Longrightarrow> run_ok R P k Q) \<Longrightarrow> run_ok R P (if b then m else k) Q"
  by simp

lemma run_ok_option [triples]:
  "(x = None \<Longrightarrow> run_ok R P m Q) \<Longrightarrow> (\<And>y. x = Some y \<Longrightarrow> run_ok R P (k y) Q) \<Longrightarrow> run_ok R P (case x of None \<Rightarrow> m | Some y \<Rightarrow> k y) Q"
  by (cases x) simp_all

lemma run_ok_sum [triples]:
  "(\<And>e. x = Inl e \<Longrightarrow> run_ok R P (m e) Q) \<Longrightarrow> (\<And>y. x = Inr y \<Longrightarrow> run_ok R P (k y) Q) \<Longrightarrow> run_ok R P (case x of Inl e \<Rightarrow> m e | Inr y \<Rightarrow> k y) Q"
  by (cases x) simp_all

lemma run_ok_prod [triples]: "(\<And>a b. x = (a, b) \<Longrightarrow> run_ok R P (k a b) Q) \<Longrightarrow> run_ok R P (case x of (a, b) \<Rightarrow> k a b) Q"
  by (cases x) simp

text \<open>A fact that the steps keep is carried along.\<close>

definition kept_by :: "('s \<Rightarrow> 's \<Rightarrow> bool) \<Rightarrow> ('s \<Rightarrow> bool) \<Rightarrow> bool" where
  "kept_by R F \<longleftrightarrow> (\<forall>s s'. R s s' \<longrightarrow> F s \<longrightarrow> F s')"

lemma kept_by_steps:
  assumes "kept_by R F" "R\<^sup>*\<^sup>* s s'" "F s"
  shows "F s'"
  using assms(2,3) assms(1) unfolding kept_by_def by (induction rule: rtranclp_induct) blast+

lemma kept_by_conj: "kept_by R F \<Longrightarrow> kept_by R G \<Longrightarrow> kept_by R (\<lambda>s. F s \<and> G s)"
  by (auto simp: kept_by_def)

lemma kept_by_True [simp]: "kept_by R (\<lambda>s. True)" "kept_by R (\<lambda>s. c)"
  by (simp_all add: kept_by_def)

lemma run_ok_frame: "run_ok R P m Q \<Longrightarrow> kept_by R F \<Longrightarrow> run_ok R (\<lambda>s. P s \<and> F s) m (\<lambda>r s. Q r s \<and> F s)"
  unfolding run_ok_def by (meson kept_by_steps)

text \<open>Calls without a condition: every world they pass through is reached by steps.\<close>

definition moves_by :: "('s \<Rightarrow> 's \<Rightarrow> bool) \<Rightarrow> ('s, 'e, 'a) call \<Rightarrow> bool" where
  "moves_by R m \<longleftrightarrow> (\<forall>s. R\<^sup>*\<^sup>* s (fst (m s)))"

lemma moves_byD: "moves_by R m \<Longrightarrow> m s = (s', r) \<Longrightarrow> R\<^sup>*\<^sup>* s s'"
  unfolding moves_by_def by (metis fst_conv)

lemma moves_run: "moves_by R m \<Longrightarrow> kept_by R P \<Longrightarrow> run_ok R P m (\<lambda>r. P)"
  unfolding run_ok_def moves_by_def by (meson kept_by_steps)

lemma run_moves: "run_ok R (\<lambda>s. True) m Q \<Longrightarrow> moves_by R m"
  by (simp add: run_ok_def moves_by_def)

lemma moves_runs: "moves_by R m \<longleftrightarrow> run_ok R (\<lambda>s. True) m (\<lambda>r s. True)"
  by (simp add: run_ok_def moves_by_def)

lemma moves_step: "(\<And>s. R\<^sup>*\<^sup>* s (fst (m s))) \<Longrightarrow> moves_by R m"
  by (simp add: moves_by_def)

named_theorems moving \<open>rules that decompose \<open>moves_by\<close>\<close>

lemma moves_basic [moving, simp]:
  "moves_by R (sret x)" "moves_by R (sfail e)" "moves_by R (slift y)" "moves_by R (srequire b e)" "moves_by R (sread f)"
  by (simp_all add: moves_by_def sret_def sfail_def slift_def srequire_def sread_def)

lemma moves_bind [moving]: "moves_by R m \<Longrightarrow> (\<And>x. moves_by R (k x)) \<Longrightarrow> moves_by R (sbind m k)"
  unfolding moves_runs by (erule run_ok_bind) (auto elim: run_ok_weaken)

lemma moves_try [moving]: "moves_by R m \<Longrightarrow> moves_by R (stry m)"
  unfolding moves_by_def stry_def by (metis (no_types, lifting) case_prod_beta fst_conv)

lemma moves_map_err [moving]: "moves_by R m \<Longrightarrow> moves_by R (smap_err f m)"
  unfolding moves_by_def smap_err_def by (auto split: prod.splits sum.splits) (metis fst_conv)+

lemma moves_if [moving]: "(b \<Longrightarrow> moves_by R m) \<Longrightarrow> (\<not> b \<Longrightarrow> moves_by R k) \<Longrightarrow> moves_by R (if b then m else k)"
  by simp

lemma moves_option [moving]:
  "(x = None \<Longrightarrow> moves_by R m) \<Longrightarrow> (\<And>y. x = Some y \<Longrightarrow> moves_by R (k y)) \<Longrightarrow> moves_by R (case x of None \<Rightarrow> m | Some y \<Rightarrow> k y)"
  by (cases x) simp_all

lemma moves_sum [moving]:
  "(\<And>e. x = Inl e \<Longrightarrow> moves_by R (m e)) \<Longrightarrow> (\<And>y. x = Inr y \<Longrightarrow> moves_by R (k y)) \<Longrightarrow> moves_by R (case x of Inl e \<Rightarrow> m e | Inr y \<Rightarrow> k y)"
  by (cases x) simp_all

lemma moves_prod [moving]: "(\<And>a b. x = (a, b) \<Longrightarrow> moves_by R (k a b)) \<Longrightarrow> moves_by R (case x of (a, b) \<Rightarrow> k a b)"
  by (cases x) simp

end
