(* ===== verification/Overview_Types.thy ===== *)
theory Overview_Types
  imports Go_State Execution_Types Funds_Lifecycle Matching_Snapshot
begin

text \<open>The data of the overview package, and the gate of an artifact.\<close>

text \<open>
  The overview package's data (\<open>internal/overview/types.go\<close>): a batch of slots, one slot for each agent drawn by
  the matching, the validation of what the agent delivered, and the state of the reserve that pays for it. Structs
  are records with the source's field names behind a short prefix. \<open>cloneBatch\<close> and \<open>cloneValidation\<close> are
  the identity on values. The requests to the ledger are in \<open>Funds_Lifecycle\<close>.
\<close>

abbreviation OrchestrationVersion :: string where "OrchestrationVersion \<equiv> ''overview-orchestration-v1''"
abbreviation ResultSchemaVersion :: string where "ResultSchemaVersion \<equiv> ''overview-result-v1''"
abbreviation ReplacementVersion :: string where "ReplacementVersion \<equiv> ''overview-replacement-v1''"

abbreviation BatchRunning :: string where "BatchRunning \<equiv> ''running''"
abbreviation BatchCompleted :: string where "BatchCompleted \<equiv> ''completed''"
abbreviation BatchObsolete :: string where "BatchObsolete \<equiv> ''obsolete''"

abbreviation SlotPlanned :: string where "SlotPlanned \<equiv> ''planned''"
abbreviation SlotDispatched :: string where "SlotDispatched \<equiv> ''dispatched''"
abbreviation SlotValid :: string where "SlotValid \<equiv> ''valid''"
abbreviation SlotInvalid :: string where "SlotInvalid \<equiv> ''invalid''"
abbreviation SlotFailed :: string where "SlotFailed \<equiv> ''failed''"
abbreviation SlotObsolete :: string where "SlotObsolete \<equiv> ''obsolete''"

abbreviation BillingAuthorized :: string where "BillingAuthorized \<equiv> ''authorized''"
abbreviation BillingCaptured :: string where "BillingCaptured \<equiv> ''captured''"
abbreviation BillingReleased :: string where "BillingReleased \<equiv> ''released''"

text \<open>The errors of the package, those of the packages it calls, and \<open>errors.Join\<close>, kept as the list of its leaves.\<close>

datatype overview_error =
    OErrInvalidInput
  | OErrNotFound
  | OErrContentConflict
  | OErrInvalidState
  | OErrObsolete
  | OErrDependencyPending
  | OErrExecution exec_error
  | OErrFunds funds_error
  | OErrMatching match_error
  | OErrOther string
  | OErrJoined "overview_error list"

record brief_handle =
  bh_Ref :: string
  bh_Hash :: string
  bh_ExpiresAt :: gotime

record dispatch_target =
  dt_AgentID :: string
  dt_ProviderID :: string
  dt_Endpoint :: string
  dt_PriceVersion :: int
  dt_OverviewPrice :: string
  dt_ExternalCostCap :: string
  dt_QuoteHash :: string

record tool_evidence =
  te_Complete :: bool
  te_Tools :: "string list"
  te_ExternalWriteAttempts :: int

record validation =
  vl_Valid :: bool
  vl_Codes :: "string list"

record slot =
  sl_ID :: string
  sl_BatchID :: string
  sl_Ordinal :: int
  sl_SourcePosition :: int
  sl_Replacement :: bool
  sl_AgentID :: string
  sl_ProviderID :: string
  sl_PriceVersion :: int
  sl_QuoteHash :: string
  sl_OverviewPrice :: string
  sl_ExternalCostCap :: string
  sl_AllocationID :: string
  sl_LogicalExecutionID :: string
  sl_Status :: string
  sl_BillingStatus :: string
  sl_Validation :: validation
  sl_ContentHash :: string
  sl_DeliverableRef :: string
  sl_CreatedAt :: gotime
  sl_UpdatedAt :: gotime

record batch =
  bt_ID :: string
  bt_SnapshotID :: string
  bt_TaskID :: string
  bt_TaskSpecHash :: string
  bt_MatchRevision :: int
  bt_AlgorithmVersion :: string
  bt_BriefRef :: string
  bt_BriefHash :: string
  bt_Deadline :: gotime
  bt_Status :: string
  bt_ReplacementUsed :: bool
  bt_ReplacementExhausted :: bool
  bt_Slots :: "slot list"
  bt_CreatedAt :: gotime
  bt_UpdatedAt :: gotime

record start_request =
  sq_SnapshotID :: string
  sq_Deadline :: gotime

text \<open>The zero batch, the value beside an error.\<close>

definition zero_validation :: validation where
  "zero_validation = \<lparr>vl_Valid = False, vl_Codes = []\<rparr>"

definition zero_batch :: batch where
  "zero_batch = \<lparr>bt_ID = [], bt_SnapshotID = [], bt_TaskID = [], bt_TaskSpecHash = [], bt_MatchRevision = 0, bt_AlgorithmVersion = [],
     bt_BriefRef = [], bt_BriefHash = [], bt_Deadline = 0, bt_Status = [], bt_ReplacementUsed = False, bt_ReplacementExhausted = False,
     bt_Slots = [], bt_CreatedAt = 0, bt_UpdatedAt = 0\<rparr>"

text \<open>\<open>errors.Join\<close> in a loop: the errors collected are its leaves, and without any the result is nil.\<close>

definition joined :: "overview_error list \<Rightarrow> overview_error option" where
  "joined es = (if es = [] then None else Some (OErrJoined es))"

lemma joined_simps [simp]: "joined [] = None" "joined (e # es) = Some (OErrJoined (e # es))" "joined es = None \<longleftrightarrow> es = []"
  by (simp_all add: joined_def)

section \<open>Identifiers\<close>

text \<open>\<open>stableID\<close>: every part after its length in decimal and a colon.\<close>

definition dec_field :: "string \<Rightarrow> string" where
  "dec_field p = nat_string (length p) @ '':'' @ p"

definition ov_stable_id :: "(string \<Rightarrow> string) \<Rightarrow> string list \<Rightarrow> string" where
  "ov_stable_id H parts = sha_string (H (concat (map dec_field parts)))"

lemma takeWhile_digits: "list_all is_digit ds \<Longrightarrow> takeWhile is_digit (ds @ '':'' @ p) = ds"
  by (induction ds) (auto simp: char_between_def)

interpretation dec: part_encoding dec_field "\<lambda>_. True"
proof unfold_locales
  fix p q r t :: string
  assume e: "dec_field p @ r = dec_field q @ t"
  have "takeWhile is_digit (dec_field p @ r) = nat_string (length p)" "takeWhile is_digit (dec_field q @ t) = nat_string (length q)"
    using takeWhile_digits [OF nat_string_all_digits, of "length p" "p @ r"] takeWhile_digits [OF nat_string_all_digits, of "length q" "q @ t"]
    by (simp_all add: dec_field_def)
  then have "length p = length q" using e by (metis nat_of_digits_string)
  with e show "p = q \<and> r = t" by (simp add: dec_field_def)
next
  show "dec_field p \<noteq> []" for p by (simp add: dec_field_def)
qed

text \<open>
  The gate every overview passes before it is paid (\<open>internal/overview/validation.go\<close>). The JSON decoder is a parameter:
  it answers the document when the body is one JSON value that fits \<open>ResultDocument\<close> without unknown fields, with
  nothing but white space after it, and \<open>None\<close> otherwise.
\<close>

record result_document =
  rdoc_SchemaVersion :: string
  rdoc_UnderstandingSummary :: string
  rdoc_Approach :: "string list"
  rdoc_DeliverableStructure :: "string list"
  rdoc_KeyRisks :: "string list"
  rdoc_EstimatedDurationSeconds :: int
  rdoc_Sample :: string

abbreviation MaxArtifactBytes :: nat where "MaxArtifactBytes \<equiv> 64 * 1024"

definition blank_or_long :: "string \<Rightarrow> nat \<Rightarrow> bool" where
  "blank_or_long v maximum \<longleftrightarrow> blank v \<or> length v > maximum"

definition invalid_list :: "string list \<Rightarrow> nat \<Rightarrow> nat \<Rightarrow> nat \<Rightarrow> bool" where
  "invalid_list vs minimum maximum itemMaximum =
     (if length vs < minimum \<or> length vs > maximum then True else list_ex (\<lambda>v. blank_or_long v itemMaximum) vs)"

definition when_code :: "bool \<Rightarrow> string \<Rightarrow> string list" where
  "when_code b code = (if b then [code] else [])"

definition document_codes :: "result_document \<Rightarrow> string list" where
  "document_codes d =
     when_code (rdoc_SchemaVersion d \<noteq> ResultSchemaVersion) ''schema_version_invalid'' @
     when_code (blank_or_long (rdoc_UnderstandingSummary d) 4000) ''understanding_summary_invalid'' @
     when_code (invalid_list (rdoc_Approach d) 1 10 1000) ''approach_invalid'' @
     when_code (invalid_list (rdoc_DeliverableStructure d) 1 20 1000) ''deliverable_structure_invalid'' @
     when_code (invalid_list (rdoc_KeyRisks d) 1 10 1000) ''key_risks_invalid'' @
     when_code (rdoc_EstimatedDurationSeconds d < 1 \<or> rdoc_EstimatedDurationSeconds d > 365 * 24 * hour_ns div second_ns) ''estimated_duration_invalid'' @
     when_code (length (rdoc_Sample d) > 4000) ''sample_too_large''"

definition artifact_codes ::
    "(string \<Rightarrow> string) \<Rightarrow> (string \<Rightarrow> result_document option) \<Rightarrow> string \<Rightarrow> string \<Rightarrow> gotime \<Rightarrow> gotime \<Rightarrow> tool_evidence \<Rightarrow> string list \<Rightarrow> string list" where
  "artifact_codes H decode body contentHash completedAt deadline evidence allowedTools =
     when_code (length body > MaxArtifactBytes) ''artifact_too_large'' @
     when_code (contentHash \<noteq> sha_string (H body)) ''content_hash_mismatch'' @
     (case decode body of None \<Rightarrow> [''format_invalid''] | Some d \<Rightarrow> document_codes d) @
     when_code (completedAt > deadline) ''deadline_exceeded'' @
     when_code (\<not> te_Complete evidence) ''tool_evidence_missing'' @
     when_code (te_ExternalWriteAttempts evidence > 0) ''external_write_attempted'' @
     when_code (list_ex (\<lambda>t. t \<notin> set allowedTools) (te_Tools evidence)) ''tool_not_allowed''"

definition validate_artifact ::
    "(string \<Rightarrow> string) \<Rightarrow> (string \<Rightarrow> result_document option) \<Rightarrow> string \<Rightarrow> string \<Rightarrow> gotime \<Rightarrow> gotime \<Rightarrow> tool_evidence \<Rightarrow> string list \<Rightarrow> validation" where
  "validate_artifact H decode body contentHash completedAt deadline evidence allowedTools =
     (let codes = remdups_adj (sort_func strcmp (artifact_codes H decode body contentHash completedAt deadline evidence allowedTools))
      in \<lparr>vl_Valid = (codes = []), vl_Codes = codes\<rparr>)"

section \<open>What a valid artifact is\<close>

definition acceptable_text :: "nat \<Rightarrow> string \<Rightarrow> bool" where
  "acceptable_text maximum v \<longleftrightarrow> \<not> blank v \<and> length v \<le> maximum"

definition acceptable_list :: "nat \<Rightarrow> string list \<Rightarrow> bool" where
  "acceptable_list maximum vs \<longleftrightarrow> 1 \<le> length vs \<and> length vs \<le> maximum \<and> (\<forall>v \<in> set vs. acceptable_text 1000 v)"

definition acceptable_document :: "result_document \<Rightarrow> bool" where
  "acceptable_document d \<longleftrightarrow> rdoc_SchemaVersion d = ResultSchemaVersion \<and> acceptable_text 4000 (rdoc_UnderstandingSummary d) \<and>
     acceptable_list 10 (rdoc_Approach d) \<and> acceptable_list 20 (rdoc_DeliverableStructure d) \<and> acceptable_list 10 (rdoc_KeyRisks d) \<and>
     1 \<le> rdoc_EstimatedDurationSeconds d \<and> rdoc_EstimatedDurationSeconds d \<le> 31536000 \<and> length (rdoc_Sample d) \<le> 4000"

lemma when_code_Nil [simp]: "when_code b c = [] \<longleftrightarrow> \<not> b"
  by (simp add: when_code_def)

lemma blank_or_long_iff: "blank_or_long v n \<longleftrightarrow> \<not> acceptable_text n v"
  by (auto simp: blank_or_long_def acceptable_text_def)

lemma invalid_list_iff: "invalid_list vs 1 n 1000 \<longleftrightarrow> \<not> acceptable_list n vs"
  by (auto simp: invalid_list_def acceptable_list_def list_ex_iff blank_or_long_iff Suc_le_eq)

lemma document_codes_Nil: "document_codes d = [] \<longleftrightarrow> acceptable_document d"
  by (auto simp: document_codes_def acceptable_document_def blank_or_long_iff invalid_list_iff [simplified])

lemma artifact_codes_Nil:
  "artifact_codes H decode body h t d ev tools = [] \<longleftrightarrow>
     length body \<le> MaxArtifactBytes \<and> h = sha_string (H body) \<and> (\<exists>doc. decode body = Some doc \<and> acceptable_document doc) \<and> t \<le> d \<and>
     te_Complete ev \<and> te_ExternalWriteAttempts ev \<le> 0 \<and> set (te_Tools ev) \<subseteq> set tools"
  by (auto simp: artifact_codes_def document_codes_Nil list_ex_iff not_less split: option.splits)

lemma remdups_adj_Nil [simp]: "remdups_adj xs = [] \<longleftrightarrow> xs = []"
  by (metis remdups_adj.simps(1) remdups_adj_set set_empty)

lemma validate_artifact_valid:
  "vl_Valid (validate_artifact H decode body h t d ev tools) \<longleftrightarrow>
     length body \<le> MaxArtifactBytes \<and> h = sha_string (H body) \<and> (\<exists>doc. decode body = Some doc \<and> acceptable_document doc) \<and> t \<le> d \<and>
     te_Complete ev \<and> te_ExternalWriteAttempts ev \<le> 0 \<and> set (te_Tools ev) \<subseteq> set tools"
  by (simp add: validate_artifact_def Let_def artifact_codes_Nil)

interpretation codes: comparator strcmp
  by unfold_locales auto

lemma strict_remdups_adj: "sorted xs \<Longrightarrow> sorted_wrt (<) (remdups_adj (xs :: 'a :: linorder list))"
  by (induction xs rule: remdups_adj.induct) force+

lemma validate_artifact_codes:
  "set (vl_Codes (validate_artifact H decode body h t d ev tools)) = set (artifact_codes H decode body h t d ev tools)"
  "sorted_wrt (<) (vl_Codes (validate_artifact H decode body h t d ev tools))"
proof -
  let ?c = "artifact_codes H decode body h t d ev tools"
  show "set (vl_Codes (validate_artifact H decode body h t d ev tools)) = set ?c" by (simp add: validate_artifact_def Let_def)
  have "sorted (sort_func strcmp ?c)" using codes.sorted_sort_func [of ?c] by (simp add: sorted_wrt_iff_nth_less)
  then show "sorted_wrt (<) (vl_Codes (validate_artifact H decode body h t d ev tools))"
    by (simp add: validate_artifact_def Let_def strict_remdups_adj)
qed

end
