(* ===== verification/Overview_Memory.thy ===== *)
theory Overview_Memory
  imports Overview_Types
begin

text \<open>
  The in-memory repository of batches (\<open>internal/overview/memory.go\<close>). The state is the map of batches by
  identifier; each method runs under the lock and reads the clock once. The iteration order of the map decides
  the order of the batches in the answer of \<open>MarkObsoleteBefore\<close>, nothing else.
\<close>

type_synonym ov_repo = "(string, batch) gomap"

definition new_ov_repository :: ov_repo where
  "new_ov_repository = []"

section \<open>Plans\<close>

text \<open>\<open>sameBatchPlan\<close> compares the slots with what happens later cleared.\<close>

definition cleared_slot :: "slot \<Rightarrow> slot" where
  "cleared_slot s = s\<lparr>sl_Status := [], sl_BillingStatus := [], sl_Validation := zero_validation, sl_ContentHash := [],
     sl_DeliverableRef := [], sl_CreatedAt := 0, sl_UpdatedAt := 0\<rparr>"

definition same_batch_plan :: "batch \<Rightarrow> batch \<Rightarrow> bool" where
  "same_batch_plan x y =
     (if bt_ID x \<noteq> bt_ID y \<or> bt_SnapshotID x \<noteq> bt_SnapshotID y \<or> bt_TaskID x \<noteq> bt_TaskID y \<or> bt_TaskSpecHash x \<noteq> bt_TaskSpecHash y \<or>
         bt_MatchRevision x \<noteq> bt_MatchRevision y \<or> bt_AlgorithmVersion x \<noteq> bt_AlgorithmVersion y \<or> bt_BriefRef x \<noteq> bt_BriefRef y \<or>
         bt_BriefHash x \<noteq> bt_BriefHash y \<or> bt_Deadline x \<noteq> bt_Deadline y \<or> length (bt_Slots x) \<noteq> length (bt_Slots y) then False
      else list_all2 (\<lambda>a b. cleared_slot a = cleared_slot b) (bt_Slots x) (bt_Slots y))"

definition same_slot_plan :: "slot \<Rightarrow> slot \<Rightarrow> bool" where
  "same_slot_plan x y \<longleftrightarrow> sl_ID x = sl_ID y \<and> sl_BatchID x = sl_BatchID y \<and> sl_Ordinal x = sl_Ordinal y \<and>
     sl_SourcePosition x = sl_SourcePosition y \<and> sl_Replacement x = sl_Replacement y \<and> sl_AgentID x = sl_AgentID y \<and>
     sl_ProviderID x = sl_ProviderID y \<and> sl_PriceVersion x = sl_PriceVersion y \<and> sl_QuoteHash x = sl_QuoteHash y \<and>
     sl_OverviewPrice x = sl_OverviewPrice y \<and> sl_ExternalCostCap x = sl_ExternalCostCap y \<and> sl_AllocationID x = sl_AllocationID y \<and>
     sl_LogicalExecutionID x = sl_LogicalExecutionID y"

section \<open>Lookups\<close>

definition get_batch :: "string \<Rightarrow> ov_repo \<Rightarrow> overview_error + batch" where
  "get_batch b r = from_option OErrNotFound (gget r b)"

fun slot_at :: "string \<Rightarrow> nat \<Rightarrow> slot list \<Rightarrow> (slot \<times> nat) option" where
  "slot_at i n [] = None"
| "slot_at i n (s # ss) = (if sl_ID s = i then Some (s, n) else slot_at i (Suc n) ss)"

definition locate_slot :: "string \<Rightarrow> string \<Rightarrow> ov_repo \<Rightarrow> overview_error + batch \<times> slot \<times> nat" where
  "locate_slot b i r =
     (case gget r b of
        None \<Rightarrow> Inl OErrNotFound
      | Some x \<Rightarrow> (case slot_at i 0 (bt_Slots x) of None \<Rightarrow> Inl OErrNotFound | Some (s, n) \<Rightarrow> Inr (x, s, n)))"

definition put_slot :: "gotime \<Rightarrow> batch \<Rightarrow> nat \<Rightarrow> slot \<Rightarrow> batch" where
  "put_slot now x n s = x\<lparr>bt_Slots := (bt_Slots x)[n := s], bt_UpdatedAt := now\<rparr>"

section \<open>The end of a batch\<close>

definition outstanding :: "slot \<Rightarrow> bool" where
  "outstanding s \<longleftrightarrow> sl_Status s = SlotPlanned \<or> sl_Status s = SlotDispatched \<or> sl_BillingStatus s = BillingAuthorized"

definition rejected :: "slot \<Rightarrow> bool" where
  "rejected s \<longleftrightarrow> sl_Status s = SlotInvalid \<or> sl_Status s = SlotFailed"

definition finish_batch :: "batch \<Rightarrow> batch" where
  "finish_batch x =
     (if bt_Status x = BatchObsolete then x
      else if list_ex outstanding (bt_Slots x) then x
      else if \<not> list_ex rejected (bt_Slots x) \<or> bt_ReplacementUsed x \<or> bt_ReplacementExhausted x then x\<lparr>bt_Status := BatchCompleted\<rparr>
      else x)"

section \<open>Methods\<close>

definition get_or_create_batch :: "batch \<Rightarrow> ov_repo \<Rightarrow> ov_repo \<times> (overview_error + batch \<times> bool)" where
  "get_or_create_batch draft r =
     (case gget r (bt_ID draft) of
        Some x \<Rightarrow> if \<not> same_batch_plan x draft then (r, Inl OErrContentConflict) else (r, Inr (x, True))
      | None \<Rightarrow>
          if list_ex (\<lambda>x. bt_SnapshotID x = bt_SnapshotID draft) (gvals r) then (r, Inl OErrContentConflict)
          else (gput (bt_ID draft) draft r, Inr (draft, False)))"

definition record_dispatched :: "gotime \<Rightarrow> string \<Rightarrow> string \<Rightarrow> ov_repo \<Rightarrow> ov_repo \<times> (overview_error + batch)" where
  "record_dispatched now b i r =
     (case locate_slot b i r of
        Inl e \<Rightarrow> (r, Inl e)
      | Inr (x, s, n) \<Rightarrow>
          if bt_Status x = BatchObsolete then (r, Inl OErrObsolete)
          else if sl_Status s = SlotDispatched then (r, Inr x)
          else if sl_Status s \<noteq> SlotPlanned then (r, Inl OErrInvalidState)
          else let x' = put_slot now x n (s\<lparr>sl_Status := SlotDispatched, sl_UpdatedAt := now\<rparr>) in (gput b x' r, Inr x'))"

text \<open>A second valid slot with the same content is a duplicate.\<close>

definition duplicate_content :: "nat \<Rightarrow> string \<Rightarrow> slot list \<Rightarrow> bool" where
  "duplicate_content n contentHash ss \<longleftrightarrow>
     list_ex (\<lambda>(k, s). k \<noteq> n \<and> sl_Status s = SlotValid \<and> sl_ContentHash s = contentHash) (enumerate 0 ss)"

definition checked_validation :: "nat \<Rightarrow> string \<Rightarrow> slot list \<Rightarrow> validation \<Rightarrow> validation" where
  "checked_validation n contentHash ss v =
     (if vl_Valid v \<and> duplicate_content n contentHash ss then \<lparr>vl_Valid = False, vl_Codes = [''duplicate_content'']\<rparr> else v)"

definition record_validation ::
    "gotime \<Rightarrow> string \<Rightarrow> string \<Rightarrow> validation \<Rightarrow> string \<Rightarrow> string \<Rightarrow> ov_repo \<Rightarrow> ov_repo \<times> (overview_error + batch \<times> slot \<times> bool)" where
  "record_validation now b i v0 contentHash deliverableRef r =
     (case locate_slot b i r of
        Inl e \<Rightarrow> (r, Inl e)
      | Inr (x, s, n) \<Rightarrow>
          if bt_Status x = BatchObsolete then (r, Inl OErrObsolete)
          else if sl_Status s = SlotValid \<or> sl_Status s = SlotInvalid then
            (if sl_ContentHash s \<noteq> contentHash \<or> sl_DeliverableRef s \<noteq> deliverableRef then (r, Inl OErrContentConflict)
             else (r, Inr (x, s, True)))
          else if sl_Status s \<noteq> SlotDispatched then (r, Inl OErrInvalidState)
          else let v = checked_validation n contentHash (bt_Slots x) v0;
                   s' = s\<lparr>sl_Validation := v, sl_ContentHash := contentHash, sl_DeliverableRef := deliverableRef, sl_UpdatedAt := now,
                          sl_Status := (if vl_Valid v then SlotValid else SlotInvalid)\<rparr>;
                   x' = finish_batch (put_slot now x n s')
               in (gput b x' r, Inr (x', s', False)))"

definition release_allowed :: "batch \<Rightarrow> slot \<Rightarrow> bool" where
  "release_allowed x s \<longleftrightarrow> sl_Status s = SlotInvalid \<or> sl_Status s = SlotFailed \<or> sl_Status s = SlotObsolete \<or>
     bt_Status x = BatchObsolete \<and> sl_Status s = SlotValid"

definition record_billing :: "gotime \<Rightarrow> string \<Rightarrow> string \<Rightarrow> string \<Rightarrow> ov_repo \<Rightarrow> ov_repo \<times> (overview_error + batch)" where
  "record_billing now b i status r =
     (case locate_slot b i r of
        Inl e \<Rightarrow> (r, Inl e)
      | Inr (x, s, n) \<Rightarrow>
          if status \<noteq> BillingCaptured \<and> status \<noteq> BillingReleased then (r, Inl OErrInvalidInput)
          else if sl_BillingStatus s = status then (r, Inr x)
          else if sl_BillingStatus s \<noteq> BillingAuthorized \<or> status = BillingCaptured \<and> sl_Status s \<noteq> SlotValid \<or>
                  status = BillingReleased \<and> \<not> release_allowed x s then (r, Inl OErrInvalidState)
          else let x' = finish_batch (put_slot now x n (s\<lparr>sl_BillingStatus := status, sl_UpdatedAt := now\<rparr>)) in (gput b x' r, Inr x'))"

definition add_replacement :: "gotime \<Rightarrow> string \<Rightarrow> slot \<Rightarrow> ov_repo \<Rightarrow> ov_repo \<times> (overview_error + batch \<times> bool)" where
  "add_replacement now b replacement r =
     (case gget r b of
        None \<Rightarrow> (r, Inl OErrNotFound)
      | Some x \<Rightarrow>
          if bt_Status x = BatchObsolete then (r, Inl OErrObsolete)
          else case List.find sl_Replacement (bt_Slots x) of
            Some s \<Rightarrow> if \<not> same_slot_plan s replacement then (r, Inl OErrContentConflict) else (r, Inr (x, True))
          | None \<Rightarrow>
              if bt_ReplacementUsed x \<or> bt_ReplacementExhausted x \<or> \<not> sl_Replacement replacement \<or>
                 sl_Ordinal replacement \<noteq> int (length (bt_Slots x)) + 1 \<or> sl_BatchID replacement \<noteq> b then (r, Inl OErrInvalidState)
              else let x' = x\<lparr>bt_ReplacementUsed := True, bt_Slots := bt_Slots x @ [replacement], bt_UpdatedAt := now\<rparr>
                   in (gput b x' r, Inr (x', False)))"

definition exhaust_replacement :: "gotime \<Rightarrow> string \<Rightarrow> ov_repo \<Rightarrow> ov_repo \<times> (overview_error + batch)" where
  "exhaust_replacement now b r =
     (case gget r b of
        None \<Rightarrow> (r, Inl OErrNotFound)
      | Some x \<Rightarrow>
          if bt_ReplacementUsed x \<or> bt_ReplacementExhausted x then (r, Inr x)
          else let x' = finish_batch (x\<lparr>bt_ReplacementExhausted := True, bt_UpdatedAt := now\<rparr>) in (gput b x' r, Inr x'))"

definition obsolete_slot :: "gotime \<Rightarrow> slot \<Rightarrow> slot" where
  "obsolete_slot now s =
     (if sl_Status s \<noteq> SlotValid \<and> sl_Status s \<noteq> SlotInvalid \<and> sl_Status s \<noteq> SlotFailed
      then s\<lparr>sl_Status := SlotObsolete, sl_UpdatedAt := now\<rparr> else s)"

definition obsolete_batch :: "gotime \<Rightarrow> batch \<Rightarrow> batch" where
  "obsolete_batch now x = x\<lparr>bt_Status := BatchObsolete, bt_UpdatedAt := now, bt_Slots := map (obsolete_slot now) (bt_Slots x)\<rparr>"

definition older_batch :: "string \<Rightarrow> int \<Rightarrow> batch \<Rightarrow> bool" where
  "older_batch taskID revision x \<longleftrightarrow> \<not> (bt_TaskID x \<noteq> taskID \<or> bt_MatchRevision x \<ge> revision \<or> bt_Status x = BatchObsolete)"

definition mark_obsolete_before :: "gotime \<Rightarrow> string \<Rightarrow> int \<Rightarrow> ov_repo \<Rightarrow> ov_repo \<times> (overview_error + batch list)" where
  "mark_obsolete_before now taskID revision r =
     (if taskID = [] \<or> revision < 1 then (r, Inl OErrInvalidInput)
      else (map (\<lambda>(i, x). (i, if older_batch taskID revision x then obsolete_batch now x else x)) r,
            Inr (map (obsolete_batch now) (filter (older_batch taskID revision) (gvals r)))))"

section \<open>Lemmas\<close>

lemma slot_at_Some:
  "slot_at i n ss = Some (s, m) \<longleftrightarrow> n \<le> m \<and> m - n < length ss \<and> ss ! (m - n) = s \<and> sl_ID s = i \<and> (\<forall>k < m - n. sl_ID (ss ! k) \<noteq> i)"
proof (induction ss arbitrary: n)
  case (Cons x ss)
  show ?case
  proof (cases "sl_ID x = i")
    case True
    show ?thesis
    proof (cases "m = n")
      case False
      then have "n \<le> m \<Longrightarrow> 0 < m - n" by simp
      then show ?thesis using True False by (auto intro!: exI [of _ 0])
    qed (use True in auto)
  next
    case False
    show ?thesis
    proof (cases "Suc n \<le> m")
      case True
      then have m: "m - n = Suc (m - Suc n)" by simp
      have "(\<forall>k < Suc (m - Suc n). sl_ID ((x # ss) ! k) \<noteq> i) \<longleftrightarrow> (\<forall>k < m - Suc n. sl_ID (ss ! k) \<noteq> i)"
        using False by (auto simp: less_Suc_eq_0_disj)
      then show ?thesis using True False Cons.IH [of "Suc n"] by (simp add: m)
    next
      case l: False
      then show ?thesis using False Cons.IH [of "Suc n"] by auto
    qed
  qed
qed simp

lemma locate_slot_Inr:
  "locate_slot b i r = Inr (x, s, n) \<longleftrightarrow> gget r b = Some x \<and> n < length (bt_Slots x) \<and> bt_Slots x ! n = s \<and> sl_ID s = i \<and>
     (\<forall>k < n. sl_ID (bt_Slots x ! k) \<noteq> i)"
proof -
  have "locate_slot b i r = Inr (x, s, n) \<longleftrightarrow> gget r b = Some x \<and> slot_at i 0 (bt_Slots x) = Some (s, n)"
    by (auto simp: locate_slot_def split: option.splits)
  then show ?thesis by (simp add: slot_at_Some)
qed

lemma find_slots:
  "List.find sl_Replacement ss = None \<longleftrightarrow> (\<forall>s \<in> set ss. \<not> sl_Replacement s)"
  by (auto simp: find_None_iff)

lemma gget_map: "gget (map (\<lambda>(i, x). (i, f x)) r) k = map_option f (gget r k)"
  by (induction r) (auto simp: gget_def)

lemma gwf_map [simp]: "gwf (map (\<lambda>(i, x). (i, f x)) r) = gwf r"
proof -
  have "map fst (map (\<lambda>(i, x). (i, f x)) r) = map fst r" by (induction r) auto
  then show ?thesis by (simp only: gwf_def)
qed

end
