(* ===== verification/Overview_Service.thy ===== *)
theory Overview_Service
  imports Overview_Memory Overview_Types Execution_Protocol
begin

text \<open>
  The overview service (\<open>internal/overview/service.go\<close>). It plans a slot for each drawn agent, dispatches the
  executions, validates what they deliver, captures or releases the reserve and replaces one invalid slot.

  Every service it calls is a function of the whole world, the repository and the rest, so other requests may run
  during a call. The goroutines of \<open>dispatchOutstanding\<close> finish in any order: the schedule is a parameter that
  permutes the planned slots. A call reads the clock once.
\<close>

record ov_config =
  oc_MaximumDuration :: duration
  oc_AllowedTools :: "string list"

record 'w ov_world =
  ow_repo :: ov_repo
  ow_rest :: 'w

record 'w ov_peers =
  op_sha :: "string \<Rightarrow> string"
  op_json :: "string \<Rightarrow> result_document option"
  op_url :: "string \<Rightarrow> url_parts option"
  op_schedule :: "slot list \<Rightarrow> slot list"
  op_snapshot :: "string \<Rightarrow> ('w ov_world, overview_error, snapshot) call"
  op_brief :: "string \<Rightarrow> string \<Rightarrow> gotime \<Rightarrow> ('w ov_world, overview_error, brief_handle) call"
  op_target :: "string \<Rightarrow> int \<Rightarrow> ('w ov_world, overview_error, dispatch_target) call"
  op_authorize :: "allocation_request \<Rightarrow> ('w ov_world, overview_error, overview_allocation \<times> bool) call"
  op_capture :: "string \<Rightarrow> billing_claim \<Rightarrow> ('w ov_world, overview_error, unit \<times> bool) call"
  op_release :: "string \<Rightarrow> string \<Rightarrow> ('w ov_world, overview_error, unit \<times> bool) call"
  op_create :: "spec \<Rightarrow> ('w ov_world, overview_error, execution \<times> bool) call"
  op_dispatch :: "string \<Rightarrow> ('w ov_world, overview_error, unit) call"
  op_get :: "string \<Rightarrow> ('w ov_world, overview_error, execution) call"
  op_poll :: "string \<Rightarrow> ('w ov_world, overview_error, status_response) call"
  op_deliverable :: "string \<Rightarrow> ('w ov_world, overview_error, deliverable_response) call"
  op_cancel :: "string \<Rightarrow> ('w ov_world, overview_error, execution) call"
  op_read :: "string \<Rightarrow> string \<Rightarrow> int \<Rightarrow> ('w ov_world, overview_error, string) call"
  op_evidence :: "string \<Rightarrow> ('w ov_world, overview_error, tool_evidence) call"

definition on_ov_repo :: "(ov_repo \<Rightarrow> ov_repo \<times> (overview_error + 'a)) \<Rightarrow> ('w ov_world, overview_error, 'a) call" where
  "on_ov_repo f s = (case f (ow_repo s) of (r, a) \<Rightarrow> (s\<lparr>ow_repo := r\<rparr>, a))"

text \<open>The constructor sorts the allowed tools and refuses blank and repeated ones; its checks for nil dependencies are wiring.\<close>

fun tools_ok :: "string option \<Rightarrow> string list \<Rightarrow> bool" where
  "tools_ok previous [] = True"
| "tools_ok previous (t # ts) = (if blank t \<or> previous = Some t then False else tools_ok (Some t) ts)"

definition new_ov_service :: "ov_config \<Rightarrow> overview_error + ov_config" where
  "new_ov_service C =
     (if oc_MaximumDuration C \<le> 0 \<or> oc_MaximumDuration C > 24 * hour_ns \<or> oc_AllowedTools C = [] then Inl OErrInvalidInput
      else let allowed = sort_func strcmp (oc_AllowedTools C) in
        if \<not> tools_ok None allowed then Inl OErrInvalidInput else Inr (C\<lparr>oc_AllowedTools := allowed\<rparr>))"

definition valid_base_url :: "'w ov_peers \<Rightarrow> string \<Rightarrow> bool" where
  "valid_base_url P v =
     (case op_url P v of
        None \<Rightarrow> False
      | Some u \<Rightarrow> ur_Scheme u = ''https'' \<and> ur_Host u \<noteq> [] \<and> \<not> ur_User u \<and> ur_RawQuery u = [] \<and> ur_Fragment u = [] \<and>
          (ur_Path u = [] \<or> ur_Path u = ''/''))"

definition find_slot :: "batch \<Rightarrow> string \<Rightarrow> overview_error + slot" where
  "find_slot x i = from_option OErrNotFound (List.find (\<lambda>s. sl_ID s = i) (bt_Slots x))"

definition validate_snapshot_for_overview :: "snapshot \<Rightarrow> string \<Rightarrow> overview_error + unit" where
  "validate_snapshot_for_overview n requestedID =
     (if sn_ID n \<noteq> requestedID \<or> \<not> valid_digest (sn_ID n) \<or> \<not> valid_digest (sn_TaskSpecHash n) \<or> sn_TaskID n = [] \<or> sn_MatchRevision n < 1 \<or>
         sn_AlgorithmVersion n \<notin> set [FairShuffleAlgorithmVersion, CategoryTagsAlgorithmVersion] \<or> sn_Selections n = [] \<or>
         int (length (sn_Selections n)) > DefaultSelectionLimit then Inl OErrInvalidInput else Inr ())"

section \<open>planSlot\<close>

definition bool_string :: "bool \<Rightarrow> string" where
  "bool_string b = (if b then ''true'' else ''false'')"

definition plan_slot_id :: "'w ov_peers \<Rightarrow> string \<Rightarrow> int \<Rightarrow> string \<Rightarrow> bool \<Rightarrow> string" where
  "plan_slot_id P b ordinal agent replacement =
     ov_stable_id (op_sha P) [''overview-slot'', b, bigint_string ordinal, agent, bool_string replacement, ReplacementVersion]"

definition plan_request :: "'w ov_peers \<Rightarrow> batch \<Rightarrow> dispatch_target \<Rightarrow> string \<Rightarrow> allocation_request" where
  "plan_request P x t slotID =
     \<lparr>ar_IdempotencyKey = ov_stable_id (op_sha P) [''overview-allocation'', slotID, dt_QuoteHash t], ar_TaskID = bt_TaskID x,
      ar_TaskSpecHash = bt_TaskSpecHash x, ar_SnapshotID = bt_SnapshotID x, ar_MatchRevision = bt_MatchRevision x, ar_AgentID = dt_AgentID t,
      ar_PriceVersion = dt_PriceVersion t, ar_QuoteHash = dt_QuoteHash t, ar_OverviewPrice = dt_OverviewPrice t,
      ar_ExternalCostCap = dt_ExternalCostCap t, ar_Deadline = bt_Deadline x\<rparr>"

definition plan_spec :: "ov_config \<Rightarrow> batch \<Rightarrow> dispatch_target \<Rightarrow> string \<Rightarrow> overview_allocation \<Rightarrow> spec" where
  "plan_spec C x t logicalID a =
     \<lparr>sp_LogicalExecutionID = logicalID, sp_Stage = StageOverview, sp_TaskID = bt_TaskID x, sp_TaskSpecHash = bt_TaskSpecHash x,
      sp_InputRef = bt_BriefRef x, sp_InputHash = bt_BriefHash x, sp_AgentID = dt_AgentID t, sp_AgentEndpoint = dt_Endpoint t,
      sp_ResponsibilityCode = ''overview_candidate'', sp_CostCap = oal_CostCap a,
      sp_ToolPolicy = \<lparr>tp_Mode = ToolPolicyReadOnly, tp_AllowedTools = oc_AllowedTools C\<rparr>, sp_Deadline = oal_Deadline a,
      sp_IdempotencyKey = logicalID,
      sp_Overview = Some \<lparr>ob_MatchRevision = bt_MatchRevision x, ob_AllocationID = oal_ID a, ob_QuoteHash = dt_QuoteHash t\<rparr>, sp_Formal = None\<rparr>"

definition planned_slot :: "gotime \<Rightarrow> batch \<Rightarrow> dispatch_target \<Rightarrow> string \<Rightarrow> int \<Rightarrow> int \<Rightarrow> bool \<Rightarrow> overview_allocation \<Rightarrow> string \<Rightarrow> slot" where
  "planned_slot now x t slotID ordinal sourcePosition replacement a logicalID =
     \<lparr>sl_ID = slotID, sl_BatchID = bt_ID x, sl_Ordinal = ordinal, sl_SourcePosition = sourcePosition, sl_Replacement = replacement,
      sl_AgentID = dt_AgentID t, sl_ProviderID = dt_ProviderID t, sl_PriceVersion = dt_PriceVersion t, sl_QuoteHash = dt_QuoteHash t,
      sl_OverviewPrice = dt_OverviewPrice t, sl_ExternalCostCap = dt_ExternalCostCap t, sl_AllocationID = oal_ID a,
      sl_LogicalExecutionID = logicalID, sl_Status = SlotPlanned, sl_BillingStatus = BillingAuthorized, sl_Validation = zero_validation,
      sl_ContentHash = [], sl_DeliverableRef = [], sl_CreatedAt = now, sl_UpdatedAt = now\<rparr>"

definition plan_slot ::
    "ov_config \<Rightarrow> 'w ov_peers \<Rightarrow> gotime \<Rightarrow> batch \<Rightarrow> candidate \<Rightarrow> int \<Rightarrow> int \<Rightarrow> bool \<Rightarrow> ('w ov_world, overview_error, slot \<times> gotime) call" where
  "plan_slot C P now x c ordinal sourcePosition replacement =
     sbind (op_target P (cd_AgentID c) (cd_PriceVersion c)) (\<lambda>t.
     sbind (srequire (\<not> (dt_AgentID t \<noteq> cd_AgentID c \<or> dt_ProviderID t \<noteq> cd_ProviderID c \<or> dt_PriceVersion t \<noteq> cd_PriceVersion c \<or>
       dt_OverviewPrice t \<noteq> cd_OverviewPrice c \<or> dt_ExternalCostCap t \<noteq> cd_ExternalCostCap c \<or> \<not> valid_digest (dt_QuoteHash t) \<or>
       \<not> valid_base_url P (dt_Endpoint t))) OErrContentConflict) (\<lambda>_.
     let slotID = plan_slot_id P (bt_ID x) ordinal (dt_AgentID t) replacement in
     sbind (op_authorize P (plan_request P x t slotID)) (\<lambda>(a, _).
     sbind (srequire (\<not> (blank (oal_ID a) \<or> oal_CostCap a \<noteq> dt_ExternalCostCap t \<or> oal_Deadline a > bt_Deadline x \<or> \<not> oal_Deadline a > now))
       OErrContentConflict) (\<lambda>_.
     let logicalID = ov_stable_id (op_sha P) [''overview-execution'', slotID, OrchestrationVersion] in
     sbind (op_create P (plan_spec C x t logicalID a)) (\<lambda>_.
     sret (planned_slot now x t slotID ordinal sourcePosition replacement a logicalID, oal_Deadline a))))))"

section \<open>dispatchOutstanding\<close>

fun dispatch_all :: "'w ov_peers \<Rightarrow> slot list \<Rightarrow> 'w ov_world \<Rightarrow> 'w ov_world \<times> (string \<times> (overview_error + unit)) list" where
  "dispatch_all P [] s = (s, [])"
| "dispatch_all P (x # xs) s =
     (case op_dispatch P (sl_LogicalExecutionID x) s of
        (s1, r) \<Rightarrow> case dispatch_all P xs s1 of (s2, rs) \<Rightarrow> (s2, (sl_ID x, r) # rs))"

fun record_outcomes ::
    "gotime \<Rightarrow> batch \<Rightarrow> overview_error list \<Rightarrow> (string \<times> (overview_error + unit)) list \<Rightarrow> 'w ov_world \<Rightarrow> 'w ov_world \<times> batch \<times> overview_error list" where
  "record_outcomes now x errs [] s = (s, x, errs)"
| "record_outcomes now x errs ((i, Inl e) # rs) s = record_outcomes now x (errs @ [e]) rs s"
| "record_outcomes now x errs ((i, Inr _) # rs) s =
     (case on_ov_repo (record_dispatched now (bt_ID x) i) s of
        (s1, Inl e) \<Rightarrow> record_outcomes now zero_batch (errs @ [e]) rs s1
      | (s1, Inr x') \<Rightarrow> record_outcomes now x' errs rs s1)"

definition planned_slots :: "batch \<Rightarrow> slot list" where
  "planned_slots x = filter (\<lambda>s. sl_Status s = SlotPlanned) (bt_Slots x)"

definition dispatch_outstanding :: "'w ov_peers \<Rightarrow> gotime \<Rightarrow> batch \<Rightarrow> ('w ov_world, batch \<times> overview_error, batch) call" where
  "dispatch_outstanding P now x s =
     (case dispatch_all P (op_schedule P (planned_slots x)) s of
        (s1, rs) \<Rightarrow>
        (case record_outcomes now x [] rs s1 of
           (s2, x', errs) \<Rightarrow> (s2, case joined errs of Some e \<Rightarrow> Inl (x', e) | None \<Rightarrow> Inr x')))"

section \<open>Start\<close>

fun plan_slots :: "ov_config \<Rightarrow> 'w ov_peers \<Rightarrow> gotime \<Rightarrow> batch \<Rightarrow> int \<Rightarrow> selection list \<Rightarrow> ('w ov_world, overview_error, batch) call" where
  "plan_slots C P now x k [] = sret x"
| "plan_slots C P now x k (c # cs) =
     sbind (plan_slot C P now x (sc_Candidate (sel_Candidate c)) (k + 1) (sel_Position c) False) (\<lambda>(slot, deadline).
     if k = 0 then plan_slots C P now (x\<lparr>bt_Deadline := deadline, bt_Slots := bt_Slots x @ [slot]\<rparr>) (k + 1) cs
     else if deadline \<noteq> bt_Deadline x then sfail OErrContentConflict
     else plan_slots C P now (x\<lparr>bt_Slots := bt_Slots x @ [slot]\<rparr>) (k + 1) cs)"

definition start_draft :: "gotime \<Rightarrow> string \<Rightarrow> snapshot \<Rightarrow> brief_handle \<Rightarrow> gotime \<Rightarrow> batch" where
  "start_draft now b n h deadline =
     \<lparr>bt_ID = b, bt_SnapshotID = sn_ID n, bt_TaskID = sn_TaskID n, bt_TaskSpecHash = sn_TaskSpecHash n, bt_MatchRevision = sn_MatchRevision n,
      bt_AlgorithmVersion = sn_AlgorithmVersion n, bt_BriefRef = bh_Ref h, bt_BriefHash = bh_Hash h, bt_Deadline = deadline,
      bt_Status = BatchRunning, bt_ReplacementUsed = False, bt_ReplacementExhausted = False, bt_Slots = [], bt_CreatedAt = now, bt_UpdatedAt = now\<rparr>"

definition start_deadline :: "ov_config \<Rightarrow> gotime \<Rightarrow> gotime \<Rightarrow> gotime" where
  "start_deadline C now d = (if d > now + oc_MaximumDuration C then now + oc_MaximumDuration C else d)"

definition start_plan :: "ov_config \<Rightarrow> 'w ov_peers \<Rightarrow> gotime \<Rightarrow> start_request \<Rightarrow> string \<Rightarrow> ('w ov_world, overview_error, batch) call" where
  "start_plan C P now q b =
     sbind (op_snapshot P (sq_SnapshotID q)) (\<lambda>n.
     sbind (slift (validate_snapshot_for_overview n (sq_SnapshotID q))) (\<lambda>_.
     let deadline = start_deadline C now (sq_Deadline q) in
     sbind (srequire (deadline > now) OErrInvalidInput) (\<lambda>_.
     sbind (op_brief P (sn_TaskID n) (sn_TaskSpecHash n) deadline) (\<lambda>h.
     sbind (srequire (\<not> (blank (bh_Ref h) \<or> \<not> valid_digest (bh_Hash h) \<or> bh_ExpiresAt h < deadline)) OErrInvalidInput) (\<lambda>_.
     sbind (plan_slots C P now (start_draft now b n h deadline) 0 (sn_Selections n)) (\<lambda>x.
     sbind (srequire (\<not> (bt_Slots x = [] \<or> int (length (bt_Slots x)) > DefaultSelectionLimit)) OErrInvalidInput) (\<lambda>_. sret x)))))))"

text \<open>\<open>Start\<close> returns the batch and the replay flag also beside an error of the dispatch.\<close>

definition start_dispatch :: "'w ov_peers \<Rightarrow> gotime \<Rightarrow> batch \<Rightarrow> bool \<Rightarrow> ('w ov_world, batch \<times> bool \<times> overview_error, batch \<times> bool) call" where
  "start_dispatch P now x replay =
     sbind (smap_err (\<lambda>(y, e). (y, replay, e)) (dispatch_outstanding P now x)) (\<lambda>y. sret (y, replay))"

definition plain_error :: "overview_error \<Rightarrow> batch \<times> bool \<times> overview_error" where
  "plain_error e = (zero_batch, False, e)"

definition svc_start :: "ov_config \<Rightarrow> 'w ov_peers \<Rightarrow> gotime \<Rightarrow> start_request \<Rightarrow> ('w ov_world, batch \<times> bool \<times> overview_error, batch \<times> bool) call" where
  "svc_start C P now q s =
     (if \<not> valid_digest (sq_SnapshotID q) then (s, Inl (plain_error OErrInvalidInput))
      else let b = ov_stable_id (op_sha P) [''overview-batch'', sq_SnapshotID q, OrchestrationVersion] in
        case get_batch b (ow_repo s) of
          Inr existing \<Rightarrow> start_dispatch P now existing True s
        | Inl e \<Rightarrow>
            if e \<noteq> OErrNotFound then (s, Inl (plain_error e))
            else sbind (smap_err plain_error (sbind (start_plan C P now q b) (\<lambda>x. on_ov_repo (get_or_create_batch x))))
                   (\<lambda>(created, replay). start_dispatch P now created replay) s)"

section \<open>Replacement and settlement\<close>

definition unused_candidate :: "batch \<Rightarrow> candidate \<Rightarrow> bool" where
  "unused_candidate x c \<longleftrightarrow> cd_AgentID c \<notin> set (map sl_AgentID (bt_Slots x)) \<and> cd_ProviderID c \<notin> set (map sl_ProviderID (bt_Slots x))"

fun replace_with :: "ov_config \<Rightarrow> 'w ov_peers \<Rightarrow> gotime \<Rightarrow> batch \<Rightarrow> int \<Rightarrow> scored_candidate list \<Rightarrow> ('w ov_world, batch \<times> overview_error, batch) call" where
  "replace_with C P now x k [] = smap_err (\<lambda>e. (zero_batch, e)) (on_ov_repo (exhaust_replacement now (bt_ID x)))"
| "replace_with C P now x k (c # cs) =
     (if \<not> unused_candidate x (sc_Candidate c) then replace_with C P now x (k + 1) cs
      else sbind (smap_err (\<lambda>e. (x, e)) (plan_slot C P now x (sc_Candidate c) (int (length (bt_Slots x)) + 1) (k + 1) True)) (\<lambda>(slot, deadline).
        if deadline \<noteq> bt_Deadline x then sfail (x, OErrContentConflict)
        else sbind (smap_err (\<lambda>e. (zero_batch, e)) (on_ov_repo (add_replacement now (bt_ID x) slot))) (\<lambda>(y, _). dispatch_outstanding P now y)))"

definition replace_slot :: "ov_config \<Rightarrow> 'w ov_peers \<Rightarrow> gotime \<Rightarrow> batch \<Rightarrow> ('w ov_world, batch \<times> overview_error, batch) call" where
  "replace_slot C P now x =
     sbind (smap_err (\<lambda>e. (x, e)) (op_snapshot P (bt_SnapshotID x))) (\<lambda>n. replace_with C P now x 0 (mr_Qualified (sn_Result n)))"

definition slot_claim :: "batch \<Rightarrow> slot \<Rightarrow> execution \<Rightarrow> billing_claim" where
  "slot_claim x v work =
     \<lparr>bc_TaskID = bt_TaskID x, bc_TaskSpecHash = bt_TaskSpecHash x, bc_MatchRevision = bt_MatchRevision x,
      bc_LogicalExecutionID = sl_LogicalExecutionID v, bc_AgentID = sl_AgentID v, bc_QuoteHash = sl_QuoteHash v, bc_ContentHash = sl_ContentHash v,
      bc_Amount = sl_OverviewPrice v, bc_UsedCost = ex_UsedCost work\<rparr>"

fun join_comma :: "string list \<Rightarrow> string" where
  "join_comma [] = []"
| "join_comma [c] = c"
| "join_comma (c # cs) = c @ '','' @ join_comma cs"

text \<open>\<open>batch, err = RecordBilling\<close>: on an error the batch is the zero batch.\<close>

definition bill_slot :: "gotime \<Rightarrow> batch \<Rightarrow> slot \<Rightarrow> string \<Rightarrow> ('w ov_world, batch \<times> overview_error, batch) call" where
  "bill_slot now x v status = smap_err (\<lambda>e. (zero_batch, e)) (on_ov_repo (record_billing now (bt_ID x) (sl_ID v) status))"

definition settle_slot :: "'w ov_peers \<Rightarrow> gotime \<Rightarrow> batch \<Rightarrow> slot \<Rightarrow> ('w ov_world, batch \<times> overview_error, batch) call" where
  "settle_slot P now x v =
     (if sl_BillingStatus v \<noteq> BillingAuthorized then sret x
      else if sl_Status v = SlotValid then
        sbind (smap_err (\<lambda>e. (zero_batch, e)) (op_get P (sl_LogicalExecutionID v))) (\<lambda>work.
        sbind (smap_err (\<lambda>e. (x, e)) (op_capture P (sl_AllocationID v) (slot_claim x v work))) (\<lambda>_. bill_slot now x v BillingCaptured))
      else
        sbind (smap_err (\<lambda>e. (x, e)) (op_release P (sl_AllocationID v) (join_comma (vl_Codes (sl_Validation v))))) (\<lambda>_.
        bill_slot now x v BillingReleased))"

definition settle_and_replace :: "ov_config \<Rightarrow> 'w ov_peers \<Rightarrow> gotime \<Rightarrow> batch \<Rightarrow> slot \<Rightarrow> ('w ov_world, batch \<times> overview_error, batch) call" where
  "settle_and_replace C P now x v =
     sbind (settle_slot P now x v) (\<lambda>y.
     if sl_Status v \<noteq> SlotInvalid \<or> bt_ReplacementUsed y \<or> bt_ReplacementExhausted y then sret y else replace_slot C P now y)"

section \<open>FinalizeSlot\<close>

text \<open>The status of the execution after a running one has been polled; an exceeded cost cap is not an error here.\<close>

definition finalize_work :: "'w ov_peers \<Rightarrow> slot \<Rightarrow> ('w ov_world, overview_error, execution) call" where
  "finalize_work P v =
     sbind (op_get P (sl_LogicalExecutionID v)) (\<lambda>work.
     if ex_Status work \<noteq> ExecutionRunning then sret work
     else sbind (stry (op_poll P (sl_LogicalExecutionID v))) (\<lambda>polled.
       case polled of
         Inl e \<Rightarrow> if e \<noteq> OErrExecution XErrCostCapExceeded then sfail OErrDependencyPending else op_get P (sl_LogicalExecutionID v)
       | Inr _ \<Rightarrow> op_get P (sl_LogicalExecutionID v)))"

definition pending_on :: "('w ov_world, overview_error, 'a) call \<Rightarrow> ('w ov_world, overview_error, 'a) call" where
  "pending_on m = smap_err (\<lambda>_. OErrDependencyPending) m"

definition finalize_validation ::
    "ov_config \<Rightarrow> 'w ov_peers \<Rightarrow> gotime \<Rightarrow> batch \<Rightarrow> slot \<Rightarrow> execution \<Rightarrow> ('w ov_world, overview_error, validation \<times> string \<times> string) call" where
  "finalize_validation C P now x v work =
     (if ex_Status work = ExecutionSucceeded then
        sbind (pending_on (op_deliverable P (sl_LogicalExecutionID v))) (\<lambda>d.
        sbind (pending_on (op_read P (rd_DeliverableRef d) (rd_ContentHash d) (int MaxArtifactBytes))) (\<lambda>body.
        sbind (pending_on (op_evidence P (sl_LogicalExecutionID v))) (\<lambda>evidence.
        sret (validate_artifact (op_sha P) (op_json P) body (rd_ContentHash d) (ex_UpdatedAt work) (bt_Deadline x) evidence (oc_AllowedTools C),
              rd_ContentHash d, rd_DeliverableRef d))))
      else if ex_Status work = ExecutionFailed \<or> ex_Status work = ExecutionCancelled \<or> ex_Status work = ExecutionCostStopped then
        sret (\<lparr>vl_Valid = False, vl_Codes = [''execution_failed'']\<rparr>, ex_ContentHash work, ex_DeliverableRef work)
      else if ex_Status work = ExecutionPending \<or> ex_Status work = ExecutionRunning \<or> ex_Status work = ExecutionCancelRequested then
        (if \<not> now > bt_Deadline x then sfail OErrDependencyPending
         else sbind (stry (op_cancel P (sl_LogicalExecutionID v))) (\<lambda>_.
           sret (\<lparr>vl_Valid = False, vl_Codes = [''deadline_exceeded'']\<rparr>, ex_ContentHash work, ex_DeliverableRef work)))
      else sfail OErrInvalidState)"

definition no_batch :: "overview_error \<Rightarrow> batch \<times> overview_error" where
  "no_batch e = (zero_batch, e)"

definition finalize_dispatched :: "ov_config \<Rightarrow> 'w ov_peers \<Rightarrow> gotime \<Rightarrow> batch \<Rightarrow> slot \<Rightarrow> ('w ov_world, batch \<times> overview_error, batch) call" where
  "finalize_dispatched C P now x v =
     sbind (smap_err no_batch (finalize_work P v)) (\<lambda>work.
     sbind (smap_err no_batch (finalize_validation C P now x v work)) (\<lambda>(outcome, contentHash, deliverableRef).
     sbind (smap_err no_batch (on_ov_repo (record_validation now (bt_ID x) (sl_ID v) outcome contentHash deliverableRef))) (\<lambda>(updated, stored, _).
     settle_and_replace C P now updated stored)))"

definition svc_finalize_slot :: "ov_config \<Rightarrow> 'w ov_peers \<Rightarrow> gotime \<Rightarrow> string \<Rightarrow> string \<Rightarrow> ('w ov_world, batch \<times> overview_error, batch) call" where
  "svc_finalize_slot C P now b i =
     sbind (smap_err no_batch (sbind (sread (\<lambda>s. get_batch b (ow_repo s))) slift)) (\<lambda>x.
     if bt_Status x = BatchObsolete then sfail (no_batch OErrObsolete)
     else sbind (smap_err no_batch (slift (find_slot x i))) (\<lambda>v.
     if sl_Status v = SlotValid \<or> sl_Status v = SlotInvalid then settle_and_replace C P now x v
     else if sl_Status v \<noteq> SlotDispatched then sfail (no_batch OErrInvalidState)
     else finalize_dispatched C P now x v))"

section \<open>ObsoleteBefore\<close>

text \<open>The errors of the two loops are collected; every slot is visited.\<close>

definition release_obsolete :: "'w ov_peers \<Rightarrow> gotime \<Rightarrow> string \<Rightarrow> slot \<Rightarrow> ('w ov_world, overview_error, unit) call" where
  "release_obsolete P now b v =
     sbind (op_release P (sl_AllocationID v) ''matching_revision_obsolete'') (\<lambda>_.
     sbind (on_ov_repo (record_billing now b (sl_ID v) BillingReleased)) (\<lambda>_. sret ()))"

definition error_of :: "'s \<times> (overview_error + 'a) \<Rightarrow> 's \<times> overview_error list" where
  "error_of x = (case x of (s, Inl e) \<Rightarrow> (s, [e]) | (s, Inr _) \<Rightarrow> (s, []))"

definition obsolete_one :: "'w ov_peers \<Rightarrow> gotime \<Rightarrow> string \<Rightarrow> slot \<Rightarrow> 'w ov_world \<Rightarrow> 'w ov_world \<times> overview_error list" where
  "obsolete_one P now b v s =
     (case (if sl_Status v = SlotObsolete then error_of (op_cancel P (sl_LogicalExecutionID v) s) else (s, [])) of
        (s1, cancelErrs) \<Rightarrow>
        (case (if sl_BillingStatus v = BillingAuthorized then error_of (release_obsolete P now b v s1) else (s1, [])) of
           (s2, releaseErrs) \<Rightarrow> (s2, filter (\<lambda>e. e \<noteq> OErrExecution XErrInvalidState) cancelErrs @ releaseErrs)))"

fun obsolete_all :: "'w ov_peers \<Rightarrow> gotime \<Rightarrow> (string \<times> slot) list \<Rightarrow> 'w ov_world \<Rightarrow> 'w ov_world \<times> overview_error list" where
  "obsolete_all P now [] s = (s, [])"
| "obsolete_all P now ((b, v) # vs) s =
     (case obsolete_one P now b v s of (s1, es) \<Rightarrow> case obsolete_all P now vs s1 of (s2, es') \<Rightarrow> (s2, es @ es'))"

definition slots_of :: "batch list \<Rightarrow> (string \<times> slot) list" where
  "slots_of xs = concat (map (\<lambda>x. map (\<lambda>v. (bt_ID x, v)) (bt_Slots x)) xs)"

definition svc_obsolete_before ::
    "'w ov_peers \<Rightarrow> gotime \<Rightarrow> string \<Rightarrow> int \<Rightarrow> 'w ov_world \<Rightarrow> 'w ov_world \<times> nat \<times> overview_error option" where
  "svc_obsolete_before P now taskID revision s =
     (case on_ov_repo (mark_obsolete_before now taskID revision) s of
        (s1, Inl e) \<Rightarrow> (s1, 0, Some e)
      | (s1, Inr changed) \<Rightarrow> (case obsolete_all P now (slots_of changed) s1 of (s2, es) \<Rightarrow> (s2, length changed, joined es)))"

end
