(* ===== verification/Overview_Invariant.thy ===== *)
theory Overview_Invariant
  imports Overview_Service
begin

text \<open>
  What holds of every batch: the states a slot and its bill can be in together, one replacement at most, no two valid
  slots with the same content, and a completed batch with nothing left to do.
\<close>

section \<open>The invariant\<close>

definition slot_ok :: "bool \<Rightarrow> string \<Rightarrow> slot \<Rightarrow> bool" where
  "slot_ok obsolete b v \<longleftrightarrow> sl_BatchID v = b \<and>
     sl_Status v \<in> {SlotPlanned, SlotDispatched, SlotValid, SlotInvalid, SlotObsolete} \<and>
     sl_BillingStatus v \<in> {BillingAuthorized, BillingCaptured, BillingReleased} \<and>
     (sl_Status v = SlotPlanned \<or> sl_Status v = SlotDispatched \<longrightarrow> \<not> obsolete \<and> sl_BillingStatus v = BillingAuthorized) \<and>
     (sl_Status v = SlotObsolete \<longrightarrow> obsolete) \<and>
     (sl_Status v = SlotValid \<longrightarrow> vl_Valid (sl_Validation v)) \<and>
     (sl_BillingStatus v = BillingCaptured \<longrightarrow> sl_Status v = SlotValid) \<and>
     (sl_BillingStatus v = BillingReleased \<longrightarrow> sl_Status v = SlotValid \<longrightarrow> obsolete)"

definition unique_content :: "slot list \<Rightarrow> bool" where
  "unique_content ss \<longleftrightarrow> (\<forall>i < length ss. \<forall>j < length ss. sl_Status (ss ! i) = SlotValid \<longrightarrow> sl_Status (ss ! j) = SlotValid \<longrightarrow>
     sl_ContentHash (ss ! i) = sl_ContentHash (ss ! j) \<longrightarrow> i = j)"

definition settled :: "batch \<Rightarrow> bool" where
  "settled x \<longleftrightarrow> \<not> list_ex outstanding (bt_Slots x) \<and>
     (list_ex rejected (bt_Slots x) \<longrightarrow> bt_ReplacementUsed x \<or> bt_ReplacementExhausted x)"

definition batch_core :: "batch \<Rightarrow> bool" where
  "batch_core x \<longleftrightarrow> bt_Status x \<in> {BatchRunning, BatchCompleted, BatchObsolete} \<and>
     (\<forall>v \<in> set (bt_Slots x). slot_ok (bt_Status x = BatchObsolete) (bt_ID x) v) \<and> unique_content (bt_Slots x) \<and>
     length (filter sl_Replacement (bt_Slots x)) = (if bt_ReplacementUsed x then 1 else 0) \<and> \<not> (bt_ReplacementUsed x \<and> bt_ReplacementExhausted x)"

definition batch_ok :: "batch \<Rightarrow> bool" where
  "batch_ok x \<longleftrightarrow> batch_core x \<and> (bt_Status x = BatchCompleted \<longrightarrow> settled x)"

definition repo_ok :: "ov_repo \<Rightarrow> bool" where
  "repo_ok r \<longleftrightarrow> gwf r \<and> (\<forall>b x. gget r b = Some x \<longrightarrow> bt_ID x = b \<and> batch_ok x) \<and>
     (\<forall>b c x y. gget r b = Some x \<longrightarrow> gget r c = Some y \<longrightarrow> bt_SnapshotID x = bt_SnapshotID y \<longrightarrow> b = c)"

lemma repo_okD:
  assumes "repo_ok r" "gget r b = Some x"
  shows "bt_ID x = b" "batch_ok x" "batch_core x"
  using assms unfolding repo_ok_def batch_ok_def by blast+

lemma repo_ok_put:
  assumes ok: "repo_ok r" and x: "gget r b = Some x" and y: "batch_ok y" "bt_ID y = bt_ID x" "bt_SnapshotID y = bt_SnapshotID x"
  shows "repo_ok (gput b y r)"
  using ok x y unfolding repo_ok_def by (auto split: if_splits)

section \<open>One slot\<close>

lemma list_ex_update:
  "n < length xs \<Longrightarrow> list_ex p (xs[n := v]) \<longleftrightarrow> p v \<or> (\<exists>k < length xs. k \<noteq> n \<and> p (xs ! k))"
  by (auto simp: list_ex_length nth_list_update)

lemma filter_update: "n < length xs \<Longrightarrow> p v = p (xs ! n) \<Longrightarrow> length (filter p (xs[n := v])) = length (filter p xs)"
proof (induction xs arbitrary: n)
  case (Cons x xs)
  then show ?case by (cases n) auto
qed simp

lemma unique_content_update:
  assumes "unique_content ss" "n < length ss"
    and "sl_Status v = SlotValid \<Longrightarrow> (\<forall>k < length ss. k \<noteq> n \<longrightarrow> sl_Status (ss ! k) = SlotValid \<longrightarrow> sl_ContentHash (ss ! k) \<noteq> sl_ContentHash v)"
  shows "unique_content (ss[n := v])"
  using assms unfolding unique_content_def by (simp add: nth_list_update) metis

lemma put_slot_core:
  assumes "batch_core x" "n < length (bt_Slots x)" "slot_ok (bt_Status x = BatchObsolete) (bt_ID x) v"
    "sl_Replacement v = sl_Replacement (bt_Slots x ! n)"
    "sl_Status v = SlotValid \<Longrightarrow> (\<forall>k < length (bt_Slots x). k \<noteq> n \<longrightarrow> sl_Status (bt_Slots x ! k) = SlotValid \<longrightarrow> sl_ContentHash (bt_Slots x ! k) \<noteq> sl_ContentHash v)"
  shows "batch_core (put_slot now x n v)"
proof -
  have "unique_content ((bt_Slots x)[n := v])" using assms by (intro unique_content_update) (auto simp: batch_core_def)
  moreover have "\<forall>w \<in> set ((bt_Slots x)[n := v]). slot_ok (bt_Status x = BatchObsolete) (bt_ID x) w"
    using assms(1,3) set_update_subset_insert [of "bt_Slots x" n v] by (auto simp: batch_core_def)
  ultimately show ?thesis using assms(1,2,4) by (simp add: put_slot_def batch_core_def filter_update)
qed

lemma put_slot_simps [simp]:
  "bt_ID (put_slot now x n v) = bt_ID x" "bt_SnapshotID (put_slot now x n v) = bt_SnapshotID x" "bt_Status (put_slot now x n v) = bt_Status x"
  "bt_Slots (put_slot now x n v) = (bt_Slots x)[n := v]" "bt_ReplacementUsed (put_slot now x n v) = bt_ReplacementUsed x"
  "bt_ReplacementExhausted (put_slot now x n v) = bt_ReplacementExhausted x" "bt_TaskID (put_slot now x n v) = bt_TaskID x"
  "bt_MatchRevision (put_slot now x n v) = bt_MatchRevision x"
  by (simp_all add: put_slot_def)

lemma finish_batch_simps [simp]:
  "bt_ID (finish_batch x) = bt_ID x" "bt_SnapshotID (finish_batch x) = bt_SnapshotID x" "bt_Slots (finish_batch x) = bt_Slots x"
  "bt_Status (finish_batch x) = BatchObsolete \<longleftrightarrow> bt_Status x = BatchObsolete" "bt_TaskID (finish_batch x) = bt_TaskID x"
  "bt_ReplacementUsed (finish_batch x) = bt_ReplacementUsed x" "bt_ReplacementExhausted (finish_batch x) = bt_ReplacementExhausted x"
  "bt_MatchRevision (finish_batch x) = bt_MatchRevision x"
  by (simp_all add: finish_batch_def)

lemma finish_batch_ok:
  assumes "batch_core x" "bt_Status x \<noteq> BatchCompleted"
  shows "batch_ok (finish_batch x)"
proof -
  have "bt_Status (finish_batch x) \<in> {BatchRunning, BatchCompleted, BatchObsolete}" using assms by (auto simp: finish_batch_def batch_core_def)
  then have "batch_core (finish_batch x)" using assms by (simp add: batch_core_def)
  moreover have "bt_Status (finish_batch x) = BatchCompleted \<Longrightarrow> settled (finish_batch x)"
    using assms(2) by (auto simp: finish_batch_def settled_def split: if_splits)
  ultimately show ?thesis by (simp add: batch_ok_def)
qed

lemma completed_outstanding:
  "batch_ok x \<Longrightarrow> n < length (bt_Slots x) \<Longrightarrow> outstanding (bt_Slots x ! n) \<Longrightarrow> bt_Status x \<noteq> BatchCompleted"
  by (auto simp: batch_ok_def settled_def list_ex_length)

lemma core_slot: "batch_core x \<Longrightarrow> n < length (bt_Slots x) \<Longrightarrow> slot_ok (bt_Status x = BatchObsolete) (bt_ID x) (bt_Slots x ! n)"
  by (simp add: batch_core_def)

section \<open>The methods keep the invariant\<close>

text \<open>The caller's side of the contract: what is stored is a fresh plan, and a replacement follows a rejected slot.\<close>

definition fresh_slot :: "string \<Rightarrow> bool \<Rightarrow> slot \<Rightarrow> bool" where
  "fresh_slot b replacement v \<longleftrightarrow> sl_BatchID v = b \<and> sl_Replacement v = replacement \<and> sl_Status v = SlotPlanned \<and> sl_BillingStatus v = BillingAuthorized"

definition fresh_batch :: "batch \<Rightarrow> bool" where
  "fresh_batch x \<longleftrightarrow> bt_Status x = BatchRunning \<and> \<not> bt_ReplacementUsed x \<and> \<not> bt_ReplacementExhausted x \<and>
     (\<forall>v \<in> set (bt_Slots x). fresh_slot (bt_ID x) False v)"

lemma fresh_slot_ok: "fresh_slot b f v \<Longrightarrow> slot_ok False b v"
  by (simp add: fresh_slot_def slot_ok_def)

lemma fresh_batch_ok: "fresh_batch x \<Longrightarrow> batch_ok x"
proof -
  assume f: "fresh_batch x"
  then have v: "\<forall>v \<in> set (bt_Slots x). fresh_slot (bt_ID x) False v" by (simp add: fresh_batch_def)
  then have "unique_content (bt_Slots x)" by (simp add: unique_content_def fresh_slot_def)
  moreover have "filter sl_Replacement (bt_Slots x) = []" using v by (auto simp: filter_empty_conv fresh_slot_def)
  ultimately show ?thesis using f v fresh_slot_ok by (auto simp: fresh_batch_def batch_ok_def batch_core_def)
qed

lemma get_or_create_ok:
  assumes "repo_ok r" "fresh_batch draft"
  shows "repo_ok (fst (get_or_create_batch draft r))"
proof (cases "gget r (bt_ID draft)")
  case None
  show ?thesis
  proof (cases "list_ex (\<lambda>x. bt_SnapshotID x = bt_SnapshotID draft) (gvals r)")
    case False
    then have "gget r b = Some x \<Longrightarrow> bt_SnapshotID x \<noteq> bt_SnapshotID draft" for b x by (auto simp: list_ex_iff dest: gvals_memI)
    then show ?thesis using assms None False fresh_batch_ok [OF assms(2)]
      unfolding get_or_create_batch_def repo_ok_def by (auto split: if_splits) metis+
  qed (use assms None in \<open>simp add: get_or_create_batch_def\<close>)
qed (use assms in \<open>simp add: get_or_create_batch_def\<close>)

lemma record_dispatched_ok:
  assumes ok: "repo_ok r"
  shows "repo_ok (fst (record_dispatched now b i r))"
proof (cases "locate_slot b i r")
  case (Inr y)
  obtain x v n where y: "y = (x, v, n)" by (cases y)
  with Inr have l: "gget r b = Some x" "n < length (bt_Slots x)" "bt_Slots x ! n = v" by (simp_all add: locate_slot_Inr)
  note d = repo_okD [OF ok l(1)]
  show ?thesis
  proof (cases "bt_Status x \<noteq> BatchObsolete \<and> sl_Status v = SlotPlanned")
    case True
    let ?v = "v\<lparr>sl_Status := SlotDispatched, sl_UpdatedAt := now\<rparr>"
    have "slot_ok (bt_Status x = BatchObsolete) (bt_ID x) ?v" using core_slot [OF d(3) l(2)] True l(3) by (simp add: slot_ok_def)
    then have "batch_core (put_slot now x n ?v)" using d(3) l(2,3) by (intro put_slot_core) simp_all
    moreover have "bt_Status x \<noteq> BatchCompleted" using completed_outstanding [OF d(2) l(2)] True l(3) by (simp add: outstanding_def)
    ultimately have "batch_ok (put_slot now x n ?v)" by (simp add: batch_ok_def)
    then have "repo_ok (gput b (put_slot now x n ?v) r)" by (intro repo_ok_put [OF ok l(1)]) simp_all
    then show ?thesis using Inr y True by (simp add: record_dispatched_def Let_def)
  qed (use ok Inr y in \<open>auto simp: record_dispatched_def\<close>)
qed (use ok in \<open>simp add: record_dispatched_def\<close>)

lemma checked_unique:
  assumes "vl_Valid (checked_validation n h ss v)" "k < length ss" "k \<noteq> n" "sl_Status (ss ! k) = SlotValid"
  shows "sl_ContentHash (ss ! k) \<noteq> h"
proof
  assume "sl_ContentHash (ss ! k) = h"
  moreover have "(k, ss ! k) \<in> set (enumerate 0 ss)" using assms(2) by (simp add: in_set_enumerate_eq)
  ultimately have "duplicate_content n h ss" using assms(3,4) by (auto simp: duplicate_content_def list_ex_iff)
  then show False using assms(1) by (simp add: checked_validation_def split: if_splits)
qed

lemma record_validation_ok:
  assumes ok: "repo_ok r"
  shows "repo_ok (fst (record_validation now b i v0 h ref r))"
proof (cases "locate_slot b i r")
  case (Inr y)
  obtain x v n where y: "y = (x, v, n)" by (cases y)
  with Inr have l: "gget r b = Some x" "n < length (bt_Slots x)" "bt_Slots x ! n = v" by (simp_all add: locate_slot_Inr)
  note d = repo_okD [OF ok l(1)]
  show ?thesis
  proof (cases "bt_Status x \<noteq> BatchObsolete \<and> sl_Status v = SlotDispatched")
    case True
    let ?c = "checked_validation n h (bt_Slots x) v0"
    let ?v = "v\<lparr>sl_Validation := ?c, sl_ContentHash := h, sl_DeliverableRef := ref, sl_UpdatedAt := now,
       sl_Status := (if vl_Valid ?c then SlotValid else SlotInvalid)\<rparr>"
    have s: "slot_ok (bt_Status x = BatchObsolete) (bt_ID x) ?v" using core_slot [OF d(3) l(2)] True l(3) by (simp add: slot_ok_def)
    have "sl_Status ?v = SlotValid \<Longrightarrow> vl_Valid ?c" by (simp split: if_splits)
    then have "batch_core (put_slot now x n ?v)" using l(3) checked_unique [of n h "bt_Slots x" v0]
      by (intro put_slot_core [OF d(3) l(2) s]) auto
    moreover have "bt_Status x \<noteq> BatchCompleted" using completed_outstanding [OF d(2) l(2)] True l(3) by (simp add: outstanding_def)
    ultimately have "batch_ok (finish_batch (put_slot now x n ?v))" by (intro finish_batch_ok) simp_all
    then have "repo_ok (gput b (finish_batch (put_slot now x n ?v)) r)" by (intro repo_ok_put [OF ok l(1)]) simp_all
    then show ?thesis using Inr y True by (simp add: record_validation_def Let_def)
  qed (use ok Inr y in \<open>auto simp: record_validation_def\<close>)
qed (use ok in \<open>simp add: record_validation_def\<close>)

lemma billed_slot_ok:
  assumes "slot_ok (bt_Status x = BatchObsolete) b v" "status = BillingCaptured \<or> status = BillingReleased" "sl_BillingStatus v = BillingAuthorized"
    "status = BillingCaptured \<longrightarrow> sl_Status v = SlotValid" "status = BillingReleased \<longrightarrow> release_allowed x v"
  shows "slot_ok (bt_Status x = BatchObsolete) b (v\<lparr>sl_BillingStatus := status, sl_UpdatedAt := now\<rparr>)"
proof (cases "status = BillingCaptured")
  case True
  then have "sl_Status v = SlotValid" using assms(4) by blast
  then show ?thesis using assms(1) True by (simp add: slot_ok_def)
next
  case False
  then have st: "status = BillingReleased" using assms(2) by blast
  with assms(5) have "release_allowed x v" by blast
  then consider "sl_Status v = SlotInvalid" | "sl_Status v = SlotFailed" | "sl_Status v = SlotObsolete"
    | "sl_Status v = SlotValid" "bt_Status x = BatchObsolete" unfolding release_allowed_def by blast
  then show ?thesis using assms(1) st by cases (simp_all add: slot_ok_def)
qed

definition may_bill :: "batch \<Rightarrow> slot \<Rightarrow> string \<Rightarrow> bool" where
  "may_bill x v status \<longleftrightarrow> (status = BillingCaptured \<or> status = BillingReleased) \<and> sl_BillingStatus v = BillingAuthorized \<and>
      (status = BillingCaptured \<longrightarrow> sl_Status v = SlotValid) \<and> (status = BillingReleased \<longrightarrow> release_allowed x v)"

lemma record_billing_bills:
  assumes "locate_slot b i r = Inr (x, v, n)" "may_bill x v status"
  shows "fst (record_billing now b i status r) = gput b (finish_batch (put_slot now x n (v\<lparr>sl_BillingStatus := status, sl_UpdatedAt := now\<rparr>))) r"
proof -
  have n: "\<not> (status \<noteq> BillingCaptured \<and> status \<noteq> BillingReleased)" "sl_BillingStatus v \<noteq> status"
    "\<not> (sl_BillingStatus v \<noteq> BillingAuthorized \<or> status = BillingCaptured \<and> sl_Status v \<noteq> SlotValid \<or>
       status = BillingReleased \<and> \<not> release_allowed x v)" using assms(2) by (auto simp: may_bill_def)
  show ?thesis using assms(1) n unfolding record_billing_def by (simp only: sum.case prod.case if_False Let_def fst_conv)
qed

lemma record_billing_idle:
  assumes "locate_slot b i r = Inr (x, v, n)" "\<not> may_bill x v status"
  shows "fst (record_billing now b i status r) = r"
proof (cases "status = BillingCaptured \<or> status = BillingReleased")
  case True
  note st = this
  from assms(2) True consider "sl_BillingStatus v = status" | "sl_BillingStatus v \<noteq> status" "sl_BillingStatus v \<noteq> BillingAuthorized"
    | "sl_BillingStatus v \<noteq> status" "status = BillingCaptured \<and> sl_Status v \<noteq> SlotValid \<or> status = BillingReleased \<and> \<not> release_allowed x v"
    unfolding may_bill_def by blast
  then show ?thesis
  proof cases
    case 3
    then have "sl_BillingStatus v \<noteq> BillingAuthorized \<or> status = BillingCaptured \<and> sl_Status v \<noteq> SlotValid \<or>
       status = BillingReleased \<and> \<not> release_allowed x v" by blast
    then show ?thesis using 3(1) st assms(1) unfolding record_billing_def by auto
  qed (use st assms(1) in \<open>auto simp: record_billing_def\<close>)
qed (use assms(1) in \<open>simp add: record_billing_def\<close>)

lemma record_billing_ok:
  assumes ok: "repo_ok r"
  shows "repo_ok (fst (record_billing now b i status r))"
proof (cases "locate_slot b i r")
  case (Inr y)
  obtain x v n where y: "y = (x, v, n)" by (cases y)
  with Inr have l: "gget r b = Some x" "n < length (bt_Slots x)" "bt_Slots x ! n = v" by (simp_all add: locate_slot_Inr)
  note d = repo_okD [OF ok l(1)]
  show ?thesis
  proof (cases "may_bill x v status")
    case True
    let ?v = "v\<lparr>sl_BillingStatus := status, sl_UpdatedAt := now\<rparr>"
    have s: "slot_ok (bt_Status x = BatchObsolete) (bt_ID x) ?v"
      using core_slot [OF d(3) l(2)] True unfolding l(3) may_bill_def by (blast intro: billed_slot_ok)
    have "batch_core (put_slot now x n ?v)"
    proof (rule put_slot_core [OF d(3) l(2) s])
      assume "sl_Status ?v = SlotValid"
      then show "\<forall>k < length (bt_Slots x). k \<noteq> n \<longrightarrow> sl_Status (bt_Slots x ! k) = SlotValid \<longrightarrow> sl_ContentHash (bt_Slots x ! k) \<noteq> sl_ContentHash ?v"
        using d(3) l(2,3) by (auto simp: batch_core_def unique_content_def)
    qed (use l(3) in simp)
    moreover have "bt_Status x \<noteq> BatchCompleted" using completed_outstanding [OF d(2) l(2)] True l(3) by (simp add: outstanding_def may_bill_def)
    ultimately have "batch_ok (finish_batch (put_slot now x n ?v))" by (intro finish_batch_ok) simp_all
    then have "repo_ok (gput b (finish_batch (put_slot now x n ?v)) r)" by (intro repo_ok_put [OF ok l(1)]) simp_all
    moreover have "fst (record_billing now b i status r) = gput b (finish_batch (put_slot now x n ?v)) r"
      using record_billing_bills [OF Inr [unfolded y]] True by blast
    ultimately show ?thesis by simp
  next
    case False
    then show ?thesis using record_billing_idle [OF Inr [unfolded y]] ok by simp
  qed
qed (use ok in \<open>simp add: record_billing_def\<close>)

definition has_rejected :: "string \<Rightarrow> ov_repo \<Rightarrow> bool" where
  "has_rejected b r \<longleftrightarrow> (\<exists>x. gget r b = Some x \<and> list_ex rejected (bt_Slots x))"

lemma unique_content_snoc: "unique_content ss \<Longrightarrow> sl_Status v \<noteq> SlotValid \<Longrightarrow> unique_content (ss @ [v])"
  by (auto simp: unique_content_def nth_append less_Suc_eq)

lemma add_replacement_ok:
  assumes ok: "repo_ok r" and f: "fresh_slot (sl_BatchID v) True v" and rej: "has_rejected b r"
  shows "repo_ok (fst (add_replacement now b v r))"
proof (cases "gget r b")
  case (Some x)
  note d = repo_okD [OF ok Some]
  show ?thesis
  proof (cases "bt_Status x \<noteq> BatchObsolete \<and> List.find sl_Replacement (bt_Slots x) = None \<and> \<not> bt_ReplacementUsed x \<and> \<not> bt_ReplacementExhausted x \<and>
      sl_Ordinal v = int (length (bt_Slots x)) + 1 \<and> sl_BatchID v = b")
    case True
    let ?x = "x\<lparr>bt_ReplacementUsed := True, bt_Slots := bt_Slots x @ [v], bt_UpdatedAt := now\<rparr>"
    have "bt_Status x \<noteq> BatchCompleted" using d(2) rej True Some by (auto simp: batch_ok_def settled_def has_rejected_def)
    moreover have "slot_ok False (bt_ID x) v" using f True d(1) fresh_slot_ok by simp
    moreover have "unique_content (bt_Slots x @ [v])" using d(3) f by (intro unique_content_snoc) (auto simp: batch_core_def fresh_slot_def)
    ultimately have "batch_ok ?x" using d(3) f True by (auto simp: batch_ok_def batch_core_def fresh_slot_def)
    then have "repo_ok (gput b ?x r)" by (intro repo_ok_put [OF ok Some]) simp_all
    then show ?thesis using Some True f by (simp add: add_replacement_def Let_def fresh_slot_def)
  next
    case False
    then have "fst (add_replacement now b v r) = r" using Some by (auto simp: add_replacement_def split: option.splits)
    then show ?thesis using ok by simp
  qed
qed (use ok in \<open>simp add: add_replacement_def\<close>)

lemma exhaust_replacement_ok:
  assumes ok: "repo_ok r"
  shows "repo_ok (fst (exhaust_replacement now b r))"
proof (cases "gget r b")
  case (Some x)
  note d = repo_okD [OF ok Some]
  show ?thesis
  proof (cases "bt_ReplacementUsed x \<or> bt_ReplacementExhausted x")
    case False
    let ?x = "x\<lparr>bt_ReplacementExhausted := True, bt_UpdatedAt := now\<rparr>"
    have core: "batch_core ?x" using d(3) False by (simp add: batch_core_def)
    have "batch_ok (finish_batch ?x)"
    proof (cases "bt_Status x = BatchCompleted")
      case True
      then have "settled ?x" using d(2) by (simp add: batch_ok_def settled_def)
      then have "finish_batch ?x = ?x" using True by (simp add: finish_batch_def settled_def)
      with core show ?thesis using \<open>settled ?x\<close> by (simp add: batch_ok_def)
    next
      case False
      then show ?thesis using core by (intro finish_batch_ok) simp_all
    qed
    then have "repo_ok (gput b (finish_batch ?x) r)" by (intro repo_ok_put [OF ok Some]) simp_all
    then show ?thesis using Some False by (simp add: exhaust_replacement_def Let_def)
  qed (use ok Some in \<open>auto simp: exhaust_replacement_def\<close>)
qed (use ok in \<open>simp add: exhaust_replacement_def\<close>)

lemma obsolete_slot_simps [simp]:
  "sl_ID (obsolete_slot now v) = sl_ID v" "sl_AllocationID (obsolete_slot now v) = sl_AllocationID v"
  "sl_Replacement (obsolete_slot now v) = sl_Replacement v" "sl_BillingStatus (obsolete_slot now v) = sl_BillingStatus v"
  "sl_Status (obsolete_slot now v) = SlotValid \<longleftrightarrow> sl_Status v = SlotValid" "sl_ContentHash (obsolete_slot now v) = sl_ContentHash v"
  "rejected (obsolete_slot now v) = rejected v"
  by (simp_all add: obsolete_slot_def rejected_def)

lemma obsolete_batch_simps [simp]:
  "bt_ID (obsolete_batch now x) = bt_ID x" "bt_SnapshotID (obsolete_batch now x) = bt_SnapshotID x"
  "bt_Slots (obsolete_batch now x) = map (obsolete_slot now) (bt_Slots x)" "bt_Status (obsolete_batch now x) = BatchObsolete"
  "bt_TaskID (obsolete_batch now x) = bt_TaskID x" "bt_MatchRevision (obsolete_batch now x) = bt_MatchRevision x"
  by (simp_all add: obsolete_batch_def)

lemma slot_ok_obsolete:
  assumes "slot_ok False b v"
  shows "slot_ok True b (obsolete_slot now v)"
proof -
  have "sl_Status v \<in> {SlotPlanned, SlotDispatched, SlotValid, SlotInvalid, SlotObsolete}" "sl_Status v \<noteq> SlotObsolete"
    using assms unfolding slot_ok_def by blast+
  then consider "sl_Status v = SlotPlanned" | "sl_Status v = SlotDispatched" | "sl_Status v = SlotValid" | "sl_Status v = SlotInvalid" by blast
  then show ?thesis using assms by cases (simp_all add: slot_ok_def obsolete_slot_def, auto)
qed

lemma obsolete_batch_ok:
  assumes "batch_ok x" "bt_Status x \<noteq> BatchObsolete"
  shows "batch_ok (obsolete_batch now x)"
proof -
  have "slot_ok True (bt_ID x) (obsolete_slot now v)" if "v \<in> set (bt_Slots x)" for v
    using assms that by (intro slot_ok_obsolete) (simp add: batch_ok_def batch_core_def)
  moreover have "unique_content (map (obsolete_slot now) (bt_Slots x))"
    using assms(1) by (simp add: batch_ok_def batch_core_def unique_content_def)
  moreover have "length (filter sl_Replacement (map (obsolete_slot now) (bt_Slots x))) = length (filter sl_Replacement (bt_Slots x))"
    by (simp add: filter_map comp_def)
  moreover have "bt_ReplacementUsed (obsolete_batch now x) = bt_ReplacementUsed x" "bt_ReplacementExhausted (obsolete_batch now x) = bt_ReplacementExhausted x"
    by (simp_all add: obsolete_batch_def)
  ultimately show ?thesis using assms(1) by (auto simp: batch_ok_def batch_core_def)
qed

lemma mark_obsolete_get:
  "\<not> (t = [] \<or> w < 1) \<Longrightarrow> gget (fst (mark_obsolete_before now t w r)) b = map_option (\<lambda>x. if older_batch t w x then obsolete_batch now x else x) (gget r b)"
  by (auto simp: mark_obsolete_before_def gget_map)

lemma repo_ok_map:
  assumes "repo_ok r" "gwf r'" "\<And>b. gget r' b = map_option f (gget r b)"
    and "\<And>x. batch_ok x \<Longrightarrow> batch_ok (f x)" "\<And>x. bt_ID (f x) = bt_ID x" "\<And>x. bt_SnapshotID (f x) = bt_SnapshotID x"
  shows "repo_ok r'"
  using assms unfolding repo_ok_def by auto

lemma mark_obsolete_ok:
  assumes ok: "repo_ok r"
  shows "repo_ok (fst (mark_obsolete_before now t w r))"
proof (cases "t = [] \<or> w < 1")
  case False
  let ?f = "\<lambda>x. if older_batch t w x then obsolete_batch now x else x"
  have f: "batch_ok x \<Longrightarrow> batch_ok (?f x)" "bt_ID (?f x) = bt_ID x" "bt_SnapshotID (?f x) = bt_SnapshotID x" for x
    by (auto simp: older_batch_def obsolete_batch_ok)
  have "gwf (fst (mark_obsolete_before now t w r))" using ok False by (simp add: mark_obsolete_before_def repo_ok_def)
  moreover have "gget (fst (mark_obsolete_before now t w r)) b = map_option ?f (gget r b)" for b by (rule mark_obsolete_get [OF False])
  ultimately show ?thesis by (rule repo_ok_map [OF ok _ _ f])
qed (use ok in \<open>auto simp: mark_obsolete_before_def\<close>)

lemma repo_ok_new [simp]: "repo_ok new_ov_repository"
  by (simp add: repo_ok_def new_ov_repository_def)

end
