(* ===== verification/Overview_Evolution.thy ===== *)
theory Overview_Evolution
  imports Overview_Invariant
begin

text \<open>How a batch may change: the order on batches, and the calls of the service as sequences of repository steps.\<close>

text \<open>
  What no method of the repository ever takes back: the plan of a batch and of its slots, a verdict with its
  content, a bill that is settled, a batch that is completed or obsolete.
\<close>

definition slot_evolves :: "slot \<Rightarrow> slot \<Rightarrow> bool" where
  "slot_evolves v v' \<longleftrightarrow> same_slot_plan v v' \<and>
     (sl_Status v = SlotValid \<or> sl_Status v = SlotInvalid \<longrightarrow>
        sl_Status v' = sl_Status v \<and> sl_ContentHash v' = sl_ContentHash v \<and> sl_DeliverableRef v' = sl_DeliverableRef v \<and> sl_Validation v' = sl_Validation v) \<and>
     (sl_Status v = SlotFailed \<longrightarrow> sl_Status v' = SlotFailed) \<and>
     (sl_BillingStatus v = BillingCaptured \<or> sl_BillingStatus v = BillingReleased \<longrightarrow> sl_BillingStatus v' = sl_BillingStatus v)"

definition batch_evolves :: "batch \<Rightarrow> batch \<Rightarrow> bool" where
  "batch_evolves x x' \<longleftrightarrow> bt_ID x' = bt_ID x \<and> bt_SnapshotID x' = bt_SnapshotID x \<and> bt_TaskID x' = bt_TaskID x \<and>
     bt_TaskSpecHash x' = bt_TaskSpecHash x \<and> bt_MatchRevision x' = bt_MatchRevision x \<and> bt_BriefHash x' = bt_BriefHash x \<and>
     bt_Deadline x' = bt_Deadline x \<and> (bt_Status x = BatchObsolete \<longrightarrow> bt_Status x' = BatchObsolete) \<and>
     (bt_Status x = BatchCompleted \<longrightarrow> bt_Status x' = BatchCompleted \<or> bt_Status x' = BatchObsolete) \<and>
     length (bt_Slots x) \<le> length (bt_Slots x') \<and> (\<forall>k < length (bt_Slots x). slot_evolves (bt_Slots x ! k) (bt_Slots x' ! k))"

definition repo_evolves :: "ov_repo \<Rightarrow> ov_repo \<Rightarrow> bool" where
  "repo_evolves r r' \<longleftrightarrow> (\<forall>b x. gget r b = Some x \<longrightarrow> (\<exists>x'. gget r' b = Some x' \<and> batch_evolves x x'))"

lemma slot_evolves_refl [simp]: "slot_evolves v v"
  by (simp add: slot_evolves_def same_slot_plan_def)

lemma same_slot_plan_trans: "same_slot_plan u v \<Longrightarrow> same_slot_plan v w \<Longrightarrow> same_slot_plan u w"
  by (simp add: same_slot_plan_def)

lemma slot_evolves_trans:
  assumes "slot_evolves u v" "slot_evolves v w"
  shows "slot_evolves u w"
  unfolding slot_evolves_def
proof (intro conjI impI)
  show "same_slot_plan u w" using assms same_slot_plan_trans unfolding slot_evolves_def by blast
next
  assume a: "sl_Status u = SlotValid \<or> sl_Status u = SlotInvalid"
  then have b: "sl_Status v = sl_Status u \<and> sl_ContentHash v = sl_ContentHash u \<and> sl_DeliverableRef v = sl_DeliverableRef u \<and> sl_Validation v = sl_Validation u"
    using assms(1) unfolding slot_evolves_def by blast
  with a have "sl_Status v = SlotValid \<or> sl_Status v = SlotInvalid" by presburger
  then have "sl_Status w = sl_Status v \<and> sl_ContentHash w = sl_ContentHash v \<and> sl_DeliverableRef w = sl_DeliverableRef v \<and> sl_Validation w = sl_Validation v"
    using assms(2) unfolding slot_evolves_def by blast
  with b show "sl_Status w = sl_Status u" "sl_ContentHash w = sl_ContentHash u" "sl_DeliverableRef w = sl_DeliverableRef u" "sl_Validation w = sl_Validation u"
    by presburger+
next
  assume "sl_Status u = SlotFailed"
  then show "sl_Status w = SlotFailed" using assms unfolding slot_evolves_def by blast
next
  assume a: "sl_BillingStatus u = BillingCaptured \<or> sl_BillingStatus u = BillingReleased"
  then have b: "sl_BillingStatus v = sl_BillingStatus u" using assms(1) unfolding slot_evolves_def by blast
  with a have "sl_BillingStatus v = BillingCaptured \<or> sl_BillingStatus v = BillingReleased" by presburger
  then have "sl_BillingStatus w = sl_BillingStatus v" using assms(2) unfolding slot_evolves_def by blast
  with b show "sl_BillingStatus w = sl_BillingStatus u" by presburger
qed

lemma batch_evolves_refl [simp]: "batch_evolves x x"
  by (simp add: batch_evolves_def)

lemma batch_evolves_trans:
  assumes "batch_evolves x y" "batch_evolves y z"
  shows "batch_evolves x z"
proof -
  have "slot_evolves (bt_Slots x ! k) (bt_Slots z ! k)" if "k < length (bt_Slots x)" for k
    using assms that slot_evolves_trans unfolding batch_evolves_def by (meson less_le_trans)
  moreover have "length (bt_Slots x) \<le> length (bt_Slots z)" using assms unfolding batch_evolves_def by linarith
  ultimately show ?thesis using assms by (auto simp: batch_evolves_def)
qed

lemma repo_evolves_refl [simp]: "repo_evolves r r"
  by (simp add: repo_evolves_def)

lemma repo_evolves_trans: "repo_evolves r s \<Longrightarrow> repo_evolves s t \<Longrightarrow> repo_evolves r t"
  unfolding repo_evolves_def by (meson batch_evolves_trans)

lemma repo_evolves_put: "gget r b = Some x \<Longrightarrow> batch_evolves x y \<Longrightarrow> repo_evolves r (gput b y r)"
  by (auto simp: repo_evolves_def)

lemma put_slot_evolves: "n < length (bt_Slots x) \<Longrightarrow> slot_evolves (bt_Slots x ! n) v \<Longrightarrow> batch_evolves x (put_slot now x n v)"
  by (auto simp: batch_evolves_def put_slot_def nth_list_update)

lemma finish_batch_evolves: "batch_evolves x (finish_batch x)"
  by (auto simp: batch_evolves_def finish_batch_def)

lemma finished_put_evolves:
  "n < length (bt_Slots x) \<Longrightarrow> slot_evolves (bt_Slots x ! n) v \<Longrightarrow> batch_evolves x (finish_batch (put_slot now x n v))"
  by (rule batch_evolves_trans [OF put_slot_evolves finish_batch_evolves])

section \<open>Methods\<close>

lemma get_or_create_evolves: "repo_evolves r (fst (get_or_create_batch x r))"
  by (auto simp: get_or_create_batch_def repo_evolves_def split: option.splits)

lemma record_dispatched_evolves: "repo_evolves r (fst (record_dispatched now b i r))"
proof (cases "locate_slot b i r")
  case (Inr y)
  obtain x v n where y: "y = (x, v, n)" by (cases y)
  with Inr have l: "gget r b = Some x" "n < length (bt_Slots x)" "bt_Slots x ! n = v" by (simp_all add: locate_slot_Inr)
  have "sl_Status v = SlotPlanned \<Longrightarrow> slot_evolves v (v\<lparr>sl_Status := SlotDispatched, sl_UpdatedAt := now\<rparr>)"
    by (simp add: slot_evolves_def same_slot_plan_def)
  then have "sl_Status v = SlotPlanned \<Longrightarrow> repo_evolves r (gput b (put_slot now x n (v\<lparr>sl_Status := SlotDispatched, sl_UpdatedAt := now\<rparr>)) r)"
    using l by (intro repo_evolves_put [OF l(1)] put_slot_evolves) simp_all
  then show ?thesis using Inr y by (simp add: record_dispatched_def Let_def)
qed (simp add: record_dispatched_def)

lemma record_validation_evolves: "repo_evolves r (fst (record_validation now b i v0 h ref r))"
proof (cases "locate_slot b i r")
  case (Inr y)
  obtain x v n where y: "y = (x, v, n)" by (cases y)
  with Inr have l: "gget r b = Some x" "n < length (bt_Slots x)" "bt_Slots x ! n = v" by (simp_all add: locate_slot_Inr)
  let ?c = "checked_validation n h (bt_Slots x) v0"
  let ?v = "v\<lparr>sl_Validation := ?c, sl_ContentHash := h, sl_DeliverableRef := ref, sl_UpdatedAt := now,
     sl_Status := (if vl_Valid ?c then SlotValid else SlotInvalid)\<rparr>"
  have "sl_Status v = SlotDispatched \<Longrightarrow> slot_evolves v ?v" by (simp add: slot_evolves_def same_slot_plan_def)
  then have "sl_Status v = SlotDispatched \<Longrightarrow> repo_evolves r (gput b (finish_batch (put_slot now x n ?v)) r)"
    using l by (intro repo_evolves_put [OF l(1)] finished_put_evolves) simp_all
  then show ?thesis using Inr y by (simp add: record_validation_def Let_def)
qed (simp add: record_validation_def)

lemma record_billing_evolves: "repo_evolves r (fst (record_billing now b i status r))"
proof (cases "locate_slot b i r")
  case (Inr y)
  obtain x v n where y: "y = (x, v, n)" by (cases y)
  note l' = Inr [unfolded y]
  from l' have l: "gget r b = Some x" "n < length (bt_Slots x)" "bt_Slots x ! n = v" by (simp_all add: locate_slot_Inr)
  show ?thesis
  proof (cases "may_bill x v status")
    case True
    then have "slot_evolves v (v\<lparr>sl_BillingStatus := status, sl_UpdatedAt := now\<rparr>)" by (simp add: slot_evolves_def same_slot_plan_def may_bill_def)
    then show ?thesis unfolding record_billing_bills [OF l' True] using l by (intro repo_evolves_put [OF l(1)] finished_put_evolves) simp_all
  qed (simp add: record_billing_idle [OF l'])
qed (simp add: record_billing_def)

lemma add_replacement_evolves: "repo_evolves r (fst (add_replacement now b v r))"
proof (cases "gget r b")
  case (Some x)
  have "batch_evolves x (x\<lparr>bt_ReplacementUsed := True, bt_Slots := bt_Slots x @ [v], bt_UpdatedAt := now\<rparr>)"
    by (simp add: batch_evolves_def nth_append)
  then have "repo_evolves r (gput b (x\<lparr>bt_ReplacementUsed := True, bt_Slots := bt_Slots x @ [v], bt_UpdatedAt := now\<rparr>) r)"
    by (rule repo_evolves_put [OF Some])
  then show ?thesis using Some by (auto simp: add_replacement_def Let_def split: option.splits)
qed (simp add: add_replacement_def)

lemma exhaust_replacement_evolves: "repo_evolves r (fst (exhaust_replacement now b r))"
proof (cases "gget r b")
  case (Some x)
  have "batch_evolves x (x\<lparr>bt_ReplacementExhausted := True, bt_UpdatedAt := now\<rparr>)" by (simp add: batch_evolves_def)
  then have "repo_evolves r (gput b (finish_batch (x\<lparr>bt_ReplacementExhausted := True, bt_UpdatedAt := now\<rparr>)) r)"
    by (intro repo_evolves_put [OF Some] batch_evolves_trans [OF _ finish_batch_evolves])
  then show ?thesis using Some by (simp add: exhaust_replacement_def Let_def)
qed (simp add: exhaust_replacement_def)

lemma obsolete_slot_evolves: "slot_evolves v (obsolete_slot now v)"
  by (simp add: slot_evolves_def same_slot_plan_def obsolete_slot_def)

lemma mark_obsolete_evolves: "repo_evolves r (fst (mark_obsolete_before now t w r))"
proof (cases "t = [] \<or> w < 1")
  case False
  have "batch_evolves x (obsolete_batch now x)" for x
    by (simp add: batch_evolves_def obsolete_slot_evolves) (simp add: obsolete_batch_def)
  then show ?thesis unfolding repo_evolves_def mark_obsolete_get [OF False] by simp
qed (auto simp: mark_obsolete_before_def)

lemmas methods_evolve = get_or_create_evolves record_dispatched_evolves record_validation_evolves record_billing_evolves add_replacement_evolves
  exhaust_replacement_evolves mark_obsolete_evolves

lemmas methods_ok = get_or_create_ok record_dispatched_ok record_validation_ok record_billing_ok add_replacement_ok exhaust_replacement_ok mark_obsolete_ok

section \<open>Facts about a slot or a batch that stay\<close>

definition has_slot :: "string \<Rightarrow> slot \<Rightarrow> ov_repo \<Rightarrow> bool" where
  "has_slot b v r \<longleftrightarrow> (\<exists>x. gget r b = Some x \<and> (\<exists>w \<in> set (bt_Slots x). sl_ID w = sl_ID v \<and> sl_AllocationID w = sl_AllocationID v))"

lemma has_slot_evolves: "repo_evolves r r' \<Longrightarrow> has_slot b v r \<Longrightarrow> has_slot b v r'"
proof -
  assume e: "repo_evolves r r'" and h: "has_slot b v r"
  then obtain x k where x: "gget r b = Some x" "k < length (bt_Slots x)" "sl_ID (bt_Slots x ! k) = sl_ID v" "sl_AllocationID (bt_Slots x ! k) = sl_AllocationID v"
    unfolding has_slot_def by (metis in_set_conv_nth)
  obtain x' where "gget r' b = Some x'" "batch_evolves x x'" using e x(1) unfolding repo_evolves_def by blast
  moreover from this x(2) have "slot_evolves (bt_Slots x ! k) (bt_Slots x' ! k)" "k < length (bt_Slots x')" by (auto simp: batch_evolves_def)
  then have "bt_Slots x' ! k \<in> set (bt_Slots x')" "sl_ID (bt_Slots x' ! k) = sl_ID v" "sl_AllocationID (bt_Slots x' ! k) = sl_AllocationID v"
    using x(3,4) by (simp_all add: slot_evolves_def same_slot_plan_def)
  ultimately show ?thesis unfolding has_slot_def by blast
qed

lemma has_rejected_evolves: "repo_evolves r r' \<Longrightarrow> has_rejected b r \<Longrightarrow> has_rejected b r'"
proof -
  assume e: "repo_evolves r r'" and h: "has_rejected b r"
  then obtain x k where x: "gget r b = Some x" "k < length (bt_Slots x)" "rejected (bt_Slots x ! k)"
    unfolding has_rejected_def by (auto simp: list_ex_length)
  obtain x' where x': "gget r' b = Some x'" "batch_evolves x x'" using e x(1) unfolding repo_evolves_def by blast
  then have "slot_evolves (bt_Slots x ! k) (bt_Slots x' ! k)" "k < length (bt_Slots x')" using x(2) unfolding batch_evolves_def by auto
  moreover from this x(3) have "rejected (bt_Slots x' ! k)" by (auto simp: slot_evolves_def rejected_def)
  ultimately show ?thesis using x'(1) by (auto simp: has_rejected_def list_ex_length)
qed

text \<open>
  The interleavings of the service calls. A step of the world is one method of the repository, called the way the
  service calls it, or a change elsewhere. \<open>C k w\<close> says that the ledger has captured the allocation \<open>k\<close>, \<open>R k w\<close> that it
  has released it, \<open>G\<close> is what the rest of the world may do. A bill is only recorded when the ledger has settled the
  allocation; every call of the service is a sequence of such steps when the calls it makes are.
\<close>

definition bill_backed :: "(string \<Rightarrow> 'w \<Rightarrow> bool) \<Rightarrow> (string \<Rightarrow> 'w \<Rightarrow> bool) \<Rightarrow> string \<Rightarrow> string \<Rightarrow> string \<Rightarrow> 'w ov_world \<Rightarrow> bool" where
  "bill_backed C R b i status s \<longleftrightarrow> (\<forall>x v n. locate_slot b i (ow_repo s) = Inr (x, v, n) \<longrightarrow> distinct (map sl_ID (bt_Slots x)) \<longrightarrow>
     (status = BillingCaptured \<longrightarrow> C (sl_AllocationID v) (ow_rest s)) \<and> (status = BillingReleased \<longrightarrow> R (sl_AllocationID v) (ow_rest s)))"

inductive ov_step :: "(string \<Rightarrow> 'w \<Rightarrow> bool) \<Rightarrow> (string \<Rightarrow> 'w \<Rightarrow> bool) \<Rightarrow> ('w \<Rightarrow> 'w \<Rightarrow> bool) \<Rightarrow> 'w ov_world \<Rightarrow> 'w ov_world \<Rightarrow> bool"
  for C R G where
  created: "fresh_batch x \<Longrightarrow> ov_step C R G s (s\<lparr>ow_repo := fst (get_or_create_batch x (ow_repo s))\<rparr>)"
| dispatched: "ov_step C R G s (s\<lparr>ow_repo := fst (record_dispatched now b i (ow_repo s))\<rparr>)"
| validated: "ov_step C R G s (s\<lparr>ow_repo := fst (record_validation now b i v h ref (ow_repo s))\<rparr>)"
| billed: "bill_backed C R b i status s \<Longrightarrow> ov_step C R G s (s\<lparr>ow_repo := fst (record_billing now b i status (ow_repo s))\<rparr>)"
| replaced: "fresh_slot (sl_BatchID v) True v \<Longrightarrow> has_rejected b (ow_repo s) \<Longrightarrow> ov_step C R G s (s\<lparr>ow_repo := fst (add_replacement now b v (ow_repo s))\<rparr>)"
| exhausted: "ov_step C R G s (s\<lparr>ow_repo := fst (exhaust_replacement now b (ow_repo s))\<rparr>)"
| obsoleted: "ov_step C R G s (s\<lparr>ow_repo := fst (mark_obsolete_before now t w (ow_repo s))\<rparr>)"
| elsewhere: "G (ow_rest s) w \<Longrightarrow> ov_step C R G s (s\<lparr>ow_rest := w\<rparr>)"

inductive_cases ov_stepE: "ov_step C R G s s'"

lemma ov_step_ok: "ov_step C R G s s' \<Longrightarrow> repo_ok (ow_repo s) \<Longrightarrow> repo_ok (ow_repo s')"
  by (induction rule: ov_step.induct) (simp_all add: methods_ok)

lemma ov_step_evolves: "ov_step C R G s s' \<Longrightarrow> repo_evolves (ow_repo s) (ow_repo s')"
  by (induction rule: ov_step.induct) (simp_all add: methods_evolve)

lemma kept_repo [simp]:
  "kept_by (ov_step C R G) (\<lambda>s. repo_ok (ow_repo s))"
  "kept_by (ov_step C R G) (\<lambda>s. has_slot b v (ow_repo s))"
  "kept_by (ov_step C R G) (\<lambda>s. has_rejected b (ow_repo s))"
  unfolding kept_by_def by (blast intro: ov_step_ok ov_step_evolves has_slot_evolves has_rejected_evolves)+

lemma ov_steps_evolve: "(ov_step C R G)\<^sup>*\<^sup>* s s' \<Longrightarrow> repo_evolves (ow_repo s) (ow_repo s')"
  by (induction rule: rtranclp_induct) (simp, blast intro: repo_evolves_trans ov_step_evolves)

section \<open>The contract of the calls\<close>

definition ov_peers_ok :: "(string \<Rightarrow> 'w \<Rightarrow> bool) \<Rightarrow> (string \<Rightarrow> 'w \<Rightarrow> bool) \<Rightarrow> ('w \<Rightarrow> 'w \<Rightarrow> bool) \<Rightarrow> ('w \<Rightarrow> bool) \<Rightarrow> 'w ov_peers \<Rightarrow> bool" where
  "ov_peers_ok C R G I P \<longleftrightarrow> (\<forall>w w'. G w w' \<longrightarrow> I w \<longrightarrow> I w') \<and>
     (\<forall>i. moves_by (ov_step C R G) (op_snapshot P i)) \<and> (\<forall>t h d. moves_by (ov_step C R G) (op_brief P t h d)) \<and>
     (\<forall>a n. moves_by (ov_step C R G) (op_target P a n)) \<and> (\<forall>q. moves_by (ov_step C R G) (op_authorize P q)) \<and>
     (\<forall>k c. run_ok (ov_step C R G) (\<lambda>s. I (ow_rest s)) (op_capture P k c) (\<lambda>r s. \<forall>y. r = Inr y \<longrightarrow> C k (ow_rest s))) \<and>
     (\<forall>k c. run_ok (ov_step C R G) (\<lambda>s. I (ow_rest s)) (op_release P k c) (\<lambda>r s. \<forall>y. r = Inr y \<longrightarrow> R k (ow_rest s))) \<and>
     (\<forall>sp. moves_by (ov_step C R G) (op_create P sp)) \<and> (\<forall>i. moves_by (ov_step C R G) (op_dispatch P i)) \<and>
     (\<forall>i. moves_by (ov_step C R G) (op_get P i)) \<and> (\<forall>i. moves_by (ov_step C R G) (op_poll P i)) \<and>
     (\<forall>i. moves_by (ov_step C R G) (op_deliverable P i)) \<and> (\<forall>i. moves_by (ov_step C R G) (op_cancel P i)) \<and>
     (\<forall>a h n. moves_by (ov_step C R G) (op_read P a h n)) \<and> (\<forall>i. moves_by (ov_step C R G) (op_evidence P i))"

lemma peers_okD:
  assumes "ov_peers_ok C R G I P"
  shows "moves_by (ov_step C R G) (op_snapshot P i)" "moves_by (ov_step C R G) (op_brief P t h d)"
    "moves_by (ov_step C R G) (op_target P a n)" "moves_by (ov_step C R G) (op_authorize P q)"
    "moves_by (ov_step C R G) (op_create P sp)" "moves_by (ov_step C R G) (op_dispatch P i)"
    "moves_by (ov_step C R G) (op_get P i)" "moves_by (ov_step C R G) (op_poll P i)"
    "moves_by (ov_step C R G) (op_deliverable P i)" "moves_by (ov_step C R G) (op_cancel P i)"
    "moves_by (ov_step C R G) (op_read P a h m)" "moves_by (ov_step C R G) (op_evidence P i)"
  using assms by (simp_all add: ov_peers_ok_def)

lemma peers_settle:
  assumes "ov_peers_ok C R G I P"
  shows "run_ok (ov_step C R G) (\<lambda>s. I (ow_rest s)) (op_capture P k c) (\<lambda>r s. \<forall>y. r = Inr y \<longrightarrow> C k (ow_rest s))"
    "run_ok (ov_step C R G) (\<lambda>s. I (ow_rest s)) (op_release P k d) (\<lambda>r s. \<forall>y. r = Inr y \<longrightarrow> R k (ow_rest s))"
  using assms by (simp_all add: ov_peers_ok_def)

abbreviation ok_world :: "('w \<Rightarrow> bool) \<Rightarrow> 'w ov_world \<Rightarrow> bool" where
  "ok_world I s \<equiv> repo_ok (ow_repo s) \<and> I (ow_rest s)"

lemma kept_ok: "ov_peers_ok C R G I P \<Longrightarrow> kept_by (ov_step C R G) (ok_world I)"
proof -
  assume ok: "ov_peers_ok C R G I P"
  then have G: "G w w' \<Longrightarrow> I w \<Longrightarrow> I w'" for w w' by (simp add: ov_peers_ok_def)
  have "ov_step C R G s s' \<Longrightarrow> I (ow_rest s) \<Longrightarrow> I (ow_rest s')" for s s'
    by (induction rule: ov_step.induct) (simp_all add: G)
  then show ?thesis by (auto simp: kept_by_def dest: ov_step_ok)
qed

lemma run_repo:
  assumes "\<And>s. A s \<Longrightarrow> ov_step C R G s (s\<lparr>ow_repo := fst (f (ow_repo s))\<rparr>)"
    and "\<And>s r a. A s \<Longrightarrow> f (ow_repo s) = (r, a) \<Longrightarrow> Q a (s\<lparr>ow_repo := r\<rparr>)"
  shows "run_ok (ov_step C R G) A (on_ov_repo f) Q"
proof (rule run_okI)
  fix s s' x
  assume a: "A s" and r: "on_ov_repo f s = (s', x)"
  obtain r y where f: "f (ow_repo s) = (r, y)" by (cases "f (ow_repo s)")
  then have "s' = s\<lparr>ow_repo := r\<rparr>" "x = y" using r by (auto simp: on_ov_repo_def)
  with f assms(1) [OF a] assms(2) [OF a f] show "(ov_step C R G)\<^sup>*\<^sup>* s s' \<and> Q x s'" by auto
qed

lemma moves_repo:
  "(\<And>s. ov_step C R G s (s\<lparr>ow_repo := fst (f (ow_repo s))\<rparr>)) \<Longrightarrow> moves_by (ov_step C R G) (on_ov_repo f)"
  unfolding moves_runs by (rule run_repo) auto

lemmas moves_methods = moves_repo [OF ov_step.dispatched] moves_repo [OF ov_step.validated] moves_repo [OF ov_step.exhausted] moves_repo [OF ov_step.obsoleted]

section \<open>planSlot and dispatchOutstanding\<close>

lemma plan_slot_moves:
  assumes "ov_peers_ok C R G I P"
  shows "moves_by (ov_step C R G) (plan_slot K P now x c ordinal pos f)"
  unfolding plan_slot_def Let_def by (intro moving peers_okD [OF assms])

lemma plan_slot_fresh: "plan_slot K P now x c ordinal pos f s = (s', Inr (v, d)) \<Longrightarrow> fresh_slot (bt_ID x) f v"
  by (auto simp: plan_slot_def sbind_Inr call_eqs Let_def planned_slot_def fresh_slot_def split: prod.splits)

lemma dispatch_all_moves: "ov_peers_ok C R G I P \<Longrightarrow> (ov_step C R G)\<^sup>*\<^sup>* s (fst (dispatch_all P xs s))"
proof (induction xs arbitrary: s)
  case (Cons x xs)
  obtain s1 r where a: "op_dispatch P (sl_LogicalExecutionID x) s = (s1, r)" by (cases "op_dispatch P (sl_LogicalExecutionID x) s")
  have "(ov_step C R G)\<^sup>*\<^sup>* s s1" by (rule moves_byD [OF peers_okD(6) [OF Cons.prems] a])
  with Cons.IH [OF Cons.prems, of s1] show ?case using a by (auto split: prod.splits)
qed simp

lemma record_outcomes_moves: "(ov_step C R G)\<^sup>*\<^sup>* s (fst (record_outcomes now x errs rs s))"
proof (induction rs arbitrary: x errs s)
  case (Cons r rs)
  obtain i q where r: "r = (i, q)" by (cases r)
  show ?case
  proof (cases q)
    case (Inr u)
    obtain s1 y where a: "on_ov_repo (record_dispatched now (bt_ID x) i) s = (s1, y)" by (cases "on_ov_repo (record_dispatched now (bt_ID x) i) s")
    have "(ov_step C R G)\<^sup>*\<^sup>* s s1" by (rule moves_byD [OF moves_methods(1) a])
    then show ?thesis using r Inr a Cons.IH [of s1] by (cases y) (auto intro: rtranclp_trans)
  qed (use r Cons.IH in simp)
qed simp

lemma dispatch_outstanding_moves:
  assumes "ov_peers_ok C R G I P"
  shows "moves_by (ov_step C R G) (dispatch_outstanding P now x)"
proof (rule moves_step)
  fix s
  obtain s1 rs where a: "dispatch_all P (op_schedule P (planned_slots x)) s = (s1, rs)" by (cases "dispatch_all P (op_schedule P (planned_slots x)) s")
  have "(ov_step C R G)\<^sup>*\<^sup>* s s1" using dispatch_all_moves [OF assms, of s "op_schedule P (planned_slots x)"] a by simp
  also have "(ov_step C R G)\<^sup>*\<^sup>* s1 (fst (record_outcomes now x [] rs s1))" by (rule record_outcomes_moves)
  finally show "(ov_step C R G)\<^sup>*\<^sup>* s (fst (dispatch_outstanding P now x s))"
    using a by (auto simp: dispatch_outstanding_def split: prod.splits)
qed

section \<open>Start\<close>

lemma plan_slots_moves:
  assumes "ov_peers_ok C R G I P"
  shows "moves_by (ov_step C R G) (plan_slots K P now x k cs)"
proof (induction cs arbitrary: x k)
  case (Cons c cs)
  then show ?case by (simp only: plan_slots.simps) (intro moving plan_slot_moves [OF assms] Cons.IH)
qed simp

lemma plan_slots_fresh:
  "plan_slots K P now x k cs s = (s', Inr y) \<Longrightarrow> fresh_batch x \<Longrightarrow> fresh_batch y"
proof (induction cs arbitrary: x k s)
  case (Cons c cs)
  obtain s1 v d where p: "plan_slot K P now x (sc_Candidate (sel_Candidate c)) (k + 1) (sel_Position c) False s = (s1, Inr (v, d))"
    and n: "(if k = 0 then plan_slots K P now (x\<lparr>bt_Deadline := d, bt_Slots := bt_Slots x @ [v]\<rparr>) (k + 1) cs
     else if d \<noteq> bt_Deadline x then sfail OErrContentConflict
     else plan_slots K P now (x\<lparr>bt_Slots := bt_Slots x @ [v]\<rparr>) (k + 1) cs) s1 = (s', Inr y)"
    using Cons.prems(1) by (auto simp: sbind_Inr split: prod.splits)
  have "fresh_slot (bt_ID x) False v" by (rule plan_slot_fresh [OF p])
  then have "fresh_batch (x\<lparr>bt_Deadline := d, bt_Slots := bt_Slots x @ [v]\<rparr>)" "fresh_batch (x\<lparr>bt_Slots := bt_Slots x @ [v]\<rparr>)"
    using Cons.prems(2) by (auto simp: fresh_batch_def)
  then show ?case using n Cons.IH by (auto split: if_splits simp: call_eqs)
qed (simp add: call_eqs)

lemma start_plan_moves:
  assumes "ov_peers_ok C R G I P"
  shows "moves_by (ov_step C R G) (start_plan K P now q b)"
  unfolding start_plan_def Let_def by (intro moving peers_okD [OF assms] plan_slots_moves [OF assms])

lemma start_plan_fresh:
  assumes "start_plan K P now q b s = (s', Inr x)"
  shows "fresh_batch x"
proof -
  from assms obtain n h s1 s2 where "plan_slots K P now (start_draft now b n h (start_deadline K now (sq_Deadline q))) 0 (sn_Selections n) s1 = (s2, Inr x)"
    by (auto simp: start_plan_def Let_def sbind_Inr call_eqs split: if_splits)
  then show ?thesis by (rule plan_slots_fresh) (simp add: start_draft_def fresh_batch_def)
qed

end
