(* ===== verification/Overview_Runs.thy ===== *)
theory Overview_Runs
  imports Overview_Evolution
begin

text \<open>The whole calls as sequences of steps, from a repository with the invariant.\<close>

lemma run_fact:
  "moves_by R m \<Longrightarrow> (\<And>s s' r. m s = (s', r) \<Longrightarrow> T r) \<Longrightarrow> kept_by R P \<Longrightarrow> run_ok R P m (\<lambda>r s. P s \<and> T r)"
  unfolding run_ok_def moves_by_def by (metis kept_by_steps prod.collapse)

lemma smap_eq: "smap_err f m s = (s', r) \<longleftrightarrow> (\<exists>r'. m s = (s', r') \<and> r = (case r' of Inl e \<Rightarrow> Inl (f e) | Inr x \<Rightarrow> Inr x))"
  by (auto simp: smap_err_def split: prod.splits sum.splits)

lemma smap_Inr: "smap_err f m s = (s', Inr x) \<longleftrightarrow> m s = (s', Inr x)"
  by (auto simp: smap_err_def split: prod.splits sum.splits)

section \<open>Start\<close>

lemma start_dispatch_moves: "ov_peers_ok C R G I P \<Longrightarrow> moves_by (ov_step C R G) (start_dispatch P now x replay)"
  unfolding start_dispatch_def by (intro moving dispatch_outstanding_moves)

lemma start_create_moves:
  assumes "ov_peers_ok C R G I P"
  shows "moves_by (ov_step C R G) (sbind (start_plan K P now q b) (\<lambda>x. on_ov_repo (get_or_create_batch x)))"
  unfolding moves_runs
proof (rule run_ok_bind)
  show "run_ok (ov_step C R G) (\<lambda>s. True) (start_plan K P now q b) (\<lambda>r s. True \<and> (\<forall>x. r = Inr x \<longrightarrow> fresh_batch x))"
    by (rule run_fact [OF start_plan_moves [OF assms]]) (auto dest: start_plan_fresh)
  show "run_ok (ov_step C R G) (\<lambda>s. True \<and> (\<forall>y. Inr x = Inr y \<longrightarrow> fresh_batch y)) (on_ov_repo (get_or_create_batch x)) (\<lambda>r s. True)" for x :: batch
    by (rule run_repo) (simp_all add: ov_step.created)
qed simp

lemma svc_start_moves:
  assumes "ov_peers_ok C R G I P"
  shows "moves_by (ov_step C R G) (svc_start K P now q)"
proof (rule moves_step)
  fix s
  let ?b = "ov_stable_id (op_sha P) [''overview-batch'', sq_SnapshotID q, OrchestrationVersion]"
  have "moves_by (ov_step C R G) (sbind (smap_err plain_error (sbind (start_plan K P now q ?b) (\<lambda>x. on_ov_repo (get_or_create_batch x))))
                   (\<lambda>(created, replay). start_dispatch P now created replay))"
    by (intro moving start_create_moves [OF assms] start_dispatch_moves [OF assms])
  with start_dispatch_moves [OF assms] show "(ov_step C R G)\<^sup>*\<^sup>* s (fst (svc_start K P now q s))"
    by (auto simp: svc_start_def Let_def moves_by_def split: sum.split)
qed

section \<open>Settlement and replacement\<close>

lemma has_slot_located:
  assumes "has_slot b v r" "locate_slot b (sl_ID v) r = Inr (x, w, n)" "distinct (map sl_ID (bt_Slots x))"
  shows "sl_AllocationID w = sl_AllocationID v"
proof -
  from assms(2) have l: "gget r b = Some x" "w \<in> set (bt_Slots x)" "sl_ID w = sl_ID v" by (auto simp: locate_slot_Inr)
  from assms(1) l(1) obtain u where "u \<in> set (bt_Slots x)" "sl_ID u = sl_ID v" "sl_AllocationID u = sl_AllocationID v"
    by (auto simp: has_slot_def)
  with l assms(3) show ?thesis by (metis distinct_map inj_on_def)
qed

lemma bill_backed_slot:
  assumes "has_slot b v (ow_repo s)" "status = BillingCaptured \<Longrightarrow> C (sl_AllocationID v) (ow_rest s)"
    "status = BillingReleased \<Longrightarrow> R (sl_AllocationID v) (ow_rest s)"
  shows "bill_backed C R b (sl_ID v) status s"
  unfolding bill_backed_def
proof (intro allI impI)
  fix x w n
  assume "locate_slot b (sl_ID v) (ow_repo s) = Inr (x, w, n)" "distinct (map sl_ID (bt_Slots x))"
  then have "sl_AllocationID w = sl_AllocationID v" using has_slot_located [OF assms(1)] by blast
  then show "(status = BillingCaptured \<longrightarrow> C (sl_AllocationID w) (ow_rest s)) \<and> (status = BillingReleased \<longrightarrow> R (sl_AllocationID w) (ow_rest s))"
    using assms(2,3) by metis
qed

lemma guarded_answer:
  "(if a then (r, Inl e) else if c then (r, Inr x) else if d then (r, Inl f) else (r2, Inr y)) = (r', Inr z) \<Longrightarrow> z = x \<or> z = y"
  by (auto split: if_splits)

lemma record_billing_answer: "repo_ok r \<Longrightarrow> record_billing now b i status r = (r', Inr y) \<Longrightarrow> bt_ID y = b"
proof -
  assume ok: "repo_ok r" and e: "record_billing now b i status r = (r', Inr y)"
  then obtain x v n where l: "locate_slot b i r = Inr (x, v, n)" by (auto simp: record_billing_def split: sum.splits)
  then have "bt_ID x = b" using repo_okD(1) [OF ok] by (simp add: locate_slot_Inr)
  moreover have "y = x \<or> y = finish_batch (put_slot now x n (v\<lparr>sl_BillingStatus := status, sl_UpdatedAt := now\<rparr>))"
    using e unfolding record_billing_def l sum.case prod.case Let_def by (rule guarded_answer)
  ultimately show "bt_ID y = b" by (elim disjE) simp_all
qed

lemma bill_slot_run:
  assumes "bt_ID x = b"
  shows "run_ok (ov_step C R G) (\<lambda>s. ok_world I s \<and> bill_backed C R b (sl_ID v) status s) (bill_slot now x v status)
     (\<lambda>r s. ok_world I s \<and> (\<forall>y. r = Inr y \<longrightarrow> bt_ID y = b))"
  unfolding bill_slot_def assms
proof (rule run_ok_map_err, rule run_repo)
  fix s
  assume a: "ok_world I s \<and> bill_backed C R b (sl_ID v) status s"
  then show "ov_step C R G s (s\<lparr>ow_repo := fst (record_billing now b (sl_ID v) status (ow_repo s))\<rparr>)" by (simp add: ov_step.billed)
  fix r a
  assume "record_billing now b (sl_ID v) status (ow_repo s) = (r, a)"
  then show "ok_world I (s\<lparr>ow_repo := r\<rparr>) \<and> (\<forall>y. (case a of Inl e \<Rightarrow> Inl (zero_batch, e) | Inr x \<Rightarrow> Inr x) = Inr y \<longrightarrow> bt_ID y = b)"
    using a record_billing_ok [of "ow_repo s" now b "sl_ID v" status] by (auto split: sum.splits dest: record_billing_answer)
qed

lemma settle_slot_run:
  assumes "ov_peers_ok C R G I P" "bt_ID x = b"
  shows "run_ok (ov_step C R G) (\<lambda>s. ok_world I s \<and> has_slot b v (ow_repo s)) (settle_slot P now x v) (\<lambda>r s. ok_world I s \<and> (\<forall>y. r = Inr y \<longrightarrow> bt_ID y = b))"
proof -
  let ?W = "ov_step C R G" and ?A = "\<lambda>s. ok_world I s \<and> has_slot b v (ow_repo s)"
  note kept = kept_by_conj [OF kept_ok [OF assms(1)] kept_repo(2)]
  have capture: "run_ok ?W ?A (smap_err (\<lambda>e. (x, e)) (op_capture P (sl_AllocationID v) c)) (\<lambda>r s. (\<forall>y. r = Inr y \<longrightarrow> C (sl_AllocationID v) (ow_rest s)) \<and> ?A s)" for c
    using run_ok_frame [OF peers_settle(1) [OF assms(1)] kept]
    by (rule run_ok_map_err [OF run_ok_weaken]) (auto split: sum.splits)
  have release: "run_ok ?W ?A (smap_err (\<lambda>e. (x, e)) (op_release P (sl_AllocationID v) c)) (\<lambda>r s. (\<forall>y. r = Inr y \<longrightarrow> R (sl_AllocationID v) (ow_rest s)) \<and> ?A s)" for c
    using run_ok_frame [OF peers_settle(2) [OF assms(1)] kept]
    by (rule run_ok_map_err [OF run_ok_weaken]) (auto split: sum.splits)
  have get: "run_ok ?W ?A (smap_err (\<lambda>e. (zero_batch, e)) (op_get P i)) (\<lambda>r. ?A)" for i
    by (rule run_ok_map_err, rule moves_run [OF peers_okD(7) [OF assms(1)] kept])
  have captured: "run_ok ?W ?A (sbind (smap_err (\<lambda>e. (x, e)) (op_capture P (sl_AllocationID v) c)) (\<lambda>_. bill_slot now x v BillingCaptured))
      (\<lambda>r s. ok_world I s \<and> (\<forall>y. r = Inr y \<longrightarrow> bt_ID y = b))" for c
    by (rule run_ok_bind [OF capture])
      (rule run_ok_weaken [OF bill_slot_run [OF assms(2)]], auto intro: bill_backed_slot)
  have released: "run_ok ?W ?A (sbind (smap_err (\<lambda>e. (x, e)) (op_release P (sl_AllocationID v) c)) (\<lambda>_. bill_slot now x v BillingReleased))
      (\<lambda>r s. ok_world I s \<and> (\<forall>y. r = Inr y \<longrightarrow> bt_ID y = b))" for c
    by (rule run_ok_bind [OF release])
      (rule run_ok_weaken [OF bill_slot_run [OF assms(2)]], auto intro: bill_backed_slot)
  show ?thesis unfolding settle_slot_def
    using assms(2) by (intro triples run_ok_bind [OF get] captured released) simp_all
qed

lemma replace_with_run:
  assumes "ov_peers_ok C R G I P"
  shows "run_ok (ov_step C R G) (\<lambda>s. has_rejected (bt_ID x) (ow_repo s)) (replace_with K P now x k cs) (\<lambda>r s. True)"
proof (induction cs arbitrary: k)
  case Nil
  show ?case by (simp, rule run_ok_map_err, rule run_ok_weaken [OF moves_run [OF moves_methods(3)]]) simp_all
next
  case (Cons c cs)
  let ?W = "ov_step C R G" and ?A = "\<lambda>s. has_rejected (bt_ID x) (ow_repo s)"
  have plan: "run_ok ?W ?A (smap_err (\<lambda>e. (x, e)) (plan_slot K P now x (sc_Candidate c) ordinal (k + 1) True))
      (\<lambda>r s. ?A s \<and> (\<forall>v d. r = Inr (v, d) \<longrightarrow> fresh_slot (bt_ID x) True v))" for ordinal
    by (rule run_fact [OF moves_map_err [OF plan_slot_moves [OF assms]]]) (auto simp: smap_Inr dest: plan_slot_fresh)
  have add: "run_ok ?W (\<lambda>s. ?A s \<and> fresh_slot (bt_ID x) True v) (smap_err (\<lambda>e. (zero_batch, e)) (on_ov_repo (add_replacement now (bt_ID x) v))) (\<lambda>r s. True)" for v
    by (rule run_ok_map_err, rule run_repo) (auto intro!: ov_step.replaced simp: fresh_slot_def)
  have dispatch: "run_ok ?W (\<lambda>s. True) (dispatch_outstanding P now y) (\<lambda>r s. True)" for y
    using dispatch_outstanding_moves [OF assms] by (simp add: moves_runs)
  have next_: "run_ok ?W (\<lambda>s. ?A s \<and> (\<forall>w d'. Inr q = (Inr (w, d') :: batch \<times> overview_error + slot \<times> gotime) \<longrightarrow> fresh_slot (bt_ID x) True w))
      (case q of (slot, deadline) \<Rightarrow> if deadline \<noteq> bt_Deadline x then sfail (x, OErrContentConflict)
        else sbind (smap_err (\<lambda>e. (zero_batch, e)) (on_ov_repo (add_replacement now (bt_ID x) slot))) (\<lambda>(y, _). dispatch_outstanding P now y)) (\<lambda>r s. True)" for q
    by (intro triples run_ok_bind [OF run_ok_weaken [OF add]] dispatch) (auto simp: dispatch)
  show ?case by (simp only: replace_with.simps, rule run_ok_if [OF Cons.IH], rule run_ok_bind [OF plan next_]) simp
qed

lemma replace_slot_run:
  assumes "ov_peers_ok C R G I P"
  shows "run_ok (ov_step C R G) (\<lambda>s. has_rejected (bt_ID x) (ow_repo s)) (replace_slot K P now x) (\<lambda>r s. True)"
  unfolding replace_slot_def
proof (rule run_ok_bind)
  show "run_ok (ov_step C R G) (\<lambda>s. has_rejected (bt_ID x) (ow_repo s)) (smap_err (\<lambda>e. (x, e)) (op_snapshot P (bt_SnapshotID x)))
      (\<lambda>r s. has_rejected (bt_ID x) (ow_repo s))"
    by (rule run_ok_map_err, rule moves_run [OF peers_okD(1) [OF assms]]) simp
qed (simp_all add: replace_with_run [OF assms])

lemma settle_and_replace_run:
  assumes "ov_peers_ok C R G I P" "bt_ID x = b"
  shows "run_ok (ov_step C R G) (\<lambda>s. ok_world I s \<and> has_slot b v (ow_repo s) \<and> (sl_Status v = SlotInvalid \<longrightarrow> has_rejected b (ow_repo s)))
     (settle_and_replace K P now x v) (\<lambda>r s. True)"
proof -
  let ?F = "\<lambda>s :: 'a ov_world. sl_Status v = SlotInvalid \<longrightarrow> has_rejected b (ow_repo s)"
  have "kept_by (ov_step C R G) ?F" by (cases "sl_Status v = SlotInvalid") simp_all
  note settle = run_ok_frame [OF settle_slot_run [OF assms, of v now] this]
  have rest: "run_ok (ov_step C R G) (\<lambda>s. (ok_world I s \<and> (\<forall>z. Inr y = (Inr z :: batch \<times> overview_error + batch) \<longrightarrow> bt_ID z = b)) \<and> ?F s)
      (if sl_Status v \<noteq> SlotInvalid \<or> bt_ReplacementUsed y \<or> bt_ReplacementExhausted y then sret y else replace_slot K P now y) (\<lambda>r s. True)" for y
    by (intro triples) (simp, rule run_ok_weaken [OF replace_slot_run [OF assms(1)]], auto)
  have "run_ok (ov_step C R G) (\<lambda>s. ok_world I s \<and> has_slot b v (ow_repo s) \<and> ?F s) (settle_slot P now x v)
      (\<lambda>r s. (ok_world I s \<and> (\<forall>z. r = Inr z \<longrightarrow> bt_ID z = b)) \<and> ?F s)"
    by (rule run_ok_weaken [OF settle]) simp_all
  then show ?thesis unfolding settle_and_replace_def by (rule run_ok_bind) (use rest in simp_all)
qed

section \<open>FinalizeSlot\<close>

lemma finalize_work_moves: "ov_peers_ok C R G I P \<Longrightarrow> moves_by (ov_step C R G) (finalize_work P v)"
  unfolding finalize_work_def by (intro moving peers_okD) assumption+

lemma pending_moves: "moves_by R m \<Longrightarrow> moves_by R (pending_on m)"
  unfolding pending_on_def by (rule moves_map_err)

lemma finalize_validation_moves: "ov_peers_ok C R G I P \<Longrightarrow> moves_by (ov_step C R G) (finalize_validation K P now x v work)"
  unfolding finalize_validation_def by (intro moving pending_moves peers_okD) assumption+

lemma record_validation_answer:
  assumes ok: "repo_ok r" and e: "record_validation now b i v0 h ref r = (r', Inr (x', v', f))"
  shows "bt_ID x' = b" "gget r' b = Some x'" "v' \<in> set (bt_Slots x')"
proof -
  from e obtain x v n where l: "locate_slot b i r = Inr (x, v, n)" by (auto simp: record_validation_def split: sum.splits)
  then have x: "bt_ID x = b" "gget r b = Some x" "n < length (bt_Slots x)" "v \<in> set (bt_Slots x)"
    using repo_okD(1) [OF ok] by (auto simp: locate_slot_Inr)
  show "bt_ID x' = b" "gget r' b = Some x'" "v' \<in> set (bt_Slots x')"
    using e l x by (auto simp: record_validation_def Let_def set_update_memI split: if_splits)
qed

lemma listed_slot:
  assumes "gget r b = Some x" "v \<in> set (bt_Slots x)"
  shows "has_slot b v r" "sl_Status v = SlotInvalid \<longrightarrow> has_rejected b r"
  using assms by (auto simp: has_slot_def has_rejected_def rejected_def list_ex_iff)

lemma listed_invalid: "gget r b = Some x \<Longrightarrow> n < length (bt_Slots x) \<Longrightarrow> sl_Status (bt_Slots x ! n) = SlotInvalid \<Longrightarrow> has_rejected b r"
  using listed_slot(2) [of r b x "bt_Slots x ! n"] by simp

lemma record_validation_run:
  assumes "bt_ID x = b"
  shows "run_ok (ov_step C R G) (ok_world I) (smap_err no_batch (on_ov_repo (record_validation now (bt_ID x) i v0 h ref)))
     (\<lambda>r s. \<forall>x' v' f. r = Inr (x', v', f) \<longrightarrow> bt_ID x' = b \<and> ok_world I s \<and> has_slot b v' (ow_repo s) \<and> (sl_Status v' = SlotInvalid \<longrightarrow> has_rejected b (ow_repo s)))"
  unfolding assms
proof (rule run_ok_map_err, rule run_repo)
  fix s r a
  assume "ok_world I s" "record_validation now b i v0 h ref (ow_repo s) = (r, a)"
  moreover from this have "repo_ok r" using record_validation_ok [of "ow_repo s" now b i v0 h ref] by simp
  ultimately show "\<forall>x' v' f. (case a of Inl e \<Rightarrow> Inl (no_batch e) | Inr y \<Rightarrow> Inr y) = Inr (x', v', f) \<longrightarrow>
      bt_ID x' = b \<and> ok_world I (s\<lparr>ow_repo := r\<rparr>) \<and> has_slot b v' (ow_repo (s\<lparr>ow_repo := r\<rparr>)) \<and> (sl_Status v' = SlotInvalid \<longrightarrow> has_rejected b (ow_repo (s\<lparr>ow_repo := r\<rparr>)))"
    by (auto split: sum.splits dest: record_validation_answer intro: listed_slot(1) listed_slot(2) [rule_format])
qed (rule ov_step.validated)

lemma svc_finalize_slot_run:
  assumes "ov_peers_ok C R G I P"
  shows "run_ok (ov_step C R G) (ok_world I) (svc_finalize_slot K P now b i) (\<lambda>r s. True)"
proof -
  let ?W = "ov_step C R G"
  let ?L = "\<lambda>x v s. bt_ID x = b \<and> ok_world I s \<and> has_slot b v (ow_repo s) \<and> (sl_Status v = SlotInvalid \<longrightarrow> has_rejected b (ow_repo s))"
  have settle: "run_ok ?W (?L x v) (settle_and_replace K P now x v) (\<lambda>r s. True)" for x v
  proof (cases "bt_ID x = b")
    case True
    then show ?thesis by (intro run_ok_weaken [OF settle_and_replace_run [OF assms True]]) simp_all
  qed (simp add: run_ok_def)
  have fetch: "run_ok ?W (ok_world I) (smap_err no_batch (sbind (sread (\<lambda>s. get_batch b (ow_repo s))) slift))
      (\<lambda>r s. ok_world I s \<and> (\<forall>x. r = Inr x \<longrightarrow> gget (ow_repo s) b = Some x))"
    by (rule run_okI) (auto simp: smap_eq sbind_def sread_def slift_def get_batch_def from_option_def split: option.splits sum.splits)
  have store: "run_ok ?W (ok_world I) (sbind (smap_err no_batch (on_ov_repo (record_validation now (bt_ID x) (sl_ID v) outcome h ref)))
      (\<lambda>(updated, stored, _). settle_and_replace K P now updated stored)) (\<lambda>r s. True)" if "bt_ID x = b" for x v outcome h ref
    by (rule run_ok_bind [OF record_validation_run [OF that]]) (auto intro!: triples run_ok_weaken [OF settle])
  have judge: "run_ok ?W (ok_world I) (sbind (smap_err no_batch (finalize_validation K P now x v work)) (\<lambda>(outcome, contentHash, deliverableRef).
       sbind (smap_err no_batch (on_ov_repo (record_validation now (bt_ID x) (sl_ID v) outcome contentHash deliverableRef))) (\<lambda>(updated, stored, _).
       settle_and_replace K P now updated stored))) (\<lambda>r s. True)" if "bt_ID x = b" for x v work
    by (rule run_ok_bind [OF moves_run [OF moves_map_err [OF finalize_validation_moves [OF assms]] kept_ok [OF assms]]])
      (auto intro!: triples store [OF that])
  have work: "run_ok ?W (ok_world I) (finalize_dispatched K P now x v) (\<lambda>r s. True)" if "bt_ID x = b" for x v
    unfolding finalize_dispatched_def
    by (rule run_ok_bind [OF moves_run [OF moves_map_err [OF finalize_work_moves [OF assms]] kept_ok [OF assms]]])
      (auto intro!: judge [OF that])
  have pick: "run_ok ?W (\<lambda>s. \<forall>u. Inr v = (Inr u :: batch \<times> overview_error + slot) \<longrightarrow> ?L x u s)
     (if sl_Status v = SlotValid \<or> sl_Status v = SlotInvalid then settle_and_replace K P now x v
     else if sl_Status v \<noteq> SlotDispatched then sfail (no_batch OErrInvalidState)
     else finalize_dispatched K P now x v) (\<lambda>r s. True)" if "bt_ID x = b" for x v
    by (intro run_ok_if run_ok_fail run_ok_weaken [OF settle] run_ok_weaken [OF work [OF that]]) simp_all
  have slot: "run_ok ?W (\<lambda>s. ok_world I s \<and> gget (ow_repo s) b = Some x)
     (if bt_Status x = BatchObsolete then sfail (no_batch OErrObsolete)
     else sbind (smap_err no_batch (slift (find_slot x i))) (\<lambda>v.
     if sl_Status v = SlotValid \<or> sl_Status v = SlotInvalid then settle_and_replace K P now x v
     else if sl_Status v \<noteq> SlotDispatched then sfail (no_batch OErrInvalidState)
     else finalize_dispatched K P now x v)) (\<lambda>r s. True)" (is "run_ok _ ?A ?m _") for x
  proof (cases "bt_ID x = b")
    case True
    have "run_ok ?W ?A (smap_err no_batch (slift (find_slot x i))) (\<lambda>r s. \<forall>v. r = Inr v \<longrightarrow> ?L x v s)"
      using True by (intro run_ok_map_err triples)
        (auto simp: find_slot_def from_option_def find_Some_iff split: option.splits sum.splits intro: listed_slot(1) listed_invalid)
    then have "run_ok ?W ?A (sbind (smap_err no_batch (slift (find_slot x i))) (\<lambda>v.
       if sl_Status v = SlotValid \<or> sl_Status v = SlotInvalid then settle_and_replace K P now x v
       else if sl_Status v \<noteq> SlotDispatched then sfail (no_batch OErrInvalidState)
       else finalize_dispatched K P now x v)) (\<lambda>r s. True)"
      by (rule run_ok_bind) (rule pick [OF True], simp)
    then show ?thesis by (intro run_ok_if run_ok_fail) simp_all
  next
    case False
    then show ?thesis using repo_okD(1) by (auto simp: run_ok_def)
  qed
  show ?thesis unfolding svc_finalize_slot_def by (rule run_ok_bind [OF fetch], rule run_ok_weaken [OF slot]) simp_all
qed

section \<open>ObsoleteBefore\<close>

lemma error_of_fst [simp]: "fst (error_of x) = fst x"
  by (simp add: error_of_def split: prod.splits sum.splits)

lemma release_obsolete_run:
  assumes "ov_peers_ok C R G I P"
  shows "run_ok (ov_step C R G) (\<lambda>s. ok_world I s \<and> has_slot b v (ow_repo s)) (release_obsolete P now b v) (\<lambda>r s. True)"
proof -
  let ?A = "\<lambda>s. ok_world I s \<and> has_slot b v (ow_repo s)"
  have bill: "run_ok (ov_step C R G) (\<lambda>s. R (sl_AllocationID v) (ow_rest s) \<and> ?A s) (on_ov_repo (record_billing now b (sl_ID v) BillingReleased)) (\<lambda>r s. True)"
    by (rule run_repo) (auto intro!: ov_step.billed bill_backed_slot)
  have "run_ok (ov_step C R G) ?A (op_release P (sl_AllocationID v) c) (\<lambda>r s. (\<forall>y. r = Inr y \<longrightarrow> R (sl_AllocationID v) (ow_rest s)) \<and> ?A s)" for c
    by (rule run_ok_weaken [OF run_ok_frame [OF peers_settle(2) [OF assms] kept_by_conj [OF kept_ok [OF assms(1)] kept_repo(2)]]]) auto
  then show ?thesis unfolding release_obsolete_def
    by (rule run_ok_bind) (auto intro!: run_ok_bind [OF run_ok_weaken [OF bill]] triples)
qed

lemma obsolete_one_moves:
  assumes "ov_peers_ok C R G I P" "ok_world I s" "has_slot b v (ow_repo s)"
  shows "(ov_step C R G)\<^sup>*\<^sup>* s (fst (obsolete_one P now b v s))"
proof -
  obtain s1 es where a: "(if sl_Status v = SlotObsolete then error_of (op_cancel P (sl_LogicalExecutionID v) s) else (s, [])) = (s1, es)"
    by (cases "if sl_Status v = SlotObsolete then error_of (op_cancel P (sl_LogicalExecutionID v) s) else (s, [])")
  have m: "(ov_step C R G)\<^sup>*\<^sup>* s s1"
    using a peers_okD(10) [OF assms(1)] by (auto simp: moves_by_def split: if_splits dest!: arg_cong [where f = fst])
  have k: "ok_world I s1" "has_slot b v (ow_repo s1)" using kept_by_steps [OF kept_ok [OF assms(1)] m] kept_by_steps [OF kept_repo(2) m] assms(2,3) by simp_all
  then have "(ov_step C R G)\<^sup>*\<^sup>* s1 (fst (release_obsolete P now b v s1))"
    using release_obsolete_run [OF assms(1)] by (auto simp: run_ok_def)
  then have n: "(ov_step C R G)\<^sup>*\<^sup>* s (fst (release_obsolete P now b v s1))" using m by (rule rtranclp_trans [rotated])
  have "fst (obsolete_one P now b v s) = (if sl_BillingStatus v = BillingAuthorized then fst (release_obsolete P now b v s1) else s1)"
    unfolding obsolete_one_def a by (simp add: case_prod_unfold)
  then show ?thesis using m n by simp
qed

lemma obsolete_all_moves:
  assumes "ov_peers_ok C R G I P" "ok_world I s" "\<forall>(b, v) \<in> set vs. has_slot b v (ow_repo s)"
  shows "(ov_step C R G)\<^sup>*\<^sup>* s (fst (obsolete_all P now vs s))"
  using assms(2,3)
proof (induction vs arbitrary: s)
  case (Cons p vs)
  obtain b v where p: "p = (b, v)" by (cases p)
  obtain s1 es where a: "obsolete_one P now b v s = (s1, es)" by (cases "obsolete_one P now b v s")
  have m: "(ov_step C R G)\<^sup>*\<^sup>* s s1" using obsolete_one_moves [OF assms(1), of s b v now] Cons.prems a p by auto
  have "ok_world I s1" "\<forall>(b, v) \<in> set vs. has_slot b v (ow_repo s1)"
    using kept_by_steps [OF kept_ok [OF assms(1)] m] kept_by_steps [OF kept_repo(2) m] Cons.prems by auto
  from Cons.IH [OF this] m show ?case using p a by (auto split: prod.splits)
qed simp

lemma mark_obsolete_answer:
  assumes "repo_ok r" "mark_obsolete_before now t w r = (r', Inr xs)" "(b, v) \<in> set (slots_of xs)"
  shows "has_slot b v r'"
proof -
  from assms(2) have n: "\<not> (t = [] \<or> w < 1)" and xs: "xs = map (obsolete_batch now) (filter (older_batch t w) (gvals r))"
    by (auto simp: mark_obsolete_before_def split: if_splits)
  from assms(3) xs obtain x where x: "x \<in> set (gvals r)" "older_batch t w x" "b = bt_ID x" "v \<in> set (bt_Slots (obsolete_batch now x))"
    by (auto simp: slots_of_def)
  then have "gget r b = Some x" using assms(1) by (auto simp: repo_ok_def gvals_mem)
  then have "gget r' b = Some (obsolete_batch now x)" using mark_obsolete_get [OF n, of now r b] x(2) assms(2) by simp
  then show ?thesis using x(4) by (rule listed_slot(1))
qed

lemma svc_obsolete_before_moves:
  assumes "ov_peers_ok C R G I P" "ok_world I s"
  shows "(ov_step C R G)\<^sup>*\<^sup>* s (fst (svc_obsolete_before P now t w s))"
proof -
  obtain r x where f: "mark_obsolete_before now t w (ow_repo s) = (r, x)" by (cases "mark_obsolete_before now t w (ow_repo s)")
  then have o: "on_ov_repo (mark_obsolete_before now t w) s = (s\<lparr>ow_repo := r\<rparr>, x)" by (simp add: on_ov_repo_def)
  have m: "ov_step C R G s (s\<lparr>ow_repo := r\<rparr>)" using ov_step.obsoleted [of C R G s now t w] f by simp
  show ?thesis
  proof (cases x)
    case (Inr xs)
    have ok: "ok_world I (s\<lparr>ow_repo := r\<rparr>)" using ov_step_ok [OF m] assms(2) by simp
    have "(ov_step C R G)\<^sup>*\<^sup>* (s\<lparr>ow_repo := r\<rparr>) (fst (obsolete_all P now (slots_of xs) (s\<lparr>ow_repo := r\<rparr>)))"
      using mark_obsolete_answer [OF conjunct1 [OF assms(2)] f [unfolded Inr]] by (intro obsolete_all_moves [OF assms(1) ok]) auto
    with m have "(ov_step C R G)\<^sup>*\<^sup>* s (fst (obsolete_all P now (slots_of xs) (s\<lparr>ow_repo := r\<rparr>)))" by (rule converse_rtranclp_into_rtranclp)
    then show ?thesis using o Inr by (auto simp: svc_obsolete_before_def split: prod.splits)
  qed (use o m in \<open>simp add: svc_obsolete_before_def\<close>)
qed

section \<open>Calls and reachable worlds\<close>

datatype ov_call =
    OStart start_request
  | OFinalize string string
  | OObsolete string int

fun ov_exec :: "ov_config \<Rightarrow> 'w ov_peers \<Rightarrow> gotime \<Rightarrow> ov_call \<Rightarrow> 'w ov_world \<Rightarrow> 'w ov_world" where
  "ov_exec K P now (OStart q) s = fst (svc_start K P now q s)"
| "ov_exec K P now (OFinalize b i) s = fst (svc_finalize_slot K P now b i s)"
| "ov_exec K P now (OObsolete t w) s = fst (svc_obsolete_before P now t w s)"

text \<open>Reachable: by steps from the empty repository in a world with the invariant \<open>I\<close> of the ledger.\<close>

definition ov_reachable :: "(string \<Rightarrow> 'w \<Rightarrow> bool) \<Rightarrow> (string \<Rightarrow> 'w \<Rightarrow> bool) \<Rightarrow> ('w \<Rightarrow> 'w \<Rightarrow> bool) \<Rightarrow> ('w \<Rightarrow> bool) \<Rightarrow> 'w ov_world \<Rightarrow> bool" where
  "ov_reachable C R G I s \<longleftrightarrow> (\<exists>w. I w \<and> (ov_step C R G)\<^sup>*\<^sup>* \<lparr>ow_repo = new_ov_repository, ow_rest = w\<rparr> s)"

lemma ov_reachable_repo: "ov_reachable C R G I s \<Longrightarrow> repo_ok (ow_repo s)"
  unfolding ov_reachable_def by (auto dest: kept_by_steps [OF kept_repo(1)])

lemma ov_reachable_ok: "ov_peers_ok C R G I P \<Longrightarrow> ov_reachable C R G I s \<Longrightarrow> ok_world I s"
proof -
  assume ok: "ov_peers_ok C R G I P" and "ov_reachable C R G I s"
  then obtain w where "I w" "(ov_step C R G)\<^sup>*\<^sup>* \<lparr>ow_repo = new_ov_repository, ow_rest = w\<rparr> s" by (auto simp: ov_reachable_def)
  then show "ok_world I s" using kept_by_steps [OF kept_ok [OF ok]] by fastforce
qed

lemma ov_exec_steps: "ov_peers_ok C R G I P \<Longrightarrow> ok_world I s \<Longrightarrow> (ov_step C R G)\<^sup>*\<^sup>* s (ov_exec K P now c s)"
  using svc_start_moves [of C R G I P K now] svc_finalize_slot_run [of C R G I P K now] svc_obsolete_before_moves [of C R G I P s now]
  by (cases c) (auto simp: moves_by_def run_ok_def)

lemma ov_exec_reachable: "ov_peers_ok C R G I P \<Longrightarrow> ov_reachable C R G I s \<Longrightarrow> ov_reachable C R G I (ov_exec K P now c s)"
  using ov_exec_steps ov_reachable_ok unfolding ov_reachable_def by (meson rtranclp_trans)

end
