(* ===== verification/Overview_Ledger.thy ===== *)
theory Overview_Ledger
  imports Overview_Runs
begin

text \<open>
  What the overview service relies on in the ledger, as a locale: a captured allocation stays captured, a released one
  stays released, whatever the rest of the world does. Then no bill of a reachable repository is recorded without
  its counterpart in the ledger. The interpretation is the gateway of the funds package.
\<close>

definition bill_matches :: "(string \<Rightarrow> 'w \<Rightarrow> bool) \<Rightarrow> (string \<Rightarrow> 'w \<Rightarrow> bool) \<Rightarrow> 'w \<Rightarrow> slot \<Rightarrow> bool" where
  "bill_matches C R w v \<longleftrightarrow> (sl_BillingStatus v = BillingCaptured \<longrightarrow> C (sl_AllocationID v) w) \<and>
     (sl_BillingStatus v = BillingReleased \<longrightarrow> R (sl_AllocationID v) w)"

text \<open>Batches whose slots have distinct identifiers: the identifiers are digests over the ordinal.\<close>

definition bills_match :: "(string \<Rightarrow> 'w \<Rightarrow> bool) \<Rightarrow> (string \<Rightarrow> 'w \<Rightarrow> bool) \<Rightarrow> 'w \<Rightarrow> ov_repo \<Rightarrow> bool" where
  "bills_match C R w r \<longleftrightarrow> (\<forall>b x. gget r b = Some x \<longrightarrow> distinct (map sl_ID (bt_Slots x)) \<longrightarrow> (\<forall>v \<in> set (bt_Slots x). bill_matches C R w v))"

section \<open>Methods that record no bill\<close>

definition bills_from :: "ov_repo \<Rightarrow> ov_repo \<Rightarrow> bool" where
  "bills_from r r' \<longleftrightarrow> (\<forall>b x'. gget r' b = Some x' \<longrightarrow> distinct (map sl_ID (bt_Slots x')) \<longrightarrow> (\<forall>v' \<in> set (bt_Slots x').
     sl_BillingStatus v' = BillingAuthorized \<or> (\<exists>x v. gget r b = Some x \<and> distinct (map sl_ID (bt_Slots x)) \<and> v \<in> set (bt_Slots x) \<and>
       sl_BillingStatus v = sl_BillingStatus v' \<and> sl_AllocationID v = sl_AllocationID v')))"

lemma bills_from_refl [simp]: "bills_from r r"
  by (auto simp: bills_from_def)

lemma bills_from_match:
  assumes "bills_from r r'" "bills_match C R w r"
  shows "bills_match C R w r'"
  unfolding bills_match_def
proof (intro allI impI ballI)
  fix b x' v'
  assume h: "gget r' b = Some x'" "distinct (map sl_ID (bt_Slots x'))" "v' \<in> set (bt_Slots x')"
  then consider "sl_BillingStatus v' = BillingAuthorized" | x v where "gget r b = Some x" "distinct (map sl_ID (bt_Slots x))" "v \<in> set (bt_Slots x)"
      "sl_BillingStatus v = sl_BillingStatus v'" "sl_AllocationID v = sl_AllocationID v'"
    using assms(1) unfolding bills_from_def by blast
  then show "bill_matches C R w v'"
  proof cases
    case 2
    then have "bill_matches C R w v" using assms(2) unfolding bills_match_def by blast
    then show ?thesis using 2(4,5) by (simp add: bill_matches_def)
  qed (simp add: bill_matches_def)
qed

lemma bills_from_put:
  assumes "gget r b = Some x" "distinct (map sl_ID (bt_Slots y)) \<Longrightarrow> distinct (map sl_ID (bt_Slots x))"
    and "\<And>v'. v' \<in> set (bt_Slots y) \<Longrightarrow> sl_BillingStatus v' = BillingAuthorized \<or>
      (\<exists>v \<in> set (bt_Slots x). sl_BillingStatus v = sl_BillingStatus v' \<and> sl_AllocationID v = sl_AllocationID v')"
  shows "bills_from r (gput b y r)"
  using assms unfolding bills_from_def by (auto split: if_splits)

lemma map_update_same: "n < length xs \<Longrightarrow> f v = f (xs ! n) \<Longrightarrow> map f (xs[n := v]) = map f xs"
  by (simp add: map_update list_update_same_conv)

lemma bills_from_slot:
  assumes "gget r b = Some x" "n < length (bt_Slots x)" "bt_Slots y = (bt_Slots x)[n := v]" "sl_ID v = sl_ID (bt_Slots x ! n)"
    "sl_BillingStatus v = sl_BillingStatus (bt_Slots x ! n)" "sl_AllocationID v = sl_AllocationID (bt_Slots x ! n)"
  shows "bills_from r (gput b y r)"
proof (rule bills_from_put [OF assms(1)])
  show "distinct (map sl_ID (bt_Slots y)) \<Longrightarrow> distinct (map sl_ID (bt_Slots x))" using assms(2-4) by (simp add: map_update_same)
  fix v'
  assume "v' \<in> set (bt_Slots y)"
  then have "v' = v \<or> v' \<in> set (bt_Slots x)" using assms(3) set_update_subset_insert [of "bt_Slots x" n v] by auto
  then show "sl_BillingStatus v' = BillingAuthorized \<or>
      (\<exists>v \<in> set (bt_Slots x). sl_BillingStatus v = sl_BillingStatus v' \<and> sl_AllocationID v = sl_AllocationID v')"
    using assms(2,5,6) nth_mem by metis
qed

lemma get_or_create_bills: "fresh_batch draft \<Longrightarrow> bills_from r (fst (get_or_create_batch draft r))"
  by (auto simp: get_or_create_batch_def bills_from_def fresh_batch_def fresh_slot_def split: option.splits)

lemma record_dispatched_bills: "bills_from r (fst (record_dispatched now b i r))"
proof (cases "locate_slot b i r")
  case (Inr y)
  obtain x v n where y: "y = (x, v, n)" by (cases y)
  with Inr have l: "gget r b = Some x" "n < length (bt_Slots x)" "bt_Slots x ! n = v" by (simp_all add: locate_slot_Inr)
  have "bills_from r (gput b (put_slot now x n (v\<lparr>sl_Status := SlotDispatched, sl_UpdatedAt := now\<rparr>)) r)"
    using l by (intro bills_from_slot [OF l(1,2), where v = "v\<lparr>sl_Status := SlotDispatched, sl_UpdatedAt := now\<rparr>"]) simp_all
  then show ?thesis using Inr y by (simp add: record_dispatched_def Let_def)
qed (simp add: record_dispatched_def)

lemma record_validation_bills: "bills_from r (fst (record_validation now b i v0 h ref r))"
proof (cases "locate_slot b i r")
  case (Inr y)
  obtain x v n where y: "y = (x, v, n)" by (cases y)
  with Inr have l: "gget r b = Some x" "n < length (bt_Slots x)" "bt_Slots x ! n = v" by (simp_all add: locate_slot_Inr)
  let ?c = "checked_validation n h (bt_Slots x) v0"
  let ?v = "v\<lparr>sl_Validation := ?c, sl_ContentHash := h, sl_DeliverableRef := ref, sl_UpdatedAt := now,
     sl_Status := (if vl_Valid ?c then SlotValid else SlotInvalid)\<rparr>"
  have "bills_from r (gput b (finish_batch (put_slot now x n ?v)) r)" using l by (intro bills_from_slot [OF l(1,2), where v = ?v]) simp_all
  then show ?thesis using Inr y by (simp add: record_validation_def Let_def)
qed (simp add: record_validation_def)

lemma add_replacement_bills: "fresh_slot (sl_BatchID v) True v \<Longrightarrow> bills_from r (fst (add_replacement now b v r))"
proof (cases "gget r b")
  case (Some x)
  assume "fresh_slot (sl_BatchID v) True v"
  then have "bills_from r (gput b (x\<lparr>bt_ReplacementUsed := True, bt_Slots := bt_Slots x @ [v], bt_UpdatedAt := now\<rparr>) r)"
    by (intro bills_from_put [OF Some]) (auto simp: fresh_slot_def)
  then show ?thesis using Some by (auto simp: add_replacement_def Let_def split: option.splits)
qed (simp add: add_replacement_def)

lemma exhaust_replacement_bills: "bills_from r (fst (exhaust_replacement now b r))"
proof (cases "gget r b")
  case (Some x)
  have "bills_from r (gput b (finish_batch (x\<lparr>bt_ReplacementExhausted := True, bt_UpdatedAt := now\<rparr>)) r)"
    by (intro bills_from_put [OF Some]) auto
  then show ?thesis using Some by (simp add: exhaust_replacement_def Let_def)
qed (simp add: exhaust_replacement_def)

lemma mark_obsolete_bills: "bills_from r (fst (mark_obsolete_before now t w r))"
proof (cases "t = [] \<or> w < 1")
  case False
  show ?thesis unfolding bills_from_def
  proof (intro allI impI ballI disjI2)
    fix b x' v'
    assume h: "gget (fst (mark_obsolete_before now t w r)) b = Some x'" "distinct (map sl_ID (bt_Slots x'))" "v' \<in> set (bt_Slots x')"
    then obtain z where z: "gget r b = Some z" "x' = (if older_batch t w z then obsolete_batch now z else z)"
      unfolding mark_obsolete_get [OF False] by auto
    have "map sl_ID (bt_Slots x') = map sl_ID (bt_Slots z)" using z(2) by simp
    moreover have "\<exists>v \<in> set (bt_Slots z). sl_BillingStatus v = sl_BillingStatus v' \<and> sl_AllocationID v = sl_AllocationID v'"
      using h(3) z(2) by (auto split: if_splits)
    ultimately show "\<exists>x v. gget r b = Some x \<and> distinct (map sl_ID (bt_Slots x)) \<and> v \<in> set (bt_Slots x) \<and>
       sl_BillingStatus v = sl_BillingStatus v' \<and> sl_AllocationID v = sl_AllocationID v'" using h(2) z(1) by metis
  qed
qed (auto simp: mark_obsolete_before_def)

section \<open>The contract\<close>

locale allocation_ledger =
  fixes C R :: "string \<Rightarrow> 'w \<Rightarrow> bool" and G :: "'w \<Rightarrow> 'w \<Rightarrow> bool" and I :: "'w \<Rightarrow> bool"
  assumes rely_inv: "G w w' \<Longrightarrow> I w \<Longrightarrow> I w'"
    and captured_stays: "I w \<Longrightarrow> G w w' \<Longrightarrow> C k w \<Longrightarrow> C k w'"
    and released_stays: "I w \<Longrightarrow> G w w' \<Longrightarrow> R k w \<Longrightarrow> R k w'"
begin

lemma elsewhere_match: "I w \<Longrightarrow> G w w' \<Longrightarrow> bills_match C R w r \<Longrightarrow> bills_match C R w' r"
  unfolding bills_match_def bill_matches_def using captured_stays released_stays by blast

lemma billed_match:
  assumes "bills_match C R (ow_rest s) (ow_repo s)" "bill_backed C R b i status s"
  shows "bills_match C R (ow_rest s) (fst (record_billing now b i status (ow_repo s)))"
proof (cases "locate_slot b i (ow_repo s)")
  case (Inr y)
  obtain x v n where y: "y = (x, v, n)" by (cases y)
  note l' = Inr [unfolded y]
  then have l: "gget (ow_repo s) b = Some x" "n < length (bt_Slots x)" "bt_Slots x ! n = v" by (simp_all add: locate_slot_Inr)
  show ?thesis
  proof (cases "may_bill x v status")
    case True
    let ?v = "v\<lparr>sl_BillingStatus := status, sl_UpdatedAt := now\<rparr>"
    have "bill_matches C R (ow_rest s) w" if "distinct (map sl_ID (bt_Slots x))" "w \<in> set ((bt_Slots x)[n := ?v])" for w
    proof (cases "w = ?v")
      case True
      then show ?thesis using assms(2) l' that(1) by (simp add: bill_backed_def bill_matches_def)
    next
      case False
      then have "w \<in> set (bt_Slots x)" using that(2) set_update_subset_insert [of "bt_Slots x" n ?v] by auto
      then show ?thesis using assms(1) l(1) that(1) by (auto simp: bills_match_def)
    qed
    then show ?thesis unfolding record_billing_bills [OF l' True] bills_match_def
      using assms(1) l(2,3) by (auto simp: bills_match_def map_update_same split: if_splits)
  qed (use assms(1) record_billing_idle [OF l'] in simp)
qed (use assms(1) in \<open>simp add: record_billing_def\<close>)

lemma step_match:
  "ov_step C R G s s' \<Longrightarrow> I (ow_rest s) \<and> bills_match C R (ow_rest s) (ow_repo s) \<Longrightarrow> I (ow_rest s') \<and> bills_match C R (ow_rest s') (ow_repo s')"
  by (induction rule: ov_step.induct)
    (auto intro: billed_match elsewhere_match rely_inv bills_from_match [OF get_or_create_bills] bills_from_match [OF record_dispatched_bills]
      bills_from_match [OF record_validation_bills] bills_from_match [OF add_replacement_bills] bills_from_match [OF exhaust_replacement_bills]
      bills_from_match [OF mark_obsolete_bills])

lemma reachable_match: "ov_reachable C R G I s \<Longrightarrow> bills_match C R (ow_rest s) (ow_repo s)"
proof -
  assume "ov_reachable C R G I s"
  then obtain w where "I w" "(ov_step C R G)\<^sup>*\<^sup>* \<lparr>ow_repo = new_ov_repository, ow_rest = w\<rparr> s" by (auto simp: ov_reachable_def)
  moreover have "kept_by (ov_step C R G) (\<lambda>s. I (ow_rest s) \<and> bills_match C R (ow_rest s) (ow_repo s))"
    unfolding kept_by_def using step_match by blast
  ultimately show ?thesis using kept_by_steps by (fastforce simp: bills_match_def new_ov_repository_def)
qed

end

section \<open>The funds package keeps it\<close>

definition ledger_captured :: "string \<Rightarrow> funds_repo \<times> 'x \<Rightarrow> bool" where
  "ledger_captured k w \<longleftrightarrow> (\<exists>a. gget (fm_allocations (fst w)) k = Some a \<and> al_Status a = AllocationCaptured)"

definition ledger_released :: "string \<Rightarrow> funds_repo \<times> 'x \<Rightarrow> bool" where
  "ledger_released k w \<longleftrightarrow> (\<exists>a. gget (fm_allocations (fst w)) k = Some a \<and> al_Status a = AllocationReleased)"

definition ledger_moves :: "funds_env \<Rightarrow> funds_repo \<times> 'x \<Rightarrow> funds_repo \<times> 'x \<Rightarrow> bool" where
  "ledger_moves E w w' \<longleftrightarrow> (funds_env_step E)\<^sup>*\<^sup>* (fst w) (fst w')"

definition ledger_inv :: "funds_repo \<times> 'x \<Rightarrow> bool" where
  "ledger_inv w \<longleftrightarrow> funds_inv (fst w)"

lemma env_steps_inv: "(funds_env_step E)\<^sup>*\<^sup>* r r' \<Longrightarrow> funds_inv r \<Longrightarrow> funds_inv r'"
  by (induction rule: rtranclp_induct) (auto intro: env_inv)

lemma env_steps_final:
  assumes "(funds_env_step E)\<^sup>*\<^sup>* r r'" "funds_inv r" "gget (fm_allocations r) k = Some a" "al_Status a \<noteq> AllocationAuthorized"
  shows "gget (fm_allocations r') k = Some a"
  using assms
proof (induction rule: rtranclp_induct)
  case (step s t)
  then show ?case using alloc_stays_final [OF env_steps [OF env_steps_inv]] by blast
qed

interpretation funds_ledger: allocation_ledger ledger_captured ledger_released "ledger_moves E" ledger_inv for E
proof
  fix w w' :: "funds_repo \<times> 'x" and k
  assume g: "ledger_moves E w w'"
  show "ledger_inv w \<Longrightarrow> ledger_inv w'" using g env_steps_inv by (auto simp: ledger_moves_def ledger_inv_def)
  assume i: "ledger_inv w"
  show "ledger_captured k w \<Longrightarrow> ledger_captured k w'" "ledger_released k w \<Longrightarrow> ledger_released k w'"
    using env_steps_final [OF g [unfolded ledger_moves_def] i [unfolded ledger_inv_def]]
    by (fastforce simp: ledger_captured_def ledger_released_def)+
qed

text \<open>The gateway as the allocation calls of the service.\<close>

definition via_funds :: "(funds_repo \<Rightarrow> funds_repo \<times> (funds_error + 'a)) \<Rightarrow> ((funds_repo \<times> 'x) ov_world, overview_error, 'a) call" where
  "via_funds f s = (case f (fst (ow_rest s)) of (r, a) \<Rightarrow> (s\<lparr>ow_rest := (r, snd (ow_rest s))\<rparr>, map_sum OErrFunds id a))"

definition with_funds :: "funds_env \<Rightarrow> gotime \<Rightarrow> (funds_repo \<times> 'x) ov_peers \<Rightarrow> (funds_repo \<times> 'x) ov_peers" where
  "with_funds E now X = X\<lparr>op_authorize := (\<lambda>q. via_funds (gateway_authorize E now q)), op_capture := (\<lambda>k c. via_funds (gateway_capture E now k c)),
     op_release := (\<lambda>k c. via_funds (gateway_release E now k c))\<rparr>"

lemma via_funds_run:
  fixes C R :: "string \<Rightarrow> funds_repo \<times> 'x \<Rightarrow> bool"
  assumes "\<And>r. funds_env_step E r (fst (f r))" "\<And>r r' y. funds_inv r \<Longrightarrow> f r = (r', Inr y) \<Longrightarrow> T r'"
  shows "run_ok (ov_step C R (ledger_moves E)) (\<lambda>s. ledger_inv (ow_rest s)) (via_funds f) (\<lambda>r s. \<forall>y. r = Inr y \<longrightarrow> T (fst (ow_rest s)))"
proof (rule run_okI)
  fix s s' :: "(funds_repo \<times> 'x) ov_world" and r
  assume i: "ledger_inv (ow_rest s)" and v: "via_funds f s = (s', r)"
  obtain q a where f: "f (fst (ow_rest s)) = (q, a)" by (cases "f (fst (ow_rest s))")
  then have s': "s' = s\<lparr>ow_rest := (q, snd (ow_rest s))\<rparr>" "r = map_sum OErrFunds id a" using v by (auto simp: via_funds_def)
  have "ledger_moves E (ow_rest s) (q, snd (ow_rest s))" using assms(1) [of "fst (ow_rest s)"] f by (simp add: ledger_moves_def)
  then have "ov_step C R (ledger_moves E) s s'" unfolding s' by (rule ov_step.elsewhere)
  moreover have "\<forall>y. r = Inr y \<longrightarrow> T (fst (ow_rest s'))"
    using assms(2) i f s' by (cases a) (auto simp: ledger_inv_def)
  ultimately show "(ov_step C R (ledger_moves E))\<^sup>*\<^sup>* s s' \<and> (\<forall>y. r = Inr y \<longrightarrow> T (fst (ow_rest s')))" by blast
qed

lemma gateway_steps:
  "funds_env_step E r (fst (gateway_authorize E now q r))" "funds_env_step E r (fst (gateway_capture E now k c r))"
  "funds_env_step E r (fst (gateway_release E now k d r))"
proof -
  have "fst (gateway_authorize E now q r) = fst (funds_exec E now (CAuthorize (to_authorization q)) r)"
    "fst (gateway_capture E now k c r) = fst (funds_exec E now (CCapture k (to_capture c)) r)"
    "fst (gateway_release E now k d r) = fst (funds_exec E now (CRelease k d) r)"
    by (auto simp: gateway_authorize_def gateway_capture_def gateway_release_def split: prod.splits sum.splits)
  then show "funds_env_step E r (fst (gateway_authorize E now q r))" "funds_env_step E r (fst (gateway_capture E now k c r))"
    "funds_env_step E r (fst (gateway_release E now k d r))" unfolding funds_env_step_def by blast+
qed

lemma gateway_capture_settles:
  assumes "funds_inv r" "gateway_capture E now k c r = (r', Inr y)"
  shows "\<exists>a. gget (fm_allocations r') k = Some a \<and> al_Status a = AllocationCaptured"
proof -
  from assms(2) obtain al f where s: "svc_capture_overview E now k (to_capture c) r = (r', Inr (al, f))"
    by (auto simp: gateway_capture_def split: prod.splits sum.splits)
  show ?thesis
  proof (cases f)
    case True
    then show ?thesis using s
      by (auto simp: svc_capture_overview_eq capture_overview_def Let_def split: if_splits option.splits sum.splits prod.splits)
  next
    case False
    then show ?thesis using capture.step_settles [OF assms(1), of E now "(k, to_capture c)"] s by (auto simp: capture_settled_def)
  qed
qed

lemma gateway_release_settles:
  assumes "funds_inv r" "gateway_release E now k c r = (r', Inr y)"
  shows "\<exists>a. gget (fm_allocations r') k = Some a \<and> al_Status a = AllocationReleased"
proof -
  from assms(2) obtain al f where s: "svc_release_overview E now k c r = (r', Inr (al, f))"
    by (auto simp: gateway_release_def split: prod.splits sum.splits)
  show ?thesis
  proof (cases f)
    case True
    then show ?thesis using s
      by (auto simp: svc_release_overview_def release_overview_def Let_def split: if_splits option.splits sum.splits prod.splits)
  next
    case False
    then show ?thesis using release.step_settles [OF assms(1), of E now "(k, c)"] s by (auto simp: release_settled_def)
  qed
qed

lemma with_funds_ok:
  fixes X :: "(funds_repo \<times> 'x) ov_peers"
  assumes "ov_peers_ok ledger_captured ledger_released (ledger_moves E) ledger_inv X"
  shows "ov_peers_ok ledger_captured ledger_released (ledger_moves E) ledger_inv (with_funds E now X)"
proof -
  let ?W = "ov_step ledger_captured ledger_released (ledger_moves E) :: (funds_repo \<times> 'x) ov_world \<Rightarrow> (funds_repo \<times> 'x) ov_world \<Rightarrow> bool"
  have "moves_by ?W (via_funds (gateway_authorize E now q))" for q
    using gateway_steps(1) by (intro moves_step r_into_rtranclp)
      (auto simp: via_funds_def ledger_moves_def split: prod.split intro!: ov_step.elsewhere r_into_rtranclp dest: arg_cong [where f = fst]; metis fst_conv)
  moreover have "run_ok ?W (\<lambda>s. ledger_inv (ow_rest s)) (via_funds (gateway_capture E now k c))
      (\<lambda>r s. \<forall>y. r = Inr y \<longrightarrow> ledger_captured k (ow_rest s))" for k c
    unfolding ledger_captured_def using gateway_capture_settles by (intro via_funds_run gateway_steps) blast
  moreover have "run_ok ?W (\<lambda>s. ledger_inv (ow_rest s)) (via_funds (gateway_release E now k c))
      (\<lambda>r s. \<forall>y. r = Inr y \<longrightarrow> ledger_released k (ow_rest s))" for k c
    unfolding ledger_released_def using gateway_release_settles by (intro via_funds_run gateway_steps) blast
  ultimately show ?thesis using assms by (simp add: ov_peers_ok_def with_funds_def)
qed

end
