(* ===== verification/Overview_Properties.thy ===== *)
theory Overview_Properties
  imports Overview_Ledger Funds_Properties Execution_Service
begin

text \<open>The properties of the overview package, after the facts about release reasons and the concrete values their witnesses evaluate.\<close>

text \<open>
  The reasons of a release, which the service builds from the codes of the validation and the ledger checks against
  its pattern; and what one failed \<open>RecordDispatched\<close> does to the rest of a dispatch.
\<close>

section \<open>Reasons\<close>

definition plain_code :: "string \<Rightarrow> bool" where
  "plain_code c \<longleftrightarrow> c \<noteq> [] \<and> list_all (\<lambda>d. is_lower d \<or> d = CHR ''_'') c \<and> is_lower (hd c)"

lemma join_comma_length: "length (join_comma cs) \<le> sum_list (map (\<lambda>c. Suc (length c)) cs)"
  by (induction cs rule: join_comma.induct) auto

lemma join_comma_length1: "cs \<noteq> [] \<Longrightarrow> Suc (length (join_comma cs)) \<le> sum_list (map (\<lambda>c. Suc (length c)) cs)"
  by (induction cs rule: join_comma.induct) auto

lemma join_comma_chars:
  "list_all plain_code cs \<Longrightarrow> list_all (\<lambda>d. is_lower d \<or> is_digit d \<or> d \<in> set ''_,.-'') (join_comma cs)"
proof (induction cs rule: join_comma.induct)
  case (2 c)
  then show ?case by (auto simp: plain_code_def list_all_iff)
next
  case (3 c d cs)
  then show ?case by (auto simp: plain_code_def list_all_iff)
qed simp

lemma join_comma_hd: "cs \<noteq> [] \<Longrightarrow> list_all plain_code cs \<Longrightarrow> join_comma cs \<noteq> [] \<and> is_lower (hd (join_comma cs))"
  by (cases cs rule: join_comma.cases) (auto simp: plain_code_def)

lemma join_comma_safe:
  assumes "cs \<noteq> []" "list_all plain_code cs" "sum_list (map (\<lambda>c. Suc (length c)) cs) \<le> 257"
  shows "safe_code (join_comma cs)"
proof -
  obtain d ds where j: "join_comma cs = d # ds" using join_comma_hd [OF assms(1,2)] by (cases "join_comma cs") auto
  have "is_lower d" using join_comma_hd [OF assms(1,2)] j by simp
  moreover have "length ds \<le> 255" using join_comma_length1 [OF assms(1)] assms(3) j by simp
  moreover have "list_all (\<lambda>d. is_lower d \<or> is_digit d \<or> d \<in> set ''_,.-'') ds" using join_comma_chars [OF assms(2)] j by simp
  ultimately show ?thesis unfolding safe_code_def j list.case by blast
qed

lemma sum_remdups_adj: "sum_list (map f (remdups_adj xs)) \<le> sum_list (map (f :: 'a \<Rightarrow> nat) xs)"
  by (induction xs rule: remdups_adj.induct) auto

lemma sum_sorted: "sum_list (map (f :: string \<Rightarrow> nat) (sort_func strcmp xs)) = sum_list (map f xs)"
  by (metis mset_map mset_sort_func sum_mset_sum_list)

lemma when_code_sum: "sum_list (map (\<lambda>c. Suc (length c)) (when_code b c)) \<le> Suc (length c)"
  by (simp add: when_code_def)

lemma document_codes_sum: "sum_list (map (\<lambda>c. Suc (length c)) (document_codes d)) \<le> 162"
  unfolding document_codes_def when_code_def by simp

lemma artifact_codes_sum:
  assumes "h = sha_string (H body)" "length body \<le> MaxArtifactBytes"
  shows "sum_list (map (\<lambda>c. Suc (length c)) (artifact_codes H decode body h t d ev tools)) \<le> 244"
proof -
  have "sum_list (map (\<lambda>c. Suc (length c)) (case decode body of None \<Rightarrow> [''format_invalid''] | Some d \<Rightarrow> document_codes d)) \<le> 162"
    using document_codes_sum by (simp split: option.split)
  moreover have "artifact_codes H decode body h t d ev tools = (case decode body of None \<Rightarrow> [''format_invalid''] | Some d \<Rightarrow> document_codes d) @
     when_code (t > d) ''deadline_exceeded'' @ when_code (\<not> te_Complete ev) ''tool_evidence_missing'' @
     when_code (te_ExternalWriteAttempts ev > 0) ''external_write_attempted'' @ when_code (list_ex (\<lambda>t. t \<notin> set tools) (te_Tools ev)) ''tool_not_allowed''"
    using assms by (simp add: artifact_codes_def when_code_def)
  moreover have "sum_list (map (\<lambda>c. Suc (length c)) (when_code (t > d) ''deadline_exceeded'')) \<le> 18"
    "sum_list (map (\<lambda>c. Suc (length c)) (when_code (\<not> te_Complete ev) ''tool_evidence_missing'')) \<le> 22"
    "sum_list (map (\<lambda>c. Suc (length c)) (when_code (te_ExternalWriteAttempts ev > 0) ''external_write_attempted'')) \<le> 25"
    "sum_list (map (\<lambda>c. Suc (length c)) (when_code (list_ex (\<lambda>t. t \<notin> set tools) (te_Tools ev)) ''tool_not_allowed'')) \<le> 17"
    by (simp_all add: when_code_def)
  ultimately show ?thesis by simp
qed

lemma plain_codes:
  "list_all plain_code [''artifact_too_large'', ''content_hash_mismatch'', ''format_invalid'', ''schema_version_invalid'',
     ''understanding_summary_invalid'', ''approach_invalid'', ''deliverable_structure_invalid'', ''key_risks_invalid'',
     ''estimated_duration_invalid'', ''sample_too_large'', ''deadline_exceeded'', ''tool_evidence_missing'',
     ''external_write_attempted'', ''tool_not_allowed'']"
  by (simp add: plain_code_def char_between_def)

lemma when_code_plain: "plain_code c \<Longrightarrow> list_all plain_code (when_code b c)"
  by (simp add: when_code_def)

lemma artifact_codes_plain: "list_all plain_code (artifact_codes H decode body h t d ev tools)"
  using plain_codes unfolding artifact_codes_def document_codes_def list_all_append list.pred_inject(2)
  by (auto simp: when_code_plain split: option.split)

text \<open>Codes of an artifact that has the announced digest and fits the limit make a reason the ledger accepts.\<close>

lemma validation_reason_safe:
  assumes "h = sha_string (H body)" "length body \<le> MaxArtifactBytes" "\<not> vl_Valid (validate_artifact H decode body h t d ev tools)"
  shows "safe_code (join_comma (vl_Codes (validate_artifact H decode body h t d ev tools)))"
proof -
  let ?a = "artifact_codes H decode body h t d ev tools"
  let ?c = "remdups_adj (sort_func strcmp ?a)"
  have "?c \<noteq> []" using assms(3) by (simp add: validate_artifact_def Let_def)
  moreover have "list_all plain_code ?c" using artifact_codes_plain [of H decode body h t d ev tools] by (simp add: list_all_iff)
  moreover have "sum_list (map (\<lambda>c. Suc (length c)) ?c) \<le> 257"
    using sum_remdups_adj [of "\<lambda>c. Suc (length c)" "sort_func strcmp ?a"] artifact_codes_sum [where h = h and H = H and body = body and decode = decode and t = t and d = d and ev = ev and tools = tools, OF assms(1,2)]
    by (simp only: sum_sorted)
  ultimately have "safe_code (join_comma ?c)" by (rule join_comma_safe)
  then show ?thesis by (simp add: validate_artifact_def Let_def)
qed

lemma gateway_release_succeeds:
  assumes "gget (fm_allocations r) k = Some a" "al_Status a = AllocationAuthorized" "\<not> blank k" "safe_code reason"
  shows "\<exists>r'. gateway_release E now k reason r = (r', Inr ((), False)) \<and> ledger_released k (r', ())"
  using assms by (auto simp: gateway_release_def svc_release_overview_def release_overview_authorized ledger_released_def store_allocation_def released_allocation_def)

section \<open>One failed record\<close>

lemma record_dispatched_nowhere: "gget r b = None \<Longrightarrow> record_dispatched now b i r = (r, Inl OErrNotFound)"
  by (simp add: record_dispatched_def locate_slot_def)

lemma record_outcomes_zero:
  assumes "gget (ow_repo s) [] = None"
  shows "record_outcomes now zero_batch es rs s =
    (s, zero_batch, es @ map (\<lambda>(i, r). case r of Inl e \<Rightarrow> e | Inr _ \<Rightarrow> OErrNotFound) rs)"
  using assms
proof (induction rs arbitrary: es)
  case (Cons p rs)
  obtain i q where p: "p = (i, q)" by (cases p)
  have "bt_ID zero_batch = []" by (simp add: zero_batch_def)
  then show ?case using Cons p by (cases q) (simp_all add: on_ov_repo_def record_dispatched_nowhere)
qed simp

text \<open>The properties of the overview component, with a batch of one slot whose reserve is in the demonstration ledger.\<close>

section \<open>A concrete batch\<close>

definition demo_ov_slot :: slot where
  "demo_ov_slot = \<lparr>sl_ID = ''s1'', sl_BatchID = ''b1'', sl_Ordinal = 1, sl_SourcePosition = 1, sl_Replacement = False, sl_AgentID = ''g'',
     sl_ProviderID = ''p'', sl_PriceVersion = 1, sl_QuoteHash = demo_digest, sl_OverviewPrice = ''60'', sl_ExternalCostCap = ''20'',
     sl_AllocationID = demo_alloc_id, sl_LogicalExecutionID = ''e1'', sl_Status = SlotPlanned, sl_BillingStatus = BillingAuthorized,
     sl_Validation = zero_validation, sl_ContentHash = [], sl_DeliverableRef = [], sl_CreatedAt = 3, sl_UpdatedAt = 3\<rparr>"

definition demo_ov_batch :: batch where
  "demo_ov_batch = \<lparr>bt_ID = ''b1'', bt_SnapshotID = ''n1'', bt_TaskID = ''t1'', bt_TaskSpecHash = demo_digest, bt_MatchRevision = 1,
     bt_AlgorithmVersion = FairShuffleAlgorithmVersion, bt_BriefRef = ''ref'', bt_BriefHash = demo_digest, bt_Deadline = 1000,
     bt_Status = BatchRunning, bt_ReplacementUsed = False, bt_ReplacementExhausted = False, bt_Slots = [demo_ov_slot], bt_CreatedAt = 3, bt_UpdatedAt = 3\<rparr>"

text \<open>The slot after it has been dispatched and found valid, and its batch.\<close>

definition demo_valid_slot :: slot where
  "demo_valid_slot = demo_ov_slot\<lparr>sl_Status := SlotValid, sl_Validation := \<lparr>vl_Valid = True, vl_Codes = []\<rparr>, sl_ContentHash := demo_digest,
     sl_DeliverableRef := ''d1'', sl_UpdatedAt := 5\<rparr>"

definition demo_ov_repo :: ov_repo where
  "demo_ov_repo = fst (record_validation 5 ''b1'' ''s1'' \<lparr>vl_Valid = True, vl_Codes = []\<rparr> demo_digest ''d1''
     (fst (record_dispatched 4 ''b1'' ''s1'' (fst (get_or_create_batch demo_ov_batch new_ov_repository)))))"

definition demo_ov_world :: "(funds_repo \<times> unit) ov_world" where
  "demo_ov_world = \<lparr>ow_repo = demo_ov_repo, ow_rest = (demo_repo, ())\<rparr>"

text \<open>Peers of which only the executions answer.\<close>

definition demo_ov_peers :: "'w ov_peers" where
  "demo_ov_peers = \<lparr>op_sha = (\<lambda>s. s), op_json = (\<lambda>s. None), op_url = (\<lambda>s. None), op_schedule = (\<lambda>xs. xs),
     op_snapshot = (\<lambda>i. sfail OErrNotFound), op_brief = (\<lambda>t h d. sfail OErrNotFound), op_target = (\<lambda>a v. sfail OErrNotFound),
     op_authorize = (\<lambda>q. sfail OErrNotFound), op_capture = (\<lambda>k c. sfail OErrNotFound), op_release = (\<lambda>k c. sfail OErrNotFound),
     op_create = (\<lambda>x. sfail OErrNotFound), op_dispatch = (\<lambda>i. sfail OErrNotFound), op_get = (\<lambda>i. sret (zero_execution\<lparr>ex_UsedCost := ''15''\<rparr>)),
     op_poll = (\<lambda>i. sfail OErrNotFound), op_deliverable = (\<lambda>i. sfail OErrNotFound), op_cancel = (\<lambda>i. sfail OErrNotFound),
     op_read = (\<lambda>a h n. sfail OErrNotFound), op_evidence = (\<lambda>i. sfail OErrNotFound)\<rparr>"

lemma run_sfail: "run_ok W A (sfail e) (\<lambda>r s. \<forall>y. r = Inr y \<longrightarrow> T s)"
  by (simp add: run_ok_def sfail_def)

lemma demo_ov_peers_ok: "(\<And>w w'. G w w' \<Longrightarrow> I w \<Longrightarrow> I w') \<Longrightarrow> ov_peers_ok C R G I demo_ov_peers"
  unfolding ov_peers_ok_def demo_ov_peers_def ov_peers.simps by (intro conjI allI run_sfail moves_basic) blast

lemma demo_ov_value: "demo_ov_repo = [(''b1'', demo_ov_batch\<lparr>bt_Slots := [demo_valid_slot], bt_UpdatedAt := 5\<rparr>)]"
  by (simp add: demo_ov_repo_def get_or_create_batch_def new_ov_repository_def record_dispatched_def record_validation_def locate_slot_def
      demo_ov_batch_def demo_ov_slot_def demo_valid_slot_def gget_def gput_def put_slot_def checked_validation_def duplicate_content_def Let_def
      finish_batch_def outstanding_def)

lemma demo_ov_fresh: "fresh_batch demo_ov_batch"
  by (simp add: fresh_batch_def fresh_slot_def demo_ov_batch_def demo_ov_slot_def)

lemma demo_ov_reachable: "ov_reachable ledger_captured ledger_released (ledger_moves demo_env) ledger_inv demo_ov_world"
proof -
  let ?W = "ov_step ledger_captured ledger_released (ledger_moves demo_env)"
  let ?s = "\<lambda>r. \<lparr>ow_repo = r, ow_rest = (demo_repo, ())\<rparr>"
  let ?a = "fst (get_or_create_batch demo_ov_batch new_ov_repository)"
  have "?W (?s new_ov_repository) (?s ?a)" using ov_step.created [OF demo_ov_fresh, of _ _ _ "?s new_ov_repository"] by simp
  moreover have "?W (?s ?a) (?s (fst (record_dispatched 4 ''b1'' ''s1'' ?a)))" using ov_step.dispatched [of _ _ _ "?s ?a"] by simp
  moreover have "?W (?s (fst (record_dispatched 4 ''b1'' ''s1'' ?a))) demo_ov_world"
    using ov_step.validated [of _ _ _ "?s (fst (record_dispatched 4 ''b1'' ''s1'' ?a))"] by (simp add: demo_ov_world_def demo_ov_repo_def)
  ultimately have "?W\<^sup>*\<^sup>* (?s new_ov_repository) demo_ov_world" by (meson rtranclp.rtrancl_into_rtrancl rtranclp.rtrancl_refl)
  moreover have "ledger_inv (demo_repo, ())" using demo_inv(1) by (simp add: ledger_inv_def)
  ultimately show ?thesis unfolding ov_reachable_def by blast
qed

definition demo_ov_config :: ov_config where
  "demo_ov_config = \<lparr>oc_MaximumDuration = hour_ns, oc_AllowedTools = [''search'']\<rparr>"

definition demo_ov_final :: "(funds_repo \<times> unit) ov_world" where
  "demo_ov_final = ov_exec demo_ov_config (with_funds demo_env 5 demo_ov_peers) 6 (OFinalize ''b1'' ''s1'') demo_ov_world"

lemma demo_slot_claim: "slot_claim (demo_ov_batch\<lparr>bt_Slots := [demo_valid_slot], bt_UpdatedAt := 5\<rparr>) demo_valid_slot (zero_execution\<lparr>ex_UsedCost := ''15''\<rparr>) = demo_billing"
  by (simp add: slot_claim_def demo_ov_batch_def demo_valid_slot_def demo_ov_slot_def demo_billing_def)

lemma demo_ov_final_repo:
  "ow_repo demo_ov_final = [(''b1'', demo_ov_batch\<lparr>bt_Slots := [demo_valid_slot\<lparr>sl_BillingStatus := BillingCaptured, sl_UpdatedAt := 6\<rparr>],
     bt_Status := BatchCompleted, bt_UpdatedAt := 6\<rparr>)]"
proof -
  let ?x = "demo_ov_batch\<lparr>bt_Slots := [demo_valid_slot], bt_UpdatedAt := 5\<rparr>"
  obtain r' where g: "gateway_capture demo_env 5 demo_alloc_id demo_billing demo_repo = (r', Inr ((), False))" using demo_gateway_capture ..
  have v: "sl_ID demo_valid_slot = ''s1''" "sl_Status demo_valid_slot = SlotValid" "sl_BillingStatus demo_valid_slot = BillingAuthorized"
    "sl_AllocationID demo_valid_slot = demo_alloc_id" by (simp_all add: demo_valid_slot_def demo_ov_slot_def)
  have x: "bt_ID ?x = ''b1''" "bt_Status ?x = BatchRunning" "bt_Slots ?x = [demo_valid_slot]" by (simp_all add: demo_ov_batch_def)
  have c: "op_get (with_funds demo_env 5 demo_ov_peers) i s = (s, Inr (zero_execution\<lparr>ex_UsedCost := ''15''\<rparr>))"
    "op_capture (with_funds demo_env 5 demo_ov_peers) k q s = via_funds (gateway_capture demo_env 5 k q) s" for i s k q
    by (simp_all add: with_funds_def demo_ov_peers_def sret_def)
  let ?y = "?x\<lparr>bt_Slots := [demo_valid_slot\<lparr>sl_BillingStatus := BillingCaptured, sl_UpdatedAt := 6\<rparr>], bt_Status := BatchCompleted, bt_UpdatedAt := 6\<rparr>"
  have b: "record_billing 6 ''b1'' ''s1'' BillingCaptured [(''b1'', ?x)] = ([(''b1'', ?y)], Inr ?y)"
    using v x by (simp add: record_billing_def locate_slot_def gget_def gput_def put_slot_def Let_def finish_batch_def outstanding_def rejected_def)
  have "svc_finalize_slot demo_ov_config (with_funds demo_env 5 demo_ov_peers) 6 ''b1'' ''s1'' demo_ov_world =
     (\<lparr>ow_repo = [(''b1'', ?y)], ow_rest = (r', ())\<rparr>, Inr ?y)"
    using v x g b demo_slot_claim
    by (simp add: svc_finalize_slot_def sbind_def smap_err_def sread_def slift_def get_batch_def gget_def demo_ov_world_def demo_ov_value find_slot_def
        settle_and_replace_def settle_slot_def c via_funds_def bill_slot_def on_ov_repo_def sret_def)
  then show ?thesis by (simp add: demo_ov_final_def demo_ov_batch_def)
qed

abbreviation demo_paid_slot :: slot where
  "demo_paid_slot \<equiv> demo_valid_slot\<lparr>sl_BillingStatus := BillingCaptured, sl_UpdatedAt := 6\<rparr>"

abbreviation demo_done_batch :: batch where
  "demo_done_batch \<equiv> demo_ov_batch\<lparr>bt_Slots := [demo_paid_slot], bt_Status := BatchCompleted, bt_UpdatedAt := 6\<rparr>"

lemma demo_final_batch:
  "gget (ow_repo (ov_exec demo_ov_config (with_funds demo_env 5 demo_ov_peers) 6 (OFinalize ''b1'' ''s1'') demo_ov_world)) ''b1'' = Some demo_done_batch"
  unfolding demo_ov_final_def [symmetric] demo_ov_final_repo gget_def by simp

lemma demo_gateway_peers:
  "ov_peers_ok ledger_captured ledger_released (ledger_moves demo_env) ledger_inv demo_ov_peers"
  "ov_peers_ok ledger_captured ledger_released (ledger_moves demo_env) ledger_inv (with_funds demo_env 5 demo_ov_peers)"
proof -
  show "ov_peers_ok ledger_captured ledger_released (ledger_moves demo_env) ledger_inv demo_ov_peers"
    by (rule demo_ov_peers_ok) (rule funds_ledger.rely_inv)
  then show "ov_peers_ok ledger_captured ledger_released (ledger_moves demo_env) ledger_inv (with_funds demo_env 5 demo_ov_peers)" by (rule with_funds_ok)
qed

section \<open>Properties\<close>

text \<open>
  C16: After any calls of the service, whatever other calls run in between, every batch is well formed: a slot that is
  planned or dispatched is unpaid and its batch is not obsolete; only a valid slot is captured, and a valid slot is
  released only in an obsolete batch; no two valid slots of a batch have the same content; there is at most one
  replacement; a completed batch has no slot outstanding, and its rejected slots were answered by a replacement or by
  the lack of one; and a snapshot has at most one batch.
\<close>
theorem batches_well_formed:
  assumes "ov_peers_ok C R G I P" "ov_reachable C R G I s"
  shows "(\<forall>b x. gget (ow_repo (ov_exec K P now c s)) b = Some x \<longrightarrow> bt_ID x = b \<and>
      (\<forall>v \<in> set (bt_Slots x). slot_ok (bt_Status x = BatchObsolete) b v) \<and> unique_content (bt_Slots x) \<and>
      length (filter sl_Replacement (bt_Slots x)) \<le> 1 \<and> (bt_Status x = BatchCompleted \<longrightarrow> settled x)) \<and>
    (\<forall>b b' x x'. gget (ow_repo (ov_exec K P now c s)) b = Some x \<longrightarrow> gget (ow_repo (ov_exec K P now c s)) b' = Some x' \<longrightarrow>
      bt_SnapshotID x = bt_SnapshotID x' \<longrightarrow> b = b')"
proof -
  have ok: "repo_ok (ow_repo (ov_exec K P now c s))" by (rule ov_reachable_repo [OF ov_exec_reachable [OF assms]])
  have "bt_ID x = b \<and> (\<forall>v \<in> set (bt_Slots x). slot_ok (bt_Status x = BatchObsolete) b v) \<and> unique_content (bt_Slots x) \<and>
      length (filter sl_Replacement (bt_Slots x)) \<le> 1 \<and> (bt_Status x = BatchCompleted \<longrightarrow> settled x)"
    if "gget (ow_repo (ov_exec K P now c s)) b = Some x" for b x
    using repo_okD [OF ok that] by (simp add: batch_ok_def batch_core_def)
  then show ?thesis using ok unfolding repo_ok_def by blast
qed

theorem batches_well_formed_witness:
  "settled demo_done_batch"
proof -
  from batches_well_formed [OF demo_gateway_peers(2) demo_ov_reachable, THEN conjunct1, rule_format, OF demo_final_batch]
  have "bt_Status demo_done_batch = BatchCompleted \<longrightarrow> settled demo_done_batch" by blast
  moreover have "bt_Status demo_done_batch = BatchCompleted" by simp
  ultimately show ?thesis by blast
qed

text \<open>
  C12: The bills of the batches and the ledger agree. With the gateway of the funds package as the allocation
  gateway, and any other calls to the ledger and to the service in between, a slot whose bill is recorded as
  captured has its allocation captured in the ledger, and one recorded as released has it released.
\<close>
theorem bills_match_ledger:
  assumes "ov_peers_ok ledger_captured ledger_released (ledger_moves E) ledger_inv X"
    and "ov_reachable ledger_captured ledger_released (ledger_moves E) ledger_inv s"
    and "gget (ow_repo (ov_exec K (with_funds E t X) now c s)) b = Some x" "distinct (map sl_ID (bt_Slots x))" "v \<in> set (bt_Slots x)"
  shows "(sl_BillingStatus v = BillingCaptured \<longrightarrow> (\<exists>a. gget (fm_allocations (fst (ow_rest (ov_exec K (with_funds E t X) now c s)))) (sl_AllocationID v) = Some a \<and>
      al_Status a = AllocationCaptured)) \<and>
    (sl_BillingStatus v = BillingReleased \<longrightarrow> (\<exists>a. gget (fm_allocations (fst (ow_rest (ov_exec K (with_funds E t X) now c s)))) (sl_AllocationID v) = Some a \<and>
      al_Status a = AllocationReleased))"
  using funds_ledger.reachable_match [OF ov_exec_reachable [OF with_funds_ok [OF assms(1)] assms(2)]] assms(3-5)
  unfolding bills_match_def bill_matches_def ledger_captured_def ledger_released_def by blast

theorem bills_match_ledger_witness:
  "\<exists>a. gget (fm_allocations (fst (ow_rest demo_ov_final))) demo_alloc_id = Some a \<and> al_Status a = AllocationCaptured"
proof -
  have "distinct (map sl_ID (bt_Slots demo_done_batch))" "demo_paid_slot \<in> set (bt_Slots demo_done_batch)" by simp_all
  from bills_match_ledger [OF demo_gateway_peers(1) demo_ov_reachable demo_final_batch this, THEN conjunct1]
  have "sl_BillingStatus demo_paid_slot = BillingCaptured \<longrightarrow>
    (\<exists>a. gget (fm_allocations (fst (ow_rest demo_ov_final))) (sl_AllocationID demo_paid_slot) = Some a \<and> al_Status a = AllocationCaptured)"
    unfolding demo_ov_final_def .
  moreover have "sl_AllocationID demo_paid_slot = demo_alloc_id" "sl_BillingStatus demo_paid_slot = BillingCaptured"
    by (simp_all add: demo_valid_slot_def demo_ov_slot_def)
  ultimately show ?thesis by metis
qed

text \<open>
  What has been decided stays. A call, with any other calls in between, keeps every batch with its plan and
  its deadline; its slots stay in their places with their plans, and new ones are only appended; a valid or invalid
  slot keeps its verdict, content and codes; a settled bill stays; a completed batch stays completed or becomes
  obsolete, and an obsolete one stays so.
\<close>
theorem batches_only_advance:
  assumes "ov_peers_ok C R G I P" "ov_reachable C R G I s" "gget (ow_repo s) b = Some x"
  shows "\<exists>x'. gget (ow_repo (ov_exec K P now c s)) b = Some x' \<and> batch_evolves x x'"
  using ov_steps_evolve [OF ov_exec_steps [OF assms(1) ov_reachable_ok [OF assms(1,2)]]] assms(3) unfolding repo_evolves_def by blast

theorem batches_only_advance_witness:
  "batch_evolves (demo_ov_batch\<lparr>bt_Slots := [demo_valid_slot], bt_UpdatedAt := 5\<rparr>) demo_done_batch"
proof -
  have g: "gget (ow_repo demo_ov_world) ''b1'' = Some (demo_ov_batch\<lparr>bt_Slots := [demo_valid_slot], bt_UpdatedAt := 5\<rparr>)"
    by (simp add: demo_ov_world_def demo_ov_value gget_def)
  from batches_only_advance [OF demo_gateway_peers(2) demo_ov_reachable g, of demo_ov_config 6 "OFinalize ''b1'' ''s1''"]
  show ?thesis unfolding demo_final_batch option.inject by blast
qed

text \<open>
  The gate. An artifact is valid exactly when it fits 64 KiB, has the announced digest, is one document of the
  schema with texts and lists within their limits, was completed in time, and comes with complete evidence of tools
  all allowed and no write attempted outside. The codes are the reasons, sorted, without repetition.
\<close>
theorem artifact_gate:
  "(vl_Valid (validate_artifact H decode body h t d ev tools) \<longleftrightarrow>
      length body \<le> MaxArtifactBytes \<and> h = sha_string (H body) \<and> (\<exists>doc. decode body = Some doc \<and> acceptable_document doc) \<and> t \<le> d \<and>
      te_Complete ev \<and> te_ExternalWriteAttempts ev \<le> 0 \<and> set (te_Tools ev) \<subseteq> set tools) \<and>
   set (vl_Codes (validate_artifact H decode body h t d ev tools)) = set (artifact_codes H decode body h t d ev tools) \<and>
   sorted_wrt (<) (vl_Codes (validate_artifact H decode body h t d ev tools))"
  by (intro conjI validate_artifact_valid validate_artifact_codes)

text \<open>
  A rejected overview is never stuck with its reserve. The service gives the joined codes as the reason of the
  release; for every artifact that has the announced digest and fits the limit (what its reader lets through), the
  ledger accepts that reason, and releases the authorized allocation.
\<close>
theorem rejected_is_releasable:
  assumes "h = sha_string (H body)" "length body \<le> MaxArtifactBytes" "\<not> vl_Valid (validate_artifact H decode body h t d ev tools)"
    and "gget (fm_allocations r) k = Some a" "al_Status a = AllocationAuthorized" "\<not> blank k"
  shows "\<exists>r'. gateway_release E now k (join_comma (vl_Codes (validate_artifact H decode body h t d ev tools))) r = (r', Inr ((), False)) \<and>
    ledger_released k (r', ())"
  by (rule gateway_release_succeeds [OF assms(4-6) validation_reason_safe [OF assms(1-3)]])

theorem rejected_is_releasable_witness:
  "\<exists>r'. gateway_release demo_env 6 demo_alloc_id (join_comma [''format_invalid'', ''tool_evidence_missing'']) demo_repo = (r', Inr ((), False))"
proof -
  let ?v = "validate_artifact (\<lambda>s. s) (\<lambda>s. None) ''x'' (sha_string ''x'') 1 2 \<lparr>te_Complete = False, te_Tools = [], te_ExternalWriteAttempts = 0\<rparr> [''search'']"
  have v: "vl_Codes ?v = [''format_invalid'', ''tool_evidence_missing'']" "\<not> vl_Valid ?v"
    by (simp_all add: validate_artifact_def artifact_codes_def when_code_def Let_def strcmp_def)
  have "\<not> blank demo_alloc_id" using demo_claim_ok by (simp add: capture_request_ok_def)
  from rejected_is_releasable [OF refl _ v(2) demo_allocation_at demo_allocation_facts(1) this, of demo_env 6] show ?thesis by (auto simp: v(1))
qed

text \<open>
  C38: One failed record loses the rest of the dispatch. When recording a dispatched slot fails, the loop goes on
  with the empty batch the failed call returned: every execution that was dispatched after it is looked up in a batch
  without an identifier, nothing more is recorded, and the batch returned is empty.
\<close>
theorem failed_record_loses_dispatches:
  assumes "record_dispatched now (bt_ID x) i (ow_repo s) = (ow_repo s, Inl e)" "gget (ow_repo s) [] = None"
  shows "record_outcomes now x [] ((i, Inr ()) # map (\<lambda>j. (j, Inr ())) js) s = (s, zero_batch, e # map (\<lambda>j. OErrNotFound) js)"
  using assms record_outcomes_zero [OF assms(2), of now "[e]" "map (\<lambda>j. (j, Inr ())) js"] by (simp add: on_ov_repo_def comp_def)

theorem failed_record_loses_dispatches_witness:
  "record_outcomes 7 (demo_ov_batch\<lparr>bt_Slots := [demo_ov_slot, demo_ov_slot\<lparr>sl_ID := ''s2''\<rparr>]\<rparr>) [] [(''s1'', Inr ()), (''s2'', Inr ())]
     (demo_ov_world\<lparr>ow_repo := [(''b1'', demo_ov_batch\<lparr>bt_Slots := [demo_valid_slot, demo_ov_slot\<lparr>sl_ID := ''s2''\<rparr>]\<rparr>)]\<rparr>) =
   (demo_ov_world\<lparr>ow_repo := [(''b1'', demo_ov_batch\<lparr>bt_Slots := [demo_valid_slot, demo_ov_slot\<lparr>sl_ID := ''s2''\<rparr>]\<rparr>)]\<rparr>, zero_batch, [OErrInvalidState, OErrNotFound])"
  (is "record_outcomes _ ?x _ _ ?s = _")
proof -
  have "record_dispatched 7 (bt_ID ?x) ''s1'' (ow_repo ?s) = (ow_repo ?s, Inl OErrInvalidState)"
    by (simp add: record_dispatched_def locate_slot_def gget_def demo_ov_batch_def demo_valid_slot_def demo_ov_slot_def)
  from failed_record_loses_dispatches [OF this, of "[''s2'']"] show ?thesis by (simp add: gget_def)
qed

end
