(* ===== verification/Escrow_Tables.thy ===== *)
theory Escrow_Tables
  imports Chain_Projector Sql_Ledger Identity
begin

text \<open>
  The tables that the chain store (\<open>internal/chain/postgres\<close>) and the funding service (\<open>internal/taskfunding\<close>) share:
  the blocks, transactions and events of the chain, the funding intents of the tasks with their attempts, the ledger,
  and of the tables of other packages the columns they read or write. A row is a record, a table a map by its primary
  key or the list of its rows. A transaction is a function to an error or the new tables (\<open>commit\<close> rolls back).
\<close>

section \<open>Rows\<close>

datatype escrow_error =
    EsSql sql_error \<comment> \<open>an error of the database that the store does not translate\<close>
  | EsNoRows \<comment> \<open>\<open>sql.ErrNoRows\<close> where the store does not translate it\<close>
  | EsInvalidText \<comment> \<open>a text that is no number in a numeric column\<close>
  | EsGap
  | EsPack \<comment> \<open>an error of \<open>abi.Arguments.Pack\<close>\<close>
  | EsMessage string \<comment> \<open>\<open>errors.New\<close> with this text\<close>
  | EfForbidden
  | EfNotFound
  | EfInvalidInput
  | EfInvalidState
  | EfConflict

record escrow_task =
  etk_PublisherID :: string
  etk_Status :: string
  etk_Deadline :: gotime
  etk_AggregateVersion :: int
  etk_DeletionRequestedAt :: "gotime option"
  etk_DeletedAt :: "gotime option"
  etk_UpdatedAt :: gotime
  etk_OverviewBudget :: string
  etk_FormalBudget :: string
  etk_ExternalCostCap :: string
  etk_SpecHash :: string \<comment> \<open>of the current version of the specification\<close>
  etk_SpecDeadline :: gotime

record funding_intent =
  fti_ID :: string
  fti_TaskID :: string
  fti_PublisherID :: string
  fti_PublisherWallet :: string
  fti_IdempotencyKey :: string
  fti_RequestHash :: string
  fti_ChainID :: string
  fti_ContractAddress :: string
  fti_AssetAddress :: string
  fti_ChainTaskID :: string
  fti_PlatformTaskKey :: string
  fti_TaskSpecHash :: string
  fti_FundingDeadline :: uint64
  fti_OverviewAmount :: string
  fti_FormalAmount :: string
  fti_ExternalCostAmount :: string
  fti_TotalAmount :: string
  fti_Status :: string
  fti_TransactionHash :: string
  fti_ChainEventID :: string
  fti_FailureReasonCode :: string
  fti_AggregateVersion :: int
  fti_CreatedAt :: gotime
  fti_UpdatedAt :: gotime

record funding_attempt =
  fat_ID :: string
  fat_IntentID :: string
  fat_ChainID :: string
  fat_ContractAddress :: string
  fat_TransactionHash :: string
  fat_State :: string
  fat_CreatedAt :: gotime
  fat_UpdatedAt :: gotime

record attempt_state =
  fas_AttemptID :: string
  fas_State :: string
  fas_ChainEventID :: string
  fas_ChainID :: string
  fas_ContractAddress :: string
  fas_BlockHash :: string
  fas_TransactionHash :: string
  fas_ReasonCode :: string
  fas_OccurredAt :: gotime

record intent_event =
  fie_IntentID :: string
  fie_AggregateVersion :: int
  fie_State :: string
  fie_TransactionHash :: string
  fie_ChainEventID :: string
  fie_ReasonCode :: string
  fie_OccurredAt :: gotime

record canonicalization =
  fcn_ChainEventID :: string
  fcn_Epoch :: int
  fcn_IntentID :: string
  fcn_AttemptID :: string
  fcn_JournalID :: string
  fcn_ReversalJournalID :: string
  fcn_CanonicalAt :: gotime
  fcn_OrphanedAt :: "gotime option"

record deployment =
  dpl_ChainID :: string
  dpl_Contract :: string
  dpl_Asset :: string
  dpl_DisputeResolver :: string
  dpl_ActiveForNewTasks :: bool

record escrow_reservation =
  ers_ID :: string
  ers_TaskID :: string
  ers_ChainID :: string
  ers_Contract :: string
  ers_ProofTaskID :: string
  ers_AgentController :: string
  ers_PayoutAddress :: string
  ers_Status :: string
  ers_FailureReasonCode :: string
  ers_CreatedAt :: gotime
  ers_UpdatedAt :: gotime

record escrow_assignment =
  eas_ID :: string
  eas_TaskID :: string
  eas_ReservationID :: string
  eas_TransactionHash :: string

record block_state =
  bst_ChainID :: string
  bst_Contract :: string
  bst_BlockHash :: string
  bst_State :: string
  bst_ReasonCode :: string
  bst_ObservedAt :: gotime

record transaction_row =
  txr_ChainID :: string
  txr_Contract :: string
  txr_BlockHash :: string
  txr_Hash :: string
  txr_Status :: string
  txr_InputHash :: string
  txr_SelectionCall :: bool
  txr_ObservedAt :: gotime

record event_row =
  evr_ChainID :: string
  evr_Contract :: string
  evr_Event :: event

record row_state =
  rst_ID :: string
  rst_State :: string
  rst_ReasonCode :: string
  rst_At :: gotime

type_synonym scope_key = "string \<times> string"

record escrow_db =
  es_ledger :: sql_ledger
  es_tasks :: "(string, escrow_task) gomap"
  es_intents :: "(string, funding_intent) gomap"
  es_attempts :: "(string, funding_attempt) gomap"
  es_attemptStates :: "attempt_state list"
  es_intentEvents :: "intent_event list"
  es_canonicalizations :: "canonicalization list"
  es_deployments :: "(scope_key, deployment) gomap"
  es_reservations :: "(string, escrow_reservation) gomap"
  es_assignments :: "(string, escrow_assignment) gomap"
  es_active :: "(string, string) gomap"
  es_assignmentStates :: "row_state list"
  es_cursors :: "(scope_key, uint64 \<times> string) gomap"
  es_blocks :: "(scope_key \<times> string, uint64 \<times> string) gomap" \<comment> \<open>by hash, the number and the parent\<close>
  es_canonical :: "(scope_key \<times> uint64, string) gomap"
  es_blockStates :: "block_state list"
  es_transactions :: "transaction_row list"
  es_events :: "(string, event_row) gomap"
  es_eventStates :: "row_state list"

type_synonym 'a escrow_tx = "escrow_db \<Rightarrow> escrow_error + 'a \<times> escrow_db"

definition commit :: "'a escrow_tx \<Rightarrow> escrow_db \<Rightarrow> escrow_db \<times> (escrow_error + 'a)" where
  "commit f d = (case f d of Inl e \<Rightarrow> (d, Inl e) | Inr (x, d') \<Rightarrow> (d', Inr x))"

definition es_lift :: "sql_error + 'a \<Rightarrow> escrow_error + 'a" where
  "es_lift x = map_sum EsSql id x"

definition scope_key :: "scope \<Rightarrow> scope_key" where
  "scope_key S = (so_ChainID S, so_Contract S)"

section \<open>Queries\<close>

text \<open>\<open>value, _ := event.Payload[name].(string)\<close>: the empty string for a value that is missing or no string.\<close>

definition payload_text :: "event \<Rightarrow> string \<Rightarrow> string" where
  "payload_text v name = (case gget (ve_Payload v) name of Some (PText s) \<Rightarrow> s | _ \<Rightarrow> [])"

definition intent_of_chain_task :: "scope \<Rightarrow> string \<Rightarrow> escrow_db \<Rightarrow> funding_intent option" where
  "intent_of_chain_task S chainTaskID d =
     find (\<lambda>t. fti_ChainID t = so_ChainID S \<and> fti_ContractAddress t = so_Contract S \<and> fti_ChainTaskID t = chainTaskID) (gvals (es_intents d))"

definition attempt_of_transaction :: "scope \<Rightarrow> string \<Rightarrow> escrow_db \<Rightarrow> funding_attempt option" where
  "attempt_of_transaction S h d =
     find (\<lambda>a. fat_ChainID a = so_ChainID S \<and> fat_ContractAddress a = so_Contract S \<and> fat_TransactionHash a = h) (gvals (es_attempts d))"

definition intent_of_task :: "string \<Rightarrow> escrow_db \<Rightarrow> funding_intent option" where
  "intent_of_task taskID d = find (\<lambda>t. fti_TaskID t = taskID) (gvals (es_intents d))"

definition formal_account :: "string \<Rightarrow> escrow_db \<Rightarrow> account_row option" where
  "formal_account taskID d = find (\<lambda>a. fa_TaskID a = taskID \<and> fa_Type a = ''formal_escrow'') (gvals (lg_accounts (es_ledger d)))"

definition canonical_block :: "scope \<Rightarrow> string \<Rightarrow> escrow_db \<Rightarrow> bool" where
  "canonical_block S h d \<longleftrightarrow> list_ex (\<lambda>((k, n), x). k = scope_key S \<and> x = h) (es_canonical d)"

definition block_events :: "scope \<Rightarrow> string \<Rightarrow> escrow_db \<Rightarrow> event list" where
  "block_events S h d =
     map evr_Event (filter (\<lambda>x. (evr_ChainID x, evr_Contract x) = scope_key S \<and> ve_BlockHash (evr_Event x) = h) (gvals (es_events d)))"

definition live_canonicalization :: "string \<Rightarrow> escrow_db \<Rightarrow> canonicalization option" where
  "live_canonicalization intentID d = find (\<lambda>c. fcn_IntentID c = intentID \<and> fcn_OrphanedAt c = None) (es_canonicalizations d)"

definition next_epoch :: "string \<Rightarrow> escrow_db \<Rightarrow> int" where
  "next_epoch eventID d = foldr (\<lambda>c m. if fcn_ChainEventID c = eventID then max (fcn_Epoch c) m else m) (es_canonicalizations d) 0 + 1"

section \<open>Updates\<close>

definition put_intent :: "funding_intent \<Rightarrow> escrow_db \<Rightarrow> escrow_db" where
  "put_intent t d = d\<lparr>es_intents := gput (fti_ID t) t (es_intents d)\<rparr>"

definition put_funding_attempt :: "funding_attempt \<Rightarrow> escrow_db \<Rightarrow> escrow_db" where
  "put_funding_attempt a d = d\<lparr>es_attempts := gput (fat_ID a) a (es_attempts d)\<rparr>"

definition with_ledger :: "escrow_db \<Rightarrow> sql_ledger \<Rightarrow> escrow_db" where
  "with_ledger d L = d\<lparr>es_ledger := L\<rparr>"

definition add_attempt_state :: "attempt_state \<Rightarrow> escrow_db \<Rightarrow> escrow_db" where
  "add_attempt_state s d = d\<lparr>es_attemptStates := es_attemptStates d @ [s]\<rparr>"

text \<open>A row of \<open>task_funding_attempt_states\<close> without a block.\<close>

definition plain_state :: "string \<Rightarrow> string \<Rightarrow> string \<Rightarrow> string \<Rightarrow> gotime \<Rightarrow> attempt_state" where
  "plain_state i state eventID reason now =
     \<lparr>fas_AttemptID = i, fas_State = state, fas_ChainEventID = eventID, fas_ChainID = [], fas_ContractAddress = [], fas_BlockHash = [],
      fas_TransactionHash = [], fas_ReasonCode = reason, fas_OccurredAt = now\<rparr>"

text \<open>The history of an intent has one row for each version; its identifier is a digest of intent, state and version.\<close>

definition insert_intent_event :: "intent_event \<Rightarrow> escrow_db \<Rightarrow> escrow_error + escrow_db" where
  "insert_intent_event e d =
     (if list_ex (\<lambda>x. fie_IntentID x = fie_IntentID e \<and> fie_AggregateVersion x = fie_AggregateVersion e) (es_intentEvents d)
      then Inl (EsSql UniqueViolation) else Inr (d\<lparr>es_intentEvents := es_intentEvents d @ [e]\<rparr>))"

text \<open>\<open>UPDATE tasks SET status = .. WHERE task_id = .. AND status <> ..\<close>\<close>

definition set_task_status :: "gotime \<Rightarrow> string \<Rightarrow> string \<Rightarrow> escrow_db \<Rightarrow> escrow_db" where
  "set_task_status now taskID status d =
     (case gget (es_tasks d) taskID of
        None \<Rightarrow> d
      | Some t \<Rightarrow>
          if etk_Status t = status then d
          else d\<lparr>es_tasks := gput taskID (t\<lparr>etk_Status := status, etk_AggregateVersion := etk_AggregateVersion t + 1, etk_UpdatedAt := now\<rparr>) (es_tasks d)\<rparr>)"

section \<open>The checks of the ledger\<close>

text \<open>The key of an asset matches \<open>^[a-z0-9][a-z0-9:/._-]{0,127}$\<close>.\<close>

definition asset_key_ok :: "string \<Rightarrow> bool" where
  "asset_key_ok x \<longleftrightarrow> x \<noteq> [] \<and> length x \<le> 128 \<and> (is_lower (hd x) \<or> is_digit (hd x)) \<and>
     list_all (\<lambda>c. is_lower c \<or> is_digit c \<or> c \<in> set '':/._-'') (tl x)"

text \<open>The checks on a row of \<open>fund_accounts\<close> (migrations 10 and 13): its class, its type, its asset, and what each class has.\<close>

definition account_shape_ok :: "account_row \<Rightarrow> bool" where
  "account_shape_ok a \<longleftrightarrow>
     fa_Reference a \<noteq> [] \<and> asset_key_ok (fa_Asset a) \<and>
     (fa_Class a = ''business'' \<and>
        fa_Type a \<in> set [''discovery_pool'', ''formal_escrow'', ''change_order_escrow'', ''dispute_fee_pool''] \<and>
        fa_TaskID a \<noteq> [] \<and> fa_PrincipalOwnerID a \<noteq> [] \<and> fa_ResidualRecipientID a \<noteq> [] \<and> fa_RefundPolicyVersion a \<noteq> [] \<and> 0 \<le> fa_Balance a \<or>
      fa_Class a = ''system'' \<and>
        fa_Type a \<in> set [''funding_control'', ''agent_receivable'', ''formal_agent_receivable'', ''external_cost_clearing''] \<and>
        fa_TaskID a = [] \<and> fa_PrincipalOwnerID a = [] \<and> fa_ResidualRecipientID a = [] \<and> fa_RefundPolicyVersion a = [])"

text \<open>The insert that gives way to a row with the same reference: the checks come first, then the keys.\<close>

definition upsert_account :: "account_row \<Rightarrow> sql_ledger \<Rightarrow> sql_error + sql_ledger" where
  "upsert_account a L = (if \<not> account_shape_ok a then Inl CheckViolation else ensure_account a L)"

end
