(* ===== verification/Escrow_Settlement.thy ===== *)
theory Escrow_Settlement
  imports Escrow_Tables
begin

text \<open>
  The projection of the escrow events onto the ledger (\<open>internal/chain/postgres/settlement.go\<close>): funding, release,
  withdrawal, refund and the outcomes of disputes each post one journal, and a block that leaves the canonical chain
  has its journals reversed. SHA-256 is a parameter.
\<close>

abbreviation settlement_digest :: "(string \<Rightarrow> string) \<Rightarrow> string list \<Rightarrow> string" where
  "settlement_digest \<equiv> stable_id"

section \<open>Journals\<close>

record settlement_entry =
  sen_AccountID :: string
  sen_AccountType :: string
  sen_Direction :: string
  sen_Amount :: string
  sen_Asset :: string

definition settlement_rows :: "string \<Rightarrow> gotime \<Rightarrow> settlement_entry list \<Rightarrow> entry_row list" where
  "settlement_rows j now es = map (\<lambda>(k, e). \<lparr>fe_JournalID = j, fe_Index = int k + 1, fe_AccountID = sen_AccountID e, fe_AccountType = sen_AccountType e,
     fe_Direction = sen_Direction e, fe_Amount = money_int (sen_Amount e), fe_Asset = sen_Asset e, fe_CreatedAt = now\<rparr>) (enumerate 0 es)"

text \<open>The identifier is checked by the table. A journal that was inserted before, by its idempotency key, is left as it is.\<close>

definition post_settlement :: "journal_row \<Rightarrow> gotime \<Rightarrow> settlement_entry list \<Rightarrow> sql_ledger \<Rightarrow> escrow_error + sql_ledger" where
  "post_settlement j now es L =
     (if \<not> valid_digest (fj_ID j) then Inl (EsSql CheckViolation)
      else rbind (es_lift (insert_journal j L)) (\<lambda>(fresh, L1).
        if \<not> fresh then Inr L1
        else if list_ex (\<lambda>e. \<not> is_amount (sen_Amount e)) es then Inl EsInvalidText
        else es_lift (insert_entries (settlement_rows (fj_ID j) now es) L1)))"

definition settlement_journal :: "string \<Rightarrow> string \<Rightarrow> string \<Rightarrow> string \<Rightarrow> string \<Rightarrow> gotime \<Rightarrow> journal_row" where
  "settlement_journal i journalType taskID sourceRef reason now =
     \<lparr>fj_ID = i, fj_IdempotencyKey = ''chain:'' @ i, fj_Type = journalType, fj_TaskID = taskID, fj_ReversalOf = [], fj_SourceRef = sourceRef,
      fj_ReasonCode = reason, fj_CreatedAt = now\<rparr>"

definition insert_settlement_journal ::
    "string \<Rightarrow> string \<Rightarrow> string \<Rightarrow> string \<Rightarrow> string \<Rightarrow> gotime \<Rightarrow> settlement_entry list \<Rightarrow> sql_ledger \<Rightarrow> escrow_error + sql_ledger" where
  "insert_settlement_journal i journalType taskID sourceRef reason now es =
     post_settlement (settlement_journal i journalType taskID sourceRef reason now) now es"

definition insert_settlement_reversal ::
    "string \<Rightarrow> string \<Rightarrow> string \<Rightarrow> gotime \<Rightarrow> settlement_entry list \<Rightarrow> sql_ledger \<Rightarrow> escrow_error + sql_ledger" where
  "insert_settlement_reversal i originalID taskID now es =
     post_settlement ((settlement_journal i ''reversal'' taskID originalID ''chain_reorganization'' now)\<lparr>fj_ReversalOf := originalID\<rparr>) now es"

definition transfer :: "string \<Rightarrow> string \<Rightarrow> string \<Rightarrow> string \<Rightarrow> string \<Rightarrow> string \<Rightarrow> settlement_entry list" where
  "transfer source sourceType target targetType amount asset =
     [\<lparr>sen_AccountID = source, sen_AccountType = sourceType, sen_Direction = ''debit'', sen_Amount = amount, sen_Asset = asset\<rparr>,
      \<lparr>sen_AccountID = target, sen_AccountType = targetType, sen_Direction = ''credit'', sen_Amount = amount, sen_Asset = asset\<rparr>]"

section \<open>The accounts\<close>

definition formal_escrow :: "(string \<Rightarrow> string) \<Rightarrow> gotime \<Rightarrow> string \<Rightarrow> string \<Rightarrow> string \<Rightarrow> account_row" where
  "formal_escrow H now taskID publisherID asset =
     \<lparr>fa_ID = settlement_digest H [''fund-account'', ''formal_escrow'', taskID, asset, ''double-entry-v1''], fa_Class = ''business'',
      fa_Type = ''formal_escrow'', fa_TaskID = taskID, fa_Reference = taskID, fa_Asset = asset, fa_PrincipalOwnerID = publisherID,
      fa_ResidualRecipientID = publisherID, fa_RefundPolicyVersion = ''task-funding-v3'', fa_State = ''open'', fa_Balance = 0,
      fa_CreatedAt = now, fa_UpdatedAt = now\<rparr>"

definition control_account :: "(string \<Rightarrow> string) \<Rightarrow> gotime \<Rightarrow> string \<Rightarrow> string \<Rightarrow> account_row" where
  "control_account H now reference asset =
     system_account (settlement_digest H [''fund-system-account'', ''funding_control'', asset, ''double-entry-v1'']) ''funding_control'' reference asset now"

definition receivable_account :: "(string \<Rightarrow> string) \<Rightarrow> gotime \<Rightarrow> string \<Rightarrow> string \<Rightarrow> account_row" where
  "receivable_account H now reference asset =
     system_account (settlement_digest H [''fund-system-account'', ''formal_agent_receivable'', reference, asset, ''double-entry-v1''])
       ''formal_agent_receivable'' reference asset now"

text \<open>The account of the dispute fees is inserted with the class \<open>task\<close>.\<close>

definition fee_account :: "(string \<Rightarrow> string) \<Rightarrow> gotime \<Rightarrow> string \<Rightarrow> string \<Rightarrow> account_row" where
  "fee_account H now taskID asset =
     \<lparr>fa_ID = settlement_digest H [''fund-task-account'', ''dispute_fee_pool'', taskID, asset, ''double-entry-v1''], fa_Class = ''task'',
      fa_Type = ''dispute_fee_pool'', fa_TaskID = taskID, fa_Reference = taskID, fa_Asset = asset, fa_PrincipalOwnerID = [],
      fa_ResidualRecipientID = [], fa_RefundPolicyVersion = [], fa_State = ''open'', fa_Balance = 0, fa_CreatedAt = now, fa_UpdatedAt = now\<rparr>"

definition upsert :: "account_row \<Rightarrow> escrow_db \<Rightarrow> escrow_error + escrow_db" where
  "upsert a d = rbind (es_lift (upsert_account a (es_ledger d))) (\<lambda>L. Inr (with_ledger d L))"

definition post :: "string \<Rightarrow> string \<Rightarrow> string \<Rightarrow> string \<Rightarrow> string \<Rightarrow> gotime \<Rightarrow> settlement_entry list \<Rightarrow> escrow_db \<Rightarrow> escrow_error + escrow_db" where
  "post i journalType taskID sourceRef reason now es d =
     rbind (insert_settlement_journal i journalType taskID sourceRef reason now es (es_ledger d)) (\<lambda>L. Inr (with_ledger d L))"

section \<open>Funding\<close>

definition funding_rows :: "scope \<Rightarrow> event \<Rightarrow> escrow_db \<Rightarrow> (funding_intent \<times> funding_attempt \<times> escrow_task) option" where
  "funding_rows S v d =
     (case (intent_of_chain_task S (ve_TaskID v) d, attempt_of_transaction S (ve_TransactionHash v) d) of
        (Some t, Some a) \<Rightarrow>
          if fat_IntentID a \<noteq> fti_ID t then None
          else map_option (\<lambda>k. (t, a, k)) (gget (es_tasks d) (fti_TaskID t))
      | _ \<Rightarrow> None)"

definition funding_asset :: "scope \<Rightarrow> funding_intent \<Rightarrow> escrow_db \<Rightarrow> escrow_error + string" where
  "funding_asset S t d =
     (let deployed = (case gget (es_deployments d) (fti_ChainID t, fti_ContractAddress t) of None \<Rightarrow> [] | Some x \<Rightarrow> dpl_Asset x);
          asset = ''evm:'' @ so_ChainID S @ ''/erc20:'' @ fti_AssetAddress t
      in if fti_AssetAddress t \<noteq> [] then
           (if deployed \<noteq> [] \<and> deployed \<noteq> asset then Inl (EsMessage ''escrow deployment asset does not match funding intent'') else Inr asset)
         else if deployed = [] then Inl (EsMessage ''legacy escrow deployment metadata is missing'') else Inr deployed)"

definition funding_journal_id :: "(string \<Rightarrow> string) \<Rightarrow> event \<Rightarrow> int \<Rightarrow> string" where
  "funding_journal_id H v epoch = settlement_digest H [''task-funding'', ve_ID v, ''epoch-'' @ bigint_string epoch, ''formal'']"

text \<open>The accounts and the journal of a funding.\<close>

definition fund_escrow ::
    "(string \<Rightarrow> string) \<Rightarrow> gotime \<Rightarrow> funding_intent \<Rightarrow> event \<Rightarrow> string \<Rightarrow> string \<Rightarrow> escrow_db \<Rightarrow> escrow_error + escrow_db" where
  "fund_escrow H now t v asset j d =
     (let formal = formal_escrow H now (fti_TaskID t) (fti_PublisherID t) asset; control = control_account H now asset asset in
      rbind (upsert formal d) (\<lambda>d1. rbind (upsert control d1) (\<lambda>d2.
      post j ''funding'' (fti_TaskID t) (ve_ID v) ''escrow_funded'' now
        (transfer (fa_ID control) ''funding_control'' (fa_ID formal) ''formal_escrow'' (fti_FormalAmount t) asset) d2)))"

definition insert_canonicalization :: "canonicalization \<Rightarrow> escrow_db \<Rightarrow> escrow_error + escrow_db" where
  "insert_canonicalization c d =
     (if list_ex (\<lambda>x. fcn_ChainEventID x = fcn_ChainEventID c \<and> fcn_Epoch x = fcn_Epoch c \<or> fcn_JournalID x = fcn_JournalID c \<or>
           fcn_IntentID x = fcn_IntentID c \<and> fcn_OrphanedAt x = None \<and> fcn_OrphanedAt c = None) (es_canonicalizations d)
      then Inl (EsSql UniqueViolation)
      else if gget (es_events d) (fcn_ChainEventID c) = None \<or> gget (lg_journals (es_ledger d)) (fcn_JournalID c) = None
      then Inl (EsSql ForeignKeyViolation)
      else Inr (d\<lparr>es_canonicalizations := es_canonicalizations d @ [c]\<rparr>))"

definition funded_status :: "gotime \<Rightarrow> escrow_task \<Rightarrow> string" where
  "funded_status now k =
     (if etk_Status k = ''chain_reorg_pending'' then etk_Status k
      else if \<not> now < etk_Deadline k then ''funding_refund_pending'' else ''escrowed'')"

definition fundable_status :: "string \<Rightarrow> bool" where
  "fundable_status s \<longleftrightarrow> s \<in> set [''pending_escrow'', ''escrowed'', ''funding_refund_pending'', ''chain_reorg_pending'']"

definition supersedable :: "string \<Rightarrow> funding_attempt \<Rightarrow> bool" where
  "supersedable intentID a \<longleftrightarrow> fat_IntentID a = intentID \<and> fat_State a \<in> set [''submitted'', ''observed_failed'', ''canonical_orphaned'']"

text \<open>The other attempts of the intent are superseded.\<close>

definition supersede_attempts :: "gotime \<Rightarrow> string \<Rightarrow> string \<Rightarrow> escrow_db \<Rightarrow> escrow_db" where
  "supersede_attempts now intentID attemptID d =
     d\<lparr>es_attemptStates := es_attemptStates d @
          map (\<lambda>a. plain_state (fat_ID a) ''superseded'' [] ''canonical_attempt_selected'' now)
            (filter (\<lambda>a. supersedable intentID a \<and> fat_ID a \<noteq> attemptID) (gvals (es_attempts d))),
       es_attempts := map (\<lambda>(k, a). (k, if supersedable intentID a \<and> fat_ID a \<noteq> attemptID then a\<lparr>fat_State := ''superseded'', fat_UpdatedAt := now\<rparr> else a))
         (es_attempts d)\<rparr>"

definition confirm_attempt :: "gotime \<Rightarrow> event \<Rightarrow> funding_attempt \<Rightarrow> escrow_db \<Rightarrow> escrow_db" where
  "confirm_attempt now v a d =
     add_attempt_state (plain_state (fat_ID a) ''canonical_confirmed'' (ve_ID v) ''confirmation_depth_reached'' now)
       (put_funding_attempt (a\<lparr>fat_State := ''canonical_confirmed'', fat_UpdatedAt := now\<rparr>) d)"

definition confirmed_intent :: "gotime \<Rightarrow> event \<Rightarrow> funding_intent \<Rightarrow> funding_intent" where
  "confirmed_intent now v t =
     t\<lparr>fti_Status := ''confirmed'', fti_TransactionHash := ve_TransactionHash v, fti_ChainEventID := ve_ID v, fti_FailureReasonCode := [],
       fti_AggregateVersion := fti_AggregateVersion t + 1, fti_UpdatedAt := now\<rparr>"

definition confirm_intent :: "gotime \<Rightarrow> event \<Rightarrow> string \<Rightarrow> funding_intent \<Rightarrow> escrow_db \<Rightarrow> escrow_error + escrow_db" where
  "confirm_intent now v target t d =
     (let t' = confirmed_intent now v t in
      insert_intent_event \<lparr>fie_IntentID = fti_ID t, fie_AggregateVersion = fti_AggregateVersion t', fie_State = ''confirmed'',
          fie_TransactionHash = ve_TransactionHash v, fie_ChainEventID = ve_ID v,
          fie_ReasonCode = (if target = ''funding_refund_pending'' then ''confirmation_after_business_deadline'' else ''confirmation_depth_reached''),
          fie_OccurredAt = now\<rparr> (put_intent t' d))"

text \<open>\<open>UPDATE tasks .. WHERE task_id = .. AND publisher_id = ..\<close>\<close>

definition fund_task :: "gotime \<Rightarrow> funding_intent \<Rightarrow> escrow_task \<Rightarrow> string \<Rightarrow> escrow_db \<Rightarrow> escrow_db" where
  "fund_task now t k target d = (if etk_PublisherID k = fti_PublisherID t then set_task_status now (fti_TaskID t) target d else d)"

definition apply_funding ::
    "(string \<Rightarrow> string) \<Rightarrow> gotime \<Rightarrow> scope \<Rightarrow> event \<Rightarrow> funding_intent \<Rightarrow> funding_attempt \<Rightarrow> escrow_task \<Rightarrow> escrow_db \<Rightarrow> escrow_error + escrow_db" where
  "apply_funding H now S v t a k d =
     rbind (funding_asset S t d) (\<lambda>asset.
     case live_canonicalization (fti_ID t) d of
       Some c \<Rightarrow> if fcn_ChainEventID c = ve_ID v then Inr d else Inl (EsMessage ''funding intent already has another canonical occurrence'')
     | None \<Rightarrow>
         let epoch = next_epoch (ve_ID v) d; j = funding_journal_id H v epoch; target = funded_status now k in
         rbind (fund_escrow H now t v asset j d) (\<lambda>d1.
         rbind (insert_canonicalization \<lparr>fcn_ChainEventID = ve_ID v, fcn_Epoch = epoch, fcn_IntentID = fti_ID t, fcn_AttemptID = fat_ID a,
             fcn_JournalID = j, fcn_ReversalJournalID = [], fcn_CanonicalAt = now, fcn_OrphanedAt = None\<rparr> d1) (\<lambda>d2.
         if \<not> fundable_status (etk_Status k) then Inl (EsMessage ''task funding requires explicit reorg recovery'')
         else confirm_intent now v target t
           (confirm_attempt now v a (supersede_attempts now (fti_ID t) (fat_ID a) (fund_task now t k target d2))))))"

definition project_created :: "(string \<Rightarrow> string) \<Rightarrow> gotime \<Rightarrow> scope \<Rightarrow> event \<Rightarrow> escrow_db \<Rightarrow> escrow_error + escrow_db" where
  "project_created H now S v d =
     (case funding_rows S v d of
        None \<Rightarrow> Inr d
      | Some (t, a, k) \<Rightarrow>
          if payload_text v ''publisher'' \<noteq> fti_PublisherWallet t \<or> payload_text v ''amount'' \<noteq> fti_TotalAmount t then Inr d
          else apply_funding H now S v t a k d)"

section \<open>Release and withdrawal\<close>

definition scope_reservations :: "scope \<Rightarrow> escrow_db \<Rightarrow> escrow_reservation list" where
  "scope_reservations S d = filter (\<lambda>r. ers_ChainID r = so_ChainID S \<and> ers_Contract r = so_Contract S) (gvals (es_reservations d))"

definition active_reservation :: "escrow_reservation \<Rightarrow> escrow_db \<Rightarrow> bool" where
  "active_reservation r d =
     (case gget (es_active d) (ers_TaskID r) of
        None \<Rightarrow> False
      | Some i \<Rightarrow> (case gget (es_assignments d) i of None \<Rightarrow> False | Some x \<Rightarrow> eas_ReservationID x = ers_ID r))"

definition earning_rows :: "scope \<Rightarrow> event \<Rightarrow> escrow_db \<Rightarrow> (string \<times> account_row) option" where
  "earning_rows S v d =
     (case find (\<lambda>r. ers_ProofTaskID r = ve_TaskID v \<and> ers_AgentController r = payload_text v ''agentController'' \<and>
            ers_PayoutAddress r = payload_text v ''payout'' \<and> active_reservation r d \<and> formal_account (ers_TaskID r) d \<noteq> None) (scope_reservations S d) of
        None \<Rightarrow> None
      | Some r \<Rightarrow> map_option (\<lambda>x. (ers_TaskID r, x)) (formal_account (ers_TaskID r) d))"

definition project_earnings :: "(string \<Rightarrow> string) \<Rightarrow> gotime \<Rightarrow> scope \<Rightarrow> event \<Rightarrow> escrow_db \<Rightarrow> escrow_error + escrow_db" where
  "project_earnings H now S v d =
     (let amount = payload_text v ''amount''; reference = payload_text v ''agentController'' @ '':'' @ payload_text v ''payout'' in
      case earning_rows S v d of
        None \<Rightarrow> Inl EsNoRows
      | Some (taskID, formal) \<Rightarrow>
          if amount = ''0'' then Inr (set_task_status now taskID ''settled'' d)
          else let receivable = receivable_account H now reference (fa_Asset formal) in
            rbind (upsert receivable d) (\<lambda>d1.
            rbind (post (ve_ID v) ''settlement_release'' taskID (ve_ID v) ''formal_accepted'' now
                (transfer (fa_ID formal) ''formal_escrow'' (fa_ID receivable) ''formal_agent_receivable'' amount (fa_Asset formal)) d1) (\<lambda>d2.
            Inr (set_task_status now taskID ''settled'' d2))))"

text \<open>The receivable of the agent that covers the withdrawal, by the oldest reservation.\<close>

definition covering_account :: "string \<Rightarrow> string \<Rightarrow> escrow_db \<Rightarrow> escrow_reservation \<Rightarrow> account_row option" where
  "covering_account reference amount d r =
     (case formal_account (ers_TaskID r) d of
        None \<Rightarrow> None
      | Some formal \<Rightarrow> find (\<lambda>a. fa_Type a = ''formal_agent_receivable'' \<and> fa_Reference a = reference \<and> fa_Asset a = fa_Asset formal \<and>
          fa_Balance a \<ge> money_int amount) (gvals (lg_accounts (es_ledger d))))"

definition withdrawal_account :: "scope \<Rightarrow> event \<Rightarrow> escrow_db \<Rightarrow> account_row option" where
  "withdrawal_account S v d =
     (let controller = payload_text v ''agentController''; payout = payload_text v ''payout'' in
      case concat (map (\<lambda>r. case covering_account (controller @ '':'' @ payout) (payload_text v ''amount'') d r of None \<Rightarrow> [] | Some a \<Rightarrow> [a])
          (sort_func (\<lambda>r s. ers_CreatedAt r - ers_CreatedAt s)
            (filter (\<lambda>r. ers_AgentController r = controller \<and> ers_PayoutAddress r = payout) (scope_reservations S d)))) of
        [] \<Rightarrow> None
      | a # _ \<Rightarrow> Some a)"

definition project_withdrawal :: "(string \<Rightarrow> string) \<Rightarrow> gotime \<Rightarrow> scope \<Rightarrow> event \<Rightarrow> escrow_db \<Rightarrow> escrow_error + escrow_db" where
  "project_withdrawal H now S v d =
     (let amount = payload_text v ''amount'' in
      if \<not> is_amount amount then Inl EsInvalidText
      else case withdrawal_account S v d of
        None \<Rightarrow> Inl EsNoRows
      | Some receivable \<Rightarrow>
          if amount = ''0'' then Inr d
          else let control = control_account H now ''funding'' (fa_Asset receivable) in
            rbind (upsert control d) (post (ve_ID v) ''earnings_withdrawal'' [] (ve_ID v) ''agent_withdrawal'' now
              (transfer (fa_ID receivable) ''formal_agent_receivable'' (fa_ID control) ''funding_control'' amount (fa_Asset receivable))))"

section \<open>Refunds and disputes\<close>

definition account_of_chain_task :: "scope \<Rightarrow> string \<Rightarrow> escrow_db \<Rightarrow> escrow_error + string \<times> account_row" where
  "account_of_chain_task S chainTaskID d =
     (case intent_of_chain_task S chainTaskID d of
        None \<Rightarrow> Inl EsNoRows
      | Some t \<Rightarrow> (case formal_account (fti_TaskID t) d of None \<Rightarrow> Inl EsNoRows | Some a \<Rightarrow> Inr (fti_TaskID t, a)))"

text \<open>Money of the escrow goes back to the funding control account.\<close>

definition refund_formal ::
    "(string \<Rightarrow> string) \<Rightarrow> gotime \<Rightarrow> event \<Rightarrow> string \<Rightarrow> account_row \<Rightarrow> string \<Rightarrow> string \<Rightarrow> escrow_db \<Rightarrow> escrow_error + escrow_db" where
  "refund_formal H now v taskID formal amount reason d =
     (let control = control_account H now ''funding'' (fa_Asset formal) in
      rbind (upsert control d) (post (ve_ID v) ''settlement_refund'' taskID (ve_ID v) reason now
        (transfer (fa_ID formal) ''formal_escrow'' (fa_ID control) ''funding_control'' amount (fa_Asset formal))))"

definition mark_refunded :: "gotime \<Rightarrow> string \<Rightarrow> escrow_db \<Rightarrow> escrow_db" where
  "mark_refunded now taskID d =
     (case gget (es_tasks d) taskID of
        None \<Rightarrow> d
      | Some t \<Rightarrow>
          if etk_Status t = ''refunded'' then d
          else d\<lparr>es_tasks := gput taskID (t\<lparr>etk_Status := ''refunded'',
                 etk_DeletedAt := (if etk_DeletionRequestedAt t \<noteq> None then Some now else etk_DeletedAt t),
                 etk_AggregateVersion := etk_AggregateVersion t + 1, etk_UpdatedAt := now\<rparr>) (es_tasks d)\<rparr>)"

definition project_refunded :: "(string \<Rightarrow> string) \<Rightarrow> gotime \<Rightarrow> scope \<Rightarrow> event \<Rightarrow> escrow_db \<Rightarrow> escrow_error + escrow_db" where
  "project_refunded H now S v d =
     (let amount = payload_text v ''amount'' in
      rbind (account_of_chain_task S (ve_TaskID v) d) (\<lambda>(taskID, formal).
      rbind (if amount \<noteq> ''0'' then refund_formal H now v taskID formal amount ''publisher_refund'' d else Inr d) (\<lambda>d1.
      Inr (mark_refunded now taskID d1))))"

definition dispute_rows :: "scope \<Rightarrow> event \<Rightarrow> escrow_db \<Rightarrow> (string \<times> string \<times> account_row) option" where
  "dispute_rows S v d =
     (case find (\<lambda>r. ers_ProofTaskID r = ve_TaskID v \<and> gget (es_active d) (ers_TaskID r) \<noteq> None \<and> formal_account (ers_TaskID r) d \<noteq> None)
          (scope_reservations S d) of
        None \<Rightarrow> None
      | Some r \<Rightarrow> map_option (\<lambda>x. (ers_TaskID r, ers_PayoutAddress r, x)) (formal_account (ers_TaskID r) d))"

text \<open>A resolution for the agent posts nothing here: its earnings have an event of their own.\<close>

definition project_resolved :: "(string \<Rightarrow> string) \<Rightarrow> gotime \<Rightarrow> scope \<Rightarrow> event \<Rightarrow> escrow_db \<Rightarrow> escrow_error + escrow_db" where
  "project_resolved H now S v d =
     (case dispute_rows S v d of
        None \<Rightarrow> Inr d
      | Some (taskID, payout, formal) \<Rightarrow>
          let amount = payload_text v ''amount'' in
          if payload_text v ''recipient'' = payout then Inr d
          else if amount = ''0'' then Inr (set_task_status now taskID ''refunded'' d)
          else rbind (refund_formal H now v taskID formal amount ''dispute_refund'' d) (\<lambda>d1. Inr (set_task_status now taskID ''refunded'' d1)))"

definition publisher_share ::
    "(string \<Rightarrow> string) \<Rightarrow> gotime \<Rightarrow> account_row \<Rightarrow> string \<Rightarrow> escrow_db \<Rightarrow> escrow_error + settlement_entry list \<times> escrow_db" where
  "publisher_share H now formal amount d =
     (if amount = ''0'' then Inr ([], d)
      else let control = control_account H now ''funding'' (fa_Asset formal) in
        rbind (upsert control d) (\<lambda>d1. Inr (transfer (fa_ID formal) ''formal_escrow'' (fa_ID control) ''funding_control'' amount (fa_Asset formal), d1)))"

definition fee_share ::
    "(string \<Rightarrow> string) \<Rightarrow> gotime \<Rightarrow> string \<Rightarrow> account_row \<Rightarrow> string \<Rightarrow> escrow_db \<Rightarrow> escrow_error + settlement_entry list \<times> escrow_db" where
  "fee_share H now taskID formal amount d =
     (if amount = ''0'' then Inr ([], d)
      else let fee = fee_account H now taskID (fa_Asset formal) in
        rbind (upsert fee d) (\<lambda>d1. Inr (transfer (fa_ID formal) ''formal_escrow'' (fa_ID fee) ''dispute_fee_pool'' amount (fa_Asset formal), d1)))"

definition allocation_status :: "string \<Rightarrow> string \<Rightarrow> string" where
  "allocation_status publisherAmount agentAmount =
     (if publisherAmount \<noteq> ''0'' \<and> agentAmount \<noteq> ''0'' then ''partially_settled'' else if publisherAmount \<noteq> ''0'' then ''refunded'' else ''settled'')"

definition project_allocation :: "(string \<Rightarrow> string) \<Rightarrow> gotime \<Rightarrow> scope \<Rightarrow> event \<Rightarrow> escrow_db \<Rightarrow> escrow_error + escrow_db" where
  "project_allocation H now S v d =
     rbind (account_of_chain_task S (ve_TaskID v) d) (\<lambda>(taskID, formal).
     rbind (publisher_share H now formal (payload_text v ''publisherAmount'') d) (\<lambda>(es1, d1).
     rbind (fee_share H now taskID formal (payload_text v ''feeAmount'') d1) (\<lambda>(es2, d2).
     rbind (if es1 @ es2 \<noteq> [] then post (ve_ID v) ''dispute_allocation'' taskID (ve_ID v) ''final_dispute_allocation'' now (es1 @ es2) d2 else Inr d2) (\<lambda>d3.
     Inr (set_task_status now taskID (allocation_status (payload_text v ''publisherAmount'') (payload_text v ''agentAmount'')) d3)))))"

definition project_settlement :: "(string \<Rightarrow> string) \<Rightarrow> gotime \<Rightarrow> scope \<Rightarrow> event \<Rightarrow> escrow_db \<Rightarrow> escrow_error + escrow_db" where
  "project_settlement H now S v d =
     (if ve_Type v = EventTaskCreated then project_created H now S v d
      else if ve_Type v = EventEarnings then project_earnings H now S v d
      else if ve_Type v = EventWithdrawal then project_withdrawal H now S v d
      else if ve_Type v = EventRefunded then project_refunded H now S v d
      else if ve_Type v = EventDisputeDone then project_resolved H now S v d
      else if ve_Type v = EventDisputeAlloc then project_allocation H now S v d
      else Inr d)"

section \<open>Reversal of a block\<close>

abbreviation reversible_types :: "string list" where
  "reversible_types \<equiv> [''funding'', ''settlement_release'', ''settlement_refund'', ''earnings_withdrawal'', ''change_order_release'',
     ''change_order_residual'', ''dispute_allocation'']"

definition is_reversed :: "string \<Rightarrow> sql_ledger \<Rightarrow> bool" where
  "is_reversed j L \<longleftrightarrow> list_ex (\<lambda>k. fj_ReversalOf k \<noteq> [] \<and> fj_ReversalOf k = j) (gvals (lg_journals L))"

text \<open>The journals the query finds, in the order of their identifiers; a journal without entries has no rows.\<close>

definition block_journals :: "scope \<Rightarrow> string \<Rightarrow> escrow_db \<Rightarrow> journal_row list" where
  "block_journals S h d =
     (let L = es_ledger d; ids = map ve_ID (block_events S h d) in
      sort_func (key_cmp fj_ID)
        (filter (\<lambda>j. fj_SourceRef j \<in> set ids \<and> fj_Type j \<in> set reversible_types \<and> \<not> is_reversed (fj_ID j) L \<and> entries_of (fj_ID j) L \<noteq> [])
          (gvals (lg_journals L))))"

definition inverse_entry :: "entry_row \<Rightarrow> settlement_entry" where
  "inverse_entry e =
     \<lparr>sen_AccountID = fe_AccountID e, sen_AccountType = fe_AccountType e,
      sen_Direction = (if fe_Direction e = ''credit'' then ''debit'' else ''credit''), sen_Amount = bigint_string (fe_Amount e), sen_Asset = fe_Asset e\<rparr>"

definition inverse_entries :: "string \<Rightarrow> sql_ledger \<Rightarrow> settlement_entry list" where
  "inverse_entries j L = map inverse_entry (sort_func (\<lambda>x y. fe_Index x - fe_Index y) (entries_of j L))"

definition reversal_id :: "(string \<Rightarrow> string) \<Rightarrow> string \<Rightarrow> string" where
  "reversal_id H j = settlement_digest H [''chain-settlement-reversal'', j]"

definition reorg_status :: "bool \<Rightarrow> string \<Rightarrow> string" where
  "reorg_status funding current =
     (if funding \<and> current \<in> set [''pending_escrow'', ''escrowed'', ''funding_refund_pending''] then ''pending_escrow'' else ''chain_reorg_pending'')"

text \<open>The canonicalization of a funding is closed, its attempt and its intent become orphaned.\<close>

definition orphan_canonicalization :: "gotime \<Rightarrow> string \<Rightarrow> string \<Rightarrow> escrow_db \<Rightarrow> escrow_db" where
  "orphan_canonicalization now reversalID j d =
     (case find (\<lambda>c. fcn_JournalID c = j \<and> fcn_OrphanedAt c = None) (es_canonicalizations d) of
        None \<Rightarrow> d
      | Some c \<Rightarrow>
          let d1 = d\<lparr>es_canonicalizations := map (\<lambda>x. if fcn_JournalID x = j \<and> fcn_OrphanedAt x = None
                 then x\<lparr>fcn_ReversalJournalID := reversalID, fcn_OrphanedAt := Some now\<rparr> else x) (es_canonicalizations d)\<rparr>;
              d2 = (case gget (es_attempts d1) (fcn_AttemptID c) of None \<Rightarrow> d1
                    | Some a \<Rightarrow> put_funding_attempt (a\<lparr>fat_State := ''canonical_orphaned'', fat_UpdatedAt := now\<rparr>) d1)
          in add_attempt_state (plain_state (fcn_AttemptID c) ''canonical_orphaned'' (fcn_ChainEventID c) ''chain_reorganization'' now) d2)"

definition orphan_intent :: "gotime \<Rightarrow> string \<Rightarrow> escrow_db \<Rightarrow> escrow_error + escrow_db" where
  "orphan_intent now taskID d =
     (case intent_of_task taskID d of
        None \<Rightarrow> Inr d
      | Some t \<Rightarrow>
          if fti_Status t \<noteq> ''confirmed'' then Inr d
          else let t' = t\<lparr>fti_Status := ''orphaned'', fti_AggregateVersion := fti_AggregateVersion t + 1, fti_UpdatedAt := now\<rparr> in
            insert_intent_event \<lparr>fie_IntentID = fti_ID t, fie_AggregateVersion = fti_AggregateVersion t', fie_State = ''orphaned'',
              fie_TransactionHash = [], fie_ChainEventID = [], fie_ReasonCode = ''chain_reorganization'', fie_OccurredAt = now\<rparr> (put_intent t' d))"

definition reverse_task :: "gotime \<Rightarrow> string \<Rightarrow> journal_row \<Rightarrow> escrow_db \<Rightarrow> escrow_error + escrow_db" where
  "reverse_task now reversalID j d =
     (let taskID = fj_TaskID j; funding = (fj_Type j = ''funding'') in
      if taskID = [] then Inr d
      else rbind (if funding then from_option EsNoRows (map_option etk_Status (gget (es_tasks d) taskID)) else Inr []) (\<lambda>current.
        let d1 = set_task_status now taskID (reorg_status funding current) d in
        if funding then orphan_intent now taskID (orphan_canonicalization now reversalID (fj_ID j) d1) else Inr d1))"

definition reverse_settlement :: "(string \<Rightarrow> string) \<Rightarrow> gotime \<Rightarrow> journal_row \<Rightarrow> escrow_db \<Rightarrow> escrow_error + escrow_db" where
  "reverse_settlement H now j d =
     rbind (insert_settlement_reversal (reversal_id H (fj_ID j)) (fj_ID j) (fj_TaskID j) now (inverse_entries (fj_ID j) (es_ledger d)) (es_ledger d)) (\<lambda>L.
     reverse_task now (reversal_id H (fj_ID j)) j (with_ledger d L))"

fun reverse_journals :: "(string \<Rightarrow> string) \<Rightarrow> gotime \<Rightarrow> journal_row list \<Rightarrow> escrow_db \<Rightarrow> escrow_error + escrow_db" where
  "reverse_journals H now [] d = Inr d"
| "reverse_journals H now (j # js) d = rbind (reverse_settlement H now j d) (reverse_journals H now js)"

text \<open>The same function orphans the acceptances that rest on the block; they are tables of the delivery, and modelled there.\<close>

definition reverse_block :: "(string \<Rightarrow> string) \<Rightarrow> gotime \<Rightarrow> scope \<Rightarrow> string \<Rightarrow> escrow_db \<Rightarrow> escrow_error + escrow_db" where
  "reverse_block H now S h d = reverse_journals H now (block_journals S h d) d"

end
