(* ===== verification/Escrow_Chain.thy ===== *)
theory Escrow_Chain
  imports Escrow_Settlement
begin

text \<open>
  The chain store (\<open>internal/chain/postgres/store.go\<close>): a confirmed block is applied with its transactions and events,
  and blocks that left the canonical chain are rewound. Each method is one transaction under the lock of its scope.
\<close>

section \<open>Failed funding transactions\<close>

definition live_attempt :: "string \<Rightarrow> string \<Rightarrow> escrow_db \<Rightarrow> bool" where
  "live_attempt intentID attemptID d \<longleftrightarrow>
     list_ex (\<lambda>a. fat_IntentID a = intentID \<and> fat_ID a \<noteq> attemptID \<and> fat_State a \<in> set [''submitted'', ''canonical_confirmed'']) (gvals (es_attempts d))"

definition failed_state :: "scope \<Rightarrow> string \<Rightarrow> gotime \<Rightarrow> funding_attempt \<Rightarrow> attempt_state" where
  "failed_state S blockHash now a =
     \<lparr>fas_AttemptID = fat_ID a, fas_State = ''observed_failed'', fas_ChainEventID = [], fas_ChainID = so_ChainID S, fas_ContractAddress = so_Contract S,
      fas_BlockHash = blockHash, fas_TransactionHash = fat_TransactionHash a, fas_ReasonCode = ''chain_transaction_failed'', fas_OccurredAt = now\<rparr>"

text \<open>\<open>INSERT .. WHERE NOT EXISTS\<close>: one row for an attempt and a block it failed in.\<close>

definition add_failed_state :: "attempt_state \<Rightarrow> escrow_db \<Rightarrow> escrow_db" where
  "add_failed_state s d =
     (if list_ex (\<lambda>x. fas_AttemptID x = fas_AttemptID s \<and> fas_State x = ''observed_failed'' \<and> fas_BlockHash x = fas_BlockHash s) (es_attemptStates d)
      then d else add_attempt_state s d)"

definition fail_intent :: "gotime \<Rightarrow> string \<Rightarrow> funding_intent \<Rightarrow> escrow_db \<Rightarrow> escrow_error + escrow_db" where
  "fail_intent now transactionHash t d =
     (let t' = t\<lparr>fti_Status := ''failed'', fti_FailureReasonCode := ''chain_transaction_failed'', fti_AggregateVersion := fti_AggregateVersion t + 1,
                fti_UpdatedAt := now\<rparr> in
      insert_intent_event \<lparr>fie_IntentID = fti_ID t, fie_AggregateVersion = fti_AggregateVersion t', fie_State = ''failed'',
        fie_TransactionHash = transactionHash, fie_ChainEventID = [], fie_ReasonCode = ''chain_transaction_failed'', fie_OccurredAt = now\<rparr> (put_intent t' d))"

definition project_failed :: "gotime \<Rightarrow> scope \<Rightarrow> string \<Rightarrow> string \<Rightarrow> string \<Rightarrow> escrow_db \<Rightarrow> escrow_error + escrow_db" where
  "project_failed now S transactionHash status blockHash d =
     (if status \<noteq> TxFailed then Inr d
      else case attempt_of_transaction S transactionHash d of
        None \<Rightarrow> Inr d
      | Some a \<Rightarrow>
          (case gget (es_intents d) (fat_IntentID a) of
             None \<Rightarrow> Inr d
           | Some t \<Rightarrow>
               if fat_State a = ''canonical_confirmed'' \<or> fat_State a = ''observed_failed'' then Inr d
               else let d1 = add_failed_state (failed_state S blockHash now a) (put_funding_attempt (a\<lparr>fat_State := ''observed_failed'', fat_UpdatedAt := now\<rparr>) d)
                 in if fti_Status t = ''confirmed'' \<or> live_attempt (fti_ID t) (fat_ID a) d1 then Inr d1 else fail_intent now transactionHash t d1))"

text \<open>The failed attempts that were observed in a block that is rewound.\<close>

definition failed_in_block :: "scope \<Rightarrow> string \<Rightarrow> escrow_db \<Rightarrow> funding_attempt \<Rightarrow> bool" where
  "failed_in_block S h d a \<longleftrightarrow> fat_State a = ''observed_failed'' \<and>
     list_ex (\<lambda>s. fas_AttemptID s = fat_ID a \<and> fas_ChainID s = so_ChainID S \<and> fas_ContractAddress s = so_Contract S \<and> fas_BlockHash s = h \<and>
       fas_State s = ''observed_failed'') (es_attemptStates d)"

definition orphan_failed_one :: "gotime \<Rightarrow> scope \<Rightarrow> string \<Rightarrow> funding_attempt \<Rightarrow> escrow_db \<Rightarrow> escrow_error + escrow_db" where
  "orphan_failed_one now S h a d =
     (let d1 = add_attempt_state ((failed_state S h now a)\<lparr>fas_State := ''canonical_orphaned'', fas_ReasonCode := ''failed_occurrence_reorganized''\<rparr>) d in
      case gget (es_intents d1) (fat_IntentID a) of
        None \<Rightarrow> Inr d1
      | Some t \<Rightarrow>
          if fti_Status t \<noteq> ''failed'' \<or> fti_TransactionHash t \<noteq> fat_TransactionHash a then Inr d1
          else let t' = t\<lparr>fti_Status := ''orphaned'', fti_FailureReasonCode := ''chain_reorganization'', fti_AggregateVersion := fti_AggregateVersion t + 1,
                       fti_UpdatedAt := now\<rparr> in
            insert_intent_event \<lparr>fie_IntentID = fti_ID t, fie_AggregateVersion = fti_AggregateVersion t', fie_State = ''orphaned'',
              fie_TransactionHash = fat_TransactionHash a, fie_ChainEventID = [], fie_ReasonCode = ''chain_reorganization'', fie_OccurredAt = now\<rparr>
              (put_intent t' d1))"

fun orphan_failed_all :: "gotime \<Rightarrow> scope \<Rightarrow> string \<Rightarrow> funding_attempt list \<Rightarrow> escrow_db \<Rightarrow> escrow_error + escrow_db" where
  "orphan_failed_all now S h [] d = Inr d"
| "orphan_failed_all now S h (a # as) d = rbind (orphan_failed_one now S h a d) (orphan_failed_all now S h as)"

definition orphan_failed :: "gotime \<Rightarrow> scope \<Rightarrow> string \<Rightarrow> escrow_db \<Rightarrow> escrow_error + escrow_db" where
  "orphan_failed now S h d =
     orphan_failed_all now S h (filter (failed_in_block S h d) (gvals (es_attempts d)))
       (d\<lparr>es_attempts := map (\<lambda>(k, a). (k, if failed_in_block S h d a then a\<lparr>fat_State := ''canonical_orphaned'', fat_UpdatedAt := now\<rparr> else a)) (es_attempts d)\<rparr>)"

section \<open>ApplyBlock\<close>

definition store_cursor :: "scope \<Rightarrow> escrow_db \<Rightarrow> cursor" where
  "store_cursor S d = (case gget (es_cursors d) (scope_key S) of None \<Rightarrow> zero_cursor | Some (n, h) \<Rightarrow> \<lparr>cu_Height = n, cu_Hash = h, cu_Set = True\<rparr>)"

definition store_canonical_hash :: "scope \<Rightarrow> uint64 \<Rightarrow> escrow_db \<Rightarrow> string option" where
  "store_canonical_hash S n d = gget (es_canonical d) (scope_key S, n)"

definition block_gap :: "scope \<Rightarrow> block \<Rightarrow> escrow_db \<Rightarrow> bool" where
  "block_gap S b d \<longleftrightarrow>
     (let c = store_cursor S d in
      if cu_Set c then bl_Number b \<noteq> cu_Height c + 1 \<or> bl_ParentHash b \<noteq> cu_Hash c else bl_Number b \<noteq> so_StartBlock S)"

text \<open>The rows of the block: \<open>chain_blocks\<close> keeps a row it has, a second canonical block of a height breaks the key.\<close>

definition insert_block :: "gotime \<Rightarrow> scope \<Rightarrow> block \<Rightarrow> escrow_db \<Rightarrow> escrow_error + escrow_db" where
  "insert_block now S b d =
     (let key = (scope_key S, bl_Number b) in
      if gget (es_canonical d) key \<noteq> None then Inl EsGap
      else Inr (d\<lparr>es_blocks := (if gget (es_blocks d) (scope_key S, bl_Hash b) \<noteq> None then es_blocks d
            else gput (scope_key S, bl_Hash b) (bl_Number b, bl_ParentHash b) (es_blocks d)),
          es_canonical := gput key (bl_Hash b) (es_canonical d),
          es_blockStates := es_blockStates d @ [\<lparr>bst_ChainID = so_ChainID S, bst_Contract = so_Contract S, bst_BlockHash = bl_Hash b,
            bst_State = StateCanonical, bst_ReasonCode = ''confirmation_depth_reached'', bst_ObservedAt = now\<rparr>]\<rparr>))"

definition same_transaction :: "transaction_row \<Rightarrow> transaction_row \<Rightarrow> bool" where
  "same_transaction x y \<longleftrightarrow> txr_ChainID x = txr_ChainID y \<and> txr_Contract x = txr_Contract y \<and> txr_BlockHash x = txr_BlockHash y \<and> txr_Hash x = txr_Hash y"

definition insert_transaction :: "transaction_row \<Rightarrow> escrow_db \<Rightarrow> escrow_db" where
  "insert_transaction x d = (if list_ex (same_transaction x) (es_transactions d) then d else d\<lparr>es_transactions := es_transactions d @ [x]\<rparr>)"

fun apply_transactions :: "decoder_env \<Rightarrow> gotime \<Rightarrow> scope \<Rightarrow> string \<Rightarrow> transaction list \<Rightarrow> escrow_db \<Rightarrow> escrow_error + escrow_db" where
  "apply_transactions D now S h [] d = Inr d"
| "apply_transactions D now S h (x # xs) d =
     rbind (project_failed now S (tr_Hash x) (tr_Status x) h (insert_transaction
         \<lparr>txr_ChainID = so_ChainID S, txr_Contract = so_Contract S, txr_BlockHash = h, txr_Hash = tr_Hash x, txr_Status = tr_Status x,
          txr_InputHash = sha_string (dv_sha D (to_lower (tr_Input x))), txr_SelectionCall = is_selection_input D (tr_Input x), txr_ObservedAt = now\<rparr> d))
       (apply_transactions D now S h xs)"

definition projected_work_nonce :: "event \<Rightarrow> bool" where
  "projected_work_nonce v = (case gget (ve_Payload v) ''workNonce'' of Some (PNumber n) \<Rightarrow> n \<ge> 2 | _ \<Rightarrow> False)"

text \<open>\<open>ON CONFLICT DO NOTHING\<close> covers the identifier and the place in the block.\<close>

definition same_event :: "event_row \<Rightarrow> event_row \<Rightarrow> bool" where
  "same_event x y \<longleftrightarrow> ve_ID (evr_Event x) = ve_ID (evr_Event y) \<or> evr_ChainID x = evr_ChainID y \<and> evr_Contract x = evr_Contract y \<and>
     ve_BlockHash (evr_Event x) = ve_BlockHash (evr_Event y) \<and> ve_TransactionHash (evr_Event x) = ve_TransactionHash (evr_Event y) \<and>
     ve_LogIndex (evr_Event x) = ve_LogIndex (evr_Event y)"

definition insert_event :: "event_row \<Rightarrow> escrow_db \<Rightarrow> escrow_db" where
  "insert_event x d =
     (if list_ex (same_event x) (gvals (es_events d)) then d else d\<lparr>es_events := gput (ve_ID (evr_Event x)) x (es_events d)\<rparr>)"

text \<open>\<open>chain_event_states\<close> refers to the event.\<close>

definition insert_event_state :: "row_state \<Rightarrow> escrow_db \<Rightarrow> escrow_error + escrow_db" where
  "insert_event_state x d =
     (if gget (es_events d) (rst_ID x) = None then Inl (EsSql ForeignKeyViolation) else Inr (d\<lparr>es_eventStates := es_eventStates d @ [x]\<rparr>))"

definition apply_event :: "(string \<Rightarrow> string) \<Rightarrow> gotime \<Rightarrow> scope \<Rightarrow> string \<Rightarrow> event \<Rightarrow> escrow_db \<Rightarrow> escrow_error + escrow_db" where
  "apply_event H now S h v d =
     (if ve_Selection v = None \<and> ve_Type v = EventWorkNonce \<and> \<not> projected_work_nonce v
      then Inl (EsMessage ''work nonce event is missing a valid workNonce'')
      else rbind (insert_event_state \<lparr>rst_ID = ve_ID v, rst_State = StateCanonical, rst_ReasonCode = ''confirmation_depth_reached'', rst_At = now\<rparr>
          (insert_event \<lparr>evr_ChainID = so_ChainID S, evr_Contract = so_Contract S, evr_Event = v\<lparr>ve_BlockHash := h\<rparr>\<rparr> d))
        (project_settlement H now S v))"

fun apply_events :: "(string \<Rightarrow> string) \<Rightarrow> gotime \<Rightarrow> scope \<Rightarrow> string \<Rightarrow> event list \<Rightarrow> escrow_db \<Rightarrow> escrow_error + escrow_db" where
  "apply_events H now S h [] d = Inr d"
| "apply_events H now S h (v # vs) d = rbind (apply_event H now S h v d) (apply_events H now S h vs)"

definition store_apply_block :: "decoder_env \<Rightarrow> gotime \<Rightarrow> scope \<Rightarrow> block \<Rightarrow> event list \<Rightarrow> unit escrow_tx" where
  "store_apply_block D now S b vs d =
     (if block_gap S b d then Inl EsGap
      else rbind (insert_block now S b d) (\<lambda>d1.
        rbind (apply_transactions D now S (bl_Hash b) (bl_Transactions b) d1) (\<lambda>d2.
        rbind (apply_events (dv_sha D) now S (bl_Hash b) vs d2) (\<lambda>d3.
        Inr ((), d3\<lparr>es_cursors := gput (scope_key S) (bl_Number b, bl_Hash b) (es_cursors d3)\<rparr>)))))"

section \<open>ReconcileFundingAttempt\<close>

text \<open>The status of the transaction in a canonical block, the one observed last.\<close>

definition canonical_transaction :: "scope \<Rightarrow> string \<Rightarrow> escrow_db \<Rightarrow> transaction_row option" where
  "canonical_transaction S h d =
     foldl (\<lambda>b x. case b of None \<Rightarrow> Some x | Some y \<Rightarrow> if txr_ObservedAt x > txr_ObservedAt y then Some x else b) None
       (filter (\<lambda>x. txr_ChainID x = so_ChainID S \<and> txr_Contract x = so_Contract S \<and> txr_Hash x = h \<and> canonical_block S (txr_BlockHash x) d)
         (es_transactions d))"

definition earlier_event :: "event \<Rightarrow> event \<Rightarrow> bool" where
  "earlier_event v w \<longleftrightarrow> ve_BlockNumber v < ve_BlockNumber w \<or> ve_BlockNumber v = ve_BlockNumber w \<and> ve_LogIndex v < ve_LogIndex w"

definition created_event :: "scope \<Rightarrow> string \<Rightarrow> escrow_db \<Rightarrow> event option" where
  "created_event S h d =
     foldl (\<lambda>b v. case b of None \<Rightarrow> Some v | Some w \<Rightarrow> if earlier_event v w then Some v else b) None
       (map evr_Event (filter (\<lambda>x. (evr_ChainID x, evr_Contract x) = scope_key S \<and> ve_TransactionHash (evr_Event x) = h \<and>
          ve_Type (evr_Event x) = EventTaskCreated \<and> canonical_block S (ve_BlockHash (evr_Event x)) d) (gvals (es_events d))))"

definition reconcile_attempt :: "(string \<Rightarrow> string) \<Rightarrow> gotime \<Rightarrow> scope \<Rightarrow> string \<Rightarrow> unit escrow_tx" where
  "reconcile_attempt H now S h d =
     (case canonical_transaction S h d of
        Some x \<Rightarrow>
          if txr_Status x = TxFailed then rbind (project_failed now S h TxFailed (txr_BlockHash x) d) (\<lambda>d1. Inr ((), d1))
          else (case created_event S h d of None \<Rightarrow> Inr ((), d) | Some v \<Rightarrow> rbind (project_settlement H now S v d) (\<lambda>d1. Inr ((), d1)))
      | None \<Rightarrow> (case created_event S h d of None \<Rightarrow> Inr ((), d) | Some v \<Rightarrow> rbind (project_settlement H now S v d) (\<lambda>d1. Inr ((), d1))))"

section \<open>Rewind\<close>

text \<open>The canonical blocks above the ancestor, the highest first.\<close>

definition blocks_above :: "scope \<Rightarrow> uint64 \<Rightarrow> escrow_db \<Rightarrow> string list" where
  "blocks_above S ancestor d =
     map snd (sort_func (\<lambda>x y. if fst x > fst y then -1 else if fst x = fst y then 0 else 1)
       (concat (map (\<lambda>((k, n), h). if k = scope_key S \<and> n > ancestor then [(n, h)] else []) (es_canonical d))))"

text \<open>The joins of the four statements: the active assignments whose transaction emitted a selection in the block, and how often.\<close>

definition selections_of :: "scope \<Rightarrow> string \<Rightarrow> escrow_db \<Rightarrow> escrow_assignment \<Rightarrow> event list" where
  "selections_of S h d x = filter (\<lambda>v. ve_Type v = EventSelection \<and> ve_TransactionHash v = eas_TransactionHash x) (block_events S h d)"

definition selected_in_block :: "scope \<Rightarrow> string \<Rightarrow> escrow_db \<Rightarrow> (nat \<times> escrow_assignment) list" where
  "selected_in_block S h d =
     map (\<lambda>x. (length (selections_of S h d x), x))
       (filter (\<lambda>x. gget (es_active d) (eas_TaskID x) = Some (eas_ID x) \<and> selections_of S h d x \<noteq> []) (gvals (es_assignments d)))"

text \<open>The insert into the history has a row for each event that is joined.\<close>

definition orphan_assignment :: "gotime \<Rightarrow> nat \<times> escrow_assignment \<Rightarrow> escrow_db \<Rightarrow> escrow_db" where
  "orphan_assignment now y d =
     (let x = snd y; d1 = set_task_status now (eas_TaskID x) ''chain_reorg_pending'' d;
          d2 = d1\<lparr>es_assignmentStates := es_assignmentStates d1 @
            replicate (fst y) \<lparr>rst_ID = eas_ID x, rst_State = ''orphaned'', rst_ReasonCode = ''chain_reorganization'', rst_At = now\<rparr>\<rparr>;
          d3 = (case gget (es_reservations d2) (eas_ReservationID x) of
              None \<Rightarrow> d2
            | Some r \<Rightarrow> if ers_Status r \<noteq> ''confirmed'' then d2
                else d2\<lparr>es_reservations := gput (eas_ReservationID x)
                  (r\<lparr>ers_Status := ''orphaned'', ers_FailureReasonCode := ''chain_reorganization'', ers_UpdatedAt := now\<rparr>) (es_reservations d2)\<rparr>)
      in d3\<lparr>es_active := gdel (eas_TaskID x) (es_active d3)\<rparr>)"

definition orphan_states :: "gotime \<Rightarrow> scope \<Rightarrow> string \<Rightarrow> string \<Rightarrow> escrow_db \<Rightarrow> escrow_db" where
  "orphan_states now S reason h d =
     d\<lparr>es_blockStates := es_blockStates d @ [\<lparr>bst_ChainID = so_ChainID S, bst_Contract = so_Contract S, bst_BlockHash = h, bst_State = ''orphaned'',
         bst_ReasonCode = reason, bst_ObservedAt = now\<rparr>],
       es_eventStates := es_eventStates d @ map (\<lambda>v. \<lparr>rst_ID = ve_ID v, rst_State = ''orphaned'', rst_ReasonCode = reason, rst_At = now\<rparr>) (block_events S h d)\<rparr>"

definition rewind_block :: "(string \<Rightarrow> string) \<Rightarrow> gotime \<Rightarrow> scope \<Rightarrow> string \<Rightarrow> string \<Rightarrow> escrow_db \<Rightarrow> escrow_error + escrow_db" where
  "rewind_block H now S reason h d =
     rbind (orphan_failed now S h d) (\<lambda>d1. rbind (reverse_block H now S h d1) (\<lambda>d2.
     Inr (foldl (\<lambda>x a. orphan_assignment now a x) (orphan_states now S reason h d2) (selected_in_block S h d2))))"

fun rewind_blocks :: "(string \<Rightarrow> string) \<Rightarrow> gotime \<Rightarrow> scope \<Rightarrow> string \<Rightarrow> string list \<Rightarrow> escrow_db \<Rightarrow> escrow_error + escrow_db" where
  "rewind_blocks H now S reason [] d = Inr d"
| "rewind_blocks H now S reason (h # hs) d = rbind (rewind_block H now S reason h d) (rewind_blocks H now S reason hs)"

definition cut_canonical :: "scope \<Rightarrow> uint64 \<Rightarrow> escrow_db \<Rightarrow> escrow_db" where
  "cut_canonical S ancestor d = d\<lparr>es_canonical := filter (\<lambda>((k, n), h). \<not> (k = scope_key S \<and> n > ancestor)) (es_canonical d)\<rparr>"

text \<open>The cursor moves to the ancestor; without a canonical ancestor it is deleted. An update without a row does nothing.\<close>

definition rewind_cursor :: "scope \<Rightarrow> uint64 \<Rightarrow> escrow_db \<Rightarrow> escrow_db" where
  "rewind_cursor S ancestor d =
     (case gget (es_canonical d) (scope_key S, ancestor) of
        None \<Rightarrow> d\<lparr>es_cursors := gdel (scope_key S) (es_cursors d)\<rparr>
      | Some h \<Rightarrow> if gget (es_cursors d) (scope_key S) = None then d else d\<lparr>es_cursors := gput (scope_key S) (ancestor, h) (es_cursors d)\<rparr>)"

definition store_rewind :: "(string \<Rightarrow> string) \<Rightarrow> gotime \<Rightarrow> scope \<Rightarrow> uint64 \<Rightarrow> string \<Rightarrow> unit escrow_tx" where
  "store_rewind H now S ancestor reason d =
     rbind (rewind_blocks H now S reason (blocks_above S ancestor d) d) (\<lambda>d1. Inr ((), rewind_cursor S ancestor (cut_canonical S ancestor d1)))"

section \<open>Deployments\<close>

definition register_deployment :: "deployment \<Rightarrow> escrow_db \<Rightarrow> escrow_db" where
  "register_deployment x d =
     (let y = x\<lparr>dpl_Contract := to_lower (dpl_Contract x), dpl_DisputeResolver := to_lower (dpl_DisputeResolver x)\<rparr>;
          others = (if dpl_ActiveForNewTasks y
            then map (\<lambda>(k, z). (k, if dpl_ChainID z = dpl_ChainID y \<and> dpl_ActiveForNewTasks z then z\<lparr>dpl_ActiveForNewTasks := False\<rparr> else z)) (es_deployments d)
            else es_deployments d)
      in d\<lparr>es_deployments := gput (dpl_ChainID y, dpl_Contract y) y others\<rparr>)"

end
