(* ===== verification/Escrow_Funding.thy ===== *)
theory Escrow_Funding
  imports Escrow_Chain
begin

text \<open>
  The funding service (\<open>internal/taskfunding/service.go\<close>): the publisher prepares the intent to fund a task, submits the
  transaction, and the service reconciles it with what the chain store has projected. Keccak-256 and the ABI encoding
  of the chain's task identifier are go-ethereum's and are parameters.
\<close>

section \<open>Configuration\<close>

record funding_config =
  ftc_ChainID :: string
  ftc_ContractAddress :: string
  ftc_Asset :: string
  ftc_AssetAddress :: string

record funding_env =
  ftv_sha :: "string \<Rightarrow> string"
  ftv_keccak :: "string \<Rightarrow> string" \<comment> \<open>\<open>crypto.Keccak256Hash\<close>, the 32 bytes\<close>
  ftv_pack :: "string \<Rightarrow> int \<Rightarrow> string \<Rightarrow> string \<Rightarrow> string \<Rightarrow> string \<Rightarrow> string \<Rightarrow> uint64 \<Rightarrow> int \<Rightarrow> string option" \<comment> \<open>\<open>abi.Arguments.Pack\<close>\<close>

definition supported_chain :: "string \<Rightarrow> bool" where
  "supported_chain v \<longleftrightarrow> v = ''31337'' \<or> v = ''84532''"

definition new_funding_service :: "funding_config \<Rightarrow> funding_config option" where
  "new_funding_service c =
     (let c' = c\<lparr>ftc_ContractAddress := to_lower (ftc_ContractAddress c), ftc_AssetAddress := to_lower (ftc_AssetAddress c)\<rparr> in
      if \<not> supported_chain (ftc_ChainID c') \<or> \<not> is_wallet_address (ftc_ContractAddress c') \<or> \<not> is_wallet_address (ftc_AssetAddress c') \<or>
         ftc_Asset c' \<noteq> ''evm:'' @ ftc_ChainID c' @ ''/erc20:'' @ ftc_AssetAddress c' then None
      else Some c')"

definition funding_publisher :: "session \<Rightarrow> bool" where
  "funding_publisher s \<longleftrightarrow> se_UserID s \<noteq> [] \<and> is_wallet_address (to_lower (se_Wallet s)) \<and> ''publisher'' \<in> set (se_Roles s)"

definition uint256 :: "string \<Rightarrow> int option" where
  "uint256 v = (case bigint_parse v of None \<Rightarrow> None | Some n \<Rightarrow> if 0 \<le> n \<and> n < 2 ^ 256 \<and> bigint_string n = v then Some n else None)"

definition digest_hash :: "string \<Rightarrow> string option" where
  "digest_hash v =
     (let raw = trim_prefix v ''sha256:'' in if length raw \<noteq> 64 \<or> \<not> hex_decodable raw then None else Some (''0x'' @ raw))"

definition tx_hash :: "string \<Rightarrow> bool" where
  "tx_hash v = (if length v \<noteq> 66 \<or> \<not> has_prefix v ''0x'' then False else hex_decodable (drop 2 v))"

definition funding_digest :: "funding_env \<Rightarrow> string list \<Rightarrow> string" where
  "funding_digest V parts = chain_stable_id (ftv_sha V) parts"

definition keccak_hex :: "funding_env \<Rightarrow> string \<Rightarrow> string" where
  "keccak_hex V b = to_lower (''0x'' @ hex_encode (ftv_keccak V b))"

definition derive_chain_task_id :: "funding_env \<Rightarrow> funding_config \<Rightarrow> string \<Rightarrow> string \<Rightarrow> string \<Rightarrow> uint64 \<Rightarrow> int \<Rightarrow> string option" where
  "derive_chain_task_id V c publisher platformTaskKey taskSpecHash deadline formal =
     map_option (keccak_hex V) (ftv_pack V ''agent-platform-task-v3'' (money_int (ftc_ChainID c)) (ftc_ContractAddress c) (ftc_AssetAddress c)
       publisher platformTaskKey taskSpecHash deadline formal)"

section \<open>Views\<close>

record intent_view =
  itv_Row :: funding_intent
  itv_Attempts :: "funding_attempt list"
  itv_RefundOnly :: bool

definition attempt_cmp :: "funding_attempt \<Rightarrow> funding_attempt \<Rightarrow> int" where
  "attempt_cmp a b = (if fat_CreatedAt a \<noteq> fat_CreatedAt b then fat_CreatedAt a - fat_CreatedAt b else strcmp (fat_ID a) (fat_ID b))"

definition load_attempts :: "string \<Rightarrow> escrow_db \<Rightarrow> funding_attempt list" where
  "load_attempts i d = sort_func attempt_cmp (filter (\<lambda>a. fat_IntentID a = i) (gvals (es_attempts d)))"

definition refund_only :: "funding_intent \<Rightarrow> escrow_db \<Rightarrow> bool" where
  "refund_only t d = (case gget (es_tasks d) (fti_TaskID t) of None \<Rightarrow> False | Some k \<Rightarrow> etk_Status k = ''funding_refund_pending'')"

definition intent_view_of :: "funding_intent \<Rightarrow> escrow_db \<Rightarrow> intent_view" where
  "intent_view_of t d = \<lparr>itv_Row = t, itv_Attempts = load_attempts (fti_ID t) d, itv_RefundOnly = refund_only t d\<rparr>"

definition tf_get :: "session \<Rightarrow> string \<Rightarrow> escrow_db \<Rightarrow> escrow_error + intent_view" where
  "tf_get s taskID d =
     (if \<not> funding_publisher s then Inl EfForbidden
      else case intent_of_task taskID d of
        None \<Rightarrow> Inl EfNotFound
      | Some t \<Rightarrow> if fti_PublisherID t \<noteq> se_UserID s then Inl EfNotFound else Inr (intent_view_of t d))"

section \<open>Prepare\<close>

record funding_terms =
  ftt_Deadline :: uint64
  ftt_PlatformTaskKey :: string
  ftt_TaskSpecHash :: string
  ftt_ChainTaskID :: string
  ftt_RequestHash :: string

definition funding_terms_of :: "funding_env \<Rightarrow> funding_config \<Rightarrow> gotime \<Rightarrow> session \<Rightarrow> string \<Rightarrow> escrow_task \<Rightarrow> escrow_error + funding_terms" where
  "funding_terms_of V c now s taskID k =
     (case uint256 (etk_FormalBudget k) of
        None \<Rightarrow> Inl EfInvalidInput
      | Some formal \<Rightarrow>
          if formal = 0 \<or> \<not> etk_SpecDeadline k > now then Inl EfInvalidInput
          else let deadline = word_of_int (time_unix (etk_SpecDeadline k)); key = keccak_hex V taskID in
            rbind (from_option EfInvalidInput (digest_hash (etk_SpecHash k))) (\<lambda>specHash.
            rbind (from_option EsPack (derive_chain_task_id V c (se_Wallet s) key specHash deadline formal)) (\<lambda>chainTask.
            Inr \<lparr>ftt_Deadline = deadline, ftt_PlatformTaskKey = key, ftt_TaskSpecHash = specHash, ftt_ChainTaskID = chainTask,
              ftt_RequestHash = funding_digest V [''task-funding-v3-request'', se_UserID s, taskID, ftc_ChainID c, ftc_ContractAddress c, ftc_AssetAddress c,
                key, specHash, sprint_word deadline, etk_FormalBudget k]\<rparr>)))"

definition prepared_intent :: "funding_env \<Rightarrow> funding_config \<Rightarrow> gotime \<Rightarrow> session \<Rightarrow> string \<Rightarrow> string \<Rightarrow> escrow_task \<Rightarrow> funding_terms \<Rightarrow> funding_intent" where
  "prepared_intent V c now s key taskID k m =
     \<lparr>fti_ID = funding_digest V [''task-funding-intent'', se_UserID s, key, ftt_RequestHash m], fti_TaskID = taskID, fti_PublisherID = se_UserID s,
      fti_PublisherWallet = to_lower (se_Wallet s), fti_IdempotencyKey = key, fti_RequestHash = ftt_RequestHash m, fti_ChainID = ftc_ChainID c,
      fti_ContractAddress = ftc_ContractAddress c, fti_AssetAddress = ftc_AssetAddress c, fti_ChainTaskID = ftt_ChainTaskID m,
      fti_PlatformTaskKey = ftt_PlatformTaskKey m, fti_TaskSpecHash = ftt_TaskSpecHash m, fti_FundingDeadline = ftt_Deadline m,
      fti_OverviewAmount = etk_OverviewBudget k, fti_FormalAmount = etk_FormalBudget k, fti_ExternalCostAmount = etk_ExternalCostCap k,
      fti_TotalAmount = etk_FormalBudget k, fti_Status = ''prepared'', fti_TransactionHash = [], fti_ChainEventID = [], fti_FailureReasonCode = [],
      fti_AggregateVersion = 1, fti_CreatedAt = now, fti_UpdatedAt = now\<rparr>"

definition insert_funding_intent :: "funding_intent \<Rightarrow> escrow_db \<Rightarrow> escrow_error + escrow_db" where
  "insert_funding_intent t d =
     (if gget (es_intents d) (fti_ID t) \<noteq> None \<or>
         list_ex (\<lambda>x. fti_TaskID x = fti_TaskID t \<or> fti_PublisherID x = fti_PublisherID t \<and> fti_IdempotencyKey x = fti_IdempotencyKey t \<or>
           fti_ChainID x = fti_ChainID t \<and> fti_ContractAddress x = fti_ContractAddress t \<and> fti_ChainTaskID x = fti_ChainTaskID t) (gvals (es_intents d))
      then Inl EfConflict else Inr (put_intent t d))"

definition intent_event_of :: "gotime \<Rightarrow> funding_intent \<Rightarrow> string \<Rightarrow> string \<Rightarrow> intent_event" where
  "intent_event_of now t state h =
     \<lparr>fie_IntentID = fti_ID t, fie_AggregateVersion = fti_AggregateVersion t, fie_State = state, fie_TransactionHash = h, fie_ChainEventID = [],
      fie_ReasonCode = [], fie_OccurredAt = now\<rparr>"

definition prepare_tx :: "funding_env \<Rightarrow> funding_config \<Rightarrow> gotime \<Rightarrow> session \<Rightarrow> string \<Rightarrow> string \<Rightarrow> (intent_view \<times> bool) escrow_tx" where
  "prepare_tx V c now s key taskID d =
     rbind (from_option EfNotFound (gget (es_tasks d) taskID)) (\<lambda>k.
     if etk_PublisherID k \<noteq> se_UserID s then Inl EfNotFound
     else if etk_Status k \<noteq> ''pending_escrow'' \<and> etk_Status k \<noteq> ''escrowed'' then Inl EfInvalidState
     else rbind (funding_terms_of V c now s taskID k) (\<lambda>m.
       case intent_of_task taskID d of
         Some t \<Rightarrow> if fti_RequestHash t \<noteq> ftt_RequestHash m then Inl EfConflict else Inr ((intent_view_of t d, True), d)
       | None \<Rightarrow>
           let t = prepared_intent V c now s key taskID k m in
           rbind (insert_funding_intent t d) (\<lambda>d1.
           rbind (insert_intent_event (intent_event_of now t ''prepared'' []) d1) (\<lambda>d2.
           Inr ((\<lparr>itv_Row = t, itv_Attempts = [], itv_RefundOnly = False\<rparr>, False), d2)))))"

definition tf_prepare ::
    "funding_env \<Rightarrow> funding_config \<Rightarrow> gotime \<Rightarrow> session \<Rightarrow> string \<Rightarrow> string \<Rightarrow> escrow_db \<Rightarrow> escrow_db \<times> (escrow_error + intent_view \<times> bool)" where
  "tf_prepare V c now s key taskID d =
     (if \<not> funding_publisher s then (d, Inl EfForbidden)
      else if blank key \<or> length key > 200 \<or> blank taskID then (d, Inl EfInvalidInput)
      else commit (prepare_tx V c now s key taskID) d)"

section \<open>Submit\<close>

record submit_input =
  sbi_TransactionHash :: string
  sbi_ExpectedVersion :: int

definition owned_intent :: "session \<Rightarrow> string \<Rightarrow> string \<Rightarrow> escrow_db \<Rightarrow> funding_intent option" where
  "owned_intent s taskID i d =
     (case gget (es_intents d) i of
        None \<Rightarrow> None
      | Some t \<Rightarrow> if fti_TaskID t = taskID \<and> fti_PublisherID t = se_UserID s then Some t else None)"

definition known_attempt :: "funding_intent \<Rightarrow> string \<Rightarrow> escrow_db \<Rightarrow> bool" where
  "known_attempt t h d \<longleftrightarrow>
     list_ex (\<lambda>a. fat_ChainID a = fti_ChainID t \<and> fat_ContractAddress a = fti_ContractAddress t \<and> fat_TransactionHash a = h \<and> fat_IntentID a = fti_ID t)
       (gvals (es_attempts d))"

text \<open>The attempt of the last submission is superseded.\<close>

definition supersede_prior :: "gotime \<Rightarrow> funding_intent \<Rightarrow> escrow_db \<Rightarrow> escrow_db" where
  "supersede_prior now t d =
     (if fti_TransactionHash t = [] then d
      else case find (\<lambda>a. supersedable (fti_ID t) a \<and> fat_TransactionHash a = fti_TransactionHash t) (gvals (es_attempts d)) of
        None \<Rightarrow> d
      | Some a \<Rightarrow> add_attempt_state (plain_state (fat_ID a) ''superseded'' [] ''replacement_submitted'' now)
          (put_funding_attempt (a\<lparr>fat_State := ''superseded'', fat_UpdatedAt := now\<rparr>) d))"

definition insert_attempt :: "funding_attempt \<Rightarrow> escrow_db \<Rightarrow> escrow_error + escrow_db" where
  "insert_attempt a d =
     (if gget (es_attempts d) (fat_ID a) \<noteq> None \<or>
         list_ex (\<lambda>x. fat_ChainID x = fat_ChainID a \<and> fat_ContractAddress x = fat_ContractAddress a \<and> fat_TransactionHash x = fat_TransactionHash a)
           (gvals (es_attempts d))
      then Inl EfConflict else Inr (put_funding_attempt a d))"

definition submitted_attempt :: "funding_env \<Rightarrow> gotime \<Rightarrow> funding_intent \<Rightarrow> string \<Rightarrow> funding_attempt" where
  "submitted_attempt V now t h =
     \<lparr>fat_ID = funding_digest V [''task-funding-attempt'', fti_ID t, h], fat_IntentID = fti_ID t, fat_ChainID = fti_ChainID t,
      fat_ContractAddress = fti_ContractAddress t, fat_TransactionHash = h, fat_State = ''submitted'', fat_CreatedAt = now, fat_UpdatedAt = now\<rparr>"

definition submit_write :: "funding_env \<Rightarrow> gotime \<Rightarrow> funding_intent \<Rightarrow> string \<Rightarrow> escrow_db \<Rightarrow> escrow_error + escrow_db" where
  "submit_write V now t h d =
     (let a = submitted_attempt V now t h;
          t' = t\<lparr>fti_Status := ''submitted'', fti_TransactionHash := h, fti_FailureReasonCode := [], fti_AggregateVersion := fti_AggregateVersion t + 1,
                 fti_UpdatedAt := now\<rparr>
      in rbind (insert_attempt a (supersede_prior now t d)) (\<lambda>d1.
         insert_intent_event (intent_event_of now t' ''submitted'' h)
           (put_intent t' (add_attempt_state (plain_state (fat_ID a) ''submitted'' [] ''wallet_submission'' now) d1))))"

definition submit_tx :: "funding_env \<Rightarrow> gotime \<Rightarrow> session \<Rightarrow> string \<Rightarrow> string \<Rightarrow> submit_input \<Rightarrow> unit escrow_tx" where
  "submit_tx V now s taskID i q d =
     rbind (from_option EfNotFound (owned_intent s taskID i d)) (\<lambda>t.
     let h = to_lower (sbi_TransactionHash q) in
     if known_attempt t h d then Inr ((), d)
     else if fti_Status t \<notin> set [''prepared'', ''orphaned'', ''failed'', ''submitted''] \<or> fti_AggregateVersion t \<noteq> sbi_ExpectedVersion q then Inl EfInvalidState
     else rbind (submit_write V now t h d) (\<lambda>d1. Inr ((), d1)))"

text \<open>After its own transaction the service reconciles, if it was built with a reconciler, and reads the intent.\<close>

definition tf_submit ::
    "funding_env \<Rightarrow> gotime \<Rightarrow> (string \<Rightarrow> escrow_db \<Rightarrow> escrow_db \<times> (escrow_error + unit)) option \<Rightarrow> session \<Rightarrow> string \<Rightarrow> string \<Rightarrow> submit_input \<Rightarrow>
     escrow_db \<Rightarrow> escrow_db \<times> (escrow_error + intent_view)" where
  "tf_submit V now reconcile s taskID i q d =
     (if \<not> funding_publisher s \<or> \<not> tx_hash (sbi_TransactionHash q) \<or> sbi_ExpectedVersion q < 1 then (d, Inl EfInvalidInput)
      else case commit (submit_tx V now s taskID i q) d of
        (d1, Inl e) \<Rightarrow> (d1, Inl e)
      | (d1, Inr _) \<Rightarrow>
          (case reconcile of
             None \<Rightarrow> (d1, tf_get s taskID d1)
           | Some f \<Rightarrow> (case f (to_lower (sbi_TransactionHash q)) d1 of (d2, Inl e) \<Rightarrow> (d2, Inl e) | (d2, Inr _) \<Rightarrow> (d2, tf_get s taskID d2))))"

definition chain_reconciler :: "(string \<Rightarrow> string) \<Rightarrow> gotime \<Rightarrow> scope \<Rightarrow> string \<Rightarrow> escrow_db \<Rightarrow> escrow_db \<times> (escrow_error + unit)" where
  "chain_reconciler H now S h = commit (reconcile_attempt H now S h)"

section \<open>Steps\<close>

text \<open>
  The transactions of the chain store and of the funding service. A submission is its own transaction; the reconciliation
  that follows it is another step. The process registers its deployment when it starts.
\<close>

datatype escrow_op =
    OpApplyBlock scope block "event list"
  | OpRewind scope uint64 string
  | OpReconcileAttempt scope string
  | OpPrepare funding_config session string string
  | OpSubmit session string string submit_input
  | OpRegister deployment

definition escrow_exec :: "funding_env \<Rightarrow> decoder_env \<Rightarrow> gotime \<Rightarrow> escrow_op \<Rightarrow> escrow_db \<Rightarrow> escrow_db" where
  "escrow_exec V D now c d =
     (case c of
        OpApplyBlock S b vs \<Rightarrow> fst (commit (store_apply_block D now S b vs) d)
      | OpRewind S n reason \<Rightarrow> fst (commit (store_rewind (dv_sha D) now S n reason) d)
      | OpReconcileAttempt S h \<Rightarrow> fst (commit (reconcile_attempt (dv_sha D) now S h) d)
      | OpPrepare cf s key taskID \<Rightarrow> (case new_funding_service cf of None \<Rightarrow> d | Some cf' \<Rightarrow> fst (tf_prepare V cf' now s key taskID d))
      | OpSubmit s taskID i q \<Rightarrow> fst (tf_submit V now None s taskID i q d)
      | OpRegister x \<Rightarrow> register_deployment x d)"

end
