(* ===== verification/Escrow_Ledger.thy ===== *)
theory Escrow_Ledger
  imports Escrow_Funding
begin

text \<open>
  The ledger of the escrow: what a posted journal and a reversal do to the accounts, and the invariant that every
  balance is the sum of the live journals, those that are neither reversals nor reversed.
\<close>

lemma es_lift_Inr_iff [res_simps]: "es_lift x = Inr y \<longleftrightarrow> x = Inr y"
  by (cases x) (simp_all add: es_lift_def)

section \<open>Sums of entries\<close>

definition acct_net :: "string \<Rightarrow> entry_row list \<Rightarrow> int" where
  "acct_net i es = sum_list (map (\<lambda>e. if fe_AccountID e = i then signed_amount e else 0) es)"

definition asset_net :: "string \<Rightarrow> entry_row list \<Rightarrow> int" where
  "asset_net x es = sum_list (map (\<lambda>e. if fe_Asset e = x then signed_amount e else 0) es)"

lemma net_simps [simp]:
  "acct_net i [] = 0" "acct_net i (e # es) = (if fe_AccountID e = i then signed_amount e else 0) + acct_net i es"
  "acct_net i (es @ fs) = acct_net i es + acct_net i fs"
  "asset_net x [] = 0" "asset_net x (e # es) = (if fe_Asset e = x then signed_amount e else 0) + asset_net x es"
  "asset_net x (es @ fs) = asset_net x es + asset_net x fs"
  by (simp_all add: acct_net_def asset_net_def)

lemma acct_net_absent: "\<forall>e \<in> set es. fe_AccountID e \<noteq> i \<Longrightarrow> acct_net i es = 0"
  by (induction es) auto

lemma net_mset: "mset es = mset fs \<Longrightarrow> acct_net i es = acct_net i fs" "mset es = mset fs \<Longrightarrow> asset_net x es = asset_net x fs"
  by (simp_all add: acct_net_def asset_net_def flip: sum_mset_sum_list)

lemma acct_net_split: "acct_net i es = acct_net i (filter P es) + acct_net i (filter (\<lambda>e. \<not> P e) es)"
  by (induction es) auto

section \<open>The entries of a settlement\<close>

definition settled_net :: "string \<Rightarrow> settlement_entry list \<Rightarrow> int" where
  "settled_net x es = sum_list (map (\<lambda>e. if sen_Asset e = x then (if sen_Direction e = ''credit'' then money_int (sen_Amount e) else - money_int (sen_Amount e)) else 0) es)"

lemma rows_from:
  "asset_net x (map (\<lambda>(k, e). \<lparr>fe_JournalID = j, fe_Index = int k + 1, fe_AccountID = sen_AccountID e, fe_AccountType = sen_AccountType e,
     fe_Direction = sen_Direction e, fe_Amount = money_int (sen_Amount e), fe_Asset = sen_Asset e, fe_CreatedAt = now\<rparr>) (enumerate n es)) = settled_net x es"
  by (induction es arbitrary: n) (auto simp: settled_net_def signed_amount_def)

lemma settlement_rows_net [simp]: "asset_net x (settlement_rows j now es) = settled_net x es"
  by (simp add: settlement_rows_def rows_from)

lemma settlement_rows_journal: "e \<in> set (settlement_rows j now es) \<Longrightarrow> fe_JournalID e = j"
  by (auto simp: settlement_rows_def)

lemma transfer_net [simp]: "settled_net x (transfer a t b u amount y) = 0"
  by (simp add: transfer_def settled_net_def)

lemma settled_net_append [simp]: "settled_net x (es @ fs) = settled_net x es + settled_net x fs" "settled_net x [] = 0"
  by (simp_all add: settled_net_def)

lemma inverse_rows:
  "acct_net i (map (\<lambda>(k, e). \<lparr>fe_JournalID = j, fe_Index = int k + 1, fe_AccountID = sen_AccountID e, fe_AccountType = sen_AccountType e,
     fe_Direction = sen_Direction e, fe_Amount = money_int (sen_Amount e), fe_Asset = sen_Asset e, fe_CreatedAt = now\<rparr>) (enumerate n (map inverse_entry es))) = - acct_net i es"
  "settled_net x (map inverse_entry es) = - asset_net x es"
proof -
  have one: "(if sen_Direction (inverse_entry e) = ''credit'' then money_int (sen_Amount (inverse_entry e)) else - money_int (sen_Amount (inverse_entry e))) = - signed_amount e" for e
    by (simp add: inverse_entry_def signed_amount_def)
  show "acct_net i (map (\<lambda>(k, e). \<lparr>fe_JournalID = j, fe_Index = int k + 1, fe_AccountID = sen_AccountID e, fe_AccountType = sen_AccountType e,
     fe_Direction = sen_Direction e, fe_Amount = money_int (sen_Amount e), fe_Asset = sen_Asset e, fe_CreatedAt = now\<rparr>) (enumerate n (map inverse_entry es))) = - acct_net i es"
    using one by (induction es arbitrary: n) (auto simp: signed_amount_def inverse_entry_def)
  show "settled_net x (map inverse_entry es) = - asset_net x es"
    using one by (induction es) (auto simp: settled_net_def inverse_entry_def signed_amount_def)
qed

lemma inverse_entries_net:
  "acct_net i (settlement_rows j now (inverse_entries k L)) = - acct_net i (entries_of k L)"
  "settled_net x (inverse_entries k L) = - asset_net x (entries_of k L)"
  unfolding settlement_rows_def inverse_entries_def inverse_rows by (simp_all add: net_mset [OF mset_sort_func])

section \<open>Entries change balances\<close>

definition same_account :: "account_row \<Rightarrow> account_row \<Rightarrow> bool" where
  "same_account a b \<longleftrightarrow> b = a\<lparr>fa_Balance := fa_Balance b, fa_UpdatedAt := fa_UpdatedAt b\<rparr>"

lemma same_accountD: "same_account a b \<Longrightarrow> fa_ID b = fa_ID a \<and> fa_Class b = fa_Class a \<and> fa_Type b = fa_Type a \<and> fa_TaskID b = fa_TaskID a \<and>
    fa_Reference b = fa_Reference a \<and> fa_Asset b = fa_Asset a \<and> fa_State b = fa_State a"
  by (cases a; cases b) (simp add: same_account_def)

lemma insert_entries_accounts:
  assumes "insert_entries es L = Inr L'"
  shows "gget (lg_accounts L') i = None \<longleftrightarrow> gget (lg_accounts L) i = None"
    and "gget (lg_accounts L) i = Some a \<Longrightarrow> \<exists>b. gget (lg_accounts L') i = Some b \<and> same_account a b \<and> fa_Balance b = fa_Balance a + acct_net i es"
    and "\<forall>e \<in> set es. \<exists>a. gget (lg_accounts L) (fe_AccountID e) = Some a \<and> fa_Asset a = fe_Asset e"
proof -
  have "(gget (lg_accounts L') i = None \<longleftrightarrow> gget (lg_accounts L) i = None) \<and>
    (\<forall>a. gget (lg_accounts L) i = Some a \<longrightarrow> (\<exists>b. gget (lg_accounts L') i = Some b \<and> same_account a b \<and> fa_Balance b = fa_Balance a + acct_net i es)) \<and>
    (\<forall>e \<in> set es. \<exists>a. gget (lg_accounts L) (fe_AccountID e) = Some a \<and> fa_Asset a = fe_Asset e)"
    using assms
  proof (induction es arbitrary: L)
    case Nil
    then show ?case by (simp add: same_account_def)
  next
    case (Cons e es)
    then obtain L1 where L1: "insert_entry e L = Inr L1" "insert_entries es L1 = Inr L'" by (auto simp: rbind_Inr_iff)
    from L1(1) obtain x where x: "gget (lg_accounts L) (fe_AccountID e) = Some x" "fa_Asset x = fe_Asset e"
      and acc: "lg_accounts L1 = gput (fe_AccountID e) (x\<lparr>fa_Balance := fa_Balance x + signed_amount e, fa_UpdatedAt := fe_CreatedAt e\<rparr>) (lg_accounts L)"
      unfolding insert_entry_effect by auto
    note ih = Cons.IH [OF L1(2)]
    have assets: "\<exists>a. gget (lg_accounts L) k = Some a \<and> fa_Asset a = y" if "\<exists>a. gget (lg_accounts L1) k = Some a \<and> fa_Asset a = y" for k y
      using that x by (auto simp: acc split: if_splits)
    have bal: "\<exists>b. gget (lg_accounts L') i = Some b \<and> same_account a b \<and> fa_Balance b = fa_Balance a + acct_net i (e # es)"
      if a: "gget (lg_accounts L) i = Some a" for a
    proof (cases "fe_AccountID e = i")
      case True
      with a x have a1: "gget (lg_accounts L1) i = Some (a\<lparr>fa_Balance := fa_Balance a + signed_amount e, fa_UpdatedAt := fe_CreatedAt e\<rparr>)" by (simp add: acc)
      from ih a1 obtain b where b: "gget (lg_accounts L') i = Some b" "same_account (a\<lparr>fa_Balance := fa_Balance a + signed_amount e, fa_UpdatedAt := fe_CreatedAt e\<rparr>) b"
        "fa_Balance b = fa_Balance (a\<lparr>fa_Balance := fa_Balance a + signed_amount e, fa_UpdatedAt := fe_CreatedAt e\<rparr>) + acct_net i es" by blast
      from b(2) have "same_account a b" by (cases a; cases b) (simp add: same_account_def)
      with b True show ?thesis by auto
    next
      case False
      with a have "gget (lg_accounts L1) i = Some a" by (simp add: acc)
      with ih False show ?thesis by auto
    qed
    have "gget (lg_accounts L') i = None \<longleftrightarrow> gget (lg_accounts L) i = None"
      using ih x by (auto simp: acc split: if_splits)
    moreover have "\<forall>f \<in> set (e # es). \<exists>a. gget (lg_accounts L) (fe_AccountID f) = Some a \<and> fa_Asset a = fe_Asset f"
      using ih assets x by auto
    ultimately show ?case using bal by blast
  qed
  then show "gget (lg_accounts L') i = None \<longleftrightarrow> gget (lg_accounts L) i = None"
    and "gget (lg_accounts L) i = Some a \<Longrightarrow> \<exists>b. gget (lg_accounts L') i = Some b \<and> same_account a b \<and> fa_Balance b = fa_Balance a + acct_net i es"
    and "\<forall>e \<in> set es. \<exists>a. gget (lg_accounts L) (fe_AccountID e) = Some a \<and> fa_Asset a = fe_Asset e" by blast+
qed

section \<open>The live journals\<close>

definition live_journal :: "sql_ledger \<Rightarrow> string \<Rightarrow> bool" where
  "live_journal L j \<longleftrightarrow> (case gget (lg_journals L) j of None \<Rightarrow> False | Some k \<Rightarrow> fj_ReversalOf k = []) \<and> \<not> is_reversed j L"

definition live_net :: "string \<Rightarrow> sql_ledger \<Rightarrow> int" where
  "live_net i L = acct_net i (filter (\<lambda>e. live_journal L (fe_JournalID e)) (lg_entries L))"

definition ledger_live :: "sql_ledger \<Rightarrow> bool" where
  "ledger_live L \<longleftrightarrow> ledger_ok L \<and> gget (lg_journals L) [] = None \<and>
     (\<forall>i a. gget (lg_accounts L) i = Some a \<longrightarrow> fa_Balance a = live_net i L) \<and>
     (\<forall>e \<in> set (lg_entries L). \<exists>a. gget (lg_accounts L) (fe_AccountID e) = Some a \<and> fa_Asset a = fe_Asset e) \<and>
     (\<forall>j k. gget (lg_journals L) j = Some k \<longrightarrow> fj_ReversalOf k \<noteq> [] \<longrightarrow> gget (lg_journals L) (fj_ReversalOf k) \<noteq> None \<and> fj_Type k = ''reversal'') \<and>
     (\<forall>j x. asset_net x (entries_of j L) = 0) \<and> (\<forall>x. ledger_total x L = 0)"

lemma is_reversed_iff:
  "ledger_ok L \<Longrightarrow> is_reversed j L \<longleftrightarrow> j \<noteq> [] \<and> (\<exists>i k. gget (lg_journals L) i = Some k \<and> fj_ReversalOf k = j)"
  unfolding is_reversed_def list_ex_iff Bex_def ledger_ok_def by (metis gvals_mem)

lemma live_parts:
  assumes "ledger_live L"
  shows "ledger_ok L" "gget (lg_accounts L) i = Some a \<Longrightarrow> fa_Balance a = live_net i L"
    "e \<in> set (lg_entries L) \<Longrightarrow> \<exists>a. gget (lg_accounts L) (fe_AccountID e) = Some a \<and> fa_Asset a = fe_Asset e"
    "gget (lg_journals L) j = Some k \<Longrightarrow> fj_ReversalOf k \<noteq> [] \<Longrightarrow> gget (lg_journals L) (fj_ReversalOf k) \<noteq> None \<and> fj_Type k = ''reversal''"
    "asset_net x (entries_of j L) = 0" "ledger_total x L = 0" "gget (lg_journals L) [] = None"
  using assms unfolding ledger_live_def by blast+

lemma live_empty [simp]: "ledger_live \<lparr>lg_accounts = [], lg_journals = [], lg_entries = []\<rparr>"
  by (simp add: ledger_live_def ledger_ok_def entries_of_def ledger_total_def)

text \<open>A new account has no entries.\<close>

lemma upsert_live:
  assumes "ledger_live L" "upsert_account a L = Inr L'" "fa_Balance a = 0"
  shows "ledger_live L'"
proof (cases "L' = L")
  case False
  from assms(2) False have new: "gget (lg_accounts L) (fa_ID a) = None" and L': "L' = L\<lparr>lg_accounts := gput (fa_ID a) a (lg_accounts L)\<rparr>"
    and en: "ensure_account a L = Inr L'"
    by (auto simp: upsert_account_def ensure_account_def insert_account_def split: if_splits)
  note p = live_parts [OF assms(1)]
  have "live_journal L' = live_journal L" by (rule ext) (simp add: L' live_journal_def is_reversed_def)
  then have net: "live_net i L' = live_net i L" for i by (simp add: live_net_def L')
  have "\<forall>e \<in> set (filter (\<lambda>e. live_journal L (fe_JournalID e)) (lg_entries L)). fe_AccountID e \<noteq> fa_ID a" using p(3) new by fastforce
  then have zero: "live_net (fa_ID a) L = 0" unfolding live_net_def by (rule acct_net_absent)
  note ok = ensure_account_ok [OF p(1) en assms(3)]
  show ?thesis unfolding ledger_live_def
  proof (intro conjI allI impI ballI)
    show "ledger_ok L'" by (rule ok(1))
    show "gget (lg_journals L') [] = None" using p(7) by (simp add: L')
    show "fa_Balance b = live_net i L'" if "gget (lg_accounts L') i = Some b" for i b
      using that p(2) zero assms(3) unfolding net by (auto simp: L' split: if_splits)
    show "\<exists>b. gget (lg_accounts L') (fe_AccountID e) = Some b \<and> fa_Asset b = fe_Asset e" if "e \<in> set (lg_entries L')" for e
      using that p(3) [of e] ok(2) new by (auto simp: L')
    show "asset_net x (entries_of j L') = 0" for j x using p(5) by (simp add: L' entries_of_def)
    show "ledger_total x L' = 0" for x using p(6) ok(5) by simp
  qed (use p(4) in \<open>auto simp: L'\<close>)
qed (use assms in simp)

text \<open>A row that is inserted is found afterwards.\<close>

lemma upsert_effect:
  assumes "upsert_account a L = Inr L'"
  shows "L' = L \<and> list_ex (same_reference a) (gvals (lg_accounts L)) \<or>
    gget (lg_accounts L) (fa_ID a) = None \<and> \<not> list_ex (same_reference a) (gvals (lg_accounts L)) \<and>
    L' = L\<lparr>lg_accounts := gput (fa_ID a) a (lg_accounts L)\<rparr>"
  using assms by (auto simp: upsert_account_def ensure_account_def insert_account_def split: if_splits)

text \<open>The effect of a posted journal.\<close>

lemma post_settlement_fresh:
  assumes "ledger_ok L" "post_settlement j now es L = Inr L'" "L' \<noteq> L"
  shows "gget (lg_journals L) (fj_ID j) = None" "fj_ID j \<noteq> []" "lg_journals L' = gput (fj_ID j) j (lg_journals L)"
    "lg_entries L' = lg_entries L @ settlement_rows (fj_ID j) now es" "ledger_ok L'"
    "ledger_total x L' = ledger_total x L + settled_net x es"
    "gget (lg_accounts L') i = None \<longleftrightarrow> gget (lg_accounts L) i = None"
    "gget (lg_accounts L) i = Some a \<Longrightarrow> \<exists>b. gget (lg_accounts L') i = Some b \<and> same_account a b \<and>
       fa_Balance b = fa_Balance a + acct_net i (settlement_rows (fj_ID j) now es)"
    "\<forall>e \<in> set (settlement_rows (fj_ID j) now es). \<exists>a. gget (lg_accounts L) (fe_AccountID e) = Some a \<and> fa_Asset a = fe_Asset e"
proof -
  from assms(2,3) obtain L1 where j1: "insert_journal j L = Inr (True, L1)" and e1: "insert_entries (settlement_rows (fj_ID j) now es) L1 = Inr L'"
    and v: "valid_digest (fj_ID j)"
    by (auto simp: post_settlement_def rbind_Inr_iff insert_journal_def es_lift_Inr_iff split: if_splits)
  have L1: "lg_journals L1 = gput (fj_ID j) j (lg_journals L)" "lg_accounts L1 = lg_accounts L" "lg_entries L1 = lg_entries L"
    using j1 by (auto simp: insert_journal_def split: if_splits)
  note ij = insert_journal_ok [OF assms(1) j1]
  note ie = insert_entries_ok [OF ij(1) e1]
  show "gget (lg_journals L) (fj_ID j) = None" using ij(4) by simp
  show "fj_ID j \<noteq> []" using v by (rule valid_digest_nonblank)
  show "lg_journals L' = gput (fj_ID j) j (lg_journals L)" "lg_entries L' = lg_entries L @ settlement_rows (fj_ID j) now es" "ledger_ok L'"
    using ie L1 by auto
  show "ledger_total x L' = ledger_total x L + settled_net x es"
    using ie [of x] L1 settlement_rows_net [of x "fj_ID j" now es] by (simp add: ledger_total_def asset_net_def)
  note ia = insert_entries_accounts [OF e1]
  show "gget (lg_accounts L') i = None \<longleftrightarrow> gget (lg_accounts L) i = None" using ia(1) L1 by simp
  show "gget (lg_accounts L) i = Some a \<Longrightarrow> \<exists>b. gget (lg_accounts L') i = Some b \<and> same_account a b \<and>
       fa_Balance b = fa_Balance a + acct_net i (settlement_rows (fj_ID j) now es)" using ia(2) L1 by simp
  show "\<forall>e \<in> set (settlement_rows (fj_ID j) now es). \<exists>a. gget (lg_accounts L) (fe_AccountID e) = Some a \<and> fa_Asset a = fe_Asset e"
    using ia(3) L1 by simp
qed

lemma posted_old:
  assumes "ledger_ok L" "gget (lg_journals L) j = None" "e \<in> set (lg_entries L)"
  shows "fe_JournalID e \<noteq> j"
  using assms by (force simp: ledger_ok_def)

lemma posted_live:
  assumes "ledger_live L" "post_settlement j now es L = Inr L'" "L' \<noteq> L" "\<And>x. settled_net x es = 0"
    and "fj_ReversalOf j \<noteq> [] \<Longrightarrow> fj_Type j = ''reversal'' \<and> gget (lg_journals L) (fj_ReversalOf j) \<noteq> None"
    and net: "\<And>i. live_net i L' = live_net i L + acct_net i (settlement_rows (fj_ID j) now es)"
  shows "ledger_live L'"
proof -
  note p = live_parts [OF assms(1)]
  note f = post_settlement_fresh [OF p(1) assms(2,3)]
  let ?rows = "settlement_rows (fj_ID j) now es"
  show ?thesis unfolding ledger_live_def
  proof (intro conjI allI impI ballI)
    show "ledger_ok L'" by (rule f(5))
    show "gget (lg_journals L') [] = None" using p(7) f(2) by (simp add: f(3))
    show "fa_Balance b = live_net i L'" if b: "gget (lg_accounts L') i = Some b" for i b
    proof -
      from f(7) [of i] b obtain a where "gget (lg_accounts L) i = Some a" by auto
      with f(8) [OF this] b p(2) net show ?thesis by auto
    qed
    show "\<exists>b. gget (lg_accounts L') (fe_AccountID e) = Some b \<and> fa_Asset b = fe_Asset e" if e: "e \<in> set (lg_entries L')" for e
    proof -
      from e p(3) f(9) obtain a where "gget (lg_accounts L) (fe_AccountID e) = Some a" "fa_Asset a = fe_Asset e" unfolding f(4) by auto
      with f(8) [OF this(1)] show ?thesis by (auto dest: same_accountD)
    qed
    show "gget (lg_journals L') (fj_ReversalOf k) \<noteq> None" "fj_Type k = ''reversal''"
      if "gget (lg_journals L') i = Some k" "fj_ReversalOf k \<noteq> []" for i k
      using that p(4) [of i k] assms(5) by (auto simp: f(3) split: if_splits)
    have "asset_net x ?rows = 0" for x using assms(4) by simp
    moreover have "entries_of k L' = (if k = fj_ID j then ?rows else entries_of k L)" for k
      using posted_old [OF p(1) f(1)] settlement_rows_journal [of _ "fj_ID j" now es] unfolding entries_of_def f(4)
      by (auto simp: filter_empty_conv intro!: filter_True)
    ultimately show "asset_net x (entries_of k L') = 0" for k x using p(5) by simp
    show "ledger_total x L' = 0" for x using p(6) f(6) assms(4) by simp
  qed
qed

lemma posted_reversed:
  assumes "ledger_ok L" "gget (lg_journals L) (fj_ID j) = None" "ledger_ok L'" "lg_journals L' = gput (fj_ID j) j (lg_journals L)"
  shows "is_reversed k L' \<longleftrightarrow> is_reversed k L \<or> k \<noteq> [] \<and> k = fj_ReversalOf j"
  using assms(2) unfolding is_reversed_iff [OF assms(1)] is_reversed_iff [OF assms(3)] assms(4)
  by (auto split: if_splits) (metis option.distinct(1))+

text \<open>A journal that is no reversal and whose entries cancel for each asset.\<close>

lemma post_live:
  assumes "ledger_live L" "post_settlement j now es L = Inr L'" "fj_ReversalOf j = []" "\<And>x. settled_net x es = 0"
  shows "ledger_live L'"
proof (cases "L' = L")
  case False
  note p = live_parts [OF assms(1)]
  note f = post_settlement_fresh [OF p(1) assms(2) False]
  let ?rows = "settlement_rows (fj_ID j) now es"
  note rev = posted_reversed [OF p(1) f(1) f(5) f(3), unfolded assms(3)]
  have not_rev: "\<not> is_reversed (fj_ID j) L"
    using p(4) f(1) unfolding is_reversed_iff [OF p(1)] by force
  have live: "live_journal L' k \<longleftrightarrow> k = fj_ID j \<or> live_journal L k" for k
    using f(1) assms(3) not_rev by (auto simp: live_journal_def rev f(3) split: option.splits)
  have "filter (\<lambda>e. live_journal L' (fe_JournalID e)) (lg_entries L') = filter (\<lambda>e. live_journal L (fe_JournalID e)) (lg_entries L) @ ?rows"
    unfolding f(4) filter_append using posted_old [OF p(1) f(1)] settlement_rows_journal [of _ "fj_ID j" now es]
    by (intro arg_cong2 [where f = "(@)"] filter_cong) (auto simp: live intro!: filter_True)
  then have "live_net i L' = live_net i L + acct_net i ?rows" for i by (simp add: live_net_def)
  with posted_live [OF assms(1,2) False assms(4)] assms(3) show ?thesis by blast
qed (use assms in simp)

text \<open>The reversal of a live journal: both drop out of the sums.\<close>

lemma reverse_live:
  assumes "ledger_live L" "post_settlement j now (inverse_entries k L) L = Inr L'" "fj_ReversalOf j = k" "k \<noteq> []" "fj_Type j = ''reversal''" "live_journal L k"
  shows "ledger_live L'"
proof (cases "L' = L")
  case False
  note p = live_parts [OF assms(1)]
  note f = post_settlement_fresh [OF p(1) assms(2) False]
  let ?rows = "settlement_rows (fj_ID j) now (inverse_entries k L)"
  note rev = posted_reversed [OF p(1) f(1) f(5) f(3), unfolded assms(3)]
  have live: "live_journal L' i \<longleftrightarrow> live_journal L i \<and> i \<noteq> k" for i
    using f(1) assms(3,4) by (auto simp: live_journal_def rev f(3) split: option.splits)
  have k: "gget (lg_journals L) k \<noteq> None" using assms(6) by (auto simp: live_journal_def split: option.splits)
  have "filter (\<lambda>e. live_journal L' (fe_JournalID e)) (lg_entries L') = filter (\<lambda>e. live_journal L (fe_JournalID e) \<and> fe_JournalID e \<noteq> k) (lg_entries L)"
    unfolding f(4) filter_append using f(1) settlement_rows_journal [of _ "fj_ID j" now "inverse_entries k L"]
    by (auto simp: live filter_empty_conv) (auto simp: live_journal_def)
  then have 1: "live_net i L' = acct_net i (filter (\<lambda>e. live_journal L (fe_JournalID e) \<and> fe_JournalID e \<noteq> k) (lg_entries L))" for i
    by (simp add: live_net_def)
  have "live_net i L = acct_net i (entries_of k L) + live_net i L'" for i
  proof -
    have "filter (\<lambda>e. fe_JournalID e = k) (filter (\<lambda>e. live_journal L (fe_JournalID e)) (lg_entries L)) = entries_of k L"
      using assms(6) by (auto simp: entries_of_def intro: filter_cong)
    moreover have "filter (\<lambda>e. fe_JournalID e \<noteq> k) (filter (\<lambda>e. live_journal L (fe_JournalID e)) (lg_entries L)) =
      filter (\<lambda>e. live_journal L (fe_JournalID e) \<and> fe_JournalID e \<noteq> k) (lg_entries L)" by (auto intro: filter_cong)
    ultimately show ?thesis using acct_net_split [of i "filter (\<lambda>e. live_journal L (fe_JournalID e)) (lg_entries L)" "\<lambda>e. fe_JournalID e = k"]
      unfolding 1 live_net_def [of i L] by simp
  qed
  then have "live_net i L' = live_net i L + acct_net i ?rows" for i by (simp add: inverse_entries_net)
  moreover have "settled_net x (inverse_entries k L) = 0" for x using p(5) by (simp add: inverse_entries_net)
  ultimately show ?thesis using posted_live [OF assms(1,2) False] assms(3,5) k by blast
qed (use assms in simp)

lemma post_settlement_accounts:
  assumes "post_settlement j now es L = Inr L'"
  shows "gget (lg_accounts L') i = None \<longleftrightarrow> gget (lg_accounts L) i = None"
    and "gget (lg_accounts L) i = Some a \<Longrightarrow> \<exists>b. gget (lg_accounts L') i = Some b \<and> same_account a b"
proof -
  have "(gget (lg_accounts L') i = None \<longleftrightarrow> gget (lg_accounts L) i = None) \<and>
    (gget (lg_accounts L) i = Some a \<longrightarrow> (\<exists>b. gget (lg_accounts L') i = Some b \<and> same_account a b))"
  proof (cases "L' = L")
    case False
    from assms False obtain L1 where j1: "insert_journal j L = Inr (True, L1)" and e1: "insert_entries (settlement_rows (fj_ID j) now es) L1 = Inr L'"
      by (auto simp: post_settlement_def rbind_Inr_iff insert_journal_def es_lift_Inr_iff split: if_splits)
    have "lg_accounts L1 = lg_accounts L" using j1 by (auto simp: insert_journal_def split: if_splits)
    with insert_entries_accounts(1,2) [OF e1] show ?thesis by metis
  qed (simp add: same_account_def)
  then show "gget (lg_accounts L') i = None \<longleftrightarrow> gget (lg_accounts L) i = None"
    and "gget (lg_accounts L) i = Some a \<Longrightarrow> \<exists>b. gget (lg_accounts L') i = Some b \<and> same_account a b" by blast+
qed

section \<open>The steps of the ledger\<close>

text \<open>What the chain store does to the ledger: it opens accounts, posts balanced journals, and reverses live ones.\<close>

definition has_escrow :: "string \<Rightarrow> sql_ledger \<Rightarrow> bool" where
  "has_escrow x L \<longleftrightarrow> (\<exists>i a. gget (lg_accounts L) i = Some a \<and> fa_Type a = ''formal_escrow'' \<and> fa_Asset a = x)"

inductive ledger_step :: "(string \<Rightarrow> string) \<Rightarrow> sql_ledger \<Rightarrow> sql_ledger \<Rightarrow> bool" for H where
  ledger_funded: "upsert_account (formal_escrow H now taskID publisherID x) L = Inr L1 \<Longrightarrow> upsert_account (control_account H now x x) L1 = Inr L2 \<Longrightarrow>
    ledger_step H L L2"
| ledger_control: "has_escrow x L \<Longrightarrow> upsert_account (control_account H now ''funding'' x) L = Inr L' \<Longrightarrow> ledger_step H L L'"
| ledger_receivable: "upsert_account (receivable_account H now reference x) L = Inr L' \<Longrightarrow> ledger_step H L L'"
| ledger_posted: "post_settlement j now es L = Inr L' \<Longrightarrow> fj_ReversalOf j = [] \<Longrightarrow> (\<And>x. settled_net x es = 0) \<Longrightarrow> ledger_step H L L'"
| ledger_reversed: "post_settlement j now (inverse_entries k L) L = Inr L' \<Longrightarrow> fj_ReversalOf j = k \<Longrightarrow> fj_Type j = ''reversal'' \<Longrightarrow> live_journal L k \<Longrightarrow>
    ledger_step H L L'"

lemma account_balances [simp]:
  "fa_Balance (formal_escrow H now taskID publisherID x) = 0" "fa_Balance (control_account H now r x) = 0" "fa_Balance (receivable_account H now r x) = 0"
  by (simp_all add: formal_escrow_def control_account_def receivable_account_def system_account_def)

lemma ledger_step_live: "ledger_step H L L' \<Longrightarrow> ledger_live L \<Longrightarrow> ledger_live L'"
proof (induction rule: ledger_step.induct)
  case (ledger_funded now taskID publisherID x L L1 L2)
  then show ?case using upsert_live [of L _ L1] upsert_live [of L1 _ L2] by simp
next
  case (ledger_reversed j now k L L')
  then have "k \<noteq> []" by (auto simp: live_journal_def live_parts(7) split: option.splits)
  with ledger_reversed show ?case by (blast intro: reverse_live)
qed (auto intro: upsert_live post_live)

lemma ledger_steps_live: "(ledger_step H)\<^sup>*\<^sup>* L L' \<Longrightarrow> ledger_live L \<Longrightarrow> ledger_live L'"
  by (induction rule: rtranclp_induct) (auto intro: ledger_step_live)

text \<open>The fee account is never opened: the table knows no class \<open>task\<close>.\<close>

lemma fee_account_refused: "upsert_account (fee_account H now taskID x) L = Inl CheckViolation"
  by (simp add: upsert_account_def account_shape_ok_def fee_account_def)

section \<open>The control account of an asset\<close>

definition control_id :: "(string \<Rightarrow> string) \<Rightarrow> string \<Rightarrow> string" where
  "control_id H x = settlement_digest H [''fund-system-account'', ''funding_control'', x, ''double-entry-v1'']"

text \<open>
  The funding opens the control account of its asset under the asset as the reference. As the refunds ask for it under
  the reference \<open>funding\<close>, they find no account, and the one they insert has the same identifier.
\<close>

definition control_under_asset :: "(string \<Rightarrow> string) \<Rightarrow> sql_ledger \<Rightarrow> bool" where
  "control_under_asset H L \<longleftrightarrow>
     (\<forall>i a. gget (lg_accounts L) i = Some a \<longrightarrow> fa_Type a = ''funding_control'' \<longrightarrow> fa_Reference a = fa_Asset a \<and> i = control_id H (fa_Asset a)) \<and>
     (\<forall>x. has_escrow x L \<longrightarrow> gget (lg_accounts L) (control_id H x) \<noteq> None)"

lemma control_refused:
  assumes "ledger_ok L" "control_under_asset H L" "has_escrow x L" "x \<noteq> ''funding''"
  shows "\<exists>e. upsert_account (control_account H now ''funding'' x) L = Inl e"
proof -
  have "\<not> list_ex (same_reference (control_account H now ''funding'' x)) (gvals (lg_accounts L))"
  proof
    assume "list_ex (same_reference (control_account H now ''funding'' x)) (gvals (lg_accounts L))"
    then obtain a where "a \<in> set (gvals (lg_accounts L))" "same_reference (control_account H now ''funding'' x) a" by (auto simp: list_ex_iff)
    then obtain i where "gget (lg_accounts L) i = Some a" "fa_Type a = ''funding_control''" "fa_Reference a = ''funding''" "fa_Asset a = x"
      using assms(1) by (auto simp: same_reference_def control_account_def system_account_def ledger_ok_def gvals_mem)
    with assms(2,4) show False by (auto simp: control_under_asset_def)
  qed
  moreover have "gget (lg_accounts L) (fa_ID (control_account H now ''funding'' x)) \<noteq> None"
    using assms(2,3) by (auto simp: control_under_asset_def control_account_def system_account_def control_id_def)
  ultimately show ?thesis by (auto simp: upsert_account_def ensure_account_def insert_account_def)
qed

lemma control_under_empty [simp]: "control_under_asset H \<lparr>lg_accounts = [], lg_journals = [], lg_entries = []\<rparr>"
  by (simp add: control_under_asset_def has_escrow_def)

lemma control_under_same:
  assumes "\<And>i. gget (lg_accounts L') i = None \<longleftrightarrow> gget (lg_accounts L) i = None"
    and "\<And>i a. gget (lg_accounts L) i = Some a \<Longrightarrow> \<exists>b. gget (lg_accounts L') i = Some b \<and> same_account a b"
    and "control_under_asset H L"
  shows "control_under_asset H L'"
proof -
  have bwd: "\<exists>a. gget (lg_accounts L) i = Some a \<and> same_account a b" if "gget (lg_accounts L') i = Some b" for i b
    using that assms(1,2) [of i] by (cases "gget (lg_accounts L) i") auto
  have escrow: "has_escrow x L" if "has_escrow x L'" for x
  proof -
    from that obtain i b where b: "gget (lg_accounts L') i = Some b" "fa_Type b = ''formal_escrow''" "fa_Asset b = x" by (auto simp: has_escrow_def)
    then obtain a where a: "gget (lg_accounts L) i = Some a" "same_account a b" using bwd by blast
    with b show ?thesis unfolding has_escrow_def using same_accountD [OF a(2)] by metis
  qed
  show ?thesis unfolding control_under_asset_def
  proof (intro conjI allI impI)
    fix i b assume b: "gget (lg_accounts L') i = Some b" "fa_Type b = ''funding_control''"
    then obtain a where a: "gget (lg_accounts L) i = Some a" "same_account a b" using bwd by blast
    with assms(3) b show "fa_Reference b = fa_Asset b" "i = control_id H (fa_Asset b)"
      by (simp_all add: control_under_asset_def same_accountD [OF a(2)])
  next
    show "gget (lg_accounts L') (control_id H x) \<noteq> None" if "has_escrow x L'" for x
      using escrow [OF that] assms(1,3) by (simp add: control_under_asset_def)
  qed
qed

lemma control_under_other:
  assumes "control_under_asset H L" "upsert_account a L = Inr L'" "fa_Type a \<noteq> ''funding_control''" "fa_Type a \<noteq> ''formal_escrow''"
  shows "control_under_asset H L'"
  using upsert_effect [OF assms(2)]
proof (elim disjE conjE)
  assume L': "L' = L\<lparr>lg_accounts := gput (fa_ID a) a (lg_accounts L)\<rparr>"
  have "has_escrow x L' \<Longrightarrow> has_escrow x L" for x using assms(4) by (auto simp: has_escrow_def L' split: if_splits)
  with assms(1,3) show ?thesis by (auto simp: control_under_asset_def L')
qed (use assms(1) in simp)

text \<open>The control account under its asset comes after the escrow account: a row that exists already is under the asset, too.\<close>

lemma control_under_funded:
  assumes "ledger_ok L" "control_under_asset H L" "upsert_account (formal_escrow H now taskID publisherID x) L = Inr L1"
    and "upsert_account (control_account H now x x) L1 = Inr L2"
  shows "control_under_asset H L2"
proof -
  let ?c = "control_account H now x x"
  have c: "fa_Type ?c = ''funding_control''" "fa_Reference ?c = x" "fa_Asset ?c = x" "fa_ID ?c = control_id H x"
    by (simp_all add: control_account_def system_account_def control_id_def)
  have f: "fa_Type (formal_escrow H now taskID publisherID x) = ''formal_escrow''" "fa_Asset (formal_escrow H now taskID publisherID x) = x"
    by (simp_all add: formal_escrow_def)
  have "ensure_account (formal_escrow H now taskID publisherID x) L = Inr L1" using assms(3) by (simp add: upsert_account_def split: if_splits)
  then have ok1: "ledger_ok L1" using ensure_account_ok(1) [OF assms(1)] by simp
  have under1: "fa_Reference a = fa_Asset a \<and> i = control_id H (fa_Asset a)" if "gget (lg_accounts L1) i = Some a" "fa_Type a = ''funding_control''" for i a
    using that assms(2) upsert_effect [OF assms(3)] f(1) by (auto simp: control_under_asset_def split: if_splits)
  have grow: "gget (lg_accounts L1) i \<noteq> None" if "gget (lg_accounts L) i \<noteq> None" for i
    using that upsert_effect [OF assms(3)] by auto
  have "y = x \<or> has_escrow y L" if "has_escrow y L1" for y
  proof -
    from that obtain i a where a: "gget (lg_accounts L1) i = Some a" "fa_Type a = ''formal_escrow''" "fa_Asset a = y" by (auto simp: has_escrow_def)
    with upsert_effect [OF assms(3)] f(2) have "y = x \<or> gget (lg_accounts L) i = Some a" by (auto split: if_splits)
    with a show ?thesis by (auto simp: has_escrow_def)
  qed
  then have escrow1: "y = x \<or> gget (lg_accounts L1) (control_id H y) \<noteq> None" if "has_escrow y L1" for y
    using that assms(2) grow unfolding control_under_asset_def by blast
  from upsert_effect [OF assms(4)] show ?thesis
  proof (elim disjE conjE)
    assume L2: "L2 = L1" and "list_ex (same_reference ?c) (gvals (lg_accounts L1))"
    then obtain i a where "gget (lg_accounts L1) i = Some a" "fa_Type a = ''funding_control''" "fa_Asset a = x"
      using ok1 c by (auto simp: list_ex_iff same_reference_def ledger_ok_def gvals_mem)
    with under1 have "gget (lg_accounts L1) (control_id H x) \<noteq> None" by auto
    with under1 escrow1 show ?thesis unfolding L2 control_under_asset_def by blast
  next
    assume L2: "L2 = L1\<lparr>lg_accounts := gput (fa_ID ?c) ?c (lg_accounts L1)\<rparr>"
    have esc: "has_escrow y L1" if "has_escrow y L2" for y using that c by (auto simp: has_escrow_def L2 split: if_splits)
    have "gget (lg_accounts L2) (control_id H y) \<noteq> None" if "has_escrow y L2" for y
      using escrow1 [OF esc [OF that]] c by (auto simp: L2)
    moreover have "fa_Reference a = fa_Asset a \<and> i = control_id H (fa_Asset a)" if "gget (lg_accounts L2) i = Some a" "fa_Type a = ''funding_control''" for i a
      using that under1 c by (auto simp: L2 split: if_splits)
    ultimately show ?thesis unfolding control_under_asset_def by blast
  qed
qed

lemma ledger_step_control:
  assumes "ledger_step H L L'" "ledger_live L" "control_under_asset H L"
  shows "control_under_asset H L'"
  using assms
proof (induction rule: ledger_step.induct)
  case (ledger_funded now taskID publisherID x L L1 L2)
  then show ?case by (blast intro: control_under_funded live_parts(1))
next
  case (ledger_control x L now L')
  let ?c = "control_account H now ''funding'' x"
  show ?case
  proof (cases "x = ''funding''")
    case True
    then have c: "fa_Type ?c = ''funding_control''" "fa_Reference ?c = fa_Asset ?c" "fa_ID ?c = control_id H (fa_Asset ?c)"
      by (simp_all add: control_account_def system_account_def control_id_def)
    from upsert_effect [OF ledger_control(2)] show ?thesis
    proof (elim disjE conjE)
      assume L': "L' = L\<lparr>lg_accounts := gput (fa_ID ?c) ?c (lg_accounts L)\<rparr>"
      have "has_escrow y L" if "has_escrow y L'" for y using that c(1) by (auto simp: has_escrow_def L' split: if_splits)
      moreover have "fa_Reference a = fa_Asset a \<and> i = control_id H (fa_Asset a)" if "gget (lg_accounts L') i = Some a" "fa_Type a = ''funding_control''" for i a
        using that ledger_control(4) c by (auto simp: L' control_under_asset_def split: if_splits)
      moreover have "gget (lg_accounts L') i \<noteq> None" if "gget (lg_accounts L) i \<noteq> None" for i using that by (auto simp: L')
      ultimately show ?thesis using ledger_control(4) unfolding control_under_asset_def by blast
    qed (use ledger_control(4) in simp)
  next
    case False
    with control_refused [of L H x now] live_parts(1) [of L] ledger_control obtain e where e: "upsert_account ?c L = Inl e" by blast
    have "Inl e = Inr L'" by (rule trans [OF sym [OF e] ledger_control(2)])
    then show ?thesis by simp
  qed
next
  case (ledger_receivable now reference x L L')
  have "fa_Type (receivable_account H now reference x) = ''formal_agent_receivable''" by (simp add: receivable_account_def system_account_def)
  then show ?case by (intro control_under_other [OF ledger_receivable(3,1)]) simp_all
next
  case (ledger_posted j now es L L')
  show ?case by (rule control_under_same [OF post_settlement_accounts [OF ledger_posted(1)] ledger_posted(5)])
next
  case (ledger_reversed j now k L L')
  show ?case by (rule control_under_same [OF post_settlement_accounts [OF ledger_reversed(1)] ledger_reversed(6)])
qed

lemma ledger_steps_control: "(ledger_step H)\<^sup>*\<^sup>* L L' \<Longrightarrow> ledger_live L \<Longrightarrow> control_under_asset H L \<Longrightarrow> ledger_live L' \<and> control_under_asset H L'"
  by (induction rule: rtranclp_induct) (auto intro: ledger_step_live ledger_step_control)

end
