(* ===== verification/Escrow_Invariant.thy ===== *)
theory Escrow_Invariant
  imports Escrow_Ledger Chain_Invariant
begin

text \<open>
  What the transactions of the chain store and the funding service do to the ledger: a sequence of ledger steps, or nothing.
\<close>

section \<open>Writes outside the ledger\<close>

lemma es_ledger_frame [simp]:
  "es_ledger (with_ledger d L) = L" "es_ledger (set_task_status now i s d) = es_ledger d" "es_ledger (put_intent t d) = es_ledger d"
  "es_ledger (put_funding_attempt a d) = es_ledger d" "es_ledger (add_attempt_state s' d) = es_ledger d" "es_ledger (add_failed_state s' d) = es_ledger d" "es_ledger (mark_refunded now i d) = es_ledger d"
  "es_ledger (fund_task now t k target d) = es_ledger d" "es_ledger (supersede_attempts now i j d) = es_ledger d"
  "es_ledger (confirm_attempt now v a d) = es_ledger d" "es_ledger (orphan_canonicalization now i j d) = es_ledger d"
  "es_ledger (insert_transaction x d) = es_ledger d" "es_ledger (insert_event y d) = es_ledger d"
  "es_ledger (orphan_states now S reason h d) = es_ledger d" "es_ledger (rewind_cursor S n d) = es_ledger d" "es_ledger (cut_canonical S n d) = es_ledger d"
  "es_ledger (supersede_prior now t d) = es_ledger d" "es_ledger (register_deployment r d) = es_ledger d"
  by (simp_all add: add_failed_state_def register_deployment_def with_ledger_def set_task_status_def put_intent_def put_funding_attempt_def add_attempt_state_def mark_refunded_def fund_task_def
      supersede_attempts_def confirm_attempt_def orphan_canonicalization_def insert_transaction_def insert_event_def orphan_states_def rewind_cursor_def
      cut_canonical_def supersede_prior_def Let_def split: option.split)

lemma es_ledger_assignments [simp]: "es_ledger (orphan_assignment now x d) = es_ledger d"
  "es_ledger (foldl (\<lambda>d a. orphan_assignment now a d) d xs) = es_ledger d"
proof -
  show one: "es_ledger (orphan_assignment now x d) = es_ledger d" for x d
    by (simp add: orphan_assignment_def Let_def split: option.split)
  show "es_ledger (foldl (\<lambda>d a. orphan_assignment now a d) d xs) = es_ledger d"
    by (induction xs arbitrary: d) (simp_all add: one)
qed

text \<open>The operations that leave the ledger as it is.\<close>

lemma ledger_kept:
  "insert_intent_event e d = Inr d' \<Longrightarrow> es_ledger d' = es_ledger d"
  "insert_canonicalization c d = Inr d' \<Longrightarrow> es_ledger d' = es_ledger d"
  "confirm_intent now v target t d = Inr d' \<Longrightarrow> es_ledger d' = es_ledger d"
  "orphan_intent now i d = Inr d' \<Longrightarrow> es_ledger d' = es_ledger d"
  "fail_intent now h t d = Inr d' \<Longrightarrow> es_ledger d' = es_ledger d"
  "insert_block now S b d = Inr d' \<Longrightarrow> es_ledger d' = es_ledger d"
  "insert_event_state x d = Inr d' \<Longrightarrow> es_ledger d' = es_ledger d"
  by (auto simp: insert_intent_event_def insert_canonicalization_def confirm_intent_def orphan_intent_def fail_intent_def insert_block_def
      insert_event_state_def Let_def split: if_splits option.splits)

lemma project_failed_ledger: "project_failed now S h status b d = Inr d' \<Longrightarrow> es_ledger d' = es_ledger d"
  by (auto simp: project_failed_def Let_def ledger_kept split: if_splits option.splits)

lemma apply_transactions_ledger: "apply_transactions D now S h xs d = Inr d' \<Longrightarrow> es_ledger d' = es_ledger d"
  by (induction xs arbitrary: d) (auto simp: rbind_Inr_iff dest: project_failed_ledger)

lemma orphan_failed_ledger: "orphan_failed now S h d = Inr d' \<Longrightarrow> es_ledger d' = es_ledger d"
proof -
  have one: "orphan_failed_one now S h a d = Inr d' \<Longrightarrow> es_ledger d' = es_ledger d" for a d d'
    by (auto simp: orphan_failed_one_def Let_def ledger_kept split: if_splits option.splits)
  have all: "orphan_failed_all now S h as d = Inr d' \<Longrightarrow> es_ledger d' = es_ledger d" for as d d'
    by (induction as arbitrary: d) (auto simp: rbind_Inr_iff dest: one)
  show "orphan_failed now S h d = Inr d' \<Longrightarrow> es_ledger d' = es_ledger d" by (auto simp: orphan_failed_def dest: all)
qed

lemma reverse_task_ledger: "reverse_task now i j d = Inr d' \<Longrightarrow> es_ledger d' = es_ledger d"
  by (auto simp: reverse_task_def Let_def rbind_Inr_iff ledger_kept split: if_splits)

section \<open>Projections are ledger steps\<close>

abbreviation steps :: "(string \<Rightarrow> string) \<Rightarrow> sql_ledger \<Rightarrow> sql_ledger \<Rightarrow> bool" where
  "steps H \<equiv> (ledger_step H)\<^sup>*\<^sup>*"

lemma post_step: "post i t k r reason now es d = Inr d' \<Longrightarrow> (\<And>x. settled_net x es = 0) \<Longrightarrow> ledger_step H (es_ledger d) (es_ledger d')"
  by (auto simp: post_def insert_settlement_journal_def rbind_Inr_iff settlement_journal_def intro!: ledger_posted)

lemma upsert_Inr: "upsert a d = Inr d' \<longleftrightarrow> (\<exists>L. upsert_account a (es_ledger d) = Inr L \<and> d' = with_ledger d L)"
  by (auto simp: upsert_def rbind_Inr_iff es_lift_Inr_iff)

lemma formal_account_escrow:
  assumes "ledger_ok (es_ledger d)" "formal_account i d = Some a"
  shows "has_escrow (fa_Asset a) (es_ledger d)"
proof -
  have "a \<in> set (gvals (lg_accounts (es_ledger d)))" "fa_Type a = ''formal_escrow''"
    using assms(2) by (auto simp: formal_account_def find_Some_iff)
  with assms(1) show ?thesis by (auto simp: has_escrow_def ledger_ok_def gvals_mem)
qed

lemma two_steps: "ledger_step H L L1 \<Longrightarrow> ledger_step H L1 L2 \<Longrightarrow> steps H L L2"
  by (meson r_into_rtranclp rtranclp.rtrancl_into_rtrancl)

text \<open>An account is opened, and a journal is posted.\<close>

lemma upsert_post_steps:
  assumes "rbind (upsert a d) (\<lambda>d1. post i t k r reason now es d1) = Inr d'" "\<And>x. settled_net x es = 0"
    and "\<And>L. upsert_account a (es_ledger d) = Inr L \<Longrightarrow> ledger_step H (es_ledger d) L"
  shows "steps H (es_ledger d) (es_ledger d')"
proof -
  from assms(1) obtain d1 where d1: "upsert a d = Inr d1" "post i t k r reason now es d1 = Inr d'" by (auto simp: rbind_Inr_iff)
  then have "ledger_step H (es_ledger d) (es_ledger d1)" using assms(3) by (auto simp: upsert_Inr)
  with post_step [OF d1(2) assms(2)] show ?thesis by (blast intro: two_steps)
qed

lemma fund_escrow_steps:
  assumes "fund_escrow H now t v asset j d = Inr d'"
  shows "steps H (es_ledger d) (es_ledger d')"
proof -
  from assms obtain L1 L2 where 1: "upsert_account (formal_escrow H now (fti_TaskID t) (fti_PublisherID t) asset) (es_ledger d) = Inr L1"
    and 2: "upsert_account (control_account H now asset asset) L1 = Inr L2"
    and 3: "post j ''funding'' (fti_TaskID t) (ve_ID v) ''escrow_funded'' now (transfer (fa_ID (control_account H now asset asset)) ''funding_control''
      (fa_ID (formal_escrow H now (fti_TaskID t) (fti_PublisherID t) asset)) ''formal_escrow'' (fti_FormalAmount t) asset) (with_ledger (with_ledger d L1) L2) = Inr d'"
    by (auto simp: fund_escrow_def Let_def rbind_Inr_iff upsert_Inr)
  have "ledger_step H L2 (es_ledger d')" using post_step [OF 3, of H] by simp
  with ledger_funded [OF 1 2] show ?thesis by (blast intro: two_steps)
qed

lemma project_created_steps: "project_created H now S v d = Inr d' \<Longrightarrow> steps H (es_ledger d) (es_ledger d')"
  by (auto simp: project_created_def apply_funding_def Let_def rbind_Inr_iff ledger_kept dest!: fund_escrow_steps ledger_kept(2)
      split: option.splits if_splits)

lemma rbind_frame: "rbind x (\<lambda>d1. Inr (f d1)) = Inr d' \<Longrightarrow> (\<And>d. es_ledger (f d) = es_ledger d) \<Longrightarrow> \<exists>d1. x = Inr d1 \<and> es_ledger d' = es_ledger d1"
  by (auto simp: rbind_Inr_iff)

lemma project_earnings_steps:
  assumes "project_earnings H now S v d = Inr d'"
  shows "steps H (es_ledger d) (es_ledger d')"
proof -
  let ?amount = "payload_text v ''amount''"
  from assms obtain taskID formal where f: "earning_rows S v d = Some (taskID, formal)" by (auto simp: project_earnings_def Let_def split: option.splits)
  show ?thesis
  proof (cases "?amount = ''0''")
    case False
    let ?r = "receivable_account H now (payload_text v ''agentController'' @ '':'' @ payload_text v ''payout'') (fa_Asset formal)"
    from assms f False obtain d1 d2 where "upsert ?r d = Inr d1"
      "post (ve_ID v) ''settlement_release'' taskID (ve_ID v) ''formal_accepted'' now
         (transfer (fa_ID formal) ''formal_escrow'' (fa_ID ?r) ''formal_agent_receivable'' ?amount (fa_Asset formal)) d1 = Inr d2" "d' = set_task_status now taskID ''settled'' d2"
      by (auto simp: project_earnings_def Let_def rbind_Inr_iff)
    then show ?thesis using upsert_post_steps [of ?r d _ _ _ _ _ _ _ d2 H] by (simp add: ledger_receivable)
  qed (use assms f in \<open>auto simp: project_earnings_def\<close>)
qed

lemma refund_steps:
  assumes "has_escrow (fa_Asset formal) (es_ledger d)" "refund_formal H now v taskID formal amount reason d = Inr d'"
  shows "steps H (es_ledger d) (es_ledger d')"
  using assms(2) unfolding refund_formal_def Let_def by (rule upsert_post_steps) (simp_all add: ledger_control [OF assms(1)])

lemma account_of_chain_taskD: "account_of_chain_task S i d = Inr (taskID, a) \<Longrightarrow> formal_account taskID d = Some a"
  by (auto simp: account_of_chain_task_def split: option.splits)

lemma refund_account_steps: "ledger_ok (es_ledger d) \<Longrightarrow> formal_account i d = Some a \<Longrightarrow> refund_formal H now v taskID a amount reason d = Inr d' \<Longrightarrow>
    steps H (es_ledger d) (es_ledger d')"
  by (blast intro: refund_steps formal_account_escrow)

lemma project_refunded_steps:
  assumes "ledger_ok (es_ledger d)" "project_refunded H now S v d = Inr d'"
  shows "steps H (es_ledger d) (es_ledger d')"
  using assms by (auto simp: project_refunded_def Let_def rbind_Inr_iff split: if_splits intro: refund_account_steps dest!: account_of_chain_taskD)

lemma dispute_rowsD: "dispute_rows S v d = Some (taskID, payout, a) \<Longrightarrow> formal_account taskID d = Some a"
  by (auto simp: dispute_rows_def split: option.splits)

lemma project_resolved_steps:
  assumes "ledger_ok (es_ledger d)" "project_resolved H now S v d = Inr d'"
  shows "steps H (es_ledger d) (es_ledger d')"
proof (cases "es_ledger d' = es_ledger d")
  case False
  with assms(2) obtain taskID payout formal d1 where "dispute_rows S v d = Some (taskID, payout, formal)"
    "refund_formal H now v taskID formal (payload_text v ''amount'') ''dispute_refund'' d = Inr d1" "es_ledger d' = es_ledger d1"
    by (auto simp: project_resolved_def Let_def rbind_Inr_iff split: if_splits option.splits)
  with refund_account_steps [OF assms(1) dispute_rowsD] show ?thesis by simp
qed simp

text \<open>Of an allocation only the share of the publisher is ever posted: the account of the fees cannot be opened.\<close>

lemma fee_share_Inr: "fee_share H now taskID formal amount d = Inr x \<longleftrightarrow> amount = ''0'' \<and> x = ([], d)"
  by (auto simp: fee_share_def Let_def upsert_def fee_account_refused es_lift_def)

lemma project_allocation_steps:
  assumes "ledger_ok (es_ledger d)" "project_allocation H now S v d = Inr d'"
  shows "steps H (es_ledger d) (es_ledger d')"
proof -
  from assms(2) obtain taskID formal es d1 d2 where acc: "account_of_chain_task S (ve_TaskID v) d = Inr (taskID, formal)"
    and share: "publisher_share H now formal (payload_text v ''publisherAmount'') d = Inr (es, d1)"
    and d2: "(if es \<noteq> [] then post (ve_ID v) ''dispute_allocation'' taskID (ve_ID v) ''final_dispute_allocation'' now es d1 else Inr d1) = Inr d2"
    and d': "es_ledger d' = es_ledger d2"
    by (auto simp: project_allocation_def rbind_Inr_iff fee_share_Inr cong: if_cong)
  have escrow: "has_escrow (fa_Asset formal) (es_ledger d)" using assms(1) account_of_chain_taskD [OF acc] by (rule formal_account_escrow)
  show ?thesis
  proof (cases "payload_text v ''publisherAmount'' = ''0''")
    case True
    with share d2 d' show ?thesis by (auto simp: publisher_share_def)
  next
    case False
    let ?c = "control_account H now ''funding'' (fa_Asset formal)"
    let ?es = "transfer (fa_ID formal) ''formal_escrow'' (fa_ID ?c) ''funding_control'' (payload_text v ''publisherAmount'') (fa_Asset formal)"
    have u: "upsert ?c d = Inr d1" and es: "es = ?es" using share False by (auto simp: publisher_share_def Let_def rbind_Inr_iff)
    have "es \<noteq> []" by (simp add: es transfer_def)
    with d2 have "rbind (upsert ?c d) (post (ve_ID v) ''dispute_allocation'' taskID (ve_ID v) ''final_dispute_allocation'' now ?es) = Inr d2"
      by (simp add: u es)
    then show ?thesis unfolding d' by (rule upsert_post_steps) (simp_all add: ledger_control [OF escrow])
  qed
qed

lemma project_withdrawal_steps:
  assumes "project_withdrawal H now S v d = Inr d'" "ledger_ok (es_ledger d)"
  shows "steps H (es_ledger d) (es_ledger d')"
proof (cases "d' = d")
  case False
  with assms(1) obtain receivable where r: "withdrawal_account S v d = Some receivable"
    and p: "rbind (upsert (control_account H now ''funding'' (fa_Asset receivable)) d) (post (ve_ID v) ''earnings_withdrawal'' [] (ve_ID v) ''agent_withdrawal'' now
      (transfer (fa_ID receivable) ''formal_agent_receivable'' (fa_ID (control_account H now ''funding'' (fa_Asset receivable))) ''funding_control''
        (payload_text v ''amount'') (fa_Asset receivable))) = Inr d'"
    by (auto simp: project_withdrawal_def Let_def split: if_splits option.splits)
  from r have "receivable \<in> set (concat (map (\<lambda>r. case covering_account (payload_text v ''agentController'' @ '':'' @ payload_text v ''payout'') (payload_text v ''amount'') d r of
      None \<Rightarrow> [] | Some a \<Rightarrow> [a]) (sort_func (\<lambda>r s. ers_CreatedAt r - ers_CreatedAt s) (filter (\<lambda>r. ers_AgentController r = payload_text v ''agentController'' \<and>
        ers_PayoutAddress r = payload_text v ''payout'') (scope_reservations S d)))))"
    unfolding withdrawal_account_def Let_def by (auto split: list.splits simp del: set_concat)
  then obtain s where "covering_account (payload_text v ''agentController'' @ '':'' @ payload_text v ''payout'') (payload_text v ''amount'') d s = Some receivable"
    by (auto split: option.splits)
  then obtain formal where "formal_account (ers_TaskID s) d = Some formal" "fa_Asset formal = fa_Asset receivable"
    by (auto simp: covering_account_def find_Some_iff split: option.splits)
  then have "has_escrow (fa_Asset receivable) (es_ledger d)" using formal_account_escrow [OF assms(2)] by force
  from p show ?thesis by (rule upsert_post_steps) (simp_all add: ledger_control [OF \<open>has_escrow (fa_Asset receivable) (es_ledger d)\<close>])
qed simp

lemma project_settlement_steps:
  assumes "project_settlement H now S v d = Inr d'" "ledger_ok (es_ledger d)"
  shows "steps H (es_ledger d) (es_ledger d')"
  using assms by (auto simp: project_settlement_def split: if_splits
      intro: project_created_steps project_earnings_steps project_withdrawal_steps project_refunded_steps project_resolved_steps project_allocation_steps)

section \<open>Blocks\<close>

lemma apply_event_steps:
  assumes "apply_event H now S h v d = Inr d'" "ledger_ok (es_ledger d)"
  shows "steps H (es_ledger d) (es_ledger d')"
proof -
  from assms(1) obtain d1 where d1: "insert_event_state \<lparr>rst_ID = ve_ID v, rst_State = StateCanonical, rst_ReasonCode = ''confirmation_depth_reached'', rst_At = now\<rparr>
      (insert_event \<lparr>evr_ChainID = so_ChainID S, evr_Contract = so_Contract S, evr_Event = v\<lparr>ve_BlockHash := h\<rparr>\<rparr> d) = Inr d1"
    and p: "project_settlement H now S v d1 = Inr d'" by (auto simp: apply_event_def rbind_Inr_iff split: if_splits)
  from ledger_kept(7) [OF d1] have "es_ledger d1 = es_ledger d" by simp
  with project_settlement_steps [OF p] assms(2) show ?thesis by simp
qed

lemma apply_events_steps:
  "apply_events H now S h vs d = Inr d' \<Longrightarrow> ledger_live (es_ledger d) \<Longrightarrow> steps H (es_ledger d) (es_ledger d')"
proof (induction vs arbitrary: d)
  case (Cons v vs)
  then obtain d1 where d1: "apply_event H now S h v d = Inr d1" "apply_events H now S h vs d1 = Inr d'" by (auto simp: rbind_Inr_iff)
  from apply_event_steps [OF d1(1) live_parts(1) [OF Cons.prems(2)]] have "steps H (es_ledger d) (es_ledger d1)" .
  with Cons.IH [OF d1(2)] ledger_steps_live [OF this Cons.prems(2)] show ?case by (blast intro: rtranclp_trans)
qed simp

lemma store_apply_block_steps:
  assumes "store_apply_block D now S b vs d = Inr (u, d')" "ledger_live (es_ledger d)"
  shows "steps (dv_sha D) (es_ledger d) (es_ledger d')"
proof -
  from assms(1) obtain d1 d2 d3 where d: "insert_block now S b d = Inr d1" "apply_transactions D now S (bl_Hash b) (bl_Transactions b) d1 = Inr d2"
    "apply_events (dv_sha D) now S (bl_Hash b) vs d2 = Inr d3" "es_ledger d' = es_ledger d3"
    by (auto simp: store_apply_block_def rbind_Inr_iff split: if_splits)
  have "es_ledger d2 = es_ledger d" using ledger_kept(6) [OF d(1)] apply_transactions_ledger [OF d(2)] by simp
  with apply_events_steps [OF d(3)] assms(2) d(4) show ?thesis by simp
qed

lemma reconcile_attempt_steps:
  "reconcile_attempt H now S h d = Inr (u, d') \<Longrightarrow> ledger_ok (es_ledger d) \<Longrightarrow> steps H (es_ledger d) (es_ledger d')"
  by (auto simp: reconcile_attempt_def rbind_Inr_iff project_failed_ledger dest: project_settlement_steps split: option.splits if_splits)

section \<open>Reversals\<close>

lemma live_after:
  assumes "ledger_ok L" "post_settlement j now es L = Inr L'" "fj_ReversalOf j = k" "live_journal L i" "i \<noteq> k"
  shows "live_journal L' i"
proof (cases "L' = L")
  case False
  note f = post_settlement_fresh [OF assms(1,2) False]
  show ?thesis using posted_reversed [OF assms(1) f(1) f(5) f(3), of i] assms(3-5) f(1)
    by (auto simp: live_journal_def f(3) split: option.splits)
qed (use assms in simp)

lemma reverse_journals_steps:
  "reverse_journals H now js d = Inr d' \<Longrightarrow> ledger_live (es_ledger d) \<Longrightarrow> distinct (map fj_ID js) \<Longrightarrow> (\<And>j. j \<in> set js \<Longrightarrow> live_journal (es_ledger d) (fj_ID j)) \<Longrightarrow>
     steps H (es_ledger d) (es_ledger d')"
proof (induction js arbitrary: d)
  case (Cons j js)
  let ?j = "(settlement_journal (reversal_id H (fj_ID j)) ''reversal'' (fj_TaskID j) (fj_ID j) ''chain_reorganization'' now)\<lparr>fj_ReversalOf := fj_ID j\<rparr>"
  from Cons.prems(1) obtain d1 where d1: "reverse_settlement H now j d = Inr d1" "reverse_journals H now js d1 = Inr d'" by (auto simp: rbind_Inr_iff)
  from d1(1) obtain L where L: "post_settlement ?j now (inverse_entries (fj_ID j) (es_ledger d)) (es_ledger d) = Inr L"
    and t: "reverse_task now (reversal_id H (fj_ID j)) j (with_ledger d L) = Inr d1"
    by (auto simp: reverse_settlement_def insert_settlement_reversal_def rbind_Inr_iff)
  from reverse_task_ledger [OF t] have d1L: "es_ledger d1 = L" by simp
  have one: "ledger_step H (es_ledger d) (es_ledger d1)" unfolding d1L
    using Cons.prems(4) [of j] by (intro ledger_reversed [OF L]) (simp_all add: settlement_journal_def)
  have lv: "live_journal (es_ledger d1) (fj_ID i)" if "i \<in> set js" for i
  proof -
    from Cons.prems(3) that have "fj_ID i \<noteq> fj_ID j" by (metis distinct.simps(2) imageI list.simps(9) list.set_map)
    with live_after [OF live_parts(1) [OF Cons.prems(2)] L, of "fj_ID j" "fj_ID i"] Cons.prems(4) [of i] that show ?thesis by (simp add: d1L)
  qed
  have "distinct (map fj_ID js)" using Cons.prems(3) by simp
  from Cons.IH [OF d1(2) ledger_step_live [OF one Cons.prems(2)] this lv] one show ?case by (rule converse_rtranclp_into_rtranclp [rotated])
qed simp

lemma reverse_block_steps:
  assumes "reverse_block H now S h d = Inr d'" "ledger_live (es_ledger d)"
  shows "steps H (es_ledger d) (es_ledger d')"
proof (rule reverse_journals_steps)
  let ?js = "block_journals S h d"
  note ok = live_parts(1) [OF assms(2)]
  show "reverse_journals H now ?js d = Inr d'" using assms(1) by (simp add: reverse_block_def)
  show "ledger_live (es_ledger d)" by (rule assms(2))
  have all: "distinct (gvals (lg_journals (es_ledger d))) \<and> inj_on fj_ID (set (gvals (lg_journals (es_ledger d))))"
  proof -
    have "map fj_ID (gvals (lg_journals (es_ledger d))) = map fst (lg_journals (es_ledger d))"
      using ok unfolding gvals_def ledger_ok_def gget_def gwf_def by (auto intro!: map_of_is_SomeI)
    then show ?thesis using ok unfolding distinct_map [symmetric] by (simp add: ledger_ok_def gwf_def)
  qed
  then show "distinct (map fj_ID ?js)"
    by (auto simp: block_journals_def Let_def distinct_map intro: inj_on_subset)
  show "live_journal (es_ledger d) (fj_ID j)" if j: "j \<in> set ?js" for j
  proof -
    from j have m: "j \<in> set (gvals (lg_journals (es_ledger d)))" "\<not> is_reversed (fj_ID j) (es_ledger d)" "fj_Type j \<in> set reversible_types"
      by (simp_all add: block_journals_def Let_def)
    then have g: "gget (lg_journals (es_ledger d)) (fj_ID j) = Some j" using ok by (auto simp: ledger_ok_def gvals_mem)
    moreover have "fj_ReversalOf j = []"
    proof (rule ccontr)
      assume "fj_ReversalOf j \<noteq> []"
      with live_parts(4) [OF assms(2) g] have "fj_Type j = ''reversal''" by blast
      with m(3) show False by simp
    qed
    ultimately show ?thesis using m(2) by (simp add: live_journal_def)
  qed
qed

lemma rewind_block_steps:
  assumes "rewind_block H now S reason h d = Inr d'" "ledger_live (es_ledger d)"
  shows "steps H (es_ledger d) (es_ledger d')"
proof -
  from assms(1) obtain d1 d2 where d: "orphan_failed now S h d = Inr d1" "reverse_block H now S h d1 = Inr d2" "es_ledger d' = es_ledger d2"
    by (auto simp: rewind_block_def rbind_Inr_iff)
  have "es_ledger d1 = es_ledger d" by (rule orphan_failed_ledger [OF d(1)])
  with reverse_block_steps [OF d(2)] assms(2) d(3) show ?thesis by simp
qed

lemma rewind_blocks_steps:
  "rewind_blocks H now S reason hs d = Inr d' \<Longrightarrow> ledger_live (es_ledger d) \<Longrightarrow> steps H (es_ledger d) (es_ledger d')"
proof (induction hs arbitrary: d)
  case (Cons h hs)
  then obtain d1 where d1: "rewind_block H now S reason h d = Inr d1" "rewind_blocks H now S reason hs d1 = Inr d'" by (auto simp: rbind_Inr_iff)
  from rewind_block_steps [OF d1(1) Cons.prems(2)] have "steps H (es_ledger d) (es_ledger d1)" .
  with Cons.IH [OF d1(2)] ledger_steps_live [OF this Cons.prems(2)] show ?case by (blast intro: rtranclp_trans)
qed simp

lemma store_rewind_steps:
  "store_rewind H now S n reason d = Inr (u, d') \<Longrightarrow> ledger_live (es_ledger d) \<Longrightarrow> steps H (es_ledger d) (es_ledger d')"
  by (auto simp: store_rewind_def rbind_Inr_iff dest: rewind_blocks_steps)

lemma prepare_ledger: "prepare_tx V c now s key taskID d = Inr (r, d') \<Longrightarrow> es_ledger d' = es_ledger d"
  by (auto simp: prepare_tx_def insert_funding_intent_def Let_def rbind_Inr_iff ledger_kept split: if_splits option.splits)

lemma submit_ledger: "submit_tx V now s taskID i q d = Inr (r, d') \<Longrightarrow> es_ledger d' = es_ledger d"
  by (auto simp: submit_tx_def submit_write_def insert_attempt_def Let_def rbind_Inr_iff ledger_kept split: if_splits)

lemma commit_cases: "(\<And>x d'. f d = Inr (x, d') \<Longrightarrow> P d') \<Longrightarrow> P d \<Longrightarrow> P (fst (commit f d))"
  by (auto simp: commit_def split: sum.split)

section \<open>Reachable states\<close>

text \<open>Every call of the store and of the service is a sequence of ledger steps, failures included.\<close>

lemma escrow_exec_steps:
  assumes "ledger_live (es_ledger d)"
  shows "steps (dv_sha D) (es_ledger d) (es_ledger (escrow_exec V D now c d))"
proof (cases c)
  case (OpApplyBlock S b vs)
  show ?thesis unfolding OpApplyBlock escrow_exec_def escrow_op.case using assms by (rule_tac commit_cases) (auto intro: store_apply_block_steps)
next
  case (OpRewind S n reason)
  show ?thesis unfolding OpRewind escrow_exec_def escrow_op.case using assms by (rule_tac commit_cases) (auto intro: store_rewind_steps)
next
  case (OpReconcileAttempt S h)
  show ?thesis unfolding OpReconcileAttempt escrow_exec_def escrow_op.case using assms by (rule_tac commit_cases) (auto intro: reconcile_attempt_steps live_parts(1))
next
  case (OpPrepare cf s key taskID)
  then show ?thesis by (auto simp: escrow_exec_def tf_prepare_def commit_def prepare_ledger split: sum.split option.split)
next
  case (OpSubmit s taskID i q)
  then show ?thesis by (auto simp: escrow_exec_def tf_submit_def commit_def submit_ledger split: sum.split)
next
  case (OpRegister x)
  then show ?thesis by (simp add: escrow_exec_def)
qed

text \<open>
  The states the database goes through: the calls of the chain store and of the service, and between them other
  packages write the tasks, the reservations, the assignments and the deployments.
\<close>

inductive escrow_step :: "funding_env \<Rightarrow> decoder_env \<Rightarrow> escrow_db \<Rightarrow> escrow_db \<Rightarrow> bool" for V D where
  escrow_call: "escrow_step V D d (escrow_exec V D now c d)"
| escrow_other: "escrow_step V D d (d\<lparr>es_tasks := t, es_reservations := r, es_assignments := a, es_active := x, es_deployments := y\<rparr>)"

abbreviation empty_ledger :: sql_ledger where
  "empty_ledger \<equiv> \<lparr>lg_accounts = [], lg_journals = [], lg_entries = []\<rparr>"

lemma escrow_step_ledger:
  assumes "escrow_step V D d d'" "ledger_live (es_ledger d)" "control_under_asset (dv_sha D) (es_ledger d)"
  shows "ledger_live (es_ledger d')" "control_under_asset (dv_sha D) (es_ledger d')"
  using assms by (induction rule: escrow_step.induct) (auto dest: ledger_steps_control [OF escrow_exec_steps])

lemma escrow_reachable_ledger:
  assumes "(escrow_step V D)\<^sup>*\<^sup>* d0 d" "es_ledger d0 = empty_ledger"
  shows "ledger_live (es_ledger d) \<and> control_under_asset (dv_sha D) (es_ledger d)"
  using assms by (induction rule: rtranclp_induct) (auto intro: escrow_step_ledger)

section \<open>The cursor and the canonical blocks\<close>

definition chain_part :: "escrow_db \<Rightarrow> (scope_key, uint64 \<times> string) gomap \<times> (scope_key \<times> uint64, string) gomap" where
  "chain_part d = (es_cursors d, es_canonical d)"

lemma chain_part_frame [simp]:
  "chain_part (with_ledger d L) = chain_part d" "chain_part (set_task_status now i s d) = chain_part d" "chain_part (put_intent t d) = chain_part d"
  "chain_part (put_funding_attempt a d) = chain_part d" "chain_part (add_attempt_state s' d) = chain_part d" "chain_part (mark_refunded now i d) = chain_part d"
  "chain_part (fund_task now t k target d) = chain_part d" "chain_part (supersede_attempts now i j d) = chain_part d"
  "chain_part (confirm_attempt now v a d) = chain_part d" "chain_part (orphan_canonicalization now i j d) = chain_part d"
  "chain_part (insert_transaction x d) = chain_part d" "chain_part (insert_event y d) = chain_part d"
  "chain_part (orphan_states now S reason h d) = chain_part d" "chain_part (supersede_prior now t d) = chain_part d"
  "chain_part (add_failed_state s' d) = chain_part d" "chain_part (register_deployment r d) = chain_part d"
  by (simp_all add: add_failed_state_def register_deployment_def chain_part_def with_ledger_def set_task_status_def put_intent_def put_funding_attempt_def add_attempt_state_def mark_refunded_def fund_task_def
      supersede_attempts_def confirm_attempt_def orphan_canonicalization_def insert_transaction_def insert_event_def orphan_states_def
      supersede_prior_def Let_def split: option.split)

lemma chain_part_assignments [simp]: "chain_part (foldl (\<lambda>d a. orphan_assignment now a d) d xs) = chain_part d"
  by (induction xs arbitrary: d) (simp_all add: orphan_assignment_def chain_part_def set_task_status_def Let_def split: option.split)

lemma chain_part_kept:
  "insert_intent_event e d = Inr d' \<Longrightarrow> chain_part d' = chain_part d"
  "insert_canonicalization c d = Inr d' \<Longrightarrow> chain_part d' = chain_part d"
  "confirm_intent now v target t d = Inr d' \<Longrightarrow> chain_part d' = chain_part d"
  "orphan_intent now i d = Inr d' \<Longrightarrow> chain_part d' = chain_part d"
  "fail_intent now h t d = Inr d' \<Longrightarrow> chain_part d' = chain_part d"
  "insert_event_state x d = Inr d' \<Longrightarrow> chain_part d' = chain_part d"
  by (auto simp: chain_part_def insert_intent_event_def insert_canonicalization_def confirm_intent_def orphan_intent_def fail_intent_def
      insert_event_state_def put_intent_def Let_def split: if_splits option.splits)

text \<open>The projections other than the funding change the ledger and the tasks only, and post no journal of the type \<open>funding\<close>.\<close>

definition rest_part :: "escrow_db \<Rightarrow> (scope_key, uint64 \<times> string) gomap \<times> (scope_key \<times> uint64, string) gomap \<times> (string, funding_intent) gomap \<times>
    (string, funding_attempt) gomap \<times> canonicalization list" where
  "rest_part d = (es_cursors d, es_canonical d, es_intents d, es_attempts d, es_canonicalizations d)"

definition new_journals :: "(journal_row \<Rightarrow> bool) \<Rightarrow> escrow_db \<Rightarrow> escrow_db \<Rightarrow> bool" where
  "new_journals P d d' \<longleftrightarrow> rest_part d' = rest_part d \<and>
     (\<forall>i k. gget (lg_journals (es_ledger d)) i = Some k \<longrightarrow> gget (lg_journals (es_ledger d')) i = Some k) \<and>
     (\<forall>i k. gget (lg_journals (es_ledger d')) i = Some k \<longrightarrow> gget (lg_journals (es_ledger d)) i = Some k \<or> i = fj_ID k \<and> P k)"

abbreviation no_funding :: "journal_row \<Rightarrow> bool" where
  "no_funding k \<equiv> fj_Type k \<noteq> ''funding''"

lemma new_journals_refl [simp]: "new_journals P d d"
  by (simp add: new_journals_def)

lemma new_journals_trans: "new_journals P d d1 \<Longrightarrow> new_journals P d1 d2 \<Longrightarrow> new_journals P d d2"
  unfolding new_journals_def by (metis (no_types, lifting))

lemma new_journals_chain: "new_journals P d d' \<Longrightarrow> chain_part d' = chain_part d"
  by (simp add: new_journals_def rest_part_def chain_part_def)

lemma new_journals_tasks [simp]: "new_journals P d (set_task_status now i s d)" "new_journals P d (mark_refunded now i d)"
  by (simp_all add: new_journals_def rest_part_def set_task_status_def mark_refunded_def split: option.split)

lemma upsert_new: "upsert a d = Inr d' \<Longrightarrow> new_journals P d d'"
  by (auto simp: upsert_Inr new_journals_def rest_part_def with_ledger_def dest!: upsert_effect)

lemma insert_entries_journals: "insert_entries es L = Inr L' \<Longrightarrow> lg_journals L' = lg_journals L"
  by (induction es arbitrary: L) (auto simp: rbind_Inr_iff insert_entry_effect)

lemma post_settlement_journals:
  "post_settlement j now es L = Inr L' \<Longrightarrow> L' = L \<or> gget (lg_journals L) (fj_ID j) = None \<and> lg_journals L' = gput (fj_ID j) j (lg_journals L)"
  by (auto simp: post_settlement_def rbind_Inr_iff insert_journal_def es_lift_Inr_iff dest: insert_entries_journals split: if_splits)

lemma post_settlement_new:
  assumes "post_settlement j now es (es_ledger d) = Inr L" "P j"
  shows "new_journals P d (with_ledger d L)"
  using post_settlement_journals [OF assms(1)] assms(2) by (auto simp: new_journals_def rest_part_def with_ledger_def split: if_splits)

lemma post_new: "post i t k r reason now es d = Inr d' \<Longrightarrow> P (settlement_journal i t k r reason now) \<Longrightarrow> new_journals P d d'"
  by (auto simp: post_def insert_settlement_journal_def rbind_Inr_iff intro: post_settlement_new)

lemma upsert_post_new:
  "rbind (upsert a d) (\<lambda>d1. post i t k r reason now es d1) = Inr d' \<Longrightarrow> P (settlement_journal i t k r reason now) \<Longrightarrow> new_journals P d d'"
  by (auto simp: rbind_Inr_iff intro: new_journals_trans upsert_new post_new)

lemma other_types: "no_funding (settlement_journal i ''settlement_release'' t k r now)" "no_funding (settlement_journal i ''settlement_refund'' t k r now)"
  "no_funding (settlement_journal i ''earnings_withdrawal'' t k r now)" "no_funding (settlement_journal i ''dispute_allocation'' t k r now)"
  by (simp_all add: settlement_journal_def)

lemma project_earnings_new:
  assumes "project_earnings H now S v d = Inr d'"
  shows "new_journals no_funding d d'"
proof -
  let ?amount = "payload_text v ''amount''"
  from assms obtain taskID formal where f: "earning_rows S v d = Some (taskID, formal)" by (auto simp: project_earnings_def Let_def split: option.splits)
  show ?thesis
  proof (cases "?amount = ''0''")
    case False
    let ?r = "receivable_account H now (payload_text v ''agentController'' @ '':'' @ payload_text v ''payout'') (fa_Asset formal)"
    from assms f False obtain d1 d2 where d1: "upsert ?r d = Inr d1" and d2: "post (ve_ID v) ''settlement_release'' taskID (ve_ID v) ''formal_accepted'' now
         (transfer (fa_ID formal) ''formal_escrow'' (fa_ID ?r) ''formal_agent_receivable'' ?amount (fa_Asset formal)) d1 = Inr d2"
      and d': "d' = set_task_status now taskID ''settled'' d2"
      by (auto simp: project_earnings_def Let_def rbind_Inr_iff)
    have "new_journals no_funding d1 d2" using d2 other_types(1) by (rule post_new)
    from new_journals_trans [OF upsert_new [OF d1] this] show ?thesis unfolding d' by (rule new_journals_trans) simp
  qed (use assms f in \<open>auto simp: project_earnings_def\<close>)
qed

lemma refund_formal_new: "refund_formal H now v taskID formal amount reason d = Inr d' \<Longrightarrow> new_journals no_funding d d'"
  unfolding refund_formal_def Let_def by (erule upsert_post_new) (rule other_types)

lemma project_withdrawal_new: "project_withdrawal H now S v d = Inr d' \<Longrightarrow> new_journals no_funding d d'"
  by (auto simp: project_withdrawal_def Let_def split: option.splits if_splits intro: upsert_post_new [where P = no_funding, OF _ other_types(3)])

lemma project_refunded_new: "project_refunded H now S v d = Inr d' \<Longrightarrow> new_journals no_funding d d'"
  by (auto simp: project_refunded_def Let_def rbind_Inr_iff split: if_splits dest!: refund_formal_new intro: new_journals_trans [OF _ new_journals_tasks(2)])

lemma project_resolved_new: "project_resolved H now S v d = Inr d' \<Longrightarrow> new_journals no_funding d d'"
  by (auto simp: project_resolved_def Let_def rbind_Inr_iff split: if_splits option.splits dest!: refund_formal_new intro: new_journals_trans [OF _ new_journals_tasks(1)])

lemma project_allocation_new:
  assumes "project_allocation H now S v d = Inr d'"
  shows "new_journals no_funding d d'"
proof -
  from assms obtain taskID formal es d1 d2 where share: "publisher_share H now formal (payload_text v ''publisherAmount'') d = Inr (es, d1)"
    and d2: "(if es \<noteq> [] then post (ve_ID v) ''dispute_allocation'' taskID (ve_ID v) ''final_dispute_allocation'' now es d1 else Inr d1) = Inr d2"
    and d': "new_journals no_funding d2 d'"
    by (auto simp: project_allocation_def rbind_Inr_iff fee_share_Inr cong: if_cong)
  have "new_journals no_funding d d1" using share by (auto simp: publisher_share_def Let_def rbind_Inr_iff intro: upsert_new split: if_splits)
  moreover have "new_journals no_funding d1 d2" using d2 by (auto intro: post_new [where P = no_funding, OF _ other_types(4)] split: if_splits)
  ultimately show ?thesis using d' by (blast intro: new_journals_trans)
qed

lemma project_other_new:
  assumes "project_settlement H now S v d = Inr d'" "ve_Type v \<noteq> EventTaskCreated"
  shows "new_journals no_funding d d'"
  using assms by (auto simp: project_settlement_def split: if_splits
      intro: project_earnings_new project_withdrawal_new project_refunded_new project_resolved_new project_allocation_new)

lemma settlement_ids: "fj_ID (settlement_journal j t k r reason now) = j \<and> fj_TaskID (settlement_journal j t k r reason now) = k"
  by (simp add: settlement_journal_def)

text \<open>The funding posts one journal, for the task of the intent.\<close>

lemma fund_escrow_new:
  assumes "fund_escrow H now t v asset j d = Inr d'"
  shows "new_journals (\<lambda>k. fj_ID k = j \<and> fj_TaskID k = fti_TaskID t) d d'"
proof -
  from assms obtain d1 d2 es where d1: "upsert (formal_escrow H now (fti_TaskID t) (fti_PublisherID t) asset) d = Inr d1"
    and d2: "upsert (control_account H now asset asset) d1 = Inr d2" and p: "post j ''funding'' (fti_TaskID t) (ve_ID v) ''escrow_funded'' now es d2 = Inr d'"
    by (auto simp: fund_escrow_def Let_def rbind_Inr_iff)
  from p settlement_ids have "new_journals (\<lambda>k. fj_ID k = j \<and> fj_TaskID k = fti_TaskID t) d2 d'" by (rule post_new)
  from new_journals_trans [OF new_journals_trans [OF upsert_new [OF d1] upsert_new [OF d2]] this] show ?thesis .
qed

lemma chain_part_created: "project_created H now S v d = Inr d' \<Longrightarrow> chain_part d' = chain_part d"
  by (auto simp: project_created_def apply_funding_def Let_def rbind_Inr_iff dest!: fund_escrow_new [THEN new_journals_chain] chain_part_kept(2,3)
      split: option.splits if_splits)

lemma chain_part_settlement: "project_settlement H now S v d = Inr d' \<Longrightarrow> chain_part d' = chain_part d"
  using chain_part_created new_journals_chain [OF project_other_new] by (cases "ve_Type v = EventTaskCreated") (auto simp: project_settlement_def)

lemma chain_part_failed: "project_failed now S h status b d = Inr d' \<Longrightarrow> chain_part d' = chain_part d"
  by (auto simp: project_failed_def Let_def dest!: chain_part_kept(5) split: if_splits option.splits)

lemma chain_part_transactions: "apply_transactions D now S h xs d = Inr d' \<Longrightarrow> chain_part d' = chain_part d"
  by (induction xs arbitrary: d) (auto simp: rbind_Inr_iff dest: chain_part_failed)

lemma chain_part_event: "apply_event H now S h v d = Inr d' \<Longrightarrow> chain_part d' = chain_part d"
  by (auto simp: apply_event_def rbind_Inr_iff dest!: chain_part_settlement chain_part_kept(6) split: if_splits)

lemma chain_part_events: "apply_events H now S h vs d = Inr d' \<Longrightarrow> chain_part d' = chain_part d"
  by (induction vs arbitrary: d) (auto simp: rbind_Inr_iff dest: chain_part_event)

lemma chain_part_orphan_failed: "orphan_failed now S h d = Inr d' \<Longrightarrow> chain_part d' = chain_part d"
proof -
  have one: "orphan_failed_one now S h a d = Inr d' \<Longrightarrow> chain_part d' = chain_part d" for a d d'
    by (auto simp: orphan_failed_one_def Let_def dest!: chain_part_kept(1) split: if_splits option.splits)
  have all: "orphan_failed_all now S h as d = Inr d' \<Longrightarrow> chain_part d' = chain_part d" for as d d'
    by (induction as arbitrary: d) (auto simp: rbind_Inr_iff dest: one)
  assume "orphan_failed now S h d = Inr d'"
  from all [OF this [unfolded orphan_failed_def]] show "chain_part d' = chain_part d" by (simp add: chain_part_def)
qed

lemma chain_part_reverse: "reverse_journals H now js d = Inr d' \<Longrightarrow> chain_part d' = chain_part d"
proof (induction js arbitrary: d)
  case (Cons j js)
  have "reverse_task now i j d = Inr d1 \<Longrightarrow> chain_part d1 = chain_part d" for i d d1
    by (auto simp: reverse_task_def Let_def rbind_Inr_iff dest!: chain_part_kept(4) split: if_splits)
  with Cons show ?case by (auto simp: rbind_Inr_iff reverse_settlement_def)
qed simp

lemma chain_part_rewind: "rewind_blocks H now S reason hs d = Inr d' \<Longrightarrow> chain_part d' = chain_part d"
proof (induction hs arbitrary: d)
  case (Cons h hs)
  have "rewind_block H now S reason h d = Inr d1 \<Longrightarrow> chain_part d1 = chain_part d" for d d1
    by (auto simp: rewind_block_def reverse_block_def rbind_Inr_iff dest!: chain_part_orphan_failed chain_part_reverse)
  with Cons show ?case by (auto simp: rbind_Inr_iff)
qed simp

section \<open>The store and the repository in memory\<close>

text \<open>
  The repository in memory (\<open>Chain_Projector\<close>) holds one scope. It stands for the rows of that scope when the cursors are
  equal and every height has the same canonical block.
\<close>

definition same_chain :: "scope \<Rightarrow> escrow_db \<Rightarrow> chain_repo \<Rightarrow> bool" where
  "same_chain S d r \<longleftrightarrow> store_cursor S d = ch_cursor r \<and> (\<forall>h. store_canonical_hash S h d = canonical_hash h r)"

definition memory_op :: "scope \<Rightarrow> escrow_op \<Rightarrow> chain_repo \<Rightarrow> chain_repo" where
  "memory_op S c r =
     (case c of
        OpApplyBlock S' b vs \<Rightarrow> if scope_key S' = scope_key S then (case apply_block b vs r of Inl _ \<Rightarrow> r | Inr r' \<Rightarrow> r') else r
      | OpRewind S' n reason \<Rightarrow> if scope_key S' = scope_key S then fst (rewind n r) else r
      | _ \<Rightarrow> r)"

lemma same_chain_part: "chain_part d' = chain_part d \<Longrightarrow> same_chain S d' r = same_chain S d r"
  by (simp add: same_chain_def store_cursor_def store_canonical_hash_def chain_part_def)

lemma apply_block_refines:
  assumes "same_chain S d r" "store_apply_block D now S' b vs d = Inr (u, d')"
  shows "same_chain S d' (memory_op S (OpApplyBlock S' b vs) r)"
proof -
  from assms(2) obtain d1 d2 d3 where gap: "\<not> block_gap S' b d" and d1: "insert_block now S' b d = Inr d1"
    and d2: "apply_transactions D now S' (bl_Hash b) (bl_Transactions b) d1 = Inr d2" and d3: "apply_events (dv_sha D) now S' (bl_Hash b) vs d2 = Inr d3"
    and d': "d' = d3\<lparr>es_cursors := gput (scope_key S') (bl_Number b, bl_Hash b) (es_cursors d3)\<rparr>"
    by (auto simp: store_apply_block_def rbind_Inr_iff split: if_splits)
  have part: "es_cursors d3 = es_cursors d1" "es_canonical d3 = es_canonical d1"
    using chain_part_transactions [OF d2] chain_part_events [OF d3] by (auto simp: chain_part_def)
  from d1 have none: "gget (es_canonical d) (scope_key S', bl_Number b) = None" and e1: "es_cursors d1 = es_cursors d"
    "es_canonical d1 = gput (scope_key S', bl_Number b) (bl_Hash b) (es_canonical d)" by (auto simp: insert_block_def Let_def split: if_splits)
  have cur: "store_cursor S d' = (if scope_key S' = scope_key S then block_cursor b else store_cursor S d)"
    by (simp add: store_cursor_def d' part e1 block_cursor_def)
  have can: "store_canonical_hash S h d' = (if scope_key S' = scope_key S \<and> h = bl_Number b then Some (bl_Hash b) else store_canonical_hash S h d)" for h
    by (simp add: store_canonical_hash_def d' part e1)
  show ?thesis
  proof (cases "scope_key S' = scope_key S")
    case True
    have "canonical_hash (bl_Number b) r = None" using none True assms(1) by (simp add: same_chain_def store_canonical_hash_def flip: canonical_hash_None)
    then have "\<forall>m \<in> set (blocks_at r (bl_Number b)). \<not> is_canonical m" by (simp add: canonical_at_None)
    then obtain ms m where p: "place_block b vs (blocks_at r (bl_Number b)) = Inr ms" "List.find is_canonical ms = Some m" "bl_Hash (mb_block m) = bl_Hash b"
      by (rule place_block_fresh)
    have "store_cursor S' d = ch_cursor r" using True assms(1) by (simp add: same_chain_def store_cursor_def)
    then have ok: "apply_block b vs r = Inr (r\<lparr>ch_blocks := gput (bl_Number b) ms (ch_blocks r), ch_cursor := block_cursor b\<rparr>)"
      using gap p(1) by (auto simp: apply_block_def block_gap_def Let_def split: if_splits)
    have "canonical_hash h (r\<lparr>ch_blocks := gput (bl_Number b) ms (ch_blocks r), ch_cursor := block_cursor b\<rparr>) =
      (if h = bl_Number b then Some (bl_Hash b) else canonical_hash h r)" for h
      using p(2,3) by (simp add: canonical_hash_def canonical_at_def)
    with True ok cur can assms(1) show ?thesis by (simp add: memory_op_def same_chain_def)
  next
    case False
    with cur can assms(1) show ?thesis by (simp add: memory_op_def same_chain_def)
  qed
qed

lemma gget_filter_key: "gget (filter (\<lambda>(k, v). P k) m) k = (if P k then gget m k else None)"
  by (induction m) (auto simp: gget_def)

lemma gget_gdel_other: "k' \<noteq> k \<Longrightarrow> gget (gdel k m) k' = gget m k'"
  by (simp add: gget_def gdel_def delete_conv)

lemma rewind_refines:
  assumes "same_chain S d r" "store_rewind H now S' n reason d = Inr (u, d')" "scope_key S' = scope_key S \<Longrightarrow> canonical_hash n r \<noteq> None \<and> cu_Set (ch_cursor r)"
  shows "same_chain S d' (memory_op S (OpRewind S' n reason) r)"
proof -
  from assms(2) obtain d1 where d1: "rewind_blocks H now S' reason (blocks_above S' n d) d = Inr d1" and d': "d' = rewind_cursor S' n (cut_canonical S' n d1)"
    by (auto simp: store_rewind_def rbind_Inr_iff)
  have same1: "same_chain S d1 r" using same_chain_part [OF chain_part_rewind [OF d1]] assms(1) by simp
  have "es_canonical (cut_canonical S' n d1) = filter (\<lambda>(k, v). \<not> (fst k = scope_key S' \<and> snd k > n)) (es_canonical d1)"
    unfolding cut_canonical_def by (simp, rule filter_cong) auto
  then have cut: "gget (es_canonical (cut_canonical S' n d1)) k = (if fst k = scope_key S' \<and> snd k > n then None else gget (es_canonical d1) k)" for k
    by (simp add: gget_filter_key)
  have can': "es_canonical d' = es_canonical (cut_canonical S' n d1)" by (simp add: d' rewind_cursor_def split: option.split)
  have cur1: "es_cursors (cut_canonical S' n d1) = es_cursors d1" by (simp add: cut_canonical_def)
  show ?thesis
  proof (cases "scope_key S' = scope_key S")
    case True
    then obtain m where m: "canonical_at r n = Some m" using assms(3) by auto
    then have h: "gget (es_canonical d1) (scope_key S, n) = Some (bl_Hash (mb_block m))"
      using same1 by (simp add: canonical_hash_def same_chain_def store_canonical_hash_def)
    have rw: "rewind n r = ((orphan_above n r)\<lparr>ch_cursor := \<lparr>cu_Height = n, cu_Hash = bl_Hash (mb_block m), cu_Set = True\<rparr>\<rparr>, Inr ())"
      using m by (simp add: rewind_def canonical_at_orphan)
    have set: "gget (es_cursors d1) (scope_key S) \<noteq> None"
      using same1 assms(3) True by (auto simp: same_chain_def store_cursor_def zero_cursor_def split: option.splits)
    have "es_cursors d' = gput (scope_key S) (n, bl_Hash (mb_block m)) (es_cursors d1)"
      using cut [of "(scope_key S, n)"] h set True by (auto simp: d' rewind_cursor_def cur1)
    moreover have "canonical_hash x ((orphan_above n r)\<lparr>ch_cursor := c\<rparr>) = (if x > n then None else canonical_hash x r)" for x c
      using canonical_at_orphan [of n r x] by (simp add: canonical_hash_def canonical_at_def blocks_at_def)
    moreover have "gget (es_canonical d') (scope_key S, x) = (if x > n then None else canonical_hash x r)" for x
      using same1 True by (simp add: can' cut same_chain_def store_canonical_hash_def)
    ultimately show ?thesis using True by (simp add: memory_op_def rw same_chain_def store_cursor_def store_canonical_hash_def)
  next
    case False
    have "gget (es_cursors d') (scope_key S) = gget (es_cursors d1) (scope_key S)"
      using False by (auto simp: d' rewind_cursor_def cur1 gget_gdel_other split: option.split)
    moreover have "gget (es_canonical d') (scope_key S, h) = gget (es_canonical d1) (scope_key S, h)" for h using False by (simp add: can' cut)
    ultimately show ?thesis using same1 False by (simp add: memory_op_def same_chain_def store_cursor_def store_canonical_hash_def)
  qed
qed

text \<open>The calls of one scope, rewinding as the projector does: to a canonical ancestor of a cursor that is set.\<close>

definition rewinds_to_canonical :: "scope \<Rightarrow> escrow_op \<Rightarrow> chain_repo \<Rightarrow> bool" where
  "rewinds_to_canonical S c r \<longleftrightarrow>
     (case c of OpRewind S' n reason \<Rightarrow> scope_key S' \<noteq> scope_key S \<or> canonical_hash n r \<noteq> None \<and> cu_Set (ch_cursor r) | _ \<Rightarrow> True)"

text \<open>A block of the scope without transactions and events, on a height that has no canonical block; the first one starts the scope.\<close>

definition plain_block :: "scope \<Rightarrow> escrow_op \<Rightarrow> chain_repo \<Rightarrow> bool" where
  "plain_block S c r \<longleftrightarrow>
     (case c of
        OpApplyBlock S' b vs \<Rightarrow> scope_key S' = scope_key S \<and> vs = [] \<and> bl_Transactions b = [] \<and> canonical_hash (bl_Number b) r = None \<and>
          (cu_Set (ch_cursor r) \<or> bl_Number b = so_StartBlock S')
      | _ \<Rightarrow> False)"

lemma plain_block_refines:
  assumes "same_chain S d r" "plain_block S c r"
  shows "same_chain S (escrow_exec V D now c d) (memory_op S c r)"
proof -
  from assms(2) obtain S' b where c: "c = OpApplyBlock S' b []" "scope_key S' = scope_key S" "bl_Transactions b = []" "canonical_hash (bl_Number b) r = None"
    "cu_Set (ch_cursor r) \<or> bl_Number b = so_StartBlock S'" by (auto simp: plain_block_def split: escrow_op.splits)
  have cur: "store_cursor S' d = ch_cursor r" using assms(1) c(2) by (simp add: same_chain_def store_cursor_def)
  have none: "gget (es_canonical d) (scope_key S', bl_Number b) = None" using assms(1) c(2,4) unfolding same_chain_def store_canonical_hash_def by simp
  show ?thesis
  proof (cases "block_gap S' b d")
    case True
    have "escrow_exec V D now c d = d" using True by (simp add: c(1) escrow_exec_def store_apply_block_def commit_def)
    moreover have "memory_op S c r = r"
      using True c(2,5) unfolding memory_op_def c(1) escrow_op.case by (auto simp: apply_block_def block_gap_def cur Let_def split: if_splits)
    ultimately show ?thesis using assms(1) by simp
  next
    case False
    then obtain d' where d': "store_apply_block D now S' b [] d = Inr ((), d')"
      using none c(3) by (auto simp: store_apply_block_def insert_block_def Let_def)
    then have "escrow_exec V D now c d = d'" by (simp add: c(1) escrow_exec_def commit_def)
    with apply_block_refines [OF assms(1) d'] show ?thesis by (simp add: c(1))
  qed
qed

lemma chain_part_funding:
  "prepare_tx V cf now s key taskID d = Inr (x, d') \<Longrightarrow> chain_part d' = chain_part d"
  "submit_tx V now s taskID i q d = Inr (y, d') \<Longrightarrow> chain_part d' = chain_part d"
  "reconcile_attempt H now S h d = Inr (z, d') \<Longrightarrow> chain_part d' = chain_part d"
  by (auto simp: prepare_tx_def insert_funding_intent_def submit_tx_def submit_write_def insert_attempt_def reconcile_attempt_def Let_def rbind_Inr_iff
      dest!: chain_part_kept(1) chain_part_failed chain_part_settlement split: if_splits option.splits)

section \<open>Quiet transactions\<close>

abbreviation attempt_confirmed :: "funding_attempt \<Rightarrow> bool" where
  "attempt_confirmed a \<equiv> fat_State a = ''canonical_confirmed''"

abbreviation intent_confirmed :: "funding_intent \<Rightarrow> bool" where
  "intent_confirmed t \<equiv> fti_Status t = ''confirmed''"

text \<open>Intents and attempts lie under their identifiers, and a task has one intent.\<close>

definition well_keyed :: "escrow_db \<Rightarrow> bool" where
  "well_keyed d \<longleftrightarrow> gwf (es_intents d) \<and> gwf (es_attempts d) \<and>
     (\<forall>i t. gget (es_intents d) i = Some t \<longrightarrow> fti_ID t = i) \<and> (\<forall>i a. gget (es_attempts d) i = Some a \<longrightarrow> fat_ID a = i) \<and>
     (\<forall>i j t u. gget (es_intents d) i = Some t \<longrightarrow> gget (es_intents d) j = Some u \<longrightarrow> fti_TaskID t = fti_TaskID u \<longrightarrow> i = j)"

text \<open>
  A transaction is quiet when it confirms no intent, takes no confirmation of an attempt away, posts no journal of a
  funding and leaves the canonicalizations as they are.
\<close>

definition quiet :: "escrow_db \<Rightarrow> escrow_db \<Rightarrow> bool" where
  "quiet d d' \<longleftrightarrow> es_canonicalizations d' = es_canonicalizations d \<and>
     (\<forall>i k. gget (lg_journals (es_ledger d)) i = Some k \<longrightarrow> gget (lg_journals (es_ledger d')) i = Some k) \<and>
     (\<forall>i k. gget (lg_journals (es_ledger d')) i = Some k \<longrightarrow> gget (lg_journals (es_ledger d)) i = Some k \<or> i = fj_ID k \<and> no_funding k) \<and>
     (well_keyed d \<longrightarrow> well_keyed d' \<and>
       (\<forall>i t. gget (es_intents d) i = Some t \<longrightarrow> (\<exists>t'. gget (es_intents d') i = Some t' \<and> fti_TaskID t' = fti_TaskID t)) \<and>
       (\<forall>i t. gget (es_intents d') i = Some t \<longrightarrow> intent_confirmed t \<longrightarrow> gget (es_intents d) i = Some t) \<and>
       (\<forall>i a. gget (es_attempts d) i = Some a \<longrightarrow> (\<exists>a'. gget (es_attempts d') i = Some a' \<and> fat_IntentID a' = fat_IntentID a \<and>
          (attempt_confirmed a \<longrightarrow> attempt_confirmed a' \<and> fat_TransactionHash a' = fat_TransactionHash a))))"

lemma quiet_trans [trans]:
  assumes "quiet d d1" "quiet d1 d2"
  shows "quiet d d2"
proof -
  have "well_keyed d2 \<and> (\<forall>i t. gget (es_intents d) i = Some t \<longrightarrow> (\<exists>t'. gget (es_intents d2) i = Some t' \<and> fti_TaskID t' = fti_TaskID t)) \<and>
    (\<forall>i t. gget (es_intents d2) i = Some t \<longrightarrow> intent_confirmed t \<longrightarrow> gget (es_intents d) i = Some t) \<and>
    (\<forall>i a. gget (es_attempts d) i = Some a \<longrightarrow> (\<exists>a'. gget (es_attempts d2) i = Some a' \<and> fat_IntentID a' = fat_IntentID a \<and>
      (attempt_confirmed a \<longrightarrow> attempt_confirmed a' \<and> fat_TransactionHash a' = fat_TransactionHash a)))" if wk: "well_keyed d"
  proof (intro conjI allI impI)
    from wk assms show "well_keyed d2" by (simp add: quiet_def)
    have wk1: "well_keyed d1" using wk assms(1) by (simp add: quiet_def)
    show "\<exists>t'. gget (es_intents d2) i = Some t' \<and> fti_TaskID t' = fti_TaskID t" if t: "gget (es_intents d) i = Some t" for i t
    proof -
      from assms(1) wk t obtain t1 where "gget (es_intents d1) i = Some t1" "fti_TaskID t1 = fti_TaskID t" unfolding quiet_def by blast
      with assms(2) wk1 show ?thesis unfolding quiet_def by force
    qed
    show "gget (es_intents d) i = Some t" if t: "gget (es_intents d2) i = Some t" "intent_confirmed t" for i t
    proof -
      from assms(2) wk1 t have "gget (es_intents d1) i = Some t" unfolding quiet_def by blast
      with assms(1) wk t(2) show ?thesis unfolding quiet_def by blast
    qed
    show "\<exists>a'. gget (es_attempts d2) i = Some a' \<and> fat_IntentID a' = fat_IntentID a \<and>
      (attempt_confirmed a \<longrightarrow> attempt_confirmed a' \<and> fat_TransactionHash a' = fat_TransactionHash a)" if a: "gget (es_attempts d) i = Some a" for i a
    proof -
      from assms(1) wk a obtain a1 where a1: "gget (es_attempts d1) i = Some a1" "fat_IntentID a1 = fat_IntentID a"
        "attempt_confirmed a \<longrightarrow> attempt_confirmed a1 \<and> fat_TransactionHash a1 = fat_TransactionHash a" unfolding quiet_def by blast
      from assms(2) wk1 a1(1) obtain a2 where "gget (es_attempts d2) i = Some a2" "fat_IntentID a2 = fat_IntentID a1"
        "attempt_confirmed a1 \<longrightarrow> attempt_confirmed a2 \<and> fat_TransactionHash a2 = fat_TransactionHash a1" unfolding quiet_def by blast
      with a1 show ?thesis by auto
    qed
  qed
  moreover have "es_canonicalizations d2 = es_canonicalizations d" using assms by (simp add: quiet_def)
  moreover have "\<forall>i k. gget (lg_journals (es_ledger d)) i = Some k \<longrightarrow> gget (lg_journals (es_ledger d2)) i = Some k" using assms by (simp add: quiet_def)
  moreover have "\<forall>i k. gget (lg_journals (es_ledger d2)) i = Some k \<longrightarrow> gget (lg_journals (es_ledger d)) i = Some k \<or> i = fj_ID k \<and> no_funding k"
    using assms unfolding quiet_def by blast
  ultimately show ?thesis unfolding quiet_def by blast
qed

lemma quiet_new: "new_journals no_funding d d' \<Longrightarrow> quiet d d'"
  by (auto simp: quiet_def new_journals_def rest_part_def well_keyed_def)

lemma quiet_same: "rest_part d' = rest_part d \<Longrightarrow> es_ledger d' = es_ledger d \<Longrightarrow> quiet d d'"
  by (rule quiet_new) (simp add: new_journals_def)

definition fund_part :: "escrow_db \<Rightarrow> (string, funding_intent) gomap \<times> (string, funding_attempt) gomap \<times> canonicalization list \<times> sql_ledger" where
  "fund_part d = (es_intents d, es_attempts d, es_canonicalizations d, es_ledger d)"

lemma quiet_part: "fund_part d' = fund_part d \<Longrightarrow> quiet d d'"
  by (auto simp: quiet_def fund_part_def well_keyed_def)

lemma quiet_self [simp]: "quiet d d"
  by (simp add: quiet_part)

lemma quiet_frame [simp]:
  "quiet d (set_task_status now i s d)" "quiet d (add_attempt_state x d)" "quiet d (insert_transaction y d)" "quiet d (insert_event z d)"
  "quiet d (orphan_states now S reason h d)" "quiet d (rewind_cursor S n d)" "quiet d (cut_canonical S n d)" "quiet d (d\<lparr>es_cursors := u\<rparr>)"
  "quiet d (add_failed_state x d)" "quiet d (register_deployment r d)"
  by (rule quiet_part, simp add: fund_part_def set_task_status_def add_attempt_state_def insert_transaction_def insert_event_def orphan_states_def
      rewind_cursor_def cut_canonical_def add_failed_state_def register_deployment_def Let_def split: option.split)+

lemma quiet_kept:
  "insert_intent_event e d = Inr d' \<Longrightarrow> quiet d d'" "insert_block now S b d = Inr d' \<Longrightarrow> quiet d d'" "insert_event_state x d = Inr d' \<Longrightarrow> quiet d d'"
  by (rule quiet_part, auto simp: fund_part_def insert_intent_event_def insert_block_def insert_event_state_def Let_def split: if_splits)+

lemma quiet_assignments [simp]: "quiet d (foldl (\<lambda>d a. orphan_assignment now a d) d xs)"
proof (rule quiet_part)
  have "fund_part (orphan_assignment now x d) = fund_part d" for x d
    by (simp add: orphan_assignment_def fund_part_def set_task_status_def Let_def split: option.split)
  then show "fund_part (foldl (\<lambda>d a. orphan_assignment now a d) d xs) = fund_part d" by (induction xs arbitrary: d) simp_all
qed

section \<open>Intents and attempts\<close>

lemma quiet_intent:
  assumes "gget (es_intents d) (fti_ID t) = Some t0" "fti_TaskID t = fti_TaskID t0" "\<not> intent_confirmed t"
  shows "quiet d (put_intent t d)"
proof -
  have "well_keyed (put_intent t d)" if "well_keyed d"
    using that assms(1,2) by (auto simp: well_keyed_def put_intent_def split: if_splits)
  with assms show ?thesis by (auto simp: quiet_def put_intent_def split: if_splits)
qed

lemma quiet_insert_intent:
  assumes "insert_funding_intent t d = Inr d'" "\<not> intent_confirmed t"
  shows "quiet d d'"
proof -
  have d': "d' = put_intent t d" and new: "gget (es_intents d) (fti_ID t) = None" and tk: "\<And>x. x \<in> set (gvals (es_intents d)) \<Longrightarrow> fti_TaskID x \<noteq> fti_TaskID t"
    using assms(1) by (auto simp: insert_funding_intent_def list_ex_iff split: if_splits)
  have tk': "fti_TaskID x \<noteq> fti_TaskID t" if "gget (es_intents d) i = Some x" for i x using tk gvals_memI [OF that] by blast
  have "well_keyed d'" if "well_keyed d"
    using that tk' tk' [symmetric] by (auto simp: d' well_keyed_def put_intent_def split: if_splits)
  with assms(2) new show ?thesis by (auto simp: quiet_def d' put_intent_def split: if_splits)
qed

text \<open>Attempts keep their identity; a confirmed one stays as it is.\<close>

lemma quiet_attempts:
  assumes "\<And>i a. gget x i = Some a \<longleftrightarrow> (\<exists>a0. gget (es_attempts d) i = Some a0 \<and> a = f a0)" "gwf (es_attempts d) \<Longrightarrow> gwf x"
    and "\<And>a. fat_ID (f a) = fat_ID a \<and> fat_IntentID (f a) = fat_IntentID a \<and> (attempt_confirmed a \<longrightarrow> f a = a)"
  shows "quiet d (d\<lparr>es_attempts := x\<rparr>)"
proof -
  have "well_keyed (d\<lparr>es_attempts := x\<rparr>)" if "well_keyed d"
    using that assms unfolding well_keyed_def by auto
  moreover have "\<exists>a'. gget x i = Some a' \<and> fat_IntentID a' = fat_IntentID a \<and> (attempt_confirmed a \<longrightarrow> attempt_confirmed a' \<and> fat_TransactionHash a' = fat_TransactionHash a)"
    if "gget (es_attempts d) i = Some a" for i a
    using that assms(1,3) by (intro exI [of _ "f a"]) auto
  ultimately show ?thesis by (auto simp: quiet_def)
qed

lemma gget_map_values: "gget (map (\<lambda>(k, a). (k, f a)) m) i = map_option f (gget m i)"
  by (induction m) (auto simp: gget_def)

lemma gwf_map_values: "gwf (map (\<lambda>(k, a). (k, f a)) m) = gwf m"
  by (simp add: gwf_def o_def case_prod_beta)

lemma quiet_map_attempts:
  assumes "\<And>a. fat_ID (f a) = fat_ID a \<and> fat_IntentID (f a) = fat_IntentID a \<and> (attempt_confirmed a \<longrightarrow> f a = a)"
  shows "quiet d (d\<lparr>es_attempts := map (\<lambda>(k, a). (k, f a)) (es_attempts d)\<rparr>)"
  by (rule quiet_attempts [where f = f]) (use assms in \<open>auto simp: gget_map_values gwf_map_values\<close>)

lemma quiet_attempt:
  assumes "gget (es_attempts d) (fat_ID a) = Some a0" "fat_IntentID a = fat_IntentID a0" "\<not> attempt_confirmed a0"
  shows "quiet d (put_funding_attempt a d)"
proof -
  have "well_keyed (put_funding_attempt a d)" if "well_keyed d"
    using that by (auto simp: well_keyed_def put_funding_attempt_def split: if_splits)
  with assms show ?thesis by (auto simp: quiet_def put_funding_attempt_def split: if_splits)
qed

lemma quiet_insert_attempt: "insert_attempt a d = Inr d' \<Longrightarrow> quiet d d'"
proof -
  assume "insert_attempt a d = Inr d'"
  then have d': "d' = put_funding_attempt a d" and new: "gget (es_attempts d) (fat_ID a) = None" by (auto simp: insert_attempt_def split: if_splits)
  have "well_keyed d'" if "well_keyed d" using that by (auto simp: d' well_keyed_def put_funding_attempt_def split: if_splits)
  with new show ?thesis by (auto simp: quiet_def d' put_funding_attempt_def split: if_splits)
qed

section \<open>The quiet operations\<close>

text \<open>The lookups by other columns find rows that lie under their identifiers.\<close>

lemma attempt_of_transactionD:
  assumes "attempt_of_transaction S h d = Some a" "well_keyed d"
  shows "gget (es_attempts d) (fat_ID a) = Some a" "fat_TransactionHash a = h"
proof -
  from assms(1) have "a \<in> set (gvals (es_attempts d))" "fat_TransactionHash a = h" by (auto simp: attempt_of_transaction_def find_Some_iff)
  with assms(2) show "gget (es_attempts d) (fat_ID a) = Some a" "fat_TransactionHash a = h" by (auto simp: well_keyed_def gvals_mem)
qed

lemma intent_valD: "well_keyed d \<Longrightarrow> t \<in> set (gvals (es_intents d)) \<Longrightarrow> gget (es_intents d) (fti_ID t) = Some t"
  by (auto simp: well_keyed_def gvals_mem)

lemma attempt_valD: "well_keyed d \<Longrightarrow> a \<in> set (gvals (es_attempts d)) \<Longrightarrow> gget (es_attempts d) (fat_ID a) = Some a"
  by (auto simp: well_keyed_def gvals_mem)

lemma quiet_if_keyed: "(well_keyed d \<Longrightarrow> quiet d d') \<Longrightarrow> fund_part d' = fund_part d \<or> well_keyed d \<Longrightarrow> quiet d d'"
  using quiet_part by blast

lemma fail_intent_quiet:
  assumes "fail_intent now h t d = Inr d'" "gget (es_intents d) (fti_ID t) = Some t"
  shows "quiet d d'"
proof -
  let ?t = "t\<lparr>fti_Status := ''failed'', fti_FailureReasonCode := ''chain_transaction_failed'', fti_AggregateVersion := fti_AggregateVersion t + 1, fti_UpdatedAt := now\<rparr>"
  from assms(1) obtain e where e: "insert_intent_event e (put_intent ?t d) = Inr d'" by (auto simp: fail_intent_def Let_def)
  have "quiet d (put_intent ?t d)" by (rule quiet_intent [of _ _ t]) (simp_all add: assms(2))
  then show ?thesis using quiet_kept(1) [OF e] by (rule quiet_trans)
qed

lemma project_failed_quiet:
  assumes "project_failed now S h status b d = Inr d'" "well_keyed d"
  shows "quiet d d'"
proof (cases "d' = d")
  case False
  with assms(1) obtain a t where a: "attempt_of_transaction S h d = Some a" and t: "gget (es_intents d) (fat_IntentID a) = Some t" and nc: "\<not> attempt_confirmed a"
    and d': "(let d1 = add_failed_state (failed_state S b now a) (put_funding_attempt (a\<lparr>fat_State := ''observed_failed'', fat_UpdatedAt := now\<rparr>) d)
      in if fti_Status t = ''confirmed'' \<or> live_attempt (fti_ID t) (fat_ID a) d1 then Inr d1 else fail_intent now h t d1) = Inr d'"
    by (auto simp: project_failed_def split: if_splits option.splits)
  let ?d1 = "put_funding_attempt (a\<lparr>fat_State := ''observed_failed'', fat_UpdatedAt := now\<rparr>) d"
  let ?d2 = "add_failed_state (failed_state S b now a) ?d1"
  have "quiet d ?d1" by (rule quiet_attempt [of _ _ a]) (simp_all add: attempt_of_transactionD [OF a assms(2)] nc)
  then have q: "quiet d ?d2" by (rule quiet_trans) simp
  have "gget (es_intents ?d2) (fti_ID t) = Some t"
    using t assms(2) by (auto simp: add_failed_state_def add_attempt_state_def put_funding_attempt_def well_keyed_def)
  with d' have "quiet ?d2 d'" by (auto simp: Let_def intro: fail_intent_quiet split: if_splits)
  with q show ?thesis by (rule quiet_trans)
qed simp

lemma quiet_keyed: "quiet d d' \<Longrightarrow> well_keyed d \<Longrightarrow> well_keyed d'"
  by (simp add: quiet_def)

lemma apply_transactions_quiet: "apply_transactions D now S h xs d = Inr d' \<Longrightarrow> well_keyed d \<Longrightarrow> quiet d d'"
proof (induction xs arbitrary: d)
  case (Cons x xs)
  then obtain y d1 where d1: "project_failed now S (tr_Hash x) (tr_Status x) h (insert_transaction y d) = Inr d1" "apply_transactions D now S h xs d1 = Inr d'"
    by (auto simp: rbind_Inr_iff)
  have 0: "quiet d (insert_transaction y d)" by simp
  have 1: "quiet d d1" using quiet_trans [OF 0 project_failed_quiet [OF d1(1) quiet_keyed [OF 0 Cons.prems(2)]]] .
  show ?case using quiet_trans [OF 1 Cons.IH [OF d1(2) quiet_keyed [OF 1 Cons.prems(2)]]] .
qed simp

lemma orphan_failed_one_quiet:
  assumes "orphan_failed_one now S h a d = Inr d'" "well_keyed d"
  shows "quiet d d'"
proof -
  obtain x where x: "(case gget (es_intents (add_attempt_state x d)) (fat_IntentID a) of
        None \<Rightarrow> Inr (add_attempt_state x d)
      | Some t \<Rightarrow>
          if fti_Status t \<noteq> ''failed'' \<or> fti_TransactionHash t \<noteq> fat_TransactionHash a then Inr (add_attempt_state x d)
          else let t' = t\<lparr>fti_Status := ''orphaned'', fti_FailureReasonCode := ''chain_reorganization'', fti_AggregateVersion := fti_AggregateVersion t + 1,
                       fti_UpdatedAt := now\<rparr> in
            insert_intent_event \<lparr>fie_IntentID = fti_ID t, fie_AggregateVersion = fti_AggregateVersion t', fie_State = ''orphaned'',
              fie_TransactionHash = fat_TransactionHash a, fie_ChainEventID = [], fie_ReasonCode = ''chain_reorganization'', fie_OccurredAt = now\<rparr>
              (put_intent t' (add_attempt_state x d))) = Inr d'"
    using assms(1) unfolding orphan_failed_one_def Let_def by blast
  let ?d1 = "add_attempt_state x d"
  have q1: "quiet d ?d1" by simp
  have wk: "well_keyed ?d1" by (rule quiet_keyed [OF q1 assms(2)])
  show ?thesis
  proof (cases "d' = ?d1")
    case False
    with x obtain t e t' where t: "gget (es_intents ?d1) (fat_IntentID a) = Some t" and e: "insert_intent_event e (put_intent t' ?d1) = Inr d'"
      and t': "fti_ID t' = fti_ID t" "fti_TaskID t' = fti_TaskID t" "fti_Status t' = ''orphaned''"
      by (auto simp: Let_def split: option.splits if_splits)
    have "gget (es_intents ?d1) (fti_ID t) = Some t" using t wk by (auto simp: well_keyed_def)
    then have "quiet ?d1 (put_intent t' ?d1)" by (intro quiet_intent [of _ _ t]) (simp_all add: t')
    then show ?thesis using quiet_kept(1) [OF e] quiet_trans q1 by blast
  qed simp
qed

lemma orphan_failed_quiet:
  assumes "orphan_failed now S h d = Inr d'" "well_keyed d"
  shows "quiet d d'"
proof -
  let ?f = "\<lambda>a. if failed_in_block S h d a then a\<lparr>fat_State := ''canonical_orphaned'', fat_UpdatedAt := now\<rparr> else a"
  let ?d1 = "d\<lparr>es_attempts := map (\<lambda>(k, a). (k, ?f a)) (es_attempts d)\<rparr>"
  have q: "quiet d ?d1" by (rule quiet_map_attempts) (auto simp: failed_in_block_def)
  have all: "orphan_failed_all now S h as x = Inr y \<Longrightarrow> well_keyed x \<Longrightarrow> quiet x y" for as x y
  proof (induction as arbitrary: x)
    case (Cons a as)
    then obtain z where z: "orphan_failed_one now S h a x = Inr z" "orphan_failed_all now S h as z = Inr y" by (auto simp: rbind_Inr_iff)
    have 1: "quiet x z" by (rule orphan_failed_one_quiet [OF z(1) Cons.prems(2)])
    show ?case using quiet_trans [OF 1 Cons.IH [OF z(2) quiet_keyed [OF 1 Cons.prems(2)]]] .
  qed simp
  from assms(1) have "orphan_failed_all now S h (filter (failed_in_block S h d) (gvals (es_attempts d))) ?d1 = Inr d'" by (simp add: orphan_failed_def)
  from quiet_trans [OF q all [OF this quiet_keyed [OF q assms(2)]]] show ?thesis .
qed

lemma prepare_quiet:
  assumes "prepare_tx V c now s key taskID d = Inr (r, d')"
  shows "quiet d d'"
proof (cases "d' = d")
  case False
  then have "intent_of_task taskID d = None"
    using assms by (cases "intent_of_task taskID d") (auto simp: prepare_tx_def rbind_Inr_iff split: if_splits)
  with assms obtain t d1 e where t: "insert_funding_intent t d = Inr d1" "insert_intent_event e d1 = Inr d'" and st: "fti_Status t = ''prepared''"
    by (auto simp: prepare_tx_def prepared_intent_def Let_def rbind_Inr_iff split: if_splits)
  have "quiet d d1" by (rule quiet_insert_intent [OF t(1)]) (simp add: st)
  then show ?thesis using quiet_kept(1) [OF t(2)] by (rule quiet_trans)
qed simp

lemma supersede_prior_quiet: "well_keyed d \<Longrightarrow> quiet d (supersede_prior now t d)"
proof -
  assume wk: "well_keyed d"
  have "quiet d (add_attempt_state x (put_funding_attempt (a\<lparr>fat_State := ''superseded'', fat_UpdatedAt := now\<rparr>) d))"
    if "find (\<lambda>a. supersedable (fti_ID t) a \<and> fat_TransactionHash a = fti_TransactionHash t) (gvals (es_attempts d)) = Some a" for a x
  proof -
    from that have a: "gget (es_attempts d) (fat_ID a) = Some a" "\<not> attempt_confirmed a"
      using attempt_valD [OF wk] by (auto simp: find_Some_iff supersedable_def)
    have "quiet d (put_funding_attempt (a\<lparr>fat_State := ''superseded'', fat_UpdatedAt := now\<rparr>) d)"
      by (rule quiet_attempt [of _ _ a]) (simp_all add: a)
    then show ?thesis by (rule quiet_trans) simp
  qed
  then show ?thesis by (auto simp: supersede_prior_def split: option.split)
qed

lemma submit_quiet:
  assumes "submit_tx V now s taskID i q d = Inr (r, d')" "well_keyed d"
  shows "quiet d d'"
proof (cases "d' = d")
  case False
  with assms(1) obtain t h where t: "owned_intent s taskID i d = Some t" and w: "submit_write V now t h d = Inr d'"
    by (auto simp: submit_tx_def Let_def rbind_Inr_iff from_option_Inr_iff split: if_splits)
  from t have g: "gget (es_intents d) (fti_ID t) = Some t" using assms(2) by (auto simp: owned_intent_def well_keyed_def split: option.splits if_splits)
  from w obtain a d1 t' e x where d1: "insert_attempt a (supersede_prior now t d) = Inr d1"
    and e: "insert_intent_event e (put_intent t' (add_attempt_state x d1)) = Inr d'" and t': "fti_ID t' = fti_ID t" "fti_TaskID t' = fti_TaskID t" "fti_Status t' = ''submitted''"
    by (auto simp: submit_write_def Let_def rbind_Inr_iff)
  have "es_intents (add_attempt_state x d1) = es_intents d"
    using d1 by (auto simp: insert_attempt_def put_funding_attempt_def add_attempt_state_def supersede_prior_def split: if_splits option.splits)
  then have "quiet (add_attempt_state x d1) (put_intent t' (add_attempt_state x d1))" by (intro quiet_intent [of _ _ t]) (simp_all add: t' g)
  moreover have "quiet d (add_attempt_state x d1)"
    using quiet_trans [OF quiet_trans [OF supersede_prior_quiet [OF assms(2)] quiet_insert_attempt [OF d1]] quiet_frame(2)] .
  ultimately show ?thesis using quiet_kept(1) [OF e] quiet_trans by blast
qed simp

section \<open>Confirmed intents are booked\<close>

definition canon_ok :: "escrow_db \<Rightarrow> canonicalization \<Rightarrow> bool" where
  "canon_ok d c \<longleftrightarrow> (\<exists>t a k. gget (es_intents d) (fcn_IntentID c) = Some t \<and> gget (es_attempts d) (fcn_AttemptID c) = Some a \<and> fat_IntentID a = fcn_IntentID c \<and>
     gget (lg_journals (es_ledger d)) (fcn_JournalID c) = Some k \<and> (fj_Type k = ''funding'' \<longrightarrow> fj_TaskID k = fti_TaskID t))"

abbreviation live_of :: "string \<Rightarrow> canonicalization \<Rightarrow> bool" where
  "live_of i c \<equiv> fcn_IntentID c = i \<and> fcn_OrphanedAt c = None"

text \<open>The canonicalization of a confirmed intent: it names its event, and its attempt is the confirmed transaction.\<close>

definition funds :: "escrow_db \<Rightarrow> funding_intent \<Rightarrow> canonicalization \<Rightarrow> bool" where
  "funds d t c \<longleftrightarrow> live_of (fti_ID t) c \<and> fcn_ChainEventID c = fti_ChainEventID t \<and>
     (\<exists>a. gget (es_attempts d) (fcn_AttemptID c) = Some a \<and> fat_IntentID a = fti_ID t \<and> attempt_confirmed a \<and> fat_TransactionHash a = fti_TransactionHash t)"

definition funded_inv :: "escrow_db \<Rightarrow> bool" where
  "funded_inv d \<longleftrightarrow> well_keyed d \<and> (\<forall>c \<in> set (es_canonicalizations d). canon_ok d c) \<and> distinct (map fcn_JournalID (es_canonicalizations d)) \<and>
     (\<forall>i. length (filter (live_of i) (es_canonicalizations d)) \<le> 1) \<and>
     (\<forall>k x. gget (lg_journals (es_ledger d)) k = Some x \<longrightarrow> fj_Type x = ''funding'' \<longrightarrow> k \<in> fcn_JournalID ` set (es_canonicalizations d)) \<and>
     (\<forall>i t. gget (es_intents d) i = Some t \<longrightarrow> intent_confirmed t \<longrightarrow> (\<exists>c \<in> set (es_canonicalizations d). funds d t c))"

lemma funded_parts:
  assumes "funded_inv d"
  shows "well_keyed d" "c \<in> set (es_canonicalizations d) \<Longrightarrow> canon_ok d c" "distinct (map fcn_JournalID (es_canonicalizations d))"
    "length (filter (live_of i) (es_canonicalizations d)) \<le> 1"
    "gget (lg_journals (es_ledger d)) k = Some x \<Longrightarrow> fj_Type x = ''funding'' \<Longrightarrow> k \<in> fcn_JournalID ` set (es_canonicalizations d)"
    "gget (es_intents d) i = Some t \<Longrightarrow> intent_confirmed t \<Longrightarrow> \<exists>c \<in> set (es_canonicalizations d). funds d t c"
  using assms unfolding funded_inv_def by blast+

lemma quiet_funded:
  assumes "quiet d d'" "funded_inv d"
  shows "funded_inv d'"
proof -
  note p = funded_parts [OF assms(2)]
  have can: "es_canonicalizations d' = es_canonicalizations d"
    and old: "\<And>i k. gget (lg_journals (es_ledger d)) i = Some k \<Longrightarrow> gget (lg_journals (es_ledger d')) i = Some k"
    and new: "\<And>i k. gget (lg_journals (es_ledger d')) i = Some k \<Longrightarrow> gget (lg_journals (es_ledger d)) i = Some k \<or> i = fj_ID k \<and> no_funding k"
    and wk: "well_keyed d'" and int: "\<And>i t. gget (es_intents d) i = Some t \<Longrightarrow> \<exists>t'. gget (es_intents d') i = Some t' \<and> fti_TaskID t' = fti_TaskID t"
    and conf: "\<And>i t. gget (es_intents d') i = Some t \<Longrightarrow> intent_confirmed t \<Longrightarrow> gget (es_intents d) i = Some t"
    and att: "\<And>i a. gget (es_attempts d) i = Some a \<Longrightarrow> \<exists>a'. gget (es_attempts d') i = Some a' \<and> fat_IntentID a' = fat_IntentID a \<and>
      (attempt_confirmed a \<longrightarrow> attempt_confirmed a' \<and> fat_TransactionHash a' = fat_TransactionHash a)"
    using assms(1) p(1) unfolding quiet_def by blast+
  show ?thesis unfolding funded_inv_def can
  proof (intro conjI ballI allI impI)
    show "canon_ok d' c" if c: "c \<in> set (es_canonicalizations d)" for c
    proof -
      from p(2) [OF c] obtain t a k where x: "gget (es_intents d) (fcn_IntentID c) = Some t" "gget (es_attempts d) (fcn_AttemptID c) = Some a"
        "fat_IntentID a = fcn_IntentID c" "gget (lg_journals (es_ledger d)) (fcn_JournalID c) = Some k" "fj_Type k = ''funding'' \<longrightarrow> fj_TaskID k = fti_TaskID t"
        by (auto simp: canon_ok_def)
      from int [OF x(1)] att [OF x(2)] old [OF x(4)] x(3,5) show ?thesis unfolding canon_ok_def by fastforce
    qed
    show "k \<in> fcn_JournalID ` set (es_canonicalizations d)" if "gget (lg_journals (es_ledger d')) k = Some x" "fj_Type x = ''funding''" for k x
      using new [OF that(1)] that(2) p(5) by blast
    show "\<exists>c \<in> set (es_canonicalizations d). funds d' t c" if t: "gget (es_intents d') i = Some t" "intent_confirmed t" for i t
    proof -
      from p(6) [OF conf [OF t] t(2)] obtain c a where c: "c \<in> set (es_canonicalizations d)" "live_of (fti_ID t) c" "fcn_ChainEventID c = fti_ChainEventID t"
        "gget (es_attempts d) (fcn_AttemptID c) = Some a" "fat_IntentID a = fti_ID t" "attempt_confirmed a" "fat_TransactionHash a = fti_TransactionHash t"
        by (auto simp: funds_def)
      from att [OF c(4)] c(5-7) have "\<exists>a. gget (es_attempts d') (fcn_AttemptID c) = Some a \<and> fat_IntentID a = fti_ID t \<and> attempt_confirmed a \<and> fat_TransactionHash a = fti_TransactionHash t"
        by auto
      with c(1-3) show ?thesis unfolding funds_def by blast
    qed
  qed (use wk p(3,4) in auto)
qed

lemma funded_keyed: "funded_inv d \<Longrightarrow> well_keyed d"
  by (rule funded_parts(1))

section \<open>A funding is applied\<close>

lemma funding_rowsD:
  assumes "funding_rows S v d = Some (t, a, k)" "well_keyed d"
  shows "gget (es_intents d) (fti_ID t) = Some t" "gget (es_attempts d) (fat_ID a) = Some a" "fat_TransactionHash a = ve_TransactionHash v" "fat_IntentID a = fti_ID t"
proof -
  from assms(1) have a: "attempt_of_transaction S (ve_TransactionHash v) d = Some a" and t: "intent_of_chain_task S (ve_TaskID v) d = Some t"
    and m: "fat_IntentID a = fti_ID t"
    by (auto simp: funding_rows_def split: option.splits if_splits)
  from t have "t \<in> set (gvals (es_intents d))" by (auto simp: intent_of_chain_task_def find_Some_iff)
  then show "gget (es_intents d) (fti_ID t) = Some t" by (rule intent_valD [OF assms(2)])
  show "gget (es_attempts d) (fat_ID a) = Some a" "fat_TransactionHash a = ve_TransactionHash v" using attempt_of_transactionD [OF a assms(2)] .
  show "fat_IntentID a = fti_ID t" by (rule m)
qed

lemma new_journals_inv:
  assumes "new_journals P d d'"
  shows "es_intents d' = es_intents d" "es_attempts d' = es_attempts d" "es_canonicalizations d' = es_canonicalizations d" "well_keyed d' = well_keyed d"
    "gget (lg_journals (es_ledger d)) i = Some k \<Longrightarrow> gget (lg_journals (es_ledger d')) i = Some k"
    "gget (lg_journals (es_ledger d')) i = Some k \<Longrightarrow> gget (lg_journals (es_ledger d)) i = Some k \<or> i = fj_ID k \<and> P k"
  using assms by (auto simp: new_journals_def rest_part_def well_keyed_def)

text \<open>What the funding leaves: one canonicalization more, its attempt and its intent confirmed.\<close>

lemma funded_put:
  assumes inv: "funded_inv d" and new: "new_journals (\<lambda>k. fj_ID k = j \<and> fj_TaskID k = fti_TaskID t) d d1"
    and t: "gget (es_intents d) (fti_ID t) = Some t" and a: "gget (es_attempts d) (fat_ID a) = Some a" "fat_IntentID a = fti_ID t"
    and none: "filter (live_of (fti_ID t)) (es_canonicalizations d) = []"
    and c: "fcn_IntentID c = fti_ID t" "fcn_AttemptID c = fat_ID a" "fcn_JournalID c = j" "fcn_OrphanedAt c = None" "fcn_ChainEventID c = fti_ChainEventID t'"
      "j \<notin> fcn_JournalID ` set (es_canonicalizations d)" "gget (lg_journals (es_ledger d1)) j \<noteq> None"
    and d': "es_canonicalizations d' = es_canonicalizations d @ [c]" "es_ledger d' = es_ledger d1"
      "\<And>i. gget (es_intents d') i = (if i = fti_ID t then Some t' else gget (es_intents d) i)" "gwf (es_intents d')"
      "\<And>i. gget (es_attempts d') i = (if i = fat_ID a then Some a' else map_option f (gget (es_attempts d) i))" "gwf (es_attempts d')"
    and t': "fti_ID t' = fti_ID t" "fti_TaskID t' = fti_TaskID t"
    and a': "fat_ID a' = fat_ID a" "fat_IntentID a' = fat_IntentID a" "attempt_confirmed a'" "fat_TransactionHash a' = fti_TransactionHash t'"
    and f: "\<And>x. fat_ID (f x) = fat_ID x \<and> fat_IntentID (f x) = fat_IntentID x \<and> (attempt_confirmed x \<longrightarrow> f x = x)"
  shows "funded_inv d'"
proof -
  note p = funded_parts [OF inv]
  note n = new_journals_inv [OF new]
  have "well_keyed d'" unfolding well_keyed_def
  proof (intro conjI allI impI)
    show "fti_ID u = i" if "gget (es_intents d') i = Some u" for i u
      using that p(1) t'(1) unfolding d'(3) well_keyed_def by (auto split: if_splits)
    show "fat_ID b = i" if "gget (es_attempts d') i = Some b" for i b
      using that p(1) a'(1) f unfolding d'(5) well_keyed_def by (auto split: if_splits)
    have old: "\<exists>u0. gget (es_intents d) i = Some u0 \<and> fti_TaskID u0 = fti_TaskID u" if "gget (es_intents d') i = Some u" for i u
      using that t t'(2) unfolding d'(3) by (auto split: if_splits)
    show "i = j" if "gget (es_intents d') i = Some u" "gget (es_intents d') j = Some w" "fti_TaskID u = fti_TaskID w" for i j u w
    proof -
      from old [OF that(1)] old [OF that(2)] that(3) obtain u0 w0 where "gget (es_intents d) i = Some u0" "gget (es_intents d) j = Some w0"
        "fti_TaskID u0 = fti_TaskID w0" by auto
      with p(1) show ?thesis unfolding well_keyed_def by blast
    qed
  qed (fact d')+
  moreover have "canon_ok d' x" if x: "x \<in> set (es_canonicalizations d')" for x
  proof (cases "x = c")
    case True
    from c(7) obtain k where k: "gget (lg_journals (es_ledger d1)) j = Some k" by auto
    have "fj_Type k = ''funding'' \<longrightarrow> fj_TaskID k = fti_TaskID t" using n(6) [OF k] p(5) [of j k] c(6) by blast
    with True k c(1-3) t' a' a(2) show ?thesis by (auto simp: canon_ok_def d'(2,3,5))
  next
    case False
    with x d'(1) have "x \<in> set (es_canonicalizations d)" by auto
    from p(2) [OF this] obtain u b k where u: "gget (es_intents d) (fcn_IntentID x) = Some u" "gget (es_attempts d) (fcn_AttemptID x) = Some b"
      "fat_IntentID b = fcn_IntentID x" "gget (lg_journals (es_ledger d)) (fcn_JournalID x) = Some k" "fj_Type k = ''funding'' \<longrightarrow> fj_TaskID k = fti_TaskID u"
      by (auto simp: canon_ok_def)
    have "\<exists>u'. gget (es_intents d') (fcn_IntentID x) = Some u' \<and> fti_TaskID u' = fti_TaskID u" using u(1) t t' by (auto simp: d'(3))
    moreover have "\<exists>b'. gget (es_attempts d') (fcn_AttemptID x) = Some b' \<and> fat_IntentID b' = fcn_IntentID x" using u(2,3) a a' f by (auto simp: d'(5))
    moreover have "gget (lg_journals (es_ledger d')) (fcn_JournalID x) = Some k" using n(5) [OF u(4)] by (simp add: d'(2))
    ultimately show ?thesis using u(5) unfolding canon_ok_def by force
  qed
  moreover have "distinct (map fcn_JournalID (es_canonicalizations d'))" using p(3) c(3,6) by (simp add: d'(1))
  moreover have "length (filter (live_of i) (es_canonicalizations d')) \<le> 1" for i
    using p(4) [of i] none c(1,4) by (auto simp: d'(1))
  moreover have "k \<in> fcn_JournalID ` set (es_canonicalizations d')" if "gget (lg_journals (es_ledger d')) k = Some x" "fj_Type x = ''funding''" for k x
  proof -
    from that(1) n(6) [of k x] have "gget (lg_journals (es_ledger d)) k = Some x \<or> k = j" by (auto simp: d'(2))
    then show ?thesis using p(5) that(2) c(3) by (auto simp: d'(1))
  qed
  moreover have "\<exists>c \<in> set (es_canonicalizations d'). funds d' u c" if u: "gget (es_intents d') i = Some u" "intent_confirmed u" for i u
  proof (cases "i = fti_ID t")
    case True
    with u have "u = t'" by (simp add: d'(3))
    then have "funds d' u c" using c(1,2,4,5) t' a' a(2) by (auto simp: funds_def d'(5))
    then show ?thesis by (auto simp: d'(1))
  next
    case False
    with u have u0: "gget (es_intents d) i = Some u" by (simp add: d'(3))
    from p(6) [OF u0 u(2)] obtain x b where x: "x \<in> set (es_canonicalizations d)" "live_of (fti_ID u) x" "fcn_ChainEventID x = fti_ChainEventID u"
      "gget (es_attempts d) (fcn_AttemptID x) = Some b" "fat_IntentID b = fti_ID u" "attempt_confirmed b" "fat_TransactionHash b = fti_TransactionHash u"
      by (auto simp: funds_def)
    have "fti_ID u \<noteq> fti_ID t" using False u0 p(1) by (auto simp: well_keyed_def)
    then have "fcn_AttemptID x \<noteq> fat_ID a" using x(4,5) a by auto
    then have "gget (es_attempts d') (fcn_AttemptID x) = Some b" using x(4,6) f by (simp add: d'(5))
    with x show ?thesis by (auto simp: funds_def d'(1))
  qed
  ultimately show ?thesis unfolding funded_inv_def by blast
qed

lemma insert_canonicalizationD:
  assumes "insert_canonicalization c d = Inr d'"
  shows "d' = d\<lparr>es_canonicalizations := es_canonicalizations d @ [c]\<rparr>" "fcn_JournalID c \<notin> fcn_JournalID ` set (es_canonicalizations d)"
    "gget (lg_journals (es_ledger d)) (fcn_JournalID c) \<noteq> None"
  using assms by (auto simp: insert_canonicalization_def list_ex_iff split: if_splits)

lemma live_canonicalization_None: "live_canonicalization i d = None \<longleftrightarrow> filter (live_of i) (es_canonicalizations d) = []"
  by (auto simp: live_canonicalization_def find_None_iff filter_empty_conv)

lemma confirm_intent_parts:
  assumes "confirm_intent now v target t d = Inr d'"
  shows "es_intents d' = gput (fti_ID t) (confirmed_intent now v t) (es_intents d)" "es_attempts d' = es_attempts d"
    "es_canonicalizations d' = es_canonicalizations d"
  using assms by (auto simp: confirm_intent_def insert_intent_event_def put_intent_def confirmed_intent_def Let_def split: if_splits)

lemma confirm_attempt_parts [simp]: "es_intents (confirm_attempt now v a d) = es_intents d"
  "es_attempts (confirm_attempt now v a d) = gput (fat_ID a) (a\<lparr>fat_State := ''canonical_confirmed'', fat_UpdatedAt := now\<rparr>) (es_attempts d)"
  "es_canonicalizations (confirm_attempt now v a d) = es_canonicalizations d"
  by (simp_all add: confirm_attempt_def put_funding_attempt_def add_attempt_state_def)

lemma supersede_attempts_parts [simp]: "es_intents (supersede_attempts now i j d) = es_intents d"
  "es_attempts (supersede_attempts now i j d) = map (\<lambda>(k, a). (k, if supersedable i a \<and> fat_ID a \<noteq> j then a\<lparr>fat_State := ''superseded'', fat_UpdatedAt := now\<rparr> else a))
     (es_attempts d)"
  "es_canonicalizations (supersede_attempts now i j d) = es_canonicalizations d"
  by (simp_all add: supersede_attempts_def)

lemma fund_task_parts [simp]: "es_intents (fund_task now t k x d) = es_intents d" "es_attempts (fund_task now t k x d) = es_attempts d"
  "es_canonicalizations (fund_task now t k x d) = es_canonicalizations d"
  by (simp_all add: fund_task_def set_task_status_def split: option.split)

lemma apply_funding_funded:
  assumes "apply_funding H now S v t a k d = Inr d'" "funding_rows S v d = Some (t, a, k)" "funded_inv d"
  shows "funded_inv d'"
proof (cases "live_canonicalization (fti_ID t) d")
  case (Some c)
  with assms(1,3) show ?thesis by (auto simp: apply_funding_def rbind_Inr_iff split: if_splits)
next
  case None
  note rows = funding_rowsD [OF assms(2) funded_keyed [OF assms(3)]]
  let ?j = "funding_journal_id H v (next_epoch (ve_ID v) d)"
  let ?c = "\<lparr>fcn_ChainEventID = ve_ID v, fcn_Epoch = next_epoch (ve_ID v) d, fcn_IntentID = fti_ID t, fcn_AttemptID = fat_ID a, fcn_JournalID = ?j,
    fcn_ReversalJournalID = [], fcn_CanonicalAt = now, fcn_OrphanedAt = None\<rparr>"
  let ?f = "\<lambda>x. if supersedable (fti_ID t) x \<and> fat_ID x \<noteq> fat_ID a then x\<lparr>fat_State := ''superseded'', fat_UpdatedAt := now\<rparr> else x"
  from assms(1) None obtain asset d1 d2 where d1: "fund_escrow H now t v asset ?j d = Inr d1" and d2: "insert_canonicalization ?c d1 = Inr d2"
    and d': "confirm_intent now v (funded_status now k) t (confirm_attempt now v a (supersede_attempts now (fti_ID t) (fat_ID a) (fund_task now t k (funded_status now k) d2))) = Inr d'"
    by (auto simp: apply_funding_def Let_def rbind_Inr_iff split: if_splits)
  note new = fund_escrow_new [OF d1]
  note n = new_journals_inv [OF new]
  note c = insert_canonicalizationD [OF d2]
  let ?t = "confirmed_intent now v t"
  let ?a = "a\<lparr>fat_State := ''canonical_confirmed'', fat_UpdatedAt := now\<rparr>"
  have parts: "es_intents d' = gput (fti_ID t) ?t (es_intents d)"
    "es_attempts d' = gput (fat_ID a) ?a (map (\<lambda>(k, x). (k, ?f x)) (es_attempts d))" "es_canonicalizations d' = es_canonicalizations d @ [?c]"
    using n(1-3) by (simp_all add: confirm_intent_parts [OF d'] c(1))
  have ledger: "es_ledger d' = es_ledger d1" using ledger_kept(3) [OF d'] by (simp add: c(1))
  have wk: "gwf (es_intents d)" "gwf (es_attempts d)" using funded_keyed [OF assms(3)] by (auto simp: well_keyed_def)
  show ?thesis
  proof (rule funded_put [OF assms(3) new rows(1,2,4), where f = ?f and c = ?c and t' = ?t and a' = ?a])
    show "filter (live_of (fti_ID t)) (es_canonicalizations d) = []" using None by (simp only: live_canonicalization_None)
    show "?j \<notin> fcn_JournalID ` set (es_canonicalizations d)" "gget (lg_journals (es_ledger d1)) ?j \<noteq> None" using c(2,3) n(3) by simp_all
    show "fat_ID (?f x) = fat_ID x \<and> fat_IntentID (?f x) = fat_IntentID x \<and> (attempt_confirmed x \<longrightarrow> ?f x = x)" for x by (simp add: supersedable_def)
    show "gget (es_attempts d') i = (if i = fat_ID a then Some ?a else map_option ?f (gget (es_attempts d) i))" for i by (simp add: parts gget_map_values)
  qed (use wk in \<open>simp_all add: parts ledger rows confirmed_intent_def gwf_map_values\<close>)
qed

lemma project_settlement_funded:
  assumes "project_settlement H now S v d = Inr d'" "funded_inv d"
  shows "funded_inv d'"
proof (cases "ve_Type v = EventTaskCreated")
  case True
  with assms(1) have "project_created H now S v d = Inr d'" by (simp add: project_settlement_def)
  then show ?thesis using assms(2) by (auto simp: project_created_def intro: apply_funding_funded split: option.splits if_splits)
next
  case False
  from quiet_new [OF project_other_new [OF assms(1) False]] assms(2) show ?thesis by (rule quiet_funded)
qed

lemma apply_events_funded: "apply_events H now S h vs d = Inr d' \<Longrightarrow> funded_inv d \<Longrightarrow> funded_inv d'"
proof (induction vs arbitrary: d)
  case (Cons v vs)
  then obtain d1 d2 x y where d1: "insert_event_state x (insert_event y d) = Inr d1" "project_settlement H now S v d1 = Inr d2" "apply_events H now S h vs d2 = Inr d'"
    by (auto simp: apply_event_def rbind_Inr_iff split: if_splits)
  have "funded_inv d1" using quiet_funded [OF quiet_trans [OF quiet_frame(4) quiet_kept(3) [OF d1(1)]] Cons.prems(2)] .
  from Cons.IH [OF d1(3) project_settlement_funded [OF d1(2) this]] show ?case .
qed simp

lemma store_apply_block_funded:
  assumes "store_apply_block D now S b vs d = Inr (u, d')" "funded_inv d"
  shows "funded_inv d'"
proof -
  from assms(1) obtain d1 d2 d3 x where d: "insert_block now S b d = Inr d1" "apply_transactions D now S (bl_Hash b) (bl_Transactions b) d1 = Inr d2"
    "apply_events (dv_sha D) now S (bl_Hash b) vs d2 = Inr d3" "d' = d3\<lparr>es_cursors := x\<rparr>"
    by (auto simp: store_apply_block_def rbind_Inr_iff split: if_splits)
  have 1: "funded_inv d1" by (rule quiet_funded [OF quiet_kept(2) [OF d(1)] assms(2)])
  have 2: "funded_inv d2" by (rule quiet_funded [OF apply_transactions_quiet [OF d(2) funded_keyed [OF 1]] 1])
  show ?thesis unfolding d(4) by (rule quiet_funded [OF quiet_frame(8) apply_events_funded [OF d(3) 2]])
qed

lemma reconcile_attempt_funded:
  assumes "reconcile_attempt H now S h d = Inr (u, d')" "funded_inv d"
  shows "funded_inv d'"
proof (cases "d' = d")
  case False
  with assms(1) have "(\<exists>b. project_failed now S h TxFailed b d = Inr d') \<or> (\<exists>v. project_settlement H now S v d = Inr d')"
    by (auto simp: reconcile_attempt_def rbind_Inr_iff split: option.splits if_splits)
  then show ?thesis using assms(2) project_settlement_funded quiet_funded [OF project_failed_quiet [OF _ funded_keyed]] by blast
qed (use assms in simp)

section \<open>A funding is reversed\<close>

lemma orphan_intent_cases:
  assumes "orphan_intent now taskID d = Inr d'" "well_keyed d"
  shows "fund_part d' = fund_part d \<and> (\<forall>t. intent_of_task taskID d = Some t \<longrightarrow> \<not> intent_confirmed t) \<or>
    (\<exists>t. intent_of_task taskID d = Some t \<and> gget (es_intents d) (fti_ID t) = Some t \<and>
       fund_part d' = fund_part (put_intent (t\<lparr>fti_Status := ''orphaned'', fti_AggregateVersion := fti_AggregateVersion t + 1, fti_UpdatedAt := now\<rparr>) d))"
proof (cases "intent_of_task taskID d")
  case (Some t)
  then have t: "gget (es_intents d) (fti_ID t) = Some t" using intent_valD [OF assms(2)] by (auto simp: intent_of_task_def find_Some_iff)
  have "fund_part d' = fund_part (put_intent (t\<lparr>fti_Status := ''orphaned'', fti_AggregateVersion := fti_AggregateVersion t + 1, fti_UpdatedAt := now\<rparr>) d)"
    if "intent_confirmed t"
    using assms(1) Some that by (auto simp: orphan_intent_def insert_intent_event_def fund_part_def Let_def split: if_splits)
  moreover have "fund_part d' = fund_part d" if "\<not> intent_confirmed t" using assms(1) Some that by (simp add: orphan_intent_def)
  ultimately show ?thesis using Some t by auto
qed (use assms in \<open>simp add: orphan_intent_def\<close>)

lemma intent_of_taskD:
  assumes "intent_of_task taskID d = Some t" "well_keyed d"
  shows "gget (es_intents d) (fti_ID t) = Some t" "fti_TaskID t = taskID"
  using assms intent_valD [OF assms(2)] by (auto simp: intent_of_task_def find_Some_iff)

lemma orphan_intent_quiet:
  assumes "orphan_intent now taskID d = Inr d'" "well_keyed d"
  shows "quiet d d'"
  using orphan_intent_cases [OF assms]
proof (elim disjE exE conjE)
  fix t :: funding_intent
  let ?t = "t\<lparr>fti_Status := ''orphaned'', fti_AggregateVersion := fti_AggregateVersion t + 1, fti_UpdatedAt := now\<rparr>"
  assume t: "gget (es_intents d) (fti_ID t) = Some t" "fund_part d' = fund_part (put_intent ?t d)"
  have "quiet d (put_intent ?t d)" by (rule quiet_intent [of _ _ t]) (simp_all add: t)
  then show ?thesis using quiet_part [OF t(2)] by (rule quiet_trans)
qed (rule quiet_part)

lemma orphan_canonicalization_parts:
  assumes "find (\<lambda>c. fcn_JournalID c = j \<and> fcn_OrphanedAt c = None) (es_canonicalizations d) = Some c" "gget (es_attempts d) (fcn_AttemptID c) = Some a"
  shows "es_intents (orphan_canonicalization now i j d) = es_intents d"
    "es_attempts (orphan_canonicalization now i j d) = gput (fat_ID a) (a\<lparr>fat_State := ''canonical_orphaned'', fat_UpdatedAt := now\<rparr>) (es_attempts d)"
    "es_canonicalizations (orphan_canonicalization now i j d) =
       map (\<lambda>x. if fcn_JournalID x = j \<and> fcn_OrphanedAt x = None then x\<lparr>fcn_ReversalJournalID := i, fcn_OrphanedAt := Some now\<rparr> else x) (es_canonicalizations d)"
  using assms by (simp_all add: orphan_canonicalization_def add_attempt_state_def put_funding_attempt_def Let_def)

lemma orphan_funded:
  assumes inv: "funded_inv d" and j: "gget (lg_journals (es_ledger d)) j = Some k" "fj_Type k = ''funding''"
    and o: "orphan_intent now (fj_TaskID k) (orphan_canonicalization now r j d) = Inr d'"
  shows "funded_inv d'"
proof (cases "find (\<lambda>c. fcn_JournalID c = j \<and> fcn_OrphanedAt c = None) (es_canonicalizations d)")
  case None
  then have "orphan_canonicalization now r j d = d" by (simp add: orphan_canonicalization_def)
  with o have "orphan_intent now (fj_TaskID k) d = Inr d'" by simp
  from orphan_intent_quiet [OF this funded_keyed [OF inv]] inv show ?thesis by (rule quiet_funded)
next
  case (Some c)
  note p = funded_parts [OF inv]
  from Some have c: "c \<in> set (es_canonicalizations d)" "fcn_JournalID c = j" "fcn_OrphanedAt c = None" by (auto simp: find_Some_iff)
  from p(2) [OF c(1)] c(2) j obtain t a where t: "gget (es_intents d) (fcn_IntentID c) = Some t" "fj_TaskID k = fti_TaskID t"
    and a: "gget (es_attempts d) (fcn_AttemptID c) = Some a" "fat_IntentID a = fcn_IntentID c" by (auto simp: canon_ok_def)
  let ?d1 = "orphan_canonicalization now r j d"
  let ?g = "\<lambda>x. if fcn_JournalID x = j \<and> fcn_OrphanedAt x = None then x\<lparr>fcn_ReversalJournalID := r, fcn_OrphanedAt := Some now\<rparr> else x"
  let ?a = "a\<lparr>fat_State := ''canonical_orphaned'', fat_UpdatedAt := now\<rparr>"
  note d1 = orphan_canonicalization_parts [OF Some a(1), of now r]
  have g: "fcn_JournalID (?g x) = fcn_JournalID x" "fcn_IntentID (?g x) = fcn_IntentID x" "fcn_AttemptID (?g x) = fcn_AttemptID x" for x by simp_all
  have aid: "fat_ID a = fcn_AttemptID c" using a(1) p(1) by (simp add: well_keyed_def)
  have att: "gget (es_attempts ?d1) i = (if i = fcn_AttemptID c then Some ?a else gget (es_attempts d) i)" for i by (simp add: d1 aid)
  have wk1: "well_keyed ?d1" using p(1) aid unfolding well_keyed_def d1(1,2) by auto
  have own: "u = t" if "intent_of_task (fj_TaskID k) ?d1 = Some u" for u
  proof -
    from intent_of_taskD [OF that wk1] have "gget (es_intents d) (fti_ID u) = Some u" "fti_TaskID u = fti_TaskID t" by (simp_all add: d1(1) t(2))
    with t(1) p(1) show ?thesis unfolding well_keyed_def by (metis option.inject)
  qed
  have some: "intent_of_task (fj_TaskID k) ?d1 \<noteq> None"
    using gvals_memI [OF t(1)] t(2) by (auto simp: intent_of_task_def find_None_iff d1(1))
  have q: "quiet ?d1 d'" by (rule orphan_intent_quiet [OF o wk1])
  have conf: "gget (es_intents d) i = Some u \<and> i \<noteq> fcn_IntentID c" if u: "gget (es_intents d') i = Some u" "intent_confirmed u" for i u
  proof -
    from q wk1 u have u0: "gget (es_intents d) i = Some u" by (simp add: quiet_def d1(1))
    moreover have "i \<noteq> fcn_IntentID c"
    proof
      assume i: "i = fcn_IntentID c"
      with u0 t have ut: "u = t" by simp
      have tid: "fti_ID t = i" using u0 ut p(1) by (simp add: well_keyed_def)
      from orphan_intent_cases [OF o wk1] show False
      proof (elim disjE exE conjE)
        assume "\<forall>t. intent_of_task (fj_TaskID k) ?d1 = Some t \<longrightarrow> \<not> intent_confirmed t"
        with some own u(2) ut show False by blast
      next
        fix w :: funding_intent assume w: "intent_of_task (fj_TaskID k) ?d1 = Some w"
          "fund_part d' = fund_part (put_intent (w\<lparr>fti_Status := ''orphaned'', fti_AggregateVersion := fti_AggregateVersion w + 1, fti_UpdatedAt := now\<rparr>) ?d1)"
        then have "gget (es_intents d') i = Some (t\<lparr>fti_Status := ''orphaned'', fti_AggregateVersion := fti_AggregateVersion t + 1, fti_UpdatedAt := now\<rparr>)"
          using own [OF w(1)] tid by (simp add: fund_part_def put_intent_def)
        with u show False by auto
      qed
    qed
    ultimately show ?thesis by blast
  qed
  have can: "es_canonicalizations d' = map ?g (es_canonicalizations d)" using q by (simp add: quiet_def d1(3))
  have jr: "gget (lg_journals (es_ledger d')) i = Some x" if "gget (lg_journals (es_ledger d)) i = Some x" for i x
    using q that by (simp add: quiet_def)
  show ?thesis unfolding funded_inv_def
  proof (intro conjI ballI allI impI)
    show "well_keyed d'" by (rule quiet_keyed [OF q wk1])
    show "canon_ok d' y" if "y \<in> set (es_canonicalizations d')" for y
    proof -
      from that can obtain x where x: "x \<in> set (es_canonicalizations d)" "y = ?g x" by auto
      from p(2) [OF x(1)] obtain u b l where u: "gget (es_intents d) (fcn_IntentID x) = Some u" "gget (es_attempts d) (fcn_AttemptID x) = Some b"
        "fat_IntentID b = fcn_IntentID x" "gget (lg_journals (es_ledger d)) (fcn_JournalID x) = Some l" "fj_Type l = ''funding'' \<longrightarrow> fj_TaskID l = fti_TaskID u"
        by (auto simp: canon_ok_def)
      have "\<exists>u'. gget (es_intents d') (fcn_IntentID x) = Some u' \<and> fti_TaskID u' = fti_TaskID u" using q wk1 u(1) by (simp add: quiet_def d1(1))
      moreover have "\<exists>b1. gget (es_attempts ?d1) (fcn_AttemptID x) = Some b1 \<and> fat_IntentID b1 = fcn_IntentID x" using u(2,3) a by (auto simp: att)
      then have "\<exists>b'. gget (es_attempts d') (fcn_AttemptID x) = Some b' \<and> fat_IntentID b' = fcn_IntentID x" using q wk1 unfolding quiet_def by metis
      ultimately show ?thesis using jr [OF u(4)] u(5) unfolding canon_ok_def x(2) g by force
    qed
    show "distinct (map fcn_JournalID (es_canonicalizations d'))" using p(3) by (simp add: can o_def g)
    show "length (filter (live_of i) (es_canonicalizations d')) \<le> 1" for i
    proof -
      have "length (filter (live_of i) (map ?g xs)) \<le> length (filter (live_of i) xs)" for xs by (induction xs) auto
      then show ?thesis using p(4) [of i] unfolding can by (rule order_trans)
    qed
    show "m \<in> fcn_JournalID ` set (es_canonicalizations d')" if "gget (lg_journals (es_ledger d')) m = Some x" "fj_Type x = ''funding''" for m x
    proof -
      from q that have "gget (lg_journals (es_ledger d)) m = Some x" by (auto simp: quiet_def)
      from p(5) [OF this that(2)] obtain y where y: "y \<in> set (es_canonicalizations d)" "m = fcn_JournalID y" by auto
      have "m = fcn_JournalID (?g y)" by (simp add: y(2))
      moreover have "?g y \<in> set (es_canonicalizations d')" unfolding can set_map using y(1) by (rule imageI)
      ultimately show ?thesis by (rule image_eqI)
    qed
    show "\<exists>x \<in> set (es_canonicalizations d'). funds d' u x" if u: "gget (es_intents d') i = Some u" "intent_confirmed u" for i u
    proof -
      from conf [OF u] have u0: "gget (es_intents d) i = Some u" and ne: "i \<noteq> fcn_IntentID c" by auto
      have uid: "fti_ID u = i" using u0 p(1) by (simp add: well_keyed_def)
      from p(6) [OF u0 u(2)] obtain x b where x: "x \<in> set (es_canonicalizations d)" "live_of (fti_ID u) x" "fcn_ChainEventID x = fti_ChainEventID u"
        "gget (es_attempts d) (fcn_AttemptID x) = Some b" "fat_IntentID b = fti_ID u" "attempt_confirmed b" "fat_TransactionHash b = fti_TransactionHash u"
        by (auto simp: funds_def)
      have "x \<noteq> c" using x(2) uid ne by auto
      then have "fcn_JournalID x \<noteq> j" using p(3) x(1) c(1,2) by (metis distinct_map inj_onD)
      then have gx: "?g x = x" by simp
      have "fcn_AttemptID x \<noteq> fcn_AttemptID c" using x(4,5) a uid ne by auto
      then have "gget (es_attempts ?d1) (fcn_AttemptID x) = Some b" using x(4) by (simp add: att)
      then have "\<exists>b'. gget (es_attempts d') (fcn_AttemptID x) = Some b' \<and> fat_IntentID b' = fat_IntentID b \<and> attempt_confirmed b' \<and> fat_TransactionHash b' = fat_TransactionHash b"
        using q wk1 x(6) unfolding quiet_def by blast
      with x have "funds d' u x" by (auto simp: funds_def)
      moreover have "?g x \<in> set (es_canonicalizations d')" unfolding can set_map using x(1) by (rule imageI)
      then have "x \<in> set (es_canonicalizations d')" unfolding gx .
      ultimately show ?thesis by blast
    qed
  qed
qed

lemma reverse_journal_funded:
  assumes "reverse_settlement H now j d = Inr d'" "funded_inv d" "gget (lg_journals (es_ledger d)) (fj_ID j) = Some j"
  shows "funded_inv d'" "gget (lg_journals (es_ledger d)) i = Some k \<Longrightarrow> gget (lg_journals (es_ledger d')) i = Some k"
proof -
  let ?j = "(settlement_journal (reversal_id H (fj_ID j)) ''reversal'' (fj_TaskID j) (fj_ID j) ''chain_reorganization'' now)\<lparr>fj_ReversalOf := fj_ID j\<rparr>"
  from assms(1) obtain L where L: "post_settlement ?j now (inverse_entries (fj_ID j) (es_ledger d)) (es_ledger d) = Inr L"
    and t: "reverse_task now (reversal_id H (fj_ID j)) j (with_ledger d L) = Inr d'"
    by (auto simp: reverse_settlement_def insert_settlement_reversal_def rbind_Inr_iff)
  have "no_funding ?j" by (simp add: settlement_journal_def)
  with L have new: "new_journals no_funding d (with_ledger d L)" by (rule post_settlement_new)
  have inv1: "funded_inv (with_ledger d L)" by (rule quiet_funded [OF quiet_new [OF new] assms(2)])
  note n = new_journals_inv [OF new]
  have led: "es_ledger d' = es_ledger (with_ledger d L)" by (rule reverse_task_ledger [OF t])
  show "gget (lg_journals (es_ledger d)) i = Some k \<Longrightarrow> gget (lg_journals (es_ledger d')) i = Some k" using n(5) by (simp add: led)
  show "funded_inv d'"
  proof (cases "fj_TaskID j \<noteq> [] \<and> fj_Type j = ''funding''")
    case True
    with t obtain status where o: "orphan_intent now (fj_TaskID j) (orphan_canonicalization now (reversal_id H (fj_ID j)) (fj_ID j)
        (set_task_status now (fj_TaskID j) status (with_ledger d L))) = Inr d'"
      by (auto simp: reverse_task_def Let_def rbind_Inr_iff)
    let ?d1 = "set_task_status now (fj_TaskID j) status (with_ledger d L)"
    have f: "funded_inv ?d1" by (rule quiet_funded [OF quiet_frame(1) inv1])
    have j: "gget (lg_journals (es_ledger ?d1)) (fj_ID j) = Some j" using n(5) [OF assms(3)] by simp
    from orphan_funded [OF f j conjunct2 [OF True] o] show ?thesis .
  next
    case False
    with t have "d' = with_ledger d L \<or> (\<exists>status. d' = set_task_status now (fj_TaskID j) status (with_ledger d L))"
      by (auto simp: reverse_task_def Let_def rbind_Inr_iff split: if_splits)
    then show ?thesis using inv1 quiet_funded [OF quiet_frame(1) inv1] by auto
  qed
qed

lemma reverse_journals_funded:
  "reverse_journals H now js d = Inr d' \<Longrightarrow> funded_inv d \<Longrightarrow> (\<And>j. j \<in> set js \<Longrightarrow> gget (lg_journals (es_ledger d)) (fj_ID j) = Some j) \<Longrightarrow> funded_inv d'"
proof (induction js arbitrary: d)
  case (Cons j js)
  then obtain d1 where d1: "reverse_settlement H now j d = Inr d1" "reverse_journals H now js d1 = Inr d'" by (auto simp: rbind_Inr_iff)
  note one = reverse_journal_funded [OF d1(1) Cons.prems(2) Cons.prems(3)]
  show ?case by (rule Cons.IH [OF d1(2)]) (use one Cons.prems(3) in auto)
qed simp

lemma rewind_block_funded:
  assumes "rewind_block H now S reason h d = Inr d'" "funded_inv d" "ledger_ok (es_ledger d)"
  shows "funded_inv d'"
proof -
  from assms(1) obtain d1 d2 xs where d: "orphan_failed now S h d = Inr d1" "reverse_journals H now (block_journals S h d1) d1 = Inr d2"
    "d' = foldl (\<lambda>x a. orphan_assignment now a x) (orphan_states now S reason h d2) xs"
    by (auto simp: rewind_block_def reverse_block_def rbind_Inr_iff)
  have 1: "funded_inv d1" by (rule quiet_funded [OF orphan_failed_quiet [OF d(1) funded_keyed [OF assms(2)]] assms(2)])
  have ok: "ledger_ok (es_ledger d1)" using orphan_failed_ledger [OF d(1)] assms(3) by simp
  have "gget (lg_journals (es_ledger d1)) (fj_ID j) = Some j" if "j \<in> set (block_journals S h d1)" for j
    using that ok by (auto simp: block_journals_def Let_def ledger_ok_def gvals_mem)
  from reverse_journals_funded [OF d(2) 1 this] have "funded_inv d2" by blast
  then show ?thesis unfolding d(3) using quiet_funded [OF quiet_trans [OF quiet_frame(5) quiet_assignments]] by blast
qed

lemma rewind_blocks_funded:
  "rewind_blocks H now S reason hs d = Inr d' \<Longrightarrow> funded_inv d \<Longrightarrow> ledger_live (es_ledger d) \<Longrightarrow> funded_inv d'"
proof (induction hs arbitrary: d)
  case (Cons h hs)
  then obtain d1 where d1: "rewind_block H now S reason h d = Inr d1" "rewind_blocks H now S reason hs d1 = Inr d'" by (auto simp: rbind_Inr_iff)
  show ?case
    using Cons.IH [OF d1(2) rewind_block_funded [OF d1(1) Cons.prems(2) live_parts(1) [OF Cons.prems(3)]]
      ledger_steps_live [OF rewind_block_steps [OF d1(1) Cons.prems(3)] Cons.prems(3)]] .
qed simp

section \<open>Every step\<close>

lemma store_rewind_funded:
  "store_rewind H now S n reason d = Inr (u, d') \<Longrightarrow> funded_inv d \<Longrightarrow> ledger_live (es_ledger d) \<Longrightarrow> funded_inv d'"
  by (auto simp: store_rewind_def rbind_Inr_iff intro!: quiet_funded [OF quiet_trans [OF quiet_frame(7) quiet_frame(6)]] intro: rewind_blocks_funded)

lemma escrow_exec_funded:
  assumes "funded_inv d" "ledger_live (es_ledger d)"
  shows "funded_inv (escrow_exec V D now c d)"
proof (cases c)
  case (OpApplyBlock S b vs)
  show ?thesis unfolding OpApplyBlock escrow_exec_def escrow_op.case using assms by (rule_tac commit_cases) (auto intro: store_apply_block_funded)
next
  case (OpRewind S n reason)
  show ?thesis unfolding OpRewind escrow_exec_def escrow_op.case using assms by (rule_tac commit_cases) (auto intro: store_rewind_funded)
next
  case (OpReconcileAttempt S h)
  show ?thesis unfolding OpReconcileAttempt escrow_exec_def escrow_op.case using assms by (rule_tac commit_cases) (auto intro: reconcile_attempt_funded)
next
  case (OpPrepare cf s key taskID)
  have "funded_inv (fst (tf_prepare V x now s key taskID d))" for x
    using assms(1) by (auto simp: tf_prepare_def commit_def dest: prepare_quiet intro: quiet_funded split: sum.split)
  then show ?thesis using assms(1) by (simp add: OpPrepare escrow_exec_def split: option.split)
next
  case (OpSubmit s taskID i q)
  then show ?thesis using assms(1)
    by (auto simp: escrow_exec_def tf_submit_def commit_def dest: submit_quiet [OF _ funded_keyed] intro: quiet_funded split: sum.split)
next
  case (OpRegister x)
  then show ?thesis using quiet_funded [OF quiet_frame(10) assms(1)] by (simp add: escrow_exec_def)
qed

lemma escrow_step_funded:
  assumes "escrow_step V D d d'" "funded_inv d" "ledger_live (es_ledger d)"
  shows "funded_inv d'"
  using assms
proof (induction rule: escrow_step.induct)
  case (escrow_other d y x a r t)
  have "quiet d (d\<lparr>es_tasks := t, es_reservations := r, es_assignments := a, es_active := x, es_deployments := y\<rparr>)"
    by (rule quiet_part) (simp add: fund_part_def)
  with escrow_other(1) show ?case by (blast intro: quiet_funded)
qed (rule escrow_exec_funded)

lemma escrow_reachable_funded:
  assumes "(escrow_step V D)\<^sup>*\<^sup>* d0 d" "es_ledger d0 = empty_ledger" "funded_inv d0"
  shows "funded_inv d \<and> ledger_live (es_ledger d)"
  using assms by (induction rule: rtranclp_induct) (auto intro: escrow_step_funded escrow_step_ledger(1) dest: escrow_reachable_ledger)

end
