(* ===== verification/Escrow_Properties.thy ===== *)
theory Escrow_Properties
  imports Escrow_Invariant
begin

text \<open>
  The properties of the task funding and its settlement, and a small instance on which their hypotheses hold: one task whose
  funding transaction is in the first block.
\<close>

definition escrow_sha :: "string \<Rightarrow> string" where
  "escrow_sha s = replicate 30 (CHR 0x00) @ [s ! 3, s ! 26]"

definition esc_event_id :: "string \<Rightarrow> string" where
  "esc_event_id x = ''sha256:'' @ x @ replicate 63 (CHR ''0'')"

definition escrow_decoder :: decoder_env where
  "escrow_decoder = \<lparr>dv_sha = escrow_sha, dv_event_id = (\<lambda>s. s), dv_selector = ''0x12345678''\<rparr>"

definition escrow_scope :: scope where
  "escrow_scope = \<lparr>so_ChainID = ''84532'', so_Contract = ''0xc'', so_StartBlock = 7, so_Confirmations = 1, so_MaxReorgDepth = 8\<rparr>"

definition esc_intent :: funding_intent where
  "esc_intent = \<lparr>fti_ID = ''i'', fti_TaskID = ''t'', fti_PublisherID = ''u'', fti_PublisherWallet = ''pw'', fti_IdempotencyKey = ''k'', fti_RequestHash = ''r'',
     fti_ChainID = ''84532'', fti_ContractAddress = ''0xc'', fti_AssetAddress = ''0xa'', fti_ChainTaskID = ''ct'', fti_PlatformTaskKey = ''pk'', fti_TaskSpecHash = ''sh'',
     fti_FundingDeadline = 100, fti_OverviewAmount = ''0'', fti_FormalAmount = ''500'', fti_ExternalCostAmount = ''0'', fti_TotalAmount = ''500'',
     fti_Status = ''submitted'', fti_TransactionHash = ''h1'', fti_ChainEventID = [], fti_FailureReasonCode = [], fti_AggregateVersion = 2, fti_CreatedAt = 1, fti_UpdatedAt = 2\<rparr>"

definition esc_attempt :: funding_attempt where
  "esc_attempt = \<lparr>fat_ID = ''a1'', fat_IntentID = ''i'', fat_ChainID = ''84532'', fat_ContractAddress = ''0xc'', fat_TransactionHash = ''h1'', fat_State = ''submitted'',
     fat_CreatedAt = 2, fat_UpdatedAt = 2\<rparr>"

definition esc_task :: escrow_task where
  "esc_task = \<lparr>etk_PublisherID = ''u'', etk_Status = ''pending_escrow'', etk_Deadline = 100, etk_AggregateVersion = 1, etk_DeletionRequestedAt = None, etk_DeletedAt = None,
     etk_UpdatedAt = 1, etk_OverviewBudget = ''0'', etk_FormalBudget = ''500'', etk_ExternalCostCap = ''0'', etk_SpecHash = ''sh'', etk_SpecDeadline = 100\<rparr>"

definition esc_escrow :: escrow_db where
  "esc_escrow = \<lparr>es_ledger = empty_ledger, es_tasks = [(''t'', esc_task)], es_intents = [(''i'', esc_intent)], es_attempts = [(''a1'', esc_attempt)], es_attemptStates = [],
     es_intentEvents = [], es_canonicalizations = [], es_deployments = [], es_reservations = [], es_assignments = [], es_active = [], es_assignmentStates = [], es_cursors = [],
     es_blocks = [], es_canonical = [], es_blockStates = [], es_transactions = [], es_events = [], es_eventStates = []\<rparr>"

definition esc_created :: event where
  "esc_created = \<lparr>ve_ID = esc_event_id ''1'', ve_Type = EventTaskCreated, ve_BlockNumber = 7, ve_BlockHash = ''b7'', ve_TransactionHash = ''h1'', ve_LogIndex = 0, ve_TaskID = ''ct'',
     ve_AssignmentID = [], ve_Payload = [(''publisher'', PText ''pw''), (''amount'', PText ''500'')], ve_Selection = None\<rparr>"

definition esc_block7 :: block where
  "esc_block7 = \<lparr>bl_Number = 7, bl_Hash = ''b7'', bl_ParentHash = ''b6'', bl_Timestamp = 5, bl_Transactions = []\<rparr>"

section \<open>A funded task\<close>

definition esc_asset :: string where
  "esc_asset = ''evm:84532/erc20:0xa''"

definition esc_formal_id :: string where
  "esc_formal_id = settlement_digest escrow_sha [''fund-account'', ''formal_escrow'', ''t'', esc_asset, ''double-entry-v1'']"

definition esc_control_id :: string where
  "esc_control_id = control_id escrow_sha esc_asset"

definition esc_journal_id :: string where
  "esc_journal_id = funding_journal_id escrow_sha esc_created 1"

lemma be_bytes_4: "be_bytes 4 n = [char_of (n div 16777216 mod 256), char_of (n div 65536 mod 256), char_of (n div 256 mod 256), char_of (n mod 256)]"
proof -
  have "(4 :: nat) = Suc (Suc (Suc (Suc 0)))" by simp
  then show ?thesis by (simp only: be_bytes.simps) simp
qed

lemma len_field_4: "len_field 4 p = char_of (length p div 16777216 mod 256) # char_of (length p div 65536 mod 256) # char_of (length p div 256 mod 256) #
    char_of (length p mod 256) # p"
  by (simp add: len_field_def be_bytes_4)

lemma esc_ids: "esc_formal_id = sha_string (replicate 30 (CHR 0x00) @ [char_of (12 :: nat), CHR ''_''])"
  "esc_control_id = sha_string (replicate 30 (CHR 0x00) @ [char_of (19 :: nat), char_of (15 :: nat)])"
  by (simp_all add: esc_formal_id_def esc_control_id_def control_id_def stable_id_def escrow_sha_def len_field_4 esc_asset_def)

lemma esc_ids_differ [simp]: "esc_formal_id \<noteq> esc_control_id" "esc_control_id \<noteq> esc_formal_id"
  by (simp_all add: esc_ids)

lemma esc_journal_valid [simp]: "valid_digest esc_journal_id"
  by (simp add: esc_journal_id_def funding_journal_id_def stable_id_def escrow_sha_def valid_digest_sha_string)

definition esc_formal :: account_row where
  "esc_formal = formal_escrow escrow_sha 9 ''t'' ''u'' esc_asset"

definition esc_control :: account_row where
  "esc_control = control_account escrow_sha 9 esc_asset esc_asset"

lemma esc_account_fields [simp]:
  "fa_ID esc_formal = esc_formal_id" "fa_Type esc_formal = ''formal_escrow''" "fa_Asset esc_formal = esc_asset" "fa_Class esc_formal = ''business''"
  "fa_Balance esc_formal = 0" "fa_Reference esc_formal = ''t''" "fa_TaskID esc_formal = ''t''"
  "fa_ID esc_control = esc_control_id" "fa_Type esc_control = ''funding_control''" "fa_Asset esc_control = esc_asset" "fa_Class esc_control = ''system''"
  "fa_Balance esc_control = 0" "fa_Reference esc_control = esc_asset" "fa_TaskID esc_control = []"
  by (simp_all add: esc_formal_def esc_control_def formal_escrow_def control_account_def system_account_def esc_formal_id_def esc_control_id_def control_id_def)

lemma esc_asset_ok: "asset_key_ok esc_asset"
  by (simp add: asset_key_ok_def esc_asset_def char_between_def)

lemma esc_shapes [simp]: "account_shape_ok esc_formal" "account_shape_ok esc_control"
  using esc_asset_ok by (simp_all add: account_shape_ok_def esc_formal_def esc_control_def formal_escrow_def control_account_def system_account_def)
    (simp_all add: esc_asset_def)

definition esc_journal :: journal_row where
  "esc_journal = settlement_journal esc_journal_id ''funding'' ''t'' (esc_event_id ''1'') ''escrow_funded'' 9"

definition esc_entry :: "string \<Rightarrow> string \<Rightarrow> string \<Rightarrow> int \<Rightarrow> entry_row" where
  "esc_entry account accountType direction k = \<lparr>fe_JournalID = esc_journal_id, fe_Index = k, fe_AccountID = account, fe_AccountType = accountType,
     fe_Direction = direction, fe_Amount = 500, fe_Asset = esc_asset, fe_CreatedAt = 9\<rparr>"

definition esc_ledger :: sql_ledger where
  "esc_ledger = \<lparr>lg_accounts = [(esc_formal_id, esc_formal\<lparr>fa_Balance := 500\<rparr>), (esc_control_id, esc_control\<lparr>fa_Balance := -500\<rparr>)],
     lg_journals = [(esc_journal_id, esc_journal)],
     lg_entries = [esc_entry esc_control_id ''funding_control'' ''debit'' 1, esc_entry esc_formal_id ''formal_escrow'' ''credit'' 2]\<rparr>"

lemma esc_upserts:
  "upsert_account esc_formal empty_ledger = Inr (empty_ledger\<lparr>lg_accounts := [(esc_formal_id, esc_formal)]\<rparr>)"
  "upsert_account esc_control (empty_ledger\<lparr>lg_accounts := [(esc_formal_id, esc_formal)]\<rparr>) =
     Inr (empty_ledger\<lparr>lg_accounts := [(esc_formal_id, esc_formal), (esc_control_id, esc_control)]\<rparr>)"
  by (simp_all add: upsert_account_def ensure_account_def insert_account_def same_reference_def gget_def gput_def gvals_def)

lemma esc_money: "money_int ''500'' = 500" "is_amount ''500''"
  by code_simp+

lemma esc_touched: "esc_formal\<lparr>fa_Balance := x, fa_UpdatedAt := 9\<rparr> = esc_formal\<lparr>fa_Balance := x\<rparr>"
  "esc_control\<lparr>fa_Balance := x, fa_UpdatedAt := 9\<rparr> = esc_control\<lparr>fa_Balance := x\<rparr>"
  by (simp_all add: esc_formal_def esc_control_def formal_escrow_def control_account_def system_account_def)

lemma esc_post:
  "post_settlement esc_journal 9 (transfer esc_control_id ''funding_control'' esc_formal_id ''formal_escrow'' ''500'' esc_asset)
     (empty_ledger\<lparr>lg_accounts := [(esc_formal_id, esc_formal), (esc_control_id, esc_control)]\<rparr>) = Inr esc_ledger"
proof -
  have id: "fj_ID esc_journal = esc_journal_id" by (simp add: esc_journal_def settlement_journal_def)
  have rows: "settlement_rows esc_journal_id 9 (transfer esc_control_id ''funding_control'' esc_formal_id ''formal_escrow'' ''500'' esc_asset) =
    [esc_entry esc_control_id ''funding_control'' ''debit'' 1, esc_entry esc_formal_id ''formal_escrow'' ''credit'' 2]"
    by (simp add: settlement_rows_def transfer_def esc_entry_def esc_money)
  have amounts: "\<not> list_ex (\<lambda>e. \<not> is_amount (sen_Amount e)) (transfer esc_control_id ''funding_control'' esc_formal_id ''formal_escrow'' ''500'' esc_asset)"
    by (simp add: transfer_def esc_money)
  show ?thesis unfolding post_settlement_def id
    by (simp add: insert_journal_def es_lift_def rows amounts insert_entry_def apply_entry_balance_def signed_amount_def esc_entry_def gget_def gput_def id
        esc_ledger_def esc_touched Let_def)
qed

lemma esc_fund_escrow:
  assumes "es_ledger d = empty_ledger"
  shows "fund_escrow escrow_sha 9 esc_intent esc_created esc_asset esc_journal_id d = Inr (with_ledger d esc_ledger)"
proof -
  have f: "fti_TaskID esc_intent = ''t''" "fti_PublisherID esc_intent = ''u''" "formal_escrow escrow_sha 9 ''t'' ''u'' esc_asset = esc_formal"
    "control_account escrow_sha 9 esc_asset esc_asset = esc_control" "fti_FormalAmount esc_intent = ''500''" "ve_ID esc_created = esc_event_id ''1''"
    by (simp_all add: esc_formal_def esc_control_def esc_intent_def esc_created_def)
  show ?thesis unfolding fund_escrow_def f Let_def upsert_def post_def insert_settlement_journal_def
    by (simp add: assms esc_upserts [simplified] es_lift_def with_ledger_def esc_post [simplified] esc_journal_def [symmetric])
qed

section \<open>The block of the funding\<close>

definition esc_canonicalization :: canonicalization where
  "esc_canonicalization = \<lparr>fcn_ChainEventID = esc_event_id ''1'', fcn_Epoch = 1, fcn_IntentID = ''i'', fcn_AttemptID = ''a1'', fcn_JournalID = esc_journal_id,
     fcn_ReversalJournalID = [], fcn_CanonicalAt = 9, fcn_OrphanedAt = None\<rparr>"

definition esc_block_db :: escrow_db where
  "esc_block_db = esc_escrow\<lparr>es_blocks := [((scope_key escrow_scope, ''b7''), (7, ''b6''))], es_canonical := [((scope_key escrow_scope, 7), ''b7'')],
     es_blockStates := [\<lparr>bst_ChainID = ''84532'', bst_Contract = ''0xc'', bst_BlockHash = ''b7'', bst_State = StateCanonical,
       bst_ReasonCode = ''confirmation_depth_reached'', bst_ObservedAt = 9\<rparr>],
     es_events := [(esc_event_id ''1'', \<lparr>evr_ChainID = ''84532'', evr_Contract = ''0xc'', evr_Event = esc_created\<rparr>)],
     es_eventStates := [\<lparr>rst_ID = esc_event_id ''1'', rst_State = StateCanonical, rst_ReasonCode = ''confirmation_depth_reached'', rst_At = 9\<rparr>]\<rparr>"

definition esc_confirmed :: funding_intent where
  "esc_confirmed = confirmed_intent 9 esc_created esc_intent"

lemma esc_fields [simp]:
  "fti_ID esc_intent = ''i''" "fti_TaskID esc_intent = ''t''" "fti_PublisherID esc_intent = ''u''" "fti_ChainID esc_intent = ''84532''"
  "fti_ContractAddress esc_intent = ''0xc''" "fti_ChainTaskID esc_intent = ''ct''" "fti_AssetAddress esc_intent = ''0xa''" "fti_PublisherWallet esc_intent = ''pw''"
  "fti_TotalAmount esc_intent = ''500''" "fti_AggregateVersion esc_intent = 2" "fti_Status esc_intent = ''submitted''" "fti_TransactionHash esc_intent = ''h1''"
  "fat_ID esc_attempt = ''a1''" "fat_IntentID esc_attempt = ''i''" "fat_ChainID esc_attempt = ''84532''" "fat_ContractAddress esc_attempt = ''0xc''"
  "fat_TransactionHash esc_attempt = ''h1''" "fat_State esc_attempt = ''submitted''"
  "ve_ID esc_created = esc_event_id ''1''" "ve_Type esc_created = EventTaskCreated" "ve_TransactionHash esc_created = ''h1''" "ve_TaskID esc_created = ''ct''"
  "ve_Selection esc_created = None" "payload_text esc_created ''publisher'' = ''pw''" "payload_text esc_created ''amount'' = ''500''"
  "so_ChainID escrow_scope = ''84532''" "so_Contract escrow_scope = ''0xc''" "etk_Status esc_task = ''pending_escrow''" "etk_PublisherID esc_task = ''u''"
  "etk_Deadline esc_task = 100" "etk_AggregateVersion esc_task = 1"
  by (simp_all add: esc_intent_def esc_attempt_def esc_created_def escrow_scope_def esc_task_def payload_text_def gget_def)

lemma esc_db_fields [simp]:
  "es_ledger esc_escrow = empty_ledger" "es_intents esc_escrow = [(''i'', esc_intent)]" "es_attempts esc_escrow = [(''a1'', esc_attempt)]"
  "es_tasks esc_escrow = [(''t'', esc_task)]" "es_canonicalizations esc_escrow = []" "es_deployments esc_escrow = []" "es_intentEvents esc_escrow = []"
  "es_cursors esc_escrow = []" "es_canonical esc_escrow = []" "es_blocks esc_escrow = []" "es_events esc_escrow = []" "es_eventStates esc_escrow = []"
  "es_blockStates esc_escrow = []" "es_reservations esc_escrow = []"
  by (simp_all add: esc_escrow_def)

lemma esc_funding_applies:
  "\<exists>d. project_settlement escrow_sha 9 escrow_scope esc_created esc_block_db = Inr d \<and> es_ledger d = esc_ledger \<and>
     es_intents d = [(''i'', esc_confirmed)] \<and> es_canonicalizations d = [esc_canonicalization] \<and> es_reservations d = [] \<and>
     es_tasks d = [(''t'', esc_task\<lparr>etk_Status := ''escrowed'', etk_AggregateVersion := 2, etk_UpdatedAt := 9\<rparr>)]"
proof -
  let ?d = esc_block_db
  have rows: "funding_rows escrow_scope esc_created ?d = Some (esc_intent, esc_attempt, esc_task)"
    by (simp add: funding_rows_def intent_of_chain_task_def attempt_of_transaction_def esc_block_db_def gvals_def gget_def)
  have asset: "funding_asset escrow_scope esc_intent ?d = Inr esc_asset" by (simp add: funding_asset_def esc_block_db_def gget_def esc_asset_def)
  have live: "live_canonicalization ''i'' ?d = None" by (simp add: live_canonicalization_def esc_block_db_def)
  have epoch: "next_epoch (esc_event_id ''1'') ?d = 1" by (simp add: next_epoch_def esc_block_db_def)
  have status: "funded_status 9 esc_task = ''escrowed''" "fundable_status ''pending_escrow''" by (simp_all add: funded_status_def fundable_status_def)
  have fund: "fund_escrow escrow_sha 9 esc_intent esc_created esc_asset esc_journal_id ?d = Inr (with_ledger ?d esc_ledger)"
    by (rule esc_fund_escrow) (simp add: esc_block_db_def)
  have canon: "insert_canonicalization esc_canonicalization (with_ledger ?d esc_ledger) = Inr (with_ledger ?d esc_ledger\<lparr>es_canonicalizations := [esc_canonicalization]\<rparr>)"
    by (simp add: insert_canonicalization_def with_ledger_def esc_block_db_def esc_canonicalization_def esc_ledger_def gget_def)
  let ?d1 = "with_ledger ?d esc_ledger\<lparr>es_canonicalizations := [esc_canonicalization]\<rparr>"
  let ?d2 = "confirm_attempt 9 esc_created esc_attempt (supersede_attempts 9 ''i'' ''a1'' (fund_task 9 esc_intent esc_task ''escrowed'' ?d1))"
  have ev: "es_intentEvents ?d2 = []"
    by (simp add: confirm_attempt_def supersede_attempts_def add_attempt_state_def put_funding_attempt_def fund_task_def set_task_status_def with_ledger_def esc_block_db_def gget_def)
  obtain d where d: "confirm_intent 9 esc_created ''escrowed'' esc_intent ?d2 = Inr d"
    using ev by (auto simp: confirm_intent_def insert_intent_event_def put_intent_def Let_def)
  have tasks: "es_tasks ?d2 = [(''t'', esc_task\<lparr>etk_Status := ''escrowed'', etk_AggregateVersion := 2, etk_UpdatedAt := 9\<rparr>)]" "es_reservations ?d2 = []"
    by (simp_all add: confirm_attempt_def supersede_attempts_def add_attempt_state_def put_funding_attempt_def fund_task_def set_task_status_def with_ledger_def esc_block_db_def
        gget_def gput_def)
  have p: "project_settlement escrow_sha 9 escrow_scope esc_created ?d = Inr d"
    by (simp add: project_settlement_def project_created_def rows apply_funding_def asset live epoch status Let_def esc_journal_id_def [symmetric] fund
        esc_canonicalization_def [symmetric] canon d)
  have "es_ledger d = esc_ledger" using ledger_kept(3) [OF d] by (simp add: with_ledger_def)
  moreover have "es_intents d = [(''i'', esc_confirmed)]" using confirm_intent_parts(1) [OF d]
    by (simp add: with_ledger_def esc_block_db_def gput_def esc_confirmed_def)
  moreover have "es_canonicalizations d = [esc_canonicalization]" using confirm_intent_parts(3) [OF d] by simp
  moreover have "es_tasks d = es_tasks ?d2" "es_reservations d = es_reservations ?d2"
    using d by (auto simp: confirm_intent_def insert_intent_event_def put_intent_def Let_def split: if_splits)
  ultimately show ?thesis using p tasks by auto
qed

definition esc_funding_env :: funding_env where
  "esc_funding_env = \<lparr>ftv_sha = escrow_sha, ftv_keccak = (\<lambda>s. s), ftv_pack = (\<lambda>domain chain contract asset publisher key spec deadline formal. Some domain)\<rparr>"

definition esc_funded :: escrow_db where
  "esc_funded = escrow_exec esc_funding_env escrow_decoder 9 (OpApplyBlock escrow_scope esc_block7 [esc_created]) esc_escrow"

lemma esc_applied:
  "\<exists>d. store_apply_block escrow_decoder 9 escrow_scope esc_block7 [esc_created] esc_escrow = Inr ((), d) \<and> es_ledger d = esc_ledger \<and>
     es_intents d = [(''i'', esc_confirmed)] \<and> es_canonicalizations d = [esc_canonicalization] \<and> es_reservations d = [] \<and>
     es_tasks d = [(''t'', esc_task\<lparr>etk_Status := ''escrowed'', etk_AggregateVersion := 2, etk_UpdatedAt := 9\<rparr>)]"
proof -
  have b: "bl_Number esc_block7 = 7" "bl_Hash esc_block7 = ''b7''" "bl_ParentHash esc_block7 = ''b6''" "bl_Transactions esc_block7 = []"
    by (simp_all add: esc_block7_def)
  have gap: "\<not> block_gap escrow_scope esc_block7 esc_escrow"
    by (simp add: block_gap_def store_cursor_def zero_cursor_def gget_def b) (simp add: escrow_scope_def)
  define e where "e = esc_escrow\<lparr>es_blocks := [((scope_key escrow_scope, ''b7''), (7, ''b6''))], es_canonical := [((scope_key escrow_scope, 7), ''b7'')],
     es_blockStates := [\<lparr>bst_ChainID = ''84532'', bst_Contract = ''0xc'', bst_BlockHash = ''b7'', bst_State = StateCanonical,
       bst_ReasonCode = ''confirmation_depth_reached'', bst_ObservedAt = 9\<rparr>]\<rparr>"
  have block: "insert_block 9 escrow_scope esc_block7 esc_escrow = Inr e" by (simp add: insert_block_def b gget_def gput_def e_def Let_def)
  have same: "esc_created\<lparr>ve_BlockHash := ''b7''\<rparr> = esc_created" by (simp add: esc_created_def)
  have event: "insert_event_state \<lparr>rst_ID = esc_event_id ''1'', rst_State = StateCanonical, rst_ReasonCode = ''confirmation_depth_reached'', rst_At = 9\<rparr>
      (insert_event \<lparr>evr_ChainID = ''84532'', evr_Contract = ''0xc'', evr_Event = esc_created\<rparr> e) = Inr esc_block_db"
    by (simp add: insert_event_def insert_event_state_def e_def esc_block_db_def gvals_def gget_def gput_def)
  obtain d where d: "project_settlement escrow_sha 9 escrow_scope esc_created esc_block_db = Inr d" "es_ledger d = esc_ledger"
    "es_intents d = [(''i'', esc_confirmed)]" "es_canonicalizations d = [esc_canonicalization]" "es_reservations d = []"
    "es_tasks d = [(''t'', esc_task\<lparr>etk_Status := ''escrowed'', etk_AggregateVersion := 2, etk_UpdatedAt := 9\<rparr>)]"
    using esc_funding_applies by blast
  have "apply_events escrow_sha 9 escrow_scope ''b7'' [esc_created] e = Inr d"
    by (simp add: apply_event_def event same d(1))
  then have "store_apply_block escrow_decoder 9 escrow_scope esc_block7 [esc_created] esc_escrow =
      Inr ((), d\<lparr>es_cursors := gput (scope_key escrow_scope) (7, ''b7'') (es_cursors d)\<rparr>)"
    using gap block by (simp add: store_apply_block_def b escrow_decoder_def)
  then show ?thesis using d(2-6) by simp
qed

lemma esc_funded_parts: "es_ledger esc_funded = esc_ledger" "es_intents esc_funded = [(''i'', esc_confirmed)]"
  "es_canonicalizations esc_funded = [esc_canonicalization]"
  using esc_applied by (auto simp: esc_funded_def escrow_exec_def commit_def)

lemma esc_reached: "(escrow_step esc_funding_env escrow_decoder)\<^sup>*\<^sup>* esc_escrow esc_funded"
  unfolding esc_funded_def by (rule r_into_rtranclp) (rule escrow_call)

lemma esc_escrow_inv: "funded_inv esc_escrow"
  by (simp add: funded_inv_def well_keyed_def gwf_def gget_def)

section \<open>Properties\<close>

text \<open>
  C6: The books of the escrow. Starting from an empty ledger, whatever blocks are applied, rewound and reconciled, and
  whatever is prepared, submitted and registered in between, the balance of every account is the sum of its entries in the
  journals that are neither reversals nor reversed, an account of a task is never overdrawn, and the accounts of every
  asset sum to zero.
\<close>

theorem escrow_books_balance:
  assumes "(escrow_step V D)\<^sup>*\<^sup>* d0 d" "es_ledger d0 = empty_ledger" "gget (lg_accounts (es_ledger d)) i = Some a"
  shows "fa_Balance a = live_net i (es_ledger d) \<and> (fa_Class a = ''business'' \<longrightarrow> 0 \<le> fa_Balance a) \<and> ledger_total x (es_ledger d) = 0"
proof -
  have l: "ledger_live (es_ledger d)" using escrow_reachable_ledger [OF assms(1,2)] by blast
  have "fa_Class a = ''business'' \<longrightarrow> 0 \<le> fa_Balance a" using live_parts(1) [OF l] assms(3) by (simp add: ledger_ok_def)
  with live_parts(2) [OF l assms(3)] live_parts(6) [OF l] show ?thesis by blast
qed

theorem escrow_books_balance_witness:
  "500 = live_net esc_formal_id (es_ledger esc_funded) \<and> ledger_total esc_asset (es_ledger esc_funded) = 0"
proof -
  have "gget (lg_accounts (es_ledger esc_funded)) esc_formal_id = Some (esc_formal\<lparr>fa_Balance := 500\<rparr>)"
    by (simp add: esc_funded_parts esc_ledger_def gget_def)
  from escrow_books_balance [OF esc_reached _ this] show ?thesis by simp
qed

text \<open>
  C7: A confirmed intent is booked. Starting from an empty ledger and tables for which it holds (as it does when they are
  empty), an intent with the status confirmed has exactly one canonical funding event behind it: one canonicalization that
  is not orphaned, for the event the intent names, with its journal posted and its transaction the attempt that is
  confirmed. No replacement of a transaction, no failed one and no reorganization breaks this.
\<close>

theorem confirmed_intents_are_booked:
  assumes "(escrow_step V D)\<^sup>*\<^sup>* d0 d" "es_ledger d0 = empty_ledger" "funded_inv d0" "gget (es_intents d) i = Some t" "fti_Status t = ''confirmed''"
  shows "\<exists>c a k. filter (live_of i) (es_canonicalizations d) = [c] \<and> fcn_ChainEventID c = fti_ChainEventID t \<and>
    gget (lg_journals (es_ledger d)) (fcn_JournalID c) = Some k \<and>
    gget (es_attempts d) (fcn_AttemptID c) = Some a \<and> fat_State a = ''canonical_confirmed'' \<and> fat_TransactionHash a = fti_TransactionHash t"
proof -
  have inv: "funded_inv d" using escrow_reachable_funded [OF assms(1-3)] by blast
  note p = funded_parts [OF inv]
  have i: "fti_ID t = i" using assms(4) p(1) by (simp add: well_keyed_def)
  from p(6) [OF assms(4,5)] obtain c where c: "c \<in> set (es_canonicalizations d)" "funds d t c" by blast
  have "c \<in> set (filter (live_of i) (es_canonicalizations d))" using c i by (simp add: funds_def)
  moreover have "length (filter (live_of i) (es_canonicalizations d)) \<le> 1" by (rule p(4))
  ultimately have "filter (live_of i) (es_canonicalizations d) = [c]" by (cases "filter (live_of i) (es_canonicalizations d)") auto
  moreover obtain k where "gget (lg_journals (es_ledger d)) (fcn_JournalID c) = Some k" using p(2) [OF c(1)] by (auto simp: canon_ok_def)
  ultimately show ?thesis using c(2) by (auto simp: funds_def)
qed

theorem confirmed_intents_are_booked_witness:
  "\<exists>c. filter (live_of ''i'') (es_canonicalizations esc_funded) = [c] \<and> fcn_ChainEventID c = esc_event_id ''1''"
proof -
  have c: "fti_Status esc_confirmed = ''confirmed''" "fti_ChainEventID esc_confirmed = esc_event_id ''1''" by (simp_all add: esc_confirmed_def confirmed_intent_def)
  have "gget (es_intents esc_funded) ''i'' = Some esc_confirmed" by (simp add: esc_funded_parts gget_def)
  from confirmed_intents_are_booked [OF esc_reached _ esc_escrow_inv this c(1)] show ?thesis using c(2) by auto
qed

text \<open>
  The chain store implements the repository in memory: a call of the store leaves the cursor and the canonical blocks of a
  scope as they are, or changes them as the repository does. It follows the repository on every block that has nothing to
  project.
\<close>

theorem chain_store_refines_memory:
  assumes "same_chain S d r" "rewinds_to_canonical S c r"
  shows "(same_chain S (escrow_exec V D now c d) r \<or> same_chain S (escrow_exec V D now c d) (memory_op S c r)) \<and>
    (plain_block S c r \<longrightarrow> same_chain S (escrow_exec V D now c d) (memory_op S c r))"
proof (intro conjI impI)
  show "same_chain S (escrow_exec V D now c d) r \<or> same_chain S (escrow_exec V D now c d) (memory_op S c r)"
  proof (cases c)
    case (OpApplyBlock S' b vs)
    have "same_chain S (fst (commit (store_apply_block D now S' b vs) d)) r \<or> same_chain S (fst (commit (store_apply_block D now S' b vs) d)) (memory_op S c r)"
      unfolding OpApplyBlock using assms(1) by (rule_tac commit_cases) (auto intro: apply_block_refines)
    then show ?thesis by (simp add: OpApplyBlock escrow_exec_def)
  next
    case (OpRewind S' n reason)
    from assms(2) have pre: "scope_key S' = scope_key S \<Longrightarrow> canonical_hash n r \<noteq> None \<and> cu_Set (ch_cursor r)"
      by (simp add: OpRewind rewinds_to_canonical_def)
    have "same_chain S (fst (commit (store_rewind (dv_sha D) now S' n reason) d)) r \<or>
        same_chain S (fst (commit (store_rewind (dv_sha D) now S' n reason) d)) (memory_op S c r)"
      unfolding OpRewind using assms(1) by (rule_tac commit_cases) (use rewind_refines [OF assms(1) _ pre] in auto)
    then show ?thesis by (simp add: OpRewind escrow_exec_def)
  next
    case (OpReconcileAttempt S' h)
    have "chain_part (fst (commit (reconcile_attempt (dv_sha D) now S' h) d)) = chain_part d" by (rule commit_cases) (auto dest: chain_part_funding(3))
    then have "chain_part (escrow_exec V D now c d) = chain_part d" by (simp add: OpReconcileAttempt escrow_exec_def)
    from same_chain_part [OF this] assms(1) show ?thesis by blast
  next
    case (OpPrepare cf s key taskID)
    have "chain_part (fst (tf_prepare V x now s key taskID d)) = chain_part d" for x
      by (auto simp: tf_prepare_def commit_def chain_part_funding(1) split: sum.split)
    then have "chain_part (escrow_exec V D now c d) = chain_part d" by (simp add: OpPrepare escrow_exec_def split: option.split)
    from same_chain_part [OF this] assms(1) show ?thesis by blast
  next
    case (OpSubmit s taskID i q)
    have "chain_part (fst (tf_submit V now None s taskID i q d)) = chain_part d"
      by (auto simp: tf_submit_def commit_def chain_part_funding(2) split: sum.split)
    then have "chain_part (escrow_exec V D now c d) = chain_part d" by (simp add: OpSubmit escrow_exec_def)
    from same_chain_part [OF this] assms(1) show ?thesis by blast
  next
    case (OpRegister x)
    then have "chain_part (escrow_exec V D now c d) = chain_part d" by (simp add: escrow_exec_def)
    from same_chain_part [OF this] assms(1) show ?thesis by blast
  qed
  assume "plain_block S c r"
  then show "same_chain S (escrow_exec V D now c d) (memory_op S c r)" by (rule plain_block_refines [OF assms(1)])
qed

theorem chain_store_refines_memory_witness:
  "plain_block escrow_scope (OpApplyBlock escrow_scope esc_block7 []) new_chain_repository \<and>
   same_chain escrow_scope (escrow_exec esc_funding_env escrow_decoder 9 (OpApplyBlock escrow_scope esc_block7 []) esc_escrow)
     (memory_op escrow_scope (OpApplyBlock escrow_scope esc_block7 []) new_chain_repository)"
proof -
  let ?c = "OpApplyBlock escrow_scope esc_block7 []"
  have same: "same_chain escrow_scope esc_escrow new_chain_repository"
    by (simp add: same_chain_def store_cursor_def store_canonical_hash_def new_chain_repository_def gget_def canonical_hash_def canonical_at_def blocks_at_def)
  have plain: "plain_block escrow_scope ?c new_chain_repository"
    by (simp add: plain_block_def esc_block7_def escrow_scope_def new_chain_repository_def gget_def canonical_hash_def canonical_at_def blocks_at_def)
  have "rewinds_to_canonical escrow_scope ?c new_chain_repository" by (simp add: rewinds_to_canonical_def)
  from chain_store_refines_memory [OF same this] plain show ?thesis by blast
qed

text \<open>
  As long as only the chain store and the funding service write the ledger, money cannot leave a funded escrow for the
  control account. The settlement asks for the control account of an asset under the reference \<open>funding\<close>, the funding has opened it under
  the asset itself with the same identifier. So once a task of the asset is funded, a refund and the publisher's or the
  fee's share of a dispute are not booked: the projection of the event fails, and with it the block. (The residual of a
  change order opens an account under the reference \<open>funding\<close> with another identifier, after which a refund goes through.)
\<close>

theorem refunds_not_booked:
  assumes "(escrow_step V D)\<^sup>*\<^sup>* d0 d" "es_ledger d0 = empty_ledger"
    and "intent_of_chain_task S (ve_TaskID v) d = Some t" "formal_account (fti_TaskID t) d = Some formal" "fa_Asset formal \<noteq> ''funding''"
    and "ve_Type v = EventRefunded \<and> payload_text v ''amount'' \<noteq> ''0'' \<or>
      ve_Type v = EventDisputeAlloc \<and> (payload_text v ''publisherAmount'' \<noteq> ''0'' \<or> payload_text v ''feeAmount'' \<noteq> ''0'')"
  shows "\<exists>e. apply_events (dv_sha D) now S h (v # vs) d = Inl e"
proof -
  let ?H = "dv_sha D"
  have l: "ledger_ok (es_ledger d)" "control_under_asset ?H (es_ledger d)" using escrow_reachable_ledger [OF assms(1,2)] live_parts(1) by auto
  have escrow: "has_escrow (fa_Asset formal) (es_ledger d)" by (rule formal_account_escrow [OF l(1) assms(4)])
  have refused: "\<exists>e. upsert (control_account ?H now ''funding'' (fa_Asset formal)) x = Inl e" if "es_ledger x = es_ledger d" for x
    using control_refused [OF l escrow assms(5), of now] that by (auto simp: upsert_def es_lift_def)
  have fails: "\<exists>e. project_settlement ?H now S v x = Inl e"
    if x: "es_ledger x = es_ledger d" "es_intents x = es_intents d" for x
  proof -
    have acc: "account_of_chain_task S (ve_TaskID v) x = Inr (fti_TaskID t, formal)"
      using assms(3,4) x by (simp add: account_of_chain_task_def intent_of_chain_task_def formal_account_def)
    obtain e where e: "upsert (control_account ?H now ''funding'' (fa_Asset formal)) x = Inl e" using refused [OF x(1)] by blast
    have fee: "\<exists>e. fee_share ?H now (fti_TaskID t) formal (payload_text v ''feeAmount'') y = Inl e" if "payload_text v ''feeAmount'' \<noteq> ''0''" for y
      using fee_share_Inr [of ?H now "fti_TaskID t" formal "payload_text v ''feeAmount''" y] that
      by (cases "fee_share ?H now (fti_TaskID t) formal (payload_text v ''feeAmount'') y") auto
    from assms(6) show ?thesis
    proof
      assume "ve_Type v = EventRefunded \<and> payload_text v ''amount'' \<noteq> ''0''"
      then show ?thesis by (simp add: project_settlement_def project_refunded_def acc refund_formal_def e Let_def)
    next
      assume a: "ve_Type v = EventDisputeAlloc \<and> (payload_text v ''publisherAmount'' \<noteq> ''0'' \<or> payload_text v ''feeAmount'' \<noteq> ''0'')"
      then have "project_settlement ?H now S v x = project_allocation ?H now S v x" by (simp add: project_settlement_def)
      moreover have "\<exists>e. project_allocation ?H now S v x = Inl e"
      proof (cases "payload_text v ''publisherAmount'' = ''0''")
        case True
        with a fee obtain e2 where "fee_share ?H now (fti_TaskID t) formal (payload_text v ''feeAmount'') x = Inl e2" by blast
        with True show ?thesis by (simp add: project_allocation_def acc publisher_share_def)
      qed (simp add: project_allocation_def acc publisher_share_def Let_def e)
      ultimately show ?thesis by simp
    qed
  qed
  have keep: "es_ledger y = es_ledger d \<and> es_intents y = es_intents d" if "insert_event_state a (insert_event b d) = Inr y" for a b y
    using that by (auto simp: insert_event_state_def insert_event_def split: if_splits)
  show ?thesis
  proof (cases "apply_event ?H now S h v d")
    case (Inr y)
    then obtain a b z where "insert_event_state a (insert_event b d) = Inr z" "project_settlement ?H now S v z = Inr y"
      by (auto simp: apply_event_def rbind_Inr_iff split: if_splits)
    with keep [OF this(1)] fails [of z] show ?thesis by auto
  qed simp
qed

definition esc_refunded :: event where
  "esc_refunded = \<lparr>ve_ID = esc_event_id ''2'', ve_Type = EventRefunded, ve_BlockNumber = 8, ve_BlockHash = ''b8'', ve_TransactionHash = ''h2'', ve_LogIndex = 0,
     ve_TaskID = ''ct'', ve_AssignmentID = [], ve_Payload = [(''amount'', PText ''500'')], ve_Selection = None\<rparr>"

theorem refunds_not_booked_witness:
  "\<exists>e. apply_events escrow_sha 10 escrow_scope ''b8'' [esc_refunded] esc_funded = Inl e"
proof -
  have t: "intent_of_chain_task escrow_scope (ve_TaskID esc_refunded) esc_funded = Some esc_confirmed" "fti_TaskID esc_confirmed = ''t''"
    by (simp_all add: intent_of_chain_task_def esc_funded_parts gvals_def esc_confirmed_def confirmed_intent_def esc_refunded_def)
  have f: "formal_account (fti_TaskID esc_confirmed) esc_funded = Some (esc_formal\<lparr>fa_Balance := 500\<rparr>)"
    by (simp add: formal_account_def esc_funded_parts esc_ledger_def gvals_def t(2))
  have v: "ve_Type esc_refunded = EventRefunded" "payload_text esc_refunded ''amount'' = ''500''"
    by (simp_all add: esc_refunded_def payload_text_def gget_def)
  have "dv_sha escrow_decoder = escrow_sha" by (simp add: escrow_decoder_def)
  with refunds_not_booked [OF esc_reached _ t(1) f, of 10 "''b8''" "[]"] v show ?thesis by (simp add: esc_asset_def)
qed

end
