(* ===== verification/Spec2Isabelle.thy ===== *)
theory Spec2Isabelle
  imports Delivery_Properties Funds_Properties Matching_Properties Dispute_Properties Execution_Properties Execution_Transport Chain_Properties Selection_Properties
    Selection_Chain Overview_Properties Escrow_Properties
begin

text \<open>
  Verification library of the dispatch Engine, the Go service under \<open>src/services/engine/internal\<close>. The Engine
  matches tasks with agents, holds the money for the overviews, executes agents, settles disputes, and follows
  an escrow contract on a chain that decides which agent was selected.

  \<^bold>\<open>The program.\<close> A publisher's task is matched with candidates (\<open>matching\<close>): gates filter them, a rule score
  ranks them, and a fair shuffle draws the ones that may write an overview. For each of them the ledger
  (\<open>funds\<close>) reserves the price of the overview; an execution (\<open>execution\<close>) runs the agent under a lease and accepts
  its signed reports; the batch of overviews (\<open>overview\<close>) validates what the agents deliver and has the ledger
  capture or release each reserve. The publisher funds the escrow of the task (\<open>taskfunding\<close>), whose events are booked
  block by block (the store of \<open>chain\<close>), and selects one agent
  (\<open>selection\<close>): the platform signs a proof, the publisher submits it to the contract, the projection of the chain
  (\<open>chain\<close>) finds the transaction, and the reservation becomes an assignment. The selected agent delivers in versions
  (\<open>delivery\<close>): three are included, the publisher answers each with feedback, further ones need a change order that
  somebody pays, and the acceptance of a version is confirmed by the release of the escrow on the chain. A dispute
  (\<open>dispute\<close>) about the work freezes the escrow, is decided by an arbitrator, and can be reviewed.

  \<^bold>\<open>The theories.\<close> Each package is a group of theories with its name as a prefix: \<open>_Types\<close> (records, enumerations
  as strings where the code compares strings, errors as a datatype), the operations file by file, \<open>_Invariant\<close> and
  \<open>_Facts\<close> (lemmas) and \<open>_Properties\<close> (the concrete values that the witnesses evaluate, and the properties).

  \<^item> \<open>Prelude\<close>, \<open>Go_Lib\<close>, \<open>Money\<close>, \<open>Digest\<close>, \<open>Identity\<close>: results (\<open>'e + 'a\<close> for \<open>(T, error)\<close>), Go maps as association lists,
    64-bit arithmetic, time, byte strings, sorting, decimal amounts, content addressing, sessions and leases. The
    locales \<open>replay_safe\<close> and \<open>replay_exact\<close> state the contract of an operation that may be retried, \<open>comparator\<close>
    that of a sort comparison, \<open>part_encoding\<close> that of a prefix-free encoding; the packages interpret them.
  \<^item> \<open>Funds_*\<close>: \<open>funds/{types,memory,service,overview_gateway}.go\<close>. The state is accounts, journals and allocations.
    Lemmas: double entry, no overdraft, refinement of posting to net amounts, reserves covered, replays.
  \<^item> \<open>Matching_*\<close>: \<open>matching/*.go\<close> without SQL. Lemmas: the gates partition the candidates, scores are bounded, the
    draw is proportional and independent of the order of the pool, the snapshot service numbers and never rewrites.
  \<^item> \<open>Dispute_*\<close>: \<open>dispute/{types,state,memory,service}.go\<close>. A service call takes what its earlier repository calls read, and the
    repository at its \<open>Execute\<close>, as arguments; \<open>disputes_run\<close> gives every run of calls that interleave between their
    repository calls, over contexts whose case identifiers do not collide. Lemmas: well-formed cases, the edges of the
    state machine, who may decide, settle and read, replays, and what a call does that another one overtakes.
  \<^item> \<open>Execution_*\<close>: \<open>execution/{types,protocol,memory,service,runtime_credentials,http_client,callback_handler}.go\<close>.
    Lemmas: well-formed executions, refinement of an abstract machine of attempts, reports answered once and only
    from the holder of the lease, signatures that round-trip, redelivery.
  \<^item> \<open>Chain_*\<close>: \<open>chain/{types,decoder,memory,projector}.go\<close>. The state is the blocks by height, canonical or orphaned,
    and a cursor. Lemmas: the canonical blocks are one linked chain; synchronisation terminates and converges;
    confirmed selections are backed by calldata; the ABI words of a signed proof decode to the proof.
  \<^item> \<open>Selection_*\<close>: \<open>selection/{types,proof,memory,service}.go\<close>. The state is eligibility, reservations, the active
    reservation of each task, and assignments. Lemmas: one live reservation per task, replays, what a confirmation
    needs. \<open>Selection_Chain\<close> joins the service and the projection; the two properties that span them are below.
  \<^item> \<open>Go_State\<close>, \<open>Overview_*\<close>: \<open>overview/{types,memory,service,validation}.go\<close>. \<open>Go_State\<close> is the monad of calls that read and
    change a state and may fail, with its triples. The state is the batches, each with its slots. Lemmas: well-formed
    batches, slots and bills that only advance, what a valid artifact is. \<open>Overview_Ledger\<close> states what the service
    needs of the money as the locale \<open>allocation_ledger\<close> and interprets it on the modelled funds gateway.
  \<^item> \<open>Sql_Ledger\<close>, \<open>Delivery_*\<close>: \<open>delivery/{types,state,service,proof}.go\<close> on \<open>delivery/postgres/*.go\<close>, the one store that
    has no in-memory form. \<open>Sql_Ledger\<close> is the fund tables of the database, with keys, checks and the balance trigger.
    \<open>Delivery_Types\<close> holds the data, the gate of the next version and of a settlement and the checks of the inputs;
    \<open>Delivery_Store\<close>, \<open>_Change\<close> and \<open>_Accept\<close> the transactions of \<open>store.go\<close>, \<open>change_order.go\<close> and \<open>acceptance.go\<close>;
    \<open>Delivery_Service\<close> the service. \<open>Delivery_Machine\<close> is the abstract machine of packages, versions, change orders and
    feedback with its invariant, \<open>Delivery_Refine\<close> shows that every call is one of its moves or none, \<open>Delivery_Replay\<close>
    that answers are kept, and \<open>Delivery_Facts\<close> what a settlement moves, what a confirmation needs, and where a package
    is stuck.
  \<^item> \<open>Escrow_*\<close>: \<open>taskfunding/service.go\<close> and \<open>chain/postgres/{store,settlement}.go\<close>, the funding of a task and the projection
    of the escrow's events onto the ledger. \<open>Escrow_Tables\<close> holds the rows, \<open>_Settlement\<close> the journals of an event and the
    reversal of a block, \<open>_Chain\<close> the transactions of the chain store, \<open>_Funding\<close> the service and the steps. Lemmas: the books
    balance against the live journals (\<open>_Ledger\<close>), a confirmed intent has one live funding, the store follows the
    repository in memory (\<open>_Invariant\<close>).

  \<^bold>\<open>How the code is read.\<close> A method of an in-memory repository runs under a lock and is one function of the state. A
  service call that waits for other services is a function whose remote calls are functions of the whole state, so
  any other calls may run during them; \<open>inductive\<close> relations of repository steps then give every interleaving. A
  transaction of the database is a function to an error or to an answer and the new tables: on an error it is rolled back,
  and as the transactions of one task exclude each other (advisory locks, rows locked for update), each is one step. Rows
  that other packages write may change between the steps as the model's relations say; the journals that other packages
  post are left out of the steps of \<open>Escrow_*\<close>. A service
  call of \<open>dispute\<close> makes several repository calls, and takes the states that the earlier ones read. In the other packages
  repository calls of one service call with no remote call between them follow each other uninterrupted, and in
  \<open>delivery\<close> so do the authorisation of a start and its transaction: the invariants and refinements stated over repository
  steps or transactions do not depend on this, the theorems that name a service call do. One
  call reads the clock once, but for the retention check of \<open>AppendEvidence\<close>. Loops are structural
  recursion, \<open>function\<close> with a measure (\<open>ancestor_from\<close>, the draws), or
  \<open>partial_function (option)\<close> where a source may keep the loop running (\<open>sync_loop\<close>, whose termination against a
  source that serves one chain is a theorem). Goroutines that are joined before the function goes on run in an
  order that is a parameter. The only fuel is in \<open>trim_with\<close> (the length of the string, which every
  step shortens). Machine integers keep their width: \<open>wrap64\<close> for \<open>int64\<close>, \<open>64 word\<close> for \<open>uint64\<close>.

  \<^bold>\<open>Parameters.\<close> SHA-256, HMAC, Keccak-256, the curve, JSON, URL and Base64 parsing, signature verification, the generated
  ABI bindings and the RPC source are arguments. Theorems name what they need of them: that two given inputs do not
  collide, the length of a digest, that the identifiers of the bindings differ, that a block hash commits to its
  parent.

  \<^bold>\<open>Not modelled.\<close> Contexts and cancellation; case folding beyond ASCII; the difference between nil and empty slices;
  times after the year 9999 in JSON; comparison functions that subtract integers are read on values in range, and
  \<open>sort.Slice\<close> as a stable sort. The PostgreSQL stores but those of
  \<open>delivery\<close> and \<open>chain\<close> implement the repository interfaces in SQL and are left out; of those two the payloads of audit
  events, the limits of column types, checks on the form of texts other than those of the ledger, and the triggers that
  only repeat a check of the code are left out, and of the chain store the queries for inventory, scopes and selection
  results. Left out are also the HTTP handlers, the queue consumers, the read views, generated code, the process
  wiring, and the packages \<open>task\<close>, \<open>agent\<close>, \<open>credential\<close> and \<open>workflow\<close>, whose state is in SQL only. The
  Solidity contract appears only as the logs it emits for a selection (\<open>Chain_Honest\<close>).
\<close>


text \<open>
  C10: An assignment rests on the chain. With the projection of the chain as the verifier, \<open>Reconcile\<close> returns an
  assignment only when a canonical block of the projection holds the transaction the caller named: a successful
  call of the escrow contract whose calldata decodes to the very proof the platform signed for this reservation.
\<close>

theorem assignment_is_on_chain:
  assumes "sp_verify P = chain_verifier D" "chain_reachable D S K (sw_rest s)"
    and "svc_reconcile P now session taskID i h s = (s', e, v', Some a)"
  shows "\<exists>v n m t. own_reservation session taskID i (sw_repo s) = Inr v \<and> canonical_at (sw_rest s) n = Some m \<and>
    t \<in> set (bl_Transactions (mb_block m)) \<and> tr_Hash t = to_lower h \<and> as_TransactionHash a = tr_Hash t \<and> tr_Status t = TxSucceeded \<and>
    to_lower (tr_To t) = so_Contract S \<and> decode_selection_input D (tr_Input t) = Inr (rv_Proof v)"
proof -
  from svc_reconcile_assignment [OF assms(3)] obtain v s1 res where r: "own_reservation session taskID i (sw_repo s) = Inr v"
    "sp_verify P (to_lower h) s = (s1, Inr res)" "proves res v" "as_TransactionHash a = hr_TransactionHash res" by blast
  then have ver: "verify_selection D (to_lower h) (sw_rest s) = Inr res"
    by (auto simp: assms(1) chain_verifier_def split: sum.splits)
  have "selection_result D (to_lower h) (sw_rest s) = Some res"
    using ver r(3) by (auto simp: verify_selection_def zero_chain_result_def proves_def split: if_splits option.splits)
  from selection_result_backed [OF chain_reachable_inv [OF assms(2)] this] r(3) obtain m t where
    "canonical_at (sw_rest s) (hr_BlockNumber res) = Some m" "t \<in> set (bl_Transactions (mb_block m))" "tr_Hash t = to_lower h" "backs D S t res"
    by (auto simp: proves_def)
  moreover from this r(3,4) have "as_TransactionHash a = tr_Hash t" "tr_Status t = TxSucceeded" "to_lower (tr_To t) = so_Contract S"
    "decode_selection_input D (tr_Input t) = Inr (rv_Proof v)" by (simp_all add: backs_def proves_def)
  ultimately show ?thesis using r(1) by blast
qed



theorem assignment_is_on_chain_witness:
  "\<exists>n m t. canonical_at demo_projection n = Some m \<and> t \<in> set (bl_Transactions (mb_block m)) \<and> tr_Hash t = demo_tx CHR ''x'' \<and>
    decode_selection_input demo_decoder (tr_Input t) = Inr demo_proof"
proof -
  from demo_joint_run obtain s' e v' a where c: "svc_reconcile demo_joint_peers (unix_time 1010) demo_publisher ''t1'' (rv_ID demo_reservation) (demo_tx CHR ''x'') demo_joint =
    (s', e, v', Some a)" by blast
  have "sp_verify demo_joint_peers = chain_verifier demo_decoder" by (simp add: demo_joint_peers_def)
  moreover have "chain_reachable demo_decoder demo_scope8 fork_parent (sw_rest demo_joint)" using demo_projection_reachable by (simp add: demo_joint_def)
  ultimately show ?thesis using assignment_is_on_chain [OF _ _ c] demo_own
    by (fastforce simp: demo_joint_def demo_reservation_def)
qed

end
